(* ===== verification/Py_Prelude.thy ===== *)
theory Py_Prelude
  imports Complex_Main "HOL-Library.AList" "HOL-Library.Char_ord" "HOL-Library.List_Lexorder"
    "HOL-Library.Product_Lexorder" "HOL-Library.Multiset" "HOL-Library.Sublist"
begin

text \<open>
  The vocabulary the component theories share.

  Python values that the code stores under \<open>dict[str, Any]\<close> are of type \<open>pyval\<close>. A Python
  \<open>dict\<close> keeps insertion order and updates a present key in place; that is exactly an association
  list under \<open>AList.update\<close>, read with \<open>map_of\<close>. Python's \<open>list.sort\<close>/\<open>sorted\<close> are stable, as
  \<open>sort_key\<close> is. An aware UTC \<open>datetime\<close> is its number of microseconds since the epoch (an \<open>int\<close>,
  Python's resolution), a \<open>float\<close> number of seconds is a \<open>rat\<close>. An operation that reads
  \<open>datetime.now(UTC)\<close> takes each reading as an argument, in the order the code takes them.
\<close>

named_theorems dict_simps \<open>lookups after dictionary updates\<close>

section \<open>Values, instants and durations\<close>

type_synonym time = int
type_synonym seconds = rat

datatype pyval =
    PyNone
  | PyBool bool
  | PyInt int
  | PyFloat rat
  | PyStr string
  | PyTime time  \<comment> \<open>the ISO text of an instant\<close>
  | PyList "pyval list"
  | PyDict "(string \<times> pyval) list"

type_synonym pydict = "(string \<times> pyval) list"

text \<open>\<open>bool(v)\<close>.\<close>

fun truthy :: "pyval \<Rightarrow> bool" where
  "truthy PyNone = False"
| "truthy (PyBool b) = b"
| "truthy (PyInt n) = (n \<noteq> 0)"
| "truthy (PyFloat q) = (q \<noteq> 0)"
| "truthy (PyStr s) = (s \<noteq> [])"
| "truthy (PyTime t) = True"
| "truthy (PyList vs) = (vs \<noteq> [])"
| "truthy (PyDict d) = (d \<noteq> [])"

text \<open>The number a value is in a comparison or an addition; \<open>None\<close> where Python raises TypeError.\<close>

fun py_number :: "pyval \<Rightarrow> rat option" where
  "py_number (PyBool b) = Some (if b then 1 else 0)"
| "py_number (PyInt n) = Some (of_int n)"
| "py_number (PyFloat q) = Some q"
| "py_number _ = None"

fun py_plus_one :: "pyval \<Rightarrow> pyval option" where
  "py_plus_one (PyBool b) = Some (PyInt (if b then 2 else 1))"
| "py_plus_one (PyInt n) = Some (PyInt (n + 1))"
| "py_plus_one (PyFloat q) = Some (PyFloat (q + 1))"
| "py_plus_one _ = None"

text \<open>\<open>bool(metadata.get(key))\<close>.\<close>

definition dict_truthy :: "pydict \<Rightarrow> string \<Rightarrow> bool" where
  "dict_truthy d k = (case map_of d k of None \<Rightarrow> False | Some v \<Rightarrow> truthy v)"

text \<open>\<open>round\<close> to the nearest integer, ties to even, as Python's \<open>round\<close> and \<open>timedelta\<close> do.\<close>

definition round_half_even :: "rat \<Rightarrow> int" where
  "round_half_even x =
     (let n = \<lfloor>x\<rfloor>; d = x - of_int n
      in if d < 1/2 then n else if d > 1/2 then n + 1 else if even n then n else n + 1)"

definition micros :: "seconds \<Rightarrow> int" where
  "micros s = round_half_even (s * 1000000)"

lemma round_half_even_of_int [simp]: "round_half_even (of_int n) = n"
  by (simp add: round_half_even_def Let_def)

lemma round_half_even_error: "\<bar>of_int (round_half_even x) - x\<bar> \<le> 1/2"
proof -
  have "of_int \<lfloor>x\<rfloor> \<le> x" "x < of_int \<lfloor>x\<rfloor> + 1" by linarith+
  then show ?thesis
    by (auto simp: round_half_even_def Let_def abs_le_iff)
qed

lemma round_half_even_mono: "x \<le> y \<Longrightarrow> round_half_even x \<le> round_half_even y"
proof -
  assume xy: "x \<le> y"
  show ?thesis
  proof (cases "\<lfloor>x\<rfloor> = \<lfloor>y\<rfloor>")
    case True
    with xy show ?thesis by (auto simp: round_half_even_def Let_def)
  next
    case False
    with xy have "\<lfloor>x\<rfloor> + 1 \<le> \<lfloor>y\<rfloor>" using floor_mono [OF xy] by linarith
    then show ?thesis by (auto simp: round_half_even_def Let_def)
  qed
qed

lemma round_half_even_nonneg: "0 \<le> x \<Longrightarrow> 0 \<le> round_half_even x"
  by (auto simp: round_half_even_def Let_def)

lemma micros_nonneg [intro]: "0 \<le> s \<Longrightarrow> 0 \<le> micros s"
  by (simp add: micros_def round_half_even_nonneg)

lemma micros_mono: "s \<le> t \<Longrightarrow> micros s \<le> micros t"
  by (simp add: micros_def round_half_even_mono mult_right_mono)

lemma micros_of_int [simp]: "micros (of_int n) = n * 1000000"
  using round_half_even_of_int [of "n * 1000000"] by (simp add: micros_def)

lemma micros_0 [simp]: "micros 0 = 0"
  using round_half_even_of_int [of 0] by (simp add: micros_def)

section \<open>Dictionaries\<close>

lemma map_of_update [dict_simps, simp]: "map_of (AList.update k v d) = (map_of d)(k \<mapsto> v)"
  by (rule update_conv')

lemma keys_update: "map fst (AList.update k v d) = map fst d @ (if k \<in> set (map fst d) then [] else [k])"
  by (auto simp: update_keys)

lemma distinct_keys_update [intro]: "distinct (map fst d) \<Longrightarrow> distinct (map fst (AList.update k v d))"
  by (rule distinct_update)

lemma set_keys_update [dict_simps]: "set (map fst (AList.update k v d)) = insert k (set (map fst d))"
  by (simp only: keys_update) auto

lemma map_of_in_keys: "map_of d k = Some v \<Longrightarrow> k \<in> set (map fst d)"
  by (induction d) (auto split: if_splits)

lemma in_keys_map_of: "k \<in> fst ` set d \<Longrightarrow> \<exists>v. map_of d k = Some v"
  by (induction d) auto

lemma map_of_eq_None_keys: "(map_of d k = None) = (k \<notin> set (map fst d))"
  by (simp add: map_of_eq_None_iff)

lemma update_present_keys:
  "k \<in> set (map fst d) \<Longrightarrow> map fst (AList.update k v d) = map fst d"
  by (simp only: keys_update) simp

text \<open>
  In-place mutation of the values of a dictionary leaves its keys and their order alone.
\<close>

definition map_vals :: "('v \<Rightarrow> 'v) \<Rightarrow> ('k \<times> 'v) list \<Rightarrow> ('k \<times> 'v) list" where
  "map_vals f d = map (\<lambda>(k, v). (k, f v)) d"

lemma keys_map_vals [simp]: "map fst (map_vals f d) = map fst d"
  by (induction d) (auto simp: map_vals_def)

lemma map_of_map_vals [simp]: "map_of (map_vals f d) k = map_option f (map_of d k)"
  by (induction d) (auto simp: map_vals_def)

lemma set_map_vals: "set (map_vals f d) = (\<lambda>(k, v). (k, f v)) ` set d"
  by (simp add: map_vals_def)

lemma update_values: "set (AList.update k n d) \<subseteq> insert (k, n) (set d)"
  by (induction d) auto

section \<open>Text\<close>

text \<open>\<open>sub in s\<close>, \<open>s.startswith(p)\<close>, \<open>s.split(sep, 1)[0]\<close> and \<open>s.lower()\<close> (on ASCII letters).\<close>

fun starts_with :: "string \<Rightarrow> string \<Rightarrow> bool" where
  "starts_with [] s = True"
| "starts_with (p # ps) [] = False"
| "starts_with (p # ps) (c # cs) = (p = c \<and> starts_with ps cs)"

fun contains :: "string \<Rightarrow> string \<Rightarrow> bool" where
  "contains sub [] = (sub = [])"
| "contains sub (c # cs) = (starts_with sub (c # cs) \<or> contains sub cs)"

fun split_head :: "string \<Rightarrow> string \<Rightarrow> string" where
  "split_head sep [] = []"
| "split_head sep (c # cs) = (if starts_with sep (c # cs) then [] else c # split_head sep cs)"

text \<open>A text is its UTF-8 bytes; \<open>len\<close> and slices count the bytes that begin a code point.\<close>

definition code_points :: "string \<Rightarrow> nat" where
  "code_points s = length (filter (\<lambda>c. of_char c div (64 :: nat) \<noteq> 2) s)"

fun take_points :: "nat \<Rightarrow> string \<Rightarrow> string" where
  "take_points n [] = []"
| "take_points n (c # s) =
     (if of_char c div (64 :: nat) = 2 then c # take_points n s
      else case n of 0 \<Rightarrow> [] | Suc m \<Rightarrow> c # take_points m s)"

definition lower_char :: "char \<Rightarrow> char" where
  "lower_char c = (let n = of_char c :: nat in if 65 \<le> n \<and> n \<le> 90 then char_of (n + 32) else c)"

definition lower :: "string \<Rightarrow> string" where
  "lower s = map lower_char s"

lemma starts_with_iff: "starts_with p s \<longleftrightarrow> (\<exists>r. s = p @ r)"
  by (induction p s rule: starts_with.induct) auto

lemma contains_iff: "contains sub s \<longleftrightarrow> (\<exists>l r. s = l @ sub @ r)"
proof (induction s)
  case Nil
  then show ?case by auto
next
  case (Cons c cs)
  show ?case
  proof
    assume "contains sub (c # cs)"
    with Cons show "\<exists>l r. c # cs = l @ sub @ r"
      by (auto simp: starts_with_iff) (metis append_Cons append_Nil)+
  next
    assume "\<exists>l r. c # cs = l @ sub @ r"
    then obtain l r where lr: "c # cs = l @ sub @ r" by blast
    show "contains sub (c # cs)"
    proof (cases l)
      case Nil
      with lr have "starts_with sub (c # cs)" unfolding starts_with_iff by auto
      then show ?thesis by simp
    next
      case (Cons a l')
      with lr have "cs = l' @ sub @ r" by simp
      with Cons.IH show ?thesis by auto
    qed
  qed
qed

lemma split_head_prefix: "\<exists>r. s = split_head sep s @ r"
  by (induction s) auto

text \<open>Decimal printing of an integer, as in an f-string.\<close>

definition digit_char :: "nat \<Rightarrow> char" where
  "digit_char d = char_of (48 + d)"

fun str_nat :: "nat \<Rightarrow> string" where
  "str_nat n = (if n < 10 then [digit_char n] else str_nat (n div 10) @ [digit_char (n mod 10)])"

declare str_nat.simps [simp del]

definition str_int :: "int \<Rightarrow> string" where
  "str_int i = (if i < 0 then CHR ''-'' # str_nat (nat (- i)) else str_nat (nat i))"

lemma digit_char_inj: "a < 10 \<Longrightarrow> b < 10 \<Longrightarrow> digit_char a = digit_char b \<Longrightarrow> a = b"
proof -
  assume a: "a < 10" and b: "b < 10" and e: "digit_char a = digit_char b"
  from e have "(of_char (char_of (48 + a) :: char) :: nat) = of_char (char_of (48 + b) :: char)"
    by (simp only: digit_char_def)
  with a b show "a = b" by simp
qed

lemma str_nat_nonempty [simp]: "str_nat n \<noteq> []" "[] \<noteq> str_nat n"
  by (subst str_nat.simps, simp)+

lemma str_nat_inj: "str_nat a = str_nat b \<Longrightarrow> a = b"
proof (induction a arbitrary: b rule: less_induct)
  case (less a)
  show ?case
  proof (cases "a < 10")
    case True
    note a = this
    show ?thesis
    proof (cases "b < 10")
      case True
      with a less.prems show ?thesis
        by (simp add: str_nat.simps [of a] str_nat.simps [of b]) (blast dest: digit_char_inj)
    next
      case False
      with a less.prems show ?thesis
        by (simp add: str_nat.simps [of a] str_nat.simps [of b])
    qed
  next
    case False
    note a = this
    show ?thesis
    proof (cases "b < 10")
      case True
      with a less.prems show ?thesis
        by (simp add: str_nat.simps [of a] str_nat.simps [of b])
    next
      case False
      with a less.prems have "str_nat (a div 10) = str_nat (b div 10)"
        and "digit_char (a mod 10) = digit_char (b mod 10)"
        by (simp_all add: str_nat.simps [of a] str_nat.simps [of b])
      moreover from a have "a div 10 < a" by simp
      ultimately have "a div 10 = b div 10" "a mod 10 = b mod 10"
        using less.IH digit_char_inj by auto
      then show ?thesis by (metis div_mod_decomp)
    qed
  qed
qed

lemma inj_str_nat: "inj str_nat"
  by (rule injI) (rule str_nat_inj)

text \<open>\<open>s.strip()\<close> and \<open>s.replace(c, d)\<close> for characters.\<close>

definition is_space :: "char \<Rightarrow> bool" where
  "is_space c = (let n = of_char c :: nat in n = 32 \<or> (9 \<le> n \<and> n \<le> 13) \<or> (28 \<le> n \<and> n \<le> 31))"

definition strip :: "string \<Rightarrow> string" where
  "strip s = rev (dropWhile is_space (rev (dropWhile is_space s)))"

definition replace_char :: "char \<Rightarrow> char \<Rightarrow> string \<Rightarrow> string" where
  "replace_char c d s = map (\<lambda>x. if x = c then d else x) s"

section \<open>Lists\<close>

text \<open>\<open>list(dict.fromkeys(xs))\<close>: drop repeated elements, keep the first of each.\<close>

fun dedup :: "'a list \<Rightarrow> 'a list" where
  "dedup [] = []"
| "dedup (x # xs) = x # filter (\<lambda>y. y \<noteq> x) (dedup xs)"

lemma set_dedup [simp]: "set (dedup xs) = set xs"
  by (induction xs) auto

lemma distinct_dedup [simp]: "distinct (dedup xs)"
  by (induction xs) auto

text \<open>\<open>del xs[:-n]\<close>: keep the last \<open>n\<close> elements.\<close>

definition keep_last :: "nat \<Rightarrow> 'a list \<Rightarrow> 'a list" where
  "keep_last n xs = drop (length xs - n) xs"

lemma length_keep_last [simp]: "length (keep_last n xs) = min n (length xs)"
  by (auto simp: keep_last_def)

text \<open>
  \<open>metadata.setdefault(key, []).append(v)\<close>, then \<open>del list[:-20]\<close> where the code trims; \<open>None\<close> when the
  entry under the key is no list.
\<close>

definition append_entry :: "nat option \<Rightarrow> string \<Rightarrow> pyval \<Rightarrow> pydict \<Rightarrow> pydict option" where
  "append_entry limit key v d =
     (let trim = (\<lambda>xs. case limit of None \<Rightarrow> xs | Some n \<Rightarrow> if length xs > n then keep_last n xs else xs)
      in case map_of d key of
           None \<Rightarrow> Some (AList.update key (PyList (trim [v])) d)
         | Some (PyList xs) \<Rightarrow> Some (AList.update key (PyList (trim (xs @ [v]))) d)
         | Some _ \<Rightarrow> None)"

text \<open>Reading the value of a computation that did not raise.\<close>

lemma map_sum_InrD: "map_sum id f x = Inr y \<Longrightarrow> \<exists>a. x = Inr a \<and> f a = y"
  by (cases x) auto

lemma subseq_distinct: "subseq xs ys \<Longrightarrow> distinct ys \<Longrightarrow> distinct xs"
  by (auto simp: subseq_conv_nths intro: distinct_nthsI)

lemma subseq_set_subset: "subseq xs ys \<Longrightarrow> set xs \<subseteq> set ys"
  by (auto simp: subseq_conv_nths dest: in_set_nthsD)

end
