(* ===== verification/Task_Graph.thy ===== *)
theory Task_Graph
  imports Py_Prelude
begin

text \<open>
  \<open>app/multiagent/task_graph.py\<close>: the plan. Data (status, budget, output contract, node, graph), the
  transition table, the graph algorithms (\<open>has_cycle\<close>, \<open>topological_order\<close>, \<open>ready_tasks\<close>,
  \<open>descendants\<close>) and the mutations. \<open>TaskGraph.nodes\<close> is the Python dict, an association list from
  the key to the node. A raised \<open>ValueError\<close>/\<open>KeyError\<close> is a value of \<open>graph_error\<close>. The theorems are
  in \<open>Task_Graph_Order\<close> and \<open>Task_Graph_Ops\<close>.
\<close>

section \<open>Data\<close>

datatype task_node_status =
  Node_PENDING | Node_READY | Node_RUNNING | Node_SUCCEEDED | Node_FAILED | Node_SKIPPED | Node_CANCELLED

datatype graph_error =
    SelfDependency string
  | RootMissing string
  | DanglingDependency string string
  | CycleDetected
  | DuplicateNode string
  | TargetMissing string
  | FieldValidation
  | NodeKeyError string
  | LoopNotFinished  \<comment> \<open>fuel of a modelled \<open>while\<close> loop used up\<close>

text \<open>\<open>_LEGAL_TRANSITIONS\<close> and \<open>is_legal_transition\<close>.\<close>

fun legal_transitions :: "task_node_status \<Rightarrow> task_node_status list" where
  "legal_transitions Node_PENDING = [Node_READY, Node_RUNNING, Node_SKIPPED, Node_CANCELLED]"
| "legal_transitions Node_READY = [Node_RUNNING, Node_SKIPPED, Node_CANCELLED]"
| "legal_transitions Node_RUNNING = [Node_SUCCEEDED, Node_FAILED, Node_CANCELLED]"
| "legal_transitions Node_SUCCEEDED = [Node_FAILED]"
| "legal_transitions Node_FAILED = [Node_PENDING, Node_SKIPPED, Node_CANCELLED]"
| "legal_transitions Node_SKIPPED = []"
| "legal_transitions Node_CANCELLED = []"

definition is_legal_transition :: "task_node_status \<Rightarrow> task_node_status \<Rightarrow> bool" where
  "is_legal_transition s t \<longleftrightarrow> t \<in> set (legal_transitions s)"

definition CAPABILITY_TIMEOUTS :: "(string \<times> seconds) list" where
  "CAPABILITY_TIMEOUTS =
     [(''planning'', 1200), (''research'', 600), (''coding'', 900), (''testing'', 600),
      (''reviewing'', 300), (''summarization'', 600)]"

fun capability_timeout_list :: "string list \<Rightarrow> seconds" where
  "capability_timeout_list [] = 0"
| "capability_timeout_list (cap # caps) =
     (case map_of CAPABILITY_TIMEOUTS cap of
        Some t \<Rightarrow> if t > 0 then t else capability_timeout_list caps
      | None \<Rightarrow> capability_timeout_list caps)"

definition capability_timeout :: "string list option \<Rightarrow> seconds" where
  "capability_timeout caps = (case caps of None \<Rightarrow> 0 | Some cs \<Rightarrow> capability_timeout_list cs)"

record task_budget =
  bud_max_attempts :: int
  bud_max_tool_calls :: int
  bud_max_seconds :: seconds
  bud_max_tokens :: "int option"

text \<open>The \<open>Field\<close> bounds of \<open>TaskBudget\<close>, checked when one is constructed.\<close>

definition task_budget_valid :: "task_budget \<Rightarrow> bool" where
  "task_budget_valid b \<longleftrightarrow>
     1 \<le> bud_max_attempts b \<and> bud_max_attempts b \<le> 10 \<and>
     1 \<le> bud_max_tool_calls b \<and> bud_max_tool_calls b \<le> 200 \<and>
     0 \<le> bud_max_seconds b \<and>
     (case bud_max_tokens b of None \<Rightarrow> True | Some n \<Rightarrow> 1 \<le> n)"

definition default_budget :: task_budget where
  "default_budget =
     \<lparr>bud_max_attempts = 4, bud_max_tool_calls = 40, bud_max_seconds = 0, bud_max_tokens = None\<rparr>"

record output_contract =
  oc_artifact_type :: string
  oc_description :: string
  oc_acceptance_criteria :: "string list"
  oc_required_artifacts :: "string list"
  oc_allow_parallel :: bool

definition default_contract :: output_contract where
  "default_contract = \<lparr>oc_artifact_type = ''any'', oc_description = [], oc_acceptance_criteria = [],
     oc_required_artifacts = [], oc_allow_parallel = True\<rparr>"

record execution_error =
  ee_code :: string
  ee_message :: string
  ee_tool_name :: "string option"
  ee_attempt :: int
  ee_occurred_at :: time

record task_node =
  node_id :: string
  node_title :: string
  node_objective :: string
  node_description :: string
  node_status :: task_node_status
  node_dependencies :: "string list"
  node_required_capabilities :: "string list"
  node_preferred_agent_profile :: "string option"
  node_assigned_agent_id :: "string option"
  node_input_artifact_ids :: "string list"
  node_output_artifact_ids :: "string list"
  node_output_contract :: output_contract
  node_priority :: int
  node_attempts :: int
  node_max_attempts :: int
  node_budget :: task_budget
  node_error :: "execution_error option"
  node_started_at :: "time option"
  node_completed_at :: "time option"
  node_metadata :: pydict

text \<open>A \<open>TaskNode\<close> with every field but the id at its default.\<close>

definition default_node :: "string \<Rightarrow> task_node" where
  "default_node i = \<lparr>node_id = i, node_title = [], node_objective = [], node_description = [],
     node_status = Node_PENDING, node_dependencies = [], node_required_capabilities = [],
     node_preferred_agent_profile = None, node_assigned_agent_id = None,
     node_input_artifact_ids = [], node_output_artifact_ids = [],
     node_output_contract = default_contract, node_priority = 0, node_attempts = 0,
     node_max_attempts = 4, node_budget = default_budget, node_error = None,
     node_started_at = None, node_completed_at = None, node_metadata = []\<rparr>"

text \<open>
  Constructing a \<open>TaskNode\<close>: pydantic checks the \<open>Field\<close> bounds (of the budget too), then runs the
  \<open>_no_self_dependency\<close> validator.
\<close>

definition new_task_node :: "task_node \<Rightarrow> graph_error + task_node" where
  "new_task_node n =
     (if 0 \<le> node_priority n \<and> 0 \<le> node_attempts n \<and> 1 \<le> node_max_attempts n
         \<and> task_budget_valid (node_budget n)
      then if node_id n \<in> set (node_dependencies n) then Inl (SelfDependency (node_id n)) else Inr n
      else Inl FieldValidation)"

definition is_terminal :: "task_node \<Rightarrow> bool" where
  "is_terminal n \<longleftrightarrow>
     node_status n \<in> {Node_SUCCEEDED, Node_FAILED, Node_SKIPPED, Node_CANCELLED}"

definition can_be_ready :: "task_node \<Rightarrow> bool" where
  "can_be_ready n \<longleftrightarrow> node_status n \<in> {Node_PENDING, Node_READY}"

type_synonym node_table = "(string \<times> task_node) list"

record task_graph =
  graph_root :: string
  graph_nodes :: node_table
  graph_version :: int
  graph_created_at :: time
  graph_updated_at :: time

abbreviation node_ids :: "task_graph \<Rightarrow> string list" where
  "node_ids g \<equiv> map fst (graph_nodes g)"

abbreviation get_node :: "task_graph \<Rightarrow> string \<Rightarrow> task_node option" where
  "get_node g k \<equiv> map_of (graph_nodes g) k"

text \<open>Constructing a \<open>TaskGraph\<close>: the \<open>_root_exists\<close> validator.\<close>

definition new_task_graph :: "task_graph \<Rightarrow> graph_error + task_graph" where
  "new_task_graph g =
     (if graph_nodes g \<noteq> [] \<and> graph_root g \<noteq> [] \<and> graph_root g \<notin> set (node_ids g)
      then Inl (RootMissing (graph_root g)) else Inr g)"

section \<open>Validation and the Kahn algorithm\<close>

text \<open>\<open>_check_all_dependencies_exist\<close>: the first dependency that is no key, in dict and list order.\<close>

fun missing_dependency :: "string list \<Rightarrow> task_node list \<Rightarrow> (string \<times> string) option" where
  "missing_dependency ks [] = None"
| "missing_dependency ks (n # ns) =
     (case find (\<lambda>d. d \<notin> set ks) (node_dependencies n) of
        Some d \<Rightarrow> Some (node_id n, d)
      | None \<Rightarrow> missing_dependency ks ns)"

definition check_all_dependencies_exist :: "task_graph \<Rightarrow> graph_error + unit" where
  "check_all_dependencies_exist g =
     (case missing_dependency (node_ids g) (map snd (graph_nodes g)) of
        None \<Rightarrow> Inr ()
      | Some (n, d) \<Rightarrow> Inl (DanglingDependency n d))"

text \<open>
  The two dictionaries of both loops: \<open>indeg\<close> (a plain dict, so a missing key is a KeyError) and
  \<open>adj\<close> (a \<open>defaultdict(list)\<close>, read with the empty list as its default).
\<close>

type_synonym degrees = "(string \<times> int) list"
type_synonym adjacency = "(string \<times> string list) list"

definition adj_get :: "adjacency \<Rightarrow> string \<Rightarrow> string list" where
  "adj_get adj k = (case map_of adj k of None \<Rightarrow> [] | Some xs \<Rightarrow> xs)"

definition adj_append :: "string \<Rightarrow> string \<Rightarrow> adjacency \<Rightarrow> adjacency" where
  "adj_append k x adj = AList.update k (adj_get adj k @ [x]) adj"

fun count_edges :: "string \<Rightarrow> string list \<Rightarrow> degrees \<Rightarrow> adjacency \<Rightarrow> graph_error + degrees \<times> adjacency" where
  "count_edges i [] ind adj = Inr (ind, adj)"
| "count_edges i (dep # deps) ind adj =
     (case map_of ind i of
        None \<Rightarrow> Inl (NodeKeyError i)
      | Some d \<Rightarrow> count_edges i deps (AList.update i (d + 1) ind) (adj_append dep i adj))"

fun build_edges :: "task_node list \<Rightarrow> degrees \<Rightarrow> adjacency \<Rightarrow> graph_error + degrees \<times> adjacency" where
  "build_edges [] ind adj = Inr (ind, adj)"
| "build_edges (n # ns) ind adj =
     (case count_edges (node_id n) (node_dependencies n) ind adj of
        Inl e \<Rightarrow> Inl e
      | Inr (ind', adj') \<Rightarrow> build_edges ns ind' adj')"

definition initial_degrees :: "task_graph \<Rightarrow> degrees" where
  "initial_degrees g = map (\<lambda>k. (k, 0)) (node_ids g)"

definition build_degrees :: "task_graph \<Rightarrow> graph_error + degrees \<times> adjacency" where
  "build_degrees g = build_edges (map snd (graph_nodes g)) (initial_degrees g) []"

text \<open>
  The inner loop over \<open>adj[nid]\<close>, the same in both algorithms but for how a node that became ready is
  added to the worklist: \<open>deque.append\<close> or \<open>heappush\<close>.
\<close>

fun relax :: "(string \<Rightarrow> string list \<Rightarrow> string list) \<Rightarrow> string list \<Rightarrow> degrees \<Rightarrow> string list
    \<Rightarrow> graph_error + degrees \<times> string list" where
  "relax add [] ind q = Inr (ind, q)"
| "relax add (s # ss) ind q =
     (case map_of ind s of
        None \<Rightarrow> Inl (NodeKeyError s)
      | Some d \<Rightarrow> relax add ss (AList.update s (d - 1) ind) (if d - 1 = 0 then add s q else q))"

definition positive_degrees :: "degrees \<Rightarrow> nat" where
  "positive_degrees ind = length (filter (\<lambda>(k, d). 0 < d) ind)"

lemma positive_degrees_update:
  "map_of ind s = Some d \<Longrightarrow>
     positive_degrees (AList.update s (d - 1) ind) + (if d - 1 = 0 then 1 else 0) \<le> positive_degrees ind"
  by (induction ind) (auto simp: positive_degrees_def split: if_splits)

text \<open>The size of worklist and positive degrees together never grows in the inner loop.\<close>

lemma relax_measure:
  assumes "\<And>x q. length (add x q) = Suc (length q)"
  shows "relax add ss ind q = Inr (ind', q') \<Longrightarrow>
    length q' + positive_degrees ind' \<le> length q + positive_degrees ind"
proof (induction ss arbitrary: ind q)
  case (Cons s ss)
  then obtain d where d: "map_of ind s = Some d" by (auto split: option.splits)
  with Cons have "length q' + positive_degrees ind' \<le>
      length (if d - 1 = 0 then add s q else q) + positive_degrees (AList.update s (d - 1) ind)"
    by simp
  with positive_degrees_update [OF d] assms [of s q] show ?case
    by (cases "d = 1") auto
qed simp

definition deque_append :: "string \<Rightarrow> string list \<Rightarrow> string list" where
  "deque_append x q = q @ [x]"

text \<open>The \<open>while queue\<close> loop of \<open>has_cycle\<close>; \<open>visited\<close> is the counter.\<close>

function kahn_count :: "adjacency \<Rightarrow> degrees \<Rightarrow> string list \<Rightarrow> nat \<Rightarrow> graph_error + nat" where
  "kahn_count adj ind [] visited = Inr visited"
| "kahn_count adj ind (nid # q) visited =
     (case relax deque_append (adj_get adj nid) ind q of
        Inl e \<Rightarrow> Inl e
      | Inr (ind', q') \<Rightarrow> kahn_count adj ind' q' (Suc visited))"
  by pat_completeness auto
termination
  by (relation "measure (\<lambda>(adj, ind, q, v). length q + positive_degrees ind)")
    (auto simp: deque_append_def dest!: relax_measure [rotated])

definition zero_degree :: "degrees \<Rightarrow> string list" where
  "zero_degree ind = map fst (filter (\<lambda>(k, d). d = 0) ind)"

definition has_cycle :: "task_graph \<Rightarrow> graph_error + bool" where
  "has_cycle g =
     (case build_degrees g of
        Inl e \<Rightarrow> Inl e
      | Inr (ind, adj) \<Rightarrow>
          (case kahn_count adj ind (zero_degree ind) 0 of
             Inl e \<Rightarrow> Inl e
           | Inr visited \<Rightarrow> Inr (visited \<noteq> length (graph_nodes g))))"

definition validate :: "task_graph \<Rightarrow> graph_error + unit" where
  "validate g =
     (case check_all_dependencies_exist g of
        Inl e \<Rightarrow> Inl e
      | Inr _ \<Rightarrow>
          (case has_cycle g of
             Inl e \<Rightarrow> Inl e
           | Inr c \<Rightarrow> if c then Inl CycleDetected else Inr ()))"

text \<open>
  The heap entries are the tuples \<open>(-priority, id)\<close>, so an entry is determined by its id; the heap is
  the list of its ids in ascending order of the tuples, and \<open>heappop\<close> takes the first. (The lookup of
  a successor's priority follows its lookup in \<open>indeg\<close>, which has the same keys.)
\<close>

definition rank :: "task_graph \<Rightarrow> string \<Rightarrow> int \<times> string" where
  "rank g nid = (case get_node g nid of None \<Rightarrow> (0, nid) | Some n \<Rightarrow> (- node_priority n, nid))"

definition heappush :: "task_graph \<Rightarrow> string \<Rightarrow> string list \<Rightarrow> string list" where
  "heappush g nid heap = insort_key (rank g) nid heap"

function kahn_order :: "task_graph \<Rightarrow> adjacency \<Rightarrow> degrees \<Rightarrow> string list \<Rightarrow> string list
    \<Rightarrow> graph_error + string list" where
  "kahn_order g adj ind [] result = Inr result"
| "kahn_order g adj ind (nid # heap) result =
     (case relax (heappush g) (adj_get adj nid) ind heap of
        Inl e \<Rightarrow> Inl e
      | Inr (ind', heap') \<Rightarrow> kahn_order g adj ind' heap' (result @ [nid]))"
  by pat_completeness auto
termination
  by (relation "measure (\<lambda>(g, adj, ind, q, r). length q + positive_degrees ind)")
    (auto simp: heappush_def dest!: relax_measure [rotated])

definition topological_order :: "task_graph \<Rightarrow> graph_error + string list" where
  "topological_order g =
     (case validate g of
        Inl e \<Rightarrow> Inl e
      | Inr _ \<Rightarrow>
          (case build_degrees g of
             Inl e \<Rightarrow> Inl e
           | Inr (ind, adj) \<Rightarrow>
               let queue = sort_key (rank g) (zero_degree ind);
                   heap = fold (heappush g) queue []
               in kahn_order g adj ind heap []))"

section \<open>Ready tasks and descendants\<close>

text \<open>\<open>all(self.nodes[dep].status == SUCCEEDED ...)\<close>: stops at the first that is not, KeyError before.\<close>

fun deps_succeeded :: "node_table \<Rightarrow> string list \<Rightarrow> graph_error + bool" where
  "deps_succeeded nodes [] = Inr True"
| "deps_succeeded nodes (dep # deps) =
     (case map_of nodes dep of
        None \<Rightarrow> Inl (NodeKeyError dep)
      | Some n \<Rightarrow> if node_status n = Node_SUCCEEDED then deps_succeeded nodes deps else Inr False)"

fun collect_ready :: "node_table \<Rightarrow> task_node list \<Rightarrow> graph_error + task_node list" where
  "collect_ready nodes [] = Inr []"
| "collect_ready nodes (n # ns) =
     (if \<not> can_be_ready n then collect_ready nodes ns
      else case deps_succeeded nodes (node_dependencies n) of
             Inl e \<Rightarrow> Inl e
           | Inr ok \<Rightarrow>
               (case collect_ready nodes ns of
                  Inl e \<Rightarrow> Inl e
                | Inr ready \<Rightarrow> Inr (if ok then n # ready else ready)))"

definition ready_tasks :: "task_graph \<Rightarrow> graph_error + task_node list" where
  "ready_tasks g =
     (case collect_ready (graph_nodes g) (map snd (graph_nodes g)) of
        Inl e \<Rightarrow> Inl e
      | Inr ready \<Rightarrow> Inr (sort_key (\<lambda>n. (- node_priority n, node_id n)) ready))"

text \<open>
  \<open>descendants\<close>: depth-first search over the child map. The Python stack pops from its end, so the
  model keeps it with the top first and pushes the children reversed.
\<close>

definition build_children :: "task_graph \<Rightarrow> adjacency" where
  "build_children g =
     fold (\<lambda>n. fold (\<lambda>dep. adj_append dep (node_id n)) (node_dependencies n))
       (map snd (graph_nodes g)) []"

function dfs :: "adjacency \<Rightarrow> string list \<Rightarrow> string list \<Rightarrow> string list" where
  "dfs adj [] seen = seen"
| "dfs adj (nid # stack) seen =
     (if nid \<in> set seen then dfs adj stack seen
      else dfs adj (rev (adj_get adj nid) @ stack) (nid # seen))"
  by pat_completeness auto

lemma unseen_decreases:
  "nid \<notin> set seen \<Longrightarrow>
     length (filter (\<lambda>(k, _). k \<notin> set (nid # seen)) adj) < length (filter (\<lambda>(k, _). k \<notin> set seen) adj)
     \<or> length (filter (\<lambda>(k, _). k \<notin> set (nid # seen)) adj) = length (filter (\<lambda>(k, _). k \<notin> set seen) adj)
       \<and> adj_get adj nid = []"
  by (induction adj) (auto simp: adj_get_def)

termination dfs
proof (relation "measures [\<lambda>(adj, st, seen). length (filter (\<lambda>(k, _). k \<notin> set seen) adj),
    \<lambda>(adj, st, seen). length st]", goal_cases)
  case (3 adj nid stack seen)
  then show ?case using unseen_decreases [of nid seen adj] by auto
qed auto

definition descendants :: "task_graph \<Rightarrow> string \<Rightarrow> string set" where
  "descendants g nid =
     (if nid \<notin> set (node_ids g) then {}
      else let children = build_children g
           in set (dfs children (rev (adj_get children nid)) []))"

section \<open>Mutations\<close>

text \<open>\<open>_touch\<close>: every mutation increments the version.\<close>

definition touch :: "time \<Rightarrow> task_graph \<Rightarrow> task_graph" where
  "touch now g = g\<lparr>graph_version := graph_version g + 1, graph_updated_at := now\<rparr>"

definition put_node :: "string \<Rightarrow> task_node \<Rightarrow> task_graph \<Rightarrow> task_graph" where
  "put_node k n g = g\<lparr>graph_nodes := AList.update k n (graph_nodes g)\<rparr>"

definition add_node :: "time \<Rightarrow> task_node \<Rightarrow> task_graph \<Rightarrow> graph_error + task_graph" where
  "add_node now n g =
     (if node_id n \<in> set (node_ids g) then Inl (DuplicateNode (node_id n))
      else Inr (touch now (put_node (node_id n) n g)))"

text \<open>
  \<open>update_status\<close> reads the clock once for \<open>started_at\<close> or \<open>completed_at\<close> (\<open>t1\<close>) and once in
  \<open>_touch\<close> (\<open>t2\<close>).
\<close>

definition apply_status :: "time \<Rightarrow> task_node_status \<Rightarrow> task_node \<Rightarrow> task_node" where
  "apply_status t1 st n =
     (let n1 = n\<lparr>node_status := st\<rparr>;
          n2 = (if st = Node_RUNNING \<and> node_started_at n1 = None then n1\<lparr>node_started_at := Some t1\<rparr> else n1)
      in if st \<in> {Node_SUCCEEDED, Node_FAILED, Node_SKIPPED, Node_CANCELLED}
         then n2\<lparr>node_completed_at := Some t1\<rparr> else n2)"

definition update_status ::
    "time \<Rightarrow> time \<Rightarrow> string \<Rightarrow> task_node_status \<Rightarrow> task_graph \<Rightarrow> task_graph \<times> bool" where
  "update_status t1 t2 nid st g =
     (case get_node g nid of
        None \<Rightarrow> (g, False)
      | Some n \<Rightarrow>
          if \<not> is_legal_transition (node_status n) st then (g, False)
          else (touch t2 (put_node nid (apply_status t1 st n) g), True))"

definition assign_agent :: "time \<Rightarrow> string \<Rightarrow> string option \<Rightarrow> task_graph \<Rightarrow> task_graph" where
  "assign_agent now nid agent g =
     (case get_node g nid of
        None \<Rightarrow> g
      | Some n \<Rightarrow> touch now (put_node nid (n\<lparr>node_assigned_agent_id := agent\<rparr>) g))"

definition record_attempt :: "time \<Rightarrow> string \<Rightarrow> execution_error option \<Rightarrow> task_graph \<Rightarrow> task_graph" where
  "record_attempt now nid err g =
     (case get_node g nid of
        None \<Rightarrow> g
      | Some n \<Rightarrow>
          let n1 = n\<lparr>node_attempts := node_attempts n + 1\<rparr>;
              n2 = (case err of None \<Rightarrow> n1 | Some e \<Rightarrow> n1\<lparr>node_error := Some e\<rparr>)
          in touch now (put_node nid n2 g))"

definition accept_artifact :: "time \<Rightarrow> string \<Rightarrow> string \<Rightarrow> task_graph \<Rightarrow> task_graph" where
  "accept_artifact now nid art g =
     (case get_node g nid of
        None \<Rightarrow> g
      | Some n \<Rightarrow>
          if art \<in> set (node_output_artifact_ids n) then g
          else touch now (put_node nid
                 (n\<lparr>node_output_artifact_ids := node_output_artifact_ids n @ [art]\<rparr>) g))"

subsection \<open>Repair tasks\<close>

definition repair_marker :: string where
  "repair_marker = ''__repair_v''"

text \<open>The id of the repair: the part of the target's id before the first marker.\<close>

definition repair_base_id :: "string \<Rightarrow> string" where
  "repair_base_id target =
     (if contains repair_marker target then split_head repair_marker target else target)"

definition numbered_repair_id :: "string \<Rightarrow> int \<Rightarrow> nat \<Rightarrow> string" where
  "numbered_repair_id target ver i = target @ repair_marker @ str_int ver @ ''_'' @ str_nat i"

text \<open>
  \<open>while repair_id in self.nodes: i += 1; ...\<close>, with fuel; \<open>repair_id_loop_finishes\<close> shows that one more
  round than there are nodes is enough.
\<close>

fun repair_id_loop :: "nat \<Rightarrow> string list \<Rightarrow> string \<Rightarrow> int \<Rightarrow> nat \<Rightarrow> string \<Rightarrow> string option" where
  "repair_id_loop 0 ks target ver i rid = None"
| "repair_id_loop (Suc fuel) ks target ver i rid =
     (if rid \<in> set ks
      then repair_id_loop fuel ks target ver (i + 1) (numbered_repair_id target ver (i + 1))
      else Some rid)"

definition fresh_repair_id :: "task_graph \<Rightarrow> string \<Rightarrow> string option" where
  "fresh_repair_id g target =
     repair_id_loop (length (graph_nodes g) + 2) (node_ids g) target (graph_version g) 0
       (repair_base_id target @ repair_marker @ str_int (graph_version g))"

definition or_list :: "'a list \<Rightarrow> 'a list \<Rightarrow> 'a list" where
  "or_list xs ys = (if xs = [] then ys else xs)"

definition or_int :: "int \<Rightarrow> int \<Rightarrow> int" where
  "or_int x y = (if x = 0 then y else x)"

text \<open>The UTF-8 bytes of the two parts of the description's f-string.\<close>

definition repair_description_prefix :: string where
  "repair_description_prefix = [CHR 0xE5, CHR 0x9C, CHR 0xA8, CHR 0x20]"

definition repair_description_suffix :: string where
  "repair_description_suffix =
     [CHR 0x20, CHR 0xE5, CHR 0x9F, CHR 0xBA, CHR 0xE7, CHR 0xA1, CHR 0x80,
      CHR 0xE4, CHR 0xB8, CHR 0x8A, CHR 0xE7, CHR 0x9A, CHR 0x84,
      CHR 0xE4, CHR 0xBF, CHR 0xAE, CHR 0xE5, CHR 0xA4, CHR 0x8D,
      CHR 0xE4, CHR 0xBB, CHR 0xBB, CHR 0xE5, CHR 0x8A, CHR 0xA1]"

definition repair_node :: "string \<Rightarrow> string \<Rightarrow> string \<Rightarrow> string list option \<Rightarrow> task_node \<Rightarrow> task_node" where
  "repair_node rid target_id objective caps target =
     (let repair_caps = or_list (case caps of None \<Rightarrow> [] | Some cs \<Rightarrow> cs)
                          (or_list (node_required_capabilities target) [''coding'', ''file_write'']);
          inherited = bud_max_seconds (node_budget target);
          repair_timeout = (if inherited \<le> 0 then capability_timeout (Some repair_caps) else inherited);
          repair_max_attempts = max (max (or_int (node_max_attempts target) 4)
                                         (or_int (bud_max_attempts (node_budget target)) 4)) 4;
          repair_max_tool_calls = max (or_int (bud_max_tool_calls (node_budget target)) 40) 80;
          contract = node_output_contract target
      in (default_node rid)\<lparr>
           node_title := ''Repair '' @ target_id,
           node_objective := objective,
           node_description := repair_description_prefix @ target_id @ repair_description_suffix,
           node_status := Node_PENDING,
           node_dependencies := node_dependencies target,
           node_required_capabilities := repair_caps,
           node_output_contract := \<lparr>oc_artifact_type = oc_artifact_type contract,
             oc_description = oc_description contract,
             oc_acceptance_criteria = oc_acceptance_criteria contract,
             oc_required_artifacts = [], oc_allow_parallel = True\<rparr>,
           node_priority := 10,
           node_max_attempts := repair_max_attempts,
           node_budget := \<lparr>bud_max_attempts = repair_max_attempts,
             bud_max_tool_calls = repair_max_tool_calls,
             bud_max_seconds = repair_timeout, bud_max_tokens = None\<rparr>\<rparr>)"

text \<open>The loop that makes every node that depends on the target depend on the repair instead.\<close>

definition rewire :: "string \<Rightarrow> string \<Rightarrow> task_node \<Rightarrow> task_node" where
  "rewire target_id rid n =
     (if target_id \<in> set (node_dependencies n)
      then n\<lparr>node_dependencies := map (\<lambda>d. if d = target_id then rid else d) (node_dependencies n)\<rparr>
      else n)"

definition rewire_all :: "string \<Rightarrow> string \<Rightarrow> task_graph \<Rightarrow> task_graph" where
  "rewire_all target_id rid g = g\<lparr>graph_nodes := map_vals (rewire target_id rid) (graph_nodes g)\<rparr>"

text \<open>
  \<open>clk i\<close> is the \<open>i\<close>-th clock reading. A RUNNING target stays RUNNING: its transition to SKIPPED is illegal and the result of
  \<open>update_status\<close> is ignored.
\<close>

definition add_repair_task :: "(nat \<Rightarrow> time) \<Rightarrow> string \<Rightarrow> string \<Rightarrow> string list option \<Rightarrow> task_graph
    \<Rightarrow> graph_error + task_graph \<times> task_node" where
  "add_repair_task clk target_id objective caps g =
     (case get_node g target_id of
        None \<Rightarrow> Inl (TargetMissing target_id)
      | Some target \<Rightarrow>
          (case fresh_repair_id g target_id of
             None \<Rightarrow> Inl LoopNotFinished
           | Some rid \<Rightarrow>
               (case new_task_node (repair_node rid target_id objective caps target) of
                  Inl e \<Rightarrow> Inl e
                | Inr n \<Rightarrow>
                    (case add_node (clk 0) n g of
                       Inl e \<Rightarrow> Inl e
                     | Inr g1 \<Rightarrow>
                         let g2 = rewire_all target_id rid g1;
                             g3 = (if node_status target = Node_SUCCEEDED
                                   then fst (update_status (clk 1) (clk 2) target_id Node_FAILED g2)
                                   else g2);
                             g4 = fst (update_status (clk 3) (clk 4) target_id Node_SKIPPED g3)
                         in Inr (g4, rewire target_id rid n)))))"

section \<open>The state of the whole graph\<close>

definition graph_all_succeeded :: "task_graph \<Rightarrow> bool" where
  "graph_all_succeeded g \<longleftrightarrow>
     (\<forall>n \<in> set (map snd (graph_nodes g)). node_status n \<in> {Node_SUCCEEDED, Node_SKIPPED})"

record graph_summary =
  gs_version :: int
  gs_total :: nat
  gs_by_status :: "(task_node_status \<times> nat) list"
  gs_ready :: "string list"

definition count_status :: "task_node list \<Rightarrow> (task_node_status \<times> nat) list" where
  "count_status ns =
     fold (\<lambda>n counts. AList.update (node_status n)
             ((case map_of counts (node_status n) of None \<Rightarrow> 0 | Some c \<Rightarrow> c) + 1) counts) ns []"

definition graph_summary_of :: "task_graph \<Rightarrow> graph_error + graph_summary" where
  "graph_summary_of g =
     (case ready_tasks g of
        Inl e \<Rightarrow> Inl e
      | Inr ready \<Rightarrow> Inr \<lparr>gs_version = graph_version g, gs_total = length (graph_nodes g),
          gs_by_status = count_status (map snd (graph_nodes g)), gs_ready = map node_id ready\<rparr>)"

end
