(* ===== verification/Task_Graph_Order.thy ===== *)
theory Task_Graph_Order
  imports Task_Graph
begin

text \<open>
  What the graph algorithms of \<open>Task_Graph\<close> compute. Both loops of Kahn's algorithm differ only in the
  worklist; the locale \<open>worklist\<close> states what they need of it (adding puts exactly one element in), the
  invariant is proved once inside it, and the deque and the heap interpret it. From it:
  \<open>has_cycle\<close> decides acyclicity of the dependency relation, \<open>topological_order\<close> is total on valid
  graphs and returns the one order in which each position holds the least (by \<open>(-priority, id)\<close>) of
  the nodes whose dependencies are all placed, and \<open>descendants\<close> is reachability.
\<close>

section \<open>Well-formed graphs\<close>

definition wf_graph :: "task_graph \<Rightarrow> bool" where
  "wf_graph g \<longleftrightarrow> distinct (node_ids g) \<and> (\<forall>(k, n) \<in> set (graph_nodes g). node_id n = k)"

definition deps_of :: "task_graph \<Rightarrow> string \<Rightarrow> string list" where
  "deps_of g k = (case get_node g k of None \<Rightarrow> [] | Some n \<Rightarrow> node_dependencies n)"

definition closed_graph :: "task_graph \<Rightarrow> bool" where
  "closed_graph g \<longleftrightarrow> (\<forall>k \<in> set (node_ids g). set (deps_of g k) \<subseteq> set (node_ids g))"

lemma closed_graphD: "closed_graph g \<Longrightarrow> k \<in> set (node_ids g) \<Longrightarrow> set (deps_of g k) \<subseteq> set (node_ids g)"
  by (simp only: closed_graph_def)

text \<open>\<open>(d, k)\<close>: the node \<open>k\<close> depends on \<open>d\<close>.\<close>

definition dep_edges :: "string list \<Rightarrow> (string \<Rightarrow> string list) \<Rightarrow> (string \<times> string) set" where
  "dep_edges ks deps = {(d, k). k \<in> set ks \<and> d \<in> set (deps k)}"

definition dep_rel :: "task_graph \<Rightarrow> (string \<times> string) set" where
  "dep_rel g = dep_edges (node_ids g) (deps_of g)"

lemma wf_graph_id: "wf_graph g \<Longrightarrow> get_node g k = Some n \<Longrightarrow> node_id n = k"
  by (auto simp: wf_graph_def dest!: map_of_SomeD)

lemma deps_of_Some [simp]: "get_node g k = Some n \<Longrightarrow> deps_of g k = node_dependencies n"
  by (simp add: deps_of_def)

lemma deps_of_outside: "k \<notin> set (node_ids g) \<Longrightarrow> deps_of g k = []"
  by (cases "get_node g k") (auto simp: deps_of_def dest: map_of_in_keys)

section \<open>Degrees\<close>

definition deg :: "degrees \<Rightarrow> string \<Rightarrow> int" where
  "deg ind k = (case map_of ind k of None \<Rightarrow> 0 | Some d \<Rightarrow> d)"

lemma deg_update: "deg (AList.update s d ind) k = (if k = s then d else deg ind k)"
  by (simp add: deg_def)

lemma deg_present: "k \<in> set (map fst ind) \<Longrightarrow> map_of ind k = Some (deg ind k)"
  using in_keys_map_of [of k ind] by (auto simp: deg_def)

lemma count_list_zero_iff: "count_list xs x = 0 \<longleftrightarrow> x \<notin> set xs"
  by (induction xs) auto

lemma zero_degree_set:
  "distinct (map fst ind) \<Longrightarrow> set (zero_degree ind) = {k \<in> set (map fst ind). deg ind k = 0}"
  by (force simp: zero_degree_def deg_def image_iff dest: map_of_SomeD)

lemma distinct_zero_degree: "distinct (map fst ind) \<Longrightarrow> distinct (zero_degree ind)"
  unfolding zero_degree_def by (induction ind) (auto simp: case_prod_beta)

section \<open>The Kahn invariant\<close>

text \<open>
  \<open>out\<close> are the nodes already taken from the worklist \<open>q\<close>, in order. The degree of a node is the number
  of its dependencies not yet taken, and the nodes taken or waiting are those of degree zero.
\<close>

definition kahn_inv :: "string list \<Rightarrow> (string \<Rightarrow> string list) \<Rightarrow> degrees \<Rightarrow> string list \<Rightarrow> string list \<Rightarrow> bool" where
  "kahn_inv ks deps ind q out \<longleftrightarrow>
     map fst ind = ks \<and> distinct ks \<and> distinct (out @ q) \<and>
     (\<forall>k \<in> set ks. deg ind k = int (length (filter (\<lambda>d. d \<notin> set out) (deps k)))) \<and>
     set out \<union> set q = {k \<in> set ks. deg ind k = 0} \<and>
     (\<forall>i < length out. set (deps (out ! i)) \<subseteq> set (take i out))"

lemma kahn_invD:
  assumes "kahn_inv ks deps ind q out"
  shows "map fst ind = ks" "distinct ks" "distinct out" "distinct q" "set out \<inter> set q = {}"
    "k \<in> set ks \<Longrightarrow> deg ind k = int (length (filter (\<lambda>d. d \<notin> set out) (deps k)))"
    "set out \<union> set q = {k \<in> set ks. deg ind k = 0}"
    "i < length out \<Longrightarrow> set (deps (out ! i)) \<subseteq> set (take i out)"
  using assms by (auto simp: kahn_inv_def)

lemma kahn_inv_ready:
  assumes "kahn_inv ks deps ind q out"
  shows "set out \<union> set q = {k \<in> set ks. set (deps k) \<subseteq> set out}"
  using kahn_invD [OF assms] by (auto simp: filter_empty_conv)

lemma filter_count_split:
  "x \<notin> A \<Longrightarrow> length (filter (\<lambda>d. d \<notin> A) xs) =
     count_list xs x + length (filter (\<lambda>d. d \<notin> insert x A) xs)"
  by (induction xs) auto

lemma takeWhile_index:
  "distinct xs \<Longrightarrow> i < length xs \<Longrightarrow> length (takeWhile (\<lambda>x. x \<noteq> xs ! i) xs) = i"
  by (subst takeWhile_eq_take_P_nth [of i]) (auto simp: nth_eq_iff_index_eq)

text \<open>When the worklist is empty, everything was taken iff the dependencies are acyclic.\<close>

lemma kahn_final_acyclic:
  assumes inv: "kahn_inv ks deps ind [] out"
    and closed: "\<And>k. k \<in> set ks \<Longrightarrow> set (deps k) \<subseteq> set ks"
  shows "length out = length ks \<longleftrightarrow> acyclic (dep_edges ks deps)"
proof
  note D = kahn_invD [OF inv]
  have sub: "set out \<subseteq> set ks" using kahn_inv_ready [OF inv] by auto
  {
    assume len: "length out = length ks"
    have out: "set out = set ks"
      using D(2,3) len sub by (intro card_subset_eq) (simp_all add: distinct_card)
    define idx where "idx k = length (takeWhile (\<lambda>x. x \<noteq> k) out)" for k
    have "dep_edges ks deps \<subseteq> measure idx"
    proof clarify
      fix d k
      assume "(d, k) \<in> dep_edges ks deps"
      then have "k \<in> set out" "d \<in> set (deps k)" using out by (auto simp: dep_edges_def)
      then obtain i where i: "i < length out" "k = out ! i" by (auto simp: in_set_conv_nth)
      with D(8) \<open>d \<in> set (deps k)\<close> have "d \<in> set (take i out)" by auto
      then obtain j where j: "j < i" "d = out ! j" using i by (auto simp: in_set_conv_nth)
      with i D(3) show "(d, k) \<in> measure idx" by (simp add: idx_def takeWhile_index)
    qed
    then have "wf (dep_edges ks deps)" using wf_measure wf_subset by blast
    then show "acyclic (dep_edges ks deps)" by (rule wf_acyclic)
  }
  {
    assume acyc: "acyclic (dep_edges ks deps)"
    have "dep_edges ks deps \<subseteq> set ks \<times> set ks" using closed by (auto simp: dep_edges_def)
    then have "finite (dep_edges ks deps)" by (rule finite_subset) simp
    then have wf: "wf (dep_edges ks deps)" using acyc by (rule finite_acyclic_wf)
    have "set ks \<subseteq> set out"
    proof (rule ccontr)
      assume "\<not> set ks \<subseteq> set out"
      then obtain x where "x \<in> set ks - set out" by auto
      with wf obtain m where m: "m \<in> set ks - set out"
        and min: "\<And>y. (y, m) \<in> dep_edges ks deps \<Longrightarrow> y \<notin> set ks - set out"
        by (rule wfE_min) auto
      have "set (deps m) \<subseteq> set out"
        using m min closed [of m] by (auto simp: dep_edges_def)
      with m kahn_inv_ready [OF inv] show False by auto
    qed
    with sub have "set out = set ks" by auto
    with D(2,3) show "length out = length ks" by (metis distinct_card)
  }
qed

section \<open>The worklist interface\<close>

locale worklist =
  fixes add :: "string \<Rightarrow> string list \<Rightarrow> string list"
  assumes mset_add: "mset (add x q) = add_mset x (mset q)"
begin

lemma relax_ok:
  assumes "\<And>k. k \<in> set ss \<Longrightarrow> k \<in> set (map fst ind) \<and> int (count_list ss k) \<le> deg ind k"
  shows "\<exists>ind' q'. relax add ss ind q = Inr (ind', q') \<and> map fst ind' = map fst ind \<and>
    (\<forall>k. deg ind' k = deg ind k - int (count_list ss k)) \<and>
    mset q' = mset q + mset_set {k \<in> set ss. deg ind k = int (count_list ss k)}"
  using assms
proof (induction ss arbitrary: ind q)
  case Nil
  then show ?case by simp
next
  case (Cons s ss)
  define d where "d = deg ind s"
  have s: "map_of ind s = Some d" and d: "1 + int (count_list ss s) \<le> d"
    using Cons.prems [of s] by (simp_all add: d_def deg_present)
  let ?ind = "AList.update s (d - 1) ind" and ?q = "if d - 1 = 0 then add s q else q"
  have keys: "map fst ?ind = map fst ind"
    using s by (intro update_present_keys) (rule map_of_in_keys)
  have "k \<in> set (map fst ?ind) \<and> int (count_list ss k) \<le> deg ?ind k" if "k \<in> set ss" for k
    using Cons.prems [of k] that d keys by (auto simp: deg_update)
  from Cons.IH [OF this] obtain ind' q' where IH: "relax add ss ?ind ?q = Inr (ind', q')"
    "map fst ind' = map fst ?ind" "\<And>k. deg ind' k = deg ?ind k - int (count_list ss k)"
    "mset q' = mset ?q + mset_set {k \<in> set ss. deg ?ind k = int (count_list ss k)}"
    by blast
  have S: "{k \<in> set (s # ss). deg ind k = int (count_list (s # ss) k)} =
      (if d = 1 then {s} else {}) \<union> {k \<in> set ss. deg ?ind k = int (count_list ss k)}"
    using d by (auto simp: deg_update d_def count_list_zero_iff)
  have notin: "d = 1 \<Longrightarrow> s \<notin> set ss" using d by (simp add: count_list_zero_iff [symmetric])
  have "mset q' = mset q + mset_set {k \<in> set (s # ss). deg ind k = int (count_list (s # ss) k)}"
    unfolding S using IH(4) notin by (cases "d = 1") (simp_all add: mset_add)
  moreover have "deg ind' k = deg ind k - int (count_list (s # ss) k)" for k
    using IH(3) [of k] by (auto simp: deg_update d_def)
  ultimately show ?case using IH(1,2) s keys by auto
qed

text \<open>One turn of the outer loop keeps the invariant.\<close>

lemma kahn_step:
  assumes inv: "kahn_inv ks deps ind (n # q) out"
    and adj: "\<And>k. k \<in> set ks \<Longrightarrow> count_list ss k = count_list (deps k) n" "set ss \<subseteq> set ks"
  obtains ind' q' where "relax add ss ind q = Inr (ind', q')" "kahn_inv ks deps ind' q' (out @ [n])"
    "set q \<subseteq> set q'"
proof -
  note D = kahn_invD [OF inv]
  have n: "n \<notin> set out" "n \<in> set ks" using D(5,7) by auto
  have split: "deg ind k = int (count_list ss k)
      + int (length (filter (\<lambda>d. d \<notin> set (out @ [n])) (deps k)))" if "k \<in> set ks" for k
    using D(6) [OF that] filter_count_split [OF n(1), of "deps k"] adj(1) [OF that] by simp
  have "k \<in> set (map fst ind) \<and> int (count_list ss k) \<le> deg ind k" if "k \<in> set ss" for k
    using that adj(2) D(1) split [of k] by auto
  from relax_ok [of ss ind, OF this, of q] obtain ind' q' where R: "relax add ss ind q = Inr (ind', q')"
    "map fst ind' = map fst ind" "\<And>k. deg ind' k = deg ind k - int (count_list ss k)"
    "mset q' = mset q + mset_set {k \<in> set ss. deg ind k = int (count_list ss k)}"
    by blast
  define S where "S = {k \<in> set ss. deg ind k = int (count_list ss k)}"
  have S: "k \<in> set ks \<and> 0 < deg ind k" if "k \<in> S" for k
    using that adj(2) count_list_zero_iff [of ss k] by (auto simp: S_def)
  have "deg ind k = 0" if "k \<in> set out \<union> set (n # q)" for k
    using that D(7) by blast
  then have disj: "S \<inter> (set out \<union> set (n # q)) = {}" using S by (metis disjoint_iff less_irrefl)
  have set_q': "set q' = set q \<union> S"
    using arg_cong [OF R(4), of set_mset] by (simp add: S_def)
  have "card (set q') = length q'"
  proof -
    have "length q' = length q + card S"
      using arg_cong [OF R(4), of size] by (simp add: S_def)
    moreover have "card (set q \<union> S) = card (set q) + card S"
      using disj by (intro card_Un_disjoint) (auto simp: S_def)
    ultimately show ?thesis using D(4) set_q' by (simp add: distinct_card)
  qed
  then have dist: "distinct q'" by (rule card_distinct)
  have zero: "deg ind' k = 0 \<longleftrightarrow> deg ind k = 0 \<or> k \<in> S" if "k \<in> set ks" for k
    using split [OF that] R(3) [of k] count_list_zero_iff [of ss k]
    by (cases "k \<in> set ss") (auto simp: S_def)
  have "set (out @ [n]) \<union> set q' = {k \<in> set ks. deg ind' k = 0}"
    using D(7) zero S set_q' by auto
  moreover have "set (deps ((out @ [n]) ! i)) \<subseteq> set (take i (out @ [n]))" if "i < length (out @ [n])" for i
  proof (cases "i < length out")
    case True
    with D(8) show ?thesis by (simp add: nth_append)
  next
    case False
    with that have "i = length out" by simp
    moreover have "set (deps n) \<subseteq> set out"
      using kahn_inv_ready [OF inv] by auto
    ultimately show ?thesis by simp
  qed
  moreover have "deg ind' k = int (length (filter (\<lambda>d. d \<notin> set (out @ [n])) (deps k)))"
    if "k \<in> set ks" for k
    using split [OF that] R(3) [of k] by simp
  ultimately have "kahn_inv ks deps ind' q' (out @ [n])"
    using D(1-5) R(2) dist disj set_q' n(1) unfolding kahn_inv_def by auto
  with R(1) set_q' that show thesis by blast
qed

end

text \<open>The deque of \<open>has_cycle\<close> and the heap of \<open>topological_order\<close> are worklists.\<close>

interpretation deque: worklist deque_append
  by unfold_locales (simp add: deque_append_def)

interpretation heap: worklist "heappush g" for g
  by unfold_locales (simp add: heappush_def)

section \<open>Building the dictionaries\<close>

lemma adj_get_append: "adj_get (adj_append k x adj) j = adj_get adj j @ (if j = k then [x] else [])"
  by (simp add: adj_append_def adj_get_def)

lemma count_edges_ok:
  assumes "i \<in> set (map fst ind)"
  shows "\<exists>ind' adj'. count_edges i ds ind adj = Inr (ind', adj') \<and> map fst ind' = map fst ind \<and>
    (\<forall>k. deg ind' k = deg ind k + (if k = i then int (length ds) else 0)) \<and>
    (\<forall>d k. count_list (adj_get adj' d) k = count_list (adj_get adj d) k + (if k = i then count_list ds d else 0))"
  using assms
proof (induction ds arbitrary: ind adj)
  case Nil
  then show ?case by simp
next
  case (Cons d ds)
  have keys: "map fst (AList.update i (deg ind i + 1) ind) = map fst ind"
    using Cons.prems by (rule update_present_keys)
  from Cons.IH [of "AList.update i (deg ind i + 1) ind" "adj_append d i adj"] Cons.prems keys
  obtain ind' adj' where
    "count_edges i ds (AList.update i (deg ind i + 1) ind) (adj_append d i adj) = Inr (ind', adj')"
    "map fst ind' = map fst ind"
    "\<And>k. deg ind' k = deg (AList.update i (deg ind i + 1) ind) k + (if k = i then int (length ds) else 0)"
    "\<And>e k. count_list (adj_get adj' e) k =
       count_list (adj_get (adj_append d i adj) e) k + (if k = i then count_list ds e else 0)"
    by auto
  then show ?case
    using deg_present [OF Cons.prems] by (auto simp: deg_update adj_get_append)
qed

lemma build_edges_ok:
  assumes "\<And>n. n \<in> set ns \<Longrightarrow> node_id n \<in> set (map fst ind)"
  shows "\<exists>ind' adj'. build_edges ns ind adj = Inr (ind', adj') \<and> map fst ind' = map fst ind \<and>
    (\<forall>k. deg ind' k = deg ind k + (\<Sum>n\<leftarrow>ns. if node_id n = k then int (length (node_dependencies n)) else 0)) \<and>
    (\<forall>d k. count_list (adj_get adj' d) k = count_list (adj_get adj d) k
       + (\<Sum>n\<leftarrow>ns. if node_id n = k then count_list (node_dependencies n) d else 0))"
  using assms
proof (induction ns arbitrary: ind adj)
  case Nil
  then show ?case by simp
next
  case (Cons n ns)
  from count_edges_ok [of "node_id n" ind "node_dependencies n" adj] Cons.prems
  obtain ind1 adj1 where 1: "count_edges (node_id n) (node_dependencies n) ind adj = Inr (ind1, adj1)"
    "map fst ind1 = map fst ind"
    "\<And>k. deg ind1 k = deg ind k + (if k = node_id n then int (length (node_dependencies n)) else 0)"
    "\<And>d k. count_list (adj_get adj1 d) k =
       count_list (adj_get adj d) k + (if k = node_id n then count_list (node_dependencies n) d else 0)"
    by auto
  from Cons.IH [of ind1 adj1] Cons.prems 1(2)
  obtain ind2 adj2 where 2: "build_edges ns ind1 adj1 = Inr (ind2, adj2)" "map fst ind2 = map fst ind1"
    "\<And>k. deg ind2 k = deg ind1 k + (\<Sum>n\<leftarrow>ns. if node_id n = k then int (length (node_dependencies n)) else 0)"
    "\<And>d k. count_list (adj_get adj2 d) k = count_list (adj_get adj1 d) k
       + (\<Sum>n\<leftarrow>ns. if node_id n = k then count_list (node_dependencies n) d else 0)"
    by auto
  show ?case by (rule exI [of _ ind2], rule exI [of _ adj2]) (simp add: 1 2)
qed

lemma sum_at_key:
  assumes "distinct (map fst nodes)" "\<forall>(k, n) \<in> set nodes. node_id n = k"
  shows "(\<Sum>n\<leftarrow>map snd nodes. if node_id n = k then f n else (0::'a::monoid_add)) =
    (case map_of nodes k of None \<Rightarrow> 0 | Some n \<Rightarrow> f n)"
  using assms
proof (induction nodes)
  case Nil
  then show ?case by simp
next
  case (Cons p nodes)
  obtain i n where p: "p = (i, n)" by force
  show ?case
  proof (cases "i = k")
    case True
    with Cons.prems p have "map_of nodes k = None" by (auto simp: map_of_eq_None_keys)
    with Cons True p show ?thesis by simp
  next
    case False
    with Cons p show ?thesis by simp
  qed
qed

lemma build_degrees_ok:
  assumes wf: "wf_graph g"
  shows "\<exists>ind adj. build_degrees g = Inr (ind, adj) \<and> map fst ind = node_ids g \<and>
    (\<forall>k. deg ind k = int (length (deps_of g k))) \<and>
    (\<forall>d k. count_list (adj_get adj d) k = count_list (deps_of g k) d)"
proof -
  have init: "map fst (initial_degrees g) = node_ids g" by (simp add: initial_degrees_def comp_def)
  have zero: "deg (initial_degrees g) k = 0" for k
    by (auto simp: deg_def initial_degrees_def map_of_map_keys split: option.splits dest!: map_of_SomeD)
  have "node_id n \<in> set (map fst (initial_degrees g))" if "n \<in> set (map snd (graph_nodes g))" for n
    using wf that init by (force simp: wf_graph_def)
  from build_edges_ok [of "map snd (graph_nodes g)", OF this, of "[]"] obtain ind adj where E:
    "build_edges (map snd (graph_nodes g)) (initial_degrees g) [] = Inr (ind, adj)"
    "map fst ind = map fst (initial_degrees g)"
    "\<And>k. deg ind k = deg (initial_degrees g) k + (\<Sum>n\<leftarrow>map snd (graph_nodes g).
       if node_id n = k then int (length (node_dependencies n)) else 0)"
    "\<And>d k. count_list (adj_get adj d) k = count_list (adj_get [] d) k
       + (\<Sum>n\<leftarrow>map snd (graph_nodes g).
       if node_id n = k then count_list (node_dependencies n) d else 0)"
    by blast
  from wf have table: "distinct (map fst (graph_nodes g))" "\<forall>(k, n) \<in> set (graph_nodes g). node_id n = k"
    by (auto simp: wf_graph_def)
  have "deg ind k = int (length (deps_of g k))" for k
    by (simp only: E zero sum_at_key [OF table] deps_of_def) (simp split: option.splits)
  moreover have "count_list (adj_get adj d) k = count_list (deps_of g k) d" for d k
    by (simp only: E sum_at_key [OF table] deps_of_def) (simp add: adj_get_def split: option.splits)
  moreover have "build_degrees g = Inr (ind, adj)" by (simp only: build_degrees_def E)
  moreover have "map fst ind = node_ids g" by (simp only: E init)
  ultimately show ?thesis by blast
qed

lemma adj_facts:
  assumes "\<And>d k. count_list (adj_get adj d) k = count_list (deps_of g k) d"
  shows "set (adj_get adj n) \<subseteq> set (node_ids g)"
proof
  fix k
  assume "k \<in> set (adj_get adj n)"
  with assms [of n k] have "n \<in> set (deps_of g k)" by (metis count_list_zero_iff)
  then show "k \<in> set (node_ids g)" using deps_of_outside by fastforce
qed

lemma kahn_inv_init:
  assumes "wf_graph g" "map fst ind = node_ids g" "\<And>k. deg ind k = int (length (deps_of g k))"
  shows "kahn_inv (node_ids g) (deps_of g) ind (zero_degree ind) []"
  using assms by (auto simp: kahn_inv_def wf_graph_def zero_degree_set distinct_zero_degree)

section \<open>The two loops\<close>

lemma kahn_count_ok:
  assumes adj: "\<And>n k. count_list (adj_get adj n) k = count_list (deps k) n"
      "\<And>n. set (adj_get adj n) \<subseteq> set ks"
  shows "kahn_inv ks deps ind q out \<Longrightarrow>
    \<exists>ind' out'. kahn_count adj ind q (length out) = Inr (length out') \<and> kahn_inv ks deps ind' [] out'"
  using adj
proof (induction adj ind q "length out" arbitrary: out rule: kahn_count.induct)
  case (1 adj ind)
  then show ?case by auto
next
  case (2 adj ind n q)
  from deque.kahn_step [OF "2.prems"(1)] "2.prems"(2,3) obtain ind' q' where
    "relax deque_append (adj_get adj n) ind q = Inr (ind', q')" "kahn_inv ks deps ind' q' (out @ [n])"
    by metis
  with "2.hyps" [of "(ind', q')" ind' q' "out @ [n]"] "2.prems"(2,3) show ?case by simp
qed

text \<open>Each position of \<open>out\<close> holds a node of least rank among those that could stand there.\<close>

definition greedy_order :: "string list \<Rightarrow> (string \<Rightarrow> string list) \<Rightarrow> (string \<Rightarrow> 'r::linorder) \<Rightarrow> string list \<Rightarrow> bool" where
  "greedy_order ks deps rk out \<longleftrightarrow>
     (\<forall>i < length out. \<forall>k \<in> set ks.
        k \<notin> set (take i out) \<and> set (deps k) \<subseteq> set (take i out) \<longrightarrow> rk (out ! i) \<le> rk k)"

lemma greedy_order_snoc:
  assumes "greedy_order ks deps rk out"
    and "\<And>k. k \<in> set ks \<Longrightarrow> k \<notin> set out \<Longrightarrow> set (deps k) \<subseteq> set out \<Longrightarrow> rk n \<le> rk k"
  shows "greedy_order ks deps rk (out @ [n])"
  using assms by (auto simp: greedy_order_def nth_append less_Suc_eq)

lemma relax_heap_sorted:
  "relax (heappush g) ss ind q = Inr (ind', q') \<Longrightarrow> sorted (map (rank g) q) \<Longrightarrow> sorted (map (rank g) q')"
  by (induction ss arbitrary: ind q)
    (auto simp: heappush_def sorted_insort_key split: option.splits if_splits)

lemma kahn_order_ok:
  assumes adj: "\<And>n k. count_list (adj_get adj n) k = count_list (deps k) n"
      "\<And>n. set (adj_get adj n) \<subseteq> set ks"
  shows "kahn_inv ks deps ind q out \<Longrightarrow> sorted (map (rank g) q) \<Longrightarrow> greedy_order ks deps (rank g) out \<Longrightarrow>
    \<exists>ind' out'. kahn_order g adj ind q out = Inr out' \<and> kahn_inv ks deps ind' [] out' \<and>
      greedy_order ks deps (rank g) out'"
  using adj
proof (induction g adj ind q out rule: kahn_order.induct)
  case (1 g adj ind result)
  then show ?case by auto
next
  case (2 g adj ind n q out)
  from heap.kahn_step [OF "2.prems"(1)] "2.prems"(4,5) obtain ind' q' where
    R: "relax (heappush g) (adj_get adj n) ind q = Inr (ind', q')" "kahn_inv ks deps ind' q' (out @ [n])"
    by metis
  have "sorted (map (rank g) q')" using relax_heap_sorted [OF R(1)] "2.prems"(2) by simp
  moreover have "greedy_order ks deps (rank g) (out @ [n])"
  proof (rule greedy_order_snoc [OF "2.prems"(3)])
    fix k
    assume "k \<in> set ks" "k \<notin> set out" "set (deps k) \<subseteq> set out"
    then have "k \<in> set (n # q)" using kahn_inv_ready [OF "2.prems"(1)] by auto
    with "2.prems"(2) show "rank g n \<le> rank g k" by auto
  qed
  ultimately show ?case using "2.IH" [of "(ind', q')" ind' q'] R "2.prems"(4,5) by simp
qed

section \<open>What the algorithms return\<close>

lemma has_cycle_total: "wf_graph g \<Longrightarrow> \<exists>c. has_cycle g = Inr c"
proof -
  assume wf: "wf_graph g"
  from build_degrees_ok [OF wf] obtain ind adj where B: "build_degrees g = Inr (ind, adj)" "map fst ind = node_ids g"
    "\<And>k. deg ind k = int (length (deps_of g k))"
    "\<And>d k. count_list (adj_get adj d) k = count_list (deps_of g k) d"
    by blast
  from kahn_count_ok [OF B(4) adj_facts [OF B(4)] kahn_inv_init [OF wf B(2,3)]] B(1)
  show ?thesis by (auto simp: has_cycle_def)
qed

lemma has_cycle_correct:
  assumes wf: "wf_graph g" and closed: "closed_graph g"
  shows "has_cycle g = Inr (\<not> acyclic (dep_rel g))"
proof -
  from build_degrees_ok [OF wf] obtain ind adj where B: "build_degrees g = Inr (ind, adj)" "map fst ind = node_ids g"
    "\<And>k. deg ind k = int (length (deps_of g k))"
    "\<And>d k. count_list (adj_get adj d) k = count_list (deps_of g k) d"
    by blast
  from kahn_count_ok [OF B(4) adj_facts [OF B(4)] kahn_inv_init [OF wf B(2,3)]]
  obtain ind' out where K: "kahn_count adj ind (zero_degree ind) 0 = Inr (length out)"
    "kahn_inv (node_ids g) (deps_of g) ind' [] out" by auto
  have "length out = length (graph_nodes g) \<longleftrightarrow> acyclic (dep_rel g)"
    using kahn_final_acyclic [OF K(2) closed_graphD [OF closed]] by (simp add: dep_rel_def)
  with B(1) K(1) show ?thesis by (simp add: has_cycle_def)
qed

lemma missing_dependency_None:
  "missing_dependency ks ns = None \<longleftrightarrow> (\<forall>n \<in> set ns. set (node_dependencies n) \<subseteq> set ks)"
  by (induction ns) (auto simp: find_None_iff find_Some_iff split: option.splits dest: nth_mem)

lemma missing_dependency_Some:
  "missing_dependency ks ns = Some (i, d) \<Longrightarrow>
     \<exists>n \<in> set ns. node_id n = i \<and> d \<in> set (node_dependencies n) \<and> d \<notin> set ks"
  by (induction ns) (auto simp: find_Some_iff split: option.splits)

lemma nodes_deps_subset:
  assumes "wf_graph g"
  shows "(\<forall>n \<in> set (map snd (graph_nodes g)). set (node_dependencies n) \<subseteq> A) \<longleftrightarrow>
    (\<forall>k \<in> set (node_ids g). set (deps_of g k) \<subseteq> A)"
proof -
  have "get_node g k = Some n \<longleftrightarrow> (k, n) \<in> set (graph_nodes g)" for k n
    using assms by (auto simp: wf_graph_def)
  then have "(k, n) \<in> set (graph_nodes g) \<Longrightarrow> deps_of g k = node_dependencies n" for k n
    by simp
  then show ?thesis by force
qed

lemma check_dependencies_iff:
  assumes "wf_graph g"
  shows "check_all_dependencies_exist g = Inr () \<longleftrightarrow> closed_graph g"
proof -
  have "check_all_dependencies_exist g = Inr () \<longleftrightarrow>
      missing_dependency (node_ids g) (map snd (graph_nodes g)) = None"
    by (auto simp: check_all_dependencies_exist_def split: option.splits)
  then show ?thesis
    by (simp only: missing_dependency_None closed_graph_def nodes_deps_subset [OF assms])
qed

definition valid_graph :: "task_graph \<Rightarrow> bool" where
  "valid_graph g \<longleftrightarrow> wf_graph g \<and> closed_graph g \<and> acyclic (dep_rel g)"

lemma validate_iff: "wf_graph g \<Longrightarrow> validate g = Inr () \<longleftrightarrow> valid_graph g"
  using check_dependencies_iff [of g] has_cycle_correct [of g]
  by (cases "check_all_dependencies_exist g") (auto simp: validate_def valid_graph_def)

lemma topological_order_ok:
  assumes "valid_graph g"
  obtains out where "topological_order g = Inr out" "distinct out" "set out = set (node_ids g)"
    "\<And>i. i < length out \<Longrightarrow> set (deps_of g (out ! i)) \<subseteq> set (take i out)"
    "greedy_order (node_ids g) (deps_of g) (rank g) out"
proof -
  from assms have wf: "wf_graph g" and closed: "closed_graph g" and acyc: "acyclic (dep_rel g)"
    by (auto simp: valid_graph_def)
  from build_degrees_ok [OF wf] obtain ind adj where B: "build_degrees g = Inr (ind, adj)" "map fst ind = node_ids g"
    "\<And>k. deg ind k = int (length (deps_of g k))"
    "\<And>d k. count_list (adj_get adj d) k = count_list (deps_of g k) d"
    by blast
  define heap where "heap = fold (heappush g) (sort_key (rank g) (zero_degree ind)) []"
  have heap: "mset (fold (heappush g) xs q) = mset xs + mset q" for xs q
    by (induction xs arbitrary: q) (simp_all add: heap.mset_add)
  have sorted: "sorted (map (rank g) q) \<Longrightarrow> sorted (map (rank g) (fold (heappush g) xs q))" for xs q
    by (induction xs arbitrary: q) (simp_all add: heappush_def sorted_insort_key)
  have mset: "mset heap = mset (zero_degree ind)" by (simp add: heap_def heap)
  have "kahn_inv (node_ids g) (deps_of g) ind heap []"
    using kahn_inv_init [OF wf B(2,3)] mset_eq_setD [OF mset] mset_eq_imp_distinct_iff [OF mset]
    by (simp add: kahn_inv_def)
  from kahn_order_ok [OF B(4) adj_facts [OF B(4)] this, of g]
  obtain ind' out where K: "kahn_order g adj ind heap [] = Inr out"
    "kahn_inv (node_ids g) (deps_of g) ind' [] out" "greedy_order (node_ids g) (deps_of g) (rank g) out"
    using sorted [of "[]"] by (auto simp: heap_def greedy_order_def)
  note D = kahn_invD [OF K(2)]
  have len: "length out = length (node_ids g)"
    using kahn_final_acyclic [OF K(2) closed_graphD [OF closed]] acyc by (simp add: dep_rel_def)
  have "set out \<subseteq> set (node_ids g)" using D(7) by auto
  moreover have "card (set out) = card (set (node_ids g))"
    using len D(2,3) by (simp only: distinct_card)
  ultimately have set: "set out = set (node_ids g)"
    by (intro card_subset_eq) simp_all
  have "topological_order g = Inr out"
    using validate_iff [OF wf] assms B(1) K(1) by (simp add: topological_order_def heap_def Let_def)
  then show thesis using D(3) set D(8) K(3) by (rule that)
qed

section \<open>Descendants\<close>

definition adj_rel :: "adjacency \<Rightarrow> (string \<times> string) set" where
  "adj_rel adj = {(d, k). k \<in> set (adj_get adj d)}"

lemma dfs_sound: "set (dfs adj st seen) \<subseteq> set seen \<union> (adj_rel adj)\<^sup>* `` set st"
proof (induction adj st seen rule: dfs.induct)
  case (1 adj seen)
  then show ?case by simp
next
  case (2 adj nid st seen)
  have "(adj_rel adj)\<^sup>* `` set (adj_get adj nid) \<subseteq> (adj_rel adj)\<^sup>* `` {nid}"
    by (auto simp: adj_rel_def intro: converse_rtrancl_into_rtrancl)
  with 2 show ?case by (auto simp: Image_Un split: if_splits) blast+
qed

lemma dfs_covers: "set seen \<union> set st \<subseteq> set (dfs adj st seen)"
  by (induction adj st seen rule: dfs.induct) (auto split: if_splits)

lemma dfs_closed:
  "adj_rel adj `` set seen \<subseteq> set seen \<union> set st \<Longrightarrow>
     adj_rel adj `` set (dfs adj st seen) \<subseteq> set (dfs adj st seen)"
proof (induction adj st seen rule: dfs.induct)
  case (1 adj seen)
  then show ?case by simp
next
  case (2 adj nid st seen)
  show ?case
  proof (cases "nid \<in> set seen")
    case True
    with "2.prems" have "adj_rel adj `` set seen \<subseteq> set seen \<union> set st" by auto
    with True "2.IH"(1) show ?thesis by simp
  next
    case False
    have "adj_rel adj `` set (nid # seen) \<subseteq> set (nid # seen) \<union> set (rev (adj_get adj nid) @ st)"
      using "2.prems" by (auto simp: adj_rel_def)
    with False "2.IH"(2) show ?thesis by simp
  qed
qed

lemma dfs_reach: "set (dfs adj st []) = (adj_rel adj)\<^sup>* `` set st"
proof
  show "set (dfs adj st []) \<subseteq> (adj_rel adj)\<^sup>* `` set st"
    using dfs_sound [of adj st "[]"] by simp
  have "adj_rel adj `` set (dfs adj st []) \<subseteq> set (dfs adj st [])"
    by (rule dfs_closed) simp
  then have "(adj_rel adj)\<^sup>* `` set (dfs adj st []) \<subseteq> set (dfs adj st [])"
    by (rule Image_closed_trancl [THEN equalityD1])
  then show "(adj_rel adj)\<^sup>* `` set st \<subseteq> set (dfs adj st [])"
    using dfs_covers [of "[]" st adj] by auto
qed

lemma children_of_node:
  "set (adj_get (fold (\<lambda>dep. adj_append dep i) ds adj) d) =
     set (adj_get adj d) \<union> (if d \<in> set ds then {i} else {})"
  by (induction ds arbitrary: adj) (auto simp: adj_get_append)

lemma children_of_nodes:
  "set (adj_get (fold (\<lambda>n. fold (\<lambda>dep. adj_append dep (node_id n)) (node_dependencies n)) ns adj) d) =
     set (adj_get adj d) \<union> {node_id n |n. n \<in> set ns \<and> d \<in> set (node_dependencies n)}"
  by (induction ns arbitrary: adj) (auto simp: children_of_node)

lemma dep_rel_nodes:
  assumes wf: "wf_graph g"
  shows "(d, k) \<in> dep_rel g \<longleftrightarrow>
    (\<exists>n. n \<in> set (map snd (graph_nodes g)) \<and> node_id n = k \<and> d \<in> set (node_dependencies n))"
proof
  assume "(d, k) \<in> dep_rel g"
  then have "k \<in> set (node_ids g)" "d \<in> set (deps_of g k)" by (simp_all add: dep_rel_def dep_edges_def)
  then obtain n where "get_node g k = Some n" "d \<in> set (node_dependencies n)"
    using in_keys_map_of [of k "graph_nodes g"] by auto
  then show "\<exists>n. n \<in> set (map snd (graph_nodes g)) \<and> node_id n = k \<and> d \<in> set (node_dependencies n)"
    using wf_graph_id [OF wf] by (force dest: map_of_SomeD)
next
  assume "\<exists>n. n \<in> set (map snd (graph_nodes g)) \<and> node_id n = k \<and> d \<in> set (node_dependencies n)"
  then obtain n where n: "n \<in> snd ` set (graph_nodes g)" "node_id n = k" "d \<in> set (node_dependencies n)"
    by auto
  with wf have kn: "(k, n) \<in> set (graph_nodes g)" by (auto simp: wf_graph_def)
  with wf have "get_node g k = Some n" by (auto simp: wf_graph_def)
  with kn n(3) show "(d, k) \<in> dep_rel g" by (force simp: dep_rel_def dep_edges_def)
qed

lemma build_children_rel:
  assumes wf: "wf_graph g"
  shows "adj_rel (build_children g) = dep_rel g"
proof -
  have empty: "adj_get [] d = []" for d by (simp add: adj_get_def)
  have "(d, k) \<in> adj_rel (build_children g) \<longleftrightarrow> (d, k) \<in> dep_rel g" for d k
    unfolding dep_rel_nodes [OF wf] adj_rel_def build_children_def
    by (simp add: children_of_nodes empty del: set_map) blast
  then show ?thesis by auto
qed

lemma descendants_correct:
  assumes "wf_graph g" "closed_graph g"
  shows "descendants g i = {k. (i, k) \<in> (dep_rel g)\<^sup>+}"
proof (cases "i \<in> set (node_ids g)")
  case True
  have "set (adj_get (build_children g) i) = dep_rel g `` {i}"
    by (auto simp: build_children_rel [OF assms(1), symmetric] adj_rel_def)
  with True have "descendants g i = (dep_rel g)\<^sup>* `` (dep_rel g `` {i})"
    by (simp add: descendants_def Let_def dfs_reach build_children_rel [OF assms(1)] del: set_map)
  then show ?thesis by (auto simp: trancl_unfold_left)
next
  case False
  have "(i, k) \<notin> (dep_rel g)\<^sup>+" for k
  proof
    assume "(i, k) \<in> (dep_rel g)\<^sup>+"
    then obtain z where "(i, z) \<in> dep_rel g" by (meson tranclD)
    then have "i \<in> set (node_ids g)"
      using closed_graphD [OF assms(2), of z] by (auto simp: dep_rel_def dep_edges_def simp del: set_map)
    with False show False by contradiction
  qed
  with False show ?thesis by (simp add: descendants_def)
qed

end
