(* ===== verification/Lifecycle.thy ===== *)
theory Lifecycle
  imports Py_Prelude
begin

text \<open>
  The contract of a guarded status field, which \<open>TaskGraph.update_status\<close> and
  \<open>AgentInstance.update_status\<close> share: a move that the transition table allows is made and reports
  \<open>True\<close>, any other leaves the entity as it was and reports \<open>False\<close>. \<open>status\<close> is partial because a
  graph may not have the node. The lemmas are about arbitrary sequences of attempted moves; the
  context argument \<open>'c\<close> carries the clock readings.
\<close>

locale lifecycle =
  fixes legal :: "'s \<Rightarrow> 's \<Rightarrow> bool"
    and status :: "'e \<Rightarrow> 's option"
    and move :: "'c \<Rightarrow> 's \<Rightarrow> 'e \<Rightarrow> 'e \<times> bool"
  assumes move_legal: "status e = Some s \<Longrightarrow> legal s t \<Longrightarrow>
      snd (move c t e) \<and> status (fst (move c t e)) = Some t"
    and move_illegal: "status e = Some s \<Longrightarrow> \<not> legal s t \<Longrightarrow> move c t e = (e, False)"
    and move_absent: "status e = None \<Longrightarrow> move c t e = (e, False)"
begin

lemma move_result: "status e = Some s \<Longrightarrow>
    status (fst (move c t e)) = Some (if legal s t then t else s) \<and> snd (move c t e) = legal s t"
  using move_legal [of e s t c] move_illegal [of e s t c] by (cases "legal s t") simp_all

lemma moves_reachable:
  "status e = Some s \<Longrightarrow>
     \<exists>s'. status (fold (\<lambda>(c, t) e. fst (move c t e)) ms e) = Some s' \<and> legal\<^sup>*\<^sup>* s s'"
proof (induction ms arbitrary: e s)
  case Nil
  then show ?case by auto
next
  case (Cons m ms)
  obtain c t where m: "m = (c, t)" by force
  let ?s = "if legal s t then t else s"
  from move_result [OF Cons.prems] Cons.IH [of "fst (move c t e)" ?s]
  obtain s' where s': "status (fold (\<lambda>(c, t) e. fst (move c t e)) ms (fst (move c t e))) = Some s'"
    "legal\<^sup>*\<^sup>* ?s s'" by auto
  have "legal\<^sup>*\<^sup>* s ?s" by auto
  with s'(2) have "legal\<^sup>*\<^sup>* s s'" by (rule rtranclp_trans [rotated])
  with s'(1) m show ?case by auto
qed

lemma terminal_absorbing:
  assumes "status e = Some s" "\<And>t. \<not> legal s t"
  shows "fold (\<lambda>(c, t) e. fst (move c t e)) ms e = e"
proof (induction ms)
  case (Cons m ms)
  then show ?case using move_illegal [OF assms(1) assms(2)] by (cases m) simp
qed simp

end

end
