(* ===== verification/Task_Graph_Ops.thy ===== *)
theory Task_Graph_Ops
  imports Task_Graph_Order Lifecycle
begin

text \<open>
  The mutations of \<open>TaskGraph\<close>: which keep the graph valid (keys equal ids, dependencies present, no
  cycle), what \<open>add_repair_task\<close> builds, that its id loop ends, and what \<open>ready_tasks\<close> returns.
\<close>

section \<open>Tables and frames\<close>

named_theorems graph_simps \<open>what the mutations leave of nodes, dependencies and version\<close>

lemma touch_nodes [graph_simps, simp]: "graph_nodes (touch t g) = graph_nodes g"
  by (simp add: touch_def)

lemma touch_version [graph_simps, simp]: "graph_version (touch t g) = graph_version g + 1"
  by (simp add: touch_def)

lemma put_node_nodes [graph_simps, simp]: "graph_nodes (put_node k n g) = AList.update k n (graph_nodes g)"
  by (simp add: put_node_def)

lemma put_node_version [graph_simps, simp]: "graph_version (put_node k n g) = graph_version g"
  by (simp add: put_node_def)

lemma rewire_all_nodes [graph_simps, simp]:
  "graph_nodes (rewire_all t r g) = map_vals (rewire t r) (graph_nodes g)"
  "graph_version (rewire_all t r g) = graph_version g"
  by (simp_all add: rewire_all_def)

lemma apply_status_fields [graph_simps, simp]:
  "node_id (apply_status t st n) = node_id n"
  "node_dependencies (apply_status t st n) = node_dependencies n"
  "node_status (apply_status t st n) = st"
  by (simp_all add: apply_status_def Let_def)

lemma rewire_fields [graph_simps, simp]:
  "node_id (rewire t r n) = node_id n"
  "node_status (rewire t r n) = node_status n"
  "node_dependencies (rewire t r n) = map (\<lambda>d. if d = t then r else d) (node_dependencies n)"
  by (auto simp: rewire_def intro!: map_idI [symmetric])

text \<open>Replacing a present node by one with its id and dependencies: ids and dependencies stay.\<close>

lemma wf_graph_put: "wf_graph g \<Longrightarrow> node_id n = k \<Longrightarrow> wf_graph (put_node k n g)"
  using update_values [of k n "graph_nodes g"]
  by (fastforce simp: wf_graph_def intro: distinct_keys_update)

lemma wf_graph_touch [simp]: "wf_graph (touch t g) = wf_graph g"
  by (simp add: wf_graph_def)

lemma put_present_ids: "get_node g k = Some n \<Longrightarrow> node_ids (put_node k n' g) = node_ids g"
  by (simp only: put_node_nodes) (rule update_present_keys, rule map_of_in_keys)

lemma put_present_deps:
  "get_node g k = Some n \<Longrightarrow> node_dependencies n' = node_dependencies n \<Longrightarrow>
     deps_of (put_node k n' g) = deps_of g"
  by (auto simp: deps_of_def fun_eq_iff)

lemma valid_graph_cong:
  "wf_graph g' \<Longrightarrow> node_ids g' = node_ids g \<Longrightarrow> deps_of g' = deps_of g \<Longrightarrow> valid_graph g \<Longrightarrow> valid_graph g'"
  by (simp add: valid_graph_def closed_graph_def dep_rel_def del: set_map)

lemma deps_of_touch [simp]: "deps_of (touch t g) = deps_of g"
  by (simp add: deps_of_def fun_eq_iff)

lemma valid_graph_put:
  assumes "valid_graph g" "get_node g k = Some n" "node_id n' = node_id n"
    "node_dependencies n' = node_dependencies n"
  shows "valid_graph (touch t (put_node k n' g))"
proof (rule valid_graph_cong [OF _ _ _ assms(1)])
  have wf: "wf_graph g" using assms(1) by (simp add: valid_graph_def)
  with assms(2,3) have "node_id n' = k" by (simp add: wf_graph_id)
  with wf show "wf_graph (touch t (put_node k n' g))" by (simp add: wf_graph_put)
  show "node_ids (touch t (put_node k n' g)) = node_ids g"
    using put_present_ids [OF assms(2)] by simp
  show "deps_of (touch t (put_node k n' g)) = deps_of g"
    using put_present_deps [OF assms(2,4)] by simp
qed

lemma valid_graph_finite: "closed_graph g \<Longrightarrow> finite (dep_rel g)"
proof -
  assume "closed_graph g"
  then have "dep_rel g \<subseteq> set (node_ids g) \<times> set (node_ids g)"
    using closed_graphD [of g] by (fastforce simp: dep_rel_def dep_edges_def simp del: set_map)
  then show ?thesis by (rule finite_subset) simp
qed

lemma valid_graph_wf: "valid_graph g \<Longrightarrow> wf (dep_rel g)"
  using valid_graph_finite [of g] by (auto simp: valid_graph_def intro: finite_acyclic_wf)

lemma valid_no_self_dependency:
  assumes "valid_graph g"
  shows "t \<notin> set (deps_of g t)"
proof
  assume "t \<in> set (deps_of g t)"
  moreover from this have "t \<in> set (node_ids g)" by (cases "t \<in> set (node_ids g)") (simp_all add: deps_of_outside)
  ultimately have "(t, t) \<in> dep_rel g" by (simp add: dep_rel_def dep_edges_def del: set_map)
  with assms show False by (auto simp: valid_graph_def acyclic_def)
qed

section \<open>The status field\<close>

definition graph_status :: "string \<Rightarrow> task_graph \<Rightarrow> task_node_status option" where
  "graph_status nid g = map_option node_status (get_node g nid)"

interpretation node_life: lifecycle is_legal_transition "graph_status nid"
    "\<lambda>(t1, t2). update_status t1 t2 nid" for nid
  by unfold_locales (auto simp: graph_status_def update_status_def split: option.splits)

lemma update_status_valid: "valid_graph g \<Longrightarrow> valid_graph (fst (update_status t1 t2 nid st g))"
  by (auto simp: update_status_def intro!: valid_graph_put split: option.splits)

lemma assign_agent_valid: "valid_graph g \<Longrightarrow> valid_graph (assign_agent t nid a g)"
  by (auto simp: assign_agent_def intro!: valid_graph_put split: option.splits)

lemma record_attempt_valid: "valid_graph g \<Longrightarrow> valid_graph (record_attempt t nid e g)"
  by (auto simp: record_attempt_def Let_def intro!: valid_graph_put split: option.splits)

lemma accept_artifact_valid: "valid_graph g \<Longrightarrow> valid_graph (accept_artifact t nid a g)"
  by (auto simp: accept_artifact_def intro!: valid_graph_put split: option.splits)

section \<open>Adding a node\<close>

lemma add_node_wf: "wf_graph g \<Longrightarrow> add_node t n g = Inr g' \<Longrightarrow> wf_graph g'"
  by (auto simp: add_node_def wf_graph_put split: if_splits)

text \<open>
  A new node whose dependencies are all present (and are not itself) keeps the graph valid: no node
  depended on it before.
\<close>

lemma add_node_valid:
  assumes valid: "valid_graph g" and new: "add_node t n g = Inr g'"
    and deps: "set (node_dependencies n) \<subseteq> set (node_ids g)"
  shows "valid_graph g'"
proof -
  let ?i = "node_id n"
  from new have fresh: "?i \<notin> set (node_ids g)" and g': "g' = touch t (put_node ?i n g)"
    by (auto simp: add_node_def split: if_splits)
  from valid have wf: "wf_graph g" and closed: "closed_graph g" by (auto simp: valid_graph_def)
  have ids: "set (node_ids g') = insert ?i (set (node_ids g))"
    by (simp only: g' touch_nodes put_node_nodes set_keys_update)
  have deps_g': "deps_of g' k = (if k = ?i then node_dependencies n else deps_of g k)" for k
    by (simp add: g' deps_of_def)
  have closed': "closed_graph g'"
    unfolding closed_graph_def ids deps_g' using deps closed_graphD [OF closed] by auto
  let ?new = "set (node_dependencies n) \<times> {?i}"
  have "dep_rel g' \<subseteq> dep_rel g \<union> ?new"
    unfolding dep_rel_def dep_edges_def ids deps_g' by (auto split: if_splits)
  moreover have "wf (dep_rel g \<union> ?new)"
  proof (rule wf_Un)
    show "wf (dep_rel g)" using valid by (rule valid_graph_wf)
    have "?new \<subseteq> measure (\<lambda>k. if k = ?i then 1 else 0)" using deps fresh by auto
    then show "wf ?new" using wf_measure wf_subset by blast
    show "Domain (dep_rel g) \<inter> Range ?new = {}"
      using fresh closed_graphD [OF closed] by (fastforce simp: dep_rel_def dep_edges_def simp del: set_map)
  qed
  ultimately have "acyclic (dep_rel g')" by (meson wf_acyclic wf_subset)
  with closed' add_node_wf [OF wf new] show ?thesis by (simp add: valid_graph_def)
qed

section \<open>Repair ids\<close>

lemma numbered_repair_id_inj: "numbered_repair_id t v i = numbered_repair_id t v j \<longleftrightarrow> i = j"
  by (auto simp: numbered_repair_id_def dest: str_nat_inj)

lemma repair_id_loop_None:
  "repair_id_loop fuel ks t v i rid = None \<Longrightarrow> 0 < j \<Longrightarrow> j < fuel \<Longrightarrow> numbered_repair_id t v (i + j) \<in> set ks"
proof (induction fuel arbitrary: i rid j)
  case (Suc fuel)
  then have rec: "repair_id_loop fuel ks t v (i + 1) (numbered_repair_id t v (i + 1)) = None"
    by (simp split: if_splits)
  show ?case
  proof (cases "j = 1")
    case True
    with Suc.prems(3) have "0 < fuel" by simp
    with rec True show ?thesis by (cases fuel) (auto split: if_splits)
  next
    case False
    with Suc.prems Suc.IH [OF rec, of "j - 1"] show ?thesis by simp
  qed
qed simp

lemma repair_id_loop_Some: "repair_id_loop fuel ks t v i rid = Some r \<Longrightarrow> r \<notin> set ks"
  by (induction fuel arbitrary: i rid) (auto split: if_splits)

lemma repair_id_loop_finishes:
  assumes "length ks + 1 < fuel"
  shows "\<exists>r. repair_id_loop fuel ks t v i rid = Some r"
proof (rule ccontr)
  assume "\<nexists>r. repair_id_loop fuel ks t v i rid = Some r"
  then have "repair_id_loop fuel ks t v i rid = None" by simp
  then have "(\<lambda>j. numbered_repair_id t v (i + j)) ` {1..length ks + 1} \<subseteq> set ks"
    using assms by (auto intro: repair_id_loop_None)
  then have "card ((\<lambda>j. numbered_repair_id t v (i + j)) ` {1..length ks + 1}) \<le> length ks"
    by (meson card_length card_mono finite_set le_trans)
  moreover have "inj_on (\<lambda>j. numbered_repair_id t v (i + j)) {1..length ks + 1}"
    by (simp add: inj_on_def numbered_repair_id_inj)
  ultimately show False by (simp add: card_image)
qed

lemma fresh_repair_id_ok: "\<exists>r. fresh_repair_id g t = Some r \<and> r \<notin> set (node_ids g)"
proof -
  have "length (node_ids g) + 1 < length (graph_nodes g) + 2" by simp
  from repair_id_loop_finishes [OF this] obtain r where "fresh_repair_id g t = Some r"
    unfolding fresh_repair_id_def by blast
  then show ?thesis unfolding fresh_repair_id_def by (blast dest: repair_id_loop_Some)
qed

section \<open>Repairing a task\<close>

text \<open>The bounds of \<open>TaskNode\<close> and \<open>TaskBudget\<close>, which every node of a graph satisfied when it was built.\<close>

definition node_bounds :: "task_node \<Rightarrow> bool" where
  "node_bounds n \<longleftrightarrow> 0 \<le> node_priority n \<and> 0 \<le> node_attempts n \<and> 1 \<le> node_max_attempts n
     \<and> task_budget_valid (node_budget n)"

lemma capability_timeout_list_nonneg: "0 \<le> capability_timeout_list cs"
  by (induction cs) (auto split: option.splits)

lemma repair_node_bounds:
  assumes "node_bounds target" "node_max_attempts target \<le> 10"
  shows "node_bounds (repair_node rid t obj caps target)"
  using assms capability_timeout_list_nonneg
  by (auto simp: node_bounds_def repair_node_def Let_def task_budget_valid_def default_node_def
      or_int_def capability_timeout_def)

lemma repair_node_fields [graph_simps, simp]:
  "node_id (repair_node rid t obj caps target) = rid"
  "node_dependencies (repair_node rid t obj caps target) = node_dependencies target"
  "node_status (repair_node rid t obj caps target) = Node_PENDING"
  "node_output_artifact_ids (repair_node rid t obj caps target) = []"
  by (simp_all add: repair_node_def Let_def default_node_def)

text \<open>What \<open>add_repair_task\<close> has done when it returns.\<close>

definition repaired_graph :: "(nat \<Rightarrow> time) \<Rightarrow> string \<Rightarrow> string \<Rightarrow> task_node \<Rightarrow> task_graph \<Rightarrow> task_graph" where
  "repaired_graph clk t rid target g1 =
     fst (update_status (clk 3) (clk 4) t Node_SKIPPED
       (if node_status target = Node_SUCCEEDED
        then fst (update_status (clk 1) (clk 2) t Node_FAILED (rewire_all t rid g1))
        else rewire_all t rid g1))"

lemma new_task_node_Inr: "new_task_node n = Inr m \<Longrightarrow> m = n \<and> node_id n \<notin> set (node_dependencies n) \<and> node_bounds n"
  by (auto simp: new_task_node_def node_bounds_def split: if_splits)

lemma add_repair_task_shape:
  assumes "add_repair_task clk t obj caps g = Inr (g', n)"
  obtains target rid g1 where "get_node g t = Some target" "rid \<notin> set (node_ids g)"
    "fresh_repair_id g t = Some rid"
    "add_node (clk 0) (repair_node rid t obj caps target) g = Inr g1"
    "rid \<notin> set (node_dependencies target)"
    "n = rewire t rid (repair_node rid t obj caps target)"
    "g' = repaired_graph clk t rid target g1"
proof -
  from assms obtain target where target: "get_node g t = Some target"
    by (cases "get_node g t") (simp_all add: add_repair_task_def)
  obtain rid where rid: "fresh_repair_id g t = Some rid" "rid \<notin> set (node_ids g)"
    using fresh_repair_id_ok by blast
  let ?m = "repair_node rid t obj caps target"
  have node: "new_task_node ?m = Inr ?m"
    using assms target rid(1) new_task_node_Inr [of ?m]
    by (cases "new_task_node ?m") (simp_all add: add_repair_task_def)
  obtain g1 where g1: "add_node (clk 0) ?m g = Inr g1"
    using assms target rid(1) node by (cases "add_node (clk 0) ?m g") (simp_all add: add_repair_task_def)
  have "rid \<notin> set (node_dependencies target)" using new_task_node_Inr [OF node] by simp
  moreover have "n = rewire t rid ?m" "g' = repaired_graph clk t rid target g1"
    using assms target rid(1) node g1 by (simp_all add: add_repair_task_def repaired_graph_def Let_def)
  ultimately show thesis using target rid g1 by (intro that)
qed

lemma add_repair_task_ok:
  assumes "get_node g t = Some target" "node_bounds target" "node_max_attempts target \<le> 10" "valid_graph g"
  shows "\<exists>g' n. add_repair_task clk t obj caps g = Inr (g', n)"
proof -
  from fresh_repair_id_ok obtain rid where rid: "fresh_repair_id g t = Some rid" "rid \<notin> set (node_ids g)"
    by blast
  have "set (node_dependencies target) \<subseteq> set (node_ids g)"
    using assms(1,4) closed_graphD [of g t] map_of_in_keys [OF assms(1)]
    by (simp add: valid_graph_def del: set_map)
  with rid have "rid \<notin> set (node_dependencies target)" by auto
  with assms rid repair_node_bounds [OF assms(2,3), of rid t obj caps] show ?thesis
    by (simp add: add_repair_task_def new_task_node_def node_bounds_def add_node_def Let_def del: set_map)
qed

lemma rewire_all_valid:
  assumes valid: "valid_graph g" and t: "t \<in> set (node_ids g)" and rid: "rid \<in> set (node_ids g)"
    and same: "deps_of g rid = deps_of g t"
    and unused: "\<And>k. rid \<notin> set (deps_of g k)"
  shows "valid_graph (rewire_all t rid g)"
proof -
  from valid have wf: "wf_graph g" and closed: "closed_graph g" by (auto simp: valid_graph_def)
  have ids: "node_ids (rewire_all t rid g) = node_ids g" by simp
  have deps: "deps_of (rewire_all t rid g) k = map (\<lambda>d. if d = t then rid else d) (deps_of g k)" for k
    by (auto simp: deps_of_def split: option.splits)
  have "wf_graph (rewire_all t rid g)"
    using wf by (auto simp: wf_graph_def set_map_vals)
  moreover have "closed_graph (rewire_all t rid g)"
    unfolding closed_graph_def ids deps using closed_graphD [OF closed] rid by auto
  moreover have "acyclic (dep_rel (rewire_all t rid g))"
  proof -
    define f where "f k = (if k = rid then t else k)" for k
    have "dep_rel (rewire_all t rid g) \<subseteq> inv_image (dep_rel g) f"
    proof clarify
      fix d k
      assume "(d, k) \<in> dep_rel (rewire_all t rid g)"
      then obtain d' where k: "k \<in> set (node_ids g)" and d': "d' \<in> set (deps_of g k)"
        and d: "d = (if d' = t then rid else d')"
        by (auto simp: dep_rel_def dep_edges_def ids deps simp del: set_map) auto
      have "f d = d'" using d d' unused [of k] by (auto simp: f_def)
      moreover have "f k \<in> set (node_ids g)" "d' \<in> set (deps_of g (f k))"
        using k d' t same by (auto simp: f_def simp del: set_map)
      ultimately show "(d, k) \<in> inv_image (dep_rel g) f"
        by (simp add: dep_rel_def dep_edges_def del: set_map)
    qed
    then show ?thesis
      using valid_graph_wf [OF valid] by (meson wf_acyclic wf_inv_image wf_subset)
  qed
  ultimately show ?thesis by (simp add: valid_graph_def)
qed

lemma add_repair_task_valid:
  assumes valid: "valid_graph g" and rep: "add_repair_task clk t obj caps g = Inr (g', n)"
  shows "valid_graph g'"
proof -
  from rep obtain target rid g1 where T: "get_node g t = Some target" "rid \<notin> set (node_ids g)"
    "add_node (clk 0) (repair_node rid t obj caps target) g = Inr g1"
    "g' = repaired_graph clk t rid target g1"
    by (blast elim: add_repair_task_shape)
  have t: "t \<in> set (node_ids g)" using T(1) by (rule map_of_in_keys)
  have target: "set (node_dependencies target) \<subseteq> set (node_ids g)"
    using valid T(1) t closed_graphD [of g t] by (simp add: valid_graph_def del: set_map)
  have g1: "g1 = touch (clk 0) (put_node rid (repair_node rid t obj caps target) g)"
    using T(3) by (auto simp: add_node_def split: if_splits)
  have v1: "valid_graph g1" using valid T(3) target by (intro add_node_valid [OF valid T(3)]) simp
  have ids: "set (node_ids g1) = insert rid (set (node_ids g))"
    by (simp only: g1 touch_nodes put_node_nodes set_keys_update)
  have deps: "deps_of g1 k = (if k = rid then node_dependencies target else deps_of g k)" for k
    by (simp add: g1 deps_of_def)
  have "rid \<notin> set (deps_of g k)" for k
    using T(2) valid closed_graphD [of g k] deps_of_outside [of k g]
    by (cases "k \<in> set (node_ids g)") (auto simp: valid_graph_def simp del: set_map)
  then have "valid_graph (rewire_all t rid g1)"
    using t T(1,2) target ids deps by (intro rewire_all_valid [OF v1]) (auto simp del: set_map)
  then show ?thesis by (simp add: T(4) repaired_graph_def update_status_valid)
qed

lemma get_node_update_status:
  "get_node (fst (update_status t1 t2 nid st g)) k =
     (if k = nid
      then map_option (\<lambda>n. if is_legal_transition (node_status n) st then apply_status t1 st n else n)
             (get_node g k)
      else get_node g k)"
  by (auto simp: update_status_def split: option.splits)

text \<open>The status the target ends in: a live or settled target is SKIPPED, the others keep theirs.\<close>

definition repaired_status :: "task_node_status \<Rightarrow> task_node_status" where
  "repaired_status st = (if st \<in> {Node_RUNNING, Node_CANCELLED, Node_SKIPPED} then st else Node_SKIPPED)"

lemma repaired_status_path:
  "repaired_status st =
     (let st1 = (if st = Node_SUCCEEDED then Node_FAILED else st)
      in if is_legal_transition st1 Node_SKIPPED then Node_SKIPPED else st1)"
  by (cases st) (simp_all add: repaired_status_def is_legal_transition_def)

lemma get_node_repaired:
  "k \<noteq> t \<Longrightarrow>
     get_node (repaired_graph clk t rid target g1) k = map_option (rewire t rid) (get_node g1 k)"
  by (simp add: repaired_graph_def get_node_update_status)

lemma repaired_target:
  assumes "get_node g1 t = Some target"
  shows "\<exists>m. get_node (repaired_graph clk t rid target g1) t = Some m \<and>
    node_status m = repaired_status (node_status target) \<and>
    node_dependencies m = node_dependencies (rewire t rid target)"
  using assms
  by (auto simp: repaired_graph_def get_node_update_status repaired_status_path Let_def
      is_legal_transition_def simp del: rewire_fields(3))

lemma repaired_deps:
  assumes "get_node g1 t = Some target"
  shows "deps_of (repaired_graph clk t rid target g1) k =
    map (\<lambda>d. if d = t then rid else d) (deps_of g1 k)"
proof (cases "k = t")
  case True
  with repaired_target [OF assms, of clk rid] assms show ?thesis by auto
next
  case False
  then have "get_node (repaired_graph clk t rid target g1) k = map_option (rewire t rid) (get_node g1 k)"
    by (rule get_node_repaired)
  then show ?thesis by (cases "get_node g1 k") (simp_all add: deps_of_def)
qed

section \<open>Ready tasks\<close>

definition is_ready :: "task_graph \<Rightarrow> task_node \<Rightarrow> bool" where
  "is_ready g n \<longleftrightarrow> can_be_ready n \<and>
     (\<forall>d \<in> set (node_dependencies n). graph_status d g = Some Node_SUCCEEDED)"

lemma deps_succeeded_ok:
  "set ds \<subseteq> set (map fst nodes) \<Longrightarrow>
     deps_succeeded nodes ds =
       Inr (\<forall>d \<in> set ds. map_option node_status (map_of nodes d) = Some Node_SUCCEEDED)"
proof (induction ds)
  case (Cons d ds)
  then obtain n where "map_of nodes d = Some n" using in_keys_map_of [of d nodes] by auto
  with Cons show ?case by simp
qed simp

lemma collect_ready_ok:
  assumes "\<forall>n \<in> set ns. set (node_dependencies n) \<subseteq> set (node_ids g)"
  shows "collect_ready (graph_nodes g) ns = Inr (filter (is_ready g) ns)"
  using assms
proof (induction ns)
  case (Cons n ns)
  then have "deps_succeeded (graph_nodes g) (node_dependencies n) =
      Inr (\<forall>d \<in> set (node_dependencies n). graph_status d g = Some Node_SUCCEEDED)"
    by (simp add: deps_succeeded_ok graph_status_def)
  with Cons show ?case by (auto simp: is_ready_def)
qed simp

lemma ready_tasks_eq:
  assumes "wf_graph g" "closed_graph g"
  shows "ready_tasks g =
    Inr (sort_key (\<lambda>n. (- node_priority n, node_id n)) (filter (is_ready g) (map snd (graph_nodes g))))"
proof -
  have "\<forall>n \<in> set (map snd (graph_nodes g)). set (node_dependencies n) \<subseteq> set (node_ids g)"
    using nodes_deps_subset [OF assms(1)] assms(2) by (simp only: closed_graph_def)
  from collect_ready_ok [OF this] show ?thesis by (simp add: ready_tasks_def)
qed

lemma in_ready_tasks:
  assumes "wf_graph g" "closed_graph g" "get_node g k = Some n" "is_ready g n"
  shows "\<exists>rs. ready_tasks g = Inr rs \<and> n \<in> set rs"
  using assms map_of_SomeD [OF assms(3)] by (force simp: ready_tasks_eq)

text \<open>Behind a node that is neither ready nor settled there is a first one, along its dependencies, that is unfinished
  with all of its own dependencies succeeded.\<close>

lemma first_unfinished:
  assumes valid: "valid_graph g" and open_node: "get_node g k = Some n" "node_status n \<noteq> Node_SUCCEEDED"
  shows "\<exists>j m. (j, k) \<in> (dep_rel g)\<^sup>* \<and> get_node g j = Some m \<and> node_status m \<noteq> Node_SUCCEEDED \<and>
    (\<forall>d \<in> set (node_dependencies m). graph_status d g = Some Node_SUCCEEDED)"
proof -
  let ?U = "{j. (j, k) \<in> (dep_rel g)\<^sup>* \<and> (\<exists>n. get_node g j = Some n \<and> node_status n \<noteq> Node_SUCCEEDED)}"
  have "k \<in> ?U" using open_node by simp
  with valid_graph_wf [OF valid] obtain j where j: "j \<in> ?U" and min: "\<And>d. (d, j) \<in> dep_rel g \<Longrightarrow> d \<notin> ?U"
    by (rule wfE_min) auto
  from j obtain m where m: "(j, k) \<in> (dep_rel g)\<^sup>*" "get_node g j = Some m" "node_status m \<noteq> Node_SUCCEEDED" by auto
  have "graph_status d g = Some Node_SUCCEEDED" if d: "d \<in> set (node_dependencies m)" for d
  proof -
    have j_in: "j \<in> set (node_ids g)" using m(2) by (rule map_of_in_keys)
    have "d \<in> set (node_ids g)"
      using d m(2) j_in closed_graphD [of g j] valid by (auto simp: valid_graph_def simp del: set_map)
    then obtain nd where nd: "get_node g d = Some nd" using in_keys_map_of [of d "graph_nodes g"] by auto
    have edge: "(d, j) \<in> dep_rel g" using d m(2) j_in by (simp add: dep_rel_def dep_edges_def del: set_map)
    have "(d, k) \<in> (dep_rel g)\<^sup>*" using edge m(1) by (rule converse_rtrancl_into_rtrancl)
    with min [OF edge] nd show ?thesis by (auto simp: graph_status_def)
  qed
  with m show ?thesis by blast
qed

end
