(* ===== verification/Task_Graph_Props.thy ===== *)
theory Task_Graph_Props
  imports Task_Graph_Ops
begin

text \<open>
  The properties of the plan graph. \<open>demo_graph\<close> is the concrete plan the witnesses use: \<open>b\<close> and \<open>c\<close>
  depend on \<open>a\<close>, \<open>d\<close> on both; \<open>a\<close> has failed.
\<close>

definition demo_node :: "string \<Rightarrow> string list \<Rightarrow> int \<Rightarrow> task_node_status \<Rightarrow> string \<times> task_node" where
  "demo_node i ds p st =
     (i, (default_node i)\<lparr>node_dependencies := ds, node_priority := p, node_status := st\<rparr>)"

definition demo_graph :: "task_node_status \<Rightarrow> task_graph" where
  "demo_graph st = \<lparr>graph_root = ''a'',
     graph_nodes = [demo_node ''d'' [''b'', ''c''] 0 Node_PENDING, demo_node ''b'' [''a''] 1 Node_PENDING,
       demo_node ''c'' [''a''] 2 Node_PENDING, demo_node ''a'' [] 0 st],
     graph_version = 5, graph_created_at = 0, graph_updated_at = 0\<rparr>"

lemma demo_wf: "wf_graph (demo_graph st)"
  by (simp add: wf_graph_def demo_graph_def demo_node_def default_node_def)

lemma demo_validate: "validate (demo_graph Node_FAILED) = Inr ()" "validate (demo_graph Node_SUCCEEDED) = Inr ()"
  by code_simp+

lemma demo_valid: "valid_graph (demo_graph Node_FAILED)" "valid_graph (demo_graph Node_SUCCEEDED)"
  using demo_validate validate_iff [OF demo_wf] by blast+

text \<open>C1: \<open>validate\<close> (the dependency check and Kahn's algorithm of \<open>has_cycle\<close>) accepts a graph exactly
  when every dependency names a node and the dependency relation has no cycle; \<open>has_cycle\<close> never raises
  on a graph whose keys are its nodes' ids.\<close>

theorem validate_decides_acyclicity:
  assumes "wf_graph g"
  shows "(validate g = Inr () \<longleftrightarrow> closed_graph g \<and> acyclic (dep_rel g)) \<and>
    (closed_graph g \<longrightarrow> has_cycle g = Inr (\<not> acyclic (dep_rel g))) \<and> (\<exists>c. has_cycle g = Inr c)"
  using assms validate_iff [of g] has_cycle_correct [of g] has_cycle_total [of g]
  by (auto simp: valid_graph_def)

theorem validate_decides_acyclicity_witness:
  "validate (demo_graph Node_FAILED) = Inr () \<and> acyclic (dep_rel (demo_graph Node_FAILED))"
  using validate_decides_acyclicity [OF demo_wf [of Node_FAILED]] demo_validate by blast

text \<open>On a valid graph \<open>topological_order\<close> returns every node once, each after all its
  dependencies, and at each position the node of highest priority (then smallest id) among the
  unplaced nodes whose dependencies are placed.\<close>

theorem topological_order_correct:
  assumes "valid_graph g"
  shows "\<exists>out. topological_order g = Inr out \<and> distinct out \<and> set out = set (node_ids g) \<and>
    (\<forall>i < length out. set (deps_of g (out ! i)) \<subseteq> set (take i out)) \<and>
    greedy_order (node_ids g) (deps_of g) (rank g) out"
  using topological_order_ok [OF assms] by metis

theorem topological_order_correct_witness:
  "topological_order (demo_graph Node_FAILED) = Inr [''a'', ''c'', ''b'', ''d''] \<and>
   (\<exists>out. topological_order (demo_graph Node_FAILED) = Inr out \<and> distinct out)"
proof
  show "topological_order (demo_graph Node_FAILED) = Inr [''a'', ''c'', ''b'', ''d'']" by code_simp
  show "\<exists>out. topological_order (demo_graph Node_FAILED) = Inr out \<and> distinct out"
    using topological_order_correct [OF demo_valid(1)] by blast
qed

text \<open>\<open>ready_tasks\<close> returns exactly the PENDING or READY nodes whose dependencies all SUCCEEDED,
  in descending priority and ascending id.\<close>

theorem ready_tasks_exact:
  assumes "valid_graph g"
  shows "\<exists>rs. ready_tasks g = Inr rs \<and>
    mset rs = mset (filter (is_ready g) (map snd (graph_nodes g))) \<and>
    sorted (map (\<lambda>n. (- node_priority n, node_id n)) rs)"
  using assms by (simp add: ready_tasks_eq valid_graph_def)

theorem ready_tasks_exact_witness:
  "map_sum id (map node_id) (ready_tasks (demo_graph Node_SUCCEEDED)) = Inr [''c'', ''b''] \<and>
   (\<exists>rs. ready_tasks (demo_graph Node_SUCCEEDED) = Inr rs \<and>
      mset rs = mset (filter (is_ready (demo_graph Node_SUCCEEDED)) (map snd (graph_nodes (demo_graph Node_SUCCEEDED)))))"
proof
  show "map_sum id (map node_id) (ready_tasks (demo_graph Node_SUCCEEDED)) = Inr [''c'', ''b'']" by code_simp
qed (use ready_tasks_exact [OF demo_valid(2)] in blast)

text \<open>C2: No planning deadlock: behind every node of a valid graph that is PENDING or READY there is, among the node and
  what it depends on, one that \<open>ready_tasks\<close> returns, one that is RUNNING, or one that has ended without success
  (FAILED, SKIPPED or CANCELLED). So when nothing runs and nothing has ended without success, there is a ready task as
  long as a node is unfinished.\<close>

theorem ready_tasks_progress:
  assumes "valid_graph g" "get_node g k = Some n" "can_be_ready n"
  shows "\<exists>j m rs. (j, k) \<in> (dep_rel g)\<^sup>* \<and> get_node g j = Some m \<and> ready_tasks g = Inr rs \<and>
    (m \<in> set rs \<or> node_status m \<in> {Node_RUNNING, Node_FAILED, Node_SKIPPED, Node_CANCELLED})"
proof -
  from assms(3) have "node_status n \<noteq> Node_SUCCEEDED" by (auto simp: can_be_ready_def)
  from first_unfinished [OF assms(1,2) this] obtain j m where m: "(j, k) \<in> (dep_rel g)\<^sup>*" "get_node g j = Some m"
    "node_status m \<noteq> Node_SUCCEEDED" "\<forall>d \<in> set (node_dependencies m). graph_status d g = Some Node_SUCCEEDED" by blast
  from assms(1) have g: "wf_graph g" "closed_graph g" by (simp_all add: valid_graph_def)
  then obtain rs where rs: "ready_tasks g = Inr rs" by (auto simp: ready_tasks_eq)
  have "m \<in> set rs" if "can_be_ready m" using in_ready_tasks [OF g m(2)] that m(4) rs by (auto simp: is_ready_def)
  moreover have "node_status m \<in> {Node_RUNNING, Node_FAILED, Node_SKIPPED, Node_CANCELLED}" if "\<not> can_be_ready m"
    using that m(3) by (cases "node_status m") (auto simp: can_be_ready_def)
  ultimately show ?thesis using m(1,2) rs by blast
qed

text \<open>In the plan whose first task has succeeded, the last one is held up by a task that is ready.\<close>

theorem ready_tasks_progress_witness:
  "\<exists>j m rs. (j, ''d'') \<in> (dep_rel (demo_graph Node_SUCCEEDED))\<^sup>* \<and> get_node (demo_graph Node_SUCCEEDED) j = Some m \<and>
    ready_tasks (demo_graph Node_SUCCEEDED) = Inr rs \<and> m \<in> set rs"
proof -
  let ?g = "demo_graph Node_SUCCEEDED"
  have d: "get_node ?g ''d'' = Some (snd (demo_node ''d'' [''b'', ''c''] 0 Node_PENDING))"
    "can_be_ready (snd (demo_node ''d'' [''b'', ''c''] 0 Node_PENDING))"
    by (simp_all add: demo_graph_def demo_node_def can_be_ready_def)
  have "node_status m \<in> {Node_PENDING, Node_SUCCEEDED}" if "get_node ?g j = Some m" for j m
    using that by (auto simp: demo_graph_def demo_node_def split: if_splits)
  then show ?thesis using ready_tasks_progress [OF demo_valid(2) d] by fastforce
qed

text \<open>\<open>descendants\<close> is the set of nodes that depend on the given one, directly or transitively.\<close>

theorem descendants_are_dependents:
  assumes "valid_graph g"
  shows "descendants g i = {k. (i, k) \<in> (dep_rel g)\<^sup>+} \<and> i \<notin> descendants g i"
  using assms descendants_correct [of g i] by (auto simp: valid_graph_def acyclic_def)

theorem descendants_are_dependents_witness:
  "descendants (demo_graph Node_FAILED) ''b'' = {''d''} \<and> (''b'', ''d'') \<in> (dep_rel (demo_graph Node_FAILED))\<^sup>+"
proof -
  have "descendants (demo_graph Node_FAILED) ''b'' = {''d''}" by code_simp
  with descendants_are_dependents [OF demo_valid(1), of "''b''"] show ?thesis by blast
qed


text \<open>The result of repairing the failed \<open>a\<close>: the repair is ready, \<open>a\<close> is skipped.\<close>

definition demo_repair :: "graph_error + task_graph \<times> task_node" where
  "demo_repair = add_repair_task int ''a'' ''fix a'' None (demo_graph Node_FAILED)"

lemma demo_repair_Inr: "\<exists>g n. demo_repair = Inr (g, n) \<and> node_id n = ''a__repair_v5''"
proof -
  have "map_sum id (\<lambda>(g, n). node_id n) demo_repair = Inr ''a__repair_v5''" by code_simp
  from map_sum_InrD [OF this] show ?thesis by auto
qed


text \<open>A task whose attempts bound is within the budget's bound of 10 can always be repaired: the search
  for an unused id ends and construction succeeds. The target ends SKIPPED unless it was RUNNING,
  CANCELLED or SKIPPED; when the target's dependencies all SUCCEEDED, the repair is ready to run.\<close>

theorem repair_succeeds:
  assumes "valid_graph g" "get_node g t = Some target" "node_bounds target" "node_max_attempts target \<le> 10"
  shows "\<exists>g' n. add_repair_task clk t obj caps g = Inr (g', n) \<and>
    graph_status t g' = Some (repaired_status (node_status target)) \<and>
    get_node g' (node_id n) = Some n \<and> node_status n = Node_PENDING \<and>
    ((\<forall>d \<in> set (node_dependencies target). graph_status d g = Some Node_SUCCEEDED) \<longrightarrow> is_ready g' n)"
proof -
  from add_repair_task_ok [OF assms(2,3,4,1)] obtain g' n
    where rep: "add_repair_task clk t obj caps g = Inr (g', n)" by blast
  then obtain target' rid g1 where T: "get_node g t = Some target'" "rid \<notin> set (node_ids g)"
    "add_node (clk 0) (repair_node rid t obj caps target') g = Inr g1"
    "n = rewire t rid (repair_node rid t obj caps target')" "g' = repaired_graph clk t rid target' g1"
    by (blast elim: add_repair_task_shape)
  have same: "target' = target" using T(1) assms(2) by simp
  have g1: "g1 = touch (clk 0) (put_node rid (repair_node rid t obj caps target) g)"
    using T(3) same by (auto simp: add_node_def split: if_splits)
  have t: "t \<in> set (node_ids g)" using T(1) by (rule map_of_in_keys)
  with T(2) have neq: "t \<noteq> rid" by auto
  with T(1) have "get_node g1 t = Some target" by (simp add: g1 same)
  from repaired_target [OF this, of clk rid]
  have target: "graph_status t g' = Some (repaired_status (node_status target))"
    by (auto simp: T(5) same graph_status_def)
  have other: "get_node g' k = map_option (rewire t rid) (get_node g1 k)" if "k \<noteq> t" for k
    using get_node_repaired [OF that] by (simp add: T(5) same)
  have node: "get_node g' (node_id n) = Some n" using other [of rid] neq by (simp add: T(4) g1 same)
  have loop: "t \<notin> set (node_dependencies target)"
    using valid_no_self_dependency [OF assms(1), of t] assms(2) by simp
  have deps: "node_dependencies n = node_dependencies target"
    using loop by (auto simp: T(4) same intro!: map_idI)
  have status: "graph_status d g' = graph_status d g" if "d \<in> set (node_dependencies target)" for d
  proof -
    have "d \<in> set (node_ids g)"
      using that assms(1,2) t closed_graphD [of g t] by (auto simp: valid_graph_def simp del: set_map)
    then have "d \<noteq> rid" "d \<noteq> t" using T(2) loop that by auto
    then show ?thesis using other [of d] by (cases "get_node g d") (simp_all add: graph_status_def g1)
  qed
  have "is_ready g' n" if "\<forall>d \<in> set (node_dependencies target). graph_status d g = Some Node_SUCCEEDED"
  proof -
    have "can_be_ready n" by (simp add: can_be_ready_def T(4))
    with that status show ?thesis by (simp add: is_ready_def deps)
  qed
  with rep target node show ?thesis by (auto simp: T(4))
qed

theorem repair_succeeds_witness:
  "\<exists>g' n. demo_repair = Inr (g', n) \<and> graph_status ''a'' g' = Some Node_SKIPPED"
proof -
  let ?a = "snd (demo_node ''a'' [] 0 Node_FAILED)"
  have "get_node (demo_graph Node_FAILED) ''a'' = Some ?a" by (simp add: demo_graph_def demo_node_def)
  moreover have "node_bounds ?a" "node_max_attempts ?a \<le> 10" "node_status ?a = Node_FAILED"
    by (simp_all add: demo_node_def node_bounds_def default_node_def default_budget_def task_budget_valid_def)
  ultimately show ?thesis
    using repair_succeeds [OF demo_valid(1), of "''a''" ?a int "''fix a''" None]
    by (auto simp: demo_repair_def repaired_status_def)
qed

text \<open>A task with more than ten attempts allowed can never be repaired: \<open>TaskNode.max_attempts\<close> has no
  upper bound, the repair copies it into \<open>TaskBudget.max_attempts\<close>, which is bounded by 10, and the
  construction of the repair raises a validation error.\<close>

theorem repair_rejected_above_ten_attempts:
  assumes "get_node g t = Some target" "10 < node_max_attempts target"
  shows "add_repair_task clk t obj caps g = Inl FieldValidation"
proof -
  obtain rid where "fresh_repair_id g t = Some rid" using fresh_repair_id_ok by blast
  with assms show ?thesis
    by (simp add: add_repair_task_def new_task_node_def task_budget_valid_def repair_node_def Let_def or_int_def)
qed

theorem repair_rejected_above_ten_attempts_witness:
  "add_repair_task int ''t'' ''fix'' None
     \<lparr>graph_root = ''t'', graph_nodes = [(''t'', (default_node ''t'')\<lparr>node_max_attempts := 12\<rparr>)],
      graph_version = 1, graph_created_at = 0, graph_updated_at = 0\<rparr> = Inl FieldValidation"
  by (rule repair_rejected_above_ten_attempts [where target = "(default_node ''t'')\<lparr>node_max_attempts := 12\<rparr>"])
    simp_all

text \<open>The status of a node only ever moves along \<open>_LEGAL_TRANSITIONS\<close>: after any sequence of attempted
  updates it is reachable from the first by legal transitions, and SKIPPED and CANCELLED are final.\<close>

theorem node_status_follows_table:
  assumes "graph_status nid g = Some s"
  shows "(\<exists>s'. graph_status nid (fold (\<lambda>((t1, t2), st) g. fst (update_status t1 t2 nid st g)) ms g) = Some s' \<and>
      is_legal_transition\<^sup>*\<^sup>* s s') \<and>
    (s \<in> {Node_SKIPPED, Node_CANCELLED} \<longrightarrow>
      fold (\<lambda>((t1, t2), st) g. fst (update_status t1 t2 nid st g)) ms g = g)"
proof
  have fold_eq: "(\<lambda>((t1, t2), st) g. fst (update_status t1 t2 nid st g)) =
      (\<lambda>(c, st) g. fst ((case c of (t1, t2) \<Rightarrow> update_status t1 t2 nid) st g))"
    by (auto simp: fun_eq_iff)
  show "\<exists>s'. graph_status nid (fold (\<lambda>((t1, t2), st) g. fst (update_status t1 t2 nid st g)) ms g) = Some s' \<and>
      is_legal_transition\<^sup>*\<^sup>* s s'"
    unfolding fold_eq by (rule node_life.moves_reachable [OF assms])
  show "s \<in> {Node_SKIPPED, Node_CANCELLED} \<longrightarrow>
      fold (\<lambda>((t1, t2), st) g. fst (update_status t1 t2 nid st g)) ms g = g"
    unfolding fold_eq
    by (intro impI node_life.terminal_absorbing [OF assms]) (auto simp: is_legal_transition_def)
qed

theorem node_status_follows_table_witness:
  "graph_status ''a'' (demo_graph Node_SKIPPED) = Some Node_SKIPPED \<and>
   fold (\<lambda>((t1, t2), st) g. fst (update_status t1 t2 ''a'' st g))
     [((1, 2), Node_PENDING), ((3, 4), Node_SUCCEEDED)] (demo_graph Node_SKIPPED) = demo_graph Node_SKIPPED"
proof -
  have "graph_status ''a'' (demo_graph Node_SKIPPED) = Some Node_SKIPPED"
    by (simp add: graph_status_def demo_graph_def demo_node_def)
  with node_status_follows_table [OF this] show ?thesis by blast
qed

end
