(* ===== verification/Task_Board.thy ===== *)
theory Task_Board
  imports Py_Prelude
begin

text \<open>
  \<open>app/multiagent/task_board.py\<close>: the shared board of claimable tasks, with its in-process dictionaries
  and the durable table \<open>task_board_tasks\<close> (\<open>app/infrastructure/database/run_store.py\<close>). An operation
  returns the new board and either its Python result or the exception it raised; a failed durable write
  (\<open>wr = False\<close>) raises after the in-process task was mutated, as in the code. JSON serialisation of a
  task is the identity on rows. The theorems are in \<open>Task_Board_Inv\<close> and \<open>Task_Board_Props\<close>.
\<close>

section \<open>Data\<close>

datatype board_status =
    Board_PENDING | Board_CLAIMED | Board_RUNNING | Board_PRODUCED | Board_VERIFYING | Board_SUCCEEDED
  | Board_REPAIR_REQUIRED | Board_REPLAN_REQUIRED | Board_FAILED | Board_BLOCKED | Board_CANCELLED

definition all_board_statuses :: "board_status list" where
  "all_board_statuses = [Board_PENDING, Board_CLAIMED, Board_RUNNING, Board_PRODUCED, Board_VERIFYING,
     Board_SUCCEEDED, Board_REPAIR_REQUIRED, Board_REPLAN_REQUIRED, Board_FAILED, Board_BLOCKED,
     Board_CANCELLED]"

fun board_status_value :: "board_status \<Rightarrow> string" where
  "board_status_value Board_PENDING = ''pending''"
| "board_status_value Board_CLAIMED = ''claimed''"
| "board_status_value Board_RUNNING = ''running''"
| "board_status_value Board_PRODUCED = ''produced''"
| "board_status_value Board_VERIFYING = ''verifying''"
| "board_status_value Board_SUCCEEDED = ''succeeded''"
| "board_status_value Board_REPAIR_REQUIRED = ''repair_required''"
| "board_status_value Board_REPLAN_REQUIRED = ''replan_required''"
| "board_status_value Board_FAILED = ''failed''"
| "board_status_value Board_BLOCKED = ''blocked''"
| "board_status_value Board_CANCELLED = ''cancelled''"

definition RATE_LIMIT_GRACE :: rat where
  "RATE_LIMIT_GRACE = 5"

record board_task =
  bt_task_id :: string
  bt_run_id :: string
  bt_title :: string
  bt_objective :: string
  bt_dependencies :: "string list"
  bt_required_capabilities :: "string list"
  bt_status :: board_status
  bt_claimed_by :: "string option"
  bt_claimed_at :: "time option"
  bt_attempts :: int
  bt_max_attempts :: int
  bt_last_error :: "string option"
  bt_next_attempt_at :: "time option"
  bt_produced_artifact_ids :: "string list"
  bt_priority :: int
  bt_created_at :: time
  bt_updated_at :: time
  bt_completed_at :: "time option"
  bt_metadata :: pydict

text \<open>\<open>BoardTask(task_id=..., run_id=...)\<close> with every other field at its default.\<close>

definition new_board_task :: "time \<Rightarrow> time \<Rightarrow> string \<Rightarrow> string \<Rightarrow> string \<Rightarrow> string \<Rightarrow> board_task" where
  "new_board_task t1 t2 tid rid title objective = \<lparr>bt_task_id = tid, bt_run_id = rid, bt_title = title,
     bt_objective = objective, bt_dependencies = [], bt_required_capabilities = [],
     bt_status = Board_PENDING, bt_claimed_by = None, bt_claimed_at = None, bt_attempts = 0,
     bt_max_attempts = 3, bt_last_error = None, bt_next_attempt_at = None,
     bt_produced_artifact_ids = [], bt_priority = 0, bt_created_at = t1, bt_updated_at = t2,
     bt_completed_at = None, bt_metadata = []\<rparr>"

datatype claim_reason =
  No_reason | Task_not_found | Task_not_pending board_status | Dependency_not_succeeded string

record claim_result =
  cr_success :: bool
  cr_task :: "board_task option"
  cr_reason :: claim_reason

type_synonym task_key = "string \<times> string"  \<comment> \<open>\<open>(run_id, task_id)\<close>\<close>
type_synonym task_table = "(task_key \<times> board_task) list"

record task_board =
  board_tasks :: task_table
  board_by_run :: "(string \<times> task_key list) list"
  board_persist :: bool
  board_rows :: task_table  \<comment> \<open>the SQLite table, rows in rowid order\<close>

datatype board_error = PersistFailed | MetadataTypeError | DelayOverflow

type_synonym 'a board_result = "task_board \<times> (board_error + 'a)"

definition task_key_of :: "board_task \<Rightarrow> task_key" where
  "task_key_of t = (bt_run_id t, bt_task_id t)"

section \<open>Storage\<close>

text \<open>\<open>upsert_task_board_task\<close>: insert at the end, or replace the row in place.\<close>

definition upsert_task_board_task :: "board_task \<Rightarrow> task_board \<Rightarrow> task_board" where
  "upsert_task_board_task t b = b\<lparr>board_rows := AList.update (task_key_of t) t (board_rows b)\<rparr>"

definition persist :: "bool \<Rightarrow> board_task \<Rightarrow> 'a \<Rightarrow> task_board \<Rightarrow> 'a board_result" where
  "persist wr t r b =
     (if \<not> board_persist b then (b, Inr r)
      else if wr then (upsert_task_board_task t b, Inr r)
      else (b, Inl PersistFailed))"

text \<open>The stored object, mutated in place.\<close>

definition put_task :: "task_key \<Rightarrow> board_task \<Rightarrow> task_board \<Rightarrow> task_board" where
  "put_task k t b = b\<lparr>board_tasks := AList.update k t (board_tasks b)\<rparr>"

definition commit :: "bool \<Rightarrow> task_key \<Rightarrow> board_task \<Rightarrow> 'a \<Rightarrow> task_board \<Rightarrow> 'a board_result" where
  "commit wr k t r b = persist wr t r (put_task k t b)"

definition run_keys :: "task_board \<Rightarrow> string \<Rightarrow> task_key list" where
  "run_keys b rid = (case map_of (board_by_run b) rid of None \<Rightarrow> [] | Some ks \<Rightarrow> ks)"

definition add :: "bool \<Rightarrow> board_task \<Rightarrow> task_board \<Rightarrow> board_task board_result" where
  "add wr t b =
     (let k = task_key_of t;
          keys = run_keys b (bt_run_id t);
          keys' = (if k \<in> set keys then keys else keys @ [k]);
          b1 = (put_task k t b)\<lparr>board_by_run := AList.update (bt_run_id t) keys' (board_by_run b)\<rparr>
      in persist wr t t b1)"

definition create_task :: "bool \<Rightarrow> time \<Rightarrow> time \<Rightarrow> string \<Rightarrow> string \<Rightarrow> string \<Rightarrow> string \<Rightarrow> string list \<Rightarrow>
    string list \<Rightarrow> int \<Rightarrow> int \<Rightarrow> task_board \<Rightarrow> board_task board_result" where
  "create_task wr t1 t2 tid rid title objective deps caps priority max_attempts b =
     add wr ((new_board_task t1 t2 tid rid title objective)
       \<lparr>bt_dependencies := deps, bt_required_capabilities := caps, bt_priority := priority,
        bt_max_attempts := max_attempts\<rparr>) b"

text \<open>\<open>_raw_get\<close>: by composite key, or the only task of that id when the run is not given.\<close>

definition raw_get :: "string \<Rightarrow> string option \<Rightarrow> task_board \<Rightarrow> (task_key \<times> board_task) option" where
  "raw_get tid rid b =
     (case rid of
        Some r \<Rightarrow> map_option (\<lambda>t. ((r, tid), t)) (map_of (board_tasks b) (r, tid))
      | None \<Rightarrow>
          (case filter (\<lambda>((_, i), _). i = tid) (board_tasks b) of
             [kt] \<Rightarrow> Some kt
           | _ \<Rightarrow> None))"

section \<open>Claiming\<close>

text \<open>The first dependency of the run that is absent or not SUCCEEDED.\<close>

fun unmet_dependency :: "task_table \<Rightarrow> string \<Rightarrow> string list \<Rightarrow> string option" where
  "unmet_dependency table rid [] = None"
| "unmet_dependency table rid (d # ds) =
     (case map_of table (rid, d) of
        None \<Rightarrow> Some d
      | Some t \<Rightarrow> if bt_status t \<noteq> Board_SUCCEEDED then Some d else unmet_dependency table rid ds)"

definition claim_failed :: "board_task option \<Rightarrow> claim_reason \<Rightarrow> claim_result" where
  "claim_failed t r = \<lparr>cr_success = False, cr_task = t, cr_reason = r\<rparr>"

definition claimed :: "time \<Rightarrow> time \<Rightarrow> string \<Rightarrow> board_task \<Rightarrow> board_task" where
  "claimed t1 t2 agent t = t\<lparr>bt_status := Board_CLAIMED, bt_claimed_by := Some agent,
     bt_claimed_at := Some t1, bt_updated_at := t2\<rparr>"

text \<open>
  With persistence the row decides, inside \<open>BEGIN IMMEDIATE\<close>; without it the in-process task does. A
  failed write rolls the transaction back and leaves both sides as they were.
\<close>

definition claim :: "bool \<Rightarrow> time \<Rightarrow> time \<Rightarrow> string \<Rightarrow> string \<Rightarrow> string option \<Rightarrow> task_board
    \<Rightarrow> claim_result board_result" where
  "claim wr t1 t2 tid agent rid b =
     (case raw_get tid rid b of
        None \<Rightarrow> (b, Inr (claim_failed None Task_not_found))
      | Some (k, mem) \<Rightarrow>
          if board_persist b then
            (case map_of (board_rows b) (bt_run_id mem, tid) of
               None \<Rightarrow> (b, Inr (claim_failed None Task_not_found))
             | Some task \<Rightarrow>
                 if bt_status task \<noteq> Board_PENDING
                 then (b, Inr (claim_failed (Some task) (Task_not_pending (bt_status task))))
                 else case unmet_dependency (board_rows b) (bt_run_id task) (bt_dependencies task) of
                        Some d \<Rightarrow> (b, Inr (claim_failed (Some task) (Dependency_not_succeeded d)))
                      | None \<Rightarrow>
                          let task' = claimed t1 t2 agent task in
                          if wr then (put_task (task_key_of task') task' (upsert_task_board_task task' b),
                                      Inr \<lparr>cr_success = True, cr_task = Some task', cr_reason = No_reason\<rparr>)
                          else (b, Inl PersistFailed))
          else
            (if bt_status mem \<noteq> Board_PENDING
             then (b, Inr (claim_failed (Some mem) (Task_not_pending (bt_status mem))))
             else case unmet_dependency (board_tasks b) (bt_run_id mem) (bt_dependencies mem) of
                    Some d \<Rightarrow> (b, Inr (claim_failed (Some mem) (Dependency_not_succeeded d)))
                  | None \<Rightarrow>
                      let task' = claimed t1 t2 agent mem in
                      commit wr k task' \<lparr>cr_success = True, cr_task = Some task', cr_reason = No_reason\<rparr> b))"

section \<open>Transitions\<close>

definition start :: "bool \<Rightarrow> time \<Rightarrow> string \<Rightarrow> string \<Rightarrow> string option \<Rightarrow> task_board \<Rightarrow> bool board_result" where
  "start wr now tid agent rid b =
     (case raw_get tid rid b of
        None \<Rightarrow> (b, Inr False)
      | Some (k, t) \<Rightarrow>
          if bt_claimed_by t \<noteq> Some agent then (b, Inr False)
          else if bt_status t \<noteq> Board_CLAIMED then (b, Inr False)
          else commit wr k (t\<lparr>bt_status := Board_RUNNING, bt_updated_at := now\<rparr>) True b)"

definition release :: "bool \<Rightarrow> time \<Rightarrow> string \<Rightarrow> string \<Rightarrow> string \<Rightarrow> string option \<Rightarrow> task_board
    \<Rightarrow> bool board_result" where
  "release wr now tid agent reason rid b =
     (case raw_get tid rid b of
        None \<Rightarrow> (b, Inr False)
      | Some (k, t) \<Rightarrow>
          if bt_claimed_by t \<noteq> Some agent then (b, Inr False)
          else if bt_status t \<notin> {Board_CLAIMED, Board_RUNNING, Board_BLOCKED} then (b, Inr False)
          else commit wr k (t\<lparr>bt_status := Board_PENDING, bt_claimed_by := None, bt_claimed_at := None,
                 bt_attempts := bt_attempts t + 1,
                 bt_last_error := (if reason = [] then None else Some reason),
                 bt_updated_at := now\<rparr>) True b)"

definition complete :: "bool \<Rightarrow> time \<Rightarrow> time \<Rightarrow> string \<Rightarrow> string \<Rightarrow> string list \<Rightarrow> string option \<Rightarrow> task_board
    \<Rightarrow> bool board_result" where
  "complete wr t1 t2 tid agent artifacts rid b =
     (case raw_get tid rid b of
        None \<Rightarrow> (b, Inr False)
      | Some (k, t) \<Rightarrow>
          if bt_claimed_by t \<noteq> Some agent then (b, Inr False)
          else commit wr k (t\<lparr>bt_status := Board_SUCCEEDED,
                 bt_produced_artifact_ids := bt_produced_artifact_ids t @ artifacts,
                 bt_completed_at := Some t1, bt_updated_at := t2\<rparr>) True b)"

definition mark_produced :: "bool \<Rightarrow> time \<Rightarrow> string \<Rightarrow> string \<Rightarrow> string list \<Rightarrow> string option \<Rightarrow> task_board
    \<Rightarrow> bool board_result" where
  "mark_produced wr now tid agent artifacts rid b =
     (case raw_get tid rid b of
        None \<Rightarrow> (b, Inr False)
      | Some (k, t) \<Rightarrow>
          if bt_claimed_by t \<noteq> Some agent then (b, Inr False)
          else if bt_status t \<noteq> Board_RUNNING then (b, Inr False)
          else commit wr k (t\<lparr>bt_status := Board_PRODUCED,
                 bt_produced_artifact_ids := dedup artifacts, bt_updated_at := now\<rparr>) True b)"

definition mark_verifying :: "bool \<Rightarrow> time \<Rightarrow> string \<Rightarrow> string option \<Rightarrow> task_board \<Rightarrow> bool board_result" where
  "mark_verifying wr now tid rid b =
     (case raw_get tid rid b of
        None \<Rightarrow> (b, Inr False)
      | Some (k, t) \<Rightarrow>
          if bt_status t \<noteq> Board_PRODUCED then (b, Inr False)
          else commit wr k (t\<lparr>bt_status := Board_VERIFYING, bt_updated_at := now\<rparr>) True b)"

definition mark_verified :: "bool \<Rightarrow> time \<Rightarrow> time \<Rightarrow> string \<Rightarrow> string option \<Rightarrow> task_board
    \<Rightarrow> bool board_result" where
  "mark_verified wr t1 t2 tid rid b =
     (case raw_get tid rid b of
        None \<Rightarrow> (b, Inr False)
      | Some (k, t) \<Rightarrow>
          if bt_status t \<notin> {Board_PRODUCED, Board_VERIFYING} then (b, Inr False)
          else commit wr k (t\<lparr>bt_status := Board_SUCCEEDED, bt_completed_at := Some t1,
                 bt_updated_at := t2\<rparr>) True b)"

definition mark_repair_required :: "bool \<Rightarrow> time \<Rightarrow> string \<Rightarrow> string option \<Rightarrow> task_board
    \<Rightarrow> bool board_result" where
  "mark_repair_required wr now tid rid b =
     (case raw_get tid rid b of
        None \<Rightarrow> (b, Inr False)
      | Some (k, t) \<Rightarrow>
          if bt_status t \<notin> {Board_PRODUCED, Board_VERIFYING} then (b, Inr False)
          else commit wr k (t\<lparr>bt_status := Board_REPAIR_REQUIRED, bt_updated_at := now\<rparr>) True b)"

definition mark_blocked :: "bool \<Rightarrow> time \<Rightarrow> string \<Rightarrow> string \<Rightarrow> string \<Rightarrow> string option \<Rightarrow> task_board
    \<Rightarrow> bool board_result" where
  "mark_blocked wr now tid agent reason rid b =
     (case raw_get tid rid b of
        None \<Rightarrow> (b, Inr False)
      | Some (k, t) \<Rightarrow>
          if bt_claimed_by t \<noteq> Some agent then (b, Inr False)
          else if bt_status t \<noteq> Board_RUNNING then (b, Inr False)
          else commit wr k (t\<lparr>bt_status := Board_BLOCKED, bt_last_error := Some reason,
                 bt_updated_at := now\<rparr>) True b)"

definition supersede_with_repair :: "bool \<Rightarrow> time \<Rightarrow> string \<Rightarrow> string \<Rightarrow> string \<Rightarrow> task_board
    \<Rightarrow> bool board_result" where
  "supersede_with_repair wr now tid repair_id rid b =
     (case raw_get tid (Some rid) b of
        None \<Rightarrow> (b, Inr False)
      | Some (k, t) \<Rightarrow>
          if bt_status t \<noteq> Board_REPAIR_REQUIRED then (b, Inr False)
          else commit wr k (t\<lparr>
                 bt_metadata := AList.update ''superseded_by_repair'' (PyStr repair_id) (bt_metadata t),
                 bt_updated_at := now\<rparr>) True b)"

section \<open>Failure, retry, cancellation, replanning\<close>

definition grace_used :: "pydict \<Rightarrow> pyval" where
  "grace_used md = (case map_of md ''rate_limit_grace_used'' of None \<Rightarrow> PyInt 0 | Some v \<Rightarrow> v)"

text \<open>The second condition of \<open>fail\<close>; \<open>None\<close> is the TypeError of comparing a non-number.\<close>

definition grace_left :: "string \<Rightarrow> pydict \<Rightarrow> bool option" where
  "grace_left category md =
     (if category = ''rate_limited'' then map_option (\<lambda>n. n < RATE_LIMIT_GRACE) (py_number (grace_used md))
      else Some False)"

definition requeued :: "time \<Rightarrow> board_task \<Rightarrow> board_task" where
  "requeued due t = t\<lparr>bt_status := Board_PENDING, bt_claimed_by := None, bt_claimed_at := None,
     bt_next_attempt_at := Some due\<rparr>"

text \<open>\<open>min(300.0, 15.0 * (2 ** exponent))\<close> with the exponent of the attempt just counted.\<close>

definition grace_exponent :: "board_task \<Rightarrow> nat" where
  "grace_exponent t = nat (max 0 (bt_attempts t - 1))"

definition grace_delay :: "board_task \<Rightarrow> seconds" where
  "grace_delay t = min 300 (15 * 2 ^ grace_exponent t)"

definition failure_entry :: "board_task \<Rightarrow> string \<Rightarrow> string \<Rightarrow> pyval" where
  "failure_entry t category error = PyDict [(''attempt'', PyInt (bt_attempts t)),
     (''category'', PyStr category), (''message'', PyStr error), (''timestamp'', PyTime (bt_updated_at t))]"

definition fail :: "bool \<Rightarrow> time \<Rightarrow> time \<Rightarrow> string \<Rightarrow> string \<Rightarrow> string \<Rightarrow> string option \<Rightarrow> bool \<Rightarrow> seconds
    \<Rightarrow> string \<Rightarrow> task_board \<Rightarrow> bool board_result" where
  "fail wr t1 t2 tid agent error rid retryable delay category b =
     (case raw_get tid rid b of
        None \<Rightarrow> (b, Inr False)
      | Some (k, t0) \<Rightarrow>
          if bt_claimed_by t0 \<noteq> Some agent then (b, Inr False)
          else
            let t = t0\<lparr>bt_attempts := bt_attempts t0 + 1, bt_last_error := Some error,
                       bt_updated_at := t1\<rparr>
            in case append_entry (Some 20) ''error_history'' (failure_entry t category error) (bt_metadata t) of
                 None \<Rightarrow> (put_task k t b, Inl MetadataTypeError)
               | Some md \<Rightarrow>
                   let u = t\<lparr>bt_metadata := md\<rparr> in
                   if retryable \<and> bt_attempts u < bt_max_attempts u
                   then commit wr k (requeued (bt_updated_at u + micros (max 0 delay)) u) True b
                   else case grace_left category md of
                          None \<Rightarrow> (put_task k u b, Inl MetadataTypeError)
                        | Some False \<Rightarrow>
                            commit wr k (u\<lparr>bt_status := Board_FAILED, bt_completed_at := Some t2,
                              bt_next_attempt_at := None\<rparr>) True b
                        | Some True \<Rightarrow>
                            let used = (case py_plus_one (grace_used md) of Some v \<Rightarrow> v | None \<Rightarrow> PyNone);
                                v = u\<lparr>bt_metadata := AList.update ''rate_limit_grace_used'' used md,
                                      bt_status := Board_PENDING, bt_claimed_by := None,
                                      bt_claimed_at := None\<rparr>
                            in if 1023 < grace_exponent u then (put_task k v b, Inl DelayOverflow)
                               else commit wr k (v\<lparr>bt_next_attempt_at :=
                                      Some (bt_updated_at u + micros (grace_delay u))\<rparr>) True b)"

definition retry_entry :: "board_task \<Rightarrow> string \<Rightarrow> time \<Rightarrow> pyval" where
  "retry_entry t reason now = PyDict [(''reason'', PyStr reason),
     (''previous_status'', PyStr (board_status_value (bt_status t))),
     (''previous_attempts'', PyInt (bt_attempts t)), (''timestamp'', PyTime now)]"

definition retry :: "bool \<Rightarrow> time \<Rightarrow> time \<Rightarrow> string \<Rightarrow> string \<Rightarrow> string \<Rightarrow> bool \<Rightarrow> task_board
    \<Rightarrow> bool board_result" where
  "retry wr t1 t2 tid rid reason reset_attempts b =
     (case raw_get tid (Some rid) b of
        None \<Rightarrow> (b, Inr False)
      | Some (k, t) \<Rightarrow>
          if bt_status t \<notin> {Board_FAILED, Board_REPAIR_REQUIRED, Board_REPLAN_REQUIRED, Board_BLOCKED}
          then (b, Inr False)
          else case append_entry None ''manual_retries'' (retry_entry t reason t1) (bt_metadata t) of
                 None \<Rightarrow> (b, Inl MetadataTypeError)
               | Some md \<Rightarrow>
                   let u = t\<lparr>bt_metadata := md\<rparr>;
                       v = (if reset_attempts then u\<lparr>bt_attempts := 0\<rparr>
                            else if bt_attempts u \<ge> bt_max_attempts u
                                 then u\<lparr>bt_max_attempts := bt_attempts u + 1\<rparr> else u)
                   in commit wr k (v\<lparr>bt_status := Board_PENDING, bt_claimed_by := None,
                        bt_claimed_at := None, bt_completed_at := None, bt_next_attempt_at := None,
                        bt_last_error := Some reason, bt_updated_at := t2\<rparr>) True b)"

definition cancel :: "bool \<Rightarrow> time \<Rightarrow> time \<Rightarrow> string \<Rightarrow> string \<Rightarrow> string option \<Rightarrow> task_board
    \<Rightarrow> bool board_result" where
  "cancel wr t1 t2 tid reason rid b =
     (case raw_get tid rid b of
        None \<Rightarrow> (b, Inr False)
      | Some (k, t) \<Rightarrow>
          if bt_status t \<in> {Board_SUCCEEDED, Board_FAILED, Board_CANCELLED} then (b, Inr False)
          else commit wr k (t\<lparr>bt_status := Board_CANCELLED, bt_last_error := Some reason,
                 bt_completed_at := Some t1, bt_updated_at := t2\<rparr>) True b)"

definition replan_entry :: "board_task \<Rightarrow> string \<Rightarrow> string \<Rightarrow> time \<Rightarrow> pyval" where
  "replan_entry t requested_by reason now = PyDict [(''requested_by'', PyStr requested_by),
     (''reason'', PyStr reason), (''requested_at'', PyTime now),
     (''previous_status'', PyStr (board_status_value (bt_status t)))]"

definition request_replan :: "bool \<Rightarrow> time \<Rightarrow> string \<Rightarrow> string \<Rightarrow> string \<Rightarrow> string option \<Rightarrow> task_board
    \<Rightarrow> bool board_result" where
  "request_replan wr now tid reason requested_by rid b =
     (case raw_get tid rid b of
        None \<Rightarrow> (b, Inr False)
      | Some (k, t) \<Rightarrow>
          if bt_status t = Board_CANCELLED then (b, Inr False)
          else case append_entry (Some 20) ''replan_requests'' (replan_entry t requested_by reason now)
                      (bt_metadata t) of
                 None \<Rightarrow> (b, Inl MetadataTypeError)
               | Some md \<Rightarrow>
                   commit wr k (t\<lparr>bt_metadata := md, bt_status := Board_REPLAN_REQUIRED,
                     bt_last_error := Some reason, bt_completed_at := None, bt_updated_at := now\<rparr>) True b)"

section \<open>Whole runs\<close>

definition raw_list_by_run :: "string \<Rightarrow> task_board \<Rightarrow> board_task list" where
  "raw_list_by_run rid b = List.map_filter (map_of (board_tasks b)) (run_keys b rid)"

text \<open>
  The generator of \<open>cancel_run\<close>: one \<open>cancel\<close> per task id, counting the successes, ended by the first
  exception. Iteration \<open>i\<close> has its own write outcome and clock readings.
\<close>

fun cancel_each :: "(nat \<Rightarrow> bool) \<Rightarrow> (nat \<Rightarrow> time) \<Rightarrow> nat \<Rightarrow> string \<Rightarrow> string \<Rightarrow> string list \<Rightarrow> nat
    \<Rightarrow> task_board \<Rightarrow> nat board_result" where
  "cancel_each wr clk i reason rid [] n b = (b, Inr n)"
| "cancel_each wr clk i reason rid (tid # tids) n b =
     (case cancel (wr i) (clk (2 * i)) (clk (2 * i + 1)) tid reason (Some rid) b of
        (b', Inl e) \<Rightarrow> (b', Inl e)
      | (b', Inr ok) \<Rightarrow> cancel_each wr clk (Suc i) reason rid tids (if ok then n + 1 else n) b')"

definition cancel_run :: "(nat \<Rightarrow> bool) \<Rightarrow> (nat \<Rightarrow> time) \<Rightarrow> string \<Rightarrow> string \<Rightarrow> task_board
    \<Rightarrow> nat board_result" where
  "cancel_run wr clk rid reason b =
     cancel_each wr clk 0 reason rid (map bt_task_id (raw_list_by_run rid b)) 0 b"

text \<open>\<open>purge_run\<close> evicts the run from the process; the rows stay.\<close>

fun pop_keys :: "task_key list \<Rightarrow> task_table \<Rightarrow> nat \<Rightarrow> task_table \<times> nat" where
  "pop_keys [] ts n = (ts, n)"
| "pop_keys (k # ks) ts n =
     (case map_of ts k of
        None \<Rightarrow> pop_keys ks ts n
      | Some _ \<Rightarrow> pop_keys ks (AList.delete k ts) (n + 1))"

definition purge_run :: "string \<Rightarrow> task_board \<Rightarrow> task_board \<times> nat" where
  "purge_run rid b =
     (let (ts, n) = pop_keys (run_keys b rid) (board_tasks b) 0
      in (b\<lparr>board_tasks := ts, board_by_run := AList.delete rid (board_by_run b)\<rparr>, n))"

text \<open>\<open>list_task_board_tasks\<close> and the loading loop of \<open>restore_run\<close>.\<close>

definition list_task_board_tasks :: "string \<Rightarrow> task_board \<Rightarrow> board_task list" where
  "list_task_board_tasks rid b = map snd (filter (\<lambda>((r, _), _). r = rid) (board_rows b))"

fun restore_tasks :: "board_task list \<Rightarrow> nat \<Rightarrow> task_board \<Rightarrow> task_board \<times> nat" where
  "restore_tasks [] n b = (b, n)"
| "restore_tasks (t # ts) n b =
     (if task_key_of t \<in> set (map fst (board_tasks b)) then restore_tasks ts n b
      else restore_tasks ts (n + 1)
        ((put_task (task_key_of t) t b)\<lparr>board_by_run :=
           AList.update (bt_run_id t) (run_keys b (bt_run_id t) @ [task_key_of t]) (board_by_run b)\<rparr>))"

definition restore_run :: "string \<Rightarrow> task_board \<Rightarrow> task_board \<times> nat" where
  "restore_run rid b =
     (if \<not> board_persist b then (b, 0) else restore_tasks (list_task_board_tasks rid b) 0 b)"

text \<open>\<open>prepare_for_resume\<close>: leases and unfinished verifications of a dead process go back to PENDING.\<close>

definition resume_reason :: "board_status \<Rightarrow> string" where
  "resume_reason st =
     (if st = Board_PRODUCED then ''interrupted_after_produced''
      else if st = Board_VERIFYING then ''interrupted_during_verify''
      else ''interrupted_before_resume'')"

definition resumed :: "time \<Rightarrow> board_task \<Rightarrow> board_task" where
  "resumed now t = t\<lparr>bt_status := Board_PENDING, bt_claimed_by := None, bt_claimed_at := None,
     bt_last_error := Some (resume_reason (bt_status t)), bt_updated_at := now\<rparr>"

definition interrupted :: "board_status \<Rightarrow> bool" where
  "interrupted st \<longleftrightarrow> st \<in> {Board_CLAIMED, Board_RUNNING, Board_PRODUCED, Board_VERIFYING}"

fun resume_each :: "(nat \<Rightarrow> bool) \<Rightarrow> (nat \<Rightarrow> time) \<Rightarrow> nat \<Rightarrow> task_key list \<Rightarrow> nat \<Rightarrow> task_board
    \<Rightarrow> nat board_result" where
  "resume_each wr clk i [] n b = (b, Inr n)"
| "resume_each wr clk i (k # ks) n b =
     (case map_of (board_tasks b) k of
        None \<Rightarrow> resume_each wr clk (Suc i) ks n b
      | Some t \<Rightarrow>
          if \<not> interrupted (bt_status t) then resume_each wr clk (Suc i) ks n b
          else case commit (wr i) k (resumed (clk i) t) () b of
                 (b', Inl e) \<Rightarrow> (b', Inl e)
               | (b', Inr _) \<Rightarrow> resume_each wr clk (Suc i) ks (n + 1) b')"

definition prepare_for_resume :: "(nat \<Rightarrow> bool) \<Rightarrow> (nat \<Rightarrow> time) \<Rightarrow> string \<Rightarrow> task_board
    \<Rightarrow> nat board_result" where
  "prepare_for_resume wr clk rid b = resume_each wr clk 0 (run_keys b rid) 0 b"

section \<open>Queries\<close>

text \<open>Copies returned to callers are values here.\<close>

definition get :: "string \<Rightarrow> string option \<Rightarrow> task_board \<Rightarrow> board_task option" where
  "get tid rid b = map_option snd (raw_get tid rid b)"

definition list_by_run :: "string \<Rightarrow> task_board \<Rightarrow> board_task list" where
  "list_by_run rid b = raw_list_by_run rid b"

definition due :: "time \<Rightarrow> board_task \<Rightarrow> bool" where
  "due now t \<longleftrightarrow> (case bt_next_attempt_at t of None \<Rightarrow> True | Some d \<Rightarrow> d \<le> now)"

definition list_pending :: "time \<Rightarrow> string \<Rightarrow> task_board \<Rightarrow> board_task list" where
  "list_pending now rid b =
     filter (\<lambda>t. bt_status t = Board_PENDING \<and> due now t) (list_by_run rid b)"

definition list_claimable :: "time \<Rightarrow> string \<Rightarrow> string list \<Rightarrow> task_board \<Rightarrow> board_task list" where
  "list_claimable now rid caps b =
     sort_key (\<lambda>t. - bt_priority t)
       (filter (\<lambda>t. unmet_dependency (board_tasks b) rid (bt_dependencies t) = None \<and>
           (caps \<noteq> [] \<and> bt_required_capabilities t \<noteq> [] \<longrightarrow>
              set (bt_required_capabilities t) \<subseteq> set caps))
         (list_pending now rid b))"

definition task_settled :: "board_task \<Rightarrow> bool" where
  "task_settled t \<longleftrightarrow> bt_status t = Board_SUCCEEDED \<or>
     dict_truthy (bt_metadata t) ''superseded_by_plan_revision'' \<or>
     (bt_status t = Board_REPAIR_REQUIRED \<and> dict_truthy (bt_metadata t) ''superseded_by_repair'')"

definition all_succeeded :: "string \<Rightarrow> task_board \<Rightarrow> bool" where
  "all_succeeded rid b \<longleftrightarrow> list_all task_settled (list_by_run rid b)"

definition summary :: "string \<Rightarrow> task_board \<Rightarrow> (string \<times> nat) list" where
  "summary rid b =
     (let tasks = list_by_run rid b
      in map (\<lambda>s. (board_status_value s, length (filter (\<lambda>t. bt_status t = s) tasks))) all_board_statuses
         @ [(''total'', length tasks)])"

end
