(* ===== verification/Task_Board_Inv.thy ===== *)
theory Task_Board_Inv
  imports Task_Board
begin

text \<open>
  The abstract task machine and the simulation. A task is seen as its status and its owner (\<open>view\<close>);
  \<open>view_step\<close> says what each board operation may do to it. Every operation of \<open>Task_Board\<close> that does
  not raise either reports \<open>False\<close> and changes nothing, or moves exactly the addressed task by one such
  step; it keeps the dictionaries well formed and the durable table in agreement with them.
\<close>

section \<open>The abstract task machine\<close>

datatype board_op =
    Op_claim string
  | Op_start string
  | Op_release string string
  | Op_complete string "string list"
  | Op_produced string "string list"
  | Op_verifying
  | Op_verified
  | Op_repair_required
  | Op_blocked string string
  | Op_supersede string
  | Op_fail string string bool seconds string
  | Op_retry string bool
  | Op_cancel string
  | Op_replan string string

type_synonym view = "board_status \<times> string option"

definition view :: "board_task \<Rightarrow> view" where
  "view t = (bt_status t, bt_claimed_by t)"

inductive view_step :: "board_op \<Rightarrow> view \<Rightarrow> view \<Rightarrow> bool" where
  v_claim: "view_step (Op_claim a) (Board_PENDING, ow) (Board_CLAIMED, Some a)"
| v_start: "view_step (Op_start a) (Board_CLAIMED, Some a) (Board_RUNNING, Some a)"
| v_release: "st \<in> {Board_CLAIMED, Board_RUNNING, Board_BLOCKED} \<Longrightarrow>
    view_step (Op_release a reason) (st, Some a) (Board_PENDING, None)"
| v_complete: "view_step (Op_complete a arts) (st, Some a) (Board_SUCCEEDED, Some a)"
| v_produced: "view_step (Op_produced a arts) (Board_RUNNING, Some a) (Board_PRODUCED, Some a)"
| v_verifying: "view_step Op_verifying (Board_PRODUCED, ow) (Board_VERIFYING, ow)"
| v_verified: "st \<in> {Board_PRODUCED, Board_VERIFYING} \<Longrightarrow>
    view_step Op_verified (st, ow) (Board_SUCCEEDED, ow)"
| v_repair: "st \<in> {Board_PRODUCED, Board_VERIFYING} \<Longrightarrow>
    view_step Op_repair_required (st, ow) (Board_REPAIR_REQUIRED, ow)"
| v_blocked: "view_step (Op_blocked a reason) (Board_RUNNING, Some a) (Board_BLOCKED, Some a)"
| v_supersede: "view_step (Op_supersede r) (Board_REPAIR_REQUIRED, ow) (Board_REPAIR_REQUIRED, ow)"
| v_requeue: "view_step (Op_fail a e rt d c) (st, Some a) (Board_PENDING, None)"
| v_failed: "view_step (Op_fail a e rt d c) (st, Some a) (Board_FAILED, Some a)"
| v_retry: "st \<in> {Board_FAILED, Board_REPAIR_REQUIRED, Board_REPLAN_REQUIRED, Board_BLOCKED} \<Longrightarrow>
    view_step (Op_retry reason reset) (st, ow) (Board_PENDING, None)"
| v_cancel: "st \<notin> {Board_SUCCEEDED, Board_FAILED, Board_CANCELLED} \<Longrightarrow>
    view_step (Op_cancel reason) (st, ow) (Board_CANCELLED, ow)"
| v_replan: "st \<noteq> Board_CANCELLED \<Longrightarrow> view_step (Op_replan reason by) (st, ow) (Board_REPLAN_REQUIRED, ow)"

inductive_cases view_step_to_succeeded: "view_step op v (Board_SUCCEEDED, ow)"
inductive_cases view_step_from_cancelled: "view_step op (Board_CANCELLED, ow) v"
inductive_cases view_step_claim: "view_step (Op_claim a) v v'"
inductive_simps view_step_fail_iff: "view_step (Op_fail a e r d c) (st, ow) v'"

text \<open>Running an operation on the task of a composite key.\<close>

fun exec :: "bool \<Rightarrow> time \<Rightarrow> time \<Rightarrow> task_key \<Rightarrow> board_op \<Rightarrow> task_board \<Rightarrow> bool board_result" where
  "exec wr t1 t2 (r, i) (Op_claim a) b = map_prod id (map_sum id cr_success) (claim wr t1 t2 i a (Some r) b)"
| "exec wr t1 t2 (r, i) (Op_start a) b = start wr t1 i a (Some r) b"
| "exec wr t1 t2 (r, i) (Op_release a reason) b = release wr t1 i a reason (Some r) b"
| "exec wr t1 t2 (r, i) (Op_complete a arts) b = complete wr t1 t2 i a arts (Some r) b"
| "exec wr t1 t2 (r, i) (Op_produced a arts) b = mark_produced wr t1 i a arts (Some r) b"
| "exec wr t1 t2 (r, i) Op_verifying b = mark_verifying wr t1 i (Some r) b"
| "exec wr t1 t2 (r, i) Op_verified b = mark_verified wr t1 t2 i (Some r) b"
| "exec wr t1 t2 (r, i) Op_repair_required b = mark_repair_required wr t1 i (Some r) b"
| "exec wr t1 t2 (r, i) (Op_blocked a reason) b = mark_blocked wr t1 i a reason (Some r) b"
| "exec wr t1 t2 (r, i) (Op_supersede rep) b = supersede_with_repair wr t1 i rep r b"
| "exec wr t1 t2 (r, i) (Op_fail a e rt d c) b = fail wr t1 t2 i a e (Some r) rt d c b"
| "exec wr t1 t2 (r, i) (Op_retry reason reset) b = retry wr t1 t2 i r reason reset b"
| "exec wr t1 t2 (r, i) (Op_cancel reason) b = cancel wr t1 t2 i reason (Some r) b"
| "exec wr t1 t2 (r, i) (Op_replan reason by) b = request_replan wr t1 i reason by (Some r) b"

section \<open>Well-formed boards\<close>

definition table_ok :: "task_table \<Rightarrow> bool" where
  "table_ok ts \<longleftrightarrow> distinct (map fst ts) \<and> (\<forall>(k, t) \<in> set ts. task_key_of t = k)"

definition wf_board :: "task_board \<Rightarrow> bool" where
  "wf_board b \<longleftrightarrow> table_ok (board_tasks b) \<and> table_ok (board_rows b) \<and>
     distinct (map fst (board_by_run b)) \<and>
     (\<forall>r. distinct (run_keys b r) \<and> set (run_keys b r) = {k \<in> fst ` set (board_tasks b). fst k = r})"

text \<open>Every in-process task is the durable row of its key.\<close>

definition synced :: "task_board \<Rightarrow> bool" where
  "synced b \<longleftrightarrow> (board_persist b \<longrightarrow>
     (\<forall>k t. map_of (board_tasks b) k = Some t \<longrightarrow> map_of (board_rows b) k = Some t))"

text \<open>What no operation on a stored task changes.\<close>

definition same_task :: "board_task \<Rightarrow> board_task \<Rightarrow> bool" where
  "same_task t t' \<longleftrightarrow> task_key_of t' = task_key_of t \<and> bt_title t' = bt_title t \<and>
     bt_objective t' = bt_objective t \<and> bt_dependencies t' = bt_dependencies t \<and>
     bt_required_capabilities t' = bt_required_capabilities t \<and> bt_priority t' = bt_priority t \<and>
     bt_created_at t' = bt_created_at t"

lemma table_ok_update: "table_ok ts \<Longrightarrow> task_key_of t = k \<Longrightarrow> table_ok (AList.update k t ts)"
proof -
  have "set (AList.update k t ts) \<subseteq> insert (k, t) (set ts)" by (induction ts) auto
  then show "table_ok ts \<Longrightarrow> task_key_of t = k \<Longrightarrow> table_ok (AList.update k t ts)"
    by (fastforce simp: table_ok_def intro: distinct_update)
qed

lemma table_ok_key: "table_ok ts \<Longrightarrow> map_of ts k = Some t \<Longrightarrow> task_key_of t = k"
  by (auto simp: table_ok_def dest!: map_of_SomeD)

lemma run_keys_put [simp]: "run_keys (put_task k t b) r = run_keys b r"
  by (simp add: run_keys_def put_task_def)

lemma run_keys_upsert [simp]: "run_keys (upsert_task_board_task t b) r = run_keys b r"
  by (simp add: run_keys_def upsert_task_board_task_def)

lemma put_task_fields [simp]:
  "board_tasks (put_task k t b) = AList.update k t (board_tasks b)"
  "board_rows (put_task k t b) = board_rows b"
  "board_by_run (put_task k t b) = board_by_run b"
  "board_persist (put_task k t b) = board_persist b"
  by (simp_all add: put_task_def)

lemma upsert_fields [simp]:
  "board_tasks (upsert_task_board_task t b) = board_tasks b"
  "board_rows (upsert_task_board_task t b) = AList.update (task_key_of t) t (board_rows b)"
  "board_by_run (upsert_task_board_task t b) = board_by_run b"
  "board_persist (upsert_task_board_task t b) = board_persist b"
  by (simp_all add: upsert_task_board_task_def)

lemma wf_board_put:
  assumes "wf_board b" "map_of (board_tasks b) k = Some t" "task_key_of t' = k"
  shows "wf_board (put_task k t' b)"
proof -
  have "k \<in> fst ` set (board_tasks b)" using map_of_in_keys [OF assms(2)] by simp
  then have "fst ` set (AList.update k t' (board_tasks b)) = fst ` set (board_tasks b)"
    using set_keys_update [of k t' "board_tasks b"] by auto
  with assms show ?thesis by (simp add: wf_board_def table_ok_update)
qed

lemma wf_board_upsert: "wf_board b \<Longrightarrow> wf_board (upsert_task_board_task t b)"
  by (simp add: wf_board_def table_ok_update)

lemma raw_get_run: "raw_get i (Some r) b = map_option (\<lambda>t. ((r, i), t)) (map_of (board_tasks b) (r, i))"
  by (simp add: raw_get_def)

lemma raw_get_SomeD:
  "wf_board b \<Longrightarrow> raw_get i rid b = Some (k, t) \<Longrightarrow> map_of (board_tasks b) k = Some t \<and> snd k = i"
proof (cases rid)
  case None
  assume wf: "wf_board b" and g: "raw_get i rid b = Some (k, t)"
  from g None have "filter (\<lambda>((_, j), _). j = i) (board_tasks b) = [(k, t)]"
    by (auto simp: raw_get_def split: list.splits)
  then have "(k, t) \<in> set (filter (\<lambda>((_, j), _). j = i) (board_tasks b))" by simp
  then have "(k, t) \<in> set (board_tasks b) \<and> snd k = i" by auto
  with wf show ?thesis by (simp add: wf_board_def table_ok_def)
qed (auto simp: raw_get_run)

section \<open>The simulation\<close>

definition simulates :: "task_key \<Rightarrow> board_op \<Rightarrow> task_board \<Rightarrow> bool board_result \<Rightarrow> bool" where
  "simulates k op b res \<longleftrightarrow>
     (case res of
        (b', Inl e) \<Rightarrow> wf_board b' \<and> board_rows b' = board_rows b
      | (b', Inr False) \<Rightarrow> b' = b
      | (b', Inr True) \<Rightarrow> wf_board b' \<and> synced b' \<and>
          (\<exists>t t'. map_of (board_tasks b) k = Some t \<and> map_of (board_tasks b') = (map_of (board_tasks b))(k \<mapsto> t') \<and>
             same_task t t' \<and> view_step op (view t) (view t')))"

lemma simulates_same [simp]: "simulates k op b (b, Inr False)"
  by (simp add: simulates_def)

lemma simulates_put_raise:
  "wf_board b \<Longrightarrow> map_of (board_tasks b) k = Some t \<Longrightarrow> task_key_of t' = k \<Longrightarrow>
     simulates k op b (put_task k t' b, Inl e)"
  by (simp add: simulates_def wf_board_put)

lemma synced_store:
  "synced b \<Longrightarrow> task_key_of t' = k \<Longrightarrow> synced (upsert_task_board_task t' (put_task k t' b))"
  by (simp add: synced_def)

lemma simulates_commit:
  assumes "wf_board b" "synced b" "map_of (board_tasks b) k = Some t" "same_task t t'"
    "view_step op (view t) (view t')"
  shows "simulates k op b (commit wr k t' True b)"
proof -
  have "task_key_of t = k"
    using assms(1,3) table_ok_key [of "board_tasks b" k t] by (simp add: wf_board_def)
  then have key: "task_key_of t' = k" using assms(4) by (simp add: same_task_def)
  have put: "wf_board (put_task k t' b)" using assms(1,3) key by (rule wf_board_put)
  show ?thesis
    using assms put key synced_store [OF assms(2) key]
    by (auto simp: commit_def persist_def simulates_def wf_board_upsert synced_def)
qed

lemma same_task_refl [simp]: "same_task t t"
  by (simp add: same_task_def)

text \<open>One lemma per operation.\<close>

named_theorems op_sims \<open>each operation simulates its abstract step\<close>

lemmas sim_intros = simulates_commit simulates_put_raise

lemma start_sim [op_sims]:
  "wf_board b \<Longrightarrow> synced b \<Longrightarrow> simulates (r, i) (Op_start a) b (start wr t i a (Some r) b)"
  by (auto simp: start_def raw_get_run same_task_def task_key_of_def view_def
      intro!: simulates_commit view_step.intros split: option.splits)

lemma release_sim [op_sims]:
  "wf_board b \<Longrightarrow> synced b \<Longrightarrow> simulates (r, i) (Op_release a reason) b (release wr t i a reason (Some r) b)"
  by (auto simp: release_def raw_get_run same_task_def task_key_of_def view_def
      intro!: simulates_commit view_step.intros split: option.splits)

lemma complete_sim [op_sims]:
  "wf_board b \<Longrightarrow> synced b \<Longrightarrow> simulates (r, i) (Op_complete a arts) b (complete wr t1 t2 i a arts (Some r) b)"
  by (auto simp: complete_def raw_get_run same_task_def task_key_of_def view_def
      intro!: simulates_commit view_step.intros split: option.splits)

lemma mark_produced_sim [op_sims]:
  "wf_board b \<Longrightarrow> synced b \<Longrightarrow> simulates (r, i) (Op_produced a arts) b (mark_produced wr t i a arts (Some r) b)"
  by (auto simp: mark_produced_def raw_get_run same_task_def task_key_of_def view_def
      intro!: simulates_commit view_step.intros split: option.splits)

lemma mark_verifying_sim [op_sims]:
  "wf_board b \<Longrightarrow> synced b \<Longrightarrow> simulates (r, i) Op_verifying b (mark_verifying wr t i (Some r) b)"
  by (auto simp: mark_verifying_def raw_get_run same_task_def task_key_of_def view_def
      intro!: simulates_commit view_step.intros split: option.splits)

lemma mark_verified_sim [op_sims]:
  "wf_board b \<Longrightarrow> synced b \<Longrightarrow> simulates (r, i) Op_verified b (mark_verified wr t1 t2 i (Some r) b)"
  by (auto simp: mark_verified_def raw_get_run same_task_def task_key_of_def view_def
      intro!: simulates_commit view_step.intros split: option.splits)

lemma mark_repair_required_sim [op_sims]:
  "wf_board b \<Longrightarrow> synced b \<Longrightarrow> simulates (r, i) Op_repair_required b (mark_repair_required wr t i (Some r) b)"
  by (auto simp: mark_repair_required_def raw_get_run same_task_def task_key_of_def view_def
      intro!: simulates_commit view_step.intros split: option.splits)

lemma mark_blocked_sim [op_sims]:
  "wf_board b \<Longrightarrow> synced b \<Longrightarrow> simulates (r, i) (Op_blocked a reason) b (mark_blocked wr t i a reason (Some r) b)"
  by (auto simp: mark_blocked_def raw_get_run same_task_def task_key_of_def view_def
      intro!: simulates_commit view_step.intros split: option.splits)

lemma supersede_sim [op_sims]:
  "wf_board b \<Longrightarrow> synced b \<Longrightarrow> simulates (r, i) (Op_supersede rep) b (supersede_with_repair wr t i rep r b)"
  by (auto simp: supersede_with_repair_def raw_get_run same_task_def task_key_of_def view_def
      intro!: simulates_commit view_step.intros split: option.splits)

lemma cancel_sim [op_sims]:
  "wf_board b \<Longrightarrow> synced b \<Longrightarrow> simulates (r, i) (Op_cancel reason) b (cancel wr t1 t2 i reason (Some r) b)"
  by (auto simp: cancel_def raw_get_run same_task_def task_key_of_def view_def
      intro!: simulates_commit view_step.intros split: option.splits)

lemma simulates_raise_same: "wf_board b \<Longrightarrow> simulates k op b (b, Inl e)"
  by (simp add: simulates_def)

lemma request_replan_sim [op_sims]:
  "wf_board b \<Longrightarrow> synced b \<Longrightarrow> simulates (r, i) (Op_replan reason by) b (request_replan wr t i reason by (Some r) b)"
  by (auto simp: request_replan_def raw_get_run same_task_def task_key_of_def view_def
      intro!: simulates_commit simulates_raise_same view_step.intros split: option.splits)

lemma retry_sim [op_sims]:
  "wf_board b \<Longrightarrow> synced b \<Longrightarrow> simulates (r, i) (Op_retry reason reset) b (retry wr t1 t2 i r reason reset b)"
  by (auto simp: retry_def raw_get_run same_task_def task_key_of_def view_def Let_def
      intro!: simulates_commit simulates_raise_same view_step.intros split: option.splits)

text \<open>\<open>fail\<close> requeues, fails for good, or raises with the mutated task in memory only.\<close>

lemma fail_commit:
  assumes "wf_board b" "synced b" "map_of (board_tasks b) k = Some t" "bt_claimed_by t = Some a"
    "same_task t t'" "view t' = (Board_PENDING, None) \<or> view t' = (Board_FAILED, Some a)"
  shows "simulates k (Op_fail a e rt d c) b (commit wr k t' True b)"
proof (rule simulates_commit [OF assms(1,2,3,5)])
  show "view_step (Op_fail a e rt d c) (view t) (view t')"
    using assms(4,6) by (auto simp: view_def intro: view_step.intros)
qed

lemma fail_sim [op_sims]:
  assumes "wf_board b" "synced b"
  shows "simulates (r, i) (Op_fail a e rt d c) b (fail wr t1 t2 i a e (Some r) rt d c b)"
proof (cases "map_of (board_tasks b) (r, i)")
  case None
  then show ?thesis by (simp add: fail_def raw_get_run)
next
  case (Some t)
  have key: "bt_run_id t = r" "bt_task_id t = i"
    using assms(1) Some table_ok_key [of "board_tasks b" "(r, i)" t] by (auto simp: wf_board_def task_key_of_def)
  note commit = fail_commit [OF assms Some] and raise = simulates_put_raise [OF assms(1) Some]
  show ?thesis
    by (auto simp: fail_def raw_get_run Some Let_def requeued_def view_def same_task_def task_key_of_def key
        intro!: commit raise split: option.split bool.split)
qed

text \<open>The two code paths of \<open>claim\<close> agree on a board that is in agreement with its table.\<close>

lemma unmet_dependency_None:
  "unmet_dependency table r ds = None \<longleftrightarrow>
     (\<forall>d \<in> set ds. \<exists>t. map_of table (r, d) = Some t \<and> bt_status t = Board_SUCCEEDED)"
  by (induction ds) (auto split: option.splits)

lemma claim_cases:
  assumes "wf_board b" "synced b" "claim wr t1 t2 i a (Some r) b = (b', res)"
  shows "(case map_of (board_tasks b) (r, i) of
      None \<Rightarrow> b' = b \<and> res = Inr (claim_failed None Task_not_found)
    | Some t \<Rightarrow>
        let table = (if board_persist b then board_rows b else board_tasks b) in
        if bt_status t \<noteq> Board_PENDING
        then b' = b \<and> res = Inr (claim_failed (Some t) (Task_not_pending (bt_status t)))
        else case unmet_dependency table r (bt_dependencies t) of
               Some d \<Rightarrow> b' = b \<and> res = Inr (claim_failed (Some t) (Dependency_not_succeeded d))
             | None \<Rightarrow>
                 if board_persist b \<and> \<not> wr then b' = b \<and> res = Inl PersistFailed
                 else (b', Inr True) = commit True (r, i) (claimed t1 t2 a t) True b \<and>
                   res = Inr \<lparr>cr_success = True, cr_task = Some (claimed t1 t2 a t), cr_reason = No_reason\<rparr>)"
proof (cases "map_of (board_tasks b) (r, i)")
  case None
  with assms(3) show ?thesis by (auto simp: claim_def raw_get_run)
next
  case (Some t)
  have key: "bt_run_id t = r" "bt_task_id t = i"
    using assms(1) Some table_ok_key [of "board_tasks b" "(r, i)" t] by (auto simp: wf_board_def task_key_of_def)
  have row: "board_persist b \<Longrightarrow> map_of (board_rows b) (r, i) = Some t"
    using assms(2) Some by (simp add: synced_def)
  have ck: "task_key_of (claimed t1 t2 a t) = (r, i)" by (simp add: task_key_of_def claimed_def key)
  show ?thesis
  proof (cases "board_persist b")
    case True
    with assms(3) Some row key ck show ?thesis
      by (auto simp: claim_def raw_get_run Let_def commit_def persist_def put_task_def
          upsert_task_board_task_def split: if_splits option.splits)
  next
    case False
    with assms(3) Some key ck show ?thesis
      by (auto simp: claim_def raw_get_run Let_def commit_def persist_def split: if_splits option.splits)
  qed
qed

lemma claim_sim [op_sims]:
  assumes "wf_board b" "synced b"
  shows "simulates (r, i) (Op_claim a) b (map_prod id (map_sum id cr_success) (claim wr t1 t2 i a (Some r) b))"
proof -
  obtain b' res where c: "claim wr t1 t2 i a (Some r) b = (b', res)" by force
  show ?thesis
  proof (cases "map_of (board_tasks b) (r, i)")
    case None
    with claim_cases [OF assms c] c show ?thesis by (simp add: claim_failed_def)
  next
    case (Some t)
    have "simulates (r, i) (Op_claim a) b (commit True (r, i) (claimed t1 t2 a t) True b)"
      if "bt_status t = Board_PENDING"
    proof (rule simulates_commit [OF assms Some])
      show "same_task t (claimed t1 t2 a t)" by (simp add: same_task_def claimed_def task_key_of_def)
      show "view_step (Op_claim a) (view t) (view (claimed t1 t2 a t))"
        using that by (simp add: view_def claimed_def view_step.v_claim)
    qed
    with claim_cases [OF assms c] c Some simulates_raise_same [OF assms(1)] show ?thesis
      by (auto simp: claim_failed_def Let_def split: option.splits if_splits)
  qed
qed

lemma exec_sim: "wf_board b \<Longrightarrow> synced b \<Longrightarrow> simulates k op b (exec wr t1 t2 k op b)"
  by (cases k; cases op) (simp_all add: op_sims)

end
