(* ===== verification/Task_Board_Runs.thy ===== *)
theory Task_Board_Runs
  imports Task_Board_Inv
begin

text \<open>
  Operations of \<open>Task_Board\<close> over a whole run or over several processes: the loops of \<open>cancel_run\<close> and
  \<open>prepare_for_resume\<close> as instances of one locale, the loading loop of \<open>restore_run\<close>, races of claims
  between processes that share the durable table, and repeated claim-start-fail rounds of one task.
\<close>

section \<open>Storing one task\<close>

definition stored :: "task_key \<Rightarrow> board_task \<Rightarrow> task_board \<Rightarrow> task_board" where
  "stored k t b = (if board_persist b then upsert_task_board_task t (put_task k t b) else put_task k t b)"

lemma commit_True [simp]: "commit True k t x b = (stored k t b, Inr x)"
  by (simp add: commit_def persist_def stored_def)

lemma stored_fields [simp]:
  "map_of (board_tasks (stored k t b)) = (map_of (board_tasks b))(k \<mapsto> t)"
  "board_tasks (stored k t b) = AList.update k t (board_tasks b)"
  "run_keys (stored k t b) r = run_keys b r"
  "board_by_run (stored k t b) = board_by_run b"
  "board_persist (stored k t b) = board_persist b"
  by (simp_all add: stored_def)

lemma stored_ok:
  assumes "wf_board b" "synced b" "map_of (board_tasks b) k = Some t" "task_key_of t' = k"
  shows "wf_board (stored k t' b)" "synced (stored k t' b)"
  using wf_board_put [OF assms(1,3,4)] synced_store [OF assms(2,4)]
  by (simp_all add: stored_def wf_board_upsert synced_def)

lemma wf_board_task:
  "wf_board b \<Longrightarrow> map_of (board_tasks b) (r, i) = Some t \<Longrightarrow> bt_run_id t = r \<and> bt_task_id t = i"
  using table_ok_key [of "board_tasks b" "(r, i)" t] by (auto simp: wf_board_def task_key_of_def)

lemma run_keys_present:
  "wf_board b \<Longrightarrow> k \<in> set (run_keys b r) \<longleftrightarrow> fst k = r \<and> (\<exists>t. map_of (board_tasks b) k = Some t)"
  using map_of_in_keys [of "board_tasks b" k] in_keys_map_of [of k "board_tasks b"]
  by (auto simp: wf_board_def)

lemma map_filter_total:
  "(\<And>k. k \<in> set ks \<Longrightarrow> \<exists>v. g k = Some v) \<Longrightarrow> List.map_filter g ks = map (\<lambda>k. the (g k)) ks"
  by (induction ks) (force simp: List.map_filter_def)+

lemma raw_list_by_run_eq:
  assumes "wf_board b"
  shows "raw_list_by_run r b = map (\<lambda>k. the (map_of (board_tasks b) k)) (run_keys b r)"
  unfolding raw_list_by_run_def
  by (rule map_filter_total) (simp add: run_keys_present [OF assms])

lemma in_raw_list_by_run:
  assumes "wf_board b"
  shows "t \<in> set (raw_list_by_run r b) \<longleftrightarrow> map_of (board_tasks b) (r, bt_task_id t) = Some t"
proof
  assume "t \<in> set (raw_list_by_run r b)"
  then obtain i where "map_of (board_tasks b) (r, i) = Some t"
    using run_keys_present [OF assms] by (auto simp: raw_list_by_run_eq [OF assms])
  with wf_board_task [OF assms] show "map_of (board_tasks b) (r, bt_task_id t) = Some t" by auto
next
  assume m: "map_of (board_tasks b) (r, bt_task_id t) = Some t"
  then have "(r, bt_task_id t) \<in> set (run_keys b r)" using run_keys_present [OF assms] by auto
  with m show "t \<in> set (raw_list_by_run r b)"
    by (auto simp: raw_list_by_run_eq [OF assms] intro!: image_eqI [of _ _ "(r, bt_task_id t)"])
qed

lemma run_keys_task:
  assumes "wf_board b" "k \<in> set (run_keys b r)"
  obtains t where "map_of (board_tasks b) k = Some t" "bt_run_id t = r" "bt_task_id t = snd k" "k = (r, snd k)"
proof -
  from assms run_keys_present obtain t where t: "fst k = r" "map_of (board_tasks b) k = Some t" by blast
  then have k: "k = (r, snd k)" by (cases k) simp
  with t wf_board_task [OF assms(1), of r "snd k" t] that show thesis by simp
qed

lemma raw_list_ids:
  assumes "wf_board b"
  shows "map bt_task_id (raw_list_by_run r b) = map snd (run_keys b r)"
proof -
  have "bt_task_id (the (map_of (board_tasks b) k)) = snd k" if "k \<in> set (run_keys b r)" for k
    using run_keys_task [OF assms that] by (metis option.sel)
  then show ?thesis by (simp add: raw_list_by_run_eq [OF assms])
qed

lemma run_keys_pairs: "wf_board b \<Longrightarrow> map (\<lambda>i. (r, i)) (map snd (run_keys b r)) = run_keys b r"
  using run_keys_present [of b _ r] by (auto intro!: map_idI)

section \<open>One step per task of a run\<close>

text \<open>Apply \<open>f\<close> to the task of each key in turn; \<open>None\<close> leaves the task alone.\<close>

fun each :: "(nat \<Rightarrow> board_task \<Rightarrow> board_task option) \<Rightarrow> nat \<Rightarrow> task_key list \<Rightarrow> nat \<Rightarrow> task_board
    \<Rightarrow> task_board \<times> nat" where
  "each f i [] n b = (b, n)"
| "each f i (k # ks) n b =
     (case map_of (board_tasks b) k of
        None \<Rightarrow> each f (Suc i) ks n b
      | Some t \<Rightarrow>
          (case f i t of
             None \<Rightarrow> each f (Suc i) ks n b
           | Some t' \<Rightarrow> each f (Suc i) ks (n + 1) (stored k t' b)))"

locale task_sweep =
  fixes f :: "nat \<Rightarrow> board_task \<Rightarrow> board_task option"
    and p :: "board_status \<Rightarrow> bool"
  assumes applies: "f i t \<noteq> None \<longleftrightarrow> p (bt_status t)"
    and keeps_key: "f i t = Some t' \<Longrightarrow> same_task t t'"
    and settles: "f i t = Some t' \<Longrightarrow> \<not> p (bt_status t')"
begin

definition swept :: "board_task \<Rightarrow> board_task \<Rightarrow> bool" where
  "swept t t' \<longleftrightarrow> (if p (bt_status t) then \<exists>i. f i t = Some t' else t' = t)"

lemma sweep:
  assumes "wf_board b" "synced b" "distinct ks" "each f i ks n b = (b', m)"
  shows "wf_board b' \<and> synced b' \<and> board_persist b' = board_persist b \<and>
    (\<forall>r. run_keys b' r = run_keys b r) \<and>
    (\<forall>k. k \<notin> set ks \<longrightarrow> map_of (board_tasks b') k = map_of (board_tasks b) k) \<and>
    (\<forall>k \<in> set ks. rel_option swept (map_of (board_tasks b) k) (map_of (board_tasks b') k)) \<and>
    m = n + length (filter (\<lambda>k. \<exists>t. map_of (board_tasks b) k = Some t \<and> p (bt_status t)) ks)"
  using assms
proof (induction ks arbitrary: i n b)
  case Nil
  then show ?case by simp
next
  case (Cons k ks)
  note IH = Cons.IH [OF _ _ _ ] and wf = Cons.prems(1,2)
  have d: "k \<notin> set ks" "distinct ks" using Cons.prems(3) by simp_all
  show ?case
  proof (cases "\<exists>t t'. map_of (board_tasks b) k = Some t \<and> f i t = Some t'")
    case False
    then have e: "each f (Suc i) ks n b = (b', m)"
      using Cons.prems(4) by (auto split: option.splits)
    have keep: "\<not> (\<exists>t. map_of (board_tasks b) k = Some t \<and> p (bt_status t))"
    proof
      assume "\<exists>t. map_of (board_tasks b) k = Some t \<and> p (bt_status t)"
      then obtain t where t: "map_of (board_tasks b) k = Some t" "p (bt_status t)" by blast
      with applies [of i t] False show False by auto
    qed
    then have "rel_option swept (map_of (board_tasks b) k) (map_of (board_tasks b) k)"
      by (cases "map_of (board_tasks b) k") (auto simp: swept_def)
    moreover have "map_of (board_tasks b') k = map_of (board_tasks b) k"
      using IH [OF wf d(2) e] d(1) by blast
    ultimately have "rel_option swept (map_of (board_tasks b) k) (map_of (board_tasks b') k)" by simp
    with IH [OF wf d(2) e] d(1) keep show ?thesis by simp
  next
    case True
    then obtain t t' where t: "map_of (board_tasks b) k = Some t" "f i t = Some t'" by blast
    have key: "task_key_of t' = k"
      using keeps_key [OF t(2)] wf(1) t(1) table_ok_key [of "board_tasks b" k t]
      by (simp add: wf_board_def same_task_def)
    have e: "each f (Suc i) ks (n + 1) (stored k t' b) = (b', m)"
      using Cons.prems(4) t by simp
    have pt: "p (bt_status t)" using applies t(2) by blast
    note ih = IH [OF stored_ok [OF wf t(1) key] d(2) e]
    have other: "map_of (board_tasks (stored k t' b)) k' = map_of (board_tasks b) k'" if "k' \<in> set ks" for k'
      using that d(1) by auto
    have cnt: "filter (\<lambda>j. \<exists>u. map_of (board_tasks (stored k t' b)) j = Some u \<and> p (bt_status u)) ks
        = filter (\<lambda>j. \<exists>u. map_of (board_tasks b) j = Some u \<and> p (bt_status u)) ks"
      using d(1) by (intro filter_cong) auto
    have rel: "\<forall>k' \<in> set ks. rel_option swept (map_of (board_tasks b) k') (map_of (board_tasks b') k')"
      using ih other by (simp del: split_paired_All)
    have at_k: "map_of (board_tasks b') k = Some t'" using ih d(1) by (simp del: split_paired_All)
    have out: "map_of (board_tasks b') k' = map_of (board_tasks b) k'" if "k' \<notin> set (k # ks)" for k'
      using ih that by (simp del: split_paired_All)
    have sw: "swept t t'" using pt t(2) by (auto simp: swept_def)
    show ?thesis
      using ih rel at_k out t pt cnt sw by (simp del: split_paired_All)
  qed
qed

end

section \<open>\<open>cancel_run\<close> and \<open>prepare_for_resume\<close>\<close>

definition final_status :: "board_status \<Rightarrow> bool" where
  "final_status st \<longleftrightarrow> st \<in> {Board_SUCCEEDED, Board_FAILED, Board_CANCELLED}"

definition cancel_step :: "(nat \<Rightarrow> time) \<Rightarrow> string \<Rightarrow> nat \<Rightarrow> board_task \<Rightarrow> board_task option" where
  "cancel_step clk reason i t =
     (if final_status (bt_status t) then None
      else Some (t\<lparr>bt_status := Board_CANCELLED, bt_last_error := Some reason,
        bt_completed_at := Some (clk (2 * i)), bt_updated_at := clk (2 * i + 1)\<rparr>))"

definition resume_step :: "(nat \<Rightarrow> time) \<Rightarrow> nat \<Rightarrow> board_task \<Rightarrow> board_task option" where
  "resume_step clk i t = (if interrupted (bt_status t) then Some (resumed (clk i) t) else None)"

interpretation cancelling: task_sweep "cancel_step clk reason" "\<lambda>st. \<not> final_status st" for clk reason
  by unfold_locales
    (auto simp: cancel_step_def final_status_def same_task_def task_key_of_def split: if_splits)

interpretation resuming: task_sweep "resume_step clk" interrupted for clk
  by unfold_locales
    (auto simp: resume_step_def resumed_def interrupted_def same_task_def task_key_of_def split: if_splits)

lemma cancel_each_eq:
  "(\<And>i. wr i) \<Longrightarrow> cancel_each wr clk i reason r ids n b =
     (let (b', m) = each (cancel_step clk reason) i (map (\<lambda>i. (r, i)) ids) n b in (b', Inr m))"
  by (induction ids arbitrary: i n b)
    (auto simp: cancel_def raw_get_run cancel_step_def final_status_def split: option.split)

lemma resume_each_eq:
  "(\<And>i. wr i) \<Longrightarrow> resume_each wr clk i ks n b =
     (let (b', m) = each (resume_step clk) i ks n b in (b', Inr m))"
  by (induction ks arbitrary: i n b) (auto simp: resume_step_def split: option.split)

lemma cancel_run_eq:
  "wf_board b \<Longrightarrow> (\<And>i. wr i) \<Longrightarrow> cancel_run wr clk r reason b =
     (let (b', m) = each (cancel_step clk reason) 0 (run_keys b r) 0 b in (b', Inr m))"
  by (simp add: cancel_run_def cancel_each_eq raw_list_ids run_keys_pairs del: map_map)

lemma prepare_for_resume_eq:
  "(\<And>i. wr i) \<Longrightarrow> prepare_for_resume wr clk r b =
     (let (b', m) = each (resume_step clk) 0 (run_keys b r) 0 b in (b', Inr m))"
  by (simp add: prepare_for_resume_def resume_each_eq)

section \<open>Loading a run\<close>

definition loaded :: "board_task \<Rightarrow> task_board \<Rightarrow> task_board" where
  "loaded t b = (put_task (task_key_of t) t b)\<lparr>board_by_run :=
     AList.update (bt_run_id t) (run_keys b (bt_run_id t) @ [task_key_of t]) (board_by_run b)\<rparr>"

lemma loaded_fields [simp]:
  "board_tasks (loaded t b) = AList.update (task_key_of t) t (board_tasks b)"
  "board_rows (loaded t b) = board_rows b"
  "board_persist (loaded t b) = board_persist b"
  by (simp_all add: loaded_def)

lemma run_keys_loaded:
  "run_keys (loaded t b) r = (if r = bt_run_id t then run_keys b r @ [task_key_of t] else run_keys b r)"
  by (simp add: loaded_def run_keys_def)

lemma wf_board_loaded:
  assumes "wf_board b" "task_key_of t \<notin> fst ` set (board_tasks b)"
  shows "wf_board (loaded t b)"
proof -
  have keys: "fst ` set (AList.update (task_key_of t) t (board_tasks b))
      = insert (task_key_of t) (fst ` set (board_tasks b))"
    using set_keys_update [of "task_key_of t" t "board_tasks b"] by simp
  have runs: "distinct (run_keys (loaded t b) r) \<and>
      set (run_keys (loaded t b) r) = {k \<in> insert (task_key_of t) (fst ` set (board_tasks b)). fst k = r}" for r
    using assms by (auto simp: run_keys_loaded wf_board_def task_key_of_def)
  have by_run: "distinct (map fst (board_by_run (loaded t b)))"
    using assms(1) by (simp add: loaded_def wf_board_def distinct_update)
  show ?thesis
    using assms(1) runs by_run by (simp add: wf_board_def table_ok_update keys del: set_map)
qed

lemma restore_tasks_eq:
  assumes "wf_board b" "\<forall>t \<in> set ts. bt_run_id t = r" "distinct (map task_key_of ts)"
    "restore_tasks ts n b = (b', m)"
  shows "wf_board b' \<and> board_persist b' = board_persist b \<and> board_rows b' = board_rows b \<and>
    (\<forall>k. map_of (board_tasks b') k = (case map_of (board_tasks b) k of Some t \<Rightarrow> Some t
       | None \<Rightarrow> map_of (map (\<lambda>t. (task_key_of t, t)) ts) k)) \<and>
    (\<forall>r'. r' \<noteq> r \<longrightarrow> run_keys b' r' = run_keys b r') \<and>
    m = n + length (filter (\<lambda>t. map_of (board_tasks b) (task_key_of t) = None) ts)"
  using assms
proof (induction ts n b rule: restore_tasks.induct)
  case (1 n b)
  then show ?case by (auto split: option.splits)
next
  case (2 t ts n b)
  show ?case
  proof (cases "task_key_of t \<in> set (map fst (board_tasks b))")
    case True
    then obtain u where u: "map_of (board_tasks b) (task_key_of t) = Some u"
      using in_keys_map_of [of "task_key_of t" "board_tasks b"] by auto
    have e: "restore_tasks ts n b = (b', m)" using 2(6) True by simp
    have prem: "\<forall>t \<in> set ts. bt_run_id t = r" "distinct (map task_key_of ts)" using 2(4,5) by simp_all
    note ih = 2(1) [OF True 2(3) prem e]
    have sel: "(case map_of (board_tasks b) k of Some t \<Rightarrow> Some t
        | None \<Rightarrow> map_of (map (\<lambda>t. (task_key_of t, t)) ts) k)
      = (case map_of (board_tasks b) k of Some t \<Rightarrow> Some t
        | None \<Rightarrow> map_of (map (\<lambda>t. (task_key_of t, t)) (t # ts)) k)" for k
      using u by (auto split: option.splits)
    show ?thesis using ih u unfolding sel by simp
  next
    case False
    then have new: "task_key_of t \<notin> fst ` set (board_tasks b)" by simp
    then have none: "map_of (board_tasks b) (task_key_of t) = None"
      by (simp add: map_of_eq_None_iff)
    have e: "restore_tasks ts (n + 1) (loaded t b) = (b', m)" using 2(6) False by (simp add: loaded_def)
    have prem: "\<forall>t \<in> set ts. bt_run_id t = r" "distinct (map task_key_of ts)"
      "task_key_of t \<notin> set (map task_key_of ts)" "bt_run_id t = r"
      using 2(4,5) by simp_all
    note ih = 2(2) [OF False, folded loaded_def, OF wf_board_loaded [OF 2(3) new] prem(1,2) e]
    have ne: "task_key_of u \<noteq> task_key_of t" if "u \<in> set ts" for u
    proof
      assume "task_key_of u = task_key_of t"
      with imageI [OF that, of task_key_of] prem(3) show False by simp
    qed
    have cnt: "filter (\<lambda>u. map_of (board_tasks (loaded t b)) (task_key_of u) = None) ts
        = filter (\<lambda>u. map_of (board_tasks b) (task_key_of u) = None) ts"
      by (intro filter_cong) (simp_all add: ne)
    have notin: "map_of (map (\<lambda>t. (task_key_of t, t)) ts) (task_key_of t) = None"
      using prem(3) by (auto simp: map_of_eq_None_iff)
    have sel: "(case map_of (board_tasks (loaded t b)) k of Some t \<Rightarrow> Some t
        | None \<Rightarrow> map_of (map (\<lambda>t. (task_key_of t, t)) ts) k)
      = (case map_of (board_tasks b) k of Some t \<Rightarrow> Some t
        | None \<Rightarrow> map_of (map (\<lambda>t. (task_key_of t, t)) (t # ts)) k)" for k
      using none by (auto split: option.splits)
    show ?thesis using ih none prem(4) unfolding sel cnt by (simp add: run_keys_loaded)
  qed
qed

text \<open>The rows of a run.\<close>

lemma listed_rows:
  assumes "table_ok (board_rows b)"
  shows "\<forall>t \<in> set (list_task_board_tasks r b). bt_run_id t = r"
    "distinct (map task_key_of (list_task_board_tasks r b))"
    "map_of (map (\<lambda>t. (task_key_of t, t)) (list_task_board_tasks r b)) k
       = (if fst k = r then map_of (board_rows b) k else None)"
proof -
  let ?rs = "filter (\<lambda>((x, _), _). x = r) (board_rows b)"
  have keyed: "map (\<lambda>t. (task_key_of t, t)) (list_task_board_tasks r b) = ?rs"
    using assms by (auto simp: list_task_board_tasks_def table_ok_def intro!: map_idI)
  then have "map fst (map (\<lambda>t. (task_key_of t, t)) (list_task_board_tasks r b)) = map fst ?rs" by simp
  then have keys: "map task_key_of (list_task_board_tasks r b) = map fst ?rs" by (simp add: comp_def)
  show "\<forall>t \<in> set (list_task_board_tasks r b). bt_run_id t = r"
    using assms by (auto simp: list_task_board_tasks_def table_ok_def task_key_of_def)
  show "distinct (map task_key_of (list_task_board_tasks r b))"
    unfolding keys using assms by (simp add: table_ok_def distinct_map_filter)
  have "map_of (filter (\<lambda>((x, _), _). x = r) ts) k = (if fst k = r then map_of ts k else None)" for ts :: task_table
    by (induction ts) auto
  then show "map_of (map (\<lambda>t. (task_key_of t, t)) (list_task_board_tasks r b)) k
       = (if fst k = r then map_of (board_rows b) k else None)" by (simp add: keyed)
qed

text \<open>\<open>pop_keys\<close> deletes exactly the given keys.\<close>

lemma pop_keys_eq:
  "distinct ks \<Longrightarrow> pop_keys ks ts n =
     (filter (\<lambda>(k, _). k \<notin> set ks) ts, n + length (filter (\<lambda>k. map_of ts k \<noteq> None) ks))"
proof (induction ks arbitrary: ts n)
  case Nil
  then show ?case by simp
next
  case (Cons k ks)
  show ?case
  proof (cases "map_of ts k")
    case None
    then have "k \<notin> fst ` set ts" by (simp add: map_of_eq_None_iff)
    then have "filter (\<lambda>(x, _). x \<notin> set ks) ts = filter (\<lambda>(x, _). x \<notin> set (k # ks)) ts"
      by (intro filter_cong) (auto simp: image_iff)
    with None Cons show ?thesis by simp
  next
    case (Some t)
    have "filter (\<lambda>(x, _). x \<notin> set ks) (AList.delete k ts) = filter (\<lambda>(x, _). x \<notin> set (k # ks)) ts"
      by (auto simp: AList.delete_eq intro!: filter_cong)
    moreover have "filter (\<lambda>x. map_of (AList.delete k ts) x \<noteq> None) ks = filter (\<lambda>x. map_of ts x \<noteq> None) ks"
      using Cons.prems by (intro filter_cong) (auto simp: AList.delete_conv')
    ultimately show ?thesis using Some Cons by simp
  qed
qed

text \<open>A sweep seen per run.\<close>

lemma run_filter_length:
  assumes "wf_board b"
  shows "length (filter (\<lambda>k. \<exists>t. map_of (board_tasks b) k = Some t \<and> p (bt_status t)) (run_keys b r)) =
    length (filter (\<lambda>t. p (bt_status t)) (raw_list_by_run r b))"
proof -
  have "filter (\<lambda>k. \<exists>t. map_of (board_tasks b) k = Some t \<and> p (bt_status t)) (run_keys b r)
      = filter (\<lambda>k. p (bt_status (the (map_of (board_tasks b) k)))) (run_keys b r)"
  proof (rule filter_cong [OF refl])
    fix k assume "k \<in> set (run_keys b r)"
    then show "(\<exists>t. map_of (board_tasks b) k = Some t \<and> p (bt_status t)) =
        p (bt_status (the (map_of (board_tasks b) k)))"
      using run_keys_task [OF assms] by (metis option.sel)
  qed
  then show ?thesis by (simp add: raw_list_by_run_eq [OF assms] filter_map comp_def)
qed

context task_sweep
begin

lemma sweep_run:
  assumes "wf_board b" "synced b" "each f 0 (run_keys b r) 0 b = (b', m)"
  shows "wf_board b' \<and> synced b' \<and>
    m = length (filter (\<lambda>t. p (bt_status t)) (raw_list_by_run r b)) \<and>
    (\<forall>r' i. r' \<noteq> r \<longrightarrow> map_of (board_tasks b') (r', i) = map_of (board_tasks b) (r', i)) \<and>
    (\<forall>i t. map_of (board_tasks b) (r, i) = Some t \<longrightarrow>
      (\<exists>t'. map_of (board_tasks b') (r, i) = Some t' \<and> \<not> p (bt_status t') \<and> same_task t t' \<and> swept t t'))"
proof -
  have d: "distinct (run_keys b r)" using assms(1) by (simp add: wf_board_def)
  note s = sweep [OF assms(1,2) d assms(3)]
  have "\<exists>t'. map_of (board_tasks b') (r, i) = Some t' \<and> \<not> p (bt_status t') \<and> same_task t t' \<and> swept t t'"
    if t: "map_of (board_tasks b) (r, i) = Some t" for i t
  proof -
    have "(r, i) \<in> set (run_keys b r)" using run_keys_present [OF assms(1)] t by auto
    with s have "rel_option swept (map_of (board_tasks b) (r, i)) (map_of (board_tasks b') (r, i))" by blast
    with t obtain t' where t': "map_of (board_tasks b') (r, i) = Some t'" "swept t t'"
      by (cases "map_of (board_tasks b') (r, i)") auto
    then have "\<not> p (bt_status t') \<and> same_task t t'"
      using settles keeps_key by (auto simp: swept_def split: if_splits)
    with t' show ?thesis by blast
  qed
  moreover have "(r', i) \<notin> set (run_keys b r)" if "r' \<noteq> r" for r' i
    using run_keys_present [OF assms(1)] that by auto
  ultimately show ?thesis using s run_filter_length [OF assms(1), of p r] by simp
qed

end

text \<open>Purging and restoring.\<close>

lemma restore_run_eq:
  assumes "wf_board b" "board_persist b" "restore_run r b = (b', m)"
  shows "wf_board b' \<and> board_persist b' = board_persist b \<and> board_rows b' = board_rows b \<and>
    (\<forall>k. map_of (board_tasks b') k = (case map_of (board_tasks b) k of Some t \<Rightarrow> Some t
       | None \<Rightarrow> if fst k = r then map_of (board_rows b) k else None)) \<and>
    m = length (filter (\<lambda>t. map_of (board_tasks b) (task_key_of t) = None) (list_task_board_tasks r b))"
proof -
  have rows: "table_ok (board_rows b)" using assms(1) by (simp add: wf_board_def)
  have "restore_tasks (list_task_board_tasks r b) 0 b = (b', m)"
    using assms(2,3) by (simp add: restore_run_def)
  from restore_tasks_eq [OF assms(1) listed_rows(1,2) [OF rows] this]
  show ?thesis unfolding listed_rows(3) [OF rows] by simp
qed

lemma purge_run_eq:
  assumes "wf_board b" "purge_run r b = (b', n)"
  shows "wf_board b' \<and> board_persist b' = board_persist b \<and> board_rows b' = board_rows b \<and>
    (\<forall>k. map_of (board_tasks b') k = (if fst k = r then None else map_of (board_tasks b) k)) \<and>
    n = length (run_keys b r)"
proof -
  have d: "distinct (run_keys b r)" using assms(1) by (simp add: wf_board_def)
  have all: "filter (\<lambda>k. map_of (board_tasks b) k \<noteq> None) (run_keys b r) = run_keys b r"
    using run_keys_present [OF assms(1)] by (auto simp: filter_id_conv)
  have in_run: "k \<in> set (run_keys b r) \<longleftrightarrow> fst k = r" if "k \<in> fst ` set (board_tasks b)" for k
    using that assms(1) by (auto simp: wf_board_def)
  have keep: "filter (\<lambda>(k, _). k \<notin> set (run_keys b r)) (board_tasks b)
      = filter (\<lambda>(k, _). fst k \<noteq> r) (board_tasks b)"
    using in_run by (intro filter_cong) force+
  have b': "b' = b\<lparr>board_tasks := filter (\<lambda>(k, _). fst k \<noteq> r) (board_tasks b),
      board_by_run := AList.delete r (board_by_run b)\<rparr>" "n = length (run_keys b r)"
    using assms(2) pop_keys_eq [OF d, of "board_tasks b" 0] all keep by (auto simp: purge_run_def)
  have keys: "run_keys b' r' = (if r' = r then [] else run_keys b r')" for r'
    by (simp add: b' run_keys_def AList.delete_conv')
  have look: "map_of (filter (\<lambda>(k, _). fst k \<noteq> r) ts) k = (if fst k = r then None else map_of ts k)"
    for ts :: task_table and k by (induction ts) auto
  have dom: "fst ` set (filter (\<lambda>(k, _). fst k \<noteq> r) (board_tasks b))
      = {k \<in> fst ` set (board_tasks b). fst k \<noteq> r}" by force
  have tasks: "board_tasks b' = filter (\<lambda>(k, _). fst k \<noteq> r) (board_tasks b)" by (simp add: b')
  have ok: "table_ok (board_tasks b')" "distinct (map fst (board_by_run b'))"
    using assms(1) by (auto simp: b' wf_board_def table_ok_def distinct_map_filter distinct_delete)
  have "set (run_keys b' r') = {k \<in> fst ` set (board_tasks b'). fst k = r'} \<and> distinct (run_keys b' r')" for r'
    unfolding tasks dom keys using assms(1) by (auto simp: wf_board_def)
  moreover have "board_rows b' = board_rows b" "board_persist b' = board_persist b" by (simp_all add: b')
  ultimately have "wf_board b'" using assms(1) ok by (simp add: wf_board_def)
  then show ?thesis using look by (simp add: b')
qed

lemma listed_rows_length:
  assumes "wf_board b" "\<forall>i. map_of (board_rows b) (r, i) = map_of (board_tasks b) (r, i)"
  shows "length (list_task_board_tasks r b) = length (run_keys b r)"
proof -
  have rows: "table_ok (board_rows b)" using assms(1) by (simp add: wf_board_def)
  let ?ks = "map task_key_of (list_task_board_tasks r b)"
  have "k \<in> set ?ks \<longleftrightarrow> k \<in> set (run_keys b r)" for k
  proof -
    have "k \<in> set ?ks \<longleftrightarrow> map_of (map (\<lambda>t. (task_key_of t, t)) (list_task_board_tasks r b)) k \<noteq> None"
      by (simp add: map_of_eq_None_iff image_comp)
    also have "\<dots> \<longleftrightarrow> fst k = r \<and> map_of (board_rows b) k \<noteq> None"
      by (simp add: listed_rows(3) [OF rows])
    also have "\<dots> \<longleftrightarrow> k \<in> set (run_keys b r)"
      using assms(2) run_keys_present [OF assms(1)] by (cases k) auto
    finally show ?thesis .
  qed
  then have "set ?ks = set (run_keys b r)" by blast
  moreover have "distinct ?ks" "distinct (run_keys b r)"
    using listed_rows(2) [OF rows] assms(1) by (simp_all add: wf_board_def)
  ultimately show ?thesis by (metis distinct_card length_map)
qed

end
