(* ===== verification/Task_Board_Races.thy ===== *)
theory Task_Board_Races
  imports Task_Board_Runs
begin

text \<open>
  Claims of one task by several processes, each with its own in-process dictionaries over the one durable
  table (\<open>BEGIN IMMEDIATE\<close> makes each claim one step), and repeated claim, start and failure of one task
  by one process.
\<close>

section \<open>Several processes claim one task\<close>

text \<open>
  The agents whose claims succeeded, and the table afterwards. Process \<open>p\<close> has the dictionaries of
  \<open>ps p\<close>; they may be stale.
\<close>

fun claim_race :: "string \<Rightarrow> string \<Rightarrow> (nat \<times> string \<times> time \<times> time \<times> bool) list \<Rightarrow> (nat \<Rightarrow> task_board)
    \<Rightarrow> task_table \<Rightarrow> string list \<times> task_table" where
  "claim_race r i [] ps rows = ([], rows)"
| "claim_race r i ((p, a, t1, t2, wr) # es) ps rows =
     (let (b', res) = claim wr t1 t2 i a (Some r) ((ps p)\<lparr>board_rows := rows\<rparr>);
          (ws, rows') = claim_race r i es (ps(p := b')) (board_rows b')
      in (case res of Inr c \<Rightarrow> if cr_success c then a # ws else ws | Inl _ \<Rightarrow> ws, rows'))"

lemma claim_durable:
  assumes "board_persist b" "table_ok (board_tasks b)" "table_ok (board_rows b)"
    "claim wr t1 t2 i a (Some r) b = (b', res)"
  shows "(b' = b \<and> (case res of Inl _ \<Rightarrow> True | Inr c \<Rightarrow> \<not> cr_success c)) \<or>
    (\<exists>t. map_of (board_rows b) (r, i) = Some t \<and> bt_status t = Board_PENDING \<and>
       (\<forall>d \<in> set (bt_dependencies t). \<exists>u. map_of (board_rows b) (r, d) = Some u \<and> bt_status u = Board_SUCCEEDED) \<and>
       b' = put_task (r, i) (claimed t1 t2 a t) (upsert_task_board_task (claimed t1 t2 a t) b) \<and>
       task_key_of (claimed t1 t2 a t) = (r, i) \<and>
       (\<exists>c. res = Inr c \<and> cr_success c))"
proof (cases "map_of (board_tasks b) (r, i)")
  case None
  with assms(4) show ?thesis by (auto simp: claim_def raw_get_run claim_failed_def)
next
  case (Some mem)
  have mem: "bt_run_id mem = r" using table_ok_key [OF assms(2) Some] by (simp add: task_key_of_def)
  show ?thesis
  proof (cases "map_of (board_rows b) (r, i)")
    case None
    with assms(1,4) Some mem show ?thesis by (auto simp: claim_def raw_get_run claim_failed_def)
  next
    case row: (Some t)
    have key: "bt_run_id t = r" "bt_task_id t = i"
      using table_ok_key [OF assms(3) row] by (auto simp: task_key_of_def)
    have "task_key_of (claimed t1 t2 a t) = (r, i)" by (simp add: claimed_def task_key_of_def key)
    with assms(1,4) Some mem row key show ?thesis
      by (auto simp: claim_def raw_get_run claim_failed_def Let_def unmet_dependency_None
          split: if_splits option.splits)
  qed
qed

definition procs_ok :: "(nat \<Rightarrow> task_board) \<Rightarrow> bool" where
  "procs_ok ps \<longleftrightarrow> (\<forall>p. board_persist (ps p) \<and> table_ok (board_tasks (ps p)))"

lemma procs_ok_update:
  "procs_ok ps \<Longrightarrow> board_persist b \<Longrightarrow> table_ok (board_tasks b) \<Longrightarrow> procs_ok (ps(p := b))"
  by (simp add: procs_ok_def)

lemma procs_okD: "procs_ok ps \<Longrightarrow> board_persist (ps p) \<and> table_ok (board_tasks (ps p))"
  by (simp add: procs_ok_def)

lemma race_lost:
  "procs_ok ps \<Longrightarrow> table_ok rows \<Longrightarrow> \<forall>t. map_of rows (r, i) = Some t \<longrightarrow> bt_status t \<noteq> Board_PENDING \<Longrightarrow>
    claim_race r i es ps rows = ([], rows)"
proof (induction r i es ps rows rule: claim_race.induct)
  case (2 r i p a t1 t2 wr es ps rows)
  note ok = procs_okD [OF 2(2), of p]
  obtain b' res where c: "claim wr t1 t2 i a (Some r) ((ps p)\<lparr>board_rows := rows\<rparr>) = (b', res)" by force
  have b': "b' = (ps p)\<lparr>board_rows := rows\<rparr>" "case res of Inl _ \<Rightarrow> True | Inr c \<Rightarrow> \<not> cr_success c"
    using claim_durable [OF _ _ _ c] ok 2(3,4) by auto
  have procs: "procs_ok (ps(p := b'))" using ok b'(1) by (intro procs_ok_update 2(2)) simp_all
  have "claim_race r i es (ps(p := b')) (board_rows b') = ([], board_rows b')"
    by (rule 2(1) [OF c [symmetric] refl procs]) (use 2(3,4) b'(1) in simp_all)
  then have "claim_race r i es (ps(p := b')) (board_rows b') = ([], rows)" using b'(1) by simp
  with c b'(2) show ?case by (auto split: sum.splits)
qed simp

lemma race_outcome:
  assumes "procs_ok ps" "table_ok rows" "claim_race r i es ps rows = (ws, rows')"
  shows "(ws = [] \<and> rows' = rows) \<or>
    (\<exists>a t t1 t2. ws = [a] \<and> map_of rows (r, i) = Some t \<and> bt_status t = Board_PENDING \<and>
       map_of rows' = (map_of rows)((r, i) \<mapsto> claimed t1 t2 a t))"
  using assms
proof (induction r i es ps rows arbitrary: ws rows' rule: claim_race.induct)
  case (2 r i p a t1 t2 wr es ps rows)
  let ?b = "(ps p)\<lparr>board_rows := rows\<rparr>"
  note ok = procs_okD [OF 2(2), of p]
  obtain b' res where c: "claim wr t1 t2 i a (Some r) ?b = (b', res)" by force
  obtain ws1 rows1 where rest: "claim_race r i es (ps(p := b')) (board_rows b') = (ws1, rows1)" by force
  have out: "rows' = rows1" "ws = (case res of Inr c \<Rightarrow> if cr_success c then a # ws1 else ws1 | Inl _ \<Rightarrow> ws1)"
    using 2(4) c rest by auto
  note ih = 2(1) [OF c [symmetric] refl _ _ rest]
  from claim_durable [OF _ _ _ c] ok 2(3)
  consider (lost) "b' = ?b" "(case res of Inl _ \<Rightarrow> True | Inr c \<Rightarrow> \<not> cr_success c)"
    | (won) t cr where "map_of rows (r, i) = Some t" "bt_status t = Board_PENDING" "res = Inr cr" "cr_success cr"
      "b' = put_task (r, i) (claimed t1 t2 a t) (upsert_task_board_task (claimed t1 t2 a t) ?b)"
      "task_key_of (claimed t1 t2 a t) = (r, i)"
    by auto
  then show ?case
  proof cases
    case lost
    with out have ws: "ws = ws1" by (auto split: sum.splits)
    have procs: "procs_ok (ps(p := b'))" using ok lost(1) by (intro procs_ok_update 2(2)) simp_all
    have rows: "board_rows b' = rows" using lost(1) by simp
    then have "table_ok (board_rows b')" using 2(3) by simp
    from ih [OF procs this] show ?thesis unfolding rows ws out(1) .
  next
    case won
    have "procs_ok (ps(p := b'))" using ok won(5,6) by (intro procs_ok_update 2(2)) (simp_all add: table_ok_update)
    moreover have "table_ok (board_rows b')" using won(5,6) 2(3) by (simp add: table_ok_update)
    ultimately have "claim_race r i es (ps(p := b')) (board_rows b') = ([], board_rows b')"
      by (rule race_lost) (use won(5,6) in \<open>simp add: claimed_def\<close>)
    with rest have r1: "ws1 = []" "rows1 = board_rows b'" by simp_all
    have "map_of rows' = (map_of rows)((r, i) \<mapsto> claimed t1 t2 a t)"
      using out(1) r1(2) won(5,6) by simp
    with won(1-4) out(2) r1(1) show ?thesis by auto
  qed
qed simp

section \<open>Failing a task again and again\<close>

text \<open>The metadata \<open>fail\<close> writes: a list of errors and a count of rate-limit graces.\<close>

definition grace_count :: "board_task \<Rightarrow> int" where
  "grace_count t = (case grace_used (bt_metadata t) of PyInt n \<Rightarrow> n | _ \<Rightarrow> 0)"

definition failure_metadata_ok :: "board_task \<Rightarrow> bool" where
  "failure_metadata_ok t \<longleftrightarrow>
     (case map_of (bt_metadata t) ''error_history'' of None \<Rightarrow> True | Some (PyList _) \<Rightarrow> True | _ \<Rightarrow> False) \<and>
     (\<exists>n. grace_used (bt_metadata t) = PyInt n \<and> 0 \<le> n)"

text \<open>How many more failures can send the task back to PENDING.\<close>

definition failures_left :: "board_task \<Rightarrow> nat" where
  "failures_left t = nat (bt_max_attempts t - bt_attempts t) + nat (5 - grace_count t)"

lemma append_error_history:
  "failure_metadata_ok t \<Longrightarrow> \<exists>xs. append_entry (Some 20) ''error_history'' v (bt_metadata t) =
     Some (AList.update ''error_history'' (PyList xs) (bt_metadata t))"
  by (auto simp: failure_metadata_ok_def append_entry_def Let_def split: option.splits pyval.splits)

lemma grace_used_update [simp]:
  "grace_used (AList.update ''error_history'' v md) = grace_used md"
  "grace_used (AList.update ''rate_limit_grace_used'' v md) = v"
  by (simp_all add: grace_used_def)

lemma fail_outcome:
  assumes wf: "wf_board b" "synced b" and t: "map_of (board_tasks b) (r, i) = Some t"
    and own: "bt_claimed_by t = Some a" and md: "failure_metadata_ok t" and bound: "bt_attempts t \<le> 1023"
  obtains t' where "fail True t1 t2 i a e (Some r) rt d c b = (stored (r, i) t' b, Inr True)"
    "same_task t t'" "bt_attempts t' = bt_attempts t + 1" "bt_max_attempts t' = bt_max_attempts t"
    "failure_metadata_ok t'"
    "bt_status t' = Board_FAILED \<or> (bt_status t' = Board_PENDING \<and> failures_left t' < failures_left t)"
proof -
  let ?t = "t\<lparr>bt_attempts := bt_attempts t + 1, bt_last_error := Some e, bt_updated_at := t1\<rparr>"
  obtain xs where xs: "append_entry (Some 20) ''error_history'' (failure_entry ?t c e) (bt_metadata t) =
      Some (AList.update ''error_history'' (PyList xs) (bt_metadata t))"
    using append_error_history [OF md] by blast
  obtain n where n: "grace_used (bt_metadata t) = PyInt n" "0 \<le> n"
    using md by (auto simp: failure_metadata_ok_def)
  let ?md = "AList.update ''error_history'' (PyList xs) (bt_metadata t)"
  let ?u = "?t\<lparr>bt_metadata := ?md\<rparr>"
  have ex: "\<not> 1023 < grace_exponent ?u" using bound by (simp add: grace_exponent_def)
  consider (retry) "rt" "bt_attempts t + 1 < bt_max_attempts t"
    | (grace) "\<not> (rt \<and> bt_attempts t + 1 < bt_max_attempts t)" "c = ''rate_limited''" "n < 5"
    | (failed) "\<not> (rt \<and> bt_attempts t + 1 < bt_max_attempts t)" "\<not> (c = ''rate_limited'' \<and> n < 5)"
    by blast
  then show thesis
  proof cases
    case retry
    show thesis
      by (rule that [of "requeued (t1 + micros (max 0 d)) ?u"])
        (use retry t own xs n in \<open>simp_all add: fail_def raw_get_run requeued_def same_task_def task_key_of_def
          failure_metadata_ok_def failures_left_def grace_count_def\<close>)
  next
    case grace
    let ?v = "?u\<lparr>bt_metadata := AList.update ''rate_limit_grace_used'' (PyInt (n + 1)) ?md,
      bt_status := Board_PENDING, bt_claimed_by := None, bt_claimed_at := None,
      bt_next_attempt_at := Some (t1 + micros (grace_delay ?u))\<rparr>"
    have g: "grace_left c ?md = Some True"
      using grace n by (simp add: grace_left_def RATE_LIMIT_GRACE_def)
    have res: "fail True t1 t2 i a e (Some r) rt d c b = (stored (r, i) ?v b, Inr True)"
      using t own xs n ex g grace(1) by (auto simp: fail_def raw_get_run Let_def)
    show thesis
      by (rule that [OF res])
        (use grace n in \<open>simp_all add: same_task_def task_key_of_def
          failure_metadata_ok_def failures_left_def grace_count_def\<close>)
  next
    case failed
    have g: "grace_left c ?md = Some False"
      using failed n by (auto simp: grace_left_def RATE_LIMIT_GRACE_def)
    have res: "fail True t1 t2 i a e (Some r) rt d c b = (stored (r, i) (?u\<lparr>bt_status := Board_FAILED,
        bt_completed_at := Some t2, bt_next_attempt_at := None\<rparr>) b, Inr True)"
      using t own xs n g failed(1) by (auto simp: fail_def raw_get_run Let_def)
    show thesis
      by (rule that [OF res])
        (use n in \<open>simp_all add: same_task_def task_key_of_def failure_metadata_ok_def\<close>)
  qed
qed

text \<open>One worker claims the task, starts it and reports a failure; every write succeeds.\<close>

type_synonym failure = "string \<times> string \<times> bool \<times> seconds \<times> string"  \<comment> \<open>agent, error, retryable, delay, category\<close>

fun fail_round :: "(nat \<Rightarrow> time) \<Rightarrow> task_key \<Rightarrow> failure \<Rightarrow> task_board \<Rightarrow> task_board" where
  "fail_round clk (r, i) (a, e, rt, d, c) b =
     (let b1 = fst (claim True (clk 0) (clk 1) i a (Some r) b);
          b2 = fst (start True (clk 2) i a (Some r) b1)
      in fst (fail True (clk 3) (clk 4) i a e (Some r) rt d c b2))"

fun fail_rounds :: "(nat \<Rightarrow> time) \<Rightarrow> task_key \<Rightarrow> failure list \<Rightarrow> task_board \<Rightarrow> task_board" where
  "fail_rounds clk k [] b = b"
| "fail_rounds clk k (f # fs) b = fail_rounds clk k fs (fail_round clk k f b)"

text \<open>A board on which the task of key \<open>k\<close> can be claimed.\<close>

definition ready_task :: "task_key \<Rightarrow> task_board \<Rightarrow> board_task \<Rightarrow> bool" where
  "ready_task k b t \<longleftrightarrow> wf_board b \<and> synced b \<and> map_of (board_tasks b) k = Some t \<and>
     bt_status t = Board_PENDING \<and>
     (\<forall>d \<in> set (bt_dependencies t).
        \<exists>u. map_of (board_tasks b) (fst k, d) = Some u \<and> bt_status u = Board_SUCCEEDED)"

lemma claim_ready:
  assumes "ready_task (r, i) b t"
  shows "claim True t1 t2 i a (Some r) b = (stored (r, i) (claimed t1 t2 a t) b,
    Inr \<lparr>cr_success = True, cr_task = Some (claimed t1 t2 a t), cr_reason = No_reason\<rparr>)"
proof -
  have wf: "wf_board b" "synced b" and t: "map_of (board_tasks b) (r, i) = Some t" "bt_status t = Board_PENDING"
    using assms by (simp_all add: ready_task_def)
  obtain b' res where c: "claim True t1 t2 i a (Some r) b = (b', res)" by force
  have "unmet_dependency (if board_persist b then board_rows b else board_tasks b) r (bt_dependencies t) = None"
    using assms wf(2) by (fastforce simp: unmet_dependency_None ready_task_def synced_def)
  with claim_cases [OF wf c] t show ?thesis by (simp add: c Let_def)
qed

lemma fail_round_ready:
  assumes ready: "ready_task (r, i) b t" and md: "failure_metadata_ok t" and bound: "bt_attempts t \<le> 1023"
  obtains t' where "map_of (board_tasks (fail_round clk (r, i) f b)) (r, i) = Some t'"
    "bt_attempts t' = bt_attempts t + 1" "failure_metadata_ok t'"
    "bt_status t' = Board_FAILED \<or>
      (ready_task (r, i) (fail_round clk (r, i) f b) t' \<and> failures_left t' < failures_left t)"
proof -
  obtain a e rt d c where f: "f = (a, e, rt, d, c)" by (cases f)
  have wf: "wf_board b" "synced b" and t: "map_of (board_tasks b) (r, i) = Some t" "bt_status t = Board_PENDING"
    using ready by (simp_all add: ready_task_def)
  have key: "task_key_of t = (r, i)" using wf(1) table_ok_key [OF _ t(1)] by (simp add: wf_board_def)
  let ?c = "claimed (clk 0) (clk 1) a t"
  let ?b1 = "stored (r, i) ?c b"
  let ?s = "?c\<lparr>bt_status := Board_RUNNING, bt_updated_at := clk 2\<rparr>"
  let ?b2 = "stored (r, i) ?s ?b1"
  have c: "task_key_of ?c = (r, i)" "task_key_of ?s = (r, i)"
    using key by (simp_all add: claimed_def task_key_of_def)
  note b1 = stored_ok [OF wf t(1) c(1)]
  have m1: "map_of (board_tasks ?b1) (r, i) = Some ?c" by simp
  note b2 = stored_ok [OF b1 m1 c(2)]
  have m2: "map_of (board_tasks ?b2) (r, i) = Some ?s" by simp
  have st: "start True (clk 2) i a (Some r) ?b1 = (?b2, Inr True)"
    by (simp add: start_def raw_get_run) (simp add: claimed_def)
  have own: "bt_claimed_by ?s = Some a" "failure_metadata_ok ?s" "bt_attempts ?s \<le> 1023"
    using md bound by (simp_all add: claimed_def failure_metadata_ok_def)
  obtain t' where fl: "fail True (clk 3) (clk 4) i a e (Some r) rt d c ?b2 = (stored (r, i) t' ?b2, Inr True)"
    and t': "same_task ?s t'" "bt_attempts t' = bt_attempts ?s + 1" "bt_max_attempts t' = bt_max_attempts ?s"
      "failure_metadata_ok t'"
      "bt_status t' = Board_FAILED \<or> (bt_status t' = Board_PENDING \<and> failures_left t' < failures_left ?s)"
    by (rule fail_outcome [OF b2 m2 own])
  have out: "fail_round clk (r, i) f b = stored (r, i) t' ?b2"
    by (simp only: f fail_round.simps claim_ready [OF ready] st fl Let_def fst_conv)
  have key': "task_key_of t' = (r, i)" using t'(1) c(2) by (simp add: same_task_def)
  have left: "failures_left ?s = failures_left t" by (simp add: failures_left_def claimed_def grace_count_def)
  have deps: "bt_dependencies t' = bt_dependencies t" using t'(1) by (simp add: same_task_def claimed_def)
  have "d \<noteq> i" if "d \<in> set (bt_dependencies t)" for d using ready t that by (auto simp: ready_task_def)
  then have "ready_task (r, i) (stored (r, i) t' ?b2) t'" if "bt_status t' = Board_PENDING"
    using that stored_ok [OF b2 m2 key'] ready deps by (auto simp: ready_task_def)
  then show thesis
    by (intro that [of t'])
      (use t' left in \<open>auto simp: out claimed_def simp del: stored_fields(2)\<close>)
qed

lemma fail_rounds_end:
  assumes "ready_task (r, i) b t" "failure_metadata_ok t" "bt_attempts t + int (failures_left t) \<le> 1023"
    "failures_left t < length fs"
  shows "\<exists>n u. n \<le> failures_left t + 1 \<and> map_of (board_tasks (fail_rounds clk (r, i) (take n fs) b)) (r, i) = Some u \<and>
    bt_status u = Board_FAILED \<and> bt_attempts u = bt_attempts t + int n"
  using assms
proof (induction fs arbitrary: b t)
  case Nil
  then show ?case by simp
next
  case (Cons f fs)
  have "bt_attempts t \<le> 1023" using Cons.prems(3) by linarith
  from fail_round_ready [OF Cons.prems(1,2) this] obtain t' where
    t': "map_of (board_tasks (fail_round clk (r, i) f b)) (r, i) = Some t'"
      "bt_attempts t' = bt_attempts t + 1" "failure_metadata_ok t'"
      "bt_status t' = Board_FAILED \<or>
        (ready_task (r, i) (fail_round clk (r, i) f b) t' \<and> failures_left t' < failures_left t)"
    by metis
  from t'(4) show ?case
  proof
    assume "bt_status t' = Board_FAILED"
    with t'(1,2) show ?thesis by (intro exI [of _ 1] exI [of _ t']) simp
  next
    assume r: "ready_task (r, i) (fail_round clk (r, i) f b) t' \<and> failures_left t' < failures_left t"
    then have "bt_attempts t' + int (failures_left t') \<le> 1023" "failures_left t' < length fs"
      using Cons.prems(3,4) t'(2) by simp_all
    from Cons.IH [OF conjunct1 [OF r] t'(3) this] obtain n u where
      "n \<le> failures_left t' + 1" "map_of (board_tasks (fail_rounds clk (r, i) (take n fs) (fail_round clk (r, i) f b))) (r, i) = Some u"
      "bt_status u = Board_FAILED" "bt_attempts u = bt_attempts t' + int n" by blast
    with r t'(2) show ?thesis by (intro exI [of _ "Suc n"] exI [of _ u]) simp
  qed
qed

end
