(* ===== verification/Task_Board_Props.thy ===== *)
theory Task_Board_Props
  imports Task_Board_Races
begin

text \<open>
  The properties of the task board. The witnesses use \<open>demo_board\<close>: a persistent board of one run with a
  succeeded task \<open>a\<close>, a pending task \<open>b\<close> that depends on it and a pending task \<open>c\<close> that depends on \<open>b\<close>.
\<close>

definition demo_task :: "string \<Rightarrow> string list \<Rightarrow> board_status \<Rightarrow> string option \<Rightarrow> board_task" where
  "demo_task i ds st ow = (new_board_task 0 0 i ''r'' i i)\<lparr>bt_dependencies := ds, bt_status := st,
     bt_claimed_by := ow\<rparr>"

definition demo_rows :: "board_status \<Rightarrow> string option \<Rightarrow> task_table" where
  "demo_rows st ow = [((''r'', ''a''), demo_task ''a'' [] Board_SUCCEEDED (Some ''w'')),
     ((''r'', ''b''), demo_task ''b'' [''a''] st ow),
     ((''r'', ''c''), demo_task ''c'' [''b''] Board_PENDING None)]"

definition demo_board :: "board_status \<Rightarrow> string option \<Rightarrow> task_board" where
  "demo_board st ow = \<lparr>board_tasks = demo_rows st ow,
     board_by_run = [(''r'', [(''r'', ''a''), (''r'', ''b''), (''r'', ''c'')])],
     board_persist = True, board_rows = demo_rows st ow\<rparr>"

lemma demo_rows_ok: "table_ok (demo_rows st ow)"
  by (simp add: table_ok_def demo_rows_def demo_task_def new_board_task_def task_key_of_def)

lemma demo_board_ok: "wf_board (demo_board st ow)" "synced (demo_board st ow)"
proof -
  show "wf_board (demo_board st ow)"
    using demo_rows_ok by (auto simp: wf_board_def demo_board_def run_keys_def demo_rows_def)
  show "synced (demo_board st ow)" by (simp add: synced_def demo_board_def)
qed

lemma demo_board_b:
  "map_of (board_tasks (demo_board st ow)) (''r'', ''b'') = Some (demo_task ''b'' [''a''] st ow)"
  by (simp add: demo_board_def demo_rows_def)

text \<open>C4: Every board operation (claim to request_replan), addressed by run and task id, does one of
  three things: it raises and leaves the durable rows alone, it returns \<open>False\<close> and changes nothing, or it
  returns \<open>True\<close> and moves exactly the addressed task by one step of the abstract task machine,
  keeping the key, dependencies and priority of the task, and the table in agreement with memory.\<close>

theorem board_refines_task_machine:
  assumes "wf_board b" "synced b" "exec wr t1 t2 k op b = (b', res)"
  shows "(\<exists>e. res = Inl e \<and> wf_board b' \<and> board_rows b' = board_rows b) \<or>
    (res = Inr False \<and> b' = b) \<or>
    (res = Inr True \<and> wf_board b' \<and> synced b' \<and>
      (\<exists>t t'. map_of (board_tasks b) k = Some t \<and>
         map_of (board_tasks b') = (map_of (board_tasks b))(k \<mapsto> t') \<and>
         same_task t t' \<and> view_step op (view t) (view t')))"
  using exec_sim [OF assms(1,2), of k op wr t1 t2] assms(3)
  by (auto simp: simulates_def split: sum.splits bool.splits)

theorem board_refines_task_machine_witness:
  "\<exists>b'. exec True 1 2 (''r'', ''b'') (Op_claim ''w'') (demo_board Board_PENDING None) = (b', Inr True) \<and>
     wf_board b' \<and> synced b'"
proof -
  let ?e = "exec True 1 2 (''r'', ''b'') (Op_claim ''w'') (demo_board Board_PENDING None)"
  obtain b' res where e: "?e = (b', res)" by force
  have "snd ?e = Inr True" by code_simp
  with e board_refines_task_machine [OF demo_board_ok e] show ?thesis by auto
qed

text \<open>C5: Whatever processes and agents race to claim one task over the shared durable table, with however
  stale dictionaries and failing writes, at most one claim succeeds; the task was then PENDING in the
  table and ends CLAIMED by the winner, and without a winner the table is unchanged.\<close>

theorem claim_race_has_one_winner:
  assumes "\<forall>p. board_persist (ps p) \<and> table_ok (board_tasks (ps p))" "table_ok rows"
  shows "\<exists>ws rows'. claim_race r i es ps rows = (ws, rows') \<and> length ws \<le> 1 \<and>
    (ws = [] \<longrightarrow> rows' = rows) \<and>
    (\<forall>a. ws = [a] \<longrightarrow> (\<exists>t t'. map_of rows (r, i) = Some t \<and> bt_status t = Board_PENDING \<and>
       map_of rows' = (map_of rows)((r, i) \<mapsto> t') \<and> view t' = (Board_CLAIMED, Some a)))"
proof -
  obtain ws rows' where c: "claim_race r i es ps rows = (ws, rows')" by force
  have "procs_ok ps" using assms(1) by (simp add: procs_ok_def)
  from race_outcome [OF this assms(2) c] show ?thesis
  proof
    assume "ws = [] \<and> rows' = rows"
    with c show ?thesis by simp
  next
    assume "\<exists>a t t1 t2. ws = [a] \<and> map_of rows (r, i) = Some t \<and> bt_status t = Board_PENDING \<and>
       map_of rows' = (map_of rows)((r, i) \<mapsto> claimed t1 t2 a t)"
    then obtain a t t1 t2 where "ws = [a]" "map_of rows (r, i) = Some t" "bt_status t = Board_PENDING"
      "map_of rows' = (map_of rows)((r, i) \<mapsto> claimed t1 t2 a t)" by blast
    moreover have "view (claimed t1 t2 a t) = (Board_CLAIMED, Some a)" by (simp add: view_def claimed_def)
    ultimately show ?thesis using c by auto
  qed
qed

theorem claim_race_has_one_winner_witness:
  "fst (claim_race ''r'' ''b'' [(0, ''w1'', 1, 2, False), (1, ''w2'', 3, 4, True), (0, ''w3'', 5, 6, True)]
     (\<lambda>_. demo_board Board_PENDING None) (demo_rows Board_PENDING None)) = [''w2''] \<and>
   (\<exists>ws rows'. claim_race ''r'' ''b'' [(0, ''w1'', 1, 2, False), (1, ''w2'', 3, 4, True), (0, ''w3'', 5, 6, True)]
     (\<lambda>_. demo_board Board_PENDING None) (demo_rows Board_PENDING None) = (ws, rows') \<and> length ws \<le> 1)"
proof
  show "fst (claim_race ''r'' ''b'' [(0, ''w1'', 1, 2, False), (1, ''w2'', 3, 4, True), (0, ''w3'', 5, 6, True)]
     (\<lambda>_. demo_board Board_PENDING None) (demo_rows Board_PENDING None)) = [''w2'']" by code_simp
  have "\<forall>p :: nat. board_persist (demo_board Board_PENDING None) \<and>
      table_ok (board_tasks (demo_board Board_PENDING None))"
    using demo_rows_ok by (simp add: demo_board_def)
  from claim_race_has_one_winner [OF this demo_rows_ok [of Board_PENDING None], of "''r''" "''b''"
      "[(0, ''w1'', 1, 2, False), (1, ''w2'', 3, 4, True), (0, ''w3'', 5, 6, True)]"]
  show "\<exists>ws rows'. claim_race ''r'' ''b'' [(0, ''w1'', 1, 2, False), (1, ''w2'', 3, 4, True), (0, ''w3'', 5, 6, True)]
     (\<lambda>_. demo_board Board_PENDING None) (demo_rows Board_PENDING None) = (ws, rows') \<and> length ws \<le> 1"
    by blast
qed

text \<open>The table that decides a claim.\<close>

definition authority :: "task_board \<Rightarrow> task_table" where
  "authority b = (if board_persist b then board_rows b else board_tasks b)"

definition claimable :: "string \<Rightarrow> task_board \<Rightarrow> board_task \<Rightarrow> bool" where
  "claimable r b t \<longleftrightarrow> bt_status t = Board_PENDING \<and>
     (\<forall>d \<in> set (bt_dependencies t). \<exists>u. map_of (authority b) (r, d) = Some u \<and> bt_status u = Board_SUCCEEDED)"

lemma claimable_unmet:
  "claimable r b t \<longleftrightarrow> bt_status t = Board_PENDING \<and> unmet_dependency (authority b) r (bt_dependencies t) = None"
  by (simp add: claimable_def unmet_dependency_None)

lemma claim_result:
  assumes "wf_board b" "synced b"
  shows "(\<exists>c. snd (claim True t1 t2 i a (Some r) b) = Inr c \<and>
    (cr_success c \<longleftrightarrow> (\<exists>t. map_of (board_tasks b) (r, i) = Some t \<and> claimable r b t)) \<and>
    (cr_success c \<longrightarrow> (\<exists>t. map_of (board_tasks b) (r, i) = Some t \<and>
       fst (claim True t1 t2 i a (Some r) b) = stored (r, i) (claimed t1 t2 a t) b)))"
proof -
  obtain b' res where c: "claim True t1 t2 i a (Some r) b = (b', res)" by force
  show ?thesis
  proof (cases "map_of (board_tasks b) (r, i)")
    case None
    with claim_cases [OF assms c] c show ?thesis by (simp add: claim_failed_def)
  next
    case (Some t)
    from claim_cases [OF assms c] have "case unmet_dependency (authority b) r (bt_dependencies t) of
        Some d \<Rightarrow> \<exists>w. res = Inr (claim_failed (Some t) w)
      | None \<Rightarrow> if bt_status t \<noteq> Board_PENDING then \<exists>w. res = Inr (claim_failed (Some t) w)
          else b' = stored (r, i) (claimed t1 t2 a t) b \<and>
            res = Inr \<lparr>cr_success = True, cr_task = Some (claimed t1 t2 a t), cr_reason = No_reason\<rparr>"
      using Some by (auto simp: Let_def authority_def split: option.splits if_splits)
    with c Some show ?thesis
      by (auto simp: claimable_unmet claim_failed_def split: option.splits if_splits)
  qed
qed

text \<open>A claim whose write goes through succeeds exactly when the task is stored, PENDING, and all its
  dependencies are SUCCEEDED in the deciding table (the rows of a durable board, the dictionary of an
  in-process one); it then stores the task CLAIMED by the agent with the instant of the claim.\<close>

theorem claim_succeeds_iff_claimable:
  assumes "wf_board b" "synced b"
  shows "\<exists>c. snd (claim True t1 t2 i a (Some r) b) = Inr c \<and>
    (cr_success c \<longleftrightarrow> (\<exists>t. map_of (board_tasks b) (r, i) = Some t \<and> bt_status t = Board_PENDING \<and>
       (\<forall>d \<in> set (bt_dependencies t). \<exists>u. map_of (authority b) (r, d) = Some u \<and>
          bt_status u = Board_SUCCEEDED))) \<and>
    (cr_success c \<longrightarrow> (\<exists>t. map_of (board_tasks (fst (claim True t1 t2 i a (Some r) b))) (r, i) = Some t \<and>
       view t = (Board_CLAIMED, Some a) \<and> bt_claimed_at t = Some t1))"
proof -
  obtain c where c: "snd (claim True t1 t2 i a (Some r) b) = Inr c"
    "cr_success c \<longleftrightarrow> (\<exists>t. map_of (board_tasks b) (r, i) = Some t \<and> claimable r b t)"
    "cr_success c \<longrightarrow> (\<exists>t. fst (claim True t1 t2 i a (Some r) b) = stored (r, i) (claimed t1 t2 a t) b)"
    using claim_result [OF assms] by blast
  have "view (claimed t1 t2 a t) = (Board_CLAIMED, Some a) \<and> bt_claimed_at (claimed t1 t2 a t) = Some t1" for t
    by (simp add: view_def claimed_def)
  with c show ?thesis by (auto simp: claimable_def simp del: stored_fields(2))
qed

theorem claim_succeeds_iff_claimable_witness:
  "\<exists>c. snd (claim True 1 2 ''c'' ''w'' (Some ''r'') (demo_board Board_PENDING None)) = Inr c \<and> \<not> cr_success c"
proof -
  let ?b = "demo_board Board_PENDING None"
  have dep: "map_of (authority ?b) (''r'', ''b'') = Some (demo_task ''b'' [''a''] Board_PENDING None)"
    and t: "map_of (board_tasks ?b) (''r'', ''c'') = Some (demo_task ''c'' [''b''] Board_PENDING None)"
    by (simp_all add: authority_def demo_board_def demo_rows_def)
  have st: "bt_status (demo_task ''b'' [''a''] Board_PENDING None) = Board_PENDING"
    "bt_dependencies (demo_task ''c'' [''b''] Board_PENDING None) = [''b'']"
    by (simp_all add: demo_task_def new_board_task_def)
  obtain c where c: "snd (claim True 1 2 ''c'' ''w'' (Some ''r'') ?b) = Inr c"
    "cr_success c \<longleftrightarrow> (\<exists>t. map_of (board_tasks ?b) (''r'', ''c'') = Some t \<and> bt_status t = Board_PENDING \<and>
       (\<forall>d \<in> set (bt_dependencies t). \<exists>u. map_of (authority ?b) (''r'', d) = Some u \<and>
          bt_status u = Board_SUCCEEDED))"
    using claim_succeeds_iff_claimable [OF demo_board_ok, of 1 2 "''c''" "''w''" "''r''" Board_PENDING None] by blast
  with t st dep show ?thesis by auto
qed

text \<open>When the dictionary holds every row of the run, \<open>list_claimable\<close> lists exactly the stored tasks
  that are due, that the given capabilities cover, and whose claim would succeed, by falling priority.\<close>

theorem list_claimable_exact:
  assumes "wf_board b" "synced b" "\<forall>i. map_of (authority b) (r, i) = map_of (board_tasks b) (r, i)"
  shows "(t \<in> set (list_claimable now r caps b) \<longleftrightarrow>
      map_of (board_tasks b) (r, bt_task_id t) = Some t \<and> due now t \<and>
      (caps \<noteq> [] \<and> bt_required_capabilities t \<noteq> [] \<longrightarrow> set (bt_required_capabilities t) \<subseteq> set caps) \<and>
      (\<exists>c. snd (claim True t1 t2 (bt_task_id t) a (Some r) b) = Inr c \<and> cr_success c)) \<and>
    sorted (map (\<lambda>t. - bt_priority t) (list_claimable now r caps b))"
proof
  obtain c where c: "snd (claim True t1 t2 (bt_task_id t) a (Some r) b) = Inr c"
    "cr_success c \<longleftrightarrow> (\<exists>u. map_of (board_tasks b) (r, bt_task_id t) = Some u \<and> claimable r b u)"
    using claim_result [OF assms(1,2)] by blast
  have "unmet_dependency (board_tasks b) r ds = None \<longleftrightarrow> unmet_dependency (authority b) r ds = None" for ds
    using assms(3) by (simp add: unmet_dependency_None)
  then show "t \<in> set (list_claimable now r caps b) \<longleftrightarrow>
      map_of (board_tasks b) (r, bt_task_id t) = Some t \<and> due now t \<and>
      (caps \<noteq> [] \<and> bt_required_capabilities t \<noteq> [] \<longrightarrow> set (bt_required_capabilities t) \<subseteq> set caps) \<and>
      (\<exists>c. snd (claim True t1 t2 (bt_task_id t) a (Some r) b) = Inr c \<and> cr_success c)"
    using c by (auto simp: list_claimable_def list_pending_def list_by_run_def in_raw_list_by_run [OF assms(1)]
        claimable_unmet)
  show "sorted (map (\<lambda>t. - bt_priority t) (list_claimable now r caps b))"
    by (simp add: list_claimable_def)
qed

theorem list_claimable_exact_witness:
  "list_claimable 0 ''r'' [] (demo_board Board_PENDING None) = [demo_task ''b'' [''a''] Board_PENDING None] \<and>
   (\<exists>c. snd (claim True 1 2 ''b'' ''w'' (Some ''r'') (demo_board Board_PENDING None)) = Inr c \<and> cr_success c)"
proof
  let ?b = "demo_board Board_PENDING None" and ?t = "demo_task ''b'' [''a''] Board_PENDING None"
  show l: "list_claimable 0 ''r'' [] ?b = [?t]" by code_simp
  have all: "\<forall>i. map_of (authority ?b) (''r'', i) = map_of (board_tasks ?b) (''r'', i)"
    by (simp add: authority_def demo_board_def)
  have "bt_task_id ?t = ''b''" by (simp add: demo_task_def new_board_task_def)
  with list_claimable_exact [OF demo_board_ok all, of ?t 0 "[]" 1 2 "''w''"] l
  show "\<exists>c. snd (claim True 1 2 ''b'' ''w'' (Some ''r'') ?b) = Inr c \<and> cr_success c" by simp
qed

text \<open>A claimable task that is claimed, started and failed again and again is FAILED for good after at
  most \<open>failures_left + 1\<close> rounds, whatever the agents, errors, delays and categories: the attempts under
  \<open>max_attempts\<close> and the five rate-limit graces are the only ways back to PENDING. Each round counts
  one attempt.\<close>

theorem repeated_failures_end:
  assumes "wf_board b" "synced b" "map_of (board_tasks b) (r, i) = Some t" "bt_status t = Board_PENDING"
    "\<forall>d \<in> set (bt_dependencies t). \<exists>u. map_of (board_tasks b) (r, d) = Some u \<and> bt_status u = Board_SUCCEEDED"
    "failure_metadata_ok t" "bt_attempts t + int (failures_left t) \<le> 1023" "failures_left t < length fs"
  shows "\<exists>n u. n \<le> failures_left t + 1 \<and>
    map_of (board_tasks (fail_rounds clk (r, i) (take n fs) b)) (r, i) = Some u \<and>
    bt_status u = Board_FAILED \<and> bt_attempts u = bt_attempts t + int n"
  using assms by (intro fail_rounds_end) (simp_all add: ready_task_def)

theorem repeated_failures_end_witness:
  "\<exists>n u. n \<le> 9 \<and> map_of (board_tasks (fail_rounds int (''r'', ''b'')
      (take n (replicate 9 (''w'', ''boom'', True, 0, ''rate_limited''))) (demo_board Board_PENDING None)))
      (''r'', ''b'') = Some u \<and> bt_status u = Board_FAILED"
proof -
  let ?t = "demo_task ''b'' [''a''] Board_PENDING None"
  have t: "failures_left ?t = 8" "failure_metadata_ok ?t" "bt_attempts ?t = 0" "bt_status ?t = Board_PENDING"
    "bt_dependencies ?t = [''a'']"
    by (simp_all add: failures_left_def failure_metadata_ok_def grace_count_def grace_used_def demo_task_def
        new_board_task_def)
  have a: "map_of (board_tasks (demo_board Board_PENDING None)) (''r'', ''a'')
      = Some (demo_task ''a'' [] Board_SUCCEEDED (Some ''w''))" by (simp add: demo_board_def demo_rows_def)
  have st: "bt_status (demo_task ''a'' [] Board_SUCCEEDED (Some ''w'')) = Board_SUCCEEDED"
    by (simp add: demo_task_def)
  show ?thesis
    using repeated_failures_end [OF demo_board_ok demo_board_b t(4), where clk = int
        and fs = "replicate 9 (''w'', ''boom'', True, 0, ''rate_limited'')"] t a st by auto
qed

text \<open>After a crash, when the writes go through, \<open>prepare_for_resume\<close> never raises, counts the
  interrupted tasks of the run (CLAIMED, RUNNING, PRODUCED, VERIFYING), puts exactly those back to
  unowned PENDING with the reason of their former status, and keeps their artifacts and attempts; every
  other task, of this run or another, is as before.\<close>

theorem resume_resets_interrupted_tasks:
  assumes "wf_board b" "synced b" "\<forall>i. wr i"
  shows "\<exists>b' m. prepare_for_resume wr clk r b = (b', Inr m) \<and> wf_board b' \<and> synced b' \<and>
    m = length (filter (\<lambda>t. interrupted (bt_status t)) (list_by_run r b)) \<and>
    (\<forall>r' i. r' \<noteq> r \<longrightarrow> map_of (board_tasks b') (r', i) = map_of (board_tasks b) (r', i)) \<and>
    (\<forall>i t. map_of (board_tasks b) (r, i) = Some t \<longrightarrow> (\<exists>t'. map_of (board_tasks b') (r, i) = Some t' \<and>
       \<not> interrupted (bt_status t') \<and> bt_attempts t' = bt_attempts t \<and>
       bt_produced_artifact_ids t' = bt_produced_artifact_ids t \<and>
       (if interrupted (bt_status t)
        then view t' = (Board_PENDING, None) \<and> bt_last_error t' = Some (resume_reason (bt_status t))
        else t' = t)))"
proof -
  obtain b' m where e: "each (resume_step clk) 0 (run_keys b r) 0 b = (b', m)" by force
  have "prepare_for_resume wr clk r b = (b', Inr m)" using assms(3) e by (simp add: prepare_for_resume_eq)
  moreover have "bt_attempts t' = bt_attempts t \<and> bt_produced_artifact_ids t' = bt_produced_artifact_ids t \<and>
      (if interrupted (bt_status t)
       then view t' = (Board_PENDING, None) \<and> bt_last_error t' = Some (resume_reason (bt_status t))
       else t' = t)" if "resuming.swept clk t t'" for t t'
    using that by (auto simp: resuming.swept_def resume_step_def resumed_def view_def split: if_splits)
  ultimately show ?thesis
    using resuming.sweep_run [OF assms(1,2) e] unfolding list_by_run_def
    by (intro exI [of _ b'] exI [of _ m]) blast
qed

theorem resume_resets_interrupted_tasks_witness:
  "\<exists>b'. prepare_for_resume (\<lambda>_. True) int ''r'' (demo_board Board_PRODUCED (Some ''w'')) = (b', Inr 1) \<and>
    (\<exists>t'. map_of (board_tasks b') (''r'', ''b'') = Some t' \<and> view t' = (Board_PENDING, None))"
proof -
  let ?b = "demo_board Board_PRODUCED (Some ''w'')"
  have n: "length (filter (\<lambda>t. interrupted (bt_status t)) (list_by_run ''r'' ?b)) = 1" by code_simp
  have st: "interrupted (bt_status (demo_task ''b'' [''a''] Board_PRODUCED (Some ''w'')))"
    by (simp add: interrupted_def demo_task_def)
  obtain b' where b': "prepare_for_resume (\<lambda>_. True) int ''r'' ?b = (b', Inr 1)"
    "\<And>i t. map_of (board_tasks ?b) (''r'', i) = Some t \<Longrightarrow> interrupted (bt_status t) \<Longrightarrow>
       \<exists>t'. map_of (board_tasks b') (''r'', i) = Some t' \<and> view t' = (Board_PENDING, None)"
    using resume_resets_interrupted_tasks [OF demo_board_ok, where wr = "\<lambda>_. True" and clk = int and r = "''r''"
      and st1 = Board_PRODUCED] n by metis
  from b'(1) b'(2) [OF demo_board_b st] show ?thesis by blast
qed

text \<open>\<open>cancel_run\<close>, when the writes go through, never raises, leaves every task of the run SUCCEEDED,
  FAILED or CANCELLED, cancels exactly the unfinished ones (counted in the result) with the given reason,
  and touches no other run.\<close>

theorem cancel_run_settles_run:
  assumes "wf_board b" "synced b" "\<forall>i. wr i"
  shows "\<exists>b' m. cancel_run wr clk r reason b = (b', Inr m) \<and> wf_board b' \<and> synced b' \<and>
    m = length (filter (\<lambda>t. \<not> final_status (bt_status t)) (list_by_run r b)) \<and>
    (\<forall>r' i. r' \<noteq> r \<longrightarrow> map_of (board_tasks b') (r', i) = map_of (board_tasks b) (r', i)) \<and>
    (\<forall>i t. map_of (board_tasks b) (r, i) = Some t \<longrightarrow> (\<exists>t'. map_of (board_tasks b') (r, i) = Some t' \<and>
       final_status (bt_status t') \<and>
       (if final_status (bt_status t) then t' = t
        else bt_status t' = Board_CANCELLED \<and> bt_last_error t' = Some reason \<and> bt_completed_at t' \<noteq> None)))"
proof -
  obtain b' m where e: "each (cancel_step clk reason) 0 (run_keys b r) 0 b = (b', m)" by force
  have "cancel_run wr clk r reason b = (b', Inr m)" using assms e by (simp add: cancel_run_eq)
  moreover have "if final_status (bt_status t) then t' = t
      else bt_status t' = Board_CANCELLED \<and> bt_last_error t' = Some reason \<and> bt_completed_at t' \<noteq> None"
    if "cancelling.swept clk reason t t'" for t t'
    using that by (auto simp: cancelling.swept_def cancel_step_def split: if_splits)
  ultimately show ?thesis
    using cancelling.sweep_run [OF assms(1,2) e] unfolding list_by_run_def
    by (intro exI [of _ b'] exI [of _ m]) blast
qed

theorem cancel_run_settles_run_witness:
  "\<exists>b'. cancel_run (\<lambda>_. True) int ''r'' ''stop'' (demo_board Board_RUNNING (Some ''w'')) = (b', Inr 2) \<and> synced b'"
proof -
  have "length (filter (\<lambda>t. \<not> final_status (bt_status t))
      (list_by_run ''r'' (demo_board Board_RUNNING (Some ''w'')))) = 2" by code_simp
  with cancel_run_settles_run [OF demo_board_ok, where wr = "\<lambda>_. True" and clk = int and r = "''r''"
      and reason = "''stop''"] show ?thesis by (metis (no_types, lifting))
qed

text \<open>Evicting a run from memory and restoring it from the table gives back the run: while it is evicted
  no task of it is in memory, and afterwards every lookup answers as before, as many tasks are loaded as
  were evicted, and the board is well formed.\<close>

theorem purge_then_restore:
  assumes "wf_board b" "synced b" "board_persist b"
    "\<forall>i. map_of (board_rows b) (r, i) = map_of (board_tasks b) (r, i)"
    "purge_run r b = (b1, n)" "restore_run r b1 = (b2, m)"
  shows "list_by_run r b1 = [] \<and> map_of (board_tasks b2) = map_of (board_tasks b) \<and> m = n \<and>
    wf_board b2 \<and> synced b2 \<and> set (list_by_run r b2) = set (list_by_run r b)"
proof -
  note p = purge_run_eq [OF assms(1,5)]
  then have wf1: "wf_board b1" and per: "board_persist b1" and rows1: "board_rows b1 = board_rows b"
    and n: "n = length (run_keys b r)"
    using assms(3) by simp_all
  have t1: "map_of (board_tasks b1) (r', i) = (if r' = r then None else map_of (board_tasks b) (r', i))" for r' i
    using p by simp
  note q = restore_run_eq [OF wf1 per assms(6)]
  have t2: "map_of (board_tasks b2) k = map_of (board_tasks b) k" for k
    using q t1 assms(4) by (cases k) (auto simp: rows1 split: option.splits)
  then have eq: "map_of (board_tasks b2) = map_of (board_tasks b)" by (simp add: fun_eq_iff)
  have "k \<notin> set (run_keys b1 r)" for k using run_keys_present [OF wf1, of k r] t1 by (cases k) simp
  then have "run_keys b1 r = []" by (cases "run_keys b1 r") (metis list.set_intros(1))+
  then have "list_by_run r b1 = []" by (simp add: list_by_run_def raw_list_by_run_eq [OF wf1])
  moreover have "m = n"
  proof -
    have "filter (\<lambda>t. map_of (board_tasks b1) (task_key_of t) = None) (list_task_board_tasks r b1)
        = list_task_board_tasks r b1"
      using listed_rows(1) [of b1 r] wf1 t1 by (auto simp: filter_id_conv wf_board_def task_key_of_def)
    moreover have "list_task_board_tasks r b1 = list_task_board_tasks r b"
      by (simp add: list_task_board_tasks_def rows1)
    ultimately show ?thesis using q n listed_rows_length [OF assms(1,4)] by simp
  qed
  moreover have "wf_board b2" and "synced b2"
    using q rows1 eq assms(2,3) by (simp_all add: synced_def)
  ultimately show ?thesis
    using eq in_raw_list_by_run [OF assms(1)] in_raw_list_by_run [OF \<open>wf_board b2\<close>]
    by (auto simp: list_by_run_def)
qed

theorem purge_then_restore_witness:
  "\<exists>b2. restore_run ''r'' (fst (purge_run ''r'' (demo_board Board_PENDING None))) = (b2, 3) \<and> synced b2"
proof -
  let ?b = "demo_board Board_PENDING None"
  obtain b1 n where p: "purge_run ''r'' ?b = (b1, n)" by force
  obtain b2 m where r: "restore_run ''r'' b1 = (b2, m)" by force
  have "snd (purge_run ''r'' ?b) = 3" by code_simp
  moreover have "board_persist ?b" "\<forall>i. map_of (board_rows ?b) (''r'', i) = map_of (board_tasks ?b) (''r'', i)"
    by (simp_all add: demo_board_def)
  ultimately show ?thesis
    using purge_then_restore [OF demo_board_ok _ _ p r] p r by simp
qed

text \<open>No claim, release, retry, verification, replan request or second cancellation moves a CANCELLED
  task; only the agent recorded as its owner can, by a late \<open>complete\<close> or \<open>fail\<close>, and those do.\<close>

theorem cancelled_task_moves:
  assumes "wf_board b" "synced b" "map_of (board_tasks b) k = Some t" "bt_status t = Board_CANCELLED"
    "bt_claimed_by t = Some a" "failure_metadata_ok t" "bt_attempts t \<le> 1023"
  shows "snd (exec True t1 t2 k op b) = Inr True \<longleftrightarrow>
    (\<exists>arts. op = Op_complete a arts) \<or> (\<exists>e rt d c. op = Op_fail a e rt d c)"
proof
  assume r: "snd (exec True t1 t2 k op b) = Inr True"
  obtain b' res where e: "exec True t1 t2 k op b = (b', res)" by force
  with r obtain t' where "view_step op (view t) (view t')"
    using exec_sim [OF assms(1,2), of k op True t1 t2] assms(3) by (auto simp: simulates_def)
  then show "(\<exists>arts. op = Op_complete a arts) \<or> (\<exists>e rt d c. op = Op_fail a e rt d c)"
    using assms(4,5) by (auto simp: view_def elim: view_step.cases)
next
  obtain r i where k: "k = (r, i)" by force
  assume "(\<exists>arts. op = Op_complete a arts) \<or> (\<exists>e rt d c. op = Op_fail a e rt d c)"
  then show "snd (exec True t1 t2 k op b) = Inr True"
  proof (elim disjE exE)
    fix arts assume "op = Op_complete a arts"
    then show ?thesis using assms(3,5) by (simp add: k complete_def raw_get_run)
  next
    fix e rt d c assume op: "op = Op_fail a e rt d c"
    obtain t' where "fail True t1 t2 i a e (Some r) rt d c b = (stored (r, i) t' b, Inr True)"
      by (rule fail_outcome [OF assms(1,2) assms(3) [unfolded k] assms(5-7)])
    then show ?thesis by (simp add: k op)
  qed
qed

theorem cancelled_task_moves_witness:
  "snd (exec True 1 2 (''r'', ''b'') (Op_fail ''w'' ''late'' True 0 ''transient'')
     (demo_board Board_CANCELLED (Some ''w''))) = Inr True"
proof -
  let ?t = "demo_task ''b'' [''a''] Board_CANCELLED (Some ''w'')"
  have facts: "bt_status ?t = Board_CANCELLED" "bt_claimed_by ?t = Some ''w''" "failure_metadata_ok ?t" "bt_attempts ?t \<le> 1023"
    by (simp_all add: failure_metadata_ok_def grace_used_def demo_task_def new_board_task_def)
  show ?thesis by (rule iffD2 [OF cancelled_task_moves [OF demo_board_ok demo_board_b facts]]) blast
qed

text \<open>The late failure makes the cancelled task PENDING again.\<close>

theorem late_failure_revives_cancelled_task:
  "\<exists>b' t'. fail True 1 2 ''b'' ''w'' ''late'' (Some ''r'') True 0 ''transient''
      (fst (cancel True 0 0 ''b'' ''run_cancelled'' (Some ''r'') (demo_board Board_RUNNING (Some ''w''))))
    = (b', Inr True) \<and> map_of (board_tasks b') (''r'', ''b'') = Some t' \<and> view t' = (Board_PENDING, None)"
  by (simp add: fail_def cancel_def raw_get_run demo_board_b Let_def)
    (simp add: demo_task_def new_board_task_def append_entry_def requeued_def view_def)

text \<open>The first rate-limit grace after three attempts waits 60 seconds, not 15.\<close>

lemma first_grace_delay: "bt_attempts t = 3 \<Longrightarrow> grace_delay t = 60"
  by (simp add: grace_delay_def grace_exponent_def)

end
