(* ===== verification/Reliability.thy ===== *)
theory Reliability
  imports Py_Prelude
begin

text \<open>
  \<open>app/runtime/reliability.py\<close>: failure classification by markers and the bounded exponential backoff of
  \<open>RetryPolicy.decide\<close>. The one exception is Python's OverflowError when \<open>2**exponent\<close> no longer fits a
  float. \<open>app/multiagent/parallel_scheduler.py\<close> hands the decision to \<open>TaskBoard.fail\<close> (theory
  \<open>Task_Board\<close>).
\<close>

datatype failure_category =
  TRANSIENT | RATE_LIMITED | TIMEOUT | AUTHENTICATION | PERMISSION | CONTRACT | CANCELLED | UNKNOWN

definition RATE_LIMIT_MARKERS :: "string list" where
  "RATE_LIMIT_MARKERS =
     [''429'', ''rate limit'', ''rate_limit'', ''too many requests'', ''quota temporarily'']"

definition TIMEOUT_MARKERS :: "string list" where
  "TIMEOUT_MARKERS =
     [''timeout'', ''timed out'', ''deadline exceeded'', ''read timeout'', ''connect timeout'']"

definition TRANSIENT_MARKERS :: "string list" where
  "TRANSIENT_MARKERS =
     [''connection reset'', ''connection aborted'', ''connection refused'', ''temporarily unavailable'',
      ''service unavailable'', ''bad gateway'', ''gateway timeout'', ''remote protocol'', ''network'',
      ''502'', ''503'', ''504'']"

definition AUTH_MARKERS :: "string list" where
  "AUTH_MARKERS = [''401'', ''invalid api key'', ''authentication'', ''unauthorized'']"

definition PERMISSION_MARKERS :: "string list" where
  "PERMISSION_MARKERS =
     [''permission required'', ''permission denied'', ''approval required'', ''forbidden'', ''403'']"

definition CONTRACT_MARKERS :: "string list" where
  "CONTRACT_MARKERS =
     [''validation error'', ''invalid request'', ''schema'', ''output contract'',
      ''dependency_not_verified'', ''artifact_integrity_failed'']"

definition CANCEL_MARKERS :: "string list" where
  "CANCEL_MARKERS = [''cancelled'', ''canceled'', ''agent_stopped'']"

definition has_marker :: "string list \<Rightarrow> string \<Rightarrow> bool" where
  "has_marker ms value \<longleftrightarrow> list_ex (\<lambda>m. contains m value) ms"

definition classify :: "string \<Rightarrow> failure_category" where
  "classify error =
     (let value = lower error in
      if has_marker CANCEL_MARKERS value then CANCELLED
      else if has_marker AUTH_MARKERS value then AUTHENTICATION
      else if has_marker PERMISSION_MARKERS value then PERMISSION
      else if has_marker RATE_LIMIT_MARKERS value then RATE_LIMITED
      else if has_marker TIMEOUT_MARKERS value then TIMEOUT
      else if has_marker TRANSIENT_MARKERS value then TRANSIENT
      else if has_marker CONTRACT_MARKERS value then CONTRACT
      else UNKNOWN)"

record retry_policy =
  base_delay_seconds :: seconds
  max_delay_seconds :: seconds
  rate_limit_base_delay_seconds :: seconds
  rate_limit_max_delay_seconds :: seconds

text \<open>\<open>RetryPolicy.__init__\<close>: the clamping of the four arguments.\<close>

definition new_retry_policy :: "seconds \<Rightarrow> seconds \<Rightarrow> seconds option \<Rightarrow> seconds option \<Rightarrow> retry_policy" where
  "new_retry_policy base_s max_s rl_base rl_max =
     (let base = max 0 base_s;
          rbase = max 0 (case rl_base of None \<Rightarrow> 15 | Some s \<Rightarrow> s)
      in \<lparr>base_delay_seconds = base,
          max_delay_seconds = max base max_s,
          rate_limit_base_delay_seconds = rbase,
          rate_limit_max_delay_seconds = max rbase (case rl_max of None \<Rightarrow> 300 | Some s \<Rightarrow> s)\<rparr>)"

datatype decision_reason =
    retry_budget_available
  | retry_budget_exhausted
  | requires_intervention failure_category

record retry_decision =
  rd_category :: failure_category
  rd_retryable :: bool
  rd_delay_seconds :: seconds
  rd_reason :: decision_reason

datatype delay_error = FloatOverflow

text \<open>\<open>base * (2**exponent)\<close>: converting \<open>2**1024\<close> to a float raises OverflowError.\<close>

definition float_max_exponent :: nat where
  "float_max_exponent = 1023"

definition backoff :: "seconds \<Rightarrow> seconds \<Rightarrow> int \<Rightarrow> delay_error + seconds" where
  "backoff base cap attempt =
     (let exponent = nat (max 0 (attempt - 1))
      in if float_max_exponent < exponent then Inl FloatOverflow
         else Inr (min cap (base * 2 ^ exponent)))"

text \<open>\<open>round(delay, 3)\<close>.\<close>

definition round3 :: "seconds \<Rightarrow> seconds" where
  "round3 x = of_int (round_half_even (x * 1000)) / 1000"

definition decide :: "retry_policy \<Rightarrow> string \<Rightarrow> int \<Rightarrow> int \<Rightarrow> delay_error + retry_decision" where
  "decide p error attempt max_attempts =
     (let category = classify error;
          has_budget = attempt < max_attempts;
          retryable_category = category \<notin> {AUTHENTICATION, PERMISSION, CONTRACT, CANCELLED};
          retryable = (has_budget \<and> retryable_category);
          delay = (if retryable
                   then if category = RATE_LIMITED
                        then backoff (rate_limit_base_delay_seconds p) (rate_limit_max_delay_seconds p) attempt
                        else backoff (base_delay_seconds p) (max_delay_seconds p) attempt
                   else Inr 0);
          reason = (if retryable then retry_budget_available
                    else if \<not> has_budget then retry_budget_exhausted
                    else requires_intervention category)
      in case delay of
           Inl e \<Rightarrow> Inl e
         | Inr d \<Rightarrow> Inr \<lparr>rd_category = category, rd_retryable = retryable,
             rd_delay_seconds = round3 d, rd_reason = reason\<rparr>)"

section \<open>Facts\<close>

definition policy_ok :: "retry_policy \<Rightarrow> bool" where
  "policy_ok p \<longleftrightarrow>
     0 \<le> base_delay_seconds p \<and> base_delay_seconds p \<le> max_delay_seconds p \<and>
     0 \<le> rate_limit_base_delay_seconds p \<and> rate_limit_base_delay_seconds p \<le> rate_limit_max_delay_seconds p"

lemma new_retry_policy_ok: "policy_ok (new_retry_policy b m rb rm)"
  by (simp add: policy_ok_def new_retry_policy_def Let_def)

lemma lower_char_idem [simp]: "lower_char (lower_char c) = lower_char c"
proof (cases "65 \<le> (of_char c :: nat) \<and> (of_char c :: nat) \<le> 90")
  case True
  define n where "n = (of_char c :: nat)"
  from True have n: "65 \<le> n" "n \<le> 90" by (simp_all add: n_def)
  then have "(of_char (char_of (n + 32) :: char) :: nat) = n + 32" by simp
  with n have "lower_char (char_of (n + 32)) = char_of (n + 32)" unfolding lower_char_def Let_def by simp
  moreover from n have "lower_char c = char_of (n + 32)"
    unfolding lower_char_def Let_def n_def [symmetric] by simp
  ultimately show ?thesis by simp
next
  case False
  then have "lower_char c = c" unfolding lower_char_def Let_def by (rule if_not_P)
  then show ?thesis by simp
qed

lemma lower_idem [simp]: "lower (lower s) = lower s"
  by (simp add: lower_def)

lemma classify_lower: "classify (lower e) = classify e"
  by (simp add: classify_def)

lemma round3_mono: "x \<le> y \<Longrightarrow> round3 x \<le> round3 y"
  by (simp add: round3_def divide_right_mono round_half_even_mono mult_right_mono)

lemma round3_nonneg: "0 \<le> x \<Longrightarrow> 0 \<le> round3 x"
  by (simp add: round3_def round_half_even_nonneg)

lemma round3_of_int [simp]: "round3 (of_int n) = of_int n"
proof -
  have "(of_int n * 1000 :: rat) = of_int (n * 1000)" by simp
  then have "round_half_even (of_int n * 1000 :: rat) = n * 1000"
    using round_half_even_of_int [of "n * 1000"] by simp
  then show ?thesis by (simp add: round3_def)
qed

lemma round3_0 [simp]: "round3 0 = 0"
  using round3_of_int [of 0] by simp

lemma backoff_Inr: "backoff base cap a = Inr d \<Longrightarrow> d = min cap (base * 2 ^ nat (max 0 (a - 1)))"
  by (simp add: backoff_def Let_def split: if_splits)

lemma backoff_bounds:
  assumes "0 \<le> base" "base \<le> cap" "backoff base cap a = Inr d"
  shows "base \<le> d \<and> d \<le> cap"
proof -
  have "base * 1 \<le> base * 2 ^ nat (max 0 (a - 1))"
    using assms(1) by (intro mult_left_mono) simp_all
  with assms(2) show ?thesis unfolding backoff_Inr [OF assms(3)] by simp
qed

lemma backoff_mono:
  assumes "0 \<le> base" "a \<le> b" "backoff base cap a = Inr d" "backoff base cap b = Inr e"
  shows "d \<le> e"
proof -
  have "base * 2 ^ nat (max 0 (a - 1)) \<le> base * 2 ^ nat (max 0 (b - 1))"
    using assms(1,2) by (intro mult_left_mono power_increasing nat_mono) auto
  then show ?thesis
    unfolding backoff_Inr [OF assms(3)] backoff_Inr [OF assms(4)] by (rule min.mono [OF order_refl])
qed

lemma decide_total: "attempt \<le> 1024 \<Longrightarrow> \<exists>d. decide p e attempt m = Inr d"
  by (auto simp: decide_def backoff_def Let_def float_max_exponent_def)

lemma decide_fields:
  assumes "decide p e a m = Inr d"
  shows "rd_category d = classify e"
    "rd_retryable d \<longleftrightarrow> a < m \<and> classify e \<notin> {AUTHENTICATION, PERMISSION, CONTRACT, CANCELLED}"
    "\<not> rd_retryable d \<Longrightarrow> rd_delay_seconds d = 0"
    "rd_retryable d \<Longrightarrow> \<exists>x. rd_delay_seconds d = round3 x \<and>
       (if classify e = RATE_LIMITED
        then backoff (rate_limit_base_delay_seconds p) (rate_limit_max_delay_seconds p) a
        else backoff (base_delay_seconds p) (max_delay_seconds p) a) = Inr x"
  using assms by (auto simp: decide_def Let_def split: sum.splits if_splits)

lemma contains_append: "contains m (l @ m @ r)"
  by (auto simp: contains_iff)

lemma lower_append: "lower (x @ y) = lower x @ lower y"
  by (simp add: lower_def)

definition fatal_markers :: "string list" where
  "fatal_markers = CANCEL_MARKERS @ AUTH_MARKERS @ PERMISSION_MARKERS"

lemma fatal_markers_lower: "m \<in> set fatal_markers \<Longrightarrow> lower m = m"
proof -
  have "list_all (\<lambda>m. lower m = m) fatal_markers" by code_simp
  then show "m \<in> set fatal_markers \<Longrightarrow> lower m = m" by (simp add: list_all_iff)
qed

lemma classify_fatal:
  assumes "m \<in> set fatal_markers"
  shows "classify (l @ m @ r) \<in> {CANCELLED, AUTHENTICATION, PERMISSION}"
proof -
  have "contains m (lower (l @ m @ r))"
    using contains_append [of m "lower l" "lower r"] fatal_markers_lower [OF assms] by (simp add: lower_append)
  with assms have "has_marker CANCEL_MARKERS (lower (l @ m @ r)) \<or> has_marker AUTH_MARKERS (lower (l @ m @ r)) \<or>
      has_marker PERMISSION_MARKERS (lower (l @ m @ r))"
    unfolding fatal_markers_def has_marker_def list_ex_iff by auto
  then show ?thesis by (auto simp: classify_def Let_def)
qed

section \<open>Properties\<close>

text \<open>A policy built by the constructor decides every error of at most 1024 attempts: it retries exactly
  when attempts are left and the category is not authentication, permission, contract or cancelled; a
  retry waits between the (rounded) base and maximal delay of its category, and no longer than any later
  attempt of the same error; a final decision waits 0.\<close>

theorem retry_decision_contract:
  assumes "p = new_retry_policy bs ms rb rm" "a \<le> a'" "a' \<le> 1024"
  shows "\<exists>d d'. decide p e a m = Inr d \<and> decide p e a' m = Inr d' \<and>
    (rd_retryable d \<longleftrightarrow> a < m \<and> classify e \<notin> {AUTHENTICATION, PERMISSION, CONTRACT, CANCELLED}) \<and>
    (\<not> rd_retryable d \<longrightarrow> rd_delay_seconds d = 0) \<and>
    (rd_retryable d \<longrightarrow>
      (if classify e = RATE_LIMITED
       then round3 (rate_limit_base_delay_seconds p) \<le> rd_delay_seconds d \<and>
            rd_delay_seconds d \<le> round3 (rate_limit_max_delay_seconds p)
       else round3 (base_delay_seconds p) \<le> rd_delay_seconds d \<and>
            rd_delay_seconds d \<le> round3 (max_delay_seconds p))) \<and>
    (rd_retryable d' \<longrightarrow> rd_delay_seconds d \<le> rd_delay_seconds d')"
proof -
  define b where "b = (if classify e = RATE_LIMITED then rate_limit_base_delay_seconds p else base_delay_seconds p)"
  define c where "c = (if classify e = RATE_LIMITED then rate_limit_max_delay_seconds p else max_delay_seconds p)"
  have ok: "0 \<le> b" "b \<le> c"
    using new_retry_policy_ok [of bs ms rb rm] assms(1) by (auto simp: b_def c_def policy_ok_def)
  obtain d d' where d: "decide p e a m = Inr d" and d': "decide p e a' m = Inr d'"
    using decide_total [of a p e m] decide_total [of a' p e m] assms(2,3) by auto
  have delay: "\<exists>x. rd_delay_seconds d = round3 x \<and> backoff b c a = Inr x" if "rd_retryable d"
    using decide_fields(4) [OF d that] by (simp add: b_def c_def split: if_splits)
  have delay': "\<exists>x. rd_delay_seconds d' = round3 x \<and> backoff b c a' = Inr x" if "rd_retryable d'"
    using decide_fields(4) [OF d' that] by (simp add: b_def c_def split: if_splits)
  have bounds: "round3 b \<le> rd_delay_seconds d \<and> rd_delay_seconds d \<le> round3 c" if "rd_retryable d"
    using delay [OF that] backoff_bounds [OF ok] round3_mono by metis
  have earlier: "rd_retryable d" if "rd_retryable d'"
    using that decide_fields(2) [OF d] decide_fields(2) [OF d'] assms(2) by simp
  have mono: "rd_delay_seconds d \<le> rd_delay_seconds d'" if "rd_retryable d'"
    using delay [OF earlier [OF that]] delay' [OF that] backoff_mono [OF ok(1) assms(2)] round3_mono by metis
  have bounds': "if classify e = RATE_LIMITED
       then round3 (rate_limit_base_delay_seconds p) \<le> rd_delay_seconds d \<and>
            rd_delay_seconds d \<le> round3 (rate_limit_max_delay_seconds p)
       else round3 (base_delay_seconds p) \<le> rd_delay_seconds d \<and>
            rd_delay_seconds d \<le> round3 (max_delay_seconds p)" if "rd_retryable d"
    using bounds [OF that] by (simp add: b_def c_def split: if_splits)
  show ?thesis
    using d d' decide_fields(2,3) [OF d] bounds' mono by blast
qed

theorem retry_decision_contract_witness:
  "\<exists>d d'. decide (new_retry_policy 1 30 None None) ''429 too many requests'' 1 3 = Inr d \<and>
    decide (new_retry_policy 1 30 None None) ''429 too many requests'' 2 3 = Inr d' \<and>
    rd_delay_seconds d \<le> rd_delay_seconds d'"
proof -
  let ?p = "new_retry_policy 1 30 None None" and ?e = "''429 too many requests''"
  obtain d d' where d: "decide ?p ?e 1 3 = Inr d" "decide ?p ?e 2 3 = Inr d'"
    "rd_retryable d' \<longrightarrow> rd_delay_seconds d \<le> rd_delay_seconds d'"
    using retry_decision_contract [OF refl, of 1 2 1 30 None None ?e 3] by auto
  have "map_sum id rd_retryable (decide ?p ?e 2 3) = Inr True" by code_simp
  with d show ?thesis by auto
qed

text \<open>An error whose text holds a cancellation, authentication or permission marker anywhere is never
  retried, whatever else it says, under any policy and budget.\<close>

theorem fatal_markers_never_retried:
  assumes "marker \<in> set fatal_markers" "decide p (before @ marker @ behind) a m = Inr d"
  shows "\<not> rd_retryable d \<and> rd_delay_seconds d = 0"
proof -
  have "\<not> rd_retryable d"
    using decide_fields(2) [OF assms(2)] classify_fatal [OF assms(1), of before behind] by auto
  with decide_fields(3) [OF assms(2)] show ?thesis by simp
qed

text \<open>The witness is a network error: its duration contains \<open>401\<close>.\<close>

theorem fatal_markers_never_retried_witness:
  "\<exists>d. decide (new_retry_policy 1 30 None None) ''connection reset after 1401 ms'' 1 3 = Inr d \<and>
    \<not> rd_retryable d \<and> rd_category d = AUTHENTICATION"
proof -
  let ?p = "new_retry_policy 1 30 None None" and ?e = "''connection reset after 1'' @ ''401'' @ '' ms''"
  obtain d where d: "decide ?p ?e 1 3 = Inr d" using decide_total [of 1 ?p ?e 3] by auto
  have m: "''401'' \<in> set fatal_markers" by code_simp
  have "classify ?e = AUTHENTICATION" by code_simp
  with decide_fields(1) [OF d] fatal_markers_never_retried [OF m d] d show ?thesis by simp
qed

end
