(* ===== verification/Agent_Registry.thy ===== *)
theory Agent_Registry
  imports Py_Prelude
begin

text \<open>
  \<open>app/multiagent/agent_instance.py\<close> and \<open>app/multiagent/agent_registry.py\<close>: the runtime agents with
  their status machine, and the registry that reserves, releases, reaps and stops them, with its durable
  table \<open>agent_instances\<close> (\<open>upsert_agent_instance\<close> of \<open>app/infrastructure/database/run_store.py\<close>). As on
  the task board, a failed durable write raises after the agent in memory was changed; \<open>wr\<close> is whether
  the write goes through. Generated ids are arguments.
\<close>

section \<open>Agent instances\<close>

datatype agent_status =
    Agent_CREATED | Agent_SPAWNING | Agent_IDLE | Agent_CLAIMING | Agent_PLANNING
  | Agent_WAITING_PLAN_APPROVAL | Agent_RUNNING | Agent_WAITING_TOOL | Agent_WAITING_PERMISSION
  | Agent_BLOCKED | Agent_FAILED | Agent_STOPPING | Agent_STOPPED | Agent_RECOVERING

fun agent_legal_transitions :: "agent_status \<Rightarrow> agent_status list" where
  "agent_legal_transitions Agent_CREATED = [Agent_SPAWNING, Agent_IDLE, Agent_STOPPED]"
| "agent_legal_transitions Agent_SPAWNING = [Agent_IDLE, Agent_FAILED]"
| "agent_legal_transitions Agent_IDLE = [Agent_CLAIMING, Agent_RUNNING, Agent_BLOCKED, Agent_FAILED,
     Agent_STOPPING, Agent_STOPPED]"
| "agent_legal_transitions Agent_CLAIMING = [Agent_PLANNING, Agent_RUNNING, Agent_IDLE, Agent_FAILED,
     Agent_STOPPING]"
| "agent_legal_transitions Agent_PLANNING = [Agent_WAITING_PLAN_APPROVAL, Agent_RUNNING, Agent_IDLE,
     Agent_FAILED, Agent_STOPPING]"
| "agent_legal_transitions Agent_WAITING_PLAN_APPROVAL = [Agent_PLANNING, Agent_RUNNING, Agent_IDLE,
     Agent_FAILED, Agent_STOPPING]"
| "agent_legal_transitions Agent_RUNNING = [Agent_IDLE, Agent_WAITING_TOOL, Agent_WAITING_PERMISSION,
     Agent_BLOCKED, Agent_FAILED, Agent_STOPPING]"
| "agent_legal_transitions Agent_WAITING_TOOL = [Agent_RUNNING, Agent_IDLE, Agent_FAILED]"
| "agent_legal_transitions Agent_WAITING_PERMISSION = [Agent_RUNNING, Agent_IDLE, Agent_FAILED,
     Agent_STOPPING]"
| "agent_legal_transitions Agent_BLOCKED = [Agent_RUNNING, Agent_IDLE, Agent_FAILED, Agent_STOPPING]"
| "agent_legal_transitions Agent_FAILED = [Agent_IDLE, Agent_STOPPING, Agent_STOPPED, Agent_RECOVERING]"
| "agent_legal_transitions Agent_STOPPING = [Agent_STOPPED, Agent_FAILED]"
| "agent_legal_transitions Agent_STOPPED = []"
| "agent_legal_transitions Agent_RECOVERING = [Agent_IDLE, Agent_FAILED, Agent_STOPPED]"

definition is_legal_agent_transition :: "agent_status \<Rightarrow> agent_status \<Rightarrow> bool" where
  "is_legal_agent_transition s t \<longleftrightarrow> t \<in> set (agent_legal_transitions s)"

record agent_instance =
  ag_agent_id :: string
  ag_team_id :: string
  ag_run_id :: string
  ag_profile_id :: string
  ag_name :: string
  ag_role :: string
  ag_description :: string
  ag_session_id :: string
  ag_thread_id :: string
  ag_checkpoint_namespace :: string
  ag_status :: agent_status
  ag_current_task_id :: "string option"
  ag_workspace_root :: string
  ag_worktree_path :: string
  ag_mailbox_cursor :: int
  ag_last_heartbeat_at :: "time option"
  ag_capabilities :: "string list"
  ag_metadata :: pydict
  ag_created_at :: time
  ag_updated_at :: time
  ag_stopped_at :: "time option"
  ag_max_concurrency :: int

text \<open>\<open>AgentInstance.update_status\<close> with its two clock readings.\<close>

definition agent_update_status :: "time \<Rightarrow> time \<Rightarrow> agent_status \<Rightarrow> agent_instance \<Rightarrow> agent_instance \<times> bool" where
  "agent_update_status t1 t2 st a =
     (if is_legal_agent_transition (ag_status a) st
      then let a1 = a\<lparr>ag_status := st, ag_updated_at := t1\<rparr>
           in (if st \<in> {Agent_STOPPED, Agent_FAILED} then a1\<lparr>ag_stopped_at := Some t2\<rparr> else a1, True)
      else (a, False))"

definition agent_heartbeat :: "time \<Rightarrow> time \<Rightarrow> agent_instance \<Rightarrow> agent_instance" where
  "agent_heartbeat t1 t2 a = a\<lparr>ag_last_heartbeat_at := Some t1, ag_updated_at := t2\<rparr>"

definition is_alive :: "agent_instance \<Rightarrow> bool" where
  "is_alive a \<longleftrightarrow> ag_status a \<notin> {Agent_STOPPED, Agent_FAILED}"

definition is_idle :: "agent_instance \<Rightarrow> bool" where
  "is_idle a \<longleftrightarrow> ag_status a = Agent_IDLE"

definition can_work :: "agent_instance \<Rightarrow> bool" where
  "can_work a \<longleftrightarrow> ag_status a \<in> {Agent_IDLE, Agent_RUNNING}"

section \<open>Durable rows\<close>

record agent_row =
  ar_agent_id :: string
  ar_team_id :: string
  ar_run_id :: string
  ar_profile_id :: string
  ar_name :: string
  ar_role :: string
  ar_session_id :: string
  ar_thread_id :: string
  ar_checkpoint_namespace :: string
  ar_status :: agent_status
  ar_current_task_id :: "string option"
  ar_workspace_root :: string
  ar_last_heartbeat_at :: "time option"
  ar_capabilities :: "string list"
  ar_metadata :: pydict
  ar_created_at :: time
  ar_updated_at :: time
  ar_stopped_at :: "time option"

record agent_registry =
  reg_agents :: "(string \<times> agent_instance) list"
  reg_lease_timeout :: int  \<comment> \<open>seconds\<close>
  reg_rows :: "(string \<times> agent_row) list"

datatype registry_error = AgentPersistFailed

type_synonym 'a registry_result = "agent_registry \<times> (registry_error + 'a)"

definition row_metadata :: "agent_instance \<Rightarrow> pydict" where
  "row_metadata a = AList.update ''mailbox_cursor'' (PyInt (ag_mailbox_cursor a))
     (AList.update ''worktree_path'' (PyStr (ag_worktree_path a)) (ag_metadata a))"

definition agent_row_of :: "time \<Rightarrow> agent_instance \<Rightarrow> agent_row" where
  "agent_row_of now a = \<lparr>ar_agent_id = ag_agent_id a, ar_team_id = ag_team_id a, ar_run_id = ag_run_id a,
     ar_profile_id = ag_profile_id a, ar_name = ag_name a, ar_role = ag_role a,
     ar_session_id = ag_session_id a, ar_thread_id = ag_thread_id a,
     ar_checkpoint_namespace = ag_checkpoint_namespace a, ar_status = ag_status a,
     ar_current_task_id = ag_current_task_id a, ar_workspace_root = ag_workspace_root a,
     ar_last_heartbeat_at = ag_last_heartbeat_at a, ar_capabilities = ag_capabilities a,
     ar_metadata = row_metadata a, ar_created_at = ag_created_at a, ar_updated_at = now,
     ar_stopped_at = ag_stopped_at a\<rparr>"

text \<open>On conflict only the mutable columns are replaced.\<close>

definition upsert_agent_instance :: "time \<Rightarrow> agent_instance \<Rightarrow> agent_registry \<Rightarrow> agent_registry" where
  "upsert_agent_instance now a reg =
     (let fresh = agent_row_of now a;
          row = (case map_of (reg_rows reg) (ag_agent_id a) of
                   None \<Rightarrow> fresh
                 | Some old \<Rightarrow> old\<lparr>ar_status := ar_status fresh, ar_current_task_id := ar_current_task_id fresh,
                     ar_last_heartbeat_at := ar_last_heartbeat_at fresh, ar_capabilities := ar_capabilities fresh,
                     ar_metadata := ar_metadata fresh, ar_updated_at := ar_updated_at fresh,
                     ar_stopped_at := ar_stopped_at fresh\<rparr>)
      in reg\<lparr>reg_rows := AList.update (ag_agent_id a) row (reg_rows reg)\<rparr>)"

definition persist_agent :: "bool \<Rightarrow> time \<Rightarrow> agent_instance \<Rightarrow> 'a \<Rightarrow> agent_registry \<Rightarrow> 'a registry_result" where
  "persist_agent wr now a r reg =
     (if wr then (upsert_agent_instance now a reg, Inr r) else (reg, Inl AgentPersistFailed))"

text \<open>The registered object, mutated in place.\<close>

definition put_agent :: "string \<Rightarrow> agent_instance \<Rightarrow> agent_registry \<Rightarrow> agent_registry" where
  "put_agent i a reg = reg\<lparr>reg_agents := AList.update i a (reg_agents reg)\<rparr>"

definition get_agent :: "agent_registry \<Rightarrow> string \<Rightarrow> agent_instance option" where
  "get_agent reg i = map_of (reg_agents reg) i"

definition agents :: "agent_registry \<Rightarrow> agent_instance list" where
  "agents reg = map snd (reg_agents reg)"

section \<open>Registration and queries\<close>

definition register_agent :: "bool \<Rightarrow> (nat \<Rightarrow> time) \<Rightarrow> agent_instance \<Rightarrow> agent_registry
    \<Rightarrow> agent_instance registry_result" where
  "register_agent wr clk a reg =
     (let a' = agent_heartbeat (clk 0) (clk 1) a
      in persist_agent wr (clk 2) a' a' (put_agent (ag_agent_id a') a' reg))"

definition or_str :: "string option \<Rightarrow> string \<Rightarrow> string" where
  "or_str s d = (case s of None \<Rightarrow> d | Some x \<Rightarrow> if x = [] then d else x)"

record agent_args =
  aa_profile_id :: string
  aa_name :: string
  aa_role :: string
  aa_team_id :: string
  aa_run_id :: string
  aa_description :: string
  aa_capabilities :: "string list"
  aa_checkpoint_namespace :: "string option"
  aa_workspace_root :: string
  aa_agent_id_override :: "string option"
  aa_session_id_override :: "string option"
  aa_thread_id_override :: "string option"
  aa_checkpoint_namespace_override :: "string option"
  aa_created_at_override :: "time option"
  aa_max_concurrency :: int
  aa_metadata :: pydict
  aa_worktree_path :: string
  aa_mailbox_cursor :: int

text \<open>\<open>gen_agent\<close>, \<open>gen_session\<close> and \<open>gen_thread\<close> are the ids \<open>make_agent_id\<close> and \<open>make_session_id\<close> draw.\<close>

definition create_agent :: "bool \<Rightarrow> (nat \<Rightarrow> time) \<Rightarrow> string \<Rightarrow> string \<Rightarrow> string \<Rightarrow> agent_args \<Rightarrow> agent_registry
    \<Rightarrow> agent_instance registry_result" where
  "create_agent wr clk gen_agent gen_session gen_thread s reg =
     (let a = \<lparr>ag_agent_id = or_str (aa_agent_id_override s) gen_agent,
            ag_team_id = aa_team_id s, ag_run_id = aa_run_id s, ag_profile_id = aa_profile_id s,
            ag_name = aa_name s, ag_role = aa_role s, ag_description = aa_description s,
            ag_session_id = or_str (aa_session_id_override s) gen_session,
            ag_thread_id = or_str (aa_thread_id_override s) gen_thread,
            ag_checkpoint_namespace = or_str (aa_checkpoint_namespace_override s)
              (or_str (aa_checkpoint_namespace s) (''agent:'' @ aa_name s @ '':'' @ aa_run_id s)),
            ag_status = Agent_IDLE, ag_current_task_id = None,
            ag_workspace_root = aa_workspace_root s, ag_worktree_path = aa_worktree_path s,
            ag_mailbox_cursor = aa_mailbox_cursor s, ag_last_heartbeat_at = None,
            ag_capabilities = aa_capabilities s, ag_metadata = aa_metadata s,
            ag_created_at = (case aa_created_at_override s of None \<Rightarrow> clk 3 | Some t \<Rightarrow> t),
            ag_updated_at = clk 4, ag_stopped_at = None, ag_max_concurrency = aa_max_concurrency s\<rparr>
      in register_agent wr clk a reg)"

definition agents_by_run :: "string \<Rightarrow> agent_registry \<Rightarrow> agent_instance list" where
  "agents_by_run r reg = filter (\<lambda>a. ag_run_id a = r) (agents reg)"

definition agents_by_team :: "string \<Rightarrow> agent_registry \<Rightarrow> agent_instance list" where
  "agents_by_team t reg = filter (\<lambda>a. ag_team_id a = t) (agents reg)"

definition agents_by_status :: "agent_status \<Rightarrow> agent_registry \<Rightarrow> agent_instance list" where
  "agents_by_status st reg = filter (\<lambda>a. ag_status a = st) (agents reg)"

definition find_by_capability :: "string \<Rightarrow> string option \<Rightarrow> agent_registry \<Rightarrow> agent_instance list" where
  "find_by_capability c rid reg =
     filter (\<lambda>a. c \<in> set (ag_capabilities a) \<and> (rid = None \<or> Some (ag_run_id a) = rid) \<and>
       (is_idle a \<or> can_work a)) (agents reg)"

definition find_idle :: "string \<Rightarrow> string list \<Rightarrow> agent_registry \<Rightarrow> agent_instance option" where
  "find_idle rid caps reg =
     List.find (\<lambda>a. ag_run_id a = rid \<and> ag_status a = Agent_IDLE \<and>
       (caps \<noteq> [] \<longrightarrow> set caps \<subseteq> set (ag_capabilities a))) (agents reg)"

section \<open>Reservation\<close>

definition PRIMARY_CAPS :: "string list" where
  "PRIMARY_CAPS = [''planning'', ''research'', ''coding'', ''testing'', ''reviewing'', ''summarization'']"

definition stripped_caps :: "string list \<Rightarrow> string list" where
  "stripped_caps caps = filter (\<lambda>c. c \<in> set PRIMARY_CAPS) caps"

definition use_caps_list :: "string list \<Rightarrow> string list list" where
  "use_caps_list caps =
     (let stripped = stripped_caps caps
      in if stripped \<noteq> [] \<and> set stripped \<noteq> set caps then [caps, stripped] else [caps])"

definition preferred_first :: "string option \<Rightarrow> agent_instance list \<Rightarrow> agent_instance list" where
  "preferred_first p xs =
     (case p of None \<Rightarrow> xs | Some i \<Rightarrow> if i = [] then xs else sort_key (\<lambda>a. ag_agent_id a \<noteq> i) xs)"

definition reservable :: "string \<Rightarrow> string list \<Rightarrow> agent_instance \<Rightarrow> bool" where
  "reservable rid caps a \<longleftrightarrow> ag_run_id a = rid \<and> ag_status a = Agent_IDLE \<and>
     set caps \<subseteq> set (ag_capabilities a) \<and> \<not> ag_max_concurrency a < 1 \<and>
     is_legal_agent_transition (ag_status a) Agent_CLAIMING"

fun find_reservable :: "string \<Rightarrow> string list list \<Rightarrow> agent_instance list \<Rightarrow> agent_instance option" where
  "find_reservable rid [] as = None"
| "find_reservable rid (caps # rest) as =
     (case List.find (reservable rid caps) as of Some a \<Rightarrow> Some a | None \<Rightarrow> find_reservable rid rest as)"

definition reserved :: "(nat \<Rightarrow> time) \<Rightarrow> string \<Rightarrow> agent_instance \<Rightarrow> agent_instance" where
  "reserved clk task a = agent_heartbeat (clk 2) (clk 3)
     ((fst (agent_update_status (clk 0) (clk 1) Agent_CLAIMING a))\<lparr>ag_current_task_id := Some task\<rparr>)"

definition reserve_idle_agent :: "bool \<Rightarrow> (nat \<Rightarrow> time) \<Rightarrow> string \<Rightarrow> string list \<Rightarrow> string \<Rightarrow> string option
    \<Rightarrow> agent_registry \<Rightarrow> agent_instance option registry_result" where
  "reserve_idle_agent wr clk rid caps task preferred reg =
     (case find_reservable rid (use_caps_list caps) (preferred_first preferred (agents reg)) of
        None \<Rightarrow> (reg, Inr None)
      | Some a \<Rightarrow>
          let a' = reserved clk task a
          in persist_agent wr (clk 4) a' (Some a') (put_agent (ag_agent_id a') a' reg))"

definition release_reservation :: "bool \<Rightarrow> (nat \<Rightarrow> time) \<Rightarrow> string \<Rightarrow> string option \<Rightarrow> agent_registry
    \<Rightarrow> bool registry_result" where
  "release_reservation wr clk i task reg =
     (case get_agent reg i of
        None \<Rightarrow> (reg, Inr False)
      | Some a \<Rightarrow>
          if task \<noteq> None \<and> task \<noteq> Some [] \<and> ag_current_task_id a \<noteq> task then (reg, Inr False)
          else if ag_status a \<notin> {Agent_CLAIMING, Agent_RUNNING, Agent_STOPPING} then (reg, Inr False)
          else let st = (if ag_status a = Agent_STOPPING then Agent_STOPPED else Agent_IDLE);
                   a1 = (fst (agent_update_status (clk 0) (clk 1) st a))\<lparr>ag_current_task_id := None\<rparr>;
                   a2 = agent_heartbeat (clk 2) (clk 3) a1
               in persist_agent wr (clk 4) a2 True (put_agent i a2 reg))"

definition transition :: "bool \<Rightarrow> (nat \<Rightarrow> time) \<Rightarrow> string \<Rightarrow> agent_status \<Rightarrow> agent_registry
    \<Rightarrow> bool registry_result" where
  "transition wr clk i st reg =
     (case get_agent reg i of
        None \<Rightarrow> (reg, Inr False)
      | Some a \<Rightarrow>
          (case agent_update_status (clk 0) (clk 1) st a of
             (a', ok) \<Rightarrow>
               if \<not> ok then (reg, Inr False)
               else persist_agent wr (clk 2) a' True (put_agent i a' reg)))"

section \<open>Leases and removal\<close>

text \<open>\<open>heartbeat\<close> and \<open>cleanup_expired\<close> log a failed write and go on.\<close>

definition persist_logged :: "bool \<Rightarrow> time \<Rightarrow> agent_instance \<Rightarrow> agent_registry \<Rightarrow> agent_registry" where
  "persist_logged wr now a reg = fst (persist_agent wr now a () reg)"

definition heartbeat :: "bool \<Rightarrow> (nat \<Rightarrow> time) \<Rightarrow> string \<Rightarrow> agent_registry \<Rightarrow> agent_registry \<times> bool" where
  "heartbeat wr clk i reg =
     (case get_agent reg i of
        None \<Rightarrow> (reg, False)
      | Some a \<Rightarrow>
          let a' = agent_heartbeat (clk 0) (clk 1) a
          in (persist_logged wr (clk 2) a' (put_agent i a' reg), True))"

definition lease_expired :: "time \<Rightarrow> int \<Rightarrow> agent_instance \<Rightarrow> bool" where
  "lease_expired now timeout a \<longleftrightarrow>
     (case ag_last_heartbeat_at a of
        None \<Rightarrow> False
      | Some t \<Rightarrow> ag_status a \<in> {Agent_CLAIMING, Agent_RUNNING, Agent_STOPPING} \<and>
          now - t > timeout * 1000000 \<and> is_alive a)"

text \<open>One iteration over the snapshot of the items; the objects are the registered ones.\<close>

fun reap :: "(string \<Rightarrow> bool) \<Rightarrow> (nat \<Rightarrow> time) \<Rightarrow> time \<Rightarrow> string list \<Rightarrow> agent_registry
    \<Rightarrow> agent_registry \<times> string list" where
  "reap wr clk now [] reg = (reg, [])"
| "reap wr clk now (i # is) reg =
     (case get_agent reg i of
        None \<Rightarrow> reap wr clk now is reg
      | Some a \<Rightarrow>
          if lease_expired now (reg_lease_timeout reg) a
          then let a' = fst (agent_update_status (clk 0) (clk 1) Agent_FAILED a);
                   (reg', expiry) = reap wr clk now is (persist_logged (wr i) (clk 2) a' (put_agent i a' reg))
               in (reg', i # expiry)
          else reap wr clk now is reg)"

definition cleanup_expired :: "(string \<Rightarrow> bool) \<Rightarrow> (nat \<Rightarrow> time) \<Rightarrow> time \<Rightarrow> agent_registry
    \<Rightarrow> agent_registry \<times> string list" where
  "cleanup_expired wr clk now reg = reap wr clk now (map fst (reg_agents reg)) reg"

text \<open>\<open>stop\<close>: a CLAIMING or RUNNING agent is left STOPPING for the scheduler to finalise.\<close>

definition stop :: "bool \<Rightarrow> (nat \<Rightarrow> time) \<Rightarrow> string \<Rightarrow> agent_registry \<Rightarrow> bool registry_result" where
  "stop wr clk i reg =
     (case get_agent reg i of
        None \<Rightarrow> (reg, Inr False)
      | Some a \<Rightarrow>
          if ag_status a = Agent_STOPPED then (reg, Inr False)
          else case agent_update_status (clk 0) (clk 1) Agent_STOPPING a of
                 (a1, ok1) \<Rightarrow>
                   if \<not> ok1 then (reg, Inr False)
                   else if ag_status a \<in> {Agent_CLAIMING, Agent_RUNNING}
                   then persist_agent wr (clk 4) a1 True (put_agent i a1 reg)
                   else case agent_update_status (clk 2) (clk 3) Agent_STOPPED a1 of
                          (a2, ok2) \<Rightarrow>
                            if \<not> ok2 then (put_agent i a1 reg, Inr False)
                            else persist_agent wr (clk 4) a2 True (put_agent i a2 reg))"

definition remove_agent :: "string \<Rightarrow> agent_registry \<Rightarrow> agent_registry \<times> bool" where
  "remove_agent i reg =
     (reg\<lparr>reg_agents := AList.delete i (reg_agents reg)\<rparr>, i \<in> set (map fst (reg_agents reg)))"

definition purge_agents :: "string \<Rightarrow> agent_registry \<Rightarrow> agent_registry \<times> nat" where
  "purge_agents rid reg =
     (let ids = map fst (filter (\<lambda>(_, a). ag_run_id a = rid) (reg_agents reg))
      in (fold (\<lambda>i g. g\<lparr>reg_agents := AList.delete i (reg_agents g)\<rparr>) ids reg, length ids))"

end
