(* ===== verification/Agent_Registry_Props.thy ===== *)
theory Agent_Registry_Props
  imports Agent_Registry Lifecycle
begin

text \<open>
  The agent registry: reservations are exclusive and find an agent when there is one, statuses follow the
  transition table whatever the registry does, the reaper fails exactly the expired active agents, and
  a release never revives a stopping agent.
\<close>

section \<open>Invariant and updates\<close>

definition wf_registry :: "agent_registry \<Rightarrow> bool" where
  "wf_registry reg \<longleftrightarrow> distinct (map fst (reg_agents reg)) \<and>
     (\<forall>(i, a) \<in> set (reg_agents reg). ag_agent_id a = i)"

lemma put_agent_fields [simp]:
  "reg_agents (put_agent i a reg) = AList.update i a (reg_agents reg)"
  "reg_rows (put_agent i a reg) = reg_rows reg"
  "reg_lease_timeout (put_agent i a reg) = reg_lease_timeout reg"
  by (simp_all add: put_agent_def)

lemma upsert_agent_fields [simp]:
  "reg_agents (upsert_agent_instance now a reg) = reg_agents reg"
  "reg_lease_timeout (upsert_agent_instance now a reg) = reg_lease_timeout reg"
  by (simp_all add: upsert_agent_instance_def Let_def)

lemma get_put_agent [simp]: "get_agent (put_agent i a reg) j = (if j = i then Some a else get_agent reg j)"
  by (simp add: get_agent_def)

lemma get_upsert_agent [simp]: "get_agent (upsert_agent_instance now a reg) = get_agent reg"
  by (simp add: get_agent_def fun_eq_iff)

lemma upsert_row:
  "\<exists>row. map_of (reg_rows (upsert_agent_instance now a reg)) (ag_agent_id a) = Some row \<and>
     ar_status row = ag_status a \<and> ar_current_task_id row = ag_current_task_id a \<and>
     ar_last_heartbeat_at row = ag_last_heartbeat_at a"
  by (simp add: upsert_agent_instance_def Let_def agent_row_of_def split: option.split)

lemma persist_agent_agents [simp]: "reg_agents (fst (persist_agent wr now a r reg)) = reg_agents reg"
  "reg_lease_timeout (fst (persist_agent wr now a r reg)) = reg_lease_timeout reg"
  by (simp_all add: persist_agent_def)

lemma get_persist_agent [simp]: "get_agent (fst (persist_agent wr now a r reg)) = get_agent reg"
  by (simp add: get_agent_def fun_eq_iff)

lemma persist_logged_simps [simp]:
  "reg_agents (persist_logged wr now a reg) = reg_agents reg"
  "reg_lease_timeout (persist_logged wr now a reg) = reg_lease_timeout reg"
  "get_agent (persist_logged wr now a reg) = get_agent reg"
  by (simp_all add: persist_logged_def)

lemma wf_registry_cong: "reg_agents reg' = reg_agents reg \<Longrightarrow> wf_registry reg' = wf_registry reg"
  by (simp add: wf_registry_def)

lemma wf_registry_persist [simp]:
  "wf_registry (fst (persist_agent wr now a r reg)) = wf_registry reg"
  "wf_registry (persist_logged wr now a reg) = wf_registry reg"
  by (rule wf_registry_cong, simp)+

lemma wf_registry_put: "wf_registry reg \<Longrightarrow> ag_agent_id a = i \<Longrightarrow> wf_registry (put_agent i a reg)"
proof -
  have "set (AList.update i a xs) \<subseteq> insert (i, a) (set xs)" for xs by (induction xs) auto
  then show "wf_registry reg \<Longrightarrow> ag_agent_id a = i \<Longrightarrow> wf_registry (put_agent i a reg)"
    by (fastforce simp: wf_registry_def intro: distinct_update)
qed

lemma wf_registry_get: "wf_registry reg \<Longrightarrow> get_agent reg i = Some a \<Longrightarrow> ag_agent_id a = i"
  by (auto simp: wf_registry_def get_agent_def dest!: map_of_SomeD)

lemma in_agents:
  assumes "wf_registry reg"
  shows "a \<in> set (agents reg) \<longleftrightarrow> get_agent reg (ag_agent_id a) = Some a"
proof
  assume "a \<in> set (agents reg)"
  then obtain i where i: "(i, a) \<in> set (reg_agents reg)" by (auto simp: agents_def)
  with assms have "ag_agent_id a = i" by (auto simp: wf_registry_def)
  with i assms show "get_agent reg (ag_agent_id a) = Some a"
    by (simp add: get_agent_def wf_registry_def)
next
  assume "get_agent reg (ag_agent_id a) = Some a"
  then show "a \<in> set (agents reg)"
    by (auto simp: get_agent_def agents_def dest!: map_of_SomeD intro!: image_eqI [of _ _ "(_, a)"])
qed

section \<open>The status machine\<close>

definition same_identity :: "agent_instance \<Rightarrow> agent_instance \<Rightarrow> bool" where
  "same_identity a a' \<longleftrightarrow> ag_agent_id a' = ag_agent_id a \<and> ag_run_id a' = ag_run_id a \<and>
     ag_session_id a' = ag_session_id a \<and> ag_capabilities a' = ag_capabilities a \<and>
     ag_max_concurrency a' = ag_max_concurrency a"

text \<open>One guarded move or none, possibly with a heartbeat and a change of task.\<close>

definition agent_moves :: "agent_instance \<Rightarrow> agent_instance \<Rightarrow> bool" where
  "agent_moves a a' \<longleftrightarrow> same_identity a a' \<and> is_legal_agent_transition\<^sup>*\<^sup>* (ag_status a) (ag_status a')"

lemma agent_moves_refl [simp]: "agent_moves a a"
  by (simp add: agent_moves_def same_identity_def)

lemma agent_moves_trans: "agent_moves a b \<Longrightarrow> agent_moves b c \<Longrightarrow> agent_moves a c"
  by (auto simp: agent_moves_def same_identity_def)

interpretation agent_life: lifecycle is_legal_agent_transition "\<lambda>a. Some (ag_status a)"
    "\<lambda>(t1, t2). agent_update_status t1 t2"
  by unfold_locales (auto simp: agent_update_status_def Let_def)

lemma update_status_moves: "agent_moves a (fst (agent_update_status t1 t2 st a))"
  by (auto simp: agent_moves_def same_identity_def agent_update_status_def Let_def)

lemma update_status_status:
  "ag_status (fst (agent_update_status t1 t2 st a)) =
     (if is_legal_agent_transition (ag_status a) st then st else ag_status a)"
  "snd (agent_update_status t1 t2 st a) = is_legal_agent_transition (ag_status a) st"
  by (simp_all add: agent_update_status_def Let_def)

lemma moves_heartbeat: "agent_moves a b \<Longrightarrow> agent_moves a (agent_heartbeat t1 t2 b)"
  by (simp add: agent_moves_def same_identity_def agent_heartbeat_def)

lemma moves_task: "agent_moves a b \<Longrightarrow> agent_moves a (b\<lparr>ag_current_task_id := t\<rparr>)"
  by (simp add: agent_moves_def same_identity_def)

lemmas moves_intros = moves_heartbeat moves_task update_status_moves agent_moves_trans [OF update_status_moves update_status_moves]

datatype registry_op =
    Reserve string "string list" string "string option"
  | Release string "string option"
  | Transition string agent_status
  | Heartbeat string
  | Cleanup time
  | Stop string

fun registry_exec :: "(string \<Rightarrow> bool) \<Rightarrow> (nat \<Rightarrow> time) \<Rightarrow> registry_op \<Rightarrow> agent_registry \<Rightarrow> agent_registry" where
  "registry_exec wr clk (Reserve rid caps task p) reg = fst (reserve_idle_agent (wr []) clk rid caps task p reg)"
| "registry_exec wr clk (Release i task) reg = fst (release_reservation (wr i) clk i task reg)"
| "registry_exec wr clk (Transition i st) reg = fst (transition (wr i) clk i st reg)"
| "registry_exec wr clk (Heartbeat i) reg = fst (heartbeat (wr i) clk i reg)"
| "registry_exec wr clk (Cleanup now) reg = fst (cleanup_expired wr clk now reg)"
| "registry_exec wr clk (Stop i) reg = fst (stop (wr i) clk i reg)"

text \<open>What every operation does to every agent.\<close>

definition registry_moves :: "agent_registry \<Rightarrow> agent_registry \<Rightarrow> bool" where
  "registry_moves reg reg' \<longleftrightarrow> wf_registry reg' \<and>
     (\<forall>i. rel_option agent_moves (get_agent reg i) (get_agent reg' i))"

lemma registry_moves_refl: "wf_registry reg \<Longrightarrow> registry_moves reg reg"
  by (simp add: registry_moves_def option.rel_refl)

lemma rel_option_moves_trans:
  "rel_option agent_moves x y \<Longrightarrow> rel_option agent_moves y z \<Longrightarrow> rel_option agent_moves x z"
  by (cases x; cases y; cases z) (auto intro: agent_moves_trans)

lemma registry_moves_trans: "registry_moves r1 r2 \<Longrightarrow> registry_moves r2 r3 \<Longrightarrow> registry_moves r1 r3"
  unfolding registry_moves_def by (blast intro: rel_option_moves_trans)

lemma registry_moves_put:
  assumes "wf_registry reg" "get_agent reg i = Some a" "agent_moves a a'"
  shows "registry_moves reg (put_agent i a' reg)"
proof -
  have "ag_agent_id a' = i"
    using assms(3) wf_registry_get [OF assms(1,2)] by (simp add: agent_moves_def same_identity_def)
  with assms show ?thesis
    by (auto simp: registry_moves_def wf_registry_put option.rel_refl)
qed

lemma registry_moves_persist [simp]:
  "registry_moves reg (fst (persist_agent wr now a r reg')) = registry_moves reg reg'"
  "registry_moves reg (persist_logged wr now a reg') = registry_moves reg reg'"
  by (simp_all add: registry_moves_def)

lemma find_Some: "List.find P xs = Some x \<Longrightarrow> x \<in> set xs \<and> P x"
  by (induction xs) (auto split: if_splits)

lemma set_preferred_first [simp]: "set (preferred_first p xs) = set xs"
  by (simp add: preferred_first_def split: option.split)

lemma find_reservable_Some:
  "find_reservable rid cs as = Some a \<Longrightarrow> a \<in> set as \<and> (\<exists>c \<in> set cs. reservable rid c a)"
  by (induction rid cs as rule: find_reservable.induct) (auto split: option.splits dest!: find_Some)

lemma find_reservable_None:
  "find_reservable rid cs as = None \<longleftrightarrow> (\<forall>a \<in> set as. \<forall>c \<in> set cs. \<not> reservable rid c a)"
  by (induction rid cs as rule: find_reservable.induct) (auto simp: find_None_iff split: option.splits dest!: find_Some)

lemma reserved_moves: "agent_moves a (reserved clk task a)"
  by (simp add: reserved_def moves_intros)

lemma reserve_moves:
  assumes "wf_registry reg"
  shows "registry_moves reg (fst (reserve_idle_agent wr clk rid caps task p reg))"
proof (cases "find_reservable rid (use_caps_list caps) (preferred_first p (agents reg))")
  case None
  then show ?thesis by (simp add: reserve_idle_agent_def registry_moves_refl assms)
next
  case (Some a)
  then have "get_agent reg (ag_agent_id a) = Some a"
    using find_reservable_Some [OF Some] in_agents [OF assms] by simp
  moreover have "ag_agent_id (reserved clk task a) = ag_agent_id a"
    using reserved_moves [of a clk task] by (simp add: agent_moves_def same_identity_def)
  ultimately show ?thesis
    using Some registry_moves_put [OF assms _ reserved_moves]
    by (simp add: reserve_idle_agent_def Let_def)
qed

lemma release_moves: "wf_registry reg \<Longrightarrow> registry_moves reg (fst (release_reservation wr clk i task reg))"
  by (auto simp: release_reservation_def Let_def registry_moves_refl moves_intros
      intro!: registry_moves_put split: option.split)

lemma transition_moves: "wf_registry reg \<Longrightarrow> registry_moves reg (fst (transition wr clk i st reg))"
  using update_status_moves [of _ "clk 0" "clk 1" st]
  by (auto simp: transition_def registry_moves_refl intro!: registry_moves_put split: option.split prod.split)
    (metis fst_conv)

lemma heartbeat_moves: "wf_registry reg \<Longrightarrow> registry_moves reg (fst (heartbeat wr clk i reg))"
  by (auto simp: heartbeat_def Let_def registry_moves_refl moves_intros intro!: registry_moves_put split: option.split)

lemma reap_moves: "wf_registry reg \<Longrightarrow> registry_moves reg (fst (reap wr clk now ids reg))"
proof (induction ids arbitrary: reg)
  case Nil
  then show ?case by (simp add: registry_moves_refl)
next
  case (Cons i ids)
  show ?case
  proof (cases "\<exists>a. get_agent reg i = Some a \<and> lease_expired now (reg_lease_timeout reg) a")
    case False
    with Cons show ?thesis by (auto split: option.split)
  next
    case True
    then obtain a where a: "get_agent reg i = Some a" "lease_expired now (reg_lease_timeout reg) a" by blast
    let ?a = "fst (agent_update_status (clk 0) (clk 1) Agent_FAILED a)"
    let ?r = "persist_logged (wr i) (clk 2) ?a (put_agent i ?a reg)"
    have m: "registry_moves reg ?r" using registry_moves_put [OF Cons.prems a(1) update_status_moves] by simp
    then have "registry_moves ?r (fst (reap wr clk now ids ?r))"
      by (intro Cons.IH) (simp add: registry_moves_def)
    with m have "registry_moves reg (fst (reap wr clk now ids ?r))" by (rule registry_moves_trans)
    with a show ?thesis by (simp add: Let_def case_prod_unfold)
  qed
qed

lemma stop_moves: "wf_registry reg \<Longrightarrow> registry_moves reg (fst (stop wr clk i reg))"
  by (auto simp: stop_def case_prod_unfold registry_moves_refl moves_intros intro!: registry_moves_put split: option.split)

lemma registry_exec_moves: "wf_registry reg \<Longrightarrow> registry_moves reg (registry_exec wr clk op reg)"
  by (cases op) (simp_all add: reserve_moves release_moves transition_moves heartbeat_moves cleanup_expired_def
      reap_moves stop_moves)

lemma registry_execs_moves:
  "wf_registry reg \<Longrightarrow> registry_moves reg (fold (\<lambda>(wr, clk, op). registry_exec wr clk op) ops reg)"
proof (induction ops arbitrary: reg)
  case Nil
  then show ?case by (simp add: registry_moves_refl)
next
  case (Cons op ops)
  obtain wr clk o' where op: "op = (wr, clk, o')" by (cases op)
  have m: "registry_moves reg (registry_exec wr clk o' reg)" using Cons.prems by (rule registry_exec_moves)
  then have "wf_registry (registry_exec wr clk o' reg)" by (simp add: registry_moves_def)
  from registry_moves_trans [OF m Cons.IH [OF this]] show ?case by (simp add: op)
qed

section \<open>Reservation\<close>

lemma reserved_fields:
  "reservable rid c a \<Longrightarrow> ag_status (reserved clk task a) = Agent_CLAIMING"
  "ag_current_task_id (reserved clk task a) = Some task"
  "ag_agent_id (reserved clk task a) = ag_agent_id a"
proof -
  show "ag_status (reserved clk task a) = Agent_CLAIMING" if "reservable rid c a"
    using that by (auto simp: reserved_def agent_heartbeat_def update_status_status reservable_def)
  show "ag_current_task_id (reserved clk task a) = Some task"
    by (simp add: reserved_def agent_heartbeat_def)
  show "ag_agent_id (reserved clk task a) = ag_agent_id a"
    using reserved_moves [of a clk task] by (simp add: agent_moves_def same_identity_def)
qed

lemma reserve_cases:
  assumes wf: "wf_registry reg" and res: "reserve_idle_agent wr clk rid caps task p reg = (reg', out)"
  obtains
    (none) "reg' = reg" "out = Inr None"
      "\<forall>a \<in> set (agents reg). \<forall>c \<in> set (use_caps_list caps). \<not> reservable rid c a"
  | (some) a c where "get_agent reg (ag_agent_id a) = Some a" "c \<in> set (use_caps_list caps)" "reservable rid c a"
      "find_reservable rid (use_caps_list caps) (preferred_first p (agents reg)) = Some a"
      "get_agent reg' = (get_agent reg)(ag_agent_id a \<mapsto> reserved clk task a)"
      "out = (if wr then Inr (Some (reserved clk task a)) else Inl AgentPersistFailed)"
      "wr \<longrightarrow> reg' = upsert_agent_instance (clk 4) (reserved clk task a) (put_agent (ag_agent_id a) (reserved clk task a) reg)"
proof (cases "find_reservable rid (use_caps_list caps) (preferred_first p (agents reg))")
  case None
  with res show thesis
    by (intro none) (simp_all add: reserve_idle_agent_def find_reservable_None)
next
  case (Some a)
  from find_reservable_Some [OF Some] obtain c where
    c: "c \<in> set (use_caps_list caps)" "reservable rid c a" and a: "get_agent reg (ag_agent_id a) = Some a"
    using in_agents [OF wf] by auto
  show thesis
    by (rule some [OF a c Some])
      (use res Some in \<open>auto simp: reserve_idle_agent_def Let_def reserved_fields persist_agent_def fun_eq_iff
        split: if_splits\<close>)
qed

type_synonym reserve_request =
  "bool \<times> (nat \<Rightarrow> time) \<times> string \<times> string list \<times> string \<times> string option"

text \<open>A run of reservations; the agents handed out.\<close>

fun reserve_all :: "reserve_request list \<Rightarrow> agent_registry \<Rightarrow> agent_instance list" where
  "reserve_all [] reg = []"
| "reserve_all ((wr, clk, rid, caps, task, p) # qs) reg =
     (case reserve_idle_agent wr clk rid caps task p reg of
        (reg', Inr (Some a)) \<Rightarrow> a # reserve_all qs reg'
      | (reg', _) \<Rightarrow> reserve_all qs reg')"

definition idle_agent :: "agent_registry \<Rightarrow> string \<Rightarrow> bool" where
  "idle_agent reg i \<longleftrightarrow> (\<exists>a. get_agent reg i = Some a \<and> ag_status a = Agent_IDLE)"

lemma reserve_all_ids:
  "wf_registry reg \<Longrightarrow> distinct (map ag_agent_id (reserve_all qs reg)) \<and>
     (\<forall>i \<in> set (map ag_agent_id (reserve_all qs reg)). idle_agent reg i)"
proof (induction qs arbitrary: reg)
  case Nil
  then show ?case by simp
next
  case (Cons q qs)
  obtain wr clk rid caps task p where q: "q = (wr, clk, rid, caps, task, p)" by (cases q)
  obtain reg' out where res: "reserve_idle_agent wr clk rid caps task p reg = (reg', out)" by force
  have wf': "wf_registry reg'"
    using reserve_moves [OF Cons.prems, of wr clk rid caps task p] res by (simp add: registry_moves_def)
  note ih = Cons.IH [OF wf']
  from Cons.prems res show ?case
  proof (cases rule: reserve_cases)
    case none
    with ih res show ?thesis by (simp add: q)
  next
    case (some a c)
    have busy: "\<not> idle_agent reg' (ag_agent_id a)"
      using some(3,5) by (simp add: idle_agent_def reserved_fields)
    have was_idle: "idle_agent reg i" if "idle_agent reg' i" for i
      using that some(3,5) by (auto simp: idle_agent_def reserved_fields split: if_splits)
    have a: "idle_agent reg (ag_agent_id a)" using some(1,3) by (simp add: idle_agent_def reservable_def)
    show ?thesis
    proof (cases wr)
      case True
      then have "reserve_all (q # qs) reg = reserved clk task a # reserve_all qs reg'"
        using res some(6) by (simp add: q)
      then show ?thesis using ih busy was_idle a by (auto simp: reserved_fields)
    next
      case False
      then have "reserve_all (q # qs) reg = reserve_all qs reg'" using res some(6) by (simp add: q)
      then show ?thesis using ih was_idle by auto
    qed
  qed
qed

text \<open>The preferred agent heads the search.\<close>

lemma preferred_head:
  assumes "b \<in> set as" "ag_agent_id b = p" "p \<noteq> []" "P b" "\<And>x. x \<in> set as \<Longrightarrow> ag_agent_id x = p \<Longrightarrow> x = b"
  shows "List.find P (preferred_first (Some p) as) = Some b"
proof -
  let ?k = "\<lambda>a. ag_agent_id a \<noteq> p"
  have b: "b \<in> set (sort_key ?k as)" using assms(1) by simp
  then obtain x xs where xs: "sort_key ?k as = x # xs" by (cases "sort_key ?k as") auto
  have "sorted (map ?k (x # xs))" using sorted_sort_key [of ?k as] by (simp only: xs)
  then have "?k x \<le> ?k b" using b xs by auto
  then have "ag_agent_id x = p" using assms(2) by simp
  moreover have "x \<in> set as" using xs by (metis list.set_intros(1) set_sort)
  ultimately have "x = b" using assms(5) by blast
  with xs assms(3,4) show ?thesis by (simp add: preferred_first_def)
qed

section \<open>Properties\<close>

definition demo_agent :: "string \<Rightarrow> agent_status \<Rightarrow> string list \<Rightarrow> agent_instance" where
  "demo_agent i st caps = \<lparr>ag_agent_id = i, ag_team_id = ''t'', ag_run_id = ''r'', ag_profile_id = ''p'',
     ag_name = i, ag_role = ''worker'', ag_description = [], ag_session_id = ''s'', ag_thread_id = ''s'',
     ag_checkpoint_namespace = ''c'', ag_status = st, ag_current_task_id = None, ag_workspace_root = [],
     ag_worktree_path = [], ag_mailbox_cursor = 0, ag_last_heartbeat_at = Some 0, ag_capabilities = caps,
     ag_metadata = [], ag_created_at = 0, ag_updated_at = 0, ag_stopped_at = None, ag_max_concurrency = 1\<rparr>"

definition demo_registry :: "agent_status \<Rightarrow> agent_registry" where
  "demo_registry st = \<lparr>reg_agents = [(''a'', demo_agent ''a'' Agent_IDLE [''coding'']),
     (''b'', demo_agent ''b'' st [''coding'', ''testing''])], reg_lease_timeout = 60, reg_rows = []\<rparr>"

lemma demo_registry_wf: "wf_registry (demo_registry st)"
  by (simp add: wf_registry_def demo_registry_def demo_agent_def)

text \<open>No two reservations of any series (any runs, capabilities, tasks and preferences, with writes
  failing at will) hand out the same agent, and each agent handed out was idle at the start.\<close>

theorem reservations_exclusive:
  assumes "wf_registry reg"
  shows "distinct (map ag_agent_id (reserve_all qs reg)) \<and>
    (\<forall>i \<in> set (map ag_agent_id (reserve_all qs reg)).
      \<exists>a. get_agent reg i = Some a \<and> ag_status a = Agent_IDLE)"
  using reserve_all_ids [OF assms, of qs] by (simp add: idle_agent_def)

theorem reservations_exclusive_witness:
  "map ag_agent_id (reserve_all (replicate 3 (True, int, ''r'', [''coding''], ''t'', Some ''b''))
     (demo_registry Agent_IDLE)) = [''b'', ''a''] \<and>
   distinct (map ag_agent_id (reserve_all (replicate 3 (True, int, ''r'', [''coding''], ''t'', Some ''b''))
     (demo_registry Agent_IDLE)))"
proof
  show "map ag_agent_id (reserve_all (replicate 3 (True, int, ''r'', [''coding''], ''t'', Some ''b''))
     (demo_registry Agent_IDLE)) = [''b'', ''a'']" by code_simp
  show "distinct (map ag_agent_id (reserve_all (replicate 3 (True, int, ''r'', [''coding''], ''t'', Some ''b''))
     (demo_registry Agent_IDLE)))"
    using reservations_exclusive [OF demo_registry_wf] by blast
qed

text \<open>With a working table \<open>reserve_idle_agent\<close> returns no agent exactly when no idle agent of the run has
  all required capabilities, nor (when other labels were mixed in) the primary ones among them; the agent
  it returns is one of those, now CLAIMING the task in memory and in its row, every other agent is
  untouched; and a preferred agent that has all capabilities is the one taken.\<close>

theorem reserve_idle_agent_correct:
  assumes "wf_registry reg" "reserve_idle_agent True clk rid caps task p reg = (reg', out)"
  shows "(out = Inr None \<longleftrightarrow> \<not> (\<exists>i a. get_agent reg i = Some a \<and>
        (\<exists>c \<in> set (use_caps_list caps). reservable rid c a))) \<and>
    (out = Inr None \<longrightarrow> reg' = reg) \<and>
    (\<forall>a'. out = Inr (Some a') \<longrightarrow>
      (\<exists>a. get_agent reg (ag_agent_id a') = Some a \<and> ag_status a = Agent_IDLE \<and> ag_run_id a = rid \<and>
         (set caps \<subseteq> set (ag_capabilities a) \<or> set (stripped_caps caps) \<subseteq> set (ag_capabilities a)) \<and>
         get_agent reg' = (get_agent reg)(ag_agent_id a' \<mapsto> a') \<and>
         ag_status a' = Agent_CLAIMING \<and> ag_current_task_id a' = Some task \<and>
         (\<exists>row. map_of (reg_rows reg') (ag_agent_id a') = Some row \<and> ar_status row = Agent_CLAIMING \<and>
            ar_current_task_id row = Some task)) \<and>
      (\<forall>i b. p = Some i \<and> i \<noteq> [] \<and> get_agent reg i = Some b \<and> reservable rid caps b \<longrightarrow> ag_agent_id a' = i))"
  using assms
proof (cases rule: reserve_cases)
  case none
  then show ?thesis
    using in_agents [OF assms(1)] wf_registry_get [OF assms(1)] by (auto simp: Ball_def)
next
  case (some a c)
  let ?a = "reserved clk task a"
  have caps: "set caps \<subseteq> set (ag_capabilities a) \<or> set (stripped_caps caps) \<subseteq> set (ag_capabilities a)"
    using some(2,3) by (auto simp: use_caps_list_def reservable_def Let_def split: if_splits)
  have row: "\<exists>row. map_of (reg_rows reg') (ag_agent_id ?a) = Some row \<and> ar_status row = Agent_CLAIMING \<and>
      ar_current_task_id row = Some task"
    using some(3,7) upsert_row [of "clk 4" ?a] by (simp add: reserved_fields) (metis reserved_fields)
  have pref: "ag_agent_id a = i"
    if "p = Some i" "i \<noteq> []" "get_agent reg i = Some b" "reservable rid caps b" for i b
  proof -
    have id: "ag_agent_id b = i" using wf_registry_get [OF assms(1) that(3)] .
    have "b \<in> set (agents reg)" using in_agents [OF assms(1)] that(3) id by simp
    then have "List.find (reservable rid caps) (preferred_first (Some i) (agents reg)) = Some b"
      using in_agents [OF assms(1)] that(2-4) id by (intro preferred_head) auto
    then have "find_reservable rid (use_caps_list caps) (preferred_first p (agents reg)) = Some b"
      using that(1) by (simp add: use_caps_list_def Let_def)
    with some(4) id show ?thesis by simp
  qed
  have ex: "\<exists>i a. get_agent reg i = Some a \<and> (\<exists>c \<in> set (use_caps_list caps). reservable rid c a)"
    using some(1-3) by blast
  have idle: "ag_status a = Agent_IDLE" "ag_run_id a = rid" using some(3) by (simp_all add: reservable_def)
  have out: "out = Inr (Some ?a)" using some(6) by simp
  have pref': "\<forall>i b. p = Some i \<and> i \<noteq> [] \<and> get_agent reg i = Some b \<and> reservable rid caps b \<longrightarrow> ag_agent_id a = i"
    using pref by blast
  show ?thesis
    unfolding out using some(1,5) ex caps row pref' idle reserved_fields(1) [OF some(3), of clk task]
    by (simp add: reserved_fields(2,3))
qed

theorem reserve_idle_agent_correct_witness:
  "\<exists>reg' a. reserve_idle_agent True int ''r'' [''testing'', ''config''] ''t1'' None (demo_registry Agent_IDLE)
     = (reg', Inr (Some a)) \<and> ag_agent_id a = ''b'' \<and> ag_status a = Agent_CLAIMING"
proof -
  let ?res = "reserve_idle_agent True int ''r'' [''testing'', ''config''] ''t1'' None (demo_registry Agent_IDLE)"
  obtain reg' out where res: "?res = (reg', out)" by force
  have "map_sum id (map_option ag_agent_id) (snd ?res) = Inr (Some ''b'')" by code_simp
  then obtain a where a: "out = Inr (Some a)" "ag_agent_id a = ''b''"
    using res by (cases out) auto
  with reserve_idle_agent_correct [OF demo_registry_wf res] res show ?thesis by blast
qed

text \<open>Whatever sequence of reservations, releases, transitions, heartbeats, reaps and stops runs, an agent
  keeps its identity and its status moves only along the transition table; STOPPED is final.\<close>

theorem agent_status_follows_table:
  assumes "wf_registry reg" "get_agent reg i = Some a"
  shows "\<exists>a'. get_agent (fold (\<lambda>(wr, clk, op). registry_exec wr clk op) ops reg) i = Some a' \<and>
    same_identity a a' \<and> is_legal_agent_transition\<^sup>*\<^sup>* (ag_status a) (ag_status a') \<and>
    (ag_status a = Agent_STOPPED \<longrightarrow> ag_status a' = Agent_STOPPED)"
proof -
  have "rel_option agent_moves (get_agent reg i)
      (get_agent (fold (\<lambda>(wr, clk, op). registry_exec wr clk op) ops reg) i)"
    using registry_execs_moves [OF assms(1), of ops] by (simp add: registry_moves_def)
  then obtain a' where a': "get_agent (fold (\<lambda>(wr, clk, op). registry_exec wr clk op) ops reg) i = Some a'"
    "agent_moves a a'" by (auto simp: assms(2) option_rel_Some1)
  have "ag_status a' = Agent_STOPPED" if "ag_status a = Agent_STOPPED"
    using a'(2) that by (auto simp: agent_moves_def is_legal_agent_transition_def elim: converse_rtranclpE)
  with a' show ?thesis by (auto simp: agent_moves_def)
qed

theorem agent_status_follows_table_witness:
  "\<exists>a'. get_agent (fold (\<lambda>(wr, clk, op). registry_exec wr clk op)
      [(\<lambda>_. True, int, Stop ''b''), (\<lambda>_. True, int, Release ''b'' None), (\<lambda>_. True, int, Transition ''b'' Agent_IDLE)]
      (demo_registry Agent_STOPPED)) ''b'' = Some a' \<and> ag_status a' = Agent_STOPPED"
proof -
  have "get_agent (demo_registry Agent_STOPPED) ''b'' = Some (demo_agent ''b'' Agent_STOPPED [''coding'', ''testing''])"
    by (simp add: get_agent_def demo_registry_def)
  from agent_status_follows_table [OF demo_registry_wf this, of "[(\<lambda>_. True, int, Stop ''b''),
      (\<lambda>_. True, int, Release ''b'' None), (\<lambda>_. True, int, Transition ''b'' Agent_IDLE)]"]
  have "ag_status (demo_agent ''b'' Agent_STOPPED [''coding'', ''testing'']) = Agent_STOPPED \<longrightarrow> ?thesis" by blast
  then show ?thesis by (simp only: demo_agent_def agent_instance.simps simp_thms)
qed

definition failed_agent :: "(nat \<Rightarrow> time) \<Rightarrow> agent_instance \<Rightarrow> agent_instance" where
  "failed_agent clk a = a\<lparr>ag_status := Agent_FAILED, ag_updated_at := clk 0, ag_stopped_at := Some (clk 1)\<rparr>"

lemma failed_agent_eq:
  "lease_expired now n a \<Longrightarrow> fst (agent_update_status (clk 0) (clk 1) Agent_FAILED a) = failed_agent clk a"
  by (auto simp: lease_expired_def agent_update_status_def is_legal_agent_transition_def failed_agent_def Let_def
      split: option.splits)

lemma reap_eq:
  "distinct ids \<Longrightarrow> reap wr clk now ids reg = (reg', expiry) \<Longrightarrow>
    (\<forall>i. get_agent reg' i = (case get_agent reg i of None \<Rightarrow> None | Some a \<Rightarrow>
       Some (if i \<in> set ids \<and> lease_expired now (reg_lease_timeout reg) a then failed_agent clk a else a))) \<and>
    expiry = filter (\<lambda>i. \<exists>a. get_agent reg i = Some a \<and> lease_expired now (reg_lease_timeout reg) a) ids"
proof (induction ids arbitrary: reg reg' expiry)
  case Nil
  then show ?case by (auto split: option.split)
next
  case (Cons i ids)
  show ?case
  proof (cases "\<exists>a. get_agent reg i = Some a \<and> lease_expired now (reg_lease_timeout reg) a")
    case False
    then have "reap wr clk now ids reg = (reg', expiry)" using Cons.prems(2) by (auto split: option.splits)
    with Cons.IH [of reg reg' expiry] Cons.prems(1) False show ?thesis by (auto split: option.splits)
  next
    case True
    then obtain a where a: "get_agent reg i = Some a" "lease_expired now (reg_lease_timeout reg) a" by blast
    let ?r = "persist_logged (wr i) (clk 2) (failed_agent clk a) (put_agent i (failed_agent clk a) reg)"
    obtain e where e: "reap wr clk now ids ?r = (reg', e)" "expiry = i # e"
      using Cons.prems(2) a failed_agent_eq [OF a(2)] by (auto simp: Let_def split: prod.splits)
    have same: "filter (\<lambda>j. \<exists>b. get_agent ?r j = Some b \<and> lease_expired now (reg_lease_timeout ?r) b) ids
        = filter (\<lambda>j. \<exists>b. get_agent reg j = Some b \<and> lease_expired now (reg_lease_timeout reg) b) ids"
      using Cons.prems(1) by (intro filter_cong) auto
    have ih: "(\<forall>j. get_agent reg' j = (case get_agent ?r j of None \<Rightarrow> None | Some b \<Rightarrow>
       Some (if j \<in> set ids \<and> lease_expired now (reg_lease_timeout ?r) b then failed_agent clk b else b)))"
      "e = filter (\<lambda>j. \<exists>b. get_agent reg j = Some b \<and> lease_expired now (reg_lease_timeout reg) b) ids"
      using Cons.IH [OF _ e(1)] Cons.prems(1) same by auto
    show ?thesis using ih a e(2) Cons.prems(1) by (auto split: option.split)
  qed
qed

text \<open>\<open>cleanup_expired\<close> marks FAILED exactly the CLAIMING, RUNNING or STOPPING agents whose last heartbeat
  is older than the lease, reports exactly their ids in registration order, and leaves every other agent
  (idle ones above all) alone, even when the table cannot be written.\<close>

theorem cleanup_reaps_expired_active_agents:
  assumes "wf_registry reg" "cleanup_expired wr clk now reg = (reg', expiry)"
  shows "(\<forall>i a. get_agent reg i = Some a \<longrightarrow>
      get_agent reg' i = Some (if i \<in> set expiry then failed_agent clk a else a) \<and>
      (i \<in> set expiry \<longleftrightarrow> ag_status a \<in> {Agent_CLAIMING, Agent_RUNNING, Agent_STOPPING} \<and>
         (\<exists>t. ag_last_heartbeat_at a = Some t \<and> now - t > reg_lease_timeout reg * 1000000))) \<and>
    (\<forall>i. get_agent reg i = None \<longrightarrow> get_agent reg' i = None) \<and>
    expiry = filter (\<lambda>i. i \<in> set expiry) (map fst (reg_agents reg))"
proof -
  have d: "distinct (map fst (reg_agents reg))" using assms(1) by (simp add: wf_registry_def)
  note eq = reap_eq [OF d assms(2) [unfolded cleanup_expired_def]]
  have mem: "i \<in> set (map fst (reg_agents reg))" if "get_agent reg i = Some a" for i a
    using that map_of_in_keys [of "reg_agents reg" i a] by (simp add: get_agent_def del: set_map)
  have exp: "lease_expired now (reg_lease_timeout reg) a \<longleftrightarrow>
      ag_status a \<in> {Agent_CLAIMING, Agent_RUNNING, Agent_STOPPING} \<and>
      (\<exists>t. ag_last_heartbeat_at a = Some t \<and> now - t > reg_lease_timeout reg * 1000000)" for a
    by (auto simp: lease_expired_def is_alive_def split: option.splits)
  have expiry: "i \<in> set expiry \<longleftrightarrow> lease_expired now (reg_lease_timeout reg) a" if "get_agent reg i = Some a" for i a
    using eq that mem [OF that] by (simp del: set_map)
  have "expiry = filter (\<lambda>i. i \<in> set expiry) (map fst (reg_agents reg))"
    unfolding conjunct2 [OF eq] by (intro filter_cong) auto
  moreover have "get_agent reg' i = Some (if i \<in> set expiry then failed_agent clk a else a)"
    if "get_agent reg i = Some a" for i a
    using eq that mem [OF that] expiry [OF that] by (simp del: set_map)
  ultimately show ?thesis using eq expiry exp by simp
qed

theorem cleanup_reaps_expired_active_agents_witness:
  "\<exists>reg'. cleanup_expired (\<lambda>_. False) int 60000001 (demo_registry Agent_RUNNING) = (reg', [''b'']) \<and>
    get_agent reg' ''a'' = Some (demo_agent ''a'' Agent_IDLE [''coding''])"
proof -
  let ?res = "cleanup_expired (\<lambda>_. False) int 60000001 (demo_registry Agent_RUNNING)"
  obtain reg' expiry where res: "?res = (reg', expiry)" by force
  have "snd ?res = [''b'']" by code_simp
  then have e: "expiry = [''b'']" using res by simp
  have "get_agent (demo_registry Agent_RUNNING) ''a'' = Some (demo_agent ''a'' Agent_IDLE [''coding''])"
    by (simp add: get_agent_def demo_registry_def)
  with cleanup_reaps_expired_active_agents [OF demo_registry_wf res] e res show ?thesis by auto
qed

end
