(* ===== verification/Run_Store.thy ===== *)
theory Run_Store
  imports Py_Prelude
begin

text \<open>
  \<open>app/infrastructure/database/run_store.py\<close>: the durable runs with their execution lease, the event log
  behind the SSE stream, task runs and permission rows. Each method runs in one SQLite transaction
  (\<open>BEGIN IMMEDIATE\<close>), so it is one step on the tables; a rolled-back transaction leaves them as they
  were. The tables are lists of rows in insertion order. JSON text is its value; \<open>PyTime\<close> is the text
  \<open>isoformat\<close> writes. \<open>redact_text\<close> (the regular expressions of \<open>app/memory/pii_filter.py\<close>), \<open>str\<close> on values
  that are no text and \<open>fromisoformat\<close> on values the store did not write are arguments.
\<close>

section \<open>Redaction of event payloads\<close>

definition SENSITIVE_EVENT_KEYS :: "string list" where
  "SENSITIVE_EVENT_KEYS = [''api_key'', ''apikey'', ''authorization'', ''cookie'', ''password'', ''passwd'',
     ''refresh_token'', ''secret'', ''set_cookie'', ''token'']"

definition normalized_key :: "string \<Rightarrow> string" where
  "normalized_key k = replace_char (CHR ''-'') (CHR ''_'') (lower (strip k))"

definition sensitive_key :: "string \<Rightarrow> bool" where
  "sensitive_key k \<longleftrightarrow> normalized_key k \<in> set SENSITIVE_EVENT_KEYS"

definition redacted :: pyval where
  "redacted = PyStr ''[REDACTED]''"

lemma size_in_list: "x \<in> set xs \<Longrightarrow> size x < Suc (size_list size xs)"
  by (induction xs) auto

lemma size_in_dict: "(k, x) \<in> set d \<Longrightarrow> size x < Suc (size_list (size_prod (\<lambda>x. 0) size) d)"
  by (induction d) auto

text \<open>
  \<open>_redact_event_payload\<close>. The key is \<open>None\<close> at the top and inside lists; a dictionary comprehension
  keeps the last of equal keys, and payload keys are already distinct.
\<close>

function (sequential) redact_event_payload :: "(string \<Rightarrow> string) \<Rightarrow> string option \<Rightarrow> pyval \<Rightarrow> pyval" where
  "redact_event_payload red key v =
     (if (case key of None \<Rightarrow> False | Some k \<Rightarrow> sensitive_key k) then redacted
      else case v of
             PyDict d \<Rightarrow> PyDict (map (\<lambda>(k, x). (k, redact_event_payload red (Some k) x)) d)
           | PyList xs \<Rightarrow> PyList (map (redact_event_payload red None) xs)
           | PyStr s \<Rightarrow> PyStr (red s)
           | _ \<Rightarrow> v)"
  by pat_completeness auto

termination
  by (relation "measure (\<lambda>(_, _, v). size v)") (auto simp: size_in_list size_in_dict)

declare redact_event_payload.simps [simp del]

text \<open>The key hides the value, or the value is walked.\<close>

definition hidden :: "string option \<Rightarrow> bool" where
  "hidden key \<longleftrightarrow> (case key of None \<Rightarrow> False | Some k \<Rightarrow> sensitive_key k)"

lemma redact_payload_simps [simp]:
  "hidden key \<Longrightarrow> redact_event_payload red key v = redacted"
  "\<not> hidden key \<Longrightarrow> redact_event_payload red key PyNone = PyNone"
  "\<not> hidden key \<Longrightarrow> redact_event_payload red key (PyBool b) = PyBool b"
  "\<not> hidden key \<Longrightarrow> redact_event_payload red key (PyInt i) = PyInt i"
  "\<not> hidden key \<Longrightarrow> redact_event_payload red key (PyFloat q) = PyFloat q"
  "\<not> hidden key \<Longrightarrow> redact_event_payload red key (PyTime t) = PyTime t"
  "\<not> hidden key \<Longrightarrow> redact_event_payload red key (PyStr s) = PyStr (red s)"
  "\<not> hidden key \<Longrightarrow> redact_event_payload red key (PyList xs) = PyList (map (redact_event_payload red None) xs)"
  "\<not> hidden key \<Longrightarrow> redact_event_payload red key (PyDict d) =
     PyDict (map (\<lambda>(k, x). (k, redact_event_payload red (Some k) x)) d)"
  by (subst redact_event_payload.simps, simp add: hidden_def)+

section \<open>The event log\<close>

record event_row =
  te_event_id :: string
  te_run_id :: string
  te_event_type :: string
  te_agent_id :: "string option"
  te_task_id :: "string option"
  te_task_run_id :: "string option"
  te_timestamp :: pyval
  te_trace_id :: "string option"
  te_payload :: pyval

record event_envelope =
  ev_event_id :: string
  ev_run_id :: string
  ev_agent_id :: "string option"
  ev_task_id :: "string option"
  ev_event_type :: string
  ev_sequence :: nat
  ev_timestamp :: pyval
  ev_payload :: pyval
  ev_trace_id :: "string option"
  ev_idempotency_key :: "string option"

record event_log =
  log_events :: "event_row list"          \<comment> \<open>\<open>team_events\<close>\<close>
  log_envelopes :: "event_envelope list"  \<comment> \<open>\<open>event_envelopes\<close>\<close>

datatype store_error = IntegrityError

definition run_envelopes :: "string \<Rightarrow> event_log \<Rightarrow> event_envelope list" where
  "run_envelopes r lg = filter (\<lambda>e. ev_run_id e = r) (log_envelopes lg)"

text \<open>\<open>COALESCE(MAX(sequence), 0)\<close>.\<close>

definition max_sequence :: "string \<Rightarrow> event_log \<Rightarrow> nat" where
  "max_sequence r lg = fold max (map ev_sequence (run_envelopes r lg)) 0"

text \<open>\<open>payload or {}\<close>.\<close>

definition given_payload :: "event_row \<Rightarrow> pyval" where
  "given_payload ev = (if truthy (te_payload ev) then te_payload ev else PyDict [])"

text \<open>\<open>_append_event_envelope\<close>; \<open>event_id\<close> is the primary key of both tables.\<close>

definition append_event_envelope :: "(string \<Rightarrow> string) \<Rightarrow> event_row \<Rightarrow> string option \<Rightarrow> event_log
    \<Rightarrow> event_log \<times> (store_error + nat)" where
  "append_event_envelope red ev key lg =
     (case (case key of None \<Rightarrow> None
            | Some k \<Rightarrow> List.find (\<lambda>e. ev_idempotency_key e = Some k) (log_envelopes lg)) of
        Some e \<Rightarrow> (lg, Inr (ev_sequence e))
      | None \<Rightarrow>
          if te_event_id ev \<in> set (map te_event_id (log_events lg))
            \<or> te_event_id ev \<in> set (map ev_event_id (log_envelopes lg))
          then (lg, Inl IntegrityError)
          else
            let safe = redact_event_payload red None (given_payload ev);
                sequence = max_sequence (te_run_id ev) lg + 1
            in (lg\<lparr>log_events := log_events lg @ [ev\<lparr>te_payload := safe\<rparr>],
                   log_envelopes := log_envelopes lg @
                     [\<lparr>ev_event_id = te_event_id ev, ev_run_id = te_run_id ev, ev_agent_id = te_agent_id ev,
                       ev_task_id = te_task_id ev, ev_event_type = te_event_type ev, ev_sequence = sequence,
                       ev_timestamp = te_timestamp ev, ev_payload = safe, ev_trace_id = te_trace_id ev,
                       ev_idempotency_key = key\<rparr>]\<rparr>, Inr sequence))"

text \<open>\<open>record_event\<close> outside any transaction of its caller.\<close>

definition record_event :: "(string \<Rightarrow> string) \<Rightarrow> event_row \<Rightarrow> string option \<Rightarrow> event_log
    \<Rightarrow> event_log \<times> (store_error + unit)" where
  "record_event red ev key lg =
     (case append_event_envelope red ev key lg of
        (lg', Inl e) \<Rightarrow> (lg, Inl e)
      | (lg', Inr _) \<Rightarrow> (lg', Inr ()))"

text \<open>\<open>list_event_envelopes\<close>: the page after a sequence number.\<close>

definition list_event_envelopes :: "string \<Rightarrow> nat \<Rightarrow> nat \<Rightarrow> event_log \<Rightarrow> event_envelope list" where
  "list_event_envelopes r after limit lg =
     take (min limit 2000) (sort_key ev_sequence (filter (\<lambda>e. after < ev_sequence e) (run_envelopes r lg)))"

definition event_envelope_stats :: "string \<Rightarrow> event_log \<Rightarrow> nat \<times> nat \<times> event_envelope option" where
  "event_envelope_stats r lg =
     (length (run_envelopes r lg), max_sequence r lg,
      (case rev (sort_key ev_sequence (run_envelopes r lg)) of [] \<Rightarrow> None | e # _ \<Rightarrow> Some e))"

text \<open>
  The readers in \<open>app/api/v1/router.py\<close>. \<open>generate\<close> of \<open>stream_events\<close> is a loop over reads of a log that others
  write to meanwhile: an element of the list is one turn, with the reading of the clock at the loop test, the log its
  query finds, and the reading after the query. The loop ends at the first test that is not before the deadline; one that
  runs out of turns is still open. The answer holds what each turn sends. The filters of the verification and error
  listings follow.
\<close>

datatype stream_chunk = Sent_event nat event_envelope | Sent_keepalive

record stream_state =
  ss_cursor :: nat
  ss_deadline :: seconds
  ss_next_keepalive :: seconds

definition stream_start :: "nat \<Rightarrow> seconds \<Rightarrow> stream_state" where
  "stream_start after now = \<lparr>ss_cursor = after, ss_deadline = now + 300, ss_next_keepalive = 0\<rparr>"

fun send_events :: "event_envelope list \<Rightarrow> nat \<Rightarrow> stream_chunk list \<times> nat" where
  "send_events [] cursor = ([], cursor)"
| "send_events (e # es) cursor =
     (let cursor' = max cursor (ev_sequence e); (sent, final) = send_events es cursor'
      in (Sent_event cursor' e # sent, final))"

definition stream_turn :: "string \<Rightarrow> event_log \<Rightarrow> seconds \<Rightarrow> stream_state \<Rightarrow> stream_chunk list \<times> stream_state" where
  "stream_turn r lg now s =
     (case list_event_envelopes r (ss_cursor s) 200 lg of
        [] \<Rightarrow> (if ss_next_keepalive s \<le> now then ([Sent_keepalive], s\<lparr>ss_next_keepalive := now + 15\<rparr>) else ([], s))
      | events \<Rightarrow> (let (sent, cursor) = send_events events (ss_cursor s) in (sent, s\<lparr>ss_deadline := now + 300, ss_cursor := cursor\<rparr>)))"

fun stream_events :: "string \<Rightarrow> (seconds \<times> event_log \<times> seconds) list \<Rightarrow> stream_state \<Rightarrow> stream_chunk list list \<times> stream_state" where
  "stream_events r [] s = ([], s)"
| "stream_events r ((test, lg, now) # turns) s =
     (if \<not> test < ss_deadline s then ([], s)
      else let (sent, s1) = stream_turn r lg now s; (rest, s2) = stream_events r turns s1 in (sent # rest, s2))"

definition list_verification :: "string \<Rightarrow> event_log \<Rightarrow> event_envelope list" where
  "list_verification r lg =
     filter (\<lambda>e. contains ''verification'' (lower (ev_event_type e)) \<or>
         ev_event_type e \<in> {''BeforeToolUse'', ''AfterToolUse''})
       (list_event_envelopes r 0 5000 lg)"

definition list_error_events :: "string \<Rightarrow> event_log \<Rightarrow> event_envelope list" where
  "list_error_events r lg =
     filter (\<lambda>e. list_ex (\<lambda>tok. contains tok (lower (ev_event_type e)))
         [''failed'', ''error'', ''conflict'', ''repair''])
       (list_event_envelopes r 0 5000 lg)"

section \<open>Runs and the execution lease\<close>

record team_run =
  tr_run_id :: string
  tr_goal :: string
  tr_team_id :: string
  tr_mode :: string
  tr_workspace_root :: string
  tr_status :: string
  tr_max_rounds :: int
  tr_review_required :: bool
  tr_metadata :: pydict
  tr_created_at :: time
  tr_updated_at :: time

type_synonym run_table = "(string \<times> team_run) list"

datatype lease_error = LeaseTypeError

definition save_team_run :: "time \<Rightarrow> team_run \<Rightarrow> run_table \<Rightarrow> run_table" where
  "save_team_run now run rows =
     (case map_of rows (tr_run_id run) of
        None \<Rightarrow> AList.update (tr_run_id run) (run\<lparr>tr_created_at := now, tr_updated_at := now\<rparr>) rows
      | Some old \<Rightarrow> AList.update (tr_run_id run) (old\<lparr>tr_status := tr_status run,
            tr_metadata := tr_metadata run, tr_updated_at := now\<rparr>) rows)"

definition get_team_run :: "string \<Rightarrow> run_table \<Rightarrow> team_run option" where
  "get_team_run r rows = map_of rows r"

definition update_team_run_status :: "time \<Rightarrow> string \<Rightarrow> string \<Rightarrow> run_table \<Rightarrow> run_table \<times> bool" where
  "update_team_run_status now r st rows =
     (case map_of rows r of
        None \<Rightarrow> (rows, False)
      | Some run \<Rightarrow> (AList.update r (run\<lparr>tr_status := st, tr_updated_at := now\<rparr>) rows, True))"

definition set_metadata :: "time \<Rightarrow> string \<Rightarrow> team_run \<Rightarrow> pydict \<Rightarrow> run_table \<Rightarrow> run_table" where
  "set_metadata now r run md rows =
     AList.update r (run\<lparr>tr_metadata := md, tr_updated_at := now\<rparr>) rows"

text \<open>\<open>d.get(key) or {}\<close> of a metadata value; anything that is no dictionary has no \<open>get\<close>.\<close>

definition lease_entry :: "pydict \<Rightarrow> lease_error + pydict" where
  "lease_entry md =
     (case map_of md ''execution_lease'' of
        None \<Rightarrow> Inr []
      | Some v \<Rightarrow> if \<not> truthy v then Inr []
                  else case v of PyDict d \<Rightarrow> Inr d | _ \<Rightarrow> Inl LeaseTypeError)"

text \<open>\<open>str(lease.get("lease_id") or "")\<close>.\<close>

definition lease_id_of :: "(pyval \<Rightarrow> string) \<Rightarrow> pydict \<Rightarrow> string" where
  "lease_id_of str lease =
     (case map_of lease ''lease_id'' of
        None \<Rightarrow> []
      | Some v \<Rightarrow> if \<not> truthy v then [] else case v of PyStr s \<Rightarrow> s | _ \<Rightarrow> str v)"

definition parse_lease_timestamp :: "(pyval \<Rightarrow> time option) \<Rightarrow> pyval option \<Rightarrow> time option" where
  "parse_lease_timestamp fromiso v =
     (case v of
        None \<Rightarrow> None
      | Some x \<Rightarrow> if \<not> truthy x then None else case x of PyTime t \<Rightarrow> Some t | _ \<Rightarrow> fromiso x)"

definition lease_ttl :: "seconds \<Rightarrow> int" where
  "lease_ttl ttl = micros (max 1 ttl)"

text \<open>The lease of somebody else that is still running.\<close>

definition foreign_lease :: "(pyval \<Rightarrow> string) \<Rightarrow> (pyval \<Rightarrow> time option) \<Rightarrow> time \<Rightarrow> string \<Rightarrow> pydict \<Rightarrow> bool" where
  "foreign_lease str fromiso now lid lease \<longleftrightarrow>
     lease_id_of str lease \<noteq> [] \<and> lease_id_of str lease \<noteq> lid \<and>
     (case parse_lease_timestamp fromiso (map_of lease ''expires_at'') of None \<Rightarrow> False | Some t \<Rightarrow> t > now)"

definition new_lease :: "time \<Rightarrow> seconds \<Rightarrow> string \<Rightarrow> pyval" where
  "new_lease now ttl lid = PyDict [(''lease_id'', PyStr lid), (''acquired_at'', PyTime now),
     (''heartbeat_at'', PyTime now), (''expires_at'', PyTime (now + lease_ttl ttl))]"

definition acquire_lease :: "(pyval \<Rightarrow> string) \<Rightarrow> (pyval \<Rightarrow> time option) \<Rightarrow> time \<Rightarrow> string \<Rightarrow> string \<Rightarrow> seconds
    \<Rightarrow> string list option \<Rightarrow> run_table \<Rightarrow> run_table \<times> (lease_error + team_run option)" where
  "acquire_lease str fromiso now r lid ttl allowed rows =
     (case map_of rows r of
        None \<Rightarrow> (rows, Inr None)
      | Some run \<Rightarrow>
          if (case allowed of None \<Rightarrow> False | Some sts \<Rightarrow> tr_status run \<notin> set sts) then (rows, Inr None)
          else case lease_entry (tr_metadata run) of
                 Inl e \<Rightarrow> (rows, Inl e)
               | Inr existing \<Rightarrow>
                   if foreign_lease str fromiso now lid existing then (rows, Inr None)
                   else let md = AList.update ''execution_lease'' (new_lease now ttl lid) (tr_metadata run)
                        in (set_metadata now r run md rows, Inr (Some (run\<lparr>tr_metadata := md\<rparr>))))"

definition refresh_lease :: "(pyval \<Rightarrow> string) \<Rightarrow> time \<Rightarrow> string \<Rightarrow> string \<Rightarrow> seconds \<Rightarrow> run_table
    \<Rightarrow> run_table \<times> (lease_error + bool)" where
  "refresh_lease str now r lid ttl rows =
     (case map_of rows r of
        None \<Rightarrow> (rows, Inr False)
      | Some run \<Rightarrow>
          (case lease_entry (tr_metadata run) of
             Inl e \<Rightarrow> (rows, Inl e)
           | Inr lease \<Rightarrow>
               if lease_id_of str lease \<noteq> lid then (rows, Inr False)
               else let lease' = AList.update ''expires_at'' (PyTime (now + lease_ttl ttl))
                          (AList.update ''heartbeat_at'' (PyTime now) lease)
                    in (set_metadata now r run
                          (AList.update ''execution_lease'' (PyDict lease') (tr_metadata run)) rows, Inr True)))"

definition release_lease :: "(pyval \<Rightarrow> string) \<Rightarrow> time \<Rightarrow> string \<Rightarrow> string \<Rightarrow> run_table
    \<Rightarrow> run_table \<times> (lease_error + bool)" where
  "release_lease str now r lid rows =
     (case map_of rows r of
        None \<Rightarrow> (rows, Inr False)
      | Some run \<Rightarrow>
          (case lease_entry (tr_metadata run) of
             Inl e \<Rightarrow> (rows, Inl e)
           | Inr lease \<Rightarrow>
               if lease_id_of str lease \<noteq> lid then (rows, Inr False)
               else (set_metadata now r run (AList.delete ''execution_lease'' (tr_metadata run)) rows, Inr True)))"

definition merge_team_run_metadata :: "time \<Rightarrow> string \<Rightarrow> pydict \<Rightarrow> run_table \<Rightarrow> run_table \<times> pydict option" where
  "merge_team_run_metadata now r updates rows =
     (case map_of rows r of
        None \<Rightarrow> (rows, None)
      | Some run \<Rightarrow>
          let md = fold (\<lambda>(k, v) d. AList.update k v d) updates (tr_metadata run)
          in (set_metadata now r run md rows, Some md))"

definition list_team_runs :: "nat \<Rightarrow> run_table \<Rightarrow> team_run list" where
  "list_team_runs limit rows = take limit (sort_key (\<lambda>t. - tr_updated_at t) (map snd rows))"

section \<open>Task runs\<close>

record task_run =
  tk_task_run_id :: string
  tk_task_id :: string
  tk_agent_id :: string
  tk_run_id :: string
  tk_attempt :: int
  tk_status :: string
  tk_checkpoint_id :: "string option"
  tk_artifact_ids :: "string list"
  tk_started_at :: time
  tk_finished_at :: "time option"
  tk_error :: "string option"
  tk_metadata :: pydict

definition insert_task_run :: "task_run \<Rightarrow> task_run list \<Rightarrow> store_error + task_run list" where
  "insert_task_run t rows =
     (if tk_task_run_id t \<in> set (map tk_task_run_id rows) then Inl IntegrityError else Inr (rows @ [t]))"

definition coalesce :: "'a option \<Rightarrow> 'a option \<Rightarrow> 'a option" where
  "coalesce a b = (case a of None \<Rightarrow> b | Some x \<Rightarrow> Some x)"

definition update_task_run_status :: "time \<Rightarrow> string \<Rightarrow> string \<Rightarrow> string option \<Rightarrow> string option
    \<Rightarrow> task_run list \<Rightarrow> task_run list \<times> bool" where
  "update_task_run_status now i st checkpoint error rows =
     (let finished = (if st \<in> {''succeeded'', ''failed'', ''cancelled''} then Some now else None)
      in (map (\<lambda>t. if tk_task_run_id t = i
               then t\<lparr>tk_status := st, tk_checkpoint_id := coalesce checkpoint (tk_checkpoint_id t),
                      tk_error := coalesce error (tk_error t),
                      tk_finished_at := coalesce finished (tk_finished_at t)\<rparr>
               else t) rows,
          i \<in> set (map tk_task_run_id rows)))"

end
