(* ===== verification/Run_Store_Props.thy ===== *)
theory Run_Store_Props
  imports Run_Store
begin

text \<open>
  The properties of the durable store: a running execution lease cannot be taken or dropped by anybody
  else, an expired one can be taken over; the events of a run are numbered without gaps and replayed
  completely; no stored payload holds a value under a sensitive key.
\<close>

section \<open>Redaction\<close>

text \<open>What is secret, spelled out: one of these words, blanks around it and case aside.\<close>

definition secret_name :: "string \<Rightarrow> bool" where
  "secret_name k \<longleftrightarrow> lower (strip k) \<in> {''api_key'', ''api-key'', ''apikey'', ''authorization'', ''cookie'', ''password'', ''passwd'',
     ''refresh_token'', ''refresh-token'', ''secret'', ''set_cookie'', ''set-cookie'', ''token''}"

definition plain_word :: "string \<Rightarrow> bool" where
  "plain_word w \<longleftrightarrow> CHR ''-'' \<notin> set w \<and> CHR ''_'' \<notin> set w"

lemma hyphened_plain: "plain_word w \<Longrightarrow> replace_char (CHR ''-'') (CHR ''_'') s = w \<longleftrightarrow> s = w"
proof (induction w arbitrary: s)
  case (Cons c w)
  from Cons.prems have c: "c \<noteq> CHR ''-''" "c \<noteq> CHR ''_''" "plain_word w" by (auto simp: plain_word_def)
  show ?case using Cons.IH [OF c(3), of "tl s"] c(1,2) by (cases s) (auto simp: replace_char_def)
qed (simp add: replace_char_def)

lemma hyphened_joined:
  "plain_word a \<Longrightarrow> plain_word b \<Longrightarrow> replace_char (CHR ''-'') (CHR ''_'') s = a @ CHR ''_'' # b \<longleftrightarrow>
    s = a @ CHR ''_'' # b \<or> s = a @ CHR ''-'' # b"
proof (induction a arbitrary: s)
  case Nil
  then show ?case using hyphened_plain [of b "tl s"] by (cases s) (auto simp: replace_char_def)
next
  case (Cons c a)
  from Cons.prems have c: "c \<noteq> CHR ''-''" "c \<noteq> CHR ''_''" "plain_word a" by (auto simp: plain_word_def)
  show ?case using Cons.IH [OF c(3) Cons.prems(2), of "tl s"] c(1,2) by (cases s) (auto simp: replace_char_def)
qed

lemmas hyphened_names = hyphened_joined [of "''api''" "''key''", simplified] hyphened_joined [of "''refresh''" "''token''", simplified]
  hyphened_joined [of "''set''" "''cookie''", simplified]

lemma plain_words [simp]: "plain_word ''api''" "plain_word ''key''" "plain_word ''refresh''" "plain_word ''token''" "plain_word ''set''"
    "plain_word ''cookie''" "plain_word ''apikey''" "plain_word ''authorization''" "plain_word ''password''" "plain_word ''passwd''" "plain_word ''secret''"
  by (simp_all add: plain_word_def)

lemma sensitive_is_secret: "sensitive_key k \<longleftrightarrow> secret_name k"
  by (simp only: sensitive_key_def secret_name_def normalized_key_def SENSITIVE_EVENT_KEYS_def list.set insert_iff empty_iff
      hyphened_names hyphened_plain plain_words) blast

function (sequential) clean_payload :: "string option \<Rightarrow> pyval \<Rightarrow> bool" where
  "clean_payload key v =
     (if (case key of None \<Rightarrow> False | Some k \<Rightarrow> secret_name k) then v = PyStr ''[REDACTED]''
      else case v of
             PyDict d \<Rightarrow> list_all (\<lambda>(k, x). clean_payload (Some k) x) d
           | PyList xs \<Rightarrow> list_all (clean_payload None) xs
           | _ \<Rightarrow> True)"
  by pat_completeness auto

termination
  by (relation "measure (\<lambda>(_, v). size v)") (auto simp: size_in_list size_in_dict)

declare clean_payload.simps [simp del]

lemma clean_payload_simps [simp]:
  "hidden key \<Longrightarrow> clean_payload key v \<longleftrightarrow> v = redacted"
  "\<not> hidden key \<Longrightarrow> clean_payload key PyNone"
  "\<not> hidden key \<Longrightarrow> clean_payload key (PyBool b)"
  "\<not> hidden key \<Longrightarrow> clean_payload key (PyInt i)"
  "\<not> hidden key \<Longrightarrow> clean_payload key (PyFloat q)"
  "\<not> hidden key \<Longrightarrow> clean_payload key (PyTime t)"
  "\<not> hidden key \<Longrightarrow> clean_payload key (PyStr s)"
  "\<not> hidden key \<Longrightarrow> clean_payload key (PyList xs) \<longleftrightarrow> (\<forall>x \<in> set xs. clean_payload None x)"
  "\<not> hidden key \<Longrightarrow> clean_payload key (PyDict d) \<longleftrightarrow> (\<forall>(k, x) \<in> set d. clean_payload (Some k) x)"
  by (subst clean_payload.simps, simp add: hidden_def list_all_iff redacted_def sensitive_is_secret split: option.splits)+

lemma clean_redact: "clean_payload key (redact_event_payload red key v)"
proof (induction v arbitrary: key)
  case (PyList xs)
  then show ?case by (cases "hidden key") auto
next
  case (PyDict d)
  then show ?case by (cases "hidden key") (fastforce simp: snds.simps)+
qed (case_tac "hidden key"; simp)+

section \<open>Sequence numbers\<close>

definition dense_log :: "event_log \<Rightarrow> bool" where
  "dense_log lg \<longleftrightarrow> (\<forall>r. map ev_sequence (run_envelopes r lg) = [1..<Suc (length (run_envelopes r lg))])"

definition keys_unique :: "event_log \<Rightarrow> bool" where
  "keys_unique lg \<longleftrightarrow> distinct (List.map_filter ev_idempotency_key (log_envelopes lg))"

definition log_ok :: "event_log \<Rightarrow> bool" where
  "log_ok lg \<longleftrightarrow> dense_log lg \<and> keys_unique lg \<and> distinct (map ev_event_id (log_envelopes lg)) \<and>
     (\<forall>e \<in> set (log_envelopes lg). clean_payload None (ev_payload e)) \<and> (\<forall>e \<in> set (log_events lg). clean_payload None (te_payload e))"

lemma fold_max_upt: "fold max [Suc 0..<Suc n] 0 = n"
  by (induction n) auto

lemma max_sequence_dense: "dense_log lg \<Longrightarrow> max_sequence r lg = length (run_envelopes r lg)"
  by (simp add: max_sequence_def dense_log_def fold_max_upt del: upt_Suc)

lemma map_filter_append: "List.map_filter f (xs @ ys) = List.map_filter f xs @ List.map_filter f ys"
  by (simp add: List.map_filter_def)

lemma in_map_filter: "y \<in> set (List.map_filter f xs) \<longleftrightarrow> (\<exists>x \<in> set xs. f x = Some y)"
  by (force simp: List.map_filter_def)

lemma append_cases:
  assumes "append_event_envelope red ev key lg = (lg', res)"
  obtains (known) k e where "key = Some k" "e \<in> set (log_envelopes lg)" "ev_idempotency_key e = Some k"
      "lg' = lg" "res = Inr (ev_sequence e)"
  | (failed) "lg' = lg" "res = Inl IntegrityError"
  | (added) e where "log_envelopes lg' = log_envelopes lg @ [e]" "ev_run_id e = te_run_id ev"
      "ev_sequence e = max_sequence (te_run_id ev) lg + 1" "ev_idempotency_key e = key"
      "ev_event_id e = te_event_id ev" "te_event_id ev \<notin> set (map ev_event_id (log_envelopes lg))"
      "ev_payload e = redact_event_payload red None (given_payload ev)"
      "log_events lg' = log_events lg @ [ev\<lparr>te_payload := redact_event_payload red None (given_payload ev)\<rparr>]" "res = Inr (ev_sequence e)"
      "\<forall>k. key = Some k \<longrightarrow> k \<notin> set (List.map_filter ev_idempotency_key (log_envelopes lg))"
proof (cases "case key of None \<Rightarrow> None | Some k \<Rightarrow> List.find (\<lambda>e. ev_idempotency_key e = Some k) (log_envelopes lg)")
  case (Some e)
  then obtain k where k: "key = Some k" "List.find (\<lambda>e. ev_idempotency_key e = Some k) (log_envelopes lg) = Some e"
    by (auto split: option.splits)
  then have "e \<in> set (log_envelopes lg) \<and> ev_idempotency_key e = Some k"
    by (auto simp: find_Some_iff)
  with assms Some k show thesis by (intro known) (auto simp: append_event_envelope_def)
next
  case None
  then have fresh: "\<forall>k. key = Some k \<longrightarrow> k \<notin> set (List.map_filter ev_idempotency_key (log_envelopes lg))"
    by (auto simp: find_None_iff in_map_filter)
  show thesis
  proof (cases "te_event_id ev \<in> set (map te_event_id (log_events lg)) \<or>
      te_event_id ev \<in> set (map ev_event_id (log_envelopes lg))")
    case True
    with assms None show thesis by (intro failed) (auto simp: append_event_envelope_def)
  next
    case False
    with assms None fresh show thesis
      by (intro added) (auto simp: append_event_envelope_def Let_def)
  qed
qed

lemma append_ok:
  assumes ok: "log_ok lg" and app: "append_event_envelope red ev key lg = (lg', res)"
  shows "log_ok lg' \<and> (\<exists>xs. log_envelopes lg' = log_envelopes lg @ xs)"
  using app
proof (cases rule: append_cases)
  case (known k e)
  with ok show ?thesis by simp
next
  case failed
  with ok show ?thesis by simp
next
  case (added e)
  have run: "run_envelopes r lg' = run_envelopes r lg @ (if r = te_run_id ev then [e] else [])" for r
    using added(1,2) by (simp add: run_envelopes_def)
  have "dense_log lg'"
    using ok added(3) max_sequence_dense [of lg] by (auto simp: dense_log_def log_ok_def run)
  moreover have "keys_unique lg'"
    using ok added(1,4,10) by (cases key) (auto simp: keys_unique_def log_ok_def map_filter_append List.map_filter_def)
  ultimately show ?thesis
    using ok added(1,5,6,7,8) clean_redact [of None red "given_payload ev"] by (auto simp: log_ok_def)
qed

lemma record_ok:
  "log_ok lg \<Longrightarrow> log_ok (fst (record_event red ev key lg)) \<and>
     (\<exists>xs. log_envelopes (fst (record_event red ev key lg)) = log_envelopes lg @ xs)"
  using append_ok [of lg red ev key] unfolding record_event_def
  by (cases "append_event_envelope red ev key lg") (auto split: sum.split)

definition empty_log :: event_log where
  "empty_log = \<lparr>log_events = [], log_envelopes = []\<rparr>"

lemma empty_log_ok: "log_ok empty_log"
  by (simp add: log_ok_def empty_log_def dense_log_def keys_unique_def run_envelopes_def List.map_filter_def)

definition record_all :: "(string \<Rightarrow> string) \<Rightarrow> (event_row \<times> string option) list \<Rightarrow> event_log \<Rightarrow> event_log" where
  "record_all red evs lg = fold (\<lambda>(ev, key) l. fst (record_event red ev key l)) evs lg"

lemma record_all_ok: "log_ok lg \<Longrightarrow> log_ok (record_all red evs lg)"
  by (induction evs arbitrary: lg) (auto simp: record_all_def record_ok)

section \<open>Paging\<close>

lemma dense_nth:
  assumes "dense_log lg" "i < length (run_envelopes r lg)"
  shows "ev_sequence (run_envelopes r lg ! i) = Suc i"
proof -
  have "map ev_sequence (run_envelopes r lg) ! i = [1..<Suc (length (run_envelopes r lg))] ! i"
    using assms(1) by (simp add: dense_log_def del: upt_Suc)
  with assms(2) show ?thesis by (simp del: upt_Suc)
qed

lemma filter_after:
  "map f xs = [Suc n..<Suc n + length xs] \<Longrightarrow> filter (\<lambda>x. a < f x) xs = drop (a - n) xs"
proof (induction xs arbitrary: n)
  case Nil
  then show ?case by simp
next
  case (Cons x xs)
  have m: "f x = Suc n" "map f xs = [Suc (Suc n)..<Suc (Suc n) + length xs]"
    using Cons.prems by (simp_all add: upt_conv_Cons del: upt_Suc)
  show ?case
  proof (cases "a < Suc n")
    case True
    then have "filter (\<lambda>x. a < f x) xs = drop (a - Suc n) xs" using Cons.IH [OF m(2)] by simp
    with True m(1) show ?thesis by simp
  next
    case False
    then have "a - n = Suc (a - Suc n)" by simp
    with Cons.IH [OF m(2)] False m(1) show ?thesis by simp
  qed
qed

lemma page_dense:
  assumes "dense_log lg"
  shows "list_event_envelopes r after limit lg = take (min limit 2000) (drop after (run_envelopes r lg))"
proof -
  have m: "map ev_sequence (run_envelopes r lg) = [Suc 0..<Suc 0 + length (run_envelopes r lg)]"
    using assms by (simp add: dense_log_def del: upt_Suc)
  have f: "filter (\<lambda>e. after < ev_sequence e) (run_envelopes r lg) = drop after (run_envelopes r lg)"
    using filter_after [OF m, of after] by simp
  have "sorted (map ev_sequence (drop after (run_envelopes r lg)))"
    using m by (simp add: drop_map [symmetric] sorted_wrt_drop del: upt_Suc)
  then have "sort_key ev_sequence (drop after (run_envelopes r lg)) = drop after (run_envelopes r lg)"
    by (rule sort_key_id_if_sorted)
  with f show ?thesis by (simp add: list_event_envelopes_def)
qed

text \<open>What a stream has sent: its events, each with the id the client sees.\<close>

definition sent_events :: "stream_chunk list \<Rightarrow> (nat \<times> event_envelope) list" where
  "sent_events cs = List.map_filter (\<lambda>c. case c of Sent_event i e \<Rightarrow> Some (i, e) | Sent_keepalive \<Rightarrow> None) cs"

lemma sent_events_simps [simp]: "sent_events [] = []" "sent_events (Sent_event i e # cs) = (i, e) # sent_events cs"
  "sent_events (Sent_keepalive # cs) = sent_events cs" "sent_events (xs @ ys) = sent_events xs @ sent_events ys"
  by (simp_all add: sent_events_def List.map_filter_def)

lemma send_events_dense:
  "map ev_sequence es = [Suc c..<Suc c + length es] \<Longrightarrow>
    sent_events (fst (send_events es c)) = map (\<lambda>e. (ev_sequence e, e)) es \<and> snd (send_events es c) = c + length es"
proof (induction es arbitrary: c)
  case (Cons e es)
  then have "ev_sequence e = Suc c" "map ev_sequence es = [Suc (Suc c)..<Suc (Suc c) + length es]"
    by (simp_all add: upt_conv_Cons del: upt_Suc)
  with Cons.IH [of "Suc c"] show ?case by (simp add: Let_def case_prod_beta del: upt_Suc)
qed simp

text \<open>One turn sends the next page and moves the cursor behind it, and the deadline moves only for a page that is not empty.\<close>

lemma stream_turn_dense:
  assumes "dense_log lg" "stream_turn r lg now s = (cs, s')"
  defines "page \<equiv> take 200 (drop (ss_cursor s) (run_envelopes r lg))"
  shows "sent_events cs = map (\<lambda>e. (ev_sequence e, e)) page \<and> ss_cursor s' = ss_cursor s + length page \<and>
    ss_deadline s' = (if page = [] then ss_deadline s else now + 300)"
proof -
  let ?xs = "run_envelopes r lg" and ?c = "ss_cursor s"
  have page: "list_event_envelopes r ?c 200 lg = page" by (simp add: page_dense [OF assms(1)] page_def)
  show ?thesis
  proof (cases "page = []")
    case True
    with assms(2) page show ?thesis by (auto simp: stream_turn_def split: if_splits)
  next
    case False
    then have c: "?c < length ?xs" by (auto simp: page_def)
    have "map ev_sequence page = [Suc ?c..<Suc ?c + length page]"
    proof (rule nth_equalityI)
      fix i assume i: "i < length (map ev_sequence page)"
      then have "?c + i < length ?xs" using c by (simp add: page_def) arith
      with i c show "map ev_sequence page ! i = [Suc ?c..<Suc ?c + length page] ! i"
        using dense_nth [OF assms(1), of "?c + i" r] by (simp add: page_def del: upt_Suc)
    qed (simp del: upt_Suc)
    from send_events_dense [OF this] False assms(2) page show ?thesis
      by (auto simp: stream_turn_def Let_def split: list.splits prod.splits)
  qed
qed

text \<open>Logs that only grow, by what is recorded.\<close>

definition grows :: "(string \<Rightarrow> string) \<Rightarrow> event_log list \<Rightarrow> bool" where
  "grows red lgs \<longleftrightarrow> sorted_wrt (\<lambda>a b. \<exists>evs. b = record_all red evs a) (empty_log # lgs)"

lemma record_all_extends: "log_ok lg \<Longrightarrow> \<exists>xs. run_envelopes r (record_all red evs lg) = run_envelopes r lg @ xs"
proof (induction evs arbitrary: lg)
  case Nil
  then show ?case by (simp add: record_all_def)
next
  case (Cons a evs)
  obtain ev k where a: "a = (ev, k)" by force
  from record_ok [OF Cons.prems, of red ev k] obtain ys where ys: "log_ok (fst (record_event red ev k lg))"
    "log_envelopes (fst (record_event red ev k lg)) = log_envelopes lg @ ys" by blast
  from Cons.IH [OF ys(1)] ys(2) show ?case by (auto simp: record_all_def a run_envelopes_def)
qed

definition growing_run :: "string \<Rightarrow> event_log list \<Rightarrow> bool" where
  "growing_run r lgs \<longleftrightarrow> (\<forall>lg \<in> set lgs. dense_log lg) \<and> sorted_wrt (\<lambda>a b. \<exists>xs. run_envelopes r b = run_envelopes r a @ xs) lgs"

lemma growing_run_Cons: "growing_run r (lg # lgs) \<longleftrightarrow> dense_log lg \<and>
    (\<forall>b \<in> set lgs. \<exists>xs. run_envelopes r b = run_envelopes r lg @ xs) \<and> growing_run r lgs"
  by (auto simp: growing_run_def)

lemma grows_run: assumes "grows red lgs" shows "growing_run r lgs"
proof -
  have ok: "log_ok lg" if "lg \<in> set lgs" for lg using assms that record_all_ok [OF empty_log_ok] by (auto simp: grows_def)
  have "sorted_wrt (\<lambda>a b. \<exists>evs. b = record_all red evs a) lgs" using assms by (simp add: grows_def)
  then have "sorted_wrt (\<lambda>a b. \<exists>xs. run_envelopes r b = run_envelopes r a @ xs) lgs"
    by (rule sorted_wrt_mono_rel [rotated]) (use ok record_all_extends in blast)
  with ok show ?thesis by (simp add: growing_run_def log_ok_def)
qed

lemma take_of_prefix: "ys = xs @ zs \<Longrightarrow> take n (drop c xs) = take (length (take n (drop c xs))) (drop c ys)"
  by (cases "c \<le> length xs") (auto simp: min_def)

lemma two_pages: "take m (drop c ys) @ take n (drop (c + m) ys) = take (m + n) (drop c ys)"
  by (simp add: take_add add.commute)

lemma page_sum:
  fixes a b c k n r :: nat
  assumes "min (b - (c + min (a - c) 200)) (200 * k) \<le> r" "a \<le> b"
  shows "min (a - c) (200 * Suc k) \<le> min (a - c) 200 + r"
proof (cases "a - c \<le> 200")
  case False
  then have "a - c - 200 \<le> b - (c + min (a - c) 200)" using assms(2) by simp
  then have "min (a - c - 200) (200 * k) \<le> r" using assms(1) by (auto simp: min_le_iff_disj)
  with False show ?thesis by (auto simp: min_le_iff_disj)
qed simp

lemma page_sum_later:
  fixes b c k p r :: nat
  assumes "min (b - (c + p)) k \<le> r"
  shows "min (b - c) k \<le> p + r"
  using assms by arith

text \<open>Over any turns: the events of the run after the cursor, in order, without a gap.\<close>

lemma stream_sends:
  assumes "stream_events r turns s = (css, s')" "growing_run r (map (\<lambda>t. fst (snd t)) turns)" "turns \<noteq> []"
  shows "\<exists>n. sent_events (concat css) =
      map (\<lambda>e. (ev_sequence e, e)) (take n (drop (ss_cursor s) (run_envelopes r (fst (snd (last turns)))))) \<and>
    n = length (sent_events (concat css)) \<and> ss_cursor s' = ss_cursor s + n"
  using assms
proof (induction turns arbitrary: s css s')
  case (Cons turn turns)
  obtain test lg now where t: "turn = (test, lg, now)" by (cases turn) auto
  show ?case
  proof (cases "test < ss_deadline s")
    case False
    with Cons.prems(1) show ?thesis by (auto simp: t)
  next
    case True
    obtain cs s1 where turn: "stream_turn r lg now s = (cs, s1)" by force
    obtain rest where rest: "stream_events r turns s1 = (rest, s')" "css = cs # rest"
      using Cons.prems(1) True by (auto simp: t turn Let_def split: prod.splits)
    let ?L = "fst (snd (last (turn # turns)))" and ?c = "ss_cursor s"
    let ?page = "take 200 (drop ?c (run_envelopes r lg))"
    have grow: "dense_log lg" "growing_run r (map (\<lambda>t. fst (snd t)) turns)"
      and ext: "\<forall>b \<in> set (map (\<lambda>t. fst (snd t)) turns). \<exists>xs. run_envelopes r b = run_envelopes r lg @ xs"
      using Cons.prems(2) by (simp_all add: t growing_run_Cons)
    have L: "\<exists>xs. run_envelopes r ?L = run_envelopes r lg @ xs"
      using ext by (cases "turns = []") (auto simp: t)
    note one = stream_turn_dense [OF grow(1) turn]
    have page: "?page = take (length ?page) (drop ?c (run_envelopes r ?L))" using L take_of_prefix by blast
    obtain n where n: "sent_events (concat rest) = map (\<lambda>e. (ev_sequence e, e)) (take n (drop (?c + length ?page) (run_envelopes r ?L)))"
      "n = length (sent_events (concat rest))" "ss_cursor s' = ?c + length ?page + n"
    proof (cases "turns = []")
      case True
      with rest(1) one that [of 0] show ?thesis by simp
    next
      case False
      with Cons.IH [OF rest(1) grow(2) False] one that show ?thesis by (auto simp: add.commute)
    qed
    have "?page @ take n (drop (?c + length ?page) (run_envelopes r ?L)) = take (length ?page + n) (drop ?c (run_envelopes r ?L))"
      using arg_cong [OF page, of "\<lambda>l. l @ take n (drop (?c + length ?page) (run_envelopes r ?L))"] unfolding two_pages .
    then have "map (\<lambda>e. (ev_sequence e, e)) ?page @ sent_events (concat rest) =
        map (\<lambda>e. (ev_sequence e, e)) (take (length ?page + n) (drop ?c (run_envelopes r ?L)))"
      unfolding n(1) map_append [symmetric] by (rule arg_cong)
    moreover have "sent_events (concat css) = map (\<lambda>e. (ev_sequence e, e)) ?page @ sent_events (concat rest)" using one rest(2) by simp
    moreover have "length ?page + n = length (sent_events (concat css))" using calculation(2) n(2) by simp
    moreover have "ss_cursor s' = ?c + (length ?page + n)" using n(3) by simp
    ultimately show ?thesis by (intro exI [of _ "length ?page + n"]) simp
  qed
qed simp

text \<open>An event that was there at a turn has gone out after as many turns as there are pages up to it.\<close>

lemma stream_keeps_up:
  assumes "stream_events r turns s = (css, s')" "growing_run r (map (\<lambda>t. fst (snd t)) turns)" "length css = length turns" "i < length turns"
  shows "min (length (run_envelopes r (fst (snd (turns ! i)))) - ss_cursor s) (200 * (length turns - i)) \<le> length (sent_events (concat css))"
  using assms
proof (induction turns arbitrary: s css s' i)
  case (Cons turn turns)
  obtain test lg now where t: "turn = (test, lg, now)" by (cases turn) auto
  have open_turn: "test < ss_deadline s" using Cons.prems(1,3) by (auto simp: t split: if_splits)
  obtain cs s1 where turn: "stream_turn r lg now s = (cs, s1)" by force
  obtain rest where rest: "stream_events r turns s1 = (rest, s')" "css = cs # rest"
    using Cons.prems(1) open_turn by (auto simp: t turn Let_def split: prod.splits)
  have grow: "dense_log lg" "growing_run r (map (\<lambda>t. fst (snd t)) turns)"
    and ext: "\<forall>b \<in> set (map (\<lambda>t. fst (snd t)) turns). \<exists>xs. run_envelopes r b = run_envelopes r lg @ xs"
    using Cons.prems(2) by (simp_all add: t growing_run_Cons)
  let ?page = "take 200 (drop (ss_cursor s) (run_envelopes r lg))"
  note one = stream_turn_dense [OF grow(1) turn]
  have sent: "length (sent_events (concat css)) = length ?page + length (sent_events (concat rest))" using one rest(2) by simp
  have later: "min (length (run_envelopes r (fst (snd (turns ! j)))) - (ss_cursor s + length ?page)) (200 * (length turns - j))
      \<le> length (sent_events (concat rest))" if "j < length turns" for j
    using Cons.IH [OF rest(1) grow(2) _ that] Cons.prems(3) rest(2) one by simp
  show ?case
  proof (cases i)
    case 0
    show ?thesis
    proof (cases "turns = []")
      case True
      then show ?thesis using 0 sent by (simp add: t)
    next
      case False
      then have "turns ! 0 \<in> set turns" by simp
      then have "length (run_envelopes r lg) \<le> length (run_envelopes r (fst (snd (turns ! 0))))" using ext by fastforce
      from page_sum [OF _ this] later [of 0] False 0 sent show ?thesis by (simp add: t)
    qed
  next
    case (Suc j)
    then show ?thesis using page_sum_later [OF later [of j]] Cons.prems(4) sent by simp
  qed
qed simp

text \<open>It ends only when nothing has come for five minutes.\<close>

lemma stream_ends:
  assumes "stream_events r turns s = (css, s')" "growing_run r (map (\<lambda>t. fst (snd t)) turns)" "length css < length turns"
  shows "ss_deadline s' \<le> fst (turns ! length css) \<and> (ss_deadline s' = ss_deadline s \<or> (\<exists>i < length css. ss_deadline s' = snd (snd (turns ! i)) + 300)) \<and>
    (\<forall>i < length css. sent_events (css ! i) \<noteq> [] \<longrightarrow> (\<exists>j. i \<le> j \<and> j < length css \<and> ss_deadline s' = snd (snd (turns ! j)) + 300))"
  using assms
proof (induction turns arbitrary: s css s')
  case (Cons turn turns)
  obtain test lg now where t: "turn = (test, lg, now)" by (cases turn) auto
  show ?case
  proof (cases "test < ss_deadline s")
    case False
    with Cons.prems(1) show ?thesis by (auto simp: t)
  next
    case True
    obtain cs s1 where turn: "stream_turn r lg now s = (cs, s1)" by force
    obtain rest where rest: "stream_events r turns s1 = (rest, s')" "css = cs # rest"
      using Cons.prems(1) True by (auto simp: t turn Let_def split: prod.splits)
    have grow: "dense_log lg" "growing_run r (map (\<lambda>t. fst (snd t)) turns)" using Cons.prems(2) by (simp_all add: t growing_run_Cons)
    note one = stream_turn_dense [OF grow(1) turn]
    have len: "length rest < length turns" using Cons.prems(3) rest(2) by simp
    note IH = Cons.IH [OF rest(1) grow(2) len]
    have d: "ss_deadline s1 = (if sent_events cs = [] then ss_deadline s else now + 300)" using one by simp
    have here: "ss_deadline s' = ss_deadline s1 \<or> (\<exists>j < length rest. ss_deadline s' = snd (snd (turns ! j)) + 300)" using IH by blast
    have lift: "\<exists>i < length css. ss_deadline s' = snd (snd ((turn # turns) ! i)) + 300" if "j < length rest" "ss_deadline s' = snd (snd (turns ! j)) + 300" for j
      using that rest(2) by (intro exI [of _ "Suc j"]) simp
    have "\<exists>j. i \<le> j \<and> j < length css \<and> ss_deadline s' = snd (snd ((turn # turns) ! j)) + 300"
      if i: "i < length css" "sent_events (css ! i) \<noteq> []" for i
    proof (cases i)
      case 0
      then have "sent_events cs \<noteq> []" using i(2) rest(2) by simp
      then have "ss_deadline s1 = now + 300" using d by simp
      then have now: "ss_deadline s1 = snd (snd ((turn # turns) ! 0)) + 300" by (simp add: t)
      from here show ?thesis
      proof (elim disjE exE conjE)
        assume "ss_deadline s' = ss_deadline s1"
        with now 0 i(1) show ?thesis by (intro exI [of _ 0]) simp
      next
        fix j assume "j < length rest" "ss_deadline s' = snd (snd (turns ! j)) + 300"
        from lift [OF this] 0 show ?thesis by simp
      qed
    next
      case (Suc k)
      with i rest(2) IH obtain j where "k \<le> j" "j < length rest" "ss_deadline s' = snd (snd (turns ! j)) + 300" by auto
      then show ?thesis using Suc rest(2) by (intro exI [of _ "Suc j"]) simp
    qed
    moreover have "ss_deadline s' = ss_deadline s \<or> (\<exists>i < length css. ss_deadline s' = snd (snd ((turn # turns) ! i)) + 300)"
    proof -
      have "0 < length css" using rest(2) by simp
      moreover have "ss_deadline s1 = ss_deadline s \<or> ss_deadline s1 = snd (snd ((turn # turns) ! 0)) + 300" using d by (simp add: t)
      ultimately have first: "ss_deadline s1 = ss_deadline s \<or> (\<exists>i < length css. ss_deadline s1 = snd (snd ((turn # turns) ! i)) + 300)" by blast
      from here show ?thesis
      proof (elim disjE exE conjE)
        assume "ss_deadline s' = ss_deadline s1"
        with first show ?thesis by simp
      next
        fix j assume "j < length rest" "ss_deadline s' = snd (snd (turns ! j)) + 300"
        from lift [OF this] show ?thesis by simp
      qed
    qed
    ultimately show ?thesis using IH rest(2) by simp
  qed
qed simp

text \<open>A listing that asks for 5000 events sees at most the first 2000 of the run.\<close>

lemma error_listing_bound:
  assumes "dense_log lg" "e \<in> set (list_error_events r lg)"
  shows "ev_sequence e \<le> 2000"
proof -
  have "e \<in> set (take 2000 (run_envelopes r lg))"
    using assms(2) by (simp add: list_error_events_def page_dense [OF assms(1)])
  then obtain i where "i < 2000" "i < length (run_envelopes r lg)" "e = run_envelopes r lg ! i"
    by (auto simp: in_set_conv_nth)
  then show ?thesis using dense_nth [OF assms(1)] by simp
qed

section \<open>The lease\<close>

text \<open>Run \<open>r\<close> has the lease \<open>lid\<close>, running until \<open>t\<close>.\<close>

definition leased :: "(pyval \<Rightarrow> string) \<Rightarrow> (pyval \<Rightarrow> time option) \<Rightarrow> run_table \<Rightarrow> string \<Rightarrow> string \<Rightarrow> time \<Rightarrow> bool" where
  "leased str fromiso rows r lid t \<longleftrightarrow> (\<exists>run lease. map_of rows r = Some run \<and>
     lease_entry (tr_metadata run) = Inr lease \<and> lease_id_of str lease = lid \<and>
     parse_lease_timestamp fromiso (map_of lease ''expires_at'') = Some t)"

datatype run_op =
    Acquire string seconds "string list option"
  | Refresh string seconds
  | Release_lease string
  | Merge pydict
  | Set_status string

text \<open>An operation on run \<open>r\<close>, and whether a lease call granted what it was asked for.\<close>

fun run_exec :: "(pyval \<Rightarrow> string) \<Rightarrow> (pyval \<Rightarrow> time option) \<Rightarrow> string \<Rightarrow> time \<Rightarrow> run_op \<Rightarrow> run_table
    \<Rightarrow> run_table \<times> bool" where
  "run_exec str fromiso r now (Acquire lid ttl allowed) rows =
     (case acquire_lease str fromiso now r lid ttl allowed rows of (rows', Inr (Some _)) \<Rightarrow> (rows', True) | (rows', _) \<Rightarrow> (rows', False))"
| "run_exec str fromiso r now (Refresh lid ttl) rows =
     (case refresh_lease str now r lid ttl rows of (rows', Inr ok) \<Rightarrow> (rows', ok) | (rows', _) \<Rightarrow> (rows', False))"
| "run_exec str fromiso r now (Release_lease lid) rows =
     (case release_lease str now r lid rows of (rows', Inr ok) \<Rightarrow> (rows', ok) | (rows', _) \<Rightarrow> (rows', False))"
| "run_exec str fromiso r now (Merge updates) rows = (fst (merge_team_run_metadata now r updates rows), False)"
| "run_exec str fromiso r now (Set_status st) rows = (fst (update_team_run_status now r st rows), False)"

text \<open>An operation of somebody who is not \<open>lid\<close>.\<close>

fun foreign_op :: "string \<Rightarrow> run_op \<Rightarrow> bool" where
  "foreign_op lid (Acquire l _ _) = (l \<noteq> lid)"
| "foreign_op lid (Refresh l _) = (l \<noteq> lid)"
| "foreign_op lid (Release_lease l) = (l \<noteq> lid)"
| "foreign_op lid (Merge updates) = (''execution_lease'' \<notin> set (map fst updates))"
| "foreign_op lid (Set_status st) = True"

lemma fold_update_other:
  "k \<notin> set (map fst us) \<Longrightarrow> map_of (fold (\<lambda>(k, v) d. AList.update k v d) us d) k = map_of d k"
  by (induction us arbitrary: d) auto

lemma foreign_op_harmless:
  assumes "leased str fromiso rows r lid t" "lid \<noteq> []" "now < t" "foreign_op lid op"
  shows "leased str fromiso (fst (run_exec str fromiso r now op rows)) r lid t \<and>
    \<not> snd (run_exec str fromiso r now op rows)"
proof -
  obtain run lease where L: "map_of rows r = Some run" "lease_entry (tr_metadata run) = Inr lease"
    "lease_id_of str lease = lid" "parse_lease_timestamp fromiso (map_of lease ''expires_at'') = Some t"
    using assms(1) by (auto simp: leased_def)
  show ?thesis
  proof (cases op)
    case (Acquire l ttl allowed)
    with assms(2-4) L have "foreign_lease str fromiso now l lease" by (simp add: foreign_lease_def)
    with assms(1) L Acquire show ?thesis by (simp add: acquire_lease_def)
  next
    case (Refresh l ttl)
    with assms L show ?thesis by (simp add: refresh_lease_def)
  next
    case (Release_lease l)
    with assms L show ?thesis by (simp add: release_lease_def)
  next
    case (Merge us)
    then have "map_of (fold (\<lambda>(k, v) d. AList.update k v d) us (tr_metadata run)) ''execution_lease''
        = map_of (tr_metadata run) ''execution_lease''"
      using assms(4) by (intro fold_update_other) simp
    then have "lease_entry (fold (\<lambda>(k, v) d. AList.update k v d) us (tr_metadata run)) = Inr lease"
      using L(2) by (simp add: lease_entry_def)
    with L Merge show ?thesis by (simp add: merge_team_run_metadata_def set_metadata_def Let_def leased_def)
  next
    case (Set_status st)
    with L show ?thesis by (simp add: update_team_run_status_def leased_def)
  qed
qed

fun run_execs :: "(pyval \<Rightarrow> string) \<Rightarrow> (pyval \<Rightarrow> time option) \<Rightarrow> string \<Rightarrow> (time \<times> run_op) list \<Rightarrow> run_table
    \<Rightarrow> run_table \<times> bool list" where
  "run_execs str fromiso r [] rows = (rows, [])"
| "run_execs str fromiso r ((now, op) # ops) rows =
     (let (rows1, ok) = run_exec str fromiso r now op rows;
          (rows2, oks) = run_execs str fromiso r ops rows1
      in (rows2, ok # oks))"

lemma foreign_ops_harmless:
  "leased str fromiso rows r lid t \<Longrightarrow> lid \<noteq> [] \<Longrightarrow> \<forall>(now, op) \<in> set ops. now < t \<and> foreign_op lid op \<Longrightarrow>
     leased str fromiso (fst (run_execs str fromiso r ops rows)) r lid t \<and>
     True \<notin> set (snd (run_execs str fromiso r ops rows))"
proof (induction ops arbitrary: rows)
  case Nil
  then show ?case by simp
next
  case (Cons o1 ops)
  obtain now op where o1: "o1 = (now, op)" by (cases o1)
  obtain rows1 ok where e: "run_exec str fromiso r now op rows = (rows1, ok)" by force
  have "leased str fromiso rows1 r lid t \<and> \<not> ok"
    using foreign_op_harmless [OF Cons.prems(1,2), of now op] Cons.prems(3) e o1 by auto
  with Cons.IH [of rows1] Cons.prems(2,3) e o1 show ?case by (auto simp: Let_def split: prod.splits)
qed

lemma new_lease_fields:
  "lease_entry (AList.update ''execution_lease'' (new_lease now ttl lid) md) =
     Inr [(''lease_id'', PyStr lid), (''acquired_at'', PyTime now), (''heartbeat_at'', PyTime now),
       (''expires_at'', PyTime (now + lease_ttl ttl))]"
  by (simp add: lease_entry_def new_lease_def)

lemma acquired_leased:
  assumes "acquire_lease str fromiso now r lid ttl allowed rows = (rows', Inr (Some run))"
  shows "leased str fromiso rows' r lid (now + lease_ttl ttl)"
proof -
  obtain run0 where "rows' = set_metadata now r run0
      (AList.update ''execution_lease'' (new_lease now ttl lid) (tr_metadata run0)) rows"
    using assms by (auto simp: acquire_lease_def Let_def split: option.splits if_splits sum.splits)
  then have "map_of rows' r = Some (run0\<lparr>tr_metadata := AList.update ''execution_lease'' (new_lease now ttl lid)
      (tr_metadata run0), tr_updated_at := now\<rparr>)"
    by (simp add: set_metadata_def)
  then show ?thesis
    unfolding leased_def by (auto simp: new_lease_fields lease_id_of_def parse_lease_timestamp_def)
qed

lemma lease_ttl_pos: "1000000 \<le> lease_ttl ttl"
  using micros_mono [of "of_int 1" "max 1 ttl"] unfolding micros_of_int by (simp add: lease_ttl_def)

section \<open>Properties\<close>

text \<open>C6: While a run's execution lease is running, nobody else can touch it: whatever other executions
  try before it expires (acquire, refresh, release), and whatever metadata merges and status changes
  happen in between, every lease call of theirs is refused and the holder keeps the lease with its expiry.\<close>

theorem running_lease_is_exclusive:
  assumes "acquire_lease str fromiso now0 r lid ttl allowed rows = (rows0, Inr (Some run))" "lid \<noteq> []"
    "\<forall>(now, op) \<in> set ops. now < now0 + lease_ttl ttl \<and> foreign_op lid op"
  shows "leased str fromiso (fst (run_execs str fromiso r ops rows0)) r lid (now0 + lease_ttl ttl) \<and>
    True \<notin> set (snd (run_execs str fromiso r ops rows0))"
  using foreign_ops_harmless [OF acquired_leased [OF assms(1)] assms(2,3)] .

definition demo_run :: team_run where
  "demo_run = \<lparr>tr_run_id = ''r'', tr_goal = ''g'', tr_team_id = ''t'', tr_mode = ''task_team'', tr_workspace_root = [],
     tr_status = ''running'', tr_max_rounds = 3, tr_review_required = False, tr_metadata = [], tr_created_at = 0,
     tr_updated_at = 0\<rparr>"

lemma demo_acquired:
  "\<exists>rows0 run. acquire_lease (\<lambda>_. []) (\<lambda>_. None) 0 ''r'' ''A'' 60 None [(''r'', demo_run)] = (rows0, Inr (Some run))"
  by (simp add: acquire_lease_def demo_run_def lease_entry_def foreign_lease_def lease_id_of_def Let_def)

theorem running_lease_is_exclusive_witness:
  "\<exists>rows0 run. acquire_lease (\<lambda>_. []) (\<lambda>_. None) 0 ''r'' ''A'' 60 None [(''r'', demo_run)] = (rows0, Inr (Some run)) \<and>
    True \<notin> set (snd (run_execs (\<lambda>_. []) (\<lambda>_. None) ''r''
      [(5, Acquire ''B'' 60 None), (6, Merge [(''note'', PyInt 1)]), (7, Release_lease ''B''), (8, Refresh ''B'' 60)] rows0))"
proof -
  obtain rows0 run where a: "acquire_lease (\<lambda>_. []) (\<lambda>_. None) 0 ''r'' ''A'' 60 None [(''r'', demo_run)] = (rows0, Inr (Some run))"
    using demo_acquired by blast
  have "\<forall>(now, op) \<in> set [(5, Acquire ''B'' 60 None), (6, Merge [(''note'', PyInt 1)]), (7, Release_lease ''B''),
      (8, Refresh ''B'' 60)]. now < 0 + lease_ttl 60 \<and> foreign_op ''A'' op"
    using lease_ttl_pos [of 60] by simp
  with running_lease_is_exclusive [OF a _ this] a show ?thesis by simp
qed

text \<open>An execution gets the lease of an existing run in an allowed status unless somebody else's is still
  running: an expired, released, malformed or own lease is taken over. It then runs for the requested
  time, at least a second, and its holder can refresh and release it.\<close>

theorem lease_handover:
  assumes "map_of rows r = Some run" "lease_entry (tr_metadata run) = Inr lease"
    "allowed = None \<or> (\<exists>sts. allowed = Some sts \<and> tr_status run \<in> set sts)"
  shows "\<exists>rows' out. acquire_lease str fromiso now r lid ttl allowed rows = (rows', Inr out) \<and>
    (out = None \<longleftrightarrow> foreign_lease str fromiso now lid lease) \<and>
    (out \<noteq> None \<longrightarrow> leased str fromiso rows' r lid (now + lease_ttl ttl) \<and> now + 1000000 \<le> now + lease_ttl ttl \<and>
       (\<forall>now' ttl'. \<exists>rows''. refresh_lease str now' r lid ttl' rows' = (rows'', Inr True) \<and>
          leased str fromiso rows'' r lid (now' + lease_ttl ttl')) \<and>
       (\<forall>now'. \<exists>rows''. release_lease str now' r lid rows' = (rows'', Inr True) \<and>
          (\<exists>run'. map_of rows'' r = Some run' \<and> lease_entry (tr_metadata run') = Inr [])))"
proof -
  obtain rows' res where acq: "acquire_lease str fromiso now r lid ttl allowed rows = (rows', res)" by force
  have "\<exists>out. res = Inr out \<and> (out = None \<longleftrightarrow> foreign_lease str fromiso now lid lease)"
    using assms acq by (auto simp: acquire_lease_def Let_def split: if_splits option.splits)
  then obtain out where out: "res = Inr out" "out = None \<longleftrightarrow> foreign_lease str fromiso now lid lease" by blast
  have held: "leased str fromiso rows' r lid (now + lease_ttl ttl) \<and> now + 1000000 \<le> now + lease_ttl ttl \<and>
      (\<forall>now' ttl'. \<exists>rows''. refresh_lease str now' r lid ttl' rows' = (rows'', Inr True) \<and>
          leased str fromiso rows'' r lid (now' + lease_ttl ttl')) \<and>
      (\<forall>now'. \<exists>rows''. release_lease str now' r lid rows' = (rows'', Inr True) \<and>
          (\<exists>run'. map_of rows'' r = Some run' \<and> lease_entry (tr_metadata run') = Inr []))"
    if some: "out \<noteq> None"
  proof -
    from some obtain got where got: "out = Some got" by blast
    have L: "leased str fromiso rows' r lid (now + lease_ttl ttl)"
      using acquired_leased acq out(1) got by blast
    then obtain run1 lease1 where l1: "map_of rows' r = Some run1" "lease_entry (tr_metadata run1) = Inr lease1"
      "lease_id_of str lease1 = lid" by (auto simp: leased_def)
    have "lease_id_of str (AList.update ''expires_at'' x (AList.update ''heartbeat_at'' y lease1)) = lid" for x y
      using l1(3) by (simp add: lease_id_of_def)
    then have "\<exists>rows''. refresh_lease str now' r lid ttl' rows' = (rows'', Inr True) \<and>
        leased str fromiso rows'' r lid (now' + lease_ttl ttl')" for now' ttl'
      using l1 by (simp add: refresh_lease_def set_metadata_def leased_def lease_entry_def [of "AList.update _ _ _"]
          parse_lease_timestamp_def Let_def)
    moreover have "\<exists>rows''. release_lease str now' r lid rows' = (rows'', Inr True) \<and>
        (\<exists>run'. map_of rows'' r = Some run' \<and> lease_entry (tr_metadata run') = Inr [])" for now'
      using l1 by (simp add: release_lease_def set_metadata_def lease_entry_def [of "AList.delete _ _"] AList.delete_conv')
    ultimately show ?thesis using L lease_ttl_pos [of ttl] by simp
  qed
  show ?thesis using acq out held by blast
qed

theorem lease_handover_witness:
  "\<exists>rows' out. acquire_lease (\<lambda>_. []) (\<lambda>_. None) 60000001 ''r'' ''B'' 60 (Some [''running''])
      [(''r'', demo_run\<lparr>tr_metadata := [(''execution_lease'', new_lease 0 60 ''A'')]\<rparr>)] = (rows', Inr out) \<and> out \<noteq> None"
proof -
  let ?run = "demo_run\<lparr>tr_metadata := [(''execution_lease'', new_lease 0 60 ''A'')]\<rparr>"
  let ?lease = "[(''lease_id'', PyStr ''A''), (''acquired_at'', PyTime 0), (''heartbeat_at'', PyTime 0),
    (''expires_at'', PyTime (lease_ttl 60))]"
  have "map_of [(''r'', ?run)] ''r'' = Some ?run" "lease_entry (tr_metadata ?run) = Inr ?lease"
    "Some [''running''] = None \<or> (\<exists>sts. Some [''running''] = Some sts \<and> tr_status ?run \<in> set sts)"
    by (simp_all add: lease_entry_def new_lease_def demo_run_def)
  moreover have "lease_ttl 60 = 60000000" using micros_of_int [of 60] by (simp add: lease_ttl_def)
  then have "\<not> foreign_lease (\<lambda>_. []) (\<lambda>_. None) 60000001 ''B'' ?lease"
    by (simp add: foreign_lease_def parse_lease_timestamp_def)
  ultimately show ?thesis
    using lease_handover [of "[(''r'', ?run)]" "''r''" ?run ?lease "Some [''running'']" "\<lambda>_. []" "\<lambda>_. None" 60000001 "''B''" 60]
    by blast
qed

text \<open>C7: After any series of recorded events, whatever their runs, ids and idempotency keys, the events of each
  run are numbered 1, 2, 3, ... in the order of recording, no idempotency key is stored twice, and recording
  once more under a stored key changes nothing.\<close>

theorem event_sequences_gapless:
  "map ev_sequence (run_envelopes r (record_all red evs empty_log)) =
     [1..<Suc (length (run_envelopes r (record_all red evs empty_log)))] \<and>
   distinct (List.map_filter ev_idempotency_key (log_envelopes (record_all red evs empty_log))) \<and>
   (k \<in> set (List.map_filter ev_idempotency_key (log_envelopes (record_all red evs empty_log))) \<longrightarrow>
     record_event red ev (Some k) (record_all red evs empty_log) = (record_all red evs empty_log, Inr ()))"
proof -
  let ?lg = "record_all red evs empty_log"
  have ok: "log_ok ?lg" by (rule record_all_ok [OF empty_log_ok])
  have "record_event red ev (Some k) ?lg = (?lg, Inr ())"
    if "k \<in> set (List.map_filter ev_idempotency_key (log_envelopes ?lg))"
  proof -
    obtain lg' res where a: "append_event_envelope red ev (Some k) ?lg = (lg', res)" by force
    have "List.find (\<lambda>e. ev_idempotency_key e = Some k) (log_envelopes ?lg) \<noteq> None"
      using that by (auto simp: find_None_iff in_map_filter)
    then obtain e where "List.find (\<lambda>e. ev_idempotency_key e = Some k) (log_envelopes ?lg) = Some e" by blast
    then show ?thesis by (simp add: record_event_def append_event_envelope_def)
  qed
  with ok show ?thesis by (simp add: log_ok_def dense_log_def keys_unique_def del: upt_Suc)
qed

definition demo_event :: "string \<Rightarrow> string \<Rightarrow> pyval \<Rightarrow> event_row" where
  "demo_event i r p = \<lparr>te_event_id = i, te_run_id = r, te_event_type = ''TaskCreated'', te_agent_id = None,
     te_task_id = None, te_task_run_id = None, te_timestamp = PyTime 0, te_trace_id = None, te_payload = p\<rparr>"

theorem event_sequences_gapless_witness:
  "map ev_sequence (run_envelopes ''r'' (record_all id [(demo_event ''e1'' ''r'' PyNone, Some ''k''),
     (demo_event ''e2'' ''s'' PyNone, None), (demo_event ''e3'' ''r'' PyNone, Some ''k''),
     (demo_event ''e4'' ''r'' PyNone, None)] empty_log)) = [1, 2] \<and>
   record_event id (demo_event ''e5'' ''r'' PyNone) (Some ''k'')
     (record_all id [(demo_event ''e1'' ''r'' PyNone, Some ''k'')] empty_log)
   = (record_all id [(demo_event ''e1'' ''r'' PyNone, Some ''k'')] empty_log, Inr ())"
proof
  show "map ev_sequence (run_envelopes ''r'' (record_all id [(demo_event ''e1'' ''r'' PyNone, Some ''k''),
     (demo_event ''e2'' ''s'' PyNone, None), (demo_event ''e3'' ''r'' PyNone, Some ''k''),
     (demo_event ''e4'' ''r'' PyNone, None)] empty_log)) = [1, 2]"
    by (simp add: record_all_def record_event_def append_event_envelope_def empty_log_def max_sequence_def
        run_envelopes_def demo_event_def Let_def)
  have "''k'' \<in> set (List.map_filter ev_idempotency_key (log_envelopes
      (record_all id [(demo_event ''e1'' ''r'' PyNone, Some ''k'')] empty_log)))"
    by (simp add: record_all_def record_event_def append_event_envelope_def empty_log_def max_sequence_def
        run_envelopes_def demo_event_def Let_def List.map_filter_def)
  then show "record_event id (demo_event ''e5'' ''r'' PyNone) (Some ''k'')
     (record_all id [(demo_event ''e1'' ''r'' PyNone, Some ''k'')] empty_log)
   = (record_all id [(demo_event ''e1'' ''r'' PyNone, Some ''k'')] empty_log, Inr ())"
    using event_sequences_gapless [of "''r''" id "[(demo_event ''e1'' ''r'' PyNone, Some ''k'')]" "''k''"] by blast
qed

text \<open>C8: The replayable stream of a run, over any turns of its loop while others go on recording: it sends the events of
  the run after the client's cursor in order, each once and none left out, and the id of each is its number, so that a
  client which comes back with the last id it saw misses nothing. While the loop goes on, an event that was there at a
  turn has been sent after one turn for every 200 events up to it. The loop ends only at a test that is 300 seconds or
  more after its start and after a turn no earlier than any that sent an event.\<close>

theorem stream_replays_every_event:
  assumes "grows red (map (\<lambda>t. fst (snd t)) turns)" "turns \<noteq> []" "stream_events r turns (stream_start after t0) = (css, s)"
  shows "sent_events (concat css) = map (\<lambda>e. (ev_sequence e, e))
      (take (length (sent_events (concat css))) (drop after (run_envelopes r (fst (snd (last turns)))))) \<and>
    ss_cursor s = after + length (sent_events (concat css)) \<and>
    (length css = length turns \<longrightarrow> (\<forall>i < length turns.
       min (length (run_envelopes r (fst (snd (turns ! i)))) - after) (200 * (length turns - i)) \<le> length (sent_events (concat css)))) \<and>
    (length css < length turns \<longrightarrow>
       (t0 + 300 \<le> fst (turns ! length css) \<or> (\<exists>j < length css. snd (snd (turns ! j)) + 300 \<le> fst (turns ! length css))) \<and>
       (\<forall>i < length css. sent_events (css ! i) \<noteq> [] \<longrightarrow>
          (\<exists>j. i \<le> j \<and> j < length css \<and> snd (snd (turns ! j)) + 300 \<le> fst (turns ! length css))))"
proof -
  note grow = grows_run [OF assms(1), of r]
  have start: "ss_cursor (stream_start after t0) = after" "ss_deadline (stream_start after t0) = t0 + 300"
    by (simp_all add: stream_start_def)
  note sends = stream_sends [OF assms(3) grow assms(2)] and up = stream_keeps_up [OF assms(3) grow] and ends = stream_ends [OF assms(3) grow]
  have "(t0 + 300 \<le> fst (turns ! length css) \<or> (\<exists>j < length css. snd (snd (turns ! j)) + 300 \<le> fst (turns ! length css))) \<and>
       (\<forall>i < length css. sent_events (css ! i) \<noteq> [] \<longrightarrow>
          (\<exists>j. i \<le> j \<and> j < length css \<and> snd (snd (turns ! j)) + 300 \<le> fst (turns ! length css)))" if "length css < length turns"
    using ends [OF that] start(2) by metis
  with sends up start(1) show ?thesis by auto
qed

text \<open>A client that has seen the first event of its run; the third one is recorded between two reads, and after five quiet
  minutes the stream ends.\<close>

definition demo_stream_log :: "nat \<Rightarrow> event_log" where
  "demo_stream_log n = record_all id (take n [(demo_event ''e1'' ''r'' PyNone, None), (demo_event ''e2'' ''s'' PyNone, None),
     (demo_event ''e3'' ''r'' PyNone, None)]) empty_log"

definition demo_turns :: "(seconds \<times> event_log \<times> seconds) list" where
  "demo_turns = [(0, demo_stream_log 2, 0), (1, demo_stream_log 3, 1), (2, demo_stream_log 3, 2), (400, demo_stream_log 3, 400)]"

lemma demo_grows: "grows id (map (\<lambda>t. fst (snd t)) demo_turns)"
proof -
  have split: "record_all id (xs @ ys) lg = record_all id ys (record_all id xs lg)" for xs ys lg by (simp add: record_all_def)
  have pieces: "take m xs @ drop m (take n xs) = take n xs" if "m \<le> n" for m n and xs :: "(event_row \<times> string option) list"
    using append_take_drop_id [of m "take n xs"] that by (simp add: min_def)
  have "\<exists>evs. demo_stream_log n = record_all id evs (demo_stream_log m)" if "m \<le> n" for m n
    unfolding demo_stream_log_def split [symmetric]
    by (rule exI [of _ "drop m (take n [(demo_event ''e1'' ''r'' PyNone, None), (demo_event ''e2'' ''s'' PyNone, None),
     (demo_event ''e3'' ''r'' PyNone, None)])"]) (simp only: pieces [OF that])
  moreover have "empty_log = demo_stream_log 0" by (simp add: demo_stream_log_def record_all_def)
  ultimately show ?thesis by (auto simp: grows_def demo_turns_def) (metis le0)+
qed

theorem stream_replays_every_event_witness:
  "\<exists>css s. stream_events ''r'' demo_turns (stream_start 1 0) = (css, s) \<and> length css = 3 \<and>
    map fst (sent_events (concat css)) = [2] \<and> ss_cursor s = 2"
proof -
  obtain css s where e: "stream_events ''r'' demo_turns (stream_start 1 0) = (css, s)" by force
  have "map length (fst (stream_events ''r'' demo_turns (stream_start 1 0))) = [1, 1, 0]"
    "map fst (sent_events (concat (fst (stream_events ''r'' demo_turns (stream_start 1 0))))) = [2]" by code_simp+
  then have "length css = 3" "map fst (sent_events (concat css)) = [2]" using e by auto
  moreover have "demo_turns \<noteq> []" by (simp add: demo_turns_def)
  then have "ss_cursor s = 1 + length (map fst (sent_events (concat css)))"
    using stream_replays_every_event [OF demo_grows _ e] by simp
  ultimately show ?thesis using e by simp
qed

text \<open>C9: No payload ever stored, in the event table or in the table of the stream, holds anything but the redaction mark
  under a secret name (an API key, authorization, cookie, password, refresh token, secret or token, in any spelling of
  case, surrounding blanks and hyphens), however deep in dictionaries and lists.\<close>

theorem stored_payloads_redacted:
  "(\<forall>e \<in> set (log_events (record_all red evs empty_log)). clean_payload None (te_payload e)) \<and>
   (\<forall>e \<in> set (log_envelopes (record_all red evs empty_log)). clean_payload None (ev_payload e))"
  using record_all_ok [OF empty_log_ok, of red evs] by (simp add: log_ok_def)

theorem stored_payloads_redacted_witness:
  "\<exists>e. log_events (record_all id [(demo_event ''e1'' ''r''
      (PyDict [(''args'', PyList [PyDict [('' API-Key'', PyStr ''sk-1''), (''n'', PyInt 1)]])]), None)] empty_log) = [e] \<and>
    te_payload e = PyDict [(''args'', PyList [PyDict [('' API-Key'', redacted), (''n'', PyInt 1)]])] \<and>
    clean_payload None (te_payload e)"
proof -
  let ?p = "PyDict [(''args'', PyList [PyDict [('' API-Key'', PyStr ''sk-1''), (''n'', PyInt 1)]])]"
  let ?q = "PyDict [(''args'', PyList [PyDict [('' API-Key'', redacted), (''n'', PyInt 1)]])]"
  let ?lg = "record_all id [(demo_event ''e1'' ''r'' ?p, None)] empty_log"
  have h: "hidden (Some '' API-Key'')" "\<not> hidden (Some ''args'')" "\<not> hidden (Some ''n'')" "\<not> hidden None"
    by code_simp+
  have "map te_payload (log_events ?lg) = [redact_event_payload id None ?p]"
    by (simp add: record_all_def record_event_def append_event_envelope_def empty_log_def max_sequence_def given_payload_def
        run_envelopes_def demo_event_def Let_def del: redact_payload_simps)
  then have "map te_payload (log_events ?lg) = [?q]" by (simp add: h)
  then obtain e where "log_events ?lg = [e]" "te_payload e = ?q" by auto
  with stored_payloads_redacted [of id "[(demo_event ''e1'' ''r'' ?p, None)]"] show ?thesis by simp
qed

end
