(* ===== verification/Permission.thy ===== *)
theory Permission
  imports Py_Prelude
begin

text \<open>
  \<open>app/multiagent/permission.py\<close>: the permission policy and the broker over its durable request table.
  \<open>fp\<close> is the SHA-256 of the canonical JSON of kind, operation and parameters, \<open>hook\<close> the registered
  lifecycle hooks' answer to a new request (\<open>Some feedback\<close> when they block it); ids and clock readings are
  arguments. The columns of a row repeat fields of its payload, so a row is its payload. The audit trail
  keeps the event types with the requests.
\<close>

datatype permission_kind =
    FILE_READ | FILE_WRITE | SHELL | NETWORK | GIT_BRANCH | GIT_COMMIT | GIT_PUSH | PACKAGE_INSTALL
  | ENVIRONMENT | SECRET | EXTERNAL_API | MCP_TOOL | TEAMMATE_SPAWN | TASK_CREATE | DESTRUCTIVE

datatype permission_decision = APPROVE_ONCE | APPROVE_FOR_RUN | DENY | DENY_WITH_FEEDBACK

datatype policy_outcome = Policy_ALLOW | Policy_REQUEST | Policy_DENY

datatype request_status = Request_pending | Request_approved | Request_denied

datatype grant_scope = Scope_once | Scope_run

record permission_request =
  pr_request_id :: string
  pr_run_id :: string
  pr_agent_id :: string
  pr_kind :: permission_kind
  pr_operation :: string
  pr_parameters :: pydict
  pr_reason :: string
  pr_fingerprint :: string
  pr_status :: request_status
  pr_decision :: "permission_decision option"
  pr_decided_by :: "string option"
  pr_decision_reason :: string
  pr_scope :: grant_scope
  pr_created_at :: time
  pr_decided_at :: "time option"
  pr_used_at :: "time option"

record permission_policy =
  pol_allowed :: "permission_kind list"
  pol_denied :: "permission_kind list"
  pol_request_by_default :: bool

definition default_policy :: permission_policy where
  "default_policy = \<lparr>pol_allowed = [FILE_READ, FILE_WRITE], pol_denied = [SECRET, DESTRUCTIVE],
     pol_request_by_default = True\<rparr>"

definition evaluate :: "permission_policy \<Rightarrow> permission_kind \<Rightarrow> policy_outcome" where
  "evaluate pol kind =
     (if kind \<in> set (pol_denied pol) then Policy_DENY
      else if kind \<in> set (pol_allowed pol) then Policy_ALLOW
      else if pol_request_by_default pol then Policy_REQUEST else Policy_DENY)"

record broker =
  br_policy :: permission_policy
  br_requests :: "(string \<times> permission_request) list"
  br_audit :: "(string \<times> permission_request) list"

type_synonym fingerprinter = "permission_kind \<Rightarrow> string \<Rightarrow> pydict \<Rightarrow> string"

definition new_request :: "fingerprinter \<Rightarrow> string \<Rightarrow> time \<Rightarrow> string \<Rightarrow> string \<Rightarrow> permission_kind \<Rightarrow> string
    \<Rightarrow> pydict \<Rightarrow> string \<Rightarrow> permission_request" where
  "new_request fp rid now run agent kind operation params reason =
     \<lparr>pr_request_id = rid, pr_run_id = run, pr_agent_id = agent, pr_kind = kind, pr_operation = operation,
      pr_parameters = params, pr_reason = reason, pr_fingerprint = fp kind operation params,
      pr_status = Request_pending, pr_decision = None, pr_decided_by = None, pr_decision_reason = [],
      pr_scope = Scope_once, pr_created_at = now, pr_decided_at = None, pr_used_at = None\<rparr>"

definition get_request :: "string \<Rightarrow> broker \<Rightarrow> permission_request option" where
  "get_request i br = map_of (br_requests br) i"

definition pending_requests :: "string \<Rightarrow> broker \<Rightarrow> permission_request list" where
  "pending_requests run br =
     sort_key pr_created_at (filter (\<lambda>q. pr_run_id q = run \<and> pr_status q = Request_pending) (map snd (br_requests br)))"

text \<open>\<open>_matching_grant\<close>: the newest approved request of the run, agent and fingerprint that still grants.\<close>

definition grants :: "permission_request \<Rightarrow> bool" where
  "grants q \<longleftrightarrow> pr_decision q = Some APPROVE_FOR_RUN \<or> pr_used_at q = None"

definition matching_grant :: "permission_request \<Rightarrow> broker \<Rightarrow> permission_request option" where
  "matching_grant req br =
     List.find grants
       (sort_key (\<lambda>q. - pr_created_at q)
         (filter (\<lambda>q. pr_run_id q = pr_run_id req \<and> pr_agent_id q = pr_agent_id req \<and>
             pr_fingerprint q = pr_fingerprint req \<and> pr_status q = Request_approved)
           (map snd (br_requests br))))"

text \<open>\<open>INSERT OR IGNORE\<close> and \<open>UPDATE ... WHERE request_id=?\<close>.\<close>

definition insert_request :: "permission_request \<Rightarrow> broker \<Rightarrow> broker" where
  "insert_request q br =
     (if pr_request_id q \<in> set (map fst (br_requests br)) then br
      else br\<lparr>br_requests := br_requests br @ [(pr_request_id q, q)]\<rparr>)"

definition update_request :: "permission_request \<Rightarrow> broker \<Rightarrow> broker" where
  "update_request q br =
     (if pr_request_id q \<in> set (map fst (br_requests br))
      then br\<lparr>br_requests := AList.update (pr_request_id q) q (br_requests br)\<rparr> else br)"

definition mark_used :: "time \<Rightarrow> string \<Rightarrow> broker \<Rightarrow> broker" where
  "mark_used now i br =
     (case get_request i br of
        None \<Rightarrow> br
      | Some q \<Rightarrow> update_request (q\<lparr>pr_used_at := Some now\<rparr>) br)"

definition audit :: "string \<Rightarrow> permission_request \<Rightarrow> broker \<Rightarrow> broker" where
  "audit ev q br = br\<lparr>br_audit := br_audit br @ [(ev, q)]\<rparr>"

definition emit_requested_hook :: "(permission_request \<Rightarrow> string option) \<Rightarrow> time \<Rightarrow> permission_request
    \<Rightarrow> broker \<Rightarrow> broker \<times> permission_request" where
  "emit_requested_hook hook now q br =
     (case hook q of
        None \<Rightarrow> (br, q)
      | Some feedback \<Rightarrow>
          let q' = q\<lparr>pr_status := Request_denied, pr_decision := Some DENY_WITH_FEEDBACK,
                     pr_decided_by := Some ''policy:hook'',
                     pr_decision_reason := (if feedback = [] then ''PermissionRequested hook denied'' else feedback),
                     pr_decided_at := Some now\<rparr>
          in (update_request q' br, q'))"

text \<open>\<open>return True\<close>, \<open>PermissionDenied\<close> and \<open>PermissionRequired\<close>.\<close>

datatype auth_outcome = Authorized | Denied_by_policy | Denied_by_hook string | Required permission_request

text \<open>What \<open>authorize\<close> does with the grant it found.\<close>

definition use_grant :: "time \<Rightarrow> permission_request \<Rightarrow> broker \<Rightarrow> broker" where
  "use_grant now g br = (if pr_decision g = Some APPROVE_ONCE then mark_used now (pr_request_id g) br else br)"

definition authorize_request :: "(permission_request \<Rightarrow> string option) \<Rightarrow> time \<Rightarrow> permission_request \<Rightarrow> broker
    \<Rightarrow> broker \<times> auth_outcome" where
  "authorize_request hook now q br =
     (case matching_grant q br of
        Some g \<Rightarrow> (use_grant now g br, Authorized)
      | None \<Rightarrow>
          (case evaluate (br_policy br) (pr_kind q) of
             Policy_ALLOW \<Rightarrow> (audit ''permission_auto_allowed'' q br, Authorized)
           | Policy_DENY \<Rightarrow> (audit ''permission_denied_by_policy'' q br, Denied_by_policy)
           | Policy_REQUEST \<Rightarrow>
               let br1 = audit ''PermissionRequested'' q (insert_request q br);
                   (br2, q') = emit_requested_hook hook now q br1
               in (br2, if pr_status q' = Request_denied then Denied_by_hook (pr_decision_reason q')
                        else Required q')))"

definition authorize :: "fingerprinter \<Rightarrow> (permission_request \<Rightarrow> string option) \<Rightarrow> string \<Rightarrow> time \<Rightarrow> time
    \<Rightarrow> string \<Rightarrow> string \<Rightarrow> permission_kind \<Rightarrow> string \<Rightarrow> pydict \<Rightarrow> string \<Rightarrow> broker \<Rightarrow> broker \<times> auth_outcome" where
  "authorize fp hook rid t1 t2 run agent kind operation params reason br =
     authorize_request hook t2 (new_request fp rid t1 run agent kind operation params reason) br"

definition request_permission :: "fingerprinter \<Rightarrow> (permission_request \<Rightarrow> string option) \<Rightarrow> string \<Rightarrow> time \<Rightarrow> time
    \<Rightarrow> string \<Rightarrow> string \<Rightarrow> permission_kind \<Rightarrow> string \<Rightarrow> pydict \<Rightarrow> string \<Rightarrow> broker \<Rightarrow> broker \<times> permission_request" where
  "request_permission fp hook rid t1 t2 run agent kind operation params reason br =
     (let q = new_request fp rid t1 run agent kind operation params reason
      in emit_requested_hook hook t2 q (audit ''PermissionRequested'' q (insert_request q br)))"

definition principal :: "string \<Rightarrow> bool" where
  "principal who \<longleftrightarrow> who = ''user'' \<or> starts_with ''user:'' who \<or> who = ''lead'' \<or> starts_with ''lead:'' who"

datatype decide_error = NotAPrincipal | UnknownRequest string

definition decide_request :: "time \<Rightarrow> string \<Rightarrow> permission_decision \<Rightarrow> string \<Rightarrow> string \<Rightarrow> broker
    \<Rightarrow> broker \<times> (decide_error + permission_request)" where
  "decide_request now i decision who reason br =
     (if \<not> principal who then (br, Inl NotAPrincipal)
      else case get_request i br of
             None \<Rightarrow> (br, Inl (UnknownRequest i))
           | Some q \<Rightarrow>
               if pr_status q \<noteq> Request_pending then (br, Inr q)
               else let q' = q\<lparr>pr_status := (if decision \<in> {APPROVE_ONCE, APPROVE_FOR_RUN}
                                              then Request_approved else Request_denied),
                               pr_decision := Some decision, pr_decided_by := Some who,
                               pr_decision_reason := reason,
                               pr_scope := (if decision = APPROVE_FOR_RUN then Scope_run else Scope_once),
                               pr_decided_at := Some now\<rparr>
                    in (audit ''PermissionDecided'' q' (update_request q' br), Inr q'))"

end
