(* ===== verification/Shell_Policy.thy ===== *)
theory Shell_Policy
  imports Permission
begin

text \<open>
  \<open>app/multiagent/shell_policy.py\<close>: the classification of commands and the checks \<open>run\<close> makes before a
  process starts (on POSIX). \<open>shlex.split\<close> and the resolution of a path against the file system (symbolic
  links) are arguments; running and terminating the process is not modelled.
\<close>

section \<open>Text\<close>

fun split_on :: "char \<Rightarrow> string \<Rightarrow> string list" where
  "split_on c [] = [[]]"
| "split_on c (x # xs) =
     (if x = c then [] # split_on c xs
      else case split_on c xs of [] \<Rightarrow> [[x]] | w # ws \<Rightarrow> (x # w) # ws)"

text \<open>\<open>s.split()[0]\<close> of a stripped, non-empty text; \<open>" ".join\<close>; \<open>lstrip("-")\<close>; \<open>removesuffix\<close>.\<close>

definition first_word :: "string \<Rightarrow> string" where
  "first_word s = takeWhile (\<lambda>c. \<not> is_space c) (strip s)"

fun join_words :: "string list \<Rightarrow> string" where
  "join_words [] = []"
| "join_words [w] = w"
| "join_words (w # ws) = w @ '' '' @ join_words ws"

definition lstrip_dash :: "string \<Rightarrow> string" where
  "lstrip_dash s = dropWhile (\<lambda>c. c = CHR ''-'') s"

definition ends_with :: "string \<Rightarrow> string \<Rightarrow> bool" where
  "ends_with suf s \<longleftrightarrow> starts_with (rev suf) (rev s)"

definition removesuffix :: "string \<Rightarrow> string \<Rightarrow> string" where
  "removesuffix suf s = (if suf \<noteq> [] \<and> ends_with suf s then take (length s - length suf) s else s)"

text \<open>\<open>Path(p).parts\<close> (without the root) and \<open>Path(p).name\<close>.\<close>

definition path_parts :: "string \<Rightarrow> string list" where
  "path_parts p = filter (\<lambda>w. w \<noteq> [] \<and> w \<noteq> ''.'') (split_on (CHR ''/'') p)"

definition path_name :: "string \<Rightarrow> string" where
  "path_name p = (case rev (path_parts p) of [] \<Rightarrow> [] | w # _ \<Rightarrow> w)"

section \<open>Classification\<close>

datatype command_category =
    Cmd_READ_ONLY | Cmd_BUILD_TEST | Cmd_PACKAGE_MANAGEMENT | Cmd_NETWORK | Cmd_GIT_WRITE
  | Cmd_FILESYSTEM_DESTRUCTIVE | Cmd_PRIVILEGE_ESCALATION | Cmd_UNKNOWN

definition READ_ONLY_CMDS :: "string list" where
  "READ_ONLY_CMDS = [''ls'', ''dir'', ''pwd'', ''find'', ''rg'', ''grep'', ''head'', ''tail'', ''wc'', ''echo'',
     ''sed'', ''type'', ''where'', ''which'', ''git'']"

definition BUILD_TEST_CMDS :: "string list" where
  "BUILD_TEST_CMDS = [''pytest'', ''python'', ''python3'', ''node'', ''npm'', ''pnpm'', ''yarn'', ''make'', ''cmake'',
     ''cargo'', ''go'', ''mvn'', ''gradle'', ''ruff'', ''mypy'', ''eslint'', ''tsc'']"

definition PACKAGE_CMDS :: "string list" where
  "PACKAGE_CMDS = [''pip'', ''pip3'', ''uv'', ''poetry'', ''conda'', ''apt'', ''apt-get'', ''brew'', ''choco'', ''winget'']"

definition NETWORK_CMDS :: "string list" where
  "NETWORK_CMDS = [''curl'', ''wget'', ''ssh'', ''scp'', ''nc'', ''ncat'', ''telnet'']"

definition DESTRUCTIVE_CMDS :: "string list" where
  "DESTRUCTIVE_CMDS = [''rm'', ''rmdir'', ''del'', ''erase'', ''format'', ''mkfs'', ''dd'', ''shred'']"

definition PRIVILEGE_CMDS :: "string list" where
  "PRIVILEGE_CMDS = [''sudo'', ''su'', ''doas'', ''runas'']"

definition GIT_WRITE_CMDS :: "string list" where
  "GIT_WRITE_CMDS = [''add'', ''commit'', ''push'', ''merge'', ''rebase'', ''reset'', ''checkout'', ''switch'',
     ''branch'', ''cherry-pick'', ''tag'', ''clean'']"

definition GIT_READ_CMDS :: "string list" where
  "GIT_READ_CMDS = [''status'', ''diff'', ''log'', ''show'', ''rev-parse'', ''ls-files'', ''remote'']"

definition POWERSHELL_READ :: "string list" where
  "POWERSHELL_READ = [''get-childitem'', ''get-content'', ''get-item'', ''get-location'', ''test-path'',
     ''select-string'', ''measure-object'']"

definition POWERSHELL_DESTRUCTIVE :: "string list" where
  "POWERSHELL_DESTRUCTIVE = [''remove-item'', ''clear-content'', ''format-volume'']"

definition POWERSHELL_NETWORK :: "string list" where
  "POWERSHELL_NETWORK = [''invoke-webrequest'', ''invoke-restmethod'', ''new-pssession'']"

definition EXEC_FLAGS :: "string list" where
  "EXEC_FLAGS = [''-exec'', ''-execdir'', ''-ok'', ''-okdir'']"

datatype command = Argv "string list" | Command_line string

definition normalize :: "(string \<Rightarrow> string list) \<Rightarrow> command \<Rightarrow> string list" where
  "normalize shlex_split cmd = (case cmd of Argv a \<Rightarrow> a | Command_line s \<Rightarrow> shlex_split s)"

definition executable_name :: "string list \<Rightarrow> string" where
  "executable_name argv =
     fold removesuffix [''.exe'', ''.cmd'', ''.bat''] (lower (path_name (hd argv)))"

definition has_exec_payload :: "string list \<Rightarrow> bool" where
  "has_exec_payload argv \<longleftrightarrow> list_ex (\<lambda>a. a \<in> set EXEC_FLAGS) (tl argv)"

definition inline_script_flags :: "string \<Rightarrow> string list" where
  "inline_script_flags exe =
     (if exe = ''python'' \<or> exe = ''python3'' then [''-c'']
      else if exe = ''node'' then [''-e'', ''--eval'', ''-p'', ''--print'']
      else if exe = ''ruby'' then [''-e'']
      else if exe = ''perl'' then [''-e'', ''-E'']
      else if exe = ''php'' then [''-r''] else [])"

fun scan_inline :: "string list \<Rightarrow> string list \<Rightarrow> bool" where
  "scan_inline flags [] = False"
| "scan_inline flags (a # as) =
     (if \<not> starts_with ''-'' a then False
      else if list_ex (\<lambda>f. lstrip_dash f = lstrip_dash a \<or> starts_with (lstrip_dash f) (lstrip_dash a)) flags then True
      else if a \<in> set flags then True
      else scan_inline flags as)"

definition has_inline_script :: "string \<Rightarrow> string list \<Rightarrow> bool" where
  "has_inline_script exe argv =
     (if inline_script_flags exe = [] then False else scan_inline (inline_script_flags exe) (tl argv))"

fun scan_sed :: "string list \<Rightarrow> bool \<Rightarrow> bool" where
  "scan_sed [] inplace = inplace"
| "scan_sed (a # as) inplace =
     (if starts_with ''-'' a then scan_sed as (inplace \<or> CHR ''i'' \<in> set a)
      else if CHR ''e'' \<in> set a \<and> starts_with ''e'' a then True
      else if CHR ''e'' \<in> set (hd (split_on (CHR 0x0A) a)) \<and> (CHR '';'' \<in> set a \<or> starts_with ''e'' a) then True
      else inplace)"

definition sed_is_destructive :: "string list \<Rightarrow> bool" where
  "sed_is_destructive argv = scan_sed (tl argv) False"

text \<open>\<open>re.search(r"[;&|`]|\$\(|\n|\r", script)\<close> and \<open>re.search(r"[&|<>^\n\r]", command)\<close>.\<close>

definition powershell_metachar :: "string \<Rightarrow> bool" where
  "powershell_metachar s \<longleftrightarrow>
     list_ex (\<lambda>c. c \<in> {CHR '';'', CHR ''&'', CHR ''|'', CHR 0x60, CHR 0x0A, CHR 0x0D}) s \<or> contains ''$('' s"

definition cmd_metachar :: "string \<Rightarrow> bool" where
  "cmd_metachar s \<longleftrightarrow>
     list_ex (\<lambda>c. c \<in> {CHR ''&'', CHR ''|'', CHR ''<'', CHR ''>'', CHR 0x5E, CHR 0x0A, CHR 0x0D}) s"

definition classify_powershell :: "string list \<Rightarrow> command_category" where
  "classify_powershell argv =
     (case dropWhile (\<lambda>a. lower a \<notin> {''-command'', ''-c''}) (tl argv) of
        [] \<Rightarrow> Cmd_UNKNOWN
      | _ # rest \<Rightarrow>
          let script = strip (join_words rest)
          in if script = [] \<or> powershell_metachar script then Cmd_UNKNOWN
             else let verb = lower (first_word script)
                  in if verb \<in> set POWERSHELL_DESTRUCTIVE then Cmd_FILESYSTEM_DESTRUCTIVE
                     else if verb \<in> set POWERSHELL_NETWORK then Cmd_NETWORK
                     else if verb \<in> set POWERSHELL_READ then Cmd_READ_ONLY
                     else Cmd_UNKNOWN)"

definition classify_cmd :: "string list \<Rightarrow> command_category" where
  "classify_cmd argv =
     (if length argv < 3 \<or> lower (argv ! 1) \<notin> {''/c'', ''/k''} then Cmd_UNKNOWN
      else let cmd = strip (join_words (drop 2 argv))
           in if cmd = [] \<or> cmd_metachar cmd then Cmd_UNKNOWN
              else let exe = lower (first_word cmd)
                   in if exe \<in> {''dir'', ''type'', ''where'', ''find'', ''findstr''} then Cmd_READ_ONLY
                      else if exe \<in> {''del'', ''erase'', ''rmdir'', ''format''} then Cmd_FILESYSTEM_DESTRUCTIVE
                      else Cmd_UNKNOWN)"

definition classify_git :: "string list \<Rightarrow> command_category" where
  "classify_git argv =
     (let sub = (if length argv > 1 then lower (argv ! 1) else [])
      in if sub \<in> set GIT_WRITE_CMDS then Cmd_GIT_WRITE
         else if sub \<in> set GIT_READ_CMDS then Cmd_READ_ONLY else Cmd_UNKNOWN)"

definition classify_argv :: "string list \<Rightarrow> command_category" where
  "classify_argv argv =
     (if argv = [] then Cmd_UNKNOWN
      else let exe = executable_name argv
      in if exe \<in> {''powershell'', ''pwsh''} then classify_powershell argv
      else if exe = ''cmd'' then classify_cmd argv
      else if exe \<in> set PRIVILEGE_CMDS then Cmd_PRIVILEGE_ESCALATION
      else if exe \<in> set DESTRUCTIVE_CMDS then Cmd_FILESYSTEM_DESTRUCTIVE
      else if exe \<in> set NETWORK_CMDS then Cmd_NETWORK
      else if exe \<in> set PACKAGE_CMDS then Cmd_PACKAGE_MANAGEMENT
      else if exe = ''git'' then classify_git argv
      else if exe = ''find'' \<and> has_exec_payload argv then Cmd_FILESYSTEM_DESTRUCTIVE
      else if exe = ''sed'' \<and> sed_is_destructive argv then Cmd_FILESYSTEM_DESTRUCTIVE
      else if exe \<in> set BUILD_TEST_CMDS then
        (if exe \<in> {''npm'', ''pnpm'', ''yarn''} \<and> length argv > 1 \<and> argv ! 1 \<in> {''i'', ''install'', ''add''}
         then Cmd_PACKAGE_MANAGEMENT
         else if has_inline_script exe argv then Cmd_UNKNOWN
         else Cmd_BUILD_TEST)
      else if exe \<in> set READ_ONLY_CMDS then Cmd_READ_ONLY
      else Cmd_UNKNOWN)"

definition command_permission_kind :: "command_category \<Rightarrow> permission_kind" where
  "command_permission_kind c =
     (case c of
        Cmd_PACKAGE_MANAGEMENT \<Rightarrow> PACKAGE_INSTALL
      | Cmd_NETWORK \<Rightarrow> NETWORK
      | Cmd_GIT_WRITE \<Rightarrow> GIT_COMMIT
      | Cmd_FILESYSTEM_DESTRUCTIVE \<Rightarrow> DESTRUCTIVE
      | Cmd_PRIVILEGE_ESCALATION \<Rightarrow> DESTRUCTIVE
      | _ \<Rightarrow> SHELL)"

section \<open>The gate of \<open>run\<close>\<close>

definition absolute_arg :: "string \<Rightarrow> bool" where
  "absolute_arg a \<longleftrightarrow> starts_with ''/'' a \<or>
     (length a \<ge> 3 \<and> a ! 1 = CHR '':'' \<and> a ! 2 \<in> {CHR 0x5C, CHR ''/''})"

definition path_like :: "string \<Rightarrow> bool" where
  "path_like a \<longleftrightarrow> absolute_arg a \<or> CHR ''/'' \<in> set a \<or> CHR 0x5C \<in> set a \<or> ''..'' \<in> set (path_parts a)"

text \<open>
  \<open>resolve p\<close> is the list of parts of the resolved path \<open>p\<close>, \<open>None\<close> when resolving raises; \<open>cwd\<close> is the
  resolved working directory as text, \<open>cwd_parts\<close> as parts, and \<open>is_dir\<close> says that it is a directory.
\<close>

definition inside_root :: "(string \<Rightarrow> string list option) \<Rightarrow> string \<Rightarrow> string list \<Rightarrow> string \<Rightarrow> bool" where
  "inside_root resolve cwd cwd_parts a \<longleftrightarrow>
     (case resolve (if absolute_arg a then a else cwd @ ''/'' @ a) of
        None \<Rightarrow> False
      | Some parts \<Rightarrow> take (length cwd_parts) parts = cwd_parts)"

fun workspace_escape :: "(string \<Rightarrow> string list option) \<Rightarrow> string \<Rightarrow> string list \<Rightarrow> string list \<Rightarrow> string option" where
  "workspace_escape resolve cwd cwd_parts [] = None"
| "workspace_escape resolve cwd cwd_parts (a # as) =
     (if a = [] \<or> starts_with ''-'' a then workspace_escape resolve cwd cwd_parts as
      else if \<not> path_like a then workspace_escape resolve cwd cwd_parts as
      else if inside_root resolve cwd cwd_parts a then workspace_escape resolve cwd cwd_parts as
      else Some a)"

datatype gate = Gate_empty | Gate_no_cwd | Gate_escape string | Gate_authorize permission_kind | Gate_forbidden command_category | Gate_run

definition shell_gate :: "(string \<Rightarrow> string list option) \<Rightarrow> string \<Rightarrow> string list \<Rightarrow> bool \<Rightarrow> bool \<Rightarrow> string list \<Rightarrow> gate" where
  "shell_gate resolve cwd cwd_parts is_dir has_broker argv =
     (let category = classify_argv argv
      in if argv = [] then Gate_empty
         else if \<not> is_dir then Gate_no_cwd
         else case (if category = Cmd_READ_ONLY then workspace_escape resolve cwd cwd_parts (tl argv) else None) of
                Some a \<Rightarrow> Gate_escape a
              | None \<Rightarrow>
                  if has_broker \<and> category \<notin> {Cmd_READ_ONLY, Cmd_BUILD_TEST}
                  then Gate_authorize (command_permission_kind category)
                  else if category \<in> {Cmd_UNKNOWN, Cmd_FILESYSTEM_DESTRUCTIVE, Cmd_PRIVILEGE_ESCALATION,
                      Cmd_NETWORK, Cmd_PACKAGE_MANAGEMENT, Cmd_GIT_WRITE}
                  then Gate_forbidden category
                  else Gate_run)"

end
