(* ===== verification/Permission_Props.thy ===== *)
theory Permission_Props
  imports Permission
begin

text \<open>
  The properties of the permission broker: authorisations come from the policy or from a matching request a
  user or lead approved, an approve-once grant is used once by sequential authorisations (and twice by
  two that interleave), and a policy denial stores nothing.
\<close>

section \<open>Invariant\<close>

definition request_ok :: "permission_request \<Rightarrow> bool" where
  "request_ok q \<longleftrightarrow>
     (pr_status q = Request_approved \<longrightarrow> pr_decision q \<in> {Some APPROVE_ONCE, Some APPROVE_FOR_RUN} \<and>
        (\<exists>who. pr_decided_by q = Some who \<and> principal who)) \<and>
     (pr_status q = Request_pending \<longrightarrow> pr_decision q = None \<and> pr_used_at q = None) \<and>
     (pr_status q = Request_denied \<longrightarrow> pr_decision q \<in> {Some DENY, Some DENY_WITH_FEEDBACK})"

definition wf_broker :: "broker \<Rightarrow> bool" where
  "wf_broker br \<longleftrightarrow> distinct (map fst (br_requests br)) \<and>
     (\<forall>(i, q) \<in> set (br_requests br). pr_request_id q = i \<and> request_ok q)"

lemma get_request_in: "get_request i br = Some q \<Longrightarrow> (i, q) \<in> set (br_requests br)"
  by (simp add: get_request_def map_of_SomeD)

lemma wf_broker_get: "wf_broker br \<Longrightarrow> get_request i br = Some q \<Longrightarrow> pr_request_id q = i \<and> request_ok q"
  using get_request_in [of i br q] by (auto simp: wf_broker_def)

lemma in_requests: "wf_broker br \<Longrightarrow> (i, q) \<in> set (br_requests br) \<Longrightarrow> get_request i br = Some q"
  by (simp add: wf_broker_def get_request_def)

lemma audit_fields [simp]:
  "br_requests (audit ev q br) = br_requests br" "br_policy (audit ev q br) = br_policy br"
  "get_request i (audit ev q br) = get_request i br" "wf_broker (audit ev q br) = wf_broker br"
  by (simp_all add: audit_def get_request_def wf_broker_def)

lemma get_insert [simp]:
  "get_request i (insert_request q br) =
     (if get_request (pr_request_id q) br = None \<and> i = pr_request_id q then Some q else get_request i br)"
proof -
  have "get_request (pr_request_id q) br = None \<longleftrightarrow> pr_request_id q \<notin> set (map fst (br_requests br))"
    by (simp add: get_request_def map_of_eq_None_iff)
  moreover have "map_of (br_requests br @ [(pr_request_id q, q)]) i =
      (case map_of (br_requests br) i of Some x \<Rightarrow> Some x | None \<Rightarrow> if i = pr_request_id q then Some q else None)"
    by (simp add: map_add_def split: option.split)
  ultimately show ?thesis
    unfolding insert_request_def get_request_def
    by (cases "map_of (br_requests br) (pr_request_id q)") (auto split: option.split)
qed

lemma get_update [simp]:
  "get_request i (update_request q br) =
     (if get_request (pr_request_id q) br \<noteq> None \<and> i = pr_request_id q then Some q else get_request i br)"
  by (auto simp: update_request_def get_request_def map_of_eq_None_iff)

lemma policy_insert_update [simp]:
  "br_policy (insert_request q br) = br_policy br" "br_policy (update_request q br) = br_policy br"
  by (simp_all add: insert_request_def update_request_def)

lemma wf_insert: "wf_broker br \<Longrightarrow> request_ok q \<Longrightarrow> wf_broker (insert_request q br)"
  by (auto simp: wf_broker_def insert_request_def)

lemma wf_update: "wf_broker br \<Longrightarrow> request_ok q \<Longrightarrow> wf_broker (update_request q br)"
proof -
  have "set (AList.update i q xs) \<subseteq> insert (i, q) (set xs)" for i :: string and xs
    by (induction xs) auto
  then show "wf_broker br \<Longrightarrow> request_ok q \<Longrightarrow> wf_broker (update_request q br)"
    by (fastforce simp: wf_broker_def update_request_def intro: distinct_update)
qed

lemma new_request_fields [simp]:
  "pr_request_id (new_request fp rid now run agent kind operation params reason) = rid"
  "request_ok (new_request fp rid now run agent kind operation params reason)"
  "pr_status (new_request fp rid now run agent kind operation params reason) = Request_pending"
  "pr_run_id (new_request fp rid now run agent kind operation params reason) = run"
  "pr_agent_id (new_request fp rid now run agent kind operation params reason) = agent"
  "pr_kind (new_request fp rid now run agent kind operation params reason) = kind"
  "pr_fingerprint (new_request fp rid now run agent kind operation params reason) = fp kind operation params"
  by (simp_all add: new_request_def request_ok_def)

text \<open>The grant found is a stored, approved request of the same run, agent and fingerprint.\<close>

lemma matching_grant_Some:
  assumes "wf_broker br" "matching_grant q br = Some g"
  shows "get_request (pr_request_id g) br = Some g \<and> pr_run_id g = pr_run_id q \<and> pr_agent_id g = pr_agent_id q \<and>
    pr_fingerprint g = pr_fingerprint q \<and> pr_status g = Request_approved \<and> grants g \<and> request_ok g"
proof -
  let ?xs = "sort_key (\<lambda>q. - pr_created_at q)
         (filter (\<lambda>g. pr_run_id g = pr_run_id q \<and> pr_agent_id g = pr_agent_id q \<and>
             pr_fingerprint g = pr_fingerprint q \<and> pr_status g = Request_approved)
           (map snd (br_requests br)))"
  from assms(2) have "g \<in> set ?xs \<and> grants g"
    unfolding matching_grant_def by (metis (no_types, lifting) find_Some_iff nth_mem)
  then have g: "g \<in> set (map snd (br_requests br))" "pr_run_id g = pr_run_id q" "pr_agent_id g = pr_agent_id q"
    "pr_fingerprint g = pr_fingerprint q" "pr_status g = Request_approved" "grants g" by auto
  then obtain i where i: "(i, g) \<in> set (br_requests br)" by auto
  then have "pr_request_id g = i" "request_ok g" using assms(1) by (auto simp: wf_broker_def)
  with g i in_requests [OF assms(1) i] show ?thesis by simp
qed

section \<open>Operations\<close>

datatype broker_op =
    Authorize "permission_request \<Rightarrow> string option" string time time string string permission_kind string pydict string
  | Request "permission_request \<Rightarrow> string option" string time time string string permission_kind string pydict string
  | Decide time string permission_decision string string

fun broker_exec :: "fingerprinter \<Rightarrow> broker_op \<Rightarrow> broker \<Rightarrow> broker" where
  "broker_exec fp (Authorize hook rid t1 t2 run agent kind operation params reason) br =
     fst (authorize fp hook rid t1 t2 run agent kind operation params reason br)"
| "broker_exec fp (Request hook rid t1 t2 run agent kind operation params reason) br =
     fst (request_permission fp hook rid t1 t2 run agent kind operation params reason br)"
| "broker_exec fp (Decide now i decision who reason) br = fst (decide_request now i decision who reason br)"

text \<open>Every new request id is unused when it is drawn.\<close>

fun fresh_op :: "broker_op \<Rightarrow> broker \<Rightarrow> bool" where
  "fresh_op (Authorize hook rid t1 t2 run agent kind operation params reason) br = (get_request rid br = None)"
| "fresh_op (Request hook rid t1 t2 run agent kind operation params reason) br = (get_request rid br = None)"
| "fresh_op (Decide now i decision who reason) br = True"

fun fresh_ops :: "fingerprinter \<Rightarrow> broker_op list \<Rightarrow> broker \<Rightarrow> bool" where
  "fresh_ops fp [] br = True"
| "fresh_ops fp (op # ops) br = (fresh_op op br \<and> fresh_ops fp ops (broker_exec fp op br))"

definition broker_execs :: "fingerprinter \<Rightarrow> broker_op list \<Rightarrow> broker \<Rightarrow> broker" where
  "broker_execs fp ops br = fold (broker_exec fp) ops br"

text \<open>An approve-once grant that has been used.\<close>

definition spent :: "string \<Rightarrow> broker \<Rightarrow> bool" where
  "spent g br \<longleftrightarrow> (\<exists>q. get_request g br = Some q \<and> pr_status q = Request_approved \<and>
     pr_decision q = Some APPROVE_ONCE \<and> pr_used_at q \<noteq> None)"

text \<open>What every operation with a fresh id preserves.\<close>

definition keeps :: "broker \<Rightarrow> broker \<Rightarrow> bool" where
  "keeps br br' \<longleftrightarrow> wf_broker br' \<and> br_policy br' = br_policy br \<and> (\<forall>g. spent g br \<longrightarrow> spent g br')"

lemma keeps_refl: "wf_broker br \<Longrightarrow> keeps br br"
  by (simp add: keeps_def)

lemma keeps_audit [simp]: "keeps br (audit ev q br') = keeps br br'"
  by (simp add: keeps_def spent_def)

lemma spent_other: "\<forall>g. g \<noteq> i \<longrightarrow> get_request g br' = get_request g br \<Longrightarrow> \<not> spent i br \<Longrightarrow> spent g br \<Longrightarrow> spent g br'"
  by (cases "g = i") (auto simp: spent_def)

lemma keeps_new_request:
  assumes wf: "wf_broker br" and fresh: "get_request (pr_request_id q) br = None" and ok: "request_ok q"
  shows "keeps br (fst (emit_requested_hook hook now q (audit ev q (insert_request q br))))"
proof -
  have none: "\<not> spent (pr_request_id q) br" using fresh by (simp add: spent_def)
  show ?thesis
  proof (cases "hook q")
    case None
    then show ?thesis
      using wf fresh ok none spent_other [of "pr_request_id q" "insert_request q br" br]
      by (auto simp: emit_requested_hook_def keeps_def wf_insert spent_def [of _ "audit _ _ _"]) (auto simp: spent_def)
  next
    case (Some fb)
    let ?d = "q\<lparr>pr_status := Request_denied, pr_decision := Some DENY_WITH_FEEDBACK, pr_decided_by := Some ''policy:hook'',
      pr_decision_reason := (if fb = [] then ''PermissionRequested hook denied'' else fb), pr_decided_at := Some now\<rparr>"
    have "request_ok ?d" by (simp add: request_ok_def)
    then have "wf_broker (update_request ?d (audit ev q (insert_request q br)))"
      using wf ok by (intro wf_update) (simp_all add: wf_insert)
    then show ?thesis
      using Some fresh none
      by (auto simp: emit_requested_hook_def Let_def keeps_def spent_def)
  qed
qed

lemma keeps_mark_used:
  assumes "wf_broker br" "get_request g br = Some q" "pr_status q \<noteq> Request_pending"
  shows "keeps br (mark_used now g br)"
proof -
  have q: "pr_request_id q = g" "request_ok q" using wf_broker_get [OF assms(1,2)] by simp_all
  then have "request_ok (q\<lparr>pr_used_at := Some now\<rparr>)" using assms(3) by (simp add: request_ok_def)
  with assms q show ?thesis by (auto simp: mark_used_def keeps_def wf_update spent_def)
qed

lemma keeps_decide: "wf_broker br \<Longrightarrow> keeps br (fst (decide_request now i decision who reason br))"
proof (cases "get_request i br")
  case None
  assume "wf_broker br"
  with None show ?thesis by (simp add: decide_request_def keeps_refl)
next
  case (Some q)
  assume wf: "wf_broker br"
  have q: "pr_request_id q = i" "request_ok q" using wf_broker_get [OF wf Some] by simp_all
  show ?thesis
  proof (cases "principal who \<and> pr_status q = Request_pending")
    case False
    with Some wf show ?thesis by (auto simp: decide_request_def keeps_refl)
  next
    case True
    let ?d = "q\<lparr>pr_status := (if decision \<in> {APPROVE_ONCE, APPROVE_FOR_RUN} then Request_approved else Request_denied),
      pr_decision := Some decision, pr_decided_by := Some who, pr_decision_reason := reason,
      pr_scope := (if decision = APPROVE_FOR_RUN then Scope_run else Scope_once), pr_decided_at := Some now\<rparr>"
    have "request_ok ?d" using True by (cases decision) (auto simp: request_ok_def)
    then have "wf_broker (update_request ?d br)" using wf by (simp add: wf_update)
    with True Some q show ?thesis by (auto simp: decide_request_def Let_def keeps_def spent_def)
  qed
qed

lemma keeps_use_grant:
  assumes "wf_broker br" "matching_grant q br = Some g"
  shows "keeps br (use_grant now g br)"
  using matching_grant_Some [OF assms] keeps_mark_used [OF assms(1), of "pr_request_id g" g now]
  by (simp add: use_grant_def keeps_refl assms(1))

lemma keeps_authorize:
  assumes "wf_broker br" "get_request (pr_request_id q) br = None" "request_ok q"
  shows "keeps br (fst (authorize_request hook now q br))"
  using keeps_use_grant [OF assms(1), of q _ now] keeps_new_request [OF assms]
  by (auto simp: authorize_request_def Let_def keeps_refl assms(1) case_prod_unfold split: option.split policy_outcome.split)

lemma keeps_exec: "wf_broker br \<Longrightarrow> fresh_op op br \<Longrightarrow> keeps br (broker_exec fp op br)"
  by (cases op) (simp_all add: authorize_def request_permission_def Let_def keeps_authorize keeps_new_request keeps_decide)

lemma keeps_trans: "keeps a b \<Longrightarrow> keeps b c \<Longrightarrow> keeps a c"
  by (simp add: keeps_def)

lemma keeps_execs: "wf_broker br \<Longrightarrow> fresh_ops fp ops br \<Longrightarrow> keeps br (broker_execs fp ops br)"
proof (induction ops arbitrary: br)
  case Nil
  then show ?case by (simp add: broker_execs_def keeps_refl)
next
  case (Cons op ops)
  have k: "keeps br (broker_exec fp op br)" using Cons.prems by (simp add: keeps_exec)
  then have "keeps (broker_exec fp op br) (broker_execs fp ops (broker_exec fp op br))"
    using Cons.prems(2) by (intro Cons.IH) (simp_all add: keeps_def)
  from keeps_trans [OF k this] show ?case by (simp add: broker_execs_def)
qed

section \<open>Uses of a grant\<close>

fun uses_once :: "fingerprinter \<Rightarrow> string \<Rightarrow> broker_op \<Rightarrow> broker \<Rightarrow> bool" where
  "uses_once fp g (Authorize hook rid t1 t2 run agent kind operation params reason) br =
     (case matching_grant (new_request fp rid t1 run agent kind operation params reason) br of
        None \<Rightarrow> False
      | Some q \<Rightarrow> pr_request_id q = g \<and> pr_decision q = Some APPROVE_ONCE)"
| "uses_once fp g op br = False"

fun once_uses :: "fingerprinter \<Rightarrow> string \<Rightarrow> broker_op list \<Rightarrow> broker \<Rightarrow> nat" where
  "once_uses fp g [] br = 0"
| "once_uses fp g (op # ops) br =
     (if uses_once fp g op br then 1 else 0) + once_uses fp g ops (broker_exec fp op br)"

lemma spent_not_matched:
  assumes "wf_broker br" "matching_grant q br = Some g" "pr_decision g = Some APPROVE_ONCE"
  shows "\<not> spent (pr_request_id g) br"
  using matching_grant_Some [OF assms(1,2)] assms(3) by (auto simp: spent_def grants_def)

lemma use_grant_spent:
  assumes "wf_broker br" "matching_grant q br = Some g" "pr_decision g = Some APPROVE_ONCE"
  shows "spent (pr_request_id g) (use_grant now g br)"
  using matching_grant_Some [OF assms(1,2)] assms(3) by (simp add: use_grant_def mark_used_def spent_def)

lemma uses_once_spent:
  assumes "wf_broker br" "uses_once fp g op br"
  shows "\<not> spent g br \<and> spent g (broker_exec fp op br)"
  using assms spent_not_matched [OF assms(1)] use_grant_spent [OF assms(1)]
  by (cases op) (auto simp: authorize_def authorize_request_def split: option.splits)

lemma spent_no_uses:
  "wf_broker br \<Longrightarrow> fresh_ops fp ops br \<Longrightarrow> spent g br \<Longrightarrow> once_uses fp g ops br = 0"
proof (induction ops arbitrary: br)
  case (Cons op ops)
  have "keeps br (broker_exec fp op br)" using Cons.prems by (simp add: keeps_exec)
  with Cons.prems Cons.IH uses_once_spent [OF Cons.prems(1)] show ?case by (auto simp: keeps_def)
qed simp

lemma once_uses_le: "wf_broker br \<Longrightarrow> fresh_ops fp ops br \<Longrightarrow> once_uses fp g ops br \<le> 1"
proof (induction ops arbitrary: br)
  case (Cons op ops)
  have k: "wf_broker (broker_exec fp op br)" using keeps_exec [of br op fp] Cons.prems by (simp add: keeps_def)
  show ?case
  proof (cases "uses_once fp g op br")
    case True
    from uses_once_spent [OF Cons.prems(1) True] spent_no_uses [OF k] Cons.prems(2) True show ?thesis by simp
  next
    case False
    with Cons.IH [OF k] Cons.prems(2) show ?thesis by simp
  qed
qed simp

definition empty_broker :: "permission_policy \<Rightarrow> broker" where
  "empty_broker pol = \<lparr>br_policy = pol, br_requests = [], br_audit = []\<rparr>"

lemma empty_broker_wf: "wf_broker (empty_broker pol)"
  by (simp add: wf_broker_def empty_broker_def)

section \<open>Properties\<close>

text \<open>C10: From an empty table, whatever was requested and decided (with fresh request ids), an authorisation is
  granted only when the policy allows the kind outright, or when a stored request of the same run, agent
  and fingerprint was approved by a user or lead principal; a hook can only deny.\<close>

theorem authorization_needs_principal:
  assumes "fresh_ops fp ops (empty_broker pol)"
    "authorize fp hook rid t1 t2 run agent kind operation params reason (broker_execs fp ops (empty_broker pol))
       = (br', Authorized)"
  shows "evaluate pol kind = Policy_ALLOW \<or>
    (\<exists>i q who. get_request i (broker_execs fp ops (empty_broker pol)) = Some q \<and> pr_run_id q = run \<and>
       pr_agent_id q = agent \<and> pr_fingerprint q = fp kind operation params \<and> pr_status q = Request_approved \<and>
       pr_decided_by q = Some who \<and> principal who)"
proof -
  let ?br = "broker_execs fp ops (empty_broker pol)"
  have k: "wf_broker ?br" "br_policy ?br = pol"
    using keeps_execs [OF empty_broker_wf assms(1)] by (simp_all add: keeps_def empty_broker_def)
  let ?q = "new_request fp rid t1 run agent kind operation params reason"
  show ?thesis
  proof (cases "matching_grant ?q ?br")
    case (Some g)
    from matching_grant_Some [OF k(1) Some] show ?thesis by (auto simp: request_ok_def)
  next
    case None
    with assms(2) k(2) show ?thesis
      by (auto simp: authorize_def authorize_request_def Let_def split: policy_outcome.splits prod.splits if_splits)
  qed
qed

definition demo_fp :: fingerprinter where
  "demo_fp kind operation params = operation"

definition demo_ops :: "permission_decision \<Rightarrow> broker_op list" where
  "demo_ops d = [Authorize (\<lambda>_. None) ''q1'' 1 1 ''r'' ''a'' SHELL ''ls'' [] [],
     Decide 2 ''q1'' d ''agent-7'' [], Decide 3 ''q1'' d ''user:ann'' []]"

lemma demo_ops_fresh: "fresh_ops demo_fp (demo_ops APPROVE_ONCE) (empty_broker default_policy)"
  by code_simp

theorem authorization_needs_principal_witness:
  "\<exists>br' i q who. authorize demo_fp (\<lambda>_. None) ''q2'' 4 4 ''r'' ''a'' SHELL ''ls'' [] []
      (broker_execs demo_fp (demo_ops APPROVE_ONCE) (empty_broker default_policy)) = (br', Authorized) \<and>
    get_request i (broker_execs demo_fp (demo_ops APPROVE_ONCE) (empty_broker default_policy)) = Some q \<and>
    pr_decided_by q = Some who \<and> principal who"
proof -
  let ?a = "authorize demo_fp (\<lambda>_. None) ''q2'' 4 4 ''r'' ''a'' SHELL ''ls'' [] []
      (broker_execs demo_fp (demo_ops APPROVE_ONCE) (empty_broker default_policy))"
  obtain br' out where a: "?a = (br', out)" by force
  have "snd ?a = Authorized" by code_simp
  then have auth: "?a = (br', Authorized)" using a by simp
  have "evaluate default_policy SHELL \<noteq> Policy_ALLOW" by code_simp
  with authorization_needs_principal [OF demo_ops_fresh auth] auth show ?thesis by blast
qed

text \<open>C11: An approve-once grant authorises at most once over any sequence of authorisations, requests and
  decisions, each taken as one step.\<close>

theorem approve_once_used_once:
  assumes "fresh_ops fp ops (empty_broker pol)"
  shows "once_uses fp g ops (empty_broker pol) \<le> 1"
  using once_uses_le [OF empty_broker_wf assms] .

theorem approve_once_used_once_witness:
  "once_uses demo_fp ''q1'' (demo_ops APPROVE_ONCE @
     [Authorize (\<lambda>_. None) ''q2'' 4 4 ''r'' ''a'' SHELL ''ls'' [] [], Authorize (\<lambda>_. None) ''q3'' 5 5 ''r'' ''a'' SHELL ''ls'' [] []])
     (empty_broker default_policy) = 1 \<and>
   once_uses demo_fp ''q1'' (demo_ops APPROVE_ONCE @
     [Authorize (\<lambda>_. None) ''q2'' 4 4 ''r'' ''a'' SHELL ''ls'' [] [], Authorize (\<lambda>_. None) ''q3'' 5 5 ''r'' ''a'' SHELL ''ls'' [] []])
     (empty_broker default_policy) \<le> 1"
proof
  let ?ops = "demo_ops APPROVE_ONCE @ [Authorize (\<lambda>_. None) ''q2'' 4 4 ''r'' ''a'' SHELL ''ls'' [] [],
     Authorize (\<lambda>_. None) ''q3'' 5 5 ''r'' ''a'' SHELL ''ls'' [] []]"
  show "once_uses demo_fp ''q1'' ?ops (empty_broker default_policy) = 1" by code_simp
  have "fresh_ops demo_fp ?ops (empty_broker default_policy)" by code_simp
  then show "once_uses demo_fp ''q1'' ?ops (empty_broker default_policy) \<le> 1" by (rule approve_once_used_once)
qed

text \<open>
  Two authorisations that interleave: each reads its matching grant before the other records its use; the
  two statements of \<open>authorize\<close> are in no common transaction.
\<close>

definition interleaved_authorize :: "time \<Rightarrow> time \<Rightarrow> permission_request \<Rightarrow> permission_request \<Rightarrow> broker
    \<Rightarrow> broker \<times> bool \<times> bool" where
  "interleaved_authorize t1 t2 q1 q2 br =
     (let g1 = matching_grant q1 br; g2 = matching_grant q2 br;
          br1 = (case g1 of None \<Rightarrow> br | Some g \<Rightarrow> use_grant t1 g br);
          br2 = (case g2 of None \<Rightarrow> br1 | Some g \<Rightarrow> use_grant t2 g br1)
      in (br2, g1 \<noteq> None, g2 \<noteq> None))"

text \<open>Two interleaved authorisations of the same operation both pass on one approve-once grant, although
  one after the other the second would not find it.\<close>

theorem approve_once_not_atomic:
  assumes "wf_broker br" "matching_grant q br = Some g" "pr_decision g = Some APPROVE_ONCE"
  shows "snd (interleaved_authorize t1 t2 q q br) = (True, True) \<and>
    (\<forall>g'. matching_grant q (use_grant t1 g br) = Some g' \<longrightarrow> pr_request_id g' \<noteq> pr_request_id g)"
proof -
  have "wf_broker (use_grant t1 g br)" using keeps_use_grant [OF assms(1,2), of t1] by (simp add: keeps_def)
  moreover have s: "spent (pr_request_id g) (use_grant t1 g br)" by (rule use_grant_spent [OF assms])
  ultimately have "pr_request_id g' \<noteq> pr_request_id g" if "matching_grant q (use_grant t1 g br) = Some g'" for g'
    using matching_grant_Some [OF _ that] by (auto simp: spent_def grants_def)
  with assms(2) show ?thesis by (simp add: interleaved_authorize_def Let_def)
qed

theorem approve_once_not_atomic_witness:
  "\<exists>q. snd (interleaved_authorize 5 6 q q (broker_execs demo_fp (demo_ops APPROVE_ONCE) (empty_broker default_policy)))
     = (True, True)"
proof -
  let ?br = "broker_execs demo_fp (demo_ops APPROVE_ONCE) (empty_broker default_policy)"
  let ?q = "new_request demo_fp ''q2'' 4 ''r'' ''a'' SHELL ''ls'' [] []"
  have "map_option pr_decision (matching_grant ?q ?br) = Some (Some APPROVE_ONCE)" by code_simp
  then obtain g where g: "matching_grant ?q ?br = Some g" "pr_decision g = Some APPROVE_ONCE" by auto
  have "wf_broker ?br" using keeps_execs [OF empty_broker_wf demo_ops_fresh] by (simp add: keeps_def)
  from approve_once_not_atomic [OF this g] show ?thesis by blast
qed

end
