(* ===== verification/Plan_Approval.thy ===== *)
theory Plan_Approval
  imports Py_Prelude
begin

text \<open>
  \<open>app/multiagent/plan_approval.py\<close>: the approval gate of teammate plans over its durable table.
\<close>

datatype plan_status = Plan_PLANNING | Plan_WAITING | Plan_APPROVED | Plan_REJECTED

record teammate_plan =
  tp_plan_id :: string
  tp_run_id :: string
  tp_agent_id :: string
  tp_task_id :: string
  tp_files :: "string list"
  tp_steps :: "string list"
  tp_test_strategy :: "string list"
  tp_risks :: "string list"
  tp_rollback :: string
  tp_status :: plan_status
  tp_submitted_at :: time
  tp_decided_at :: "time option"
  tp_decided_by :: "string option"
  tp_feedback :: string

text \<open>A row keeps its \<open>run_id\<close> column when an existing plan is saved again; status and payload are replaced.\<close>

record plan_row =
  plr_run_id :: string
  plr_status :: plan_status
  plr_payload :: teammate_plan

type_synonym plan_table = "(string \<times> plan_row) list"

definition save_plan :: "teammate_plan \<Rightarrow> plan_table \<Rightarrow> plan_table" where
  "save_plan p ps =
     AList.update (tp_plan_id p)
       (case map_of ps (tp_plan_id p) of
          None \<Rightarrow> \<lparr>plr_run_id = tp_run_id p, plr_status = tp_status p, plr_payload = p\<rparr>
        | Some row \<Rightarrow> row\<lparr>plr_status := tp_status p, plr_payload := p\<rparr>) ps"

definition get_plan :: "string \<Rightarrow> plan_table \<Rightarrow> teammate_plan option" where
  "get_plan i ps = map_option plr_payload (map_of ps i)"

definition submit_plan :: "time \<Rightarrow> teammate_plan \<Rightarrow> plan_table \<Rightarrow> plan_table \<times> teammate_plan" where
  "submit_plan now p ps =
     (let p' = (if tp_steps p = [] \<or> tp_test_strategy p = []
                then p\<lparr>tp_status := Plan_REJECTED, tp_feedback := ''plan requires steps and test strategy'',
                       tp_decided_by := Some ''lead:auto'', tp_decided_at := Some now\<rparr>
                else if tp_risks p = [] \<and> length (tp_files p) \<le> 10
                then p\<lparr>tp_status := Plan_APPROVED, tp_decided_by := Some ''lead:auto'', tp_decided_at := Some now\<rparr>
                else p\<lparr>tp_status := Plan_WAITING\<rparr>)
      in (save_plan p' ps, p'))"

datatype plan_error = PlanPermissionError | UnknownPlan string

definition plan_decider :: "string \<Rightarrow> bool" where
  "plan_decider who \<longleftrightarrow> starts_with ''user'' who \<or> starts_with ''lead'' who"

definition decide_plan :: "time \<Rightarrow> string \<Rightarrow> bool \<Rightarrow> string \<Rightarrow> string \<Rightarrow> plan_table
    \<Rightarrow> plan_table \<times> (plan_error + teammate_plan)" where
  "decide_plan now i approved who feedback ps =
     (if \<not> plan_decider who then (ps, Inl PlanPermissionError)
      else case get_plan i ps of
             None \<Rightarrow> (ps, Inl (UnknownPlan i))
           | Some p \<Rightarrow>
               let p' = p\<lparr>tp_status := (if approved then Plan_APPROVED else Plan_REJECTED),
                          tp_decided_by := Some who, tp_decided_at := Some now, tp_feedback := feedback\<rparr>
               in (save_plan p' ps, Inr p'))"

definition pending_plans :: "string \<Rightarrow> plan_table \<Rightarrow> teammate_plan list" where
  "pending_plans r ps =
     map plr_payload (filter (\<lambda>row. plr_run_id row = r \<and> plr_status row = Plan_WAITING) (map snd ps))"

end
