(* ===== verification/Governance_Props.thy ===== *)
theory Governance_Props
  imports Shell_Policy Permission_Props Plan_Approval
begin

text \<open>
  Properties of the command policy together with the permission policy, and of the plan approval gate.
\<close>

section \<open>Commands\<close>

definition dangerous_cmds :: "string list" where
  "dangerous_cmds = PRIVILEGE_CMDS @ DESTRUCTIVE_CMDS @ NETWORK_CMDS @ PACKAGE_CMDS"

definition dangerous_category :: "string \<Rightarrow> command_category" where
  "dangerous_category exe =
     (if exe \<in> set PRIVILEGE_CMDS then Cmd_PRIVILEGE_ESCALATION
      else if exe \<in> set DESTRUCTIVE_CMDS then Cmd_FILESYSTEM_DESTRUCTIVE
      else if exe \<in> set NETWORK_CMDS then Cmd_NETWORK else Cmd_PACKAGE_MANAGEMENT)"

lemma dangerous_not_special:
  "exe \<in> set dangerous_cmds \<Longrightarrow> exe \<notin> {''powershell'', ''pwsh'', ''cmd''}"
proof -
  have "list_all (\<lambda>e. e \<notin> {''powershell'', ''pwsh'', ''cmd''}) dangerous_cmds" by code_simp
  then show "exe \<in> set dangerous_cmds \<Longrightarrow> exe \<notin> {''powershell'', ''pwsh'', ''cmd''}"
    by (simp only: list_all_iff) blast
qed

lemma classify_dangerous:
  assumes "argv \<noteq> []" "executable_name argv \<in> set dangerous_cmds"
  shows "classify_argv argv = dangerous_category (executable_name argv)"
  using dangerous_not_special [OF assms(2)] assms
  by (auto simp: classify_argv_def dangerous_category_def dangerous_cmds_def Let_def)

lemma shell_gate_run:
  "shell_gate resolve cwd cwd_parts is_dir has_broker argv = Gate_run \<Longrightarrow>
    argv \<noteq> [] \<and> classify_argv argv \<in> {Cmd_READ_ONLY, Cmd_BUILD_TEST} \<and>
    (classify_argv argv = Cmd_READ_ONLY \<longrightarrow> workspace_escape resolve cwd cwd_parts (tl argv) = None)"
  by (cases "classify_argv argv") (auto simp: shell_gate_def Let_def split: if_splits option.splits)

lemma workspace_escape_None:
  "workspace_escape resolve cwd cwd_parts as = None \<Longrightarrow>
    \<forall>a \<in> set as. a = [] \<or> starts_with ''-'' a \<or> \<not> path_like a \<or> inside_root resolve cwd cwd_parts a"
  by (induction as) (auto split: if_splits)

text \<open>A command whose program is a privilege, destructive, network or package tool (whatever its directory,
  case and .exe suffix, and whatever its arguments) never runs by itself: with a broker it needs an
  authorisation of the kind of its category, without one it is refused; and the default policy refuses the
  privileged and destructive ones outright.\<close>

theorem dangerous_commands_are_gated:
  assumes "argv \<noteq> []" "executable_name argv \<in> set dangerous_cmds"
  shows "shell_gate resolve cwd cwd_parts True True argv =
      Gate_authorize (command_permission_kind (dangerous_category (executable_name argv))) \<and>
    shell_gate resolve cwd cwd_parts True False argv = Gate_forbidden (dangerous_category (executable_name argv)) \<and>
    (executable_name argv \<in> set (PRIVILEGE_CMDS @ DESTRUCTIVE_CMDS) \<longrightarrow>
      evaluate default_policy (command_permission_kind (dangerous_category (executable_name argv))) = Policy_DENY) \<and>
    evaluate default_policy (command_permission_kind (dangerous_category (executable_name argv))) \<noteq> Policy_ALLOW"
proof -
  note c = classify_dangerous [OF assms]
  have "dangerous_category e \<in> {Cmd_PRIVILEGE_ESCALATION, Cmd_FILESYSTEM_DESTRUCTIVE, Cmd_NETWORK, Cmd_PACKAGE_MANAGEMENT}"
    for e by (simp add: dangerous_category_def)
  then show ?thesis
    using c assms(1)
    by (auto simp: shell_gate_def Let_def command_permission_kind_def evaluate_def default_policy_def
        dangerous_category_def split: if_splits)
qed

theorem dangerous_commands_are_gated_witness:
  "executable_name [''/usr/bin/SUDO.exe'', ''ls''] = ''sudo'' \<and>
   shell_gate (\<lambda>_. None) ''/w'' [''w''] True False [''/usr/bin/SUDO.exe'', ''ls''] = Gate_forbidden Cmd_PRIVILEGE_ESCALATION"
proof
  show n: "executable_name [''/usr/bin/SUDO.exe'', ''ls''] = ''sudo''" by code_simp
  have "''sudo'' \<in> set dangerous_cmds" "dangerous_category ''sudo'' = Cmd_PRIVILEGE_ESCALATION" by code_simp+
  then show "shell_gate (\<lambda>_. None) ''/w'' [''w''] True False [''/usr/bin/SUDO.exe'', ''ls''] = Gate_forbidden Cmd_PRIVILEGE_ESCALATION"
    using dangerous_commands_are_gated [of "[''/usr/bin/SUDO.exe'', ''ls'']" "\<lambda>_. None" "''/w''" "[''w'']"] n by simp
qed

text \<open>What runs without an authorisation is of the read-only or build-and-test category, and a read-only
  command has no argument that looks like a path and resolves outside the workspace.\<close>

theorem unattended_commands_stay_inside:
  assumes "shell_gate resolve cwd cwd_parts is_dir has_broker argv = Gate_run"
  shows "classify_argv argv = Cmd_BUILD_TEST \<or>
    (classify_argv argv = Cmd_READ_ONLY \<and>
     (\<forall>a \<in> set (tl argv). a \<noteq> [] \<and> \<not> starts_with ''-'' a \<and> path_like a \<longrightarrow>
        (\<exists>parts. resolve (if absolute_arg a then a else cwd @ ''/'' @ a) = Some parts \<and>
           take (length cwd_parts) parts = cwd_parts)))"
proof -
  note g = shell_gate_run [OF assms]
  have "\<exists>parts. resolve (if absolute_arg a then a else cwd @ ''/'' @ a) = Some parts \<and>
      take (length cwd_parts) parts = cwd_parts"
    if "classify_argv argv = Cmd_READ_ONLY" "a \<in> set (tl argv)" "a \<noteq> [] \<and> \<not> starts_with ''-'' a \<and> path_like a" for a
  proof -
    have "workspace_escape resolve cwd cwd_parts (tl argv) = None" using g that(1) by simp
    from workspace_escape_None [OF this] that(2,3) have "inside_root resolve cwd cwd_parts a" by blast
    then show ?thesis
      unfolding inside_root_def
      by (cases "resolve (if absolute_arg a then a else cwd @ ''/'' @ a)") (simp_all del: if_split)
  qed
  with g show ?thesis by blast
qed

theorem unattended_commands_stay_inside_witness:
  "shell_gate (\<lambda>p. Some (path_parts p)) ''/w'' [''w''] True False [''head'', ''a/b''] = Gate_run \<and>
   shell_gate (\<lambda>p. Some (path_parts p)) ''/w'' [''w''] True False [''head'', ''/etc/passwd''] = Gate_escape ''/etc/passwd'' \<and>
   classify_argv [''head'', ''a/b''] \<in> {Cmd_BUILD_TEST, Cmd_READ_ONLY}"
proof (intro conjI)
  show r: "shell_gate (\<lambda>p. Some (path_parts p)) ''/w'' [''w''] True False [''head'', ''a/b''] = Gate_run" by code_simp
  show "shell_gate (\<lambda>p. Some (path_parts p)) ''/w'' [''w''] True False [''head'', ''/etc/passwd''] = Gate_escape ''/etc/passwd''"
    by code_simp
  show "classify_argv [''head'', ''a/b''] \<in> {Cmd_BUILD_TEST, Cmd_READ_ONLY}"
    using unattended_commands_stay_inside [OF r] by blast
qed

text \<open>The escalation of inline scripts and destructive flags has gaps: whatever the code (not starting with
  a dash), package or shell command, \<open>python -Bc CODE\<close>, \<open>python -m pip install PACKAGE\<close>, \<open>find . -delete\<close>, \<open>sed "1e COMMAND"\<close> (without a
  semicolon and path separators) and \<open>git remote add\<close> run without any authorisation.\<close>

theorem escalation_gaps:
  "(\<not> starts_with ''-'' code \<longrightarrow>
     shell_gate resolve cwd cwd_parts True has_broker [''python'', ''-Bc'', code] = Gate_run) \<and>
   shell_gate resolve cwd cwd_parts True has_broker [''python'', ''-m'', ''pip'', ''install'', code] = Gate_run \<and>
   shell_gate resolve cwd cwd_parts True has_broker [''find'', ''.'', ''-delete''] = Gate_run \<and>
   (\<not> path_like url \<longrightarrow> shell_gate resolve cwd cwd_parts True has_broker [''git'', ''remote'', ''add'', ''o'', url] = Gate_run) \<and>
   (\<not> path_like (''1e '' @ c) \<and> CHR '';'' \<notin> set c \<longrightarrow>
     shell_gate resolve cwd cwd_parts True has_broker [''sed'', ''1e '' @ c, ''f''] = Gate_run)"
proof (intro conjI impI)
  have n: "executable_name (''python'' # as) = ''python''" "executable_name (''find'' # as) = ''find''"
    "executable_name (''sed'' # as) = ''sed''" "executable_name (''git'' # as) = ''git''" for as
    by (simp_all add: executable_name_def) code_simp+
  have low: "lower ''remote'' = ''remote''" by code_simp
  have plain: "\<not> path_like ''.''" "\<not> path_like ''remote''" "\<not> path_like ''add''" "\<not> path_like ''o''" "\<not> path_like ''f''"
    by code_simp+
  note gate = shell_gate_def classify_argv_def Let_def n PRIVILEGE_CMDS_def DESTRUCTIVE_CMDS_def NETWORK_CMDS_def
    PACKAGE_CMDS_def BUILD_TEST_CMDS_def READ_ONLY_CMDS_def
  show "shell_gate resolve cwd cwd_parts True has_broker [''python'', ''-Bc'', code] = Gate_run"
    if "\<not> starts_with ''-'' code"
    using that by (simp add: gate has_inline_script_def inline_script_flags_def lstrip_dash_def)
  show "shell_gate resolve cwd cwd_parts True has_broker [''python'', ''-m'', ''pip'', ''install'', code] = Gate_run"
    by (simp add: gate has_inline_script_def inline_script_flags_def lstrip_dash_def)
  show "shell_gate resolve cwd cwd_parts True has_broker [''find'', ''.'', ''-delete''] = Gate_run"
    by (simp add: gate has_exec_payload_def EXEC_FLAGS_def plain)
  show "shell_gate resolve cwd cwd_parts True has_broker [''git'', ''remote'', ''add'', ''o'', url] = Gate_run" if "\<not> path_like url"
    using that by (simp add: gate classify_git_def low GIT_WRITE_CMDS_def GIT_READ_CMDS_def plain)
  show "shell_gate resolve cwd cwd_parts True has_broker [''sed'', ''1e '' @ c, ''f''] = Gate_run"
    if "\<not> path_like (''1e '' @ c) \<and> CHR '';'' \<notin> set c"
    using that by (simp add: gate sed_is_destructive_def plain)
qed

theorem escalation_gaps_witness:
  "shell_gate (\<lambda>_. None) ''/w'' [''w''] True False [''sed'', ''1e id'', ''f''] = Gate_run"
proof -
  have "\<not> path_like (''1e '' @ ''id'') \<and> CHR '';'' \<notin> set ''id''" by code_simp
  with escalation_gaps [of "[]" "\<lambda>_. None" "''/w''" "[''w'']" False "[]" "''id''"] show ?thesis by simp
qed

section \<open>Plans\<close>

text \<open>A submitted plan is approved on the spot only when it has steps and tests, names no risk and touches at
  most ten files; a plan without steps or tests is rejected; any other waits and is listed until it is
  decided, which only a decider whose name starts with user or lead can do.\<close>

theorem plan_gate:
  assumes "submit_plan now p ps = (ps', p')"
    and "\<forall>row. map_of ps (tp_plan_id p) = Some row \<longrightarrow> plr_run_id row = tp_run_id p"
  shows "(tp_status p' = Plan_APPROVED \<longleftrightarrow>
      tp_steps p \<noteq> [] \<and> tp_test_strategy p \<noteq> [] \<and> tp_risks p = [] \<and> length (tp_files p) \<le> 10) \<and>
    (tp_status p' = Plan_REJECTED \<longleftrightarrow> tp_steps p = [] \<or> tp_test_strategy p = []) \<and>
    (tp_status p' = Plan_WAITING \<longrightarrow> p' \<in> set (pending_plans (tp_run_id p) ps')) \<and>
    get_plan (tp_plan_id p) ps' = Some p' \<and>
    (\<forall>who. \<not> plan_decider who \<longrightarrow> fst (decide_plan now (tp_plan_id p) approved who fb ps') = ps') \<and>
    (\<forall>who. plan_decider who \<longrightarrow> (\<exists>q. snd (decide_plan now (tp_plan_id p) approved who fb ps') = Inr q \<and>
       tp_status q = (if approved then Plan_APPROVED else Plan_REJECTED)))"
proof -
  have id: "tp_plan_id p' = tp_plan_id p" "tp_run_id p' = tp_run_id p" and ps': "ps' = save_plan p' ps"
    using assms(1) by (auto simp: submit_plan_def Let_def)
  have m: "map_of ps' (tp_plan_id p) = Some \<lparr>plr_run_id = tp_run_id p, plr_status = tp_status p', plr_payload = p'\<rparr>"
    using assms(2) unfolding ps' save_plan_def id by (auto simp: AList.update_conv' split: option.splits)
  have "p' \<in> set (pending_plans (tp_run_id p) ps')" if "tp_status p' = Plan_WAITING"
    using map_of_SomeD [OF m] that by (force simp: pending_plans_def)
  moreover have "get_plan (tp_plan_id p) ps' = Some p'" using m by (simp add: get_plan_def)
  ultimately show ?thesis using assms(1)
    by (auto simp: submit_plan_def decide_plan_def Let_def split: if_splits)
qed

definition demo_plan :: teammate_plan where
  "demo_plan = \<lparr>tp_plan_id = ''p'', tp_run_id = ''r'', tp_agent_id = ''a'', tp_task_id = ''t'', tp_files = [],
     tp_steps = [''s''], tp_test_strategy = [''u''], tp_risks = [''data loss''], tp_rollback = [],
     tp_status = Plan_WAITING, tp_submitted_at = 0, tp_decided_at = None, tp_decided_by = None, tp_feedback = []\<rparr>"

theorem plan_gate_witness:
  "\<exists>ps p. submit_plan 1 demo_plan [] = (ps, p) \<and> p \<in> set (pending_plans ''r'' ps) \<and>
    (\<exists>q. snd (decide_plan 1 ''p'' True ''leaderboard-bot'' [] ps) = Inr q \<and> tp_status q = Plan_APPROVED)"
proof -
  obtain ps p where s: "submit_plan 1 demo_plan [] = (ps, p)" by force
  then have "tp_status p = Plan_WAITING" by (auto simp: submit_plan_def demo_plan_def Let_def)
  moreover have "plan_decider ''leaderboard-bot''" "tp_run_id demo_plan = ''r''" "tp_plan_id demo_plan = ''p''"
    by code_simp+
  ultimately show ?thesis using plan_gate [OF s, of True "[]"] s by auto
qed

end
