(* ===== verification/Scheduler.thy ===== *)
theory Scheduler
  imports Task_Graph Task_Board Agent_Registry Permission Shell_Policy
begin

text \<open>
  \<open>app/multiagent/parallel_scheduler.py\<close>: the decisions of the dispatch loop of one run, as functions of
  the board, the registry, the plan and the tasks in flight. The coroutine that runs one task, the
  heartbeats and the events are not modelled; whether the run is paused or cancelled, the results of the
  integration checks and the clock readings are arguments. The properties are in \<open>Scheduler_Props\<close>.
\<close>

section \<open>Configuration and outcomes\<close>

datatype schedule_status =
    Schedule_COMPLETED | Schedule_FAILED | Schedule_INCOMPLETE | Schedule_CANCELLED
  | Schedule_WAITING_HUMAN | Schedule_PAUSED

datatype schedule_error =
    No_error
  | Err_paused | Err_cancelled | Err_max_rounds
  | Err_intervention | Err_tasks_failed | Err_tasks_cancelled
  | Err_dead_dependency "string list"
  | Err_no_eligible_worker "string list list" "string list"
  | Err_deadlock
  | Err_pending_permissions | Err_merge_conflicts
  | Err_integration_unavailable | Err_integration_failed string | Err_integration_missing

record scheduler =
  sch_run_id :: string
  sch_max_rounds :: int
  sch_max_concurrency :: int
  sch_graph :: "task_graph option"

record run_result =
  rr_status :: schedule_status
  rr_rounds :: int
  rr_total :: nat
  rr_succeeded :: nat
  rr_failed :: nat
  rr_error :: schedule_error
  rr_summary :: "(string \<times> nat) list"

text \<open>\<open>_finalize\<close>; \<open>summary.get(key, 0)\<close>.\<close>

definition count_of :: "(string \<times> nat) list \<Rightarrow> string \<Rightarrow> nat" where
  "count_of s k = (case map_of s k of None \<Rightarrow> 0 | Some n \<Rightarrow> n)"

definition finalize :: "scheduler \<Rightarrow> int \<Rightarrow> schedule_status \<Rightarrow> schedule_error \<Rightarrow> task_board \<Rightarrow> run_result" where
  "finalize sch rounds status err b =
     (let s = summary (sch_run_id sch) b
      in \<lparr>rr_status = status, rr_rounds = rounds, rr_total = count_of s ''total'',
          rr_succeeded = count_of s (board_status_value Board_SUCCEEDED),
          rr_failed = count_of s (board_status_value Board_FAILED), rr_error = err, rr_summary = s\<rparr>)"

section \<open>Who can serve what\<close>

definition deps_satisfied :: "string \<Rightarrow> task_board \<Rightarrow> board_task \<Rightarrow> bool" where
  "deps_satisfied rid b t \<longleftrightarrow>
     list_all (\<lambda>d. case get d (Some rid) b of None \<Rightarrow> False | Some u \<Rightarrow> bt_status u = Board_SUCCEEDED)
       (bt_dependencies t)"

definition TOOL_CAPS :: "string list" where
  "TOOL_CAPS = [''file_read'', ''file_write'', ''shell_execute'', ''web_research'', ''mcp_access'', ''default'']"

definition agent_can_serve :: "agent_instance \<Rightarrow> board_task \<Rightarrow> bool" where
  "agent_can_serve a t =
     (let required = bt_required_capabilities t;
          primary = filter (\<lambda>c. c \<notin> set TOOL_CAPS) required
      in if required = [] then True
         else if set required \<subseteq> set (ag_capabilities a) then True
         else primary \<noteq> [] \<and> set primary \<subseteq> set (ag_capabilities a))"

definition task_allows_parallel :: "scheduler \<Rightarrow> string \<Rightarrow> bool" where
  "task_allows_parallel sch i =
     (case sch_graph sch of
        None \<Rightarrow> True
      | Some g \<Rightarrow> (case get_node g i of None \<Rightarrow> True | Some n \<Rightarrow> oc_allow_parallel (node_output_contract n)))"

section \<open>Choosing the next wave\<close>

definition idle_agents :: "string \<Rightarrow> agent_registry \<Rightarrow> agent_instance list" where
  "idle_agents rid reg = filter (\<lambda>a. ag_status a = Agent_IDLE) (agents_by_run rid reg)"

definition live_agents :: "string \<Rightarrow> agent_registry \<Rightarrow> agent_instance list" where
  "live_agents rid reg = filter (\<lambda>a. ag_status a \<notin> {Agent_STOPPED, Agent_FAILED}) (agents_by_run rid reg)"

definition ready_tasks_of :: "time \<Rightarrow> string \<Rightarrow> task_board \<Rightarrow> board_task list" where
  "ready_tasks_of now rid b = filter (deps_satisfied rid b) (list_pending now rid b)"

definition candidates :: "agent_instance list \<Rightarrow> board_task \<Rightarrow> agent_instance list" where
  "candidates as t = filter (\<lambda>a. agent_can_serve a t) as"

text \<open>The payload of \<open>TasksWaitingForCapability\<close>: ready tasks that no live agent can serve.\<close>

definition waiting_for_capability :: "time \<Rightarrow> scheduler \<Rightarrow> task_board \<Rightarrow> agent_registry \<Rightarrow> board_task list" where
  "waiting_for_capability now sch b reg =
     filter (\<lambda>t. candidates (idle_agents (sch_run_id sch) reg) t = [] \<and>
         \<not> list_ex (\<lambda>a. agent_can_serve a t) (live_agents (sch_run_id sch) reg))
       (ready_tasks_of now (sch_run_id sch) b)"

text \<open>\<open>{agent.agent_id: agent for agent in idle_agents}\<close>.\<close>

definition available_agents :: "agent_instance list \<Rightarrow> (string \<times> agent_instance) list" where
  "available_agents as = fold (\<lambda>a. AList.update (ag_agent_id a) a) as []"

definition exclusive_rank :: "board_task \<Rightarrow> int \<times> time \<times> string" where
  "exclusive_rank t = (- bt_priority t, bt_created_at t, bt_task_id t)"

definition wave_rank :: "agent_instance list \<Rightarrow> board_task \<Rightarrow> nat \<times> int \<times> time \<times> string" where
  "wave_rank idle t = (length (candidates idle t), exclusive_rank t)"

text \<open>The serviceable tasks that are not in flight, the most constrained first.\<close>

definition ordered_wave :: "time \<Rightarrow> scheduler \<Rightarrow> task_board \<Rightarrow> agent_registry \<Rightarrow> string list \<Rightarrow> board_task list" where
  "ordered_wave now sch b reg running =
     (let idle = idle_agents (sch_run_id sch) reg
      in sort_key (wave_rank idle)
           (filter (\<lambda>t. candidates idle t \<noteq> [] \<and> bt_task_id t \<notin> set running)
             (ready_tasks_of now (sch_run_id sch) b)))"

text \<open>The matching loop: \<open>hints\<close> is \<open>_dispatch_agent_hints\<close>. The capacity is tested after a task is taken.\<close>

fun match_wave :: "nat \<Rightarrow> board_task list \<Rightarrow> (string \<times> agent_instance) list \<Rightarrow> board_task list
    \<Rightarrow> (string \<times> string) list \<Rightarrow> board_task list \<times> (string \<times> string) list" where
  "match_wave cap [] available selected hints = (selected, hints)"
| "match_wave cap (t # ts) available selected hints =
     (let cs = candidates (map snd available) t
      in if cs = [] then match_wave cap ts available selected hints
         else let chosen = arg_min_list (\<lambda>a. length (ag_capabilities a)) cs;
                  selected' = selected @ [t];
                  hints' = AList.update (bt_task_id t) (ag_agent_id chosen) hints
              in if length selected' \<ge> cap then (selected', hints')
                 else match_wave cap ts (AList.delete (ag_agent_id chosen) available) selected' hints')"

definition dispatch_capacity :: "scheduler \<Rightarrow> string list \<Rightarrow> nat" where
  "dispatch_capacity sch running = nat (max 0 (sch_max_concurrency sch - int (length running)))"

definition discover_dispatchable :: "time \<Rightarrow> scheduler \<Rightarrow> task_board \<Rightarrow> agent_registry \<Rightarrow> string list
    \<Rightarrow> (string \<times> string) list \<Rightarrow> board_task list \<times> (string \<times> string) list" where
  "discover_dispatchable now sch b reg running hints =
     (let par = (\<lambda>t. task_allows_parallel sch (bt_task_id t));
          idle = idle_agents (sch_run_id sch) reg;
          capacity = dispatch_capacity sch running;
          ordered = ordered_wave now sch b reg running;
          exclusive_ready = filter (\<lambda>t. \<not> par t) ordered
      in if running \<noteq> [] then
           (if list_ex (\<lambda>i. \<not> task_allows_parallel sch i) running then ([], hints)
            else match_wave capacity (filter par ordered) (available_agents idle) [] hints)
         else if exclusive_ready \<noteq> [] then
           match_wave (min capacity 1) (take 1 (sort_key exclusive_rank exclusive_ready))
             (available_agents idle) [] hints
         else match_wave capacity ordered (available_agents idle) [] hints)"

section \<open>Waiting\<close>

definition seconds_of :: "int \<Rightarrow> seconds" where
  "seconds_of us = of_int us / 1000000"

text \<open>The loop of \<open>_next_retry_delay\<close>, with \<open>soonest\<close> as the accumulator.\<close>

fun retry_scan :: "time \<Rightarrow> board_task list \<Rightarrow> seconds option \<Rightarrow> seconds option" where
  "retry_scan now [] soonest = map_option (\<lambda>s. min s 5) soonest"
| "retry_scan now (t # ts) soonest =
     (if bt_status t \<noteq> Board_PENDING then retry_scan now ts soonest
      else case bt_next_attempt_at t of
             None \<Rightarrow> retry_scan now ts soonest
           | Some d \<Rightarrow>
               let remaining = seconds_of (d - now)
               in if remaining \<le> 0 then Some (1 / 20)
                  else retry_scan now ts
                    (case soonest of
                       None \<Rightarrow> Some remaining
                     | Some s \<Rightarrow> if remaining < s then Some remaining else soonest))"

definition next_retry_delay :: "time \<Rightarrow> string \<Rightarrow> task_board \<Rightarrow> seconds option" where
  "next_retry_delay now rid b = retry_scan now (list_by_run rid b) None"

definition wait_timeout :: "time \<Rightarrow> string \<Rightarrow> task_board \<Rightarrow> seconds" where
  "wait_timeout now rid b = (case next_retry_delay now rid b of None \<Rightarrow> 1 | Some r \<Rightarrow> min r 1)"

section \<open>Ending a run\<close>

text \<open>One integration check: an exception, or its label with the result.\<close>

datatype check_result = Check_raised | Check_done (check_label: string) (check_returncode: int)
  (check_cancelled: bool) (check_timed_out: bool)

fun run_checks :: "check_result list \<Rightarrow> (schedule_status \<times> schedule_error) option" where
  "run_checks [] = None"
| "run_checks (Check_raised # cs) = Some (Schedule_WAITING_HUMAN, Err_integration_unavailable)"
| "run_checks (Check_done label code cancelled timed_out # cs) =
     (if code \<noteq> 0 \<or> cancelled \<or> timed_out then Some (Schedule_FAILED, Err_integration_failed label)
      else run_checks cs)"

text \<open>
  \<open>_finalize_verified_run\<close>; \<open>integration\<close> is \<open>None\<close> without an integration manager, else the results of
  the planned checks and whether requirements are missing.
\<close>

definition verified_outcome :: "scheduler \<Rightarrow> broker \<Rightarrow> (check_result list \<times> bool) option \<Rightarrow> task_board
    \<Rightarrow> schedule_status \<times> schedule_error" where
  "verified_outcome sch br integration b =
     (if pending_requests (sch_run_id sch) br \<noteq> [] then (Schedule_WAITING_HUMAN, Err_pending_permissions)
      else if list_ex (\<lambda>t. dict_truthy (bt_metadata t) ''merge_conflicts'') (list_by_run (sch_run_id sch) b)
           then (Schedule_FAILED, Err_merge_conflicts)
      else case integration of
             None \<Rightarrow> (Schedule_COMPLETED, No_error)
           | Some (checks, missing) \<Rightarrow>
               (case run_checks checks of
                  Some outcome \<Rightarrow> outcome
                | None \<Rightarrow> if missing then (Schedule_WAITING_HUMAN, Err_integration_missing)
                          else (Schedule_COMPLETED, No_error)))"

definition finalize_verified_run :: "scheduler \<Rightarrow> int \<Rightarrow> broker \<Rightarrow> (check_result list \<times> bool) option
    \<Rightarrow> task_board \<Rightarrow> run_result" where
  "finalize_verified_run sch rounds br integration b =
     (case verified_outcome sch br integration b of (st, e) \<Rightarrow> finalize sch rounds st e b)"

datatype idle_outcome = Idle_all_succeeded | Idle_sleep seconds | Idle_end schedule_status schedule_error

text \<open>The tasks whose retry is still to come; \<open>clk i\<close> is the clock at the \<open>i\<close>-th task.\<close>

definition deferred_tasks :: "(nat \<Rightarrow> time) \<Rightarrow> board_task list \<Rightarrow> board_task list" where
  "deferred_tasks clk ts =
     map snd (filter (\<lambda>(i, t). bt_status t = Board_PENDING \<and>
         (case bt_next_attempt_at t of None \<Rightarrow> False | Some d \<Rightarrow> d > clk i)) (enumerate 0 ts))"

definition terminal_status :: "board_status \<Rightarrow> bool" where
  "terminal_status st \<longleftrightarrow> st \<in> {Board_SUCCEEDED, Board_FAILED, Board_CANCELLED}"

definition deadlocked_tasks :: "board_task list \<Rightarrow> board_task list" where
  "deadlocked_tasks ts =
     (let dead = map bt_task_id (filter (\<lambda>t. bt_status t \<in> {Board_FAILED, Board_CANCELLED}) ts)
      in filter (\<lambda>t. bt_status t = Board_PENDING \<and> list_ex (\<lambda>d. d \<in> set dead) (bt_dependencies t)) ts)"

definition unserviceable_tasks :: "scheduler \<Rightarrow> task_board \<Rightarrow> agent_registry \<Rightarrow> board_task list \<Rightarrow> board_task list" where
  "unserviceable_tasks sch b reg pending =
     filter (\<lambda>t. deps_satisfied (sch_run_id sch) b t \<and>
       \<not> list_ex (\<lambda>a. agent_can_serve a t) (live_agents (sch_run_id sch) reg)) pending"

definition live_capabilities :: "scheduler \<Rightarrow> agent_registry \<Rightarrow> string list" where
  "live_capabilities sch reg = sort (remdups (concat (map ag_capabilities (live_agents (sch_run_id sch) reg))))"

definition resolve_idle :: "(nat \<Rightarrow> time) \<Rightarrow> scheduler \<Rightarrow> task_board \<Rightarrow> agent_registry \<Rightarrow> idle_outcome" where
  "resolve_idle clk sch b reg =
     (let tasks = list_by_run (sch_run_id sch) b;
          states = map bt_status tasks;
          later = deferred_tasks clk tasks;
          pending = filter (\<lambda>t. bt_status t = Board_PENDING) tasks
      in if all_succeeded (sch_run_id sch) b then Idle_all_succeeded
         else if later \<noteq> [] then
           (let due_at = min_list (map (\<lambda>t. the (bt_next_attempt_at t)) later)
            in Idle_sleep (min (max (1 / 20) (seconds_of (due_at - clk (length tasks)))) 1))
         else if list_ex (\<lambda>s. s \<in> {Board_BLOCKED, Board_REPAIR_REQUIRED, Board_REPLAN_REQUIRED}) states
           then Idle_end Schedule_WAITING_HUMAN Err_intervention
         else if states \<noteq> [] \<and> list_all terminal_status states \<and> Board_FAILED \<in> set states
           then Idle_end Schedule_FAILED Err_tasks_failed
         else if states \<noteq> [] \<and> list_all terminal_status states \<and> Board_CANCELLED \<in> set states
           then Idle_end Schedule_CANCELLED Err_tasks_cancelled
         else if deadlocked_tasks tasks \<noteq> []
           then Idle_end Schedule_FAILED (Err_dead_dependency (map bt_task_id (deadlocked_tasks tasks)))
         else if pending \<noteq> []
           then Idle_end Schedule_FAILED (Err_no_eligible_worker
             (map bt_required_capabilities (unserviceable_tasks sch b reg pending)) (live_capabilities sch reg))
         else Idle_end Schedule_FAILED Err_deadlock)"

section \<open>The loop\<close>

text \<open>\<open>running\<close> maps futures to task ids; here it is the list of the ids in dictionary order.\<close>

record loop_state =
  ls_board :: task_board
  ls_registry :: agent_registry
  ls_running :: "string list"
  ls_hints :: "(string \<times> string) list"
  ls_round :: int

datatype loop_action =
    Act_finish run_result | Act_sleep seconds | Act_wait seconds | Act_continue | Act_raise board_error

text \<open>
  What the loop reads of its surroundings in one pass. \<open>env_unwind\<close> is what the cancelled coroutines do to
  the board and the registry before \<open>_cancel_running\<close> returns.
\<close>

record loop_env =
  env_paused :: bool
  env_cancelled :: bool
  env_unwind :: "task_board \<times> agent_registry \<Rightarrow> task_board \<times> agent_registry"
  env_broker :: broker
  env_integration :: "(check_result list \<times> bool) option"
  env_write :: "nat \<Rightarrow> bool"
  env_agent_write :: "string \<Rightarrow> bool"
  env_clock :: "nat \<Rightarrow> time"

definition cancel_running :: "loop_env \<Rightarrow> loop_state \<Rightarrow> loop_state" where
  "cancel_running env st =
     (if ls_running st = [] then st
      else case env_unwind env (ls_board st, ls_registry st) of
             (b, reg) \<Rightarrow> st\<lparr>ls_board := b, ls_registry := reg, ls_running := []\<rparr>)"

definition end_loop :: "scheduler \<Rightarrow> schedule_status \<Rightarrow> schedule_error \<Rightarrow> loop_env \<Rightarrow> loop_state
    \<Rightarrow> loop_state \<times> loop_action" where
  "end_loop sch status err env st =
     (let st' = cancel_running env st
      in (st', Act_finish (finalize sch (ls_round st') status err (ls_board st'))))"

definition cancel_loop :: "scheduler \<Rightarrow> loop_env \<Rightarrow> loop_state \<Rightarrow> loop_state \<times> loop_action" where
  "cancel_loop sch env st =
     (let st1 = cancel_running env st
      in case cancel_run (env_write env) (env_clock env) (sch_run_id sch) ''run_cancelled'' (ls_board st1) of
           (b, Inl e) \<Rightarrow> (st1\<lparr>ls_board := b\<rparr>, Act_raise e)
         | (b, Inr _) \<Rightarrow>
             let st2 = st1\<lparr>ls_board := b\<rparr>
             in (st2, Act_finish (finalize sch (ls_round st2) Schedule_CANCELLED Err_cancelled b)))"

text \<open>From the head of \<open>while\<close> to the wait, the plan reloaded; then what follows the wait, \<open>finished\<close> the positions of the done futures.\<close>

definition reaped_registry :: "loop_env \<Rightarrow> loop_state \<Rightarrow> agent_registry" where
  "reaped_registry env st =
     fst (cleanup_expired (env_agent_write env) (\<lambda>i. env_clock env (i + 1)) (env_clock env 0) (ls_registry st))"

definition loop_head :: "scheduler \<Rightarrow> loop_env \<Rightarrow> loop_state \<Rightarrow> loop_state \<times> loop_action" where
  "loop_head sch env st =
     (if \<not> ls_round st < sch_max_rounds sch then end_loop sch Schedule_INCOMPLETE Err_max_rounds env st
      else if env_paused env then end_loop sch Schedule_PAUSED Err_paused env st
      else if env_cancelled env then cancel_loop sch env st
      else
        let clk = env_clock env;
            reg = reaped_registry env st;
            (new, hints) = discover_dispatchable (clk 4) sch (ls_board st) reg (ls_running st) (ls_hints st);
            st' = st\<lparr>ls_registry := reg, ls_hints := hints, ls_running := ls_running st @ map bt_task_id new,
                     ls_round := (if new = [] then ls_round st else ls_round st + 1)\<rparr>
        in if ls_running st' = [] then
             (case resolve_idle (\<lambda>i. clk (i + 5)) sch (ls_board st') reg of
                Idle_all_succeeded \<Rightarrow>
                  (st', Act_finish (finalize_verified_run sch (ls_round st') (env_broker env) (env_integration env)
                     (ls_board st')))
              | Idle_sleep s \<Rightarrow> (st', Act_sleep s)
              | Idle_end status e \<Rightarrow> (st', Act_finish (finalize sch (ls_round st') status e (ls_board st'))))
           else (st', Act_wait (wait_timeout (clk 5) (sch_run_id sch) (ls_board st'))))"

text \<open>
  \<open>_refresh_task_graph\<close> opens each turn: the stored plan replaces the one in memory when it is newer. The argument is the
  stored snapshot, its \<open>version\<close> entry with what \<open>model_validate\<close> makes of it. An exception leaves the loop, with the
  tasks in flight as they are.
\<close>

type_synonym stored_plan = "(int \<times> (graph_error + task_graph)) option"

definition refresh_task_graph :: "stored_plan \<Rightarrow> scheduler \<Rightarrow> graph_error + scheduler" where
  "refresh_task_graph stored sch =
     (case stored of
        None \<Rightarrow> Inr sch
      | Some (latest, parsed) \<Rightarrow>
          if (case sch_graph sch of None \<Rightarrow> False | Some g \<Rightarrow> latest \<le> graph_version g) then Inr sch
          else (case parsed of
                  Inl e \<Rightarrow> Inl e
                | Inr g \<Rightarrow> (case validate g of Inl e \<Rightarrow> Inl e | Inr _ \<Rightarrow> Inr (sch\<lparr>sch_graph := Some g\<rparr>))))"

definition loop_turn :: "stored_plan \<Rightarrow> loop_env \<Rightarrow> scheduler \<times> loop_state
    \<Rightarrow> (scheduler \<times> loop_state) \<times> (graph_error + loop_action)" where
  "loop_turn stored env p =
     (case p of (sch, st) \<Rightarrow>
        if \<not> ls_round st < sch_max_rounds sch
        then (case loop_head sch env st of (st', act) \<Rightarrow> ((sch, st'), Inr act))
        else (case refresh_task_graph stored sch of
                Inl e \<Rightarrow> (p, Inl e)
              | Inr sch' \<Rightarrow> (case loop_head sch' env st of (st', act) \<Rightarrow> ((sch', st'), Inr act))))"

definition after_wait :: "scheduler \<Rightarrow> loop_env \<Rightarrow> nat list \<Rightarrow> loop_state \<Rightarrow> loop_state \<times> loop_action" where
  "after_wait sch env finished st =
     (if finished = [] then (st, Act_continue)
      else
        let st' = st\<lparr>ls_running := map snd (filter (\<lambda>(i, _). i \<notin> set finished) (enumerate 0 (ls_running st)))\<rparr>
        in if env_cancelled env then cancel_loop sch env st'
           else if env_paused env then end_loop sch Schedule_PAUSED Err_paused env st'
           else if all_succeeded (sch_run_id sch) (ls_board st') then
             (st', Act_finish (finalize_verified_run sch (ls_round st') (env_broker env) (env_integration env)
                (ls_board st')))
           else (st', Act_continue))"

section \<open>Integration commands\<close>

definition integration_executable :: "string \<Rightarrow> string" where
  "integration_executable v =
     fold removesuffix [''.exe'', ''.cmd'', ''.bat'']
       (lower (last (split_on (CHR ''/'') (replace_char (CHR 0x5C) (CHR ''/'') v))))"

definition safe_integration_argv :: "string list \<Rightarrow> bool" where
  "safe_integration_argv argv =
     (let exe = integration_executable (hd argv);
          args = map lower (tl argv);
          scripts = {''test'', ''build'', ''lint'', ''typecheck'', ''check''}
      in if exe \<in> {''pytest''} then True
         else if exe \<in> {''python'', ''python3''} then
           length args \<ge> 2 \<and> args ! 0 = ''-m'' \<and> args ! 1 \<in> {''pytest'', ''unittest'', ''compileall''}
         else if exe \<in> {''npm'', ''pnpm'', ''yarn''} then
           args \<noteq> [] \<and> (args ! 0 \<in> scripts \<or> (length args \<ge> 2 \<and> args ! 0 = ''run'' \<and> args ! 1 \<in> scripts))
         else if exe = ''cargo'' then args \<noteq> [] \<and> args ! 0 \<in> {''test'', ''check'', ''clippy''}
         else if exe = ''go'' then args \<noteq> [] \<and> args ! 0 = ''test''
         else if exe \<in> {''mvn'', ''gradle'', ''gradlew''} then
           list_ex (\<lambda>a. a \<in> {''test'', ''check'', ''verify''}) args
         else if exe = ''make'' then args \<noteq> [] \<and> args ! 0 \<in> {''test'', ''check'', ''verify'', ''lint''}
         else False)"

section \<open>The plan and the board\<close>

definition sync_node :: "bool \<Rightarrow> time \<Rightarrow> time \<Rightarrow> string \<Rightarrow> string \<times> task_node \<Rightarrow> task_board \<Rightarrow> unit board_result" where
  "sync_node wr t1 t2 rid kn b =
     (case kn of (i, n) \<Rightarrow>
       if get i (Some rid) b \<noteq> None then (b, Inr ())
       else map_prod id (map_sum id (\<lambda>_. ()))
         (create_task wr t1 t2 i rid (if node_title n = [] then i else node_title n) (node_objective n)
            (node_dependencies n) (node_required_capabilities n) (node_priority n) (node_max_attempts n) b))"

fun sync_from_task_graph :: "(nat \<Rightarrow> bool) \<Rightarrow> (nat \<Rightarrow> time) \<Rightarrow> nat \<Rightarrow> string \<Rightarrow> node_table \<Rightarrow> task_board
    \<Rightarrow> unit board_result" where
  "sync_from_task_graph wr clk i rid [] b = (b, Inr ())"
| "sync_from_task_graph wr clk i rid (kn # kns) b =
     (case sync_node (wr i) (clk (2 * i)) (clk (2 * i + 1)) rid kn b of
        (b', Inl e) \<Rightarrow> (b', Inl e)
      | (b', Inr _) \<Rightarrow> sync_from_task_graph wr clk (Suc i) rid kns b')"

text \<open>\<open>_step_to\<close>: at most three legal moves along PENDING, READY, RUNNING, target.\<close>

definition node_status_of :: "task_graph \<Rightarrow> string \<Rightarrow> task_node_status option" where
  "node_status_of g i = map_option node_status (get_node g i)"

definition step_to :: "(nat \<Rightarrow> time) \<Rightarrow> string \<Rightarrow> task_node_status \<Rightarrow> task_graph \<Rightarrow> task_graph" where
  "step_to clk i target g =
     (if node_status_of g i = None \<or> node_status_of g i = Some target then g
      else
        let g1 = (if node_status_of g i = Some Node_PENDING
                  then fst (update_status (clk 0) (clk 1) i Node_READY g) else g);
            g2 = (if node_status_of g1 i = Some Node_READY \<and> target \<noteq> Node_READY
                  then fst (update_status (clk 2) (clk 3) i Node_RUNNING g1) else g1)
        in if node_status_of g2 i = Some Node_RUNNING \<and> target \<in> {Node_SUCCEEDED, Node_FAILED}
           then fst (update_status (clk 4) (clk 5) i target g2) else g2)"

definition sync_target :: "board_status \<Rightarrow> task_node_status option" where
  "sync_target st =
     (if st = Board_SUCCEEDED then Some Node_SUCCEEDED
      else if st = Board_FAILED then Some Node_FAILED
      else if st \<in> {Board_RUNNING, Board_CLAIMED} then Some Node_RUNNING
      else None)"

definition sync_task_back :: "(nat \<Rightarrow> time) \<Rightarrow> board_task \<Rightarrow> task_graph \<Rightarrow> task_graph" where
  "sync_task_back clk t g =
     (if get_node g (bt_task_id t) = None then g
      else case sync_target (bt_status t) of
             None \<Rightarrow> g
           | Some target \<Rightarrow>
               fold (accept_artifact (clk 6) (bt_task_id t)) (bt_produced_artifact_ids t)
                 (step_to clk (bt_task_id t) target g))"

definition sync_back_to_dag :: "(nat \<Rightarrow> time) \<Rightarrow> string \<Rightarrow> task_board \<Rightarrow> task_graph \<Rightarrow> task_graph" where
  "sync_back_to_dag clk rid b g = fold (sync_task_back clk) (list_by_run rid b) g"

end
