(* ===== verification/Scheduler_Wave.thy ===== *)
theory Scheduler_Wave
  imports Scheduler Task_Board_Runs Agent_Registry_Props
begin

text \<open>
  The matching of one dispatch wave: \<open>match_wave\<close> pairs a subsequence of the ordered tasks with distinct
  available agents that can serve them, and is maximal below the capacity. From it, what one call of
  \<open>discover_dispatchable\<close> selects.
\<close>

section \<open>Available agents\<close>

definition by_id :: "agent_instance list \<Rightarrow> (string \<times> agent_instance) list" where
  "by_id as = map (\<lambda>a. (ag_agent_id a, a)) as"

lemma snd_by_id [simp]: "map snd (by_id as) = as"
  by (simp add: by_id_def comp_def)

lemma fst_by_id: "map fst (by_id as) = map ag_agent_id as"
  by (simp add: by_id_def comp_def)

lemma delete_by_id [simp]: "AList.delete k (by_id as) = by_id (filter (\<lambda>a. ag_agent_id a \<noteq> k) as)"
  by (induction as) (auto simp: by_id_def)

lemma update_fresh: "k \<notin> set (map fst d) \<Longrightarrow> AList.update k v d = d @ [(k, v)]"
  by (induction d) auto

lemma available_agents_eq:
  assumes "distinct (map ag_agent_id as)"
  shows "available_agents as = by_id as"
proof -
  have "fold (\<lambda>a. AList.update (ag_agent_id a) a) as (by_id bs) = by_id (bs @ as)"
    if "distinct (map ag_agent_id (bs @ as))" for bs
    using that
  proof (induction as arbitrary: bs)
    case (Cons a as)
    then have "AList.update (ag_agent_id a) a (by_id bs) = by_id (bs @ [a])"
      using update_fresh [of "ag_agent_id a" "by_id bs" a] by (auto simp: fst_by_id by_id_def)
    with Cons.IH [of "bs @ [a]"] Cons.prems show ?case by simp
  qed simp
  from this [of "[]"] assms show ?thesis by (simp add: available_agents_def by_id_def)
qed

section \<open>The matching\<close>

definition add_hint :: "board_task \<times> agent_instance \<Rightarrow> (string \<times> string) list \<Rightarrow> (string \<times> string) list" where
  "add_hint p = AList.update (bt_task_id (fst p)) (ag_agent_id (snd p))"

lemma add_hint_pair [simp]: "add_hint (t, a) = AList.update (bt_task_id t) (ag_agent_id a)"
  by (simp add: add_hint_def)

text \<open>What the loop found: the tasks with their agents.\<close>

definition matching :: "nat \<Rightarrow> nat \<Rightarrow> board_task list \<Rightarrow> agent_instance list \<Rightarrow> (board_task \<times> agent_instance) list \<Rightarrow> bool" where
  "matching cap n ts as ps \<longleftrightarrow>
     subseq (map fst ps) ts \<and> distinct (map (ag_agent_id \<circ> snd) ps) \<and>
     (\<forall>(t, a) \<in> set ps. a \<in> set as \<and> agent_can_serve a t) \<and>
     n + length ps \<le> max cap (n + 1) \<and>
     (n + length ps < cap \<or> ps = [] \<longrightarrow>
        (\<forall>t \<in> set ts. t \<in> set (map fst ps) \<or>
           (\<forall>a \<in> set as. agent_can_serve a t \<longrightarrow> ag_agent_id a \<in> set (map (ag_agent_id \<circ> snd) ps))))"

lemma candidates_Nil: "candidates as t = [] \<longleftrightarrow> (\<forall>a \<in> set as. \<not> agent_can_serve a t)"
  by (auto simp: candidates_def filter_empty_conv)

lemma matching_skip: "matching cap n ts as ps \<Longrightarrow> candidates as t = [] \<Longrightarrow> matching cap n (t # ts) as ps"
  by (auto simp: matching_def candidates_Nil)

lemma matching_last:
  "a \<in> set as \<Longrightarrow> agent_can_serve a t \<Longrightarrow> n + 1 \<ge> cap \<Longrightarrow> matching cap n (t # ts) as [(t, a)]"
  by (auto simp: matching_def)

lemma matching_take:
  assumes "matching cap (Suc n) ts (filter (\<lambda>b. ag_agent_id b \<noteq> ag_agent_id a) as) ps"
    and "a \<in> set as" "agent_can_serve a t" "Suc n < cap"
  shows "matching cap n (t # ts) as ((t, a) # ps)"
proof -
  have "ag_agent_id a \<notin> set (map (ag_agent_id \<circ> snd) ps)"
    using assms(1) by (fastforce simp: matching_def)
  with assms show ?thesis unfolding matching_def by (fastforce simp: le_max_iff_disj)
qed

lemma match_wave_matching:
  assumes "length selected < cap \<or> selected = []"
  obtains ps where
    "match_wave cap ts (by_id as) selected hints = (selected @ map fst ps, fold add_hint ps hints)"
    "matching cap (length selected) ts as ps"
proof -
  have "\<exists>ps. match_wave cap ts (by_id as) selected hints = (selected @ map fst ps, fold add_hint ps hints) \<and>
      matching cap (length selected) ts as ps"
    using assms
  proof (induction ts arbitrary: as selected hints)
    case Nil
    then show ?case by (intro exI [of _ "[]"]) (auto simp: matching_def)
  next
    case (Cons t ts)
    show ?case
    proof (cases "candidates as t = []")
      case True
      from Cons obtain ps where "match_wave cap ts (by_id as) selected hints = (selected @ map fst ps, fold add_hint ps hints)"
        "matching cap (length selected) ts as ps" by blast
      with True matching_skip show ?thesis by auto
    next
      case False
      let ?a = "arg_min_list (\<lambda>a. length (ag_capabilities a)) (candidates as t)"
      have a: "?a \<in> set as" "agent_can_serve ?a t"
        using arg_min_list_in [OF False] by (auto simp: candidates_def)
      show ?thesis
      proof (cases "Suc (length selected) \<ge> cap")
        case True
        with False matching_last [OF a] show ?thesis
          by (intro exI [of _ "[(t, ?a)]"]) (auto simp: Let_def)
      next
        case last: False
        with Cons.IH [of "selected @ [t]" "filter (\<lambda>b. ag_agent_id b \<noteq> ag_agent_id ?a) as"
            "AList.update (bt_task_id t) (ag_agent_id ?a) hints"]
        obtain ps where ps: "match_wave cap ts (by_id (filter (\<lambda>b. ag_agent_id b \<noteq> ag_agent_id ?a) as)) (selected @ [t])
            (AList.update (bt_task_id t) (ag_agent_id ?a) hints)
            = ((selected @ [t]) @ map fst ps, fold add_hint ps (AList.update (bt_task_id t) (ag_agent_id ?a) hints))"
          "matching cap (Suc (length selected)) ts (filter (\<lambda>b. ag_agent_id b \<noteq> ag_agent_id ?a) as) ps"
          by auto
        from last have "Suc (length selected) < cap" by simp
        with ps(1) False matching_take [OF ps(2) a] show ?thesis
          by (intro exI [of _ "(t, ?a) # ps"]) (simp add: Let_def)
      qed
    qed
  qed
  then show thesis using that by blast
qed

section \<open>One call of \<open>discover_dispatchable\<close>\<close>

lemma distinct_map_sort_key [simp]: "distinct (map f (sort_key k xs)) = distinct (map f xs)"
  by (simp add: distinct_map)

lemma distinct_map_filter_ids: "distinct (map f xs) \<Longrightarrow> distinct (map f (filter P xs))"
  by (rule distinct_map_filter)

lemma list_by_run_ids: "wf_board b \<Longrightarrow> distinct (map bt_task_id (list_by_run r b))"
proof -
  assume w: "wf_board b"
  then have "distinct (run_keys b r)" "\<forall>k \<in> set (run_keys b r). fst k = r"
    using run_keys_present [OF w] by (auto simp: wf_board_def)
  then have "distinct (map snd (run_keys b r))"
    unfolding distinct_map inj_on_def by (metis prod_eqI)
  then show ?thesis by (simp add: list_by_run_def raw_list_ids [OF w])
qed

lemma in_list_by_run: "wf_board b \<Longrightarrow> t \<in> set (list_by_run r b) \<longleftrightarrow> map_of (board_tasks b) (r, bt_task_id t) = Some t"
  by (simp add: list_by_run_def in_raw_list_by_run)

lemma deps_satisfied_iff:
  "deps_satisfied r b t \<longleftrightarrow>
    (\<forall>d \<in> set (bt_dependencies t). \<exists>u. map_of (board_tasks b) (r, d) = Some u \<and> bt_status u = Board_SUCCEEDED)"
  by (auto simp: deps_satisfied_def list_all_iff get_def raw_get_run split: option.splits)

lemma idle_agents_distinct: "wf_registry reg \<Longrightarrow> distinct (map ag_agent_id (idle_agents r reg))"
proof -
  assume w: "wf_registry reg"
  then have "map ag_agent_id (agents reg) = map fst (reg_agents reg)"
    by (auto simp: wf_registry_def agents_def)
  with w have "distinct (map ag_agent_id (agents reg))" by (simp add: wf_registry_def)
  then show ?thesis by (simp add: idle_agents_def agents_by_run_def distinct_map_filter)
qed

lemma ordered_wave_distinct: "wf_board b \<Longrightarrow> distinct (map bt_task_id (ordered_wave now sch b reg running))"
  by (simp add: ordered_wave_def Let_def ready_tasks_of_def list_pending_def distinct_map_filter list_by_run_ids)

text \<open>A task that could be dispatched: ready, not in flight, and with an idle agent for it.\<close>

definition dispatchable :: "time \<Rightarrow> scheduler \<Rightarrow> task_board \<Rightarrow> agent_registry \<Rightarrow> string list \<Rightarrow> board_task \<Rightarrow> bool" where
  "dispatchable now sch b reg running t \<longleftrightarrow>
     map_of (board_tasks b) (sch_run_id sch, bt_task_id t) = Some t \<and>
     bt_status t = Board_PENDING \<and> due now t \<and> bt_task_id t \<notin> set running \<and>
     (\<forall>d \<in> set (bt_dependencies t).
        \<exists>u. map_of (board_tasks b) (sch_run_id sch, d) = Some u \<and> bt_status u = Board_SUCCEEDED) \<and>
     (\<exists>a \<in> set (idle_agents (sch_run_id sch) reg). agent_can_serve a t)"

lemma in_ordered_wave:
  "wf_board b \<Longrightarrow> t \<in> set (ordered_wave now sch b reg running) \<longleftrightarrow> dispatchable now sch b reg running t"
  by (auto simp: ordered_wave_def Let_def ready_tasks_of_def list_pending_def in_list_by_run deps_satisfied_iff
      dispatchable_def candidates_Nil)

text \<open>The tasks the matching is offered, and its capacity.\<close>

definition wave :: "time \<Rightarrow> scheduler \<Rightarrow> task_board \<Rightarrow> agent_registry \<Rightarrow> string list \<Rightarrow> board_task list" where
  "wave now sch b reg running =
     (let ordered = ordered_wave now sch b reg running;
          exclusive = filter (\<lambda>t. \<not> task_allows_parallel sch (bt_task_id t)) ordered
      in if running \<noteq> [] then
           (if list_ex (\<lambda>i. \<not> task_allows_parallel sch i) running then []
            else filter (\<lambda>t. task_allows_parallel sch (bt_task_id t)) ordered)
         else if exclusive \<noteq> [] then take 1 (sort_key exclusive_rank exclusive) else ordered)"

definition wave_capacity :: "scheduler \<Rightarrow> string list \<Rightarrow> board_task list \<Rightarrow> nat" where
  "wave_capacity sch running ts =
     (if list_ex (\<lambda>t. \<not> task_allows_parallel sch (bt_task_id t)) ts
      then min (dispatch_capacity sch running) 1 else dispatch_capacity sch running)"

lemma take_1: "xs \<noteq> [] \<Longrightarrow> take 1 xs = [hd xs]"
  by (cases xs) auto

lemma wave_cases:
  obtains (none) "running \<noteq> []" "list_ex (\<lambda>i. \<not> task_allows_parallel sch i) running" "wave now sch b reg running = []"
  | (beside) "running \<noteq> []" "\<not> list_ex (\<lambda>i. \<not> task_allows_parallel sch i) running"
      "wave now sch b reg running
        = filter (\<lambda>t. task_allows_parallel sch (bt_task_id t)) (ordered_wave now sch b reg running)"
  | (barrier) t where "running = []" "\<not> task_allows_parallel sch (bt_task_id t)" "wave now sch b reg running = [t]"
      "t \<in> set (ordered_wave now sch b reg running)"
      "take 1 (sort_key exclusive_rank (filter (\<lambda>t. \<not> task_allows_parallel sch (bt_task_id t))
         (ordered_wave now sch b reg running))) = [t]"
      "filter (\<lambda>t. \<not> task_allows_parallel sch (bt_task_id t)) (ordered_wave now sch b reg running) \<noteq> []"
  | (free) "running = []" "wave now sch b reg running = ordered_wave now sch b reg running"
      "filter (\<lambda>t. \<not> task_allows_parallel sch (bt_task_id t)) (ordered_wave now sch b reg running) = []"
proof -
  let ?o = "ordered_wave now sch b reg running"
  let ?x = "filter (\<lambda>t. \<not> task_allows_parallel sch (bt_task_id t)) ?o"
  consider "running \<noteq> []" "list_ex (\<lambda>i. \<not> task_allows_parallel sch i) running"
    | "running \<noteq> []" "\<not> list_ex (\<lambda>i. \<not> task_allows_parallel sch i) running"
    | "running = []" "?x \<noteq> []" | "running = []" "?x = []" by blast
  then show thesis
  proof cases
    case 3
    let ?t = "hd (sort_key exclusive_rank ?x)"
    have ne: "sort_key exclusive_rank ?x \<noteq> []" using 3 by (metis length_0_conv length_sort)
    have "?t \<in> set ?x" using hd_in_set [OF ne] by (simp only: set_sort)
    moreover have "take 1 (sort_key exclusive_rank ?x) = [?t]" by (rule take_1 [OF ne])
    ultimately show thesis using barrier [of ?t] 3 by (simp add: wave_def)
  qed (use none beside free in \<open>simp_all add: wave_def\<close>)
qed

lemma wave_exclusive:
  assumes "t \<in> set (wave now sch b reg running)" "\<not> task_allows_parallel sch (bt_task_id t)"
  shows "running = [] \<and> wave now sch b reg running = [t]"
  using assms by (cases rule: wave_cases [of running sch now b reg]) (auto simp: filter_empty_conv)

lemma wave_ordered: "set (wave now sch b reg running) \<subseteq> set (ordered_wave now sch b reg running)"
  by (cases rule: wave_cases [of running sch now b reg]) auto

lemma wave_distinct: "wf_board b \<Longrightarrow> distinct (map bt_task_id (wave now sch b reg running))"
  using ordered_wave_distinct [of b now sch reg running]
  by (cases rule: wave_cases [of running sch now b reg]) (auto simp: distinct_map_filter)

lemma discover_matching:
  assumes "wf_registry reg"
  obtains ps where
    "discover_dispatchable now sch b reg running hints = (map fst ps, fold add_hint ps hints)"
    "matching (wave_capacity sch running (wave now sch b reg running)) 0 (wave now sch b reg running)
       (idle_agents (sch_run_id sch) reg) ps"
proof -
  let ?idle = "idle_agents (sch_run_id sch) reg" and ?w = "wave now sch b reg running"
  have av: "available_agents ?idle = by_id ?idle"
    by (rule available_agents_eq [OF idle_agents_distinct [OF assms]])
  obtain ps where ps: "match_wave (wave_capacity sch running ?w) ?w (by_id ?idle) [] hints = (map fst ps, fold add_hint ps hints)"
    "matching (wave_capacity sch running ?w) 0 ?w ?idle ps"
    using match_wave_matching [of "[]" "wave_capacity sch running ?w" ?w ?idle hints] by auto
  have "discover_dispatchable now sch b reg running hints = match_wave (wave_capacity sch running ?w) ?w (by_id ?idle) [] hints"
  proof (cases rule: wave_cases [of running sch now b reg])
    case none
    then show ?thesis by (simp add: discover_dispatchable_def)
  next
    case beside
    then show ?thesis by (simp add: discover_dispatchable_def av wave_capacity_def list_ex_iff)
  next
    case (barrier t)
    then show ?thesis by (simp add: discover_dispatchable_def av wave_capacity_def Let_def)
  next
    case free
    then show ?thesis by (simp add: discover_dispatchable_def av wave_capacity_def list_ex_iff filter_empty_conv)
  qed
  with ps that show thesis by simp
qed

end
