(* ===== verification/Scheduler_Props.thy ===== *)
theory Scheduler_Props
  imports Scheduler_Wave Task_Board_Props Permission_Props
begin

text \<open>
  Properties of the scheduler: what one wave dispatches, that an exclusive task runs alone, what a run
  ends with, how an idle pass resolves, and where dispatch planning and reservation disagree.
\<close>

section \<open>Dispatch\<close>

lemma fold_add_hint_other:
  "i \<notin> set (map (bt_task_id \<circ> fst) ps) \<Longrightarrow> map_of (fold add_hint ps hints) i = map_of hints i"
  by (induction ps arbitrary: hints) (auto simp: add_hint_def)

lemma fold_add_hint_in:
  "distinct (map (bt_task_id \<circ> fst) ps) \<Longrightarrow> (t, a) \<in> set ps \<Longrightarrow>
    map_of (fold add_hint ps hints) (bt_task_id t) = Some (ag_agent_id a)"
proof (induction ps arbitrary: hints)
  case (Cons p ps)
  then show ?case
    using fold_add_hint_other [of "bt_task_id t" ps "add_hint p hints"] by (cases p) auto
qed simp

lemma matching_ids:
  assumes "matching cap n ts as ps" "distinct (map bt_task_id ts)"
  shows "distinct (map (bt_task_id \<circ> fst) ps)"
proof -
  have "subseq (map fst ps) ts" using assms(1) by (simp add: matching_def)
  then have "subseq (map bt_task_id (map fst ps)) (map bt_task_id ts)" by (rule subseq_map)
  from subseq_distinct [OF this assms(2)] show ?thesis by simp
qed

text \<open>The pairs behind one call: \<open>agent\<close> is the agent hinted to a selected task.\<close>

lemma discover_pairs:
  assumes "wf_board b" "wf_registry reg" "discover_dispatchable now sch b reg running hints = (sel, hints')"
  obtains ps agent where "sel = map fst ps" "distinct (map bt_task_id sel)" "inj_on agent (set sel)"
    "\<forall>(t, a) \<in> set ps. agent t = ag_agent_id a \<and> a \<in> set (idle_agents (sch_run_id sch) reg) \<and>
       agent_can_serve a t \<and> map_of hints' (bt_task_id t) = Some (agent t)"
    "\<forall>t \<in> set sel. dispatchable now sch b reg running t"
    "matching (wave_capacity sch running (wave now sch b reg running)) 0 (wave now sch b reg running)
       (idle_agents (sch_run_id sch) reg) ps"
proof -
  let ?w = "wave now sch b reg running" and ?idle = "idle_agents (sch_run_id sch) reg"
  obtain ps where ps: "sel = map fst ps" "hints' = fold add_hint ps hints"
    and m: "matching (wave_capacity sch running ?w) 0 ?w ?idle ps"
    using discover_matching [OF assms(2), of now sch b running hints] assms(3) by auto
  have dp: "distinct (map (bt_task_id \<circ> fst) ps)" by (rule matching_ids [OF m wave_distinct [OF assms(1)]])
  define agent :: "board_task \<Rightarrow> string" where "agent t = the (map_of hints' (bt_task_id t))" for t
  have h: "map_of hints' (bt_task_id t) = Some (ag_agent_id a)" "agent t = ag_agent_id a" if "(t, a) \<in> set ps" for t a
    using fold_add_hint_in [OF dp that] ps(2) by (simp_all add: agent_def)
  have "subseq (map fst ps) ?w" using m by (simp add: matching_def)
  then have "set (map fst ps) \<subseteq> set ?w" by (rule subseq_set_subset)
  then have d: "\<forall>t \<in> set sel. dispatchable now sch b reg running t"
    using ps(1) wave_ordered [of now sch b reg running] in_ordered_wave [OF assms(1)] by blast
  have inj: "inj_on agent (set sel)"
  proof (rule inj_onI)
    fix t u assume "t \<in> set sel" "u \<in> set sel" "agent t = agent u"
    then obtain a c where "(t, a) \<in> set ps" "(u, c) \<in> set ps" "ag_agent_id a = ag_agent_id c"
      using ps(1) h(2) by auto
    moreover have "inj_on (ag_agent_id \<circ> snd) (set ps)" using m by (simp add: matching_def distinct_map)
    ultimately have "(t, a) = (u, c)" by (simp add: inj_on_def) force
    then show "t = u" by simp
  qed
  have "\<forall>(t, a) \<in> set ps. agent t = ag_agent_id a \<and> a \<in> set ?idle \<and> agent_can_serve a t \<and>
      map_of hints' (bt_task_id t) = Some (agent t)"
    using m h by (auto simp: matching_def)
  moreover have "distinct (map bt_task_id sel)" using dp ps(1) by simp
  ultimately show thesis using that [of ps agent] ps(1) inj d m by blast
qed

lemma if_chain: "(p \<Longrightarrow> x) \<Longrightarrow> (\<not> p \<Longrightarrow> q \<Longrightarrow> y) \<Longrightarrow> (\<not> p \<Longrightarrow> \<not> q \<Longrightarrow> z) \<Longrightarrow> if p then x else if q then y else z"
  by simp

text \<open>The rank of the one exclusive task that opens a wave.\<close>

lemma barrier_least:
  fixes f :: "'a \<Rightarrow> 'b :: linorder"
  assumes "take 1 (sort_key f xs) = [t]" "u \<in> set xs"
  shows "f t \<le> f u"
proof -
  have "sorted (map f (sort_key f xs))" by simp
  moreover obtain ys where ys: "sort_key f xs = t # ys" using assms(1) by (cases "sort_key f xs") auto
  moreover have "u \<in> set (t # ys)" using assms(2) ys by (metis set_sort)
  ultimately show ?thesis by auto
qed

text \<open>A ready task with an agent for it, that the tasks in flight leave room for.\<close>

definition admitted :: "scheduler \<Rightarrow> string list \<Rightarrow> board_task \<Rightarrow> bool" where
  "admitted sch running t \<longleftrightarrow> running = [] \<or> task_allows_parallel sch (bt_task_id t)"

lemma wave_admits:
  assumes "wf_board b" "\<not> (\<exists>i \<in> set running. \<not> task_allows_parallel sch i)"
    "\<not> (running = [] \<and> (\<exists>t. dispatchable now sch b reg running t \<and> \<not> task_allows_parallel sch (bt_task_id t)))"
  shows "t \<in> set (wave now sch b reg running) \<longleftrightarrow> dispatchable now sch b reg running t \<and> admitted sch running t"
    "wave_capacity sch running (wave now sch b reg running) = dispatch_capacity sch running"
proof -
  show "t \<in> set (wave now sch b reg running) \<longleftrightarrow> dispatchable now sch b reg running t \<and> admitted sch running t"
  proof (cases rule: wave_cases [of running sch now b reg])
    case (barrier u)
    with assms(3) show ?thesis by (auto simp: in_ordered_wave [OF assms(1)])
  qed (use assms(2) in \<open>auto simp: admitted_def in_ordered_wave [OF assms(1)] list_ex_iff\<close>)
  show "wave_capacity sch running (wave now sch b reg running) = dispatch_capacity sch running"
  proof (cases rule: wave_cases [of running sch now b reg])
    case (barrier u)
    with assms(3) show ?thesis by (auto simp: in_ordered_wave [OF assms(1)])
  next
    case free
    then show ?thesis by (simp add: wave_capacity_def list_ex_iff filter_empty_conv)
  qed (use assms(2) in \<open>auto simp: wave_capacity_def list_ex_iff\<close>)
qed

text \<open>C12: One call of \<open>discover_dispatchable\<close> selects distinct tasks that are stored, pending, due, not in
  flight and have all dependencies succeeded, and hints each to an idle agent of the run that can serve it, no
  two to the same agent. While a task in flight forbids company it selects nothing. With nothing in flight and a ready
  exclusive task that an idle agent can serve, it selects exactly one, the first by priority, age and id. In every other
  case it selects at most the free slots, and one task even if no slot is free (one more than the remaining slots that
  \<open>capacity\<close> stands for), no exclusive task beside one in flight, and unless the slots are filled no agent is left over
  that could serve a task left over, of those that may join the tasks in flight.\<close>

theorem dispatch_wave_correct:
  assumes "wf_board b" "wf_registry reg"
    and "discover_dispatchable now sch b reg running hints = (sel, hints')"
  shows "distinct (map bt_task_id sel) \<and>
    (\<exists>agent. inj_on agent (set sel) \<and>
      (\<forall>t \<in> set sel. dispatchable now sch b reg running t \<and>
         agent t \<in> set (map ag_agent_id (idle_agents (sch_run_id sch) reg)) \<and>
         map_of hints' (bt_task_id t) = Some (agent t) \<and>
         (\<exists>a \<in> set (idle_agents (sch_run_id sch) reg). ag_agent_id a = agent t \<and> agent_can_serve a t)) \<and>
      (if \<exists>i \<in> set running. \<not> task_allows_parallel sch i then sel = []
       else if running = [] \<and> (\<exists>t. dispatchable now sch b reg running t \<and> \<not> task_allows_parallel sch (bt_task_id t))
       then \<exists>t. sel = [t] \<and> \<not> task_allows_parallel sch (bt_task_id t) \<and>
         (\<forall>u. dispatchable now sch b reg running u \<and> \<not> task_allows_parallel sch (bt_task_id u) \<longrightarrow>
            exclusive_rank t \<le> exclusive_rank u)
       else length sel \<le> max 1 (dispatch_capacity sch running) \<and> (\<forall>t \<in> set sel. admitted sch running t) \<and>
         (length sel < max 1 (dispatch_capacity sch running) \<longrightarrow>
           (\<forall>t a. dispatchable now sch b reg running t \<and> admitted sch running t \<and> t \<notin> set sel \<and> agent_can_serve a t \<and>
              a \<in> set (idle_agents (sch_run_id sch) reg) \<longrightarrow> ag_agent_id a \<in> agent ` set sel))))"
proof -
  let ?idle = "idle_agents (sch_run_id sch) reg" and ?w = "wave now sch b reg running"
  obtain ps agent where ps: "sel = map fst ps" and dist: "distinct (map bt_task_id sel)" and inj: "inj_on agent (set sel)"
    and pa: "\<forall>(t, a) \<in> set ps. agent t = ag_agent_id a \<and> a \<in> set ?idle \<and> agent_can_serve a t \<and>
       map_of hints' (bt_task_id t) = Some (agent t)"
    and d: "\<forall>t \<in> set sel. dispatchable now sch b reg running t"
    and m: "matching (wave_capacity sch running ?w) 0 ?w ?idle ps"
    by (rule discover_pairs [OF assms])
  have s: "\<forall>t \<in> set sel. agent t \<in> set (map ag_agent_id ?idle) \<and> map_of hints' (bt_task_id t) = Some (agent t) \<and>
      (\<exists>a \<in> set ?idle. ag_agent_id a = agent t \<and> agent_can_serve a t)"
    using pa ps by fastforce
  have sub: "subseq sel ?w" using m ps by (simp add: matching_def)
  have left_over: "ag_agent_id a \<in> agent ` set sel"
    if "length sel < max 1 (wave_capacity sch running ?w)" "t \<in> set ?w" "t \<notin> set sel" "agent_can_serve a t" "a \<in> set ?idle" for t a
  proof -
    have "length ps < wave_capacity sch running ?w \<or> ps = []" using that(1) ps by (auto simp: max_def split: if_splits)
    then have "ag_agent_id a \<in> set (map (ag_agent_id \<circ> snd) ps)" using m that(2-5) ps unfolding matching_def by auto
    with pa ps show ?thesis by force
  qed
  show ?thesis
  proof (intro conjI exI [of _ agent])
    show "if \<exists>i \<in> set running. \<not> task_allows_parallel sch i then sel = []
       else if running = [] \<and> (\<exists>t. dispatchable now sch b reg running t \<and> \<not> task_allows_parallel sch (bt_task_id t))
       then \<exists>t. sel = [t] \<and> \<not> task_allows_parallel sch (bt_task_id t) \<and>
         (\<forall>u. dispatchable now sch b reg running u \<and> \<not> task_allows_parallel sch (bt_task_id u) \<longrightarrow>
            exclusive_rank t \<le> exclusive_rank u)
       else length sel \<le> max 1 (dispatch_capacity sch running) \<and> (\<forall>t \<in> set sel. admitted sch running t) \<and>
         (length sel < max 1 (dispatch_capacity sch running) \<longrightarrow>
           (\<forall>t a. dispatchable now sch b reg running t \<and> admitted sch running t \<and> t \<notin> set sel \<and> agent_can_serve a t \<and>
              a \<in> set ?idle \<longrightarrow> ag_agent_id a \<in> agent ` set sel))" (is "if ?busy then _ else if ?barrier then ?one else ?many")
    proof -
      have none: "sel = []" if ?busy
      proof -
        have "?w = []" using that by (cases rule: wave_cases [of running sch now b reg]) (auto simp: list_ex_iff)
        with sub show ?thesis by simp
      qed
      have one: ?one if "\<not> ?busy" ?barrier
      proof (cases rule: wave_cases [of running sch now b reg])
        case (barrier t)
        have t: "dispatchable now sch b reg running t" using barrier(4) in_ordered_wave [OF assms(1)] by blast
        then obtain a where a: "a \<in> set ?idle" "agent_can_serve a t" by (auto simp: dispatchable_def)
        have "sel \<noteq> []" using left_over [of t a] a barrier(3) by (cases "sel = []") (auto simp: less_max_iff_disj)
        then have "sel = [t]" using sub barrier(3) by (cases sel) (auto split: if_splits dest: list_emb_length)
        moreover have "exclusive_rank t \<le> exclusive_rank u"
          if "dispatchable now sch b reg running u" "\<not> task_allows_parallel sch (bt_task_id u)" for u
          by (rule barrier_least [OF barrier(5)]) (use that in_ordered_wave [OF assms(1)] in auto)
        ultimately show ?thesis using barrier(2) by blast
      next
        case free
        with that(2) show ?thesis using in_ordered_wave [OF assms(1)] by (auto simp: filter_empty_conv)
      qed (use that in \<open>auto simp: list_ex_iff\<close>)
      have many: ?many if no: "\<not> ?busy" "\<not> ?barrier"
      proof -
        note w = wave_admits [OF assms(1) no(1), of now reg]
        have cap: "wave_capacity sch running ?w = dispatch_capacity sch running" using w(2) no(2) by blast
        have mem: "t \<in> set ?w \<longleftrightarrow> dispatchable now sch b reg running t \<and> admitted sch running t" for t using w(1) no(2) by blast
        have "length sel \<le> max 1 (dispatch_capacity sch running)" using m ps cap by (auto simp: matching_def)
        moreover have "\<forall>t \<in> set sel. admitted sch running t" using subseq_set_subset [OF sub] mem by blast
        moreover have "ag_agent_id a \<in> agent ` set sel"
          if "length sel < max 1 (dispatch_capacity sch running)" "dispatchable now sch b reg running t" "admitted sch running t"
            "t \<notin> set sel" "agent_can_serve a t" "a \<in> set ?idle" for t a
          using left_over [of t a] that mem cap by presburger
        ultimately show ?thesis by blast
      qed
      show ?thesis by (rule if_chain [OF none one many])
    qed
  qed (use dist inj s d in auto)
qed

definition demo_scheduler :: "int \<Rightarrow> scheduler" where
  "demo_scheduler n = \<lparr>sch_run_id = ''r'', sch_max_rounds = 5, sch_max_concurrency = n, sch_graph = None\<rparr>"

text \<open>With its only slot taken, the scheduler selects a task all the same.\<close>

theorem dispatch_wave_correct_witness:
  "map bt_task_id (fst (discover_dispatchable 0 (demo_scheduler 1) (demo_board Board_PENDING None)
      (demo_registry Agent_IDLE) [''x''] [])) = [''b''] \<and>
   dispatch_capacity (demo_scheduler 1) [''x''] = 0 \<and>
   distinct (map bt_task_id (fst (discover_dispatchable 0 (demo_scheduler 1) (demo_board Board_PENDING None)
      (demo_registry Agent_IDLE) [''x''] [])))"
proof (intro conjI)
  show "map bt_task_id (fst (discover_dispatchable 0 (demo_scheduler 1) (demo_board Board_PENDING None)
      (demo_registry Agent_IDLE) [''x''] [])) = [''b'']" by code_simp
  show "dispatch_capacity (demo_scheduler 1) [''x''] = 0" by code_simp
  obtain sel h where "discover_dispatchable 0 (demo_scheduler 1) (demo_board Board_PENDING None)
      (demo_registry Agent_IDLE) [''x''] [] = (sel, h)" by force
  with dispatch_wave_correct [OF demo_board_ok(1) demo_registry_wf this]
  show "distinct (map bt_task_id (fst (discover_dispatchable 0 (demo_scheduler 1) (demo_board Board_PENDING None)
      (demo_registry Agent_IDLE) [''x''] [])))" by simp
qed

section \<open>Tasks in flight\<close>

text \<open>
  The states of the loop with the plan it holds: workers change the board, the registry, the hints and the plan at will
  between its passes, and each turn reloads the plan. \<open>X\<close> are tasks that every plan a turn works with declares
  exclusive.
\<close>

inductive loop_reach :: "string set \<Rightarrow> scheduler \<Rightarrow> loop_state \<Rightarrow> bool" for X where
  begin_loop: "ls_running st = [] \<Longrightarrow> ls_round st = 0 \<Longrightarrow> 0 \<le> sch_max_rounds sch \<Longrightarrow> loop_reach X sch st"
| workers: "loop_reach X sch st \<Longrightarrow> loop_reach X (sch\<lparr>sch_graph := g\<rparr>) (st\<lparr>ls_board := b, ls_registry := reg, ls_hints := h\<rparr>)"
| turn: "loop_reach X sch st \<Longrightarrow> wf_board (ls_board st) \<Longrightarrow> wf_registry (ls_registry st) \<Longrightarrow>
    loop_turn plan env (sch, st) = ((sch', st'), Inr act) \<Longrightarrow> \<forall>i \<in> X. \<not> task_allows_parallel sch' i \<Longrightarrow> loop_reach X sch' st'"
| waited: "loop_reach X sch st \<Longrightarrow> loop_reach X sch (fst (after_wait sch env finished st))"

definition flight_ok :: "string set \<Rightarrow> string list \<Rightarrow> bool" where
  "flight_ok X running \<longleftrightarrow> distinct running \<and> (\<forall>i \<in> set running. i \<in> X \<longrightarrow> running = [i])"

lemma flight_ok_Nil [simp]: "flight_ok X []"
  by (simp add: flight_ok_def)

lemma cleanup_wf: "wf_registry reg \<Longrightarrow> wf_registry (fst (cleanup_expired wr clk now reg))"
  using reap_moves [of reg wr clk now "map fst (reg_agents reg)"]
  by (simp add: cleanup_expired_def registry_moves_def)

lemma cancel_running_fields [simp]:
  "ls_running (cancel_running env st) = []" "ls_round (cancel_running env st) = ls_round st"
  by (simp_all add: cancel_running_def split: prod.split)

lemma end_loop_fields [simp]:
  "ls_running (fst (end_loop sch status err env st)) = []"
  "ls_round (fst (end_loop sch status err env st)) = ls_round st"
  by (simp_all add: end_loop_def Let_def)

lemma cancel_loop_fields [simp]:
  "ls_running (fst (cancel_loop sch env st)) = []" "ls_round (fst (cancel_loop sch env st)) = ls_round st"
  by (simp_all add: cancel_loop_def Let_def split: prod.split sum.split)

text \<open>The dispatch of a pass that goes that far.\<close>

definition head_dispatch :: "scheduler \<Rightarrow> loop_env \<Rightarrow> loop_state \<Rightarrow> board_task list \<times> (string \<times> string) list" where
  "head_dispatch sch env st =
     discover_dispatchable (env_clock env 4) sch (ls_board st) (reaped_registry env st) (ls_running st) (ls_hints st)"

lemma loop_head_moves:
  "(ls_running (fst (loop_head sch env st)) = [] \<and> ls_round (fst (loop_head sch env st)) = ls_round st) \<or>
   (ls_running (fst (loop_head sch env st)) = ls_running st @ map bt_task_id (fst (head_dispatch sch env st)) \<and>
    ls_round st < sch_max_rounds sch \<and>
    ls_round (fst (loop_head sch env st)) =
      (if fst (head_dispatch sch env st) = [] then ls_round st else ls_round st + 1))"
proof (cases "ls_round st < sch_max_rounds sch \<and> \<not> env_paused env \<and> \<not> env_cancelled env")
  case False
  then show ?thesis by (auto simp: loop_head_def)
next
  case True
  show ?thesis
    using True unfolding loop_head_def Let_def head_dispatch_def case_prod_unfold
    by (cases "resolve_idle (\<lambda>i. env_clock env (i + 5)) sch (ls_board st) (reaped_registry env st)") simp_all
qed

text \<open>What a dispatch does to the tasks in flight, under the plan of its turn.\<close>

lemma dispatch_flight:
  fixes now sch hints
  assumes "wf_board b" "wf_registry reg" "distinct running"
  defines "new \<equiv> map bt_task_id (fst (discover_dispatchable now sch b reg running hints))"
  shows "distinct (running @ new)" "\<exists>i \<in> set running. \<not> task_allows_parallel sch i \<Longrightarrow> new = []"
    "i \<in> set new \<Longrightarrow> \<not> task_allows_parallel sch i \<Longrightarrow> running = [] \<and> new = [i]"
proof -
  let ?w = "wave now sch b reg running"
  obtain ps where ps: "fst (discover_dispatchable now sch b reg running hints) = map fst ps"
    and m: "matching (wave_capacity sch running ?w) 0 ?w (idle_agents (sch_run_id sch) reg) ps"
    using discover_matching [OF assms(2), of now sch b running hints] by (metis fst_conv)
  have sub: "subseq (map fst ps) ?w" using m by (simp add: matching_def)
  have "distinct (map (bt_task_id \<circ> fst) ps)" by (rule matching_ids [OF m wave_distinct [OF assms(1)]])
  moreover have "bt_task_id t \<notin> set running" if "t \<in> set (map fst ps)" for t
  proof -
    have "t \<in> set (ordered_wave now sch b reg running)"
      using that subseq_set_subset [OF sub] wave_ordered [of now sch b reg running] by blast
    then show ?thesis using in_ordered_wave [OF assms(1)] by (simp add: dispatchable_def)
  qed
  ultimately show "distinct (running @ new)" using assms(3) by (auto simp: new_def ps)
  show "new = []" if "\<exists>i \<in> set running. \<not> task_allows_parallel sch i"
  proof -
    have "?w = []" using that by (cases rule: wave_cases [of running sch now b reg]) (auto simp: list_ex_iff)
    with list_emb_length [OF sub] show ?thesis by (simp add: new_def ps)
  qed
  show "running = [] \<and> new = [i]" if "i \<in> set new" "\<not> task_allows_parallel sch i"
  proof -
    from that(1) obtain t where t: "t \<in> set (map fst ps)" "bt_task_id t = i" by (auto simp: new_def ps)
    then have "t \<in> set ?w" using subseq_set_subset [OF sub] by blast
    from wave_exclusive [OF this] that(2) t(2) have w: "running = []" "?w = [t]" by blast+
    then have "length (map fst ps) \<le> 1" using sub by (auto dest: list_emb_length)
    with t have "map bt_task_id (map fst ps) = [i]" by (cases ps) auto
    then show ?thesis using w(1) ps by (simp add: new_def)
  qed
qed

lemma flight_dispatch:
  assumes "flight_ok X running" "wf_board b" "wf_registry reg" "\<forall>i \<in> X. \<not> task_allows_parallel sch i"
  shows "flight_ok X (running @ map bt_task_id (fst (discover_dispatchable now sch b reg running hints)))"
proof -
  have d: "distinct running" using assms(1) by (simp add: flight_ok_def)
  note D = dispatch_flight [OF assms(2,3) d, where now = now and sch = sch and hints = hints]
  show ?thesis
    unfolding flight_ok_def
  proof (intro conjI ballI impI)
    fix i assume i: "i \<in> set (running @ map bt_task_id (fst (discover_dispatchable now sch b reg running hints)))" "i \<in> X"
    then have x: "\<not> task_allows_parallel sch i" using assms(4) by blast
    show "running @ map bt_task_id (fst (discover_dispatchable now sch b reg running hints)) = [i]"
    proof (cases "i \<in> set running")
      case True
      with D(2) x i(2) assms(1) show ?thesis by (auto simp: flight_ok_def)
    next
      case False
      then have "i \<in> set (map bt_task_id (fst (discover_dispatchable now sch b reg running hints)))" using i(1) by simp
      from D(3) [OF this x] show ?thesis by (metis append_Nil)
    qed
  qed (rule D(1))
qed

lemma flight_finish:
  assumes "flight_ok X running"
  shows "flight_ok X (map snd (filter (\<lambda>(i, _). i \<notin> F) (enumerate 0 running)))"
proof -
  have "subseq (map snd (filter (\<lambda>(i, _). i \<notin> F) (enumerate 0 running))) (map snd (enumerate 0 running))"
    by (intro subseq_map subseq_filter_left)
  then have sub: "subseq (map snd (filter (\<lambda>(i, _). i \<notin> F) (enumerate 0 running))) running" by simp
  from assms subseq_distinct [OF sub] subseq_set_subset [OF sub] sub list_emb_length [OF sub] show ?thesis
    by (fastforce simp: flight_ok_def)
qed

lemma refresh_keeps: "refresh_task_graph plan sch = Inr sch' \<Longrightarrow> sch_max_rounds sch' = sch_max_rounds sch"
  by (auto simp: refresh_task_graph_def split: option.splits if_splits sum.splits prod.splits)

text \<open>A turn of the loop ends as a pass from its head, under the plan it has loaded.\<close>

lemma loop_turn_head:
  assumes "loop_turn plan env (sch, st) = ((sch', st'), Inr act)"
  shows "st' = fst (loop_head sch' env st)" "act = snd (loop_head sch' env st)" "sch_max_rounds sch' = sch_max_rounds sch"
  using assms by (auto simp: loop_turn_def split: if_splits sum.splits prod.splits dest: refresh_keeps)

lemma after_wait_moves:
  "(ls_running (fst (after_wait sch env finished st)) = [] \<or>
    ls_running (fst (after_wait sch env finished st)) = ls_running st \<or>
    ls_running (fst (after_wait sch env finished st))
      = map snd (filter (\<lambda>(i, _). i \<notin> set finished) (enumerate 0 (ls_running st)))) \<and>
   ls_round (fst (after_wait sch env finished st)) = ls_round st"
  by (simp add: after_wait_def Let_def)

text \<open>C13: Whatever the workers do to the board, the registry and the plan between the passes of the loop, and whatever
  newer plan each turn loads, no task is in flight twice and the round counter never passes the budget; a task that every
  plan loaded declares exclusive is in flight alone; and under the plan a turn loads, it starts nothing beside an exclusive
  task in flight, and an exclusive task only by itself.\<close>

theorem exclusive_task_runs_alone:
  assumes "loop_reach X sch st"
  shows "distinct (ls_running st) \<and> (\<forall>i \<in> set (ls_running st). i \<in> X \<longrightarrow> ls_running st = [i]) \<and>
    0 \<le> ls_round st \<and> ls_round st \<le> sch_max_rounds sch \<and>
    (\<forall>plan env sch' st' act new. wf_board (ls_board st) \<and> wf_registry (ls_registry st) \<and>
       loop_turn plan env (sch, st) = ((sch', st'), Inr act) \<and> ls_running st' = ls_running st @ new \<and> new \<noteq> [] \<longrightarrow>
       (\<forall>i \<in> set (ls_running st). task_allows_parallel sch' i) \<and>
       (\<forall>i \<in> set new. \<not> task_allows_parallel sch' i \<longrightarrow> ls_running st' = [i]))"
proof -
  from assms have inv: "flight_ok X (ls_running st) \<and> 0 \<le> ls_round st \<and> ls_round st \<le> sch_max_rounds sch"
  proof induction
    case (turn sch st plan env sch' st' act)
    note t = loop_turn_head [OF turn.hyps(4)]
    have "flight_ok X (ls_running st @ map bt_task_id (fst (head_dispatch sch' env st)))"
      unfolding head_dispatch_def reaped_registry_def
      using turn.IH turn.hyps(2,3,5) by (intro flight_dispatch cleanup_wf) auto
    with turn.IH loop_head_moves [of sch' env st] t show ?case by auto
  next
    case (waited sch st env finished)
    with after_wait_moves [of sch env finished st] flight_finish [of X "ls_running st" "set finished"]
    show ?case by auto
  qed auto
  have "(\<forall>i \<in> set (ls_running st). task_allows_parallel sch' i) \<and> (\<forall>i \<in> set new. \<not> task_allows_parallel sch' i \<longrightarrow> ls_running st' = [i])"
    if h: "wf_board (ls_board st)" "wf_registry (ls_registry st)" "loop_turn plan env (sch, st) = ((sch', st'), Inr act)"
      "ls_running st' = ls_running st @ new" "new \<noteq> []" for plan env sch' st' act new
  proof -
    have new: "new = map bt_task_id (fst (head_dispatch sch' env st))"
      using loop_head_moves [of sch' env st] loop_turn_head(1) [OF h(3)] h(4,5) by auto
    have d: "distinct (ls_running st)" using inv by (simp add: flight_ok_def)
    note D = dispatch_flight [OF h(1) cleanup_wf [OF h(2)] d]
    show ?thesis using D(2) [where sch = sch'] D(3) [where sch = sch'] h(4,5) unfolding new head_dispatch_def reaped_registry_def by fastforce
  qed
  with inv show ?thesis unfolding flight_ok_def by blast
qed

definition empty_board :: task_board where
  "empty_board = \<lparr>board_tasks = [], board_by_run = [], board_persist = False, board_rows = []\<rparr>"

definition demo_loop :: loop_state where
  "demo_loop = \<lparr>ls_board = demo_board Board_PENDING None, ls_registry = demo_registry Agent_IDLE,
     ls_running = [], ls_hints = [], ls_round = 0\<rparr>"

definition demo_env :: loop_env where
  "demo_env = \<lparr>env_paused = False, env_cancelled = False, env_unwind = id,
     env_broker = empty_broker default_policy, env_integration = Some ([Check_done ''unit'' 0 False False], False),
     env_write = (\<lambda>_. True), env_agent_write = (\<lambda>_. True), env_clock = (\<lambda>_. 0)\<rparr>"

text \<open>Two tasks are ready and two agents idle; the plan in the store, which the loop does not have yet, makes the second
  task exclusive.\<close>

definition barrier_board :: task_board where
  "barrier_board = (let rows = [((''r'', ''a''), demo_task ''a'' [] Board_PENDING None), ((''r'', ''b''), demo_task ''b'' [] Board_PENDING None)]
     in \<lparr>board_tasks = rows, board_by_run = [(''r'', [(''r'', ''a''), (''r'', ''b'')])], board_persist = True, board_rows = rows\<rparr>)"

definition barrier_plan :: task_graph where
  "barrier_plan = \<lparr>graph_root = ''a'', graph_nodes = [(''a'', default_node ''a''),
     (''b'', (default_node ''b'')\<lparr>node_output_contract := default_contract\<lparr>oc_allow_parallel := False\<rparr>\<rparr>)],
     graph_version = 3, graph_created_at = 0, graph_updated_at = 0\<rparr>"

definition barrier_loop :: loop_state where
  "barrier_loop = demo_loop\<lparr>ls_board := barrier_board\<rparr>"

lemma barrier_board_ok: "wf_board barrier_board"
  by (auto simp: wf_board_def barrier_board_def Let_def table_ok_def run_keys_def demo_task_def new_board_task_def task_key_of_def)

theorem exclusive_task_runs_alone_witness:
  "\<exists>sch st. loop_reach {''b''} sch st \<and> ls_running st = [''b''] \<and> ls_round st \<le> 5 \<and>
    map bt_task_id (ready_tasks_of 0 ''r'' barrier_board) = [''a'', ''b'']"
proof -
  let ?t = "loop_turn (Some (3, Inr barrier_plan)) demo_env (demo_scheduler 2, barrier_loop)"
  have "map_prod (map_prod (\<lambda>sch. map (task_allows_parallel sch) [''a'', ''b'']) ls_running) (\<lambda>_. ()) ?t = (([True, False], [''b'']), ())"
    by code_simp
  moreover have "\<not> isl (snd ?t)" by code_simp
  ultimately obtain sch st act where t: "?t = ((sch, st), Inr act)" "\<not> task_allows_parallel sch ''b''" "ls_running st = [''b'']"
    by (cases ?t; cases "fst ?t"; cases "snd ?t") auto
  have b: "loop_reach {''b''} (demo_scheduler 2) barrier_loop"
    by (rule begin_loop) (simp_all add: barrier_loop_def demo_loop_def demo_scheduler_def)
  have "loop_reach {''b''} sch st"
    by (rule turn [OF b _ _ t(1)]) (simp_all add: barrier_loop_def demo_loop_def barrier_board_ok demo_registry_wf t(2))
  moreover from exclusive_task_runs_alone [OF this] have "ls_round st \<le> sch_max_rounds sch" by blast
  moreover have "sch_max_rounds sch = 5" using loop_turn_head(3) [OF t(1)] by (simp add: demo_scheduler_def)
  moreover have "map bt_task_id (ready_tasks_of 0 ''r'' barrier_board) = [''a'', ''b'']" by code_simp
  ultimately show ?thesis using t(3) by auto
qed

section \<open>How a run ends\<close>

lemma run_checks_None:
  "run_checks cs = None \<longleftrightarrow> (\<forall>c \<in> set cs. \<exists>label. c = Check_done label 0 False False)"
  by (induction cs rule: run_checks.induct) auto

lemma run_checks_Some:
  "run_checks cs = Some outcome \<Longrightarrow> \<exists>c \<in> set cs. \<forall>label. c \<noteq> Check_done label 0 False False"
  using run_checks_None [of cs] by auto

lemma run_checks_not_completed: "run_checks cs = Some (status, e) \<Longrightarrow> status \<noteq> Schedule_COMPLETED"
  by (induction cs rule: run_checks.induct) (auto split: if_splits)

text \<open>The gates of a verified run.\<close>

definition clean_run :: "scheduler \<Rightarrow> broker \<Rightarrow> (check_result list \<times> bool) option \<Rightarrow> task_board \<Rightarrow> bool" where
  "clean_run sch br integration b \<longleftrightarrow>
     pending_requests (sch_run_id sch) br = [] \<and>
     (\<forall>t \<in> set (list_by_run (sch_run_id sch) b). \<not> dict_truthy (bt_metadata t) ''merge_conflicts'') \<and>
     (\<forall>checks missing. integration = Some (checks, missing) \<longrightarrow>
        \<not> missing \<and> (\<forall>c \<in> set checks. \<exists>label. c = Check_done label 0 False False))"

lemma verified_outcome_completed:
  "fst (verified_outcome sch br integration b) = Schedule_COMPLETED \<longleftrightarrow> clean_run sch br integration b"
proof (cases integration)
  case None
  then show ?thesis by (simp add: verified_outcome_def clean_run_def list_ex_iff)
next
  case (Some ck)
  then obtain checks missing where i: "integration = Some (checks, missing)" by (cases ck) auto
  show ?thesis
  proof (cases "run_checks checks")
    case None
    then show ?thesis
      using run_checks_None [of checks] i by (simp add: verified_outcome_def clean_run_def list_ex_iff)
  next
    case (Some outcome)
    then have "fst outcome \<noteq> Schedule_COMPLETED" "\<not> (\<forall>c \<in> set checks. \<exists>label. c = Check_done label 0 False False)"
      using run_checks_not_completed [of checks "fst outcome" "snd outcome"] run_checks_Some [OF Some] by auto
    with Some i show ?thesis by (auto simp: verified_outcome_def clean_run_def list_ex_iff)
  qed
qed

lemma finalize_status [simp]: "rr_status (finalize sch n status e b) = status"
  by (simp add: finalize_def Let_def)

lemma finalize_verified_status [simp]:
  "rr_status (finalize_verified_run sch n br integration b) = fst (verified_outcome sch br integration b)"
  by (simp add: finalize_verified_run_def split: prod.split)

lemma end_loop_action: "snd (end_loop sch status e env st) = Act_finish r \<Longrightarrow> rr_status r = status"
  by (auto simp: end_loop_def Let_def)

lemma cancel_loop_action: "snd (cancel_loop sch env st) = Act_finish r \<Longrightarrow> rr_status r = Schedule_CANCELLED"
  by (auto simp: cancel_loop_def Let_def split: prod.splits sum.splits)

lemma resolve_idle_all:
  "resolve_idle clk sch b reg = Idle_all_succeeded \<longleftrightarrow> all_succeeded (sch_run_id sch) b"
  by (simp add: resolve_idle_def Let_def)

lemma resolve_idle_not_completed: "resolve_idle clk sch b reg \<noteq> Idle_end Schedule_COMPLETED e"
  by (simp add: resolve_idle_def Let_def)

lemma loop_head_completed:
  assumes "snd (loop_head sch env st) = Act_finish r" "rr_status r = Schedule_COMPLETED"
  shows "ls_board (fst (loop_head sch env st)) = ls_board st \<and> all_succeeded (sch_run_id sch) (ls_board st) \<and>
    clean_run sch (env_broker env) (env_integration env) (ls_board st)"
proof (cases "ls_round st < sch_max_rounds sch \<and> \<not> env_paused env \<and> \<not> env_cancelled env")
  case False
  with assms show ?thesis
    by (auto simp: loop_head_def dest!: end_loop_action cancel_loop_action)
next
  case True
  define ri where "ri = resolve_idle (\<lambda>i. env_clock env (i + 5)) sch (ls_board st) (reaped_registry env st)"
  have "ri = Idle_all_succeeded \<longleftrightarrow> all_succeeded (sch_run_id sch) (ls_board st)" "\<forall>e. ri \<noteq> Idle_end Schedule_COMPLETED e"
    unfolding ri_def by (simp_all add: resolve_idle_all resolve_idle_not_completed)
  with True assms show ?thesis
    unfolding loop_head_def Let_def case_prod_unfold
    by (cases ri) (auto simp: ri_def [symmetric] verified_outcome_completed split: if_splits)
qed

lemma idle_pass_completed:
  "ls_round st < sch_max_rounds sch \<and> \<not> env_paused env \<and> \<not> env_cancelled env \<and>
    ls_running st = [] \<and> fst (head_dispatch sch env st) = [] \<and> all_succeeded (sch_run_id sch) (ls_board st) \<and>
    clean_run sch (env_broker env) (env_integration env) (ls_board st) \<Longrightarrow>
    \<exists>q. snd (loop_head sch env st) = Act_finish q \<and> rr_status q = Schedule_COMPLETED"
  by (auto simp: loop_head_def Let_def case_prod_unfold head_dispatch_def resolve_idle_def verified_outcome_completed)

lemma after_wait_completed:
  assumes "snd (after_wait sch env finished st) = Act_finish r" "rr_status r = Schedule_COMPLETED"
  shows "ls_board (fst (after_wait sch env finished st)) = ls_board st \<and> all_succeeded (sch_run_id sch) (ls_board st) \<and>
    clean_run sch (env_broker env) (env_integration env) (ls_board st)"
  using assms
  by (auto simp: after_wait_def Let_def verified_outcome_completed split: if_splits
      dest!: end_loop_action cancel_loop_action)

text \<open>C14: The loop reports a run COMPLETED only when every stored task of the run is settled, no permission
  request is pending, no task records a merge conflict, and every integration check was run and passed; and a
  pass with nothing in flight or to dispatch does report it then.\<close>

theorem completed_iff_clean:
  assumes "wf_board (ls_board st)"
  shows "((snd (loop_head sch env st) = Act_finish r \<or> snd (after_wait sch env finished st) = Act_finish r) \<and>
      rr_status r = Schedule_COMPLETED \<longrightarrow>
      (\<forall>i t. map_of (board_tasks (ls_board st)) (sch_run_id sch, i) = Some t \<longrightarrow> task_settled t) \<and>
      clean_run sch (env_broker env) (env_integration env) (ls_board st)) \<and>
    (ls_round st < sch_max_rounds sch \<and> \<not> env_paused env \<and> \<not> env_cancelled env \<and>
      ls_running st = [] \<and> fst (head_dispatch sch env st) = [] \<and>
      (\<forall>i t. map_of (board_tasks (ls_board st)) (sch_run_id sch, i) = Some t \<longrightarrow> task_settled t) \<and>
      clean_run sch (env_broker env) (env_integration env) (ls_board st) \<longrightarrow>
      (\<exists>q. snd (loop_head sch env st) = Act_finish q \<and> rr_status q = Schedule_COMPLETED))"
proof -
  have all: "all_succeeded (sch_run_id sch) (ls_board st) \<longleftrightarrow>
      (\<forall>i t. map_of (board_tasks (ls_board st)) (sch_run_id sch, i) = Some t \<longrightarrow> task_settled t)"
    using wf_board_task [OF assms] by (fastforce simp: all_succeeded_def list_all_iff in_list_by_run [OF assms])
  show ?thesis
    unfolding all [symmetric]
    using loop_head_completed [of sch env st r] after_wait_completed [of sch env finished st r]
      idle_pass_completed [of st sch env] by blast
qed

theorem completed_iff_clean_witness:
  "\<exists>q. snd (loop_head (demo_scheduler 1) demo_env (demo_loop\<lparr>ls_board := empty_board\<rparr>)) = Act_finish q \<and>
     rr_status q = Schedule_COMPLETED"
proof -
  let ?st = "demo_loop\<lparr>ls_board := empty_board\<rparr>"
  have wf: "wf_board (ls_board ?st)" by (simp add: empty_board_def wf_board_def table_ok_def run_keys_def)
  have "fst (head_dispatch (demo_scheduler 1) demo_env ?st) = []" by code_simp
  moreover have "clean_run (demo_scheduler 1) (env_broker demo_env) (env_integration demo_env) (ls_board ?st)"
    by (simp add: clean_run_def demo_scheduler_def demo_env_def empty_broker_def pending_requests_def
        empty_board_def list_by_run_def raw_list_by_run_def run_keys_def)
  ultimately show ?thesis
    using completed_iff_clean [OF wf, of "demo_scheduler 1" demo_env]
    by (simp add: demo_loop_def demo_scheduler_def demo_env_def empty_board_def)
qed

end
