(* ===== verification/Scheduler_Ends.thy ===== *)
theory Scheduler_Ends
  imports Scheduler_Props
begin

text \<open>
  What an idle pass of the scheduler decides, where the planning of a dispatch and the reservation of an agent
  agree and where they do not, and what a merge conflict does to a run.
\<close>

section \<open>Idle passes\<close>

lemma deferred_tasks_sub:
  "t \<in> set (deferred_tasks clk ts) \<Longrightarrow> t \<in> set ts \<and> bt_status t = Board_PENDING \<and> bt_next_attempt_at t \<noteq> None"
  by (auto simp: deferred_tasks_def in_set_enumerate_eq split: option.splits)

lemma idle_sleep_bounds:
  assumes "resolve_idle clk sch b reg = Idle_sleep s"
  shows "1 / 20 \<le> s \<and> s \<le> 1 \<and> (\<exists>t \<in> set (list_by_run (sch_run_id sch) b).
    bt_status t = Board_PENDING \<and> bt_next_attempt_at t \<noteq> None)"
proof -
  let ?later = "deferred_tasks clk (list_by_run (sch_run_id sch) b)"
  from assms have "?later \<noteq> []"
    by (auto simp: resolve_idle_def Let_def split: if_splits)
  then have "\<exists>t \<in> set (list_by_run (sch_run_id sch) b). bt_status t = Board_PENDING \<and> bt_next_attempt_at t \<noteq> None"
    using deferred_tasks_sub by (metis hd_in_set)
  moreover have "1 / 20 \<le> s \<and> s \<le> 1"
    using assms by (auto simp: resolve_idle_def Let_def split: if_splits)
  ultimately show ?thesis by blast
qed

text \<open>The states of the tasks, as the chain of conditions reads them.\<close>

definition needs_human :: "board_task list \<Rightarrow> bool" where
  "needs_human ts \<longleftrightarrow>
     (\<exists>t \<in> set ts. bt_status t \<in> {Board_BLOCKED, Board_REPAIR_REQUIRED, Board_REPLAN_REQUIRED})"

definition all_terminal :: "board_task list \<Rightarrow> bool" where
  "all_terminal ts \<longleftrightarrow> (\<forall>t \<in> set ts. terminal_status (bt_status t))"

definition some_status :: "board_status \<Rightarrow> board_task list \<Rightarrow> bool" where
  "some_status st ts \<longleftrightarrow> (\<exists>t \<in> set ts. bt_status t = st)"

lemma idle_end_chain:
  assumes "resolve_idle clk sch b reg = Idle_end status e" "tasks = list_by_run (sch_run_id sch) b"
    and "\<not> all_succeeded (sch_run_id sch) b"
  shows "(status, e) =
     (if needs_human tasks then (Schedule_WAITING_HUMAN, Err_intervention)
      else if all_terminal tasks \<and> some_status Board_FAILED tasks then (Schedule_FAILED, Err_tasks_failed)
      else if all_terminal tasks \<and> some_status Board_CANCELLED tasks then (Schedule_CANCELLED, Err_tasks_cancelled)
      else if deadlocked_tasks tasks \<noteq> []
        then (Schedule_FAILED, Err_dead_dependency (map bt_task_id (deadlocked_tasks tasks)))
      else if some_status Board_PENDING tasks then (Schedule_FAILED, Err_no_eligible_worker
        (map bt_required_capabilities (unserviceable_tasks sch b reg (filter (\<lambda>t. bt_status t = Board_PENDING) tasks)))
        (live_capabilities sch reg))
      else (Schedule_FAILED, Err_deadlock))"
proof -
  have "tasks \<noteq> []" using assms(2,3) by (auto simp: all_succeeded_def)
  then have "list_ex (\<lambda>s. s \<in> {Board_BLOCKED, Board_REPAIR_REQUIRED, Board_REPLAN_REQUIRED}) (map bt_status tasks)
        \<longleftrightarrow> needs_human tasks"
      "list_all terminal_status (map bt_status tasks) \<longleftrightarrow> all_terminal tasks" "map bt_status tasks \<noteq> []"
      "Board_FAILED \<in> set (map bt_status tasks) \<longleftrightarrow> some_status Board_FAILED tasks"
      "Board_CANCELLED \<in> set (map bt_status tasks) \<longleftrightarrow> some_status Board_CANCELLED tasks"
    by (auto simp: needs_human_def all_terminal_def some_status_def list_ex_iff list_all_iff image_iff eq_commute)
  moreover have "filter (\<lambda>t. bt_status t = Board_PENDING) tasks \<noteq> [] \<longleftrightarrow> some_status Board_PENDING tasks"
    by (auto simp: some_status_def filter_empty_conv)
  ultimately show ?thesis using assms(1,3)
    unfolding resolve_idle_def Let_def assms(2) [symmetric] by (simp only: if_False if_True split: if_splits) auto
qed

lemma cancelled_mix:
  assumes "\<exists>t \<in> set ts. bt_status t \<noteq> Board_SUCCEEDED"
  shows "\<not> needs_human ts \<and> \<not> (all_terminal ts \<and> some_status Board_FAILED ts) \<and>
      all_terminal ts \<and> some_status Board_CANCELLED ts
    \<longleftrightarrow> (\<forall>t \<in> set ts. bt_status t \<in> {Board_SUCCEEDED, Board_CANCELLED})"
proof
  assume l: "\<not> needs_human ts \<and> \<not> (all_terminal ts \<and> some_status Board_FAILED ts) \<and>
      all_terminal ts \<and> some_status Board_CANCELLED ts"
  then show "\<forall>t \<in> set ts. bt_status t \<in> {Board_SUCCEEDED, Board_CANCELLED}"
    unfolding all_terminal_def terminal_status_def some_status_def by blast
next
  assume r: "\<forall>t \<in> set ts. bt_status t \<in> {Board_SUCCEEDED, Board_CANCELLED}"
  then have "\<not> needs_human ts" "\<not> some_status Board_FAILED ts" "all_terminal ts"
    by (fastforce simp: needs_human_def some_status_def all_terminal_def terminal_status_def)+
  moreover have "some_status Board_CANCELLED ts" using assms r by (fastforce simp: some_status_def)
  ultimately show "\<not> needs_human ts \<and> \<not> (all_terminal ts \<and> some_status Board_FAILED ts) \<and>
      all_terminal ts \<and> some_status Board_CANCELLED ts" by blast
qed

lemma pending_mix:
  assumes "\<exists>t \<in> set ts. bt_status t \<noteq> Board_SUCCEEDED"
    and "\<forall>t \<in> set ts. bt_status t \<in> {Board_PENDING, Board_SUCCEEDED}"
  shows "\<not> needs_human ts \<and> \<not> all_terminal ts \<and> deadlocked_tasks ts = [] \<and> some_status Board_PENDING ts"
proof -
  from assms obtain u where u: "u \<in> set ts" "bt_status u = Board_PENDING" by blast
  then have "\<not> terminal_status (bt_status u)" by (simp add: terminal_status_def)
  with u have "\<not> all_terminal ts" "some_status Board_PENDING ts"
    unfolding all_terminal_def some_status_def by blast+
  moreover have "\<not> needs_human ts" using assms(2) by (fastforce simp: needs_human_def)
  moreover have "filter (\<lambda>t. bt_status t \<in> {Board_FAILED, Board_CANCELLED}) ts = []"
    unfolding filter_empty_conv using assms(2) by force
  then have "deadlocked_tasks ts = []" by (simp add: deadlocked_tasks_def list_ex_iff)
  ultimately show ?thesis by blast
qed

text \<open>A pass with nothing in flight or to dispatch and unsettled tasks either sleeps between 0.05 and 1
  second because a retry is deferred, or ends the run: waiting for a human exactly when a task is blocked or
  needs repair or replanning, cancelled exactly when every task succeeded or was cancelled, failed otherwise.
  When every task is pending or succeeded it fails the run for want of a worker even if every ready task has
  a live agent that can serve it.\<close>

theorem idle_pass_outcome:
  assumes "\<not> all_succeeded (sch_run_id sch) b" "tasks = list_by_run (sch_run_id sch) b"
  shows "case resolve_idle clk sch b reg of
      Idle_all_succeeded \<Rightarrow> False
    | Idle_sleep s \<Rightarrow> 1 / 20 \<le> s \<and> s \<le> 1 \<and>
        (\<exists>t \<in> set tasks. bt_status t = Board_PENDING \<and> bt_next_attempt_at t \<noteq> None)
    | Idle_end status e \<Rightarrow>
        (status = Schedule_WAITING_HUMAN \<longleftrightarrow>
          (\<exists>t \<in> set tasks. bt_status t \<in> {Board_BLOCKED, Board_REPAIR_REQUIRED, Board_REPLAN_REQUIRED})) \<and>
        (status = Schedule_CANCELLED \<longleftrightarrow>
          (\<forall>t \<in> set tasks. bt_status t \<in> {Board_SUCCEEDED, Board_CANCELLED})) \<and>
        status \<in> {Schedule_WAITING_HUMAN, Schedule_CANCELLED, Schedule_FAILED} \<and>
        ((\<forall>t \<in> set tasks. bt_status t \<in> {Board_PENDING, Board_SUCCEEDED}) \<longrightarrow>
          e = Err_no_eligible_worker
            (map bt_required_capabilities (unserviceable_tasks sch b reg
               (filter (\<lambda>t. bt_status t = Board_PENDING) tasks)))
            (live_capabilities sch reg))"
proof (cases "resolve_idle clk sch b reg")
  case Idle_all_succeeded
  with assms(1) show ?thesis by (simp add: resolve_idle_all)
next
  case (Idle_sleep s)
  with idle_sleep_bounds [OF this] assms(2) show ?thesis by simp
next
  case (Idle_end status e)
  have ne: "\<exists>t \<in> set tasks. bt_status t \<noteq> Board_SUCCEEDED"
    using assms by (auto simp: all_succeeded_def list_all_iff task_settled_def)
  note chain = idle_end_chain [OF Idle_end assms(2,1)]
  from chain have "status = Schedule_WAITING_HUMAN \<longleftrightarrow> needs_human tasks"
    "status \<in> {Schedule_WAITING_HUMAN, Schedule_CANCELLED, Schedule_FAILED}"
    "status = Schedule_CANCELLED \<longleftrightarrow> \<not> needs_human tasks \<and> \<not> (all_terminal tasks \<and> some_status Board_FAILED tasks) \<and>
       all_terminal tasks \<and> some_status Board_CANCELLED tasks"
    by (simp_all split: if_splits)
  moreover have "e = Err_no_eligible_worker
      (map bt_required_capabilities (unserviceable_tasks sch b reg (filter (\<lambda>t. bt_status t = Board_PENDING) tasks)))
      (live_capabilities sch reg)"
    if "\<forall>t \<in> set tasks. bt_status t \<in> {Board_PENDING, Board_SUCCEEDED}"
    using pending_mix [OF ne that] chain by simp
  ultimately show ?thesis using Idle_end unfolding cancelled_mix [OF ne] by (simp add: needs_human_def)
qed

definition busy_registry :: agent_registry where
  "busy_registry = \<lparr>reg_agents = [(''a'', demo_agent ''a'' Agent_WAITING_PERMISSION [''coding''])],
     reg_lease_timeout = 60, reg_rows = []\<rparr>"

theorem idle_pass_outcome_witness:
  "resolve_idle (\<lambda>_. 0) (demo_scheduler 1) (demo_board Board_PENDING None) busy_registry
     = Idle_end Schedule_FAILED (Err_no_eligible_worker [] [''coding''])"
proof -
  let ?r = "resolve_idle (\<lambda>_. 0) (demo_scheduler 1) (demo_board Board_PENDING None) busy_registry"
  let ?ts = "list_by_run (sch_run_id (demo_scheduler 1)) (demo_board Board_PENDING None)"
  have n: "\<not> all_succeeded (sch_run_id (demo_scheduler 1)) (demo_board Board_PENDING None)" by code_simp
  have st: "map bt_status ?ts = [Board_SUCCEEDED, Board_PENDING, Board_PENDING]"
    "map bt_next_attempt_at ?ts = [None, None, None]"
    "unserviceable_tasks (demo_scheduler 1) (demo_board Board_PENDING None) busy_registry
       (filter (\<lambda>t. bt_status t = Board_PENDING) ?ts) = []"
    "live_capabilities (demo_scheduler 1) busy_registry = [''coding'']"
    by code_simp+
  have set: "\<forall>t \<in> set ?ts. bt_status t \<in> {Board_PENDING, Board_SUCCEEDED} \<and> bt_next_attempt_at t = None"
    using st(1,2) by (auto simp: map_eq_Cons_conv)
  have "\<exists>t \<in> set ?ts. bt_status t = Board_PENDING" using st(1) by (auto simp: map_eq_Cons_conv)
  with set idle_pass_outcome [OF n refl, where clk = "\<lambda>_. 0" and reg = busy_registry] show ?thesis
    by (cases ?r) (use st(3,4) in \<open>fastforce+\<close>)
qed

section \<open>Planning and reservation\<close>

definition known_capabilities :: "string list \<Rightarrow> bool" where
  "known_capabilities caps \<longleftrightarrow> set caps \<subseteq> set PRIMARY_CAPS \<union> set TOOL_CAPS"

lemma caps_disjoint: "set PRIMARY_CAPS \<inter> set TOOL_CAPS = {}"
  by code_simp

lemma known_primary:
  assumes "known_capabilities caps"
  shows "set (filter (\<lambda>c. c \<notin> set TOOL_CAPS) caps) = set (stripped_caps caps)"
  using assms caps_disjoint by (auto simp: known_capabilities_def stripped_caps_def)

lemma use_caps_sub: "cs \<in> set (use_caps_list caps) \<longleftrightarrow>
    cs = caps \<or> (cs = stripped_caps caps \<and> stripped_caps caps \<noteq> [] \<and> set (stripped_caps caps) \<noteq> set caps)"
  by (auto simp: use_caps_list_def Let_def)

lemma planning_matches:
  assumes "known_capabilities (bt_required_capabilities t)"
  shows "agent_can_serve a t \<longleftrightarrow>
    (\<exists>cs \<in> set (use_caps_list (bt_required_capabilities t)). set cs \<subseteq> set (ag_capabilities a))"
proof -
  let ?r = "bt_required_capabilities t"
  have p: "set (filter (\<lambda>c. c \<notin> set TOOL_CAPS) ?r) = set (stripped_caps ?r)" by (rule known_primary [OF assms])
  then have "filter (\<lambda>c. c \<notin> set TOOL_CAPS) ?r = [] \<longleftrightarrow> stripped_caps ?r = []" by (metis set_empty)
  with p show ?thesis
    unfolding agent_can_serve_def Let_def use_caps_sub Bex_def by auto
qed

text \<open>For tasks that require only the six primary and the six tool capabilities, the scheduler plans an agent
  for a task exactly when the registry's capability test accepts the pair, and then, the agent being idle in
  the run and accepting work, a reservation for the task finds an agent. For other capability names the two
  disagree in both directions.\<close>

theorem planning_matches_reservation:
  assumes "wf_registry reg" "a \<in> set (idle_agents rid reg)" "ag_max_concurrency a \<ge> 1"
    and "known_capabilities (bt_required_capabilities t)"
  shows "(agent_can_serve a t \<longleftrightarrow>
      (\<exists>cs \<in> set (use_caps_list (bt_required_capabilities t)). reservable rid cs a)) \<and>
    (agent_can_serve a t \<longrightarrow>
      (\<exists>g. snd (reserve_idle_agent True clk rid (bt_required_capabilities t) (bt_task_id t) hint reg) = Inr (Some g)))"
proof -
  have res: "reservable rid cs a \<longleftrightarrow> set cs \<subseteq> set (ag_capabilities a)" for cs
    using assms(2,3)
    by (auto simp: reservable_def idle_agents_def agents_by_run_def is_legal_agent_transition_def)
  have in_ag: "a \<in> set (agents reg)" using assms(2) by (simp add: idle_agents_def agents_by_run_def)
  obtain reg' out where r:
    "reserve_idle_agent True clk rid (bt_required_capabilities t) (bt_task_id t) hint reg = (reg', out)" by force
  have "\<exists>g. out = Inr (Some g)" if "\<exists>cs \<in> set (use_caps_list (bt_required_capabilities t)). reservable rid cs a"
    using reserve_cases [OF assms(1) r] in_ag that by (metis (full_types))
  then show ?thesis
    using planning_matches [OF assms(4), of a] r by (simp add: res)
qed

definition caps_task :: "string list \<Rightarrow> board_task" where
  "caps_task caps = (new_board_task 0 0 ''t'' ''r'' ''t'' [])\<lparr>bt_required_capabilities := caps\<rparr>"

theorem planning_matches_reservation_witness:
  "(\<exists>g. snd (reserve_idle_agent True (\<lambda>_. 0) ''r'' [''coding'', ''shell_execute''] ''t'' None (demo_registry Agent_IDLE))
      = Inr (Some g)) \<and>
   agent_can_serve (demo_agent ''a'' Agent_IDLE [''database'']) (caps_task [''database'', ''shell_execute'']) \<and>
   \<not> reservable ''r'' [''database'', ''shell_execute''] (demo_agent ''a'' Agent_IDLE [''database'']) \<and>
   use_caps_list [''database'', ''shell_execute''] = [[''database'', ''shell_execute'']] \<and>
   \<not> agent_can_serve (demo_agent ''a'' Agent_IDLE [''coding'']) (caps_task [''coding'', ''database'']) \<and>
   reservable ''r'' (stripped_caps [''coding'', ''database'']) (demo_agent ''a'' Agent_IDLE [''coding''])"
proof (intro conjI)
  let ?t = "caps_task [''coding'', ''shell_execute'']" and ?a = "demo_agent ''a'' Agent_IDLE [''coding'']"
  have c: "bt_required_capabilities ?t = [''coding'', ''shell_execute'']" "bt_task_id ?t = ''t''" by code_simp+
  have k: "known_capabilities (bt_required_capabilities ?t)" by code_simp
  have a: "?a \<in> set (idle_agents ''r'' (demo_registry Agent_IDLE))"
    by (simp add: idle_agents_def agents_by_run_def agents_def demo_registry_def demo_agent_def)
  have m: "ag_max_concurrency ?a \<ge> 1" by (simp add: demo_agent_def)
  have "agent_can_serve ?a ?t" by code_simp
  with planning_matches_reservation [OF demo_registry_wf a m k] c
  show "\<exists>g. snd (reserve_idle_agent True (\<lambda>_. 0) ''r'' [''coding'', ''shell_execute''] ''t'' None (demo_registry Agent_IDLE))
      = Inr (Some g)" by simp
qed code_simp+

section \<open>Merge conflicts\<close>

lemma append_entry_other: "append_entry l k v d = Some d' \<Longrightarrow> j \<noteq> k \<Longrightarrow> map_of d' j = map_of d j"
  by (auto simp: append_entry_def Let_def split: option.splits pyval.splits)

text \<open>What the board operations leave of a task's metadata.\<close>

definition conflict_kept :: "board_task \<Rightarrow> board_task \<Rightarrow> bool" where
  "conflict_kept t t' \<longleftrightarrow> map_of (bt_metadata t') ''merge_conflicts'' = map_of (bt_metadata t) ''merge_conflicts''"

definition keeps_conflicts :: "task_key \<Rightarrow> task_board \<Rightarrow> task_board \<Rightarrow> bool" where
  "keeps_conflicts k b b' \<longleftrightarrow>
     (\<forall>t. map_of (board_tasks b) k = Some t \<longrightarrow> (\<exists>t'. map_of (board_tasks b') k = Some t' \<and> conflict_kept t t'))"

lemma conflicts_refl [simp]: "keeps_conflicts k b b"
  by (simp add: keeps_conflicts_def conflict_kept_def)

lemma conflicts_trans: "keeps_conflicts k b c \<Longrightarrow> keeps_conflicts k c d \<Longrightarrow> keeps_conflicts k b d"
  by (fastforce simp: keeps_conflicts_def conflict_kept_def)

lemma conflicts_put:
  "map_of (board_tasks b) k = Some t \<Longrightarrow> conflict_kept t t' \<Longrightarrow> keeps_conflicts j b (put_task k t' b)"
  by (auto simp: keeps_conflicts_def conflict_kept_def)

lemma conflicts_upsert [simp]: "keeps_conflicts j b (upsert_task_board_task t c) = keeps_conflicts j b c"
  by (simp add: keeps_conflicts_def)

lemma conflicts_commit:
  "map_of (board_tasks b) k = Some t \<Longrightarrow> conflict_kept t t' \<Longrightarrow> keeps_conflicts j b (fst (commit wr k t' x b))"
  by (simp add: commit_def persist_def conflicts_put)

named_theorems op_keeps \<open>every board operation keeps the merge conflicts\<close>

lemma claim_keeps [op_keeps]:
  assumes "wf_board b" "synced b"
  shows "keeps_conflicts j b (fst (claim wr t1 t2 i a (Some r) b))"
proof -
  obtain b' res where c: "claim wr t1 t2 i a (Some r) b = (b', res)" by force
  show ?thesis
  proof (cases "map_of (board_tasks b) (r, i)")
    case None
    with claim_cases [OF assms c] c show ?thesis by simp
  next
    case (Some t)
    have "keeps_conflicts j b (fst (commit True (r, i) (claimed t1 t2 a t) True b))"
      using Some by (rule conflicts_commit) (simp add: conflict_kept_def claimed_def)
    with claim_cases [OF assms c] c Some show ?thesis
      by (simp add: Let_def split: option.splits if_splits)
  qed
qed

lemma fail_keeps [op_keeps]: "keeps_conflicts j b (fst (fail wr t1 t2 i a e (Some r) rt d c b))"
proof (cases "map_of (board_tasks b) (r, i)")
  case None
  then show ?thesis by (simp add: fail_def raw_get_run)
next
  case (Some t)
  note commit = conflicts_commit [OF Some] and put = conflicts_put [OF Some]
  show ?thesis
    by (auto simp: fail_def raw_get_run Some Let_def requeued_def conflict_kept_def append_entry_other
        intro!: commit put split: option.split bool.split)
qed

lemma plain_keeps [op_keeps]:
  "keeps_conflicts j b (fst (start wr t1 i a (Some r) b))"
  "keeps_conflicts j b (fst (release wr t1 i a reason (Some r) b))"
  "keeps_conflicts j b (fst (complete wr t1 t2 i a arts (Some r) b))"
  "keeps_conflicts j b (fst (mark_produced wr t1 i a arts (Some r) b))"
  "keeps_conflicts j b (fst (mark_verifying wr t1 i (Some r) b))"
  "keeps_conflicts j b (fst (mark_verified wr t1 t2 i (Some r) b))"
  "keeps_conflicts j b (fst (mark_repair_required wr t1 i (Some r) b))"
  "keeps_conflicts j b (fst (mark_blocked wr t1 i a reason (Some r) b))"
  "keeps_conflicts j b (fst (supersede_with_repair wr t1 i rep r b))"
  "keeps_conflicts j b (fst (cancel wr t1 t2 i reason (Some r) b))"
  by (auto simp: start_def release_def complete_def mark_produced_def mark_verifying_def mark_verified_def
      mark_repair_required_def mark_blocked_def supersede_with_repair_def cancel_def raw_get_run
      conflict_kept_def intro!: conflicts_commit split: option.split)

lemma entry_keeps [op_keeps]:
  "keeps_conflicts j b (fst (retry wr t1 t2 i r reason reset b))"
  "keeps_conflicts j b (fst (request_replan wr t1 i reason by (Some r) b))"
  by (auto simp: retry_def request_replan_def raw_get_run Let_def conflict_kept_def append_entry_other
      intro!: conflicts_commit split: option.split)

lemma exec_keeps: "wf_board b \<Longrightarrow> synced b \<Longrightarrow> keeps_conflicts j b (fst (exec wr t1 t2 k op b))"
  by (cases k; cases op) (simp_all add: op_keeps)

text \<open>A series of operations none of which raises.\<close>

type_synonym board_call = "bool \<times> time \<times> time \<times> task_key \<times> board_op"

fun exec_all :: "board_call list \<Rightarrow> task_board \<Rightarrow> task_board option" where
  "exec_all [] b = Some b"
| "exec_all ((wr, t1, t2, k, op) # ops) b =
     (case exec wr t1 t2 k op b of (b', Inr _) \<Rightarrow> exec_all ops b' | (_, Inl _) \<Rightarrow> None)"

lemma exec_all_keeps:
  "wf_board b \<Longrightarrow> synced b \<Longrightarrow> exec_all ops b = Some b' \<Longrightarrow>
    wf_board b' \<and> synced b' \<and> keeps_conflicts j b b'"
proof (induction ops arbitrary: b)
  case (Cons call ops)
  obtain wr t1 t2 k op where c: "call = (wr, t1, t2, k, op)" by (cases call) auto
  obtain b1 ok where e: "exec wr t1 t2 k op b = (b1, Inr ok)" "exec_all ops b1 = Some b'"
    using Cons.prems(3) by (auto simp: c split: prod.splits sum.splits)
  have "simulates k op b (b1, Inr ok)" using exec_sim [OF Cons.prems(1,2), of k op wr t1 t2] e(1) by simp
  then have "wf_board b1" "synced b1" using Cons.prems(1,2) by (cases ok; simp add: simulates_def)+
  moreover have "keeps_conflicts j b b1" using exec_keeps [OF Cons.prems(1,2), of j wr t1 t2 k op] e(1) by simp
  ultimately show ?case using Cons.IH [OF _ _ e(2)] conflicts_trans by blast
qed simp

text \<open>A recorded merge conflict is for ever: after any of the fourteen board operations (repair, retry, verification,
  supersession, cancellation) that raise no exception the task still carries it, and neither pass of the loop
  can report the run COMPLETED.\<close>

theorem merge_conflict_never_completes:
  assumes "wf_board b" "synced b" "map_of (board_tasks b) (sch_run_id sch, i) = Some t"
    and "dict_truthy (bt_metadata t) ''merge_conflicts''" "exec_all ops b = Some (ls_board st)"
  shows "(\<exists>u. map_of (board_tasks (ls_board st)) (sch_run_id sch, i) = Some u \<and>
      dict_truthy (bt_metadata u) ''merge_conflicts'') \<and>
    (\<forall>r. snd (loop_head sch env st) = Act_finish r \<or> snd (after_wait sch env finished st) = Act_finish r \<longrightarrow>
      rr_status r \<noteq> Schedule_COMPLETED)"
proof -
  from exec_all_keeps [OF assms(1,2,5), of "(sch_run_id sch, i)"] assms(3)
  obtain u where w: "wf_board (ls_board st)" and u: "map_of (board_tasks (ls_board st)) (sch_run_id sch, i) = Some u"
    "conflict_kept t u" by (auto simp: keeps_conflicts_def)
  then have c: "dict_truthy (bt_metadata u) ''merge_conflicts''"
    using assms(4) by (simp add: dict_truthy_def conflict_kept_def)
  have "bt_task_id u = i" using wf_board_task [OF w u(1)] by simp
  then have "u \<in> set (list_by_run (sch_run_id sch) (ls_board st))" using u(1) in_list_by_run [OF w] by simp
  with c have "\<not> clean_run sch (env_broker env) (env_integration env) (ls_board st)"
    by (auto simp: clean_run_def)
  with u(1) c show ?thesis using loop_head_completed after_wait_completed by blast
qed

definition conflict_board :: task_board where
  "conflict_board = \<lparr>board_tasks = [((''r'', ''a''), (demo_task ''a'' [] Board_REPAIR_REQUIRED (Some ''w''))
       \<lparr>bt_metadata := [(''merge_conflicts'', PyList [PyStr ''f.py''])]\<rparr>)],
     board_by_run = [(''r'', [(''r'', ''a'')])], board_persist = False, board_rows = []\<rparr>"

theorem merge_conflict_never_completes_witness:
  "\<exists>b. exec_all [(True, 1, 2, (''r'', ''a''), Op_supersede ''a__repair_v1'')] conflict_board = Some b \<and>
     all_succeeded ''r'' b \<and>
     (\<forall>q. snd (loop_head (demo_scheduler 1) demo_env (demo_loop\<lparr>ls_board := b\<rparr>)) = Act_finish q \<longrightarrow>
       rr_status q \<noteq> Schedule_COMPLETED)"
proof -
  let ?call = "[(True, 1, 2, (''r'', ''a''), Op_supersede ''a__repair_v1'')]"
  have w: "wf_board conflict_board" "synced conflict_board"
    by (auto simp: conflict_board_def wf_board_def table_ok_def run_keys_def synced_def demo_task_def
        new_board_task_def task_key_of_def)
  have m: "map_of (board_tasks conflict_board) (sch_run_id (demo_scheduler 1), ''a'') =
      Some ((demo_task ''a'' [] Board_REPAIR_REQUIRED (Some ''w''))
        \<lparr>bt_metadata := [(''merge_conflicts'', PyList [PyStr ''f.py''])]\<rparr>)"
    "dict_truthy [(''merge_conflicts'', PyList [PyStr ''f.py''])] ''merge_conflicts''"
    by (simp_all add: conflict_board_def demo_scheduler_def dict_truthy_def)
  have "map_option (all_succeeded ''r'') (exec_all ?call conflict_board) = Some True" by code_simp
  then obtain b where b: "exec_all ?call conflict_board = Some b" "all_succeeded ''r'' b" by auto
  with merge_conflict_never_completes [OF w m(1), where st = "demo_loop\<lparr>ls_board := b\<rparr>" and ops = ?call and env = demo_env]
    m(2) show ?thesis by auto
qed

end
