(* ===== verification/Mailbox.thy ===== *)
theory Mailbox
  imports Py_Prelude
begin

text \<open>
  \<open>app/multiagent/mailbox.py\<close>: the inboxes of the agents with their policy hooks, block list, rate limit and
  capacity, and the durable rows \<open>mailbox_messages\<close> (\<open>app/infrastructure/database/run_store.py\<close>).

  Message objects are mutable and shared between an inbox and \<open>_all_messages\<close>, so they live in a heap and both
  hold references. Every caller builds a new message object for \<open>send\<close>, which therefore allocates it. A failed
  write of a row is logged only; \<open>wr\<close> is whether it goes through. Generated ids are arguments.
\<close>

section \<open>Data\<close>

datatype message_severity = Severity_INFO | Severity_WARNING | Severity_ERROR | Severity_CRITICAL

datatype message_status = Message_PENDING | Message_DELIVERED | Message_CONSUMED | Message_FAILED

record mailbox_message =
  mm_message_id :: string
  mm_from_agent_id :: string
  mm_from_agent_name :: string
  mm_from_role :: string
  mm_to_agent_id :: "string option"
  mm_to_role :: "string option"
  mm_run_id :: string
  mm_title :: string
  mm_content :: string
  mm_severity :: message_severity
  mm_thread_id :: "string option"
  mm_reply_to :: "string option"
  mm_delivery_attempts :: int
  mm_consumed_at :: "time option"
  mm_created_at :: time
  mm_metadata :: pydict

text \<open>A row is the message it was written from, with the \<open>status\<close> column.\<close>

record mailbox_row =
  mr_message :: mailbox_message
  mr_status :: message_status

record mailbox =
  mb_heap :: "mailbox_message list"
  mb_inboxes :: "(string option \<times> nat list) list"
  mb_all :: "(string \<times> nat) list"
  mb_capacity :: int
  mb_hooks :: "(mailbox_message \<Rightarrow> bool) list"  \<comment> \<open>whether the hook raises \<open>PolicyViolation\<close>\<close>
  mb_blocklist :: "string list"
  mb_rate :: "(string \<times> time list) list"
  mb_wake :: "(string \<times> bool) list"
  mb_rows :: "(string \<times> mailbox_row) list"

datatype mailbox_error = PopFromEmptyDeque

type_synonym 'a mailbox_result = "mailbox \<times> (mailbox_error + 'a)"

definition RATE_LIMIT_PER_MINUTE :: nat where
  "RATE_LIMIT_PER_MINUTE = 60"

definition block :: "string \<Rightarrow> mailbox \<Rightarrow> mailbox" where
  "block a mb = (if a \<in> set (mb_blocklist mb) then mb else mb\<lparr>mb_blocklist := mb_blocklist mb @ [a]\<rparr>)"

definition unblock :: "string \<Rightarrow> mailbox \<Rightarrow> mailbox" where
  "unblock a mb = mb\<lparr>mb_blocklist := removeAll a (mb_blocklist mb)\<rparr>"

definition is_blocked :: "string \<Rightarrow> mailbox \<Rightarrow> bool" where
  "is_blocked a mb \<longleftrightarrow> a \<in> set (mb_blocklist mb)"

definition add_policy_hook :: "(mailbox_message \<Rightarrow> bool) \<Rightarrow> mailbox \<Rightarrow> mailbox" where
  "add_policy_hook h mb = mb\<lparr>mb_hooks := mb_hooks mb @ [h]\<rparr>"

text \<open>\<open>_inboxes\<close> is a \<open>defaultdict\<close>: reading creates nothing here that a later read could tell apart.\<close>

definition inbox :: "string option \<Rightarrow> mailbox \<Rightarrow> nat list" where
  "inbox a mb = (case map_of (mb_inboxes mb) a of None \<Rightarrow> [] | Some q \<Rightarrow> q)"

definition set_inbox :: "string option \<Rightarrow> nat list \<Rightarrow> mailbox \<Rightarrow> mailbox" where
  "set_inbox a q mb = mb\<lparr>mb_inboxes := AList.update a q (mb_inboxes mb)\<rparr>"

definition message_at :: "mailbox \<Rightarrow> nat \<Rightarrow> mailbox_message" where
  "message_at mb r = mb_heap mb ! r"

section \<open>Rows\<close>

text \<open>\<open>insert_mailbox_message\<close> is \<open>INSERT OR REPLACE\<close>: the replacing row is a new last row.\<close>

definition row_of :: "mailbox_message \<Rightarrow> mailbox_row" where
  "row_of m = \<lparr>mr_message = m, mr_status = (if mm_consumed_at m \<noteq> None then Message_CONSUMED else Message_DELIVERED)\<rparr>"

definition insert_mailbox_message :: "mailbox_message \<Rightarrow> mailbox \<Rightarrow> mailbox" where
  "insert_mailbox_message m mb =
     mb\<lparr>mb_rows := AList.delete (mm_message_id m) (mb_rows mb) @ [(mm_message_id m, row_of m)]\<rparr>"

definition persist_message :: "bool \<Rightarrow> mailbox_message \<Rightarrow> mailbox \<Rightarrow> mailbox" where
  "persist_message wr m mb = (if wr then insert_mailbox_message m mb else mb)"

definition list_mailbox_messages :: "string option \<Rightarrow> string option \<Rightarrow> string option \<Rightarrow> message_status option
    \<Rightarrow> mailbox \<Rightarrow> mailbox_row list" where
  "list_mailbox_messages run to thread status mb =
     sort_key (\<lambda>r. mm_created_at (mr_message r))
       (filter (\<lambda>r. (run \<noteq> None \<longrightarrow> Some (mm_run_id (mr_message r)) = run) \<and>
           (to \<noteq> None \<longrightarrow> mm_to_agent_id (mr_message r) = to) \<and>
           (thread \<noteq> None \<longrightarrow> mm_thread_id (mr_message r) = thread) \<and>
           (status \<noteq> None \<longrightarrow> Some (mr_status r) = status))
         (map snd (mb_rows mb)))"

text \<open>\<open>mark_mailbox_consumed\<close> and \<open>delete_mailbox_inbox\<close> of the run store.\<close>

definition mark_mailbox_consumed :: "time \<Rightarrow> string \<Rightarrow> mailbox \<Rightarrow> mailbox \<times> bool" where
  "mark_mailbox_consumed now i mb =
     (case map_of (mb_rows mb) i of
        None \<Rightarrow> (mb, False)
      | Some r \<Rightarrow> (mb\<lparr>mb_rows := AList.update i
          (r\<lparr>mr_message := (mr_message r)\<lparr>mm_consumed_at := Some now\<rparr>, mr_status := Message_CONSUMED\<rparr>)
          (mb_rows mb)\<rparr>, True))"

definition delete_mailbox_inbox :: "string \<Rightarrow> mailbox \<Rightarrow> mailbox \<times> nat" where
  "delete_mailbox_inbox a mb =
     (let gone = (\<lambda>(_, r). mm_to_agent_id (mr_message r) = Some a \<and> mr_status r = Message_DELIVERED)
      in (mb\<lparr>mb_rows := filter (\<lambda>x. \<not> gone x) (mb_rows mb)\<rparr>, length (filter gone (mb_rows mb))))"

section \<open>Sending\<close>

text \<open>\<open>_rate_check\<close>: forget the readings more than a minute old, then count.\<close>

definition rate_of :: "string \<Rightarrow> mailbox \<Rightarrow> time list" where
  "rate_of a mb = (case map_of (mb_rate mb) a of None \<Rightarrow> [] | Some ts \<Rightarrow> ts)"

definition rate_check :: "time \<Rightarrow> string \<Rightarrow> mailbox \<Rightarrow> mailbox \<times> bool" where
  "rate_check now a mb =
     (let recent = dropWhile (\<lambda>t. now - t > 60000000) (rate_of a mb)
      in if length recent \<ge> RATE_LIMIT_PER_MINUTE
         then (mb\<lparr>mb_rate := AList.update a recent (mb_rate mb)\<rparr>, False)
         else (mb\<lparr>mb_rate := AList.update a (recent @ [now]) (mb_rate mb)\<rparr>, True))"

text \<open>\<open>_enforce_capacity\<close>: the loop pops until there is room; \<open>None\<close> is the pop from an empty deque.\<close>

fun drop_oldest :: "int \<Rightarrow> nat list \<Rightarrow> nat list option" where
  "drop_oldest cap [] = (if 0 \<ge> cap then None else Some [])"
| "drop_oldest cap (r # q) = (if int (length (r # q)) \<ge> cap then drop_oldest cap q else Some (r # q))"

definition enforce_capacity :: "string option \<Rightarrow> mailbox \<Rightarrow> unit mailbox_result" where
  "enforce_capacity a mb =
     (if a = None then (mb, Inr ())
      else case drop_oldest (mb_capacity mb) (inbox a mb) of
             None \<Rightarrow> (set_inbox a [] mb, Inl PopFromEmptyDeque)
           | Some q \<Rightarrow> (set_inbox a q mb, Inr ()))"

text \<open>\<open>event.set()\<close> when somebody waits.\<close>

definition wake :: "string option \<Rightarrow> mailbox \<Rightarrow> mailbox" where
  "wake a mb =
     (case a of
        None \<Rightarrow> mb
      | Some i \<Rightarrow> if map_of (mb_wake mb) i = None then mb else mb\<lparr>mb_wake := AList.update i True (mb_wake mb)\<rparr>)"

definition deliver :: "mailbox_message \<Rightarrow> mailbox \<Rightarrow> mailbox" where
  "deliver m mb =
     (let r = length (mb_heap mb); a = mm_to_agent_id m;
          mb1 = mb\<lparr>mb_heap := mb_heap mb @ [m]\<rparr>;
          mb2 = set_inbox a (inbox a mb1 @ [r]) mb1
      in wake a (mb2\<lparr>mb_all := AList.update (mm_message_id m) r (mb_all mb2)\<rparr>))"

definition send :: "time \<Rightarrow> bool \<Rightarrow> mailbox_message \<Rightarrow> mailbox \<Rightarrow> bool mailbox_result" where
  "send now wr m mb =
     (if list_ex (\<lambda>h. h m) (mb_hooks mb) then (mb, Inr False)
      else if is_blocked (mm_from_agent_id m) mb then (mb, Inr False)
      else case rate_check now (mm_from_agent_id m) mb of
             (mb1, False) \<Rightarrow> (mb1, Inr False)
           | (mb1, True) \<Rightarrow>
               (case enforce_capacity (mm_to_agent_id m) mb1 of
                  (mb2, Inl e) \<Rightarrow> (mb2, Inl e)
                | (mb2, Inr _) \<Rightarrow> (persist_message wr m (deliver m mb2), Inr True)))"

text \<open>\<open>broadcast_run\<close> with the clock, write outcome and fresh id of each \<open>send\<close>.\<close>

fun broadcast_run :: "(nat \<Rightarrow> time) \<Rightarrow> (nat \<Rightarrow> bool) \<Rightarrow> (nat \<Rightarrow> string) \<Rightarrow> nat \<Rightarrow> string list \<Rightarrow> mailbox_message
    \<Rightarrow> nat \<Rightarrow> mailbox \<Rightarrow> nat mailbox_result" where
  "broadcast_run clk wr ids i [] m n mb = (mb, Inr n)"
| "broadcast_run clk wr ids i (a # as) m n mb =
     (if a = mm_from_agent_id m then broadcast_run clk wr ids (Suc i) as m n mb
      else case send (clk i) (wr i) (m\<lparr>mm_to_agent_id := Some a, mm_message_id := ids i\<rparr>) mb of
             (mb', Inl e) \<Rightarrow> (mb', Inl e)
           | (mb', Inr ok) \<Rightarrow> broadcast_run clk wr ids (Suc i) as m (if ok then n + 1 else n) mb')"

definition broadcast_role :: "(nat \<Rightarrow> time) \<Rightarrow> (nat \<Rightarrow> bool) \<Rightarrow> (nat \<Rightarrow> string) \<Rightarrow> string
    \<Rightarrow> (string \<times> string) list \<Rightarrow> mailbox_message \<Rightarrow> mailbox \<Rightarrow> nat mailbox_result" where
  "broadcast_role clk wr ids role targets m mb =
     broadcast_run clk wr ids 0
       (map fst (filter (\<lambda>(a, r). r = role \<and> a \<noteq> mm_from_agent_id m) targets)) m 0 mb"

text \<open>The hint of \<open>notify_idle\<close> and \<open>wake_idle_agents\<close>; \<open>text\<close> is what an empty hint is replaced by.\<close>

definition wakeup_message :: "string \<Rightarrow> string \<Rightarrow> time \<Rightarrow> string \<Rightarrow> string \<Rightarrow> string \<Rightarrow> mailbox_message" where
  "wakeup_message default_text i now run a hint =
     \<lparr>mm_message_id = i, mm_from_agent_id = ''orchestrator'', mm_from_agent_name = ''Orchestrator'',
      mm_from_role = ''system'', mm_to_agent_id = Some a, mm_to_role = None, mm_run_id = run,
      mm_title = ''wakeup_hint'', mm_content = (if hint = [] then default_text else hint),
      mm_severity = Severity_INFO, mm_thread_id = None, mm_reply_to = None, mm_delivery_attempts = 0,
      mm_consumed_at = None, mm_created_at = now,
      mm_metadata = [(''kind'', PyStr ''wakeup''), (''hint'', PyStr hint)]\<rparr>"

definition notify_idle :: "string \<Rightarrow> time \<Rightarrow> bool \<Rightarrow> string \<Rightarrow> string \<Rightarrow> string \<Rightarrow> mailbox \<Rightarrow> bool mailbox_result" where
  "notify_idle default_text now wr i a hint mb = send now wr (wakeup_message default_text i now [] a hint) mb"

fun wake_idle_agents :: "string \<Rightarrow> (nat \<Rightarrow> time) \<Rightarrow> (nat \<Rightarrow> bool) \<Rightarrow> (nat \<Rightarrow> string) \<Rightarrow> nat \<Rightarrow> string \<Rightarrow> string list
    \<Rightarrow> string \<Rightarrow> nat \<Rightarrow> mailbox \<Rightarrow> nat mailbox_result" where
  "wake_idle_agents default_text clk wr ids i run [] hint n mb = (mb, Inr n)"
| "wake_idle_agents default_text clk wr ids i run (a # as) hint n mb =
     (case send (clk i) (wr i) (wakeup_message default_text (ids i) (clk i) run a hint) mb of
        (mb', Inl e) \<Rightarrow> (mb', Inl e)
      | (mb', Inr ok) \<Rightarrow> wake_idle_agents default_text clk wr ids (Suc i) run as hint (if ok then n + 1 else n) mb')"

section \<open>Receiving\<close>

text \<open>The loop of \<open>receive\<close>: each popped message is stamped with its own clock reading.\<close>

fun consume :: "(nat \<Rightarrow> time) \<Rightarrow> nat \<Rightarrow> nat list \<Rightarrow> mailbox \<Rightarrow> mailbox" where
  "consume clk i [] mb = mb"
| "consume clk i (r # rs) mb =
     consume clk (Suc i) rs
       (mb\<lparr>mb_heap := (mb_heap mb)[r := (message_at mb r)\<lparr>mm_consumed_at := Some (clk i)\<rparr>]\<rparr>)"

fun persist_all :: "(nat \<Rightarrow> bool) \<Rightarrow> nat \<Rightarrow> mailbox_message list \<Rightarrow> mailbox \<Rightarrow> mailbox" where
  "persist_all wr i [] mb = mb"
| "persist_all wr i (m # ms) mb = persist_all wr (Suc i) ms (persist_message (wr i) m mb)"

definition receive :: "(nat \<Rightarrow> time) \<Rightarrow> (nat \<Rightarrow> bool) \<Rightarrow> string \<Rightarrow> int \<Rightarrow> mailbox \<Rightarrow> mailbox \<times> mailbox_message list" where
  "receive clk wr a max_count mb =
     (let q = inbox (Some a) mb; taken = take (nat max_count) q
      in if q = [] then (mb, [])
         else let mb1 = consume clk 0 taken (set_inbox (Some a) (drop (nat max_count) q) mb);
                  out = map (message_at mb1) taken
              in (persist_all wr 0 out mb1, out))"

definition peek :: "string \<Rightarrow> mailbox \<Rightarrow> mailbox_message list" where
  "peek a mb = map (message_at mb) (inbox (Some a) mb)"

definition inbox_size :: "string \<Rightarrow> mailbox \<Rightarrow> nat" where
  "inbox_size a mb = length (inbox (Some a) mb)"

text \<open>
  \<open>wait_for_message\<close> as its atomic steps: the first \<open>receive\<close>; \<open>setdefault\<close> of the event; and what follows
  \<open>event.wait\<close>, \<open>awakened\<close> being its result.
\<close>

definition wait_first :: "(nat \<Rightarrow> time) \<Rightarrow> (nat \<Rightarrow> bool) \<Rightarrow> string \<Rightarrow> mailbox \<Rightarrow> mailbox \<times> mailbox_message option" where
  "wait_first clk wr a mb =
     (case receive clk wr a 1 mb of (mb', out) \<Rightarrow> (mb', (case out of [] \<Rightarrow> None | m # _ \<Rightarrow> Some m)))"

definition wait_register :: "string \<Rightarrow> mailbox \<Rightarrow> mailbox" where
  "wait_register a mb =
     (if map_of (mb_wake mb) a = None then mb\<lparr>mb_wake := AList.update a False (mb_wake mb)\<rparr> else mb)"

definition wait_end :: "(nat \<Rightarrow> time) \<Rightarrow> (nat \<Rightarrow> bool) \<Rightarrow> bool \<Rightarrow> string \<Rightarrow> mailbox \<Rightarrow> mailbox \<times> mailbox_message option" where
  "wait_end clk wr awakened a mb =
     (let mb' = mb\<lparr>mb_wake := AList.update a False (mb_wake mb)\<rparr>
      in if \<not> awakened then (mb', None) else wait_first clk wr a mb')"

section \<open>Lists, snapshots and recovery\<close>

definition list_messages_in_run :: "string \<Rightarrow> mailbox \<Rightarrow> mailbox_message list" where
  "list_messages_in_run run mb = filter (\<lambda>m. mm_run_id m = run) (map (\<lambda>(_, r). message_at mb r) (mb_all mb))"

definition get_message :: "string \<Rightarrow> mailbox \<Rightarrow> mailbox_message option" where
  "get_message i mb = map_option (message_at mb) (map_of (mb_all mb) i)"

record mailbox_snapshot =
  sn_inboxes :: "(string option \<times> mailbox_message list) list"
  sn_blocklist :: "string list"
  sn_all :: "(string \<times> mailbox_message) list"

definition snapshot :: "mailbox \<Rightarrow> mailbox_snapshot" where
  "snapshot mb = \<lparr>sn_inboxes = map (\<lambda>(a, q). (a, map (message_at mb) q)) (mb_inboxes mb),
     sn_blocklist = mb_blocklist mb, sn_all = map (\<lambda>(i, r). (i, message_at mb r)) (mb_all mb)\<rparr>"

text \<open>\<open>restore\<close> builds new objects: one for each inbox entry and another one for each entry of \<open>_all_messages\<close>.\<close>

fun alloc_inboxes :: "(string option \<times> mailbox_message list) list \<Rightarrow> mailbox \<Rightarrow> mailbox" where
  "alloc_inboxes [] mb = mb"
| "alloc_inboxes ((a, ms) # rest) mb =
     alloc_inboxes rest
       (set_inbox a [length (mb_heap mb)..<length (mb_heap mb) + length ms] (mb\<lparr>mb_heap := mb_heap mb @ ms\<rparr>))"

fun alloc_all :: "(string \<times> mailbox_message) list \<Rightarrow> mailbox \<Rightarrow> mailbox" where
  "alloc_all [] mb = mb"
| "alloc_all ((i, m) # rest) mb =
     alloc_all rest (mb\<lparr>mb_heap := mb_heap mb @ [m], mb_all := AList.update i (length (mb_heap mb)) (mb_all mb)\<rparr>)"

definition restore :: "mailbox_snapshot \<Rightarrow> mailbox \<Rightarrow> mailbox" where
  "restore sn mb =
     alloc_all (sn_all sn)
       ((alloc_inboxes (sn_inboxes sn) (mb\<lparr>mb_inboxes := []\<rparr>))\<lparr>mb_blocklist := sn_blocklist sn, mb_all := []\<rparr>)"

text \<open>\<open>flush_to_db\<close> writes what \<open>_all_messages\<close> holds of the run.\<close>

fun flush_messages :: "(nat \<Rightarrow> bool) \<Rightarrow> nat \<Rightarrow> string \<Rightarrow> mailbox_message list \<Rightarrow> nat \<Rightarrow> mailbox \<Rightarrow> mailbox \<times> nat" where
  "flush_messages wr i run [] n mb = (mb, n)"
| "flush_messages wr i run (m # ms) n mb =
     (if mm_run_id m \<noteq> run then flush_messages wr (Suc i) run ms n mb
      else flush_messages wr (Suc i) run ms (if wr i then n + 1 else n) (persist_message (wr i) m mb))"

definition flush_to_db :: "(nat \<Rightarrow> bool) \<Rightarrow> string \<Rightarrow> mailbox \<Rightarrow> mailbox \<times> nat" where
  "flush_to_db wr run mb = flush_messages wr 0 run (map (\<lambda>(_, r). message_at mb r) (mb_all mb)) 0 mb"

text \<open>
  One row of \<open>restore_from_db\<close>. \<open>list_mailbox_messages\<close> has already decoded the metadata, so \<open>json.loads\<close> of a
  non-empty one raises TypeError: the row is logged and skipped.
\<close>

definition restore_row :: "mailbox_row \<Rightarrow> mailbox \<times> nat \<Rightarrow> mailbox \<times> nat" where
  "restore_row row acc =
     (case acc of (mb, n) \<Rightarrow>
        let m = mr_message row
        in if mm_metadata m \<noteq> [] then (mb, n)
           else
             let r = length (mb_heap mb);
                 mb1 = mb\<lparr>mb_heap := mb_heap mb @ [m], mb_all := AList.update (mm_message_id m) r (mb_all mb)\<rparr>;
                 mb2 = (if mm_consumed_at m = None \<and> mm_to_agent_id m \<noteq> None
                        then set_inbox (mm_to_agent_id m) (inbox (mm_to_agent_id m) mb1 @ [r]) mb1 else mb1)
             in (mb2, n + 1))"

definition restore_from_db :: "string \<Rightarrow> mailbox \<Rightarrow> mailbox \<times> nat" where
  "restore_from_db run mb = fold restore_row (list_mailbox_messages (Some run) None None None mb) (mb, 0)"

end
