(* ===== verification/Channel.thy ===== *)
theory Channel
  imports Py_Prelude
begin

text \<open>
  A contract for channels that may lose messages but never reorder, repeat or invent one: whatever an operation
  hands out, followed by what then waits, is a subsequence of what waited, followed by what the operation put in.
\<close>

fun steps :: "('op \<Rightarrow> 's \<Rightarrow> 's) \<Rightarrow> 'op list \<Rightarrow> 's \<Rightarrow> 's" where
  "steps step [] s = s"
| "steps step (op # ops) s = steps step ops (step op s)"

text \<open>The items that \<open>f\<close> sees at each operation of a series, in order.\<close>

fun collected :: "('op \<Rightarrow> 's \<Rightarrow> 'a list) \<Rightarrow> ('op \<Rightarrow> 's \<Rightarrow> 's) \<Rightarrow> 'op list \<Rightarrow> 's \<Rightarrow> 'a list" where
  "collected f step [] s = []"
| "collected f step (op # ops) s = f op s @ collected f step ops (step op s)"

lemma steps_append: "steps step (xs @ ys) s = steps step ys (steps step xs s)"
  by (induction xs arbitrary: s) simp_all

lemma collected_append:
  "collected f step (xs @ ys) s = collected f step xs s @ collected f step ys (steps step xs s)"
  by (induction xs arbitrary: s) simp_all

locale lossy_channel =
  fixes ok :: "'s \<Rightarrow> bool"
    and queue :: "'s \<Rightarrow> 'a list"
    and step :: "'op \<Rightarrow> 's \<Rightarrow> 's"
    and put_in :: "'op \<Rightarrow> 's \<Rightarrow> 'a list"
    and taken_out :: "'op \<Rightarrow> 's \<Rightarrow> 'a list"
  assumes step_ok: "ok s \<Longrightarrow> ok (step op s)"
    and step_queue: "ok s \<Longrightarrow> subseq (taken_out op s @ queue (step op s)) (queue s @ put_in op s)"
begin

lemma steps_ok: "ok s \<Longrightarrow> ok (steps step ops s)"
  by (induction ops arbitrary: s) (simp_all add: step_ok)

lemma in_order:
  "ok s \<Longrightarrow> subseq (collected taken_out step ops s @ queue (steps step ops s)) (queue s @ collected put_in step ops s)"
proof (induction ops arbitrary: s)
  case (Cons op ops)
  have "subseq (taken_out op s @ (collected taken_out step ops (step op s) @ queue (steps step ops (step op s))))
      (taken_out op s @ (queue (step op s) @ collected put_in step ops (step op s)))"
    using Cons.IH [OF step_ok [OF Cons.prems]] by (simp only: subseq_append_iff) blast
  also have "subseq \<dots> ((queue s @ put_in op s) @ collected put_in step ops (step op s))"
    using list_emb_append_mono [OF step_queue [OF Cons.prems, of op] subseq_order.order_refl] by simp
  finally show ?case by simp
qed simp

lemma no_duplicates:
  assumes "ok s" "distinct (queue s @ collected put_in step ops s)"
  shows "distinct (collected taken_out step ops s @ queue (steps step ops s))"
  by (rule subseq_distinct [OF in_order [OF assms(1)] assms(2)])

end

text \<open>A channel that loses nothing is the special case with an equation.\<close>

locale reliable_channel =
  fixes ok :: "'s \<Rightarrow> bool"
    and queue :: "'s \<Rightarrow> 'a list"
    and step :: "'op \<Rightarrow> 's \<Rightarrow> 's"
    and put_in :: "'op \<Rightarrow> 's \<Rightarrow> 'a list"
    and taken_out :: "'op \<Rightarrow> 's \<Rightarrow> 'a list"
  assumes step_keeps: "ok s \<Longrightarrow> ok (step op s)"
    and step_exact: "ok s \<Longrightarrow> taken_out op s @ queue (step op s) = queue s @ put_in op s"
begin

lemma delivered_exactly:
  "ok s \<Longrightarrow> collected taken_out step ops s @ queue (steps step ops s) = queue s @ collected put_in step ops s"
proof (induction ops arbitrary: s)
  case (Cons op ops)
  have "collected taken_out step (op # ops) s @ queue (steps step (op # ops) s)
      = taken_out op s @ queue (step op s) @ collected put_in step ops (step op s)"
    using Cons.IH [OF step_keeps [OF Cons.prems]] by simp
  also have "\<dots> = queue s @ collected put_in step (op # ops) s"
    using step_exact [OF Cons.prems, of op] by (simp flip: append_assoc)
  finally show ?case .
qed simp

end

sublocale reliable_channel \<subseteq> lossy: lossy_channel
  by unfold_locales (simp_all add: step_keeps step_exact)

end
