(* ===== verification/Mailbox_Props.thy ===== *)
theory Mailbox_Props
  imports Mailbox Channel
begin

text \<open>
  The mailbox: an inbox is a lossy channel of bounded size, a sender gets at most sixty messages through in any
  minute, and what \<open>restore_from_db\<close> puts into the inboxes, also of a process that still has them.
\<close>

section \<open>Invariant\<close>

definition wf_mailbox :: "mailbox \<Rightarrow> bool" where
  "wf_mailbox mb \<longleftrightarrow> (\<forall>a. \<forall>r \<in> set (inbox a mb). r < length (mb_heap mb))"

definition plain :: "mailbox_message \<Rightarrow> mailbox_message" where
  "plain m = m\<lparr>mm_consumed_at := None\<rparr>"

definition waiting :: "string \<Rightarrow> mailbox \<Rightarrow> mailbox_message list" where
  "waiting a mb = map plain (peek a mb)"

lemma plain_plain [simp]: "plain (m\<lparr>mm_consumed_at := t\<rparr>) = plain m"
  by (simp add: plain_def)

lemma inbox_set_inbox [simp]: "inbox a (set_inbox b q mb) = (if a = b then q else inbox a mb)"
  by (simp add: inbox_def set_inbox_def)

lemma set_inbox_fields [simp]:
  "mb_heap (set_inbox a q mb) = mb_heap mb" "mb_all (set_inbox a q mb) = mb_all mb"
  "mb_rows (set_inbox a q mb) = mb_rows mb" "mb_capacity (set_inbox a q mb) = mb_capacity mb"
  "mb_rate (set_inbox a q mb) = mb_rate mb" "mb_hooks (set_inbox a q mb) = mb_hooks mb"
  "mb_blocklist (set_inbox a q mb) = mb_blocklist mb" "mb_wake (set_inbox a q mb) = mb_wake mb"
  by (simp_all add: set_inbox_def)

lemma inbox_cong: "mb_inboxes mb' = mb_inboxes mb \<Longrightarrow> inbox a mb' = inbox a mb"
  by (simp add: inbox_def)

lemma waiting_cong:
  "inbox (Some a) mb' = inbox (Some a) mb \<Longrightarrow> mb_heap mb' = mb_heap mb \<Longrightarrow> waiting a mb' = waiting a mb"
  by (simp add: waiting_def peek_def message_at_def cong: map_cong)

lemma persist_message_fields [simp]:
  "mb_heap (persist_message wr m mb) = mb_heap mb" "mb_inboxes (persist_message wr m mb) = mb_inboxes mb"
  "mb_all (persist_message wr m mb) = mb_all mb" "mb_capacity (persist_message wr m mb) = mb_capacity mb"
  "mb_rate (persist_message wr m mb) = mb_rate mb" "inbox a (persist_message wr m mb) = inbox a mb"
  by (simp_all add: persist_message_def insert_mailbox_message_def inbox_def)

lemma persist_all_fields [simp]:
  "mb_heap (persist_all wr i ms mb) = mb_heap mb" "mb_inboxes (persist_all wr i ms mb) = mb_inboxes mb"
  "mb_capacity (persist_all wr i ms mb) = mb_capacity mb" "mb_rate (persist_all wr i ms mb) = mb_rate mb"
  "inbox a (persist_all wr i ms mb) = inbox a mb"
  by (induction wr i ms mb rule: persist_all.induct) simp_all

lemma rate_check_fields [simp]:
  "mb_heap (fst (rate_check now a mb)) = mb_heap mb" "inbox b (fst (rate_check now a mb)) = inbox b mb"
  "mb_capacity (fst (rate_check now a mb)) = mb_capacity mb"
  by (simp_all add: rate_check_def Let_def inbox_def)

lemma consume_fields [simp]:
  "mb_inboxes (consume clk i rs mb) = mb_inboxes mb" "mb_rate (consume clk i rs mb) = mb_rate mb"
  "mb_capacity (consume clk i rs mb) = mb_capacity mb" "inbox a (consume clk i rs mb) = inbox a mb"
  "length (mb_heap (consume clk i rs mb)) = length (mb_heap mb)"
  by (induction clk i rs mb rule: consume.induct) (simp_all add: inbox_def)

lemma plain_consume: "r < length (mb_heap mb) \<Longrightarrow> plain (message_at (consume clk i rs mb) r) = plain (message_at mb r)"
proof (induction clk i rs mb rule: consume.induct)
  case (2 clk i r' rs mb)
  then show ?case by (cases "r = r'") (simp_all add: message_at_def)
qed simp

text \<open>The queue after a \<open>receive\<close>.\<close>

lemma receive_queue:
  assumes "wf_mailbox mb" "receive clk wr a n mb = (mb', out)"
  shows "wf_mailbox mb'" "map plain out = take (nat n) (waiting a mb)"
    "waiting b mb' = (if b = a then drop (nat n) (waiting a mb) else waiting b mb)"
    "mb_capacity mb' = mb_capacity mb" "mb_rate mb' = mb_rate mb"
    "inbox c mb' = (if c = Some a then drop (nat n) (inbox c mb) else inbox c mb)"
proof -
  let ?q = "inbox (Some a) mb"
  let ?mb1 = "consume clk 0 (take (nat n) ?q) (set_inbox (Some a) (drop (nat n) ?q) mb)"
  have p: "plain (message_at ?mb1 r) = plain (message_at mb r)" if "r < length (mb_heap mb)" for r
    using plain_consume [of r "set_inbox (Some a) (drop (nat n) ?q) mb"] that by (simp add: message_at_def)
  have q: "r < length (mb_heap mb)" if "r \<in> set (inbox c mb)" for r c
    using assms(1) that by (auto simp: wf_mailbox_def)
  have ib: "inbox c mb' = (if c = Some a then drop (nat n) (inbox c mb) else inbox c mb)" for c
    using assms(2) by (auto simp: receive_def Let_def split: if_splits)
  have at: "plain (message_at mb' r) = plain (message_at mb r)" if "r < length (mb_heap mb)" for r
    using assms(2) p [OF that] by (auto simp: receive_def Let_def message_at_def split: if_splits)
  have len: "length (mb_heap mb') = length (mb_heap mb)"
    using assms(2) by (auto simp: receive_def Let_def split: if_splits)
  show "wf_mailbox mb'" using q by (auto simp: wf_mailbox_def ib len dest: in_set_dropD)
  show "map plain out = take (nat n) (waiting a mb)"
  proof -
    have "plain (message_at ?mb1 r) = plain (message_at mb r)" if "r \<in> set (take (nat n) ?q)" for r
      by (rule p [OF q [OF in_set_takeD [OF that]]])
    then show ?thesis
      using assms(2) by (auto simp: receive_def Let_def waiting_def peek_def take_map split: if_splits)
  qed
  show "waiting b mb' = (if b = a then drop (nat n) (waiting a mb) else waiting b mb)"
    using at q by (auto simp: waiting_def peek_def ib drop_map dest: in_set_dropD)
  show "mb_capacity mb' = mb_capacity mb" "mb_rate mb' = mb_rate mb"
    using assms(2) by (auto simp: receive_def Let_def split: if_splits)
  show "inbox c mb' = (if c = Some a then drop (nat n) (inbox c mb) else inbox c mb)" by (rule ib)
qed

section \<open>Sending\<close>

lemma drop_oldest_eq:
  "drop_oldest cap q = (if cap \<le> 0 then None else Some (drop (Suc (length q) - nat cap) q))"
proof (induction cap q rule: drop_oldest.induct)
  case (2 cap r q)
  show ?case
  proof (cases "int (length (r # q)) \<ge> cap")
    case True
    with 2 have "drop_oldest cap (r # q) = (if cap \<le> 0 then None else Some (drop (Suc (length q) - nat cap) q))"
      by simp
    moreover have "Suc (length (r # q)) - nat cap = Suc (Suc (length q) - nat cap)" using True by simp
    ultimately show ?thesis by simp
  qed simp
qed simp

text \<open>What a \<open>send\<close> does to the inboxes: nothing, emptying one in an exception, or dropping and appending.\<close>

lemma wake_fields [simp]:
  "mb_heap (wake a mb) = mb_heap mb" "mb_inboxes (wake a mb) = mb_inboxes mb" "mb_rows (wake a mb) = mb_rows mb"
  "mb_capacity (wake a mb) = mb_capacity mb" "mb_rate (wake a mb) = mb_rate mb" "mb_all (wake a mb) = mb_all mb"
  "inbox c (wake a mb) = inbox c mb"
  by (simp_all add: wake_def inbox_def split: option.split)

lemma deliver_fields:
  "mb_heap (deliver m mb) = mb_heap mb @ [m]"
  "inbox c (deliver m mb) = (if c = mm_to_agent_id m then inbox c mb @ [length (mb_heap mb)] else inbox c mb)"
  "mb_capacity (deliver m mb) = mb_capacity mb" "mb_rate (deliver m mb) = mb_rate mb" "mb_rows (deliver m mb) = mb_rows mb"
  by (simp_all add: deliver_def Let_def inbox_def set_inbox_def)

lemma enforce_capacity_cases:
  obtains (ok) k where "enforce_capacity a mb = (set_inbox a (drop k (inbox a mb)) mb, Inr ())"
      "0 < mb_capacity mb \<longrightarrow> length (drop k (inbox a mb)) < nat (mb_capacity mb)" "a \<noteq> None"
  | (none) "enforce_capacity a mb = (mb, Inr ())" "a = None"
  | (empty) "enforce_capacity a mb = (set_inbox a [] mb, Inl PopFromEmptyDeque)" "mb_capacity mb \<le> 0"
proof (cases a)
  case None
  then show thesis by (intro none) (simp_all add: enforce_capacity_def)
next
  case (Some i)
  show thesis
  proof (cases "mb_capacity mb \<le> 0")
    case True
    with Some show thesis by (intro empty) (simp_all add: enforce_capacity_def drop_oldest_eq)
  next
    case False
    with Some show thesis
      by (intro ok [of "Suc (length (inbox a mb)) - nat (mb_capacity mb)"])
        (auto simp: enforce_capacity_def drop_oldest_eq)
  qed
qed

lemma send_cases:
  assumes "send now wr m mb = (mb', res)"
  obtains (refused) "res = Inr False" "mb_heap mb' = mb_heap mb" "\<forall>c. inbox c mb' = inbox c mb"
      "mb_capacity mb' = mb_capacity mb"
  | (raised) "res = Inl PopFromEmptyDeque" "mb_heap mb' = mb_heap mb"
      "\<forall>c. inbox c mb' = (if c = mm_to_agent_id m then [] else inbox c mb)" "mb_capacity mb' = mb_capacity mb"
      "mb_capacity mb \<le> 0"
  | (sent) k where "res = Inr True" "mb_heap mb' = mb_heap mb @ [m]" "mb_capacity mb' = mb_capacity mb"
      "\<forall>c. inbox c mb' = (if c = mm_to_agent_id m then drop k (inbox c mb) @ [length (mb_heap mb)] else inbox c mb)"
      "mm_to_agent_id m \<noteq> None \<and> 0 < mb_capacity mb \<longrightarrow>
         length (drop k (inbox (mm_to_agent_id m) mb)) < nat (mb_capacity mb)"
proof -
  obtain mb1 ok where rc: "rate_check now (mm_from_agent_id m) mb = (mb1, ok)" by force
  have f: "mb_heap mb1 = mb_heap mb" "inbox c mb1 = inbox c mb" "mb_capacity mb1 = mb_capacity mb" for c
    using rate_check_fields [where now = now and a = "mm_from_agent_id m" and mb = mb] rc by simp_all
  show thesis
  proof (cases "list_ex (\<lambda>h. h m) (mb_hooks mb) \<or> is_blocked (mm_from_agent_id m) mb \<or> \<not> ok")
    case True
    with assms rc f show thesis by (intro refused) (auto simp: send_def split: if_splits)
  next
    case False
    then have s: "send now wr m mb = (case enforce_capacity (mm_to_agent_id m) mb1 of
        (mb2, Inl e) \<Rightarrow> (mb2, Inl e) | (mb2, Inr _) \<Rightarrow> (persist_message wr m (deliver m mb2), Inr True))"
      using rc by (simp add: send_def)
    show thesis
    proof (cases rule: enforce_capacity_cases [of "mm_to_agent_id m" mb1])
      case (ok k)
      with s assms f show thesis by (intro sent [of k]) (auto simp: deliver_fields)
    next
      case none
      with s assms f show thesis by (intro sent [of 0]) (auto simp: deliver_fields)
    next
      case empty
      with s assms f show thesis by (intro raised) auto
    qed
  qed
qed

lemma send_queue:
  assumes "wf_mailbox mb" "send now wr m mb = (mb', res)"
  shows "wf_mailbox mb'"
    "subseq (waiting a mb') (waiting a mb @ (if res = Inr True \<and> mm_to_agent_id m = Some a then [plain m] else []))"
proof -
  have at: "message_at mb' r = message_at mb r" if r: "r \<in> set (inbox c mb)" for r c
    using assms(2)
  proof (cases rule: send_cases)
    case (sent k)
    with r assms(1) show ?thesis by (auto simp: wf_mailbox_def message_at_def nth_append)
  qed (simp_all add: message_at_def)
  have w: "map plain (map (message_at mb') (inbox (Some a) mb)) = waiting a mb"
    using at by (auto simp: waiting_def peek_def)
  show "wf_mailbox mb'"
    using assms(2)
  proof (cases rule: send_cases)
    case (sent k)
    have "r < length (mb_heap mb)" if "r \<in> set (inbox c mb)" for r c
      using assms(1) that by (auto simp: wf_mailbox_def)
    then show ?thesis
      unfolding wf_mailbox_def sent(2) using sent(4) by (auto dest: in_set_dropD simp: less_SucI)
  qed (use assms(1) in \<open>simp_all add: wf_mailbox_def\<close>)
  show "subseq (waiting a mb') (waiting a mb @ (if res = Inr True \<and> mm_to_agent_id m = Some a then [plain m] else []))"
    using assms(2)
  proof (cases rule: send_cases)
    case refused
    then show ?thesis by (simp add: waiting_cong [of a mb' mb])
  next
    case raised
    show ?thesis
    proof (cases "mm_to_agent_id m = Some a")
      case True
      with raised show ?thesis by (simp add: waiting_def peek_def)
    next
      case False
      with raised have "waiting a mb' = waiting a mb" by (intro waiting_cong) auto
      with raised show ?thesis by simp
    qed
  next
    case (sent k)
    have "message_at mb' (length (mb_heap mb)) = m" using sent(2) by (simp add: message_at_def)
    with sent(1,4) w have "waiting a mb' = (if mm_to_agent_id m = Some a then drop k (waiting a mb) @ [plain m] else waiting a mb)"
      by (auto simp: waiting_def peek_def drop_map dest: in_set_dropD)
    moreover have "subseq (drop k (waiting a mb)) (waiting a mb)"
      by (intro suffix_imp_subseq suffix_drop)
    ultimately show ?thesis using sent(1) by (simp add: list_emb_append_mono)
  qed
qed

section \<open>Inboxes as channels\<close>

datatype mailbox_op =
    Op_send time bool mailbox_message
  | Op_receive "nat \<Rightarrow> time" "nat \<Rightarrow> bool" string int
  | Op_block string
  | Op_unblock string
  | Op_add_policy_hook "mailbox_message \<Rightarrow> bool"

fun mailbox_step :: "mailbox_op \<Rightarrow> mailbox \<Rightarrow> mailbox" where
  "mailbox_step (Op_send now wr m) mb = fst (send now wr m mb)"
| "mailbox_step (Op_receive clk wr a n) mb = fst (receive clk wr a n mb)"
| "mailbox_step (Op_block a) mb = block a mb"
| "mailbox_step (Op_unblock a) mb = unblock a mb"
| "mailbox_step (Op_add_policy_hook h) mb = add_policy_hook h mb"

text \<open>The messages \<open>send\<close> reports as sent to \<open>a\<close>, and those \<open>receive\<close> hands to \<open>a\<close>; unstamped.\<close>

fun accepted :: "string \<Rightarrow> mailbox_op \<Rightarrow> mailbox \<Rightarrow> mailbox_message list" where
  "accepted a (Op_send now wr m) mb =
     (if snd (send now wr m mb) = Inr True \<and> mm_to_agent_id m = Some a then [plain m] else [])"
| "accepted a _ mb = []"

fun handed_out :: "string \<Rightarrow> mailbox_op \<Rightarrow> mailbox \<Rightarrow> mailbox_message list" where
  "handed_out a (Op_receive clk wr b n) mb = (if b = a then map plain (snd (receive clk wr b n mb)) else [])"
| "handed_out a _ mb = []"

lemma admin_fields [simp]:
  "mb_heap (block a mb) = mb_heap mb" "mb_heap (unblock a mb) = mb_heap mb" "mb_heap (add_policy_hook h mb) = mb_heap mb"
  "inbox c (block a mb) = inbox c mb" "inbox c (unblock a mb) = inbox c mb" "inbox c (add_policy_hook h mb) = inbox c mb"
  "mb_capacity (block a mb) = mb_capacity mb" "mb_capacity (unblock a mb) = mb_capacity mb"
  "mb_capacity (add_policy_hook h mb) = mb_capacity mb"
  by (simp_all add: block_def unblock_def add_policy_hook_def inbox_def)

lemma waiting_admin:
  "waiting a (block b mb) = waiting a mb" "waiting a (unblock b mb) = waiting a mb"
  "waiting a (add_policy_hook h mb) = waiting a mb"
  by (rule waiting_cong; simp)+

lemma step_keeps_wf: "wf_mailbox mb \<Longrightarrow> wf_mailbox (mailbox_step op mb)"
proof (cases op)
  case (Op_send now wr m)
  assume "wf_mailbox mb"
  from send_queue(1) [OF this, of now wr m] show ?thesis by (simp add: Op_send prod_eq_iff)
next
  case (Op_receive clk wr a n)
  assume "wf_mailbox mb"
  from receive_queue(1) [OF this, of clk wr a n] show ?thesis by (simp add: Op_receive prod_eq_iff)
qed (simp_all add: wf_mailbox_def)

lemma step_lossy:
  assumes "wf_mailbox mb"
  shows "subseq (handed_out a op mb @ waiting a (mailbox_step op mb)) (waiting a mb @ accepted a op mb)"
proof (cases op)
  case (Op_send now wr m)
  from send_queue(2) [OF assms, of now wr m _ _ a] show ?thesis by (simp add: Op_send prod_eq_iff)
next
  case (Op_receive clk wr b n)
  obtain mb' out where r: "receive clk wr b n mb = (mb', out)" by force
  from receive_queue(2,3) [OF assms r] show ?thesis by (simp add: Op_receive r)
qed (simp_all add: waiting_admin)

interpretation inbox: lossy_channel wf_mailbox "waiting a" mailbox_step "accepted a" "handed_out a" for a
  by unfold_locales (simp_all add: step_keeps_wf step_lossy)

text \<open>The bound on the size.\<close>

definition within_capacity :: "mailbox \<Rightarrow> bool" where
  "within_capacity mb \<longleftrightarrow> (\<forall>a. int (inbox_size a mb) \<le> mb_capacity mb)"

lemma step_capacity [simp]: "mb_capacity (mailbox_step op mb) = mb_capacity mb"
proof (cases op)
  case (Op_send now wr m)
  obtain mb' res where "send now wr m mb = (mb', res)" by force
  then show ?thesis by (cases rule: send_cases) (use \<open>send now wr m mb = (mb', res)\<close> in \<open>simp_all add: Op_send\<close>)
next
  case (Op_receive clk wr b n)
  then show ?thesis by (simp add: receive_def Let_def)
qed simp_all

lemma step_within_capacity:
  assumes "within_capacity mb" "0 < mb_capacity mb"
  shows "within_capacity (mailbox_step op mb)"
proof (cases op)
  case (Op_send now wr m)
  obtain mb' res where s: "send now wr m mb = (mb', res)" by force
  have "within_capacity mb'" using s
  proof (cases rule: send_cases)
    case (sent k)
    have "int (inbox_size c mb') \<le> mb_capacity mb" for c
    proof (cases "mm_to_agent_id m = Some c")
      case True
      with sent(4,5) assms(2) show ?thesis by (simp add: inbox_size_def)
    next
      case False
      with sent(4) assms(1) show ?thesis by (auto simp: inbox_size_def within_capacity_def)
    qed
    with sent(3) show ?thesis by (simp add: within_capacity_def)
  qed (use assms in \<open>simp_all add: within_capacity_def inbox_size_def\<close>)
  then show ?thesis by (simp add: Op_send s)
next
  case (Op_receive clk wr b n)
  have "length (inbox (Some c) (fst (receive clk wr b n mb))) \<le> length (inbox (Some c) mb)" for c
    by (simp add: receive_def Let_def)
  then have "int (inbox_size c (mailbox_step op mb)) \<le> int (inbox_size c mb)" for c
    by (simp add: Op_receive inbox_size_def)
  with assms(1) show ?thesis
    by (auto simp: within_capacity_def simp del: of_nat_le_iff intro: order_trans)
qed (use assms in \<open>simp_all add: within_capacity_def inbox_size_def\<close>)

lemma steps_within_capacity:
  "within_capacity mb \<Longrightarrow> 0 < mb_capacity mb \<Longrightarrow> within_capacity (steps mailbox_step ops mb)"
  by (induction ops arbitrary: mb) (simp_all add: step_within_capacity)

lemma inbox_lossy_fifo_parts:
  assumes "wf_mailbox mb" "within_capacity mb"
  shows "subseq (collected (handed_out a) mailbox_step ops mb @ waiting a (steps mailbox_step ops mb))
      (waiting a mb @ collected (accepted a) mailbox_step ops mb)"
    and "distinct (waiting a mb @ collected (accepted a) mailbox_step ops mb) \<Longrightarrow>
      distinct (collected (handed_out a) mailbox_step ops mb @ waiting a (steps mailbox_step ops mb))"
    and "0 < mb_capacity mb \<Longrightarrow> int (inbox_size a (steps mailbox_step ops mb)) \<le> mb_capacity mb"
    and "mb_capacity mb \<le> 0 \<Longrightarrow> mm_to_agent_id m \<noteq> None \<Longrightarrow> snd (send now wr m mb) \<noteq> Inr True"
proof -
  show "subseq (collected (handed_out a) mailbox_step ops mb @ waiting a (steps mailbox_step ops mb))
      (waiting a mb @ collected (accepted a) mailbox_step ops mb)"
    by (rule inbox.in_order [OF assms(1)])
  show "distinct (collected (handed_out a) mailbox_step ops mb @ waiting a (steps mailbox_step ops mb))"
    if "distinct (waiting a mb @ collected (accepted a) mailbox_step ops mb)"
    by (rule inbox.no_duplicates [OF assms(1) that])
  have "mb_capacity (steps mailbox_step ops mb) = mb_capacity mb" by (induction ops arbitrary: mb) simp_all
  then show "int (inbox_size a (steps mailbox_step ops mb)) \<le> mb_capacity mb" if "0 < mb_capacity mb"
    using steps_within_capacity [OF assms(2) that, of ops] by (auto simp: within_capacity_def)
  show "snd (send now wr m mb) \<noteq> Inr True" if "mb_capacity mb \<le> 0" "mm_to_agent_id m \<noteq> None"
    using that by (auto simp: send_def enforce_capacity_def drop_oldest_eq rate_check_def Let_def split: if_splits)
qed

text \<open>C15: Over any series of sends, receives and policy changes, what an agent receives, followed by what still
  waits for it, is a subsequence of what waited followed by the messages reported as sent: nothing is reordered,
  invented or handed out twice, and an inbox never exceeds a positive capacity. With the capacity not positive
  the first send to an agent that passes the checks raises from the pop of an empty deque.\<close>

theorem inbox_lossy_fifo:
  assumes "wf_mailbox mb" "within_capacity mb"
  shows "subseq (collected (handed_out a) mailbox_step ops mb @ waiting a (steps mailbox_step ops mb))
      (waiting a mb @ collected (accepted a) mailbox_step ops mb) \<and>
    (distinct (waiting a mb @ collected (accepted a) mailbox_step ops mb) \<longrightarrow>
      distinct (collected (handed_out a) mailbox_step ops mb @ waiting a (steps mailbox_step ops mb))) \<and>
    (0 < mb_capacity mb \<longrightarrow> int (inbox_size a (steps mailbox_step ops mb)) \<le> mb_capacity mb) \<and>
    (mb_capacity mb \<le> 0 \<longrightarrow> mm_to_agent_id m \<noteq> None \<longrightarrow> snd (send now wr m mb) \<noteq> Inr True)"
  by (intro conjI impI inbox_lossy_fifo_parts [OF assms])

text \<open>A concrete mailbox of capacity two.\<close>

definition demo_message :: "string \<Rightarrow> time \<Rightarrow> mailbox_message" where
  "demo_message i t = \<lparr>mm_message_id = i, mm_from_agent_id = ''lead'', mm_from_agent_name = ''Lead'', mm_from_role = ''lead'',
     mm_to_agent_id = Some ''w1'', mm_to_role = None, mm_run_id = ''run'', mm_title = ''task'', mm_content = i,
     mm_severity = Severity_INFO, mm_thread_id = None, mm_reply_to = None, mm_delivery_attempts = 0,
     mm_consumed_at = None, mm_created_at = t, mm_metadata = []\<rparr>"

definition demo_mailbox :: mailbox where
  "demo_mailbox = \<lparr>mb_heap = [], mb_inboxes = [], mb_all = [], mb_capacity = 2, mb_hooks = [], mb_blocklist = [],
     mb_rate = [], mb_wake = [], mb_rows = []\<rparr>"

definition demo_ops :: "mailbox_op list" where
  "demo_ops = [Op_send 1 True (demo_message ''m1'' 1), Op_send 2 True (demo_message ''m2'' 2),
     Op_send 3 True (demo_message ''m3'' 3), Op_receive (\<lambda>_. 9) (\<lambda>_. True) ''w1'' 1]"

lemma demo_mailbox_ok: "wf_mailbox demo_mailbox" "within_capacity demo_mailbox"
  by (simp_all add: wf_mailbox_def within_capacity_def demo_mailbox_def inbox_def inbox_size_def)

theorem inbox_lossy_fifo_witness:
  "distinct (collected (handed_out ''w1'') mailbox_step demo_ops demo_mailbox
       @ waiting ''w1'' (steps mailbox_step demo_ops demo_mailbox)) \<and>
   int (inbox_size ''w1'' (steps mailbox_step demo_ops demo_mailbox)) \<le> 2 \<and>
   map mm_message_id (collected (handed_out ''w1'') mailbox_step demo_ops demo_mailbox) = [''m2''] \<and>
   snd (send 1 True (demo_message ''m1'' 1) (demo_mailbox\<lparr>mb_capacity := 0\<rparr>)) \<noteq> Inr True"
proof -
  have d: "distinct (waiting ''w1'' demo_mailbox @ collected (accepted ''w1'') mailbox_step demo_ops demo_mailbox)"
    by code_simp
  have o: "map mm_message_id (collected (handed_out ''w1'') mailbox_step demo_ops demo_mailbox) = [''m2'']"
    by code_simp
  have w: "wf_mailbox (demo_mailbox\<lparr>mb_capacity := 0\<rparr>)" "within_capacity (demo_mailbox\<lparr>mb_capacity := 0\<rparr>)"
    by (simp_all add: wf_mailbox_def within_capacity_def demo_mailbox_def inbox_def inbox_size_def)
  have c: "0 < mb_capacity demo_mailbox" "mb_capacity demo_mailbox = 2" by (simp_all add: demo_mailbox_def)
  show ?thesis
    using inbox_lossy_fifo [OF demo_mailbox_ok, of "''w1''" demo_ops] d c(1)
      inbox_lossy_fifo [OF w, where m = "demo_message ''m1'' 1" and now = 1 and wr = True] o c(2)
    by (simp add: demo_message_def)
qed

section \<open>Rate limit\<close>

text \<open>When a send of \<open>s\<close> happens, and when it passes hooks, block list and rate check.\<close>

fun sent_at :: "string \<Rightarrow> mailbox_op \<Rightarrow> time list" where
  "sent_at s (Op_send now wr m) = (if mm_from_agent_id m = s then [now] else [])"
| "sent_at s _ = []"

definition admissible :: "mailbox_message \<Rightarrow> mailbox \<Rightarrow> bool" where
  "admissible m mb \<longleftrightarrow> \<not> list_ex (\<lambda>h. h m) (mb_hooks mb) \<and> \<not> is_blocked (mm_from_agent_id m) mb"

fun passed_at :: "string \<Rightarrow> mailbox_op \<Rightarrow> mailbox \<Rightarrow> time list" where
  "passed_at s (Op_send now wr m) mb =
     (if mm_from_agent_id m = s \<and> admissible m mb \<and> snd (rate_check now s mb) then [now] else [])"
| "passed_at s _ mb = []"

definition in_minute :: "time \<Rightarrow> time list \<Rightarrow> time list" where
  "in_minute u ts = filter (\<lambda>t. u - 60000000 \<le> t \<and> t \<le> u) ts"

lemma rate_of_check:
  "rate_of s (fst (rate_check now a mb)) =
     (if a = s then dropWhile (\<lambda>t. now - t > 60000000) (rate_of s mb) @ (if snd (rate_check now a mb) then [now] else [])
      else rate_of s mb)"
  by (simp add: rate_check_def Let_def rate_of_def)

lemma rate_of_cong: "mb_rate mb' = mb_rate mb \<Longrightarrow> rate_of s mb' = rate_of s mb"
  by (simp add: rate_of_def)

lemma enforce_capacity_rate: "mb_rate (fst (enforce_capacity a mb)) = mb_rate mb"
  by (simp add: enforce_capacity_def split: option.split)

lemma send_admissible:
  "send now wr m mb =
     (if \<not> admissible m mb then (mb, Inr False)
      else case rate_check now (mm_from_agent_id m) mb of
             (mb1, False) \<Rightarrow> (mb1, Inr False)
           | (mb1, True) \<Rightarrow>
               (case enforce_capacity (mm_to_agent_id m) mb1 of
                  (mb2, Inl e) \<Rightarrow> (mb2, Inl e)
                | (mb2, Inr _) \<Rightarrow> (persist_message wr m (deliver m mb2), Inr True)))"
  by (simp add: send_def admissible_def)

lemma send_rate:
  "mb_rate (fst (send now wr m mb)) =
     (if admissible m mb then mb_rate (fst (rate_check now (mm_from_agent_id m) mb)) else mb_rate mb)"
proof -
  obtain mb1 ok where r: "rate_check now (mm_from_agent_id m) mb = (mb1, ok)" by force
  obtain mb2 e where e: "enforce_capacity (mm_to_agent_id m) mb1 = (mb2, e)" by force
  have "mb_rate mb2 = mb_rate mb1" using enforce_capacity_rate [of "mm_to_agent_id m" mb1] e by simp
  then show ?thesis
    by (cases ok; cases e) (simp_all add: send_admissible r e deliver_fields)
qed

lemma send_refused_iff:
  "snd (send now wr m mb) = Inr False \<longleftrightarrow> \<not> admissible m mb \<or> \<not> snd (rate_check now (mm_from_agent_id m) mb)"
proof -
  obtain mb1 ok where r: "rate_check now (mm_from_agent_id m) mb = (mb1, ok)" by force
  obtain mb2 e where e: "enforce_capacity (mm_to_agent_id m) mb1 = (mb2, e)" by force
  show ?thesis by (cases ok; cases e) (simp_all add: send_admissible r e)
qed

lemma step_rate:
  "rate_of s (mailbox_step op mb) =
     (case op of
        Op_send now wr m \<Rightarrow>
          if mm_from_agent_id m = s \<and> admissible m mb
          then dropWhile (\<lambda>t. now - t > 60000000) (rate_of s mb) @ passed_at s op mb else rate_of s mb
      | _ \<Rightarrow> rate_of s mb)"
proof (cases op)
  case (Op_send now wr m)
  have "rate_of s (fst (send now wr m mb)) =
      (if admissible m mb then rate_of s (fst (rate_check now (mm_from_agent_id m) mb)) else rate_of s mb)"
    by (simp add: rate_of_def send_rate)
  then show ?thesis by (auto simp: Op_send rate_of_check)
next
  case (Op_receive clk wr a n)
  then show ?thesis by (simp add: rate_of_def receive_def Let_def)
qed (simp_all add: rate_of_def block_def unblock_def add_policy_hook_def)

lemma filter_dropWhile: "(\<And>x. P x \<Longrightarrow> \<not> Q x) \<Longrightarrow> filter P (dropWhile Q xs) = filter P xs"
  by (induction xs) auto

lemma filter_sorted_dropWhile: "sorted (ts :: time list) \<Longrightarrow> filter (\<lambda>t. \<not> now - t > w) ts = dropWhile (\<lambda>t. now - t > w) ts"
proof (induction ts)
  case (Cons t ts)
  show ?case
  proof (cases "now - t > w")
    case True
    with Cons show ?thesis by simp
  next
    case False
    with Cons.prems have "\<forall>t' \<in> set ts. \<not> now - t' > w" by fastforce
    with False show ?thesis by (simp add: filter_id_conv)
  qed
qed simp

lemma length_filter_imp: "(\<And>x. P x \<Longrightarrow> Q x) \<Longrightarrow> length (filter P xs) \<le> length (filter Q xs)"
  by (induction xs) (auto simp: le_SucI)

definition rate_invariant :: "string \<Rightarrow> time list \<Rightarrow> time list \<Rightarrow> mailbox \<Rightarrow> bool" where
  "rate_invariant s sent passed mb \<longleftrightarrow>
     length (rate_of s mb) \<le> 60 \<and> sorted (rate_of s mb) \<and> set (rate_of s mb) \<subseteq> set sent \<and> set passed \<subseteq> set sent \<and>
     (\<forall>u. (\<forall>t \<in> set sent. t \<le> u) \<longrightarrow>
        filter (\<lambda>t. u - 60000000 \<le> t) (rate_of s mb) = filter (\<lambda>t. u - 60000000 \<le> t) passed) \<and>
     (\<forall>u. length (in_minute u passed) \<le> 60)"

lemma rate_invariant_send:
  assumes inv: "rate_invariant s sent passed mb" and now: "\<forall>t \<in> set sent. t \<le> now"
    and R: "rate_of s mb' = dropWhile (\<lambda>t. now - t > 60000000) (rate_of s mb) @ (if ok then [now] else [])"
    and ok: "ok \<longleftrightarrow> length (dropWhile (\<lambda>t. now - t > 60000000) (rate_of s mb)) < 60"
  shows "rate_invariant s (sent @ [now]) (passed @ (if ok then [now] else [])) mb'"
proof -
  let ?recent = "dropWhile (\<lambda>t. now - t > 60000000) (rate_of s mb)"
  let ?new = "if ok then [now] else []"
  have sub: "set ?recent \<subseteq> set (rate_of s mb)" by (auto dest: set_dropWhileD)
  have sent: "set (rate_of s mb) \<subseteq> set sent" "set passed \<subseteq> set sent" "sorted (rate_of s mb)" "length (rate_of s mb) \<le> 60"
    using inv by (simp_all add: rate_invariant_def)
  have same: "filter (\<lambda>t. u - 60000000 \<le> t) ?recent = filter (\<lambda>t. u - 60000000 \<le> t) passed" if "now \<le> u" for u
  proof -
    have "\<forall>t \<in> set sent. t \<le> u" using now that by fastforce
    then have "filter (\<lambda>t. u - 60000000 \<le> t) (rate_of s mb) = filter (\<lambda>t. u - 60000000 \<le> t) passed"
      using inv by (simp add: rate_invariant_def)
    then show ?thesis using that by (subst filter_dropWhile) auto
  qed
  have bound: "length (filter (\<lambda>t. now - 60000000 \<le> t) (passed @ ?new)) \<le> 60"
  proof -
    have "length (filter (\<lambda>t. now - 60000000 \<le> t) passed) \<le> length ?recent"
      unfolding same [OF order_refl, symmetric] by (rule length_filter_le)
    moreover have "length (filter (\<lambda>t. now - 60000000 \<le> t) passed) \<le> 60"
      using calculation sent(4) length_dropWhile_le [of "\<lambda>t. now - t > 60000000" "rate_of s mb"] by linarith
    ultimately show ?thesis using ok by simp
  qed
  have window: "length (in_minute u (passed @ ?new)) \<le> 60" for u
  proof (cases "now \<le> u")
    case True
    have "length (in_minute u (passed @ ?new)) \<le> length (filter (\<lambda>t. now - 60000000 \<le> t) (passed @ ?new))"
      unfolding in_minute_def by (rule length_filter_imp) (use True in simp)
    with bound show ?thesis by linarith
  next
    case False
    then have "in_minute u (passed @ ?new) = in_minute u passed" by (simp add: in_minute_def)
    with inv show ?thesis by (simp add: rate_invariant_def)
  qed
  have len: "length ?recent \<le> 60"
    using sent(4) length_dropWhile_le [of "\<lambda>t. now - t > 60000000" "rate_of s mb"] by linarith
  have "sorted (rate_of s mb')"
    using sent(1,3) sub now unfolding R by (auto simp: sorted_append sorted_dropWhile)
  moreover have "length (rate_of s mb') \<le> 60" using ok len unfolding R by simp
  ultimately show ?thesis
    unfolding rate_invariant_def
    using R sub sent(1,2) same window by auto
qed

lemma rate_invariant_steps:
  assumes "rate_of s mb = []" "sorted (concat (map (sent_at s) ops))"
  shows "rate_invariant s (concat (map (sent_at s) ops)) (collected (passed_at s) mailbox_step ops mb)
    (steps mailbox_step ops mb)"
  using assms(2)
proof (induction ops rule: rev_induct)
  case Nil
  then show ?case by (simp add: rate_invariant_def assms(1) in_minute_def)
next
  case (snoc op ops)
  let ?mb = "steps mailbox_step ops mb"
  have inv: "rate_invariant s (concat (map (sent_at s) ops)) (collected (passed_at s) mailbox_step ops mb) ?mb"
    using snoc by (simp add: sorted_append)
  have keep: "rate_invariant s sent passed mb'" if "rate_invariant s sent passed ?mb" "rate_of s mb' = rate_of s ?mb"
    for sent passed mb' using that by (simp add: rate_invariant_def)
  show ?case
  proof (cases op)
    case (Op_send now wr m)
    show ?thesis
    proof (cases "mm_from_agent_id m = s")
      case s: True
      let ?ok = "admissible m ?mb \<and> snd (rate_check now s ?mb)"
      have now: "\<forall>t \<in> set (concat (map (sent_at s) ops)). t \<le> now"
        using snoc.prems by (auto simp: Op_send s sorted_append)
      show ?thesis
      proof (cases "admissible m ?mb")
        case True
        have ok: "snd (rate_check now s ?mb) \<longleftrightarrow> length (dropWhile (\<lambda>t. now - t > 60000000) (rate_of s ?mb)) < 60"
          by (simp add: rate_check_def Let_def RATE_LIMIT_PER_MINUTE_def)
        have R: "rate_of s (mailbox_step op ?mb) = dropWhile (\<lambda>t. now - t > 60000000) (rate_of s ?mb)
            @ (if snd (rate_check now s ?mb) then [now] else [])"
          by (subst step_rate) (simp add: Op_send s True)
        show ?thesis
          using rate_invariant_send [OF inv now R ok] by (simp add: steps_append collected_append Op_send s True)
      next
        case False
        then have "rate_of s (mailbox_step op ?mb) = rate_of s ?mb" by (subst step_rate) (simp add: Op_send)
        moreover have "rate_invariant s (concat (map (sent_at s) ops) @ [now]) (collected (passed_at s) mailbox_step ops mb) ?mb"
          using inv by (fastforce simp: rate_invariant_def)
        ultimately show ?thesis
          using False keep by (simp add: steps_append collected_append Op_send s)
      qed
    next
      case False
      then have "rate_of s (mailbox_step op ?mb) = rate_of s ?mb" by (subst step_rate) (simp add: Op_send)
      with keep [OF inv] False show ?thesis by (simp add: steps_append collected_append Op_send)
    qed
  qed (use keep [OF inv] step_rate [of s op ?mb] in \<open>simp_all add: steps_append collected_append\<close>)
qed

lemma rate_limit_window_parts:
  assumes "rate_of s mb = []" "sorted (concat (map (sent_at s) ops) @ [now])"
    and "passed = collected (passed_at s) mailbox_step ops mb" "mm_from_agent_id m = s"
  shows "length (in_minute u passed) \<le> RATE_LIMIT_PER_MINUTE"
    and "snd (send now wr m (steps mailbox_step ops mb)) = Inr False \<longleftrightarrow>
      \<not> admissible m (steps mailbox_step ops mb) \<or> length (in_minute now passed) = RATE_LIMIT_PER_MINUTE"
proof -
  let ?mb = "steps mailbox_step ops mb"
  have inv: "rate_invariant s (concat (map (sent_at s) ops)) passed ?mb"
    unfolding assms(3) by (rule rate_invariant_steps) (use assms(1,2) in \<open>simp_all add: sorted_append\<close>)
  show w: "length (in_minute u passed) \<le> RATE_LIMIT_PER_MINUTE" for u
    using inv by (simp add: rate_invariant_def RATE_LIMIT_PER_MINUTE_def)
  have le: "\<forall>t \<in> set (concat (map (sent_at s) ops)). t \<le> now" using assms(2) by (simp add: sorted_append)
  then have p: "\<forall>t \<in> set passed. t \<le> now" using inv by (auto simp: rate_invariant_def)
  have "in_minute now passed = filter (\<lambda>t. now - 60000000 \<le> t) passed"
    unfolding in_minute_def by (rule filter_cong) (use p in auto)
  also have "\<dots> = filter (\<lambda>t. now - 60000000 \<le> t) (rate_of s ?mb)"
    using inv le by (simp add: rate_invariant_def)
  also have "\<dots> = filter (\<lambda>t. \<not> now - t > 60000000) (rate_of s ?mb)" by (rule filter_cong) auto
  also have "\<dots> = dropWhile (\<lambda>t. now - t > 60000000) (rate_of s ?mb)"
    by (rule filter_sorted_dropWhile) (use inv in \<open>simp add: rate_invariant_def\<close>)
  finally have "snd (rate_check now s ?mb) \<longleftrightarrow> length (in_minute now passed) < RATE_LIMIT_PER_MINUTE"
    by (simp add: rate_check_def Let_def)
  with w [of now] show "snd (send now wr m ?mb) = Inr False \<longleftrightarrow>
      \<not> admissible m ?mb \<or> length (in_minute now passed) = RATE_LIMIT_PER_MINUTE"
    by (auto simp: send_refused_iff assms(4))
qed

text \<open>In any series of mailbox operations in which the clock of a sender's sends does not run backwards, at most
  sixty of the sender's messages pass the checks within any sixty seconds; and the next message of the sender is
  refused exactly when a hook or the block list refuses it or sixty have passed in the sixty seconds before it.\<close>

theorem rate_limit_window:
  assumes "rate_of s mb = []" "sorted (concat (map (sent_at s) ops) @ [now])"
    and "passed = collected (passed_at s) mailbox_step ops mb" "mm_from_agent_id m = s"
  shows "length (in_minute u passed) \<le> RATE_LIMIT_PER_MINUTE \<and>
    (snd (send now wr m (steps mailbox_step ops mb)) = Inr False \<longleftrightarrow>
      \<not> admissible m (steps mailbox_step ops mb) \<or> length (in_minute now passed) = RATE_LIMIT_PER_MINUTE)"
  by (intro conjI rate_limit_window_parts [OF assms])

text \<open>Sixty messages at one instant use the budget up; the next one, a minute later to the microsecond, is refused.\<close>

definition burst :: "mailbox_op list" where
  "burst = replicate 60 (Op_send 0 False (demo_message ''m'' 0))"

lemma burst_sent_at: "concat (map (sent_at ''lead'') burst) = replicate 60 0"
  by (simp add: burst_def demo_message_def concat_replicate_trivial numeral_eq_Suc)

lemma burst_passed: "length (in_minute 60000000 (collected (passed_at ''lead'') mailbox_step burst demo_mailbox)) = 60"
  by code_simp

theorem rate_limit_window_witness:
  "length (in_minute 5 (collected (passed_at ''lead'') mailbox_step burst demo_mailbox)) \<le> RATE_LIMIT_PER_MINUTE \<and>
   snd (send 60000000 True (demo_message ''m61'' 0) (steps mailbox_step burst demo_mailbox)) = Inr False"
proof -
  have a: "rate_of ''lead'' demo_mailbox = []" by (simp add: rate_of_def demo_mailbox_def)
  have s: "sorted (concat (map (sent_at ''lead'') burst) @ [60000000])"
    by (simp add: burst_sent_at sorted_append)
  have m: "mm_from_agent_id (demo_message ''m61'' 0) = ''lead''" by (simp add: demo_message_def)
  show ?thesis
    using rate_limit_window [OF a s refl m, of 5 True] burst_passed
    by (simp add: RATE_LIMIT_PER_MINUTE_def)
qed

end
