(* ===== verification/Mailbox_Recovery.thy ===== *)
theory Mailbox_Recovery
  imports Mailbox_Props
begin

text \<open>
  Recovery of the inboxes from the table: what \<open>restore_from_db\<close> appends, what a new process gets back of what was
  sent and received, and how snapshots and the waiting operation lose track of a message.
\<close>

section \<open>Restoring rows\<close>

text \<open>The rows of the run that go back into the inbox of \<open>a\<close>, oldest first.\<close>

definition unread_rows :: "string \<Rightarrow> string \<Rightarrow> mailbox \<Rightarrow> mailbox_message list" where
  "unread_rows run a mb =
     filter (\<lambda>m. mm_metadata m = [] \<and> mm_consumed_at m = None \<and> mm_to_agent_id m = Some a)
       (map mr_message (list_mailbox_messages (Some run) None None None mb))"

lemma restore_row_step:
  assumes "wf_mailbox mb" "restore_row row (mb, n) = (mb', n')"
  shows "wf_mailbox mb'" "mb_rows mb' = mb_rows mb"
    "peek a mb' = peek a mb @
      (if mm_metadata (mr_message row) = [] \<and> mm_consumed_at (mr_message row) = None \<and> mm_to_agent_id (mr_message row) = Some a
       then [mr_message row] else [])"
    "n' = n + (if mm_metadata (mr_message row) = [] then 1 else 0)"
proof -
  let ?m = "mr_message row"
  have q: "r < length (mb_heap mb)" if "r \<in> set (inbox c mb)" for r c
    using assms(1) that by (auto simp: wf_mailbox_def)
  have ib: "inbox c mb' = inbox c mb @ (if mm_metadata ?m = [] \<and> mm_consumed_at ?m = None \<and> mm_to_agent_id ?m \<noteq> None
      \<and> mm_to_agent_id ?m = c then [length (mb_heap mb)] else [])" for c
    using assms(2) by (auto simp: restore_row_def Let_def inbox_def set_inbox_def split: if_splits)
  have h: "mb_heap mb' = mb_heap mb @ (if mm_metadata ?m = [] then [?m] else [])"
    using assms(2) by (auto simp: restore_row_def Let_def split: if_splits)
  show "wf_mailbox mb'" unfolding wf_mailbox_def ib h using q by (auto simp: less_SucI)
  have at: "message_at mb' r = message_at mb r" if "r \<in> set (inbox c mb)" for r c
    using q [OF that] by (simp add: message_at_def h nth_append)
  show "peek a mb' = peek a mb @
      (if mm_metadata ?m = [] \<and> mm_consumed_at ?m = None \<and> mm_to_agent_id ?m = Some a then [?m] else [])"
    using at [of _ "Some a"] by (auto simp: peek_def ib) (simp add: message_at_def h)
  show "mb_rows mb' = mb_rows mb" "n' = n + (if mm_metadata ?m = [] then 1 else 0)"
    using assms(2) by (auto simp: restore_row_def Let_def split: if_splits)
qed

lemma fold_restore_row:
  assumes "wf_mailbox mb" "fold restore_row rows (mb, n) = (mb', n')"
  shows "wf_mailbox mb' \<and> mb_rows mb' = mb_rows mb \<and>
    peek a mb' = peek a mb @ filter (\<lambda>m. mm_metadata m = [] \<and> mm_consumed_at m = None \<and> mm_to_agent_id m = Some a)
      (map mr_message rows) \<and>
    n' = n + length (filter (\<lambda>r. mm_metadata (mr_message r) = []) rows)"
  using assms
proof (induction rows arbitrary: mb n)
  case (Cons row rows)
  obtain mb1 n1 where s: "restore_row row (mb, n) = (mb1, n1)" by force
  note step = restore_row_step [OF Cons.prems(1) s]
  from Cons.IH [OF step(1), of n1] Cons.prems(2) s step show ?case by simp
qed simp

lemma restore_from_db_peek:
  assumes "wf_mailbox mb"
  shows "peek a (fst (restore_from_db run mb)) = peek a mb @ unread_rows run a mb"
    "wf_mailbox (fst (restore_from_db run mb))" "mb_rows (fst (restore_from_db run mb)) = mb_rows mb"
proof -
  obtain mb' n' where f: "fold restore_row (list_mailbox_messages (Some run) None None None mb) (mb, 0) = (mb', n')" by force
  show "peek a (fst (restore_from_db run mb)) = peek a mb @ unread_rows run a mb"
    "wf_mailbox (fst (restore_from_db run mb))" "mb_rows (fst (restore_from_db run mb)) = mb_rows mb"
    using fold_restore_row [OF assms f] by (simp_all add: restore_from_db_def f unread_rows_def)
qed

section \<open>Restarts\<close>

text \<open>The mailbox of a new process over the same table.\<close>

definition restarted :: "mailbox \<Rightarrow> mailbox" where
  "restarted mb = \<lparr>mb_heap = [], mb_inboxes = [], mb_all = [], mb_capacity = mb_capacity mb, mb_hooks = [],
     mb_blocklist = [], mb_rate = [], mb_wake = [], mb_rows = mb_rows mb\<rparr>"

lemma restarted_simps [simp]: "wf_mailbox (restarted mb)" "peek a (restarted mb) = []" "mb_rows (restarted mb) = mb_rows mb"
  by (simp_all add: wf_mailbox_def restarted_def inbox_def peek_def)

lemma unread_rows_cong: "mb_rows mb' = mb_rows mb \<Longrightarrow> unread_rows run a mb' = unread_rows run a mb"
  by (simp add: unread_rows_def list_mailbox_messages_def)

lemma set_unread_rows:
  "m \<in> set (unread_rows run a mb) \<longleftrightarrow> m \<in> mr_message ` snd ` set (mb_rows mb) \<and> mm_run_id m = run \<and>
     mm_metadata m = [] \<and> mm_consumed_at m = None \<and> mm_to_agent_id m = Some a"
  by (auto simp: unread_rows_def list_mailbox_messages_def)

definition rows_by_id :: "mailbox \<Rightarrow> bool" where
  "rows_by_id mb \<longleftrightarrow> (\<forall>(i, r) \<in> set (mb_rows mb). mm_message_id (mr_message r) = i)"

text \<open>No row of this id is unread.\<close>

definition read_in_rows :: "string \<Rightarrow> mailbox \<Rightarrow> bool" where
  "read_in_rows i mb \<longleftrightarrow> (\<forall>(j, r) \<in> set (mb_rows mb). j = i \<longrightarrow> mm_consumed_at (mr_message r) \<noteq> None)"

lemma set_rows_insert:
  "set (mb_rows (insert_mailbox_message m mb)) =
     {x \<in> set (mb_rows mb). fst x \<noteq> mm_message_id m} \<union> {(mm_message_id m, row_of m)}"
  by (auto simp: insert_mailbox_message_def AList.delete_eq)

lemma sent_rows:
  assumes "snd (send now wr m mb) = Inr True"
  shows "mb_rows (fst (send now wr m mb)) = (if wr then mb_rows (insert_mailbox_message m mb) else mb_rows mb)"
proof -
  obtain mb1 ok where r: "rate_check now (mm_from_agent_id m) mb = (mb1, ok)" by force
  obtain mb2 e where e: "enforce_capacity (mm_to_agent_id m) mb1 = (mb2, e)" by force
  have "mb_rows mb1 = mb_rows mb" using r by (auto simp: rate_check_def Let_def split: if_splits)
  moreover have "mb_rows mb2 = mb_rows mb1"
    using e by (auto simp: enforce_capacity_def split: if_splits option.splits)
  ultimately show ?thesis
    using assms by (cases ok; cases e)
      (auto simp: send_admissible r e deliver_fields persist_message_def insert_mailbox_message_def split: if_splits)
qed

lemma consume_stamps:
  assumes "r < length (mb_heap mb)"
  shows "mm_message_id (message_at (consume clk i rs mb) r) = mm_message_id (message_at mb r)"
    "r \<in> set rs \<or> mm_consumed_at (message_at mb r) \<noteq> None \<Longrightarrow> mm_consumed_at (message_at (consume clk i rs mb) r) \<noteq> None"
  using assms
proof (induction clk i rs mb rule: consume.induct)
  case (2 clk i r' rs mb)
  {
    case 1
    with 2(1) show ?case by (cases "r = r'") (simp_all add: message_at_def)
  next
    case 2
    with "2.IH"(2) show ?case by (cases "r = r'") (simp_all add: message_at_def)
  }
qed simp_all

lemma persist_all_read:
  assumes "\<forall>m \<in> set ms. mm_consumed_at m \<noteq> None" "read_in_rows j mb \<or> j \<in> mm_message_id ` set ms"
  shows "read_in_rows j (persist_all (\<lambda>_. True) i ms mb)"
  using assms
proof (induction ms arbitrary: i mb)
  case (Cons m ms)
  have "read_in_rows j (persist_message True m mb)" if "read_in_rows j mb \<or> j = mm_message_id m"
    using that Cons.prems(1) by (auto simp: read_in_rows_def persist_message_def set_rows_insert row_of_def)
  with Cons show ?case by auto
qed simp

lemma persist_all_by_id: "rows_by_id mb \<Longrightarrow> rows_by_id (persist_all wr i ms mb)"
proof (induction ms arbitrary: i mb)
  case (Cons m ms)
  then have "rows_by_id (persist_message (wr i) m mb)"
    by (auto simp: rows_by_id_def persist_message_def set_rows_insert row_of_def)
  then show ?case by (simp add: Cons.IH)
qed simp

lemma received_rows:
  assumes "wf_mailbox mb" "rows_by_id mb" "receive clk (\<lambda>_. True) a n mb = (mb', out)" "m \<in> set out"
  shows "rows_by_id mb'" "read_in_rows (mm_message_id m) mb'"
proof -
  let ?q = "inbox (Some a) mb"
  let ?mb1 = "consume clk 0 (take (nat n) ?q) (set_inbox (Some a) (drop (nat n) ?q) mb)"
  have q: "r < length (mb_heap mb)" if "r \<in> set (take (nat n) ?q)" for r
    using assms(1) in_set_takeD [OF that] by (auto simp: wf_mailbox_def)
  have out: "out = map (message_at ?mb1) (take (nat n) ?q)" and mb': "mb' = persist_all (\<lambda>_. True) 0 out ?mb1"
    using assms(3,4) by (auto simp: receive_def Let_def split: if_splits)
  have stamped: "\<forall>m \<in> set out. mm_consumed_at m \<noteq> None"
    using q by (auto simp: out intro!: consume_stamps(2) [simplified])
  show "read_in_rows (mm_message_id m) mb'"
    unfolding mb' by (rule persist_all_read [OF stamped]) (use assms(4) in blast)
  have "mb_rows (consume clk i rs mbx) = mb_rows mbx" for i rs mbx
    by (induction clk i rs mbx rule: consume.induct) simp_all
  then have "rows_by_id ?mb1" using assms(2) by (simp add: rows_by_id_def)
  then show "rows_by_id mb'" unfolding mb' by (rule persist_all_by_id)
qed

lemma restore_appends_unread_parts:
  assumes "wf_mailbox mb" "rows_by_id mb"
  shows "peek a (((\<lambda>mb. fst (restore_from_db run mb)) ^^ k) mb) = peek a mb @ concat (replicate k (unread_rows run a mb))"
    and "snd (send now True m mb) = Inr True \<Longrightarrow> mm_consumed_at m = None \<Longrightarrow> mm_to_agent_id m = Some a \<Longrightarrow>
      (m \<in> set (peek a (fst (restore_from_db (mm_run_id m) (restarted (fst (send now True m mb))))))
         \<longleftrightarrow> mm_metadata m = [])"
    and "m \<in> set (snd (receive clk (\<lambda>_. True) b n mb)) \<Longrightarrow>
      mm_message_id m \<notin> mm_message_id ` set (peek a (fst (restore_from_db run
         (restarted (fst (receive clk (\<lambda>_. True) b n mb))))))"
proof -
  have k: "peek a (((\<lambda>mb. fst (restore_from_db run mb)) ^^ k) mb) = peek a mb @ concat (replicate k (unread_rows run a mb)) \<and>
      wf_mailbox (((\<lambda>mb. fst (restore_from_db run mb)) ^^ k) mb) \<and>
      mb_rows (((\<lambda>mb. fst (restore_from_db run mb)) ^^ k) mb) = mb_rows mb"
  proof (induction k)
    case (Suc k)
    let ?mb = "((\<lambda>mb. fst (restore_from_db run mb)) ^^ k) mb"
    have "concat (replicate k xs) @ xs = xs @ concat (replicate k xs)" for xs :: "mailbox_message list"
      by (induction k) simp_all
    with restore_from_db_peek(1) [where mb = ?mb and run = run and a = a] restore_from_db_peek(2,3) [where mb = ?mb and run = run] unread_rows_cong [of ?mb mb run a] Suc show ?case by simp
  qed (simp add: assms(1))
  then show "peek a (((\<lambda>mb. fst (restore_from_db run mb)) ^^ k) mb) = peek a mb @ concat (replicate k (unread_rows run a mb))"
    by blast
  show "m \<in> set (peek a (fst (restore_from_db (mm_run_id m) (restarted (fst (send now True m mb)))))) \<longleftrightarrow> mm_metadata m = []"
    if "snd (send now True m mb) = Inr True" "mm_consumed_at m = None" "mm_to_agent_id m = Some a"
    using that(2,3) by (auto simp: restore_from_db_peek set_unread_rows sent_rows [OF that(1)] set_rows_insert row_of_def)
  show "mm_message_id m \<notin> mm_message_id ` set (peek a (fst (restore_from_db run
         (restarted (fst (receive clk (\<lambda>_. True) b n mb))))))"
    if "m \<in> set (snd (receive clk (\<lambda>_. True) b n mb))"
  proof -
    obtain mb' out where r: "receive clk (\<lambda>_. True) b n mb = (mb', out)" by force
    with that have "m \<in> set out" by simp
    from received_rows [OF assms r this] show ?thesis
      by (fastforce simp: restore_from_db_peek set_unread_rows r rows_by_id_def read_in_rows_def)
  qed
qed

text \<open>\<open>restore_from_db\<close> appends to each inbox the run's rows without metadata that are unread, oldest first, and
  does so again at every call, also when the messages are already there. After a restart it gives back a message
  whose send was reported and written, unless it has metadata, and never one whose consumption was written.\<close>

theorem restore_appends_unread:
  assumes "wf_mailbox mb" "rows_by_id mb"
  shows "peek a (((\<lambda>mb. fst (restore_from_db run mb)) ^^ k) mb) = peek a mb @ concat (replicate k (unread_rows run a mb)) \<and>
    (snd (send now True m mb) = Inr True \<longrightarrow> mm_consumed_at m = None \<longrightarrow> mm_to_agent_id m = Some a \<longrightarrow>
      (m \<in> set (peek a (fst (restore_from_db (mm_run_id m) (restarted (fst (send now True m mb))))))
         \<longleftrightarrow> mm_metadata m = [])) \<and>
    (\<forall>x \<in> set (snd (receive clk (\<lambda>_. True) b n mb)).
      mm_message_id x \<notin> mm_message_id ` set (peek a (fst (restore_from_db run
         (restarted (fst (receive clk (\<lambda>_. True) b n mb)))))))"
  by (intro conjI impI ballI restore_appends_unread_parts [OF assms])

text \<open>The witness: a message with and one without metadata, a restart, a live restore, and a read.\<close>

definition tagged :: "mailbox_message \<Rightarrow> mailbox_message" where
  "tagged m = m\<lparr>mm_message_id := ''tagged'', mm_metadata := [(''kind'', PyStr ''steer'')]\<rparr>"

definition served_mailbox :: mailbox where
  "served_mailbox = steps mailbox_step
     [Op_send 1 True (demo_message ''m1'' 1), Op_send 2 True (tagged (demo_message ''m2'' 2))] demo_mailbox"

lemma served_mailbox_ok: "wf_mailbox served_mailbox" "rows_by_id served_mailbox"
proof -
  show "wf_mailbox served_mailbox" unfolding served_mailbox_def by (rule inbox.steps_ok [OF demo_mailbox_ok(1)])
  show "rows_by_id served_mailbox" by code_simp
qed

theorem restore_appends_unread_witness:
  "map mm_message_id (peek ''w1'' (((\<lambda>mb. fst (restore_from_db ''run'' mb)) ^^ 2) served_mailbox))
     = [''m1'', ''tagged'', ''m1'', ''m1''] \<and>
   demo_message ''m3'' 3 \<in> set (peek ''w1'' (fst (restore_from_db ''run''
       (restarted (fst (send 3 True (demo_message ''m3'' 3) served_mailbox)))))) \<and>
   ''m1'' \<notin> mm_message_id ` set (peek ''w1'' (fst (restore_from_db ''run''
       (restarted (fst (receive (\<lambda>_. 9) (\<lambda>_. True) ''w1'' 1 served_mailbox))))))"
proof -
  have ids: "map mm_message_id (peek ''w1'' served_mailbox) = [''m1'', ''tagged'']"
    "map mm_message_id (unread_rows ''run'' ''w1'' served_mailbox) = [''m1'']"
    "snd (send 3 True (demo_message ''m3'' 3) served_mailbox) = Inr True"
    by code_simp+
  have got: "snd (receive (\<lambda>_. 9) (\<lambda>_. True) ''w1'' 1 served_mailbox) = [demo_message ''m1'' 1\<lparr>mm_consumed_at := Some 9\<rparr>]"
    by code_simp
  have m: "mm_run_id (demo_message i t) = ''run''" "mm_consumed_at (demo_message i t) = None"
    "mm_to_agent_id (demo_message i t) = Some ''w1''" "mm_metadata (demo_message i t) = []" "mm_message_id (demo_message i t) = i" for i t
    by (simp_all add: demo_message_def)
  show ?thesis
    using restore_appends_unread [OF served_mailbox_ok, where a = "''w1''" and run = "''run''" and k = 2 and b = "''w1''" and n = 1
        and clk = "\<lambda>_. 9" and now = 3 and m = "demo_message ''m3'' 3"]
    by (simp add: ids m got numeral_2_eq_2)
qed

section \<open>Lost messages\<close>

text \<open>
  A \<open>send\<close> between the first \<open>receive\<close> of \<open>wait_for_message\<close> and the registration of its event sets no event: the
  wait ends by its timeout and answers None while the message waits.
\<close>

lemma lost_wakeup:
  "let (mb1, first) = wait_first (\<lambda>_. 0) (\<lambda>_. True) ''w1'' demo_mailbox;
       (mb2, res) = send 1 True (demo_message ''m1'' 1) mb1;
       mb3 = wait_register ''w1'' mb2;
       awakened = (map_of (mb_wake mb3) ''w1'' = Some True);
       (mb4, last_read) = wait_end (\<lambda>_. 2) (\<lambda>_. True) awakened ''w1'' mb3
   in first = None \<and> res = Inr True \<and> last_read = None \<and> map mm_message_id (peek ''w1'' mb4) = [''m1'']"
  by code_simp

text \<open>
  A snapshot written back splits the inbox objects from those of \<open>_all_messages\<close>: a message read afterwards is
  unread again in the rows that \<open>flush_to_db\<close> writes, and a restart delivers it a second time.
\<close>

lemma snapshot_redelivers:
  "let mb0 = served_mailbox;
       mb1 = restore (snapshot mb0) mb0;
       (mb2, out) = receive (\<lambda>_. 9) (\<lambda>_. True) ''w1'' 1 mb1;
       before = fst (restore_from_db ''run'' (restarted mb2));
       after = fst (restore_from_db ''run'' (restarted (fst (flush_to_db (\<lambda>_. True) ''run'' mb2))))
   in map mm_message_id out = [''m1''] \<and> peek ''w1'' before = [] \<and> map mm_message_id (peek ''w1'' after) = [''m1'']"
  by code_simp

end
