(* ===== verification/Teammate_Session.thy ===== *)
theory Teammate_Session
  imports Py_Prelude
begin

text \<open>
  \<open>app/multiagent/teammate_session.py\<close>: the durable execution identity of a teammate. A session has a lifecycle,
  a command queue and an event queue in the table \<open>teammate_queue_items\<close>, and a row in \<open>teammate_sessions\<close>; the
  supervisor holds one live session object and one actor per agent. Generated item ids and clock readings are
  arguments; what other tasks do to the queues while an actor waits is a function argument.
\<close>

section \<open>Lifecycle\<close>

datatype teammate_lifecycle =
    Mate_CREATED | Mate_SPAWNING | Mate_IDLE | Mate_CLAIMING | Mate_PLANNING | Mate_WAITING_PLAN_APPROVAL
  | Mate_RUNNING | Mate_WAITING_TOOL | Mate_WAITING_PERMISSION | Mate_BLOCKED | Mate_STOPPING | Mate_STOPPED
  | Mate_FAILED

fun mate_legal :: "teammate_lifecycle \<Rightarrow> teammate_lifecycle list" where
  "mate_legal Mate_CREATED = [Mate_SPAWNING, Mate_IDLE, Mate_STOPPING, Mate_FAILED]"
| "mate_legal Mate_SPAWNING = [Mate_IDLE, Mate_FAILED]"
| "mate_legal Mate_IDLE = [Mate_CLAIMING, Mate_PLANNING, Mate_RUNNING, Mate_BLOCKED, Mate_STOPPING, Mate_FAILED]"
| "mate_legal Mate_CLAIMING = [Mate_PLANNING, Mate_RUNNING, Mate_IDLE, Mate_STOPPING, Mate_FAILED]"
| "mate_legal Mate_PLANNING = [Mate_WAITING_PLAN_APPROVAL, Mate_RUNNING, Mate_IDLE, Mate_STOPPING, Mate_FAILED]"
| "mate_legal Mate_WAITING_PLAN_APPROVAL = [Mate_PLANNING, Mate_RUNNING, Mate_IDLE, Mate_STOPPING, Mate_FAILED]"
| "mate_legal Mate_RUNNING = [Mate_WAITING_TOOL, Mate_WAITING_PERMISSION, Mate_BLOCKED, Mate_IDLE, Mate_STOPPING,
     Mate_FAILED]"
| "mate_legal Mate_WAITING_TOOL = [Mate_RUNNING, Mate_WAITING_PERMISSION, Mate_IDLE, Mate_STOPPING, Mate_FAILED]"
| "mate_legal Mate_WAITING_PERMISSION = [Mate_RUNNING, Mate_IDLE, Mate_STOPPING, Mate_FAILED]"
| "mate_legal Mate_BLOCKED = [Mate_IDLE, Mate_RUNNING, Mate_STOPPING, Mate_FAILED]"
| "mate_legal Mate_STOPPING = [Mate_STOPPED, Mate_FAILED]"
| "mate_legal Mate_STOPPED = []"
| "mate_legal Mate_FAILED = [Mate_IDLE, Mate_STOPPING, Mate_STOPPED]"

fun mate_value :: "teammate_lifecycle \<Rightarrow> string" where
  "mate_value Mate_CREATED = ''created''"
| "mate_value Mate_SPAWNING = ''spawning''"
| "mate_value Mate_IDLE = ''idle''"
| "mate_value Mate_CLAIMING = ''claiming''"
| "mate_value Mate_PLANNING = ''planning''"
| "mate_value Mate_WAITING_PLAN_APPROVAL = ''waiting_plan_approval''"
| "mate_value Mate_RUNNING = ''running''"
| "mate_value Mate_WAITING_TOOL = ''waiting_tool''"
| "mate_value Mate_WAITING_PERMISSION = ''waiting_permission''"
| "mate_value Mate_BLOCKED = ''blocked''"
| "mate_value Mate_STOPPING = ''stopping''"
| "mate_value Mate_STOPPED = ''stopped''"
| "mate_value Mate_FAILED = ''failed''"

datatype command_type =
  Cmd_ASSIGN_TASK | Cmd_MESSAGE | Cmd_WAKE | Cmd_CANCEL | Cmd_STOP | Cmd_PERMISSION_DECISION | Cmd_PLAN_DECISION

fun command_value :: "command_type \<Rightarrow> string" where
  "command_value Cmd_ASSIGN_TASK = ''assign_task''"
| "command_value Cmd_MESSAGE = ''message''"
| "command_value Cmd_WAKE = ''wake''"
| "command_value Cmd_CANCEL = ''cancel''"
| "command_value Cmd_STOP = ''stop''"
| "command_value Cmd_PERMISSION_DECISION = ''permission_decision''"
| "command_value Cmd_PLAN_DECISION = ''plan_decision''"

record teammate_session =
  se_run_id :: string
  se_agent_id :: string
  se_profile_id :: string
  se_session_id :: string
  se_thread_id :: string
  se_checkpoint_namespace :: string
  se_current_task_id :: "pyval option"
  se_conversation_state :: pydict
  se_lifecycle :: teammate_lifecycle
  se_workspace :: string
  se_worktree :: string
  se_inbox :: "pydict list"
  se_mailbox_cursor :: int
  se_last_activity_at :: time
  se_cancellation_requested :: bool
  se_metadata :: pydict

datatype session_error = IllegalTeammateTransition | MessagesNotAList | IdentityMismatch | AgentNotUnique

definition session_transition :: "time \<Rightarrow> teammate_lifecycle \<Rightarrow> teammate_session
    \<Rightarrow> session_error + teammate_session" where
  "session_transition now target s =
     (if target = se_lifecycle s then Inr s
      else if target \<notin> set (mate_legal (se_lifecycle s)) then Inl IllegalTeammateTransition
      else Inr (s\<lparr>se_lifecycle := target, se_last_activity_at := now\<rparr>))"

section \<open>Queues\<close>

record queue_item =
  qi_item_id :: string
  qi_session_id :: string
  qi_queue_type :: string
  qi_kind :: string
  qi_payload :: pydict
  qi_sequence :: int
  qi_pending :: bool
  qi_created_at :: time
  qi_consumed_at :: "time option"

type_synonym queue_table = "queue_item list"

definition of_queue :: "string \<Rightarrow> string \<Rightarrow> queue_table \<Rightarrow> queue_table" where
  "of_queue sid qt tab = filter (\<lambda>q. qi_session_id q = sid \<and> qi_queue_type q = qt) tab"

definition next_sequence :: "string \<Rightarrow> string \<Rightarrow> queue_table \<Rightarrow> int" where
  "next_sequence sid qt tab = fold max (map qi_sequence (of_queue sid qt tab)) 0 + 1"

definition queue_put :: "string \<Rightarrow> time \<Rightarrow> string \<Rightarrow> string \<Rightarrow> string \<Rightarrow> pydict \<Rightarrow> queue_table \<Rightarrow> queue_table" where
  "queue_put i now sid qt kind payload tab =
     tab @ [\<lparr>qi_item_id = i, qi_session_id = sid, qi_queue_type = qt, qi_kind = kind, qi_payload = payload,
       qi_sequence = next_sequence sid qt tab, qi_pending = True, qi_created_at = now, qi_consumed_at = None\<rparr>]"

definition queue_pending :: "nat \<Rightarrow> string \<Rightarrow> string \<Rightarrow> queue_table \<Rightarrow> queue_item list" where
  "queue_pending limit sid qt tab = take limit (sort_key qi_sequence (filter qi_pending (of_queue sid qt tab)))"

definition queue_ack :: "time \<Rightarrow> string \<Rightarrow> string \<Rightarrow> queue_table \<Rightarrow> queue_table \<times> bool" where
  "queue_ack now sid i tab =
     (let hit = (\<lambda>q. qi_item_id q = i \<and> qi_session_id q = sid \<and> qi_pending q)
      in (map (\<lambda>q. if hit q then q\<lparr>qi_pending := False, qi_consumed_at := Some now\<rparr> else q) tab,
          length (filter hit tab) = 1))"

section \<open>Supervisor\<close>

text \<open>Columns \<open>agent_id\<close> and \<open>run_id\<close> of a session row keep the values of its first insertion.\<close>

record session_row =
  sr_agent_id :: string
  sr_run_id :: string
  sr_payload :: teammate_session

record supervisor =
  sv_sessions :: "(string \<times> teammate_session) list"  \<comment> \<open>live objects by agent\<close>
  sv_actors :: "(string \<times> bool) list"  \<comment> \<open>whether the actor's stop event is set\<close>
  sv_rows :: "(string \<times> session_row) list"  \<comment> \<open>by \<open>session_id\<close>\<close>
  sv_queue :: queue_table

type_synonym 'a session_result = "supervisor \<times> (session_error + 'a)"

definition persist_session :: "teammate_session \<Rightarrow> supervisor \<Rightarrow> unit session_result" where
  "persist_session s sv =
     (case map_of (sv_rows sv) (se_session_id s) of
        Some row \<Rightarrow> (sv\<lparr>sv_rows := AList.update (se_session_id s) (row\<lparr>sr_payload := s\<rparr>) (sv_rows sv)\<rparr>, Inr ())
      | None \<Rightarrow>
          if list_ex (\<lambda>(_, r). sr_agent_id r = se_agent_id s) (sv_rows sv) then (sv, Inl AgentNotUnique)
          else (sv\<lparr>sv_rows := sv_rows sv @ [(se_session_id s,
            \<lparr>sr_agent_id = se_agent_id s, sr_run_id = se_run_id s, sr_payload = s\<rparr>)]\<rparr>, Inr ()))"

definition load_session :: "string \<Rightarrow> supervisor \<Rightarrow> teammate_session option" where
  "load_session a sv = map_option (\<lambda>(_, r). sr_payload r) (List.find (\<lambda>(_, r). sr_agent_id r = a) (sv_rows sv))"

definition sessions_by_run :: "string \<Rightarrow> supervisor \<Rightarrow> teammate_session list" where
  "sessions_by_run run sv = map (\<lambda>(_, r). sr_payload r) (filter (\<lambda>(_, r). sr_run_id r = run) (sv_rows sv))"

text \<open>The fields of an agent instance that the supervisor reads; \<open>ai_worktree\<close> is the attribute or metadata entry.\<close>

record agent_identity =
  ai_run_id :: string
  ai_agent_id :: string
  ai_profile_id :: string
  ai_session_id :: string
  ai_thread_id :: string
  ai_checkpoint_namespace :: string
  ai_workspace_root :: string
  ai_worktree :: string
  ai_mailbox_cursor :: int

definition put_session :: "string \<Rightarrow> teammate_session \<Rightarrow> supervisor \<Rightarrow> supervisor" where
  "put_session a s sv = sv\<lparr>sv_sessions := AList.update a s (sv_sessions sv)\<rparr>"

definition new_session :: "time \<Rightarrow> agent_identity \<Rightarrow> teammate_session" where
  "new_session now a = \<lparr>se_run_id = ai_run_id a, se_agent_id = ai_agent_id a, se_profile_id = ai_profile_id a,
     se_session_id = ai_session_id a, se_thread_id = ai_thread_id a,
     se_checkpoint_namespace = ai_checkpoint_namespace a, se_current_task_id = None, se_conversation_state = [],
     se_lifecycle = Mate_IDLE, se_workspace = ai_workspace_root a, se_worktree = ai_worktree a, se_inbox = [],
     se_mailbox_cursor = ai_mailbox_cursor a, se_last_activity_at = now, se_cancellation_requested = False,
     se_metadata = []\<rparr>"

definition ensure_session :: "time \<Rightarrow> agent_identity \<Rightarrow> supervisor \<Rightarrow> teammate_session session_result" where
  "ensure_session now a sv =
     (case map_of (sv_sessions sv) (ai_agent_id a) of
        Some s \<Rightarrow> (sv, Inr s)
      | None \<Rightarrow>
          case load_session (ai_agent_id a) sv of
            Some s \<Rightarrow>
              if (se_run_id s, se_session_id s, se_thread_id s) \<noteq> (ai_run_id a, ai_session_id a, ai_thread_id a)
              then (sv, Inl IdentityMismatch) else (put_session (ai_agent_id a) s sv, Inr s)
          | None \<Rightarrow>
              (let s = new_session now a
               in case persist_session s sv of
                    (sv', Inl e) \<Rightarrow> (sv', Inl e)
                  | (sv', Inr _) \<Rightarrow> (put_session (ai_agent_id a) s sv', Inr s)))"

definition actor_for :: "time \<Rightarrow> agent_identity \<Rightarrow> supervisor \<Rightarrow> unit session_result" where
  "actor_for now a sv =
     (case map_of (sv_actors sv) (ai_agent_id a) of
        Some _ \<Rightarrow> (sv, Inr ())
      | None \<Rightarrow>
          case ensure_session now a sv of
            (sv', Inl e) \<Rightarrow> (sv', Inl e)
          | (sv', Inr _) \<Rightarrow> (sv'\<lparr>sv_actors := AList.update (ai_agent_id a) False (sv_actors sv')\<rparr>, Inr ()))"

section \<open>Actor\<close>

text \<open>What a safety point reports; the keys of \<open>observed\<close>.\<close>

record observed =
  ob_messages :: "pydict list"
  ob_decisions :: "pydict list"
  ob_cancelled :: bool

definition observed_payload :: "observed \<Rightarrow> pydict" where
  "observed_payload ob = [(''messages'', PyList (map PyDict (ob_messages ob))),
     (''decisions'', PyList (map PyDict (ob_decisions ob)))] @ (if ob_cancelled ob then [(''cancelled'', PyBool True)] else [])"

text \<open>One command at a safety point: the session object and the report; \<open>Inl\<close> before its acknowledgement.\<close>

definition observe_command :: "queue_item \<Rightarrow> teammate_session \<times> observed
    \<Rightarrow> (teammate_session \<times> observed) \<times> session_error option" where
  "observe_command q acc =
     (case acc of (s, ob) \<Rightarrow>
        if qi_kind q = command_value Cmd_MESSAGE then
          let ob1 = ob\<lparr>ob_messages := ob_messages ob @ [qi_payload q]\<rparr>; s1 = s\<lparr>se_inbox := se_inbox s @ [qi_payload q]\<rparr>
          in case append_entry None ''messages'' (PyDict (qi_payload q)) (se_conversation_state s) of
               None \<Rightarrow> ((s1, ob1), Some MessagesNotAList)
             | Some cs \<Rightarrow> ((s1\<lparr>se_conversation_state := cs\<rparr>, ob1), None)
        else if qi_kind q = command_value Cmd_CANCEL \<or> qi_kind q = command_value Cmd_STOP
        then ((s\<lparr>se_cancellation_requested := True\<rparr>, ob\<lparr>ob_cancelled := True\<rparr>), None)
        else if qi_kind q = command_value Cmd_PERMISSION_DECISION \<or> qi_kind q = command_value Cmd_PLAN_DECISION
        then ((s, ob\<lparr>ob_decisions := ob_decisions ob @ [qi_payload q]\<rparr>), None)
        else ((s, ob), None))"

fun observe_commands :: "time \<Rightarrow> queue_item list \<Rightarrow> queue_table \<Rightarrow> teammate_session \<times> observed
    \<Rightarrow> queue_table \<times> (teammate_session \<times> observed) \<times> session_error option" where
  "observe_commands now [] tab acc = (tab, acc, None)"
| "observe_commands now (q # qs) tab acc =
     (case observe_command q acc of
        (acc', Some e) \<Rightarrow> (tab, acc', Some e)
      | (acc', None) \<Rightarrow>
          observe_commands now qs (fst (queue_ack now (se_session_id (fst acc)) (qi_item_id q) tab)) acc')"

text \<open>
  An actor's state is the supervisor with the actor's own session object, which is the one the supervisor holds for
  the agent \<open>a\<close>.
\<close>

type_synonym 'a actor_result = "(supervisor \<times> teammate_session) \<times> (session_error + 'a)"

definition actor_persist :: "string \<Rightarrow> teammate_session \<Rightarrow> supervisor \<Rightarrow> 'a \<Rightarrow> 'a actor_result" where
  "actor_persist a s sv r =
     (case persist_session s (put_session a s sv) of
        (sv', Inl e) \<Rightarrow> ((sv', s), Inl e)
      | (sv', Inr _) \<Rightarrow> ((sv', s), Inr r))"

definition safety_point :: "string \<Rightarrow> time \<Rightarrow> string \<Rightarrow> supervisor \<times> teammate_session \<Rightarrow> observed actor_result" where
  "safety_point i now a st =
     (case st of (sv, s) \<Rightarrow>
        case observe_commands now (queue_pending 100 (se_session_id s) ''command'' (sv_queue sv)) (sv_queue sv)
               (s, \<lparr>ob_messages = [], ob_decisions = [], ob_cancelled = False\<rparr>) of
          (tab, (s1, ob), Some e) \<Rightarrow> ((put_session a s1 (sv\<lparr>sv_queue := tab\<rparr>), s1), Inl e)
        | (tab, (s1, ob), None) \<Rightarrow>
            (case actor_persist a (s1\<lparr>se_last_activity_at := now\<rparr>) (sv\<lparr>sv_queue := tab\<rparr>) ob of
               (st', Inl e) \<Rightarrow> (st', Inl e)
             | ((sv', s'), Inr _) \<Rightarrow>
                 ((sv'\<lparr>sv_queue := queue_put i now (se_session_id s') ''event'' ''safety_point'' (observed_payload ob)
                    (sv_queue sv')\<rparr>, s'), Inr ob)))"

text \<open>\<open>transition\<close> twice in a row, then \<open>persist\<close>.\<close>

definition transition_twice :: "time \<Rightarrow> string \<Rightarrow> teammate_lifecycle \<Rightarrow> teammate_lifecycle
    \<Rightarrow> supervisor \<times> teammate_session \<Rightarrow> unit actor_result" where
  "transition_twice now a x y st =
     (case st of (sv, s) \<Rightarrow>
        case session_transition now x s of
          Inl e \<Rightarrow> ((put_session a s sv, s), Inl e)
        | Inr s1 \<Rightarrow>
            (case session_transition now y s1 of
               Inl e \<Rightarrow> ((put_session a s1 sv, s1), Inl e)
             | Inr s2 \<Rightarrow> actor_persist a s2 sv ()))"

definition actor_stop :: "time \<Rightarrow> string \<Rightarrow> supervisor \<times> teammate_session \<Rightarrow> unit actor_result" where
  "actor_stop now a st =
     (case st of (sv, s) \<Rightarrow>
        let sv1 = sv\<lparr>sv_actors := AList.update a True (sv_actors sv)\<rparr>
        in if se_lifecycle s \<in> {Mate_STOPPED, Mate_FAILED} then actor_persist a s sv1 ()
           else transition_twice now a Mate_STOPPING Mate_STOPPED (sv1, s))"

definition wait_command :: "(supervisor \<Rightarrow> supervisor) \<Rightarrow> string \<Rightarrow> supervisor \<Rightarrow> supervisor \<times> queue_item option" where
  "wait_command env sid sv =
     (case queue_pending 1 sid ''command'' (sv_queue sv) of
        q # _ \<Rightarrow> (sv, Some q)
      | [] \<Rightarrow>
          let sv' = env sv
          in (sv', (case queue_pending 1 sid ''command'' (sv_queue sv') of [] \<Rightarrow> None | q # _ \<Rightarrow> Some q)))"

definition ack_command :: "time \<Rightarrow> queue_item \<Rightarrow> supervisor \<times> teammate_session \<Rightarrow> supervisor \<times> teammate_session" where
  "ack_command now q st =
     (case st of (sv, s) \<Rightarrow>
        (sv\<lparr>sv_queue := fst (queue_ack now (se_session_id s) (qi_item_id q) (sv_queue sv))\<rparr>, s))"

text \<open>The \<open>except\<close> clause around the handler, and the \<open>finally\<close> clause, which also runs when the former raised.\<close>

definition handler_failed :: "string \<Rightarrow> time \<Rightarrow> string \<Rightarrow> string \<Rightarrow> supervisor \<times> teammate_session \<Rightarrow> unit actor_result" where
  "handler_failed i now a msg st =
     (case st of (sv, s) \<Rightarrow>
        let sv1 = sv\<lparr>sv_queue := queue_put i now (se_session_id s) ''event'' ''error'' [(''error'', PyStr msg)] (sv_queue sv)\<rparr>
        in case session_transition now Mate_FAILED s of
             Inl e \<Rightarrow> ((sv1, s), Inl e)
           | Inr s1 \<Rightarrow> ((put_session a s1 sv1, s1), Inr ()))"

definition assignment_end :: "string \<Rightarrow> unit actor_result \<Rightarrow> unit actor_result" where
  "assignment_end a res =
     (case res of ((sv, s), r) \<Rightarrow>
        case actor_persist a (s\<lparr>se_current_task_id := None\<rparr>) sv () of
          (st, Inl e) \<Rightarrow> (st, Inl e)
        | (st, Inr _) \<Rightarrow> (st, r))"

definition illegal_text :: "teammate_lifecycle \<Rightarrow> teammate_lifecycle \<Rightarrow> string" where
  "illegal_text x y = ''illegal teammate transition: '' @ mate_value x @ ''->'' @ mate_value y"

text \<open>The handler returns its exception text, if it raised.\<close>

type_synonym handler = "queue_item \<Rightarrow> supervisor \<times> teammate_session \<Rightarrow> (supervisor \<times> teammate_session) \<times> string option"

definition serve_assignment :: "string \<Rightarrow> time \<Rightarrow> handler \<Rightarrow> string \<Rightarrow> queue_item \<Rightarrow> supervisor \<times> teammate_session
    \<Rightarrow> unit actor_result" where
  "serve_assignment i now handle a q st =
     (case ack_command now q st of (sv, s) \<Rightarrow>
        case transition_twice now a Mate_CLAIMING Mate_RUNNING
               (sv, s\<lparr>se_current_task_id := map_of (qi_payload q) ''task_id''\<rparr>) of
          (st1, Inl e) \<Rightarrow> (st1, Inl e)
        | (st1, Inr _) \<Rightarrow>
            assignment_end a
              (case handle q st1 of
                 (st2, Some msg) \<Rightarrow> handler_failed i now a msg st2
               | ((sv2, s2), None) \<Rightarrow>
                   if se_cancellation_requested s2 then ((sv2, s2), Inr ())
                   else case session_transition now Mate_IDLE s2 of
                          Inl e \<Rightarrow> handler_failed i now a (illegal_text (se_lifecycle s2) Mate_IDLE) (sv2, s2)
                        | Inr s3 \<Rightarrow> ((put_session a s3 sv2, s3), Inr ())))"

text \<open>One pass of the loop of \<open>run\<close>; the result is whether the loop goes on. \<open>env\<close> is what happens during the wait.\<close>

definition actor_pass :: "string \<Rightarrow> time \<Rightarrow> (supervisor \<Rightarrow> supervisor) \<Rightarrow> handler \<Rightarrow> string
    \<Rightarrow> supervisor \<times> teammate_session \<Rightarrow> bool actor_result" where
  "actor_pass i now env handle a st =
     (case st of (sv, s) \<Rightarrow>
        if map_of (sv_actors sv) a = Some True \<or> se_lifecycle s = Mate_STOPPED then (st, Inr False)
        else case wait_command env (se_session_id s) sv of
               (sv1, None) \<Rightarrow> ((sv1, s), Inr True)
             | (sv1, Some q) \<Rightarrow>
                 if qi_kind q = command_value Cmd_STOP then
                   (case actor_stop now a (ack_command now q (sv1, s)) of
                      (st', Inl e) \<Rightarrow> (st', Inl e)
                    | (st', Inr _) \<Rightarrow> (st', Inr False))
                 else if qi_kind q \<noteq> command_value Cmd_ASSIGN_TASK then
                   (case safety_point i now a (sv1, s) of
                      (st', Inl e) \<Rightarrow> (st', Inl e)
                    | (st', Inr _) \<Rightarrow> (st', Inr True))
                 else (case serve_assignment i now handle a q (sv1, s) of
                         (st', Inl e) \<Rightarrow> (st', Inl e)
                       | (st', Inr _) \<Rightarrow> (st', Inr True)))"

fun actor_passes :: "(nat \<Rightarrow> string) \<Rightarrow> (nat \<Rightarrow> time) \<Rightarrow> nat \<Rightarrow> (supervisor \<Rightarrow> supervisor) list \<Rightarrow> handler \<Rightarrow> string
    \<Rightarrow> supervisor \<times> teammate_session \<Rightarrow> bool actor_result" where
  "actor_passes ids clk k [] handle a st = (st, Inr True)"
| "actor_passes ids clk k (env # envs) handle a st =
     (case actor_pass (ids k) (clk k) env handle a st of
        (st', Inr True) \<Rightarrow> actor_passes ids clk (Suc k) envs handle a st'
      | res \<Rightarrow> res)"

definition actor_run :: "(nat \<Rightarrow> string) \<Rightarrow> (nat \<Rightarrow> time) \<Rightarrow> (supervisor \<Rightarrow> supervisor) list \<Rightarrow> handler \<Rightarrow> string
    \<Rightarrow> supervisor \<times> teammate_session \<Rightarrow> bool actor_result" where
  "actor_run ids clk envs handle a st =
     (if se_lifecycle (snd st) = Mate_CREATED then
        (case transition_twice (clk 0) a Mate_SPAWNING Mate_IDLE st of
           (st', Inl e) \<Rightarrow> (st', Inl e)
         | (st', Inr _) \<Rightarrow> actor_passes ids clk 1 envs handle a st')
      else actor_passes ids clk 1 envs handle a st)"

end
