(* ===== verification/Teammate_Session_Props.thy ===== *)
theory Teammate_Session_Props
  imports Teammate_Session Channel
begin

text \<open>
  Teammate sessions: the command queue is a reliable channel whose messages reach the session exactly once and in
  order; and which states of the session the actor's loop can and cannot serve.
\<close>

section \<open>Queues\<close>

definition wf_queue :: "queue_table \<Rightarrow> bool" where
  "wf_queue tab \<longleftrightarrow> distinct (map qi_item_id tab) \<and> (\<forall>sid qt. sorted_wrt (<) (map qi_sequence (of_queue sid qt tab)))"

definition commands :: "string \<Rightarrow> queue_table \<Rightarrow> queue_item list" where
  "commands sid tab = filter qi_pending (of_queue sid ''command'' tab)"

lemma fold_max_ge: "a \<le> fold max xs a \<and> (\<forall>x \<in> set xs. x \<le> fold max xs (a :: int))"
proof (induction xs arbitrary: a)
  case (Cons x xs)
  from Cons.IH [of "max x a"] show ?case by auto
qed simp

lemma next_sequence_greater: "q \<in> set (of_queue sid qt tab) \<Longrightarrow> qi_sequence q < next_sequence sid qt tab"
  using fold_max_ge [of 0 "map qi_sequence (of_queue sid qt tab)"] by (auto simp: next_sequence_def)

lemma of_queue_put:
  "of_queue sid qt (queue_put i now sid' qt' kind payload tab) =
     of_queue sid qt tab @ (if sid = sid' \<and> qt = qt'
       then [\<lparr>qi_item_id = i, qi_session_id = sid', qi_queue_type = qt', qi_kind = kind, qi_payload = payload,
          qi_sequence = next_sequence sid' qt' tab, qi_pending = True, qi_created_at = now, qi_consumed_at = None\<rparr>] else [])"
  by (auto simp: of_queue_def queue_put_def)

lemma wf_queue_put:
  assumes "wf_queue tab" "i \<notin> qi_item_id ` set tab"
  shows "wf_queue (queue_put i now sid qt kind payload tab)"
  using assms next_sequence_greater
  by (auto simp: wf_queue_def of_queue_put sorted_wrt_append) (auto simp: queue_put_def)

definition acked :: "time \<Rightarrow> string \<Rightarrow> string \<Rightarrow> queue_item \<Rightarrow> queue_item" where
  "acked now sid i q = (if qi_item_id q = i \<and> qi_session_id q = sid \<and> qi_pending q
     then q\<lparr>qi_pending := False, qi_consumed_at := Some now\<rparr> else q)"

lemma queue_ack_map: "fst (queue_ack now sid i tab) = map (acked now sid i) tab"
  by (simp add: queue_ack_def acked_def [abs_def])

lemma acked_fields [simp]:
  "qi_item_id (acked now sid i q) = qi_item_id q" "qi_session_id (acked now sid i q) = qi_session_id q"
  "qi_queue_type (acked now sid i q) = qi_queue_type q" "qi_sequence (acked now sid i q) = qi_sequence q"
  "qi_kind (acked now sid i q) = qi_kind q" "qi_payload (acked now sid i q) = qi_payload q"
  by (simp_all add: acked_def)

lemma of_queue_ack: "of_queue sid' qt (map (acked now sid i) tab) = map (acked now sid i) (of_queue sid' qt tab)"
  by (simp add: of_queue_def filter_map comp_def)

lemma wf_queue_ack: "wf_queue tab \<Longrightarrow> wf_queue (map (acked now sid i) tab)"
  by (simp add: wf_queue_def of_queue_ack comp_def)

lemma commands_ack: "commands sid (map (acked now sid i) tab) = filter (\<lambda>q. qi_item_id q \<noteq> i) (commands sid tab)"
proof -
  have "filter qi_pending (map (acked now sid i) xs) = filter (\<lambda>q. qi_item_id q \<noteq> i) (filter qi_pending xs)"
    if "\<forall>q \<in> set xs. qi_session_id q = sid" for xs
    using that by (induction xs) (auto simp: acked_def)
  from this [of "of_queue sid ''command'' tab"] show ?thesis
    unfolding commands_def of_queue_ack by (auto simp: of_queue_def)
qed

lemma sort_key_sorted_wrt: "sorted_wrt (<) (map f xs) \<Longrightarrow> sort_key f xs = (xs :: 'b list)" for f :: "'b \<Rightarrow> int"
  by (rule sort_key_id_if_sorted) (auto simp: strict_sorted_imp_sorted)

lemma queue_pending_commands:
  assumes "wf_queue tab"
  shows "queue_pending n sid ''command'' tab = take n (commands sid tab)"
proof -
  have "sorted_wrt (<) (map qi_sequence (commands sid tab))"
    using assms by (auto simp: wf_queue_def commands_def sorted_wrt_map intro: sorted_wrt_filter)
  then show ?thesis by (simp add: queue_pending_def commands_def sort_key_sorted_wrt)
qed

section \<open>Safety points\<close>

definition message_payloads :: "queue_item list \<Rightarrow> pydict list" where
  "message_payloads qs = map qi_payload (filter (\<lambda>q. qi_kind q = command_value Cmd_MESSAGE) qs)"

lemma message_payloads_append [simp]: "message_payloads (xs @ ys) = message_payloads xs @ message_payloads ys"
  by (simp add: message_payloads_def)

text \<open>The entry \<open>messages\<close> of the conversation state is absent or a list, as the session leaves it.\<close>

definition conversation_ok :: "teammate_session \<Rightarrow> bool" where
  "conversation_ok s \<longleftrightarrow>
     (case map_of (se_conversation_state s) ''messages'' of None \<Rightarrow> True | Some (PyList _) \<Rightarrow> True | _ \<Rightarrow> False)"

lemma append_entry_list:
  assumes "conversation_ok s"
  obtains cs where "append_entry None ''messages'' v (se_conversation_state s) = Some cs"
    "map_of cs ''messages'' = Some (PyList ((case map_of (se_conversation_state s) ''messages'' of Some (PyList xs) \<Rightarrow> xs | _ \<Rightarrow> []) @ [v]))"
  using assms that by (auto simp: conversation_ok_def append_entry_def Let_def split: option.splits pyval.splits)

lemma observe_command_ok:
  assumes "conversation_ok s"
  obtains s' ob' where "observe_command q (s, ob) = ((s', ob'), None)" "conversation_ok s'"
    "se_inbox s' = se_inbox s @ message_payloads [q]" "ob_messages ob' = ob_messages ob @ message_payloads [q]"
    "se_session_id s' = se_session_id s" "se_lifecycle s' = se_lifecycle s" "se_current_task_id s' = se_current_task_id s"
    "se_agent_id s' = se_agent_id s" "se_cancellation_requested s \<longrightarrow> se_cancellation_requested s'"
proof (cases "qi_kind q = command_value Cmd_MESSAGE")
  case True
  from assms obtain cs where cs: "append_entry None ''messages'' (PyDict (qi_payload q)) (se_conversation_state s) = Some cs"
    "map_of cs ''messages'' = Some (PyList ((case map_of (se_conversation_state s) ''messages'' of Some (PyList xs) \<Rightarrow> xs | _ \<Rightarrow> [])
       @ [PyDict (qi_payload q)]))"
    by (rule append_entry_list)
  show thesis
    by (rule that [of "s\<lparr>se_inbox := se_inbox s @ [qi_payload q], se_conversation_state := cs\<rparr>"
          "ob\<lparr>ob_messages := ob_messages ob @ [qi_payload q]\<rparr>"])
      (use True cs in \<open>simp_all add: observe_command_def Let_def message_payloads_def conversation_ok_def\<close>)
next
  case False
  with assms show thesis
    by (intro that [of "fst (fst (observe_command q (s, ob)))" "snd (fst (observe_command q (s, ob)))"])
      (auto simp: observe_command_def message_payloads_def conversation_ok_def)
qed

lemma observe_commands_ok:
  assumes "conversation_ok s" "observe_commands now qs tab (s, ob) = (tab', (s', ob'), err)" "wf_queue tab"
  shows "err = None \<and> wf_queue tab' \<and> conversation_ok s' \<and>
    commands (se_session_id s) tab' = filter (\<lambda>q. qi_item_id q \<notin> qi_item_id ` set qs) (commands (se_session_id s) tab) \<and>
    se_inbox s' = se_inbox s @ message_payloads qs \<and> ob_messages ob' = ob_messages ob @ message_payloads qs \<and>
    se_session_id s' = se_session_id s \<and> se_lifecycle s' = se_lifecycle s \<and>
    se_current_task_id s' = se_current_task_id s \<and> qi_item_id ` set tab' = qi_item_id ` set tab"
  using assms
proof (induction qs arbitrary: s ob tab)
  case Nil
  then show ?case by (simp add: message_payloads_def)
next
  case (Cons q qs)
  obtain s1 ob1 where o: "observe_command q (s, ob) = ((s1, ob1), None)" "conversation_ok s1"
    "se_inbox s1 = se_inbox s @ message_payloads [q]" "ob_messages ob1 = ob_messages ob @ message_payloads [q]"
    "se_session_id s1 = se_session_id s" "se_lifecycle s1 = se_lifecycle s" "se_current_task_id s1 = se_current_task_id s"
    by (rule observe_command_ok [OF Cons.prems(1)])
  let ?tab = "map (acked now (se_session_id s) (qi_item_id q)) tab"
  have "observe_commands now qs ?tab (s1, ob1) = (tab', (s', ob'), err)"
    using Cons.prems(2) by (simp add: o(1) queue_ack_map)
  from Cons.IH [OF o(2) this wf_queue_ack [OF Cons.prems(3)]] show ?case
    using message_payloads_append [of "[q]" qs]
    by (simp add: o(3-7) commands_ack image_image filter_filter conj_commute)
qed

lemma filter_not_taken:
  assumes "distinct (map f xs)"
  shows "filter (\<lambda>x. f x \<notin> f ` set (take n xs)) xs = drop n xs"
proof -
  have "distinct (map f (take n xs @ drop n xs))" using assms by simp
  then have d: "\<forall>x \<in> set (drop n xs). f x \<notin> f ` set (take n xs)"
    unfolding map_append distinct_append set_map by blast
  have "filter (\<lambda>x. f x \<notin> f ` set (take n xs)) (take n xs @ drop n xs) = drop n xs"
    unfolding filter_append using d by (simp add: filter_id_conv filter_empty_conv)
  then show ?thesis by simp
qed

lemma distinct_commands: "wf_queue tab \<Longrightarrow> distinct (map qi_item_id (commands sid tab))"
  unfolding commands_def of_queue_def wf_queue_def
  by (auto simp: distinct_map intro: inj_on_subset)

section \<open>The command queue as a channel\<close>

datatype session_op = Put_command string time string pydict | Reach_safety_point string time

text \<open>Putting an item under an id already used violates the primary key and changes nothing.\<close>

fun session_step :: "string \<Rightarrow> session_op \<Rightarrow> supervisor \<times> teammate_session \<Rightarrow> supervisor \<times> teammate_session" where
  "session_step a (Put_command i now kind payload) st =
     (if i \<in> qi_item_id ` set (sv_queue (fst st)) then st
      else ((fst st)\<lparr>sv_queue := queue_put i now (se_session_id (snd st)) ''command'' kind payload (sv_queue (fst st))\<rparr>, snd st))"
| "session_step a (Reach_safety_point i now) st =
     (if i \<in> qi_item_id ` set (sv_queue (fst st)) then st else fst (safety_point i now a st))"

fun messages_put :: "session_op \<Rightarrow> supervisor \<times> teammate_session \<Rightarrow> pydict list" where
  "messages_put (Put_command i now kind payload) st =
     (if i \<notin> qi_item_id ` set (sv_queue (fst st)) \<and> kind = command_value Cmd_MESSAGE then [payload] else [])"
| "messages_put _ st = []"

text \<open>What a safety point appends to the session's inbox.\<close>

definition messages_taken :: "string \<Rightarrow> session_op \<Rightarrow> supervisor \<times> teammate_session \<Rightarrow> pydict list" where
  "messages_taken a op st = drop (length (se_inbox (snd st))) (se_inbox (snd (session_step a op st)))"

definition waiting_messages :: "supervisor \<times> teammate_session \<Rightarrow> pydict list" where
  "waiting_messages st = message_payloads (commands (se_session_id (snd st)) (sv_queue (fst st)))"

definition session_ok :: "supervisor \<times> teammate_session \<Rightarrow> bool" where
  "session_ok st \<longleftrightarrow> wf_queue (sv_queue (fst st)) \<and> conversation_ok (snd st)"

lemma persist_session_queue: "sv_queue (fst (persist_session s sv)) = sv_queue sv"
  by (simp add: persist_session_def split: option.split)

lemma actor_persist_queue:
  "sv_queue (fst (fst (actor_persist a s sv r))) = sv_queue sv" "snd (fst (actor_persist a s sv r)) = s"
  using persist_session_queue [of s "put_session a s sv"]
  by (auto simp: actor_persist_def put_session_def split: prod.split sum.split)

lemma commands_put_event [simp]:
  "commands sid (queue_put i now sid' ''event'' k p tab) = commands sid tab"
  by (simp add: commands_def of_queue_put)

text \<open>The effect of a safety point, whether or not writing the session's row succeeds.\<close>

lemma safety_point_effect:
  assumes "session_ok st" "i \<notin> qi_item_id ` set (sv_queue (fst st))" "st' = fst (safety_point i now a st)"
  shows "session_ok st'"
    "se_inbox (snd st') = se_inbox (snd st) @
       message_payloads (take 100 (commands (se_session_id (snd st)) (sv_queue (fst st))))"
    "commands (se_session_id (snd st')) (sv_queue (fst st')) = drop 100 (commands (se_session_id (snd st)) (sv_queue (fst st)))"
    "se_lifecycle (snd st') = se_lifecycle (snd st)" "se_current_task_id (snd st') = se_current_task_id (snd st)"
    "se_session_id (snd st') = se_session_id (snd st)"
proof -
  obtain sv s where st: "st = (sv, s)" by force
  let ?qs = "queue_pending 100 (se_session_id s) ''command'' (sv_queue sv)"
  obtain tab' acc err where oc0: "observe_commands now ?qs (sv_queue sv)
      (s, \<lparr>ob_messages = [], ob_decisions = [], ob_cancelled = False\<rparr>) = (tab', acc, err)"
    by (rule prod_cases3)
  obtain s' ob' where "acc = (s', ob')" by force
  with oc0 have oc: "observe_commands now ?qs (sv_queue sv)
      (s, \<lparr>ob_messages = [], ob_decisions = [], ob_cancelled = False\<rparr>) = (tab', (s', ob'), err)" by simp
  have ok: "wf_queue (sv_queue sv)" "conversation_ok s" using assms(1) by (simp_all add: session_ok_def st)
  have qs: "?qs = take 100 (commands (se_session_id s) (sv_queue sv))" by (rule queue_pending_commands [OF ok(1)])
  note eff = observe_commands_ok [OF ok(2) oc ok(1)]
  have cmds: "commands (se_session_id s) tab' = drop 100 (commands (se_session_id s) (sv_queue sv))"
    using eff filter_not_taken [OF distinct_commands [OF ok(1)]] by (simp add: qs)
  let ?s1 = "s'\<lparr>se_last_activity_at := now\<rparr>"
  obtain sv1 s1 r where p: "actor_persist a ?s1 (sv\<lparr>sv_queue := tab'\<rparr>) ob' = ((sv1, s1), r)"
    by (metis prod.collapse)
  have sv1: "sv_queue sv1 = tab'" "s1 = ?s1"
    using actor_persist_queue [of a ?s1 "sv\<lparr>sv_queue := tab'\<rparr>" ob'] by (simp_all add: p)
  have st': "snd st' = ?s1" "sv_queue (fst st') = tab' \<or>
      sv_queue (fst st') = queue_put i now (se_session_id ?s1) ''event'' ''safety_point'' (observed_payload ob') tab'"
    using eff assms(3) by (auto simp: safety_point_def st oc p sv1 split: sum.splits)
  have i: "i \<notin> qi_item_id ` set tab'" using eff assms(2) by (simp add: st)
  have "wf_queue (sv_queue (fst st'))" "commands (se_session_id s) (sv_queue (fst st')) = commands (se_session_id s) tab'"
    using st'(2) eff wf_queue_put [OF _ i] by auto
  then show "session_ok st'" "se_inbox (snd st') = se_inbox (snd st) @
       message_payloads (take 100 (commands (se_session_id (snd st)) (sv_queue (fst st))))"
    "commands (se_session_id (snd st')) (sv_queue (fst st')) = drop 100 (commands (se_session_id (snd st)) (sv_queue (fst st)))"
    "se_lifecycle (snd st') = se_lifecycle (snd st)" "se_current_task_id (snd st') = se_current_task_id (snd st)"
    "se_session_id (snd st') = se_session_id (snd st)"
    using eff cmds by (simp_all add: session_ok_def st st'(1) qs conversation_ok_def)
qed

lemma session_step_ok: "session_ok st \<Longrightarrow> session_ok (session_step a op st)"
proof (cases op)
  case (Put_command i now kind payload)
  assume "session_ok st"
  then show ?thesis by (simp add: Put_command session_ok_def wf_queue_put)
next
  case (Reach_safety_point i now)
  assume "session_ok st"
  then show ?thesis
    using safety_point_effect(1) [OF \<open>session_ok st\<close> _ refl] by (simp add: Reach_safety_point)
qed

lemma session_step_exact:
  assumes "session_ok st"
  shows "messages_taken a op st @ waiting_messages (session_step a op st) = waiting_messages st @ messages_put op st"
proof (cases op)
  case (Put_command i now kind payload)
  then show ?thesis
    by (simp add: messages_taken_def waiting_messages_def commands_def of_queue_put message_payloads_def)
next
  case (Reach_safety_point i now)
  show ?thesis
  proof (cases "i \<in> qi_item_id ` set (sv_queue (fst st))")
    case False
    from safety_point_effect(2,3) [OF assms False refl, of now a] show ?thesis
      using False by (simp add: Reach_safety_point messages_taken_def waiting_messages_def flip: message_payloads_append)
  qed (simp add: Reach_safety_point messages_taken_def)
qed

interpretation commands: reliable_channel session_ok waiting_messages "session_step a" messages_put "messages_taken a" for a
  by unfold_locales (simp_all add: session_step_ok session_step_exact)

lemma inbox_collects:
  "session_ok st \<Longrightarrow>
   se_inbox (snd (steps (session_step a) ops st)) = se_inbox (snd st) @ collected (messages_taken a) (session_step a) ops st"
proof (induction ops arbitrary: st)
  case (Cons op ops)
  have "se_inbox (snd (session_step a op st)) = se_inbox (snd st) @ messages_taken a op st"
  proof (cases op)
    case (Reach_safety_point i now)
    show ?thesis
    proof (cases "i \<in> qi_item_id ` set (sv_queue (fst st))")
      case False
      from safety_point_effect(2) [OF Cons.prems False refl, of now a] False show ?thesis
        by (simp add: Reach_safety_point messages_taken_def)
    qed (simp add: Reach_safety_point messages_taken_def)
  qed (simp add: messages_taken_def)
  with Cons.IH [OF session_step_ok [OF Cons.prems, of a op]] show ?case by simp
qed simp

text \<open>C16: The messages put on a teammate's command queue reach the session's inbox exactly once and in order: after
  any series of puts and safety points the inbox followed by what still waits is the old inbox, what waited, and
  what was put, also when the queue holds more than the hundred items of one safety point.\<close>

theorem commands_exactly_once:
  assumes "session_ok st"
  shows "se_inbox (snd (steps (session_step a) ops st)) @ waiting_messages (steps (session_step a) ops st)
    = se_inbox (snd st) @ waiting_messages st @ collected messages_put (session_step a) ops st"
  using commands.delivered_exactly [OF assms, of a ops] by (simp add: inbox_collects [OF assms])

definition demo_identity :: agent_identity where
  "demo_identity = \<lparr>ai_run_id = ''run'', ai_agent_id = ''w1'', ai_profile_id = ''coder'', ai_session_id = ''s1'',
     ai_thread_id = ''t1'', ai_checkpoint_namespace = ''ns'', ai_workspace_root = [], ai_worktree = [], ai_mailbox_cursor = 0\<rparr>"

definition demo_actor :: "supervisor \<times> teammate_session" where
  "demo_actor = (fst (actor_for 0 demo_identity \<lparr>sv_sessions = [], sv_actors = [], sv_rows = [], sv_queue = []\<rparr>),
     new_session 0 demo_identity)"

lemma demo_actor_ok: "session_ok demo_actor"
proof -
  have "sv_queue (fst demo_actor) = []" "conversation_ok (snd demo_actor)" by code_simp+
  then show ?thesis by (simp add: session_ok_def wf_queue_def of_queue_def)
qed

definition demo_session_ops :: "session_op list" where
  "demo_session_ops = [Put_command ''q1'' 1 ''message'' [(''n'', PyInt 1)], Put_command ''q2'' 2 ''wake'' [],
     Reach_safety_point ''e1'' 3, Put_command ''q3'' 4 ''message'' [(''n'', PyInt 2)]]"

theorem commands_exactly_once_witness:
  "se_inbox (snd (steps (session_step ''w1'') demo_session_ops demo_actor)) = [[(''n'', PyInt 1)]] \<and>
   se_inbox (snd (steps (session_step ''w1'') demo_session_ops demo_actor))
     @ waiting_messages (steps (session_step ''w1'') demo_session_ops demo_actor) = [[(''n'', PyInt 1)], [(''n'', PyInt 2)]]"
proof -
  have "se_inbox (snd demo_actor) @ waiting_messages demo_actor
      @ collected messages_put (session_step ''w1'') demo_session_ops demo_actor = [[(''n'', PyInt 1)], [(''n'', PyInt 2)]]"
    by code_simp
  moreover have "se_inbox (snd (steps (session_step ''w1'') demo_session_ops demo_actor)) = [[(''n'', PyInt 1)]]"
    by code_simp
  ultimately show ?thesis
    using commands_exactly_once [OF demo_actor_ok, of "''w1''" demo_session_ops] by simp
qed

section \<open>The loop of an actor\<close>

lemma only_idle_claims: "Mate_CLAIMING \<in> set (mate_legal l) \<longleftrightarrow> l = Mate_IDLE"
  by (cases l) simp_all

lemma persist_known:
  assumes "map_of (sv_rows sv) (se_session_id s) \<noteq> None"
  obtains rows where "actor_persist a s sv r = (((put_session a s sv)\<lparr>sv_rows := rows\<rparr>, s), Inr r)"
  using assms that by (auto simp: actor_persist_def persist_session_def put_session_def split: option.splits)

text \<open>A handler that only works: it leaves the lifecycle and the session's row in place.\<close>

definition plain_handler :: "handler \<Rightarrow> bool" where
  "plain_handler handle \<longleftrightarrow>
     (\<forall>q sv s. let (sv', s') = fst (handle q (sv, s))
        in se_lifecycle s' = se_lifecycle s \<and> se_session_id s' = se_session_id s \<and> sv_rows sv' = sv_rows sv)"

lemma assignment_outcome:
  assumes "plain_handler handle" "se_lifecycle s = Mate_IDLE" "map_of (sv_rows sv) (se_session_id s) \<noteq> None"
    and "serve_assignment i now handle a q (sv, s) = ((sv', s'), r)"
  obtains sv1 s1 where "se_current_task_id s1 = map_of (qi_payload q) ''task_id''" "r = Inr ()"
    "se_current_task_id s' = None"
    "se_lifecycle s' = (if snd (handle q (sv1, s1)) \<noteq> None then Mate_FAILED
       else if se_cancellation_requested (snd (fst (handle q (sv1, s1)))) then Mate_RUNNING else Mate_IDLE)"
proof -
  let ?s0 = "s\<lparr>se_current_task_id := map_of (qi_payload q) ''task_id''\<rparr>"
  let ?s1 = "?s0\<lparr>se_lifecycle := Mate_RUNNING, se_last_activity_at := now\<rparr>"
  let ?sv0 = "sv\<lparr>sv_queue := fst (queue_ack now (se_session_id s) (qi_item_id q) (sv_queue sv))\<rparr>"
  have "map_of (sv_rows ?sv0) (se_session_id ?s1) \<noteq> None" using assms(3) by simp
  then obtain rows where "actor_persist a ?s1 ?sv0 () = (((put_session a ?s1 ?sv0)\<lparr>sv_rows := rows\<rparr>, ?s1), Inr ())"
    by (rule persist_known)
  obtain sv1 where p: "actor_persist a ?s1 ?sv0 () = ((sv1, ?s1), Inr ())" "map_of (sv_rows sv1) (se_session_id s) \<noteq> None"
  proof -
    have "map_of (sv_rows (fst (fst (actor_persist a ?s1 ?sv0 ())))) (se_session_id s) \<noteq> None"
      using assms(3) by (auto simp: actor_persist_def persist_session_def put_session_def split: option.splits)
    with \<open>actor_persist a ?s1 ?sv0 () = _\<close> that show thesis by auto
  qed
  have t: "transition_twice now a Mate_CLAIMING Mate_RUNNING (?sv0, ?s0) = ((sv1, ?s1), Inr ())"
    using p assms(2) by (simp add: transition_twice_def session_transition_def)
  obtain sv2 s2 msg where h: "handle q (sv1, ?s1) = ((sv2, s2), msg)" by (metis prod.collapse)
  have keep: "se_lifecycle s2 = Mate_RUNNING" "se_session_id s2 = se_session_id s" "sv_rows sv2 = sv_rows sv1"
    using assms(1) by (auto simp: plain_handler_def Let_def h dest!: spec [of _ q] spec [of _ sv1] spec [of _ ?s1])
  have fin: "\<exists>sv3. assignment_end a ((svx, sx), Inr ()) = ((sv3, sx\<lparr>se_current_task_id := None\<rparr>), Inr ())"
    if "se_session_id sx = se_session_id s" "sv_rows svx = sv_rows sv2" for svx sx
  proof -
    have "map_of (sv_rows svx) (se_session_id (sx\<lparr>se_current_task_id := None\<rparr>)) \<noteq> None"
      using p(2) that keep(3) by simp
    then obtain rows where "actor_persist a (sx\<lparr>se_current_task_id := None\<rparr>) svx () =
        (((put_session a (sx\<lparr>se_current_task_id := None\<rparr>) svx)\<lparr>sv_rows := rows\<rparr>, sx\<lparr>se_current_task_id := None\<rparr>), Inr ())"
      by (rule persist_known)
    then show ?thesis by (simp add: assignment_end_def)
  qed
  have idle: "session_transition now Mate_IDLE x = Inr (x\<lparr>se_lifecycle := Mate_IDLE, se_last_activity_at := now\<rparr>)"
    if "se_lifecycle x = Mate_RUNNING" for x using that by (simp add: session_transition_def)
  have res: "((sv', s'), r) = assignment_end a
      (case msg of Some m \<Rightarrow> handler_failed i now a m (sv2, s2)
       | None \<Rightarrow> if se_cancellation_requested s2 then ((sv2, s2), Inr ())
           else ((put_session a (s2\<lparr>se_lifecycle := Mate_IDLE, se_last_activity_at := now\<rparr>) sv2,
              s2\<lparr>se_lifecycle := Mate_IDLE, se_last_activity_at := now\<rparr>), Inr ()))"
    using assms(4) t h idle [OF keep(1)]
    by (auto simp: serve_assignment_def ack_command_def split: option.splits)
  show thesis
  proof (cases msg)
    case (Some m)
    have "\<exists>svx. handler_failed i now a m (sv2, s2) =
        ((svx, s2\<lparr>se_lifecycle := Mate_FAILED, se_last_activity_at := now\<rparr>), Inr ()) \<and> sv_rows svx = sv_rows sv2"
      using keep(1) by (simp add: handler_failed_def Let_def session_transition_def put_session_def)
    then obtain svx where f: "handler_failed i now a m (sv2, s2) =
        ((svx, s2\<lparr>se_lifecycle := Mate_FAILED, se_last_activity_at := now\<rparr>), Inr ())" "sv_rows svx = sv_rows sv2" by blast
    from fin [OF _ f(2), of "s2\<lparr>se_lifecycle := Mate_FAILED, se_last_activity_at := now\<rparr>"] keep(2) res Some f(1)
    show thesis by (intro that [of ?s1 sv1]) (auto simp: h)
  next
    case None
    from fin [of "s2" sv2] fin [of "s2\<lparr>se_lifecycle := Mate_IDLE, se_last_activity_at := now\<rparr>"
        "put_session a (s2\<lparr>se_lifecycle := Mate_IDLE, se_last_activity_at := now\<rparr>) sv2"] keep res None
    show thesis by (intro that [of ?s1 sv1]) (auto simp: h put_session_def split: if_splits)
  qed
qed

lemma actor_serves_only_while_idle_parts:
  assumes "map_of (sv_actors sv) a \<noteq> Some True" "se_lifecycle s \<noteq> Mate_STOPPED"
    and "session_ok (sv, s)" "commands (se_session_id s) (sv_queue sv) = q # qs" "i \<notin> qi_item_id ` set (sv_queue sv)"
    and "actor_pass i now env handle a (sv, s) = ((sv', s'), r)"
  shows "qi_kind q = command_value Cmd_ASSIGN_TASK \<Longrightarrow> se_lifecycle s \<notin> {Mate_IDLE, Mate_CLAIMING} \<Longrightarrow>
      r = Inl IllegalTeammateTransition \<and> commands (se_session_id s) (sv_queue sv') = qs"
    and "qi_kind q = command_value Cmd_ASSIGN_TASK \<Longrightarrow> se_lifecycle s = Mate_IDLE \<Longrightarrow> plain_handler handle \<Longrightarrow>
      map_of (sv_rows sv) (se_session_id s) \<noteq> None \<Longrightarrow>
      r = Inr True \<and> se_current_task_id s' = None \<and>
      (\<exists>st1. se_lifecycle s' = (if snd (handle q st1) \<noteq> None then Mate_FAILED
         else if se_cancellation_requested (snd (fst (handle q st1))) then Mate_RUNNING else Mate_IDLE))"
    and "qi_kind q \<notin> {command_value Cmd_ASSIGN_TASK, command_value Cmd_STOP} \<Longrightarrow>
      commands (se_session_id s) (sv_queue sv') = drop 99 qs \<and> se_lifecycle s' = se_lifecycle s \<and>
      se_current_task_id s' = se_current_task_id s"
proof -
  have ok: "wf_queue (sv_queue sv)" using assms(3) by (simp add: session_ok_def)
  have w: "wait_command env (se_session_id s) sv = (sv, Some q)"
    using assms(4) queue_pending_commands [OF ok, of 1 "se_session_id s"] by (simp add: wait_command_def)
  have ack: "commands (se_session_id s) (fst (queue_ack now (se_session_id s) (qi_item_id q) (sv_queue sv))) = qs"
  proof -
    have "qi_item_id q \<notin> qi_item_id ` set qs"
      using distinct_commands [OF ok, of "se_session_id s"] by (simp add: assms(4))
    then have "\<forall>x \<in> set qs. qi_item_id x \<noteq> qi_item_id q" by (metis imageI)
    then show ?thesis by (simp add: queue_ack_map commands_ack assms(4) filter_id_conv)
  qed
  show "r = Inl IllegalTeammateTransition \<and> commands (se_session_id s) (sv_queue sv') = qs"
    if "qi_kind q = command_value Cmd_ASSIGN_TASK" "se_lifecycle s \<notin> {Mate_IDLE, Mate_CLAIMING}"
    using assms(1,2,6) that w ack only_idle_claims [of "se_lifecycle s"]
    by (auto simp: actor_pass_def serve_assignment_def ack_command_def transition_twice_def session_transition_def put_session_def)
  show "r = Inr True \<and> se_current_task_id s' = None \<and>
      (\<exists>st1. se_lifecycle s' = (if snd (handle q st1) \<noteq> None then Mate_FAILED
         else if se_cancellation_requested (snd (fst (handle q st1))) then Mate_RUNNING else Mate_IDLE))"
    if q: "qi_kind q = command_value Cmd_ASSIGN_TASK" and l: "se_lifecycle s = Mate_IDLE" and h: "plain_handler handle"
      and row: "map_of (sv_rows sv) (se_session_id s) \<noteq> None"
  proof -
    obtain sv2 s2 r2 where serve: "serve_assignment i now handle a q (sv, s) = ((sv2, s2), r2)" by (metis prod.collapse)
    obtain sv1 s1 where out: "r2 = Inr ()" "se_current_task_id s2 = None"
      "se_lifecycle s2 = (if snd (handle q (sv1, s1)) \<noteq> None then Mate_FAILED
         else if se_cancellation_requested (snd (fst (handle q (sv1, s1)))) then Mate_RUNNING else Mate_IDLE)"
      by (rule assignment_outcome [OF h l row serve])
    have "actor_pass i now env handle a (sv, s) = ((sv2, s2), Inr True)"
      using assms(1,2) q w serve out(1) by (simp add: actor_pass_def)
    with assms(6) have "s' = s2" "r = Inr True" by simp_all
    with out(2,3) show ?thesis by blast
  qed
  show "commands (se_session_id s) (sv_queue sv') = drop 99 qs \<and> se_lifecycle s' = se_lifecycle s \<and>
      se_current_task_id s' = se_current_task_id s"
    if "qi_kind q \<notin> {command_value Cmd_ASSIGN_TASK, command_value Cmd_STOP}"
  proof -
    have st: "fst (safety_point i now a (sv, s)) = (sv', s')"
      using assms(1,2,6) that w by (auto simp: actor_pass_def split: prod.splits sum.splits)
    show ?thesis using safety_point_effect(3-6) [OF assms(3) _ st [symmetric]] assms(4,5) by simp
  qed
qed

text \<open>The loop of an actor serves a TASK assignment exactly in the state IDLE (or a left-over CLAIMING). A
  successful handler brings it back there; after a handler that raised it is FAILED, after one that saw a
  cancellation it stays RUNNING, and then the next assignment is acknowledged and raises. A command of another
  kind in front makes the safety point acknowledge what queues behind it: an assignment there is never
  served, and a stop there does not stop the actor.\<close>

theorem actor_serves_only_while_idle:
  assumes "map_of (sv_actors sv) a \<noteq> Some True" "se_lifecycle s \<noteq> Mate_STOPPED"
    and "session_ok (sv, s)" "commands (se_session_id s) (sv_queue sv) = q # qs" "i \<notin> qi_item_id ` set (sv_queue sv)"
    and "actor_pass i now env handle a (sv, s) = ((sv', s'), r)"
  shows "(qi_kind q = command_value Cmd_ASSIGN_TASK \<longrightarrow> se_lifecycle s \<notin> {Mate_IDLE, Mate_CLAIMING} \<longrightarrow>
      r = Inl IllegalTeammateTransition \<and> commands (se_session_id s) (sv_queue sv') = qs) \<and>
    (qi_kind q = command_value Cmd_ASSIGN_TASK \<longrightarrow> se_lifecycle s = Mate_IDLE \<longrightarrow> plain_handler handle \<longrightarrow>
      map_of (sv_rows sv) (se_session_id s) \<noteq> None \<longrightarrow>
      r = Inr True \<and> se_current_task_id s' = None \<and>
      (\<exists>st1. se_lifecycle s' = (if snd (handle q st1) \<noteq> None then Mate_FAILED
         else if se_cancellation_requested (snd (fst (handle q st1))) then Mate_RUNNING else Mate_IDLE))) \<and>
    (qi_kind q \<notin> {command_value Cmd_ASSIGN_TASK, command_value Cmd_STOP} \<longrightarrow>
      commands (se_session_id s) (sv_queue sv') = drop 99 qs \<and> se_lifecycle s' = se_lifecycle s \<and>
      se_current_task_id s' = se_current_task_id s)"
  using actor_serves_only_while_idle_parts [OF assms] by blast

text \<open>The witness: an assignment behind a message is gone after one pass, and nobody served it.\<close>

definition busy_handler :: handler where
  "busy_handler q st = (st, None)"

definition two_commands :: "supervisor \<times> teammate_session" where
  "two_commands = steps (session_step ''w1'') [Put_command ''q1'' 1 ''message'' [], Put_command ''q2'' 2 ''assign_task'' [(''task_id'', PyStr ''T1'')]] demo_actor"

theorem actor_serves_only_while_idle_witness:
  "commands ''s1'' (sv_queue (fst two_commands)) \<noteq> [] \<and>
   commands ''s1'' (sv_queue (fst (fst (actor_pass ''e1'' 3 id busy_handler ''w1'' two_commands)))) = []"
proof -
  obtain sv s where st: "two_commands = (sv, s)" by force
  obtain sv' s' r where p: "actor_pass ''e1'' 3 id busy_handler ''w1'' (sv, s) = ((sv', s'), r)" by (metis prod.collapse)
  have ok: "session_ok (sv, s)"
    unfolding st [symmetric] two_commands_def by (rule commands.lossy.steps_ok [OF demo_actor_ok])
  have c: "map_of (sv_actors (fst two_commands)) ''w1'' \<noteq> Some True" "se_lifecycle (snd two_commands) \<noteq> Mate_STOPPED"
    "se_session_id (snd two_commands) = ''s1''" "''e1'' \<notin> qi_item_id ` set (sv_queue (fst two_commands))"
    "map qi_kind (commands ''s1'' (sv_queue (fst two_commands))) = [''message'', ''assign_task'']"
    by code_simp+
  then obtain q1 q2 where q: "commands ''s1'' (sv_queue sv) = [q1, q2]" "qi_kind q1 = ''message''"
    by (auto simp: st map_eq_Cons_conv)
  have "commands (se_session_id s) (sv_queue sv') = drop 99 [q2]"
    using actor_serves_only_while_idle [OF _ _ ok _ _ p, of q1 "[q2]"] c q by (simp add: st)
  then show ?thesis using c(3) q(1) by (simp add: st p)
qed

end
