(* ===== verification/Lifecycle_Hooks.thy ===== *)
theory Lifecycle_Hooks
  imports Py_Prelude
begin

text \<open>
  \<open>app/multiagent/lifecycle_hooks.py\<close>: the hooks that observe and gate the lifecycle of runs, tasks and teammates.
  A handler is a function of the context whose value is its result or the text of its exception, a timeout being
  one; the audit records of an emission are returned with its combined result.
\<close>

section \<open>Hooks\<close>

datatype lifecycle_event =
    Ev_RUN_CREATED | Ev_RUN_STARTED | Ev_TASK_CREATED | Ev_TASK_CLAIMED | Ev_TASK_STARTED | Ev_BEFORE_TOOL_USE
  | Ev_AFTER_TOOL_USE | Ev_PERMISSION_REQUESTED | Ev_TASK_PRODUCED | Ev_TASK_COMPLETED | Ev_TASK_FAILED
  | Ev_TEAMMATE_SPAWNED | Ev_TEAMMATE_IDLE | Ev_TEAMMATE_STOPPED | Ev_AGENT_MESSAGE | Ev_VERIFICATION_STARTED
  | Ev_VERIFICATION_COMPLETED | Ev_RUN_COMPLETED | Ev_RUN_FAILED

fun event_value :: "lifecycle_event \<Rightarrow> string" where
  "event_value Ev_RUN_CREATED = ''RunCreated''"
| "event_value Ev_RUN_STARTED = ''RunStarted''"
| "event_value Ev_TASK_CREATED = ''TaskCreated''"
| "event_value Ev_TASK_CLAIMED = ''TaskClaimed''"
| "event_value Ev_TASK_STARTED = ''TaskStarted''"
| "event_value Ev_BEFORE_TOOL_USE = ''BeforeToolUse''"
| "event_value Ev_AFTER_TOOL_USE = ''AfterToolUse''"
| "event_value Ev_PERMISSION_REQUESTED = ''PermissionRequested''"
| "event_value Ev_TASK_PRODUCED = ''TaskProduced''"
| "event_value Ev_TASK_COMPLETED = ''TaskCompleted''"
| "event_value Ev_TASK_FAILED = ''TaskFailed''"
| "event_value Ev_TEAMMATE_SPAWNED = ''TeammateSpawned''"
| "event_value Ev_TEAMMATE_IDLE = ''TeammateIdle''"
| "event_value Ev_TEAMMATE_STOPPED = ''TeammateStopped''"
| "event_value Ev_AGENT_MESSAGE = ''AgentMessage''"
| "event_value Ev_VERIFICATION_STARTED = ''VerificationStarted''"
| "event_value Ev_VERIFICATION_COMPLETED = ''VerificationCompleted''"
| "event_value Ev_RUN_COMPLETED = ''RunCompleted''"
| "event_value Ev_RUN_FAILED = ''RunFailed''"

record hook_result =
  hr_allow :: bool
  hr_block :: bool
  hr_feedback :: string
  hr_mutate_metadata :: pydict
  hr_request_human :: bool
  hr_request_replan :: bool

definition default_result :: hook_result where
  "default_result = \<lparr>hr_allow = True, hr_block = False, hr_feedback = [], hr_mutate_metadata = [],
     hr_request_human = False, hr_request_replan = False\<rparr>"

type_synonym hook_handler = "pydict \<Rightarrow> string + hook_result"

record hook =
  hk_id :: string
  hk_event :: lifecycle_event
  hk_handler :: hook_handler
  hk_scope :: string
  hk_priority :: int
  hk_timeout_seconds :: seconds
  hk_failure_policy :: string

type_synonym hook_engine = "hook list"

datatype hook_error = BadHookScope | BadFailurePolicy

definition register :: "string \<Rightarrow> lifecycle_event \<Rightarrow> hook_handler \<Rightarrow> string \<Rightarrow> int \<Rightarrow> seconds \<Rightarrow> string \<Rightarrow> hook_engine
    \<Rightarrow> hook_error + hook_engine" where
  "register i ev handler scope priority timeout policy eng =
     (if scope \<notin> {''system'', ''user'', ''project''} then Inl BadHookScope
      else if policy \<notin> {''block'', ''allow''} then Inl BadFailurePolicy
      else Inr (eng @ [\<lparr>hk_id = i, hk_event = ev, hk_handler = handler, hk_scope = scope, hk_priority = priority,
        hk_timeout_seconds = timeout, hk_failure_policy = policy\<rparr>]))"

text \<open>
  The handler of a command hook; \<open>run_argv\<close> is \<open>ShellCommandRunner().run\<close> with the argument list and directory:
  the exception text, or the return code with the standard error and output.
\<close>

definition command_handler :: "(string + int \<times> string \<times> string) \<Rightarrow> hook_handler" where
  "command_handler run_argv context =
     (case run_argv of
        Inl e \<Rightarrow> Inl e
      | Inr (code, err, out) \<Rightarrow>
          Inr (default_result\<lparr>hr_allow := (code = 0), hr_block := (code \<noteq> 0), hr_feedback := (if err \<noteq> [] then err else out)\<rparr>))"

definition register_command_hook :: "string \<Rightarrow> lifecycle_event \<Rightarrow> (string + int \<times> string \<times> string) \<Rightarrow> string \<Rightarrow> seconds
    \<Rightarrow> hook_engine \<Rightarrow> hook_error + hook_engine" where
  "register_command_hook i ev run_argv scope timeout eng =
     register i ev (command_handler run_argv) scope 0 (timeout + 1) ''block'' eng"

section \<open>Emission\<close>

definition scope_order :: "string \<Rightarrow> nat" where
  "scope_order s = (if s = ''system'' then 0 else if s = ''user'' then 1 else 2)"

definition hook_key :: "hook \<Rightarrow> nat \<times> int \<times> string" where
  "hook_key h = (scope_order (hk_scope h), - hk_priority h, hk_id h)"

definition hooks_for :: "lifecycle_event \<Rightarrow> hook_engine \<Rightarrow> hook list" where
  "hooks_for ev eng = sort_key hook_key (filter (\<lambda>h. hk_event h = ev) eng)"

definition failure_feedback :: "hook \<Rightarrow> string \<Rightarrow> string" where
  "failure_feedback h e = ''hook '' @ hk_id h @ '' failed: '' @ e"

definition hook_outcome :: "pydict \<Rightarrow> hook \<Rightarrow> hook_result" where
  "hook_outcome context h =
     (case hk_handler h context of
        Inr r \<Rightarrow> r
      | Inl e \<Rightarrow> default_result\<lparr>hr_allow := (hk_failure_policy h = ''allow''),
          hr_block := (hk_failure_policy h = ''block''), hr_feedback := failure_feedback h e\<rparr>)"

definition join_feedback :: "string \<Rightarrow> string \<Rightarrow> string" where
  "join_feedback a b = (if a = [] then b else if b = [] then a else a @ [CHR 0x0A] @ b)"

definition combine :: "hook_result \<Rightarrow> hook_result \<Rightarrow> hook_result" where
  "combine c r =
     \<lparr>hr_allow = (hr_allow c \<and> hr_allow r \<and> \<not> hr_block r), hr_block = (hr_block c \<or> hr_block r),
      hr_feedback = join_feedback (hr_feedback c) (hr_feedback r),
      hr_mutate_metadata = fold (\<lambda>(k, v) d. AList.update k v d) (hr_mutate_metadata r) (hr_mutate_metadata c),
      hr_request_human = (hr_request_human c \<or> hr_request_human r),
      hr_request_replan = (hr_request_replan c \<or> hr_request_replan r)\<rparr>"

fun run_hooks :: "pydict \<Rightarrow> hook list \<Rightarrow> hook_result \<Rightarrow> hook_result \<times> (hook \<times> hook_result) list" where
  "run_hooks context [] c = (c, [])"
| "run_hooks context (h # hs) c =
     (let r = hook_outcome context h; c' = combine c r
      in if hr_block c' then (c', [(h, r)])
         else case run_hooks context hs c' of (c'', audited) \<Rightarrow> (c'', (h, r) # audited))"

record audit_entry =
  ae_run_id :: pyval
  ae_event_type :: string
  ae_agent_id :: "pyval option"
  ae_task_id :: "pyval option"
  ae_payload :: pydict

definition result_dump :: "hook_result \<Rightarrow> pyval" where
  "result_dump r = PyDict [(''allow'', PyBool (hr_allow r)), (''block'', PyBool (hr_block r)),
     (''feedback'', PyStr (hr_feedback r)), (''mutate_metadata'', PyDict (hr_mutate_metadata r)),
     (''request_human'', PyBool (hr_request_human r)), (''request_replan'', PyBool (hr_request_replan r))]"

definition record_lifecycle :: "lifecycle_event \<Rightarrow> pydict \<Rightarrow> audit_entry list" where
  "record_lifecycle ev context =
     (if \<not> dict_truthy context ''run_id'' then []
      else [\<lparr>ae_run_id = the (map_of context ''run_id''), ae_event_type = event_value ev,
        ae_agent_id = map_of context ''agent_id'', ae_task_id = map_of context ''task_id'',
        ae_payload = filter (\<lambda>(k, v). k \<notin> {''run_id'', ''agent_id'', ''task_id''}) context\<rparr>])"

definition audit_hook :: "lifecycle_event \<Rightarrow> pydict \<Rightarrow> hook \<times> hook_result \<Rightarrow> audit_entry list" where
  "audit_hook ev context hr =
     (if \<not> dict_truthy context ''run_id'' then []
      else [\<lparr>ae_run_id = the (map_of context ''run_id''), ae_event_type = ''LifecycleHook'',
        ae_agent_id = map_of context ''agent_id'', ae_task_id = map_of context ''task_id'',
        ae_payload = [(''hook_id'', PyStr (hk_id (fst hr))), (''lifecycle_event'', PyStr (event_value ev)),
          (''scope'', PyStr (hk_scope (fst hr))), (''result'', result_dump (snd hr))]\<rparr>])"

definition emit_async :: "lifecycle_event \<Rightarrow> pydict \<Rightarrow> hook_engine \<Rightarrow> hook_result \<times> audit_entry list" where
  "emit_async ev context eng =
     (case run_hooks context (hooks_for ev eng) default_result of
        (c, execd) \<Rightarrow> (c, record_lifecycle ev context @ concat (map (audit_hook ev context) execd)))"

text \<open>What the scheduler tests on a result.\<close>

definition vetoed :: "hook_result \<Rightarrow> bool" where
  "vetoed r \<longleftrightarrow> hr_block r \<or> \<not> hr_allow r"

section \<open>The gate\<close>

text \<open>The hooks that run: in order, up to and including the first that blocks.\<close>

fun until_block :: "pydict \<Rightarrow> hook list \<Rightarrow> hook list" where
  "until_block context [] = []"
| "until_block context (h # hs) = (if hr_block (hook_outcome context h) then [h] else h # until_block context hs)"

lemma run_hooks_spec:
  "run_hooks context hs c = (c', execd) \<Longrightarrow> \<not> hr_block c \<Longrightarrow>
    execd = map (\<lambda>h. (h, hook_outcome context h)) (until_block context hs) \<and>
    (hr_block c' \<longleftrightarrow> list_ex (\<lambda>h. hr_block (hook_outcome context h)) hs) \<and>
    (hr_allow c' \<longleftrightarrow> hr_allow c \<and>
       list_all (\<lambda>h. hr_allow (hook_outcome context h) \<and> \<not> hr_block (hook_outcome context h)) (until_block context hs)) \<and>
    (hr_request_replan c' \<longleftrightarrow> hr_request_replan c \<or>
       list_ex (\<lambda>h. hr_request_replan (hook_outcome context h)) (until_block context hs))"
proof (induction hs arbitrary: c c' execd)
  case (Cons h hs)
  obtain c2 e2 where r: "run_hooks context hs (combine c (hook_outcome context h)) = (c2, e2)" by force
  show ?case
  proof (cases "hr_block (hook_outcome context h)")
    case True
    with Cons.prems show ?thesis by (auto simp: Let_def combine_def)
  next
    case False
    with Cons.prems have "\<not> hr_block (combine c (hook_outcome context h))" by (simp add: combine_def)
    from Cons.IH [OF r this] False Cons.prems this r show ?thesis
      by (auto simp: Let_def) (auto simp: combine_def)
  qed
qed simp

lemma filter_the_one:
  assumes "distinct (map f xs)" "h \<in> set xs" "P h" "\<And>x. P x \<Longrightarrow> f x = f h"
  shows "filter P xs = [h]"
  using assms(1,2)
proof (induction xs)
  case (Cons a xs)
  show ?case
  proof (cases "a = h")
    case True
    then have "f h \<notin> f ` set xs" using Cons.prems(1) by simp
    then have "\<forall>x \<in> set xs. \<not> P x" using assms(4) by (metis imageI)
    with True assms(3) show ?thesis by (simp add: filter_empty_conv)
  next
    case False
    with Cons.prems have "h \<in> set xs" "f a \<noteq> f h" by auto
    with Cons assms(4) [of a] show ?thesis by auto
  qed
qed simp

text \<open>Two engines with the same hooks under distinct ids run them in the same order.\<close>

lemma hooks_for_order:
  assumes "mset eng = mset eng'" "distinct (map hk_id eng)"
  shows "hooks_for ev eng = hooks_for ev eng'"
  unfolding hooks_for_def
proof (rule properties_for_sort_key [symmetric])
  show "mset (sort_key hook_key (filter (\<lambda>h. hk_event h = ev) eng)) = mset (filter (\<lambda>h. hk_event h = ev) eng')"
    using assms(1) by (simp add: mset_filter)
  show "sorted (map hook_key (sort_key hook_key (filter (\<lambda>h. hk_event h = ev) eng)))" by simp
  fix h
  assume "h \<in> set (sort_key hook_key (filter (\<lambda>h. hk_event h = ev) eng))"
  have d: "distinct (map hk_id eng)" "distinct (map hk_id eng')" "set eng = set eng'"
    using assms mset_eq_imp_distinct_iff [of "map hk_id eng" "map hk_id eng'"] mset_eq_setD by auto
  let ?P = "\<lambda>x. hk_event x = ev \<and> hook_key h = hook_key x"
  have h: "h \<in> set eng" "h \<in> set eng'" "hk_event h = ev"
    using \<open>h \<in> _\<close> d(3) by simp_all
  have key: "?P x \<Longrightarrow> hk_id x = hk_id h" for x by (simp add: hook_key_def)
  have "?P h" using h(3) by simp
  have "filter ?P eng = [h]" by (rule filter_the_one [where P = ?P, OF d(1) h(1) \<open>?P h\<close>]) (rule key)
  moreover have "filter ?P eng' = [h]" by (rule filter_the_one [where P = ?P, OF d(2) h(2) \<open>?P h\<close>]) (rule key)
  moreover have "filter (\<lambda>x. hook_key h = hook_key x) (sort_key hook_key (filter (\<lambda>h. hk_event h = ev) eng))
      = sort_key hook_key (filter ?P eng)"
    by (simp only: filter_sort filter_filter)
  moreover have "filter (\<lambda>x. hook_key h = hook_key x) (filter (\<lambda>h. hk_event h = ev) eng') = filter ?P eng'"
    by (simp only: filter_filter)
  ultimately show "filter (\<lambda>x. hook_key h = hook_key x) (sort_key hook_key (filter (\<lambda>h. hk_event h = ev) eng))
      = filter (\<lambda>x. hook_key h = hook_key x) (filter (\<lambda>h. hk_event h = ev) eng')"
    by simp
qed

lemma hook_gate_parts:
  shows "vetoed (fst (emit_async ev context eng)) \<longleftrightarrow>
      list_ex (\<lambda>h. hr_block (hook_outcome context h) \<or> \<not> hr_allow (hook_outcome context h)) (until_block context (hooks_for ev eng))"
    and "hr_block (fst (emit_async ev context eng)) \<longleftrightarrow> list_ex (\<lambda>h. hr_block (hook_outcome context h)) (hooks_for ev eng)"
    and "hk_handler h context = Inl e \<Longrightarrow> hr_block (hook_outcome context h) \<longleftrightarrow> hk_failure_policy h = ''block''"
    and "mset eng = mset eng' \<Longrightarrow> distinct (map hk_id eng) \<Longrightarrow> emit_async ev context eng = emit_async ev context eng'"
proof -
  obtain c execd where r: "run_hooks context (hooks_for ev eng) default_result = (c, execd)" by force
  have nb: "\<not> hr_block default_result" "hr_allow default_result" by (simp_all add: default_result_def)
  note spec = run_hooks_spec [OF r nb(1)]
  have later: "list_ex (\<lambda>h. hr_block (hook_outcome context h)) hs \<longleftrightarrow> list_ex (\<lambda>h. hr_block (hook_outcome context h)) (until_block context hs)" for hs
    by (induction hs) auto
  show "vetoed (fst (emit_async ev context eng)) \<longleftrightarrow>
      list_ex (\<lambda>h. hr_block (hook_outcome context h) \<or> \<not> hr_allow (hook_outcome context h)) (until_block context (hooks_for ev eng))"
    using spec later [of "hooks_for ev eng"] nb(2)
    by (auto simp: vetoed_def emit_async_def r list_ex_iff list_all_iff)
  show "hr_block (fst (emit_async ev context eng)) \<longleftrightarrow> list_ex (\<lambda>h. hr_block (hook_outcome context h)) (hooks_for ev eng)"
    using spec by (simp add: emit_async_def r)
  show "hr_block (hook_outcome context h) \<longleftrightarrow> hk_failure_policy h = ''block''" if "hk_handler h context = Inl e"
    using that by (simp add: hook_outcome_def)
  show "emit_async ev context eng = emit_async ev context eng'" if "mset eng = mset eng'" "distinct (map hk_id eng)"
    using hooks_for_order [OF that] by (simp add: emit_async_def)
qed

text \<open>An emission is vetoed exactly when one of the hooks that ran blocked or did not allow, the hooks that run
  being those of the event in the order of scope, priority and id up to the first that blocks; a hook that raises
  blocks exactly under the policy block. The order of registration does not matter.\<close>

theorem hook_gate:
  "(vetoed (fst (emit_async ev context eng)) \<longleftrightarrow>
      list_ex (\<lambda>h. hr_block (hook_outcome context h) \<or> \<not> hr_allow (hook_outcome context h)) (until_block context (hooks_for ev eng))) \<and>
    (hr_block (fst (emit_async ev context eng)) \<longleftrightarrow> list_ex (\<lambda>h. hr_block (hook_outcome context h)) (hooks_for ev eng)) \<and>
    (hk_handler h context = Inl e \<longrightarrow> (hr_block (hook_outcome context h) \<longleftrightarrow> hk_failure_policy h = ''block'')) \<and>
    (mset eng = mset eng' \<longrightarrow> distinct (map hk_id eng) \<longrightarrow> emit_async ev context eng = emit_async ev context eng')"
  by (intro conjI impI hook_gate_parts)

text \<open>The witness: a hook of the project that allows and a later registered one of the system that raises.\<close>

definition demo_hook :: "string \<Rightarrow> string \<Rightarrow> (string + hook_result) \<Rightarrow> hook" where
  "demo_hook i scope outcome = \<lparr>hk_id = i, hk_event = Ev_TASK_CLAIMED, hk_handler = (\<lambda>_. outcome), hk_scope = scope,
     hk_priority = 0, hk_timeout_seconds = 5, hk_failure_policy = ''block''\<rparr>"

theorem hook_gate_witness:
  "vetoed (fst (emit_async Ev_TASK_CLAIMED [] [demo_hook ''a'' ''project'' (Inr default_result), demo_hook ''b'' ''system'' (Inl ''timeout'')])) \<and>
   emit_async Ev_TASK_CLAIMED [] [demo_hook ''a'' ''project'' (Inr default_result), demo_hook ''b'' ''system'' (Inl ''timeout'')]
     = emit_async Ev_TASK_CLAIMED [] [demo_hook ''b'' ''system'' (Inl ''timeout''), demo_hook ''a'' ''project'' (Inr default_result)] \<and>
   hr_block (hook_outcome [] (demo_hook ''b'' ''system'' (Inl ''timeout'')))"
proof -
  let ?a = "demo_hook ''a'' ''project'' (Inr default_result)" and ?b = "demo_hook ''b'' ''system'' (Inl ''timeout'')"
  have v: "list_ex (\<lambda>h. hr_block (hook_outcome [] h) \<or> \<not> hr_allow (hook_outcome [] h))
      (until_block [] (hooks_for Ev_TASK_CLAIMED [?a, ?b]))"
    by (simp add: hooks_for_def demo_hook_def hook_key_def scope_order_def hook_outcome_def default_result_def)
  have m: "mset [?a, ?b] = mset [?b, ?a]" "distinct (map hk_id [?a, ?b])"
    by (simp_all add: demo_hook_def add_mset_commute)
  have e: "hk_handler ?b [] = Inl ''timeout''" "hk_failure_policy ?b = ''block''" by (simp_all add: demo_hook_def)
  show ?thesis
    using v hook_gate [of Ev_TASK_CLAIMED "[]" "[?a, ?b]" ?b "''timeout''" "[?b, ?a]"] e m by blast
qed

end
