(* ===== verification/Artifact_Store.thy ===== *)
theory Artifact_Store
  imports Py_Prelude
begin

text \<open>
  \<open>app/multiagent/artifact.py\<close>: the evidence store of a run, its in-process registry, the files below its root and
  the table \<open>artifacts\<close> (\<open>app/infrastructure/database/run_store.py\<close>). A resolved path is its list of components;
  how the file system resolves a relative path below the root is the argument \<open>rs\<close>, the SHA-256 function the
  argument \<open>sha\<close>. Text content is its encoded bytes. Whether a write to disk or to the table goes through, generated
  ids and clock readings are arguments.
\<close>

section \<open>Data\<close>

datatype artifact_type =
    Art_CODE | Art_TEST | Art_PATCH | Art_DOCUMENT | Art_REPORT | Art_DATA | Art_PLAN | Art_CONFIG | Art_REVIEW
  | Art_REPAIR_PATCH | Art_ANY

datatype artifact_status = Art_DRAFT | Art_PUBLISHED | Art_VERIFIED | Art_REJECTED | Art_SUPERSEDED

record artifact =
  at_id :: string
  at_run_id :: string
  at_task_id :: string
  at_type :: artifact_type
  at_path :: string
  at_content_hash :: string
  at_size_bytes :: nat
  at_version :: int
  at_produced_by :: string
  at_commit_sha :: "pyval option"
  at_status :: artifact_status
  at_created_at :: time
  at_metadata :: pydict
  at_predecessor_id :: "string option"
  at_parent_artifact_id :: "string option"

record artifact_row =
  aw_run_id :: string
  aw_task_id :: string
  aw_type :: artifact_type
  aw_relative_path :: string
  aw_content_hash :: string
  aw_size_bytes :: nat
  aw_version :: int
  aw_produced_by :: string
  aw_status :: artifact_status
  aw_predecessor_id :: "string option"
  aw_parent_artifact_id :: "string option"
  aw_created_at :: time
  aw_metadata :: pydict

type_synonym path = "string list"

record artifact_store =
  as_root :: "path option"  \<comment> \<open>the resolved root; without one nothing is written\<close>
  as_registry :: "(string \<times> artifact) list"
  as_by_task :: "(string \<times> string list) list"
  as_by_run :: "(string \<times> string list) list"
  as_files :: "(path \<times> string) list"
  as_rows :: "(string \<times> artifact_row) list"

datatype artifact_error = PathEscapes | DiskError | ArtifactDbError | ParentNotPersisted | StatusRowMissing

type_synonym 'a artifact_result = "artifact_store \<times> (artifact_error + 'a)"

definition compute_content_hash :: "(string \<Rightarrow> string) \<Rightarrow> string \<Rightarrow> string" where
  "compute_content_hash sha content = ''sha256:'' @ sha content"

section \<open>Paths and files\<close>

text \<open>\<open>Path(p).parts\<close> below a possible root: the components that are neither empty nor a dot.\<close>

fun split_parts :: "string \<Rightarrow> string \<Rightarrow> string list" where
  "split_parts acc [] = [acc]"
| "split_parts acc (c # cs) = (if c = CHR ''/'' then acc # split_parts [] cs else split_parts (acc @ [c]) cs)"

definition path_parts :: "string \<Rightarrow> path" where
  "path_parts p = filter (\<lambda>s. s \<noteq> [] \<and> s \<noteq> ''.'') (split_parts [] p)"

definition safe_path :: "(string \<Rightarrow> path) \<Rightarrow> artifact_store \<Rightarrow> string \<Rightarrow> artifact_error + path" where
  "safe_path rs st rel =
     (case as_root st of
        None \<Rightarrow> if starts_with ''/'' rel \<or> ''..'' \<in> set (path_parts rel) then Inl PathEscapes else Inr (path_parts rel)
      | Some base \<Rightarrow> if take (length base) (rs rel) \<noteq> base then Inl PathEscapes else Inr (rs rel))"

text \<open>The temporary file and \<open>os.replace\<close>: the target changes only when everything went through.\<close>

definition write_to_disk :: "bool \<Rightarrow> (string \<Rightarrow> path) \<Rightarrow> string \<Rightarrow> string \<Rightarrow> artifact_store \<Rightarrow> unit artifact_result" where
  "write_to_disk wd rs rel content st =
     (if as_root st = None then (st, Inr ())
      else case safe_path rs st rel of
             Inl e \<Rightarrow> (st, Inl e)
           | Inr p \<Rightarrow> if wd then (st\<lparr>as_files := AList.update p content (as_files st)\<rparr>, Inr ()) else (st, Inl DiskError))"

definition read_bytes :: "(string \<Rightarrow> path) \<Rightarrow> artifact_store \<Rightarrow> string \<Rightarrow> artifact_error + string option" where
  "read_bytes rs st i =
     (case map_of (as_registry st) i of
        None \<Rightarrow> Inr None
      | Some a \<Rightarrow>
          if as_root st = None then Inr None
          else case safe_path rs st (at_path a) of
                 Inl e \<Rightarrow> Inl e
               | Inr p \<Rightarrow> Inr (map_of (as_files st) p))"

definition verify_integrity :: "(string \<Rightarrow> string) \<Rightarrow> (string \<Rightarrow> path) \<Rightarrow> artifact_store \<Rightarrow> string \<Rightarrow> artifact_error + bool" where
  "verify_integrity sha rs st i =
     (case map_of (as_registry st) i of
        None \<Rightarrow> Inr False
      | Some a \<Rightarrow>
          (case read_bytes rs st i of
             Inl e \<Rightarrow> Inl e
           | Inr None \<Rightarrow> Inr False
           | Inr (Some content) \<Rightarrow> Inr (compute_content_hash sha content = at_content_hash a)))"

section \<open>Creation\<close>

text \<open>\<open>insert_artifact\<close>: one transaction with the superseding of the parent's row.\<close>

definition insert_artifact :: "bool \<Rightarrow> string \<Rightarrow> artifact_row \<Rightarrow> string option \<Rightarrow> artifact_store \<Rightarrow> unit artifact_result" where
  "insert_artifact wr i row parent st =
     (if \<not> wr then (st, Inl ArtifactDbError)
      else
        let rows = (if map_of (as_rows st) i = None then as_rows st @ [(i, row)] else as_rows st)
        in case parent of
             None \<Rightarrow> (st\<lparr>as_rows := rows\<rparr>, Inr ())
           | Some p \<Rightarrow>
               if p = [] then (st\<lparr>as_rows := rows\<rparr>, Inr ())
               else (case map_of rows p of
                  None \<Rightarrow> (st, Inl ParentNotPersisted)
                | Some old \<Rightarrow>
                    if aw_run_id old \<noteq> aw_run_id row then (st, Inl ParentNotPersisted)
                    else (st\<lparr>as_rows := AList.update p (old\<lparr>aw_status := Art_SUPERSEDED\<rparr>) rows\<rparr>, Inr ())))"

definition index_add :: "string \<Rightarrow> string \<Rightarrow> (string \<times> string list) list \<Rightarrow> (string \<times> string list) list" where
  "index_add k i idx = AList.update k ((case map_of idx k of None \<Rightarrow> [] | Some is \<Rightarrow> is) @ [i]) idx"

definition index_of :: "(string \<times> string list) list \<Rightarrow> string \<Rightarrow> string list" where
  "index_of idx k = (case map_of idx k of None \<Rightarrow> [] | Some is \<Rightarrow> is)"

record artifact_args =
  ca_run_id :: string
  ca_task_id :: string
  ca_type :: artifact_type
  ca_relative_path :: string
  ca_content :: string
  ca_produced_by :: string
  ca_parent_artifact_id :: "string option"
  ca_metadata :: pydict

definition parent_of :: "artifact_args \<Rightarrow> artifact_store \<Rightarrow> artifact option" where
  "parent_of c st =
     (case ca_parent_artifact_id c of None \<Rightarrow> None | Some p \<Rightarrow> if p = [] then None else map_of (as_registry st) p)"

definition new_artifact :: "(string \<Rightarrow> string) \<Rightarrow> string \<Rightarrow> time \<Rightarrow> artifact_args \<Rightarrow> artifact option \<Rightarrow> artifact" where
  "new_artifact sha i now c parent =
     \<lparr>at_id = i, at_run_id = ca_run_id c, at_task_id = ca_task_id c, at_type = ca_type c, at_path = ca_relative_path c,
      at_content_hash = compute_content_hash sha (ca_content c), at_size_bytes = length (ca_content c),
      at_version = (case parent of None \<Rightarrow> 1 | Some p \<Rightarrow> at_version p + 1), at_produced_by = ca_produced_by c,
      at_commit_sha = None, at_status = Art_PUBLISHED, at_created_at = now, at_metadata = ca_metadata c,
      at_predecessor_id = map_option at_id parent, at_parent_artifact_id = ca_parent_artifact_id c\<rparr>"

definition artifact_row_of :: "time \<Rightarrow> artifact \<Rightarrow> artifact_row" where
  "artifact_row_of now a =
     \<lparr>aw_run_id = at_run_id a, aw_task_id = at_task_id a, aw_type = at_type a, aw_relative_path = at_path a,
      aw_content_hash = at_content_hash a, aw_size_bytes = at_size_bytes a, aw_version = at_version a,
      aw_produced_by = at_produced_by a, aw_status = Art_PUBLISHED, aw_predecessor_id = at_predecessor_id a,
      aw_parent_artifact_id = at_parent_artifact_id a, aw_created_at = now, aw_metadata = at_metadata a\<rparr>"

definition put_artifact :: "artifact \<Rightarrow> artifact_store \<Rightarrow> artifact_store" where
  "put_artifact a st = st\<lparr>as_registry := AList.update (at_id a) a (as_registry st)\<rparr>"

definition index_artifact :: "artifact \<Rightarrow> artifact_store \<Rightarrow> artifact_store" where
  "index_artifact a st = st\<lparr>as_by_task := index_add (at_task_id a) (at_id a) (as_by_task st),
     as_by_run := index_add (at_run_id a) (at_id a) (as_by_run st)\<rparr>"

definition create_artifact :: "bool \<Rightarrow> bool \<Rightarrow> (string \<Rightarrow> string) \<Rightarrow> (string \<Rightarrow> path) \<Rightarrow> string \<Rightarrow> time \<Rightarrow> time \<Rightarrow> artifact_args
    \<Rightarrow> artifact_store \<Rightarrow> artifact artifact_result" where
  "create_artifact wd wr sha rs i t1 t2 c st =
     (case safe_path rs st (ca_relative_path c) of
        Inl e \<Rightarrow> (st, Inl e)
      | Inr _ \<Rightarrow>
          let parent = parent_of c st; a = new_artifact sha i t1 c parent
          in case write_to_disk wd rs (at_path a) (ca_content c) st of
               (st1, Inl e) \<Rightarrow> (st1, Inl e)
             | (st1, Inr _) \<Rightarrow>
                 (case insert_artifact wr i (artifact_row_of t2 a) (map_option at_id parent) st1 of
                    (st2, Inl e) \<Rightarrow> (st2, Inl e)
                  | (st2, Inr _) \<Rightarrow>
                      let st3 = (case parent of None \<Rightarrow> st2 | Some p \<Rightarrow> put_artifact (p\<lparr>at_status := Art_SUPERSEDED\<rparr>) st2)
                      in (index_artifact a (put_artifact a st3), Inr a)))"

section \<open>Status\<close>

definition persist_status :: "bool \<Rightarrow> artifact \<Rightarrow> artifact_store \<Rightarrow> unit artifact_result" where
  "persist_status wr a st =
     (if \<not> wr then (st, Inl ArtifactDbError)
      else case map_of (as_rows st) (at_id a) of
             None \<Rightarrow> (st, Inl StatusRowMissing)
           | Some row \<Rightarrow> (st\<lparr>as_rows := AList.update (at_id a)
               (row\<lparr>aw_status := at_status a, aw_metadata := at_metadata a\<rparr>) (as_rows st)\<rparr>, Inr ()))"

text \<open>\<open>mark_verified\<close>, \<open>mark_rejected\<close> and \<open>supersede\<close> differ in the status; a failed write is undone in memory.\<close>

definition set_status :: "artifact_status \<Rightarrow> bool \<Rightarrow> string \<Rightarrow> artifact_store \<Rightarrow> bool artifact_result" where
  "set_status s wr i st =
     (case map_of (as_registry st) i of
        None \<Rightarrow> (st, Inr False)
      | Some a \<Rightarrow>
          (case persist_status wr (a\<lparr>at_status := s\<rparr>) (st\<lparr>as_registry := AList.update i (a\<lparr>at_status := s\<rparr>) (as_registry st)\<rparr>) of
             (st1, Inl e) \<Rightarrow> (st1\<lparr>as_registry := AList.update i a (as_registry st1)\<rparr>, Inl e)
           | (st1, Inr _) \<Rightarrow> (st1, Inr True)))"

definition mark_artifact_verified :: "bool \<Rightarrow> string \<Rightarrow> artifact_store \<Rightarrow> bool artifact_result" where
  "mark_artifact_verified = set_status Art_VERIFIED"

definition mark_artifact_rejected :: "bool \<Rightarrow> string \<Rightarrow> artifact_store \<Rightarrow> bool artifact_result" where
  "mark_artifact_rejected = set_status Art_REJECTED"

definition supersede_artifact :: "bool \<Rightarrow> string \<Rightarrow> artifact_store \<Rightarrow> bool artifact_result" where
  "supersede_artifact = set_status Art_SUPERSEDED"

text \<open>\<open>bind_commit\<close> does not undo a failed write, and ends at it.\<close>

definition bound :: "string \<Rightarrow> artifact \<Rightarrow> artifact" where
  "bound sha a = a\<lparr>at_commit_sha := Some (PyStr sha), at_metadata := AList.update ''commit_sha'' (PyStr sha) (at_metadata a)\<rparr>"

fun bind_commit :: "(nat \<Rightarrow> bool) \<Rightarrow> nat \<Rightarrow> string list \<Rightarrow> string \<Rightarrow> nat \<Rightarrow> artifact_store \<Rightarrow> nat artifact_result" where
  "bind_commit wr k [] sha n st = (st, Inr n)"
| "bind_commit wr k (i # is) sha n st =
     (case map_of (as_registry st) i of
        None \<Rightarrow> bind_commit wr (Suc k) is sha n st
      | Some a \<Rightarrow>
          (case persist_status (wr k) (bound sha a) (st\<lparr>as_registry := AList.update i (bound sha a) (as_registry st)\<rparr>) of
             (st1, Inl e) \<Rightarrow> (st1, Inl e)
           | (st1, Inr _) \<Rightarrow> bind_commit wr (Suc k) is sha (n + 1) st1))"

section \<open>Recovery\<close>

definition list_artifacts_by_run :: "string \<Rightarrow> artifact_store \<Rightarrow> (string \<times> artifact_row) list" where
  "list_artifacts_by_run run st = sort_key (\<lambda>(_, r). aw_created_at r) (filter (\<lambda>(_, r). aw_run_id r = run) (as_rows st))"

definition artifact_of_row :: "string \<Rightarrow> artifact_row \<Rightarrow> artifact" where
  "artifact_of_row i r =
     \<lparr>at_id = i, at_run_id = aw_run_id r, at_task_id = aw_task_id r, at_type = aw_type r, at_path = aw_relative_path r,
      at_content_hash = aw_content_hash r, at_size_bytes = aw_size_bytes r, at_version = aw_version r,
      at_produced_by = aw_produced_by r, at_commit_sha = map_of (aw_metadata r) ''commit_sha'', at_status = aw_status r,
      at_created_at = aw_created_at r, at_metadata = aw_metadata r, at_predecessor_id = aw_predecessor_id r,
      at_parent_artifact_id = aw_parent_artifact_id r\<rparr>"

fun load_rows :: "string \<Rightarrow> (string \<times> artifact_row) list \<Rightarrow> nat \<Rightarrow> artifact_store \<Rightarrow> artifact_store \<times> nat" where
  "load_rows run [] n st = (st, n)"
| "load_rows run ((i, r) # rows) n st =
     (if i = [] \<or> i \<in> set (map fst (as_registry st)) then load_rows run rows n st
      else load_rows run rows (n + 1)
        ((put_artifact (artifact_of_row i r) st)\<lparr>as_by_task := index_add (aw_task_id r) i (as_by_task st),
           as_by_run := index_add run i (as_by_run st)\<rparr>))"

definition load_from_db :: "string \<Rightarrow> artifact_store \<Rightarrow> artifact_store \<times> nat" where
  "load_from_db run st = load_rows run (list_artifacts_by_run run st) 0 st"

section \<open>Queries\<close>

definition get_artifact :: "artifact_store \<Rightarrow> string \<Rightarrow> artifact option" where
  "get_artifact st i = map_of (as_registry st) i"

definition artifacts_by_task :: "string \<Rightarrow> artifact_store \<Rightarrow> artifact list" where
  "artifacts_by_task t st = List.map_filter (map_of (as_registry st)) (index_of (as_by_task st) t)"

definition artifacts_by_run :: "string \<Rightarrow> artifact_store \<Rightarrow> artifact list" where
  "artifacts_by_run run st = List.map_filter (map_of (as_registry st)) (index_of (as_by_run st) run)"

definition artifacts_by_type :: "string \<Rightarrow> artifact_type \<Rightarrow> artifact_store \<Rightarrow> artifact list" where
  "artifacts_by_type run ty st = filter (\<lambda>a. at_type a = ty) (artifacts_by_run run st)"

text \<open>\<open>max\<close> with a key returns the first of the greatest.\<close>

fun first_max :: "artifact \<Rightarrow> artifact list \<Rightarrow> artifact" where
  "first_max a [] = a"
| "first_max a (b # bs) = first_max (if at_version b > at_version a then b else a) bs"

definition latest_for_task :: "string \<Rightarrow> artifact_type option \<Rightarrow> artifact_store \<Rightarrow> artifact option" where
  "latest_for_task t ty st =
     (case (case ty of None \<Rightarrow> artifacts_by_task t st | Some y \<Rightarrow> filter (\<lambda>a. at_type a = y) (artifacts_by_task t st)) of
        [] \<Rightarrow> None
      | a # as \<Rightarrow> Some (first_max a as))"

definition is_in_run :: "artifact_store \<Rightarrow> string \<Rightarrow> string \<Rightarrow> bool" where
  "is_in_run st i run \<longleftrightarrow> (case map_of (as_registry st) i of None \<Rightarrow> False | Some a \<Rightarrow> at_run_id a = run)"

definition previous_id :: "artifact \<Rightarrow> string option" where
  "previous_id a =
     (case at_predecessor_id a of
        Some p \<Rightarrow> if p \<noteq> [] then Some p else at_parent_artifact_id a
      | None \<Rightarrow> at_parent_artifact_id a)"

definition previous :: "(string \<times> artifact) list \<Rightarrow> artifact \<Rightarrow> artifact option" where
  "previous reg a = (case previous_id a of None \<Rightarrow> None | Some p \<Rightarrow> if p = [] then None else map_of reg p)"

text \<open>The walk to the oldest predecessor, newest first; ids already seen end it.\<close>

function lineage_walk :: "(string \<times> artifact) list \<Rightarrow> string list \<Rightarrow> artifact \<Rightarrow> artifact list" where
  "lineage_walk reg seen a =
     (if at_id a \<in> set seen then []
      else a # (case previous reg a of None \<Rightarrow> [] | Some b \<Rightarrow> lineage_walk reg (at_id a # seen) b))"
  by pat_completeness auto

termination
proof (relation "measures
    [\<lambda>(reg, seen, a). length (filter (\<lambda>x. at_id x \<notin> set seen) (map snd reg)) + (if a \<in> set (map snd reg) then 0 else 1)]")
  fix reg seen a b
  assume unseen: "at_id a \<notin> set seen" and "previous reg a = Some b"
  then have b: "b \<in> set (map snd reg)"
    by (auto simp: previous_def split: option.splits if_splits dest!: map_of_SomeD) force
  let ?f = "\<lambda>s. filter (\<lambda>x. at_id x \<notin> set s) (map snd reg)"
  have sub: "?f (at_id a # seen) = filter (\<lambda>x. at_id x \<noteq> at_id a) (?f seen)" by (simp add: filter_filter conj_commute)
  show "((reg, at_id a # seen, b), (reg, seen, a)) \<in> measures
      [\<lambda>(reg, seen, a). length (filter (\<lambda>x. at_id x \<notin> set seen) (map snd reg)) + (if a \<in> set (map snd reg) then 0 else 1)]"
  proof (cases "a \<in> set (map snd reg)")
    case True
    with unseen have "length (filter (\<lambda>x. at_id x \<noteq> at_id a) (?f seen)) < length (?f seen)"
      by (intro length_filter_less [of a]) auto
    then have "length (?f (at_id a # seen)) < length (?f seen)" unfolding sub .
    with True b show ?thesis by simp
  next
    case False
    have "length (?f (at_id a # seen)) \<le> length (?f seen)" unfolding sub by (rule length_filter_le)
    with False b show ?thesis by simp
  qed
qed simp

definition lineage :: "artifact_store \<Rightarrow> string \<Rightarrow> artifact list" where
  "lineage st i =
     (case map_of (as_registry st) i of
        None \<Rightarrow> []
      | Some a \<Rightarrow>
          let up = lineage_walk (as_registry st) [] a;
              descendants = sort_key (\<lambda>x. (at_version x, at_created_at x))
                (filter (\<lambda>x. at_predecessor_id x = Some i \<or> at_parent_artifact_id x = Some i) (map snd (as_registry st)))
          in rev up @ filter (\<lambda>x. at_id x \<notin> set (map at_id up)) descendants)"

end
