(* ===== verification/Artifact_Store_Props.thy ===== *)
theory Artifact_Store_Props
  imports Artifact_Store Channel
begin

text \<open>
  The evidence store: an artifact keeps its integrity exactly as long as nothing else is written to its path, and a
  restarted process reads back the same artifacts with the same status, version and lineage.
\<close>

section \<open>Operations\<close>

datatype artifact_op =
    Op_create bool bool string time time artifact_args
  | Op_status artifact_status bool string
  | Op_bind "nat \<Rightarrow> bool" "string list" string
  | Op_load string

fun store_step :: "(string \<Rightarrow> string) \<Rightarrow> (string \<Rightarrow> path) \<Rightarrow> artifact_op \<Rightarrow> artifact_store \<Rightarrow> artifact_store" where
  "store_step sha rs (Op_create wd wr i t1 t2 c) st = fst (create_artifact wd wr sha rs i t1 t2 c st)"
| "store_step sha rs (Op_status s wr i) st = fst (set_status s wr i st)"
| "store_step sha rs (Op_bind wr is commit) st = fst (bind_commit wr 0 is commit 0 st)"
| "store_step sha rs (Op_load run) st = fst (load_from_db run st)"

section \<open>Fields\<close>

lemma put_artifact_fields [simp]:
  "as_root (put_artifact a st) = as_root st" "as_files (put_artifact a st) = as_files st"
  "as_rows (put_artifact a st) = as_rows st" "as_registry (put_artifact a st) = AList.update (at_id a) a (as_registry st)"
  by (simp_all add: put_artifact_def)

lemma index_artifact_fields [simp]:
  "as_root (index_artifact a st) = as_root st" "as_files (index_artifact a st) = as_files st"
  "as_rows (index_artifact a st) = as_rows st" "as_registry (index_artifact a st) = as_registry st"
  by (simp_all add: index_artifact_def)

lemma safe_path_cong: "as_root st' = as_root st \<Longrightarrow> safe_path rs st' rel = safe_path rs st rel"
  by (simp add: safe_path_def)

lemma persist_status_fields:
  "as_root (fst (persist_status wr a st)) = as_root st" "as_files (fst (persist_status wr a st)) = as_files st"
  "as_registry (fst (persist_status wr a st)) = as_registry st"
  by (auto simp: persist_status_def split: option.split)

lemma set_status_fields:
  "as_root (fst (set_status s wr i st)) = as_root st" "as_files (fst (set_status s wr i st)) = as_files st"
  "map_of (as_registry (fst (set_status s wr i st))) j =
     (if j = i \<and> snd (set_status s wr i st) = Inr True then map_option (at_status_update (\<lambda>_. s)) (map_of (as_registry st) i)
      else map_of (as_registry st) j)"
proof -
  have "as_root (fst (set_status s wr i st)) = as_root st \<and> as_files (fst (set_status s wr i st)) = as_files st \<and>
    map_of (as_registry (fst (set_status s wr i st))) j =
     (if j = i \<and> snd (set_status s wr i st) = Inr True then map_option (at_status_update (\<lambda>_. s)) (map_of (as_registry st) i)
      else map_of (as_registry st) j)"
  proof (cases "map_of (as_registry st) i")
    case (Some a)
    let ?st = "st\<lparr>as_registry := AList.update i (a\<lparr>at_status := s\<rparr>) (as_registry st)\<rparr>"
    obtain st1 r where p: "persist_status wr (a\<lparr>at_status := s\<rparr>) ?st = (st1, r)" by force
    have "as_root st1 = as_root st" "as_files st1 = as_files st" "as_registry st1 = as_registry ?st"
      using persist_status_fields [of wr "a\<lparr>at_status := s\<rparr>" ?st] p by simp_all
    with Some p show ?thesis by (cases r) (auto simp: set_status_def)
  qed (simp add: set_status_def)
  then show "as_root (fst (set_status s wr i st)) = as_root st" "as_files (fst (set_status s wr i st)) = as_files st"
    "map_of (as_registry (fst (set_status s wr i st))) j =
     (if j = i \<and> snd (set_status s wr i st) = Inr True then map_option (at_status_update (\<lambda>_. s)) (map_of (as_registry st) i)
      else map_of (as_registry st) j)"
    by blast+
qed

text \<open>An artifact is unchanged but for its status, metadata and commit.\<close>

definition same_evidence :: "artifact \<Rightarrow> artifact \<Rightarrow> bool" where
  "same_evidence a b \<longleftrightarrow> at_path a = at_path b \<and> at_content_hash a = at_content_hash b \<and> at_version a = at_version b \<and>
     at_run_id a = at_run_id b \<and> at_task_id a = at_task_id b \<and> at_id a = at_id b"

definition keeps_artifact :: "string \<Rightarrow> artifact \<Rightarrow> artifact_store \<Rightarrow> bool" where
  "keeps_artifact i a st \<longleftrightarrow> (\<exists>b. map_of (as_registry st) i = Some b \<and> same_evidence a b)"

lemma verify_integrity_same:
  assumes "keeps_artifact i a st" "as_root st = Some base" "safe_path rs st (at_path a) = Inr p"
  shows "verify_integrity sha rs st i =
    Inr (case map_of (as_files st) p of None \<Rightarrow> False | Some x \<Rightarrow> compute_content_hash sha x = at_content_hash a)"
  using assms by (auto simp: keeps_artifact_def same_evidence_def verify_integrity_def read_bytes_def split: option.split)

lemma bind_commit_keeps:
  "as_root (fst (bind_commit wr k is commit n st)) = as_root st \<and> as_files (fst (bind_commit wr k is commit n st)) = as_files st \<and>
   (keeps_artifact i a st \<longrightarrow> keeps_artifact i a (fst (bind_commit wr k is commit n st)))"
proof (induction wr k "is" commit n st rule: bind_commit.induct)
  case (2 wr k j "is" commit n st)
  show ?case
  proof (cases "map_of (as_registry st) j")
    case None
    with 2 show ?thesis by simp
  next
    case (Some b)
    let ?st1 = "st\<lparr>as_registry := AList.update j (bound commit b) (as_registry st)\<rparr>"
    obtain st2 r where p: "persist_status (wr k) (bound commit b) ?st1 = (st2, r)" by force
    have st2: "as_root st2 = as_root st" "as_files st2 = as_files st"
      "as_registry st2 = AList.update j (bound commit b) (as_registry st)"
      using persist_status_fields [of "wr k" "bound commit b" ?st1] p by simp_all
    have "keeps_artifact i a st \<longrightarrow> keeps_artifact i a st2"
      using Some by (auto simp: keeps_artifact_def st2 same_evidence_def bound_def)
    with 2(2) [OF Some] p Some st2 show ?thesis by (cases r) auto
  qed
qed simp

lemma load_rows_keeps:
  "as_root (fst (load_rows run rows n st)) = as_root st \<and> as_files (fst (load_rows run rows n st)) = as_files st \<and>
   (keeps_artifact i a st \<longrightarrow> keeps_artifact i a (fst (load_rows run rows n st)))"
proof (induction run rows n st rule: load_rows.induct)
  case (2 run j r rows n st)
  let ?st = "(put_artifact (artifact_of_row j r) st)\<lparr>as_by_task := index_add (aw_task_id r) j (as_by_task st),
    as_by_run := index_add run j (as_by_run st)\<rparr>"
  show ?case
  proof (cases "j = [] \<or> j \<in> set (map fst (as_registry st))")
    case False
    have "keeps_artifact i a st \<longrightarrow> keeps_artifact i a ?st"
      using False map_of_in_keys [of "as_registry st" i]
      by (auto simp: keeps_artifact_def artifact_of_row_def simp del: set_map)
    with 2(2) [OF False] False show ?thesis by (simp del: set_map)
  qed (use 2(1) in simp)
qed simp

text \<open>What a creation does to the files and to the artifacts there are.\<close>

lemma create_files:
  assumes "as_root st = Some base"
  shows "as_root (fst (create_artifact wd wr sha rs j t1 t2 c st)) = Some base"
    and "as_files (fst (create_artifact wd wr sha rs j t1 t2 c st)) =
      (case safe_path rs st (ca_relative_path c) of
         Inr p \<Rightarrow> if wd then AList.update p (ca_content c) (as_files st) else as_files st
       | Inl _ \<Rightarrow> as_files st)"
proof -
  have ins: "as_root (fst (insert_artifact wr j row p s)) = as_root s" "as_files (fst (insert_artifact wr j row p s)) = as_files s"
    "as_registry (fst (insert_artifact wr j row p s)) = as_registry s" for row p s
    by (auto simp: insert_artifact_def Let_def split: option.split)
  obtain st1 r1 where w: "write_to_disk wd rs (ca_relative_path c) (ca_content c) st = (st1, r1)" by force
  obtain st2 r2 where i: "insert_artifact wr j (artifact_row_of t2 (new_artifact sha j t1 c (parent_of c st)))
      (map_option at_id (parent_of c st)) st1 = (st2, r2)" by force
  have "as_root st2 = as_root st1" "as_files st2 = as_files st1"
    using ins [of "artifact_row_of t2 (new_artifact sha j t1 c (parent_of c st))" "map_option at_id (parent_of c st)" st1] i by simp_all
  then show "as_root (fst (create_artifact wd wr sha rs j t1 t2 c st)) = Some base"
    "as_files (fst (create_artifact wd wr sha rs j t1 t2 c st)) =
      (case safe_path rs st (ca_relative_path c) of
         Inr p \<Rightarrow> if wd then AList.update p (ca_content c) (as_files st) else as_files st
       | Inl _ \<Rightarrow> as_files st)"
    using assms w i by (auto simp: create_artifact_def new_artifact_def Let_def write_to_disk_def
        split: sum.splits option.splits if_splits)
qed

definition wf_store :: "artifact_store \<Rightarrow> bool" where
  "wf_store st \<longleftrightarrow> (\<forall>i a. map_of (as_registry st) i = Some a \<longrightarrow> at_id a = i)"

lemma write_to_disk_registry: "as_registry (fst (write_to_disk wd rs rel x st)) = as_registry st"
  "as_rows (fst (write_to_disk wd rs rel x st)) = as_rows st"
  by (auto simp: write_to_disk_def split: sum.split)

lemma insert_artifact_registry: "as_registry (fst (insert_artifact wr j row p st)) = as_registry st"
  by (auto simp: insert_artifact_def Let_def split: option.split)

lemma parent_of_registry: "parent_of c st = Some p \<Longrightarrow> map_of (as_registry st) (the (ca_parent_artifact_id c)) = Some p"
  by (auto simp: parent_of_def split: option.splits if_splits)

text \<open>The registry after a creation: unchanged, or with the parent superseded and the new artifact.\<close>

lemma create_registry:
  obtains (failed) "as_registry (fst (create_artifact wd wr sha rs j t1 t2 c st)) = as_registry st"
      "\<exists>e. snd (create_artifact wd wr sha rs j t1 t2 c st) = Inl e"
  | (created) reg where
      "snd (create_artifact wd wr sha rs j t1 t2 c st) = Inr (new_artifact sha j t1 c (parent_of c st))"
      "as_registry (fst (create_artifact wd wr sha rs j t1 t2 c st)) = AList.update j (new_artifact sha j t1 c (parent_of c st)) reg"
      "reg = as_registry st \<or> (\<exists>p. parent_of c st = Some p \<and> reg = AList.update (at_id p) (p\<lparr>at_status := Art_SUPERSEDED\<rparr>) (as_registry st))"
proof -
  let ?a = "new_artifact sha j t1 c (parent_of c st)"
  obtain st1 r1 where w: "write_to_disk wd rs (at_path ?a) (ca_content c) st = (st1, r1)" by force
  obtain st2 r2 where i: "insert_artifact wr j (artifact_row_of t2 ?a) (map_option at_id (parent_of c st)) st1 = (st2, r2)" by force
  have regs: "as_registry st1 = as_registry st" "as_registry st2 = as_registry st"
    using write_to_disk_registry(1) [of wd rs "at_path ?a" "ca_content c" st] w
      insert_artifact_registry [of wr j "artifact_row_of t2 ?a" "map_option at_id (parent_of c st)" st1] i by simp_all
  have id: "at_id ?a = j" by (simp add: new_artifact_def)
  show thesis
  proof (cases "safe_path rs st (ca_relative_path c)")
    case (Inl e)
    then show thesis by (intro failed) (simp_all add: create_artifact_def)
  next
    case (Inr x)
    consider e where "r1 = Inl e" | e where "r1 = Inr ()" "r2 = Inl e" | "r1 = Inr ()" "r2 = Inr ()"
      by (cases r1; cases r2) auto
    then show thesis
    proof cases
      case 1
      with Inr w regs show thesis by (intro failed) (simp_all add: create_artifact_def Let_def)
    next
      case 2
      with Inr w i regs show thesis by (intro failed) (simp_all add: create_artifact_def Let_def)
    next
      case 3
      with Inr w i regs id show thesis
        by (intro created [of "as_registry (case parent_of c st of None \<Rightarrow> st2 | Some p \<Rightarrow> put_artifact (p\<lparr>at_status := Art_SUPERSEDED\<rparr>) st2)"])
          (auto simp: create_artifact_def Let_def split: option.split)
    qed
  qed
qed

lemma create_keeps:
  assumes "wf_store st" "keeps_artifact i a st" "i \<noteq> j"
  shows "keeps_artifact i a (fst (create_artifact wd wr sha rs j t1 t2 c st))"
proof (cases rule: create_registry [of wd wr sha rs j t1 t2 c st])
  case failed
  with assms(2) show ?thesis by (simp add: keeps_artifact_def)
next
  case (created reg)
  have "\<exists>b. map_of reg i = Some b \<and> same_evidence a b"
    using created(3)
  proof (elim disjE exE conjE)
    fix p
    assume p: "parent_of c st = Some p" and reg: "reg = AList.update (at_id p) (p\<lparr>at_status := Art_SUPERSEDED\<rparr>) (as_registry st)"
    have "map_of (as_registry st) (at_id p) = Some p"
      using parent_of_registry [OF p] assms(1) by (auto simp: wf_store_def)
    with assms(2) reg show ?thesis by (auto simp: keeps_artifact_def same_evidence_def)
  qed (use assms(2) in \<open>simp add: keeps_artifact_def\<close>)
  with created(2) assms(3) show ?thesis by (simp add: keeps_artifact_def)
qed

lemma create_wf: "wf_store st \<Longrightarrow> wf_store (fst (create_artifact wd wr sha rs j t1 t2 c st))"
  by (cases rule: create_registry [of wd wr sha rs j t1 t2 c st])
    (auto simp: wf_store_def new_artifact_def dest: parent_of_registry split: if_splits)

lemma bind_commit_wf: "wf_store st \<Longrightarrow> wf_store (fst (bind_commit wr k is commit n st))"
proof (induction wr k "is" commit n st rule: bind_commit.induct)
  case (2 wr k j "is" commit n st)
  show ?case
  proof (cases "map_of (as_registry st) j")
    case None
    with 2 show ?thesis by simp
  next
    case (Some b)
    let ?st1 = "st\<lparr>as_registry := AList.update j (bound commit b) (as_registry st)\<rparr>"
    obtain st2 r where p: "persist_status (wr k) (bound commit b) ?st1 = (st2, r)" by force
    have "as_registry st2 = AList.update j (bound commit b) (as_registry st)"
      using persist_status_fields(3) [of "wr k" "bound commit b" ?st1] p by simp
    with 2(3) Some have "wf_store st2" by (auto simp: wf_store_def bound_def)
    with 2(2) [OF Some] p Some show ?thesis by (cases r) auto
  qed
qed simp

lemma load_rows_wf: "wf_store st \<Longrightarrow> wf_store (fst (load_rows run rows n st))"
proof (induction run rows n st rule: load_rows.induct)
  case (2 run j r rows n st)
  let ?st = "(put_artifact (artifact_of_row j r) st)\<lparr>as_by_task := index_add (aw_task_id r) j (as_by_task st),
    as_by_run := index_add run j (as_by_run st)\<rparr>"
  have "wf_store ?st" using 2(3) by (simp add: wf_store_def artifact_of_row_def)
  with 2 show ?case by (cases "j = [] \<or> j \<in> set (map fst (as_registry st))") (simp_all del: set_map)
qed simp

lemma store_step_wf: "wf_store st \<Longrightarrow> wf_store (store_step sha rs op st)"
proof (cases op)
  case (Op_status s wr i)
  assume "wf_store st"
  then show ?thesis by (auto simp: Op_status wf_store_def set_status_fields split: if_splits)
qed (simp_all add: create_wf bind_commit_wf load_rows_wf load_from_db_def)

section \<open>Integrity\<close>

text \<open>The operation neither reuses the id nor writes to the path.\<close>

fun op_spares :: "(string \<Rightarrow> path) \<Rightarrow> string \<Rightarrow> path \<Rightarrow> artifact_op \<Rightarrow> bool" where
  "op_spares rs i p (Op_create wd wr j t1 t2 c) = (j \<noteq> i \<and> rs (ca_relative_path c) \<noteq> p)"
| "op_spares rs i p _ = True"

lemma rooted_path: "as_root st = Some base \<Longrightarrow> safe_path rs st rel = Inr q \<Longrightarrow> q = rs rel"
  by (auto simp: safe_path_def split: if_splits)

lemma spared_step:
  assumes "wf_store st" "keeps_artifact i a st" "as_root st = Some base" "op_spares rs i p op"
  shows "keeps_artifact i a (store_step sha rs op st) \<and> as_root (store_step sha rs op st) = Some base \<and>
    map_of (as_files (store_step sha rs op st)) p = map_of (as_files st) p"
proof (cases op)
  case (Op_create wd wr j t1 t2 c)
  with assms(4) have ne: "i \<noteq> j" "rs (ca_relative_path c) \<noteq> p" by auto
  have "map_of (as_files (fst (create_artifact wd wr sha rs j t1 t2 c st))) p = map_of (as_files st) p"
  proof (cases "safe_path rs st (ca_relative_path c)")
    case (Inr q)
    with ne(2) rooted_path [OF assms(3) Inr] show ?thesis by (simp add: create_files [OF assms(3)])
  qed (simp add: create_files [OF assms(3)])
  with create_keeps [OF assms(1,2) ne(1)] create_files(1) [OF assms(3)] show ?thesis by (simp add: Op_create)
next
  case (Op_status s wr j)
  with assms(2,3) show ?thesis by (auto simp: set_status_fields keeps_artifact_def same_evidence_def)
next
  case (Op_bind wr js commit)
  with assms(2,3) bind_commit_keeps [of wr 0 js commit 0 st i a] show ?thesis by simp
next
  case (Op_load run)
  with assms(2,3) load_rows_keeps [of run "list_artifacts_by_run run st" 0 st i a] show ?thesis
    by (simp add: load_from_db_def)
qed

lemma spared_steps:
  assumes "wf_store st" "keeps_artifact i a st" "as_root st = Some base" "\<forall>op \<in> set ops. op_spares rs i p op"
  shows "keeps_artifact i a (steps (store_step sha rs) ops st) \<and> as_root (steps (store_step sha rs) ops st) = Some base \<and>
    map_of (as_files (steps (store_step sha rs) ops st)) p = map_of (as_files st) p"
  using assms
proof (induction ops arbitrary: st)
  case (Cons op ops)
  from spared_step [OF Cons.prems(1-3), of rs p op sha] Cons.prems(4)
  have one: "keeps_artifact i a (store_step sha rs op st)" "as_root (store_step sha rs op st) = Some base"
    "map_of (as_files (store_step sha rs op st)) p = map_of (as_files st) p" by simp_all
  from Cons.IH [OF store_step_wf [OF Cons.prems(1)] one(1,2)] Cons.prems(4) one(3) show ?case by simp
qed simp

lemma integrity_until_overwritten_parts:
  assumes "as_root st = Some base" "wf_store st" "map_of (as_registry st) i = Some a" "safe_path rs st (at_path a) = Inr p"
  shows "\<forall>op \<in> set ops. op_spares rs i p op \<Longrightarrow>
      verify_integrity sha rs (steps (store_step sha rs) ops st) i = verify_integrity sha rs st i"
    and "create_artifact True wr sha rs j t1 t2 c st = (st', Inr b) \<Longrightarrow> verify_integrity sha rs st' j = Inr True"
    and "j \<noteq> i \<Longrightarrow> rs (ca_relative_path c) = p \<Longrightarrow>
      verify_integrity sha rs (fst (create_artifact True wr sha rs j t1 t2 c st)) i
        = Inr (compute_content_hash sha (ca_content c) = at_content_hash a)"
proof -
  have keep: "keeps_artifact i a st" using assms(3) by (simp add: keeps_artifact_def same_evidence_def)
  have p: "p = rs (at_path a)" "take (length base) p = base"
    using assms(1,4) by (auto simp: safe_path_def split: if_splits)
  have sp: "safe_path rs s (at_path a) = Inr p" if "as_root s = Some base" for s
    using p that by (simp add: safe_path_def)
  show "verify_integrity sha rs (steps (store_step sha rs) ops st) i = verify_integrity sha rs st i"
    if "\<forall>op \<in> set ops. op_spares rs i p op"
    using spared_steps [OF assms(2) keep assms(1) that, of sha] verify_integrity_same [OF keep assms(1,4)]
      verify_integrity_same [OF _ _ sp] by simp
  show "verify_integrity sha rs st' j = Inr True" if made: "create_artifact True wr sha rs j t1 t2 c st = (st', Inr b)"
  proof (cases rule: create_registry [of True wr sha rs j t1 t2 c st])
    case failed
    with made show ?thesis by simp
  next
    case (created reg)
    obtain q where q: "safe_path rs st (ca_relative_path c) = Inr q"
      using made by (cases "safe_path rs st (ca_relative_path c)") (auto simp: create_artifact_def)
    then have "take (length base) (rs (ca_relative_path c)) = base"
      using assms(1) by (simp add: safe_path_def split: if_splits)
    with created made create_files [OF assms(1), of True wr sha rs j t1 t2 c] rooted_path [OF assms(1) q] q show ?thesis
      by (simp add: verify_integrity_def read_bytes_def new_artifact_def safe_path_def)
  qed
  show "verify_integrity sha rs (fst (create_artifact True wr sha rs j t1 t2 c st)) i
        = Inr (compute_content_hash sha (ca_content c) = at_content_hash a)"
    if "j \<noteq> i" "rs (ca_relative_path c) = p"
  proof -
    have "safe_path rs st (ca_relative_path c) = Inr p" using that(2) p(2) assms(1) by (simp add: safe_path_def)
    with verify_integrity_same [OF create_keeps [OF assms(2) keep, of j] create_files(1) [OF assms(1)] sp [OF create_files(1) [OF assms(1)]]]
      create_files(2) [OF assms(1), of True wr sha rs j t1 t2 c] that(1)
    show ?thesis by simp
  qed
qed

text \<open>C17: A created artifact has its integrity, and keeps it through any series of creations, status changes, commit
  bindings and reloads that write nothing to its path. A creation at the same path, of any task or version and also
  one whose row is not written, leaves the old artifact its integrity only if the content has the same hash.\<close>

theorem integrity_until_overwritten:
  assumes "as_root st = Some base" "wf_store st" "map_of (as_registry st) i = Some a" "safe_path rs st (at_path a) = Inr p"
  shows "((\<forall>op \<in> set ops. op_spares rs i p op) \<longrightarrow>
      verify_integrity sha rs (steps (store_step sha rs) ops st) i = verify_integrity sha rs st i) \<and>
    (create_artifact True wr sha rs j t1 t2 c st = (st', Inr b) \<longrightarrow> verify_integrity sha rs st' j = Inr True) \<and>
    (j \<noteq> i \<longrightarrow> rs (ca_relative_path c) = p \<longrightarrow>
      verify_integrity sha rs (fst (create_artifact True wr sha rs j t1 t2 c st)) i
        = Inr (compute_content_hash sha (ca_content c) = at_content_hash a))"
  using integrity_until_overwritten_parts [OF assms] by blast

text \<open>The witness: a report, a repair of it at the same path and one at another path.\<close>

definition demo_store :: artifact_store where
  "demo_store = \<lparr>as_root = Some [''run''], as_registry = [], as_by_task = [], as_by_run = [], as_files = [], as_rows = []\<rparr>"

definition below_run :: "string \<Rightarrow> path" where
  "below_run rel = ''run'' # path_parts rel"

definition demo_args :: "string \<Rightarrow> string \<Rightarrow> string option \<Rightarrow> artifact_args" where
  "demo_args rel content parent = \<lparr>ca_run_id = ''run'', ca_task_id = ''T1'', ca_type = Art_REPORT, ca_relative_path = rel,
     ca_content = content, ca_produced_by = ''w1'', ca_parent_artifact_id = parent, ca_metadata = []\<rparr>"

definition reported :: artifact_store where
  "reported = fst (create_artifact True True id below_run ''a1'' 1 1 (demo_args ''report.md'' ''old'' None) demo_store)"

lemma reported_ok: "wf_store reported" "as_root reported = Some [''run'']"
  unfolding reported_def by (rule create_wf) (simp_all add: wf_store_def demo_store_def create_files)

theorem integrity_until_overwritten_witness:
  "verify_integrity id below_run (steps (store_step id below_run)
      [Op_status Art_VERIFIED True ''a1'', Op_create True True ''a2'' 2 2 (demo_args ''fix.md'' ''new'' (Some ''a1''))] reported) ''a1''
     = Inr True \<and>
   verify_integrity id below_run
      (fst (create_artifact True True id below_run ''a2'' 2 2 (demo_args ''report.md'' ''new'' (Some ''a1'')) reported)) ''a1''
     = Inr False"
proof -
  have a: "map_option at_path (map_of (as_registry reported) ''a1'') = Some ''report.md''"
    "map_option at_content_hash (map_of (as_registry reported) ''a1'') = Some ''sha256:old''"
    "safe_path below_run reported ''report.md'' = Inr [''run'', ''report.md'']" "verify_integrity id below_run reported ''a1'' = Inr True"
    "below_run ''report.md'' = [''run'', ''report.md'']" "below_run ''fix.md'' \<noteq> [''run'', ''report.md'']"
    by code_simp+
  then obtain x where x: "map_of (as_registry reported) ''a1'' = Some x" "at_path x = ''report.md''" "at_content_hash x = ''sha256:old''"
    by auto
  show ?thesis
    using integrity_until_overwritten [OF reported_ok(2,1) x(1), of below_run "[''run'', ''report.md'']"
        "[Op_status Art_VERIFIED True ''a1'', Op_create True True ''a2'' 2 2 (demo_args ''fix.md'' ''new'' (Some ''a1''))]" id True
        "''a2''" 2 2 "demo_args ''report.md'' ''new'' (Some ''a1'')"] a x
    by (simp add: demo_args_def compute_content_hash_def)
qed

end
