(* ===== verification/Artifact_Recovery.thy ===== *)
theory Artifact_Recovery
  imports Artifact_Store_Props
begin

text \<open>
  The registry of a process and the rows of the table agree through every operation whose commit bindings are
  written, so that a restarted process reads the same artifacts back.
\<close>

section \<open>Agreement of registry and rows\<close>

definition row_matches :: "string \<Rightarrow> artifact \<Rightarrow> artifact_row \<Rightarrow> bool" where
  "row_matches i a r \<longleftrightarrow> artifact_of_row i r = a\<lparr>at_created_at := aw_created_at r\<rparr>"

definition synced :: "artifact_store \<Rightarrow> bool" where
  "synced st \<longleftrightarrow> wf_store st \<and> distinct (map fst (as_rows st)) \<and>
     (\<forall>i a. map_of (as_registry st) i = Some a \<longrightarrow> i \<noteq> [] \<and> (\<exists>r. map_of (as_rows st) i = Some r \<and> row_matches i a r))"

fun op_durable :: "artifact_op \<Rightarrow> artifact_store \<Rightarrow> bool" where
  "op_durable (Op_create wd wr j t1 t2 c) st \<longleftrightarrow> j \<noteq> [] \<and> j \<notin> set (map fst (as_rows st)) \<and>
     j \<notin> set (map fst (as_registry st)) \<and> map_of (ca_metadata c) ''commit_sha'' = None"
| "op_durable (Op_bind wr is commit) st \<longleftrightarrow> (\<forall>k. wr k)"
| "op_durable _ st \<longleftrightarrow> True"

fun all_durable :: "(string \<Rightarrow> string) \<Rightarrow> (string \<Rightarrow> path) \<Rightarrow> artifact_op list \<Rightarrow> artifact_store \<Rightarrow> bool" where
  "all_durable sha rs [] st \<longleftrightarrow> True"
| "all_durable sha rs (op # ops) st \<longleftrightarrow> op_durable op st \<and> all_durable sha rs ops (store_step sha rs op st)"

declare map_of_eq_Some_iff [simp del]

lemma syncedD:
  assumes "synced st" "map_of (as_registry st) i = Some a"
  obtains r where "at_id a = i" "i \<noteq> []" "map_of (as_rows st) i = Some r" "row_matches i a r"
  using assms unfolding synced_def wf_store_def by blast

lemma synced_cong: "as_registry s = as_registry st \<Longrightarrow> as_rows s = as_rows st \<Longrightarrow> synced st \<Longrightarrow> synced s"
  by (simp add: synced_def wf_store_def)

lemma row_matches_commit: "row_matches i a r \<Longrightarrow> at_commit_sha a = map_of (at_metadata a) ''commit_sha''"
  by (cases a) (auto simp: row_matches_def artifact_of_row_def)

lemma synced_update:
  assumes "synced st" "map_of (as_rows st) q = Some r" "q \<noteq> []" "at_id b = q" "row_matches q b r'"
    and "as_registry s = AList.update q b (as_registry st)" "as_rows s = AList.update q r' (as_rows st)"
  shows "synced s"
proof -
  have "distinct (map fst (as_rows s))" using assms(1,7) by (simp add: synced_def distinct_keys_update)
  moreover have "i \<noteq> [] \<and> at_id a = i \<and> (\<exists>r. map_of (as_rows s) i = Some r \<and> row_matches i a r)"
    if "map_of (as_registry s) i = Some a" for i a
  proof (cases "i = q")
    case True
    with that assms show ?thesis by simp
  next
    case False
    with that assms(6) have "map_of (as_registry st) i = Some a" by simp
    from syncedD [OF assms(1) this] False assms(7) show ?thesis by (metis fun_upd_other map_of_update)
  qed
  ultimately show ?thesis unfolding synced_def wf_store_def by blast
qed

lemma synced_insert:
  assumes "synced st" "j \<noteq> []" "j \<notin> set (map fst (as_rows st))" "at_id a = j" "row_matches j a r"
    and "as_registry s = AList.update j a (as_registry st)" "as_rows s = as_rows st @ [(j, r)]"
  shows "synced s"
proof -
  have none: "map_of (as_rows st) j = None" using assms(3) by (simp add: map_of_eq_None_iff)
  have "distinct (map fst (as_rows s))" using assms(1,3,7) by (simp add: synced_def)
  moreover have "i \<noteq> [] \<and> at_id b = i \<and> (\<exists>r. map_of (as_rows s) i = Some r \<and> row_matches i b r)"
    if "map_of (as_registry s) i = Some b" for i b
  proof (cases "i = j")
    case True
    with that assms none show ?thesis by (simp add: map_add_def)
  next
    case False
    with that assms(6) have "map_of (as_registry st) i = Some b" by simp
    then obtain r' where "at_id b = i" "i \<noteq> []" "map_of (as_rows st) i = Some r'" "row_matches i b r'"
      by (rule syncedD [OF assms(1)])
    with False assms(7) show ?thesis by (simp add: map_add_def)
  qed
  ultimately show ?thesis unfolding synced_def wf_store_def by blast
qed

text \<open>Writing the status and metadata of a registered artifact keeps the agreement.\<close>

lemma persist_synced:
  assumes "synced st" "map_of (as_registry st) i = Some a" "same_evidence a b"
    and "at_type b = at_type a" "at_size_bytes b = at_size_bytes a" "at_produced_by b = at_produced_by a"
    and "at_predecessor_id b = at_predecessor_id a" "at_parent_artifact_id b = at_parent_artifact_id a"
    and "at_commit_sha b = map_of (at_metadata b) ''commit_sha''"
    and "persist_status wr b (st\<lparr>as_registry := AList.update i b (as_registry st)\<rparr>) = (st', r)"
  shows "if r = Inr () then synced st' else as_rows st' = as_rows st"
proof -
  obtain row where row: "map_of (as_rows st) i = Some row" "row_matches i a row" "i \<noteq> []" and ida: "at_id a = i"
    using assms(1,2) by (rule syncedD)
  with assms(3) have id: "at_id b = i" "at_id a = i" by (simp_all add: same_evidence_def)
  show ?thesis
  proof (cases wr)
    case True
    have m: "row_matches i b (row\<lparr>aw_status := at_status b, aw_metadata := at_metadata b\<rparr>)"
      using row(2) assms(3-9) by (cases a, cases b) (simp add: row_matches_def artifact_of_row_def same_evidence_def)
    have "r = Inr ()" "as_registry st' = AList.update i b (as_registry st)"
      "as_rows st' = AList.update i (row\<lparr>aw_status := at_status b, aw_metadata := at_metadata b\<rparr>) (as_rows st)"
      using assms(10) True row(1) id by (auto simp: persist_status_def)
    with synced_update [OF assms(1) row(1,3) id(1) m] show ?thesis by simp
  qed (use assms(10) in \<open>auto simp: persist_status_def\<close>)
qed

lemma status_synced:
  assumes "synced st"
  shows "synced (fst (set_status s wr i st))"
proof (cases "map_of (as_registry st) i")
  case (Some a)
  let ?b = "a\<lparr>at_status := s\<rparr>"
  obtain st1 r where p: "persist_status wr ?b (st\<lparr>as_registry := AList.update i ?b (as_registry st)\<rparr>) = (st1, r)" by force
  obtain row where "row_matches i a row" using assms Some by (rule syncedD)
  from row_matches_commit [OF this] have "at_commit_sha ?b = map_of (at_metadata ?b) ''commit_sha''" by simp
  from persist_synced [OF assms Some _ _ _ _ _ _ this p]
  have res: "if r = Inr () then synced st1 else as_rows st1 = as_rows st" by (simp add: same_evidence_def)
  have reg: "as_registry st1 = AList.update i ?b (as_registry st)"
    using persist_status_fields(3) [of wr ?b "st\<lparr>as_registry := AList.update i ?b (as_registry st)\<rparr>"] p by simp
  show ?thesis
  proof (cases r)
    case (Inr u)
    with res Some p show ?thesis by (simp add: set_status_def)
  next
    case (Inl e)
    with res assms Some p reg show ?thesis by (auto simp: set_status_def synced_def wf_store_def)
  qed
qed (use assms in \<open>simp add: set_status_def\<close>)

lemma bind_synced:
  assumes "synced st" "\<forall>k. wr k"
  shows "synced (fst (bind_commit wr k is commit n st))"
  using assms
proof (induction wr k "is" commit n st rule: bind_commit.induct)
  case (2 wr k j "is" commit n st)
  show ?case
  proof (cases "map_of (as_registry st) j")
    case None
    with 2 show ?thesis by simp
  next
    case (Some a)
    obtain st1 r where p: "persist_status (wr k) (bound commit a) (st\<lparr>as_registry := AList.update j (bound commit a) (as_registry st)\<rparr>) = (st1, r)"
      by force
    obtain row where "map_of (as_rows st) j = Some row" "at_id a = j" using 2(3) Some by (rule syncedD)
    with p 2(4) have "r = Inr ()" by (auto simp: persist_status_def bound_def)
    with persist_synced [OF 2(3) Some _ _ _ _ _ _ _ p]
    have "synced st1" by (simp add: bound_def same_evidence_def)
    with 2(2) [OF Some] p Some \<open>r = Inr ()\<close> 2(4) show ?thesis by simp
  qed
qed simp

lemma load_rows_synced:
  assumes "synced st" "\<forall>(i, r) \<in> set rows. map_of (as_rows st) i = Some r"
  shows "synced (fst (load_rows run rows n st))"
  using assms
proof (induction run rows n st rule: load_rows.induct)
  case (2 run j r rows n st)
  let ?st = "(put_artifact (artifact_of_row j r) st)\<lparr>as_by_task := index_add (aw_task_id r) j (as_by_task st),
    as_by_run := index_add run j (as_by_run st)\<rparr>"
  show ?case
  proof (cases "j = [] \<or> j \<in> set (map fst (as_registry st))")
    case False
    then have "synced ?st"
      using 2(3,4) by (auto simp: synced_def wf_store_def artifact_of_row_def row_matches_def)
    with 2(2) [OF False this] 2(4) False show ?thesis by (simp del: set_map)
  qed (use 2 in simp)
qed simp

lemma update_append_present:
  "q \<in> set (map fst xs) \<Longrightarrow> AList.update q v (xs @ ys) = AList.update q v xs @ ys"
  by (induction xs) auto

lemma create_synced:
  assumes "synced st" "op_durable (Op_create wd wr j t1 t2 c) st"
  shows "synced (fst (create_artifact wd wr sha rs j t1 t2 c st))"
proof -
  let ?p = "parent_of c st"
  let ?a = "new_artifact sha j t1 c ?p"
  let ?row = "artifact_row_of t2 ?a"
  obtain st1 r1 where w: "write_to_disk wd rs (at_path ?a) (ca_content c) st = (st1, r1)" by force
  obtain st2 r2 where i: "insert_artifact wr j ?row (map_option at_id ?p) st1 = (st2, r2)" by force
  have st1: "as_registry st1 = as_registry st" "as_rows st1 = as_rows st"
    using write_to_disk_registry [of wd rs "at_path ?a" "ca_content c" st] w by simp_all
  have st2: "as_registry st2 = as_registry st"
    using insert_artifact_registry [of wr j ?row "map_option at_id ?p" st1] i st1 by simp
  have keep: "synced s" if "as_registry s = as_registry st" "as_rows s = as_rows st" for s
    using that assms(1) by (rule synced_cong)
  have j: "j \<noteq> []" "map_of (as_rows st) j = None" "map_of (as_registry st) j = None"
    "map_of (ca_metadata c) ''commit_sha'' = None" "j \<notin> fst ` set (as_rows st)"
    using assms(2) by (simp_all add: map_of_eq_None_iff)
  have m: "row_matches j ?a ?row" using j(4) by (simp add: row_matches_def artifact_of_row_def artifact_row_of_def new_artifact_def)
  show ?thesis
  proof (cases "(\<exists>e. safe_path rs st (ca_relative_path c) = Inl e) \<or> (\<exists>e. r1 = Inl e) \<or> (\<exists>e. r2 = Inl e)")
    case True
    have "as_rows st2 = as_rows st" if "r2 = Inl e" for e
      using i st1 that by (auto simp: insert_artifact_def Let_def split: if_splits option.splits)
    with True w i st1 st2 show ?thesis
      by (cases "safe_path rs st (ca_relative_path c)"; cases r1; cases r2)
        (auto simp: create_artifact_def Let_def intro!: keep assms(1))
  next
    case False
    then have ok: "\<exists>x. safe_path rs st (ca_relative_path c) = Inr x" "r1 = Inr ()" "r2 = Inr ()"
      by (cases "safe_path rs st (ca_relative_path c)"; cases r1; cases r2; auto)+
    have fst_res: "fst (create_artifact wd wr sha rs j t1 t2 c st) = index_artifact ?a (put_artifact ?a
        (case ?p of None \<Rightarrow> st2 | Some p \<Rightarrow> put_artifact (p\<lparr>at_status := Art_SUPERSEDED\<rparr>) st2))"
      using ok w i by (auto simp: create_artifact_def Let_def)
    have ida: "at_id ?a = j" by (simp add: new_artifact_def)
    show ?thesis
    proof (cases ?p)
      case None
      with i st1 j ok(3) have "as_rows st2 = as_rows st @ [(j, ?row)]"
        by (auto simp: insert_artifact_def split: if_splits)
      with None st2 j(5) ida show ?thesis
        unfolding fst_res by (intro synced_insert [OF assms(1) j(1) _ ida m]) simp_all
    next
      case (Some p)
      obtain q where p: "map_of (as_registry st) q = Some p" using parent_of_registry [OF Some] by blast
      obtain rp where rp: "at_id p = q" "q \<noteq> []" "map_of (as_rows st) q = Some rp" "row_matches q p rp"
        using assms(1) p by (rule syncedD)
      let ?p' = "p\<lparr>at_status := Art_SUPERSEDED\<rparr>" and ?rp' = "rp\<lparr>aw_status := Art_SUPERSEDED\<rparr>"
      let ?s1 = "st\<lparr>as_registry := AList.update q ?p' (as_registry st), as_rows := AList.update q ?rp' (as_rows st)\<rparr>"
      have "row_matches q ?p' ?rp'" using rp(4) by (cases p) (auto simp: row_matches_def artifact_of_row_def)
      with synced_update [OF assms(1) rp(3,2), of ?p' ?rp' ?s1] rp(1) have s1: "synced ?s1" by simp
      have q: "q \<in> set (map fst (as_rows st))" using rp(3) by (rule map_of_in_keys)
      have "as_rows st2 = AList.update q ?rp' (as_rows st @ [(j, ?row)])"
        using Some rp i st1 j ok(3) by (auto simp: insert_artifact_def Let_def split: if_splits)
      also have "\<dots> = AList.update q ?rp' (as_rows st) @ [(j, ?row)]"
        using q(1) by (rule update_append_present)
      finally have "as_rows st2 = as_rows ?s1 @ [(j, ?row)]" by simp
      moreover have "j \<notin> set (map fst (as_rows ?s1))" using update_present_keys [OF q(1)] j(5) by simp
      ultimately show ?thesis
        unfolding fst_res using Some st2 rp(1) ida by (intro synced_insert [OF s1 j(1) _ ida m]) simp_all
    qed
  qed
qed

lemma rows_by_run_lookup:
  assumes "distinct (map fst (as_rows st))" "(i, r) \<in> set (list_artifacts_by_run run st)"
  shows "map_of (as_rows st) i = Some r" "aw_run_id r = run"
  using assms by (auto simp: list_artifacts_by_run_def)

lemma durable_step_synced: "synced st \<Longrightarrow> op_durable op st \<Longrightarrow> synced (store_step sha rs op st)"
proof (cases op)
  case (Op_load run)
  assume "synced st"
  then have "\<forall>(i, r) \<in> set (list_artifacts_by_run run st). map_of (as_rows st) i = Some r"
    using rows_by_run_lookup(1) [of st _ _ run] by (auto simp: synced_def)
  with \<open>synced st\<close> show ?thesis by (simp add: Op_load load_from_db_def load_rows_synced)
qed (simp_all add: status_synced bind_synced create_synced del: op_durable.simps(1))

lemma durable_steps_synced: "synced st \<Longrightarrow> all_durable sha rs ops st \<Longrightarrow> synced (steps (store_step sha rs) ops st)"
  by (induction ops arbitrary: st) (simp_all add: durable_step_synced)

section \<open>Restarts\<close>

text \<open>The store of a new process over the same files and rows.\<close>

definition restarted_store :: "artifact_store \<Rightarrow> artifact_store" where
  "restarted_store st = st\<lparr>as_registry := [], as_by_task := [], as_by_run := []\<rparr>"

lemma load_rows_lookup:
  assumes "distinct (map fst rows)" "\<forall>i \<in> set (map fst rows). i \<notin> set (map fst (as_registry st)) \<and> i \<noteq> []"
  shows "map_of (as_registry (fst (load_rows run rows n st))) j =
    (case map_of rows j of Some r \<Rightarrow> Some (artifact_of_row j r) | None \<Rightarrow> map_of (as_registry st) j)"
  using assms
proof (induction run rows n st rule: load_rows.induct)
  case (2 run i r rows n st)
  let ?st = "(put_artifact (artifact_of_row i r) st)\<lparr>as_by_task := index_add (aw_task_id r) i (as_by_task st),
    as_by_run := index_add run i (as_by_run st)\<rparr>"
  have new: "\<not> (i = [] \<or> i \<in> set (map fst (as_registry st)))" using 2(4) by simp
  have id: "at_id (artifact_of_row i r) = i" by (simp add: artifact_of_row_def)
  have "\<forall>j \<in> set (map fst rows). j \<notin> set (map fst (as_registry ?st)) \<and> j \<noteq> []"
    using 2(3,4) by (auto simp: id set_keys_update simp del: set_map)
  with 2(2) [OF new] 2(3) have "map_of (as_registry (fst (load_rows run rows (n + 1) ?st))) j =
    (case map_of rows j of Some r \<Rightarrow> Some (artifact_of_row j r) | None \<Rightarrow> map_of (as_registry ?st) j)"
    by simp
  moreover have "i = j \<Longrightarrow> map_of rows j = None" using 2(3) by (auto simp: map_of_eq_None_iff)
  ultimately show ?case using new id by (auto simp del: set_map split: option.split)
qed simp

lemma distinct_rows_by_run: "distinct (map fst (as_rows st)) \<Longrightarrow> distinct (map fst (list_artifacts_by_run run st))"
proof -
  assume "distinct (map fst (as_rows st))"
  then have "distinct (map fst (filter (\<lambda>(_, r). aw_run_id r = run) (as_rows st)))" by (rule distinct_map_filter)
  then show ?thesis
    unfolding list_artifacts_by_run_def
    by (metis (no_types, lifting) mset_eq_imp_distinct_iff mset_map mset_sort)
qed

lemma restart_same_artifacts_parts:
  assumes "synced st" "all_durable sha rs ops st"
    and "map_of (as_registry (steps (store_step sha rs) ops st)) i = Some a" "at_run_id a = run"
    and "\<forall>j \<in> set (map fst (as_rows (steps (store_step sha rs) ops st))). j \<noteq> []"
  shows "\<exists>t. get_artifact (fst (load_from_db run (restarted_store (steps (store_step sha rs) ops st)))) i
      = Some (a\<lparr>at_created_at := t\<rparr>)"
    and "snd (load_from_db run (fst (load_from_db run (restarted_store (steps (store_step sha rs) ops st))))) = 0"
proof -
  let ?st = "steps (store_step sha rs) ops st"
  let ?rows = "list_artifacts_by_run run ?st"
  have s: "synced ?st" using assms(1,2) by (rule durable_steps_synced)
  then have d: "distinct (map fst (as_rows ?st))" by (simp add: synced_def)
  have rows: "list_artifacts_by_run run (restarted_store ?st) = ?rows"
    by (simp add: list_artifacts_by_run_def restarted_store_def)
  have ne: "\<forall>j \<in> set (map fst ?rows). j \<notin> set (map fst (as_registry (restarted_store ?st))) \<and> j \<noteq> []"
    using assms(5) by (auto simp: list_artifacts_by_run_def restarted_store_def)
  note look = load_rows_lookup [OF distinct_rows_by_run [OF d] ne, where run = run and n = 0]
  obtain r where r: "at_id a = i" "map_of (as_rows ?st) i = Some r" "row_matches i a r"
    using s assms(3) by (rule syncedD)
  have "aw_run_id r = run" using r(3) assms(4) by (cases a) (simp add: row_matches_def artifact_of_row_def)
  then have "(i, r) \<in> set ?rows" using map_of_SomeD [OF r(2)] by (simp add: list_artifacts_by_run_def)
  then have "map_of ?rows i = Some r" by (rule map_of_is_SomeI [OF distinct_rows_by_run [OF d]])
  with look [of i] r(3) have "get_artifact (fst (load_from_db run (restarted_store ?st))) i = Some (a\<lparr>at_created_at := aw_created_at r\<rparr>)"
    by (simp add: get_artifact_def load_from_db_def rows row_matches_def)
  then show "\<exists>t. get_artifact (fst (load_from_db run (restarted_store ?st))) i = Some (a\<lparr>at_created_at := t\<rparr>)" by blast
  have all: "\<forall>j \<in> set (map fst ?rows). j \<in> set (map fst (as_registry (fst (load_rows run ?rows 0 (restarted_store ?st)))))"
  proof
    fix j
    assume "j \<in> set (map fst ?rows)"
    then obtain x where "map_of ?rows j = Some x" using in_keys_map_of [of j ?rows] by auto
    with look [of j] show "j \<in> set (map fst (as_registry (fst (load_rows run ?rows 0 (restarted_store ?st)))))"
      by (intro map_of_in_keys) simp
  qed
  have skip: "\<forall>j \<in> set (map fst rows'). j \<in> set (map fst (as_registry x)) \<Longrightarrow> load_rows run rows' n x = (x, n)"
    for rows' n and x :: artifact_store
  proof (induction rows' arbitrary: n)
    case (Cons p rows')
    then show ?case by (cases p) (simp del: set_map)
  qed simp
  have "as_rows (fst (load_rows run rows' n x)) = as_rows x" for rows' n x
    by (induction run rows' n x rule: load_rows.induct) (simp_all del: set_map)
  then have "list_artifacts_by_run run (fst (load_rows run ?rows 0 (restarted_store ?st))) = ?rows"
    by (simp add: list_artifacts_by_run_def restarted_store_def)
  with skip [OF all] show "snd (load_from_db run (fst (load_from_db run (restarted_store ?st)))) = 0"
    by (simp add: load_from_db_def rows)
qed

text \<open>C18: After any series of creations under fresh ids, status changes, reloads and written commit bindings, a new
  process that loads the run has every artifact the old one had of the run, with the same status, version, hash,
  commit and lineage, only the creation instant being the one of the row; and loading again changes nothing.\<close>

theorem restart_same_artifacts:
  assumes "synced st" "all_durable sha rs ops st"
    and "map_of (as_registry (steps (store_step sha rs) ops st)) i = Some a" "at_run_id a = run"
    and "\<forall>j \<in> set (map fst (as_rows (steps (store_step sha rs) ops st))). j \<noteq> []"
  shows "(\<exists>t. get_artifact (fst (load_from_db run (restarted_store (steps (store_step sha rs) ops st)))) i
      = Some (a\<lparr>at_created_at := t\<rparr>)) \<and>
    snd (load_from_db run (fst (load_from_db run (restarted_store (steps (store_step sha rs) ops st))))) = 0"
  by (intro conjI restart_same_artifacts_parts [OF assms])

definition repair_ops :: "artifact_op list" where
  "repair_ops = [Op_create True True ''a1'' 1 2 (demo_args ''report.md'' ''old'' None),
     Op_create True True ''a2'' 3 4 (demo_args ''fix.md'' ''new'' (Some ''a1'')), Op_status Art_VERIFIED True ''a2'']"

theorem restart_same_artifacts_witness:
  "\<exists>b. get_artifact (fst (load_from_db ''run'' (restarted_store (steps (store_step id below_run) repair_ops demo_store)))) ''a2'' = Some b
     \<and> at_status b = Art_VERIFIED \<and> at_version b = 2 \<and> at_predecessor_id b = Some ''a1''"
proof -
  have s: "synced demo_store" by (simp add: synced_def wf_store_def demo_store_def)
  have d: "all_durable id below_run repair_ops demo_store"
    unfolding repair_ops_def all_durable.simps op_durable.simps by (intro conjI TrueI) code_simp+
  have v: "map_option (\<lambda>a. (at_status a, at_version a, at_predecessor_id a, at_run_id a))
      (map_of (as_registry (steps (store_step id below_run) repair_ops demo_store)) ''a2'') = Some (Art_VERIFIED, 2, Some ''a1'', ''run'')"
    "\<forall>j \<in> set (map fst (as_rows (steps (store_step id below_run) repair_ops demo_store))). j \<noteq> []"
    by code_simp+
  then obtain a where a: "map_of (as_registry (steps (store_step id below_run) repair_ops demo_store)) ''a2'' = Some a"
    "at_status a = Art_VERIFIED" "at_version a = 2" "at_predecessor_id a = Some ''a1''" "at_run_id a = ''run''"
    by auto
  from restart_same_artifacts [OF s d a(1,5) v(2)] a(2-4) show ?thesis by auto
qed

end
