(* ===== verification/Worker.thy ===== *)
theory Worker
  imports Task_Graph Task_Board Agent_Registry Plan_Approval Reliability Run_Store Mailbox Artifact_Store
    Teammate_Session Lifecycle_Hooks
begin

text \<open>
  \<open>ParallelTeamScheduler._run_one\<close> and its helpers (\<open>app/multiagent/parallel_scheduler.py\<close>): the coroutine that
  reserves an agent for a task, claims, plans, executes, verifies, integrates and settles it. It is a program over
  the state of the components it calls, in which an exception is a value and an early \<open>return\<close> is \<open>None\<close> or the end
  of a sequence. What it does not compute is in a record of arguments: the outcomes of the executor, the worktrees,
  the judge and the file system, the clock, which writes go through, and what the other coroutines do at each await.
  Event payloads, heartbeats and log lines are not modelled.
\<close>

section \<open>State and programs\<close>

record world =
  wd_board :: task_board
  wd_registry :: agent_registry
  wd_sessions :: supervisor
  wd_artifacts :: "artifact_store option"
  wd_plans :: plan_table
  wd_task_runs :: "task_run list"
  wd_mailbox :: mailbox

text \<open>
  \<open>PermissionRequired\<close> carries the id of its request. \<open>TaskCancelled\<close> is asyncio's \<open>CancelledError\<close>, which is no
  \<open>Exception\<close>: an \<open>except Exception\<close> clause lets it pass, a \<open>finally\<close> clause runs.
\<close>

datatype worker_exn = Raised string | PermissionRequired string string | TaskCancelled

fun exn_text :: "worker_exn \<Rightarrow> string" where
  "exn_text (Raised msg) = msg"
| "exn_text (PermissionRequired i msg) = msg"
| "exn_text TaskCancelled = []"

type_synonym 'a worker = "world \<Rightarrow> world \<times> (worker_exn + 'a)"

definition ret :: "'a \<Rightarrow> 'a worker" where
  "ret x w = (w, Inr x)"

definition raise_exn :: "worker_exn \<Rightarrow> 'a worker" where
  "raise_exn e w = (w, Inl e)"

definition andthen :: "'a worker \<Rightarrow> ('a \<Rightarrow> 'b worker) \<Rightarrow> 'b worker" where
  "andthen m k w = (case m w of (w', Inl e) \<Rightarrow> (w', Inl e) | (w', Inr x) \<Rightarrow> k x w')"

definition on_exception :: "'a worker \<Rightarrow> (worker_exn \<Rightarrow> 'a worker) \<Rightarrow> 'a worker" where
  "on_exception m h w =
     (case m w of
        (w', Inl e) \<Rightarrow> if e = TaskCancelled then (w', Inl TaskCancelled) else h e w'
      | (w', Inr x) \<Rightarrow> (w', Inr x))"

text \<open>\<open>finally\<close>: the exception of the clause wins over the one it was entered with.\<close>

definition finally_do :: "'a worker \<Rightarrow> unit worker \<Rightarrow> 'a worker" where
  "finally_do m fin w = (case m w of (w', r) \<Rightarrow> (case fin w' of (w'', Inl e) \<Rightarrow> (w'', Inl e) | (w'', Inr _) \<Rightarrow> (w'', r)))"

definition reading :: "(world \<Rightarrow> 'a) \<Rightarrow> 'a worker" where
  "reading f w = (w, Inr (f w))"

definition changing :: "(world \<Rightarrow> world) \<Rightarrow> unit worker" where
  "changing f w = (f w, Inr ())"

section \<open>Arguments\<close>

record workspace_lease =
  wl_worktree_path :: string
  wl_branch :: string

text \<open>How the executor ends when it is waited for.\<close>

datatype execution = Exec_success "string list" | Exec_failure "string option" | Exec_raises worker_exn

record worker_env =
  wv_run_id :: string
  wv_hint :: "string option"
  wv_cancelled :: "nat \<Rightarrow> bool"  \<comment> \<open>the run's cancel event when it is read for the k-th time\<close>
  wv_agent_cancelled :: bool  \<comment> \<open>the assignment's own token after execution\<close>
  wv_write :: "nat \<Rightarrow> bool"
  wv_clock :: "nat \<Rightarrow> nat \<Rightarrow> time"
  wv_text :: string  \<comment> \<open>the text of a storage exception\<close>
  wv_others :: "nat \<Rightarrow> world \<Rightarrow> world"  \<comment> \<open>the other coroutines at the k-th await\<close>
  wv_await :: "nat \<Rightarrow> worker_exn option"  \<comment> \<open>what it raises: the scheduler's cancellation, or its own exception\<close>
  wv_detached :: "nat \<Rightarrow> board_task option"  \<comment> \<open>the claimed object, once the board holds another one\<close>
  wv_hooks :: hook_engine
  wv_node :: "task_node option"
  wv_ids :: "nat \<Rightarrow> string"
  wv_wakeup_text :: string
  wv_worktrees :: bool
  wv_lease :: "worker_exn + workspace_lease"
  wv_integration :: bool
  wv_commit :: "worker_exn + string"
  wv_integrate :: "worker_exn + string list option"  \<comment> \<open>the conflicts of a conflict\<close>
  wv_execution :: execution
  wv_finishes_within :: "seconds \<Rightarrow> bool"
  wv_timeout :: seconds
  wv_timeout_text :: "seconds \<Rightarrow> string"
  wv_has_verifier :: bool
  wv_verdict :: "(string \<times> pydict) option"  \<comment> \<open>verdict value and record; \<open>None\<close> when the judge raises\<close>
  wv_sha :: "string \<Rightarrow> string"
  wv_resolve :: "string \<Rightarrow> path"
  wv_policy :: retry_policy
  wv_replan :: "world \<Rightarrow> world"

section \<open>Calls of the components\<close>

definition on_board :: "worker_env \<Rightarrow> (task_board \<Rightarrow> 'a board_result) \<Rightarrow> 'a worker" where
  "on_board e f w =
     (case f (wd_board w) of
        (b, Inl _) \<Rightarrow> (w\<lparr>wd_board := b\<rparr>, Inl (Raised (wv_text e)))
      | (b, Inr x) \<Rightarrow> (w\<lparr>wd_board := b\<rparr>, Inr x))"

definition on_registry :: "worker_env \<Rightarrow> (agent_registry \<Rightarrow> 'a registry_result) \<Rightarrow> 'a worker" where
  "on_registry e f w =
     (case f (wd_registry w) of
        (g, Inl _) \<Rightarrow> (w\<lparr>wd_registry := g\<rparr>, Inl (Raised (wv_text e)))
      | (g, Inr x) \<Rightarrow> (w\<lparr>wd_registry := g\<rparr>, Inr x))"

definition others :: "worker_env \<Rightarrow> nat \<Rightarrow> unit worker" where
  "others e k w = (wv_others e k w, case wv_await e k of None \<Rightarrow> Inr () | Some x \<Rightarrow> Inl x)"

definition session_of :: "string \<Rightarrow> world \<Rightarrow> teammate_session option" where
  "session_of a w = map_of (sv_sessions (wd_sessions w)) a"

definition session_state :: "string \<Rightarrow> world \<Rightarrow> teammate_lifecycle option" where
  "session_state a w = map_option se_lifecycle (session_of a w)"

definition update_session :: "string \<Rightarrow> (teammate_session \<Rightarrow> teammate_session) \<Rightarrow> world \<Rightarrow> world" where
  "update_session a f w =
     (case session_of a w of None \<Rightarrow> w | Some s \<Rightarrow> w\<lparr>wd_sessions := put_session a (f s) (wd_sessions w)\<rparr>)"

definition move_session :: "time \<Rightarrow> string \<Rightarrow> teammate_lifecycle \<Rightarrow> unit worker" where
  "move_session now a target w =
     (case session_of a w of
        None \<Rightarrow> (w, Inr ())
      | Some s \<Rightarrow>
          (case session_transition now target s of
             Inl _ \<Rightarrow> (w, Inl (Raised (illegal_text (se_lifecycle s) target)))
           | Inr s' \<Rightarrow> (w\<lparr>wd_sessions := put_session a s' (wd_sessions w)\<rparr>, Inr ())))"

definition save_session :: "worker_env \<Rightarrow> nat \<Rightarrow> string \<Rightarrow> unit worker" where
  "save_session e k a w =
     (case session_of a w of
        None \<Rightarrow> (w, Inr ())
      | Some s \<Rightarrow>
          if \<not> wv_write e k then (w, Inl (Raised (wv_text e)))
          else (case persist_session s (wd_sessions w) of
                  (sv, Inl _) \<Rightarrow> (w\<lparr>wd_sessions := sv\<rparr>, Inl (Raised (wv_text e)))
                | (sv, Inr _) \<Rightarrow> (w\<lparr>wd_sessions := sv\<rparr>, Inr ())))"

definition identity_of :: "agent_instance \<Rightarrow> agent_identity" where
  "identity_of a = \<lparr>ai_run_id = ag_run_id a, ai_agent_id = ag_agent_id a, ai_profile_id = ag_profile_id a,
     ai_session_id = ag_session_id a, ai_thread_id = ag_thread_id a,
     ai_checkpoint_namespace = ag_checkpoint_namespace a, ai_workspace_root = ag_workspace_root a,
     ai_worktree = (if ag_worktree_path a \<noteq> [] then ag_worktree_path a
       else case map_of (ag_metadata a) ''worktree_path'' of Some (PyStr p) \<Rightarrow> p | _ \<Rightarrow> []),
     ai_mailbox_cursor = ag_mailbox_cursor a\<rparr>"

definition open_session :: "worker_env \<Rightarrow> agent_instance \<Rightarrow> unit worker" where
  "open_session e a w =
     (case actor_for (wv_clock e 1 0) (identity_of a) (wd_sessions w) of
        (sv, Inl _) \<Rightarrow> (w\<lparr>wd_sessions := sv\<rparr>, Inl (Raised (wv_text e)))
      | (sv, Inr _) \<Rightarrow> (w\<lparr>wd_sessions := sv\<rparr>, Inr ()))"

definition hook_context :: "worker_env \<Rightarrow> string \<Rightarrow> string \<Rightarrow> pydict" where
  "hook_context e a tid = [(''run_id'', PyStr (wv_run_id e)), (''agent_id'', PyStr a), (''task_id'', PyStr tid)]"

definition emit :: "worker_env \<Rightarrow> lifecycle_event \<Rightarrow> pydict \<Rightarrow> hook_result worker" where
  "emit e ev context = ret (fst (emit_async ev context (wv_hooks e)))"

definition feedback_or :: "hook_result \<Rightarrow> string \<Rightarrow> string" where
  "feedback_or r d = (if hr_feedback r \<noteq> [] then hr_feedback r else d)"

definition free_agent :: "worker_env \<Rightarrow> nat \<Rightarrow> string \<Rightarrow> string \<Rightarrow> unit worker" where
  "free_agent e k a tid =
     andthen (on_registry e (release_reservation (wv_write e k) (wv_clock e k) a (Some tid))) (\<lambda>_. ret ())"

definition give_back :: "worker_env \<Rightarrow> nat \<Rightarrow> string \<Rightarrow> string \<Rightarrow> string \<Rightarrow> unit worker" where
  "give_back e k a tid reason =
     andthen (on_board e (release (wv_write e k) (wv_clock e k 0) tid a reason (Some (wv_run_id e)))) (\<lambda>_. ret ())"

definition finish_task_run :: "worker_env \<Rightarrow> nat \<Rightarrow> string \<Rightarrow> string \<Rightarrow> string option \<Rightarrow> unit worker" where
  "finish_task_run e k rid st err w =
     (if \<not> wv_write e k then (w, Inl (Raised (wv_text e)))
      else (w\<lparr>wd_task_runs := fst (update_task_run_status (wv_clock e k 0) rid st None err (wd_task_runs w))\<rparr>, Inr ()))"

text \<open>The task object the coroutine got from \<open>claim\<close>: the board's, unless the board holds another one by now.\<close>

definition own_task :: "worker_env \<Rightarrow> nat \<Rightarrow> string \<Rightarrow> world \<Rightarrow> board_task option" where
  "own_task e k tid w =
     (case wv_detached e k of Some t \<Rightarrow> Some t | None \<Rightarrow> map_of (board_tasks (wd_board w)) (wv_run_id e, tid))"

definition write_own :: "worker_env \<Rightarrow> nat \<Rightarrow> string \<Rightarrow> (board_task \<Rightarrow> board_task) \<Rightarrow> unit worker" where
  "write_own e k tid f w =
     (case own_task e k tid w of
        None \<Rightarrow> (w, Inr ())
      | Some t \<Rightarrow> andthen (on_board e (add (wv_write e k) (f t))) (\<lambda>_. ret ()) w)"

definition leave :: "unit worker \<Rightarrow> 'a option worker" where
  "leave m = andthen m (\<lambda>_. ret None)"

definition when_true :: "bool \<Rightarrow> unit worker \<Rightarrow> unit worker" where
  "when_true b m = (if b then m else ret ())"

section \<open>Reservation and claim\<close>

definition reserve_worker :: "worker_env \<Rightarrow> board_task \<Rightarrow> agent_instance option worker" where
  "reserve_worker e t = on_registry e (reserve_idle_agent (wv_write e 0) (wv_clock e 0) (wv_run_id e)
     (bt_required_capabilities t) (bt_task_id t) (wv_hint e))"

text \<open>Without an idle agent the busy ones that could serve are woken; an exception there is ignored.\<close>

definition busy_agents :: "worker_env \<Rightarrow> board_task \<Rightarrow> agent_registry \<Rightarrow> string list" where
  "busy_agents e t g =
     map ag_agent_id (filter (\<lambda>a. ag_status a = Agent_RUNNING \<and>
         list_ex (\<lambda>c. c \<in> set (ag_capabilities a)) (bt_required_capabilities t)) (agents_by_run (wv_run_id e) g))"

definition wake_busy :: "worker_env \<Rightarrow> board_task \<Rightarrow> world \<Rightarrow> world" where
  "wake_busy e t w =
     (let busy = busy_agents e t (wd_registry w)
      in if busy = [] then w
         else w\<lparr>wd_mailbox := fst (wake_idle_agents (wv_wakeup_text e) (wv_clock e 0) (wv_write e) (wv_ids e) 0
           (wv_run_id e) busy (wv_wakeup_text e) 0 (wd_mailbox w))\<rparr>)"

definition claim_task :: "worker_env \<Rightarrow> string \<Rightarrow> string \<Rightarrow> board_task option worker" where
  "claim_task e tid a =
     andthen (reading (session_state a)) (\<lambda>st.
     andthen (when_true (st = Some Mate_IDLE)
       (andthen (move_session (wv_clock e 1 1) a Mate_CLAIMING) (\<lambda>_. save_session e 1 a))) (\<lambda>_.
     andthen (on_board e (claim (wv_write e 2) (wv_clock e 2 0) (wv_clock e 2 1) tid a (Some (wv_run_id e)))) (\<lambda>c.
       if \<not> cr_success c then leave (free_agent e 3 a tid) else ret (cr_task c))))"

definition start_task :: "worker_env \<Rightarrow> string \<Rightarrow> string \<Rightarrow> unit option worker" where
  "start_task e tid a =
     andthen (emit e Ev_TASK_CLAIMED (hook_context e a tid)) (\<lambda>claim_hook.
     andthen (others e 0) (\<lambda>_.
       if vetoed claim_hook then
         leave (andthen (give_back e 4 a tid (feedback_or claim_hook ''TaskClaimed hook blocked'')) (\<lambda>_. free_agent e 5 a tid))
       else
         andthen (on_board e (start (wv_write e 6) (wv_clock e 6 0) tid a (Some (wv_run_id e)))) (\<lambda>started.
           if \<not> started then
             leave (andthen (give_back e 7 a tid ''start_failed'') (\<lambda>_. free_agent e 8 a tid))
           else
             andthen (emit e Ev_TASK_STARTED (hook_context e a tid)) (\<lambda>start_hook.
             andthen (others e 1) (\<lambda>_.
               if vetoed start_hook then
                 leave (andthen (give_back e 9 a tid (feedback_or start_hook ''TaskStarted hook blocked'')) (\<lambda>_. free_agent e 10 a tid))
               else ret (Some ()))))))"

section \<open>Plan approval\<close>

text \<open>A list of texts, or a text, from the metadata of the node; \<open>None\<close> where the model of the plan rejects it.\<close>

fun str_of :: "pyval \<Rightarrow> string option" where
  "str_of (PyStr s) = Some s"
| "str_of _ = None"

definition str_list_at :: "pydict \<Rightarrow> string \<Rightarrow> string list \<Rightarrow> string list option" where
  "str_list_at md k d =
     (case map_of md k of
        None \<Rightarrow> Some d
      | Some (PyList vs) \<Rightarrow> if list_all (\<lambda>v. str_of v \<noteq> None) vs then Some (map (\<lambda>v. the (str_of v)) vs) else None
      | Some _ \<Rightarrow> None)"

definition plan_of_node :: "worker_env \<Rightarrow> string \<Rightarrow> string \<Rightarrow> task_node \<Rightarrow> teammate_plan option" where
  "plan_of_node e tid a n =
     (let md = node_metadata n
      in case (str_list_at md ''plan_files'' [], str_list_at md ''plan_steps'' [node_objective n],
               str_list_at md ''plan_risks'' [], (case map_of md ''rollback'' of None \<Rightarrow> Some ''revert task commit'' | Some v \<Rightarrow> str_of v)) of
           (Some files, Some steps, Some risks, Some back) \<Rightarrow>
             Some \<lparr>tp_plan_id = wv_ids e 0, tp_run_id = wv_run_id e, tp_agent_id = a, tp_task_id = tid, tp_files = files,
               tp_steps = steps,
               tp_test_strategy = (if oc_acceptance_criteria (node_output_contract n) \<noteq> []
                 then oc_acceptance_criteria (node_output_contract n) else [''run task-specific verification'']),
               tp_risks = risks, tp_rollback = back, tp_status = Plan_WAITING, tp_submitted_at = wv_clock e 11 0,
               tp_decided_at = None, tp_decided_by = None, tp_feedback = []\<rparr>
         | _ \<Rightarrow> None)"

definition known_plan :: "worker_env \<Rightarrow> string \<Rightarrow> world \<Rightarrow> teammate_plan option" where
  "known_plan e tid w =
     (case own_task e 0 tid w of
        None \<Rightarrow> None
      | Some t \<Rightarrow> (case map_of (bt_metadata t) ''plan_id'' of Some (PyStr i) \<Rightarrow> if i = [] then None else get_plan i (wd_plans w) | _ \<Rightarrow> None))"

definition submit_node_plan :: "worker_env \<Rightarrow> string \<Rightarrow> string \<Rightarrow> task_node \<Rightarrow> teammate_plan worker" where
  "submit_node_plan e tid a n =
     andthen (move_session (wv_clock e 11 1) a Mate_PLANNING) (\<lambda>_.
       case plan_of_node e tid a n of
         None \<Rightarrow> raise_exn (Raised (wv_text e))
       | Some p \<Rightarrow>
           if \<not> wv_write e 11 then raise_exn (Raised (wv_text e))
           else
             andthen (reading (\<lambda>w. snd (submit_plan (wv_clock e 11 2) p (wd_plans w)))) (\<lambda>p'.
             andthen (changing (\<lambda>w. w\<lparr>wd_plans := fst (submit_plan (wv_clock e 11 2) p (wd_plans w))\<rparr>)) (\<lambda>_.
             andthen (write_own e 12 tid (\<lambda>t. t\<lparr>bt_metadata := AList.update ''plan_id'' (PyStr (tp_plan_id p')) (bt_metadata t)\<rparr>)) (\<lambda>_.
               ret p'))))"

definition park_for_plan :: "worker_env \<Rightarrow> string \<Rightarrow> string \<Rightarrow> teammate_plan \<Rightarrow> unit worker" where
  "park_for_plan e tid a p =
     andthen (reading (session_state a)) (\<lambda>st.
     andthen (when_true (st = Some Mate_PLANNING) (move_session (wv_clock e 13 0) a Mate_WAITING_PLAN_APPROVAL)) (\<lambda>_.
     andthen (write_own e 13 tid (\<lambda>t. t\<lparr>bt_status := Board_BLOCKED,
         bt_last_error := Some (if tp_feedback p \<noteq> [] then tp_feedback p else ''waiting_plan_approval'')\<rparr>)) (\<lambda>_.
     andthen (save_session e 14 a) (\<lambda>_. free_agent e 15 a tid))))"

definition requires_plan :: "worker_env \<Rightarrow> bool" where
  "requires_plan e = (case wv_node e of None \<Rightarrow> False | Some n \<Rightarrow> dict_truthy (node_metadata n) ''require_plan_approval'')"

definition approve_plan :: "worker_env \<Rightarrow> string \<Rightarrow> string \<Rightarrow> unit option worker" where
  "approve_plan e tid a =
     (if \<not> requires_plan e then ret (Some ())
      else andthen (reading (known_plan e tid)) (\<lambda>known.
           andthen (case known of Some p \<Rightarrow> ret p | None \<Rightarrow> submit_node_plan e tid a (the (wv_node e))) (\<lambda>p.
             if tp_status p \<noteq> Plan_APPROVED then leave (park_for_plan e tid a p) else ret (Some ()))))"

section \<open>Starting the assignment\<close>

definition to_running :: "worker_env \<Rightarrow> string \<Rightarrow> string \<Rightarrow> unit option worker" where
  "to_running e tid a =
     andthen (on_registry e (transition (wv_write e 16) (wv_clock e 16) a Agent_RUNNING)) (\<lambda>moved.
       if \<not> moved then
         leave (andthen (give_back e 17 a tid ''agent_transition_failed'') (\<lambda>_. free_agent e 18 a tid))
       else
         andthen (reading (session_state a)) (\<lambda>st.
         andthen (when_true (st = Some Mate_CLAIMING) (move_session (wv_clock e 19 0) a Mate_RUNNING)) (\<lambda>_.
         andthen (changing (update_session a (\<lambda>s. s\<lparr>se_current_task_id := Some (PyStr tid), se_cancellation_requested := False\<rparr>))) (\<lambda>_.
         andthen (save_session e 19 a) (\<lambda>_. ret (Some ()))))))"

definition open_task_run :: "worker_env \<Rightarrow> agent_instance \<Rightarrow> string \<Rightarrow> unit worker" where
  "open_task_run e a tid w =
     (if \<not> wv_write e 20 then (w, Inl (Raised (wv_text e)))
      else case insert_task_run \<lparr>tk_task_run_id = wv_ids e 1, tk_task_id = tid, tk_agent_id = ag_agent_id a,
              tk_run_id = wv_run_id e,
              tk_attempt = (case own_task e 1 tid w of None \<Rightarrow> 1 | Some t \<Rightarrow> bt_attempts t + 1),
              tk_status = ''running'', tk_checkpoint_id = None, tk_artifact_ids = [], tk_started_at = wv_clock e 20 0,
              tk_finished_at = None, tk_error = None,
              tk_metadata = [(''session_id'', PyStr (ag_session_id a)), (''thread_id'', PyStr (ag_thread_id a))]\<rparr>
              (wd_task_runs w) of
             Inl _ \<Rightarrow> (w, Inl (Raised (wv_text e)))
           | Inr rows \<Rightarrow> (w\<lparr>wd_task_runs := rows\<rparr>, Inr ()))"

section \<open>Workspace and inputs\<close>

text \<open>A missing permission parks the task: the session waits, the task is BLOCKED with the request's id.\<close>

definition park_for_permission :: "worker_env \<Rightarrow> nat \<Rightarrow> string \<Rightarrow> string \<Rightarrow> string \<Rightarrow> string \<Rightarrow> string \<Rightarrow> unit worker" where
  "park_for_permission e k tid a rid i msg =
     andthen (move_session (wv_clock e k 0) a Mate_WAITING_PERMISSION) (\<lambda>_.
     andthen (write_own e k tid (\<lambda>t. t\<lparr>bt_status := Board_BLOCKED, bt_last_error := Some msg,
         bt_metadata := AList.update ''permission_request_id'' (PyStr i) (bt_metadata t)\<rparr>)) (\<lambda>_.
       finish_task_run e (k + 1) rid ''waiting_permission'' (Some msg)))"

definition bind_workspace :: "worker_env \<Rightarrow> string \<Rightarrow> workspace_lease \<Rightarrow> unit worker" where
  "bind_workspace e a l =
     andthen (changing (\<lambda>w. w\<lparr>wd_registry := (case get_agent (wd_registry w) a of
           None \<Rightarrow> wd_registry w
         | Some x \<Rightarrow> put_agent a (x\<lparr>ag_workspace_root := wl_worktree_path l, ag_worktree_path := wl_worktree_path l,
             ag_metadata := AList.update ''git_branch'' (PyStr (wl_branch l))
               (AList.update ''worktree_path'' (PyStr (wl_worktree_path l)) (ag_metadata x))\<rparr>) (wd_registry w))\<rparr>)) (\<lambda>_.
     andthen (changing (update_session a (\<lambda>s. s\<lparr>se_workspace := wl_worktree_path l, se_worktree := wl_worktree_path l\<rparr>))) (\<lambda>_.
       save_session e 23 a))"

text \<open>The lease if worktrees are used; \<open>None\<close> after parking.\<close>

definition take_workspace :: "worker_env \<Rightarrow> string \<Rightarrow> string \<Rightarrow> string \<Rightarrow> workspace_lease option option worker" where
  "take_workspace e tid a rid =
     (if \<not> wv_worktrees e then ret (Some None)
      else case wv_lease e of
             Inl x \<Rightarrow> (case x of
                 PermissionRequired i msg \<Rightarrow> leave (park_for_permission e 21 tid a rid i msg)
               | _ \<Rightarrow> raise_exn x)
           | Inr l \<Rightarrow> andthen (bind_workspace e a l) (\<lambda>_. ret (Some (Some l))))"

text \<open>
  \<open>_collect_dependency_artifacts\<close>: the ids in order with their purpose, or the text of the error. The source ids of
  a repair are stored as texts; another entry is taken to raise.
\<close>

definition check_input :: "worker_env \<Rightarrow> artifact_store \<Rightarrow> bool \<Rightarrow> string \<Rightarrow> string + unit" where
  "check_input e st verified i =
     (case Artifact_Store.get_artifact st i of
        None \<Rightarrow> Inl (''artifact_not_found:'' @ i)
      | Some x \<Rightarrow>
          if at_run_id x \<noteq> wv_run_id e then Inl (''artifact_wrong_run:'' @ i)
          else if verified \<and> at_status x \<noteq> Art_VERIFIED then Inl (''artifact_not_verified:'' @ i)
          else case verify_integrity (wv_sha e) (wv_resolve e) st i of
                 Inl _ \<Rightarrow> Inl (wv_text e)
               | Inr ok \<Rightarrow> if ok then Inr () else Inl (''artifact_integrity_failed:'' @ i))"

fun collect_inputs :: "worker_env \<Rightarrow> artifact_store \<Rightarrow> bool \<Rightarrow> string \<Rightarrow> string list \<Rightarrow> (string \<times> string) list
    \<Rightarrow> string + (string \<times> string) list" where
  "collect_inputs e st verified purpose [] acc = Inr acc"
| "collect_inputs e st verified purpose (i # is) acc =
     (if i \<in> set (map fst acc) then collect_inputs e st verified purpose is acc
      else case check_input e st verified i of
             Inl msg \<Rightarrow> Inl msg
           | Inr _ \<Rightarrow> collect_inputs e st verified purpose is (acc @ [(i, purpose)]))"

fun collect_dependencies :: "worker_env \<Rightarrow> artifact_store \<Rightarrow> task_board \<Rightarrow> string list \<Rightarrow> (string \<times> string) list
    \<Rightarrow> string + (string \<times> string) list" where
  "collect_dependencies e st b [] acc = Inr acc"
| "collect_dependencies e st b (d # ds) acc =
     (case Task_Board.get d (Some (wv_run_id e)) b of
        None \<Rightarrow> Inl (''dependency_not_verified:'' @ d)
      | Some t \<Rightarrow>
          if bt_status t \<noteq> Board_SUCCEEDED then Inl (''dependency_not_verified:'' @ d)
          else case collect_inputs e st True ''dependency'' (bt_produced_artifact_ids t) acc of
                 Inl msg \<Rightarrow> Inl msg
               | Inr acc' \<Rightarrow> collect_dependencies e st b ds acc')"

definition collect_dependency_artifacts :: "worker_env \<Rightarrow> board_task \<Rightarrow> world \<Rightarrow> string + (string \<times> string) list" where
  "collect_dependency_artifacts e t w =
     (case wd_artifacts w of
        None \<Rightarrow> Inr []
      | Some st \<Rightarrow>
          (case collect_dependencies e st (wd_board w) (bt_dependencies t) [] of
             Inl msg \<Rightarrow> Inl msg
           | Inr acc \<Rightarrow>
               (case str_list_at (bt_metadata t) ''source_artifact_ids'' [] of
                  None \<Rightarrow> Inl (wv_text e)
                | Some is \<Rightarrow> collect_inputs e st False ''repair_source'' is acc)))"

definition gather_inputs :: "worker_env \<Rightarrow> string \<Rightarrow> string \<Rightarrow> (string \<times> string) list worker" where
  "gather_inputs e tid a w =
     (case own_task e 2 tid w of
        None \<Rightarrow> (w, Inr [])
      | Some t \<Rightarrow>
          (case collect_dependency_artifacts e t w of
             Inl msg \<Rightarrow> (w, Inl (Raised msg))
           | Inr inputs \<Rightarrow>
               (w\<lparr>wd_mailbox := fst (receive (wv_clock e 24) (wv_write e) a 20 (wd_mailbox w))\<rparr>, Inr inputs)))"

section \<open>Execution\<close>

definition effective_timeout :: "worker_env \<Rightarrow> string list \<Rightarrow> seconds" where
  "effective_timeout e caps =
     (case wv_node e of
        Some n \<Rightarrow>
          if bud_max_seconds (node_budget n) > 0 then bud_max_seconds (node_budget n)
          else if capability_timeout (Some caps) \<noteq> 0 then capability_timeout (Some caps) else wv_timeout e
      | None \<Rightarrow> if capability_timeout (Some caps) \<noteq> 0 then capability_timeout (Some caps) else wv_timeout e)"

definition timed_out :: "worker_env \<Rightarrow> string list \<Rightarrow> bool" where
  "timed_out e caps \<longleftrightarrow> wv_timeout e > 0 \<and> \<not> wv_finishes_within e (effective_timeout e caps)"

definition timeout_error :: "worker_env \<Rightarrow> string list \<Rightarrow> string" where
  "timeout_error e caps = ''task execution timed out after '' @ wv_timeout_text e (effective_timeout e caps)"

definition execute :: "worker_env \<Rightarrow> string list \<Rightarrow> execution worker" where
  "execute e caps =
     andthen (others e 2) (\<lambda>_.
       if timed_out e caps then raise_exn (Raised (timeout_error e caps))
       else case wv_execution e of Exec_raises x \<Rightarrow> raise_exn x | r \<Rightarrow> ret r)"

section \<open>Verification\<close>

text \<open>A copy of the task is changed and stored again.\<close>

definition edit_task :: "worker_env \<Rightarrow> nat \<Rightarrow> string \<Rightarrow> (board_task \<Rightarrow> board_task) \<Rightarrow> unit worker" where
  "edit_task e k tid f w =
     (case Task_Board.get tid (Some (wv_run_id e)) (wd_board w) of
        None \<Rightarrow> (w, Inr ())
      | Some t \<Rightarrow> andthen (on_board e (add (wv_write e k) (f t))) (\<lambda>_. ret ()) w)"

definition own_artifacts :: "worker_env \<Rightarrow> string \<Rightarrow> artifact_store \<Rightarrow> artifact list" where
  "own_artifacts e tid st = filter (\<lambda>x. at_run_id x = wv_run_id e) (artifacts_by_task tid st)"

definition intact :: "worker_env \<Rightarrow> artifact_store \<Rightarrow> artifact \<Rightarrow> bool" where
  "intact e st x \<longleftrightarrow> verify_integrity (wv_sha e) (wv_resolve e) st (at_id x) = Inr True"

definition tampered_ids :: "worker_env \<Rightarrow> string \<Rightarrow> artifact_store \<Rightarrow> string list" where
  "tampered_ids e tid st = map at_id (filter (\<lambda>x. \<not> intact e st x) (own_artifacts e tid st))"

definition requires_artifact :: "worker_env \<Rightarrow> bool" where
  "requires_artifact e = (case wv_node e of None \<Rightarrow> False | Some n \<Rightarrow> oc_artifact_type (node_output_contract n) \<noteq> ''any'')"

definition put_metadata :: "string \<Rightarrow> pyval \<Rightarrow> board_task \<Rightarrow> board_task" where
  "put_metadata k v t = t\<lparr>bt_metadata := AList.update k v (bt_metadata t)\<rparr>"

definition tampered_record :: "string list \<Rightarrow> pyval" where
  "tampered_record is = PyDict [(''verdict'', PyStr ''repair''), (''summary'', PyStr ''artifact integrity check failed''),
     (''tampered_artifact_ids'', PyList (map PyStr is))]"

text \<open>The judged part runs in a \<open>try\<close>: an exception of the judge, or of the write of its record, is a failed check.\<close>

definition judge_task :: "worker_env \<Rightarrow> string \<Rightarrow> bool worker" where
  "judge_task e tid =
     (case wv_verdict e of
        None \<Rightarrow> ret False
      | Some (verdict, evidence) \<Rightarrow>
          on_exception
            (andthen (edit_task e 27 tid (put_metadata ''verification'' (PyDict evidence))) (\<lambda>_. ret (verdict = ''pass'')))
            (\<lambda>_. ret False))"

definition verify_task :: "worker_env \<Rightarrow> string \<Rightarrow> bool worker" where
  "verify_task e tid =
     (if \<not> wv_has_verifier e then ret True
      else andthen (reading wd_artifacts) (\<lambda>store.
             let tampered = (case store of None \<Rightarrow> [] | Some st \<Rightarrow> tampered_ids e tid st);
                 produced = (case store of None \<Rightarrow> [] | Some st \<Rightarrow> own_artifacts e tid st)
             in if tampered \<noteq> [] then
                  andthen (edit_task e 26 tid (put_metadata ''verification'' (tampered_record tampered))) (\<lambda>_. ret False)
                else if requires_artifact e \<and> produced = [] then ret False
                else judge_task e tid))"

section \<open>Failures and conflicts\<close>

fun category_value :: "failure_category \<Rightarrow> string" where
  "category_value TRANSIENT = ''transient''"
| "category_value RATE_LIMITED = ''rate_limited''"
| "category_value TIMEOUT = ''timeout''"
| "category_value AUTHENTICATION = ''authentication''"
| "category_value PERMISSION = ''permission''"
| "category_value CONTRACT = ''contract''"
| "category_value CANCELLED = ''cancelled''"
| "category_value UNKNOWN = ''unknown''"

definition record_task_failure :: "worker_env \<Rightarrow> nat \<Rightarrow> string \<Rightarrow> string \<Rightarrow> string \<Rightarrow> string \<Rightarrow> retry_decision worker" where
  "record_task_failure e k tid a rid error w =
     (case own_task e k tid w of
        None \<Rightarrow> (w, Inl (Raised (wv_text e)))
      | Some t \<Rightarrow>
          (case decide (wv_policy e) error (bt_attempts t + 1) (bt_max_attempts t) of
             Inl _ \<Rightarrow> (w, Inl (Raised (wv_text e)))
           | Inr d \<Rightarrow>
               andthen (on_board e (fail (wv_write e k) (wv_clock e k 0) (wv_clock e k 1) tid a error (Some (wv_run_id e))
                   (rd_retryable d) (rd_delay_seconds d) (category_value (rd_category d)))) (\<lambda>_.
               andthen (finish_task_run e (k + 1) rid ''failed'' (Some error)) (\<lambda>_. ret d)) w))"

text \<open>\<open>_reject_artifacts_fail_closed\<close>: each id once, exceptions ignored.\<close>

fun reject_each :: "(nat \<Rightarrow> bool) \<Rightarrow> nat \<Rightarrow> string list \<Rightarrow> string list \<Rightarrow> artifact_store \<Rightarrow> artifact_store" where
  "reject_each wr k protected [] st = st"
| "reject_each wr k protected (i # is) st =
     reject_each wr (Suc k) protected is (if i \<in> set protected then st else fst (mark_artifact_rejected (wr k) i st))"

definition reject_artifacts :: "worker_env \<Rightarrow> nat \<Rightarrow> string list \<Rightarrow> string list \<Rightarrow> world \<Rightarrow> world" where
  "reject_artifacts e k is protected w =
     w\<lparr>wd_artifacts := map_option (reject_each (\<lambda>j. wv_write e (k + j)) 0 protected (dedup is)) (wd_artifacts w)\<rparr>"

definition conflict_text :: "string \<Rightarrow> string \<Rightarrow> string \<Rightarrow> string" where
  "conflict_text move expected actual =
     ''task_state_conflict:'' @ move @ '':expected='' @ expected @ '':actual='' @ actual"

definition record_state_conflict :: "worker_env \<Rightarrow> nat \<Rightarrow> string \<Rightarrow> string \<Rightarrow> string \<Rightarrow> board_status \<Rightarrow> string list \<Rightarrow> unit worker" where
  "record_state_conflict e k tid rid move expected is w =
     (let current = Task_Board.get tid (Some (wv_run_id e)) (wd_board w);
          succeeded = (case current of None \<Rightarrow> False | Some t \<Rightarrow> bt_status t = Board_SUCCEEDED);
          cancelled = (case current of None \<Rightarrow> False | Some t \<Rightarrow> bt_status t = Board_CANCELLED);
          protected = (if succeeded then bt_produced_artifact_ids (the current) else []);
          actual = (case current of None \<Rightarrow> ''missing'' | Some t \<Rightarrow> board_status_value (bt_status t));
          st = (if succeeded then ''succeeded'' else if cancelled then ''cancelled'' else ''failed'');
          error = (if succeeded then None else Some (conflict_text move (board_status_value expected) actual))
      in finish_task_run e k rid st error (reject_artifacts e (k + 100) is protected w))"

section \<open>Settling the result\<close>

definition board_flag :: "worker_env \<Rightarrow> (task_board \<Rightarrow> bool board_result) \<Rightarrow> unit worker \<Rightarrow> unit worker \<Rightarrow> unit worker" where
  "board_flag e f refused accepted = andthen (on_board e f) (\<lambda>ok. if ok then accepted else refused)"

definition require_repair :: "worker_env \<Rightarrow> nat \<Rightarrow> string \<Rightarrow> string \<Rightarrow> string \<Rightarrow> string list \<Rightarrow> unit worker \<Rightarrow> unit worker" where
  "require_repair e k tid rid move is accepted =
     board_flag e (mark_repair_required (wv_write e k) (wv_clock e k 0) tid (Some (wv_run_id e)))
       (record_state_conflict e (k + 1) tid rid move Board_VERIFYING is) accepted"

definition reject_by_hook :: "worker_env \<Rightarrow> string \<Rightarrow> string \<Rightarrow> string list \<Rightarrow> hook_result \<Rightarrow> unit worker" where
  "reject_by_hook e tid rid is r =
     andthen (edit_task e 30 tid (put_metadata ''hook_feedback'' (PyStr (hr_feedback r)))) (\<lambda>_.
       require_repair e 31 tid rid ''mark_repair_required'' is
         (andthen (finish_task_run e 33 rid ''failed'' (Some (feedback_or r ''TaskCompleted hook blocked''))) (\<lambda>_.
            others e 7)))"

text \<open>Merging the worker's commit; \<open>False\<close> after a conflict. The task is missing only if others removed it.\<close>

definition integrate_commit :: "worker_env \<Rightarrow> string \<Rightarrow> string \<Rightarrow> string option \<Rightarrow> bool worker" where
  "integrate_commit e tid rid sha =
     (if sha = None \<or> sha = Some [] \<or> \<not> wv_integration e then ret True
      else case wv_integrate e of
             Inl x \<Rightarrow> raise_exn x
           | Inr None \<Rightarrow> ret True
           | Inr (Some conflicts) \<Rightarrow>
               andthen (reading (\<lambda>w. Task_Board.get tid (Some (wv_run_id e)) (wd_board w))) (\<lambda>current.
                 if current = None then raise_exn (Raised (wv_text e))
                 else andthen (edit_task e 34 tid (\<lambda>t. put_metadata ''merge_conflicts'' (PyList (map PyStr conflicts))
                          (t\<lparr>bt_status := Board_REPAIR_REQUIRED\<rparr>))) (\<lambda>_.
                      andthen (finish_task_run e 35 rid ''failed'' (Some ''merge_conflict'')) (\<lambda>_. ret False))))"

text \<open>The loop that marks the evidence verified, ended by the first id that is missing or whose write fails.\<close>

fun verify_each :: "(nat \<Rightarrow> bool) \<Rightarrow> nat \<Rightarrow> string \<Rightarrow> string list \<Rightarrow> artifact_store \<Rightarrow> artifact_store \<times> string option" where
  "verify_each wr k txt [] st = (st, None)"
| "verify_each wr k txt (i # is) st =
     (case mark_artifact_verified (wr k) i st of
        (st', Inl _) \<Rightarrow> (st', Some txt)
      | (st', Inr ok) \<Rightarrow>
          if ok then verify_each wr (Suc k) txt is st' else (st', Some (''artifact status row missing: '' @ i)))"

definition verify_artifacts :: "worker_env \<Rightarrow> string list \<Rightarrow> string option worker" where
  "verify_artifacts e is w =
     (case wd_artifacts w of
        None \<Rightarrow> (w, Inr None)
      | Some st \<Rightarrow>
          (case verify_each (\<lambda>j. wv_write e (200 + j)) 0 (wv_text e) is st of
             (st', failed) \<Rightarrow> (w\<lparr>wd_artifacts := Some st'\<rparr>, Inr failed)))"

definition settle_verified :: "worker_env \<Rightarrow> string \<Rightarrow> string \<Rightarrow> string list \<Rightarrow> unit worker" where
  "settle_verified e tid rid is =
     andthen (verify_artifacts e is) (\<lambda>failed.
       case failed of
         Some msg \<Rightarrow>
           andthen (changing (reject_artifacts e 300 is [])) (\<lambda>_.
             require_repair e 36 tid rid ''artifact_verification_rollback'' is
               (finish_task_run e 38 rid ''failed'' (Some (''artifact_verification_commit_failed: '' @ msg))))
       | None \<Rightarrow>
           board_flag e (mark_verified (wv_write e 39) (wv_clock e 39 0) (wv_clock e 39 1) tid (Some (wv_run_id e)))
             (andthen (changing (reject_artifacts e 400 is [])) (\<lambda>_.
                record_state_conflict e 40 tid rid ''mark_verified'' Board_VERIFYING is))
             (andthen (finish_task_run e 41 rid ''succeeded'' None) (\<lambda>_. others e 8)))"

definition after_verification :: "worker_env \<Rightarrow> string \<Rightarrow> string \<Rightarrow> string \<Rightarrow> string option \<Rightarrow> string list \<Rightarrow> bool \<Rightarrow> unit worker" where
  "after_verification e tid a rid sha is passed =
     (if \<not> passed then
        require_repair e 42 tid rid ''mark_repair_required'' is
          (andthen (finish_task_run e 44 rid ''failed'' (Some ''verification_failed'')) (\<lambda>_. others e 9))
      else
        andthen (emit e Ev_TASK_COMPLETED (hook_context e a tid @ [(''artifact_ids'', PyList (map PyStr is))])) (\<lambda>r.
        andthen (others e 6) (\<lambda>_.
          if vetoed r then reject_by_hook e tid rid is r
          else andthen (integrate_commit e tid rid sha) (\<lambda>merged.
                 if merged then settle_verified e tid rid is else ret ()))))"

definition verify_and_settle :: "worker_env \<Rightarrow> string \<Rightarrow> string \<Rightarrow> string \<Rightarrow> string option \<Rightarrow> string list \<Rightarrow> unit worker" where
  "verify_and_settle e tid a rid sha is =
     board_flag e (mark_produced (wv_write e 45) (wv_clock e 45 0) tid a is (Some (wv_run_id e)))
       (record_state_conflict e 46 tid rid ''mark_produced'' Board_RUNNING is)
       (andthen (others e 3) (\<lambda>_.
        board_flag e (mark_verifying (wv_write e 47) (wv_clock e 47 0) tid (Some (wv_run_id e)))
          (record_state_conflict e 48 tid rid ''mark_verifying'' Board_PRODUCED is)
          (andthen (others e 4) (\<lambda>_.
           andthen (verify_task e tid) (\<lambda>passed.
           andthen (others e 5) (\<lambda>_. after_verification e tid a rid sha is passed))))))"

text \<open>The commit of a successful worker: its sha, or \<open>None\<close> in front after parking for a permission.\<close>

definition commit_work :: "worker_env \<Rightarrow> string \<Rightarrow> string \<Rightarrow> string \<Rightarrow> workspace_lease option \<Rightarrow> string list
    \<Rightarrow> string option option worker" where
  "commit_work e tid a rid l is =
     (if l = None \<or> \<not> wv_integration e then ret (Some None)
      else case wv_commit e of
             Inl x \<Rightarrow> (case x of
                 PermissionRequired i msg \<Rightarrow> leave (park_for_permission e 28 tid a rid i msg)
               | _ \<Rightarrow> raise_exn x)
           | Inr sha \<Rightarrow>
               (\<lambda>w. case wd_artifacts w of
                  None \<Rightarrow> (w, Inr (Some (Some sha)))
                | Some st \<Rightarrow>
                    (case bind_commit (\<lambda>j. wv_write e (500 + j)) 0 is sha 0 st of
                       (st', Inl _) \<Rightarrow> (w\<lparr>wd_artifacts := Some st'\<rparr>, Inl (Raised (wv_text e)))
                     | (st', Inr _) \<Rightarrow> (w\<lparr>wd_artifacts := Some st'\<rparr>, Inr (Some (Some sha))))))"

definition stop_cancelled :: "worker_env \<Rightarrow> string \<Rightarrow> string \<Rightarrow> string \<Rightarrow> unit worker" where
  "stop_cancelled e tid a rid =
     andthen (if wv_cancelled e 1
              then andthen (on_board e (cancel (wv_write e 50) (wv_clock e 50 0) (wv_clock e 50 1) tid
                     ''cancelled_during_execution'' (Some (wv_run_id e)))) (\<lambda>_. ret ())
              else give_back e 51 a tid ''agent_stopped'')
       (\<lambda>_. finish_task_run e 52 rid ''cancelled'' (Some ''cancelled''))"

definition settle_failure :: "worker_env \<Rightarrow> string \<Rightarrow> string \<Rightarrow> string \<Rightarrow> string option \<Rightarrow> unit worker" where
  "settle_failure e tid a rid err =
     andthen (record_task_failure e 53 tid a rid (case err of None \<Rightarrow> ''unknown'' | Some m \<Rightarrow> if m = [] then ''unknown'' else m)) (\<lambda>_.
     andthen (others e 10) (\<lambda>_.
     andthen (reading (\<lambda>w. Task_Board.get tid (Some (wv_run_id e)) (wd_board w))) (\<lambda>last_state.
       if last_state = None then raise_exn (Raised (wv_text e)) else ret ())))"

definition settle_result :: "worker_env \<Rightarrow> string \<Rightarrow> string \<Rightarrow> string \<Rightarrow> workspace_lease option \<Rightarrow> execution \<Rightarrow> unit worker" where
  "settle_result e tid a rid l result =
     (if wv_agent_cancelled e then stop_cancelled e tid a rid
      else case result of
             Exec_success is \<Rightarrow>
               andthen (commit_work e tid a rid l is) (\<lambda>c.
                 case c of None \<Rightarrow> ret () | Some sha \<Rightarrow> verify_and_settle e tid a rid sha is)
           | Exec_failure err \<Rightarrow> settle_failure e tid a rid err
           | Exec_raises x \<Rightarrow> raise_exn x)"

section \<open>The coroutine\<close>

text \<open>The inner \<open>try\<close>: its body, its \<open>except\<close> and its \<open>finally\<close>.\<close>

definition assignment_body :: "worker_env \<Rightarrow> string \<Rightarrow> string list \<Rightarrow> string \<Rightarrow> string \<Rightarrow> unit worker" where
  "assignment_body e tid caps a rid =
     andthen (take_workspace e tid a rid) (\<lambda>taken.
       case taken of
         None \<Rightarrow> ret ()
       | Some l \<Rightarrow>
           andthen (gather_inputs e tid a) (\<lambda>_.
           andthen (execute e caps) (\<lambda>result. settle_result e tid a rid l result)))"

definition assignment_failed :: "worker_env \<Rightarrow> string \<Rightarrow> string \<Rightarrow> string \<Rightarrow> worker_exn \<Rightarrow> unit worker" where
  "assignment_failed e tid a rid x =
     andthen (record_task_failure e 55 tid a rid (exn_text x)) (\<lambda>_. on_exception (others e 11) (\<lambda>_. ret ()))"

definition rest_session :: "worker_env \<Rightarrow> string \<Rightarrow> unit worker" where
  "rest_session e a =
     andthen (changing (update_session a (\<lambda>s. s\<lparr>se_current_task_id := None\<rparr>))) (\<lambda>_.
     andthen (reading (session_state a)) (\<lambda>st.
     andthen (when_true (st \<notin> {Some Mate_WAITING_PERMISSION, Some Mate_BLOCKED, Some Mate_STOPPED, Some Mate_FAILED})
       (move_session (wv_clock e 58 0) a Mate_IDLE)) (\<lambda>_. save_session e 58 a)))"

definition assignment_ends :: "worker_env \<Rightarrow> string \<Rightarrow> string \<Rightarrow> unit worker" where
  "assignment_ends e tid a =
     andthen (free_agent e 57 a tid) (\<lambda>_.
     andthen (rest_session e a) (\<lambda>_.
     andthen (reading (session_state a)) (\<lambda>st.
       if st = Some Mate_IDLE then
         andthen (emit e Ev_TEAMMATE_IDLE (hook_context e a tid)) (\<lambda>r.
           if hr_request_replan r then changing (wv_replan e) else ret ())
       else ret ())))"

definition run_assignment :: "worker_env \<Rightarrow> string \<Rightarrow> string list \<Rightarrow> string \<Rightarrow> string \<Rightarrow> unit worker" where
  "run_assignment e tid caps a rid =
     finally_do (on_exception (assignment_body e tid caps a rid) (assignment_failed e tid a rid)) (assignment_ends e tid a)"

definition run_claimed :: "worker_env \<Rightarrow> board_task \<Rightarrow> agent_instance \<Rightarrow> unit worker" where
  "run_claimed e t a =
     (let i = ag_agent_id a; tid = bt_task_id t
      in andthen (open_session e a) (\<lambda>_.
         andthen (claim_task e tid i) (\<lambda>claimed.
           if claimed = None then ret () else
         andthen (start_task e tid i) (\<lambda>started.
           if started = None then ret () else
         andthen (approve_plan e tid i) (\<lambda>approved.
           if approved = None then ret () else
         andthen (to_running e tid i) (\<lambda>running.
           if running = None then ret () else
         andthen (open_task_run e a tid) (\<lambda>_.
           run_assignment e tid (bt_required_capabilities (the claimed)) i (wv_ids e 1))))))))"

text \<open>\<open>_run_one\<close>; the outer \<open>except\<close> frees the agent and raises again.\<close>

definition run_one :: "worker_env \<Rightarrow> board_task \<Rightarrow> unit worker" where
  "run_one e t =
     (if wv_cancelled e 0 then ret ()
      else andthen (reserve_worker e t) (\<lambda>reserved.
             case reserved of
               None \<Rightarrow> changing (wake_busy e t)
             | Some a \<Rightarrow>
                 on_exception (run_claimed e t a)
                   (\<lambda>x. andthen (free_agent e 60 (ag_agent_id a) (bt_task_id t)) (\<lambda>_. raise_exn x))))"

end
