(* ===== verification/Worker_Logic.thy ===== *)
theory Worker_Logic
  imports Worker
begin

text \<open>
  A small program logic for the coroutine: triples with a postcondition for results and one for exceptions, and the
  programs that are quiet, in that they neither bring a task to SUCCEEDED nor take back verified evidence.
\<close>

named_theorems quiet_intros \<open>which programs are quiet\<close>

section \<open>Triples\<close>

definition triple :: "(world \<Rightarrow> bool) \<Rightarrow> 'a worker \<Rightarrow> ('a \<Rightarrow> world \<Rightarrow> bool) \<Rightarrow> (worker_exn \<Rightarrow> world \<Rightarrow> bool) \<Rightarrow> bool" where
  "triple P m Q E \<longleftrightarrow> (\<forall>w. P w \<longrightarrow> (case m w of (w', Inl e) \<Rightarrow> E e w' | (w', Inr x) \<Rightarrow> Q x w'))"

abbreviation valid :: "(world \<Rightarrow> bool) \<Rightarrow> 'a worker \<Rightarrow> ('a \<Rightarrow> world \<Rightarrow> bool) \<Rightarrow> (world \<Rightarrow> bool) \<Rightarrow> bool" where
  "valid P m Q E \<equiv> triple P m Q (\<lambda>_. E)"

lemma tripleI:
  assumes "\<And>w w' x. P w \<Longrightarrow> m w = (w', Inr x) \<Longrightarrow> Q x w'" "\<And>w w' e. P w \<Longrightarrow> m w = (w', Inl e) \<Longrightarrow> E e w'"
  shows "triple P m Q E"
  using assms by (auto simp: triple_def split: prod.split sum.split)

lemma tripleD:
  assumes "triple P m Q E" "P w"
  shows "m w = (w', Inr x) \<Longrightarrow> Q x w'" "m w = (w', Inl e) \<Longrightarrow> E e w'"
  using assms by (auto simp: triple_def)

lemma triple_weaken:
  assumes "triple P' m Q' E'" "\<And>w. P w \<Longrightarrow> P' w" "\<And>x w. Q' x w \<Longrightarrow> Q x w" "\<And>e w. E' e w \<Longrightarrow> E e w"
  shows "triple P m Q E"
  using assms(2-4) tripleD [OF assms(1)] by (intro tripleI) blast+

lemma triple_ret: "(\<And>w. P w \<Longrightarrow> Q x w) \<Longrightarrow> triple P (ret x) Q E"
  by (simp add: triple_def ret_def)

lemma triple_raise: "(\<And>w. P w \<Longrightarrow> E x w) \<Longrightarrow> triple P (raise_exn x) Q E"
  by (simp add: triple_def raise_exn_def)

lemma andthen_ret: "andthen (ret x) f = f x"
  by (rule ext) (simp add: andthen_def ret_def)

lemma triple_andthen:
  assumes "triple P m R E" "\<And>x. triple (R x) (k x) Q E"
  shows "triple P (andthen m k) Q E"
proof (rule tripleI)
  fix w w' x
  assume "P w" "andthen m k w = (w', Inr x)"
  then obtain w1 y where "m w = (w1, Inr y)" "k y w1 = (w', Inr x)"
    by (auto simp: andthen_def split: prod.splits sum.splits)
  with tripleD(1) [OF assms(1) \<open>P w\<close>] tripleD(1) [OF assms(2)] show "Q x w'" by blast
next
  fix w w' e
  assume w: "P w" and r: "andthen m k w = (w', Inl e)"
  obtain w1 res where m: "m w = (w1, res)" by force
  show "E e w'"
  proof (cases res)
    case (Inl e')
    with r m tripleD(2) [OF assms(1) w] show ?thesis by (auto simp: andthen_def)
  next
    case (Inr y)
    with r m have "k y w1 = (w', Inl e)" by (simp add: andthen_def)
    with tripleD(1) [OF assms(1) w] m Inr tripleD(2) [OF assms(2)] show ?thesis by blast
  qed
qed

text \<open>The handler does not see a cancellation.\<close>

lemma triple_on_exception:
  assumes "triple P m Q E'" "\<And>x. x \<noteq> TaskCancelled \<Longrightarrow> triple (E' x) (h x) Q E"
    "\<And>w. E' TaskCancelled w \<Longrightarrow> E TaskCancelled w"
  shows "triple P (on_exception m h) Q E"
proof (rule tripleI)
  fix w w' x
  assume w: "P w" and r: "on_exception m h w = (w', Inr x)"
  obtain w1 res where m: "m w = (w1, res)" by force
  show "Q x w'"
  proof (cases res)
    case (Inl e)
    with r m have "e \<noteq> TaskCancelled" "h e w1 = (w', Inr x)" by (auto simp: on_exception_def split: if_splits)
    with tripleD(2) [OF assms(1) w] m Inl tripleD(1) [OF assms(2)] show ?thesis by blast
  next
    case (Inr y)
    with r m tripleD(1) [OF assms(1) w] show ?thesis by (auto simp: on_exception_def)
  qed
next
  fix w w' e
  assume w: "P w" and r: "on_exception m h w = (w', Inl e)"
  obtain w1 e1 where m: "m w = (w1, Inl e1)"
    using r by (auto simp: on_exception_def split: prod.splits sum.splits)
  then have E': "E' e1 w1" using tripleD(2) [OF assms(1) w] by blast
  show "E e w'"
  proof (cases "e1 = TaskCancelled")
    case True
    with r m E' assms(3) show ?thesis by (auto simp: on_exception_def)
  next
    case False
    with r m have "h e1 w1 = (w', Inl e)" by (simp add: on_exception_def)
    with tripleD(2) [OF assms(2) [OF False] E'] show ?thesis by blast
  qed
qed

lemma valid_finally_do:
  assumes "valid P m (\<lambda>_. R) R" "valid R fin (\<lambda>_. Q) Q"
  shows "valid P (finally_do m fin) (\<lambda>_. Q) Q"
proof -
  have "Q (fst (finally_do m fin w))" if "P w" for w
  proof -
    obtain w1 r where m: "m w = (w1, r)" by force
    with that assms(1) have "R w1" by (cases r) (auto simp: triple_def)
    moreover obtain w2 r2 where f: "fin w1 = (w2, r2)" by force
    ultimately have "Q w2" using assms(2) by (cases r2) (auto simp: triple_def)
    then show ?thesis by (cases r2) (simp_all add: finally_do_def m f)
  qed
  then show ?thesis by (force simp: triple_def split: prod.split sum.split)
qed

section \<open>Quiet programs\<close>

definition succeeded_at :: "task_key \<Rightarrow> task_board \<Rightarrow> bool" where
  "succeeded_at k b \<longleftrightarrow> (\<exists>t. map_of (board_tasks b) k = Some t \<and> bt_status t = Board_SUCCEEDED)"

definition all_verified :: "string list \<Rightarrow> world \<Rightarrow> bool" where
  "all_verified is w \<longleftrightarrow>
     (case wd_artifacts w of
        None \<Rightarrow> True
      | Some st \<Rightarrow> \<forall>i \<in> set is. \<exists>x. map_of (as_registry st) i = Some x \<and> at_status x = Art_VERIFIED)"

definition quietly :: "task_key \<Rightarrow> string list \<Rightarrow> world \<Rightarrow> world \<Rightarrow> bool" where
  "quietly k is w w' \<longleftrightarrow> (succeeded_at k (wd_board w') \<longrightarrow> succeeded_at k (wd_board w)) \<and> (all_verified is w \<longrightarrow> all_verified is w')"

definition quiet :: "task_key \<Rightarrow> string list \<Rightarrow> 'a worker \<Rightarrow> bool" where
  "quiet k is m \<longleftrightarrow> (\<forall>w. quietly k is w (fst (m w)))"

lemma quietly_refl [simp]: "quietly k is w w"
  by (simp add: quietly_def)

lemma quietly_trans: "quietly k is w w1 \<Longrightarrow> quietly k is w1 w2 \<Longrightarrow> quietly k is w w2"
  by (simp add: quietly_def)

lemma quiet_ret [quiet_intros]: "quiet k is (ret x)"
  by (simp add: quiet_def ret_def)

lemma quiet_raise [quiet_intros]: "quiet k is (raise_exn x)"
  by (simp add: quiet_def raise_exn_def)

lemma quiet_reading [quiet_intros]: "quiet k is (reading f)"
  by (simp add: quiet_def reading_def)

lemma quiet_emit [quiet_intros]: "quiet k is (emit e ev context)"
  by (simp add: emit_def quiet_ret)

lemma quiet_andthen [quiet_intros]:
  assumes "quiet k is m" "\<And>x. quiet k is (f x)"
  shows "quiet k is (andthen m f)"
  unfolding quiet_def
proof
  fix w
  obtain w1 r where m: "m w = (w1, r)" by force
  then have "quietly k is w w1" using assms(1) by (metis fst_conv quiet_def)
  moreover have "quietly k is w1 (fst (f x w1))" for x using assms(2) by (simp add: quiet_def)
  ultimately show "quietly k is w (fst (andthen m f w))"
    by (cases r) (auto simp: andthen_def m intro: quietly_trans)
qed

lemma quiet_on_exception [quiet_intros]:
  assumes "quiet k is m" "\<And>x. quiet k is (h x)"
  shows "quiet k is (on_exception m h)"
  unfolding quiet_def
proof
  fix w
  obtain w1 r where m: "m w = (w1, r)" by force
  then have "quietly k is w w1" using assms(1) by (metis fst_conv quiet_def)
  moreover have "quietly k is w1 (fst (h x w1))" for x using assms(2) by (simp add: quiet_def)
  ultimately show "quietly k is w (fst (on_exception m h w))"
    by (cases r) (auto simp: on_exception_def m intro: quietly_trans)
qed

lemma quiet_if [quiet_intros]: "(b \<Longrightarrow> quiet k is m) \<Longrightarrow> (\<not> b \<Longrightarrow> quiet k is n) \<Longrightarrow> quiet k is (if b then m else n)"
  by simp

lemma quiet_leave [quiet_intros]: "quiet k is m \<Longrightarrow> quiet k is (leave m)"
  unfolding leave_def by (intro quiet_intros)

lemma quiet_when_true [quiet_intros]: "quiet k is m \<Longrightarrow> quiet k is (when_true b m)"
  unfolding when_true_def by (intro quiet_intros)

text \<open>Programs that leave the board and the evidence alone.\<close>

lemma quiet_same:
  assumes "\<And>w. wd_board (fst (m w)) = wd_board w" "\<And>w. wd_artifacts (fst (m w)) = wd_artifacts w"
  shows "quiet k is m"
  by (simp add: quiet_def quietly_def assms all_verified_def)

lemma quiet_registry [quiet_intros]: "quiet k is (on_registry e f)"
  by (rule quiet_same) (simp_all add: on_registry_def split: prod.split sum.split)

lemma quiet_move_session [quiet_intros]: "quiet k is (move_session now a target)"
  by (rule quiet_same) (simp_all add: move_session_def split: option.split sum.split)

lemma quiet_save_session [quiet_intros]: "quiet k is (save_session e j a)"
  by (rule quiet_same) (simp_all add: save_session_def split: option.split prod.split sum.split)

lemma quiet_open_session [quiet_intros]: "quiet k is (open_session e a)"
  by (rule quiet_same) (simp_all add: open_session_def split: prod.split sum.split)

lemma quiet_finish_task_run [quiet_intros]: "quiet k is (finish_task_run e j rid st err)"
  by (rule quiet_same) (simp_all add: finish_task_run_def)

lemma quiet_open_task_run [quiet_intros]: "quiet k is (open_task_run e a tid)"
  by (rule quiet_same) (simp_all add: open_task_run_def split: sum.split)

lemma quiet_update_session [quiet_intros]: "quiet k is (changing (update_session a f))"
  by (rule quiet_same) (simp_all add: changing_def update_session_def split: option.split)

lemma quiet_free_agent [quiet_intros]: "quiet k is (free_agent e j a tid)"
  unfolding free_agent_def by (intro quiet_intros)

section \<open>Board operations\<close>

definition tame :: "task_key \<Rightarrow> (task_board \<Rightarrow> 'a board_result) \<Rightarrow> bool" where
  "tame k f \<longleftrightarrow> (\<forall>b. succeeded_at k (fst (f b)) \<longrightarrow> succeeded_at k b)"

lemma quiet_on_board [quiet_intros]: "tame k f \<Longrightarrow> quiet k is (on_board e f)"
proof -
  assume "tame k f"
  then have "succeeded_at k (wd_board (fst (on_board e f w))) \<longrightarrow> succeeded_at k (wd_board w)" for w
    by (auto simp: tame_def on_board_def split: prod.splits sum.splits)
  moreover have "wd_artifacts (fst (on_board e f w)) = wd_artifacts w" for w
    by (simp add: on_board_def split: prod.split sum.split)
  ultimately show ?thesis unfolding quiet_def quietly_def all_verified_def by simp
qed

lemma persist_tasks: "board_tasks (fst (persist wr t r b)) = board_tasks b"
  by (simp add: persist_def upsert_task_board_task_def)

lemma commit_tasks: "board_tasks (fst (commit wr k t r b)) = AList.update k t (board_tasks b)"
  by (simp add: commit_def persist_tasks put_task_def)

lemma succeeded_put: "bt_status t \<noteq> Board_SUCCEEDED \<Longrightarrow> board_tasks b' = AList.update j t (board_tasks b) \<Longrightarrow>
    succeeded_at k b' \<Longrightarrow> succeeded_at k b"
  by (auto simp: succeeded_at_def split: if_splits)

lemma succeeded_commit:
  "succeeded_at k (fst (commit wr j t r b)) \<Longrightarrow> bt_status t \<noteq> Board_SUCCEEDED \<Longrightarrow> succeeded_at k b"
  by (rule succeeded_put [OF _ commit_tasks])

lemma raw_get_at: "raw_get tid (Some r) b = Some (k, t) \<Longrightarrow> k = (r, tid) \<and> map_of (board_tasks b) (r, tid) = Some t"
  by (auto simp: raw_get_def)

lemma tame_transitions [quiet_intros]:
  "tame k (start wr now tid a rid)" "tame k (release wr now tid a reason rid)" "tame k (mark_produced wr now tid a is rid)"
  "tame k (mark_verifying wr now tid rid)" "tame k (mark_repair_required wr now tid rid)" "tame k (cancel wr t1 t2 tid reason rid)"
  by (auto simp: tame_def start_def release_def mark_produced_def mark_verifying_def mark_repair_required_def cancel_def
      split: option.splits if_splits dest!: succeeded_commit)

lemma tame_claim [quiet_intros]: "tame k (claim wr t1 t2 tid a rid)"
  unfolding tame_def
proof (intro allI impI)
  fix b
  assume s: "succeeded_at k (fst (claim wr t1 t2 tid a rid b))"
  have put: "succeeded_at k b" if "succeeded_at k (put_task j (claimed t1 t2 a t) (upsert_task_board_task u b))" for j t u
    using that by (rule succeeded_put [rotated 2]) (simp_all add: claimed_def put_task_def upsert_task_board_task_def)
  have com: "succeeded_at k b" if "succeeded_at k (fst (commit wr j (claimed t1 t2 a t) r b))" for j t and r :: claim_result
    using that by (rule succeeded_commit) (simp add: claimed_def)
  from s show "succeeded_at k b"
    by (auto simp: claim_def Let_def split: option.splits if_splits dest: put com)
qed

lemma succeeded_put_same:
  "succeeded_at k (put_task j t b) \<Longrightarrow> map_of (board_tasks b) j = Some t0 \<Longrightarrow> bt_status t = bt_status t0 \<Longrightarrow> succeeded_at k b"
  by (auto simp: succeeded_at_def put_task_def split: if_splits)

lemma tame_fail [quiet_intros]: "tame k (fail wr t1 t2 tid a error (Some r) retryable delay category)"
  unfolding tame_def
proof (intro allI impI)
  fix b
  assume s: "succeeded_at k (fst (fail wr t1 t2 tid a error (Some r) retryable delay category b))"
  show "succeeded_at k b"
  proof (cases "map_of (board_tasks b) (r, tid)")
    case None
    with s show ?thesis by (simp add: fail_def raw_get_def)
  next
    case (Some t)
    have same: "succeeded_at k b" if "succeeded_at k (put_task (r, tid) u b)" "bt_status u = bt_status t" for u
      using succeeded_put_same [OF that(1) Some that(2)] .
    have other: "succeeded_at k b" if "succeeded_at k (put_task (r, tid) u b)" "bt_status u \<noteq> Board_SUCCEEDED" for u
      by (rule succeeded_put [OF that(2) _ that(1)]) (simp add: put_task_def)
    have com: "succeeded_at k b" if "succeeded_at k (fst (commit wr (r, tid) u True b))" "bt_status u \<noteq> Board_SUCCEEDED" for u
      using that by (rule succeeded_commit)
    show ?thesis
      using s Some by (auto simp: fail_def raw_get_def Let_def requeued_def split: option.splits if_splits bool.splits
          dest!: com dest: same other)
  qed
qed

text \<open>Storing a task again is tame when it is not SUCCEEDED, or was.\<close>

lemma succeeded_add: "succeeded_at k (fst (add wr t b)) \<Longrightarrow>
    bt_status t \<noteq> Board_SUCCEEDED \<or> (\<exists>t0. map_of (board_tasks b) k = Some t0 \<and> bt_status t0 = bt_status t) \<Longrightarrow>
    succeeded_at k b"
  by (auto simp: succeeded_at_def add_def Let_def persist_tasks put_task_def split: if_splits)

text \<open>The worker's own object is not SUCCEEDED when the board has replaced it.\<close>

definition detached_ok :: "worker_env \<Rightarrow> bool" where
  "detached_ok e \<longleftrightarrow> (\<forall>j t. wv_detached e j = Some t \<longrightarrow> bt_status t \<noteq> Board_SUCCEEDED)"

lemma quietly_add:
  assumes "bt_status t \<noteq> Board_SUCCEEDED \<or>
      (\<exists>t0. map_of (board_tasks (wd_board w)) k = Some t0 \<and> bt_status t0 = bt_status t)"
  shows "quietly k is w (fst (andthen (on_board e (add wr t)) (\<lambda>_. ret ()) w))"
proof -
  obtain b r where a: "add wr t (wd_board w) = (b, r)" by force
  have "succeeded_at k b \<longrightarrow> succeeded_at k (wd_board w)"
    using succeeded_add [of k wr t "wd_board w"] assms a by auto
  then show ?thesis
    by (cases r) (simp_all add: andthen_def on_board_def a ret_def quietly_def all_verified_def)
qed

lemma quiet_write_own [quiet_intros]:
  assumes "detached_ok e" "\<And>t. bt_status (f t) \<noteq> Board_SUCCEEDED \<or> bt_status (f t) = bt_status t"
  shows "quiet (wv_run_id e, tid) is (write_own e j tid f)"
  unfolding quiet_def
proof
  fix w
  show "quietly (wv_run_id e, tid) is w (fst (write_own e j tid f w))"
  proof (cases "own_task e j tid w")
    case None
    then show ?thesis by (simp add: write_own_def)
  next
    case (Some t)
    have "bt_status t \<noteq> Board_SUCCEEDED \<or> map_of (board_tasks (wd_board w)) (wv_run_id e, tid) = Some t"
      using Some assms(1) by (auto simp: own_task_def detached_ok_def split: option.splits)
    with assms(2) [of t] have "bt_status (f t) \<noteq> Board_SUCCEEDED \<or>
        (\<exists>t0. map_of (board_tasks (wd_board w)) (wv_run_id e, tid) = Some t0 \<and> bt_status t0 = bt_status (f t))" by auto
    from quietly_add [OF this] Some show ?thesis by (simp add: write_own_def)
  qed
qed

lemma quiet_edit_task [quiet_intros]:
  assumes "\<And>t. bt_status (f t) \<noteq> Board_SUCCEEDED \<or> bt_status (f t) = bt_status t"
  shows "quiet (wv_run_id e, tid) is (edit_task e j tid f)"
  unfolding quiet_def
proof
  fix w
  show "quietly (wv_run_id e, tid) is w (fst (edit_task e j tid f w))"
  proof (cases "Task_Board.get tid (Some (wv_run_id e)) (wd_board w)")
    case None
    then show ?thesis by (simp add: edit_task_def)
  next
    case (Some t)
    then have "map_of (board_tasks (wd_board w)) (wv_run_id e, tid) = Some t"
      by (auto simp: Task_Board.get_def raw_get_def)
    with assms [of t] have "bt_status (f t) \<noteq> Board_SUCCEEDED \<or>
        (\<exists>t0. map_of (board_tasks (wd_board w)) (wv_run_id e, tid) = Some t0 \<and> bt_status t0 = bt_status (f t))" by auto
    from quietly_add [OF this] Some show ?thesis by (simp add: edit_task_def)
  qed
qed

text \<open>What the other coroutines and the replanning may do: neither settle this task nor take its evidence back.\<close>

definition others_quiet :: "worker_env \<Rightarrow> string \<Rightarrow> string list \<Rightarrow> bool" where
  "others_quiet e tid is \<longleftrightarrow>
     (\<forall>j w. quietly (wv_run_id e, tid) is w (wv_others e j w)) \<and> (\<forall>w. quietly (wv_run_id e, tid) is w (wv_replan e w))"

lemma quiet_others [quiet_intros]: "others_quiet e tid is \<Longrightarrow> quiet (wv_run_id e, tid) is (others e j)"
  by (simp add: others_quiet_def quiet_def others_def)

lemma quiet_replan [quiet_intros]: "others_quiet e tid is \<Longrightarrow> quiet (wv_run_id e, tid) is (changing (wv_replan e))"
  by (simp add: others_quiet_def quiet_def changing_def)

lemma quiet_give_back [quiet_intros]: "quiet k is (give_back e j a tid reason)"
  unfolding give_back_def by (intro quiet_intros)

section \<open>The quiet phases\<close>

lemma quiet_claim_task: "quiet (wv_run_id e, tid) is (claim_task e tid a)"
  unfolding claim_task_def by (intro quiet_intros)

lemma quiet_start_task: "others_quiet e tid is \<Longrightarrow> quiet (wv_run_id e, tid) is (start_task e tid a)"
  unfolding start_task_def by (intro quiet_intros)

lemma quiet_plans: "quiet k is (changing (\<lambda>w. w\<lparr>wd_plans := f w\<rparr>))"
  by (rule quiet_same) (simp_all add: changing_def)

lemma quiet_option [quiet_intros]:
  "quiet k is n \<Longrightarrow> (\<And>x. quiet k is (f x)) \<Longrightarrow> quiet k is (case opt of None \<Rightarrow> n | Some x \<Rightarrow> f x)"
  by (cases opt) simp_all

lemma quiet_submit_node_plan [quiet_intros]:
  "detached_ok e \<Longrightarrow> quiet (wv_run_id e, tid) is (submit_node_plan e tid a n)"
  unfolding submit_node_plan_def by (intro quiet_intros quiet_plans) simp_all

lemma quiet_park_for_plan [quiet_intros]: "detached_ok e \<Longrightarrow> quiet (wv_run_id e, tid) is (park_for_plan e tid a p)"
  unfolding park_for_plan_def by (intro quiet_intros) simp_all

lemma quiet_approve_plan: "detached_ok e \<Longrightarrow> quiet (wv_run_id e, tid) is (approve_plan e tid a)"
  unfolding approve_plan_def by (intro quiet_intros)

lemma quiet_to_running: "quiet (wv_run_id e, tid) is (to_running e tid a)"
  unfolding to_running_def by (intro quiet_intros)

lemma quiet_park [quiet_intros]: "detached_ok e \<Longrightarrow> quiet (wv_run_id e, tid) is (park_for_permission e j tid a rid i msg)"
  unfolding park_for_permission_def by (intro quiet_intros) simp_all

lemma quiet_rest_session: "quiet k is (rest_session e a)"
  unfolding rest_session_def by (intro quiet_intros)

lemma quiet_assignment_ends: "others_quiet e tid is \<Longrightarrow> quiet (wv_run_id e, tid) is (assignment_ends e tid a)"
  unfolding assignment_ends_def by (intro quiet_intros quiet_rest_session)

lemma quiet_record_task_failure [quiet_intros]: "quiet (wv_run_id e, tid) is (record_task_failure e j tid a rid error)"
proof -
  have "quiet (wv_run_id e, tid) is
     (andthen (on_board e (fail (wv_write e j) (wv_clock e j 0) (wv_clock e j 1) tid a error (Some (wv_run_id e))
          (rd_retryable d) (rd_delay_seconds d) (category_value (rd_category d)))) (\<lambda>_.
      andthen (finish_task_run e (j + 1) rid ''failed'' (Some error)) (\<lambda>_. ret d)))" for d :: retry_decision
    by (intro quiet_intros)
  then show ?thesis
    unfolding quiet_def record_task_failure_def by (simp split: option.split sum.split)
qed

lemma quiet_assignment_failed: "others_quiet e tid is \<Longrightarrow> quiet (wv_run_id e, tid) is (assignment_failed e tid a rid x)"
  unfolding assignment_failed_def by (intro quiet_intros)

end
