(* ===== verification/Worker_Props.thy ===== *)
theory Worker_Props
  imports Worker_Logic Artifact_Store_Props Agent_Registry_Props
begin

text \<open>
  A worker settles its task as SUCCEEDED only when its evidence was verified: the execution succeeded, the verifier
  passed, no hook vetoed, the commit merged, and each produced artifact is VERIFIED.
\<close>

section \<open>Programs that cannot settle the task\<close>

text \<open>Without evidence to keep, to be quiet is to leave a task that is not SUCCEEDED so.\<close>

definition unsettled :: "task_key \<Rightarrow> world \<Rightarrow> bool" where
  "unsettled k w \<longleftrightarrow> \<not> succeeded_at k (wd_board w)"

definition settled_with :: "task_key \<Rightarrow> bool \<Rightarrow> string list \<Rightarrow> world \<Rightarrow> bool" where
  "settled_with k c is w \<longleftrightarrow> (succeeded_at k (wd_board w) \<longrightarrow> c \<and> all_verified is w)"

lemma all_verified_Nil [simp]: "all_verified [] w"
  by (simp add: all_verified_def split: option.split)

lemma unsettled_settled [simp]: "unsettled k w \<Longrightarrow> settled_with k c is w"
  by (simp add: unsettled_def settled_with_def)

lemma quiet_Nil: "quiet k is m \<Longrightarrow> quiet k [] m"
  unfolding quiet_def quietly_def using all_verified_Nil by blast

lemma others_quiet_Nil: "others_quiet e tid is \<Longrightarrow> others_quiet e tid []"
  unfolding others_quiet_def quietly_def using all_verified_Nil by blast

lemma quietD:
  assumes "quiet k is m" "m w = (w', r)"
  shows "quietly k is w w'"
proof -
  have "quietly k is w (fst (m w))" using assms(1) by (simp add: quiet_def)
  with assms(2) show ?thesis by simp
qed

lemma valid_unsettled: "quiet k [] m \<Longrightarrow> valid (unsettled k) m (\<lambda>_. unsettled k) (unsettled k)"
  by (rule tripleI; drule (1) quietD) (simp_all add: quietly_def unsettled_def)

lemma valid_settled: "quiet k is m \<Longrightarrow> valid (settled_with k c is) m (\<lambda>_. settled_with k c is) (settled_with k c is)"
  by (rule tripleI; drule (1) quietD) (simp_all add: quietly_def settled_with_def)

text \<open>A quiet program and what its result says, before the rest.\<close>

lemma valid_then:
  assumes "quiet k [] m" "\<And>w w' x. m w = (w', Inr x) \<Longrightarrow> F x"
    "\<And>x. F x \<Longrightarrow> valid (unsettled k) (f x) Q (settled_with k c is)"
  shows "valid (unsettled k) (andthen m f) Q (settled_with k c is)"
proof (rule triple_andthen [where R = "\<lambda>x w. unsettled k w \<and> F x"])
  note v = tripleD [OF valid_unsettled [OF assms(1)]]
  show "valid (unsettled k) m (\<lambda>x w. unsettled k w \<and> F x) (settled_with k c is)"
  proof (rule tripleI)
    fix w w' x
    assume u: "unsettled k w" and m: "m w = (w', Inr x)"
    show "unsettled k w' \<and> F x" using v(1) [OF u m] assms(2) [OF m] by blast
  next
    fix w w' x
    assume u: "unsettled k w" and m: "m w = (w', Inl x)"
    from v(2) [OF u m] show "settled_with k c is w'" by simp
  qed
  show "valid (\<lambda>w. unsettled k w \<and> F x) (f x) Q (settled_with k c is)" for x
  proof (cases "F x")
    case True
    show ?thesis by (rule triple_weaken [OF assms(3) [OF True]]) simp_all
  next
    case False
    then show ?thesis by (simp add: triple_def)
  qed
qed

lemmas valid_after = valid_then [where F = "\<lambda>_. True", OF _ TrueI]

lemma valid_stays: "quiet k [] m \<Longrightarrow> valid (unsettled k) m (\<lambda>_. settled_with k c is) (settled_with k c is)"
  by (rule triple_weaken [OF valid_unsettled [of k m]]) simp_all

lemma quiet_board_flag [quiet_intros]:
  "tame k f \<Longrightarrow> quiet k is m \<Longrightarrow> quiet k is n \<Longrightarrow> quiet k is (board_flag e f m n)"
  unfolding board_flag_def by (intro quiet_intros)

lemma quiet_reject_artifacts [quiet_intros]: "quiet k [] (changing (reject_artifacts e j is protected))"
  by (simp add: quiet_def quietly_def changing_def reject_artifacts_def)

lemma quiet_record_state_conflict [quiet_intros]: "quiet k [] (record_state_conflict e j tid rid move expected is)"
  by (simp add: quiet_def quietly_def record_state_conflict_def Let_def finish_task_run_def reject_artifacts_def)

lemma quiet_require_repair [quiet_intros]: "quiet k [] m \<Longrightarrow> quiet k [] (require_repair e j tid rid move is m)"
  unfolding require_repair_def by (intro quiet_intros)

lemma quiet_artifacts_only: "(\<And>w. wd_board (fst (m w)) = wd_board w) \<Longrightarrow> quiet k [] m"
  by (simp add: quiet_def quietly_def)

section \<open>From the execution to the verdict\<close>

definition calm :: "worker_env \<Rightarrow> string \<Rightarrow> bool" where
  "calm e tid \<longleftrightarrow> detached_ok e \<and> others_quiet e tid []"

lemma calm_others [quiet_intros]: "calm e tid \<Longrightarrow> quiet (wv_run_id e, tid) [] (others e j)"
  by (simp add: calm_def quiet_others)

lemma quiet_bind_workspace: "quiet k is (bind_workspace e a l)"
proof -
  have "quiet k is (changing (\<lambda>w. w\<lparr>wd_registry := f w\<rparr>))" for f
    by (rule quiet_same) (simp_all add: changing_def)
  then show ?thesis unfolding bind_workspace_def by (intro quiet_intros)
qed

lemma calm_park: "calm e tid \<Longrightarrow> quiet (wv_run_id e, tid) is (park_for_permission e j tid a rid i msg)"
  by (simp add: calm_def quiet_park)

lemma quiet_take_workspace: "calm e tid \<Longrightarrow> quiet (wv_run_id e, tid) [] (take_workspace e tid a rid)"
  unfolding take_workspace_def
  by (auto split: sum.split worker_exn.split intro!: quiet_intros quiet_bind_workspace calm_park)

lemma quiet_gather_inputs: "quiet k [] (gather_inputs e tid a)"
  by (rule quiet_artifacts_only) (simp add: gather_inputs_def split: option.split sum.split)

lemma quiet_execute: "calm e tid \<Longrightarrow> quiet (wv_run_id e, tid) [] (execute e caps)"
  unfolding execute_def by (intro quiet_intros) (auto split: execution.split intro: quiet_intros)

lemma quiet_judge_task: "quiet (wv_run_id e, tid) [] (judge_task e tid)"
  unfolding judge_task_def
  by (auto split: option.split intro!: quiet_intros simp: put_metadata_def)

lemma quiet_verify_task: "quiet (wv_run_id e, tid) [] (verify_task e tid)"
  unfolding verify_task_def Let_def by (intro quiet_intros quiet_judge_task) (simp add: put_metadata_def)

lemma quiet_reject_by_hook: "calm e tid \<Longrightarrow> quiet (wv_run_id e, tid) [] (reject_by_hook e tid rid is r)"
  unfolding reject_by_hook_def by (intro quiet_intros) (simp_all add: put_metadata_def)

lemma quiet_integrate_commit: "quiet (wv_run_id e, tid) [] (integrate_commit e tid rid sha)"
  unfolding integrate_commit_def
  by (auto split: sum.split option.split intro!: quiet_intros simp: put_metadata_def)

lemma quiet_bind_commits: "quiet k []
    (\<lambda>w. case wd_artifacts w of
       None \<Rightarrow> (w, Inr x)
     | Some st \<Rightarrow> (case f st of (st', Inl _) \<Rightarrow> (w\<lparr>wd_artifacts := Some st'\<rparr>, Inl y)
         | (st', Inr _) \<Rightarrow> (w\<lparr>wd_artifacts := Some st'\<rparr>, Inr x)))"
  by (rule quiet_artifacts_only) (simp split: option.split prod.split sum.split)

lemma quiet_commit_work: "calm e tid \<Longrightarrow> quiet (wv_run_id e, tid) [] (commit_work e tid a rid l is)"
  unfolding commit_work_def
  by (auto split: sum.split worker_exn.split intro!: quiet_intros quiet_bind_commits calm_park)

lemma quiet_stop_cancelled: "quiet (wv_run_id e, tid) [] (stop_cancelled e tid a rid)"
  unfolding stop_cancelled_def by (intro quiet_intros)

lemma quiet_settle_failure: "calm e tid \<Longrightarrow> quiet (wv_run_id e, tid) [] (settle_failure e tid a rid err)"
  unfolding settle_failure_def by (intro quiet_intros)

section \<open>Settling\<close>

text \<open>The evidence an assignment is settled on, apart from the artifacts.\<close>

definition accepted :: "worker_env \<Rightarrow> string \<Rightarrow> string list \<Rightarrow> bool" where
  "accepted e tid is \<longleftrightarrow>
     wv_execution e = Exec_success is \<and> \<not> wv_agent_cancelled e \<and>
     (wv_has_verifier e \<longrightarrow> (\<exists>record. wv_verdict e = Some (''pass'', record))) \<and>
     (\<exists>a. \<not> vetoed (fst (emit_async Ev_TASK_COMPLETED
        (hook_context e a tid @ [(''artifact_ids'', PyList (map PyStr is))]) (wv_hooks e)))) \<and>
     (wv_worktrees e \<and> wv_integration e \<and> wv_commit e \<noteq> Inr [] \<longrightarrow> wv_integrate e = Inr None)"

lemma verify_each_verified:
  "verify_each wr n txt is st = (st', None) \<Longrightarrow>
     (\<forall>i \<in> set is. \<exists>x. map_of (as_registry st') i = Some x \<and> at_status x = Art_VERIFIED) \<and>
     (\<forall>i. (\<exists>x. map_of (as_registry st) i = Some x \<and> at_status x = Art_VERIFIED) \<longrightarrow>
        (\<exists>x. map_of (as_registry st') i = Some x \<and> at_status x = Art_VERIFIED))"
proof (induction "is" arbitrary: n st)
  case Nil
  then show ?case by simp
next
  case (Cons i "is")
  obtain st1 r where m: "mark_artifact_verified (wr n) i st = (st1, r)" by force
  with Cons.prems have r: "r = Inr True" and rest: "verify_each wr (Suc n) txt is st1 = (st', None)"
    by (auto split: sum.splits if_splits)
  have st1: "map_of (as_registry st1) j =
      (if j = i then map_option (at_status_update (\<lambda>_. Art_VERIFIED)) (map_of (as_registry st) i)
       else map_of (as_registry st) j)" for j
    using set_status_fields(3) [of Art_VERIFIED "wr n" i st j] m r by (simp add: mark_artifact_verified_def)
  have i: "map_of (as_registry st) i \<noteq> None"
    using m r by (cases "map_of (as_registry st) i") (simp_all add: mark_artifact_verified_def set_status_def)
  have "\<exists>x. map_of (as_registry st1) i = Some x \<and> at_status x = Art_VERIFIED" using st1 [of i] i by auto
  moreover have "\<exists>x. map_of (as_registry st1) j = Some x \<and> at_status x = Art_VERIFIED"
    if "\<exists>x. map_of (as_registry st) j = Some x \<and> at_status x = Art_VERIFIED" for j
    using st1 [of j] i that by auto
  ultimately show ?case using Cons.IH [OF rest] by auto
qed

lemma valid_verify_artifacts:
  "valid (unsettled k) (verify_artifacts e is) (\<lambda>failed w. unsettled k w \<and> (failed = None \<longrightarrow> all_verified is w)) (unsettled k)"
  using verify_each_verified
  by (fastforce simp: triple_def verify_artifacts_def unsettled_def all_verified_def split: option.split prod.split)

lemma mark_verified_refused: "mark_verified wr t1 t2 tid rid b = (b', Inr False) \<Longrightarrow> b' = b"
  by (auto simp: mark_verified_def commit_def persist_def split: option.splits if_splits)

lemma valid_mark_verified:
  "valid (\<lambda>w. unsettled k w \<and> (c \<and> all_verified is w)) (on_board e (mark_verified wr t1 t2 tid rid))
     (\<lambda>ok w. settled_with k c is w \<and> (\<not> ok \<longrightarrow> unsettled k w)) (settled_with k c is)"
proof (rule tripleI)
  fix w w' ok
  assume u: "unsettled k w \<and> c \<and> all_verified is w"
    and m: "on_board e (mark_verified wr t1 t2 tid rid) w = (w', Inr ok)"
  from m obtain b where "mark_verified wr t1 t2 tid rid (wd_board w) = (b, Inr ok)" "w' = w\<lparr>wd_board := b\<rparr>"
    by (auto simp: on_board_def split: prod.splits sum.splits)
  with u mark_verified_refused [of wr t1 t2 tid rid "wd_board w" b] show "settled_with k c is w' \<and> (\<not> ok \<longrightarrow> unsettled k w')"
    by (auto simp: settled_with_def unsettled_def all_verified_def)
next
  fix w w' x
  assume u: "unsettled k w \<and> c \<and> all_verified is w"
    and m: "on_board e (mark_verified wr t1 t2 tid rid) w = (w', Inl x)"
  then show "settled_with k c is w'"
    by (auto simp: settled_with_def all_verified_def on_board_def split: prod.splits sum.splits)
qed

text \<open>From here on, \<open>c\<close> stands for the evidence, and holds where the board is asked to settle the task.\<close>

lemma valid_settle_verified:
  assumes c and "calm e tid" "others_quiet e tid is"
  shows "valid (unsettled (wv_run_id e, tid)) (settle_verified e tid rid is)
    (\<lambda>_. settled_with (wv_run_id e, tid) c is) (settled_with (wv_run_id e, tid) c is)"
  unfolding settle_verified_def
proof (rule triple_andthen)
  let ?k = "(wv_run_id e, tid)" let ?S = "settled_with ?k c is"
  let ?R = "\<lambda>failed w. unsettled ?k w \<and> (failed = None \<longrightarrow> all_verified is w)"
  show "valid (unsettled ?k) (verify_artifacts e is) ?R ?S"
    by (rule triple_weaken [OF valid_verify_artifacts [of ?k e "is"]]) simp_all
  fix failed :: "string option"
  show "valid (?R failed) (case failed of
         Some msg \<Rightarrow>
           andthen (changing (reject_artifacts e 300 is [])) (\<lambda>_.
             require_repair e 36 tid rid ''artifact_verification_rollback'' is
               (finish_task_run e 38 rid ''failed'' (Some (''artifact_verification_commit_failed: '' @ msg))))
       | None \<Rightarrow>
           board_flag e (mark_verified (wv_write e 39) (wv_clock e 39 0) (wv_clock e 39 1) tid (Some (wv_run_id e)))
             (andthen (changing (reject_artifacts e 400 is [])) (\<lambda>_.
                record_state_conflict e 40 tid rid ''mark_verified'' Board_VERIFYING is))
             (andthen (finish_task_run e 41 rid ''succeeded'' None) (\<lambda>_. others e 8))) (\<lambda>_. ?S) ?S"
  proof (cases failed)
    case (Some msg)
    have "quiet ?k [] (andthen (changing (reject_artifacts e 300 is [])) (\<lambda>_.
             require_repair e 36 tid rid ''artifact_verification_rollback'' is
               (finish_task_run e 38 rid ''failed'' (Some (''artifact_verification_commit_failed: '' @ msg)))))"
      by (intro quiet_intros)
    from valid_stays [OF this] show ?thesis unfolding Some option.case by (rule triple_weaken) simp_all
  next
    case None
    have accept: "quiet ?k is (andthen (finish_task_run e 41 rid ''succeeded'' None) (\<lambda>_. others e 8))"
      using assms(3) by (intro quiet_intros)
    have refuse: "quiet ?k [] (andthen (changing (reject_artifacts e 400 is [])) (\<lambda>_.
        record_state_conflict e 40 tid rid ''mark_verified'' Board_VERIFYING is))"
      by (intro quiet_intros)
    show ?thesis unfolding None option.case board_flag_def
    proof (rule triple_andthen)
      show "valid (?R None) (on_board e (mark_verified (wv_write e 39) (wv_clock e 39 0) (wv_clock e 39 1) tid
          (Some (wv_run_id e)))) (\<lambda>ok w. ?S w \<and> (\<not> ok \<longrightarrow> unsettled ?k w)) ?S"
        using \<open>c\<close> by (intro triple_weaken [OF valid_mark_verified]) simp_all
    next
      fix ok :: bool
      show "valid (\<lambda>w. ?S w \<and> (\<not> ok \<longrightarrow> unsettled ?k w)) (if ok
          then andthen (finish_task_run e 41 rid ''succeeded'' None) (\<lambda>_. others e 8)
          else andthen (changing (reject_artifacts e 400 is [])) (\<lambda>_.
            record_state_conflict e 40 tid rid ''mark_verified'' Board_VERIFYING is)) (\<lambda>_. ?S) ?S"
      proof (cases ok)
        case True
        then show ?thesis using valid_settled [OF accept, of c] by simp
      next
        case False
        have "valid (\<lambda>w. ?S w \<and> unsettled ?k w) (andthen (changing (reject_artifacts e 400 is [])) (\<lambda>_.
            record_state_conflict e 40 tid rid ''mark_verified'' Board_VERIFYING is)) (\<lambda>_. ?S) ?S"
          by (rule triple_weaken [OF valid_stays [OF refuse]]) simp_all
        with False show ?thesis by simp
      qed
    qed
  qed
qed

lemma valid_integrate:
  assumes "calm e tid" "others_quiet e tid is"
    and c: "sha = None \<or> sha = Some [] \<or> \<not> wv_integration e \<or> wv_integrate e = Inr None \<Longrightarrow> c"
  shows "valid (unsettled (wv_run_id e, tid))
      (andthen (integrate_commit e tid rid sha) (\<lambda>merged. if merged then settle_verified e tid rid is else ret ()))
    (\<lambda>_. settled_with (wv_run_id e, tid) c is) (settled_with (wv_run_id e, tid) c is)"
proof (rule valid_then [where F = "\<lambda>merged. merged \<longrightarrow> c"])
  show "quiet (wv_run_id e, tid) [] (integrate_commit e tid rid sha)" by (rule quiet_integrate_commit)
next
  fix w w' merged
  assume "integrate_commit e tid rid sha w = (w', Inr merged)"
  then have "merged \<longrightarrow> sha = None \<or> sha = Some [] \<or> \<not> wv_integration e \<or> wv_integrate e = Inr None"
    by (auto simp: integrate_commit_def ret_def raise_exn_def andthen_def reading_def
        split: if_splits sum.splits option.splits prod.splits)
  with c show "merged \<longrightarrow> c" by blast
next
  show "valid (unsettled (wv_run_id e, tid)) (if merged then settle_verified e tid rid is else ret ())
      (\<lambda>_. settled_with (wv_run_id e, tid) c is) (settled_with (wv_run_id e, tid) c is)" if "merged \<longrightarrow> c" for merged
    using that valid_settle_verified [of c e tid "is" rid] assms(1,2) by (cases merged) (simp_all add: triple_ret)
qed

lemma valid_after_verification:
  assumes "calm e tid" "others_quiet e tid is"
    and c: "passed \<Longrightarrow> \<not> vetoed (fst (emit_async Ev_TASK_COMPLETED
        (hook_context e a tid @ [(''artifact_ids'', PyList (map PyStr is))]) (wv_hooks e))) \<Longrightarrow>
      sha = None \<or> sha = Some [] \<or> \<not> wv_integration e \<or> wv_integrate e = Inr None \<Longrightarrow> c"
  shows "valid (unsettled (wv_run_id e, tid)) (after_verification e tid a rid sha is passed)
    (\<lambda>_. settled_with (wv_run_id e, tid) c is) (settled_with (wv_run_id e, tid) c is)"
proof (cases passed)
  case False
  have "quiet (wv_run_id e, tid) [] (require_repair e 42 tid rid ''mark_repair_required'' is
          (andthen (finish_task_run e 44 rid ''failed'' (Some ''verification_failed'')) (\<lambda>_. others e 9)))"
    using assms(1) by (intro quiet_intros)
  from valid_stays [OF this] False show ?thesis by (simp add: after_verification_def)
next
  case True
  let ?k = "(wv_run_id e, tid)" let ?S = "settled_with ?k c is"
  let ?ctx = "hook_context e a tid @ [(''artifact_ids'', PyList (map PyStr is))]"
  let ?r = "fst (emit_async Ev_TASK_COMPLETED ?ctx (wv_hooks e))"
  have tail: "valid (unsettled ?k) (if vetoed ?r then reject_by_hook e tid rid is ?r
        else andthen (integrate_commit e tid rid sha) (\<lambda>merged. if merged then settle_verified e tid rid is else ret ()))
      (\<lambda>_. ?S) ?S"
  proof (cases "vetoed ?r")
    case True
    with valid_stays [OF quiet_reject_by_hook [OF assms(1)]] show ?thesis by simp
  next
    case False
    with c True valid_integrate [OF assms(1,2), of sha c rid] show ?thesis by simp
  qed
  have "valid (unsettled ?k) (andthen (others e 6) (\<lambda>_. if vetoed ?r then reject_by_hook e tid rid is ?r
        else andthen (integrate_commit e tid rid sha) (\<lambda>merged. if merged then settle_verified e tid rid is else ret ())))
      (\<lambda>_. ?S) ?S"
    by (rule valid_after [OF calm_others [OF assms(1)] tail])
  then show ?thesis using True by (simp add: after_verification_def emit_def andthen_ret)
qed

lemma valid_verify_and_settle:
  assumes "calm e tid" "others_quiet e tid is"
    and c: "wv_has_verifier e \<longrightarrow> (\<exists>record. wv_verdict e = Some (''pass'', record)) \<Longrightarrow>
      \<not> vetoed (fst (emit_async Ev_TASK_COMPLETED
        (hook_context e a tid @ [(''artifact_ids'', PyList (map PyStr is))]) (wv_hooks e))) \<Longrightarrow>
      sha = None \<or> sha = Some [] \<or> \<not> wv_integration e \<or> wv_integrate e = Inr None \<Longrightarrow> c"
  shows "valid (unsettled (wv_run_id e, tid)) (verify_and_settle e tid a rid sha is)
    (\<lambda>_. settled_with (wv_run_id e, tid) c is) (settled_with (wv_run_id e, tid) c is)"
proof -
  let ?k = "(wv_run_id e, tid)" let ?S = "settled_with ?k c is"
  have judged: "valid (unsettled ?k) (andthen (verify_task e tid) (\<lambda>passed. andthen (others e 5) (\<lambda>_.
      after_verification e tid a rid sha is passed))) (\<lambda>_. ?S) ?S"
  proof (rule valid_then [where F = "\<lambda>passed. passed \<longrightarrow> wv_has_verifier e \<longrightarrow> (\<exists>record. wv_verdict e = Some (''pass'', record))"])
    show "quiet ?k [] (verify_task e tid)" by (rule quiet_verify_task)
  next
    fix w w' passed
    assume "verify_task e tid w = (w', Inr passed)"
    then show "passed \<longrightarrow> wv_has_verifier e \<longrightarrow> (\<exists>record. wv_verdict e = Some (''pass'', record))"
      by (auto simp: verify_task_def judge_task_def ret_def andthen_def reading_def on_exception_def Let_def
          split: if_splits sum.splits option.splits prod.splits)
  next
    fix passed
    assume p: "passed \<longrightarrow> wv_has_verifier e \<longrightarrow> (\<exists>record. wv_verdict e = Some (''pass'', record))"
    show "valid (unsettled ?k) (andthen (others e 5) (\<lambda>_. after_verification e tid a rid sha is passed)) (\<lambda>_. ?S) ?S"
      using p c by (intro valid_after [OF calm_others [OF assms(1)]] valid_after_verification [OF assms(1,2)]) blast
  qed
  have verifying: "valid (unsettled ?k) (board_flag e (mark_verifying (wv_write e 47) (wv_clock e 47 0) tid (Some (wv_run_id e)))
          (record_state_conflict e 48 tid rid ''mark_verifying'' Board_PRODUCED is)
          (andthen (others e 4) (\<lambda>_. andthen (verify_task e tid) (\<lambda>passed. andthen (others e 5) (\<lambda>_.
             after_verification e tid a rid sha is passed))))) (\<lambda>_. ?S) ?S"
    using judged valid_stays [OF quiet_record_state_conflict] assms(1)
    by (auto simp: board_flag_def intro!: valid_after quiet_intros)
  show ?thesis
    using verifying valid_stays [OF quiet_record_state_conflict] assms(1)
    by (auto simp: verify_and_settle_def board_flag_def intro!: valid_after quiet_intros)
qed

lemma commit_work_sha:
  assumes "commit_work e tid a rid l is w = (w', Inr (Some sha))" "wv_worktrees e \<longrightarrow> l \<noteq> None"
  shows "sha = None \<and> (\<not> wv_worktrees e \<or> \<not> wv_integration e) \<or> (\<exists>x. sha = Some x \<and> wv_commit e = Inr x)"
  using assms by (auto simp: commit_work_def ret_def leave_def raise_exn_def andthen_def
      split: if_splits sum.splits option.splits prod.splits worker_exn.splits)

lemma valid_settle_result:
  assumes "calm e tid" "others_quiet e tid is" "\<And>is'. wv_execution e = Exec_success is' \<Longrightarrow> is' = is"
    and l: "wv_worktrees e \<longrightarrow> l \<noteq> None"
  shows "valid (unsettled (wv_run_id e, tid)) (settle_result e tid a rid l (wv_execution e))
    (\<lambda>_. settled_with (wv_run_id e, tid) (accepted e tid is) is) (settled_with (wv_run_id e, tid) (accepted e tid is) is)"
proof (cases "wv_agent_cancelled e")
  case True
  with valid_stays [OF quiet_stop_cancelled] show ?thesis by (simp add: settle_result_def)
next
  case alive: False
  show ?thesis
  proof (cases "wv_execution e")
    case (Exec_failure err)
    with alive valid_stays [OF quiet_settle_failure [OF assms(1)]] show ?thesis by (simp add: settle_result_def)
  next
    case (Exec_raises x)
    with alive show ?thesis by (simp add: settle_result_def triple_raise)
  next
    case (Exec_success is')
    then have exec: "wv_execution e = Exec_success is" using assms(3) [OF Exec_success] by simp
    let ?k = "(wv_run_id e, tid)" let ?S = "settled_with ?k (accepted e tid is) is"
    have "valid (unsettled ?k) (andthen (commit_work e tid a rid l is) (\<lambda>c.
        case c of None \<Rightarrow> ret () | Some sha \<Rightarrow> verify_and_settle e tid a rid sha is)) (\<lambda>_. ?S) ?S"
    proof (rule valid_then [where F = "\<lambda>c. \<forall>sha. c = Some sha \<longrightarrow> sha = None \<and> (\<not> wv_worktrees e \<or> \<not> wv_integration e) \<or>
        (\<exists>x. sha = Some x \<and> wv_commit e = Inr x)"])
      show "quiet ?k [] (commit_work e tid a rid l is)" by (rule quiet_commit_work [OF assms(1)])
    next
      fix w w' c
      assume "commit_work e tid a rid l is w = (w', Inr c)"
      with commit_work_sha [OF _ l] show "\<forall>sha. c = Some sha \<longrightarrow> sha = None \<and> (\<not> wv_worktrees e \<or> \<not> wv_integration e) \<or>
          (\<exists>x. sha = Some x \<and> wv_commit e = Inr x)" by blast
    next
      fix c
      assume c: "\<forall>sha. c = Some sha \<longrightarrow> sha = None \<and> (\<not> wv_worktrees e \<or> \<not> wv_integration e) \<or>
          (\<exists>x. sha = Some x \<and> wv_commit e = Inr x)"
      have "valid (unsettled ?k) (verify_and_settle e tid a rid sha is) (\<lambda>_. ?S) ?S" if "c = Some sha" for sha
        by (rule valid_verify_and_settle [OF assms(1,2)]) (use that c alive exec in \<open>auto simp: accepted_def\<close>)
      then show "valid (unsettled ?k) (case c of None \<Rightarrow> ret () | Some sha \<Rightarrow> verify_and_settle e tid a rid sha is) (\<lambda>_. ?S) ?S"
        by (cases c) (simp_all add: triple_ret)
    qed
    with alive exec show ?thesis by (simp add: settle_result_def)
  qed
qed

section \<open>The whole coroutine\<close>

lemma valid_assignment_body:
  assumes "calm e tid" "others_quiet e tid is" "\<And>is'. wv_execution e = Exec_success is' \<Longrightarrow> is' = is"
  shows "valid (unsettled (wv_run_id e, tid)) (assignment_body e tid caps a rid)
    (\<lambda>_. settled_with (wv_run_id e, tid) (accepted e tid is) is) (settled_with (wv_run_id e, tid) (accepted e tid is) is)"
proof -
  let ?k = "(wv_run_id e, tid)" let ?S = "settled_with ?k (accepted e tid is) is"
  have run: "valid (unsettled ?k) (andthen (gather_inputs e tid a) (\<lambda>_. andthen (execute e caps) (\<lambda>result.
      settle_result e tid a rid l result))) (\<lambda>_. ?S) ?S" if l: "wv_worktrees e \<longrightarrow> l \<noteq> None" for l
  proof (rule valid_after [OF quiet_gather_inputs], rule valid_then [where F = "\<lambda>r. r = wv_execution e", OF quiet_execute [OF assms(1)]])
    show "r = wv_execution e" if "execute e caps w = (w', Inr r)" for w w' r
      using that by (auto simp: execute_def andthen_def raise_exn_def ret_def split: execution.splits if_splits prod.splits sum.splits)
    show "valid (unsettled ?k) (settle_result e tid a rid l r) (\<lambda>_. ?S) ?S" if "r = wv_execution e" for r
      unfolding that by (rule valid_settle_result [OF assms l])
  qed
  show ?thesis unfolding assignment_body_def
  proof (rule valid_then [where F = "\<lambda>taken. \<forall>l. taken = Some l \<longrightarrow> wv_worktrees e \<longrightarrow> l \<noteq> None", OF quiet_take_workspace [OF assms(1)]])
    show "\<forall>l. taken = Some l \<longrightarrow> wv_worktrees e \<longrightarrow> l \<noteq> None" if "take_workspace e tid a rid w = (w', Inr taken)" for w w' taken
      using that by (auto simp: take_workspace_def ret_def leave_def raise_exn_def andthen_def
          split: if_splits sum.splits prod.splits worker_exn.splits)
    show "valid (unsettled ?k) (case taken of None \<Rightarrow> ret () | Some l \<Rightarrow> andthen (gather_inputs e tid a) (\<lambda>_.
        andthen (execute e caps) (\<lambda>result. settle_result e tid a rid l result))) (\<lambda>_. ?S) ?S"
      if "\<forall>l. taken = Some l \<longrightarrow> wv_worktrees e \<longrightarrow> l \<noteq> None" for taken
      using run that by (cases taken) (simp_all add: triple_ret)
  qed
qed

lemma valid_run_assignment:
  assumes "calm e tid" "others_quiet e tid is" "\<And>is'. wv_execution e = Exec_success is' \<Longrightarrow> is' = is"
  shows "valid (unsettled (wv_run_id e, tid)) (run_assignment e tid caps a rid)
    (\<lambda>_. settled_with (wv_run_id e, tid) (accepted e tid is) is) (settled_with (wv_run_id e, tid) (accepted e tid is) is)"
  unfolding run_assignment_def
  by (rule valid_finally_do [OF triple_on_exception [OF valid_assignment_body [OF assms]
        valid_settled [OF quiet_assignment_failed [OF assms(2)]]] valid_settled [OF quiet_assignment_ends [OF assms(2)]]])

lemma valid_run_claimed:
  assumes "calm e (bt_task_id t)" "others_quiet e (bt_task_id t) is" "\<And>is'. wv_execution e = Exec_success is' \<Longrightarrow> is' = is"
  shows "valid (unsettled (wv_run_id e, bt_task_id t)) (run_claimed e t a)
    (\<lambda>_. settled_with (wv_run_id e, bt_task_id t) (accepted e (bt_task_id t) is) is)
    (settled_with (wv_run_id e, bt_task_id t) (accepted e (bt_task_id t) is) is)"
proof -
  have step: "valid P (if x = None then ret () else m) (\<lambda>_. Q) E"
    if "valid P m (\<lambda>_. Q) E" "\<And>w. P w \<Longrightarrow> Q w" for P Q E m and x :: "'b option"
    using that by (cases x) (simp_all add: triple_ret)
  have calm: "detached_ok e" "others_quiet e (bt_task_id t) []" using assms(1) by (simp_all add: calm_def)
  show ?thesis
    unfolding run_claimed_def Let_def
    by (rule valid_after [OF quiet_open_session] valid_after [OF quiet_claim_task] valid_after [OF quiet_start_task [OF calm(2)]]
        valid_after [OF quiet_approve_plan [OF calm(1)]] valid_after [OF quiet_to_running] valid_after [OF quiet_open_task_run]
        step valid_run_assignment [OF assms] unsettled_settled | assumption)+
qed

lemma valid_run_one:
  assumes "calm e (bt_task_id t)" "others_quiet e (bt_task_id t) is" "\<And>is'. wv_execution e = Exec_success is' \<Longrightarrow> is' = is"
  shows "valid (unsettled (wv_run_id e, bt_task_id t)) (run_one e t)
    (\<lambda>_. settled_with (wv_run_id e, bt_task_id t) (accepted e (bt_task_id t) is) is)
    (settled_with (wv_run_id e, bt_task_id t) (accepted e (bt_task_id t) is) is)"
proof -
  let ?k = "(wv_run_id e, bt_task_id t)" let ?S = "settled_with ?k (accepted e (bt_task_id t) is) is"
  have wake: "quiet ?k [] (changing (wake_busy e t))"
    by (rule quiet_artifacts_only) (simp add: changing_def wake_busy_def Let_def)
  have free: "quiet ?k is (andthen (free_agent e 60 a (bt_task_id t)) (\<lambda>_. raise_exn x))" for a x
    by (intro quiet_intros)
  have run: "valid (unsettled ?k) (on_exception (run_claimed e t a)
      (\<lambda>x. andthen (free_agent e 60 (ag_agent_id a) (bt_task_id t)) (\<lambda>_. raise_exn x))) (\<lambda>_. ?S) ?S" for a
    by (rule triple_on_exception [OF valid_run_claimed [OF assms] valid_settled [OF free]])
  have "valid (unsettled ?k) (andthen (reserve_worker e t) (\<lambda>reserved. case reserved of
      None \<Rightarrow> changing (wake_busy e t)
    | Some a \<Rightarrow> on_exception (run_claimed e t a)
        (\<lambda>x. andthen (free_agent e 60 (ag_agent_id a) (bt_task_id t)) (\<lambda>_. raise_exn x)))) (\<lambda>_. ?S) ?S"
    by (rule valid_after) (auto simp: reserve_worker_def intro: quiet_intros run valid_stays [OF wake] split: option.split)
  then show ?thesis by (simp add: run_one_def triple_ret)
qed

section \<open>Property\<close>

definition evidence_ids :: "worker_env \<Rightarrow> string list" where
  "evidence_ids e = (case wv_execution e of Exec_success is \<Rightarrow> is | _ \<Rightarrow> [])"

text \<open>C19: A worker settles its task only on verified evidence. Whatever the executor, the worktrees, the verifier, the
  hooks and the storage do, and whatever exception or cancellation ends it: a task that was not SUCCEEDED before
  \<open>_run_one\<close> and is after it was executed with success and not cancelled, its verifier (if there is one) passed, no
  TaskCompleted hook vetoed it, its commit merged without a conflict, and every artifact of the result is VERIFIED in
  the final store; provided the other coroutines neither settle the task nor take its evidence back.\<close>

theorem success_only_through_verifier:
  assumes "\<not> succeeded_at (wv_run_id e, bt_task_id t) (wd_board w)"
    and "succeeded_at (wv_run_id e, bt_task_id t) (wd_board (fst (run_one e t w)))"
    and "others_quiet e (bt_task_id t) (evidence_ids e)" "detached_ok e"
  shows "accepted e (bt_task_id t) (evidence_ids e) \<and> all_verified (evidence_ids e) (fst (run_one e t w))"
proof -
  obtain w' r where r: "run_one e t w = (w', r)" by force
  have calm: "calm e (bt_task_id t)" using assms(3,4) by (simp add: calm_def others_quiet_Nil)
  have v: "valid (unsettled (wv_run_id e, bt_task_id t)) (run_one e t)
      (\<lambda>_. settled_with (wv_run_id e, bt_task_id t) (accepted e (bt_task_id t) (evidence_ids e)) (evidence_ids e))
      (settled_with (wv_run_id e, bt_task_id t) (accepted e (bt_task_id t) (evidence_ids e)) (evidence_ids e))"
    by (rule valid_run_one [OF calm assms(3)]) (simp add: evidence_ids_def)
  have "settled_with (wv_run_id e, bt_task_id t) (accepted e (bt_task_id t) (evidence_ids e)) (evidence_ids e) w'"
    using tripleD [OF v, of w] assms(1) r by (cases r) (simp_all add: unsettled_def)
  with assms(2) r show ?thesis by (simp add: settled_with_def)
qed

text \<open>A run of one task and one agent, with the artifact of the store's example as the evidence.\<close>

definition demo_world :: world where
  "demo_world = \<lparr>
     wd_board = \<lparr>board_tasks = [((''run'', ''T1''), new_board_task 0 0 ''T1'' ''run'' ''T1'' ''T1'')],
       board_by_run = [(''run'', [(''run'', ''T1'')])], board_persist = False, board_rows = []\<rparr>,
     wd_registry = \<lparr>reg_agents = [(''a'', (demo_agent ''a'' Agent_IDLE [''coding''])\<lparr>ag_run_id := ''run''\<rparr>)],
       reg_lease_timeout = 60, reg_rows = []\<rparr>,
     wd_sessions = \<lparr>sv_sessions = [], sv_actors = [], sv_rows = [], sv_queue = []\<rparr>,
     wd_artifacts = Some reported, wd_plans = [], wd_task_runs = [],
     wd_mailbox = \<lparr>mb_heap = [], mb_inboxes = [], mb_all = [], mb_capacity = 2, mb_hooks = [], mb_blocklist = [],
       mb_rate = [], mb_wake = [], mb_rows = []\<rparr>\<rparr>"

definition demo_worker_env :: "(nat \<Rightarrow> worker_exn option) \<Rightarrow> worker_env" where
  "demo_worker_env ends = \<lparr>wv_run_id = ''run'', wv_hint = None, wv_cancelled = (\<lambda>_. False), wv_agent_cancelled = False,
     wv_write = (\<lambda>_. True), wv_clock = (\<lambda>_ _. 1), wv_text = ''storage'', wv_others = (\<lambda>_ w. w),
     wv_await = ends, wv_detached = (\<lambda>_. None), wv_hooks = [], wv_node = None, wv_ids = (\<lambda>_. ''i''),
     wv_wakeup_text = ''wake'', wv_worktrees = True, wv_lease = Inr \<lparr>wl_worktree_path = ''wt'', wl_branch = ''b''\<rparr>,
     wv_integration = True, wv_commit = Inr ''sha'', wv_integrate = Inr None, wv_execution = Exec_success [''a1''],
     wv_finishes_within = (\<lambda>_. True), wv_timeout = 1, wv_timeout_text = (\<lambda>_. []), wv_has_verifier = True,
     wv_verdict = Some (''pass'', []), wv_sha = id, wv_resolve = below_run,
     wv_policy = \<lparr>base_delay_seconds = 1, max_delay_seconds = 60, rate_limit_base_delay_seconds = 15,
       rate_limit_max_delay_seconds = 180\<rparr>, wv_replan = (\<lambda>w. w)\<rparr>"

abbreviation demo_run_task :: board_task where
  "demo_run_task \<equiv> new_board_task 0 0 ''T1'' ''run'' ''T1'' ''T1''"

theorem success_only_through_verifier_witness:
  "all_verified [''a1''] (fst (run_one (demo_worker_env (\<lambda>_. None)) demo_run_task demo_world)) \<and>
   accepted (demo_worker_env (\<lambda>_. None)) ''T1'' [''a1'']"
proof -
  let ?e = "demo_worker_env (\<lambda>_. None)"
  have before: "map_option bt_status (map_of (board_tasks (wd_board demo_world)) (''run'', ''T1'')) = Some Board_PENDING"
    by code_simp
  have after: "map_option bt_status (map_of (board_tasks (wd_board (fst (run_one ?e demo_run_task demo_world)))) (''run'', ''T1''))
      = Some Board_SUCCEEDED"
    by code_simp
  have e: "wv_run_id ?e = ''run''" "bt_task_id demo_run_task = ''T1''" "evidence_ids ?e = [''a1'']"
    by (simp_all add: demo_worker_env_def new_board_task_def evidence_ids_def)
  have "others_quiet ?e ''T1'' [''a1'']" "detached_ok ?e"
    by (simp_all add: others_quiet_def detached_ok_def demo_worker_env_def)
  moreover have "\<not> succeeded_at (''run'', ''T1'') (wd_board demo_world)"
    "succeeded_at (''run'', ''T1'') (wd_board (fst (run_one ?e demo_run_task demo_world)))"
    using before after by (auto simp: succeeded_at_def)
  ultimately show ?thesis using success_only_through_verifier [of ?e demo_run_task demo_world] unfolding e by blast
qed

end
