(* ===== verification/Worker_Ends.thy ===== *)
theory Worker_Ends
  imports Worker_Props
begin

text \<open>
  However the coroutine ends, the agent it reserved is free again; the two awaits before the inner \<open>try\<close> are the
  exception, where a cancellation by the scheduler leaks the agent and its claim.
\<close>

named_theorems steady_intros \<open>which programs are not ended by a cancellation\<close>

section \<open>Freed agents\<close>

definition freed :: "string \<Rightarrow> string \<Rightarrow> world \<Rightarrow> bool" where
  "freed a tid w \<longleftrightarrow>
     (\<forall>x. get_agent (wd_registry w) a = Some x \<longrightarrow> ag_current_task_id x = Some tid \<longrightarrow>
        ag_status x \<notin> {Agent_CLAIMING, Agent_RUNNING, Agent_STOPPING})"

lemma release_frees:
  assumes "get_agent (fst (release_reservation wr clk a (Some tid) g)) a = Some x" "ag_current_task_id x = Some tid"
  shows "ag_status x \<notin> {Agent_CLAIMING, Agent_RUNNING, Agent_STOPPING}"
  using assms
  by (auto simp: release_reservation_def get_agent_def put_agent_def persist_agent_def upsert_agent_instance_def
      agent_heartbeat_def agent_update_status_def Let_def split: option.splits if_splits)

lemma free_agent_frees: "triple P (free_agent e j a tid) (\<lambda>_. freed a tid) (\<lambda>_. freed a tid)"
proof -
  have "freed a tid (fst (free_agent e j a tid w))" for w
    using release_frees [of "wv_write e j" "wv_clock e j" a tid "wd_registry w"]
    by (auto simp: freed_def free_agent_def andthen_def on_registry_def ret_def split: prod.split sum.split)
  then have "freed a tid w'" if "free_agent e j a tid w = (w', r)" for w w' r
    using that by (metis fst_conv)
  then show ?thesis by (intro tripleI)
qed

text \<open>Programs that leave the registry alone.\<close>

lemma same_registry: "(\<And>w. wd_registry (fst (m w)) = wd_registry w) \<Longrightarrow>
    triple (freed a tid) m (\<lambda>_. freed a tid) (\<lambda>_. freed a tid)"
  by (rule tripleI) (metis fst_conv freed_def)+

section \<open>Programs that raise no cancellation\<close>

definition steady :: "'a worker \<Rightarrow> bool" where
  "steady m \<longleftrightarrow> (\<forall>w. snd (m w) \<noteq> Inl TaskCancelled)"

lemma steady_ret [steady_intros]: "steady (ret x)"
  by (simp add: steady_def ret_def)

lemma steady_reading [steady_intros]: "steady (reading f)"
  by (simp add: steady_def reading_def)

lemma steady_changing [steady_intros]: "steady (changing f)"
  by (simp add: steady_def changing_def)

lemma steady_raise [steady_intros]: "steady (raise_exn (Raised msg))"
  by (simp add: steady_def raise_exn_def)

lemma steady_emit [steady_intros]: "steady (emit e ev ctx)"
  by (simp add: steady_def emit_def ret_def)

lemma steady_board [steady_intros]: "steady (on_board e f)"
  by (simp add: steady_def on_board_def split: prod.split sum.split)

lemma steady_registry [steady_intros]: "steady (on_registry e f)"
  by (simp add: steady_def on_registry_def split: prod.split sum.split)

lemma steady_andthen [steady_intros]:
  assumes "steady m" "\<And>x. steady (k x)"
  shows "steady (andthen m k)"
  unfolding steady_def
proof
  fix w
  obtain w1 r where m: "m w = (w1, r)" by force
  then have "r \<noteq> Inl TaskCancelled" using assms(1) by (metis snd_conv steady_def)
  moreover have "snd (k x w1) \<noteq> Inl TaskCancelled" for x using assms(2) by (simp add: steady_def)
  ultimately show "snd (andthen m k w) \<noteq> Inl TaskCancelled" by (cases r) (simp_all add: andthen_def m)
qed

lemma steady_if [steady_intros]: "steady m \<Longrightarrow> steady n \<Longrightarrow> steady (if b then m else n)"
  by simp

lemma steady_option [steady_intros]: "steady n \<Longrightarrow> (\<And>x. steady (f x)) \<Longrightarrow> steady (case opt of None \<Rightarrow> n | Some x \<Rightarrow> f x)"
  by (cases opt) simp_all

lemma steady_others [steady_intros]: "wv_await e j \<noteq> Some TaskCancelled \<Longrightarrow> steady (others e j)"
  by (auto simp: steady_def others_def split: option.split)

lemma steady_sessions [steady_intros]:
  "steady (move_session now a target)" "steady (save_session e j a)" "steady (open_session e x)"
  "steady (open_task_run e x tid)"
  by (auto simp: steady_def move_session_def save_session_def open_session_def open_task_run_def
      split: option.split sum.split prod.split)

lemma steady_calls [steady_intros]:
  "steady m \<Longrightarrow> steady (leave m)" "steady m \<Longrightarrow> steady (when_true b m)"
  "steady (give_back e j a tid reason)" "steady (free_agent e j a tid)"
  unfolding leave_def when_true_def give_back_def free_agent_def by (intro steady_intros; assumption?)+

lemma steady_write_own [steady_intros]: "steady (write_own e j tid f)"
proof -
  have "steady (andthen (on_board e (add wr t)) (\<lambda>_. ret ()))" for wr t by (intro steady_intros)
  then show ?thesis by (simp add: steady_def write_own_def split: option.split)
qed

text \<open>In such a program an exception is one that the outer handler sees.\<close>

abbreviation seen :: "worker_exn \<Rightarrow> world \<Rightarrow> bool" where
  "seen x w \<equiv> x \<noteq> TaskCancelled"

lemma steady_triple: "steady m \<Longrightarrow> triple P m (\<lambda>_ _. True) seen"
  unfolding steady_def by (rule tripleI) (auto, metis snd_conv)

lemma steady_then:
  assumes "steady m" "\<And>x. triple (\<lambda>_. True) (k x) Q seen"
  shows "triple P (andthen m k) Q seen"
  by (rule triple_andthen [OF steady_triple [OF assms(1)] assms(2)])

text \<open>A phase that leaves without a result has freed the agent.\<close>

abbreviation leaves :: "string \<Rightarrow> string \<Rightarrow> 'a option worker \<Rightarrow> bool" where
  "leaves a tid m \<equiv> triple (\<lambda>_. True) m (\<lambda>x w. x = None \<longrightarrow> freed a tid w) seen"

lemma leaves_free: "leaves a tid (leave (free_agent e j a tid))"
proof -
  have s: "triple (\<lambda>_. True) (free_agent e j a tid) (\<lambda>_ _. True) seen" by (rule steady_triple) (intro steady_intros)
  have "triple (\<lambda>_. True) (free_agent e j a tid) (\<lambda>_. freed a tid) seen"
  proof (rule tripleI)
    show "freed a tid w'" if "free_agent e j a tid w = (w', Inr u)" for w w' u
      using tripleD(1) [OF free_agent_frees [of "\<lambda>_. True"] TrueI that] .
    show "x \<noteq> TaskCancelled" if "free_agent e j a tid w = (w', Inl x)" for w w' x
      using tripleD(2) [OF s TrueI that] .
  qed
  then show ?thesis unfolding leave_def by (rule triple_andthen) (rule triple_ret, simp)
qed

lemma leaves_then: "steady m \<Longrightarrow> (\<And>x. leaves a tid (k x)) \<Longrightarrow> leaves a tid (andthen m k)"
  by (rule steady_then)

lemma leave_andthen: "leave (andthen m k) = andthen m (\<lambda>x. leave (k x))"
  by (rule ext) (simp add: leave_def andthen_def split: prod.split sum.split)

lemma leaves_if: "leaves a tid m \<Longrightarrow> leaves a tid n \<Longrightarrow> leaves a tid (if b then m else n)"
  by simp

lemma leaves_Some: "leaves a tid (ret (Some x))"
  by (simp add: triple_ret)

lemmas leaves_intros = leaves_if leaves_free leaves_Some leaves_then steady_intros

lemma claim_gives_task: "claim wr t1 t2 tid a rid b = (b', Inr c) \<Longrightarrow> cr_success c \<Longrightarrow> cr_task c \<noteq> None"
  by (auto simp: claim_def claim_failed_def commit_def persist_def Let_def split: option.splits if_splits)

lemma leaves_claim_task: "leaves a tid (claim_task e tid a)"
  unfolding claim_task_def
proof (rule leaves_then [OF steady_reading], rule leaves_then)
  fix st
  show "steady (when_true (st = Some Mate_IDLE) (andthen (move_session (wv_clock e 1 1) a Mate_CLAIMING) (\<lambda>_. save_session e 1 a)))"
    by (intro steady_intros)
  show "leaves a tid (andthen (on_board e (claim (wv_write e 2) (wv_clock e 2 0) (wv_clock e 2 1) tid a (Some (wv_run_id e))))
      (\<lambda>c. if \<not> cr_success c then leave (free_agent e 3 a tid) else ret (cr_task c)))"
  proof (rule triple_andthen [where R = "\<lambda>c _. cr_success c \<longrightarrow> cr_task c \<noteq> None"])
    show "triple (\<lambda>_. True) (on_board e (claim (wv_write e 2) (wv_clock e 2 0) (wv_clock e 2 1) tid a (Some (wv_run_id e))))
        (\<lambda>c _. cr_success c \<longrightarrow> cr_task c \<noteq> None) seen"
      by (rule tripleI) (auto simp: on_board_def dest!: claim_gives_task split: prod.splits sum.splits)
    show "triple (\<lambda>_. cr_success c \<longrightarrow> cr_task c \<noteq> None)
        (if \<not> cr_success c then leave (free_agent e 3 a tid) else ret (cr_task c)) (\<lambda>x w. x = None \<longrightarrow> freed a tid w) seen" for c
      by (cases "cr_success c") (auto intro: triple_ret triple_weaken [OF leaves_free])
  qed
qed

lemma leaves_start_task:
  "wv_await e 0 \<noteq> Some TaskCancelled \<Longrightarrow> wv_await e 1 \<noteq> Some TaskCancelled \<Longrightarrow> leaves a tid (start_task e tid a)"
  unfolding start_task_def leave_andthen by (intro leaves_intros)

lemma leaves_approve_plan: "leaves a tid (approve_plan e tid a)"
proof -
  have park: "leaves a tid (leave (park_for_plan e tid a p))" for p
    unfolding park_for_plan_def leave_andthen by (intro leaves_intros)
  have submit: "steady (submit_node_plan e tid a n)" for n
    unfolding submit_node_plan_def by (intro steady_intros)
  show ?thesis unfolding approve_plan_def by (intro leaves_intros park submit)
qed

lemma leaves_to_running: "leaves a tid (to_running e tid a)"
  unfolding to_running_def leave_andthen by (intro leaves_intros)

section \<open>The assignment\<close>

definition replan_keeps_freed :: "worker_env \<Rightarrow> string \<Rightarrow> string \<Rightarrow> bool" where
  "replan_keeps_freed e a tid \<longleftrightarrow> (\<forall>w. freed a tid w \<longrightarrow> freed a tid (wv_replan e w))"

lemma run_assignment_frees:
  assumes "replan_keeps_freed e a tid"
  shows "valid (\<lambda>_. True) (run_assignment e tid caps a rid) (\<lambda>_. freed a tid) (freed a tid)"
  unfolding run_assignment_def
proof (rule valid_finally_do [where R = "\<lambda>_. True"])
  show "valid (\<lambda>_. True) (on_exception (assignment_body e tid caps a rid) (assignment_failed e tid a rid)) (\<lambda>_ _. True) (\<lambda>_. True)"
    by (rule tripleI) simp_all
  have rest: "valid (freed a tid) (rest_session e a) (\<lambda>_. freed a tid) (freed a tid)"
    unfolding rest_session_def
    by (intro triple_andthen [where R = "\<lambda>_. freed a tid"] same_registry)
       (auto simp: changing_def reading_def when_true_def ret_def update_session_def move_session_def save_session_def
         split: option.split sum.split prod.split)
  show "valid (\<lambda>_. True) (assignment_ends e tid a) (\<lambda>_. freed a tid) (freed a tid)"
    unfolding assignment_ends_def
    by (rule triple_andthen [OF free_agent_frees], rule triple_andthen [OF rest], rule triple_andthen [OF same_registry])
       (use assms in \<open>auto simp: reading_def emit_def andthen_ret triple_def changing_def ret_def replan_keeps_freed_def\<close>)
qed

lemma run_claimed_frees:
  assumes "replan_keeps_freed e (ag_agent_id x) (bt_task_id t)" "wv_await e 0 \<noteq> Some TaskCancelled" "wv_await e 1 \<noteq> Some TaskCancelled"
  shows "triple (\<lambda>_. True) (run_claimed e t x) (\<lambda>_. freed (ag_agent_id x) (bt_task_id t))
    (\<lambda>y w. y = TaskCancelled \<longrightarrow> freed (ag_agent_id x) (bt_task_id t) w)"
proof -
  let ?a = "ag_agent_id x" and ?tid = "bt_task_id t"
  let ?E = "\<lambda>y w. y = TaskCancelled \<longrightarrow> freed ?a ?tid w"
  have phase: "triple (\<lambda>_. True) (andthen m (\<lambda>y. if y = None then ret () else k y)) (\<lambda>_. freed ?a ?tid) ?E"
    if m: "leaves ?a ?tid m" and k: "\<And>y. triple (\<lambda>_. True) (k y) (\<lambda>_. freed ?a ?tid) ?E"
    for m :: "'b option worker" and k :: "'b option \<Rightarrow> unit worker"
  proof (rule triple_andthen)
    show "triple (\<lambda>_. True) m (\<lambda>y w. y = None \<longrightarrow> freed ?a ?tid w) ?E"
      by (rule triple_weaken [OF m]) simp_all
    show "triple (\<lambda>w. y = None \<longrightarrow> freed ?a ?tid w) (if y = None then ret () else k y) (\<lambda>_. freed ?a ?tid) ?E" for y
      using k [of y] by (cases "y = None") (auto intro: triple_ret)
  qed
  have step: "triple (\<lambda>_. True) (andthen m k) (\<lambda>_. freed ?a ?tid) ?E"
    if "steady m" "\<And>y. triple (\<lambda>_. True) (k y) (\<lambda>_. freed ?a ?tid) ?E" for m :: "'b worker" and k
    by (rule triple_andthen [OF triple_weaken [OF steady_triple [OF that(1)]] that(2)]) simp_all
  have run: "triple (\<lambda>_. True) (run_assignment e ?tid caps ?a rid) (\<lambda>_. freed ?a ?tid) ?E" for caps rid
    by (rule triple_weaken [OF run_assignment_frees [OF assms(1)]]) simp_all
  show ?thesis
    unfolding run_claimed_def Let_def
    by (intro step phase run leaves_claim_task leaves_start_task leaves_approve_plan leaves_to_running steady_sessions assms)
qed

section \<open>Property\<close>

text \<open>C20: A reserved agent is always freed: whatever the components, the worktrees, the executor and the other
  coroutines do, whichever writes fail, and whatever exception or cancellation ends \<open>_run_one\<close> after its first two
  awaits, the agent it reserved is then not CLAIMING, RUNNING or STOPPING for the task. A cancellation at one of the
  first two awaits is not caught, and leaves the agent CLAIMING and the task CLAIMED (see \<open>cancellation_leaks\<close>).\<close>

theorem reserved_agent_always_freed:
  assumes "snd (reserve_worker e t w) = Inr (Some x)" "\<not> wv_cancelled e 0"
    and "wv_await e 0 \<noteq> Some TaskCancelled" "wv_await e 1 \<noteq> Some TaskCancelled" "replan_keeps_freed e (ag_agent_id x) (bt_task_id t)"
    and "get_agent (wd_registry (fst (run_one e t w))) (ag_agent_id x) = Some y"
  shows "\<not> (ag_status y \<in> {Agent_CLAIMING, Agent_RUNNING, Agent_STOPPING} \<and> ag_current_task_id y = Some (bt_task_id t))"
proof -
  let ?F = "freed (ag_agent_id x) (bt_task_id t)"
  let ?run = "on_exception (run_claimed e t x) (\<lambda>z. andthen (free_agent e 60 (ag_agent_id x) (bt_task_id t)) (\<lambda>_. raise_exn z))"
  have free: "valid (\<lambda>w. z = TaskCancelled \<longrightarrow> ?F w) (andthen (free_agent e 60 (ag_agent_id x) (bt_task_id t)) (\<lambda>_. raise_exn z))
      (\<lambda>_. ?F) ?F" for z
    by (rule triple_andthen [OF free_agent_frees]) (simp add: triple_raise)
  have run: "valid (\<lambda>_. True) ?run (\<lambda>_. ?F) ?F"
    by (rule triple_on_exception [OF run_claimed_frees [OF assms(5,3,4)] free]) simp
  obtain w1 where "reserve_worker e t w = (w1, Inr (Some x))" using assms(1) by (metis prod.collapse)
  then have one: "run_one e t w = ?run w1" by (simp add: run_one_def assms(2) andthen_def)
  obtain w' r where r: "?run w1 = (w', r)" by force
  then have "?F w'" using tripleD [OF run] by (cases r) auto
  with assms(6) one r show ?thesis by (auto simp: freed_def)
qed

text \<open>Cancelled while its executor runs, the worker of the example frees its agent.\<close>

theorem reserved_agent_always_freed_witness:
  "\<exists>y. get_agent (wd_registry (fst (run_one (demo_worker_env (\<lambda>k. if k = 2 then Some TaskCancelled else None))
        demo_run_task demo_world))) ''a'' = Some y \<and>
     \<not> (ag_status y \<in> {Agent_CLAIMING, Agent_RUNNING, Agent_STOPPING} \<and> ag_current_task_id y = Some ''T1'')"
proof -
  let ?e = "demo_worker_env (\<lambda>k. if k = 2 then Some TaskCancelled else None)"
  have "map_sum (\<lambda>_. ()) (map_option ag_agent_id) (snd (reserve_worker ?e demo_run_task demo_world)) = Inr (Some ''a'')"
    by code_simp
  then obtain x where x: "snd (reserve_worker ?e demo_run_task demo_world) = Inr (Some x)" "ag_agent_id x = ''a''"
    by (cases "snd (reserve_worker ?e demo_run_task demo_world)") auto
  have "get_agent (wd_registry (fst (run_one ?e demo_run_task demo_world))) ''a'' \<noteq> None" by code_simp
  then obtain y where y: "get_agent (wd_registry (fst (run_one ?e demo_run_task demo_world))) ''a'' = Some y" by blast
  have "\<not> wv_cancelled ?e 0" "wv_await ?e 0 \<noteq> Some TaskCancelled" "wv_await ?e 1 \<noteq> Some TaskCancelled"
    "replan_keeps_freed ?e ''a'' ''T1''" "bt_task_id demo_run_task = ''T1''"
    by (simp_all add: demo_worker_env_def replan_keeps_freed_def new_board_task_def)
  with reserved_agent_always_freed [OF x(1)] x(2) y show ?thesis by auto
qed

text \<open>A cancellation between the claim and the inner \<open>try\<close>: nobody frees the agent or gives the task back.\<close>

lemma cancellation_leaks:
  "case run_one (demo_worker_env (\<lambda>k. if k = 0 then Some TaskCancelled else None)) demo_run_task demo_world of (w, r) \<Rightarrow>
     r = Inl TaskCancelled \<and>
     map_option ag_status (get_agent (wd_registry w) ''a'') = Some Agent_CLAIMING \<and>
     map_option bt_status (map_of (board_tasks (wd_board w)) (''run'', ''T1'')) = Some Board_CLAIMED"
  by code_simp

text \<open>A failing audit write after the board settled the task: the handler fails the SUCCEEDED task, which is tried
  again although its evidence is VERIFIED and its commit merged.\<close>

lemma audit_failure_undoes_success:
  "case run_one (demo_worker_env (\<lambda>k. if k = 8 then Some (Raised ''db'') else None)) demo_run_task demo_world of (w, r) \<Rightarrow>
     r = Inr () \<and>
     map_option bt_status (map_of (board_tasks (wd_board w)) (''run'', ''T1'')) = Some Board_PENDING \<and>
     (case wd_artifacts w of Some st \<Rightarrow> map_option at_status (map_of (as_registry st) ''a1'') = Some Art_VERIFIED | None \<Rightarrow> False)"
  by code_simp

end
