(* ===== verification/Task_Service.thy ===== *)
theory Task_Service
  imports Task_Graph_Ops Task_Board Lifecycle_Hooks Run_Store
begin

text \<open>
  \<open>app/multiagent/transactional_task_service.py\<close>: the only writer of plan structure. A mutation of a run's
  graph, its log row, the board rows it creates and its event are one SQLite transaction; the board of the
  process follows after the commit. The exceptions are values of \<open>service_error\<close>, a rolled-back transaction
  leaves the tables as \<open>BEGIN IMMEDIATE\<close> found them. What pydantic makes of a value of another type is
  an argument (\<open>se_node\<close>, \<open>se_int\<close>), as are the ids of events and the commits of other processes
  between a check and the lock. The theorems are in \<open>Task_Service_Props\<close> and \<open>Task_Service_Plans\<close>.
\<close>

section \<open>State\<close>

datatype mutation_type = Mut_CREATE_TASK | Mut_ADD_DEPENDENCY | Mut_UPDATE_TASK | Mut_REPAIR_TASK | Mut_PLAN_REVISION

fun mutation_value :: "mutation_type \<Rightarrow> string" where
  "mutation_value Mut_CREATE_TASK = ''create_task''"
| "mutation_value Mut_ADD_DEPENDENCY = ''add_dependency''"
| "mutation_value Mut_UPDATE_TASK = ''update_task''"
| "mutation_value Mut_REPAIR_TASK = ''repair_task''"
| "mutation_value Mut_PLAN_REVISION = ''plan_revision''"

record graph_mutation =
  mut_id :: string
  mut_run_id :: string
  mut_type :: mutation_type
  mut_actor :: string
  mut_payload :: pydict
  mut_expected_version :: "int option"
  mut_created_at :: time

text \<open>A graph as JSON text; \<open>Ill_typed\<close> is one with a field whose value pydantic does not convert back.\<close>

datatype graph_json = Graph_json task_graph | Ill_typed

record snapshot_row =
  sn_version :: int
  sn_graph :: graph_json

record mutation_row =
  mw_mutation_id :: string
  mw_run_id :: string
  mw_actor :: string
  mw_type :: string
  mw_payload :: pydict
  mw_result_version :: int
  mw_created_at :: time

record graph_service =
  sv_snapshots :: "(string \<times> snapshot_row) list"  \<comment> \<open>\<open>task_graph_snapshots\<close>, by run\<close>
  sv_mutations :: "mutation_row list"               \<comment> \<open>\<open>task_graph_mutations\<close>\<close>
  sv_board :: task_board                             \<comment> \<open>the board of the process and \<open>task_board_tasks\<close>\<close>
  sv_log :: event_log

record graph_version_result =
  tv_run_id :: string
  tv_version :: int
  tv_mutation_id :: string
  tv_graph :: graph_json

datatype service_error =
    Graph_not_found | Invalid_snapshot | Version_conflict int int | Hook_blocked string | No_emit_in_loop
  | Graph_fault graph_error | Payload_fault string | Unknown_task string | Field_not_mutable string
  | Row_exists | Board_fault board_error | No_such_mutation

type_synonym 'a service = "graph_service \<Rightarrow> graph_service \<times> (service_error + 'a)"

record service_env =
  se_hooks :: hook_engine
  se_in_loop :: bool                      \<comment> \<open>the caller runs inside an event loop\<close>
  se_redact :: "string \<Rightarrow> string"
  se_event_id :: "nat \<Rightarrow> string"
  se_clock :: "nat \<Rightarrow> time"
  se_write :: "nat \<Rightarrow> bool"
  se_node :: "pyval \<Rightarrow> task_node option"  \<comment> \<open>\<open>TaskNode.model_validate\<close>\<close>
  se_int :: "pyval \<Rightarrow> int option"         \<comment> \<open>validation of an \<open>int\<close> field\<close>
  se_items :: "pyval \<Rightarrow> pydict option"    \<comment> \<open>\<open>dict.update\<close> of a value that is no dictionary\<close>
  se_others :: "graph_service \<Rightarrow> graph_service"  \<comment> \<open>commits of others before the lock is taken\<close>

definition ok :: "'a \<Rightarrow> 'a service" where
  "ok x s = (s, Inr x)"

definition failing :: "service_error \<Rightarrow> 'a service" where
  "failing e s = (s, Inl e)"

definition followed :: "'a service \<Rightarrow> ('a \<Rightarrow> 'b service) \<Rightarrow> 'b service" where
  "followed m k s = (case m s of (s', Inl e) \<Rightarrow> (s', Inl e) | (s', Inr x) \<Rightarrow> k x s')"

text \<open>\<open>BEGIN IMMEDIATE ... commit\<close>, with \<open>rollback\<close> and re-raise.\<close>

definition in_transaction :: "'a service \<Rightarrow> 'a service" where
  "in_transaction body s = (case body s of (s', Inr x) \<Rightarrow> (s', Inr x) | (_, Inl e) \<Rightarrow> (s, Inl e))"

section \<open>Tables\<close>

definition put_snapshot :: "string \<Rightarrow> int \<Rightarrow> graph_json \<Rightarrow> unit service" where
  "put_snapshot r v g s =
     ok () (s\<lparr>sv_snapshots := AList.update r \<lparr>sn_version = v, sn_graph = g\<rparr> (sv_snapshots s)\<rparr>)"

definition find_mutation :: "string \<Rightarrow> graph_service \<Rightarrow> mutation_row option" where
  "find_mutation i s = List.find (\<lambda>m. mw_mutation_id m = i) (sv_mutations s)"

definition insert_mutation :: "mutation_row \<Rightarrow> unit service" where
  "insert_mutation m s =
     (case find_mutation (mw_mutation_id m) s of
        Some _ \<Rightarrow> failing Row_exists s
      | None \<Rightarrow> ok () (s\<lparr>sv_mutations := sv_mutations s @ [m]\<rparr>))"

definition insert_or_ignore_mutation :: "mutation_row \<Rightarrow> unit service" where
  "insert_or_ignore_mutation m s =
     (case find_mutation (mw_mutation_id m) s of
        Some _ \<Rightarrow> ok () s
      | None \<Rightarrow> ok () (s\<lparr>sv_mutations := sv_mutations s @ [m]\<rparr>))"

definition on_rows :: "(task_table \<Rightarrow> task_table) \<Rightarrow> graph_service \<Rightarrow> graph_service" where
  "on_rows f s = s\<lparr>sv_board := (sv_board s)\<lparr>board_rows := f (board_rows (sv_board s))\<rparr>\<rparr>"

definition has_row :: "board_task \<Rightarrow> graph_service \<Rightarrow> bool" where
  "has_row t s \<longleftrightarrow> task_key_of t \<in> set (map fst (board_rows (sv_board s)))"

text \<open>\<open>INSERT OR IGNORE\<close>, \<open>INSERT\<close> and \<open>UPDATE ... WHERE\<close> on \<open>task_board_tasks\<close>.\<close>

definition insert_or_ignore_row :: "board_task \<Rightarrow> unit service" where
  "insert_or_ignore_row t s =
     ok () (if has_row t s then s else on_rows (\<lambda>rows. rows @ [(task_key_of t, t)]) s)"

definition insert_row :: "board_task \<Rightarrow> unit service" where
  "insert_row t s =
     (if has_row t s then failing Row_exists s else ok () (on_rows (\<lambda>rows. rows @ [(task_key_of t, t)]) s))"

definition update_row :: "board_task \<Rightarrow> unit service" where
  "update_row t s = ok () (if has_row t s then on_rows (AList.update (task_key_of t) t) s else s)"

fun each_of :: "('a \<Rightarrow> unit service) \<Rightarrow> 'a list \<Rightarrow> unit service" where
  "each_of f [] = ok ()"
| "each_of f (x # xs) = followed (f x) (\<lambda>_. each_of f xs)"

definition append_event :: "service_env \<Rightarrow> nat \<Rightarrow> string \<Rightarrow> string \<Rightarrow> string option \<Rightarrow> string option \<Rightarrow> pydict \<Rightarrow> unit service" where
  "append_event e k r kind agent tid payload s =
     (case append_event_envelope (se_redact e)
             \<lparr>te_event_id = se_event_id e k, te_run_id = r, te_event_type = kind, te_agent_id = agent,
              te_task_id = tid, te_task_run_id = None, te_timestamp = PyTime (se_clock e k),
              te_trace_id = None, te_payload = PyDict payload\<rparr> None (sv_log s) of
        (lg, Inl _) \<Rightarrow> failing Row_exists (s\<lparr>sv_log := lg\<rparr>)
      | (lg, Inr _) \<Rightarrow> ok () (s\<lparr>sv_log := lg\<rparr>))"

section \<open>Loading\<close>

text \<open>
  \<open>TaskGraph.model_validate\<close> of stored JSON: the bounds and validators of every node and of the graph. What it
  reads back is what was written.
\<close>

definition revalidates :: "task_graph \<Rightarrow> bool" where
  "revalidates g \<longleftrightarrow> list_all (\<lambda>n. case new_task_node n of Inl _ \<Rightarrow> False | Inr _ \<Rightarrow> True) (map snd (graph_nodes g))
     \<and> (case new_task_graph g of Inl _ \<Rightarrow> False | Inr _ \<Rightarrow> True)"

fun parse_graph :: "graph_json \<Rightarrow> service_error + task_graph" where
  "parse_graph Ill_typed = Inl Invalid_snapshot"
| "parse_graph (Graph_json g) = (if revalidates g then Inr g else Inl Invalid_snapshot)"

definition graph_of_run :: "string \<Rightarrow> graph_service \<Rightarrow> service_error + task_graph" where
  "graph_of_run r s =
     (case map_of (sv_snapshots s) r of None \<Rightarrow> Inl Graph_not_found | Some row \<Rightarrow> parse_graph (sn_graph row))"

definition load_graph :: "string \<Rightarrow> task_graph service" where
  "load_graph r s = (s, graph_of_run r s)"

section \<open>Lifecycle hooks\<close>

text \<open>\<open>node.model_dump(mode="json")\<close>.\<close>

fun node_status_value :: "task_node_status \<Rightarrow> string" where
  "node_status_value Node_PENDING = ''pending''"
| "node_status_value Node_READY = ''ready''"
| "node_status_value Node_RUNNING = ''running''"
| "node_status_value Node_SUCCEEDED = ''succeeded''"
| "node_status_value Node_FAILED = ''failed''"
| "node_status_value Node_SKIPPED = ''skipped''"
| "node_status_value Node_CANCELLED = ''cancelled''"

definition py_opt :: "('a \<Rightarrow> pyval) \<Rightarrow> 'a option \<Rightarrow> pyval" where
  "py_opt f x = (case x of None \<Rightarrow> PyNone | Some y \<Rightarrow> f y)"

definition py_strs :: "string list \<Rightarrow> pyval" where
  "py_strs xs = PyList (map PyStr xs)"

definition contract_dump :: "output_contract \<Rightarrow> pyval" where
  "contract_dump c = PyDict [(''artifact_type'', PyStr (oc_artifact_type c)), (''description'', PyStr (oc_description c)),
     (''acceptance_criteria'', py_strs (oc_acceptance_criteria c)),
     (''required_artifacts'', py_strs (oc_required_artifacts c)), (''allow_parallel'', PyBool (oc_allow_parallel c))]"

definition budget_dump :: "task_budget \<Rightarrow> pyval" where
  "budget_dump b = PyDict [(''max_attempts'', PyInt (bud_max_attempts b)), (''max_tool_calls'', PyInt (bud_max_tool_calls b)),
     (''max_seconds'', PyFloat (bud_max_seconds b)), (''max_tokens'', py_opt PyInt (bud_max_tokens b))]"

definition error_dump :: "execution_error \<Rightarrow> pyval" where
  "error_dump x = PyDict [(''code'', PyStr (ee_code x)), (''message'', PyStr (ee_message x)),
     (''tool_name'', py_opt PyStr (ee_tool_name x)), (''attempt'', PyInt (ee_attempt x)),
     (''occurred_at'', PyTime (ee_occurred_at x))]"

definition node_dump :: "task_node \<Rightarrow> pyval" where
  "node_dump n = PyDict [(''id'', PyStr (node_id n)), (''title'', PyStr (node_title n)),
     (''objective'', PyStr (node_objective n)), (''description'', PyStr (node_description n)),
     (''status'', PyStr (node_status_value (node_status n))), (''dependencies'', py_strs (node_dependencies n)),
     (''required_capabilities'', py_strs (node_required_capabilities n)),
     (''preferred_agent_profile'', py_opt PyStr (node_preferred_agent_profile n)),
     (''assigned_agent_id'', py_opt PyStr (node_assigned_agent_id n)),
     (''input_artifact_ids'', py_strs (node_input_artifact_ids n)),
     (''output_artifact_ids'', py_strs (node_output_artifact_ids n)),
     (''output_contract'', contract_dump (node_output_contract n)), (''priority'', PyInt (node_priority n)),
     (''attempts'', PyInt (node_attempts n)), (''max_attempts'', PyInt (node_max_attempts n)),
     (''budget'', budget_dump (node_budget n)), (''error'', py_opt error_dump (node_error n)),
     (''started_at'', py_opt PyTime (node_started_at n)), (''completed_at'', py_opt PyTime (node_completed_at n)),
     (''metadata'', PyDict (node_metadata n))]"

definition creation_context :: "string \<Rightarrow> string \<Rightarrow> task_node \<Rightarrow> pydict" where
  "creation_context r actor n = [(''run_id'', PyStr r), (''agent_id'', PyStr actor), (''task_id'', PyStr (node_id n)),
     (''task'', node_dump n)]"

text \<open>
  The synchronous \<open>emit\<close> of \<open>TASK_CREATED\<close>: it refuses to run inside an event loop; its audit events
  commit with the caller's transaction, or one by one outside any.
\<close>

definition py_text :: "pyval option \<Rightarrow> string option" where
  "py_text v = (case v of Some (PyStr t) \<Rightarrow> Some t | _ \<Rightarrow> None)"

fun append_audits :: "service_env \<Rightarrow> nat \<Rightarrow> string \<Rightarrow> audit_entry list \<Rightarrow> unit service" where
  "append_audits e k r [] = ok ()"
| "append_audits e k r (a # as) =
     followed (append_event e k r (ae_event_type a) (py_text (ae_agent_id a)) (py_text (ae_task_id a)) (ae_payload a))
       (\<lambda>_. append_audits e (Suc k) r as)"

definition emit_created :: "service_env \<Rightarrow> nat \<Rightarrow> string \<Rightarrow> pydict \<Rightarrow> hook_result service" where
  "emit_created e k r context =
     (if se_in_loop e then failing No_emit_in_loop
      else case emit_async Ev_TASK_CREATED context (se_hooks e) of
             (res, audits) \<Rightarrow> followed (append_audits e k r audits) (\<lambda>_. ok res))"

definition merged :: "pydict \<Rightarrow> pydict \<Rightarrow> pydict" where
  "merged d d' = fold (\<lambda>(k, v) acc. AList.update k v acc) d' d"

text \<open>The gate of a new node: vetoed, or its metadata extended by the hooks.\<close>

definition gated_node :: "service_env \<Rightarrow> nat \<Rightarrow> string \<Rightarrow> pydict \<Rightarrow> string \<Rightarrow> task_node \<Rightarrow> task_node service" where
  "gated_node e k r context blocked n =
     followed (emit_created e k r context) (\<lambda>res.
       if vetoed res then failing (Hook_blocked (if hr_feedback res \<noteq> [] then hr_feedback res else blocked))
       else ok (n\<lparr>node_metadata := merged (node_metadata n) (hr_mutate_metadata res)\<rparr>))"

section \<open>The structural changes\<close>

text \<open>The board task of a node.\<close>

definition task_of_node :: "time \<Rightarrow> time \<Rightarrow> string \<Rightarrow> pydict \<Rightarrow> task_node \<Rightarrow> board_task" where
  "task_of_node t1 t2 r metadata n =
     (new_board_task t1 t2 (node_id n) r (if node_title n \<noteq> [] then node_title n else node_id n) (node_objective n))
       \<lparr>bt_dependencies := node_dependencies n, bt_required_capabilities := node_required_capabilities n,
        bt_priority := node_priority n, bt_max_attempts := node_max_attempts n, bt_metadata := metadata\<rparr>"

record mutation_effect =
  me_graph :: task_graph
  me_ill_typed :: bool
  me_task :: "board_task option"
  me_updates :: "board_task list"

definition effect :: "task_graph \<Rightarrow> board_task option \<Rightarrow> board_task list \<Rightarrow> mutation_effect" where
  "effect g t ups = \<lparr>me_graph = g, me_ill_typed = False, me_task = t, me_updates = ups\<rparr>"

definition lift :: "graph_error + 'a \<Rightarrow> 'a service" where
  "lift x = (case x of Inl e \<Rightarrow> failing (Graph_fault e) | Inr y \<Rightarrow> ok y)"

definition payload_text :: "string \<Rightarrow> pydict \<Rightarrow> string service" where
  "payload_text k d = (case map_of d k of Some (PyStr s) \<Rightarrow> ok s | _ \<Rightarrow> failing (Payload_fault k))"

definition create_effect :: "service_env \<Rightarrow> graph_mutation \<Rightarrow> task_graph \<Rightarrow> mutation_effect service" where
  "create_effect e m g =
     (case Option.bind (map_of (mut_payload m) ''task'') (se_node e) of
        None \<Rightarrow> failing (Payload_fault ''task'')
      | Some n0 \<Rightarrow>
          followed (gated_node e 0 (mut_run_id m) (creation_context (mut_run_id m) (mut_actor m) n0)
             ''TaskCreated hook blocked mutation'' n0) (\<lambda>n.
          followed (lift (add_node (se_clock e 0) n g)) (\<lambda>g'.
          followed (lift (validate g')) (\<lambda>_.
          ok (effect g' (Some (task_of_node (se_clock e 1) (se_clock e 2) (mut_run_id m)
            [(''graph_version'', PyInt (graph_version g'))] n)) [])))))"

definition add_edge :: "time \<Rightarrow> string \<Rightarrow> string \<Rightarrow> task_node \<Rightarrow> task_graph \<Rightarrow> task_graph" where
  "add_edge now tid dep n g =
     (if dep \<in> set (node_dependencies n) then g
      else touch now (put_node tid (n\<lparr>node_dependencies := node_dependencies n @ [dep]\<rparr>) g))"

definition dependency_effect :: "service_env \<Rightarrow> graph_mutation \<Rightarrow> task_graph \<Rightarrow> mutation_effect service" where
  "dependency_effect e m g =
     followed (payload_text ''task_id'' (mut_payload m)) (\<lambda>tid.
     followed (payload_text ''dependency_id'' (mut_payload m)) (\<lambda>dep.
     (case get_node g tid of
        None \<Rightarrow> failing (Unknown_task tid)
      | Some n \<Rightarrow>
          if dep \<notin> set (node_ids g) then failing (Unknown_task dep)
          else let g' = add_edge (se_clock e 0) tid dep n g
               in followed (lift (validate g')) (\<lambda>_. ok (effect g' None [])))))"

text \<open>
  \<open>setattr\<close> validates nothing: a value of another type stays in the node and is dumped; whether the row is
  then readable is decided when it is parsed.
\<close>

fun change_field :: "service_env \<Rightarrow> string \<Rightarrow> pyval \<Rightarrow> task_node \<times> bool \<Rightarrow> service_error + task_node \<times> bool" where
  "change_field e key v (n, ill) =
     (if key = ''metadata'' then
        (case (case v of PyDict d \<Rightarrow> Some d | _ \<Rightarrow> se_items e v) of
           None \<Rightarrow> Inl (Payload_fault ''metadata'')
         | Some d \<Rightarrow> Inr (n\<lparr>node_metadata := merged (node_metadata n) d\<rparr>, ill))
      else if key = ''priority'' then
        Inr (case se_int e v of None \<Rightarrow> (n, True) | Some i \<Rightarrow> (n\<lparr>node_priority := i\<rparr>, ill))
      else if key \<in> {''title'', ''objective'', ''description''} then
        Inr (case v of
               PyStr t \<Rightarrow> (if key = ''title'' then n\<lparr>node_title := t\<rparr>
                           else if key = ''objective'' then n\<lparr>node_objective := t\<rparr>
                           else n\<lparr>node_description := t\<rparr>, ill)
             | _ \<Rightarrow> (n, True))
      else Inl (Field_not_mutable key))"

fun change_fields :: "service_env \<Rightarrow> pydict \<Rightarrow> task_node \<times> bool \<Rightarrow> service_error + task_node \<times> bool" where
  "change_fields e [] acc = Inr acc"
| "change_fields e ((key, v) # rest) acc =
     (case change_field e key v acc of Inl x \<Rightarrow> Inl x | Inr acc' \<Rightarrow> change_fields e rest acc')"

definition requested_changes :: "pydict \<Rightarrow> pydict option" where
  "requested_changes d = (case map_of d ''changes'' of None \<Rightarrow> Some [] | Some (PyDict c) \<Rightarrow> Some c | _ \<Rightarrow> None)"

definition update_effect :: "service_env \<Rightarrow> graph_mutation \<Rightarrow> task_graph \<Rightarrow> mutation_effect service" where
  "update_effect e m g =
     followed (payload_text ''task_id'' (mut_payload m)) (\<lambda>tid.
     (case get_node g tid of
        None \<Rightarrow> failing (Unknown_task tid)
      | Some n \<Rightarrow>
          (case requested_changes (mut_payload m) of
             None \<Rightarrow> failing (Payload_fault ''changes'')
           | Some changes \<Rightarrow>
               (case change_fields e changes (n, False) of
                  Inl x \<Rightarrow> failing x
                | Inr (n', ill) \<Rightarrow>
                    ok \<lparr>me_graph = touch (se_clock e 0) (put_node tid n' g), me_ill_typed = ill,
                        me_task = None, me_updates = []\<rparr>))))"

fun py_texts :: "pyval list \<Rightarrow> string list option" where
  "py_texts [] = Some []"
| "py_texts (PyStr s # vs) = map_option (Cons s) (py_texts vs)"
| "py_texts (_ # vs) = None"

text \<open>\<open>list(v)\<close>.\<close>

fun py_list :: "pyval \<Rightarrow> pyval list option" where
  "py_list (PyList vs) = Some vs"
| "py_list (PyStr s) = Some (map (\<lambda>c. PyStr [c]) s)"
| "py_list (PyDict d) = Some (map (PyStr \<circ> fst) d)"
| "py_list _ = None"

definition payload_or :: "string \<Rightarrow> pyval \<Rightarrow> pydict \<Rightarrow> pyval" where
  "payload_or k v d = (case map_of d k of Some x \<Rightarrow> if truthy x then x else v | None \<Rightarrow> v)"

text \<open>The updates of the board: the target is marked, rewired dependencies are copied.\<close>

definition marked_target :: "time \<Rightarrow> string \<Rightarrow> board_task \<Rightarrow> board_task" where
  "marked_target now rid t = t\<lparr>bt_metadata := AList.update ''superseded_by_repair'' (PyStr rid) (bt_metadata t), bt_updated_at := now\<rparr>"

definition rewired_task :: "time \<Rightarrow> string \<Rightarrow> string \<Rightarrow> task_board \<Rightarrow> task_node \<Rightarrow> board_task option" where
  "rewired_task now r rid b n =
     (if node_id n = rid then None
      else case Task_Board.get (node_id n) (Some r) b of
             None \<Rightarrow> None
           | Some t \<Rightarrow> if bt_dependencies t \<noteq> node_dependencies n
                       then Some (t\<lparr>bt_dependencies := node_dependencies n, bt_updated_at := now\<rparr>) else None)"

definition repair_updates :: "time \<Rightarrow> string \<Rightarrow> string \<Rightarrow> string \<Rightarrow> task_graph \<Rightarrow> task_board \<Rightarrow> board_task list" where
  "repair_updates now r target rid g b =
     (case Task_Board.get target (Some r) b of None \<Rightarrow> [] | Some t \<Rightarrow> [marked_target now rid t])
     @ List.map_filter (rewired_task now r rid b) (map snd (graph_nodes g))"

text \<open>A RUNNING target is failed first.\<close>

definition stopped_target :: "service_env \<Rightarrow> string \<Rightarrow> task_node \<Rightarrow> task_graph \<Rightarrow> task_graph" where
  "stopped_target e target n g =
     (if node_status n = Node_RUNNING
      then fst (update_status (se_clock e 10) (se_clock e 11) target Node_FAILED g) else g)"

definition repair_metadata :: "graph_mutation \<Rightarrow> string \<Rightarrow> pyval list \<Rightarrow> task_node \<Rightarrow> pydict" where
  "repair_metadata m target sources repair = merged (node_metadata repair)
     [(''repair_of'', PyStr target), (''source_artifact_ids'', PyList sources),
      (''verification_feedback'',
       case map_of (mut_payload m) ''verification_feedback'' of None \<Rightarrow> PyDict [] | Some v \<Rightarrow> v)]"

text \<open>What follows once the repair \<open>repair\<close> of \<open>target\<close> is in the graph \<open>g\<close>.\<close>

definition repaired_effect :: "service_env \<Rightarrow> graph_mutation \<Rightarrow> string \<Rightarrow> pyval list \<Rightarrow> task_graph \<Rightarrow> task_node \<Rightarrow> task_board
    \<Rightarrow> mutation_effect" where
  "repaired_effect e m target sources g repair b =
     (let meta = repair_metadata m target sources repair;
          repair' = repair\<lparr>node_metadata := meta\<rparr>;
          g' = put_node (node_id repair) repair' g
      in effect g'
           (Some ((task_of_node (se_clock e 12) (se_clock e 13) (mut_run_id m)
              (merged [(''graph_version'', PyInt (graph_version g'))] meta) repair')\<lparr>bt_title := node_title repair\<rparr>))
           (repair_updates (se_clock e 14) (mut_run_id m) target (node_id repair) g' b))"

definition repair_effect :: "service_env \<Rightarrow> graph_mutation \<Rightarrow> task_graph \<Rightarrow> mutation_effect service" where
  "repair_effect e m g s =
     (let d = mut_payload m in
      followed (payload_text ''target_task_id'' d) (\<lambda>target.
      (case get_node g target of
         None \<Rightarrow> failing (Unknown_task target)
       | Some n \<Rightarrow>
           (case (payload_or ''objective'' (PyStr (''repair '' @ node_objective n)) d,
                  payload_or ''required_capabilities'' (py_strs (node_required_capabilities n)) d,
                  py_list (case map_of d ''source_artifact_ids'' of None \<Rightarrow> PyList [] | Some v \<Rightarrow> v)) of
              (PyStr objective, PyList cvs, Some sources) \<Rightarrow>
                (case py_texts cvs of
                   None \<Rightarrow> failing (Graph_fault FieldValidation)
                 | Some caps \<Rightarrow>
                     followed (lift (add_repair_task (se_clock e) target objective (Some caps) (stopped_target e target n g)))
                       (\<lambda>(g1, repair). ok (repaired_effect e m target sources g1 repair (sv_board s))))
            | _ \<Rightarrow> failing (Graph_fault FieldValidation)))) s)"

definition apply_mutation :: "service_env \<Rightarrow> graph_mutation \<Rightarrow> task_graph \<Rightarrow> mutation_effect service" where
  "apply_mutation e m g =
     (case mut_type m of
        Mut_CREATE_TASK \<Rightarrow> create_effect e m g
      | Mut_ADD_DEPENDENCY \<Rightarrow> dependency_effect e m g
      | Mut_UPDATE_TASK \<Rightarrow> update_effect e m g
      | Mut_REPAIR_TASK \<Rightarrow> repair_effect e m g
      | Mut_PLAN_REVISION \<Rightarrow> failing No_such_mutation)"

section \<open>Applying a mutation\<close>

definition effect_json :: "mutation_effect \<Rightarrow> graph_json" where
  "effect_json x = (if me_ill_typed x then Ill_typed else Graph_json (me_graph x))"

definition check_version :: "int option \<Rightarrow> int \<Rightarrow> unit service" where
  "check_version expected v =
     (case expected of Some x \<Rightarrow> if v \<noteq> x then failing (Version_conflict x v) else ok () | None \<Rightarrow> ok ())"

definition mutation_record :: "graph_mutation \<Rightarrow> int \<Rightarrow> mutation_row" where
  "mutation_record m v = \<lparr>mw_mutation_id = mut_id m, mw_run_id = mut_run_id m, mw_actor = mut_actor m,
     mw_type = mutation_value (mut_type m), mw_payload = mut_payload m, mw_result_version = v,
     mw_created_at = mut_created_at m\<rparr>"

text \<open>The body of the transaction.\<close>

definition mutation_body :: "service_env \<Rightarrow> graph_mutation \<Rightarrow> mutation_effect service" where
  "mutation_body e m s =
     (case map_of (sv_snapshots s) (mut_run_id m) of
        None \<Rightarrow> failing Graph_not_found s
      | Some row \<Rightarrow>
          followed (check_version (mut_expected_version m) (sn_version row)) (\<lambda>_.
          (case parse_graph (sn_graph row) of
             Inl x \<Rightarrow> failing x
           | Inr g \<Rightarrow>
               followed (apply_mutation e m g) (\<lambda>x.
               followed (put_snapshot (mut_run_id m) (graph_version (me_graph x)) (effect_json x)) (\<lambda>_.
               followed (case me_task x of None \<Rightarrow> ok () | Some t \<Rightarrow> insert_or_ignore_row t) (\<lambda>_.
               followed (each_of update_row (me_updates x)) (\<lambda>_.
               followed (insert_mutation (mutation_record m (graph_version (me_graph x)))) (\<lambda>_.
               followed (append_event e 100 (mut_run_id m) ''TaskGraphMutation'' (Some (mut_actor m))
                  (case me_task x of Some t \<Rightarrow> Some (bt_task_id t) | None \<Rightarrow> py_text (map_of (mut_payload m) ''task_id''))
                  [(''mutation_id'', PyStr (mut_id m)), (''mutation_type'', PyStr (mutation_value (mut_type m))),
                   (''version'', PyInt (graph_version (me_graph x)))]) (\<lambda>_.
               ok x)))))))) s)"

text \<open>The process's board after the commit.\<close>

definition board_add :: "service_env \<Rightarrow> nat \<Rightarrow> board_task \<Rightarrow> unit service" where
  "board_add e k t s =
     (case add (se_write e k) t (sv_board s) of
        (b, Inl x) \<Rightarrow> failing (Board_fault x) (s\<lparr>sv_board := b\<rparr>)
      | (b, Inr _) \<Rightarrow> ok () (s\<lparr>sv_board := b\<rparr>))"

fun board_adds :: "service_env \<Rightarrow> nat \<Rightarrow> board_task list \<Rightarrow> unit service" where
  "board_adds e k [] = ok ()"
| "board_adds e k (t # ts) = followed (board_add e k t) (\<lambda>_. board_adds e (Suc k) ts)"

definition project :: "service_env \<Rightarrow> graph_mutation \<Rightarrow> mutation_effect \<Rightarrow> unit service" where
  "project e m x s =
     (case me_task x of
        Some t \<Rightarrow>
          followed (case Task_Board.get (bt_task_id t) (Some (mut_run_id m)) (sv_board s) of
                      None \<Rightarrow> board_add e 0 t | Some _ \<Rightarrow> ok ())
            (\<lambda>_. board_adds e 1 (me_updates x)) s
      | None \<Rightarrow>
          if mut_type m \<noteq> Mut_ADD_DEPENDENCY then ok () s
          else (case py_text (map_of (mut_payload m) ''task_id'') of
                  None \<Rightarrow> ok () s
                | Some tid \<Rightarrow>
                    (case (Task_Board.get tid (Some (mut_run_id m)) (sv_board s), get_node (me_graph x) tid) of
                       (Some t, Some n) \<Rightarrow> board_add e 0 (t\<lparr>bt_dependencies := node_dependencies n\<rparr>) s
                     | _ \<Rightarrow> ok () s)))"

definition apply_request :: "service_env \<Rightarrow> graph_mutation \<Rightarrow> graph_version_result service" where
  "apply_request e m s =
     (let answer = (\<lambda>v j. \<lparr>tv_run_id = mut_run_id m, tv_version = v, tv_mutation_id = mut_id m, tv_graph = j\<rparr>) in
      (case find_mutation (mut_id m) s of
         Some row \<Rightarrow>
           followed (load_graph (mut_run_id m)) (\<lambda>g. ok (answer (mw_result_version row) (Graph_json g))) s
       | None \<Rightarrow>
           followed (load_graph (mut_run_id m)) (\<lambda>g.
           followed (check_version (mut_expected_version m) (graph_version g)) (\<lambda>_.
           followed (\<lambda>s. in_transaction (mutation_body e m) (se_others e s)) (\<lambda>x.
           followed (project e m x) (\<lambda>_.
           ok (answer (graph_version (me_graph x)) (effect_json x)))))) s))"

text \<open>\<open>create_task\<close>, \<open>add_dependency\<close> and \<open>create_repair\<close> build a mutation without an expected version.\<close>

definition plain_mutation :: "string \<Rightarrow> string \<Rightarrow> mutation_type \<Rightarrow> string \<Rightarrow> pydict \<Rightarrow> time \<Rightarrow> graph_mutation" where
  "plain_mutation i r t actor d now = \<lparr>mut_id = i, mut_run_id = r, mut_type = t, mut_actor = actor, mut_payload = d,
     mut_expected_version = None, mut_created_at = now\<rparr>"

definition create_graph_task :: "service_env \<Rightarrow> string \<Rightarrow> string \<Rightarrow> pyval \<Rightarrow> string \<Rightarrow> graph_version_result service" where
  "create_graph_task e r actor task i =
     apply_request e (plain_mutation i r Mut_CREATE_TASK actor [(''task'', task)] (se_clock e 20))"

definition add_dependency :: "service_env \<Rightarrow> string \<Rightarrow> string \<Rightarrow> string \<Rightarrow> string \<Rightarrow> string \<Rightarrow> graph_version_result service" where
  "add_dependency e r actor tid dep i =
     apply_request e (plain_mutation i r Mut_ADD_DEPENDENCY actor
       [(''task_id'', PyStr tid), (''dependency_id'', PyStr dep)] (se_clock e 20))"

definition create_repair :: "service_env \<Rightarrow> string \<Rightarrow> string \<Rightarrow> string \<Rightarrow> string list \<Rightarrow> string list \<Rightarrow> pyval \<Rightarrow> string
    \<Rightarrow> graph_version_result service" where
  "create_repair e r target objective caps sources feedback i =
     apply_request e (plain_mutation i r Mut_REPAIR_TASK ''verifier''
       [(''target_task_id'', PyStr target), (''objective'', PyStr objective), (''required_capabilities'', py_strs caps),
        (''source_artifact_ids'', py_strs sources), (''verification_feedback'', feedback)] (se_clock e 20))"

end
