(* ===== verification/Plan_Registration.thy ===== *)
theory Plan_Registration
  imports Task_Service
begin

text \<open>
  \<open>app/multiagent/transactional_task_service.py\<close>, continued: \<open>register_initial_graph\<close>, the plan-to-board write
  boundary, and \<open>_replace_plan\<close>, which supersedes a registered plan by another. The event ids and clock
  readings of the i-th node start at \<open>100 * i\<close>.
\<close>

section \<open>Plan structure\<close>

text \<open>\<open>_plan_signature\<close>: what its JSON text is made of. The text determines these values and back.\<close>

record node_signature =
  ns_title :: string
  ns_objective :: string
  ns_description :: string
  ns_dependencies :: "string list"
  ns_required_capabilities :: "string list"
  ns_preferred_agent_profile :: "string option"
  ns_output_contract :: output_contract
  ns_priority :: int
  ns_max_attempts :: int
  ns_budget :: task_budget

definition node_signature_of :: "task_node \<Rightarrow> node_signature" where
  "node_signature_of n = \<lparr>ns_title = node_title n, ns_objective = node_objective n, ns_description = node_description n,
     ns_dependencies = sort (node_dependencies n), ns_required_capabilities = sort (node_required_capabilities n),
     ns_preferred_agent_profile = node_preferred_agent_profile n, ns_output_contract = node_output_contract n,
     ns_priority = node_priority n, ns_max_attempts = node_max_attempts n, ns_budget = node_budget n\<rparr>"

definition plan_signature :: "task_graph \<Rightarrow> string \<times> (string \<times> node_signature) list" where
  "plan_signature g =
     (graph_root g, map (\<lambda>(k, n). (k, node_signature_of n)) (sort_key fst (graph_nodes g)))"

section \<open>Registering the first plan\<close>

text \<open>The gate of every node in order; outside a transaction, so what was audited stays.\<close>

fun gate_nodes :: "service_env \<Rightarrow> string \<Rightarrow> string \<Rightarrow> nat \<Rightarrow> node_table \<Rightarrow> node_table service" where
  "gate_nodes e r actor i [] = ok []"
| "gate_nodes e r actor i ((key, n) # ns) =
     followed (gated_node e (100 * i) r (creation_context r actor n) ''TaskCreated hook blocked initial plan'' n) (\<lambda>n'.
     followed (gate_nodes e r actor (Suc i) ns) (\<lambda>rest. ok ((key, n') # rest)))"

fun plan_tasks :: "service_env \<Rightarrow> string \<Rightarrow> pydict \<Rightarrow> nat \<Rightarrow> task_node list \<Rightarrow> board_task list" where
  "plan_tasks e r metadata i [] = []"
| "plan_tasks e r metadata i (n # ns) =
     task_of_node (se_clock e (100 * i + 50)) (se_clock e (100 * i + 51)) r metadata n
     # plan_tasks e r metadata (Suc i) ns"

definition initial_id :: "string \<Rightarrow> string" where
  "initial_id r = ''initial:'' @ r"

text \<open>Row, log row and event of one task.\<close>

definition register_task :: "service_env \<Rightarrow> string \<Rightarrow> string \<Rightarrow> int \<Rightarrow> nat \<Rightarrow> board_task \<Rightarrow> unit service" where
  "register_task e r actor v i t =
     (let mid = initial_id r @ '':'' @ bt_task_id t in
      followed (insert_or_ignore_row t) (\<lambda>_.
      followed (insert_or_ignore_mutation \<lparr>mw_mutation_id = mid, mw_run_id = r, mw_actor = actor,
         mw_type = ''initial_task'', mw_payload = [(''task_id'', PyStr (bt_task_id t))], mw_result_version = v,
         mw_created_at = se_clock e (100 * i + 60)\<rparr>) (\<lambda>_.
      append_event e (100 * i + 70) r ''TaskCreated'' (Some actor) (Some (bt_task_id t))
        [(''mutation_id'', PyStr mid), (''task_id'', PyStr (bt_task_id t)), (''version'', PyInt v),
         (''source'', PyStr ''initial_plan'')])))"

fun register_tasks :: "service_env \<Rightarrow> string \<Rightarrow> string \<Rightarrow> int \<Rightarrow> nat \<Rightarrow> board_task list \<Rightarrow> unit service" where
  "register_tasks e r actor v i [] = ok ()"
| "register_tasks e r actor v i (t # ts) =
     followed (register_task e r actor v i t) (\<lambda>_. register_tasks e r actor v (Suc i) ts)"

definition registration_body :: "service_env \<Rightarrow> string \<Rightarrow> string \<Rightarrow> task_graph \<Rightarrow> board_task list \<Rightarrow> unit service" where
  "registration_body e r actor g tasks s =
     (if list_ex (\<lambda>m. mw_run_id m = r) (sv_mutations s) then ok () s
      else followed (put_snapshot r (graph_version g) (Graph_json g))
             (\<lambda>_. register_tasks e r actor (graph_version g) 0 tasks) s)"

definition restore_board :: "string \<Rightarrow> unit service" where
  "restore_board r s = ok () (s\<lparr>sv_board := fst (restore_run r (sv_board s))\<rparr>)"

section \<open>Replacing a registered plan\<close>

definition revised_id :: "int \<Rightarrow> string list \<Rightarrow> string \<Rightarrow> string" where
  "revised_id revision occupied i =
     (if i \<in> set occupied then ''plan_v'' @ str_int revision @ ''__'' @ i else i)"

text \<open>A node of the new plan with its runtime state reset.\<close>

definition revised_node :: "int \<Rightarrow> (string \<Rightarrow> string) \<Rightarrow> string \<Rightarrow> task_node \<Rightarrow> task_node" where
  "revised_node revision new old_id n =
     n\<lparr>node_id := new old_id, node_dependencies := map new (node_dependencies n),
       node_status := Node_PENDING, node_assigned_agent_id := None, node_input_artifact_ids := [],
       node_output_artifact_ids := [], node_attempts := 0, node_error := None, node_started_at := None,
       node_completed_at := None,
       node_metadata := merged (node_metadata n)
         [(''plan_revision'', PyInt revision), (''original_task_id'', PyStr old_id)]\<rparr>"

fun revise_nodes :: "service_env \<Rightarrow> string \<Rightarrow> string \<Rightarrow> int \<Rightarrow> (string \<Rightarrow> string) \<Rightarrow> nat \<Rightarrow> node_table \<Rightarrow> node_table
    \<Rightarrow> node_table service" where
  "revise_nodes e r actor revision new i [] acc = ok acc"
| "revise_nodes e r actor revision new i ((old_id, n) # ns) acc =
     (let n1 = revised_node revision new old_id n in
      followed (gated_node e (100 * i) r (creation_context r actor n1 @ [(''plan_revision'', PyInt revision)])
        ''TaskCreated hook blocked revised plan'' n1) (\<lambda>n2.
      revise_nodes e r actor revision new (Suc i) ns (AList.update (node_id n2) n2 acc)))"

definition superseded :: "time \<Rightarrow> int \<Rightarrow> board_task \<Rightarrow> board_task" where
  "superseded now revision t =
     t\<lparr>bt_metadata := AList.update ''superseded_by_plan_revision'' (PyInt revision) (bt_metadata t), bt_updated_at := now\<rparr>"

definition revision_id :: "string \<Rightarrow> int \<Rightarrow> string" where
  "revision_id r revision = ''plan-revision:'' @ r @ '':'' @ str_int revision"

definition replacement_body :: "service_env \<Rightarrow> string \<Rightarrow> string \<Rightarrow> int \<Rightarrow> task_graph \<Rightarrow> board_task list \<Rightarrow> board_task list
    \<Rightarrow> unit service" where
  "replacement_body e r actor previous g old new =
     (let ids = py_strs (node_ids g); mid = revision_id r (graph_version g) in
      followed (each_of update_row old) (\<lambda>_.
      followed (each_of insert_row new) (\<lambda>_.
      followed (put_snapshot r (graph_version g) (Graph_json g)) (\<lambda>_.
      followed (insert_mutation \<lparr>mw_mutation_id = mid, mw_run_id = r, mw_actor = actor,
         mw_type = mutation_value Mut_PLAN_REVISION,
         mw_payload = [(''previous_version'', PyInt previous), (''task_ids'', ids)],
         mw_result_version = graph_version g, mw_created_at = se_clock e 2\<rparr>) (\<lambda>_.
      append_event e 3 r ''TaskGraphReplanned'' (Some actor) None
        [(''mutation_id'', PyStr mid), (''previous_version'', PyInt previous),
         (''version'', PyInt (graph_version g)), (''task_ids'', ids)])))))"

text \<open>The commit of the revised graph: the old tasks are marked, the new ones inserted, the board follows.\<close>

definition commit_revision :: "service_env \<Rightarrow> string \<Rightarrow> string \<Rightarrow> int \<Rightarrow> board_task list \<Rightarrow> task_graph
    \<Rightarrow> graph_version_result service" where
  "commit_revision e r actor previous old revised =
     (let revision = graph_version revised;
          old' = map (superseded (se_clock e 4) revision) old;
          tasks = plan_tasks e r [(''graph_version'', PyInt revision), (''plan_revision'', PyInt revision)] 1
                    (map snd (graph_nodes revised)) in
      followed (\<lambda>s. in_transaction (replacement_body e r actor previous revised old' tasks) (se_others e s)) (\<lambda>_.
      followed (board_adds e 0 (old' @ tasks)) (\<lambda>_.
      ok \<lparr>tv_run_id = r, tv_version = revision, tv_mutation_id = revision_id r revision,
          tv_graph = Graph_json revised\<rparr>)))"

definition revised_graph :: "service_env \<Rightarrow> int \<Rightarrow> (string \<Rightarrow> string) \<Rightarrow> task_graph \<Rightarrow> node_table \<Rightarrow> task_graph service" where
  "revised_graph e revision new incoming nodes =
     (if graph_root incoming \<notin> set (node_ids incoming)
      then failing (Graph_fault (NodeKeyError (graph_root incoming)))
      else followed (lift (new_task_graph \<lparr>graph_root = new (graph_root incoming), graph_nodes = nodes,
             graph_version = revision, graph_created_at = se_clock e 0, graph_updated_at = se_clock e 1\<rparr>)) (\<lambda>g.
           followed (lift (validate g)) (\<lambda>_. ok g)))"

definition replace_current :: "service_env \<Rightarrow> string \<Rightarrow> task_graph \<Rightarrow> string \<Rightarrow> board_task list \<Rightarrow> task_graph
    \<Rightarrow> graph_version_result service" where
  "replace_current e r incoming actor old current =
     (let revision = max (graph_version current + 1) (graph_version incoming);
          new = revised_id revision (map bt_task_id old) in
      followed (revise_nodes e r actor revision new 1 (graph_nodes incoming) []) (\<lambda>nodes.
      followed (revised_graph e revision new incoming nodes) (\<lambda>revised.
      commit_revision e r actor (graph_version current) old revised)))"

definition replace_plan :: "service_env \<Rightarrow> string \<Rightarrow> task_graph \<Rightarrow> string \<Rightarrow> graph_version_result service" where
  "replace_plan e r incoming actor =
     followed (lift (validate incoming)) (\<lambda>_.
     (\<lambda>s. followed (load_graph r) (replace_current e r incoming actor (list_by_run r (sv_board s))) s))"

definition registered :: "string \<Rightarrow> graph_service \<Rightarrow> bool" where
  "registered r s \<longleftrightarrow> list_ex (\<lambda>m. mw_run_id m = r \<and> mw_type m = ''initial_task'') (sv_mutations s)"

definition initial_version :: "string \<Rightarrow> task_graph \<Rightarrow> graph_version_result" where
  "initial_version r g = \<lparr>tv_run_id = r, tv_version = graph_version g, tv_mutation_id = initial_id r, tv_graph = Graph_json g\<rparr>"

text \<open>The repeated registration: the same plan restores the board, another one replaces the current.\<close>

definition register_again :: "service_env \<Rightarrow> string \<Rightarrow> task_graph \<Rightarrow> string \<Rightarrow> graph_version_result service" where
  "register_again e r g actor =
     followed (load_graph r) (\<lambda>current.
       if plan_signature current = plan_signature g
       then followed (restore_board r) (\<lambda>_. ok (initial_version r current))
       else replace_plan e r g actor)"

definition register_first :: "service_env \<Rightarrow> string \<Rightarrow> task_graph \<Rightarrow> string \<Rightarrow> graph_version_result service" where
  "register_first e r g actor =
     followed (gate_nodes e r actor 0 (graph_nodes g)) (\<lambda>nodes.
       let g' = g\<lparr>graph_nodes := nodes\<rparr>;
           tasks = plan_tasks e r [(''graph_version'', PyInt (graph_version g'))] 0 (map snd nodes) in
       followed (\<lambda>s. in_transaction (registration_body e r actor g' tasks) (se_others e s)) (\<lambda>_.
       followed (restore_board r) (\<lambda>_. ok (initial_version r g'))))"

definition register_initial_graph :: "service_env \<Rightarrow> string \<Rightarrow> task_graph \<Rightarrow> string \<Rightarrow> graph_version_result service" where
  "register_initial_graph e r g actor =
     followed (lift (validate g)) (\<lambda>_. (\<lambda>s.
       if registered r s then register_again e r g actor s else register_first e r g actor s))"

end
