(* ===== verification/Task_Service_Props.thy ===== *)
theory Task_Service_Props
  imports Plan_Registration Run_Store_Props Task_Board_Inv
begin

text \<open>
  What a mutation of \<open>transactional_task_service.py\<close> does: the four structural changes keep a graph valid, lose no
  node and write only events (the interface \<open>graph_change\<close>); the transaction commits everything or nothing;
  a mutation id is applied once; no interleaved commit is lost.
\<close>

section \<open>Stepping through a service call\<close>

lemma ok_simp [simp]: "ok x s = (s, Inr x)"
  by (simp add: ok_def)

lemma failing_simp [simp]: "failing e s = (s, Inl e)"
  by (simp add: failing_def)

lemma load_graph_simp [simp]: "load_graph r s = (s, graph_of_run r s)"
  by (simp add: load_graph_def)

lemma followed_Inr:
  "followed m k s = (s', Inr y) \<longleftrightarrow> (\<exists>s1 x. m s = (s1, Inr x) \<and> k x s1 = (s', Inr y))"
  by (auto simp: followed_def split: prod.splits sum.splits)

lemma followed_step [simp]:
  "m s = (s1, Inr x) \<Longrightarrow> followed m k s = k x s1"
  "m s = (s1, Inl e) \<Longrightarrow> followed m k s = (s1, Inl e)"
  by (simp_all add: followed_def)

lemma followed_cases:
  assumes "followed m k s = (s', r)"
  obtains (stopped) e where "m s = (s', Inl e)" "r = Inl e"
  | (went_on) s1 x where "m s = (s1, Inr x)" "k x s1 = (s', r)"
  using assms by (auto simp: followed_def split: prod.splits sum.splits)

lemma lift_Inr [simp]: "lift x s = (s', Inr y) \<longleftrightarrow> s' = s \<and> x = Inr y"
  by (cases x) (auto simp: lift_def)

lemma check_version_Inr [simp]:
  "check_version expected v s = (s', Inr y) \<longleftrightarrow> s' = s \<and> (\<forall>x. expected = Some x \<longrightarrow> v = x)"
  by (auto simp: check_version_def split: option.splits)

section \<open>Steps that only write events\<close>

definition logs_only :: "graph_service \<Rightarrow> graph_service \<Rightarrow> bool" where
  "logs_only s s' \<longleftrightarrow> sv_snapshots s' = sv_snapshots s \<and> sv_mutations s' = sv_mutations s \<and> sv_board s' = sv_board s
     \<and> (\<exists>xs. log_envelopes (sv_log s') = log_envelopes (sv_log s) @ xs)"

named_theorems logging_intros \<open>steps that leave every table but the event log\<close>

definition logging :: "'a service \<Rightarrow> bool" where
  "logging m \<longleftrightarrow> (\<forall>s. logs_only s (fst (m s)))"

lemma logs_only_refl [simp]: "logs_only s s"
  by (simp add: logs_only_def)

lemma logs_only_trans: "logs_only s s1 \<Longrightarrow> logs_only s1 s2 \<Longrightarrow> logs_only s s2"
  by (auto simp: logs_only_def)

lemma logging_ok [logging_intros, simp]: "logging (ok x)" "logging (failing e)" "logging (lift y)" "logging (check_version v n)"
  by (auto simp: logging_def lift_def check_version_def split: sum.splits option.splits)

lemma logging_followed [logging_intros]: "logging m \<Longrightarrow> (\<And>x. logging (k x)) \<Longrightarrow> logging (followed m k)"
  unfolding logging_def followed_def by (auto split: prod.splits sum.splits) (metis fst_conv logs_only_trans)+

lemma logging_append_event [logging_intros]: "logging (append_event e k r kind agent tid payload)"
  unfolding logging_def append_event_def
  by (auto simp: logs_only_def elim!: append_cases split: prod.splits sum.splits)

lemma logging_append_audits [logging_intros]: "logging (append_audits e k r as)"
  by (induction as arbitrary: k) (auto intro!: logging_intros)

lemma logging_gated_node [logging_intros]: "logging (gated_node e k r context blocked n)"
  unfolding gated_node_def emit_created_def
  by (auto intro!: logging_intros split: prod.splits)

lemma logging_D: "logging m \<Longrightarrow> m s = (s', r) \<Longrightarrow> logs_only s s'"
  unfolding logging_def by (metis fst_conv)

section \<open>The interface of a structural change\<close>

locale graph_change =
  fixes change :: "task_graph \<Rightarrow> mutation_effect service"
  assumes writes_events: "logging (change g)"
    and keeps_valid: "valid_graph g \<Longrightarrow> change g s = (s', Inr x) \<Longrightarrow> valid_graph (me_graph x)"
    and keeps_nodes: "change g s = (s', Inr x) \<Longrightarrow>
      set (node_ids g) \<subseteq> set (node_ids (me_graph x)) \<and> graph_version g \<le> graph_version (me_graph x)
      \<and> graph_root (me_graph x) = graph_root g"
begin

lemma frame: "change g s = (s', r) \<Longrightarrow> logs_only s s'"
  using writes_events by (rule logging_D)

end

lemma gated_node_Inr:
  "gated_node e k r context blocked n s = (s', Inr n') \<Longrightarrow> \<exists>d. n' = n\<lparr>node_metadata := d\<rparr>"
  by (auto simp: gated_node_def followed_Inr split: if_splits)

lemma add_node_Inr: "add_node t n g = Inr g' \<longleftrightarrow> node_id n \<notin> set (node_ids g) \<and> g' = touch t (put_node (node_id n) n g)"
  by (auto simp: add_node_def)

lemma touch_root [simp]: "graph_root (touch t g) = graph_root g" "graph_root (put_node k n g) = graph_root g"
  by (simp_all add: touch_def put_node_def)

lemma create_effect_Inr:
  assumes "create_effect e m g s = (s', Inr x)"
  obtains n d where "Option.bind (map_of (mut_payload m) ''task'') (se_node e) = Some n"
    "node_id n \<notin> set (node_ids g)" "logs_only s s'"
    "me_graph x = touch (se_clock e 0) (put_node (node_id n) (n\<lparr>node_metadata := d\<rparr>) g)"
    "validate (me_graph x) = Inr ()" "me_ill_typed x = False" "me_updates x = []"
    "me_task x = Some (task_of_node (se_clock e 1) (se_clock e 2) (mut_run_id m)
       [(''graph_version'', PyInt (graph_version g + 1))] (n\<lparr>node_metadata := d\<rparr>))"
proof -
  from assms obtain n where n: "Option.bind (map_of (mut_payload m) ''task'') (se_node e) = Some n"
    by (auto simp: create_effect_def split: option.splits)
  with assms obtain s1 n' g' where r: "gated_node e 0 (mut_run_id m) (creation_context (mut_run_id m) (mut_actor m) n)
      ''TaskCreated hook blocked mutation'' n s = (s1, Inr n')"
    "add_node (se_clock e 0) n' g = Inr g'" "validate g' = Inr ()" "s' = s1"
    "x = effect g' (Some (task_of_node (se_clock e 1) (se_clock e 2) (mut_run_id m)
            [(''graph_version'', PyInt (graph_version g'))] n')) []"
    by (auto simp: create_effect_def followed_Inr)
  from gated_node_Inr [OF r(1)] obtain d where d: "n' = n\<lparr>node_metadata := d\<rparr>" by blast
  from r(1) have "logs_only s s'" unfolding r(4) by (rule logging_D [OF logging_gated_node])
  with n r d show thesis by (intro that [of n d]) (auto simp: add_node_Inr effect_def)
qed

lemma validate_valid: "wf_graph g \<Longrightarrow> validate g = Inr u \<Longrightarrow> valid_graph g"
  using validate_iff [of g] by (cases u) simp

interpretation creating: graph_change "create_effect e m" for e m
proof
  fix g s s' x
  show "logging (create_effect e m g)"
    unfolding create_effect_def by (auto intro!: logging_intros split: option.splits)
  { assume v: "valid_graph g" and c: "create_effect e m g s = (s', Inr x)"
    from c have "validate (me_graph x) = Inr ()" by (rule create_effect_Inr)
    moreover from c v have "wf_graph (me_graph x)"
      by (auto elim!: create_effect_Inr intro!: wf_graph_put simp: valid_graph_def)
    ultimately show "valid_graph (me_graph x)" by (intro validate_valid) }
  assume "create_effect e m g s = (s', Inr x)"
  then show "set (node_ids g) \<subseteq> set (node_ids (me_graph x)) \<and> graph_version g \<le> graph_version (me_graph x)
      \<and> graph_root (me_graph x) = graph_root g"
    by (auto elim!: create_effect_Inr simp: set_keys_update simp del: set_map)
qed


lemma put_deps_wf:
  "wf_graph g \<Longrightarrow> get_node g k = Some n \<Longrightarrow> wf_graph (put_node k (n\<lparr>node_dependencies := ds\<rparr>) g)"
  by (intro wf_graph_put) (simp_all add: wf_graph_id)

lemma put_present_set: "get_node g k = Some n \<Longrightarrow> set (node_ids (put_node k n' g)) = set (node_ids g)"
  by (simp only: put_present_ids)

lemma add_edge_facts:
  assumes "get_node g tid = Some n"
  shows "wf_graph g \<Longrightarrow> wf_graph (add_edge t tid dep n g)" "set (node_ids (add_edge t tid dep n g)) = set (node_ids g)"
    "graph_version g \<le> graph_version (add_edge t tid dep n g)" "graph_root (add_edge t tid dep n g) = graph_root g"
  using put_present_set [OF assms] assms by (auto simp: add_edge_def put_deps_wf simp del: set_map)

lemma dependency_effect_Inr:
  assumes "dependency_effect e m g s = (s', Inr x)"
  obtains tid dep n where "map_of (mut_payload m) ''task_id'' = Some (PyStr tid)"
    "map_of (mut_payload m) ''dependency_id'' = Some (PyStr dep)" "get_node g tid = Some n" "dep \<in> set (node_ids g)"
    "x = effect (add_edge (se_clock e 0) tid dep n g) None []"
    "validate (add_edge (se_clock e 0) tid dep n g) = Inr ()" "s' = s"
  using assms
  by (auto simp: dependency_effect_def followed_Inr payload_text_def Let_def simp del: set_map
      split: option.splits pyval.splits if_splits)

interpretation linking: graph_change "dependency_effect e m" for e m
proof
  fix g s s' x
  show "logging (dependency_effect e m g)"
    unfolding dependency_effect_def payload_text_def Let_def
    by (auto intro!: logging_intros split: option.splits pyval.splits)
  { assume v: "valid_graph g" and c: "dependency_effect e m g s = (s', Inr x)"
    from c have "validate (me_graph x) = Inr ()" by (rule dependency_effect_Inr) (simp add: effect_def)
    moreover from c v have "wf_graph (me_graph x)"
      by (elim dependency_effect_Inr) (simp add: effect_def add_edge_facts valid_graph_def)
    ultimately show "valid_graph (me_graph x)" by (intro validate_valid) }
  assume "dependency_effect e m g s = (s', Inr x)"
  then show "set (node_ids g) \<subseteq> set (node_ids (me_graph x)) \<and> graph_version g \<le> graph_version (me_graph x)
      \<and> graph_root (me_graph x) = graph_root g"
    by (elim dependency_effect_Inr) (simp add: effect_def add_edge_facts del: set_map)
qed

lemma change_fields_frame:
  "change_fields e changes (n, ill) = Inr (n', ill') \<Longrightarrow>
     node_id n' = node_id n \<and> node_dependencies n' = node_dependencies n \<and> node_status n' = node_status n"
proof (induction changes arbitrary: n ill)
  case (Cons c cs)
  obtain key v where c: "c = (key, v)" by force
  with Cons.prems obtain n1 i1 where "change_field e key v (n, ill) = Inr (n1, i1)"
      and rest: "change_fields e cs (n1, i1) = Inr (n', ill')"
    by (auto split: sum.splits)
  then have "node_id n1 = node_id n \<and> node_dependencies n1 = node_dependencies n \<and> node_status n1 = node_status n"
    by (auto split: if_splits option.splits pyval.splits)
  with Cons.IH [OF rest] show ?case by simp
qed simp

lemma update_effect_Inr:
  assumes "update_effect e m g s = (s', Inr x)"
  obtains tid n changes n' ill where "map_of (mut_payload m) ''task_id'' = Some (PyStr tid)" "get_node g tid = Some n"
    "requested_changes (mut_payload m) = Some changes" "change_fields e changes (n, False) = Inr (n', ill)" "s' = s"
    "me_graph x = touch (se_clock e 0) (put_node tid n' g)" "me_ill_typed x = ill" "me_task x = None" "me_updates x = []"
proof -
  from assms obtain tid where tid: "map_of (mut_payload m) ''task_id'' = Some (PyStr tid)"
    by (auto simp: update_effect_def followed_Inr payload_text_def split: option.splits pyval.splits)
  then obtain n where n: "get_node g tid = Some n"
    using assms by (cases "get_node g tid") (auto simp: update_effect_def followed_Inr payload_text_def)
  with tid obtain cs where cs: "requested_changes (mut_payload m) = Some cs"
    using assms by (cases "requested_changes (mut_payload m)") (auto simp: update_effect_def followed_Inr payload_text_def)
  with tid n obtain n' ill where c: "change_fields e cs (n, False) = Inr (n', ill)"
    using assms by (cases "change_fields e cs (n, False)") (auto simp: update_effect_def followed_Inr payload_text_def)
  with tid n cs assms show thesis
    by (intro that [of tid n cs n' ill]) (auto simp: update_effect_def followed_Inr payload_text_def)
qed

interpretation updating: graph_change "update_effect e m" for e m
proof
  fix g s s' x
  show "logging (update_effect e m g)"
    unfolding update_effect_def payload_text_def
    by (auto intro!: logging_intros split: option.splits pyval.splits sum.splits)
  { assume "valid_graph g" "update_effect e m g s = (s', Inr x)"
    then show "valid_graph (me_graph x)"
      by (elim update_effect_Inr) (auto dest!: change_fields_frame intro!: valid_graph_put) }
  assume "update_effect e m g s = (s', Inr x)"
  then show "set (node_ids g) \<subseteq> set (node_ids (me_graph x)) \<and> graph_version g \<le> graph_version (me_graph x)
      \<and> graph_root (me_graph x) = graph_root g"
    by (elim update_effect_Inr) (simp add: put_present_set del: set_map put_node_nodes)
qed

lemma update_status_frame [simp]:
  "set (node_ids (fst (update_status t1 t2 k st g))) = set (node_ids g)"
  "graph_root (fst (update_status t1 t2 k st g)) = graph_root g"
  "graph_version g \<le> graph_version (fst (update_status t1 t2 k st g))"
  by (auto simp: update_status_def put_present_set simp del: set_map put_node_nodes split: option.splits)

text \<open>The repair is the node of the graph under its id, and nothing is lost.\<close>

lemma repair_in_graph:
  assumes "add_repair_task clk t obj caps g = Inr (g', n)"
  shows "get_node g' (node_id n) = Some n" "set (node_ids g') = insert (node_id n) (set (node_ids g))"
    "node_id n \<notin> set (node_ids g)" "graph_version g < graph_version g'" "graph_root g' = graph_root g"
proof -
  from assms obtain target rid g1 where T: "get_node g t = Some target" "rid \<notin> set (node_ids g)"
    "add_node (clk 0) (repair_node rid t obj caps target) g = Inr g1"
    "n = rewire t rid (repair_node rid t obj caps target)" "g' = repaired_graph clk t rid target g1"
    by (blast elim: add_repair_task_shape)
  have g1: "g1 = touch (clk 0) (put_node rid (repair_node rid t obj caps target) g)"
    using T(3) by (auto simp: add_node_Inr)
  have rid: "node_id n = rid" by (simp add: T(4))
  from T(1,2) have "rid \<noteq> t" by (auto dest: map_of_in_keys)
  then show "get_node g' (node_id n) = Some n"
    using get_node_repaired [of rid t clk rid target g1] by (simp add: T(5) rid g1) (simp add: T(4))
  show "node_id n \<notin> set (node_ids g)" using T(2) rid by simp
  have g1_ids: "set (node_ids g1) = insert rid (set (node_ids g))"
    by (simp only: g1 touch_nodes put_node_nodes set_keys_update)
  have root: "graph_root (rewire_all t r g0) = graph_root g0" "graph_version (rewire_all t r g0) = graph_version g0" for r g0
    by (simp_all add: rewire_all_def)
  have ids: "set (node_ids (rewire_all t r g0)) = set (node_ids g0)" for r g0
    by (simp only: rewire_all_nodes keys_map_vals)
  show "set (node_ids g') = insert (node_id n) (set (node_ids g))" "graph_root g' = graph_root g"
    by (simp_all add: T(5) repaired_graph_def rid g1_ids ids root del: set_map) (simp_all add: g1)
  have "graph_version g1 \<le> graph_version g'"
    unfolding T(5) repaired_graph_def
    by (rule order_trans [OF _ update_status_frame(3)]) (simp add: root order_trans [OF _ update_status_frame(3)])
  then show "graph_version g < graph_version g'" by (simp add: g1)
qed

lemma repair_effect_Inr:
  assumes "repair_effect e m g s = (s', Inr x)"
  obtains target n obj caps sources g1 repair where "map_of (mut_payload m) ''target_task_id'' = Some (PyStr target)"
    "get_node g target = Some n"
    "add_repair_task (se_clock e) target obj (Some caps) (stopped_target e target n g) = Inr (g1, repair)"
    "x = repaired_effect e m target sources g1 repair (sv_board s)" "s' = s"
proof -
  let ?d = "mut_payload m"
  from assms obtain target where t: "map_of ?d ''target_task_id'' = Some (PyStr target)"
    by (auto simp: repair_effect_def Let_def followed_Inr payload_text_def split: option.splits pyval.splits)
  then obtain n where n: "get_node g target = Some n"
    using assms by (cases "get_node g target") (auto simp: repair_effect_def Let_def followed_Inr payload_text_def)
  note unf = repair_effect_def Let_def followed_Inr payload_text_def t n
  let ?o = "payload_or ''objective'' (PyStr (''repair '' @ node_objective n)) ?d"
  let ?c = "payload_or ''required_capabilities'' (py_strs (node_required_capabilities n)) ?d"
  let ?l = "py_list (case map_of ?d ''source_artifact_ids'' of None \<Rightarrow> PyList [] | Some v \<Rightarrow> v)"
  obtain obj where obj: "?o = PyStr obj" using assms by (cases ?o) (simp_all add: unf)
  obtain cvs where cvs: "?c = PyList cvs" using assms obj by (cases ?c) (simp_all add: unf)
  obtain sources where src: "?l = Some sources" using assms obj cvs by (cases ?l) (simp_all add: unf)
  obtain caps where caps: "py_texts cvs = Some caps"
    using assms obj cvs src by (cases "py_texts cvs") (simp_all add: unf)
  from assms obj cvs src caps obtain g1 repair
    where "add_repair_task (se_clock e) target obj (Some caps) (stopped_target e target n g) = Inr (g1, repair)"
      "x = repaired_effect e m target sources g1 repair (sv_board s)" "s' = s"
    by (auto simp: unf)
  with t n show thesis by (intro that) blast+
qed

lemma repaired_effect_fields [simp]:
  "me_graph (repaired_effect e m t sources g1 repair b)
     = put_node (node_id repair) (repair\<lparr>node_metadata := repair_metadata m t sources repair\<rparr>) g1"
  "me_ill_typed (repaired_effect e m t sources g1 repair b) = False"
  by (simp_all add: repaired_effect_def Let_def effect_def)

lemma stopped_target_frame:
  "valid_graph g \<Longrightarrow> valid_graph (stopped_target e t n g)" "set (node_ids (stopped_target e t n g)) = set (node_ids g)"
  "graph_root (stopped_target e t n g) = graph_root g" "graph_version g \<le> graph_version (stopped_target e t n g)"
  by (simp_all add: stopped_target_def update_status_valid del: set_map)

interpretation repairing: graph_change "repair_effect e m" for e m
proof
  fix g s s' x
  show "logging (repair_effect e m g)"
    unfolding logging_def repair_effect_def payload_text_def Let_def followed_def
    by (auto simp: lift_def split: option.splits pyval.splits sum.splits prod.splits)
  { assume v: "valid_graph g" and c: "repair_effect e m g s = (s', Inr x)"
    from c show "valid_graph (me_graph x)"
    proof (cases rule: repair_effect_Inr)
      case (1 target n obj caps sources g1 repair)
      from 1(3) have g1: "valid_graph g1" using v stopped_target_frame(1) by (blast intro: add_repair_task_valid)
      note here = repair_in_graph(1) [OF 1(3)]
      have "wf_graph (me_graph x)" unfolding 1(4) using g1 by (auto simp: valid_graph_def simp del: put_node_nodes intro!: wf_graph_put)
      then show ?thesis
        unfolding 1(4) repaired_effect_fields by (rule valid_graph_cong [OF _ put_present_ids [OF here] put_present_deps [OF here] g1]) simp
    qed }
  assume "repair_effect e m g s = (s', Inr x)"
  then show "set (node_ids g) \<subseteq> set (node_ids (me_graph x)) \<and> graph_version g \<le> graph_version (me_graph x)
      \<and> graph_root (me_graph x) = graph_root g"
  proof (cases rule: repair_effect_Inr)
    case (1 target n obj caps sources g1 repair)
    have "graph_version g \<le> graph_version g1"
      using repair_in_graph(4) [OF 1(3)] stopped_target_frame(4) [of g e target n] by linarith
    then show ?thesis
      unfolding 1(4) repaired_effect_fields put_present_set [OF repair_in_graph(1) [OF 1(3)]]
      by (simp add: repair_in_graph [OF 1(3)] stopped_target_frame del: set_map put_node_nodes) blast
  qed
qed

interpretation mutating: graph_change "apply_mutation e m" for e m
proof
  fix g s s' x
  show "logging (apply_mutation e m g)"
    by (cases "mut_type m") (simp_all add: apply_mutation_def creating.writes_events linking.writes_events
        updating.writes_events repairing.writes_events)
  { assume "valid_graph g" "apply_mutation e m g s = (s', Inr x)"
    then show "valid_graph (me_graph x)"
      by (cases "mut_type m") (auto simp: apply_mutation_def dest: creating.keeps_valid linking.keeps_valid
          updating.keeps_valid repairing.keeps_valid) }
  assume "apply_mutation e m g s = (s', Inr x)"
  then show "set (node_ids g) \<subseteq> set (node_ids (me_graph x)) \<and> graph_version g \<le> graph_version (me_graph x)
      \<and> graph_root (me_graph x) = graph_root g"
    by (cases "mut_type m") (simp_all add: apply_mutation_def creating.keeps_nodes linking.keeps_nodes
        updating.keeps_nodes repairing.keeps_nodes del: set_map)
qed

section \<open>Steps that only touch the board\<close>

definition row_keys :: "graph_service \<Rightarrow> task_key set" where
  "row_keys s = set (map fst (board_rows (sv_board s)))"

definition board_only :: "graph_service \<Rightarrow> graph_service \<Rightarrow> bool" where
  "board_only s s' \<longleftrightarrow> sv_snapshots s' = sv_snapshots s \<and> sv_mutations s' = sv_mutations s \<and> sv_log s' = sv_log s
     \<and> row_keys s \<subseteq> row_keys s'"

named_theorems boarding_intros \<open>steps that leave every table but the board and delete no row\<close>

definition boarding :: "'a service \<Rightarrow> bool" where
  "boarding f \<longleftrightarrow> (\<forall>s. board_only s (fst (f s)))"

lemma board_only_refl [simp]: "board_only s s"
  by (simp add: board_only_def)

lemma board_only_trans: "board_only s s1 \<Longrightarrow> board_only s1 s2 \<Longrightarrow> board_only s s2"
  by (auto simp: board_only_def)

lemma boarding_ok [boarding_intros, simp]: "boarding (ok x)" "boarding (\<lambda>s. (s, Inr x))"
  by (simp_all add: boarding_def)

lemma boarding_followed [boarding_intros]: "boarding f \<Longrightarrow> (\<And>x. boarding (k x)) \<Longrightarrow> boarding (followed f k)"
  unfolding boarding_def followed_def by (auto split: prod.splits sum.splits) (metis fst_conv board_only_trans)+

lemma boarding_each [boarding_intros]: "(\<And>x. boarding (f x)) \<Longrightarrow> boarding (each_of f xs)"
  by (induction xs) (auto intro!: boarding_intros)

lemma has_row_keys: "has_row t s \<longleftrightarrow> task_key_of t \<in> row_keys s"
  by (simp add: has_row_def row_keys_def)

lemma row_keys_on_rows: "row_keys (on_rows f s) = set (map fst (f (board_rows (sv_board s))))"
  by (simp add: row_keys_def on_rows_def)

lemma on_rows_fields [simp]: "sv_snapshots (on_rows f s) = sv_snapshots s" "sv_mutations (on_rows f s) = sv_mutations s"
  "sv_log (on_rows f s) = sv_log s"
  by (simp_all add: on_rows_def)

lemma boarding_rows [boarding_intros]: "boarding (insert_or_ignore_row t)" "boarding (insert_row t)" "boarding (update_row t)"
  unfolding boarding_def board_only_def insert_or_ignore_row_def insert_row_def update_row_def
  by (auto simp: row_keys_on_rows set_keys_update simp del: set_map) (auto simp: row_keys_def)

lemma boarding_add [boarding_intros]: "boarding (board_add e k t)"
  unfolding boarding_def board_only_def board_add_def add_def persist_def
  by (auto simp: Let_def row_keys_def upsert_task_board_task_def put_task_def set_keys_update simp del: set_map)

lemma boarding_adds [boarding_intros]: "boarding (board_adds e k ts)"
  by (induction ts arbitrary: k) (auto intro!: boarding_intros)

lemma boarding_project: "boarding (project e m x)"
proof -
  have first: "boarding (case Task_Board.get i r b of None \<Rightarrow> board_add e k t | Some u \<Rightarrow> ok ())" for i r b k t
    by (auto split: option.splits intro!: boarding_intros)
  have "boarding (followed (case Task_Board.get i r b of None \<Rightarrow> board_add e k t | Some u \<Rightarrow> ok ())
      (\<lambda>_. board_adds e 1 us))" for i r b k t us
    by (intro boarding_followed first boarding_adds)
  then show ?thesis
    using boarding_add unfolding boarding_def project_def by (simp split: option.splits)
qed

lemma boarding_D: "boarding f \<Longrightarrow> f s = (s', r) \<Longrightarrow> board_only s s'"
  unfolding boarding_def by (metis fst_conv)

lemma inserted_row: "insert_or_ignore_row t s = (s', r) \<Longrightarrow> has_row t s'"
  by (auto simp: insert_or_ignore_row_def has_row_keys row_keys_on_rows)

section \<open>All or nothing\<close>

text \<open>What a committed mutation leaves in the tables.\<close>

definition committed :: "graph_mutation \<Rightarrow> mutation_effect \<Rightarrow> graph_service \<Rightarrow> graph_service \<Rightarrow> bool" where
  "committed m x s s' \<longleftrightarrow>
     sv_snapshots s' = AList.update (mut_run_id m)
       \<lparr>sn_version = graph_version (me_graph x), sn_graph = effect_json x\<rparr> (sv_snapshots s) \<and>
     sv_mutations s' = sv_mutations s @ [mutation_record m (graph_version (me_graph x))] \<and>
     (\<exists>audits ev. log_envelopes (sv_log s') = log_envelopes (sv_log s) @ audits @ [ev] \<and>
        ev_event_type ev = ''TaskGraphMutation'' \<and> ev_run_id ev = mut_run_id m) \<and>
     (case me_task x of None \<Rightarrow> True | Some t \<Rightarrow> has_row t s')"

lemma append_event_Inr:
  assumes "append_event e k r kind agent tid payload s = (s', Inr u)"
  shows "\<exists>ev. log_envelopes (sv_log s') = log_envelopes (sv_log s) @ [ev] \<and> ev_event_type ev = kind \<and> ev_run_id ev = r"
    "sv_snapshots s' = sv_snapshots s" "sv_mutations s' = sv_mutations s" "sv_board s' = sv_board s"
  using assms
  by (auto simp: append_event_def append_event_envelope_def Let_def split: prod.splits sum.splits if_splits)

lemma mutation_body_Inr:
  assumes "mutation_body e m s = (s', Inr x)"
  obtains row g s1 where "map_of (sv_snapshots s) (mut_run_id m) = Some row" "parse_graph (sn_graph row) = Inr g"
    "\<forall>v. mut_expected_version m = Some v \<longrightarrow> sn_version row = v" "apply_mutation e m g s = (s1, Inr x)"
    "find_mutation (mut_id m) s = None" "committed m x s s'"
    "has_row t s \<Longrightarrow> has_row t s'"
proof -
  from assms obtain row where row: "map_of (sv_snapshots s) (mut_run_id m) = Some row"
    by (auto simp: mutation_body_def split: option.splits)
  with assms obtain g where g: "parse_graph (sn_graph row) = Inr g"
    by (cases "parse_graph (sn_graph row)") (auto simp: mutation_body_def followed_Inr)
  let ?v = "graph_version (me_graph x)" and ?r = "mut_run_id m"
  obtain s1 s2 s3 s4 s5 tid pl where
    v: "\<forall>v. mut_expected_version m = Some v \<longrightarrow> sn_version row = v" and a: "apply_mutation e m g s = (s1, Inr x)"
    and p: "put_snapshot ?r ?v (effect_json x) s1 = (s2, Inr ())"
    and t: "(case me_task x of None \<Rightarrow> ok () | Some t \<Rightarrow> insert_or_ignore_row t) s2 = (s3, Inr ())"
    and u: "each_of update_row (me_updates x) s3 = (s4, Inr ())"
    and i: "insert_mutation (mutation_record m ?v) s4 = (s5, Inr ())"
    and ev: "append_event e 100 ?r ''TaskGraphMutation'' (Some (mut_actor m)) tid pl s5 = (s', Inr ())"
    using assms by (auto simp: mutation_body_def row g followed_Inr simp del: ok_simp) auto
  have s1: "logs_only s s1" using a by (rule mutating.frame)
  have s2: "s2 = s1\<lparr>sv_snapshots := AList.update ?r \<lparr>sn_version = ?v, sn_graph = effect_json x\<rparr> (sv_snapshots s1)\<rparr>"
    using p by (simp add: put_snapshot_def)
  have s3: "board_only s2 s3" using t by (rule boarding_D [rotated]) (auto split: option.splits intro!: boarding_intros)
  have s4: "board_only s3 s4" using u by (rule boarding_D [rotated]) (auto intro!: boarding_intros)
  have s5: "find_mutation (mut_id m) s4 = None" "s5 = s4\<lparr>sv_mutations := sv_mutations s4 @ [mutation_record m ?v]\<rparr>"
    using i by (auto simp: insert_mutation_def mutation_record_def split: option.splits)
  note ev = append_event_Inr [OF ev]
  have rows: "has_row t s4 \<Longrightarrow> has_row t s'" for t by (simp add: has_row_def ev s5(2))
  have "has_row t s3" if "me_task x = Some t" for t using t that by (auto dest: inserted_row)
  then have task: "case me_task x of None \<Rightarrow> True | Some t \<Rightarrow> has_row t s'"
    using s4 rows by (auto simp: has_row_keys board_only_def split: option.splits)
  have old: "has_row t s'" if "has_row t s" for t
  proof (rule rows)
    have "has_row t s2" using that s1 by (simp add: s2 has_row_def logs_only_def)
    then show "has_row t s4" using s3 s4 by (auto simp: has_row_keys board_only_def)
  qed
  have "committed m x s s'"
    using s1 s3 s4 ev(1) task
    by (auto simp: committed_def s5(2) ev(2,3) s2 board_only_def logs_only_def)
  moreover have "find_mutation (mut_id m) s = None"
    using s5(1) s1 s3 s4 by (simp add: find_mutation_def s2 board_only_def logs_only_def)
  ultimately show thesis using that row g v a old by blast
qed

lemma apply_request_cases:
  assumes "apply_request e m s = (s', res)"
  obtains (repeated) row g where "find_mutation (mut_id m) s = Some row" "s' = s" "graph_of_run (mut_run_id m) s = Inr g"
      "res = Inr \<lparr>tv_run_id = mut_run_id m, tv_version = mw_result_version row, tv_mutation_id = mut_id m, tv_graph = Graph_json g\<rparr>"
  | (unreadable) row err where "find_mutation (mut_id m) s = Some row" "s' = s" "res = Inl err"
      "graph_of_run (mut_run_id m) s = Inl err"
  | (refused) err where "find_mutation (mut_id m) s = None" "res = Inl err" "s' = s \<or> s' = se_others e s"
  | (finished) x s1 where "find_mutation (mut_id m) s = None" "mutation_body e m (se_others e s) = (s1, Inr x)"
      "project e m x s1 = (s', Inr ())"
      "res = Inr \<lparr>tv_run_id = mut_run_id m, tv_version = graph_version (me_graph x), tv_mutation_id = mut_id m, tv_graph = effect_json x\<rparr>"
  | (behind) x s1 err where "find_mutation (mut_id m) s = None" "mutation_body e m (se_others e s) = (s1, Inr x)"
      "project e m x s1 = (s', Inl err)" "res = Inl err"
proof (cases "find_mutation (mut_id m) s")
  case (Some row)
  with assms show thesis
    by (cases "graph_of_run (mut_run_id m) s") (auto simp: apply_request_def Let_def followed_def intro: repeated unreadable)
next
  case None
  show thesis
  proof (cases "graph_of_run (mut_run_id m) s")
    case (Inl err)
    with None assms show thesis by (intro refused) (auto simp: apply_request_def Let_def followed_def)
  next
    case (Inr g)
    show thesis
    proof (cases "check_version (mut_expected_version m) (graph_version g) s")
      case (Pair s0 r0)
      have s0: "s0 = s" using logging_ok(4) [of "mut_expected_version m" "graph_version g"] Pair
        by (auto simp: check_version_def split: option.splits if_splits)
      note unf = apply_request_def Let_def None Inr followed_def in_transaction_def Pair
      show thesis
      proof (cases r0)
        case (Inl err)
        with assms s0 show thesis by (intro refused [OF None]) (auto simp: unf)
      next
        case (Inr u)
        obtain s1 r1 where body: "mutation_body e m (se_others e s) = (s1, r1)" by force
        show thesis
        proof (cases r1)
          case (Inl err)
          with assms s0 \<open>r0 = Inr u\<close> body show thesis by (intro refused [OF None]) (auto simp: unf)
        next
          case (Inr x)
          note body = body [unfolded Inr]
          obtain s2 r2 where p: "project e m x s1 = (s2, r2)" by force
          show thesis
          proof (cases r2)
            case (Inl err)
            with assms s0 \<open>r0 = Inr u\<close> body p show thesis by (intro behind [OF None body]) (auto simp: unf)
          next
            case (Inr v)
            with assms s0 \<open>r0 = Inr u\<close> body p show thesis by (intro finished [OF None body]) (auto simp: unf)
          qed
        qed
      qed
    qed
  qed
qed

lemma committed_projected: "committed m x s s1 \<Longrightarrow> board_only s1 s' \<Longrightarrow> committed m x s s'"
  by (auto simp: committed_def board_only_def has_row_keys split: option.splits)

end
