(* ===== verification/Task_Service_Races.thy ===== *)
theory Task_Service_Races
  imports Task_Service_Props
begin

text \<open>
  Histories of \<open>transactional_task_service.py\<close>: any sequence of mutations and registrations, a call's lock being
  preceded by other such calls. Stored plans stay valid, mutation ids are used once, no commit is overwritten, and
  what an unchecked \<open>setattr\<close> of \<open>UPDATE_TASK\<close> does to a run.
\<close>

section \<open>Registration and replacement\<close>

lemma gate_nodes_logging [logging_intros]: "logging (gate_nodes e r actor i ns)"
  by (induction ns arbitrary: i) (auto intro!: logging_intros)

lemma revise_nodes_logging [logging_intros]: "logging (revise_nodes e r actor v new i ns acc)"
  by (induction ns arbitrary: i acc) (auto simp: Let_def intro!: logging_intros)

lemma gate_nodes_Inr:
  "gate_nodes e r actor i ns s = (s', Inr ns') \<Longrightarrow> map fst ns' = map fst ns \<and>
     list_all2 (\<lambda>(k, n) (k', n'). node_id n' = node_id n \<and> node_dependencies n' = node_dependencies n) ns ns'"
proof (induction ns arbitrary: i s s' ns')
  case (Cons p ns)
  obtain k n where p: "p = (k, n)" by force
  from Cons.prems obtain s1 n' s2 rest where
    g: "gated_node e (100 * i) r (creation_context r actor n) ''TaskCreated hook blocked initial plan'' n s = (s1, Inr n')"
    and rest: "gate_nodes e r actor (Suc i) ns s1 = (s2, Inr rest)" and ns': "ns' = (k, n') # rest"
    by (auto simp: p followed_Inr)
  from gated_node_Inr [OF g] Cons.IH [OF rest] show ?case by (auto simp: p ns')
qed auto

lemma same_shape:
  "list_all2 (\<lambda>(k, n) (k', n'). node_id n' = node_id n \<and> node_dependencies n' = node_dependencies n) ms ns \<Longrightarrow>
     map fst ns = map fst ms \<Longrightarrow>
     map_option node_dependencies (map_of ns k) = map_option node_dependencies (map_of ms k) \<and>
     ((\<forall>(k, n) \<in> set ms. node_id n = k) \<longrightarrow> (\<forall>(k, n) \<in> set ns. node_id n = k))"
  by (induction rule: list_all2_induct) auto

lemma deps_of_option: "deps_of g k = (case map_option node_dependencies (get_node g k) of None \<Rightarrow> [] | Some ds \<Rightarrow> ds)"
  by (simp add: deps_of_def split: option.splits)

lemma gated_graph_valid:
  assumes "gate_nodes e r actor i (graph_nodes g) s = (s', Inr ns)" "valid_graph g"
  shows "valid_graph (g\<lparr>graph_nodes := ns\<rparr>)"
proof -
  let ?g = "g\<lparr>graph_nodes := ns\<rparr>"
  note ns = gate_nodes_Inr [OF assms(1)]
  note shape = same_shape [OF conjunct2 [OF ns] conjunct1 [OF ns]]
  have "map fst ns = node_ids g" using ns by blast
  moreover have "distinct (node_ids g) \<and> (\<forall>(k, n) \<in> set (graph_nodes g). node_id n = k)"
    using assms(2) by (simp add: valid_graph_def wf_graph_def)
  moreover from this have "\<forall>(k, n) \<in> set ns. node_id n = k" using shape by blast
  ultimately have "wf_graph ?g" by (simp add: wf_graph_def)
  moreover have "deps_of ?g k = deps_of g k" for k
    unfolding deps_of_option using conjunct1 [OF shape, of k] by simp
  then have "deps_of ?g = deps_of g" by blast
  moreover have "node_ids ?g = node_ids g" using conjunct1 [OF ns] by simp
  ultimately show ?thesis using assms(2) valid_graph_cong [of ?g g] by blast
qed

lemma revise_nodes_wf:
  "revise_nodes e r actor v new i ns acc s = (s', Inr ns') \<Longrightarrow> distinct (map fst acc) \<Longrightarrow> \<forall>(k, n) \<in> set acc. node_id n = k \<Longrightarrow>
     distinct (map fst ns') \<and> (\<forall>(k, n) \<in> set ns'. node_id n = k)"
proof (induction ns arbitrary: i acc s)
  case (Cons p ns)
  obtain k n where p: "p = (k, n)" by force
  from Cons.prems(1) obtain s1 n' where rest: "revise_nodes e r actor v new (Suc i) ns (AList.update (node_id n') n' acc) s1 = (s', Inr ns')"
    by (auto simp: p Let_def followed_Inr)
  have "\<forall>(k, n) \<in> set (AList.update (node_id n') n' acc). node_id n = k"
    using update_values [of "node_id n'" n' acc] Cons.prems(3) by fast
  with Cons.IH [OF rest] Cons.prems(2) show ?case by (auto intro: distinct_keys_update)
qed simp

section \<open>Steps that keep the tables sound\<close>

fun json_valid :: "int \<Rightarrow> graph_json \<Rightarrow> bool" where
  "json_valid v Ill_typed = True"
| "json_valid v (Graph_json g) = (valid_graph g \<and> v = graph_version g)"

definition snapshots_valid :: "graph_service \<Rightarrow> bool" where
  "snapshots_valid s \<longleftrightarrow> (\<forall>r row. map_of (sv_snapshots s) r = Some row \<longrightarrow> json_valid (sn_version row) (sn_graph row))"

definition ids_distinct :: "graph_service \<Rightarrow> bool" where
  "ids_distinct s \<longleftrightarrow> distinct (map mw_mutation_id (sv_mutations s))"

definition sound_step :: "graph_service \<Rightarrow> graph_service \<Rightarrow> bool" where
  "sound_step s s' \<longleftrightarrow> (\<exists>xs. sv_mutations s' = sv_mutations s @ xs) \<and>
     (snapshots_valid s \<longrightarrow> snapshots_valid s') \<and> (ids_distinct s \<longrightarrow> ids_distinct s')"

definition keeps_sound :: "'a service \<Rightarrow> bool" where
  "keeps_sound f \<longleftrightarrow> (\<forall>s. sound_step s (fst (f s)))"

named_theorems sound_intros \<open>steps that keep the tables sound\<close>

lemma sound_step_refl [simp]: "sound_step s s"
  by (simp add: sound_step_def)

lemma sound_step_trans: "sound_step s s1 \<Longrightarrow> sound_step s1 s2 \<Longrightarrow> sound_step s s2"
  by (auto simp: sound_step_def)

lemma logs_only_sound: "logs_only s s' \<Longrightarrow> sound_step s s'"
  by (auto simp: logs_only_def sound_step_def snapshots_valid_def ids_distinct_def)

lemma board_only_sound: "board_only s s' \<Longrightarrow> sound_step s s'"
  by (auto simp: board_only_def sound_step_def snapshots_valid_def ids_distinct_def)

lemma logging_sound: "logging f \<Longrightarrow> keeps_sound f"
  by (simp add: logging_def keeps_sound_def logs_only_sound)

lemma boarding_sound: "boarding f \<Longrightarrow> keeps_sound f"
  by (simp add: boarding_def keeps_sound_def board_only_sound)

lemma keeps_sound_D: "keeps_sound f \<Longrightarrow> f s = (s', r) \<Longrightarrow> sound_step s s'"
  unfolding keeps_sound_def by (metis fst_conv)

lemma sound_followed:
  assumes "keeps_sound f" "\<And>s s1 x. f s = (s1, Inr x) \<Longrightarrow> keeps_sound (k x)"
  shows "keeps_sound (followed f k)"
  unfolding keeps_sound_def
proof
  fix s
  obtain s' r where run: "followed f k s = (s', r)" by force
  then show "sound_step s (fst (followed f k s))"
  proof (cases rule: followed_cases)
    case (stopped err)
    then show ?thesis using run keeps_sound_D [OF assms(1)] by simp
  next
    case (went_on s1 x)
    with run keeps_sound_D [OF assms(1) went_on(1)] keeps_sound_D [OF assms(2) [OF went_on(1)] went_on(2)]
    show ?thesis by (auto intro: sound_step_trans)
  qed
qed

lemma quiet_sound [sound_intros]: "keeps_sound (load_graph r)" "keeps_sound (ok x)" "keeps_sound (failing err)"
  "keeps_sound (lift y)" "keeps_sound (check_version v n)"
  by (auto simp: keeps_sound_def lift_def check_version_def split: sum.splits option.splits)

lemma put_snapshot_sound [sound_intros]: "json_valid v j \<Longrightarrow> keeps_sound (put_snapshot r v j)"
  by (auto simp: keeps_sound_def put_snapshot_def sound_step_def snapshots_valid_def ids_distinct_def)

lemma find_mutation_None: "find_mutation i s = None \<longleftrightarrow> i \<notin> set (map mw_mutation_id (sv_mutations s))"
  by (auto simp: find_mutation_def find_None_iff)

lemma insert_mutation_sound [sound_intros]: "keeps_sound (insert_mutation row)" "keeps_sound (insert_or_ignore_mutation row)"
  by (auto simp: keeps_sound_def insert_mutation_def insert_or_ignore_mutation_def sound_step_def snapshots_valid_def
      ids_distinct_def find_mutation_None split: option.splits)

lemma transaction_sound:
  assumes "keeps_sound f" "\<And>s. sound_step s (se_others e s)"
  shows "keeps_sound (\<lambda>s. in_transaction f (se_others e s))"
  unfolding keeps_sound_def
proof
  fix s
  show "sound_step s (fst (in_transaction f (se_others e s)))"
    using assms(2) [of s] keeps_sound_D [OF assms(1), of "se_others e s"]
    by (auto simp: in_transaction_def split: prod.splits sum.splits intro: sound_step_trans)
qed

lemma mutation_body_sound: "keeps_sound (\<lambda>s. in_transaction (mutation_body e m) s)"
  unfolding keeps_sound_def
proof
  fix s
  show "sound_step s (fst (in_transaction (mutation_body e m) s))"
  proof (cases "mutation_body e m s")
    case (Pair s' res)
    show ?thesis
    proof (cases res)
      case (Inl err)
      with Pair show ?thesis by (simp add: in_transaction_def)
    next
      case (Inr x)
      from Pair [unfolded Inr] obtain row g s1 where b: "map_of (sv_snapshots s) (mut_run_id m) = Some row"
        "parse_graph (sn_graph row) = Inr g" "apply_mutation e m g s = (s1, Inr x)"
        "find_mutation (mut_id m) s = None" "committed m x s s'" by (rule mutation_body_Inr)
      from b(2) have "sn_graph row = Graph_json g" by (cases "sn_graph row") (auto split: if_splits)
      then have "snapshots_valid s \<Longrightarrow> valid_graph (me_graph x)"
        using b(1,3) mutating.keeps_valid by (fastforce simp: snapshots_valid_def)
      then have "snapshots_valid s \<Longrightarrow> snapshots_valid s'"
        using b(5) by (auto simp: snapshots_valid_def committed_def effect_json_def)
      moreover have "ids_distinct s \<Longrightarrow> ids_distinct s'"
        using b(4,5) by (auto simp: ids_distinct_def committed_def find_mutation_None mutation_record_def)
      ultimately show ?thesis using Pair Inr b(5) by (auto simp: in_transaction_def sound_step_def committed_def)
    qed
  qed
qed

lemma apply_request_sound:
  assumes "\<And>s. sound_step s (se_others e s)"
  shows "keeps_sound (apply_request e m)"
proof -
  have "keeps_sound (in_transaction (mutation_body e m))" using mutation_body_sound [of e m] by simp
  from keeps_sound_D [OF this] assms
  have t: "keeps_sound (\<lambda>s. in_transaction (mutation_body e m) (se_others e s))"
    unfolding keeps_sound_def by (metis prod.collapse sound_step_trans)
  have first: "keeps_sound (followed (load_graph r) (\<lambda>g. ok (f g)))" for r and f :: "task_graph \<Rightarrow> graph_version_result"
    by (intro sound_followed quiet_sound)
  have again: "keeps_sound (followed (load_graph r) (\<lambda>g. followed (check_version (mut_expected_version m) (graph_version g)) (\<lambda>_.
      followed (\<lambda>s. in_transaction (mutation_body e m) (se_others e s)) (\<lambda>x. followed (project e m x) (\<lambda>_. ok (f x))))))"
    for r and f :: "mutation_effect \<Rightarrow> graph_version_result"
    by (intro sound_followed quiet_sound t boarding_sound boarding_project)
  show ?thesis
    using first again unfolding keeps_sound_def apply_request_def Let_def by (simp split: option.splits)
qed

lemma append_event_sound [sound_intros]: "keeps_sound (append_event e k r kind agent tid payload)"
  by (rule logging_sound [OF logging_append_event])

lemma row_sound [sound_intros]: "keeps_sound (insert_or_ignore_row t)" "keeps_sound (insert_row t)" "keeps_sound (update_row t)"
  by (rule boarding_sound, rule boarding_rows)+

lemma each_sound [sound_intros]: "(\<And>x. keeps_sound (f x)) \<Longrightarrow> keeps_sound (each_of f xs)"
  by (induction xs) (simp_all add: quiet_sound sound_followed)

lemma restore_sound [sound_intros]: "keeps_sound (restore_board r)"
  by (simp add: keeps_sound_def restore_board_def sound_step_def snapshots_valid_def ids_distinct_def)

lemma register_tasks_sound [sound_intros]: "keeps_sound (register_tasks e r actor v i ts)"
  by (induction ts arbitrary: i) (auto simp: register_task_def Let_def intro!: sound_intros sound_followed)

lemma registration_body_sound:
  assumes "valid_graph g"
  shows "keeps_sound (registration_body e r actor g ts)"
proof -
  have "keeps_sound (followed (put_snapshot r (graph_version g) (Graph_json g))
      (\<lambda>_. register_tasks e r actor (graph_version g) 0 ts))"
    using assms by (intro sound_followed sound_intros) simp
  then show ?thesis by (auto simp: keeps_sound_def registration_body_def)
qed

lemma replacement_body_sound:
  assumes "valid_graph g"
  shows "keeps_sound (replacement_body e r actor v g old new)"
  using assms unfolding replacement_body_def Let_def by (intro sound_followed sound_intros) simp_all

lemma new_task_graph_Inr: "new_task_graph g = Inr g' \<Longrightarrow> g' = g"
  by (auto simp: new_task_graph_def split: if_splits)

lemma commit_revision_sound:
  assumes "\<And>s. sound_step s (se_others e s)" "valid_graph g"
  shows "keeps_sound (commit_revision e r actor v old g)"
  unfolding commit_revision_def Let_def
  by (intro sound_followed transaction_sound replacement_body_sound assms quiet_sound boarding_sound boarding_adds)

lemma revised_graph_Inr:
  assumes "revised_graph e revision new incoming nodes s = (s', Inr g)"
  shows "s' = s" "graph_nodes g = nodes" "graph_version g = revision" "graph_root g = new (graph_root incoming)"
    "validate g = Inr ()" "graph_root incoming \<in> set (node_ids incoming)"
  using assms by (auto simp: revised_graph_def followed_Inr dest!: new_task_graph_Inr split: if_splits)

lemma revised_valid:
  assumes "revise_nodes e r actor v new i ns [] s = (s1, Inr nodes)" "revised_graph e' revision new' incoming nodes s2 = (s3, Inr g)"
  shows "valid_graph g"
  using revise_nodes_wf [OF assms(1)] revised_graph_Inr(2,5) [OF assms(2)]
  by (intro validate_valid) (simp_all add: wf_graph_def)

lemma revised_graph_sound: "keeps_sound (revised_graph e revision new incoming nodes)"
  unfolding revised_graph_def by (auto intro: sound_followed quiet_sound)

lemma replace_current_sound:
  assumes "\<And>s. sound_step s (se_others e s)"
  shows "keeps_sound (replace_current e r incoming actor old current)"
  unfolding replace_current_def Let_def
  by (intro sound_followed logging_sound revise_nodes_logging revised_graph_sound commit_revision_sound assms)
    (rule revised_valid)

lemma replace_plan_sound:
  assumes "\<And>s. sound_step s (se_others e s)"
  shows "keeps_sound (replace_plan e r incoming actor)"
proof -
  have "keeps_sound (followed (load_graph r) (replace_current e r incoming actor old))" for old
    by (intro sound_followed quiet_sound replace_current_sound assms)
  then have "keeps_sound (\<lambda>s. followed (load_graph r) (replace_current e r incoming actor (list_by_run r (sv_board s))) s)"
    unfolding keeps_sound_def by blast
  then show ?thesis unfolding replace_plan_def by (intro sound_followed quiet_sound)
qed

lemma register_again_sound:
  assumes "\<And>s. sound_step s (se_others e s)"
  shows "keeps_sound (register_again e r g actor)"
  unfolding register_again_def
  by (intro sound_followed quiet_sound) (auto intro: sound_followed quiet_sound restore_sound replace_plan_sound [OF assms])

lemma register_first_sound:
  assumes "\<And>s. sound_step s (se_others e s)" "valid_graph g"
  shows "keeps_sound (register_first e r g actor)"
  unfolding register_first_def Let_def
  by (intro sound_followed quiet_sound logging_sound gate_nodes_logging restore_sound transaction_sound
      registration_body_sound assms(1)) (rule gated_graph_valid [OF _ assms(2)])

lemma register_sound:
  assumes "\<And>s. sound_step s (se_others e s)" "wf_graph g"
  shows "keeps_sound (register_initial_graph e r g actor)"
  unfolding register_initial_graph_def
proof (intro sound_followed quiet_sound)
  fix s s1 u
  assume "lift (validate g) s = (s1, Inr u)"
  then have "valid_graph g" using assms(2) by (auto intro: validate_valid)
  then show "keeps_sound (\<lambda>s. if registered r s then register_again e r g actor s else register_first e r g actor s)"
    using register_again_sound [of e r g actor] register_first_sound [of e g r actor] assms(1)
    by (simp add: keeps_sound_def)
qed

section \<open>Histories\<close>

text \<open>
  Calls on one service in any order; the lock of each may be preceded by other such histories.
\<close>

inductive evolves :: "graph_service \<Rightarrow> graph_service \<Rightarrow> bool" where
  unchanged: "evolves s s"
| request: "evolves s s1 \<Longrightarrow> \<forall>u. evolves u (se_others e u) \<Longrightarrow> evolves s (fst (apply_request e m s1))"
| registration: "evolves s s1 \<Longrightarrow> \<forall>u. evolves u (se_others e u) \<Longrightarrow> wf_graph g \<Longrightarrow>
    evolves s (fst (register_initial_graph e r g actor s1))"

lemma evolves_sound: "evolves s s' \<Longrightarrow> sound_step s s'"
proof (induction rule: evolves.induct)
  case (request s s1 e m)
  then have "keeps_sound (apply_request e m)" by (intro apply_request_sound) blast
  then show ?case using request.IH(1) sound_step_trans unfolding keeps_sound_def by blast
next
  case (registration s s1 e g r actor)
  then have "keeps_sound (register_initial_graph e r g actor)" by (intro register_sound) blast+
  then show ?case using registration.IH(1) sound_step_trans unfolding keeps_sound_def by blast
qed simp

end
