(* ===== verification/Task_Service_Ends.thy ===== *)
theory Task_Service_Ends
  imports Task_Service_Races
begin

text \<open>
  The properties of \<open>transactional_task_service.py\<close> with their witnesses: one run whose plan \<open>a <- b\<close> is
  registered, changed by two racing callers, repaired and replaced.
\<close>

section \<open>A run\<close>

text \<open>Each call draws its event ids from a stream of its own.\<close>

definition demo_suffix :: "nat \<Rightarrow> string" where
  "demo_suffix k = (if k = 0 then ''0'' else if k = 70 then ''1'' else if k = 100 then ''2'' else if k = 170 then ''3'' else ''4'')"

definition demo_env :: "string \<Rightarrow> service_env" where
  "demo_env p = \<lparr>se_hooks = [], se_in_loop = False, se_redact = id, se_event_id = (\<lambda>k. p @ demo_suffix k), se_clock = (\<lambda>_. 0),
     se_write = (\<lambda>_. True), se_node = (\<lambda>v. case v of PyStr i \<Rightarrow> Some (default_node i) | _ \<Rightarrow> None),
     se_int = (\<lambda>v. case v of PyInt i \<Rightarrow> Some i | _ \<Rightarrow> None), se_items = (\<lambda>_. None), se_others = id\<rparr>"

definition demo_plan :: task_graph where
  "demo_plan = \<lparr>graph_root = ''a'', graph_nodes = [(''a'', default_node ''a''),
     (''b'', (default_node ''b'')\<lparr>node_dependencies := [''a'']\<rparr>)], graph_version = 1, graph_created_at = 0, graph_updated_at = 0\<rparr>"

definition demo_task :: "string \<Rightarrow> task_node \<Rightarrow> task_key \<times> board_task" where
  "demo_task r n = ((r, node_id n), task_of_node 0 0 r [] n)"

definition service_of :: "string \<Rightarrow> graph_service" where
  "service_of r = (let tasks = map (demo_task r \<circ> snd) (graph_nodes demo_plan) in
     \<lparr>sv_snapshots = [(r, \<lparr>sn_version = 1, sn_graph = Graph_json demo_plan\<rparr>)],
      sv_mutations = [\<lparr>mw_mutation_id = ''initial:a'', mw_run_id = r, mw_actor = ''lead'', mw_type = ''initial_task'',
        mw_payload = [], mw_result_version = 1, mw_created_at = 0\<rparr>],
      sv_board = \<lparr>board_tasks = tasks, board_by_run = [(r, map fst tasks)], board_persist = True, board_rows = tasks\<rparr>,
      sv_log = \<lparr>log_events = [], log_envelopes = []\<rparr>\<rparr>)"

definition demo_service :: graph_service where
  "demo_service = service_of ''run''"

definition repair_a :: "string \<Rightarrow> graph_mutation" where
  "repair_a i = plain_mutation i ''run'' Mut_REPAIR_TASK ''verifier'' [(''target_task_id'', PyStr ''a'')] 0"

definition set_priority :: "string \<Rightarrow> int \<Rightarrow> graph_mutation" where
  "set_priority i v = plain_mutation i ''run'' Mut_UPDATE_TASK ''lead''
     [(''task_id'', PyStr ''b''), (''changes'', PyDict [(''priority'', PyInt v)])] 0"

text \<open>The caller of \<open>m2\<close> finds the repair \<open>m1\<close> committed once it has the lock.\<close>

definition demo_repaired :: "graph_service \<Rightarrow> graph_service" where
  "demo_repaired s = fst (apply_request (demo_env ''m1'') (repair_a ''m1'') s)"

definition race_env :: service_env where
  "race_env = (demo_env ''m2'')\<lparr>se_others := demo_repaired\<rparr>"

definition demo_race :: "graph_service \<times> (service_error + graph_version_result)" where
  "demo_race = apply_request race_env (set_priority ''m2'' 3) demo_service"

lemma demo_evolves: "evolves s (demo_repaired s)" "evolves demo_service (fst demo_race)"
proof -
  have others: "\<forall>u. evolves u (se_others (demo_env p) u)" for p by (simp add: demo_env_def unchanged)
  have r: "evolves s (demo_repaired s)" for s unfolding demo_repaired_def by (rule request [OF unchanged others])
  then show "evolves s (demo_repaired s)" .
  show "evolves demo_service (fst demo_race)"
    unfolding demo_race_def by (rule request [OF unchanged]) (simp add: r race_env_def)
qed

lemma demo_race_result:
  "\<exists>v. demo_race = (fst demo_race, Inr v) \<and> tv_version v = 4"
proof -
  have "map_sum id tv_version (snd demo_race) = Inr 4" by code_simp
  from map_sum_InrD [OF this] show ?thesis by (metis prod.collapse)
qed

lemma demo_fresh: "find_mutation ''m2'' demo_service = None"
  by code_simp

lemma request_fields [simp]: "mut_id (set_priority i v) = i" "mut_run_id (set_priority i v) = ''run''"
  by (simp_all add: set_priority_def plain_mutation_def)

section \<open>Atomicity\<close>

text \<open>C21: A mutation that was not applied before either raises and leaves every table as it was (as the others left
  it, once the lock was asked for), or the snapshot, the mutation row, its event and the board row of a created task
  are all committed, for the graph that was current under the lock. The call may still raise after the commit, when
  the board of the process cannot be written.\<close>

theorem mutation_all_or_nothing:
  assumes "apply_request e m s = (s', res)" "find_mutation (mut_id m) s = None"
  shows "((\<exists>err. res = Inl err) \<and> (s' = s \<or> s' = se_others e s)) \<or>
    (\<exists>g x s1. graph_of_run (mut_run_id m) (se_others e s) = Inr g \<and>
       apply_mutation e m g (se_others e s) = (s1, Inr x) \<and> committed m x (se_others e s) s')"
  using assms(1)
proof (cases rule: apply_request_cases)
  case (finished x s1)
  from finished(2) obtain row g s2 where b: "map_of (sv_snapshots (se_others e s)) (mut_run_id m) = Some row"
    "parse_graph (sn_graph row) = Inr g" "apply_mutation e m g (se_others e s) = (s2, Inr x)"
    "committed m x (se_others e s) s1" by (rule mutation_body_Inr)
  with committed_projected [OF b(4) boarding_D [OF boarding_project finished(3)]] show ?thesis
    by (auto simp: graph_of_run_def)
next
  case (behind x s1 err)
  from behind(2) obtain row g s2 where b: "map_of (sv_snapshots (se_others e s)) (mut_run_id m) = Some row"
    "parse_graph (sn_graph row) = Inr g" "apply_mutation e m g (se_others e s) = (s2, Inr x)"
    "committed m x (se_others e s) s1" by (rule mutation_body_Inr)
  with committed_projected [OF b(4) boarding_D [OF boarding_project behind(3)]] show ?thesis
    by (auto simp: graph_of_run_def)
qed (use assms(2) in auto)

theorem mutation_all_or_nothing_witness:
  "\<exists>x. committed (set_priority ''m2'' 3) x (demo_repaired demo_service) (fst demo_race)"
proof -
  from demo_race_result obtain v where "demo_race = (fst demo_race, Inr v)" by blast
  then have "apply_request race_env (set_priority ''m2'' 3) demo_service = (fst demo_race, Inr v)"
    unfolding demo_race_def by simp
  from mutation_all_or_nothing [OF this] demo_fresh show ?thesis by (auto simp: race_env_def)
qed

section \<open>Once per id, none lost\<close>

lemma find_append: "List.find P (xs @ ys) = (case List.find P xs of None \<Rightarrow> List.find P ys | Some x \<Rightarrow> Some x)"
  by (induction xs) auto

lemma request_recorded:
  assumes "apply_request e m s = (s1, Inr v)"
  shows "\<exists>row. find_mutation (mut_id m) s1 = Some row \<and> mw_result_version row = tv_version v"
  using assms
proof (cases rule: apply_request_cases)
  case (finished x s0)
  from finished(2) have b: "find_mutation (mut_id m) (se_others e s) = None" "committed m x (se_others e s) s0"
    by (auto elim: mutation_body_Inr)
  have "sv_mutations s1 = sv_mutations (se_others e s) @ [mutation_record m (graph_version (me_graph x))]"
    using committed_projected [OF b(2) boarding_D [OF boarding_project finished(3)]] by (simp add: committed_def)
  with b(1) finished(4) show ?thesis by (simp add: find_mutation_def find_append mutation_record_def)
qed auto

text \<open>A mutation id takes effect once: whatever was called since, the request with an id that was applied answers the
  version of its first application, with the current graph, and changes nothing (or raises, when the stored graph is
  no longer readable).\<close>

theorem mutation_applied_once:
  assumes "apply_request e m s = (s1, Inr v)" "evolves s1 s2"
  shows "fst (apply_request e' m s2) = s2 \<and>
    (case graph_of_run (mut_run_id m) s2 of
       Inl err \<Rightarrow> snd (apply_request e' m s2) = Inl err
     | Inr g \<Rightarrow> snd (apply_request e' m s2) = Inr \<lparr>tv_run_id = mut_run_id m, tv_version = tv_version v,
         tv_mutation_id = mut_id m, tv_graph = Graph_json g\<rparr>)"
proof -
  from request_recorded [OF assms(1)] obtain row
    where row: "find_mutation (mut_id m) s1 = Some row" "mw_result_version row = tv_version v" by blast
  from evolves_sound [OF assms(2)] row(1) have "find_mutation (mut_id m) s2 = Some row"
    by (auto simp: sound_step_def find_mutation_def find_append)
  with row(2) show ?thesis by (simp add: apply_request_def Let_def followed_def split: sum.splits)
qed

theorem mutation_applied_once_witness:
  "fst (apply_request (demo_env ''m9'') (set_priority ''m2'' 3) (demo_repaired (fst demo_race))) = demo_repaired (fst demo_race)"
proof -
  from demo_race_result obtain v where "demo_race = (fst demo_race, Inr v)" by blast
  then have "apply_request race_env (set_priority ''m2'' 3) demo_service = (fst demo_race, Inr v)"
    unfolding demo_race_def by simp
  from mutation_applied_once [OF this demo_evolves(1)] show ?thesis by blast
qed

text \<open>A mutation is applied to the graph that is stored when its transaction holds the lock, whatever was committed since
  the caller read the plan: every node of that graph is still there, its version is not below, and a created task is a
  new node. No committed change of another caller is overwritten.\<close>

theorem no_update_lost:
  assumes "apply_request e m s = (s', Inr v)" "find_mutation (mut_id m) s = None"
    "graph_of_run (mut_run_id m) (se_others e s) = Inr g"
  shows "\<exists>x s1. apply_mutation e m g (se_others e s) = (s1, Inr x) \<and>
    map_of (sv_snapshots s') (mut_run_id m) = Some \<lparr>sn_version = tv_version v, sn_graph = effect_json x\<rparr> \<and>
    tv_graph v = effect_json x \<and> graph_version g \<le> tv_version v \<and> set (node_ids g) \<subseteq> set (node_ids (me_graph x)) \<and>
    (mut_type m = Mut_CREATE_TASK \<longrightarrow> (\<exists>n. Option.bind (map_of (mut_payload m) ''task'') (se_node e) = Some n \<and>
       node_id n \<in> set (node_ids (me_graph x)) - set (node_ids g) \<and> tv_version v = graph_version g + 1))"
  using assms(1)
proof (cases rule: apply_request_cases)
  case (finished x s0)
  from finished(2) obtain row g' s2 where b: "map_of (sv_snapshots (se_others e s)) (mut_run_id m) = Some row"
    "parse_graph (sn_graph row) = Inr g'" "apply_mutation e m g' (se_others e s) = (s2, Inr x)"
    "committed m x (se_others e s) s0" by (rule mutation_body_Inr)
  with assms(3) have g: "g' = g" by (simp add: graph_of_run_def)
  note c = committed_projected [OF b(4) boarding_D [OF boarding_project finished(3)]]
  note k = mutating.keeps_nodes [OF b(3) [unfolded g]]
  have "\<exists>n. Option.bind (map_of (mut_payload m) ''task'') (se_node e) = Some n \<and>
       node_id n \<in> set (node_ids (me_graph x)) - set (node_ids g) \<and> graph_version (me_graph x) = graph_version g + 1"
    if "mut_type m = Mut_CREATE_TASK"
  proof -
    from that b(3) have "create_effect e m g (se_others e s) = (s2, Inr x)" by (simp add: apply_mutation_def g)
    then show ?thesis by (rule create_effect_Inr) (auto simp: set_keys_update simp del: set_map)
  qed
  moreover have v: "tv_version v = graph_version (me_graph x)" "tv_graph v = effect_json x" using finished(4) by simp_all
  ultimately show ?thesis using b(3) c k by (auto simp: committed_def g v simp del: set_map)
qed (use assms(2) in auto)

theorem no_update_lost_witness:
  "\<exists>g v. graph_of_run ''run'' (demo_repaired demo_service) = Inr g \<and> ''a__repair_v1'' \<in> set (node_ids g) \<and>
     demo_race = (fst demo_race, Inr v) \<and> graph_version g \<le> tv_version v"
proof -
  have "map_sum id (\<lambda>g. ''a__repair_v1'' \<in> set (node_ids g)) (graph_of_run ''run'' (demo_repaired demo_service)) = Inr True"
    by code_simp
  from map_sum_InrD [OF this] obtain g where g: "graph_of_run ''run'' (demo_repaired demo_service) = Inr g"
    "''a__repair_v1'' \<in> set (node_ids g)" by blast
  from demo_race_result obtain v where v: "demo_race = (fst demo_race, Inr v)" by blast
  then have run: "apply_request race_env (set_priority ''m2'' 3) demo_service = (fst demo_race, Inr v)"
    unfolding demo_race_def by simp
  have "graph_version g \<le> tv_version v"
    using no_update_lost [OF run, of g] demo_fresh g(1) by (auto simp: race_env_def)
  with g v show ?thesis by blast
qed

section \<open>The stored plans\<close>

text \<open>C22: Whatever is called, in whatever interleaving, every stored plan that has only fields of their types is a valid graph
  (its ids are its keys, every dependency exists, no cycle), stored under its own version, and no two mutation rows have
  the same id.\<close>

theorem stored_plans_stay_valid:
  assumes "evolves s s'" "snapshots_valid s" "ids_distinct s"
  shows "ids_distinct s' \<and> (\<forall>r v g. map_of (sv_snapshots s') r = Some \<lparr>sn_version = v, sn_graph = Graph_json g\<rparr> \<longrightarrow>
    valid_graph g \<and> v = graph_version g)"
  using evolves_sound [OF assms(1)] assms(2,3) by (fastforce simp: sound_step_def snapshots_valid_def)

lemma demo_plan_wf: "wf_graph demo_plan"
  by (simp add: wf_graph_def demo_plan_def default_node_def)

lemma demo_plan_valid: "valid_graph demo_plan"
proof -
  have "validate demo_plan = Inr ()" by code_simp
  then show ?thesis using demo_plan_wf by (simp add: validate_iff)
qed

lemma demo_sound: "snapshots_valid demo_service" "ids_distinct demo_service"
  by (auto simp: snapshots_valid_def ids_distinct_def demo_service_def service_of_def Let_def demo_plan_valid)
    (simp add: demo_plan_def)

theorem stored_plans_stay_valid_witness:
  "\<exists>g. map_of (sv_snapshots (fst demo_race)) ''run'' = Some \<lparr>sn_version = 4, sn_graph = Graph_json g\<rparr> \<and>
     valid_graph g \<and> graph_version g = 4"
proof -
  have "map_option (\<lambda>row. (sn_version row, case sn_graph row of Ill_typed \<Rightarrow> False | Graph_json _ \<Rightarrow> True))
      (map_of (sv_snapshots (fst demo_race)) ''run'') = Some (4, True)" by code_simp
  then obtain row where row: "map_of (sv_snapshots (fst demo_race)) ''run'' = Some row" "sn_version row = 4"
    "case sn_graph row of Ill_typed \<Rightarrow> False | Graph_json _ \<Rightarrow> True" by auto
  from row(3) obtain g where g: "sn_graph row = Graph_json g" by (cases "sn_graph row") auto
  have eq: "row = \<lparr>sn_version = 4, sn_graph = Graph_json g\<rparr>" using row(2) g by simp
  from stored_plans_stay_valid [OF demo_evolves(2) demo_sound] row(1) have "valid_graph g \<and> 4 = graph_version g"
    unfolding eq by blast
  with row(1) show ?thesis unfolding eq by auto
qed

section \<open>Readability of the stored plan\<close>

definition nodes_bounded :: "task_graph \<Rightarrow> bool" where
  "nodes_bounded g \<longleftrightarrow> (\<forall>n \<in> snd ` set (graph_nodes g). node_bounds n)"

definition rooted :: "task_graph \<Rightarrow> bool" where
  "rooted g \<longleftrightarrow> graph_nodes g = [] \<or> graph_root g = [] \<or> graph_root g \<in> set (node_ids g)"

lemma new_task_node_ok: "new_task_node n = Inr n \<longleftrightarrow> node_bounds n \<and> node_id n \<notin> set (node_dependencies n)"
  by (auto simp: new_task_node_def node_bounds_def)

lemma new_task_node_cases: "new_task_node n = Inr n \<or> (\<exists>err. new_task_node n = Inl err)"
  by (simp add: new_task_node_def)

lemma node_in_graph: "wf_graph g \<Longrightarrow> n \<in> snd ` set (graph_nodes g) \<Longrightarrow> get_node g (node_id n) = Some n"
  by (auto simp: wf_graph_def map_of_eq_Some_iff)

lemma revalidates_iff:
  assumes "valid_graph g"
  shows "revalidates g \<longleftrightarrow> nodes_bounded g \<and> rooted g"
proof -
  have "node_id n \<notin> set (node_dependencies n)" if "n \<in> snd ` set (graph_nodes g)" for n
    using valid_no_self_dependency [OF assms, of "node_id n"] node_in_graph [OF _ that] assms
    by (simp add: valid_graph_def)
  then have "(case new_task_node n of Inl _ \<Rightarrow> False | Inr _ \<Rightarrow> True) \<longleftrightarrow> node_bounds n" if "n \<in> snd ` set (graph_nodes g)" for n
    using new_task_node_ok [of n] new_task_node_cases [of n] that by (auto split: sum.splits)
  moreover have "(case new_task_graph g of Inl _ \<Rightarrow> False | Inr _ \<Rightarrow> True) \<longleftrightarrow> rooted g"
    by (auto simp: new_task_graph_def rooted_def)
  ultimately show ?thesis by (auto simp: revalidates_def list_all_iff nodes_bounded_def)
qed

lemma bounds_fields:
  "node_bounds (n\<lparr>node_metadata := d\<rparr>) = node_bounds n" "node_bounds (n\<lparr>node_dependencies := ds\<rparr>) = node_bounds n"
  "node_bounds (rewire t r n) = node_bounds n" "node_bounds (apply_status t1 st n) = node_bounds n"
  by (simp_all add: node_bounds_def rewire_def apply_status_def Let_def)

lemma change_fields_bounds:
  "change_fields e changes (n, ill) = Inr (n', ill') \<Longrightarrow> node_attempts n' = node_attempts n \<and>
     node_max_attempts n' = node_max_attempts n \<and> node_budget n' = node_budget n"
proof (induction changes arbitrary: n ill)
  case (Cons c cs)
  obtain key v where c: "c = (key, v)" by force
  with Cons.prems obtain n1 i1 where "change_field e key v (n, ill) = Inr (n1, i1)"
      and rest: "change_fields e cs (n1, i1) = Inr (n', ill')"
    by (auto split: sum.splits)
  then have "node_attempts n1 = node_attempts n \<and> node_max_attempts n1 = node_max_attempts n \<and> node_budget n1 = node_budget n"
    by (auto split: if_splits option.splits pyval.splits)
  with Cons.IH [OF rest] show ?case by simp
qed simp

lemma bounded_touch [simp]: "nodes_bounded (touch t g) = nodes_bounded g"
  by (simp add: nodes_bounded_def)

lemma bounded_put: "nodes_bounded g \<Longrightarrow> node_bounds n \<Longrightarrow> nodes_bounded (put_node k n g)"
  using update_values [of k n "graph_nodes g"] by (fastforce simp: nodes_bounded_def)

lemma bounded_get: "nodes_bounded g \<Longrightarrow> get_node g k = Some n \<Longrightarrow> node_bounds n"
  by (force simp: nodes_bounded_def dest: map_of_SomeD)

lemma bounded_status: "nodes_bounded g \<Longrightarrow> nodes_bounded (fst (update_status t1 t2 k st g))"
  by (auto simp: update_status_def bounds_fields bounded_get intro!: bounded_put split: option.splits)

lemma bounded_rewire: "nodes_bounded g \<Longrightarrow> nodes_bounded (rewire_all t r g)"
  by (force simp: nodes_bounded_def set_map_vals bounds_fields)

lemma bounded_repair:
  assumes "add_repair_task clk t obj caps g = Inr (g', n)" "nodes_bounded g"
  shows "nodes_bounded g' \<and> node_bounds n"
proof -
  from assms(1) obtain target rid g1 where T: "add_node (clk 0) (repair_node rid t obj caps target) g = Inr g1"
    "n = rewire t rid (repair_node rid t obj caps target)" "g' = repaired_graph clk t rid target g1"
    "get_node g t = Some target" "fresh_repair_id g t = Some rid"
    by (blast elim: add_repair_task_shape)
  have b: "node_bounds (repair_node rid t obj caps target)"
    using assms(1) T(4,5) new_task_node_Inr [of "repair_node rid t obj caps target"]
    by (cases "new_task_node (repair_node rid t obj caps target)") (simp_all add: add_repair_task_def)
  with T(1) assms(2) have "nodes_bounded g1" by (auto simp: add_node_Inr intro: bounded_put)
  then show ?thesis
    unfolding T(2,3) repaired_graph_def by (simp add: bounded_status bounded_rewire bounds_fields b)
qed

lemma mutation_bounded:
  assumes "apply_mutation e m g s = (s', Inr x)" "valid_graph g" "nodes_bounded g"
    "\<forall>v n. se_node e v = Some n \<longrightarrow> new_task_node n = Inr n"
    "mut_type m = Mut_UPDATE_TASK \<longrightarrow> \<not> me_ill_typed x \<and> (\<forall>n \<in> snd ` set (graph_nodes (me_graph x)). 0 \<le> node_priority n)"
  shows "nodes_bounded (me_graph x) \<and> \<not> me_ill_typed x"
proof (cases "mut_type m")
  case Mut_CREATE_TASK
  with assms(1) have c: "create_effect e m g s = (s', Inr x)" by (simp add: apply_mutation_def)
  then show ?thesis
  proof (rule create_effect_Inr, goal_cases)
    case (1 n d)
    from 1(1) assms(4) have "new_task_node n = Inr n" by (auto simp: bind_eq_Some_conv)
    with 1(4,6) assms(3) show ?case by (auto simp: new_task_node_ok bounds_fields intro: bounded_put)
  qed
next
  case Mut_ADD_DEPENDENCY
  with assms(1) have "dependency_effect e m g s = (s', Inr x)" by (simp add: apply_mutation_def)
  then show ?thesis
    using assms(3) bounded_get [OF assms(3)]
    by (elim dependency_effect_Inr) (auto simp: effect_def add_edge_def bounds_fields intro: bounded_put)
next
  case Mut_UPDATE_TASK
  with assms(1) have "update_effect e m g s = (s', Inr x)" by (simp add: apply_mutation_def)
  then show ?thesis
  proof (rule update_effect_Inr, goal_cases)
    case (1 tid n changes n' ill)
    have "n' \<in> snd ` set (graph_nodes (me_graph x))"
      using 1(6) by (auto intro!: image_eqI [of _ snd "(tid, n')"] map_of_SomeD)
    then have "0 \<le> node_priority n'" using assms(5) Mut_UPDATE_TASK by blast
    with change_fields_bounds [OF 1(4)] bounded_get [OF assms(3) 1(2)] have "node_bounds n'" by (simp add: node_bounds_def)
    then show ?case using 1(6) assms(3,5) Mut_UPDATE_TASK by (simp add: bounded_put)
  qed
next
  case Mut_REPAIR_TASK
  with assms(1) have "repair_effect e m g s = (s', Inr x)" by (simp add: apply_mutation_def)
  then show ?thesis
  proof (rule repair_effect_Inr, goal_cases)
    case (1 target n obj caps sources g1 repair)
    have "nodes_bounded (stopped_target e target n g)" using assms(3) by (simp add: stopped_target_def bounded_status)
    from bounded_repair [OF 1(3) this] 1(4) show ?case by (simp add: bounded_put bounds_fields del: put_node_nodes)
  qed
qed (use assms(1) in \<open>simp add: apply_mutation_def\<close>)

text \<open>A readable plan stays readable under every mutation that checks what it stores: after a created task, a dependency
  or a repair the snapshot parses back to the very graph that was written; after an update it does when every value is of
  its field's type and no priority is negative.\<close>

theorem mutation_stays_readable:
  assumes "apply_mutation e m g s = (s', Inr x)" "valid_graph g" "graph_nodes g \<noteq> []" "parse_graph (Graph_json g) = Inr g"
    "\<forall>v n. se_node e v = Some n \<longrightarrow> new_task_node n = Inr n"
    "mut_type m = Mut_UPDATE_TASK \<longrightarrow> \<not> me_ill_typed x \<and> (\<forall>n \<in> snd ` set (graph_nodes (me_graph x)). 0 \<le> node_priority n)"
  shows "parse_graph (effect_json x) = Inr (me_graph x)"
proof -
  from assms(4) have r: "revalidates g" by (simp split: if_splits)
  then have "nodes_bounded (me_graph x)" "\<not> me_ill_typed x" using mutation_bounded [OF assms(1,2) _ assms(5,6)] revalidates_iff [OF assms(2)] by blast+
  moreover have "rooted (me_graph x)"
    using r assms(3) mutating.keeps_nodes [OF assms(1)] revalidates_iff [OF assms(2)] by (auto simp: rooted_def)
  ultimately show ?thesis using mutating.keeps_valid [OF assms(2,1)] by (simp add: effect_json_def revalidates_iff)
qed

theorem mutation_stays_readable_witness:
  "\<exists>x s1. apply_mutation (demo_env ''m1'') (repair_a ''m1'') demo_plan demo_service = (s1, Inr x) \<and>
     parse_graph (effect_json x) = Inr (me_graph x)"
proof -
  have "map_sum id (\<lambda>_. ()) (snd (apply_mutation (demo_env ''m1'') (repair_a ''m1'') demo_plan demo_service)) = Inr ()"
    by code_simp
  from map_sum_InrD [OF this] obtain s1 x
    where x: "apply_mutation (demo_env ''m1'') (repair_a ''m1'') demo_plan demo_service = (s1, Inr x)"
    by (metis prod.collapse)
  have "parse_graph (Graph_json demo_plan) = Inr demo_plan"
  proof -
    have "revalidates demo_plan" by code_simp
    then show ?thesis by simp
  qed
  moreover have "graph_nodes demo_plan \<noteq> []" by (simp add: demo_plan_def)
  moreover have "\<forall>v n. se_node (demo_env ''m1'') v = Some n \<longrightarrow> new_task_node n = Inr n"
    by (auto simp: demo_env_def new_task_node_def default_node_def default_budget_def task_budget_valid_def split: pyval.splits)
  moreover have "mut_type (repair_a ''m1'') = Mut_REPAIR_TASK" by (simp add: repair_a_def plain_mutation_def)
  ultimately show ?thesis using mutation_stays_readable [OF x demo_plan_valid] x by auto
qed

text \<open>An update is not checked against its field: one negative priority commits and reports success, the stored plan can
  then not be read back, and every later mutation of the run raises and changes nothing, as does its registration.\<close>

theorem unchecked_update_ends_run:
  assumes "graph_of_run r s = Inr g" "get_node g tid = Some n" "find_mutation i s = None" "se_others e s = s"
    "m = plain_mutation i r Mut_UPDATE_TASK actor [(''task_id'', PyStr tid), (''changes'', PyDict [(''priority'', PyInt p)])] now"
    "se_int e (PyInt p) = Some p" "p < 0"
    "se_event_id e 100 \<notin> set (map te_event_id (log_events (sv_log s))) \<union> set (map ev_event_id (log_envelopes (sv_log s)))"
  shows "\<exists>s' v. apply_request e m s = (s', Inr v) \<and> tv_version v = graph_version g + 1 \<and>
    (\<forall>e' m'. mut_run_id m' = r \<longrightarrow> apply_request e' m' s' = (s', Inl Invalid_snapshot)) \<and>
    (\<forall>e' g' actor. registered r s \<longrightarrow> fst (register_initial_graph e' r g' actor s') = s' \<and>
       (\<exists>err. snd (register_initial_graph e' r g' actor s') = Inl err))"
proof -
  let ?g = "touch (se_clock e 0) (put_node tid (n\<lparr>node_priority := p\<rparr>) g)"
  let ?x = "\<lparr>me_graph = ?g, me_ill_typed = False, me_task = None, me_updates = []\<rparr>"
  from assms(1) obtain row where row: "map_of (sv_snapshots s) r = Some row" "parse_graph (sn_graph row) = Inr g"
    by (auto simp: graph_of_run_def split: option.splits)
  have a: "apply_mutation e m g s = (s, Inr ?x)"
    using assms(2,6) by (simp add: apply_mutation_def assms(5) plain_mutation_def update_effect_def payload_text_def
        requested_changes_def followed_def)
  let ?s1 = "s\<lparr>sv_snapshots := AList.update r \<lparr>sn_version = graph_version g + 1, sn_graph = Graph_json ?g\<rparr> (sv_snapshots s),
      sv_mutations := sv_mutations s @ [mutation_record m (graph_version g + 1)]\<rparr>"
  have m: "mut_id m = i" "mut_run_id m = r" "mut_expected_version m = None" "mut_type m = Mut_UPDATE_TASK"
    by (simp_all add: assms(5) plain_mutation_def)
  obtain lg where lg: "append_event e 100 r ''TaskGraphMutation'' (Some (mut_actor m)) (py_text (map_of (mut_payload m) ''task_id''))
      [(''mutation_id'', PyStr i), (''mutation_type'', PyStr (mutation_value Mut_UPDATE_TASK)),
       (''version'', PyInt (graph_version g + 1))] ?s1 = (?s1\<lparr>sv_log := lg\<rparr>, Inr ())"
    using assms(8) by (auto simp: append_event_def append_event_envelope_def Let_def)
  have body: "mutation_body e m s = (?s1\<lparr>sv_log := lg\<rparr>, Inr ?x)"
    using row a lg assms(3) by (simp add: mutation_body_def m followed_def check_version_def put_snapshot_def effect_json_def
        insert_mutation_def mutation_record_def find_mutation_def)
  let ?s' = "?s1\<lparr>sv_log := lg\<rparr>"
  have run: "apply_request e m s = (?s', Inr \<lparr>tv_run_id = r, tv_version = graph_version g + 1, tv_mutation_id = i, tv_graph = Graph_json ?g\<rparr>)"
    using assms(1,3,4) body by (simp add: apply_request_def m Let_def followed_def check_version_def in_transaction_def project_def effect_json_def)
  have "(tid, n\<lparr>node_priority := p\<rparr>) \<in> set (AList.update tid (n\<lparr>node_priority := p\<rparr>) (graph_nodes g))"
    by (rule map_of_SomeD) simp
  then have "\<not> revalidates ?g"
    using assms(7) by (force simp: revalidates_def list_all_iff new_task_node_def)
  then have bad: "graph_of_run r ?s' = Inl Invalid_snapshot" by (simp add: graph_of_run_def)
  have "registered r ?s'" if "registered r s" using that by (simp add: registered_def)
  then have reg: "fst (register_initial_graph e' r g' actor ?s') = ?s' \<and> (\<exists>err. snd (register_initial_graph e' r g' actor ?s') = Inl err)"
    if "registered r s" for e' g' actor
    using that bad by (auto simp: register_initial_graph_def register_again_def followed_def lift_def split: sum.splits)
  have "apply_request e' m' ?s' = (?s', Inl Invalid_snapshot)" if "mut_run_id m' = r" for e' m'
    using bad that by (simp add: apply_request_def Let_def followed_def split: option.splits)
  with run reg show ?thesis by (intro exI conjI) (assumption, auto)
qed

theorem unchecked_update_ends_run_witness:
  "\<exists>s' v. apply_request (demo_env ''m1'') (set_priority ''m1'' (- 1)) demo_service = (s', Inr v) \<and> tv_version v = 2 \<and>
     apply_request (demo_env ''m2'') (repair_a ''m2'') s' = (s', Inl Invalid_snapshot) \<and>
     fst (register_initial_graph (demo_env ''m3'') ''run'' demo_plan ''lead'' s') = s'"
proof -
  have "revalidates demo_plan" by code_simp
  then have g: "graph_of_run ''run'' demo_service = Inr demo_plan" by (simp add: graph_of_run_def demo_service_def service_of_def Let_def)
  have n: "get_node demo_plan ''b'' = Some ((default_node ''b'')\<lparr>node_dependencies := [''a'']\<rparr>)" by (simp add: demo_plan_def)
  have f: "find_mutation ''m1'' demo_service = None" by code_simp
  from unchecked_update_ends_run [OF g n f, of "demo_env ''m1''" "set_priority ''m1'' (- 1)" "''lead''" "- 1" 0]
  obtain s' v where "apply_request (demo_env ''m1'') (set_priority ''m1'' (- 1)) demo_service = (s', Inr v)"
    "tv_version v = graph_version demo_plan + 1"
    "\<forall>e' m'. mut_run_id m' = ''run'' \<longrightarrow> apply_request e' m' s' = (s', Inl Invalid_snapshot)"
    "registered ''run'' demo_service \<longrightarrow> fst (register_initial_graph (demo_env ''m3'') ''run'' demo_plan ''lead'' s') = s'"
    by (auto simp: demo_env_def set_priority_def demo_service_def service_of_def Let_def)
  moreover have "registered ''run'' demo_service" by code_simp
  moreover have "mut_run_id (repair_a i) = ''run''" for i by (simp add: repair_a_def plain_mutation_def)
  ultimately show ?thesis by (auto simp: demo_plan_def)
qed

end
