(* ===== verification/Plan_Replacement.thy ===== *)
theory Plan_Replacement
  imports Task_Service_Ends Task_Board_Runs
begin

text \<open>
  What \<open>_replace_plan\<close> of \<open>transactional_task_service.py\<close> leaves on the board: the tasks of the old plan are marked and
  no longer count, the tasks of the new one are pending under ids of their own; and when
  \<open>register_initial_graph\<close> takes that branch.
\<close>

section \<open>The board after the replacement\<close>

lemma board_adds_Inr:
  "board_adds e k ts s = (s', Inr u) \<Longrightarrow>
     board_tasks (sv_board s') = fold (\<lambda>t. AList.update (task_key_of t) t) ts (board_tasks (sv_board s)) \<and>
     sv_snapshots s' = sv_snapshots s \<and> sv_mutations s' = sv_mutations s"
proof (induction ts arbitrary: k s)
  case (Cons t ts)
  from Cons.prems obtain s1 where one: "board_add e k t s = (s1, Inr ())" and rest: "board_adds e (Suc k) ts s1 = (s', Inr u)"
    by (auto simp: followed_Inr)
  from one obtain b where b: "add (se_write e k) t (sv_board s) = (b, Inr t)" and s1: "s1 = s\<lparr>sv_board := b\<rparr>"
    by (auto simp: board_add_def add_def persist_def Let_def split: prod.splits sum.splits if_splits)
  have "board_tasks b = AList.update (task_key_of t) t (board_tasks (sv_board s))"
    using b by (auto simp: add_def persist_def Let_def split: if_splits)
  with Cons.IH [OF rest] show ?case by (simp add: s1)
qed simp

lemma fold_puts_other: "k \<notin> f ` set ts \<Longrightarrow> map_of (fold (\<lambda>t. AList.update (f t) t) ts d) k = map_of d k"
  by (induction ts arbitrary: d) auto

lemma fold_puts_in:
  "distinct (map f ts) \<Longrightarrow> t \<in> set ts \<Longrightarrow> map_of (fold (\<lambda>t. AList.update (f t) t) ts d) (f t) = Some t"
proof (induction ts arbitrary: d)
  case (Cons u ts)
  then show ?case by (cases "t = u") (auto simp: fold_puts_other)
qed simp

lemma inserted_fresh:
  "each_of insert_row ts s = (s', Inr u) \<Longrightarrow>
     distinct (map task_key_of ts) \<and> set (map task_key_of ts) \<inter> row_keys s = {}"
proof (induction ts arbitrary: s)
  case (Cons t ts)
  from Cons.prems obtain s1 where one: "insert_row t s = (s1, Inr ())" and rest: "each_of insert_row ts s1 = (s', Inr u)"
    by (auto simp: followed_Inr)
  from one have "task_key_of t \<notin> row_keys s" "row_keys s1 = insert (task_key_of t) (row_keys s)"
    by (auto simp: insert_row_def has_row_keys row_keys_on_rows split: if_splits) (auto simp: row_keys_def image_iff dest!: bspec)
  with Cons.IH [OF rest] show ?case by auto
qed simp

text \<open>The pending task of a node.\<close>

definition fresh_task_of :: "string \<Rightarrow> task_node \<Rightarrow> board_task \<Rightarrow> bool" where
  "fresh_task_of r n t \<longleftrightarrow> bt_task_id t = node_id n \<and> bt_run_id t = r \<and> bt_status t = Board_PENDING \<and>
     bt_title t = (if node_title n \<noteq> [] then node_title n else node_id n) \<and> bt_objective t = node_objective n \<and>
     bt_dependencies t = node_dependencies n \<and> bt_required_capabilities t = node_required_capabilities n \<and>
     bt_priority t = node_priority n \<and> bt_max_attempts t = node_max_attempts n \<and> bt_claimed_by t = None \<and> bt_attempts t = 0"

lemma plan_tasks_of:
  "n \<in> set ns \<Longrightarrow> \<exists>t \<in> set (plan_tasks e r d i ns). fresh_task_of r n t"
  "t \<in> set (plan_tasks e r d i ns) \<Longrightarrow> \<exists>n \<in> set ns. fresh_task_of r n t"
proof -
  have one: "fresh_task_of r n (task_of_node a b r d n)" for a b n
    by (simp add: task_of_node_def new_board_task_def fresh_task_of_def)
  show "n \<in> set ns \<Longrightarrow> \<exists>t \<in> set (plan_tasks e r d i ns). fresh_task_of r n t"
    by (induction ns arbitrary: i) (auto intro: one)
  show "t \<in> set (plan_tasks e r d i ns) \<Longrightarrow> \<exists>n \<in> set ns. fresh_task_of r n t"
    by (induction ns arbitrary: i) (auto intro: one)
qed

lemma superseded_fields [simp]: "task_key_of (superseded now v t) = task_key_of t" "bt_task_id (superseded now v t) = bt_task_id t"
  "bt_status (superseded now v t) = bt_status t" "bt_run_id (superseded now v t) = bt_run_id t"
  by (simp_all add: superseded_def task_key_of_def)

lemma superseded_settled: "v \<noteq> 0 \<Longrightarrow> task_settled (superseded now v t)"
  by (simp add: superseded_def task_settled_def dict_truthy_def)

text \<open>The transaction leaves the memory of the process alone.\<close>

definition memory :: "graph_service \<Rightarrow> task_table \<times> (string \<times> task_key list) list \<times> bool" where
  "memory s = (board_tasks (sv_board s), board_by_run (sv_board s), board_persist (sv_board s))"

definition storing :: "'a service \<Rightarrow> bool" where
  "storing f \<longleftrightarrow> (\<forall>s. memory (fst (f s)) = memory s \<and>
     (table_ok (board_rows (sv_board s)) \<longrightarrow> table_ok (board_rows (sv_board (fst (f s))))))"

named_theorems storing_intros \<open>steps on the tables only\<close>

lemma storing_D: "storing f \<Longrightarrow> f s = (s', r) \<Longrightarrow> memory s' = memory s \<and>
    (table_ok (board_rows (sv_board s)) \<longrightarrow> table_ok (board_rows (sv_board s')))"
  unfolding storing_def by (metis fst_conv)

lemma storing_followed [storing_intros]: "storing f \<Longrightarrow> (\<And>x. storing (k x)) \<Longrightarrow> storing (followed f k)"
  unfolding storing_def followed_def by (auto split: prod.splits sum.splits) (metis fst_conv)+

lemma storing_logging: "logging f \<Longrightarrow> storing f"
  by (simp add: logging_def storing_def logs_only_def memory_def)

lemma table_ok_snoc: "table_ok ts \<Longrightarrow> task_key_of t \<notin> set (map fst ts) \<Longrightarrow> table_ok (ts @ [(task_key_of t, t)])"
  by (auto simp: table_ok_def)

lemma storing_steps [storing_intros]: "storing (ok x)" "storing (update_row t)" "storing (insert_row t)"
  "storing (put_snapshot r v j)" "storing (insert_mutation m)"
  by (auto simp: storing_def memory_def update_row_def insert_row_def put_snapshot_def insert_mutation_def on_rows_def
      has_row_def table_ok_update table_ok_snoc simp del: set_map split: option.splits)

lemma storing_each [storing_intros]: "(\<And>x. storing (f x)) \<Longrightarrow> storing (each_of f xs)"
  by (induction xs) (auto intro!: storing_intros)

lemma storing_event [storing_intros]: "storing (append_event e k r kind agent tid payload)"
  by (rule storing_logging [OF logging_append_event])

lemma replacement_storing: "storing (replacement_body e r actor v g old new)"
  unfolding replacement_body_def Let_def by (intro storing_intros)

lemma replacement_fresh:
  assumes "replacement_body e r actor v g old new s = (s', Inr u)"
  shows "distinct (map task_key_of new) \<and> set (map task_key_of new) \<inter> row_keys s = {}"
proof -
  obtain s1 s2 where old: "each_of update_row old s = (s1, Inr ())" and new: "each_of insert_row new s1 = (s2, Inr ())"
    using assms by (auto simp: replacement_body_def Let_def followed_Inr)
  have "row_keys s \<subseteq> row_keys s1"
    using boarding_D [OF boarding_each old] boarding_rows(3) by (auto simp: board_only_def)
  with inserted_fresh [OF new] show ?thesis by auto
qed

lemma replacement_tables:
  assumes "replacement_body e r actor v g old new s = (s', Inr u)"
  shows "map_of (sv_snapshots s') r = Some \<lparr>sn_version = graph_version g, sn_graph = Graph_json g\<rparr>"
proof -
  obtain s1 s2 s3 s4 row p where a: "put_snapshot r (graph_version g) (Graph_json g) s2 = (s3, Inr ())"
    and i: "insert_mutation row s3 = (s4, Inr ())"
    and ev: "append_event e 3 r ''TaskGraphReplanned'' (Some actor) None p s4 = (s', Inr ())"
    using assms by (auto simp: replacement_body_def Let_def followed_Inr)
  from i have "sv_snapshots s4 = sv_snapshots s3" by (auto simp: insert_mutation_def split: option.splits)
  with a append_event_Inr(2) [OF ev] show ?thesis by (auto simp: put_snapshot_def)
qed

text \<open>The board of the run when the transaction began: every row is in the table, and no new task has the key of one.\<close>

lemma old_key:
  assumes "wf_board b" "t \<in> set (list_by_run r b)"
  shows "map_of (board_tasks b) (r, bt_task_id t) = Some t \<and> bt_run_id t = r"
proof -
  have t: "map_of (board_tasks b) (r, bt_task_id t) = Some t"
    using assms by (simp add: list_by_run_def in_raw_list_by_run [OF assms(1)])
  with wf_board_task [OF assms(1) t] show ?thesis by simp
qed

lemma old_rows_present:
  assumes "wf_board (sv_board s)" "board_persist (sv_board s)" "synced (sv_board s)" "t \<in> set (list_by_run r (sv_board s))"
  shows "task_key_of t \<in> row_keys s"
proof -
  from old_key [OF assms(1,4)] assms(2,3) have "map_of (board_rows (sv_board s)) (task_key_of t) = Some t"
    by (simp add: synced_def task_key_of_def)
  then show ?thesis using map_of_in_keys [of "board_rows (sv_board s)" "task_key_of t" t] by (simp add: row_keys_def del: set_map)
qed

text \<open>The nodes of the revised plan are those of the incoming one, renamed and reset.\<close>

definition renamed_node :: "int \<Rightarrow> (string \<Rightarrow> string) \<Rightarrow> string \<times> task_node \<Rightarrow> string \<times> task_node \<Rightarrow> bool" where
  "renamed_node revision new p q \<longleftrightarrow> fst q = new (fst p) \<and> (\<exists>md. snd q = (revised_node revision new (fst p) (snd p))\<lparr>node_metadata := md\<rparr>)"

lemma update_snoc: "k \<notin> set (map fst d) \<Longrightarrow> AList.update k v d = d @ [(k, v)]"
  by (induction d) auto

lemma revised_nodes_eq:
  "revise_nodes e r actor revn new i ns acc s = (s', Inr nodes) \<Longrightarrow> distinct (map (new \<circ> fst) ns) \<Longrightarrow>
    set (map (new \<circ> fst) ns) \<inter> set (map fst acc) = {} \<Longrightarrow>
    \<exists>rest. nodes = acc @ rest \<and> list_all2 (renamed_node revn new) ns rest"
proof (induction ns arbitrary: i acc s)
  case (Cons p ns)
  obtain k n where p: "p = (k, n)" by force
  let ?n = "revised_node revn new k n"
  from Cons.prems(1) obtain s1 n' where
    g: "gated_node e (100 * i) r (creation_context r actor ?n @ [(''plan_revision'', PyInt revn)]) ''TaskCreated hook blocked revised plan'' ?n s = (s1, Inr n')"
    and rest: "revise_nodes e r actor revn new (Suc i) ns (AList.update (node_id n') n' acc) s1 = (s', Inr nodes)"
    by (auto simp: p Let_def followed_Inr)
  from gated_node_Inr [OF g] obtain md where n': "n' = ?n\<lparr>node_metadata := md\<rparr>" by blast
  then have id: "node_id n' = new k" by (simp add: revised_node_def)
  have acc: "AList.update (node_id n') n' acc = acc @ [(new k, n')]"
    unfolding id using Cons.prems(3) by (intro update_snoc) (auto simp: p)
  obtain more where "nodes = (acc @ [(new k, n')]) @ more" "list_all2 (renamed_node revn new) ns more"
    using Cons.IH [OF rest] Cons.prems(2,3) unfolding acc by (auto simp: p)
  moreover have "renamed_node revn new p (new k, n')" using n' by (auto simp: p renamed_node_def)
  ultimately show ?case by (intro exI [of _ "(new k, n') # more"]) simp
qed simp

lemma renamed_keys: "list_all2 (renamed_node revn new) ns nodes \<Longrightarrow> map fst nodes = map (new \<circ> fst) ns"
  by (induction rule: list_all2_induct) (auto simp: renamed_node_def)

lemma renamed_in: "list_all2 (renamed_node revn new) ns nodes \<Longrightarrow> p \<in> set ns \<Longrightarrow> \<exists>q \<in> set nodes. renamed_node revn new p q"
  by (auto simp: list_all2_conv_all_nth in_set_conv_nth) (metis nth_mem)

lemma replacement_transaction:
  assumes "replace_plan e r incoming actor s = (s', Inr v)" "graph_of_run r s = Inr current"
    "distinct (map (revised_id (max (graph_version current + 1) (graph_version incoming)) (map bt_task_id (list_by_run r (sv_board s)))) (node_ids incoming))"
  obtains revised u s3 d where "logs_only s u" "graph_version revised = max (graph_version current + 1) (graph_version incoming)" "valid_graph revised"
    "graph_root revised = revised_id (graph_version revised) (map bt_task_id (list_by_run r (sv_board s))) (graph_root incoming)"
    "list_all2 (renamed_node (graph_version revised) (revised_id (graph_version revised) (map bt_task_id (list_by_run r (sv_board s)))))
       (graph_nodes incoming) (graph_nodes revised)" "tv_graph v = Graph_json revised"
    "replacement_body e r actor (graph_version current) revised
       (map (superseded (se_clock e 4) (graph_version revised)) (list_by_run r (sv_board s)))
       (plan_tasks e r d 1 (map snd (graph_nodes revised))) (se_others e u) = (s3, Inr ())"
    "board_adds e 0 (map (superseded (se_clock e 4) (graph_version revised)) (list_by_run r (sv_board s)) @
       plan_tasks e r d 1 (map snd (graph_nodes revised))) s3 = (s', Inr ())"
proof -
  let ?old = "list_by_run r (sv_board s)"
  let ?revn = "max (graph_version current + 1) (graph_version incoming)"
  let ?new = "revised_id ?revn (map bt_task_id ?old)"
  from assms(1,2) obtain s1 nodes revised s2 where
    nodes: "revise_nodes e r actor ?revn ?new 1 (graph_nodes incoming) [] s = (s1, Inr nodes)"
    and revised: "revised_graph e ?revn ?new incoming nodes s1 = (s2, Inr revised)"
    and com: "commit_revision e r actor (graph_version current) ?old revised s2 = (s', Inr v)"
    by (auto simp: replace_plan_def replace_current_def Let_def followed_Inr)
  note rv = revised_graph_Inr [OF revised]
  have "list_all2 (renamed_node ?revn ?new) (graph_nodes incoming) nodes" using revised_nodes_eq [OF nodes] assms(3) by auto
  then have all: "list_all2 (renamed_node (graph_version revised) (revised_id (graph_version revised) (map bt_task_id ?old)))
      (graph_nodes incoming) (graph_nodes revised)" by (simp only: rv)
  let ?sup = "map (superseded (se_clock e 4) ?revn) ?old"
  let ?tasks = "plan_tasks e r [(''graph_version'', PyInt ?revn), (''plan_revision'', PyInt ?revn)] 1 (map snd (graph_nodes revised))"
  obtain s3 where "replacement_body e r actor (graph_version current) revised ?sup ?tasks (se_others e s1) = (s3, Inr ())"
    "board_adds e 0 (?sup @ ?tasks) s3 = (s', Inr ())" "tv_graph v = Graph_json revised"
    using com by (auto simp: commit_revision_def Let_def followed_Inr rv in_transaction_def split: prod.splits sum.splits)
  moreover have "logs_only s s1" using logging_D [OF revise_nodes_logging nodes] .
  ultimately show thesis using that [OF _ rv(3) revised_valid [OF nodes revised]] all rv(3,4) by metis
qed

text \<open>The memory of the process after the rows were written and the tasks added: \<open>t\<close> stands for the state when the lock was
  taken.\<close>

lemma replaced_tasks:
  assumes body: "replacement_body e r actor v revised (map (superseded now revn) old) tasks t = (s3, Inr ())"
    and adds: "board_adds e 0 (map (superseded now revn) old @ tasks) s3 = (s', Inr ())"
    and old: "distinct (map task_key_of old)" "\<forall>x \<in> set old. task_key_of x \<in> row_keys t"
  shows "x \<in> set tasks \<Longrightarrow> map_of (board_tasks (sv_board s')) (task_key_of x) = Some x \<and> task_key_of x \<notin> task_key_of ` set old"
    "x \<in> set old \<Longrightarrow> map_of (board_tasks (sv_board s')) (task_key_of x) = Some (superseded now revn x)"
    "k \<notin> task_key_of ` set old \<Longrightarrow> k \<notin> task_key_of ` set tasks \<Longrightarrow>
      map_of (board_tasks (sv_board s')) k = map_of (board_tasks (sv_board t)) k"
proof -
  have mem: "board_tasks (sv_board s3) = board_tasks (sv_board t)"
    using storing_D [OF replacement_storing body] by (simp add: memory_def)
  have after: "board_tasks (sv_board s') =
      fold (\<lambda>t. AList.update (task_key_of t) t) (map (superseded now revn) old @ tasks) (board_tasks (sv_board t))"
    using conjunct1 [OF board_adds_Inr [OF adds]] by (simp only: mem)
  note fresh = replacement_fresh [OF body]
  have apart: "task_key_of x \<notin> task_key_of ` set old" if "x \<in> set tasks" for x
  proof
    assume "task_key_of x \<in> task_key_of ` set old"
    then have "task_key_of x \<in> row_keys t" using old(2) by auto
    with fresh that show False by auto
  qed
  have dist: "distinct (map task_key_of (map (superseded now revn) old @ tasks))" using old(1) fresh apart by (auto simp: comp_def) (metis image_eqI)
  note lookup = fold_puts_in [OF dist, of _ "board_tasks (sv_board t)", folded after]
  show "map_of (board_tasks (sv_board s')) (task_key_of x) = Some x \<and> task_key_of x \<notin> task_key_of ` set old" if "x \<in> set tasks"
    using lookup [of x] apart [OF that] that by simp
  show "map_of (board_tasks (sv_board s')) (task_key_of x) = Some (superseded now revn x)" if "x \<in> set old"
    using lookup [of "superseded now revn x"] that by simp
  show "map_of (board_tasks (sv_board s')) k = map_of (board_tasks (sv_board t)) k"
    if "k \<notin> task_key_of ` set old" "k \<notin> task_key_of ` set tasks"
    unfolding after by (rule fold_puts_other) (use that in auto)
qed

lemma listed_distinct: "wf_board b \<Longrightarrow> distinct (map task_key_of (list_by_run r b))"
proof -
  assume b: "wf_board b"
  have "map task_key_of (list_by_run r b) = map (Pair r) (map bt_task_id (list_by_run r b))"
    using old_key [OF b] by (auto simp: task_key_of_def)
  then show ?thesis
    using b by (simp add: list_by_run_def raw_list_ids [OF b] run_keys_pairs [OF b] wf_board_def del: map_map)
qed

text \<open>C23: A plan that replaces another takes over the run, whatever others commit before its transaction. The plan that is
  stored and answered is valid and has exactly the nodes of the incoming plan, in order, each under its own id or, where the
  board has a task of that id, under \<open>plan_v<revision>__<id>\<close>, with the dependencies renamed, the runtime state reset and
  everything else but the metadata kept; its version is above the current one. The board then holds for each of them a
  pending task of the run, where the old plan had none; each task of the old plan, as it was when it was read, marked with
  the revision and so counting as settled; and every other task as those others left it: a task that somebody creates in
  between stays live. Two conditions: ids are not renamed to the same one, and nobody deletes rows of the board.\<close>

theorem replaced_plan_takes_over:
  assumes "replace_plan e r incoming actor s = (s', Inr v)" "graph_of_run r s = Inr current" "0 \<le> graph_version current"
    "wf_board (sv_board s)" "board_persist (sv_board s)" "synced (sv_board s)" "\<forall>u. row_keys u \<subseteq> row_keys (se_others e u)"
    "revn = max (graph_version current + 1) (graph_version incoming)" "old = list_by_run r (sv_board s)"
    "new = (\<lambda>i. if i \<in> bt_task_id ` set old then ''plan_v'' @ str_int revn @ ''__'' @ i else i)"
    "distinct (map new (node_ids incoming))"
  shows "\<exists>revised u. tv_graph v = Graph_json revised \<and> valid_graph revised \<and> graph_version revised = revn \<and>
    map_of (sv_snapshots s') r = Some \<lparr>sn_version = revn, sn_graph = Graph_json revised\<rparr> \<and>
    graph_root revised = new (graph_root incoming) \<and>
    list_all2 (\<lambda>(i, n) (j, m). j = new i \<and> (\<exists>md. m = n\<lparr>node_id := new i, node_dependencies := map new (node_dependencies n),
        node_status := Node_PENDING, node_assigned_agent_id := None, node_input_artifact_ids := [], node_output_artifact_ids := [],
        node_attempts := 0, node_error := None, node_started_at := None, node_completed_at := None, node_metadata := md\<rparr>))
      (graph_nodes incoming) (graph_nodes revised) \<and>
    (\<forall>n \<in> snd ` set (graph_nodes revised). (r, node_id n) \<notin> task_key_of ` set old \<and>
       (\<exists>t. map_of (board_tasks (sv_board s')) (r, node_id n) = Some t \<and> fresh_task_of r n t)) \<and>
    (\<forall>t \<in> set old. \<exists>t'. map_of (board_tasks (sv_board s')) (task_key_of t) = Some t' \<and> task_settled t' \<and>
       t' = t\<lparr>bt_metadata := AList.update ''superseded_by_plan_revision'' (PyInt revn) (bt_metadata t), bt_updated_at := se_clock e 4\<rparr>) \<and>
    logs_only s u \<and> (\<forall>k. k \<notin> task_key_of ` set old \<and> k \<notin> Pair r ` set (node_ids revised) \<longrightarrow>
       map_of (board_tasks (sv_board s')) k = map_of (board_tasks (sv_board (se_others e u))) k)"
proof -
  have new: "new = revised_id revn (map bt_task_id old)" by (auto simp: assms(10) revised_id_def fun_eq_iff)
  from replacement_transaction [OF assms(1,2)] assms(11) obtain revised u s3 d where
    u: "logs_only s u" and revn: "graph_version revised = revn" and valid: "valid_graph revised"
    and top: "graph_root revised = new (graph_root incoming)"
    and all: "list_all2 (renamed_node revn new) (graph_nodes incoming) (graph_nodes revised)" and v: "tv_graph v = Graph_json revised"
    and body: "replacement_body e r actor (graph_version current) revised (map (superseded (se_clock e 4) revn) old)
       (plan_tasks e r d 1 (map snd (graph_nodes revised))) (se_others e u) = (s3, Inr ())"
    and adds: "board_adds e 0 (map (superseded (se_clock e 4) revn) old @
       plan_tasks e r d 1 (map snd (graph_nodes revised))) s3 = (s', Inr ())"
    unfolding new assms(8,9) by metis
  have "\<forall>x \<in> set old. task_key_of x \<in> row_keys (se_others e u)"
  proof
    fix x assume "x \<in> set old"
    then have "task_key_of x \<in> row_keys s" using old_rows_present [OF assms(4-6)] assms(9) by blast
    moreover have "row_keys u = row_keys s" using u by (simp add: logs_only_def row_keys_def)
    ultimately show "task_key_of x \<in> row_keys (se_others e u)" using assms(7) by blast
  qed
  note after = replaced_tasks [OF body adds listed_distinct [OF assms(4), of r, folded assms(9)] this]
  have nodes: "list_all2 (\<lambda>(i, n) (j, m). j = new i \<and> (\<exists>md. m = n\<lparr>node_id := new i, node_dependencies := map new (node_dependencies n),
        node_status := Node_PENDING, node_assigned_agent_id := None, node_input_artifact_ids := [], node_output_artifact_ids := [],
        node_attempts := 0, node_error := None, node_started_at := None, node_completed_at := None, node_metadata := md\<rparr>))
      (graph_nodes incoming) (graph_nodes revised)"
    using all by (rule list_all2_mono) (auto simp: renamed_node_def revised_node_def)
  have key: "task_key_of t = (r, node_id n)" if "fresh_task_of r n t" for n t using that by (simp add: fresh_task_of_def task_key_of_def)
  have tasks: "(r, node_id n) \<notin> task_key_of ` set old \<and> (\<exists>t. map_of (board_tasks (sv_board s')) (r, node_id n) = Some t \<and> fresh_task_of r n t)"
    if "n \<in> snd ` set (graph_nodes revised)" for n
  proof -
    obtain t where "t \<in> set (plan_tasks e r d 1 (map snd (graph_nodes revised)))" "fresh_task_of r n t"
      using plan_tasks_of(1) [of n "map snd (graph_nodes revised)" e r d 1] \<open>n \<in> _\<close> by auto
    with after(1) [of t] key [of n t] show ?thesis by auto
  qed
  have settled: "task_settled (superseded (se_clock e 4) revn t)" for t using assms(3,8) by (intro superseded_settled) simp
  have others: "map_of (board_tasks (sv_board s')) k = map_of (board_tasks (sv_board (se_others e u))) k"
    if "k \<notin> task_key_of ` set old" "k \<notin> Pair r ` set (node_ids revised)" for k
  proof (rule after(3) [OF that(1)])
    show "k \<notin> task_key_of ` set (plan_tasks e r d 1 (map snd (graph_nodes revised)))"
    proof
      assume "k \<in> task_key_of ` set (plan_tasks e r d 1 (map snd (graph_nodes revised)))"
      then obtain t n where "k = task_key_of t" "n \<in> snd ` set (graph_nodes revised)" "fresh_task_of r n t"
        using plan_tasks_of(2) by force
      moreover from this have "node_id n \<in> set (node_ids revised)" using valid by (force simp: valid_graph_def wf_graph_def)
      ultimately show False using that(2) key by auto
    qed
  qed
  have "sv_snapshots s' = sv_snapshots s3" using board_adds_Inr [OF adds] by blast
  with replacement_tables [OF body] revn
  have "map_of (sv_snapshots s') r = Some \<lparr>sn_version = revn, sn_graph = Graph_json revised\<rparr>" by simp
  moreover have "\<forall>t \<in> set old. \<exists>t'. map_of (board_tasks (sv_board s')) (task_key_of t) = Some t' \<and> task_settled t' \<and>
       t' = t\<lparr>bt_metadata := AList.update ''superseded_by_plan_revision'' (PyInt revn) (bt_metadata t), bt_updated_at := se_clock e 4\<rparr>"
    using after(2) settled by (simp add: superseded_def)
  ultimately show ?thesis using v valid revn top nodes tasks u others by blast
qed

text \<open>Somebody creates the task \<open>c\<close> while the replacement waits for the lock.\<close>

definition late_task :: board_task where
  "late_task = task_of_node 0 0 [] [] (default_node ''c'')"

definition late_env :: service_env where
  "late_env = (demo_env ''m1'')\<lparr>se_others := (\<lambda>u. u\<lparr>sv_board := (sv_board u)
     \<lparr>board_tasks := AList.update ([], ''c'') late_task (board_tasks (sv_board u)),
      board_rows := AList.update ([], ''c'') late_task (board_rows (sv_board u))\<rparr>\<rparr>)\<rparr>"

definition demo_revision :: task_graph where
  "demo_revision = \<lparr>graph_root = ''a'', graph_nodes = [(''a'', (default_node ''a'')\<lparr>node_objective := ''again''\<rparr>),
     (''z'', (default_node ''z'')\<lparr>node_dependencies := [''a'']\<rparr>)], graph_version = 1, graph_created_at = 0, graph_updated_at = 0\<rparr>"

lemma service_board_ok: "wf_board (sv_board (service_of r))" "synced (sv_board (service_of r))" "board_persist (sv_board (service_of r))"
  by (auto simp: service_of_def demo_plan_def demo_task_def task_of_node_def new_board_task_def default_node_def wf_board_def
      table_ok_def run_keys_def task_key_of_def synced_def Let_def split: if_splits)

definition demo_replaced :: "graph_service \<times> (service_error + graph_version_result)" where
  "demo_replaced = replace_plan late_env [] demo_revision ''lead'' (service_of [])"

lemma demo_replaced_result: "\<exists>v. demo_replaced = (fst demo_replaced, Inr v)"
proof -
  have "map_sum id (\<lambda>_. ()) (snd demo_replaced) = Inr ()" by code_simp
  from map_sum_InrD [OF this] show ?thesis by (metis prod.collapse)
qed

lemma late_rows: "\<forall>u. row_keys u \<subseteq> row_keys (se_others late_env u)"
  "map_of (board_tasks (sv_board (se_others late_env u))) ([], ''c'') = Some late_task"
  by (auto simp: late_env_def row_keys_def set_keys_update update_conv simp del: set_map)

theorem replaced_plan_takes_over_witness:
  "\<exists>s' v revised. replace_plan late_env [] demo_revision ''lead'' (service_of []) = (s', Inr v) \<and>
     tv_graph v = Graph_json revised \<and> node_ids revised = [''plan_v2__a'', ''z''] \<and>
     map_of (board_tasks (sv_board s')) ([], ''c'') = Some late_task \<and>
     (\<exists>t. map_of (board_tasks (sv_board s')) ([], ''a'') = Some t \<and> task_settled t)"
proof -
  from demo_replaced_result obtain v where "demo_replaced = (fst demo_replaced, Inr v)" by blast
  then have run: "replace_plan late_env [] demo_revision ''lead'' (service_of []) = (fst demo_replaced, Inr v)"
    by (simp add: demo_replaced_def [symmetric])
  have "revalidates demo_plan" by code_simp
  then have g: "graph_of_run [] (service_of []) = Inr demo_plan" by (simp add: graph_of_run_def service_of_def Let_def)
  have ver: "0 \<le> graph_version demo_plan" by (simp add: demo_plan_def)
  have revn: "2 = max (graph_version demo_plan + 1) (graph_version demo_revision)"
    by (simp add: demo_plan_def demo_revision_def)
  let ?old = "list_by_run [] (sv_board (service_of []))"
  let ?new = "\<lambda>i. if i \<in> bt_task_id ` set ?old then ''plan_v'' @ str_int 2 @ ''__'' @ i else i"
  have two: "str_int 2 = ''2''" by code_simp
  have "map bt_task_id ?old = [''a'', ''b'']" by code_simp
  then have ids: "bt_task_id ` set ?old = {''a'', ''b''}" by (metis list.set(1,2) list.set_map)
  have names: "map ?new (node_ids demo_revision) = [''plan_v2__a'', ''z'']"
    by (simp add: ids two demo_revision_def)
  have dist: "distinct (map ?new (node_ids demo_revision))" unfolding names by simp
  obtain revised u where r: "tv_graph v = Graph_json revised" "valid_graph revised"
    and all: "list_all2 (\<lambda>(i, n) (j, m). j = ?new i \<and> (\<exists>md. m = n\<lparr>node_id := ?new i, node_dependencies := map ?new (node_dependencies n),
        node_status := Node_PENDING, node_assigned_agent_id := None, node_input_artifact_ids := [], node_output_artifact_ids := [],
        node_attempts := 0, node_error := None, node_started_at := None, node_completed_at := None, node_metadata := md\<rparr>))
      (graph_nodes demo_revision) (graph_nodes revised)"
    and settled: "\<forall>t \<in> set ?old. \<exists>t'. map_of (board_tasks (sv_board (fst demo_replaced))) (task_key_of t) = Some t' \<and> task_settled t' \<and>
       t' = t\<lparr>bt_metadata := AList.update ''superseded_by_plan_revision'' (PyInt 2) (bt_metadata t), bt_updated_at := se_clock late_env 4\<rparr>"
    and others: "\<forall>k. k \<notin> task_key_of ` set ?old \<and> k \<notin> Pair [] ` set (node_ids revised) \<longrightarrow>
       map_of (board_tasks (sv_board (fst demo_replaced))) k = map_of (board_tasks (sv_board (se_others late_env u))) k"
    using replaced_plan_takes_over [OF run g ver service_board_ok(1,3,2) late_rows(1) revn refl refl dist] by blast
  have new_ids: "node_ids revised = [''plan_v2__a'', ''z'']"
    using all by (auto simp: demo_revision_def ids two list_all2_Cons1)
  have keys: "map task_key_of ?old = [([], ''a''), ([], ''b'')]" by code_simp
  then have old_keys: "task_key_of ` set ?old = {([], ''a''), ([], ''b'')}" by (metis list.set(1,2) list.set_map)
  have c: "map_of (board_tasks (sv_board (fst demo_replaced))) ([], ''c'') = Some late_task"
    using others late_rows(2) by (simp add: old_keys new_ids)
  from old_keys obtain t where "t \<in> set ?old" "task_key_of t = ([], ''a'')" by (metis imageE insertI1)
  with settled have "\<exists>t. map_of (board_tasks (sv_board (fst demo_replaced))) ([], ''a'') = Some t \<and> task_settled t" by fastforce
  with run r(1) new_ids c show ?thesis by metis
qed

text \<open>A repeated registration of the same plan returns the stored graph and writes no table; any structural change since then
  (a created task, a repair, an update of a title) makes it replace the plan.\<close>

lemma registered_again:
  assumes "registered r s" "graph_of_run r s = Inr current" "validate g = Inr ()"
  shows "plan_signature current = plan_signature g \<Longrightarrow>
      register_initial_graph e r g actor s = (s\<lparr>sv_board := fst (restore_run r (sv_board s))\<rparr>, Inr (initial_version r current))"
    "plan_signature current \<noteq> plan_signature g \<Longrightarrow> register_initial_graph e r g actor s = replace_plan e r g actor s"
  using assms by (simp_all add: register_initial_graph_def register_again_def followed_def lift_def restore_board_def)

text \<open>A dependency that repairs: a target whose row on the board lags behind the graph is updated twice, and the second
  update, made from the task as it was, carries no \<open>superseded_by_repair\<close>.\<close>

lemma lagging_target_loses_mark:
  assumes "Task_Board.get target (Some r) b = Some t" "bt_dependencies t \<noteq> node_dependencies n" "node_id n = target" "rid \<noteq> target"
    "n \<in> set (map snd (graph_nodes g))" "map_of (bt_metadata t) ''superseded_by_repair'' = None"
  shows "\<exists>u \<in> set (tl (repair_updates now r target rid g b)). bt_task_id u = bt_task_id t \<and>
    map_of (bt_metadata u) ''superseded_by_repair'' = None"
proof -
  let ?u = "t\<lparr>bt_dependencies := node_dependencies n, bt_updated_at := now\<rparr>"
  have "rewired_task now r rid b n = Some ?u" using assms(1-4) by (simp add: rewired_task_def)
  then have "?u \<in> set (List.map_filter (rewired_task now r rid b) (map snd (graph_nodes g)))"
    using assms(5) by (auto simp: in_map_filter)
  then show ?thesis using assms(1,6) by (intro bexI [of _ ?u]) (simp_all add: repair_updates_def)
qed

end
