(* ===== verification/Supervisor.thy ===== *)
theory Supervisor
  imports Task_Graph
begin

text \<open>
  \<open>app/runtime/supervisor/agent.py\<close>: the choice between a single agent and a team. Explicit modes are
  authoritative; in automatic mode the answer of the model (an argument) has its capabilities sanitised, and its
  failure falls back to a heuristic. Texts are their UTF-8 bytes.
\<close>

datatype run_mode = Mode_AUTO | Mode_SINGLE | Mode_TEAM

text \<open>\<open>RunMode(value)\<close>; \<open>None\<close> is the ValueError.\<close>

definition parse_mode :: "string \<Rightarrow> run_mode option" where
  "parse_mode s = (if s = ''auto'' then Some Mode_AUTO else if s = ''single'' then Some Mode_SINGLE
     else if s = ''team'' then Some Mode_TEAM else None)"

record supervisor_decision =
  sd_action :: string
  sd_selected_mode :: string
  sd_task_ids :: "string list"
  sd_required_capabilities :: "string list"
  sd_reason_summary :: string
  sd_payload :: pydict

section \<open>Capabilities\<close>

definition KNOWN_PRIMARY_CAPS :: "string list" where
  "KNOWN_PRIMARY_CAPS =
     [''planning'', ''research'', ''coding'', ''testing'', ''reviewing'', ''summarization'']"

definition KNOWN_CAPS :: "string list" where
  "KNOWN_CAPS = KNOWN_PRIMARY_CAPS @
     [''file_read'', ''file_write'', ''shell_execute'', ''web_research'', ''mcp_access'', ''default'']"

definition CAP_SYNONYMS :: "(string \<times> string) list" where
  "CAP_SYNONYMS =
     [(''api_interaction'', ''coding''), (''api'', ''coding''), (''frontend'', ''coding''), (''backend'', ''coding''),
      (''fullstack'', ''coding''), (''full_stack'', ''coding''), (''implementation'', ''coding''), (''implement'', ''coding''),
      (''develop'', ''coding''), (''development'', ''coding''), (''design'', ''planning''), (''architecture'', ''planning''),
      (''architect'', ''planning''), (''deploy'', ''coding''), (''deployment'', ''coding''), (''devops'', ''coding''),
      (''debug'', ''testing''), (''debugging'', ''testing''), (''qa'', ''testing''), (''document'', ''summarization''),
      (''documentation'', ''summarization''), (''writing'', ''summarization'')]"

text \<open>The loop over what the model returned.\<close>

fun sanitize_loop :: "string list \<Rightarrow> string list \<Rightarrow> string list" where
  "sanitize_loop [] acc = acc"
| "sanitize_loop (cap # caps) acc =
     (let c = strip (lower cap) in
      sanitize_loop caps
        (if c \<in> set KNOWN_CAPS then acc @ [c]
         else case map_of CAP_SYNONYMS c of
                None \<Rightarrow> acc
              | Some mapped \<Rightarrow> if mapped \<in> set acc then acc else acc @ [mapped]))"

text \<open>The order-preserving removal of duplicates: the first occurrence stays.\<close>

fun first_occurrences :: "string list \<Rightarrow> string list \<Rightarrow> string list" where
  "first_occurrences seen [] = []"
| "first_occurrences seen (c # cs) =
     (if c \<in> set seen then first_occurrences seen cs else c # first_occurrences (c # seen) cs)"

definition sanitize_capabilities :: "string list \<Rightarrow> string list" where
  "sanitize_capabilities caps =
     (if caps = [] then [''coding'']
      else let s = sanitize_loop caps [];
               s' = (if list_ex (\<lambda>c. c \<in> set KNOWN_PRIMARY_CAPS) s then s else ''coding'' # s)
           in first_occurrences [] s')"

section \<open>The decision\<close>

definition TEAM_SIGNALS :: "string list" where
  "TEAM_SIGNALS =
     [''refactor'', [CHR 0xE6, CHR 0x9E, CHR 0xB6, CHR 0xE6, CHR 0x9E, CHR 0x84],
      [CHR 0xE9, CHR 0x87, CHR 0x8D, CHR 0xE6, CHR 0x9E, CHR 0x84], ''repository'',
      [CHR 0xE4, CHR 0xBB, CHR 0x93, CHR 0xE5, CHR 0xBA, CHR 0x93], ''test'',
      [CHR 0xE6, CHR 0xB5, CHR 0x8B, CHR 0xE8, CHR 0xAF, CHR 0x95], ''review'',
      [CHR 0xE8, CHR 0xAF, CHR 0x84, CHR 0xE5, CHR 0xAE, CHR 0xA1], ''deploy'',
      [CHR 0xE9, CHR 0x83, CHR 0xA8, CHR 0xE7, CHR 0xBD, CHR 0xB2], ''research'',
      [CHR 0xE8, CHR 0xB0, CHR 0x83, CHR 0xE7, CHR 0xA0, CHR 0x94],
      [CHR 0xE5, CHR 0x89, CHR 0x8D, CHR 0xE5, CHR 0x90, CHR 0x8E, CHR 0xE7, CHR 0xAB, CHR 0xAF], ''fullstack'',
      ''full stack'', [CHR 0xE9, CHR 0xA1, CHR 0xB9, CHR 0xE7, CHR 0x9B, CHR 0xAE]]"

definition heuristic_mode :: "string \<Rightarrow> string" where
  "heuristic_mode goal =
     (if code_points goal > 500 \<or> length (filter (\<lambda>s. contains s (lower goal)) TEAM_SIGNALS) \<ge> 2
      then ''team'' else ''single'')"

definition CODE_WORDS :: "string list" where
  "CODE_WORDS =
     [''code'', [CHR 0xE4, CHR 0xBB, CHR 0xA3, CHR 0xE7, CHR 0xA0, CHR 0x81],
      [CHR 0xE5, CHR 0xAE, CHR 0x9E, CHR 0xE7, CHR 0x8E, CHR 0xB0],
      [CHR 0xE4, CHR 0xBF, CHR 0xAE, CHR 0xE5, CHR 0xA4, CHR 0x8D], ''refactor'',
      [CHR 0xE9, CHR 0x87, CHR 0x8D, CHR 0xE6, CHR 0x9E, CHR 0x84],
      [CHR 0xE9, CHR 0xA1, CHR 0xB9, CHR 0xE7, CHR 0x9B, CHR 0xAE],
      [CHR 0xE5, CHR 0x89, CHR 0x8D, CHR 0xE5, CHR 0x90, CHR 0x8E, CHR 0xE7, CHR 0xAB, CHR 0xAF]]"

definition RESEARCH_WORDS :: "string list" where
  "RESEARCH_WORDS =
     [''research'', [CHR 0xE8, CHR 0xB0, CHR 0x83, CHR 0xE7, CHR 0xA0, CHR 0x94],
      [CHR 0xE5, CHR 0x88, CHR 0x86, CHR 0xE6, CHR 0x9E, CHR 0x90],
      [CHR 0xE8, CHR 0xB5, CHR 0x84, CHR 0xE6, CHR 0x96, CHR 0x99]]"

definition goal_capabilities :: "string \<Rightarrow> string list" where
  "goal_capabilities goal =
     (if list_ex (\<lambda>w. contains w (lower goal)) CODE_WORDS then [''coding'']
      else if list_ex (\<lambda>w. contains w (lower goal)) RESEARCH_WORDS then [''research'']
      else [''summarization''])"

definition explicit_decision :: "string \<Rightarrow> string \<Rightarrow> supervisor_decision" where
  "explicit_decision mode goal = \<lparr>sd_action = (if mode = ''team'' then ''create_tasks'' else ''dispatch''),
     sd_selected_mode = mode, sd_task_ids = [], sd_required_capabilities = goal_capabilities goal,
     sd_reason_summary = ''Requested execution mode resolved to '' @ mode, sd_payload = []\<rparr>"

text \<open>\<open>decide\<close>; \<open>model\<close> is the parsed answer of the model, or the name of the exception it ended with.\<close>

definition decide_mode :: "(string \<Rightarrow> string + supervisor_decision) \<Rightarrow> string \<Rightarrow> run_mode \<Rightarrow> supervisor_decision" where
  "decide_mode model goal mode =
     (case mode of
        Mode_SINGLE \<Rightarrow> explicit_decision ''single'' goal
      | Mode_TEAM \<Rightarrow> explicit_decision ''team'' goal
      | Mode_AUTO \<Rightarrow>
          (case model goal of
             Inl exn \<Rightarrow>
               (explicit_decision (heuristic_mode goal) goal)\<lparr>
                 sd_reason_summary := ''Supervisor model unavailable; deterministic routing selected '' @
                   heuristic_mode goal @ '': '' @ exn,
                 sd_payload := [(''degraded_routing'', PyBool True)]\<rparr>
           | Inr d \<Rightarrow> d\<lparr>sd_required_capabilities := sanitize_capabilities (sd_required_capabilities d)\<rparr>))"

section \<open>What comes out\<close>

lemma first_occurrences_facts:
  "set (first_occurrences seen cs) = set cs - set seen" "distinct (first_occurrences seen cs)"
  by (induction seen cs rule: first_occurrences.induct) auto

lemma first_occurrences_id: "distinct cs \<Longrightarrow> set cs \<inter> set seen = {} \<Longrightarrow> first_occurrences seen cs = cs"
  by (induction seen cs rule: first_occurrences.induct) auto

lemma synonyms_known: "map_of CAP_SYNONYMS c = Some d \<Longrightarrow> d \<in> set KNOWN_PRIMARY_CAPS"
proof -
  have "\<forall>(k, d) \<in> set CAP_SYNONYMS. d \<in> set KNOWN_PRIMARY_CAPS"
    by (simp add: CAP_SYNONYMS_def KNOWN_PRIMARY_CAPS_def)
  then show "map_of CAP_SYNONYMS c = Some d \<Longrightarrow> d \<in> set KNOWN_PRIMARY_CAPS" by (auto dest: map_of_SomeD)
qed

lemma sanitize_loop_known:
  "set acc \<subseteq> set KNOWN_CAPS \<Longrightarrow> set (sanitize_loop caps acc) \<subseteq> set KNOWN_CAPS"
proof (induction caps acc rule: sanitize_loop.induct)
  case (2 cap caps acc)
  have "set KNOWN_PRIMARY_CAPS \<subseteq> set KNOWN_CAPS" by (auto simp: KNOWN_CAPS_def)
  then have "map_of CAP_SYNONYMS c = Some d \<Longrightarrow> d \<in> set KNOWN_CAPS" for c d using synonyms_known by blast
  with 2 show ?case by (auto simp: Let_def split: option.splits)
qed simp

lemma sanitized_shape:
  shows "set (sanitize_capabilities caps) \<subseteq> set KNOWN_CAPS" "distinct (sanitize_capabilities caps)"
    "\<exists>c \<in> set (sanitize_capabilities caps). c \<in> set KNOWN_PRIMARY_CAPS"
proof -
  have coding: "''coding'' \<in> set KNOWN_PRIMARY_CAPS" "''coding'' \<in> set KNOWN_CAPS"
    by (simp_all add: KNOWN_CAPS_def KNOWN_PRIMARY_CAPS_def)
  show "set (sanitize_capabilities caps) \<subseteq> set KNOWN_CAPS"
    using sanitize_loop_known [of "[]" caps] coding(2)
    by (auto simp: sanitize_capabilities_def Let_def first_occurrences_facts)
  show "distinct (sanitize_capabilities caps)"
    by (simp add: sanitize_capabilities_def Let_def first_occurrences_facts)
  show "\<exists>c \<in> set (sanitize_capabilities caps). c \<in> set KNOWN_PRIMARY_CAPS"
    using coding(1) by (auto simp: sanitize_capabilities_def Let_def first_occurrences_facts list_ex_iff)
qed

lemma known_normal: "c \<in> set KNOWN_CAPS \<Longrightarrow> strip (lower c) = c"
proof -
  have "list_all (\<lambda>c. strip (lower c) = c) KNOWN_CAPS" by code_simp
  then show "c \<in> set KNOWN_CAPS \<Longrightarrow> strip (lower c) = c" by (simp add: list_all_iff)
qed

lemma sanitize_loop_id: "set cs \<subseteq> set KNOWN_CAPS \<Longrightarrow> sanitize_loop cs acc = acc @ cs"
  by (induction cs arbitrary: acc) (auto simp: Let_def known_normal)

text \<open>Sanitised capabilities are known, distinct, contain a primary one, and are a fixed point.\<close>

lemma sanitize_idempotent: "sanitize_capabilities (sanitize_capabilities caps) = sanitize_capabilities caps"
proof -
  let ?s = "sanitize_capabilities caps"
  obtain c where c: "c \<in> set ?s" "c \<in> set KNOWN_PRIMARY_CAPS" using sanitized_shape(3) by blast
  then have "?s \<noteq> []" "list_ex (\<lambda>c. c \<in> set KNOWN_PRIMARY_CAPS) ?s" by (auto simp: list_ex_iff)
  then have "sanitize_capabilities ?s = first_occurrences [] ?s"
    using sanitize_loop_id [OF sanitized_shape(1), of caps "[]"] by (simp add: sanitize_capabilities_def [of ?s])
  also have "\<dots> = ?s" using sanitized_shape(2) by (rule first_occurrences_id) simp
  finally show ?thesis .
qed

end
