(* ===== verification/Verifier.thy ===== *)
theory Verifier
  imports Artifact_Store Shell_Policy Task_Graph
begin

text \<open>
  \<open>app/multiagent/verifier.py\<close>: the programmatic checks, the rubric of a model and the verifier that combines them. The
  file system, the command runner, the JSON libraries, \<open>shlex\<close>, \<open>fnmatch\<close>, decoding and the model answer through the
  environment; scores are rationals.
\<close>

section \<open>Data\<close>

datatype verdict = Verdict_PASS | Verdict_REPAIR | Verdict_REPLAN | Verdict_HUMAN_REQUIRED | Verdict_FAIL

fun verdict_value :: "verdict \<Rightarrow> string" where
  "verdict_value Verdict_PASS = ''pass''"
| "verdict_value Verdict_REPAIR = ''repair''"
| "verdict_value Verdict_REPLAN = ''replan''"
| "verdict_value Verdict_HUMAN_REQUIRED = ''human_required''"
| "verdict_value Verdict_FAIL = ''fail''"

definition all_verdicts :: "verdict list" where
  "all_verdicts = [Verdict_PASS, Verdict_REPAIR, Verdict_REPLAN, Verdict_HUMAN_REQUIRED, Verdict_FAIL]"

record criterion_failure =
  cf_criterion :: string
  cf_detail :: string
  cf_severity :: pyval
  cf_proposed_fix :: string
  cf_affected_files :: "string list"

definition failed_criterion :: "string \<Rightarrow> string \<Rightarrow> string \<Rightarrow> criterion_failure" where
  "failed_criterion criterion detail severity = \<lparr>cf_criterion = criterion, cf_detail = detail, cf_severity = PyStr severity,
     cf_proposed_fix = [], cf_affected_files = []\<rparr>"

record evidence_ref =
  er_source :: string
  er_content :: string
  er_metadata :: pydict

record task_proposal =
  tp_title :: string
  tp_objective :: string
  tp_required_capabilities :: "string list"
  tp_dependencies :: "string list"
  tp_priority :: int

record validation_result =
  vr_verdict :: verdict
  vr_scores :: pyval
  vr_failed_criteria :: "criterion_failure list"
  vr_evidence :: "evidence_ref list"
  vr_proposed_tasks :: "task_proposal list"
  vr_error :: "string option"
  vr_summary :: pyval

definition plain_result :: "verdict \<Rightarrow> pydict \<Rightarrow> criterion_failure list \<Rightarrow> string \<Rightarrow> validation_result" where
  "plain_result v scores failed summary = \<lparr>vr_verdict = v, vr_scores = PyDict scores, vr_failed_criteria = failed,
     vr_evidence = [], vr_proposed_tasks = [], vr_error = None, vr_summary = PyStr summary\<rparr>"

definition score_of :: "bool \<Rightarrow> pyval" where
  "score_of b = PyFloat (if b then 1 else 0)"

definition pass_if :: "bool \<Rightarrow> verdict" where
  "pass_if b = (if b then Verdict_PASS else Verdict_REPAIR)"

type_synonym evidence_set = "(string \<times> pydict) list"

definition no_artifacts_result :: validation_result where
  "no_artifacts_result = plain_result Verdict_FAIL
     [(''completeness'', PyFloat 0), (''correctness'', PyFloat 0), (''consistency'', PyFloat 0), (''evidence'', PyFloat 0)]
     [failed_criterion ''no_artifacts'' ''No eligible durable artifacts are available for verification'' ''high'']
     ''No eligible artifacts; verification failed closed''"

text \<open>Evidence the artifact lifecycle has retired is left out.\<close>

definition eligible_entry :: "pydict \<Rightarrow> bool" where
  "eligible_entry d \<longleftrightarrow> map_of d ''status'' \<notin> {Some (PyStr ''rejected''), Some (PyStr ''superseded'')}"

definition eligible_artifacts :: "evidence_set \<Rightarrow> evidence_set" where
  "eligible_artifacts es = filter (\<lambda>(_, d). eligible_entry d) es"

record verification_command =
  vc_kind :: string
  vc_argv :: "string list"
  vc_cwd :: "string option"
  vc_timeout :: int
  vc_expected_returncode :: int

text \<open>The \<open>checks\<close> of \<open>validate\<close>; a key that is absent or \<open>None\<close> is \<open>None\<close> or empty.\<close>

record verification_checks =
  ck_files :: "string list option"
  ck_command :: "command option"
  ck_commands :: "verification_command list"
  ck_file_hashes :: "(string \<times> string) list"
  ck_json_schema :: "pyval option"
  ck_data :: "pyval option"
  ck_format :: "string option"
  ck_content :: string
  ck_changed_files :: "string list option"
  ck_forbidden_changes :: "string list"
  ck_diff_scope :: "string list"
  ck_rubrics :: "string list"
  ck_cwd :: "string option"
  ck_timeout :: int

definition no_checks :: verification_checks where
  "no_checks = \<lparr>ck_files = None, ck_command = None, ck_commands = [], ck_file_hashes = [], ck_json_schema = None,
     ck_data = None, ck_format = None, ck_content = [], ck_changed_files = None, ck_forbidden_changes = [],
     ck_diff_scope = [], ck_rubrics = [], ck_cwd = None, ck_timeout = 30\<rparr>"

record command_output =
  co_returncode :: int
  co_stdout :: string
  co_stderr :: string
  co_environment :: pyval
  co_duration_seconds :: rat

datatype model_reply = Reply_text string | Reply_other

record verifier_env =
  ve_is_file :: "string \<Rightarrow> bool"
  ve_read_file :: "string \<Rightarrow> string"
  ve_sha :: "string \<Rightarrow> string"
  ve_shlex :: "string \<Rightarrow> string + string list"  \<comment> \<open>the text of a ValueError, or the words\<close>
  ve_run :: "nat \<Rightarrow> string list \<Rightarrow> string option \<Rightarrow> int \<Rightarrow> string + command_output"  \<comment> \<open>the \<open>k\<close>-th command\<close>
  ve_schema_error :: "pyval \<Rightarrow> pyval \<Rightarrow> string option"
  ve_json_error :: "string \<Rightarrow> string option"
  ve_json_dict :: "string \<Rightarrow> pydict option"
  ve_literal_dict :: "string \<Rightarrow> pydict option"
  ve_fnmatch :: "string \<Rightarrow> string \<Rightarrow> bool"
  ve_str :: "pyval \<Rightarrow> string"
  ve_decode :: "string \<Rightarrow> string"
  ve_resolve :: "string \<Rightarrow> path"
  ve_model_available :: bool
  ve_fail_closed :: bool
  ve_build_model :: bool  \<comment> \<open>whether \<open>build_model\<close> returns\<close>
  ve_invoke :: "nat \<Rightarrow> string \<Rightarrow> (string \<times> bool) + model_reply"
    \<comment> \<open>call \<open>k\<close>: the text of an exception and whether it is one of the client library's, or a reply\<close>

section \<open>Text by code points\<close>

definition drop_points :: "nat \<Rightarrow> string \<Rightarrow> string" where
  "drop_points n s = drop (length (take_points n s)) s"

definition last_points :: "nat \<Rightarrow> string \<Rightarrow> string" where
  "last_points n s = drop_points (code_points s - n) s"

section \<open>The contract of a task\<close>

text \<open>\<open>str(Path(root, rel))\<close> for a relative path: empty components and dots disappear.\<close>

definition pure_path :: "string \<Rightarrow> string" where
  "pure_path s =
     (let anchor = (if starts_with ''//'' s \<and> \<not> starts_with ''///'' s then ''//'' else if starts_with ''/'' s then ''/'' else []);
          parts = filter (\<lambda>p. p \<noteq> [] \<and> p \<noteq> ''.'') (split_on (CHR ''/'') s)
      in if anchor = [] \<and> parts = [] then ''.'' else anchor @ concat (case parts of [] \<Rightarrow> [] | p # ps \<Rightarrow> p # map (\<lambda>q. ''/'' @ q) ps))"

definition joined_path :: "string \<Rightarrow> string \<Rightarrow> string" where
  "joined_path base rel = pure_path (base @ ''/'' @ rel)"

definition looks_like_path :: "string \<Rightarrow> bool" where
  "looks_like_path r \<longleftrightarrow> CHR ''/'' \<in> set r \<or> CHR 0x5C \<in> set r \<or> CHR ''.'' \<in> set (path_name r)"

definition required_file :: "string option \<Rightarrow> string \<Rightarrow> string" where
  "required_file base r =
     (case base of Some b \<Rightarrow> if b \<noteq> [] \<and> \<not> starts_with ''/'' r then joined_path b r else r | None \<Rightarrow> r)"

fun partition_colon :: "string \<Rightarrow> string \<times> bool \<times> string" where
  "partition_colon [] = ([], False, [])"
| "partition_colon (c # s) =
     (if c = CHR '':'' then ([], True, s) else case partition_colon s of (p, found, v) \<Rightarrow> (c # p, found, v))"

definition COMMAND_KINDS :: "string list" where
  "COMMAND_KINDS = [''test'', ''lint'', ''type-check'', ''typecheck'', ''build'', ''security'', ''command'']"

text \<open>A criterion is a command or a rubric; the first unbalanced quotation ends the compilation.\<close>

fun compile_criteria :: "verifier_env \<Rightarrow> string option \<Rightarrow> string list \<Rightarrow> verification_command list \<Rightarrow> string list
    \<Rightarrow> string + verification_command list \<times> string list" where
  "compile_criteria e cwd [] commands rubrics = Inr (commands, rubrics)"
| "compile_criteria e cwd (c # cs) commands rubrics =
     (case partition_colon c of (pre, found, v) \<Rightarrow>
        (let kind = lower (strip pre) in
         if found \<and> kind \<in> set COMMAND_KINDS
         then (case ve_shlex e (strip v) of
                 Inl x \<Rightarrow> Inl x
               | Inr argv \<Rightarrow> compile_criteria e cwd cs
                   (if argv = [] then commands
                    else commands @ [\<lparr>vc_kind = kind, vc_argv = argv, vc_cwd = cwd, vc_timeout = 120, vc_expected_returncode = 0\<rparr>])
                   rubrics)
         else compile_criteria e cwd cs commands (rubrics @ [c])))"

text \<open>\<open>from_output_contract\<close> and \<open>to_checks\<close>.\<close>

definition contract_checks :: "verifier_env \<Rightarrow> output_contract \<Rightarrow> string option \<Rightarrow> string + verification_checks" where
  "contract_checks e oc base =
     (let (files, roles) = partition looks_like_path (oc_required_artifacts oc) in
      case compile_criteria e base (oc_acceptance_criteria oc) [] (map (\<lambda>r. ''required artifact role: '' @ r) roles) of
        Inl x \<Rightarrow> Inl x
      | Inr (commands, rubrics) \<Rightarrow> Inr (no_checks\<lparr>ck_files := Some (map (required_file base) files), ck_commands := commands,
          ck_rubrics := rubrics, ck_cwd := base\<rparr>))"

section \<open>Programmatic checks\<close>

definition verify_files_exist :: "verifier_env \<Rightarrow> string list \<Rightarrow> validation_result" where
  "verify_files_exist e fs =
     (let missing = filter (\<lambda>f. \<not> ve_is_file e f) fs; found = length fs - length missing in
      plain_result (pass_if (missing = []))
        [(''file_exists'', PyFloat (if fs = [] then 1 else of_nat found / of_nat (length fs)))]
        (map (\<lambda>f. failed_criterion (''file_exists:'' @ f) (([CHR 0xE6, CHR 0x96, CHR 0x87, CHR 0xE4, CHR 0xBB,
          CHR 0xB6, CHR 0xE4, CHR 0xB8, CHR 0x8D, CHR 0xE5, CHR 0xAD, CHR 0x98, CHR 0xE5, CHR 0x9C, CHR 0xA8] @
          '': '') @ f) ''high'') missing)
        (str_nat found @ ''/'' @ str_nat (length fs) @ ('' '' @ [CHR 0xE6, CHR 0x96, CHR 0x87, CHR 0xE4,
          CHR 0xBB, CHR 0xB6, CHR 0xE5, CHR 0xAD, CHR 0x98, CHR 0xE5, CHR 0x9C, CHR 0xA8])))"

definition ran_command :: "string list \<Rightarrow> int \<Rightarrow> command_output \<Rightarrow> validation_result" where
  "ran_command argv expected out =
     (let line = join_words argv; success = (co_returncode out = expected) in
      (plain_result (pass_if success) [(''command'', score_of success)]
        (if success then [] else [failed_criterion (''command:'' @ take_points 60 line)
           (([CHR 0xE6, CHR 0x9C, CHR 0x9F, CHR 0xE6, CHR 0x9C, CHR 0x9B] @ '' rc='') @ str_int expected @
             ([CHR 0xEF, CHR 0xBC, CHR 0x8C, CHR 0xE5, CHR 0xAE, CHR 0x9E, CHR 0xE9, CHR 0x99, CHR 0x85] @
             '' rc='') @ str_int (co_returncode out)) ''high''])
        (([CHR 0xE5, CHR 0x91, CHR 0xBD, CHR 0xE4, CHR 0xBB, CHR 0xA4] @ '' '') @ (if success then [CHR 0xE6,
          CHR 0x88, CHR 0x90, CHR 0xE5, CHR 0x8A, CHR 0x9F] else [CHR 0xE5, CHR 0xA4, CHR 0xB1, CHR 0xE8,
          CHR 0xB4, CHR 0xA5]) @ '': '' @ take_points 60 line @ ''...''))
      \<lparr>vr_evidence := [\<lparr>er_source = ''cmd:'' @ take_points 80 line,
         er_content = ''rc='' @ str_int (co_returncode out) @ ([CHR 0x0A] @ ''stdout='') @
           take_points 2000 (co_stdout out) @
           ([CHR 0x0A] @ ''stderr='') @ take_points 1000 (co_stderr out),
         er_metadata = [(''argv'', PyList (map PyStr argv)), (''returncode'', PyInt (co_returncode out)),
           (''stdout'', PyStr (co_stdout out)), (''stderr'', PyStr (co_stderr out)), (''environment'', co_environment out),
           (''duration_seconds'', PyFloat (co_duration_seconds out))]\<rparr>]\<rparr>)"

definition failed_command :: "string \<Rightarrow> validation_result" where
  "failed_command x = (plain_result Verdict_REPAIR [(''command'', PyFloat 0)]
     [(failed_criterion ''command_execution'' x ''high'')\<lparr>cf_proposed_fix := ''use structured argv or request required permission''\<rparr>]
     (([CHR 0xE5, CHR 0x91, CHR 0xBD, CHR 0xE4, CHR 0xBB, CHR 0xA4, CHR 0xE5, CHR 0xBC, CHR 0x82, CHR 0xE5,
       CHR 0xB8, CHR 0xB8] @ '': '') @ x))\<lparr>vr_error := Some x\<rparr>"

definition verify_command :: "verifier_env \<Rightarrow> nat \<Rightarrow> command \<Rightarrow> string option \<Rightarrow> int \<Rightarrow> int \<Rightarrow> validation_result" where
  "verify_command e k c cwd timeout expected =
     (case (case c of Argv a \<Rightarrow> Inr a | Command_line s \<Rightarrow> ve_shlex e s) of
        Inl x \<Rightarrow> failed_command x
      | Inr argv \<Rightarrow> (case ve_run e k argv cwd timeout of
            Inl x \<Rightarrow> failed_command x
          | Inr out \<Rightarrow> ran_command argv expected out))"

definition hash_failure :: "verifier_env \<Rightarrow> string \<times> string \<Rightarrow> criterion_failure option" where
  "hash_failure e = (\<lambda>(p, expected).
     if \<not> ve_is_file e p then Some ((failed_criterion ''file_hash'' (''file missing: '' @ p) ''high'')\<lparr>cf_affected_files := [p]\<rparr>)
     else if compute_content_hash (ve_sha e) (ve_read_file e p) \<noteq> expected
     then Some ((failed_criterion ''file_hash'' (''hash mismatch: '' @ p) ''high'')\<lparr>cf_affected_files := [p]\<rparr>)
     else None)"

definition verify_hashes :: "verifier_env \<Rightarrow> (string \<times> string) list \<Rightarrow> validation_result" where
  "verify_hashes e hs =
     (let fs = List.map_filter (hash_failure e) hs
      in plain_result (pass_if (fs = [])) [(''file_hash'', score_of (fs = []))] fs [])"

definition verify_forbidden_changes :: "verifier_env \<Rightarrow> string list \<Rightarrow> string list \<Rightarrow> string list \<Rightarrow> validation_result" where
  "verify_forbidden_changes e changed forbidden scope =
     (let banned = filter (\<lambda>p. list_ex (ve_fnmatch e p) forbidden) changed;
          outside = (if scope = [] then [] else filter (\<lambda>p. \<not> list_ex (ve_fnmatch e p) scope) changed);
          violations = sort (remdups (banned @ outside))
      in plain_result (pass_if (violations = [])) [(''diff_scope'', score_of (violations = []))]
           (if violations = [] then []
            else [(failed_criterion ''forbidden_changes'' ''change outside allowed diff scope'' ''high'')\<lparr>cf_affected_files := violations\<rparr>]) [])"

definition verify_json_schema :: "verifier_env \<Rightarrow> pyval \<Rightarrow> pyval \<Rightarrow> validation_result" where
  "verify_json_schema e data schema =
     (case ve_schema_error e data schema of
        None \<Rightarrow> plain_result Verdict_PASS [(''json_schema'', PyFloat 1)] [] ((''JSON Schema '' @
          [CHR 0xE9, CHR 0xAA, CHR 0x8C, CHR 0xE8, CHR 0xAF, CHR 0x81, CHR 0xE9, CHR 0x80, CHR 0x9A, CHR 0xE8,
          CHR 0xBF, CHR 0x87]))
      | Some x \<Rightarrow> plain_result Verdict_REPAIR [(''json_schema'', PyFloat 0)] [failed_criterion ''json_schema'' x ''medium'']
          ((''JSON Schema '' @ [CHR 0xE9, CHR 0xAA, CHR 0x8C, CHR 0xE8, CHR 0xAF, CHR 0x81, CHR 0xE5, CHR 0xA4,
            CHR 0xB1, CHR 0xE8, CHR 0xB4, CHR 0xA5] @ '': '') @ x))"

definition verify_output_format :: "verifier_env \<Rightarrow> string \<Rightarrow> string \<Rightarrow> validation_result" where
  "verify_output_format e content fmt =
     (if fmt = ''json'' then
        (case ve_json_error e content of
           None \<Rightarrow> plain_result Verdict_PASS [(''format'', PyFloat 1)] [] []
         | Some x \<Rightarrow> plain_result Verdict_REPAIR [(''format'', PyFloat 0)] [failed_criterion ''json_format'' x ''medium''] [])
      else if fmt = ''non_empty'' then
        plain_result (pass_if (strip content \<noteq> [])) [(''format'', score_of (strip content \<noteq> []))] [] []
      else plain_result Verdict_PASS [(''format'', PyFloat 1)] [] [])"

section \<open>The rubric of the model\<close>

text \<open>\<open>info.get("content", "") or info.get("content_preview", "")\<close>.\<close>

definition content_of :: "pydict \<Rightarrow> pyval" where
  "content_of d = (let c = (case map_of d ''content'' of None \<Rightarrow> PyStr [] | Some v \<Rightarrow> v) in
     if truthy c then c else case map_of d ''content_preview'' of None \<Rightarrow> PyStr [] | Some v \<Rightarrow> v)"

definition PREVIEW_LIMIT :: nat where
  "PREVIEW_LIMIT = 24000"

text \<open>The part of the prompt on one piece of evidence; \<open>len\<close> of a content that is no text raises.\<close>

definition evidence_lines :: "verifier_env \<Rightarrow> string \<Rightarrow> pydict \<Rightarrow> string option" where
  "evidence_lines e key d =
     (case content_of d of
        PyStr content \<Rightarrow>
          (let n = code_points content;
               size = (case map_of d ''size_bytes'' of Some v \<Rightarrow> if truthy v then ve_str e v else str_nat n | None \<Rightarrow> str_nat n);
               header = (''--- '' @ [CHR 0xE4, CHR 0xBA, CHR 0xA7, CHR 0xE7, CHR 0x89, CHR 0xA9] @ '': '') @ key @
                 '' (size: '' @ size @ '' bytes)'';
               head_len = PREVIEW_LIMIT div 2; tail_len = PREVIEW_LIMIT - head_len; omitted = str_nat (n - head_len - tail_len)
           in Some (if n \<le> PREVIEW_LIMIT then [CHR 0x0A] @ header @ ('' ---'' @ [CHR 0x0A]) @ content
                else [CHR 0x0A] @ header @ '', showing first '' @ str_nat head_len @ '' chars + last '' @
                  str_nat tail_len @
                  '' chars ('' @ omitted @ '' chars omitted in the middle) ---'' @ [CHR 0x0A] @
                    take_points head_len content @
                  ([CHR 0x0A, CHR 0x0A] @ ''... ['') @ omitted @ ('' chars omitted ] ...'' @ [CHR 0x0A,
                    CHR 0x0A]) @ last_points tail_len content))
      | _ \<Rightarrow> None)"

fun all_some :: "'a option list \<Rightarrow> 'a list option" where
  "all_some [] = Some []"
| "all_some (None # xs) = None"
| "all_some (Some x # xs) = map_option (\<lambda>ys. x # ys) (all_some xs)"

fun joined_with :: "string \<Rightarrow> string list \<Rightarrow> string" where
  "joined_with sep [] = []"
| "joined_with sep [s] = s"
| "joined_with sep (s # t # ss) = s @ sep @ joined_with sep (t # ss)"

definition build_rubric_prompt :: "verifier_env \<Rightarrow> string \<Rightarrow> evidence_set \<Rightarrow> string list \<Rightarrow> string option" where
  "build_rubric_prompt e goal es rubrics =
     map_option (\<lambda>parts. joined_with [CHR 0x0A] ([([CHR 0xE7, CHR 0x9B, CHR 0xAE, CHR 0xE6, CHR 0xA0,
       CHR 0x87] @ '': '') @ goal] @ parts @ [([CHR 0x0A, CHR 0xE8, CHR 0xAF, CHR 0x84, CHR 0xE4, CHR 0xBC,
       CHR 0xB0, CHR 0xE7, CHR 0xBB, CHR 0xB4, CHR 0xE5, CHR 0xBA, CHR 0xA6] @ '': '') @ joined_with '', '' rubrics,
       [CHR 0x0A, CHR 0xE6, CHR 0xB3, CHR 0xA8, CHR 0xE6, CHR 0x84, CHR 0x8F, CHR 0xEF, CHR 0xBC, CHR 0x9A,
         CHR 0xE4, CHR 0xBA, CHR 0xA7, CHR 0xE7, CHR 0x89, CHR 0xA9, CHR 0xE5, CHR 0x86, CHR 0x85, CHR 0xE5,
         CHR 0xAE, CHR 0xB9, CHR 0xE5, CHR 0x8F, CHR 0xAF, CHR 0xE8, CHR 0x83, CHR 0xBD, CHR 0xE5, CHR 0x9B,
         CHR 0xA0, CHR 0xE9, CHR 0x95, CHR 0xBF, CHR 0xE5, CHR 0xBA, CHR 0xA6, CHR 0xE9, CHR 0x99, CHR 0x90,
         CHR 0xE5, CHR 0x88, CHR 0xB6, CHR 0xE5, CHR 0x8F, CHR 0xAA, CHR 0xE5, CHR 0xB1, CHR 0x95, CHR 0xE7,
         CHR 0xA4, CHR 0xBA, CHR 0xE5, CHR 0xBC, CHR 0x80, CHR 0xE5, CHR 0xA4, CHR 0xB4, CHR 0xE5, CHR 0x92,
         CHR 0x8C, CHR 0xE7, CHR 0xBB, CHR 0x93, CHR 0xE5, CHR 0xB0, CHR 0xBE, CHR 0xEF, CHR 0xBC, CHR 0x88,
         CHR 0xE4, CHR 0xB8, CHR 0xAD, CHR 0xE9, CHR 0x97, CHR 0xB4, CHR 0xE7, CHR 0x9C, CHR 0x81, CHR 0xE7,
         CHR 0x95, CHR 0xA5, CHR 0xEF, CHR 0xBC, CHR 0x89, CHR 0xE3, CHR 0x80, CHR 0x82, CHR 0xE7, CHR 0x9C,
         CHR 0x81, CHR 0xE7, CHR 0x95, CHR 0xA5, CHR 0xE4, CHR 0xB8, CHR 0x8D, CHR 0xE4, CHR 0xBB, CHR 0xA3,
         CHR 0xE8, CHR 0xA1, CHR 0xA8, CHR 0xE4, CHR 0xBA, CHR 0xA7, CHR 0xE7, CHR 0x89, CHR 0xA9, CHR 0xE4,
         CHR 0xB8, CHR 0x8D, CHR 0xE5, CHR 0xAE, CHR 0x8C, CHR 0xE6, CHR 0x95, CHR 0xB4, CHR 0xE2, CHR 0x80,
         CHR 0x94, CHR 0xE2, CHR 0x80, CHR 0x94, CHR 0xE6, CHR 0x96, CHR 0x87, CHR 0xE4, CHR 0xBB, CHR 0xB6,
         CHR 0xE5, CHR 0xA4, CHR 0xA7, CHR 0xE5, CHR 0xB0, CHR 0x8F, CHR 0xE5, CHR 0xB7, CHR 0xB2, CHR 0xE6,
         CHR 0xA0, CHR 0x87, CHR 0xE6, CHR 0xB3, CHR 0xA8, CHR 0xE3, CHR 0x80, CHR 0x82, CHR 0xE8, CHR 0xAF,
         CHR 0xB7, CHR 0xE5, CHR 0x9F, CHR 0xBA, CHR 0xE4, CHR 0xBA, CHR 0x8E, CHR 0xE5, CHR 0xB7, CHR 0xB2,
         CHR 0xE5, CHR 0xB1, CHR 0x95, CHR 0xE7, CHR 0xA4, CHR 0xBA, CHR 0xE7, CHR 0x9A, CHR 0x84, CHR 0xE5,
         CHR 0xBC, CHR 0x80, CHR 0xE5, CHR 0xA4, CHR 0xB4, CHR 0xE4, CHR 0xB8, CHR 0x8E, CHR 0xE7, CHR 0xBB,
         CHR 0x93, CHR 0xE5, CHR 0xB0, CHR 0xBE] @
       ([CHR 0xE5, CHR 0x86, CHR 0x85, CHR 0xE5, CHR 0xAE, CHR 0xB9, CHR 0xE8, CHR 0xAF, CHR 0x84, CHR 0xE4,
         CHR 0xBC, CHR 0xB0, CHR 0xE8, CHR 0xB4, CHR 0xA8, CHR 0xE9, CHR 0x87, CHR 0x8F, CHR 0xEF, CHR 0xBC,
         CHR 0x8C, CHR 0xE4, CHR 0xB8, CHR 0x8D, CHR 0xE8, CHR 0xA6, CHR 0x81, CHR 0xE4, CHR 0xBB, CHR 0x85,
         CHR 0xE5, CHR 0x9B, CHR 0xA0, CHR 0xE5, CHR 0x86, CHR 0x85, CHR 0xE5, CHR 0xAE, CHR 0xB9, CHR 0xE7,
         CHR 0x9C, CHR 0x81, CHR 0xE7, CHR 0x95, CHR 0xA5, CHR 0xE8, CHR 0x80, CHR 0x8C, CHR 0xE5, CHR 0x88,
         CHR 0xA4, CHR 0xE5, CHR 0xAE, CHR 0x9A] @ '' repair'' @ [CHR 0xE3, CHR 0x80, CHR 0x82, CHR 0xE5,
         CHR 0xA6, CHR 0x82, CHR 0xE6, CHR 0x9E, CHR 0x9C, CHR 0xE4, CHR 0xBA, CHR 0xA7, CHR 0xE7, CHR 0x89,
         CHR 0xA9, CHR 0xE9, CHR 0x9D, CHR 0x9E, CHR 0xE7, CHR 0xA9, CHR 0xBA, CHR 0xE3, CHR 0x80, CHR 0x81,
         CHR 0xE7, CHR 0xBB, CHR 0x93, CHR 0xE6, CHR 0x9E, CHR 0x84, CHR 0xE5, CHR 0xAE, CHR 0x8C, CHR 0xE6,
         CHR 0x95, CHR 0xB4, CHR 0xEF, CHR 0xBC, CHR 0x88, CHR 0xE6, CHR 0x9C, CHR 0x89, CHR 0xE5, CHR 0x90,
         CHR 0x88, CHR 0xE7, CHR 0x90, CHR 0x86, CHR 0xE7, CHR 0x9A, CHR 0x84, CHR 0xE5, CHR 0xBC, CHR 0x80,
         CHR 0xE5, CHR 0xA4, CHR 0xB4, CHR 0xE5, CHR 0x92, CHR 0x8C, CHR 0xE7, CHR 0xBB, CHR 0x93, CHR 0xE5,
         CHR 0xB0, CHR 0xBE, CHR 0xEF, CHR 0xBC, CHR 0x89, CHR 0xEF, CHR 0xBC, CHR 0x8C, CHR 0xE5, CHR 0xBA,
         CHR 0x94, CHR 0xE8, CHR 0xA7, CHR 0x86, CHR 0xE4, CHR 0xB8, CHR 0xBA, CHR 0xE6, CHR 0xBB, CHR 0xA1,
         CHR 0xE8, CHR 0xB6, CHR 0xB3, CHR 0xE5, CHR 0xAE, CHR 0x8C, CHR 0xE6, CHR 0x95, CHR 0xB4, CHR 0xE6,
         CHR 0x80, CHR 0xA7, CHR 0xE8, CHR 0xA6, CHR 0x81, CHR 0xE6, CHR 0xB1, CHR 0x82, CHR 0xE3, CHR 0x80,
         CHR 0x82])]))
       (all_some (map (\<lambda>(k, d). evidence_lines e k d) es))"

definition empty_entry :: "pydict \<Rightarrow> bool" where
  "empty_entry d \<longleftrightarrow> \<not> dict_truthy d ''content'' \<and> \<not> dict_truthy d ''content_preview''"

definition fallback_verify :: "verifier_env \<Rightarrow> evidence_set \<Rightarrow> validation_result" where
  "fallback_verify e es =
     (if es = [] then plain_result Verdict_FAIL
        [(''completeness'', PyFloat 0), (''correctness'', PyFloat 0), (''consistency'', PyFloat 0), (''evidence'', PyFloat 0)]
        [failed_criterion ''no_artifacts'' ([CHR 0xE6, CHR 0x97, CHR 0xA0, CHR 0xE4, CHR 0xBA, CHR 0xA7, CHR 0xE7,
          CHR 0x89, CHR 0xA9, CHR 0xE4, CHR 0xBE, CHR 0x9B, CHR 0xE8, CHR 0xAF, CHR 0x84, CHR 0xE4, CHR 0xBC,
          CHR 0xB0]) ''high''] ([CHR 0xE6, CHR 0x97, CHR 0xA0, CHR 0xE4, CHR 0xBA, CHR 0xA7, CHR 0xE7, CHR 0x89,
          CHR 0xA9, CHR 0xEF, CHR 0xBC, CHR 0x8C, CHR 0xE9, CHR 0xAA, CHR 0x8C, CHR 0xE8, CHR 0xAF, CHR 0x81,
          CHR 0xE5, CHR 0xA4, CHR 0xB1, CHR 0xE8, CHR 0xB4, CHR 0xA5])
      else
        let n = length es; empty = length (filter (\<lambda>(_, d). empty_entry d) es);
            failed = (if empty = 0 then [] else [failed_criterion ''artifacts_empty''
              (str_nat empty @ ''/'' @ str_nat n @ ('' '' @ [CHR 0xE4, CHR 0xB8, CHR 0xAA, CHR 0xE4, CHR 0xBA,
                CHR 0xA7, CHR 0xE7, CHR 0x89, CHR 0xA9, CHR 0xE4, CHR 0xB8, CHR 0xBA, CHR 0xE7, CHR 0xA9,
                CHR 0xBA])) ''medium'']);
            failed' = (if ve_fail_closed e then failed @ [(failed_criterion ''semantic_verifier_unavailable''
              ''LLM rubric verifier is unavailable; non-empty output is not correctness evidence'' ''high'')
              \<lparr>cf_proposed_fix := ''restore verifier model or provide programmatic test/reviewer evidence''\<rparr>] else failed)
        in plain_result (if ve_fail_closed e then Verdict_REPAIR else pass_if (failed = []))
             [(''completeness'', PyFloat (of_nat (n - empty) / of_nat n)), (''correctness'', PyFloat (1/2)),
              (''consistency'', PyFloat (7/10)), (''evidence'', PyFloat (6/10))]
             failed' (([CHR 0xE8, CHR 0xA7, CHR 0x84, CHR 0xE5, CHR 0x88, CHR 0x99, CHR 0xE9, CHR 0xAA,
               CHR 0x8C, CHR 0xE8, CHR 0xAF, CHR 0x81] @ '': '') @ str_nat (n - empty) @ ''/'' @ str_nat n @
               ('' '' @ [CHR 0xE4, CHR 0xBA, CHR 0xA7, CHR 0xE7, CHR 0x89, CHR 0xA9, CHR 0xE9, CHR 0x9D,
               CHR 0x9E, CHR 0xE7, CHR 0xA9, CHR 0xBA])))"

definition transient_llm_error :: "string \<Rightarrow> bool \<Rightarrow> bool" where
  "transient_llm_error text client_error \<longleftrightarrow>
     list_ex (\<lambda>k. contains k (lower text)) [''429'', ''rate limit'', ''rate_limit'', ''too many requests''] \<or>
     list_ex (\<lambda>k. contains k (lower text)) [''timeout'', ''timed out'', ''connection'', ''socket'', ''temporarily'',
       ''unavailable'', ''503'', ''502'', ''500'', ''retry'', ''overloaded''] \<or> client_error"

definition rubric_delay :: "nat \<Rightarrow> seconds" where
  "rubric_delay attempt = min (15 * 2 ^ attempt) 300"

text \<open>The calls of the model from \<open>attempt\<close> on: the delays slept and the reply, if one came. \<open>left\<close> counts the retries.\<close>

fun ask_model :: "verifier_env \<Rightarrow> string \<Rightarrow> nat \<Rightarrow> nat \<Rightarrow> seconds list \<times> model_reply option" where
  "ask_model e prompt attempt left =
     (case ve_invoke e attempt prompt of
        Inr r \<Rightarrow> ([], Some r)
      | Inl (text, client) \<Rightarrow>
          (case left of
             0 \<Rightarrow> ([], None)
           | Suc m \<Rightarrow>
               if transient_llm_error text client
               then (case ask_model e prompt (Suc attempt) m of (ds, r) \<Rightarrow> (rubric_delay attempt # ds, r))
               else ([], None)))"

declare ask_model.simps [simp del]

definition MAX_RETRIES :: nat where
  "MAX_RETRIES = 3"

text \<open>\<open>_parse_rubric_json\<close>: the whole text, the inside of a code fence, the first brace to the last.\<close>

definition try_loads :: "verifier_env \<Rightarrow> string \<Rightarrow> pydict option" where
  "try_loads e s =
     (let t = strip s in
      if t = [] then None else case ve_json_dict e t of Some d \<Rightarrow> Some d | None \<Rightarrow> ve_literal_dict e t)"

definition fence :: string where
  "fence = [CHR 0x60, CHR 0x60, CHR 0x60]"

definition fenced :: "string \<Rightarrow> string option" where
  "fenced text =
     (case find (\<lambda>p. starts_with p text) [fence @ ''json'', fence, fence @ ''JSON''] of
        None \<Rightarrow> None
      | Some p \<Rightarrow> let rest = drop (length p) text in
          if contains fence rest then Some (strip (split_head fence rest)) else None)"

definition braced :: "string \<Rightarrow> string option" where
  "braced text =
     (let s = dropWhile (\<lambda>c. c \<noteq> CHR 0x7B) text; t = rev (dropWhile (\<lambda>c. c \<noteq> CHR 0x7D) (rev s))
      in if s = [] \<or> t = [] then None else Some t)"

definition parse_rubric_json :: "verifier_env \<Rightarrow> string \<Rightarrow> pydict option" where
  "parse_rubric_json e text =
     (case try_loads e text of
        Some d \<Rightarrow> Some d
      | None \<Rightarrow>
          (case Option.bind (fenced text) (try_loads e) of
             Some d \<Rightarrow> Some d
           | None \<Rightarrow> Option.bind (braced text) (try_loads e)))"

definition RESERVED_CRITERIA :: "string list" where
  "RESERVED_CRITERIA = [''json_schema'', ''command'', ''file_hash'', ''files'', ''format'', ''diff_scope'', ''forbidden_changes'']"

text \<open>One entry of the model's list; what is not a named semantic criterion is dropped.\<close>

definition model_failure :: "verifier_env \<Rightarrow> pyval \<Rightarrow> criterion_failure option" where
  "model_failure e v =
     (case v of
        PyDict d \<Rightarrow>
          (case map_of d ''criterion'' of
             Some (PyStr name) \<Rightarrow>
               if strip name = [] \<or> strip (lower name) \<in> set RESERVED_CRITERIA then None
               else Some \<lparr>cf_criterion = name,
                 cf_detail = (case map_of d ''detail'' of None \<Rightarrow> [] | Some (PyStr s) \<Rightarrow> s | Some w \<Rightarrow> ve_str e w),
                 cf_severity = (case map_of d ''severity'' of None \<Rightarrow> PyStr ''medium'' | Some w \<Rightarrow> w),
                 cf_proposed_fix = [], cf_affected_files = []\<rparr>
           | _ \<Rightarrow> None)
      | _ \<Rightarrow> None)"

text \<open>The elements a for loop sees; iterating a dict gives its keys, a text its characters, all of which are dropped.\<close>

fun iterated :: "pyval \<Rightarrow> pyval list option" where
  "iterated (PyList vs) = Some vs"
| "iterated (PyDict d) = Some (map (\<lambda>(k, _). PyStr k) d)"
| "iterated (PyStr s) = Some []"
| "iterated _ = None"

definition parsed_verdict :: "pydict \<Rightarrow> verdict" where
  "parsed_verdict d =
     (case map_of d ''verdict'' of
        Some (PyStr s) \<Rightarrow> (case find (\<lambda>v. verdict_value v = s) all_verdicts of Some v \<Rightarrow> v | None \<Rightarrow> Verdict_REPAIR)
      | _ \<Rightarrow> Verdict_REPAIR)"

text \<open>What becomes of the model's answer; \<open>None\<close> where the list of criteria cannot be iterated.\<close>

definition rubric_result :: "verifier_env \<Rightarrow> pydict \<Rightarrow> validation_result option" where
  "rubric_result e d =
     map_option (\<lambda>vs.
       let failed = List.map_filter (model_failure e) vs;
           v = parsed_verdict d;
           v' = (if failed = [] \<and> v \<in> {Verdict_REPAIR, Verdict_REPLAN, Verdict_FAIL} then Verdict_PASS else v)
       in \<lparr>vr_verdict = v', vr_scores = (case map_of d ''scores'' of None \<Rightarrow> PyDict [] | Some s \<Rightarrow> s),
           vr_failed_criteria = failed, vr_evidence = [], vr_proposed_tasks = [], vr_error = None,
           vr_summary = (case map_of d ''summary'' of None \<Rightarrow> PyStr ((''LLM rubric '' @ [CHR 0xE9,
             CHR 0xAA, CHR 0x8C, CHR 0xE8, CHR 0xAF, CHR 0x81, CHR 0xE5, CHR 0xAE, CHR 0x8C, CHR 0xE6, CHR 0x88,
             CHR 0x90])) | Some s \<Rightarrow> s)\<rparr>)
       (iterated (case map_of d ''failed_criteria'' of None \<Rightarrow> PyList [] | Some v \<Rightarrow> v))"

text \<open>\<open>_call_rubric_llm\<close>; \<open>None\<close> where it raises.\<close>

definition call_rubric_llm :: "verifier_env \<Rightarrow> string \<Rightarrow> evidence_set \<Rightarrow> validation_result option" where
  "call_rubric_llm e prompt es =
     (if \<not> ve_build_model e then None
      else case snd (ask_model e prompt 0 MAX_RETRIES) of
             None \<Rightarrow> Some (fallback_verify e es)
           | Some Reply_other \<Rightarrow> None
           | Some (Reply_text t) \<Rightarrow>
               (case parse_rubric_json e t of
                  None \<Rightarrow> Some (fallback_verify e es)
                | Some d \<Rightarrow> rubric_result e d))"

definition DEFAULT_RUBRICS :: "string list" where
  "DEFAULT_RUBRICS = [''completeness'', ''correctness'', ''consistency'', ''evidence'']"

definition rubric_verify :: "verifier_env \<Rightarrow> string \<Rightarrow> evidence_set \<Rightarrow> string list \<Rightarrow> validation_result" where
  "rubric_verify e goal artifacts rubrics =
     (let es = eligible_artifacts artifacts in
      if es = [] then no_artifacts_result
      else if \<not> ve_model_available e then fallback_verify e es
      else case Option.bind (build_rubric_prompt e goal es (or_list rubrics DEFAULT_RUBRICS)) (\<lambda>p. call_rubric_llm e p es) of
             None \<Rightarrow> fallback_verify e es
           | Some r \<Rightarrow> r)"

section \<open>The verifier\<close>

text \<open>The ids the caller asks for; without any, the whole registry is evidence.\<close>

definition removeprefix :: "string \<Rightarrow> string \<Rightarrow> string" where
  "removeprefix p s = (if starts_with p s then drop (length p) s else s)"

definition requested_id :: "verifier_env \<Rightarrow> artifact_store \<Rightarrow> string \<times> pydict \<Rightarrow> string option" where
  "requested_id e st = (\<lambda>(key, d).
     let given = (case map_of d ''artifact_id'' of Some v \<Rightarrow> if truthy v then Some v else None | None \<Rightarrow> None) in
     if given \<noteq> None \<or> starts_with ''artifact:'' key \<or> map_of (as_registry st) key \<noteq> None
     then Some (case given of Some v \<Rightarrow> ve_str e v | None \<Rightarrow> removeprefix ''artifact:'' key) else None)"

fun artifact_type_value :: "artifact_type \<Rightarrow> string" where
  "artifact_type_value Art_CODE = ''code''"
| "artifact_type_value Art_TEST = ''test''"
| "artifact_type_value Art_PATCH = ''patch''"
| "artifact_type_value Art_DOCUMENT = ''document''"
| "artifact_type_value Art_REPORT = ''report''"
| "artifact_type_value Art_DATA = ''data''"
| "artifact_type_value Art_PLAN = ''plan''"
| "artifact_type_value Art_CONFIG = ''config''"
| "artifact_type_value Art_REVIEW = ''review''"
| "artifact_type_value Art_REPAIR_PATCH = ''repair_patch''"
| "artifact_type_value Art_ANY = ''any''"

definition setdefault :: "string \<Rightarrow> pyval \<Rightarrow> pydict \<Rightarrow> pydict" where
  "setdefault k v d = (if map_of d k = None then d @ [(k, v)] else d)"

definition with_metadata :: "string \<Rightarrow> artifact \<Rightarrow> pydict \<Rightarrow> pydict" where
  "with_metadata i a d = fold (\<lambda>(k, v). AList.update k v)
     [(''artifact_id'', PyStr i), (''type'', PyStr (artifact_type_value (at_type a))),
      (''content_hash'', PyStr (at_content_hash a)), (''size_bytes'', PyInt (int (at_size_bytes a))),
      (''version'', PyInt (at_version a)), (''produced_by'', PyStr (at_produced_by a)), (''path'', PyStr (at_path a))] d"

definition with_flags :: "bool \<Rightarrow> pydict \<Rightarrow> pydict" where
  "with_flags b d = AList.update ''integrity_verified'' (PyBool b) (AList.update ''content_full_available'' (PyBool b) d)"

definition WITHHELD :: string where
  "WITHHELD = ''[artifact integrity check failed; content withheld]''"

text \<open>Bytes that cannot be read are no content; bytes whose hash does not match are withheld.\<close>

definition with_content :: "verifier_env \<Rightarrow> artifact_store \<Rightarrow> string \<Rightarrow> pydict \<Rightarrow> pydict" where
  "with_content e st i d =
     (case read_bytes (ve_resolve e) st i of
        Inr (Some raw) \<Rightarrow>
          (let intact = (verify_integrity (ve_sha e) (ve_resolve e) st i = Inr True)
           in setdefault ''content'' (PyStr (if intact then take_points PREVIEW_LIMIT (ve_decode e raw) else WITHHELD))
                (with_flags intact d))
      | _ \<Rightarrow> with_flags False d)"

definition enrich_entry :: "verifier_env \<Rightarrow> artifact_store \<Rightarrow> string \<Rightarrow> artifact \<Rightarrow> evidence_set \<Rightarrow> evidence_set" where
  "enrich_entry e st i a es =
     (let key = ''artifact:'' @ i;
          entry = (case map_of es key of None \<Rightarrow> [(''status'', PyStr ''registered'')] | Some d \<Rightarrow> d)
      in AList.update key (with_content e st i (with_metadata i a entry)) es)"

definition enrich :: "verifier_env \<Rightarrow> artifact_store option \<Rightarrow> evidence_set \<Rightarrow> evidence_set" where
  "enrich e store es =
     (case store of
        None \<Rightarrow> es
      | Some st \<Rightarrow>
          let wanted = List.map_filter (requested_id e st) es
          in fold (\<lambda>(i, a). if wanted \<noteq> [] \<and> i \<notin> set wanted then id else enrich_entry e st i a) (as_registry st) es)"

text \<open>The programmatic results, in the order of the code.\<close>

definition command_results :: "verifier_env \<Rightarrow> nat \<Rightarrow> string option \<Rightarrow> verification_command list \<Rightarrow> validation_result list" where
  "command_results e k cwd cs = map (\<lambda>(i, c). verify_command e (k + i) (Argv (vc_argv c))
     (case vc_cwd c of Some d \<Rightarrow> if d \<noteq> [] then Some d else cwd | None \<Rightarrow> cwd) (vc_timeout c) (vc_expected_returncode c))
     (enumerate 0 cs)"

definition programmatic_results :: "verifier_env \<Rightarrow> verification_checks \<Rightarrow> validation_result list" where
  "programmatic_results e ck =
     (case ck_files ck of None \<Rightarrow> [] | Some fs \<Rightarrow> [verify_files_exist e fs]) @
     (case ck_command ck of None \<Rightarrow> [] | Some c \<Rightarrow> [verify_command e 0 c (ck_cwd ck) (ck_timeout ck) 0]) @
     command_results e 1 (ck_cwd ck) (ck_commands ck) @
     (if ck_file_hashes ck = [] then [] else [verify_hashes e (ck_file_hashes ck)]) @
     (case (ck_json_schema ck, ck_data ck) of (Some schema, Some data) \<Rightarrow> [verify_json_schema e data schema] | _ \<Rightarrow> []) @
     (case ck_format ck of None \<Rightarrow> [] | Some f \<Rightarrow> [verify_output_format e (ck_content ck) f]) @
     (case ck_changed_files ck of
        None \<Rightarrow> []
      | Some fs \<Rightarrow> if ck_forbidden_changes ck = [] \<and> ck_diff_scope ck = [] then []
          else [verify_forbidden_changes e fs (ck_forbidden_changes ck) (ck_diff_scope ck)])"

definition has_score :: "validation_result \<Rightarrow> string \<Rightarrow> bool" where
  "has_score r k \<longleftrightarrow> (case vr_scores r of PyDict d \<Rightarrow> map_of d k \<noteq> None | _ \<Rightarrow> False)"

definition programmatic_pass :: "validation_result list \<Rightarrow> bool" where
  "programmatic_pass rs \<longleftrightarrow>
     list_ex (\<lambda>r. vr_verdict r = Verdict_PASS \<and> list_ex (has_score r) [''command'', ''json_schema'', ''file_hash'']) rs"

definition programmatic_evidence :: validation_result where
  "programmatic_evidence = (plain_result Verdict_PASS [(''programmatic_evidence'', PyFloat 1)] []
     ''programmatic evidence satisfies the contract'')\<lparr>vr_evidence := [\<lparr>er_source = ''verification_plan'',
       er_content = ''programmatic command/hash/schema evidence passed'', er_metadata = []\<rparr>]\<rparr>"

text \<open>A passed command, hash or schema stands in for a model that could not be asked, if nothing semantic is required.\<close>

definition replaceable :: "validation_result list \<Rightarrow> string list \<Rightarrow> validation_result \<Rightarrow> bool" where
  "replaceable rs rubrics r \<longleftrightarrow> vr_verdict r = Verdict_REPAIR \<and> programmatic_pass rs \<and> rubrics = [] \<and>
     list_all (\<lambda>f. cf_criterion f = ''semantic_verifier_unavailable'') (vr_failed_criteria r)"

fun verdict_rank :: "verdict \<Rightarrow> nat" where
  "verdict_rank Verdict_PASS = 0"
| "verdict_rank Verdict_REPAIR = 1"
| "verdict_rank Verdict_REPLAN = 2"
| "verdict_rank Verdict_HUMAN_REQUIRED = 3"
| "verdict_rank Verdict_FAIL = 4"

definition worse :: "validation_result \<Rightarrow> verdict \<Rightarrow> verdict" where
  "worse r v = (if verdict_rank (vr_verdict r) > verdict_rank v then vr_verdict r else v)"

datatype merge_error = Scores_not_a_dict | Score_not_a_number

fun gather_scores :: "validation_result list \<Rightarrow> (string \<times> pyval list) list \<Rightarrow> merge_error + (string \<times> pyval list) list" where
  "gather_scores [] acc = Inr acc"
| "gather_scores (r # rs) acc =
     (case vr_scores r of
        PyDict d \<Rightarrow> gather_scores rs (fold (\<lambda>(k, v) m. AList.update k ((case map_of m k of None \<Rightarrow> [] | Some vs \<Rightarrow> vs) @ [v]) m) d acc)
      | _ \<Rightarrow> Inl Scores_not_a_dict)"

definition average :: "pyval list \<Rightarrow> pyval option" where
  "average vs = map_option (\<lambda>qs. PyFloat (sum_list qs / of_nat (length qs))) (all_some (map py_number vs))"

definition average_scores :: "validation_result list \<Rightarrow> merge_error + pydict" where
  "average_scores rs =
     (case gather_scores rs [] of
        Inl x \<Rightarrow> Inl x
      | Inr m \<Rightarrow> (case all_some (map (\<lambda>(k, vs). map_option (Pair k) (average vs)) m) of
            None \<Rightarrow> Inl Score_not_a_number | Some d \<Rightarrow> Inr d))"

definition error_texts :: "validation_result list \<Rightarrow> string list" where
  "error_texts rs = filter (\<lambda>x. x \<noteq> []) (List.map_filter vr_error rs)"

definition merge_results :: "validation_result list \<Rightarrow> merge_error + validation_result" where
  "merge_results rs =
     (if rs = [] then Inr (plain_result Verdict_PASS [] [] ([CHR 0xE6, CHR 0x97, CHR 0xA0, CHR 0xE9, CHR 0xAA,
       CHR 0x8C, CHR 0xE8, CHR 0xAF, CHR 0x81, CHR 0xE9, CHR 0xA1, CHR 0xB9]))
      else map_sum id (\<lambda>scores.
        let v = fold worse rs Verdict_PASS; failed = concat (map vr_failed_criteria rs) in
        \<lparr>vr_verdict = v, vr_scores = PyDict scores, vr_failed_criteria = failed, vr_evidence = concat (map vr_evidence rs),
         vr_proposed_tasks = concat (map vr_proposed_tasks rs),
         vr_error = (if error_texts rs = [] then None else Some (joined_with ''; '' (error_texts rs))),
         vr_summary = PyStr (([CHR 0xE9, CHR 0xAA, CHR 0x8C, CHR 0xE8, CHR 0xAF, CHR 0x81, CHR 0xE5, CHR 0xAE,
           CHR 0x8C, CHR 0xE6, CHR 0x88, CHR 0x90] @ '': '') @ verdict_value v @ '' ('' @ str_nat (length failed) @
           ('' '' @ [CHR 0xE9, CHR 0xA1, CHR 0xB9, CHR 0xE5, CHR 0xA4, CHR 0xB1, CHR 0xE8, CHR 0xB4, CHR 0xA5] @
           '')''))\<rparr>)
        (average_scores rs))"

definition rubric_or_evidence :: "verifier_env \<Rightarrow> string \<Rightarrow> evidence_set \<Rightarrow> string list \<Rightarrow> validation_result list \<Rightarrow> validation_result" where
  "rubric_or_evidence e goal es rubrics rs =
     (let r = rubric_verify e goal es rubrics in if replaceable rs rubrics r then programmatic_evidence else r)"

definition validate_artifacts :: "verifier_env \<Rightarrow> artifact_store option \<Rightarrow> string \<Rightarrow> evidence_set \<Rightarrow> verification_checks
    \<Rightarrow> merge_error + validation_result" where
  "validate_artifacts e store goal artifacts ck =
     (let es = eligible_artifacts (enrich e store artifacts) in
      if es = [] then Inr no_artifacts_result
      else let rs = programmatic_results e ck
           in merge_results (rs @ [rubric_or_evidence e goal es (ck_rubrics ck) rs]))"

end
