(* ===== verification/Root_Graph.thy ===== *)
theory Root_Graph
  imports Plan_Registration Supervisor Reliability Verifier
begin

text \<open>
  \<open>app/runtime/root_graph/graph.py\<close>: the state machine of a run, from the request to its end. A node of the graph is
  a function from the state and the world to the updated state; what it calls outside (the models of supervisor and
  planner, the team builder, the scheduler's run, the verifier, the human) answers per step through the environment.
  The plan, the board and its rows are those of the task service. An event is recorded by its kind. The theorems are in
  \<open>Root_Graph_Props\<close> and \<open>Root_Graph_Ends\<close>.
\<close>

section \<open>State\<close>

record run_state =
  rs_goal :: string
  rs_requested_mode :: string
  rs_mode :: string
  rs_phase :: string
  rs_graph :: "graph_json option"  \<comment> \<open>\<open>task_graph_json\<close>, \<open>None\<close> for the empty text\<close>
  rs_graph_version :: int
  rs_active :: "string list"
  rs_completed :: "string list"
  rs_blocked :: "string list"
  rs_verification :: pydict
  rs_decision :: "supervisor_decision option"
  rs_dispatch_status :: string
  rs_dispatch_rounds :: int
  rs_repair_round :: int
  rs_rounds_by_task :: "(string \<times> int) list"
  rs_final_output :: pyval
  rs_error :: pyval
  rs_status :: string

text \<open>The state \<open>invoke\<close> starts with.\<close>

definition initial_state :: "string \<Rightarrow> string \<Rightarrow> task_graph option \<Rightarrow> run_state" where
  "initial_state goal requested resume_graph = \<lparr>rs_goal = goal, rs_requested_mode = requested, rs_mode = [],
     rs_phase = ''created'', rs_graph = map_option Graph_json resume_graph, rs_graph_version = 0, rs_active = [],
     rs_completed = [], rs_blocked = [], rs_verification = [], rs_decision = None, rs_dispatch_status = [],
     rs_dispatch_rounds = 0, rs_repair_round = 0, rs_rounds_by_task = [], rs_final_output = PyNone, rs_error = PyNone,
     rs_status = ''created''\<rparr>"

record root_world =
  rw_service :: graph_service
  rw_artifacts :: "artifact_store option"  \<comment> \<open>the verifier's store\<close>
  rw_events :: "string list"

datatype root_exn =
    Graph_missing | Graph_unreadable | Decision_missing | Policy_failed | Service_raised service_error
  | Finalize_conflict string string | Board_raised | Artifacts_raised | Unhashable | Unknown_route | Recursion_limit

type_synonym 'a root = "root_world \<Rightarrow> root_world \<times> (root_exn + 'a)"

text \<open>How a scheduled run ends.\<close>

record dispatch_answer =
  da_status :: string
  da_rounds :: int
  da_error :: "string option"
  da_graph :: task_graph

text \<open>The argument \<open>k\<close> of a field is the number of the step; a left answer is the text of an exception.\<close>

record root_env =
  rv_run_id :: string
  rv_max_repair_rounds :: int
  rv_metadata :: pydict
  rv_resume_graph :: "task_graph option"
  rv_model :: "nat \<Rightarrow> string \<Rightarrow> string + supervisor_decision"
  rv_planner :: "nat \<Rightarrow> nat \<Rightarrow> string \<Rightarrow> string + task_graph"
  rv_policy :: retry_policy
  rv_build_team :: "nat \<Rightarrow> task_graph \<Rightarrow> root_world \<Rightarrow> root_world \<times> (string + nat)"
  rv_schedule :: "nat \<Rightarrow> task_graph \<Rightarrow> root_world \<Rightarrow> root_world \<times> (string + dispatch_answer)"
  rv_verify :: "nat \<Rightarrow> string \<Rightarrow> (string \<times> pydict) list \<Rightarrow> root_world \<Rightarrow> string + validation_result"
  rv_answer :: "nat \<Rightarrow> pyval option"  \<comment> \<open>the human's response, once there is one\<close>
  rv_service :: "nat \<Rightarrow> nat \<Rightarrow> service_env"
  rv_mutation_id :: "nat \<Rightarrow> nat \<Rightarrow> string"
  rv_write :: "nat \<Rightarrow> nat \<Rightarrow> bool"
  rv_reject :: "nat \<Rightarrow> nat \<Rightarrow> nat \<Rightarrow> bool"  \<comment> \<open>whether a rejected artifact's row is written\<close>
  rv_clock :: "nat \<Rightarrow> nat \<Rightarrow> time"
  rv_exn_text :: "root_exn \<Rightarrow> string"

definition giving :: "'a \<Rightarrow> 'a root" where
  "giving x w = (w, Inr x)"

definition throwing :: "root_exn \<Rightarrow> 'a root" where
  "throwing x w = (w, Inl x)"

definition chain :: "'a root \<Rightarrow> ('a \<Rightarrow> 'b root) \<Rightarrow> 'b root" where
  "chain m k w = (case m w of (w', Inl x) \<Rightarrow> (w', Inl x) | (w', Inr y) \<Rightarrow> k y w')"

text \<open>\<open>except Exception as exc\<close> around a whole body.\<close>

definition guarded :: "'a root \<Rightarrow> (root_exn \<Rightarrow> 'a root) \<Rightarrow> 'a root" where
  "guarded m h w = (case m w of (w', Inl x) \<Rightarrow> h x w' | (w', Inr y) \<Rightarrow> (w', Inr y))"

definition event :: "string \<Rightarrow> unit root" where
  "event kind w = giving () (w\<lparr>rw_events := rw_events w @ [''root_graph:'' @ kind]\<rparr>)"

definition on_service :: "'a service \<Rightarrow> 'a root" where
  "on_service f w = (case f (rw_service w) of
     (s, Inl x) \<Rightarrow> throwing (Service_raised x) (w\<lparr>rw_service := s\<rparr>) | (s, Inr y) \<Rightarrow> giving y (w\<lparr>rw_service := s\<rparr>))"

definition on_root_board :: "'a board_result \<Rightarrow> 'a root" where
  "on_root_board r w = (case r of (b, res) \<Rightarrow>
     (let w' = w\<lparr>rw_service := (rw_service w)\<lparr>sv_board := b\<rparr>\<rparr>
      in case res of Inl _ \<Rightarrow> throwing Board_raised w' | Inr y \<Rightarrow> giving y w'))"

abbreviation world_board :: "root_world \<Rightarrow> task_board" where
  "world_board w \<equiv> sv_board (rw_service w)"

definition board_list :: "root_env \<Rightarrow> root_world \<Rightarrow> board_task list" where
  "board_list e w = list_by_run (rv_run_id e) (world_board w)"

definition has_error :: "run_state \<Rightarrow> bool" where
  "has_error st \<longleftrightarrow> truthy (rs_error st)"

text \<open>\<open>_load_graph\<close> and \<open>_persist_graph\<close>.\<close>

definition load_plan :: "run_state \<Rightarrow> task_graph root" where
  "load_plan st = (case rs_graph st of
     None \<Rightarrow> throwing Graph_missing
   | Some j \<Rightarrow> (case parse_graph j of Inl _ \<Rightarrow> throwing Graph_unreadable | Inr g \<Rightarrow> giving g))"

definition persist_plan :: "root_env \<Rightarrow> task_graph \<Rightarrow> unit root" where
  "persist_plan e g = on_service (put_snapshot (rv_run_id e) (graph_version g) (Graph_json g))"

section \<open>Intake, routing and planning\<close>

definition intake :: "run_state \<Rightarrow> run_state root" where
  "intake st =
     (let goal = strip (rs_goal st) in
      if goal = [] then giving (st\<lparr>rs_phase := ''intake'', rs_status := ''failed'', rs_error := PyStr ''goal is required''\<rparr>)
      else chain (event ''intake_completed'') (\<lambda>_.
           giving (st\<lparr>rs_phase := ''intake'', rs_status := ''running'', rs_goal := goal\<rparr>)))"

definition complexity_router :: "root_env \<Rightarrow> nat \<Rightarrow> run_state \<Rightarrow> run_state root" where
  "complexity_router e k st =
     (if has_error st then giving (st\<lparr>rs_mode := ''team''\<rparr>)
      else let mode = (case parse_mode (rs_requested_mode st) of None \<Rightarrow> Mode_AUTO | Some m \<Rightarrow> m);
               d = decide_mode (rv_model e k) (rs_goal st) mode
           in chain (event ''supervisor_decision'') (\<lambda>_.
              giving (st\<lparr>rs_phase := ''routed'', rs_mode := sd_selected_mode d, rs_decision := Some d\<rparr>)))"

text \<open>The repository checks of the run are carried in the root node's metadata; no version is counted.\<close>

definition carried_value :: "pydict \<Rightarrow> string \<Rightarrow> pyval option" where
  "carried_value meta key =
     (case (case map_of meta key of Some PyNone \<Rightarrow> None | v \<Rightarrow> v) of
        Some v \<Rightarrow> Some v
      | None \<Rightarrow>
          (case map_of meta ''repository'' of
             Some (PyDict repo) \<Rightarrow> (case map_of repo key of Some PyNone \<Rightarrow> None | v \<Rightarrow> v)
           | _ \<Rightarrow> None))"

definition carry_checks :: "root_env \<Rightarrow> task_graph \<Rightarrow> task_graph" where
  "carry_checks e g =
     (case get_node g (graph_root g) of
        None \<Rightarrow> g
      | Some n \<Rightarrow>
          let put = (\<lambda>key d. case carried_value (rv_metadata e) key of None \<Rightarrow> d | Some v \<Rightarrow> AList.update key v d)
          in put_node (graph_root g) (n\<lparr>node_metadata :=
               put ''integration_test_commands'' (put ''integration_test_argv'' (node_metadata n))\<rparr>) g)"

definition new_graph :: "time \<Rightarrow> string \<Rightarrow> task_graph" where
  "new_graph now i = \<lparr>graph_root = i, graph_nodes = [], graph_version = 1, graph_created_at = now, graph_updated_at = now\<rparr>"

definition planned :: "task_graph \<Rightarrow> run_state \<Rightarrow> run_state" where
  "planned g st = st\<lparr>rs_phase := ''planned'', rs_graph := Some (Graph_json g), rs_graph_version := graph_version g\<rparr>"

definition execute_node :: "string \<Rightarrow> string list \<Rightarrow> task_node" where
  "execute_node goal caps = (default_node ''execute'')\<lparr>node_title := ''Execute goal'', node_objective := goal,
     node_required_capabilities := caps, node_output_contract := default_contract\<lparr>oc_description := goal\<rparr>\<rparr>"

definition single_plan :: "root_env \<Rightarrow> nat \<Rightarrow> run_state \<Rightarrow> run_state root" where
  "single_plan e k st =
     (case rs_decision st of
        None \<Rightarrow> throwing Decision_missing
      | Some d \<Rightarrow>
          let n = execute_node (rs_goal st) (or_list (sd_required_capabilities d) [''summarization'']);
              g = touch (rv_clock e k 1) (put_node ''execute'' n (new_graph (rv_clock e k 0) ''execute''))
          in giving (planned (carry_checks e g) st))"

text \<open>\<open>build_fallback_plan\<close> of \<open>planner.py\<close>; \<open>goal[:100]\<close> counts code points.\<close>

definition fallback_node :: "string \<Rightarrow> string \<Rightarrow> string \<Rightarrow> string list \<Rightarrow> string \<Rightarrow> string \<Rightarrow> string \<Rightarrow> string list \<Rightarrow> task_node" where
  "fallback_node i title objective deps cap kind description criteria = (default_node i)\<lparr>node_title := title,
     node_objective := objective, node_dependencies := deps, node_required_capabilities := [cap],
     node_output_contract := default_contract\<lparr>oc_artifact_type := kind, oc_description := description,
       oc_acceptance_criteria := criteria\<rparr>\<rparr>"

definition fallback_plan :: "time \<Rightarrow> string \<Rightarrow> task_graph" where
  "fallback_plan now goal =
     (let g = take_points 100 goal;
          plan = fallback_node ''plan'' [CHR 0xE8, CHR 0xA7, CHR 0x84, CHR 0xE5, CHR 0x88, CHR 0x92]
            ([CHR 0xE8, CHR 0xA7, CHR 0x84, CHR 0xE5, CHR 0x88, CHR 0x92, CHR 0xE5, CHR 0xA6, CHR 0x82, CHR 0xE4,
               CHR 0xBD, CHR 0x95, CHR 0xE5, CHR 0xAE, CHR 0x9E, CHR 0xE7, CHR 0x8E, CHR 0xB0, CHR 0x3A, CHR 0x20] @ g) [] ''planning'' ''plan'' [CHR 0xE8, CHR 0xA7, CHR 0x84, CHR 0xE5, CHR 0x88, CHR 0x92, CHR 0xE6, CHR 0x96, CHR 0x87, CHR 0xE6,
               CHR 0xA1, CHR 0xA3] [];
          execute = fallback_node ''execute'' [CHR 0xE6, CHR 0x89, CHR 0xA7, CHR 0xE8, CHR 0xA1, CHR 0x8C]
            ([CHR 0xE5, CHR 0xAE, CHR 0x9E, CHR 0xE7, CHR 0x8E, CHR 0xB0, CHR 0xE7, CHR 0x9B, CHR 0xAE, CHR 0xE6,
               CHR 0xA0, CHR 0x87, CHR 0x3A, CHR 0x20] @ g) [''plan''] ''coding'' ''code''
            [CHR 0xE5, CHR 0xAE, CHR 0x9E, CHR 0xE7, CHR 0x8E, CHR 0xB0, CHR 0xE4, CHR 0xBA, CHR 0xA7, CHR 0xE7,
               CHR 0x89, CHR 0xA9] [[CHR 0xE7, CHR 0x9B, CHR 0xAE, CHR 0xE6, CHR 0xA0, CHR 0x87, CHR 0xE5, CHR 0xB7, CHR 0xB2, CHR 0xE5,
               CHR 0xAE, CHR 0x9E, CHR 0xE7, CHR 0x8E, CHR 0xB0, CHR 0xE5, CHR 0xB9, CHR 0xB6, CHR 0xE6, CHR 0x8F,
               CHR 0x90, CHR 0xE4, CHR 0xBE, CHR 0x9B, CHR 0xE5, CHR 0x8F, CHR 0xAF, CHR 0xE9, CHR 0xAA, CHR 0x8C,
               CHR 0xE8, CHR 0xAF, CHR 0x81, CHR 0xE4, CHR 0xBA, CHR 0xA7, CHR 0xE7, CHR 0x89, CHR 0xA9]];
          verify = fallback_node ''verify'' [CHR 0xE9, CHR 0xAA, CHR 0x8C, CHR 0xE8, CHR 0xAF, CHR 0x81]
            ([CHR 0xE9, CHR 0xAA, CHR 0x8C, CHR 0xE8, CHR 0xAF, CHR 0x81, CHR 0xE7, CHR 0x9B, CHR 0xAE, CHR 0xE6,
               CHR 0xA0, CHR 0x87, CHR 0xE5, CHR 0xAE, CHR 0x9E, CHR 0xE7, CHR 0x8E, CHR 0xB0, CHR 0xE5, CHR 0xB9,
               CHR 0xB6, CHR 0xE6, CHR 0x8A, CHR 0xA5, CHR 0xE5, CHR 0x91, CHR 0x8A, CHR 0xE9, CHR 0x97, CHR 0xAE,
               CHR 0xE9, CHR 0xA2, CHR 0x98, CHR 0x3A, CHR 0x20] @ g) [''execute''] ''testing'' ''test''
            [CHR 0xE9, CHR 0xAA, CHR 0x8C, CHR 0xE8, CHR 0xAF, CHR 0x81, CHR 0xE8, CHR 0xAF, CHR 0x81, CHR 0xE6,
               CHR 0x8D, CHR 0xAE] [[CHR 0xE6, CHR 0x89, CHR 0xA7, CHR 0xE8, CHR 0xA1, CHR 0x8C, CHR 0xE4, CHR 0xB8, CHR 0x8E, CHR 0xE7,
               CHR 0x9B, CHR 0xAE, CHR 0xE6, CHR 0xA0, CHR 0x87, CHR 0xE5, CHR 0x8C, CHR 0xB9, CHR 0xE9, CHR 0x85,
               CHR 0x8D, CHR 0xE7, CHR 0x9A, CHR 0x84, CHR 0xE9, CHR 0xAA, CHR 0x8C, CHR 0xE8, CHR 0xAF, CHR 0x81,
               CHR 0xE5, CHR 0xB9, CHR 0xB6, CHR 0xE8, CHR 0xAE, CHR 0xB0, CHR 0xE5, CHR 0xBD, CHR 0x95, CHR 0xE7,
               CHR 0xBB, CHR 0x93, CHR 0xE6, CHR 0x9E, CHR 0x9C]]
      in fold (\<lambda>n g. touch now (put_node (node_id n) n g)) [plan, execute, verify] (new_graph now ''plan''))"

text \<open>At most three attempts of the planner; an error that is not retryable ends them.\<close>

fun plan_attempts :: "root_env \<Rightarrow> nat \<Rightarrow> string \<Rightarrow> nat \<Rightarrow> nat \<Rightarrow> task_graph option root" where
  "plan_attempts e k goal attempt 0 = giving None"
| "plan_attempts e k goal attempt (Suc left) =
     chain (event ''planning_started'') (\<lambda>_.
     (case rv_planner e k attempt goal of
        Inr g \<Rightarrow> giving (Some g)
      | Inl x \<Rightarrow>
          (case decide (rv_policy e) x (int attempt) 3 of
             Inl _ \<Rightarrow> throwing Policy_failed
           | Inr d \<Rightarrow>
               chain (event ''planning_attempt_failed'') (\<lambda>_.
               if rd_retryable d then plan_attempts e k goal (Suc attempt) left else giving None))))"

definition team_supervisor :: "root_env \<Rightarrow> nat \<Rightarrow> run_state \<Rightarrow> run_state root" where
  "team_supervisor e k st =
     chain (if rs_graph st \<noteq> None \<and> rv_resume_graph e \<noteq> None then load_plan st
            else chain (plan_attempts e k (rs_goal st) 1 3) (\<lambda>found.
              (case found of
                 Some g \<Rightarrow> giving g
               | None \<Rightarrow> chain (event ''planning_degraded'') (\<lambda>_. giving (fallback_plan (rv_clock e k 0) (rs_goal st))))))
       (\<lambda>g. chain (event ''planning_completed'') (\<lambda>_. giving ((planned (carry_checks e g) st)\<lparr>rs_error := PyNone\<rparr>)))"

section \<open>Team and dispatch\<close>

definition failed_team :: "string \<Rightarrow> run_state \<Rightarrow> run_state" where
  "failed_team x st = st\<lparr>rs_phase := ''team_build_failed'', rs_status := ''failed'', rs_error := PyStr x\<rparr>"

definition asked :: "(root_world \<Rightarrow> root_world \<times> (string + 'a)) \<Rightarrow> (string + 'a) root" where
  "asked f w = (case f w of (w', r) \<Rightarrow> giving r w')"

definition build_team :: "root_env \<Rightarrow> nat \<Rightarrow> run_state \<Rightarrow> run_state root" where
  "build_team e k st =
     (if has_error st then giving st
      else chain (event ''team_build_started'') (\<lambda>_.
        guarded
          (chain (load_plan st) (\<lambda>g.
           chain (asked (rv_build_team e k g)) (\<lambda>r.
           (case r of
              Inl x \<Rightarrow> giving (failed_team x st)
            | Inr agents \<Rightarrow>
                (case ready_tasks g of
                   Inl x \<Rightarrow> throwing (Service_raised (Graph_fault x))
                 | Inr ready \<Rightarrow>
                     chain (event ''team_build_completed'') (\<lambda>_.
                     giving (st\<lparr>rs_phase := ''team_ready'', rs_active := map node_id ready, rs_status := ''running'',
                       rs_error := PyNone, rs_verification :=
                         AList.update ''agent_count'' (PyInt (int agents)) (rs_verification st)\<rparr>)))))))
          (\<lambda>x. giving (failed_team (rv_exn_text e x) st))))"

text \<open>\<open>_sync_board_to_graph\<close>: the statuses of the board are replayed on the plan.\<close>

fun node_target :: "board_status \<Rightarrow> task_node_status option" where
  "node_target Board_PENDING = Some Node_PENDING"
| "node_target Board_CLAIMED = Some Node_RUNNING"
| "node_target Board_RUNNING = Some Node_RUNNING"
| "node_target Board_PRODUCED = Some Node_RUNNING"
| "node_target Board_VERIFYING = Some Node_RUNNING"
| "node_target Board_SUCCEEDED = Some Node_SUCCEEDED"
| "node_target Board_REPAIR_REQUIRED = Some Node_FAILED"
| "node_target Board_REPLAN_REQUIRED = Some Node_FAILED"
| "node_target Board_FAILED = Some Node_FAILED"
| "node_target Board_CANCELLED = Some Node_CANCELLED"
| "node_target Board_BLOCKED = None"

definition task_target :: "board_task \<Rightarrow> task_node_status option" where
  "task_target t =
     (if bt_status t = Board_REPAIR_REQUIRED \<and> dict_truthy (bt_metadata t) ''superseded_by_repair''
      then Some Node_SKIPPED else node_target (bt_status t))"

definition status_of :: "string \<Rightarrow> task_graph \<Rightarrow> task_node_status option" where
  "status_of i g = map_option node_status (get_node g i)"

definition replay_status :: "time \<Rightarrow> string \<Rightarrow> task_node_status \<Rightarrow> task_graph \<Rightarrow> task_graph" where
  "replay_status now i target g =
     (let g1 = (if target \<in> {Node_SUCCEEDED, Node_FAILED, Node_SKIPPED} \<and> status_of i g \<in> {Some Node_PENDING, Some Node_READY}
                then fst (update_status now now i Node_RUNNING g) else g);
          g2 = (if target = Node_SKIPPED \<and> status_of i g1 = Some Node_SUCCEEDED
                then fst (update_status now now i Node_FAILED g1) else g1)
      in fst (update_status now now i target g2))"

definition collect_outputs :: "string \<Rightarrow> string list \<Rightarrow> task_graph \<Rightarrow> task_graph" where
  "collect_outputs i artifacts g =
     (case get_node g i of
        None \<Rightarrow> g
      | Some n \<Rightarrow> put_node i (n\<lparr>node_output_artifact_ids :=
          fold (\<lambda>a xs. if a \<in> set xs then xs else xs @ [a]) artifacts (node_output_artifact_ids n)\<rparr>) g)"

definition sync_task :: "time \<Rightarrow> board_task \<Rightarrow> task_graph \<Rightarrow> task_graph" where
  "sync_task now t g =
     (case get_node g (bt_task_id t) of
        None \<Rightarrow> g
      | Some n \<Rightarrow>
          collect_outputs (bt_task_id t) (bt_produced_artifact_ids t)
            (case task_target t of
               None \<Rightarrow> g
             | Some target \<Rightarrow> if node_status n = target then g else replay_status now (bt_task_id t) target g))"

definition sync_board_to_graph :: "time \<Rightarrow> board_task list \<Rightarrow> task_graph \<Rightarrow> task_graph" where
  "sync_board_to_graph now tasks g = fold (sync_task now) tasks g"

definition registered_plan :: "graph_json \<Rightarrow> task_graph root" where
  "registered_plan j = (case j of Ill_typed \<Rightarrow> throwing Graph_unreadable | Graph_json g \<Rightarrow> giving g)"

definition failed_dispatch :: "string \<Rightarrow> run_state \<Rightarrow> run_state" where
  "failed_dispatch x st = st\<lparr>rs_phase := ''dispatch_failed'', rs_dispatch_status := ''failed'', rs_status := ''failed'',
     rs_error := PyStr x\<rparr>"

definition dispatched :: "dispatch_answer \<Rightarrow> task_graph \<Rightarrow> run_state \<Rightarrow> run_state" where
  "dispatched a g st = st\<lparr>rs_phase := ''dispatched'', rs_dispatch_status := da_status a, rs_dispatch_rounds := da_rounds a,
     rs_graph := Some (Graph_json g), rs_graph_version := graph_version g, rs_error := (case da_error a of None \<Rightarrow> PyNone | Some x \<Rightarrow> PyStr x)\<rparr>"

definition dispatch :: "root_env \<Rightarrow> nat \<Rightarrow> run_state \<Rightarrow> run_state root" where
  "dispatch e k st =
     chain (load_plan st) (\<lambda>g.
     chain (event ''dispatch_started'') (\<lambda>_.
     guarded
       (chain (on_service (register_initial_graph (rv_service e k 0) (rv_run_id e) g ''orchestrator'')) (\<lambda>v.
        chain (registered_plan (tv_graph v)) (\<lambda>g1.
        chain (asked (rv_schedule e k g1)) (\<lambda>r.
        (case r of
           Inl x \<Rightarrow> giving (failed_dispatch x st)
         | Inr a \<Rightarrow> \<lambda>w.
             (let g2 = sync_board_to_graph (rv_clock e k 0) (board_list e w) (da_graph a) in
              chain (persist_plan e g2) (\<lambda>_.
              chain (event ''dispatch_completed'') (\<lambda>_. giving (dispatched a g2 st))) w))))))
       (\<lambda>x. giving (failed_dispatch (rv_exn_text e x) st))))"

end
