(* ===== verification/Root_Run.thy ===== *)
theory Root_Run
  imports Root_Graph
begin

text \<open>
  \<open>app/runtime/root_graph/graph.py\<close>, continued: collection, verification, repair, replanning, the human's answer, the end
  of the run, the edges between the nodes and the run itself. How many nodes LangGraph executes under
  \<open>recursion_limit = 200\<close> is the argument \<open>steps\<close> of \<open>root_run\<close>.
\<close>

section \<open>Texts of errors\<close>

text \<open>\<open>repr\<close> of a text, of a list of texts and of a row of the board; bytes beyond ASCII are of printable characters.\<close>

definition hex_digit :: "nat \<Rightarrow> char" where
  "hex_digit n = char_of (if n < 10 then 48 + n else 87 + n)"

definition repr_char :: "char \<Rightarrow> char \<Rightarrow> string" where
  "repr_char q c =
     (let n = of_char c :: nat; bs = CHR 0x5C in
      if c = q \<or> c = bs then [bs, c]
      else if n = 10 then [bs, CHR ''n''] else if n = 13 then [bs, CHR ''r''] else if n = 9 then [bs, CHR ''t'']
      else if n < 32 \<or> n = 127 then [bs, CHR ''x'', hex_digit (n div 16), hex_digit (n mod 16)]
      else [c])"

definition repr_text :: "string \<Rightarrow> string" where
  "repr_text s =
     (let q = (if CHR 0x27 \<in> set s \<and> CHR 0x22 \<notin> set s then CHR 0x22 else CHR 0x27)
      in [q] @ concat (map (repr_char q) s) @ [q])"

fun comma_joined :: "string list \<Rightarrow> string" where
  "comma_joined [] = []"
| "comma_joined [s] = s"
| "comma_joined (s # t # ss) = s @ '', '' @ comma_joined (t # ss)"

definition repr_texts :: "string list \<Rightarrow> string" where
  "repr_texts ss = ''['' @ comma_joined (map repr_text ss) @ '']''"

definition repr_row :: "board_task \<Rightarrow> string" where
  "repr_row t = [CHR 0x7B] @ repr_text ''task_id'' @ '': '' @ repr_text (bt_task_id t) @ '', '' @ repr_text ''status'' @ '': '' @
     repr_text (board_status_value (bt_status t)) @ '', '' @ repr_text ''superseded'' @ '': '' @
     (if dict_truthy (bt_metadata t) ''superseded_by_repair'' then ''True'' else ''False'') @ [CHR 0x7D]"

definition repr_board :: "board_task list \<Rightarrow> string" where
  "repr_board ts = ''['' @ comma_joined (map repr_row ts) @ '']''"

section \<open>Collection and verification\<close>

definition collect :: "root_env \<Rightarrow> run_state \<Rightarrow> run_state root" where
  "collect e st =
     chain (load_plan st) (\<lambda>g w.
       (let ids = (\<lambda>ss. map bt_task_id (filter (\<lambda>t. bt_status t \<in> ss \<and>
              \<not> dict_truthy (bt_metadata t) ''superseded_by_plan_revision'') (board_list e w)))
        in chain (event ''collection_completed'') (\<lambda>_.
           giving (st\<lparr>rs_phase := ''collected'', rs_active := ids {Board_CLAIMED, Board_RUNNING},
             rs_completed := ids {Board_SUCCEEDED},
             rs_blocked := ids {Board_BLOCKED, Board_REPAIR_REQUIRED, Board_REPLAN_REQUIRED},
             rs_graph := Some (Graph_json g)\<rparr>)) w))"

definition incomplete :: "board_task \<Rightarrow> bool" where
  "incomplete t \<longleftrightarrow> \<not> dict_truthy (bt_metadata t) ''superseded_by_repair'' \<and>
     \<not> dict_truthy (bt_metadata t) ''superseded_by_plan_revision'' \<and> bt_status t \<noteq> Board_SUCCEEDED"

fun artifact_status_value :: "artifact_status \<Rightarrow> string" where
  "artifact_status_value Art_DRAFT = ''draft''"
| "artifact_status_value Art_PUBLISHED = ''published''"
| "artifact_status_value Art_VERIFIED = ''verified''"
| "artifact_status_value Art_REJECTED = ''rejected''"
| "artifact_status_value Art_SUPERSEDED = ''superseded''"

definition artifact_entry :: "artifact \<Rightarrow> string \<times> pydict" where
  "artifact_entry a = (''artifact:'' @ at_id a,
     [(''artifact_id'', PyStr (at_id a)), (''path'', PyStr (at_path a)), (''content_hash'', PyStr (at_content_hash a)),
      (''status'', PyStr (artifact_status_value (at_status a)))])"

definition node_entries :: "task_node \<Rightarrow> (string \<times> pydict) list" where
  "node_entries n = map (\<lambda>i. (''artifact:'' @ i,
     [(''artifact_id'', PyStr i), (''status'', PyStr (node_status_value (node_status n)))])) (node_output_artifact_ids n)"

definition dict_of :: "('k \<times> 'v) list \<Rightarrow> ('k \<times> 'v) list" where
  "dict_of kvs = fold (\<lambda>(k, v). AList.update k v) kvs []"

definition verification_artifacts :: "root_env \<Rightarrow> root_world \<Rightarrow> task_graph \<Rightarrow> (string \<times> pydict) list" where
  "verification_artifacts e w g =
     (let stored = dict_of (case rw_artifacts w of None \<Rightarrow> [] | Some s \<Rightarrow> map artifact_entry (artifacts_by_run (rv_run_id e) s))
      in if stored \<noteq> [] then stored else dict_of (concat (map (\<lambda>(_, n). node_entries n) (graph_nodes g))))"

definition blocked_reason :: "board_task list \<Rightarrow> string" where
  "blocked_reason tasks =
     (if tasks = [] then ''task_board_empty''
      else ''tasks_not_succeeded:'' @ repr_texts (map bt_task_id (filter incomplete tasks)))"

definition blocked_summary :: "string \<Rightarrow> pydict" where
  "blocked_summary reason =
     [(''verdict'', PyStr ''fail''),
      (''summary'', PyStr ''Run-level verification is blocked until every current non-superseded TaskBoard task is SUCCEEDED''),
      (''scores'', PyDict [(''task_completion'', PyFloat 0)]),
      (''failed_criteria'', PyList [PyDict [(''criterion'', PyStr ''task_board_completion''), (''detail'', PyStr reason),
         (''severity'', PyStr ''high'')]]),
      (''proposed_tasks'', PyList [])]"

definition criterion_dump :: "criterion_failure \<Rightarrow> pyval" where
  "criterion_dump f = PyDict [(''criterion'', PyStr (cf_criterion f)), (''detail'', PyStr (cf_detail f)), (''severity'', cf_severity f)]"

definition proposal_dump :: "task_proposal \<Rightarrow> pyval" where
  "proposal_dump t = PyDict [(''title'', PyStr (tp_title t)), (''objective'', PyStr (tp_objective t)),
     (''required_capabilities'', py_strs (tp_required_capabilities t)), (''dependencies'', py_strs (tp_dependencies t)),
     (''priority'', PyInt (tp_priority t))]"

definition verdict_summary :: "validation_result \<Rightarrow> pydict" where
  "verdict_summary a = [(''verdict'', PyStr (verdict_value (vr_verdict a))), (''summary'', vr_summary a), (''scores'', vr_scores a),
     (''failed_criteria'', PyList (map criterion_dump (vr_failed_criteria a))),
     (''proposed_tasks'', PyList (map proposal_dump (vr_proposed_tasks a)))]"

definition verify :: "root_env \<Rightarrow> nat \<Rightarrow> run_state \<Rightarrow> run_state root" where
  "verify e k st =
     chain (load_plan st) (\<lambda>g w.
       (let tasks = board_list e w in
        if tasks = [] \<or> list_ex incomplete tasks
        then chain (event ''verification_precondition_failed'') (\<lambda>_.
          giving (st\<lparr>rs_phase := ''verification_failed'', rs_verification := blocked_summary (blocked_reason tasks),
            rs_error := PyStr (blocked_reason tasks)\<rparr>)) w
        else (case rv_verify e k (rs_goal st) (verification_artifacts e w g) w of
          Inl x \<Rightarrow> giving (st\<lparr>rs_phase := ''verification_failed'',
            rs_verification := [(''verdict'', PyStr ''repair''), (''summary'', PyStr x)], rs_error := PyStr x\<rparr>) w
        | Inr a \<Rightarrow> chain (event ''verification_completed'') (\<lambda>_.
            giving (st\<lparr>rs_phase := ''verified'', rs_verification := verdict_summary a, rs_error := PyNone\<rparr>)) w)))"

section \<open>Repair\<close>

definition current :: "board_task \<Rightarrow> bool" where
  "current t \<longleftrightarrow> \<not> dict_truthy (bt_metadata t) ''superseded_by_repair'' \<and>
     \<not> dict_truthy (bt_metadata t) ''superseded_by_plan_revision''"

definition depended_on :: "task_graph \<Rightarrow> string list" where
  "depended_on g = concat (map (\<lambda>(_, n). node_dependencies n) (graph_nodes g))"

definition repair_candidates :: "task_graph \<Rightarrow> board_task list \<Rightarrow> board_task list" where
  "repair_candidates g tasks =
     (let failing = filter (\<lambda>t. bt_status t = Board_REPAIR_REQUIRED \<and> current t) tasks
      in if failing \<noteq> [] then failing
         else filter (\<lambda>t. bt_status t = Board_SUCCEEDED \<and> bt_task_id t \<notin> set (depended_on g) \<and> current t) tasks)"

definition rounds_of :: "(string \<times> int) list \<Rightarrow> string \<Rightarrow> int" where
  "rounds_of d i = (case map_of d i of None \<Rightarrow> 0 | Some n \<Rightarrow> n)"

definition within_budget :: "int \<Rightarrow> (string \<times> int) list \<Rightarrow> board_task \<Rightarrow> bool" where
  "within_budget limit rounds t \<longleftrightarrow> rounds_of rounds (repair_base_id (bt_task_id t)) < limit"

definition exhausted_chain :: "int \<Rightarrow> (string \<times> int) list \<Rightarrow> board_task \<Rightarrow> string" where
  "exhausted_chain limit rounds t =
     (let b = repair_base_id (bt_task_id t)
      in b @ ''('' @ str_int (rounds_of rounds b) @ ''/'' @ str_int limit @ '')'')"

text \<open>\<open>while base_objective.startswith("Repair ")\<close>.\<close>

function plain_objective :: "string \<Rightarrow> string" where
  "plain_objective s = (if starts_with ''Repair '' s then plain_objective (drop 7 s) else s)"
  by auto
termination by (relation "measure length") (auto simp: starts_with_iff)

declare plain_objective.simps [simp del]

text \<open>The feedback of the task's own verification, where there is one.\<close>

definition repair_feedback :: "pydict \<Rightarrow> board_task \<Rightarrow> pyval" where
  "repair_feedback verification t =
     (case map_of (bt_metadata t) ''verification'' of
        Some v \<Rightarrow> if truthy v then v else PyDict verification
      | None \<Rightarrow> PyDict verification)"

fun mark_all_rejected :: "(nat \<Rightarrow> bool) \<Rightarrow> nat \<Rightarrow> string list \<Rightarrow> unit root" where
  "mark_all_rejected wr n [] = giving ()"
| "mark_all_rejected wr n (i # is) = (\<lambda>w.
     (case rw_artifacts w of
        None \<Rightarrow> giving () w
      | Some s \<Rightarrow>
          (case mark_artifact_rejected (wr n) i s of
             (s', Inl _) \<Rightarrow> throwing Artifacts_raised (w\<lparr>rw_artifacts := Some s'\<rparr>)
           | (s', Inr _) \<Rightarrow> mark_all_rejected wr (Suc n) is (w\<lparr>rw_artifacts := Some s'\<rparr>))))"

fun repair_each :: "root_env \<Rightarrow> nat \<Rightarrow> pydict \<Rightarrow> nat \<Rightarrow> board_task list \<Rightarrow> (string \<times> int) list \<Rightarrow> task_graph \<Rightarrow> string list
    \<Rightarrow> ((string \<times> int) list \<times> task_graph \<times> string list) root" where
  "repair_each e k ver i [] rounds g created = giving (rounds, g, created)"
| "repair_each e k ver i (t # ts) rounds g created =
     (let b = repair_base_id (bt_task_id t) in
      chain (on_service (create_repair (rv_service e k i) (rv_run_id e) (bt_task_id t)
          (''Repair '' @ plain_objective (bt_objective t)) (bt_required_capabilities t) (bt_produced_artifact_ids t)
          (repair_feedback ver t) (rv_mutation_id e k i))) (\<lambda>v.
      chain (registered_plan (tv_graph v)) (\<lambda>g'.
      chain (mark_all_rejected (rv_reject e k i) 0 (bt_produced_artifact_ids t)) (\<lambda>_.
      repair_each e k ver (Suc i) ts (AList.update b (rounds_of rounds b + 1) rounds) g'
        (created @ sort (filter (\<lambda>j. j \<notin> set (node_ids g)) (node_ids g')))))))"

definition exhausted :: "string \<Rightarrow> run_state \<Rightarrow> run_state" where
  "exhausted x st = st\<lparr>rs_phase := ''repair_exhausted'', rs_status := ''failed'', rs_error := PyStr x\<rparr>"

definition unrepairable :: "string \<Rightarrow> run_state \<Rightarrow> run_state" where
  "unrepairable x st = st\<lparr>rs_status := ''failed'', rs_error := PyStr x\<rparr>"

definition repaired :: "(string \<times> int) list \<Rightarrow> task_graph \<Rightarrow> run_state \<Rightarrow> run_state" where
  "repaired rounds g st = st\<lparr>rs_phase := ''repair_planned'', rs_repair_round := rs_repair_round st + 1,
     rs_rounds_by_task := rounds, rs_graph := Some (Graph_json g), rs_graph_version := graph_version g, rs_error := PyNone\<rparr>"

definition repair :: "root_env \<Rightarrow> nat \<Rightarrow> run_state \<Rightarrow> run_state root" where
  "repair e k st =
     chain (load_plan st) (\<lambda>g w.
       (let tasks = board_list e w; candidates = repair_candidates g tasks; limit = rv_max_repair_rounds e;
            eligible = filter (within_budget limit (rs_rounds_by_task st)) candidates;
            spent = map (exhausted_chain limit (rs_rounds_by_task st))
              (filter (\<lambda>t. \<not> within_budget limit (rs_rounds_by_task st) t) candidates) in
        if rs_repair_round st \<ge> limit * 3
        then chain (event ''repair_round_exhausted'') (\<lambda>_. giving (exhausted (''global_repair_round_exhausted:'' @
          str_int (rs_repair_round st) @ ''/'' @ str_int (limit * 3)) st)) w
        else if eligible = [] \<and> spent \<noteq> []
        then chain (event ''repair_round_exhausted'') (\<lambda>_.
          giving (exhausted (''all_repair_chains_exhausted:'' @ repr_texts spent) st)) w
        else if eligible = []
        then chain (event ''repair_no_candidates'') (\<lambda>_.
          giving (unrepairable (''repair_requested_without_repairable_tasks: board='' @ repr_board tasks) st)) w
        else chain (repair_each e k (rs_verification st) 0 eligible (rs_rounds_by_task st) g []) (\<lambda>(rounds, g', created).
          if created = []
          then (\<lambda>w'. chain (event ''repair_no_candidates'') (\<lambda>_.
            giving (unrepairable (''repair_created_no_tasks: eligible='' @ repr_texts (map bt_task_id eligible) @ '', board='' @
              repr_board (board_list e w')) st)) w')
          else chain (persist_plan e g') (\<lambda>_.
               chain (event ''repair_planned'') (\<lambda>_. giving (repaired rounds g' st)))) w))"

definition replan :: "root_env \<Rightarrow> nat \<Rightarrow> run_state \<Rightarrow> run_state root" where
  "replan e k st = (\<lambda>w.
     (let usable = (case rw_artifacts w of None \<Rightarrow> []
          | Some s \<Rightarrow> map at_id (filter (\<lambda>a. at_status a \<in> {Art_PUBLISHED, Art_VERIFIED}) (artifacts_by_run (rv_run_id e) s)))
      in chain (mark_all_rejected (rv_reject e k 0) 0 usable) (\<lambda>_.
         chain (event ''replan_requested'') (\<lambda>_.
         giving (st\<lparr>rs_phase := ''replanning'', rs_graph := None, rs_repair_round := rs_repair_round st + 1,
           rs_rounds_by_task := [], rs_error := PyNone\<rparr>))) w))"

section \<open>The human, the end and failure\<close>

text \<open>What the human's answer makes of the state; a decision that is a list or a dict cannot be looked up in a set.\<close>

definition resumed_state :: "run_state \<Rightarrow> run_state" where
  "resumed_state st = st\<lparr>rs_phase := ''resumed'', rs_status := ''running'', rs_dispatch_status := [], rs_error := PyNone\<rparr>"

definition denied_state :: "pydict \<Rightarrow> run_state \<Rightarrow> run_state" where
  "denied_state d st = st\<lparr>rs_phase := ''human_denied'', rs_status := ''failed'',
     rs_error := payload_or ''feedback'' (PyStr ''human denied continuation'') d\<rparr>"

definition answered :: "pyval \<Rightarrow> run_state \<Rightarrow> root_exn + run_state" where
  "answered v st =
     (case v of
        PyDict d \<Rightarrow>
          (case map_of d ''decision'' of
             Some (PyStr s) \<Rightarrow> Inr (if s \<in> {''deny'', ''cancel''} then denied_state d st else resumed_state st)
           | Some (PyList _) \<Rightarrow> Inl Unhashable
           | Some (PyDict _) \<Rightarrow> Inl Unhashable
           | _ \<Rightarrow> Inr (resumed_state st))
      | _ \<Rightarrow> Inr (resumed_state st))"

fun finalize_each :: "root_env \<Rightarrow> nat \<Rightarrow> nat \<Rightarrow> board_task list \<Rightarrow> unit root" where
  "finalize_each e k n [] = giving ()"
| "finalize_each e k n (t # ts) =
     (let r = Some (rv_run_id e); i = bt_task_id t;
          wr = rv_write e k; now = rv_clock e k in
      chain (if bt_status t = Board_PRODUCED
             then (\<lambda>w. on_root_board (mark_verifying (wr n) (now n) i r (world_board w)) w)
             else giving True) (\<lambda>ok1.
      if \<not> ok1 then throwing (Finalize_conflict i ''mark_verifying'')
      else chain (\<lambda>w. case get i r (world_board w) of
             Some c \<Rightarrow> if bt_status c = Board_VERIFYING
               then on_root_board (mark_verified (wr (n + 1)) (now (n + 1)) (now (n + 2)) i r (world_board w)) w
               else giving True w
           | None \<Rightarrow> giving True w) (\<lambda>ok2.
      if \<not> ok2 then throwing (Finalize_conflict i ''mark_verified'')
      else finalize_each e k (n + 3) ts)))"

definition final_summary :: "run_state \<Rightarrow> pyval" where
  "final_summary st = payload_or ''summary'' (PyStr (''Run completed with '' @ str_nat (length (rs_completed st)) @
     '' verified tasks'')) (rs_verification st)"

definition finalize_run :: "root_env \<Rightarrow> nat \<Rightarrow> run_state \<Rightarrow> run_state root" where
  "finalize_run e k st =
     chain (load_plan st) (\<lambda>g.
     chain (\<lambda>w. finalize_each e k 1 (board_list e w) w) (\<lambda>_ w.
       (let g' = sync_board_to_graph (rv_clock e k 0) (board_list e w) g in
        chain (persist_plan e g') (\<lambda>_.
        chain (event ''run_finalized'') (\<lambda>_.
        giving (st\<lparr>rs_phase := ''finalized'', rs_status := ''succeeded'', rs_final_output := final_summary st,
          rs_graph := Some (Graph_json g'), rs_error := PyNone\<rparr>))) w)))"

definition fail_run :: "run_state \<Rightarrow> run_state root" where
  "fail_run st = chain (event ''run_failed'') (\<lambda>_. giving (st\<lparr>rs_phase := ''failed'', rs_status := ''failed''\<rparr>))"

section \<open>The graph\<close>

datatype root_node =
    Intake | Complexity_router | Single_plan | Team_supervisor | Build_team | Dispatch | Collect | Verify | Repair
  | Replan | Human_interrupt | Finalize | Fail

definition route_after_dispatch :: "root_env \<Rightarrow> run_state \<Rightarrow> root_world \<Rightarrow> root_node" where
  "route_after_dispatch e st w =
     (let statuses = map bt_status (board_list e w) in
      if rs_dispatch_status st = ''waiting_human''
      then (if Board_REPAIR_REQUIRED \<in> set statuses then Repair
            else if Board_REPLAN_REQUIRED \<in> set statuses then Replan
            else Human_interrupt)
      else if rs_dispatch_status st = ''paused'' then Human_interrupt
      else if rs_dispatch_status st = ''completed'' then Collect
      else Fail)"

definition state_verdict :: "run_state \<Rightarrow> pyval" where
  "state_verdict st = (case map_of (rs_verification st) ''verdict'' of None \<Rightarrow> PyStr ''fail'' | Some v \<Rightarrow> v)"

definition route_after_verify :: "root_env \<Rightarrow> run_state \<Rightarrow> root_node" where
  "route_after_verify e st =
     (if state_verdict st = PyStr ''pass'' then Finalize
      else if state_verdict st = PyStr ''repair''
      then (if rs_repair_round st < rv_max_repair_rounds e * 3 then Repair else Fail)
      else if state_verdict st = PyStr ''replan''
      then (if rs_repair_round st < rv_max_repair_rounds e * 3 then Replan else Fail)
      else if state_verdict st = PyStr ''human_required'' then Human_interrupt
      else Fail)"

text \<open>The edges of \<open>_compile\<close>; \<open>None\<close> is END, and a mode without an edge is an error.\<close>

definition next_node :: "root_env \<Rightarrow> root_node \<Rightarrow> run_state \<Rightarrow> root_world \<Rightarrow> root_exn + root_node option" where
  "next_node e n st w =
     (case n of
        Intake \<Rightarrow> Inr (Some Complexity_router)
      | Complexity_router \<Rightarrow>
          if rs_mode st = ''single'' then Inr (Some Single_plan)
          else if rs_mode st = ''team'' then Inr (Some Team_supervisor) else Inl Unknown_route
      | Single_plan \<Rightarrow> Inr (Some Build_team)
      | Team_supervisor \<Rightarrow> Inr (Some Build_team)
      | Build_team \<Rightarrow> Inr (Some (if has_error st then Fail else Dispatch))
      | Dispatch \<Rightarrow> Inr (Some (route_after_dispatch e st w))
      | Collect \<Rightarrow> Inr (Some Verify)
      | Verify \<Rightarrow> Inr (Some (route_after_verify e st))
      | Repair \<Rightarrow> Inr (Some Build_team)
      | Replan \<Rightarrow> Inr (Some Team_supervisor)
      | Human_interrupt \<Rightarrow> Inr (Some (if has_error st then Fail else Dispatch))
      | Finalize \<Rightarrow> Inr None
      | Fail \<Rightarrow> Inr None)"

text \<open>One node; \<open>None\<close> is an interrupt that waits for the human. A resumed run executes the interrupted node again.\<close>

definition stepped :: "run_state root \<Rightarrow> run_state option root" where
  "stepped m = chain m (\<lambda>st. giving (Some st))"

definition human_interrupt :: "root_env \<Rightarrow> nat \<Rightarrow> run_state \<Rightarrow> run_state option root" where
  "human_interrupt e k st =
     chain (event ''human_input_requested'') (\<lambda>_.
     (case rv_answer e k of
        None \<Rightarrow> giving None
      | Some v \<Rightarrow> (case answered v st of Inl x \<Rightarrow> throwing x | Inr st' \<Rightarrow> giving (Some st'))))"

fun run_node :: "root_env \<Rightarrow> nat \<Rightarrow> root_node \<Rightarrow> run_state \<Rightarrow> run_state option root" where
  "run_node e k Intake st = stepped (intake st)"
| "run_node e k Complexity_router st = stepped (complexity_router e k st)"
| "run_node e k Single_plan st = stepped (single_plan e k st)"
| "run_node e k Team_supervisor st = stepped (team_supervisor e k st)"
| "run_node e k Build_team st = stepped (build_team e k st)"
| "run_node e k Dispatch st = stepped (dispatch e k st)"
| "run_node e k Collect st = stepped (collect e st)"
| "run_node e k Verify st = stepped (verify e k st)"
| "run_node e k Repair st = stepped (repair e k st)"
| "run_node e k Replan st = stepped (replan e k st)"
| "run_node e k Human_interrupt st = human_interrupt e k st"
| "run_node e k Finalize st = stepped (finalize_run e k st)"
| "run_node e k Fail st = stepped (fail_run st)"

datatype outcome = Ended run_state | Waiting root_node run_state | Out_of_steps

fun root_run :: "root_env \<Rightarrow> nat \<Rightarrow> nat \<Rightarrow> root_node \<Rightarrow> run_state \<Rightarrow> outcome root" where
  "root_run e 0 k n st = giving Out_of_steps"
| "root_run e (Suc steps) k n st =
     chain (run_node e k n st) (\<lambda>r w.
       (case r of
          None \<Rightarrow> giving (Waiting n st) w
        | Some st' \<Rightarrow>
            (case next_node e n st' w of
               Inl x \<Rightarrow> throwing x w
             | Inr None \<Rightarrow> giving (Ended st') w
             | Inr (Some n') \<Rightarrow> root_run e steps (Suc k) n' st' w)))"

text \<open>\<open>max_repair_rounds or settings.max_repair_rounds\<close>.\<close>

definition effective_rounds :: "int option \<Rightarrow> int \<Rightarrow> int" where
  "effective_rounds given configured = (case given of None \<Rightarrow> configured | Some n \<Rightarrow> or_int n configured)"

section \<open>The result\<close>

record orchestration_result =
  or_status :: string
  or_mode :: string
  or_task_graph_version :: int
  or_total_tasks :: nat
  or_succeeded_tasks :: nat
  or_failed_tasks :: nat
  or_verification_verdict :: pyval
  or_rounds :: int
  or_error :: pyval
  or_summary :: pyval

definition result_status :: "string \<Rightarrow> string" where
  "result_status s =
     (if s = ''succeeded'' then ''completed'' else if s = ''paused'' \<or> s = ''waiting_human'' then ''interrupted'' else s)"

definition to_result :: "run_state \<Rightarrow> orchestration_result" where
  "to_result st =
     (let nodes = (case rs_graph st of
            Some (Graph_json g) \<Rightarrow> (case parse_graph (Graph_json g) of Inr g' \<Rightarrow> map snd (graph_nodes g') | Inl _ \<Rightarrow> [])
          | _ \<Rightarrow> []);
          look = (\<lambda>key. case map_of (rs_verification st) key of None \<Rightarrow> PyStr [] | Some v \<Rightarrow> v)
      in \<lparr>or_status = result_status (rs_status st), or_mode = rs_mode st, or_task_graph_version = rs_graph_version st,
          or_total_tasks = length nodes,
          or_succeeded_tasks = length (filter (\<lambda>n. node_status n = Node_SUCCEEDED) nodes),
          or_failed_tasks = length (filter (\<lambda>n. node_status n = Node_FAILED) nodes),
          or_verification_verdict = look ''verdict'', or_rounds = rs_dispatch_rounds st, or_error = rs_error st,
          or_summary = (if truthy (rs_final_output st) then rs_final_output st else look ''summary'')\<rparr>)"

definition waiting_state :: "run_state \<Rightarrow> run_state" where
  "waiting_state st = st\<lparr>rs_status := ''waiting_human'', rs_phase := ''human_interrupt'',
     rs_error := (if has_error st then rs_error st else PyStr ''human input required'')\<rparr>"

text \<open>At its recursion limit LangGraph raises.\<close>

definition outcome_result :: "outcome \<Rightarrow> orchestration_result root" where
  "outcome_result x = (case x of
     Ended st \<Rightarrow> giving (to_result st) | Waiting _ st \<Rightarrow> giving (to_result (waiting_state st))
   | Out_of_steps \<Rightarrow> throwing Recursion_limit)"

definition invoke :: "root_env \<Rightarrow> nat \<Rightarrow> string \<Rightarrow> string \<Rightarrow> orchestration_result root" where
  "invoke e steps goal requested =
     chain (root_run e steps 0 Intake (initial_state goal requested (rv_resume_graph e))) outcome_result"

text \<open>With \<open>resume\<close> the run goes on at the node the checkpoint stopped at.\<close>

definition resume_invoke :: "root_env \<Rightarrow> nat \<Rightarrow> nat \<Rightarrow> root_node \<Rightarrow> run_state \<Rightarrow> orchestration_result root" where
  "resume_invoke e steps k n st = chain (root_run e steps k n st) outcome_result"

end
