(* ===== verification/Root_Run_Props.thy ===== *)
theory Root_Run_Props
  imports Root_Run Task_Board_Inv
begin

text \<open>
  The run graph: what every node leaves of the state (\<open>yields\<close>), that a run succeeds only behind a passed verification of a
  finished board, and that the repair budget bounds a run, up to the turns to the human and from the dispatch to a new plan.
\<close>

section \<open>Results of a node\<close>

named_theorems yielding

definition yields :: "(root_world \<Rightarrow> 'a \<Rightarrow> bool) \<Rightarrow> 'a root \<Rightarrow> bool" where
  "yields P m \<longleftrightarrow> (\<forall>w w' y. m w = (w', Inr y) \<longrightarrow> P w' y)"

lemma yieldsD: "yields P m \<Longrightarrow> m w = (w', Inr y) \<Longrightarrow> P w' y"
  by (auto simp: yields_def)

lemma yields_giving [yielding]: "(\<And>w. P w x) \<Longrightarrow> yields P (giving x)"
  by (simp add: yields_def giving_def)

lemma yields_throwing [yielding]: "yields P (throwing x)"
  by (simp add: yields_def throwing_def)

lemma chain_Inr: "chain m k w = (w', Inr y) \<longleftrightarrow> (\<exists>w1 x. m w = (w1, Inr x) \<and> k x w1 = (w', Inr y))"
  by (auto simp: chain_def split: prod.splits sum.splits)

lemma yields_chain [yielding]: "(\<And>x. yields P (k x)) \<Longrightarrow> yields P (chain m k)"
  by (auto simp: yields_def chain_Inr)

lemma yields_guarded [yielding]: "yields P m \<Longrightarrow> (\<And>x. yields P (h x)) \<Longrightarrow> yields P (guarded m h)"
  by (auto simp: yields_def guarded_def split: prod.splits sum.splits)

lemma yields_asked:
  "(\<And>w w1 r w' y. f w = (w1, r) \<Longrightarrow> k r w1 = (w', Inr y) \<Longrightarrow> P w' y) \<Longrightarrow> yields P (chain (asked f) k)"
  by (auto simp: yields_def chain_def asked_def giving_def split: prod.splits)

text \<open>The statuses a run has before its end.\<close>

definition open_status :: "string \<Rightarrow> bool" where
  "open_status s \<longleftrightarrow> s \<in> {''created'', ''running'', ''failed''}"

lemma open_statuses [simp]: "open_status ''created''" "open_status ''running''" "open_status ''failed''"
  by (simp_all add: open_status_def)

definition frame :: "run_state \<Rightarrow> run_state \<Rightarrow> bool" where
  "frame st st' \<longleftrightarrow> rs_repair_round st' = rs_repair_round st \<and> open_status (rs_status st') \<and> rs_goal st' = rs_goal st"

lemma planned_fields [simp]:
  "rs_goal (planned g st) = rs_goal st"
  "rs_repair_round (planned g st) = rs_repair_round st" "rs_status (planned g st) = rs_status st"
  by (simp_all add: planned_def)

lemma failed_fields [simp]:
  "rs_goal (failed_team x st) = rs_goal st" "rs_goal (failed_dispatch x st) = rs_goal st" "rs_goal (dispatched a g st) = rs_goal st"
  "rs_repair_round (failed_team x st) = rs_repair_round st" "rs_status (failed_team x st) = ''failed''"
  "rs_repair_round (failed_dispatch x st) = rs_repair_round st" "rs_status (failed_dispatch x st) = ''failed''"
  "rs_repair_round (dispatched a g st) = rs_repair_round st" "rs_status (dispatched a g st) = rs_status st"
  by (simp_all add: failed_team_def failed_dispatch_def dispatched_def)

text \<open>The goal the run goes on with; an empty one is left as it was.\<close>

definition intake_goal :: "string \<Rightarrow> string" where
  "intake_goal goal = (if strip goal = [] then goal else strip goal)"

lemma frame_intake: "open_status (rs_status st) \<Longrightarrow> yields (\<lambda>_ st'.
    rs_repair_round st' = rs_repair_round st \<and> open_status (rs_status st') \<and> rs_goal st' = intake_goal (rs_goal st)) (intake st)"
  by (auto simp: intake_def intake_goal_def Let_def intro!: yielding)

lemma frame_router: "open_status (rs_status st) \<Longrightarrow> yields (\<lambda>_. frame st) (complexity_router e k st)"
  by (auto simp: complexity_router_def Let_def frame_def intro!: yielding)

lemma frame_single: "open_status (rs_status st) \<Longrightarrow> yields (\<lambda>_. frame st) (single_plan e k st)"
  by (auto simp: single_plan_def Let_def frame_def intro!: yielding split: option.split)

lemma frame_team: "open_status (rs_status st) \<Longrightarrow>
    yields (\<lambda>_ st'. frame st st' \<and> rs_error st' = PyNone) (team_supervisor e k st)"
  by (auto simp: team_supervisor_def frame_def intro!: yielding)

lemma frame_build: "open_status (rs_status st) \<Longrightarrow> yields (\<lambda>_. frame st) (build_team e k st)"
  by (auto simp: build_team_def frame_def intro!: yielding split: sum.split)

lemma frame_dispatch: "open_status (rs_status st) \<Longrightarrow> yields (\<lambda>_. frame st) (dispatch e k st)"
proof -
  assume st: "open_status (rs_status st)"
  have "yields (\<lambda>_. frame st) (\<lambda>w. let g2 = sync_board_to_graph (rv_clock e k 0) (board_list e w) (da_graph a) in
      chain (persist_plan e g2) (\<lambda>_. chain (event ''dispatch_completed'') (\<lambda>_. giving (dispatched a g2 st))) w)" for a
    using st by (auto simp: yields_def chain_Inr giving_def frame_def Let_def)
  with st show ?thesis
    unfolding dispatch_def by (auto simp: frame_def intro!: yielding split: sum.split)
qed

lemma frame_collect: "open_status (rs_status st) \<Longrightarrow> yields (\<lambda>_. frame st) (collect e st)"
  by (auto simp: collect_def yields_def chain_Inr giving_def frame_def Let_def)

lemma load_plan_world: "load_plan st w = (w', r) \<Longrightarrow> w' = w"
  by (auto simp: load_plan_def giving_def throwing_def split: option.splits sum.splits)

lemma event_world: "event x w = (w', r) \<longleftrightarrow> w' = w\<lparr>rw_events := rw_events w @ [''root_graph:'' @ x]\<rparr> \<and> r = Inr ()"
  by (auto simp: event_def giving_def)

lemma board_list_event [simp]: "board_list e (w\<lparr>rw_events := x\<rparr>) = board_list e w"
  by (simp add: board_list_def)

text \<open>What a verification leaves: a blocked run, a failed verifier or its answer; the board is as before.\<close>

lemma verify_cases:
  assumes "verify e k st w = (w', Inr st')"
  obtains (blocked) reason where "board_list e w = [] \<or> list_ex incomplete (board_list e w)" "board_list e w' = board_list e w"
      "st' = st\<lparr>rs_phase := ''verification_failed'', rs_verification := blocked_summary reason, rs_error := PyStr reason\<rparr>"
    | (raised) x where "board_list e w' = board_list e w" "st' = st\<lparr>rs_phase := ''verification_failed'',
        rs_verification := [(''verdict'', PyStr ''repair''), (''summary'', PyStr x)], rs_error := PyStr x\<rparr>"
    | (answered) a g where "board_list e w \<noteq> []" "\<not> list_ex incomplete (board_list e w)" "board_list e w' = board_list e w"
        "rv_verify e k (rs_goal st) (verification_artifacts e w g) w = Inr a"
        "st' = st\<lparr>rs_phase := ''verified'', rs_verification := verdict_summary a, rs_error := PyNone\<rparr>"
proof -
  obtain g where g: "load_plan st w = (w, Inr g)"
    using assms load_plan_world unfolding verify_def chain_Inr by blast
  show thesis
  proof (cases "board_list e w = [] \<or> list_ex incomplete (board_list e w)")
    case True
    with assms g show thesis
      by (intro blocked [of "blocked_reason (board_list e w)"]) (auto simp: verify_def chain_def event_def giving_def Let_def)
  next
    case False
    show thesis
    proof (cases "rv_verify e k (rs_goal st) (verification_artifacts e w g) w")
      case (Inl x)
      with False assms g show thesis
        by (intro raised [of x]) (simp_all add: verify_def chain_def giving_def Let_def)
    next
      case (Inr a)
      with False assms g have "w' = w\<lparr>rw_events := rw_events w @ [''root_graph:verification_completed'']\<rparr>"
        "st' = st\<lparr>rs_phase := ''verified'', rs_verification := verdict_summary a, rs_error := PyNone\<rparr>"
        by (simp_all add: verify_def chain_def event_def giving_def Let_def)
      with False Inr show thesis by (intro answered [of g a]) simp_all
    qed
  qed
qed

lemma frame_verify: "open_status (rs_status st) \<Longrightarrow> yields (\<lambda>_. frame st) (verify e k st)"
  by (auto simp: yields_def frame_def elim!: verify_cases)

text \<open>A repair either uses one of the rounds that are left, or leaves an error.\<close>

definition repair_frame :: "root_env \<Rightarrow> run_state \<Rightarrow> run_state \<Rightarrow> bool" where
  "repair_frame e st st' \<longleftrightarrow> open_status (rs_status st') \<and> rs_goal st' = rs_goal st \<and>
     (has_error st' \<and> rs_repair_round st' = rs_repair_round st \<or>
      rs_error st' = PyNone \<and> rs_repair_round st' = rs_repair_round st + 1 \<and> rs_repair_round st < rv_max_repair_rounds e * 3)"

lemma ended_repairs:
  "x \<noteq> [] \<Longrightarrow> repair_frame e st (exhausted x st)" "x \<noteq> [] \<Longrightarrow> repair_frame e st (unrepairable x st)"
  "open_status (rs_status st) \<Longrightarrow> rs_repair_round st < rv_max_repair_rounds e * 3 \<Longrightarrow> repair_frame e st (repaired r g st)"
  by (simp_all add: repair_frame_def exhausted_def unrepairable_def repaired_def has_error_def)

lemma frame_repair:
  assumes "open_status (rs_status st)"
  shows "yields (\<lambda>_. repair_frame e st) (repair e k st)"
  unfolding repair_def yields_def chain_Inr
  using assms
  by (auto simp: chain_Inr giving_def Let_def split: if_splits prod.splits
      intro!: ended_repairs)

lemma frame_replan: "open_status (rs_status st) \<Longrightarrow>
    yields (\<lambda>_ st'. open_status (rs_status st') \<and> rs_goal st' = rs_goal st \<and> rs_error st' = PyNone \<and> rs_repair_round st' = rs_repair_round st + 1) (replan e k st)"
  by (auto simp: replan_def yields_def chain_Inr giving_def Let_def)

lemma frame_human: "open_status (rs_status st) \<Longrightarrow>
    yields (\<lambda>_ r. \<forall>st'. r = Some st' \<longrightarrow> frame st st') (human_interrupt e k st)"
  by (auto simp: human_interrupt_def answered_def denied_state_def resumed_state_def frame_def intro!: yielding
      split: option.splits pyval.splits if_splits)

lemma frame_fail: "yields (\<lambda>_. frame st) (fail_run st)"
  by (auto simp: fail_run_def frame_def intro!: yielding)

lemma stepped_Inr: "stepped m w = (w', Inr r) \<longleftrightarrow> (\<exists>st'. r = Some st' \<and> m w = (w', Inr st'))"
  by (auto simp: stepped_def chain_Inr giving_def)

text \<open>Only \<open>finalize\<close> makes a run succeed.\<close>

lemma only_finalize_succeeds:
  assumes "run_node e k n st w = (w', Inr (Some st'))" "n \<noteq> Finalize" "open_status (rs_status st)"
  shows "open_status (rs_status st')"
  using assms
  by (cases n) (auto simp: stepped_Inr frame_def repair_frame_def
      dest: yieldsD [OF frame_intake] yieldsD [OF frame_router] yieldsD [OF frame_single] yieldsD [OF frame_team]
        yieldsD [OF frame_build] yieldsD [OF frame_dispatch] yieldsD [OF frame_collect] yieldsD [OF frame_verify]
        yieldsD [OF frame_repair] yieldsD [OF frame_replan] yieldsD [OF frame_human] yieldsD [OF frame_fail])

section \<open>Success\<close>

lemma goal_after:
  assumes "run_node e k n st w = (w', Inr (Some st'))" "n \<noteq> Finalize" "open_status (rs_status st)"
  shows "rs_goal st' = (if n = Intake then intake_goal (rs_goal st) else rs_goal st)"
  using assms
  by (cases n) (auto simp: stepped_Inr frame_def repair_frame_def
      dest: yieldsD [OF frame_intake] yieldsD [OF frame_router] yieldsD [OF frame_single] yieldsD [OF frame_team]
        yieldsD [OF frame_build] yieldsD [OF frame_dispatch] yieldsD [OF frame_collect] yieldsD [OF frame_verify]
        yieldsD [OF frame_repair] yieldsD [OF frame_replan] yieldsD [OF frame_human] yieldsD [OF frame_fail])

definition pass_answered :: "root_env \<Rightarrow> string \<Rightarrow> bool" where
  "pass_answered e goal \<longleftrightarrow>
     (\<exists>k g w a. rv_verify e k goal (verification_artifacts e w g) w = Inr a \<and> vr_verdict a = Verdict_PASS)"

lemma verdict_summary_verdict [simp]: "map_of (verdict_summary a) ''verdict'' = Some (PyStr (verdict_value (vr_verdict a)))"
  by (simp add: verdict_summary_def)

lemma blocked_summary_verdict [simp]: "map_of (blocked_summary r) ''verdict'' = Some (PyStr ''fail'')"
  by (simp add: blocked_summary_def)

lemma verdict_value_pass: "verdict_value v = ''pass'' \<longleftrightarrow> v = Verdict_PASS"
  by (cases v) simp_all

lemma finalize_only_after_pass:
  assumes run: "run_node e k n st w = (w', Inr (Some st'))" and next_n: "next_node e n st' w' = Inr (Some Finalize)"
  shows "board_list e w' \<noteq> []" "\<not> list_ex incomplete (board_list e w')" "pass_answered e (rs_goal st')"
proof -
  have n: "n = Verify"
    using next_n by (cases n) (auto simp: next_node_def route_after_dispatch_def Let_def split: if_splits)
  have verdict: "state_verdict st' = PyStr ''pass''"
    using next_n by (simp add: n next_node_def route_after_verify_def split: if_splits)
  from run n have "verify e k st w = (w', Inr st')" by (simp add: stepped_Inr)
  then have "board_list e w' \<noteq> [] \<and> \<not> list_ex incomplete (board_list e w') \<and> pass_answered e (rs_goal st')"
  proof (cases rule: verify_cases)
    case (answered a g)
    from verdict answered(5) have "vr_verdict a = Verdict_PASS" by (simp add: state_verdict_def verdict_value_pass)
    with answered show ?thesis by (auto simp: pass_answered_def)
  qed (use verdict in \<open>auto simp: state_verdict_def\<close>)
  then show "board_list e w' \<noteq> []" "\<not> list_ex incomplete (board_list e w')" "pass_answered e (rs_goal st')" by blast+
qed

text \<open>The marks of \<open>finalize\<close> only touch tasks that are produced or being verified.\<close>

lemma listed_after_commit:
  assumes "map_of (board_tasks b) k = Some t" "P t \<Longrightarrow> P t'" "\<forall>x \<in> set (list_by_run r b). P x" "b' = fst (commit wr k t' y b)"
  shows "\<forall>x \<in> set (list_by_run r b'). P x"
proof -
  have keys: "run_keys b' r = run_keys b r"
    by (simp add: assms(4) commit_def persist_def)
  have tasks: "map_of (board_tasks b') = (map_of (board_tasks b))(k \<mapsto> t')"
    by (simp add: assms(4) commit_def persist_def update_conv')
  have old: "P x" if "j \<in> set (run_keys b r)" "map_of (board_tasks b) j = Some x" for j x
    using assms(3) that by (cases j) (force simp: list_by_run_def raw_list_by_run_def List.map_filter_def)
  show ?thesis
    using old assms(1,2) by (auto simp: list_by_run_def raw_list_by_run_def keys tasks List.map_filter_def split: if_splits)
qed

lemma marks_keep_complete:
  assumes "\<forall>x \<in> set (list_by_run r b). \<not> incomplete x"
  shows "\<forall>x \<in> set (list_by_run r (fst (mark_verifying wr now i (Some q) b))). \<not> incomplete x"
    "\<forall>x \<in> set (list_by_run r (fst (mark_verified wr t1 t2 i (Some q) b))). \<not> incomplete x"
proof -
  show "\<forall>x \<in> set (list_by_run r (fst (mark_verifying wr now i (Some q) b))). \<not> incomplete x"
  proof (cases "map_of (board_tasks b) (q, i)")
    case (Some t)
    let ?t = "t\<lparr>bt_status := Board_VERIFYING, bt_updated_at := now\<rparr>"
    have "\<forall>x \<in> set (list_by_run r (fst (commit wr (q, i) ?t True b))). \<not> incomplete x" if "bt_status t = Board_PRODUCED"
      using Some that assms by (intro listed_after_commit [OF Some _ _ refl]) (auto simp: incomplete_def)
    with assms Some show ?thesis by (simp add: mark_verifying_def raw_get_run)
  qed (use assms in \<open>simp add: mark_verifying_def raw_get_run\<close>)
  show "\<forall>x \<in> set (list_by_run r (fst (mark_verified wr t1 t2 i (Some q) b))). \<not> incomplete x"
  proof (cases "map_of (board_tasks b) (q, i)")
    case (Some t)
    let ?t = "t\<lparr>bt_status := Board_SUCCEEDED, bt_completed_at := Some t1, bt_updated_at := t2\<rparr>"
    have "\<forall>x \<in> set (list_by_run r (fst (commit wr (q, i) ?t True b))). \<not> incomplete x"
      using assms by (intro listed_after_commit [OF Some _ _ refl]) (auto simp: incomplete_def)
    with assms Some show ?thesis by (simp add: mark_verified_def raw_get_run)
  qed (use assms in \<open>simp add: mark_verified_def raw_get_run\<close>)
qed

definition finished_board :: "root_env \<Rightarrow> root_world \<Rightarrow> bool" where
  "finished_board e w \<longleftrightarrow> (\<forall>x \<in> set (board_list e w). \<not> incomplete x)"

lemma on_root_board_world: "world_board (fst (on_root_board r w)) = fst r"
  by (cases r, cases "snd r") (simp_all add: on_root_board_def giving_def throwing_def Let_def)

lemma finished_marks:
  assumes "finished_board e w"
  shows "finished_board e (fst (on_root_board (mark_verifying wr now i (Some q) (world_board w)) w))"
    "finished_board e (fst (on_root_board (mark_verified wr t1 t2 i (Some q) (world_board w)) w))"
  using assms unfolding finished_board_def board_list_def on_root_board_world by (rule marks_keep_complete)+

text \<open>What a node keeps of the world, however it ends.\<close>

named_theorems keeping

definition keeps :: "(root_world \<Rightarrow> bool) \<Rightarrow> 'a root \<Rightarrow> bool" where
  "keeps I m \<longleftrightarrow> (\<forall>w. I w \<longrightarrow> I (fst (m w)))"

lemma keeps_giving [keeping]: "keeps I (giving x)"
  by (simp add: keeps_def giving_def)

lemma keeps_throwing [keeping]: "keeps I (throwing x)"
  by (simp add: keeps_def throwing_def)

lemma keeps_chain [keeping]: "keeps I m \<Longrightarrow> (\<And>x. keeps I (k x)) \<Longrightarrow> keeps I (chain m k)"
  by (auto simp: keeps_def chain_def split: prod.splits sum.splits)

lemma keeps_if [keeping]: "keeps I m \<Longrightarrow> keeps I m' \<Longrightarrow> keeps I (if c then m else m')"
  by simp

lemma finalize_each_finished: "keeps (finished_board e) (finalize_each e k n ts)"
proof (induction ts arbitrary: n)
  case (Cons t ts)
  have verifying: "keeps (finished_board e) (\<lambda>w. on_root_board (mark_verifying wr now i (Some q) (world_board w)) w)"
    for wr now i q by (simp add: keeps_def finished_marks)
  have verified: "keeps (finished_board e) (\<lambda>w. case get i (Some q) (world_board w) of
      Some c \<Rightarrow> if bt_status c = Board_VERIFYING then on_root_board (mark_verified wr t1 t2 i (Some q) (world_board w)) w else giving True w
    | None \<Rightarrow> giving True w)" for wr t1 t2 i q
    by (auto simp: keeps_def finished_marks giving_def split: option.split)
  show ?case by (auto simp: Let_def intro!: keeping verifying verified Cons)
qed (simp add: keeping)

lemma board_list_service: "board_list e (w\<lparr>rw_service := (rw_service w)\<lparr>sv_board := b\<rparr>\<rparr>) = list_by_run (rv_run_id e) b"
  by (simp add: board_list_def)

lemma persist_plan_board: "board_list e (fst (persist_plan e g w)) = board_list e w"
  by (auto simp: persist_plan_def on_service_def put_snapshot_def ok_def board_list_def giving_def throwing_def split: prod.splits sum.splits)

lemma finalize_finished:
  assumes "finalize_run e k st w = (w', Inr st')" "finished_board e w"
  shows "finished_board e w'" "rs_goal st' = rs_goal st"
proof -
  from assms(1) obtain g w1 w2 where g: "load_plan st w = (w, Inr g)"
    and w1: "finalize_each e k 1 (board_list e w) w = (w1, Inr ())"
    and w2: "persist_plan e (sync_board_to_graph (rv_clock e k 0) (board_list e w1) g) w1 = (w2, Inr ())"
    and w': "w' = w2\<lparr>rw_events := rw_events w2 @ [''root_graph:run_finalized'']\<rparr>" and st': "rs_goal st' = rs_goal st"
    unfolding finalize_run_def chain_Inr event_world giving_def Let_def
    using load_plan_world by fastforce
  have "finished_board e w1"
    using finalize_each_finished [of e k 1 "board_list e w"] assms(2) w1 by (auto simp: keeps_def)
  moreover have "board_list e w' = board_list e w1"
    using persist_plan_board [of e _ w1] w2 by (simp add: w') (metis fst_conv)
  ultimately show "finished_board e w'" by (simp add: finished_board_def)
  show "rs_goal st' = rs_goal st" by (fact st')
qed

text \<open>A run that succeeds did so in \<open>finalize\<close>, behind a passed verification.\<close>

definition gated :: "root_env \<Rightarrow> string \<Rightarrow> root_node \<Rightarrow> run_state \<Rightarrow> root_world \<Rightarrow> bool" where
  "gated e goal n st w \<longleftrightarrow> open_status (rs_status st) \<and> (if n = Intake then intake_goal (rs_goal st) else rs_goal st) = goal \<and>
     (n = Finalize \<longrightarrow> board_list e w \<noteq> [] \<and> finished_board e w \<and> pass_answered e goal)"

lemma no_edge_to_intake: "next_node e n st w = Inr (Some n') \<Longrightarrow> n' \<noteq> Intake"
  by (cases n) (auto simp: next_node_def route_after_dispatch_def route_after_verify_def Let_def split: if_splits)

lemma gated_step:
  assumes "gated e goal n st w" "run_node e k n st w = (w', Inr (Some st'))" "next_node e n st' w' = Inr (Some n')"
  shows "gated e goal n' st' w'"
proof -
  have n: "n \<noteq> Finalize" using assms(3) by (auto simp: next_node_def)
  then have "open_status (rs_status st')" "rs_goal st' = goal"
    using assms only_finalize_succeeds [OF assms(2)] goal_after [OF assms(2)] by (auto simp: gated_def)
  with finalize_only_after_pass [OF assms(2)] assms(3) no_edge_to_intake [OF assms(3)] show ?thesis
    by (auto simp: gated_def finished_board_def list_ex_iff)
qed

lemma gated_end:
  assumes "gated e goal n st w" "run_node e k n st w = (w', Inr (Some st'))" "next_node e n st' w' = Inr None"
    "\<not> open_status (rs_status st')"
  shows "finished_board e w' \<and> pass_answered e goal"
proof -
  have n: "n = Finalize"
    using assms only_finalize_succeeds [OF assms(2)] by (auto simp: gated_def)
  with assms(2) have "finalize_run e k st w = (w', Inr st')" by (simp add: stepped_Inr)
  from finalize_finished [OF this] assms(1) n show ?thesis by (simp add: gated_def)
qed

text \<open>A step of the run, and its end.\<close>

lemma root_run_step:
  "root_run e (Suc m) k n st w = (case run_node e k n st w of
     (w', Inl x) \<Rightarrow> (w', Inl x)
   | (w', Inr None) \<Rightarrow> (w', Inr (Waiting n st))
   | (w', Inr (Some st')) \<Rightarrow> (case next_node e n st' w' of
       Inl x \<Rightarrow> (w', Inl x) | Inr None \<Rightarrow> (w', Inr (Ended st')) | Inr (Some n') \<Rightarrow> root_run e m (Suc k) n' st' w'))"
  by (simp add: chain_def giving_def throwing_def split: prod.split sum.split option.split)

lemma gated_run:
  assumes "gated e goal n st w" "root_run e m k n st w = (w', Inr (Ended st'))" "\<not> open_status (rs_status st')"
  shows "finished_board e w' \<and> pass_answered e goal"
  using assms
proof (induction m arbitrary: k n st w)
  case 0
  then show ?case by (simp add: giving_def)
next
  case (Suc m)
  obtain w1 r where r: "run_node e k n st w = (w1, r)" by force
  from Suc.prems(2) r obtain st1 where st1: "r = Inr (Some st1)"
    by (auto simp: root_run_step simp del: root_run.simps split: sum.splits option.splits)
  show ?case
  proof (cases "next_node e n st1 w1")
    case (Inr next_n)
    show ?thesis
    proof (cases next_n)
      case None
      with Inr Suc.prems r st1 have "w' = w1" "st' = st1" by (simp_all add: root_run_step del: root_run.simps)
      with None Inr Suc.prems r st1 gated_end show ?thesis by blast
    next
      case (Some n')
      with Inr Suc.prems r st1 have "root_run e m (Suc k) n' st1 w1 = (w', Inr (Ended st'))"
        by (simp add: root_run_step del: root_run.simps)
      with Suc.IH Suc.prems gated_step r st1 Inr Some show ?thesis by blast
    qed
  qed (use Suc.prems r st1 in \<open>simp add: root_run_step del: root_run.simps\<close>)
qed

section \<open>The repair budget bounds a run\<close>

definition rounds_left :: "root_env \<Rightarrow> run_state \<Rightarrow> nat" where
  "rounds_left e st = nat (rv_max_repair_rounds e * 3 - rs_repair_round st)"

text \<open>
  The nodes a run executes from here at most, as long as the dispatch does not go to \<open>replan\<close> by itself and nobody answers
  for the human: each of these two, which nothing limits, can add four.
\<close>

definition nodes_left :: "root_env \<Rightarrow> root_node \<Rightarrow> run_state \<Rightarrow> nat" where
  "nodes_left e n st =
     (let r = 6 * rounds_left e st in
      case n of
        Intake \<Rightarrow> 8 + r | Complexity_router \<Rightarrow> 7 + r | Single_plan \<Rightarrow> 6 + r | Team_supervisor \<Rightarrow> 6 + r
      | Build_team \<Rightarrow> if has_error st then 2 else 5 + r
      | Dispatch \<Rightarrow> 4 + r | Collect \<Rightarrow> 3 + r | Verify \<Rightarrow> 2 + r | Repair \<Rightarrow> max 3 r
      | Replan \<Rightarrow> 1 + max 6 r | Human_interrupt \<Rightarrow> 5 + r | Finalize \<Rightarrow> 1 | Fail \<Rightarrow> 1)"

text \<open>The nodes a run executes, in order, \<open>m\<close> of them at most.\<close>

fun nodes_run :: "root_env \<Rightarrow> nat \<Rightarrow> nat \<Rightarrow> root_node \<Rightarrow> run_state \<Rightarrow> root_world \<Rightarrow> root_node list" where
  "nodes_run e 0 k n st w = []"
| "nodes_run e (Suc m) k n st w = n #
     (case run_node e k n st w of
        (w', Inr (Some st')) \<Rightarrow>
          (case next_node e n st' w' of Inr (Some n') \<Rightarrow> nodes_run e m (Suc k) n' st' w' | _ \<Rightarrow> [])
      | _ \<Rightarrow> [])"

text \<open>The turns nothing limits: from the dispatch straight to a new plan, and to the human.\<close>

fun unlimited_turns :: "root_node list \<Rightarrow> nat" where
  "unlimited_turns (n # n' # ns) =
     (if n = Dispatch \<and> n' = Replan \<or> n' = Human_interrupt then 1 else 0) + unlimited_turns (n' # ns)"
| "unlimited_turns ns = 0"

lemma rounds_left_cong: "rs_repair_round st' = rs_repair_round st \<Longrightarrow> rounds_left e st' = rounds_left e st"
  by (simp add: rounds_left_def)

lemma rounds_left_next: "rs_repair_round st' = rs_repair_round st + 1 \<Longrightarrow> rounds_left e st' = rounds_left e st - 1"
  by (simp add: rounds_left_def)

lemma chain_giving [simp]: "chain (giving x) k = k x"
  by (simp add: chain_def giving_def fun_eq_iff)

text \<open>A round is still left where a verification sends the run back.\<close>

lemma verify_goes_back:
  "route_after_verify e st \<in> {Repair, Replan} \<Longrightarrow> 0 < rounds_left e st"
  by (auto simp: route_after_verify_def rounds_left_def split: if_splits)

lemma rounds_kept: "frame st st' \<Longrightarrow> rounds_left e st' = rounds_left e st"
  by (simp add: frame_def rounds_left_def)

lemma repair_rounds:
  "repair_frame e st st' \<Longrightarrow> has_error st' \<or> \<not> has_error st' \<and> rounds_left e st = Suc (rounds_left e st')"
  by (auto simp: repair_frame_def rounds_left_def has_error_def)

lemma rounds_after:
  assumes "run_node e k n st w = (w', Inr (Some st'))" "n \<notin> {Repair, Replan, Finalize}" "open_status (rs_status st)"
  shows "rounds_left e st' = rounds_left e st"
proof -
  have "rs_repair_round st' = rs_repair_round st"
    using assms
    by (cases n) (auto simp: stepped_Inr frame_def
        dest: yieldsD [OF frame_intake] yieldsD [OF frame_router] yieldsD [OF frame_single] yieldsD [OF frame_team]
          yieldsD [OF frame_build] yieldsD [OF frame_dispatch] yieldsD [OF frame_collect] yieldsD [OF frame_verify]
          yieldsD [OF frame_human] yieldsD [OF frame_fail])
  then show ?thesis by (rule rounds_left_cong)
qed

lemma route_after_dispatch_in: "route_after_dispatch e st w \<in> {Repair, Replan, Human_interrupt, Collect, Fail}"
  by (simp add: route_after_dispatch_def Let_def)

lemma route_after_verify_in: "route_after_verify e st \<in> {Repair, Replan, Human_interrupt, Finalize, Fail}"
  by (simp add: route_after_verify_def)

lemma nodes_left_step:
  assumes ok: "open_status (rs_status st)"
    and run: "run_node e k n st w = (w', Inr (Some st'))" and next_n: "next_node e n st' w' = Inr (Some n')"
  shows "Suc (nodes_left e n' st') \<le> nodes_left e n st + 4 * unlimited_turns [n, n']"
proof (cases "n \<in> {Repair, Replan, Finalize}")
  case False
  note r = rounds_after [OF run False ok]
  show ?thesis
  proof (cases n)
    case Build_team
    have "st' = st" if "has_error st" using run that by (simp add: Build_team stepped_Inr build_team_def giving_def)
    with r next_n Build_team show ?thesis
      by (cases "has_error st") (auto simp: next_node_def nodes_left_def split: if_splits)
  next
    case Dispatch
    from Dispatch next_n have "n' = route_after_dispatch e st' w'" by (simp add: next_node_def)
    with route_after_dispatch_in [of e st' w'] r Dispatch show ?thesis by (auto simp: nodes_left_def)
  next
    case Verify
    from Verify next_n have "n' = route_after_verify e st'" by (simp add: next_node_def)
    with route_after_verify_in [of e st'] verify_goes_back [of e st'] r Verify show ?thesis by (auto simp: nodes_left_def)
  qed (use r next_n False in \<open>auto simp: next_node_def nodes_left_def Let_def split: if_splits\<close>)
next
  case True
  then consider "n = Repair" "repair e k st w = (w', Inr st')" "n' = Build_team"
    | "n = Replan" "replan e k st w = (w', Inr st')" "n' = Team_supervisor"
    using run next_n by (auto simp: stepped_Inr next_node_def)
  then show ?thesis
  proof cases
    case 1
    with repair_rounds [OF yieldsD [OF frame_repair [OF ok] 1(2)]] show ?thesis by (auto simp: nodes_left_def)
  next
    case 2
    from yieldsD [OF frame_replan [OF ok] 2(2)] have "rounds_left e st' = rounds_left e st - 1"
      by (blast intro: rounds_left_next)
    with 2 show ?thesis by (auto simp: nodes_left_def)
  qed
qed

lemma nodes_left_pos: "0 < nodes_left e n st"
  by (cases n) (auto simp: nodes_left_def Let_def)

lemma unlimited_turns_Cons: "unlimited_turns (n # n' # ns) = unlimited_turns [n, n'] + unlimited_turns (n' # ns)"
  by simp

lemma nodes_run_Cons: "\<exists>ns. nodes_run e m k n st w = (if m = 0 then [] else n # ns)"
  by (cases m) auto

text \<open>So a run executes no more.\<close>

lemma nodes_run_bounded:
  "open_status (rs_status st) \<Longrightarrow>
     length (nodes_run e m k n st w) \<le> nodes_left e n st + 4 * unlimited_turns (nodes_run e m k n st w)"
proof (induction m arbitrary: k n st w)
  case (Suc m)
  obtain w1 r where r: "run_node e k n st w = (w1, r)" by force
  show ?case
  proof (cases "\<exists>st1 n1. r = Inr (Some st1) \<and> next_node e n st1 w1 = Inr (Some n1)")
    case True
    then obtain st1 n1 where s: "r = Inr (Some st1)" "next_node e n st1 w1 = Inr (Some n1)" by blast
    have "n \<noteq> Finalize" using s(2) by (auto simp: next_node_def)
    with r s Suc.prems have ok: "open_status (rs_status st1)" using only_finalize_succeeds by blast
    note step = nodes_left_step [OF Suc.prems r [unfolded s(1)] s(2)]
    have run: "nodes_run e (Suc m) k n st w = n # nodes_run e m (Suc k) n1 st1 w1" using r s by simp
    show ?thesis
    proof (cases m)
      case 0
      then have "nodes_run e (Suc m) k n st w = [n]" unfolding run by simp
      then show ?thesis using nodes_left_pos [of e n st] by simp
    next
      case (Suc m')
      with nodes_run_Cons [of e m "Suc k" n1 st1 w1] obtain ns where ns: "nodes_run e m (Suc k) n1 st1 w1 = n1 # ns" by auto
      have "length (n1 # ns) \<le> nodes_left e n1 st1 + 4 * unlimited_turns (n1 # ns)"
        using Suc.IH [OF ok, of "Suc k" n1 w1] unfolding ns .
      with step show ?thesis unfolding run ns unlimited_turns_Cons [of n n1 ns] by simp
    qed
  next
    case False
    then have "nodes_run e (Suc m) k n st w = [n]"
      using r by (auto split: sum.splits option.splits)
    then show ?thesis using nodes_left_pos [of e n st] by simp
  qed
qed simp

lemma out_of_steps_runs_all:
  "snd (root_run e m k n st w) = Inr Out_of_steps \<Longrightarrow> length (nodes_run e m k n st w) = m"
proof (induction m arbitrary: k n st w)
  case (Suc m)
  obtain w1 r where r: "run_node e k n st w = (w1, r)" by force
  with Suc.prems obtain st1 n1 where s: "r = Inr (Some st1)" "next_node e n st1 w1 = Inr (Some n1)"
    by (auto simp: root_run_step simp del: root_run.simps split: sum.splits option.splits)
  then have "root_run e (Suc m) k n st w = root_run e m (Suc k) n1 st1 w1"
    using r by (simp add: root_run_step del: root_run.simps)
  with Suc.IH [of "Suc k" n1 st1 w1] Suc.prems r s show ?case by simp
qed simp

end
