(* ===== verification/Root_Run_Ends.thy ===== *)
theory Root_Run_Ends
  imports Root_Run_Props Task_Service_Ends
begin

text \<open>
  The run graph's contracts: success, termination, what happens to a waiting run after a repair, to an empty goal, and
  how the board's statuses arrive in the plan; with the concrete runs of their witnesses.
\<close>

section \<open>The plan after a synchronisation\<close>

text \<open>Where a node ends when the board's status is replayed on it.\<close>

definition replay_result :: "task_node_status \<Rightarrow> task_node_status \<Rightarrow> task_node_status" where
  "replay_result s t =
     (if s \<in> {Node_PENDING, Node_READY} \<and> t \<in> {Node_SUCCEEDED, Node_FAILED} then t
      else if s \<in> {Node_PENDING, Node_READY} \<and> t = Node_SKIPPED then Node_RUNNING
      else if s = Node_SUCCEEDED \<and> t = Node_SKIPPED then Node_SKIPPED
      else if is_legal_transition s t then t else s)"

lemma status_of_update:
  "status_of i (fst (update_status t1 t2 i x g)) =
     map_option (\<lambda>s. if is_legal_transition s x then x else s) (status_of i g)"
  by (cases "get_node g i") (auto simp: status_of_def get_node_update_status apply_status_def Let_def)

lemma status_of_update_other: "j \<noteq> i \<Longrightarrow> status_of j (fst (update_status t1 t2 i x g)) = status_of j g"
  by (simp add: status_of_def get_node_update_status)

lemma status_of_replay:
  assumes "status_of i g = Some s"
  shows "status_of i (replay_status now i t g) = Some (replay_result s t)"
  using assms
  by (cases s; cases t) (simp_all add: replay_status_def replay_result_def status_of_update is_legal_transition_def)

lemma status_of_replay_other: "j \<noteq> i \<Longrightarrow> status_of j (replay_status now i t g) = status_of j g"
  by (simp add: replay_status_def status_of_update_other Let_def)

lemma status_of_collect [simp]: "status_of j (collect_outputs i xs g) = status_of j g"
  by (auto simp: collect_outputs_def status_of_def update_conv' split: option.split)

text \<open>What one row of the board asks of the plan.\<close>

definition synced_status :: "board_task \<Rightarrow> task_node_status \<Rightarrow> task_node_status" where
  "synced_status t s = (case task_target t of None \<Rightarrow> s | Some x \<Rightarrow> replay_result s x)"

lemma replay_same: "replay_result s s = s"
  by (cases s) (simp_all add: replay_result_def is_legal_transition_def)

lemma status_of_sync:
  "status_of (bt_task_id t) (sync_task now t g) = map_option (synced_status t) (status_of (bt_task_id t) g)"
  by (auto simp: sync_task_def synced_status_def status_of_def [of _ g] replay_same status_of_replay split: option.split)

lemma status_of_sync_other: "j \<noteq> bt_task_id t \<Longrightarrow> status_of j (sync_task now t g) = status_of j g"
  by (simp add: sync_task_def status_of_replay_other split: option.split)

lemma status_of_sync_all_other: "j \<notin> bt_task_id ` set ts \<Longrightarrow> status_of j (sync_board_to_graph now ts g) = status_of j g"
  unfolding sync_board_to_graph_def by (induction ts arbitrary: g) (simp_all add: status_of_sync_other)

text \<open>Synchronising replays, for every task of the board, the status of the board on the plan's node of that id: the node
  ends in \<open>synced_status\<close>, and a node without a task on the board keeps its status.\<close>

theorem sync_replays_the_board:
  assumes "distinct (map bt_task_id tasks)"
  shows "status_of j (sync_board_to_graph now tasks g) =
    map_option (\<lambda>s. case find (\<lambda>t. bt_task_id t = j) tasks of None \<Rightarrow> s | Some t \<Rightarrow> synced_status t s) (status_of j g)"
  using assms
proof (induction tasks arbitrary: g)
  case Nil
  then show ?case by (simp add: sync_board_to_graph_def option.map_ident)
next
  case (Cons t ts)
  have step: "sync_board_to_graph now (t # ts) g = sync_board_to_graph now ts (sync_task now t g)"
    by (simp add: sync_board_to_graph_def)
  show ?case
  proof (cases "bt_task_id t = j")
    case True
    with Cons.prems have "j \<notin> bt_task_id ` set ts" by auto
    with True status_of_sync show ?thesis by (auto simp: step status_of_sync_all_other)
  qed (use Cons in \<open>simp add: step status_of_sync_other\<close>)
qed

definition board_task_in :: "string \<Rightarrow> board_status \<Rightarrow> board_task" where
  "board_task_in i s = (new_board_task 0 0 i [] ''A'' ''do a'')\<lparr>bt_status := s\<rparr>"

definition one_node_plan :: "task_node_status \<Rightarrow> task_graph" where
  "one_node_plan s = put_node ''a'' ((default_node ''a'')\<lparr>node_status := s\<rparr>) (new_graph 0 ''a'')"

text \<open>A pending node follows the board to success; a failed one does not.\<close>

theorem sync_replays_the_board_witness:
  "status_of ''a'' (sync_board_to_graph 5 [board_task_in ''a'' Board_SUCCEEDED] (one_node_plan Node_PENDING)) = Some Node_SUCCEEDED \<and>
   status_of ''a'' (sync_board_to_graph 5 [board_task_in ''a'' Board_SUCCEEDED] (one_node_plan Node_FAILED)) = Some Node_FAILED"
proof -
  let ?t = "board_task_in ''a'' Board_SUCCEEDED"
  have "distinct (map bt_task_id [?t])" by simp
  note r = sync_replays_the_board [OF this, of "''a''" 5]
  have "bt_task_id ?t = ''a''" "synced_status ?t Node_PENDING = Node_SUCCEEDED" "synced_status ?t Node_FAILED = Node_FAILED"
    "status_of ''a'' (one_node_plan Node_PENDING) = Some Node_PENDING" "status_of ''a'' (one_node_plan Node_FAILED) = Some Node_FAILED"
    by code_simp+
  then show ?thesis using r by simp
qed

section \<open>A run of one task\<close>

definition settle_tasks :: "board_status \<Rightarrow> root_world \<Rightarrow> root_world" where
  "settle_tasks s w = w\<lparr>rw_service := (rw_service w)\<lparr>sv_board := (world_board w)\<lparr>board_tasks :=
     map (\<lambda>(k, t). (k, t\<lparr>bt_status := s\<rparr>)) (board_tasks (world_board w))\<rparr>\<rparr>\<rparr>"

definition demo_answer :: "string \<Rightarrow> task_graph \<Rightarrow> dispatch_answer" where
  "demo_answer s g = \<lparr>da_status = s, da_rounds = 1, da_error = None, da_graph = g\<rparr>"

definition demo_root :: "string \<Rightarrow> board_status \<Rightarrow> root_env" where
  "demo_root answer s = \<lparr>rv_run_id = [], rv_max_repair_rounds = 5, rv_metadata = [], rv_resume_graph = None,
     rv_model = (\<lambda>_ _. Inl ''offline''), rv_planner = (\<lambda>_ _ _. Inr demo_plan),
     rv_policy = new_retry_policy 1 60 None None, rv_build_team = (\<lambda>_ _ w. (w, Inr 1)),
     rv_schedule = (\<lambda>_ g w. (settle_tasks s w, Inr (demo_answer answer g))),
     rv_verify = (\<lambda>_ _ _ _. Inr (plain_result Verdict_PASS [] [] ''good'')),
     rv_answer = (\<lambda>_. None), rv_service = (\<lambda>_ _. demo_env ''e''), rv_mutation_id = (\<lambda>_ _. ''m''),
     rv_write = (\<lambda>_ _. True), rv_reject = (\<lambda>_ _ _. True), rv_clock = (\<lambda>_ _. 0), rv_exn_text = (\<lambda>_. ''raised'')\<rparr>"

definition empty_world :: root_world where
  "empty_world = \<lparr>rw_service = \<lparr>sv_snapshots = [], sv_mutations = [],
       sv_board = \<lparr>board_tasks = [], board_by_run = [], board_persist = True, board_rows = []\<rparr>,
       sv_log = \<lparr>log_events = [], log_envelopes = []\<rparr>\<rparr>, rw_artifacts = None, rw_events = []\<rparr>"

definition demo_run :: "root_world \<times> (root_exn + orchestration_result)" where
  "demo_run = invoke (demo_root ''completed'' Board_SUCCEEDED) 200 ''do it'' ''single'' empty_world"

lemma demo_run_result: "map_sum id or_status (snd demo_run) = Inr ''completed''" "length (board_list (demo_root ''completed'' Board_SUCCEEDED) (fst demo_run)) = 1"
  by code_simp+

section \<open>The end of a run\<close>

lemma reported_status [simp]:
  "or_status (to_result st) = result_status (rs_status st)" "result_status (rs_status (waiting_state st)) = ''interrupted''"
  by (simp_all add: to_result_def waiting_state_def result_status_def Let_def)

text \<open>C24: A run that reports completion went through a passed verification: the verifier answered PASS for its goal, and
  every task of the board that is not superseded is SUCCEEDED in the world the run leaves.\<close>

theorem completed_run_was_verified:
  assumes "invoke e steps goal requested w = (w', Inr r)" "or_status r = ''completed''"
  shows "(\<forall>t \<in> set (board_list e w'). \<not> incomplete t) \<and> pass_answered e (intake_goal goal)"
proof -
  let ?st = "initial_state goal requested (rv_resume_graph e)"
  from assms(1) obtain w1 x where x: "root_run e steps 0 Intake ?st w = (w1, Inr x)" "outcome_result x w1 = (w', Inr r)"
    unfolding invoke_def chain_Inr by blast
  obtain st where st: "x = Ended st" "w' = w1" "r = to_result st"
    using x(2) assms(2) by (cases x) (auto simp: outcome_result_def giving_def throwing_def)
  with assms(2) have "\<not> open_status (rs_status st)" by (auto simp: result_status_def open_status_def)
  moreover have "gated e (intake_goal goal) Intake ?st w" by (simp add: gated_def initial_state_def)
  ultimately show ?thesis using gated_run x(1) st(1,2) unfolding finished_board_def by blast
qed

theorem completed_run_was_verified_witness:
  "\<exists>w' r. invoke (demo_root ''completed'' Board_SUCCEEDED) 200 ''do it'' ''single'' empty_world = (w', Inr r) \<and>
     map bt_status (board_list (demo_root ''completed'' Board_SUCCEEDED) w') = [Board_SUCCEEDED] \<and>
     pass_answered (demo_root ''completed'' Board_SUCCEEDED) ''do it''"
proof -
  let ?e = "demo_root ''completed'' Board_SUCCEEDED"
  from map_sum_InrD [OF demo_run_result(1)] obtain r where r: "snd demo_run = Inr r" "or_status r = ''completed''" by auto
  then have run: "invoke ?e 200 ''do it'' ''single'' empty_world = (fst demo_run, Inr r)"
    by (metis demo_run_def prod.collapse)
  note c = completed_run_was_verified [OF run r(2)]
  have "map current (board_list ?e (fst demo_run)) = [True]" by code_simp
  then obtain t where t: "board_list ?e (fst demo_run) = [t]" "current t" by auto
  with c have "bt_status t = Board_SUCCEEDED" by (simp add: incomplete_def current_def)
  moreover have "intake_goal ''do it'' = ''do it''" by code_simp
  ultimately show ?thesis using run t c by auto
qed


text \<open>A scheduler that always asks for a new plan keeps the run going beyond that bound: the recursion limit ends it.\<close>

definition replanning_root :: root_env where
  "replanning_root = (demo_root ''waiting_human'' Board_REPLAN_REQUIRED)\<lparr>rv_max_repair_rounds := 0\<rparr>"


section \<open>Waiting after a repair\<close>

text \<open>Once a repair has superseded a task, that task keeps REPAIR_REQUIRED on the board, and a run that then waits for a
  human (an approval the repairing agent asked for, say) is not interrupted: it goes to the repair node, finds nothing to
  repair and fails.\<close>

theorem superseded_repair_hides_the_human:
  assumes plan: "load_plan st w = (w, Inr g)" and waiting: "rs_dispatch_status st = ''waiting_human''"
    and old: "Board_REPAIR_REQUIRED \<in> set (map bt_status (board_list e w))"
    and rest: "list_all (\<lambda>t. \<not> current t \<or> bt_status t \<notin> {Board_REPAIR_REQUIRED, Board_SUCCEEDED}) (board_list e w)"
    and round: "rs_repair_round st < rv_max_repair_rounds e * 3"
  shows "\<exists>w' st'. root_run e (Suc (Suc (Suc m))) k (route_after_dispatch e st w) st w = (w', Inr (Ended st')) \<and>
    rs_status st' = ''failed'' \<and>
    rs_error st' = PyStr (''repair_requested_without_repairable_tasks: board='' @ repr_board (board_list e w)) \<and>
    rw_events w' = rw_events w @ [''root_graph:repair_no_candidates'', ''root_graph:run_failed'']"
proof -
  define st1 where "st1 = unrepairable (''repair_requested_without_repairable_tasks: board='' @ repr_board (board_list e w)) st"
  define w1 where "w1 = w\<lparr>rw_events := rw_events w @ [''root_graph:repair_no_candidates'']\<rparr>"
  have route: "route_after_dispatch e st w = Repair"
    using waiting old by (simp add: route_after_dispatch_def)
  have none: "repair_candidates g (board_list e w) = []"
    using rest by (auto simp: repair_candidates_def filter_empty_conv list_all_iff)
  have r: "repair e k st w = (w1, Inr st1)"
    using plan none round by (simp add: repair_def chain_def event_def giving_def Let_def w1_def st1_def)
  have err: "has_error st1" by (simp add: st1_def unrepairable_def has_error_def)
  have b: "build_team e (Suc k) st1 w1 = (w1, Inr st1)" using err by (simp add: build_team_def giving_def)
  show ?thesis
    using err
    by (simp add: route r b stepped_def chain_def giving_def next_node_def fail_run_def event_def)
      (simp add: st1_def unrepairable_def w1_def)
qed

text \<open>The repair \<open>b\<close> of \<open>a\<close> is running and waits for a permission.\<close>

definition repaired_board :: task_board where
  "repaired_board = (let ts = map (\<lambda>t. (([], bt_task_id t), t))
       [(board_task_in ''a'' Board_REPAIR_REQUIRED)\<lparr>bt_metadata := [(''superseded_by_repair'', PyStr ''b'')]\<rparr>,
        board_task_in ''b'' Board_RUNNING]
     in \<lparr>board_tasks = ts, board_by_run = [([], map fst ts)], board_persist = True, board_rows = ts\<rparr>)"

definition repaired_world :: root_world where
  "repaired_world = empty_world\<lparr>rw_service := (rw_service empty_world)\<lparr>sv_board := repaired_board\<rparr>\<rparr>"

definition waiting_run :: run_state where
  "waiting_run = (initial_state ''do it'' ''team'' (Some demo_plan))\<lparr>rs_dispatch_status := ''waiting_human''\<rparr>"

theorem superseded_repair_hides_the_human_witness:
  "\<exists>w' st'. root_run (demo_root ''waiting_human'' Board_RUNNING) 3 0 Repair waiting_run repaired_world = (w', Inr (Ended st')) \<and>
     rs_status st' = ''failed''"
proof -
  let ?e = "demo_root ''waiting_human'' Board_RUNNING"
  have "parse_graph (Graph_json demo_plan) = Inr demo_plan" by code_simp
  then have "load_plan waiting_run repaired_world = (repaired_world, Inr demo_plan)"
    by (simp add: load_plan_def waiting_run_def initial_state_def giving_def)
  moreover have "rs_dispatch_status waiting_run = ''waiting_human''"
    "Board_REPAIR_REQUIRED \<in> set (map bt_status (board_list ?e repaired_world))"
    "list_all (\<lambda>t. \<not> current t \<or> bt_status t \<notin> {Board_REPAIR_REQUIRED, Board_SUCCEEDED}) (board_list ?e repaired_world)"
    "rs_repair_round waiting_run < rv_max_repair_rounds ?e * 3" "route_after_dispatch ?e waiting_run repaired_world = Repair"
    by code_simp+
  ultimately show ?thesis
    using superseded_repair_hides_the_human [of waiting_run repaired_world demo_plan ?e 0 0] by (auto simp: numeral_3_eq_3)
qed

section \<open>An empty goal\<close>

text \<open>The error of an empty goal does not stop the run: no edge leaves the intake but the one to the router, and the
  planner's node clears the error. The planner is asked for the empty goal and the team is built for its plan.\<close>

theorem empty_goal_is_planned:
  assumes "strip goal = []" "rv_resume_graph e = None" "rv_planner e (Suc (Suc k)) 1 goal = Inr g"
  shows "\<exists>st' w'. root_run e (Suc (Suc (Suc m))) k Intake (initial_state goal requested None) w =
      root_run e m (Suc (Suc (Suc k))) Build_team st' w' \<and>
    \<not> has_error st' \<and> rs_graph st' = Some (Graph_json (carry_checks e g)) \<and> rs_status st' = ''failed''"
  using assms
  by (simp add: stepped_def chain_def giving_def intake_def initial_state_def next_node_def complexity_router_def has_error_def
      team_supervisor_def event_def planned_def numeral_3_eq_3)
    (rule exI, rule conjI, rule exI, rule refl, simp)

theorem empty_goal_is_planned_witness:
  "\<exists>st' w'. root_run (demo_root ''completed'' Board_SUCCEEDED) 10 0 Intake (initial_state '' '' ''team'' None) empty_world =
     root_run (demo_root ''completed'' Board_SUCCEEDED) 7 3 Build_team st' w' \<and> \<not> has_error st'"
proof -
  have blank: "strip '' '' = []" by code_simp
  have "rv_resume_graph (demo_root ''completed'' Board_SUCCEEDED) = None"
    "rv_planner (demo_root ''completed'' Board_SUCCEEDED) (Suc (Suc 0)) 1 '' '' = Inr demo_plan" by (simp_all add: demo_root_def)
  from empty_goal_is_planned [OF blank this, of 7 "''team''" empty_world]
  have "\<exists>st' w'. root_run (demo_root ''completed'' Board_SUCCEEDED) (Suc (Suc (Suc 7))) 0 Intake (initial_state '' '' ''team'' None) empty_world =
     root_run (demo_root ''completed'' Board_SUCCEEDED) 7 (Suc (Suc (Suc 0))) Build_team st' w' \<and> \<not> has_error st'" by blast
  moreover have "Suc (Suc (Suc 7)) = 10" "Suc (Suc (Suc 0)) = 3" by simp_all
  ultimately show ?thesis by (simp only:)
qed

end
