(* ===== verification/Verifier_Props.thy ===== *)
theory Verifier_Props
  imports Verifier
begin

text \<open>
  What a verdict of the verifier means: a PASS needs evidence, every programmatic check and the rubric or a stand-in for it;
  a model that cannot be asked never passes a task; evidence whose hash does not match is not shown to the model. The last
  section is about answers that reject without naming a criterion.
\<close>

section \<open>Merging\<close>

lemma rank_pass [simp]: "verdict_rank v = 0 \<longleftrightarrow> v = Verdict_PASS"
  by (cases v) simp_all

lemma rank_inj: "verdict_rank v = verdict_rank v' \<longleftrightarrow> v = v'"
  by (cases v; cases v') simp_all

lemma fold_worse:
  "verdict_rank (fold worse rs v) = fold max (map (\<lambda>r. verdict_rank (vr_verdict r)) rs) (verdict_rank v)"
  by (induction rs arbitrary: v) (simp_all add: worse_def max_def)

lemma fold_max_start: "(n :: nat) \<le> fold max ns n"
  by (induction ns arbitrary: n) (auto intro: order_trans [OF max.cobounded2])

lemma fold_max_member: "(m :: nat) \<in> set ns \<Longrightarrow> m \<le> fold max ns n"
  by (induction ns arbitrary: n) (auto intro: order_trans [OF max.cobounded1 fold_max_start])

lemma worst_pass: "fold worse rs Verdict_PASS = Verdict_PASS \<longleftrightarrow> list_all (\<lambda>r. vr_verdict r = Verdict_PASS) rs"
proof
  assume *: "fold worse rs Verdict_PASS = Verdict_PASS"
  have "verdict_rank (vr_verdict r) \<le> 0" if "r \<in> set rs" for r
    using fold_max_member [of "verdict_rank (vr_verdict r)" "map (\<lambda>r. verdict_rank (vr_verdict r)) rs" 0] that *
      fold_worse [of rs Verdict_PASS] by force
  then show "list_all (\<lambda>r. vr_verdict r = Verdict_PASS) rs" by (auto simp: list_all_iff)
next
  show "list_all (\<lambda>r. vr_verdict r = Verdict_PASS) rs \<Longrightarrow> fold worse rs Verdict_PASS = Verdict_PASS"
    by (induction rs) (simp_all add: worse_def)
qed

lemma merge_pass:
  "merge_results rs = Inr r \<Longrightarrow> vr_verdict r = Verdict_PASS \<longleftrightarrow> list_all (\<lambda>r. vr_verdict r = Verdict_PASS) rs"
  by (cases "average_scores rs") (auto simp: merge_results_def worst_pass Let_def plain_result_def split: if_splits)

text \<open>Merging raises only on the scores a model made up: dicts of numbers can be averaged.\<close>

definition numeric_scores :: "validation_result \<Rightarrow> bool" where
  "numeric_scores r \<longleftrightarrow> (case vr_scores r of PyDict d \<Rightarrow> list_all (\<lambda>(_, v). py_number v \<noteq> None) d | _ \<Rightarrow> False)"

definition numeric_table :: "(string \<times> pyval list) list \<Rightarrow> bool" where
  "numeric_table m \<longleftrightarrow> (\<forall>(k, vs) \<in> set m. \<forall>v \<in> set vs. py_number v \<noteq> None)"

lemma numeric_insert:
  assumes "numeric_table m" "py_number v \<noteq> None"
  shows "numeric_table (AList.update k ((case map_of m k of None \<Rightarrow> [] | Some vs \<Rightarrow> vs) @ [v]) m)"
proof -
  let ?vs = "(case map_of m k of None \<Rightarrow> [] | Some vs \<Rightarrow> vs) @ [v]"
  have new: "\<forall>x \<in> set ?vs. py_number x \<noteq> None"
  proof (cases "map_of m k")
    case (Some vs)
    then have "(k, vs) \<in> set m" by (rule map_of_SomeD)
    then have "\<forall>v \<in> set vs. py_number v \<noteq> None" using assms(1) unfolding numeric_table_def by blast
    with Some assms(2) show ?thesis by (simp del: not_None_eq)
  qed (use assms(2) in simp)
  show ?thesis
    unfolding numeric_table_def
  proof
    fix kv assume "kv \<in> set (AList.update k ?vs m)"
    from subsetD [OF update_values this] consider "kv = (k, ?vs)" | "kv \<in> set m" by (elim insertE)
    then show "case kv of (k, vs) \<Rightarrow> \<forall>v \<in> set vs. py_number v \<noteq> None"
    proof cases
      case 1
      with new show ?thesis by (simp del: not_None_eq)
    next
      case 2
      with assms(1) show ?thesis unfolding numeric_table_def by blast
    qed
  qed
qed

lemma gather_numeric:
  "list_all numeric_scores rs \<Longrightarrow> numeric_table m \<Longrightarrow> \<exists>m'. gather_scores rs m = Inr m' \<and> numeric_table m'"
proof (induction rs arbitrary: m)
  case (Cons r rs)
  obtain d where d: "vr_scores r = PyDict d" "list_all (\<lambda>(_, v). py_number v \<noteq> None) d"
    using Cons.prems(1) by (auto simp: numeric_scores_def split: pyval.splits)
  have "numeric_table (fold (\<lambda>(k, v) m. AList.update k ((case map_of m k of None \<Rightarrow> [] | Some vs \<Rightarrow> vs) @ [v]) m) d m)"
    using d(2) Cons.prems(2) by (induction d arbitrary: m) (auto simp del: append.simps intro: numeric_insert)
  with Cons d(1) show ?case by simp
qed simp

lemma all_some_iff: "(\<exists>ys. all_some xs = Some ys) \<longleftrightarrow> (\<forall>x \<in> set xs. x \<noteq> None)"
  by (induction xs rule: all_some.induct) auto

lemma merge_numeric:
  assumes "list_all numeric_scores rs"
  shows "\<exists>r. merge_results rs = Inr r"
proof -
  obtain m where m: "gather_scores rs [] = Inr m" "numeric_table m"
    using gather_numeric [OF assms, of "[]"] by (auto simp: numeric_table_def)
  have "average vs \<noteq> None" if "(k, vs) \<in> set m" for k vs
  proof -
    have "\<exists>qs. all_some (map py_number vs) = Some qs" unfolding all_some_iff using m(2) that by (auto simp: numeric_table_def)
    then show ?thesis by (auto simp: average_def)
  qed
  then have "\<exists>d. all_some (map (\<lambda>(k, vs). map_option (Pair k) (average vs)) m) = Some d"
    unfolding all_some_iff by fastforce
  with m(1) show ?thesis by (auto simp: merge_results_def average_scores_def)
qed

section \<open>The checks\<close>

lemma plain_verdict [simp]: "vr_verdict (plain_result v s f t) = v"
  by (simp add: plain_result_def)

lemma pass_if_iff [simp]: "pass_if b = Verdict_PASS \<longleftrightarrow> b"
  by (simp add: pass_if_def)

text \<open>What a command check asks for: the command ran and returned what was expected.\<close>

definition command_holds :: "verifier_env \<Rightarrow> nat \<Rightarrow> command \<Rightarrow> string option \<Rightarrow> int \<Rightarrow> int \<Rightarrow> bool" where
  "command_holds e k c cwd timeout expected \<longleftrightarrow>
     (\<exists>argv out. (case c of Argv a \<Rightarrow> Inr a | Command_line s \<Rightarrow> ve_shlex e s) = Inr argv \<and>
        ve_run e k argv cwd timeout = Inr out \<and> co_returncode out = expected)"

lemma command_pass: "vr_verdict (verify_command e k c cwd timeout expected) = Verdict_PASS \<longleftrightarrow> command_holds e k c cwd timeout expected"
  by (cases "case c of Argv a \<Rightarrow> Inr a | Command_line s \<Rightarrow> ve_shlex e s")
    (auto simp: verify_command_def command_holds_def failed_command_def ran_command_def Let_def split: sum.split)

lemma files_pass: "vr_verdict (verify_files_exist e fs) = Verdict_PASS \<longleftrightarrow> list_all (ve_is_file e) fs"
  by (auto simp: verify_files_exist_def Let_def filter_empty_conv list_all_iff)

lemma hashes_pass:
  "vr_verdict (verify_hashes e hs) = Verdict_PASS \<longleftrightarrow>
     list_all (\<lambda>(p, h). ve_is_file e p \<and> compute_content_hash (ve_sha e) (ve_read_file e p) = h) hs"
proof -
  have "List.map_filter (hash_failure e) hs = [] \<longleftrightarrow>
      list_all (\<lambda>(p, h). ve_is_file e p \<and> compute_content_hash (ve_sha e) (ve_read_file e p) = h) hs"
    by (induction hs) (auto simp: hash_failure_def List.map_filter_simps split: if_splits)
  then show ?thesis by (simp add: verify_hashes_def Let_def)
qed

lemma changes_pass:
  "vr_verdict (verify_forbidden_changes e changed forbidden scope) = Verdict_PASS \<longleftrightarrow>
     list_all (\<lambda>p. \<not> list_ex (ve_fnmatch e p) forbidden \<and> (scope \<noteq> [] \<longrightarrow> list_ex (ve_fnmatch e p) scope)) changed"
proof -
  have "sort (remdups xs) = [] \<longleftrightarrow> xs = []" for xs :: "string list"
    by (metis remdups_eq_nil_iff set_empty set_sort)
  then show ?thesis
    by (auto simp: verify_forbidden_changes_def Let_def list_all_iff filter_empty_conv)
qed

definition format_holds :: "verifier_env \<Rightarrow> string \<Rightarrow> string \<Rightarrow> bool" where
  "format_holds e content fmt \<longleftrightarrow> (fmt = ''json'' \<longrightarrow> ve_json_error e content = None) \<and> (fmt = ''non_empty'' \<longrightarrow> strip content \<noteq> [])"

lemma format_pass: "vr_verdict (verify_output_format e content fmt) = Verdict_PASS \<longleftrightarrow> format_holds e content fmt"
  by (auto simp: verify_output_format_def format_holds_def split: option.split)

lemma schema_pass: "vr_verdict (verify_json_schema e d s) = Verdict_PASS \<longleftrightarrow> ve_schema_error e d s = None"
  by (simp add: verify_json_schema_def split: option.split)

text \<open>The checks of a contract, said without results and merging.\<close>

definition checks_hold :: "verifier_env \<Rightarrow> verification_checks \<Rightarrow> bool" where
  "checks_hold e ck \<longleftrightarrow>
     pred_option (list_all (ve_is_file e)) (ck_files ck) \<and>
     pred_option (\<lambda>c. command_holds e 0 c (ck_cwd ck) (ck_timeout ck) 0) (ck_command ck) \<and>
     list_all (\<lambda>(i, c). command_holds e (1 + i) (Argv (vc_argv c))
       (case vc_cwd c of Some d \<Rightarrow> if d \<noteq> [] then Some d else ck_cwd ck | None \<Rightarrow> ck_cwd ck)
       (vc_timeout c) (vc_expected_returncode c)) (enumerate 0 (ck_commands ck)) \<and>
     list_all (\<lambda>(p, h). ve_is_file e p \<and> compute_content_hash (ve_sha e) (ve_read_file e p) = h) (ck_file_hashes ck) \<and>
     pred_option (\<lambda>s. pred_option (\<lambda>d. ve_schema_error e d s = None) (ck_data ck)) (ck_json_schema ck) \<and>
     pred_option (format_holds e (ck_content ck)) (ck_format ck) \<and>
     pred_option (list_all (\<lambda>p. \<not> list_ex (ve_fnmatch e p) (ck_forbidden_changes ck) \<and>
       (ck_diff_scope ck \<noteq> [] \<longrightarrow> list_ex (ve_fnmatch e p) (ck_diff_scope ck)))) (ck_changed_files ck)"

lemma programmatic_results_pass:
  "list_all (\<lambda>r. vr_verdict r = Verdict_PASS) (programmatic_results e ck) \<longleftrightarrow> checks_hold e ck"
proof -
  have commands: "list_all (\<lambda>r. vr_verdict r = Verdict_PASS) (command_results e 1 cwd cs) \<longleftrightarrow>
      list_all (\<lambda>(i, c). command_holds e (1 + i) (Argv (vc_argv c)) (case vc_cwd c of Some d \<Rightarrow> if d \<noteq> [] then Some d else cwd | None \<Rightarrow> cwd)
        (vc_timeout c) (vc_expected_returncode c)) (enumerate 0 cs)" for cwd cs
    by (auto simp: command_results_def list_all_iff command_pass simp del: One_nat_def)
  have empty: "list_all (\<lambda>p. \<not> list_ex (ve_fnmatch e p) [] \<and> ([] \<noteq> ([] :: string list) \<longrightarrow> list_ex (ve_fnmatch e p) [])) fs" for fs
    by (simp add: list_all_iff)
  show ?thesis
    by (cases "ck_files ck"; cases "ck_command ck"; cases "ck_json_schema ck"; cases "ck_data ck"; cases "ck_format ck";
        cases "ck_changed_files ck")
      (simp_all add: programmatic_results_def checks_hold_def commands command_pass files_pass hashes_pass schema_pass
        format_pass changes_pass empty list.pred_True del: One_nat_def)
qed

section \<open>What a PASS means\<close>

lemma evidence_pass [simp]: "vr_verdict programmatic_evidence = Verdict_PASS"
  by (simp add: programmatic_evidence_def)

text \<open>C26: The verifier passes a task exactly when there is evidence the artifact lifecycle has not retired, every check of
  the contract holds (files, commands, hashes, schema, format, diff scope), and the rubric passes or a passed command, hash
  or schema stands in for a model that could not be asked about a contract without semantic criteria.\<close>

theorem pass_exactly_when_verified:
  assumes "validate_artifacts e store goal artifacts ck = Inr r"
  shows "vr_verdict r = Verdict_PASS \<longleftrightarrow>
    (let es = eligible_artifacts (enrich e store artifacts); rubric = rubric_verify e goal es (ck_rubrics ck) in
     es \<noteq> [] \<and> checks_hold e ck \<and>
     (vr_verdict rubric = Verdict_PASS \<or> replaceable (programmatic_results e ck) (ck_rubrics ck) rubric))"
proof (cases "eligible_artifacts (enrich e store artifacts) = []")
  case True
  with assms show ?thesis by (auto simp: validate_artifacts_def no_artifacts_result_def)
next
  case False
  let ?rs = "programmatic_results e ck"
  let ?r = "rubric_or_evidence e goal (eligible_artifacts (enrich e store artifacts)) (ck_rubrics ck) ?rs"
  from assms False have "merge_results (?rs @ [?r]) = Inr r" by (simp add: validate_artifacts_def Let_def)
  from merge_pass [OF this] False show ?thesis
    by (auto simp: programmatic_results_pass rubric_or_evidence_def Let_def)
qed

section \<open>A model that does not answer\<close>

lemma ask_silent: "(\<And>k p. \<exists>x. ve_invoke e k p = Inl x) \<Longrightarrow> snd (ask_model e p n m) = None"
proof (induction m arbitrary: n)
  case (Suc m)
  obtain msg client where "ve_invoke e n p = Inl (msg, client)" using Suc.prems by (metis surj_pair)
  with Suc.IH [OF Suc.prems, of "Suc n"] show ?case by (subst ask_model.simps) (auto split: prod.splits)
qed (subst ask_model.simps, auto split: sum.split, metis Inr_not_Inl)

definition silent :: "verifier_env \<Rightarrow> bool" where
  "silent e \<longleftrightarrow> \<not> ve_model_available e \<or> \<not> ve_build_model e \<or> (\<forall>k p. \<exists>x. ve_invoke e k p = Inl x)"

lemma fallback_not_pass: "ve_fail_closed e \<Longrightarrow> vr_verdict (fallback_verify e es) \<noteq> Verdict_PASS"
  by (simp add: fallback_verify_def Let_def)

lemma silent_not_pass:
  assumes "ve_fail_closed e" "silent e"
  shows "vr_verdict (rubric_verify e goal artifacts rubrics) \<noteq> Verdict_PASS"
proof -
  have "call_rubric_llm e p es \<in> {None, Some (fallback_verify e es)}" if "ve_model_available e" for p es
  proof (cases "ve_build_model e")
    case True
    with assms(2) that have "snd (ask_model e p 0 MAX_RETRIES) = None" by (auto simp: silent_def intro!: ask_silent)
    with True show ?thesis by (simp add: call_rubric_llm_def)
  qed (simp add: call_rubric_llm_def)
  then show ?thesis
    using fallback_not_pass [OF assms(1)]
    by (auto simp: rubric_verify_def Let_def no_artifacts_result_def bind_eq_Some_conv split: option.split)
      (metis empty_iff insert_iff option.distinct(1) option.inject)+
qed

text \<open>C27: A verifier that is configured to fail closed and whose model does not answer (not available, not built, or every
  call raises) passes nothing by itself: without a passed command, hash or schema check, or with a semantic criterion left,
  the verdict is not PASS.\<close>

theorem silent_model_fails_closed:
  assumes "ve_fail_closed e" "silent e" "validate_artifacts e store goal artifacts ck = Inr r"
    "\<not> programmatic_pass (programmatic_results e ck) \<or> ck_rubrics ck \<noteq> []"
  shows "vr_verdict r \<noteq> Verdict_PASS"
  using pass_exactly_when_verified [OF assms(3)] silent_not_pass [OF assms(1,2)] assms(4)
  by (auto simp: replaceable_def Let_def)

section \<open>Evidence that was changed\<close>

lemma update_other [simp]: "k \<noteq> j \<Longrightarrow> map_of (AList.update j v d) k = map_of d k"
  by (simp add: update_conv')

lemma metadata_content: "map_of (with_metadata i a d) ''content'' = map_of d ''content''"
  by (simp add: with_metadata_def)

lemma flags_content: "map_of (with_flags b d) ''content'' = map_of d ''content''"
  by (simp add: with_flags_def)

definition withheld :: "string \<Rightarrow> evidence_set \<Rightarrow> bool" where
  "withheld i es \<longleftrightarrow> (case map_of es (''artifact:'' @ i) of None \<Rightarrow> True
     | Some d \<Rightarrow> map_of d ''content'' \<in> {None, Some (PyStr WITHHELD)})"

lemma setdefault_lookup: "map_of (setdefault k v d) k = (case map_of d k of None \<Rightarrow> Some v | Some x \<Rightarrow> Some x)"
  by (auto simp: setdefault_def map_add_def split: option.split)

lemma enrich_entry_withheld:
  assumes "verify_integrity (ve_sha e) (ve_resolve e) st i \<noteq> Inr True" "withheld i es"
  shows "withheld i (enrich_entry e st j a es)"
proof (cases "j = i")
  case True
  let ?d = "case map_of es (''artifact:'' @ i) of None \<Rightarrow> [(''status'', PyStr ''registered'')] | Some d \<Rightarrow> d"
  have "map_of ?d ''content'' \<in> {None, Some (PyStr WITHHELD)}" using assms(2) by (auto simp: withheld_def split: option.splits)
  then have "map_of (with_content e st i (with_metadata i a ?d)) ''content'' \<in> {None, Some (PyStr WITHHELD)}"
    using assms(1)
    by (auto simp: with_content_def setdefault_lookup metadata_content flags_content Let_def split: sum.splits option.splits)
  with True show ?thesis by (simp add: withheld_def enrich_entry_def Let_def update_conv')
qed (use assms(2) in \<open>simp add: withheld_def enrich_entry_def Let_def\<close>)

text \<open>C28: The bytes of an artifact whose hash does not match its registration are not shown to the model: unless the caller
  itself gave a content, the evidence built from the store has none for it, or the note that it is withheld.\<close>

theorem tampered_content_is_withheld:
  assumes "verify_integrity (ve_sha e) (ve_resolve e) st i \<noteq> Inr True" "withheld i artifacts"
  shows "withheld i (enrich e (Some st) artifacts)"
proof -
  have "withheld i (fold (\<lambda>(i, a). if ws \<noteq> [] \<and> i \<notin> set ws then id else enrich_entry e st i a) reg es)"
    if "withheld i es" for reg es and ws :: "string list"
    using that by (induction reg arbitrary: es) (auto simp: enrich_entry_withheld [OF assms(1)])
  with assms(2) show ?thesis by (simp add: enrich_def Let_def)
qed

section \<open>Answers that name no criterion\<close>

text \<open>An answer of the model that rejects the work but lists no criterion, \<open>{"verdict": "fail"}\<close> or an empty object, say, is
  turned into a PASS: the filter for invented check names lowers the verdict whenever no criterion is left, also when none
  was there, and the run is verified.\<close>

theorem rejection_without_criteria_passes:
  assumes evidence: "eligible_artifacts (enrich e store artifacts) \<noteq> []" and model: "ve_model_available e" "ve_build_model e"
    and asked: "build_rubric_prompt e goal (eligible_artifacts (enrich e store artifacts)) DEFAULT_RUBRICS = Some p"
      "snd (ask_model e p 0 MAX_RETRIES) = Some (Reply_text t)"
    and answer: "parse_rubric_json e t = Some d" "map_of d ''failed_criteria'' = None" "map_of d ''scores'' = None"
      "parsed_verdict d \<noteq> Verdict_HUMAN_REQUIRED"
  shows "\<exists>r. validate_artifacts e store goal artifacts no_checks = Inr r \<and> vr_verdict r = Verdict_PASS"
proof -
  let ?es = "eligible_artifacts (enrich e store artifacts)"
  from answer obtain r where r: "rubric_result e d = Some r" "vr_verdict r = Verdict_PASS" "vr_scores r = PyDict []"
    by (cases "parsed_verdict d") (auto simp: rubric_result_def Let_def List.map_filter_simps)
  have "eligible_artifacts ?es = ?es" by (simp add: eligible_artifacts_def)
  with evidence model asked answer r(1) have rubric: "rubric_verify e goal ?es [] = r"
    by (simp add: rubric_verify_def or_list_def call_rubric_llm_def)
  have "programmatic_results e no_checks = []" by (simp add: programmatic_results_def no_checks_def command_results_def)
  with evidence rubric r(2,3) show ?thesis
    by (simp add: validate_artifacts_def rubric_or_evidence_def replaceable_def programmatic_pass_def no_checks_def merge_results_def
        average_scores_def worse_def)
qed

end
