(* ===== verification/Verifier_Ends.thy ===== *)
theory Verifier_Ends
  imports Verifier_Props
begin

text \<open>Concrete verifications: the witnesses of \<open>Verifier_Props\<close>.\<close>

definition demo_output :: command_output where
  "demo_output = \<lparr>co_returncode = 0, co_stdout = ''ok'', co_stderr = [], co_environment = PyNone, co_duration_seconds = 1\<rparr>"

text \<open>A verifier whose commands succeed, with a model that answers \<open>d\<close> or none.\<close>

definition demo_verifier :: "pydict option \<Rightarrow> verifier_env" where
  "demo_verifier d = \<lparr>ve_is_file = (\<lambda>_. True), ve_read_file = id, ve_sha = id, ve_shlex = (\<lambda>s. Inr [s]),
     ve_run = (\<lambda>_ _ _ _. Inr demo_output), ve_schema_error = (\<lambda>_ _. None), ve_json_error = (\<lambda>_. None),
     ve_json_dict = (\<lambda>_. d), ve_literal_dict = (\<lambda>_. None), ve_fnmatch = (\<lambda>_ _. False), ve_str = (\<lambda>_. []),
     ve_decode = id, ve_resolve = (\<lambda>p. [''ws'', p]), ve_model_available = (d \<noteq> None), ve_fail_closed = True,
     ve_build_model = True, ve_invoke = (\<lambda>_ _. Inr (Reply_text ''answer''))\<rparr>"

definition demo_evidence :: evidence_set where
  "demo_evidence = [(''artifact:x'', [(''status'', PyStr ''published''), (''content'', PyStr ''hi'')])]"

definition command_check :: verification_checks where
  "command_check = no_checks\<lparr>ck_commands := [\<lparr>vc_kind = ''test'', vc_argv = [''make''], vc_cwd = None, vc_timeout = 120,
     vc_expected_returncode = 0\<rparr>]\<rparr>"

lemma demo_eligible: "eligible_artifacts (enrich e None demo_evidence) = demo_evidence"
  by (simp add: enrich_def demo_evidence_def eligible_artifacts_def eligible_entry_def)

lemma demo_rubric: "rubric_verify (demo_verifier None) goal demo_evidence rubrics = fallback_verify (demo_verifier None) demo_evidence"
  using demo_eligible [of undefined] by (simp add: rubric_verify_def enrich_def demo_verifier_def demo_evidence_def)

lemma plain_numeric [simp]: "numeric_scores (plain_result v d f t) \<longleftrightarrow> list_all (\<lambda>(_, v). py_number v \<noteq> None) d"
  by (simp add: numeric_scores_def plain_result_def)

lemma numeric_update [simp]: "numeric_scores (r\<lparr>vr_evidence := x\<rparr>) = numeric_scores r" "numeric_scores (r\<lparr>vr_error := y\<rparr>) = numeric_scores r"
  by (simp_all add: numeric_scores_def)

lemma command_numeric: "numeric_scores (verify_command e k c cwd timeout expected)"
  by (auto simp: verify_command_def failed_command_def ran_command_def score_of_def Let_def split: sum.split)

lemma command_check_results:
  "programmatic_results (demo_verifier None) command_check = [verify_command (demo_verifier None) 1 (Argv [''make'']) None 120 0]"
  by (simp add: programmatic_results_def command_check_def no_checks_def command_results_def)

lemma no_checks_results: "programmatic_results e no_checks = []" "ck_rubrics no_checks = []"
  by (simp_all add: programmatic_results_def no_checks_def command_results_def)

lemma fallback_numeric: "numeric_scores (fallback_verify e es)"
  by (simp add: fallback_verify_def Let_def del: not_None_eq)

lemma demo_validates:
  "\<exists>r. validate_artifacts (demo_verifier None) None ''do it'' demo_evidence command_check = Inr r"
  "\<exists>r. validate_artifacts (demo_verifier None) None ''do it'' demo_evidence no_checks = Inr r"
proof -
  have evidence: "numeric_scores programmatic_evidence" by (simp add: programmatic_evidence_def)
  show "\<exists>r. validate_artifacts (demo_verifier None) None ''do it'' demo_evidence command_check = Inr r"
    "\<exists>r. validate_artifacts (demo_verifier None) None ''do it'' demo_evidence no_checks = Inr r"
    by (auto simp: validate_artifacts_def demo_eligible demo_rubric rubric_or_evidence_def Let_def command_check_results
        command_numeric evidence fallback_numeric no_checks_results
        intro!: merge_numeric)
qed

lemma demo_command_passes: "vr_verdict (verify_command (demo_verifier None) 1 (Argv [''make'']) None 120 0) = Verdict_PASS"
  by (simp add: command_pass command_holds_def demo_verifier_def demo_output_def)

text \<open>A passed command stands in for the model.\<close>

theorem pass_exactly_when_verified_witness:
  "\<exists>r. validate_artifacts (demo_verifier None) None ''do it'' demo_evidence command_check = Inr r \<and> vr_verdict r = Verdict_PASS"
proof -
  from demo_validates(1) obtain r where r: "validate_artifacts (demo_verifier None) None ''do it'' demo_evidence command_check = Inr r" ..
  have rubrics: "ck_rubrics command_check = []" by (simp add: command_check_def no_checks_def)
  have "checks_hold (demo_verifier None) command_check"
    using demo_command_passes unfolding programmatic_results_pass [symmetric] by (simp add: command_check_results)
  moreover have "has_score (verify_command (demo_verifier None) 1 (Argv [''make'']) None 120 0) ''command''"
    by (simp add: has_score_def verify_command_def ran_command_def demo_verifier_def plain_result_def Let_def)
  then have "replaceable (programmatic_results (demo_verifier None) command_check) [] (fallback_verify (demo_verifier None) demo_evidence)"
    using demo_command_passes
    by (simp add: replaceable_def programmatic_pass_def command_check_results)
      (simp add: fallback_verify_def demo_evidence_def empty_entry_def dict_truthy_def plain_result_def failed_criterion_def demo_verifier_def)
  moreover have "demo_evidence \<noteq> []" by (simp add: demo_evidence_def)
  ultimately show ?thesis using pass_exactly_when_verified [OF r] r by (auto simp: demo_eligible demo_rubric rubrics Let_def)
qed

text \<open>Without it the same work is not passed.\<close>

theorem silent_model_fails_closed_witness:
  "\<exists>r. validate_artifacts (demo_verifier None) None ''do it'' demo_evidence no_checks = Inr r \<and> vr_verdict r \<noteq> Verdict_PASS"
proof -
  from demo_validates(2) obtain r where r: "validate_artifacts (demo_verifier None) None ''do it'' demo_evidence no_checks = Inr r" ..
  have "ve_fail_closed (demo_verifier None)" "silent (demo_verifier None)" by (simp_all add: demo_verifier_def silent_def)
  moreover have "\<not> programmatic_pass (programmatic_results (demo_verifier None) no_checks)"
    by (simp add: programmatic_pass_def no_checks_results)
  ultimately show ?thesis using silent_model_fails_closed r by blast
qed

text \<open>A registered file whose bytes were changed.\<close>

definition tampered_store :: artifact_store where
  "tampered_store = \<lparr>as_root = Some [''ws''], as_registry = [(''x'', \<lparr>at_id = ''x'', at_run_id = ''run'', at_task_id = ''t'',
     at_type = Art_CODE, at_path = ''x.py'', at_content_hash = ''sha256:old'', at_size_bytes = 3, at_version = 1,
     at_produced_by = ''a'', at_commit_sha = None, at_status = Art_PUBLISHED, at_created_at = 0, at_metadata = [],
     at_predecessor_id = None, at_parent_artifact_id = None\<rparr>)],
     as_by_task = [], as_by_run = [], as_files = [([''ws'', ''x.py''], ''new'')], as_rows = []\<rparr>"

lemma tampered: "verify_integrity (ve_sha (demo_verifier None)) (ve_resolve (demo_verifier None)) tampered_store ''x'' = Inr False"
  by code_simp

theorem tampered_content_is_withheld_witness:
  "withheld ''x'' (enrich (demo_verifier None) (Some tampered_store) [(''artifact:x'', [(''artifact_id'', PyStr ''x'')])])"
  by (rule tampered_content_is_withheld) (simp_all add: tampered withheld_def)

text \<open>The model answers \<open>{"verdict": "fail"}\<close>.\<close>

lemma prompt_built:
  "list_all (\<lambda>(k, d). \<exists>c. content_of d = PyStr c) es \<Longrightarrow> \<exists>p. build_rubric_prompt e goal es rubrics = Some p"
  using all_some_iff [of "map (\<lambda>(k, d). evidence_lines e k d) es"]
  by (fastforce simp: build_rubric_prompt_def list_all_iff evidence_lines_def Let_def)

theorem rejection_without_criteria_passes_witness:
  "\<exists>r. validate_artifacts (demo_verifier (Some [(''verdict'', PyStr ''fail'')])) None ''do it'' demo_evidence no_checks = Inr r \<and>
     vr_verdict r = Verdict_PASS"
proof -
  let ?d = "[(''verdict'', PyStr ''fail'')]" and ?e = "demo_verifier (Some [(''verdict'', PyStr ''fail'')])"
  have "list_all (\<lambda>(k, d). \<exists>c. content_of d = PyStr c) demo_evidence" by (simp add: demo_evidence_def content_of_def)
  then obtain p where p: "build_rubric_prompt ?e ''do it'' demo_evidence DEFAULT_RUBRICS = Some p" using prompt_built by blast
  have asked: "snd (ask_model ?e p 0 MAX_RETRIES) = Some (Reply_text ''answer'')"
    by (simp add: ask_model.simps demo_verifier_def)
  have "strip ''answer'' = ''answer''" by code_simp
  then have "parse_rubric_json ?e ''answer'' = Some ?d" by (simp add: parse_rubric_json_def try_loads_def demo_verifier_def)
  moreover have "parsed_verdict ?d = Verdict_FAIL" by (simp add: parsed_verdict_def all_verdicts_def)
  moreover have "demo_evidence \<noteq> []" by (simp add: demo_evidence_def)
  moreover have "ve_model_available ?e" "ve_build_model ?e" by (simp_all add: demo_verifier_def)
  ultimately show ?thesis
    using p asked by (intro rejection_without_criteria_passes [where d = ?d]) (simp_all add: demo_eligible)
qed

end
