(* ===== verification/Planner.thy ===== *)
theory Planner
  imports Task_Graph_Order
begin

text \<open>
  \<open>app/multiagent/planner.py\<close>: the plan a model returns as JSON, turned into a graph, corrected and checked. The model's
  parsed answer, pydantic's conversions, \<open>int\<close>, \<open>str\<close> and the search for a whole word are arguments. A task that is no
  object, a list or a text of another type is one error: every error ends the attempt alike.
\<close>

section \<open>Data\<close>

datatype planner_error =
    No_tasks | Missing_id | Duplicate_id string | Unknown_dependency string string | Bad_shape | Node_rejected graph_error
  | Plan_cycle | Plan_raised graph_error | Model_failed string

record planner_env =
  pe_answer :: "nat \<Rightarrow> string \<Rightarrow> string + pyval"  \<comment> \<open>attempt, prompt: the text of an exception, or the parsed answer\<close>
  pe_loads :: "string \<Rightarrow> string + pyval"  \<comment> \<open>\<open>json.loads\<close>\<close>
  pe_field_int :: "pyval \<Rightarrow> int option"  \<comment> \<open>pydantic's conversion of a field\<close>
  pe_field_bool :: "pyval \<Rightarrow> bool option"
  pe_int :: "pyval \<Rightarrow> int option"  \<comment> \<open>\<open>int(v)\<close>\<close>
  pe_str :: "pyval \<Rightarrow> string"
  pe_word :: "string \<Rightarrow> string \<Rightarrow> bool"  \<comment> \<open>\<open>re.search(rf"\b{kw}\b", text)\<close>\<close>
  pe_clock :: "nat \<Rightarrow> time"

type_synonym 'a plan_result = "planner_error + 'a"

definition field :: "pydict \<Rightarrow> string \<Rightarrow> pyval \<Rightarrow> pyval" where
  "field d k v = (case map_of d k of None \<Rightarrow> v | Some x \<Rightarrow> x)"

definition field_or :: "pydict \<Rightarrow> string \<Rightarrow> pyval \<Rightarrow> pyval" where
  "field_or d k v = (if truthy (field d k PyNone) then field d k PyNone else v)"

fun text_of :: "pyval \<Rightarrow> string option" where
  "text_of (PyStr s) = Some s"
| "text_of _ = None"

fun texts_of :: "pyval list \<Rightarrow> string list option" where
  "texts_of [] = Some []"
| "texts_of (v # vs) = (case text_of v of None \<Rightarrow> None | Some s \<Rightarrow> map_option (\<lambda>ss. s # ss) (texts_of vs))"

definition text_list :: "pyval \<Rightarrow> string list option" where
  "text_list v = (case v of PyList vs \<Rightarrow> texts_of vs | _ \<Rightarrow> None)"

text \<open>\<open>list(s)\<close> of a text: its code points.\<close>

function points :: "string \<Rightarrow> string list" where
  "points [] = []"
| "points (c # s) = (let n = length (takeWhile (\<lambda>b. of_char b div (64 :: nat) = 2) s) in (c # take n s) # points (drop n s))"
  by pat_completeness auto
termination by (relation "measure length") auto

declare points.simps(2) [simp del]

section \<open>Capabilities\<close>

definition ROLE_CAPS :: "string list" where
  "ROLE_CAPS = [''planning'', ''research'', ''coding'', ''testing'', ''reviewing'', ''summarization'']"

definition LABEL_CAPS :: "string list" where
  "LABEL_CAPS = [''file_read'', ''file_write'', ''shell_execute'', ''web_research'', ''mcp_access'', ''default'']"

text \<open>Of several primary capabilities the first stays, with the tool capabilities.\<close>

definition among :: "string list \<Rightarrow> pyval \<Rightarrow> bool" where
  "among names v = (case v of PyStr s \<Rightarrow> s \<in> set names | _ \<Rightarrow> False)"

definition one_primary :: "pyval list \<Rightarrow> pyval list" where
  "one_primary caps =
     (let primary = filter (among ROLE_CAPS) caps in
      if length primary > 1 then hd primary # filter (among LABEL_CAPS) caps else caps)"

definition needs_heuristic :: "pyval list \<Rightarrow> bool" where
  "needs_heuristic caps \<longleftrightarrow> (caps = [] \<or> among [''planning'', ''default''] (hd caps)) \<and>
     \<not> list_ex (among ROLE_CAPS) (tl caps)"

definition DESIGN_TEXTS :: "string list" where
  "DESIGN_TEXTS = [[CHR 0xE8, CHR 0xAE, CHR 0xBE, CHR 0xE8, CHR 0xAE, CHR 0xA1], [CHR 0xE6, CHR 0x9E, CHR 0xB6,
    CHR 0xE6, CHR 0x9E, CHR 0x84], [CHR 0xE8, CHR 0xA7, CHR 0x84, CHR 0xE5, CHR 0x88, CHR 0x92],
     [CHR 0xE6, CHR 0x96, CHR 0xB9, CHR 0xE6, CHR 0xA1, CHR 0x88], [CHR 0xE6, CHR 0x8A, CHR 0x80, CHR 0xE6,
       CHR 0x9C, CHR 0xAF, CHR 0xE9, CHR 0x80, CHR 0x89, CHR 0xE5, CHR 0x9E, CHR 0x8B], [CHR 0xE8, CHR 0xB0,
       CHR 0x83, CHR 0xE7, CHR 0xA0, CHR 0x94]]"

definition DESIGN_WORDS :: "string list" where
  "DESIGN_WORDS = [''design'', ''architecture'', ''blueprint'', ''plan'', ''spec'']"

definition TEST_TEXTS :: "string list" where
  "TEST_TEXTS = [[CHR 0xE6, CHR 0xB5, CHR 0x8B, CHR 0xE8, CHR 0xAF, CHR 0x95], [CHR 0xE9, CHR 0xAA, CHR 0x8C,
    CHR 0xE6, CHR 0x94, CHR 0xB6, CHR 0xE6, CHR 0xB5, CHR 0x8B, CHR 0xE8, CHR 0xAF, CHR 0x95]]"

definition TEST_WORDS :: "string list" where
  "TEST_WORDS = [''test'', ''pytest'', ''unittest'']"

definition IMPL_TEXTS :: "string list" where
  "IMPL_TEXTS = [[CHR 0xE5, CHR 0xAE, CHR 0x9E, CHR 0xE7, CHR 0x8E, CHR 0xB0], [CHR 0xE7, CHR 0xBC, CHR 0x96,
    CHR 0xE5, CHR 0x86, CHR 0x99], [CHR 0xE5, CHR 0x88, CHR 0x9B, CHR 0xE5, CHR 0xBB, CHR 0xBA],
     [CHR 0xE6, CHR 0x9E, CHR 0x84, CHR 0xE5, CHR 0xBB, CHR 0xBA], [CHR 0xE5, CHR 0xBC, CHR 0x80, CHR 0xE5,
       CHR 0x8F, CHR 0x91], [CHR 0xE5, CHR 0x89, CHR 0x8D, CHR 0xE7, CHR 0xAB, CHR 0xAF], [CHR 0xE5, CHR 0x90,
       CHR 0x8E, CHR 0xE7, CHR 0xAB, CHR 0xAF],
     [CHR 0xE7, CHR 0xBB, CHR 0x84, CHR 0xE4, CHR 0xBB, CHR 0xB6], [CHR 0xE9, CHR 0xA1, CHR 0xB5, CHR 0xE9,
       CHR 0x9D, CHR 0xA2], [CHR 0xE6, CHR 0x8E, CHR 0xA5, CHR 0xE5, CHR 0x8F, CHR 0xA3], [CHR 0xE6, CHR 0x95,
       CHR 0xB0, CHR 0xE6, CHR 0x8D, CHR 0xAE, CHR 0xE5, CHR 0xBA, CHR 0x93]]"

definition IMPL_WORDS :: "string list" where
  "IMPL_WORDS = [''develop'', ''implement'', ''build'', ''code'', ''api'', ''service'', ''server'', ''client'']"

definition keyword_hit :: "planner_env \<Rightarrow> string list \<Rightarrow> string list \<Rightarrow> string \<Rightarrow> bool" where
  "keyword_hit e texts words s \<longleftrightarrow> list_ex (\<lambda>k. contains k s) texts \<or> list_ex (\<lambda>k. pe_word e k (lower s)) words"

definition role_for :: "string \<Rightarrow> pyval list \<Rightarrow> pyval list" where
  "role_for role caps = PyStr role # filter (among LABEL_CAPS) (tl caps)"

definition corrected_caps :: "planner_env \<Rightarrow> string \<Rightarrow> pyval list \<Rightarrow> pyval list" where
  "corrected_caps e s caps =
     (if \<not> needs_heuristic caps then caps
      else if keyword_hit e DESIGN_TEXTS DESIGN_WORDS s
      then (if caps = [] \<or> hd caps = PyStr ''default'' then role_for ''planning'' caps else caps)
      else if keyword_hit e TEST_TEXTS TEST_WORDS s then role_for ''testing'' caps
      else if keyword_hit e IMPL_TEXTS IMPL_WORDS s then role_for ''coding'' caps
      else if caps = [] \<or> hd caps = PyStr ''default'' then role_for ''planning'' caps
      else caps)"

section \<open>One task\<close>

definition default_criteria :: "string list \<Rightarrow> string list" where
  "default_criteria caps =
     (let cap = (case caps of [] \<Rightarrow> ''default'' | c # _ \<Rightarrow> c) in
      if cap = ''testing'' then
        [[CHR 0xE6, CHR 0xB5, CHR 0x8B, CHR 0xE8, CHR 0xAF, CHR 0x95, CHR 0xE6, CHR 0x96, CHR 0x87, CHR 0xE4,
          CHR 0xBB, CHR 0xB6, CHR 0xE5, CHR 0xB7, CHR 0xB2, CHR 0xE5, CHR 0x88, CHR 0x9B, CHR 0xE5, CHR 0xBB,
          CHR 0xBA, CHR 0xE4, CHR 0xB8, CHR 0x94, CHR 0xE5, CHR 0x8C, CHR 0x85, CHR 0xE5, CHR 0x90, CHR 0xAB,
          CHR 0xE5, CHR 0x8F, CHR 0xAF, CHR 0xE6, CHR 0x89, CHR 0xA7, CHR 0xE8, CHR 0xA1, CHR 0x8C, CHR 0xE7,
          CHR 0x9A, CHR 0x84, CHR 0xE6, CHR 0xB5, CHR 0x8B, CHR 0xE8, CHR 0xAF, CHR 0x95, CHR 0xE7, CHR 0x94,
          CHR 0xA8, CHR 0xE4, CHR 0xBE, CHR 0x8B],
         [CHR 0xE6, CHR 0xB5, CHR 0x8B, CHR 0xE8, CHR 0xAF, CHR 0x95, CHR 0xE8, CHR 0xA6, CHR 0x86, CHR 0xE7,
           CHR 0x9B, CHR 0x96, CHR 0xE6, CHR 0xA0, CHR 0xB8, CHR 0xE5, CHR 0xBF, CHR 0x83, CHR 0xE5, CHR 0x8A,
           CHR 0x9F, CHR 0xE8, CHR 0x83, CHR 0xBD, CHR 0xE5, CHR 0x9C, CHR 0xBA, CHR 0xE6, CHR 0x99, CHR 0xAF,
           CHR 0xEF, CHR 0xBC, CHR 0x88, CHR 0xE8, CHR 0xAE, CHR 0xA4, CHR 0xE8, CHR 0xAF, CHR 0x81, CHR 0xE3,
           CHR 0x80, CHR 0x81, CHR 0xE5, CHR 0xA2, CHR 0x9E, CHR 0xE5, CHR 0x88, CHR 0xA0, CHR 0xE6, CHR 0x94,
           CHR 0xB9, CHR 0xE6, CHR 0x9F, CHR 0xA5, CHR 0xE3, CHR 0x80, CHR 0x81, CHR 0xE5, CHR 0xBC, CHR 0x82,
           CHR 0xE5, CHR 0xB8, CHR 0xB8, CHR 0xE5, CHR 0xA4, CHR 0x84, CHR 0xE7, CHR 0x90, CHR 0x86, CHR 0xE7,
           CHR 0xAD, CHR 0x89, CHR 0xEF, CHR 0xBC, CHR 0x89],
         [CHR 0xE6, CHR 0xB5, CHR 0x8B, CHR 0xE8, CHR 0xAF, CHR 0x95, CHR 0xE4, CHR 0xBB, CHR 0xA3, CHR 0xE7,
           CHR 0xA0, CHR 0x81, CHR 0xE7, CHR 0xBB, CHR 0x93, CHR 0xE6, CHR 0x9E, CHR 0x84, CHR 0xE6, CHR 0xB8,
           CHR 0x85, CHR 0xE6, CHR 0x99, CHR 0xB0, CHR 0xE3, CHR 0x80, CHR 0x81, CHR 0xE6, CHR 0x96, CHR 0xAD,
           CHR 0xE8, CHR 0xA8, CHR 0x80, CHR 0xE6, CHR 0x98, CHR 0x8E, CHR 0xE7, CHR 0xA1, CHR 0xAE]]
      else if cap = ''coding'' then
        [[CHR 0xE5, CHR 0xAE, CHR 0x9E, CHR 0xE7, CHR 0x8E, CHR 0xB0, CHR 0xE4, CHR 0xBB, CHR 0xA3, CHR 0xE7,
          CHR 0xA0, CHR 0x81, CHR 0xE5, CHR 0xB7, CHR 0xB2, CHR 0xE5, CHR 0x88, CHR 0x9B, CHR 0xE5, CHR 0xBB,
          CHR 0xBA, CHR 0xE4, CHR 0xB8, CHR 0x94, CHR 0xE9, CHR 0x9D, CHR 0x9E, CHR 0xE7, CHR 0xA9, CHR 0xBA],
         [CHR 0xE4, CHR 0xBB, CHR 0xA3, CHR 0xE7, CHR 0xA0, CHR 0x81, CHR 0xE7, CHR 0xBB, CHR 0x93, CHR 0xE6,
           CHR 0x9E, CHR 0x84, CHR 0xE4, CHR 0xB8, CHR 0x8E, CHR 0xE6, CHR 0x9E, CHR 0xB6, CHR 0xE6, CHR 0x9E,
           CHR 0x84, CHR 0xE8, CHR 0xAE, CHR 0xBE, CHR 0xE8, CHR 0xAE, CHR 0xA1, CHR 0xE4, CHR 0xB8, CHR 0x80,
           CHR 0xE8, CHR 0x87, CHR 0xB4],
         [CHR 0xE6, CHR 0xA0, CHR 0xB8, CHR 0xE5, CHR 0xBF, CHR 0x83, CHR 0xE5, CHR 0x8A, CHR 0x9F, CHR 0xE8,
           CHR 0x83, CHR 0xBD, CHR 0xE9, CHR 0x80, CHR 0xBB, CHR 0xE8, CHR 0xBE, CHR 0x91, CHR 0xE5, CHR 0xB7,
           CHR 0xB2, CHR 0xE5, CHR 0xAE, CHR 0x9E, CHR 0xE7, CHR 0x8E, CHR 0xB0]]
      else if cap = ''planning'' then
        [[CHR 0xE8, CHR 0xAE, CHR 0xBE, CHR 0xE8, CHR 0xAE, CHR 0xA1, CHR 0xE6, CHR 0x96, CHR 0x87, CHR 0xE6,
          CHR 0xA1, CHR 0xA3, CHR 0xE5, CHR 0xB7, CHR 0xB2, CHR 0xE5, CHR 0x88, CHR 0x9B, CHR 0xE5, CHR 0xBB,
          CHR 0xBA, CHR 0xE4, CHR 0xB8, CHR 0x94, CHR 0xE6, CHR 0xB6, CHR 0xB5, CHR 0xE7, CHR 0x9B, CHR 0x96,
          CHR 0xE6, CHR 0x9E, CHR 0xB6, CHR 0xE6, CHR 0x9E, CHR 0x84, CHR 0xE3, CHR 0x80, CHR 0x81, CHR 0xE6,
          CHR 0xA8, CHR 0xA1, CHR 0xE5, CHR 0x9D, CHR 0x97, CHR 0xE5, CHR 0x88, CHR 0x92, CHR 0xE5, CHR 0x88,
          CHR 0x86, CHR 0xE3, CHR 0x80, CHR 0x81, CHR 0xE6, CHR 0x8A, CHR 0x80, CHR 0xE6, CHR 0x9C, CHR 0xAF,
          CHR 0xE9, CHR 0x80, CHR 0x89, CHR 0xE5, CHR 0x9E, CHR 0x8B],
         [CHR 0xE6, CHR 0x96, CHR 0x87, CHR 0xE6, CHR 0xA1, CHR 0xA3, CHR 0xE5, CHR 0x86, CHR 0x85, CHR 0xE5,
           CHR 0xAE, CHR 0xB9, CHR 0xE5, CHR 0xAE, CHR 0x8C, CHR 0xE6, CHR 0x95, CHR 0xB4, CHR 0xE3, CHR 0x80,
           CHR 0x81, CHR 0xE7, CHR 0xBB, CHR 0x93, CHR 0xE6, CHR 0x9E, CHR 0x84, CHR 0xE6, CHR 0xB8, CHR 0x85,
           CHR 0xE6, CHR 0x99, CHR 0xB0]]
      else [])"

text \<open>\<open>list(v or [])\<close>; the elements must be texts for the contract to be built.\<close>

definition given_criteria :: "pydict \<Rightarrow> string list option" where
  "given_criteria d =
     (case field_or d ''acceptance_criteria'' (PyList []) of
        PyList vs \<Rightarrow> texts_of vs
      | PyStr s \<Rightarrow> Some (points s)
      | PyDict kvs \<Rightarrow> Some (map fst kvs)
      | _ \<Rightarrow> None)"

definition task_attempts :: "planner_env \<Rightarrow> pydict \<Rightarrow> int option" where
  "task_attempts e d = map_option (\<lambda>n. max n 4) (pe_int e (let v = field d ''max_attempts'' (PyInt 4) in if truthy v then v else PyInt 4))"

definition task_text :: "planner_env \<Rightarrow> pydict \<Rightarrow> string" where
  "task_text e d = pe_str e (field d ''title'' (PyStr [])) @ '' '' @ pe_str e (field d ''objective'' (PyStr [])) @ '' '' @
     pe_str e (field d ''description'' (PyStr []))"

text \<open>
  The declared capabilities: an element that is no key of a set raises; an object stands for its keys where several are
  primary, and has no first element otherwise. The node takes texts only.
\<close>

definition hashable :: "pyval \<Rightarrow> bool" where
  "hashable v = (case v of PyList _ \<Rightarrow> False | PyDict _ \<Rightarrow> False | _ \<Rightarrow> True)"

definition declared_caps :: "pydict \<Rightarrow> pyval list option" where
  "declared_caps d =
     (case field_or d ''required_capabilities'' (PyList [PyStr ''default'']) of
        PyList vs \<Rightarrow> if list_all hashable vs then Some vs else None
      | PyDict kvs \<Rightarrow>
          (let ks = map (\<lambda>(k, _). PyStr k) kvs in if length (filter (among ROLE_CAPS) ks) > 1 then Some ks else None)
      | _ \<Rightarrow> None)"

definition task_caps :: "planner_env \<Rightarrow> pydict \<Rightarrow> string list option" where
  "task_caps e d =
     (case declared_caps d of
        None \<Rightarrow> None
      | Some caps \<Rightarrow> texts_of (corrected_caps e (task_text e d) (one_primary caps)))"

definition planned_node :: "planner_env \<Rightarrow> string \<Rightarrow> string list \<Rightarrow> pydict \<Rightarrow> task_node option" where
  "planned_node e i deps d =
     (case (task_caps e d, task_attempts e d, given_criteria d, text_of (field d ''title'' (PyStr i)),
            text_of (field d ''objective'' (PyStr i)), text_of (field d ''description'' (PyStr []))) of
        (Some caps, Some attempts, Some given, Some title, Some objective, Some description) \<Rightarrow>
          (case (text_list (field d ''requires_input_artifact_ids'' (PyList [])),
                 text_of (field d ''output_artifact_type'' (PyStr ''any'')),
                 pe_field_bool e (field d ''allow_parallel'' (PyBool True)), pe_field_int e (field d ''priority'' (PyInt 5))) of
             (Some inputs, Some kind, Some par, Some priority) \<Rightarrow>
               Some ((default_node i)\<lparr>node_title := title, node_objective := objective, node_description := description,
                 node_dependencies := deps, node_required_capabilities := caps, node_input_artifact_ids := inputs,
                 node_output_contract := default_contract\<lparr>oc_artifact_type := kind, oc_description := objective,
                   oc_acceptance_criteria := (if given = [] then default_criteria caps else given),
                   oc_allow_parallel := par\<rparr>,
                 node_priority := priority, node_max_attempts := attempts,
                 node_budget := default_budget\<lparr>bud_max_attempts := attempts,
                   bud_max_seconds := capability_timeout (Some caps)\<rparr>\<rparr>)
           | _ \<Rightarrow> None)
      | _ \<Rightarrow> None)"

section \<open>The plan\<close>

text \<open>\<open>parsed.get("tasks", [])\<close> of an object, else the answer itself.\<close>

definition raw_tasks :: "pyval \<Rightarrow> pyval" where
  "raw_tasks v = (case v of PyDict d \<Rightarrow> field d ''tasks'' (PyList []) | _ \<Rightarrow> v)"

fun collect_ids :: "pyval list \<Rightarrow> string list \<Rightarrow> string list plan_result" where
  "collect_ids [] seen = Inr seen"
| "collect_ids (v # vs) seen =
     (case v of
        PyDict d \<Rightarrow>
          (let i = field d ''id'' (PyStr []) in
           if \<not> truthy i then Inl Missing_id
           else case i of
             PyStr s \<Rightarrow> if s \<in> set seen then Inl (Duplicate_id s) else collect_ids vs (seen @ [s])
           | _ \<Rightarrow> Inl Bad_shape)
      | _ \<Rightarrow> Inl Bad_shape)"

definition first_unknown :: "string list \<Rightarrow> string list \<Rightarrow> string option" where
  "first_unknown ids deps = find (\<lambda>d. d \<notin> set ids) deps"

definition add_planned :: "planner_env \<Rightarrow> nat \<Rightarrow> string list \<Rightarrow> pydict \<Rightarrow> task_graph \<Rightarrow> task_graph plan_result" where
  "add_planned e k ids d g =
     (case (text_of (field d ''id'' (PyStr [])), text_list (field d ''dependencies'' (PyList []))) of
        (Some i, Some deps) \<Rightarrow>
          (case first_unknown ids deps of
             Some x \<Rightarrow> Inl (Unknown_dependency i x)
           | None \<Rightarrow>
               (case planned_node e i deps d of
                  None \<Rightarrow> Inl Bad_shape
                | Some n \<Rightarrow>
                    (case new_task_node n of
                       Inl x \<Rightarrow> Inl (Node_rejected x)
                     | Inr n' \<Rightarrow> (case add_node (pe_clock e k) n' g of Inl x \<Rightarrow> Inl (Plan_raised x) | Inr g' \<Rightarrow> Inr g'))))
      | _ \<Rightarrow> Inl Bad_shape)"

fun add_all :: "planner_env \<Rightarrow> nat \<Rightarrow> string list \<Rightarrow> pyval list \<Rightarrow> task_graph \<Rightarrow> task_graph plan_result" where
  "add_all e k ids [] g = Inr g"
| "add_all e k ids (v # vs) g =
     (case v of
        PyDict d \<Rightarrow> (case add_planned e k ids d g of Inl x \<Rightarrow> Inl x | Inr g' \<Rightarrow> add_all e (Suc k) ids vs g')
      | _ \<Rightarrow> Inl Bad_shape)"

text \<open>\<open>max(no_dep_tasks, key=priority)\<close>: the first of the greatest.\<close>

fun first_highest :: "task_node \<Rightarrow> task_node list \<Rightarrow> task_node" where
  "first_highest n [] = n"
| "first_highest n (m # ms) = first_highest (if node_priority m > node_priority n then m else n) ms"

definition with_root :: "task_graph \<Rightarrow> task_graph" where
  "with_root g =
     (case filter (\<lambda>n. node_dependencies n = []) (map snd (graph_nodes g)) of
        [] \<Rightarrow> g
      | n # ns \<Rightarrow> g\<lparr>graph_root := node_id (first_highest n ns)\<rparr>)"

definition empty_plan :: "time \<Rightarrow> task_graph" where
  "empty_plan now = \<lparr>graph_root = [], graph_nodes = [], graph_version = 1, graph_created_at = now, graph_updated_at = now\<rparr>"

definition parsed_to_graph :: "planner_env \<Rightarrow> pyval \<Rightarrow> task_graph plan_result" where
  "parsed_to_graph e v =
     (if \<not> truthy (raw_tasks v) then Inl No_tasks
      else case raw_tasks v of
        PyList vs \<Rightarrow>
          (case collect_ids vs [] of
             Inl x \<Rightarrow> Inl x
           | Inr ids \<Rightarrow> map_sum id with_root (add_all e 1 ids vs (empty_plan (pe_clock e 0))))
      | _ \<Rightarrow> Inl Bad_shape)"

text \<open>An answer that is itself a text is parsed once more.\<close>

definition plan_to_graph :: "planner_env \<Rightarrow> pyval \<Rightarrow> task_graph plan_result" where
  "plan_to_graph e v =
     (case v of
        PyStr s \<Rightarrow> (case pe_loads e s of Inl x \<Rightarrow> Inl (Model_failed x) | Inr w \<Rightarrow> parsed_to_graph e w)
      | _ \<Rightarrow> parsed_to_graph e v)"

definition validate_plan :: "task_graph \<Rightarrow> unit plan_result" where
  "validate_plan g = (case has_cycle g of Inl x \<Rightarrow> Inl (Plan_raised x) | Inr c \<Rightarrow> if c then Inl Plan_cycle else Inr ())"

definition planner_prompt :: "string \<Rightarrow> string \<Rightarrow> string" where
  "planner_prompt goal ctxt = (''## '' @ [CHR 0xE7, CHR 0x94, CHR 0xA8, CHR 0xE6, CHR 0x88, CHR 0xB7, CHR 0xE7,
    CHR 0x9B, CHR 0xAE, CHR 0xE6, CHR 0xA0, CHR 0x87, CHR 0x0A]) @ goal @ ([CHR 0x0A, CHR 0x0A] @ ''## '' @
    [CHR 0xE9, CHR 0xA2, CHR 0x9D, CHR 0xE5, CHR 0xA4, CHR 0x96, CHR 0xE4, CHR 0xB8, CHR 0x8A, CHR 0xE4,
    CHR 0xB8, CHR 0x8B, CHR 0xE6, CHR 0x96, CHR 0x87, CHR 0x0A]) @ (if ctxt = [] then (''('' @ [CHR 0xE6,
    CHR 0x97, CHR 0xA0] @ '')'') else ctxt)"

text \<open>At most \<open>max_retries + 1\<close> attempts; the result of the last is the error.\<close>

fun plan_loop :: "planner_env \<Rightarrow> string \<Rightarrow> nat \<Rightarrow> nat \<Rightarrow> planner_error \<Rightarrow> task_graph plan_result" where
  "plan_loop e p attempt 0 last_error = Inl last_error"
| "plan_loop e p attempt (Suc m) last_error =
     (case pe_answer e attempt p of
        Inl x \<Rightarrow> plan_loop e p (Suc attempt) m (Model_failed x)
      | Inr v \<Rightarrow>
          (case plan_to_graph e v of
             Inl x \<Rightarrow> plan_loop e p (Suc attempt) m x
           | Inr g \<Rightarrow> (case validate_plan g of Inl x \<Rightarrow> plan_loop e p (Suc attempt) m x | Inr _ \<Rightarrow> Inr g)))"

definition plan_with_llm :: "planner_env \<Rightarrow> string \<Rightarrow> string \<Rightarrow> nat \<Rightarrow> task_graph plan_result" where
  "plan_with_llm e goal ctxt max_retries = plan_loop e (planner_prompt goal ctxt) 1 (max_retries + 1) No_tasks"

end
