(* ===== verification/Planner_Props.thy ===== *)
theory Planner_Props
  imports Planner Task_Graph_Ops
begin

text \<open>
  An accepted plan: every attempt that succeeds leaves a valid graph of pending nodes with a root that depends on nothing,
  at most one primary capability and four to ten attempts per node. What the correction does not do is in the last section.
\<close>

section \<open>Capabilities\<close>

abbreviation primaries :: "pyval list \<Rightarrow> pyval list" where
  "primaries caps \<equiv> filter (among ROLE_CAPS) caps"

lemma not_primary_tool: "among LABEL_CAPS v \<Longrightarrow> \<not> among ROLE_CAPS v"
  by (auto simp: among_def ROLE_CAPS_def LABEL_CAPS_def split: pyval.splits)

lemma no_primary_tools: "filter (\<lambda>x. among LABEL_CAPS x \<and> among ROLE_CAPS x) caps = []"
  "filter (\<lambda>x. among ROLE_CAPS x \<and> among LABEL_CAPS x) caps = []"
  using not_primary_tool by (auto simp only: filter_empty_conv)

lemma one_primary_left: "length (primaries (one_primary caps)) \<le> 1"
proof (cases "length (primaries caps) > 1")
  case True
  then have "one_primary caps = hd (primaries caps) # filter (among LABEL_CAPS) caps" by (simp add: one_primary_def Let_def)
  then show ?thesis by (simp add: no_primary_tools)
qed (simp add: one_primary_def Let_def)

lemma role_one_primary: "length (primaries (role_for role caps)) \<le> 1"
  by (simp add: role_for_def no_primary_tools)

lemma corrected_one_primary: "length (primaries (corrected_caps e s (one_primary caps))) \<le> 1"
  using one_primary_left [of caps] role_one_primary by (simp add: corrected_caps_def)

lemma texts_of_iff: "texts_of vs = Some ss \<longleftrightarrow> vs = map PyStr ss"
proof (induction vs arbitrary: ss)
  case (Cons v vs)
  show ?case
  proof
    assume "texts_of (v # vs) = Some ss"
    then show "v # vs = map PyStr ss" using Cons.IH by (cases v) (auto split: option.splits)
  next
    assume "v # vs = map PyStr ss"
    then obtain s ts where "ss = s # ts" "v = PyStr s" "vs = map PyStr ts" by (cases ss) auto
    with Cons.IH [of ts] show "texts_of (v # vs) = Some ss" by simp
  qed
qed auto

lemma task_caps_one_primary: "task_caps e d = Some caps \<Longrightarrow> length (filter (\<lambda>c. c \<in> set ROLE_CAPS) caps) \<le> 1"
proof -
  assume "task_caps e d = Some caps"
  then obtain vs where "corrected_caps e (task_text e d) (one_primary vs) = map PyStr caps"
    by (auto simp: task_caps_def texts_of_iff split: option.splits)
  with corrected_one_primary [of e "task_text e d" vs] show ?thesis by (simp add: filter_map o_def among_def)
qed

section \<open>One task\<close>

definition planned_ok :: "task_node \<Rightarrow> bool" where
  "planned_ok n \<longleftrightarrow> node_status n = Node_PENDING \<and> node_attempts n = 0 \<and> 4 \<le> node_max_attempts n \<and> node_max_attempts n \<le> 10 \<and>
     0 \<le> node_priority n \<and> length (filter (\<lambda>c. c \<in> set ROLE_CAPS) (node_required_capabilities n)) \<le> 1"

lemma planned_node_facts:
  assumes "planned_node e i deps d = Some n"
  shows "node_id n = i \<and> node_dependencies n = deps \<and> node_status n = Node_PENDING \<and> node_attempts n = 0 \<and>
    4 \<le> node_max_attempts n \<and> bud_max_attempts (node_budget n) = node_max_attempts n \<and>
    length (filter (\<lambda>c. c \<in> set ROLE_CAPS) (node_required_capabilities n)) \<le> 1"
  using assms task_caps_one_primary
  by (auto simp: planned_node_def default_node_def task_attempts_def split: option.splits)

lemma new_node_ok:
  assumes "planned_node e i deps d = Some n" "new_task_node n = Inr n'"
  shows "n' = n \<and> planned_ok n"
  using planned_node_facts [OF assms(1)] assms(2)
  by (auto simp: new_task_node_def planned_ok_def task_budget_valid_def split: if_splits)

section \<open>All tasks\<close>

lemma update_absent: "k \<notin> set (map fst d) \<Longrightarrow> AList.update k v d = d @ [(k, v)]"
  by (induction d) auto

definition task_id_of :: "pyval \<Rightarrow> string" where
  "task_id_of v = (case v of PyDict d \<Rightarrow> (case field d ''id'' (PyStr []) of PyStr s \<Rightarrow> s | _ \<Rightarrow> []) | _ \<Rightarrow> [])"

lemma collect_ids_ok: "collect_ids vs seen = Inr ids \<Longrightarrow> distinct seen \<Longrightarrow> ids = seen @ map task_id_of vs \<and> distinct ids"
proof (induction vs seen rule: collect_ids.induct)
  case (2 v vs seen)
  then show ?case by (cases v) (auto simp: Let_def task_id_of_def split: if_splits pyval.splits)
qed simp

definition well_added :: "string list \<Rightarrow> task_graph \<Rightarrow> bool" where
  "well_added ids g \<longleftrightarrow> wf_graph g \<and> (\<forall>(k, n) \<in> set (graph_nodes g). planned_ok n \<and> set (node_dependencies n) \<subseteq> set ids)"

lemma add_planned_ok:
  assumes "add_planned e k ids d g = Inr g'" "well_added ids g"
  shows "well_added ids g' \<and> node_ids g' = node_ids g @ [task_id_of (PyDict d)]"
proof -
  from assms(1) obtain i deps n n' where i: "text_of (field d ''id'' (PyStr [])) = Some i"
    and known: "first_unknown ids deps = None" and n: "planned_node e i deps d = Some n" "new_task_node n = Inr n'"
    and g': "add_node (pe_clock e k) n' g = Inr g'"
    by (auto simp: add_planned_def split: option.splits sum.splits)
  from new_node_ok [OF n] planned_node_facts [OF n(1)] have ok: "planned_ok n" "n' = n" "node_id n = i" "node_dependencies n = deps"
    by simp_all
  from g' ok have fresh: "i \<notin> set (node_ids g)" by (auto simp: add_node_def split: if_splits)
  with g' ok have nodes: "graph_nodes g' = graph_nodes g @ [(i, n)]"
    by (auto simp: add_node_def touch_def put_node_def update_absent split: if_splits)
  have "task_id_of (PyDict d) = i"
    using i by (cases "field d ''id'' (PyStr [])") (auto simp: task_id_of_def)
  moreover have "set deps \<subseteq> set ids" using known by (auto simp: first_unknown_def find_None_iff)
  ultimately show ?thesis
    using assms(2) nodes fresh ok by (auto simp: well_added_def wf_graph_def)
qed

lemma add_all_ok:
  "add_all e k ids vs g = Inr g' \<Longrightarrow> well_added ids g \<Longrightarrow>
     well_added ids g' \<and> node_ids g' = node_ids g @ map task_id_of vs"
proof (induction vs arbitrary: k g)
  case (Cons v vs)
  from Cons.prems(1) obtain d g1 where v: "v = PyDict d" "add_planned e k ids d g = Inr g1" "add_all e (Suc k) ids vs g1 = Inr g'"
    by (auto split: pyval.splits sum.splits)
  from add_planned_ok [OF v(2) Cons.prems(2)] Cons.IH [OF v(3)] v(1) show ?case by simp
qed simp

lemma with_root_nodes [simp]: "graph_nodes (with_root g) = graph_nodes g"
  by (simp add: with_root_def split: list.split)

lemma graph_parts_cong:
  assumes "graph_nodes g' = graph_nodes g"
  shows "wf_graph g' = wf_graph g" "closed_graph g' = closed_graph g" "deps_of g' = deps_of g"
  using assms by (simp_all add: wf_graph_def closed_graph_def deps_of_def fun_eq_iff)

lemma parsed_to_graph_ok:
  assumes "parsed_to_graph e v = Inr g"
  shows "wf_graph g \<and> closed_graph g \<and> graph_nodes g \<noteq> [] \<and> (\<forall>(k, n) \<in> set (graph_nodes g). planned_ok n) \<and>
    (\<exists>g0. g = with_root g0)"
proof -
  from assms obtain vs where vs: "raw_tasks v = PyList vs" "vs \<noteq> []"
    by (cases "raw_tasks v") (auto simp: parsed_to_graph_def split: if_splits)
  with assms obtain ids where ids: "collect_ids vs [] = Inr ids"
    by (cases "collect_ids vs []") (auto simp: parsed_to_graph_def)
  from vs ids assms have "map_sum id with_root (add_all e 1 ids vs (empty_plan (pe_clock e 0))) = Inr g"
    by (simp add: parsed_to_graph_def)
  then obtain g0 where g0: "add_all e 1 ids vs (empty_plan (pe_clock e 0)) = Inr g0" and g: "g = with_root g0"
    by (auto dest: map_sum_InrD)
  have "well_added ids (empty_plan (pe_clock e 0))" by (simp add: well_added_def empty_plan_def wf_graph_def)
  from add_all_ok [OF g0 this] collect_ids_ok [OF ids] have wa: "well_added ids g0" and same: "node_ids g0 = ids" "ids = map task_id_of vs"
    by (simp_all add: empty_plan_def)
  have "set (deps_of g0 k) \<subseteq> set (node_ids g0)" for k
  proof (cases "get_node g0 k")
    case (Some n)
    with wa have "set (node_dependencies n) \<subseteq> set ids" using map_of_SomeD [of "graph_nodes g0" k n] by (auto simp: well_added_def)
    with Some same show ?thesis by (simp add: deps_of_def)
  qed (simp add: deps_of_def)
  then have "closed_graph g0" by (simp add: closed_graph_def)
  moreover from same vs(2) have "graph_nodes g0 \<noteq> []" by auto
  moreover have "wf_graph g0" "\<forall>(k, n) \<in> set (graph_nodes g0). planned_ok n" using wa unfolding well_added_def by blast+
  ultimately show ?thesis using g graph_parts_cong [OF with_root_nodes, of g0] by (simp only: with_root_nodes) blast
qed

lemma plan_to_graph_ok:
  assumes "plan_to_graph e v = Inr g"
  shows "wf_graph g \<and> closed_graph g \<and> graph_nodes g \<noteq> [] \<and> (\<forall>(k, n) \<in> set (graph_nodes g). planned_ok n) \<and>
    (\<exists>g0. g = with_root g0)"
  using assms parsed_to_graph_ok by (auto simp: plan_to_graph_def split: pyval.splits sum.splits)

section \<open>The root\<close>

definition entry_nodes :: "task_graph \<Rightarrow> task_node list" where
  "entry_nodes g = filter (\<lambda>n. node_dependencies n = []) (map snd (graph_nodes g))"

lemma first_highest_ok:
  "first_highest n ms \<in> insert n (set ms) \<and> (\<forall>m \<in> insert n (set ms). node_priority m \<le> node_priority (first_highest n ms))"
proof (induction ms arbitrary: n)
  case (Cons m ms)
  show ?case using Cons [of n] Cons [of m] by (cases "node_priority m > node_priority n") auto
qed simp

lemma with_root_ok:
  assumes "entry_nodes g \<noteq> []"
  shows "\<exists>n \<in> set (entry_nodes g). graph_root (with_root g) = node_id n \<and> (\<forall>m \<in> set (entry_nodes g). node_priority m \<le> node_priority n)"
proof -
  from assms obtain n ns where "entry_nodes g = n # ns" by (cases "entry_nodes g") auto
  then show ?thesis using first_highest_ok [of n ns]
    by (intro bexI [of _ "first_highest n ns"]) (auto simp: with_root_def entry_nodes_def [symmetric])
qed

lemma valid_graph_entry:
  assumes valid: "valid_graph g" and some: "graph_nodes g \<noteq> []"
  shows "entry_nodes g \<noteq> []"
proof -
  from topological_order_ok [OF valid] obtain out where out: "set out = set (node_ids g)"
    "\<And>i. i < length out \<Longrightarrow> set (deps_of g (out ! i)) \<subseteq> set (take i out)" by metis
  from out(1) some have "out \<noteq> []" by auto
  then have k: "hd out \<in> set (node_ids g)" "deps_of g (hd out) = []"
    using out(2) [of 0] hd_in_set [of out] unfolding out(1) [symmetric] by (simp_all add: hd_conv_nth)
  then obtain n where n: "get_node g (hd out) = Some n" by (cases "get_node g (hd out)") (simp_all add: map_of_eq_None_iff)
  with k(2) map_of_SomeD [OF n] have "n \<in> set (entry_nodes g)" by (force simp: entry_nodes_def)
  then show ?thesis by auto
qed

section \<open>The accepted plan\<close>

lemma plan_loop_accepts:
  "plan_loop e p k m x = Inr g \<Longrightarrow> \<exists>v. plan_to_graph e v = Inr g \<and> validate_plan g = Inr ()"
proof (induction m arbitrary: k x)
  case (Suc m)
  then show ?case by (auto split: sum.splits)
qed simp

lemma validated_acyclic: "wf_graph g \<Longrightarrow> closed_graph g \<Longrightarrow> validate_plan g = Inr () \<Longrightarrow> acyclic (dep_rel g)"
  using has_cycle_correct [of g] by (auto simp: validate_plan_def split: if_splits)

text \<open>C29: A plan accepted from the model is schedulable: its graph is valid (distinct ids, known dependencies, no cycle), every
  node is pending with four to ten attempts and at most one primary capability, and the root is a dependency-free node of
  the highest priority that the scheduler may start at once.\<close>

theorem accepted_plan_is_schedulable:
  assumes "plan_with_llm e goal ctxt max_retries = Inr g"
  shows "valid_graph g \<and> (\<forall>(k, n) \<in> set (graph_nodes g). planned_ok n) \<and>
    (\<exists>r rs. get_node g (graph_root g) = Some r \<and> r \<in> set (entry_nodes g) \<and>
       (\<forall>m \<in> set (entry_nodes g). node_priority m \<le> node_priority r) \<and> ready_tasks g = Inr rs \<and> r \<in> set rs)"
proof -
  from assms obtain v where v: "plan_to_graph e v = Inr g" "validate_plan g = Inr ()"
    using plan_loop_accepts unfolding plan_with_llm_def by blast
  from plan_to_graph_ok [OF v(1)] obtain g0 where shape: "wf_graph g" "closed_graph g" "graph_nodes g \<noteq> []"
    and nodes: "\<forall>(k, n) \<in> set (graph_nodes g). planned_ok n" and g: "g = with_root g0" by blast
  from validated_acyclic [OF shape(1,2) v(2)] shape have valid: "valid_graph g" by (simp add: valid_graph_def)
  have same: "entry_nodes g = entry_nodes g0" by (simp add: g entry_nodes_def)
  from with_root_ok [of g0] valid_graph_entry [OF valid shape(3)] same obtain r where r: "r \<in> set (entry_nodes g)"
    "graph_root g = node_id r" "\<forall>m \<in> set (entry_nodes g). node_priority m \<le> node_priority r"
    using g by metis
  from r(1) obtain k where k: "(k, r) \<in> set (graph_nodes g)" "node_dependencies r = []" by (auto simp: entry_nodes_def)
  with shape(1) r(2) have get: "get_node g (graph_root g) = Some r" by (auto simp: wf_graph_def)
  from k nodes have "is_ready g r" by (auto simp: planned_ok_def is_ready_def can_be_ready_def)
  from in_ready_tasks [OF shape(1,2) get this] show ?thesis using valid nodes get r by blast
qed

definition demo_task :: "string \<Rightarrow> string list \<Rightarrow> string list \<Rightarrow> pyval" where
  "demo_task i deps caps = PyDict [(''id'', PyStr i), (''title'', PyStr ''implement''), (''dependencies'', PyList (map PyStr deps)),
     (''required_capabilities'', PyList (map PyStr caps))]"

definition demo_planner :: planner_env where
  "demo_planner = \<lparr>pe_answer = (\<lambda>k _. if k = 1 then Inl ''timeout'' else Inr (PyDict [(''tasks'',
       PyList [demo_task ''b'' [''a''] [''coding'', ''testing''], demo_task ''a'' [] [''coding'', ''config'']])])),
     pe_loads = (\<lambda>_. Inl ''no JSON''),
     pe_field_int = (\<lambda>v. case v of PyInt n \<Rightarrow> Some n | _ \<Rightarrow> None), pe_field_bool = (\<lambda>v. case v of PyBool b \<Rightarrow> Some b | _ \<Rightarrow> None),
     pe_int = (\<lambda>v. case v of PyInt n \<Rightarrow> Some n | _ \<Rightarrow> None), pe_str = (\<lambda>v. case v of PyStr s \<Rightarrow> s | _ \<Rightarrow> ''None''),
     pe_word = (\<lambda>k t. contains k t), pe_clock = (\<lambda>_. 0)\<rparr>"

definition demo_accepted :: task_graph where
  "demo_accepted = (case plan_with_llm demo_planner ''build it'' [] 2 of Inl _ \<Rightarrow> empty_plan 0 | Inr g \<Rightarrow> g)"

lemma demo_accepted_result: "plan_with_llm demo_planner ''build it'' [] 2 = Inr demo_accepted"
  by code_simp

theorem accepted_plan_is_schedulable_witness:
  "graph_root demo_accepted = ''a'' \<and> node_ids demo_accepted = [''b'', ''a''] \<and> valid_graph demo_accepted"
proof (intro conjI)
  show "graph_root demo_accepted = ''a''" "node_ids demo_accepted = [''b'', ''a'']" by code_simp+
  show "valid_graph demo_accepted" using accepted_plan_is_schedulable [OF demo_accepted_result] by blast
qed

section \<open>Unknown capabilities\<close>

text \<open>An unknown capability is reported as filtered and kept: where the first declared capability is the task's one
  primary capability, and not planning, every other label stays, the unknown ones included.\<close>

theorem unknown_capability_survives:
  assumes "map_of d ''required_capabilities'' = Some (PyList (map PyStr (c # cs)))"
    and "c \<in> set ROLE_CAPS" "c \<noteq> ''planning''" "set cs \<inter> set ROLE_CAPS = {}"
  shows "task_caps e d = Some (c # cs)"
proof -
  have "declared_caps d = Some (map PyStr (c # cs))"
    using assms(1) by (simp add: declared_caps_def field_or_def field_def hashable_def list_all_iff)
  moreover have tl: "primaries (map PyStr cs) = []" using assms(4) by (auto simp: filter_empty_conv among_def)
  then have "one_primary (map PyStr (c # cs)) = map PyStr (c # cs)" by (simp add: one_primary_def Let_def)
  moreover have "\<not> needs_heuristic (map PyStr (c # cs))"
    using assms(2,3) by (auto simp: needs_heuristic_def among_def ROLE_CAPS_def)
  ultimately show ?thesis unfolding task_caps_def corrected_caps_def by (simp only: option.case if_True texts_of_iff simp_thms)
qed

theorem unknown_capability_survives_witness:
  "task_caps demo_planner [(''required_capabilities'', PyList [PyStr ''coding'', PyStr ''config''])] = Some [''coding'', ''config''] \<and>
   ''config'' \<notin> set (ROLE_CAPS @ LABEL_CAPS)"
proof
  show "task_caps demo_planner [(''required_capabilities'', PyList [PyStr ''coding'', PyStr ''config''])] = Some [''coding'', ''config'']"
    by (rule unknown_capability_survives) (simp_all add: ROLE_CAPS_def)
  show "''config'' \<notin> set (ROLE_CAPS @ LABEL_CAPS)" by (simp add: ROLE_CAPS_def LABEL_CAPS_def)
qed

end
