(* ===== verification/Agent_Profiles.thy ===== *)
theory Agent_Profiles
  imports Py_Prelude
begin

text \<open>
  \<open>app/multiagent/agent_profile.py\<close>: the profiles of workers and the registry that finds one by capability. A set is a
  list read as a set; the order in which Python walks over a set of profile ids is an argument. Scores are rationals where
  the code has floats. The policies for models, memory, workspace, sandbox and context only feed prompts and factories and
  are left out.
\<close>

record tool_policy =
  tp_allowed_tools :: "string list"
  tp_deny_all :: bool
  tp_file_read :: bool
  tp_file_write :: bool
  tp_shell :: bool
  tp_team_tools :: bool

record agent_profile =
  pf_id :: string
  pf_name :: string
  pf_role :: string
  pf_description :: string
  pf_capabilities :: "string list"
  pf_tools :: tool_policy
  pf_max_concurrency :: int

definition has_capability :: "agent_profile \<Rightarrow> string \<Rightarrow> bool" where
  "has_capability p c \<longleftrightarrow> c \<in> set (pf_capabilities p)"

definition has_all_capabilities :: "agent_profile \<Rightarrow> string list \<Rightarrow> bool" where
  "has_all_capabilities p required \<longleftrightarrow> set required \<subseteq> set (pf_capabilities p)"

record runtime_metrics =
  rm_success_rate :: rat
  rm_total :: int
  rm_failed :: int
  rm_load :: int
  rm_last_active :: "time option"

definition new_metrics :: runtime_metrics where
  "new_metrics = \<lparr>rm_success_rate = 1, rm_total = 0, rm_failed = 0, rm_load = 0, rm_last_active = None\<rparr>"

record capability_registry =
  cr_profiles :: "(string \<times> agent_profile) list"
  cr_index :: "(string \<times> string list) list"
  cr_metrics :: "(string \<times> runtime_metrics) list"

definition empty_registry :: capability_registry where
  "empty_registry = \<lparr>cr_profiles = [], cr_index = [], cr_metrics = []\<rparr>"

section \<open>Registration\<close>

type_synonym capability_index = "(string \<times> string list) list"

definition cap_index_of :: "string \<Rightarrow> capability_index \<Rightarrow> string list" where
  "cap_index_of c ix = (case map_of ix c of None \<Rightarrow> [] | Some ps \<Rightarrow> ps)"

text \<open>\<open>discard\<close>, and \<open>del\<close> of a set that is empty then.\<close>

definition cap_index_discard :: "string \<Rightarrow> string \<Rightarrow> capability_index \<Rightarrow> capability_index" where
  "cap_index_discard i c ix =
     (let ps = filter (\<lambda>p. p \<noteq> i) (cap_index_of c ix)
      in if ps = [] then filter (\<lambda>(k, _). k \<noteq> c) ix else AList.update c ps ix)"

definition cap_index_add :: "string \<Rightarrow> string \<Rightarrow> capability_index \<Rightarrow> capability_index" where
  "cap_index_add i c ix = (let ps = cap_index_of c ix in AList.update c (if i \<in> set ps then ps else ps @ [i]) ix)"

definition register_profile :: "agent_profile \<Rightarrow> capability_registry \<Rightarrow> capability_registry" where
  "register_profile p reg =
     (let ix = (case map_of (cr_profiles reg) (pf_id p) of
                  None \<Rightarrow> cr_index reg
                | Some old \<Rightarrow> fold (cap_index_discard (pf_id p)) (pf_capabilities old) (cr_index reg))
      in reg\<lparr>cr_profiles := AList.update (pf_id p) p (cr_profiles reg),
             cr_index := fold (cap_index_add (pf_id p)) (pf_capabilities p) ix\<rparr>)"

definition unregister_profile :: "string \<Rightarrow> capability_registry \<Rightarrow> capability_registry" where
  "unregister_profile i reg =
     (case map_of (cr_profiles reg) i of
        None \<Rightarrow> reg
      | Some p \<Rightarrow> \<lparr>cr_profiles = AList.delete i (cr_profiles reg),
                   cr_index = fold (cap_index_discard i) (pf_capabilities p) (cr_index reg),
                   cr_metrics = AList.delete i (cr_metrics reg)\<rparr>)"

definition get_profile :: "string \<Rightarrow> capability_registry \<Rightarrow> agent_profile option" where
  "get_profile i reg = map_of (cr_profiles reg) i"

definition list_profiles :: "capability_registry \<Rightarrow> agent_profile list" where
  "list_profiles reg = map snd (cr_profiles reg)"

section \<open>Search\<close>

text \<open>The intersection of what the index has for each capability.\<close>

definition indexed_candidates :: "string list \<Rightarrow> capability_index \<Rightarrow> string list" where
  "indexed_candidates cs ix =
     fold (\<lambda>c ps. filter (\<lambda>i. i \<in> set (cap_index_of c ix)) ps) (tl cs) (cap_index_of (hd cs) ix)"

definition find_workers :: "(string list \<Rightarrow> string list) \<Rightarrow> string list \<Rightarrow> capability_registry \<Rightarrow> agent_profile list" where
  "find_workers order required reg =
     (if required = [] then list_profiles reg
      else List.map_filter (map_of (cr_profiles reg)) (order (indexed_candidates required (cr_index reg))))"

definition metrics_of :: "string \<Rightarrow> capability_registry \<Rightarrow> runtime_metrics" where
  "metrics_of i reg = (case map_of (cr_metrics reg) i of None \<Rightarrow> new_metrics | Some m \<Rightarrow> m)"

definition hours_since :: "time \<Rightarrow> time \<Rightarrow> rat" where
  "hours_since now t = of_int (now - t) / 3600000000"

definition score_worker :: "time \<Rightarrow> agent_profile \<Rightarrow> capability_registry \<Rightarrow> rat" where
  "score_worker now p reg =
     (let m = metrics_of (pf_id p) reg in
      50 + rm_success_rate m * 40 + (if rm_load m = 0 then 30 else - 10 * of_int (rm_load m)) +
      (case rm_last_active m of
         None \<Rightarrow> 0
       | Some t \<Rightarrow> if hours_since now t < 1 / 2 then 10 else if hours_since now t < 24 then 5 else 0))"

definition find_best_worker ::
  "(string list \<Rightarrow> string list) \<Rightarrow> (nat \<Rightarrow> time) \<Rightarrow> string list \<Rightarrow> capability_registry \<Rightarrow> agent_profile option" where
  "find_best_worker order clk required reg =
     (case sort_key (\<lambda>(s, p). (- s, pf_id p))
             (map (\<lambda>(i, p). (score_worker (clk i) p reg, p)) (List.enumerate 0 (find_workers order required reg))) of
        [] \<Rightarrow> None
      | (_, p) # _ \<Rightarrow> Some p)"

section \<open>Metrics\<close>

definition put_metrics :: "string \<Rightarrow> runtime_metrics \<Rightarrow> capability_registry \<Rightarrow> capability_registry" where
  "put_metrics i m reg = reg\<lparr>cr_metrics := AList.update i m (cr_metrics reg)\<rparr>"

definition finished_task :: "time \<Rightarrow> bool \<Rightarrow> runtime_metrics \<Rightarrow> runtime_metrics" where
  "finished_task now failed m =
     (let total = rm_total m + 1; bad = rm_failed m + (if failed then 1 else 0) in
      \<lparr>rm_success_rate = (if total = 0 then 1 else of_int (total - bad) / of_int total),
       rm_total = total, rm_failed = bad, rm_load = max 0 (rm_load m - 1), rm_last_active = Some now\<rparr>)"

definition record_success :: "time \<Rightarrow> string \<Rightarrow> capability_registry \<Rightarrow> capability_registry" where
  "record_success now i reg = put_metrics i (finished_task now False (metrics_of i reg)) reg"

definition record_failure :: "time \<Rightarrow> string \<Rightarrow> capability_registry \<Rightarrow> capability_registry" where
  "record_failure now i reg = put_metrics i (finished_task now True (metrics_of i reg)) reg"

definition increment_load :: "string \<Rightarrow> capability_registry \<Rightarrow> capability_registry" where
  "increment_load i reg = (let m = metrics_of i reg in put_metrics i (m\<lparr>rm_load := rm_load m + 1\<rparr>) reg)"

section \<open>The profiles registered by default\<close>

definition worker_profile :: "string \<Rightarrow> string \<Rightarrow> string \<Rightarrow> string list \<Rightarrow> string list \<Rightarrow> bool \<Rightarrow> bool \<Rightarrow> bool \<Rightarrow> int \<Rightarrow> agent_profile" where
  "worker_profile i n descr caps tools can_write shell team concurrency =
     \<lparr>pf_id = i, pf_name = n, pf_role = n, pf_description = descr, pf_capabilities = caps,
      pf_tools = \<lparr>tp_allowed_tools = tools, tp_deny_all = True, tp_file_read = True, tp_file_write = can_write, tp_shell = shell,
        tp_team_tools = team\<rparr>,
      pf_max_concurrency = concurrency\<rparr>"

definition DEFAULT_PROFILES :: "agent_profile list" where
  "DEFAULT_PROFILES =
    [worker_profile ''planner'' ''Planner'' [CHR 0xE9, CHR 0xAB, CHR 0x98, CHR 0xE5, CHR 0xB1, CHR 0x82,
      CHR 0xE8, CHR 0xAE, CHR 0xA1, CHR 0xE5, CHR 0x88, CHR 0x92, CHR 0xE6, CHR 0x8B, CHR 0x86, CHR 0xE8,
      CHR 0xA7, CHR 0xA3, CHR 0xE8, CHR 0x80, CHR 0x85] [''planning'', ''file_read'', ''file_write'']
       [''create_file'', ''edit_file'', ''read_file'', ''list_dir''] True False True 1,
     worker_profile ''coder'' ''Coder'' [CHR 0xE4, CHR 0xBB, CHR 0xA3, CHR 0xE7, CHR 0xA0, CHR 0x81, CHR 0xE5,
       CHR 0xAE, CHR 0x9E, CHR 0xE7, CHR 0x8E, CHR 0xB0, CHR 0xE8, CHR 0x80,
       CHR 0x85] [''coding'', ''file_read'', ''file_write'', ''shell_execute'']
       [''create_file'', ''edit_file'', ''execute'', ''read_file'', ''list_dir''] True True True 2,
     worker_profile ''tester'' ''Tester'' [CHR 0xE6, CHR 0xB5, CHR 0x8B, CHR 0xE8, CHR 0xAF, CHR 0x95, CHR 0xE5,
       CHR 0xAE, CHR 0x9E, CHR 0xE7, CHR 0x8E, CHR 0xB0, CHR 0xE8, CHR 0x80,
       CHR 0x85] [''testing'', ''file_read'', ''file_write'', ''shell_execute'']
       [''execute'', ''read_file'', ''create_file'', ''list_dir''] True True True 3,
     worker_profile ''reviewer'' ''ReviewerAgent'' [CHR 0xE4, CHR 0xBB, CHR 0xA3, CHR 0xE7, CHR 0xA0, CHR 0x81,
       CHR 0xE4, CHR 0xB8, CHR 0x8E, CHR 0xE4, CHR 0xBA, CHR 0xA7, CHR 0xE7, CHR 0x89, CHR 0xA9, CHR 0xE8,
       CHR 0xAF, CHR 0x84, CHR 0xE5, CHR 0xAE, CHR 0xA1, CHR 0xE8, CHR 0x80, CHR 0x85] [''reviewing'', ''file_read'']
       [''read_file'', ''list_dir''] False False False 3,
     worker_profile ''researcher'' ''Researcher'' [CHR 0xE4, CHR 0xBF, CHR 0xA1, CHR 0xE6, CHR 0x81, CHR 0xAF,
       CHR 0xE8, CHR 0xB0, CHR 0x83, CHR 0xE7, CHR 0xA0, CHR 0x94, CHR 0xE8, CHR 0x80,
       CHR 0x85] [''research'', ''file_read'', ''file_write'', ''web_research'']
       [''search'', ''fetch_url'', ''read_file'', ''list_dir'', ''create_file'', ''edit_file''] True False True 3,
     worker_profile ''finalizer'' ''Finalizer'' [CHR 0xE6, CHR 0x9C, CHR 0x80, CHR 0xE7, CHR 0xBB, CHR 0x88,
       CHR 0xE8, CHR 0xBE, CHR 0x93, CHR 0xE5, CHR 0x87, CHR 0xBA, CHR 0xE9, CHR 0x9B, CHR 0x86, CHR 0xE7,
       CHR 0xBB, CHR 0x93, CHR 0xE8, CHR 0x80, CHR 0x85] [''summarization'', ''file_read'', ''file_write'']
       [''create_file'', ''read_file'', ''list_dir''] True False True 1]"

definition default_registry :: capability_registry where
  "default_registry = fold register_profile DEFAULT_PROFILES empty_registry"

section \<open>The index is exact\<close>

text \<open>A capability leads to the profiles that declare it and to no other.\<close>

definition index_exact :: "capability_registry \<Rightarrow> bool" where
  "index_exact reg \<longleftrightarrow> distinct (map fst (cr_profiles reg)) \<and> distinct (map fst (cr_index reg)) \<and>
     (\<forall>(k, p) \<in> set (cr_profiles reg). pf_id p = k) \<and>
     (\<forall>c. distinct (cap_index_of c (cr_index reg)) \<and>
       (\<forall>i. i \<in> set (cap_index_of c (cr_index reg)) \<longleftrightarrow> (\<exists>p. map_of (cr_profiles reg) i = Some p \<and> has_capability p c)))"

lemma index_exactD:
  assumes "index_exact reg"
  shows "distinct (map fst (cr_profiles reg))" "distinct (map fst (cr_index reg))" "distinct (cap_index_of c (cr_index reg))"
    "i \<in> set (cap_index_of c (cr_index reg)) \<longleftrightarrow> (\<exists>p. map_of (cr_profiles reg) i = Some p \<and> has_capability p c)"
    "map_of (cr_profiles reg) i = Some p \<Longrightarrow> pf_id p = i"
  using assms unfolding index_exact_def by (blast, blast, blast, blast, blast dest: map_of_SomeD)

lemma map_of_drop_key: "map_of (filter (\<lambda>(k, _). k \<noteq> c) xs) d = (if d = c then None else map_of xs d)"
  by (induction xs) auto

lemma cap_index_of_discard: "cap_index_of d (cap_index_discard i c ix) = (if d = c then filter (\<lambda>p. p \<noteq> i) (cap_index_of c ix) else cap_index_of d ix)"
  by (auto simp: cap_index_discard_def Let_def cap_index_of_def map_of_drop_key map_of_update)

lemma cap_index_of_add:
  "cap_index_of d (cap_index_add i c ix) =
     (if d = c then if i \<in> set (cap_index_of c ix) then cap_index_of c ix else cap_index_of c ix @ [i] else cap_index_of d ix)"
  by (auto simp: cap_index_add_def Let_def cap_index_of_def map_of_update)

lemma distinct_discard: "distinct (map fst ix) \<Longrightarrow> distinct (map fst (cap_index_discard i c ix))"
  by (auto simp: cap_index_discard_def Let_def distinct_keys_update distinct_map_filter)

lemma distinct_add: "distinct (map fst ix) \<Longrightarrow> distinct (map fst (cap_index_add i c ix))"
  by (auto simp: cap_index_add_def Let_def distinct_keys_update)

lemma discard_all:
  "distinct (map fst ix) \<Longrightarrow> distinct (map fst (fold (cap_index_discard i) cs ix)) \<and>
    cap_index_of d (fold (cap_index_discard i) cs ix) = (if d \<in> set cs then filter (\<lambda>p. p \<noteq> i) (cap_index_of d ix) else cap_index_of d ix)"
  by (induction cs arbitrary: ix) (auto simp: cap_index_of_discard distinct_discard)

lemma add_all:
  "distinct (map fst ix) \<Longrightarrow> distinct (map fst (fold (cap_index_add i) cs ix)) \<and>
    set (cap_index_of d (fold (cap_index_add i) cs ix)) = (if d \<in> set cs then insert i (set (cap_index_of d ix)) else set (cap_index_of d ix)) \<and>
    (distinct (cap_index_of d ix) \<longrightarrow> distinct (cap_index_of d (fold (cap_index_add i) cs ix)))"
  by (induction cs arbitrary: ix) (auto simp: cap_index_of_add distinct_add)

text \<open>Taking a profile's old entries out leaves the index of the others.\<close>

lemma discarded_index:
  assumes "index_exact reg" "map_of (cr_profiles reg) i = Some old"
  shows "set (cap_index_of c (fold (cap_index_discard i) (pf_capabilities old) (cr_index reg))) =
    {j. j \<noteq> i \<and> (\<exists>p. map_of (cr_profiles reg) j = Some p \<and> has_capability p c)}"
  using discard_all [OF index_exactD(2) [OF assms(1)], of i "pf_capabilities old" c] index_exactD(4) [OF assms(1), of _ c] assms(2)
  by (auto simp: has_capability_def)

lemma absent_index: "index_exact reg \<Longrightarrow> map_of (cr_profiles reg) i = None \<Longrightarrow>
    set (cap_index_of c (cr_index reg)) = {j. j \<noteq> i \<and> (\<exists>p. map_of (cr_profiles reg) j = Some p \<and> has_capability p c)}"
  using index_exactD(4) [of reg _ c] by auto

lemma register_exact:
  assumes "index_exact reg"
  shows "index_exact (register_profile p reg)"
proof -
  define ix where "ix = (case map_of (cr_profiles reg) (pf_id p) of None \<Rightarrow> cr_index reg
    | Some old \<Rightarrow> fold (cap_index_discard (pf_id p)) (pf_capabilities old) (cr_index reg))"
  have ix: "distinct (map fst ix)" "distinct (cap_index_of c ix)"
      "set (cap_index_of c ix) = {j. j \<noteq> pf_id p \<and> (\<exists>q. map_of (cr_profiles reg) j = Some q \<and> has_capability q c)}" for c
    using discarded_index [OF assms] absent_index [OF assms] discard_all index_exactD(2,3) [OF assms]
    by (auto simp: ix_def split: option.split)
  have ids: "\<forall>(k, q) \<in> set (AList.update (pf_id p) p (cr_profiles reg)). pf_id q = k"
    using update_values [of "pf_id p" p "cr_profiles reg"] assms unfolding index_exact_def by fast
  note added = add_all [OF ix(1), of "pf_id p" "pf_capabilities p"]
  have "i \<in> set (cap_index_of c (fold (cap_index_add (pf_id p)) (pf_capabilities p) ix)) \<longleftrightarrow>
      (\<exists>q. map_of (AList.update (pf_id p) p (cr_profiles reg)) i = Some q \<and> has_capability q c)" for i c
    using added [of c] ix(3) [of c] by (auto simp: map_of_update has_capability_def)
  moreover have "distinct (cap_index_of c (fold (cap_index_add (pf_id p)) (pf_capabilities p) ix))" for c using added [of c] ix(2) by blast
  ultimately show ?thesis using added ids index_exactD(1) [OF assms]
    unfolding index_exact_def register_profile_def Let_def ix_def [symmetric]
    by (auto simp: distinct_keys_update)
qed

lemma unregister_exact:
  assumes "index_exact reg"
  shows "index_exact (unregister_profile i reg)"
proof (cases "map_of (cr_profiles reg) i")
  case None
  with assms show ?thesis by (simp add: unregister_profile_def)
next
  case (Some p)
  note gone = discarded_index [OF assms Some]
  note disc = discard_all [OF index_exactD(2) [OF assms], of i "pf_capabilities p"]
  have ids: "\<forall>(k, q) \<in> set (AList.delete i (cr_profiles reg)). pf_id q = k"
    using assms unfolding index_exact_def by (auto simp: AList.delete_eq)
  have "j \<in> set (cap_index_of c (fold (cap_index_discard i) (pf_capabilities p) (cr_index reg))) \<longleftrightarrow>
      (\<exists>q. map_of (AList.delete i (cr_profiles reg)) j = Some q \<and> has_capability q c)" for j c
    unfolding gone by (auto simp: delete_conv')
  moreover have "distinct (cap_index_of c (fold (cap_index_discard i) (pf_capabilities p) (cr_index reg)))" for c
    using disc [of c] index_exactD(3) [OF assms, of c] by auto
  ultimately show ?thesis using disc ids index_exactD(1) [OF assms] Some
    by (simp add: index_exact_def unregister_profile_def distinct_delete)
qed

lemma metrics_exact: "index_exact (put_metrics i m reg) = index_exact reg"
  by (simp add: index_exact_def put_metrics_def)

lemma empty_exact: "index_exact empty_registry"
  by (simp add: index_exact_def empty_registry_def cap_index_of_def)

lemma default_exact: "index_exact default_registry"
proof -
  have "index_exact reg \<Longrightarrow> index_exact (fold register_profile ps reg)" for ps reg
    by (induction ps arbitrary: reg) (simp_all add: register_exact)
  then show ?thesis by (simp add: default_registry_def empty_exact)
qed

lemma indexed_set: "cs \<noteq> [] \<Longrightarrow> set (indexed_candidates cs ix) = {i. \<forall>c \<in> set cs. i \<in> set (cap_index_of c ix)}"
proof -
  have fold: "set (fold (\<lambda>c ps. filter (\<lambda>i. i \<in> set (cap_index_of c ix)) ps) cs ps) = {i \<in> set ps. \<forall>c \<in> set cs. i \<in> set (cap_index_of c ix)}" for cs ps
    by (induction cs arbitrary: ps) auto
  assume "cs \<noteq> []"
  then show ?thesis by (cases cs) (auto simp: indexed_candidates_def fold)
qed

lemma set_map_filter_some: "set (List.map_filter f xs) = {y. \<exists>x \<in> set xs. f x = Some y}"
  by (induction xs) (auto simp: map_filter_simps split: option.split)

text \<open>What is found is what has the capabilities.\<close>

lemma find_workers_exact:
  assumes "index_exact reg" "\<forall>ps. set (order ps) = set ps"
  shows "set (find_workers order cs reg) = {p \<in> set (list_profiles reg). has_all_capabilities p cs}"
proof (cases "cs = []")
  case True
  then show ?thesis by (auto simp: find_workers_def has_all_capabilities_def)
next
  case False
  have mem: "p \<in> set (list_profiles reg) \<longleftrightarrow> (\<exists>i. map_of (cr_profiles reg) i = Some p)" for p
    using index_exactD(1) [OF assms(1)] by (auto simp: list_profiles_def dest: map_of_SomeD intro!: image_eqI)
  have "set (find_workers order cs reg) = {p. \<exists>i. (\<forall>c \<in> set cs. i \<in> set (cap_index_of c (cr_index reg))) \<and> map_of (cr_profiles reg) i = Some p}"
    using False assms(2) by (auto simp: find_workers_def indexed_set set_map_filter_some)
  also have "\<dots> = {p \<in> set (list_profiles reg). has_all_capabilities p cs}"
    using False by (auto simp: index_exactD(4) [OF assms(1)] mem has_all_capabilities_def has_capability_def)
  finally show ?thesis .
qed

end
