(* ===== verification/Team_Builder.thy ===== *)
theory Team_Builder
  imports Agent_Profiles Worker
begin

text \<open>
  \<open>app/multiagent/team_builder.py\<close>: the teammates of a run, chosen from the profiles by the capabilities of the planned tasks
  and the roles of the team. The order of a set, clock readings, generated ids, which writes go through and how deep a
  recursion may go are arguments. The mailbox creates an inbox when it is first read, so the builder's read of it changes
  nothing.
\<close>

datatype team_error =
    Team_unknown string | Team_no_match string "string list" | Team_recursion | Team_no_teammates
  | Team_agent registry_error | Team_session session_error | Team_event store_error

record team_context =
  tx_run_id :: string
  tx_team_id :: string
  tx_workspace_root :: string
  tx_checkpoint_namespace :: string

record team_env =
  tm_order :: "string list \<Rightarrow> string list"
  tm_scored_at :: "string \<Rightarrow> string list \<Rightarrow> nat \<Rightarrow> time"  \<comment> \<open>the clock at the k-th candidate of a task's search\<close>
  tm_recursion :: nat
  tm_write :: "nat \<Rightarrow> bool"
  tm_clock :: "nat \<Rightarrow> nat \<Rightarrow> time"  \<comment> \<open>the readings while the k-th agent is created\<close>
  tm_agent_id :: "nat \<Rightarrow> string"
  tm_session_id :: "nat \<Rightarrow> string"
  tm_thread_id :: "nat \<Rightarrow> string"
  tm_event_id :: "nat \<Rightarrow> string"
  tm_redact :: "string \<Rightarrow> string"

record team_state =
  tm_registry :: agent_registry
  tm_sessions :: supervisor
  tm_log :: event_log

section \<open>A profile for each task\<close>

definition role_key :: "string \<Rightarrow> string" where
  "role_key r = lower (strip r)"

text \<open>\<open>max(xs, key=f)\<close>: the first of the greatest.\<close>

fun first_best :: "('a \<Rightarrow> 'b::linorder) \<Rightarrow> 'a \<Rightarrow> 'a list \<Rightarrow> 'a" where
  "first_best f x [] = x"
| "first_best f x (y # ys) = first_best f (if f x < f y then y else x) ys"

definition find_allowed :: "team_env \<Rightarrow> string list \<Rightarrow> capability_registry \<Rightarrow> string \<Rightarrow> string list \<Rightarrow> agent_profile option" where
  "find_allowed e roles caps_reg task required =
     (case filter (\<lambda>p. role_key (pf_role p) \<in> set (map role_key roles)) (find_workers (tm_order e) required caps_reg) of
        [] \<Rightarrow> None
      | ps \<Rightarrow>
          let scored = map (\<lambda>(i, p). (score_worker (tm_scored_at e task required i) p caps_reg, p)) (List.enumerate 0 ps)
          in Some (snd (first_best (\<lambda>(s, p). (s, pf_id p)) (hd scored) (tl scored))))"

definition BUILDER_TOOL_CAPS :: "string list" where
  "BUILDER_TOOL_CAPS = [''file_read'', ''file_write'', ''shell_execute'', ''web_research'', ''mcp_access'', ''default'']"

definition BUILDER_PRIMARY_CAPS :: "string list" where
  "BUILDER_PRIMARY_CAPS = [''planning'', ''research'', ''coding'', ''testing'', ''reviewing'', ''summarization'']"

definition fallback_caps :: "string list \<Rightarrow> string list option" where
  "fallback_caps caps =
     (let stripped = filter (\<lambda>c. c \<in> set BUILDER_PRIMARY_CAPS) caps;
          tools_off = filter (\<lambda>c. c \<notin> set BUILDER_TOOL_CAPS) caps
      in if stripped \<noteq> [] \<and> set stripped \<noteq> set caps then Some stripped
         else if set stripped \<noteq> set caps \<and> tools_off \<noteq> [] \<and> set tools_off \<noteq> set caps then Some tools_off
         else None)"

definition match_profile :: "team_env \<Rightarrow> string list \<Rightarrow> capability_registry \<Rightarrow> task_node \<Rightarrow> agent_profile option" where
  "match_profile e roles caps_reg n =
     (case find_allowed e roles caps_reg (node_id n) (node_required_capabilities n) of
        Some p \<Rightarrow> Some p
      | None \<Rightarrow> (case fallback_caps (node_required_capabilities n) of
                   None \<Rightarrow> None
                 | Some cs \<Rightarrow> find_allowed e roles caps_reg (node_id n) cs))"

fun match_tasks :: "team_env \<Rightarrow> string list \<Rightarrow> capability_registry \<Rightarrow> task_node list \<Rightarrow> team_error + (string \<times> string) list" where
  "match_tasks e roles caps_reg [] = Inr []"
| "match_tasks e roles caps_reg (n # ns) =
     (case match_profile e roles caps_reg n of
        None \<Rightarrow> Inl (Team_no_match (node_id n) (node_required_capabilities n))
      | Some p \<Rightarrow> (case match_tasks e roles caps_reg ns of
                     Inl x \<Rightarrow> Inl x
                   | Inr m \<Rightarrow> Inr ((node_id n, pf_id p) # m)))"

section \<open>The depth of a task\<close>

type_synonym depths = "(string \<times> nat) list"

text \<open>The inner \<open>depth_of\<close>, with the cache it fills; \<open>None\<close> when the recursion gets too deep.\<close>

fun depth_of :: "nat \<Rightarrow> node_table \<Rightarrow> string \<Rightarrow> depths \<Rightarrow> (depths \<times> nat) option"
  and deepest_of :: "nat \<Rightarrow> node_table \<Rightarrow> string list \<Rightarrow> nat \<Rightarrow> depths \<Rightarrow> (depths \<times> nat) option" where
  "depth_of 0 ns i d = None"
| "depth_of (Suc k) ns i d =
     (case map_of d i of
        Some v \<Rightarrow> Some (d, v)
      | None \<Rightarrow>
          (case map_of ns i of
             None \<Rightarrow> Some (d, 0)
           | Some n \<Rightarrow>
               if node_dependencies n = [] then Some (AList.update i 0 d, 0)
               else (case deepest_of k ns (node_dependencies n) 0 d of
                       None \<Rightarrow> None
                     | Some (d', m) \<Rightarrow> Some (AList.update i (1 + m) d', 1 + m))))"
| "deepest_of k ns [] m d = Some (d, m)"
| "deepest_of k ns (x # xs) m d =
     (if map_of ns x = None then deepest_of k ns xs m d
      else (case depth_of k ns x d of None \<Rightarrow> None | Some (d', v) \<Rightarrow> deepest_of k ns xs (max m v) d'))"

fun depths_from :: "nat \<Rightarrow> node_table \<Rightarrow> string list \<Rightarrow> depths \<Rightarrow> depths option" where
  "depths_from k ns [] d = Some d"
| "depths_from k ns (i # is) d = (case depth_of k ns i d of None \<Rightarrow> None | Some (d', _) \<Rightarrow> depths_from k ns is d')"

definition compute_task_depths :: "nat \<Rightarrow> node_table \<Rightarrow> depths option" where
  "compute_task_depths k ns = depths_from k ns (map fst ns) []"

section \<open>How many agents\<close>

definition depth_at :: "depths \<Rightarrow> string \<Rightarrow> nat" where
  "depth_at d i = (case map_of d i of None \<Rightarrow> 0 | Some v \<Rightarrow> v)"

text \<open>\<open>profile_depth_demand\<close> and the greatest of it over the depths.\<close>

definition depth_demand :: "(string \<times> string) list \<Rightarrow> depths \<Rightarrow> string \<Rightarrow> nat \<Rightarrow> nat" where
  "depth_demand assigned d p v = length (filter (\<lambda>(t, q). q = p \<and> depth_at d t = v) assigned)"

definition MAX_PARALLEL_AGENTS :: nat where
  "MAX_PARALLEL_AGENTS = 3"

definition agent_demand :: "(string \<times> string) list \<Rightarrow> depths \<Rightarrow> string \<Rightarrow> nat" where
  "agent_demand assigned d p =
     min MAX_PARALLEL_AGENTS (max 1 (fold max (map (\<lambda>(t, q). if q = p then depth_demand assigned d p (depth_at d t) else 0) assigned) 0))"

definition live_count :: "agent_instance list \<Rightarrow> string \<Rightarrow> nat" where
  "live_count existing p =
     length (filter (\<lambda>a. ag_profile_id a = p \<and> ag_status a \<notin> {Agent_STOPPED, Agent_FAILED}) existing)"

definition selected_profiles :: "capability_registry \<Rightarrow> (string \<times> string) list \<Rightarrow> depths \<Rightarrow> agent_instance list \<Rightarrow> agent_profile list" where
  "selected_profiles caps_reg assigned d existing =
     concat (map (\<lambda>p. if pf_id p \<in> set (map snd assigned)
         then replicate (agent_demand assigned d (pf_id p) - live_count existing (pf_id p)) p else [])
       (list_profiles caps_reg))"

section \<open>Spawning\<close>

definition agent_name :: "agent_profile \<Rightarrow> nat \<Rightarrow> nat \<Rightarrow> string" where
  "agent_name p i already = (if i = 1 \<and> already = 0 then pf_name p else pf_name p @ ''-'' @ str_nat i)"

definition spawn_args :: "team_context \<Rightarrow> agent_profile \<Rightarrow> nat \<Rightarrow> nat \<Rightarrow> agent_args" where
  "spawn_args x p i already =
     \<lparr>aa_profile_id = pf_id p, aa_name = agent_name p i already, aa_role = pf_role p, aa_team_id = tx_team_id x,
      aa_run_id = tx_run_id x, aa_description = pf_description p, aa_capabilities = sort (remdups (pf_capabilities p)),
      aa_checkpoint_namespace = Some (tx_checkpoint_namespace x @ '':'' @ pf_id p @ '':'' @ str_nat i),
      aa_workspace_root = tx_workspace_root x, aa_agent_id_override = None, aa_session_id_override = None,
      aa_thread_id_override = None, aa_checkpoint_namespace_override = None, aa_created_at_override = None,
      aa_max_concurrency = pf_max_concurrency p, aa_metadata = [], aa_worktree_path = [], aa_mailbox_cursor = 0\<rparr>"

definition spawned_event :: "team_env \<Rightarrow> team_context \<Rightarrow> nat \<Rightarrow> agent_profile \<Rightarrow> agent_instance \<Rightarrow> event_row" where
  "spawned_event e x k p a =
     \<lparr>te_event_id = tm_event_id e k, te_run_id = tx_run_id x, te_event_type = ''agent_spawned'', te_agent_id = Some (ag_agent_id a),
      te_task_id = None, te_task_run_id = None, te_timestamp = PyTime (tm_clock e k 6), te_trace_id = None,
      te_payload = PyDict [(''profile_id'', PyStr (pf_id p)), (''session_id'', PyStr (ag_session_id a)),
        (''thread_id'', PyStr (ag_thread_id a))]\<rparr>"

definition spawn_agent :: "team_env \<Rightarrow> team_context \<Rightarrow> nat \<Rightarrow> agent_profile \<Rightarrow> nat \<Rightarrow> nat \<Rightarrow> team_state
    \<Rightarrow> team_state \<times> (team_error + agent_instance)" where
  "spawn_agent e x k p i already st =
     (case create_agent (tm_write e k) (tm_clock e k) (tm_agent_id e k) (tm_session_id e k) (tm_thread_id e k)
             (spawn_args x p i already) (tm_registry st) of
        (reg, Inl err) \<Rightarrow> (st\<lparr>tm_registry := reg\<rparr>, Inl (Team_agent err))
      | (reg, Inr a) \<Rightarrow>
          (case ensure_session (tm_clock e k 5) (identity_of a) (tm_sessions st) of
             (sv, Inl err) \<Rightarrow> (st\<lparr>tm_registry := reg, tm_sessions := sv\<rparr>, Inl (Team_session err))
           | (sv, Inr _) \<Rightarrow>
               (case record_event (tm_redact e) (spawned_event e x k p a) None (tm_log st) of
                  (lg, Inl err) \<Rightarrow> (\<lparr>tm_registry = reg, tm_sessions = sv, tm_log = lg\<rparr>, Inl (Team_event err))
                | (lg, Inr _) \<Rightarrow> (\<lparr>tm_registry = reg, tm_sessions = sv, tm_log = lg\<rparr>, Inr a))))"

fun spawn_all :: "team_env \<Rightarrow> team_context \<Rightarrow> (string \<Rightarrow> nat) \<Rightarrow> agent_profile list \<Rightarrow> nat \<Rightarrow> (string \<times> nat) list \<Rightarrow> team_state
    \<Rightarrow> team_state \<times> (team_error + agent_instance list)" where
  "spawn_all e x already [] k counts st = (st, Inr [])"
| "spawn_all e x already (p # ps) k counts st =
     (let i = depth_at counts (pf_id p) + 1 in
      case spawn_agent e x k p i (already (pf_id p)) st of
        (st1, Inl err) \<Rightarrow> (st1, Inl err)
      | (st1, Inr a) \<Rightarrow>
          (case spawn_all e x already ps (Suc k) (AList.update (pf_id p) i counts) st1 of
             (st2, Inl err) \<Rightarrow> (st2, Inl err)
           | (st2, Inr as) \<Rightarrow> (st2, Inr (a # as))))"

text \<open>The roles of the team, \<open>None\<close> for a name that \<open>get_team\<close> does not know.\<close>

definition build_team_sync :: "team_env \<Rightarrow> team_context \<Rightarrow> string list option \<Rightarrow> capability_registry \<Rightarrow> task_graph \<Rightarrow> team_state
    \<Rightarrow> team_state \<times> (team_error + agent_instance list)" where
  "build_team_sync e x team_roles caps_reg g st =
     (let existing = agents_by_run (tx_run_id x) (tm_registry st) in
      case team_roles of
        None \<Rightarrow> (st, Inl (Team_unknown (tx_team_id x)))
      | Some roles \<Rightarrow>
          (case match_tasks e roles caps_reg (map snd (graph_nodes g)) of
             Inl err \<Rightarrow> (st, Inl err)
           | Inr assigned \<Rightarrow>
               (case compute_task_depths (tm_recursion e) (graph_nodes g) of
                  None \<Rightarrow> (st, Inl Team_recursion)
                | Some d \<Rightarrow>
                    (let selected = selected_profiles caps_reg assigned d existing in
                     if selected = [] \<and> assigned \<noteq> [] then (st, Inr existing)
                     else if selected = [] then (st, Inl Team_no_teammates)
                     else (case spawn_all e x (live_count existing) selected 0 [] st of
                             (st', Inl err) \<Rightarrow> (st', Inl err)
                           | (st', Inr created) \<Rightarrow> (st', Inr (existing @ created)))))))"

text \<open>\<open>default_teams.py\<close>.\<close>

definition get_team_roles :: "string \<Rightarrow> string list option" where
  "get_team_roles t =
     map_of [(''software_dev_team'', [''Planner'', ''Researcher'', ''Coder'', ''Tester'', ''ReviewerAgent'', ''Finalizer'']),
             (''research_team'', [''Planner'', ''Researcher'', ''Finalizer''])] t"

end
