(* ===== verification/Tool_Journal.thy ===== *)
theory Tool_Journal
  imports Py_Prelude
begin

text \<open>
  \<open>app/multiagent/tool_runtime.py\<close>: the durable journal of tool invocations, one row per idempotency key. The columns of
  a row repeat fields of its payload, so a row is its payload. The digest of the canonical JSON is an argument of the
  callers; ids and clock readings are arguments.
\<close>

datatype invocation_status = Inv_STARTED | Inv_COMPLETED | Inv_FAILED | Inv_CANCELLED | Inv_NEEDS_COMPENSATION | Inv_NEEDS_HUMAN

fun invocation_value :: "invocation_status \<Rightarrow> string" where
  "invocation_value Inv_STARTED = ''started''"
| "invocation_value Inv_COMPLETED = ''completed''"
| "invocation_value Inv_FAILED = ''failed''"
| "invocation_value Inv_CANCELLED = ''cancelled''"
| "invocation_value Inv_NEEDS_COMPENSATION = ''needs_compensation''"
| "invocation_value Inv_NEEDS_HUMAN = ''needs_human''"

record invocation =
  iv_id :: string
  iv_key :: string
  iv_run_id :: string
  iv_agent_id :: string
  iv_task_id :: string
  iv_tool_name :: string
  iv_arguments :: pydict
  iv_side_effecting :: bool
  iv_status :: invocation_status
  iv_result :: pydict
  iv_error :: string
  iv_created_at :: time
  iv_updated_at :: time

type_synonym journal = "(string \<times> invocation) list"

text \<open>\<open>key_for\<close>: what is hashed does not name the attempt.\<close>

definition key_for :: "(pydict \<Rightarrow> string) \<Rightarrow> string \<Rightarrow> string \<Rightarrow> string \<Rightarrow> string \<Rightarrow> pydict \<Rightarrow> string" where
  "key_for digest run agent task tool arguments =
     digest [(''run_id'', PyStr run), (''agent_id'', PyStr agent), (''task_id'', PyStr task), (''tool'', PyStr tool),
       (''arguments'', PyDict arguments)]"

definition journal_get :: "string \<Rightarrow> journal \<Rightarrow> invocation option" where
  "journal_get k j = map_of j k"

definition journal_save :: "invocation \<Rightarrow> journal \<Rightarrow> journal" where
  "journal_save v j = AList.update (iv_key v) v j"

definition begin_invocation :: "invocation \<Rightarrow> journal \<Rightarrow> journal \<times> invocation \<times> bool" where
  "begin_invocation v j =
     (case journal_get (iv_key v) j of Some old \<Rightarrow> (j, old, False) | None \<Rightarrow> (journal_save v j, v, True))"

text \<open>\<open>KeyError\<close> is \<open>None\<close>.\<close>

definition complete_invocation :: "time \<Rightarrow> string \<Rightarrow> pydict \<Rightarrow> journal \<Rightarrow> journal option" where
  "complete_invocation now k result j =
     (case journal_get k j of
        None \<Rightarrow> None
      | Some v \<Rightarrow> Some (journal_save (v\<lparr>iv_status := Inv_COMPLETED, iv_result := result, iv_updated_at := now\<rparr>) j))"

definition fail_invocation :: "time \<Rightarrow> string \<Rightarrow> string \<Rightarrow> bool \<Rightarrow> journal \<Rightarrow> journal option" where
  "fail_invocation now k err cancelled j =
     (case journal_get k j of
        None \<Rightarrow> None
      | Some v \<Rightarrow> Some (journal_save (v\<lparr>iv_status := (if cancelled then Inv_CANCELLED else Inv_FAILED),
          iv_error := err, iv_updated_at := now\<rparr>) j))"

definition recovered :: "time \<Rightarrow> invocation \<Rightarrow> invocation" where
  "recovered now v = v\<lparr>iv_status := (if iv_side_effecting v then Inv_NEEDS_HUMAN else Inv_FAILED),
     iv_error := ''process_restarted_during_tool'', iv_updated_at := now\<rparr>"

fun recover_rows :: "(nat \<Rightarrow> time) \<Rightarrow> nat \<Rightarrow> invocation list \<Rightarrow> journal \<Rightarrow> journal" where
  "recover_rows now i [] j = j"
| "recover_rows now i (v # vs) j = recover_rows now (Suc i) vs (journal_save (recovered (now i) v) j)"

definition recover_incomplete :: "(nat \<Rightarrow> time) \<Rightarrow> string \<Rightarrow> journal \<Rightarrow> journal" where
  "recover_incomplete now run j =
     recover_rows now 0 (filter (\<lambda>v. iv_run_id v = run \<and> iv_status v = Inv_STARTED) (map snd j)) j"

section \<open>Rows stay\<close>

text \<open>Every row is stored under its own key.\<close>

definition journal_ok :: "journal \<Rightarrow> bool" where
  "journal_ok j \<longleftrightarrow> distinct (map fst j) \<and> (\<forall>(k, v) \<in> set j. iv_key v = k)"

lemma journal_ok_get: "journal_ok j \<Longrightarrow> journal_get k j = Some v \<Longrightarrow> iv_key v = k"
  by (auto simp: journal_ok_def journal_get_def dest!: map_of_SomeD)

lemma journal_save_get: "journal_get k (journal_save v j) = (if k = iv_key v then Some v else journal_get k j)"
  by (simp add: journal_get_def journal_save_def map_of_update)

lemma journal_save_ok: "journal_ok j \<Longrightarrow> journal_ok (journal_save v j)"
proof -
  assume ok: "journal_ok j"
  have "set (journal_save v j) \<subseteq> insert (iv_key v, v) (set j)"
    using update_values [of "iv_key v" v j] unfolding journal_save_def by blast
  with ok show ?thesis by (auto simp: journal_ok_def journal_save_def distinct_keys_update)
qed

text \<open>A status that settles a key: whatever is done, the key keeps a row.\<close>

definition journal_keys :: "journal \<Rightarrow> string set" where
  "journal_keys j = set (map fst j)"

lemma journal_keys_get: "k \<in> journal_keys j \<longleftrightarrow> journal_get k j \<noteq> None"
  unfolding journal_keys_def journal_get_def set_map by (simp add: map_of_eq_None_iff)

lemma journal_keys_save: "journal_keys (journal_save v j) = insert (iv_key v) (journal_keys j)"
  unfolding journal_keys_def journal_save_def by (simp only: set_keys_update)

lemma recover_rows_ok: "journal_ok j \<Longrightarrow> journal_ok (recover_rows now i vs j)"
  by (induction vs arbitrary: i j) (simp_all add: journal_save_ok)

lemma recover_rows_keys: "journal_keys j \<subseteq> journal_keys (recover_rows now i vs j)"
proof (induction vs arbitrary: i j)
  case (Cons v vs)
  have "journal_keys j \<subseteq> journal_keys (journal_save (recovered (now i) v) j)" by (auto simp: journal_keys_save)
  also have "\<dots> \<subseteq> journal_keys (recover_rows now (Suc i) vs (journal_save (recovered (now i) v) j))" by (rule Cons.IH)
  finally show ?case by simp
qed simp

lemma recover_incomplete_ok: "journal_ok j \<Longrightarrow> journal_ok (recover_incomplete now run j)"
  by (simp add: recover_incomplete_def recover_rows_ok)

lemma recover_incomplete_keys: "journal_keys j \<subseteq> journal_keys (recover_incomplete now run j)"
  by (simp add: recover_incomplete_def recover_rows_keys)

lemma begin_ok:
  assumes "begin_invocation v j = (j', w, new)" "journal_ok j"
  shows "journal_ok j'" "journal_keys j' = insert (iv_key v) (journal_keys j)" "new \<longleftrightarrow> iv_key v \<notin> journal_keys j"
    "new \<Longrightarrow> w = v" "journal_get (iv_key v) j' = Some w"
  using assms by (auto simp: begin_invocation_def journal_save_ok journal_keys_save journal_keys_get journal_save_get
      split: option.splits)

lemma complete_ok:
  assumes "complete_invocation now k r j = Some j'" "journal_ok j"
  shows "journal_ok j'" "journal_keys j' = journal_keys j"
proof -
  from assms(1) obtain v where v: "journal_get k j = Some v"
    and j': "j' = journal_save (v\<lparr>iv_status := Inv_COMPLETED, iv_result := r, iv_updated_at := now\<rparr>) j"
    by (auto simp: complete_invocation_def split: option.splits)
  show "journal_ok j'" using assms(2) by (simp add: j' journal_save_ok)
  from v have "k \<in> journal_keys j" by (simp add: journal_keys_get)
  then show "journal_keys j' = journal_keys j" using journal_ok_get [OF assms(2) v] by (auto simp: j' journal_keys_save)
qed

lemma fail_ok:
  assumes "fail_invocation now k err c j = Some j'" "journal_ok j"
  shows "journal_ok j'" "journal_keys j' = journal_keys j"
proof -
  from assms(1) obtain v where v: "journal_get k j = Some v"
    and j': "j' = journal_save (v\<lparr>iv_status := (if c then Inv_CANCELLED else Inv_FAILED), iv_error := err, iv_updated_at := now\<rparr>) j"
    by (auto simp: fail_invocation_def split: option.splits)
  show "journal_ok j'" using assms(2) by (simp add: j' journal_save_ok)
  from v have "k \<in> journal_keys j" by (simp add: journal_keys_get)
  then show "journal_keys j' = journal_keys j" using journal_ok_get [OF assms(2) v] by (auto simp: j' journal_keys_save)
qed

end
