(* ===== verification/Tools.thy ===== *)
theory Tools
  imports Shell_Policy Lifecycle_Hooks Tool_Journal
begin

text \<open>
  The governed tools of a worker (\<open>app/multiagent/executor.py\<close>): the path of a request, the budget of calls, the boundary
  of every call with its hooks and events, and the five tools over the files of the workspace, the permission broker, the
  shell policy and the journal. A resolved path is its list of components; how the file system resolves a text, the
  lifecycle hooks, the processes a command starts, the clock, generated ids, the cancel event and which writes go through
  are arguments, read in the order of a counter. Text is UTF-8; reading translates line ends as Python does. The workspace
  itself is a directory, as the executor creates it. The temporary file of a write and log lines are not modelled.
\<close>

section \<open>State\<close>

type_synonym fs_path = "string list"

text \<open>\<open>PermissionRequired\<close> carries its request; every other exception is its text.\<close>

datatype tool_exn = Tool_raised string | Tool_permission permission_request

fun tool_exn_text :: "tool_exn \<Rightarrow> string" where
  "tool_exn_text (Tool_raised msg) = msg"
| "tool_exn_text (Tool_permission q) = ''permission_required:'' @ pr_request_id q"

datatype tool_event =
    Tool_call_started string string string string string pydict  \<comment> \<open>run, agent, task, call id, tool, arguments\<close>
  | Tool_call_result string string string "string option" string pydict string "int option"  \<comment> \<open>\<dots> result, status, milliseconds\<close>
  | Budget_consumed string string string int int  \<comment> \<open>run, task, agent, used, limit\<close>
  | Budget_exceeded string string string int int

record budget_guard =
  bg_limit :: int
  bg_used :: int
  bg_emitted :: bool
  bg_durable :: bool  \<comment> \<open>\<open>_TaskToolBudgetGuard\<close>, else \<open>_RepromptBudgetGuard\<close>\<close>

type_synonym open_key = "string \<times> string \<times> string \<times> string"

record tool_state =
  ts_files :: "(fs_path \<times> string) list"
  ts_dirs :: "fs_path list"
  ts_journal :: journal
  ts_broker :: broker
  ts_guard :: budget_guard
  ts_log :: "tool_event list"
  ts_open :: "(open_key \<times> (string \<times> time) list) list"
  ts_hook_log :: "audit_entry list"
  ts_audit :: pydict  \<comment> \<open>the result dictionary of the running call\<close>
  ts_started :: "(string \<times> string list) list"  \<comment> \<open>the processes started, with the key they ran under\<close>
  ts_tick :: nat

record shell_result =
  sr_returncode :: int
  sr_stdout :: string
  sr_stderr :: string
  sr_timed_out :: bool
  sr_cancelled :: bool
  sr_phase :: "string option"

datatype path_failure = Path_value_error string | Path_raised string

record tool_env =
  te_run_id :: string
  te_agent_id :: string
  te_task_id :: string
  te_workspace :: string
  te_has_broker :: bool
  te_engine :: hook_engine
  te_resolve :: "string \<Rightarrow> path_failure + fs_path"  \<comment> \<open>\<open>Path(s).resolve()\<close> of an absolute path\<close>
  te_order :: "string list \<Rightarrow> string list"  \<comment> \<open>the order of a directory listing\<close>
  te_bad_text :: "string \<Rightarrow> string option"  \<comment> \<open>the text of \<open>UnicodeDecodeError\<close>\<close>
  te_bad_target :: "fs_path \<Rightarrow> string"  \<comment> \<open>the text of the \<open>OSError\<close> of a path that cannot be written\<close>
  te_write_error :: "nat \<Rightarrow> string option"
  te_process :: "nat \<Rightarrow> string list \<Rightarrow> (fs_path \<times> string) list \<Rightarrow> (string + shell_result) \<times> (fs_path \<times> string) list"
  te_cancelled :: "nat \<Rightarrow> bool"
  te_safety :: "nat \<Rightarrow> string option"  \<comment> \<open>the text of what \<open>context.tool_safety_point()\<close> raises\<close>
  te_recorded :: "nat \<Rightarrow> bool"  \<comment> \<open>whether the record of an event goes through\<close>
  te_now :: "nat \<Rightarrow> time"
  te_fresh :: "nat \<Rightarrow> string"
  te_digest :: "pydict \<Rightarrow> string"
  te_fingerprint :: fingerprinter
  te_request_hook :: "permission_request \<Rightarrow> string option"
  te_dumps :: "pyval \<Rightarrow> string"  \<comment> \<open>\<open>json.dumps\<close>\<close>

type_synonym 'a tool = "tool_state \<Rightarrow> tool_state \<times> (tool_exn + 'a)"

definition tret :: "'a \<Rightarrow> 'a tool" where
  "tret x s = (s, Inr x)"

definition traise :: "tool_exn \<Rightarrow> 'a tool" where
  "traise x s = (s, Inl x)"

definition tthen :: "'a tool \<Rightarrow> ('a \<Rightarrow> 'b tool) \<Rightarrow> 'b tool" where
  "tthen m k s = (case m s of (s', Inl x) \<Rightarrow> (s', Inl x) | (s', Inr v) \<Rightarrow> k v s')"

definition treading :: "(tool_state \<Rightarrow> 'a) \<Rightarrow> 'a tool" where
  "treading f s = (s, Inr (f s))"

definition tchange :: "(tool_state \<Rightarrow> tool_state) \<Rightarrow> unit tool" where
  "tchange f s = (f s, Inr ())"

text \<open>The next reading of the environment.\<close>

definition tlook :: "(nat \<Rightarrow> 'a) \<Rightarrow> 'a tool" where
  "tlook f s = (s\<lparr>ts_tick := Suc (ts_tick s)\<rparr>, Inr (f (ts_tick s)))"

definition twhen :: "bool \<Rightarrow> unit tool \<Rightarrow> unit tool" where
  "twhen b m = (if b then m else tret ())"

definition note_audit :: "string \<Rightarrow> pyval \<Rightarrow> unit tool" where
  "note_audit k v = tchange (\<lambda>s. s\<lparr>ts_audit := AList.update k v (ts_audit s)\<rparr>)"

section \<open>Paths\<close>

definition path_text :: "fs_path \<Rightarrow> string" where
  "path_text p = (if p = [] then ''/'' else concat (map (\<lambda>c. CHR ''/'' # c) p))"

definition rel_text :: "fs_path \<Rightarrow> string" where
  "rel_text p = (if p = [] then ''.'' else tl (path_text p))"

definition below :: "fs_path \<Rightarrow> fs_path \<Rightarrow> bool" where
  "below base p \<longleftrightarrow> take (length base) p = base"

definition drop_drive :: "string \<Rightarrow> string" where
  "drop_drive s =
     (case s of
        c # d # r \<Rightarrow> if d = CHR '':'' \<and> (let n = of_char c :: nat in 65 \<le> n \<and> n \<le> 90 \<or> 97 \<le> n \<and> n \<le> 122) then r else s
      | _ \<Rightarrow> s)"

definition lstrip_slash :: "string \<Rightarrow> string" where
  "lstrip_slash s = dropWhile (\<lambda>c. c = CHR ''/'') s"

definition rstrip_slash :: "string \<Rightarrow> string" where
  "rstrip_slash s = rev (lstrip_slash (rev s))"

text \<open>The part of a request below the workspace, with a repeated root taken off.\<close>

definition relative_request :: "string \<Rightarrow> string \<Rightarrow> string" where
  "relative_request base_text raw =
     (let req = lstrip_slash (drop_drive (replace_char (CHR 0x5C) (CHR ''/'') raw));
          base_rel = rstrip_slash (replace_char (CHR 0x5C) (CHR ''/'') base_text)
      in if starts_with (base_rel @ ''/'') req then drop (length base_rel + 1) req
         else if rstrip_slash req = base_rel then [] else req)"

definition safe_workspace_path :: "tool_env \<Rightarrow> string \<Rightarrow> path_failure + fs_path" where
  "safe_workspace_path e requested =
     (case te_resolve e (te_workspace e) of
        Inl x \<Rightarrow> Inl x
      | Inr base \<Rightarrow>
          let raw = strip requested;
              rest = (case te_resolve e (path_text base @ ''/'' @ relative_request (path_text base) raw) of
                        Inl x \<Rightarrow> Inl x
                      | Inr p \<Rightarrow> if below base p then Inr p else Inl (Path_value_error (''path escapes workspace: '' @ requested)))
          in if starts_with ''/'' raw
             then (case te_resolve e raw of Inl x \<Rightarrow> Inl x | Inr p \<Rightarrow> if below base p then Inr p else rest)
             else rest)"

section \<open>The budget of calls\<close>

definition recursion_limit_for :: "int option \<Rightarrow> int" where
  "recursion_limit_for max_tool_calls =
     max 80 (min 500 ((case max_tool_calls of None \<Rightarrow> 40 | Some n \<Rightarrow> n) * 3 + 20))"

definition emit_event :: "tool_env \<Rightarrow> tool_event \<Rightarrow> unit tool" where
  "emit_event e ev = tthen (tlook (te_recorded e)) (\<lambda>ok. twhen ok (tchange (\<lambda>s. s\<lparr>ts_log := ts_log s @ [ev]\<rparr>)))"

fun consumed_by :: "string \<Rightarrow> string \<Rightarrow> tool_event \<Rightarrow> bool" where
  "consumed_by run task (Budget_consumed r t a u l) = (r = run \<and> t = task)"
| "consumed_by run task _ = False"

definition restore_used :: "tool_env \<Rightarrow> tool_state \<Rightarrow> int" where
  "restore_used e s = int (length (filter (consumed_by (te_run_id e) (te_task_id e)) (ts_log s)))"

definition task_guard :: "tool_env \<Rightarrow> int \<Rightarrow> tool_state \<Rightarrow> budget_guard" where
  "task_guard e max_tool_calls s =
     \<lparr>bg_limit = max 1 max_tool_calls, bg_used = restore_used e s, bg_emitted = False, bg_durable = True\<rparr>"

definition reprompt_guard :: "int \<Rightarrow> budget_guard" where
  "reprompt_guard max_calls = \<lparr>bg_limit = max 1 max_calls, bg_used = 0, bg_emitted = False, bg_durable = False\<rparr>"

definition is_exceeded :: "budget_guard \<Rightarrow> bool" where
  "is_exceeded g \<longleftrightarrow> bg_used g \<ge> bg_limit g"

definition use_call :: "tool_state \<Rightarrow> tool_state" where
  "use_call s = s\<lparr>ts_guard := (ts_guard s)\<lparr>bg_used := bg_used (ts_guard s) + 1\<rparr>\<rparr>"

definition tool_safety_point :: "tool_env \<Rightarrow> unit tool" where
  "tool_safety_point e = tthen (tlook (te_safety e)) (\<lambda>x. case x of None \<Rightarrow> tret () | Some msg \<Rightarrow> traise (Tool_raised msg))"

definition task_checkpoint :: "tool_env \<Rightarrow> unit tool" where
  "task_checkpoint e =
     tthen (tool_safety_point e) (\<lambda>_. tthen (treading ts_guard) (\<lambda>g.
       if is_exceeded g
       then tthen (twhen (\<not> bg_emitted g)
              (tthen (emit_event e (Budget_exceeded (te_run_id e) (te_task_id e) (te_agent_id e) (bg_used g) (bg_limit g)))
                 (\<lambda>_. tchange (\<lambda>s. s\<lparr>ts_guard := (ts_guard s)\<lparr>bg_emitted := True\<rparr>\<rparr>))))
            (\<lambda>_. traise (Tool_raised (''tool_call_budget_exceeded:'' @ str_int (bg_limit g))))
       else tthen (tchange use_call)
            (\<lambda>_. emit_event e (Budget_consumed (te_run_id e) (te_task_id e) (te_agent_id e) (bg_used g + 1) (bg_limit g)))))"

definition reprompt_checkpoint :: "tool_env \<Rightarrow> unit tool" where
  "reprompt_checkpoint e =
     tthen (treading ts_guard) (\<lambda>g.
       if is_exceeded g then traise (Tool_raised (''reprompt_budget_exceeded:'' @ str_int (bg_limit g)))
       else tchange use_call)"

text \<open>The safety point the tools were built with is the checkpoint of their guard.\<close>

definition checkpoint :: "tool_env \<Rightarrow> unit tool" where
  "checkpoint e = tthen (treading (bg_durable \<circ> ts_guard)) (\<lambda>d. if d then task_checkpoint e else reprompt_checkpoint e)"

definition refuse_cancelled :: "tool_env \<Rightarrow> string \<Rightarrow> unit tool" where
  "refuse_cancelled e msg = tthen (tlook (te_cancelled e)) (\<lambda>c. if c then traise (Tool_raised msg) else tret ())"

definition tool_boundary :: "tool_env \<Rightarrow> unit tool" where
  "tool_boundary e = tthen (checkpoint e) (\<lambda>_. refuse_cancelled e ''cancelled_before_tool'')"

section \<open>The boundary of a call\<close>

definition call_key :: "tool_env \<Rightarrow> string \<Rightarrow> open_key" where
  "call_key e tool = (te_run_id e, te_agent_id e, te_task_id e, tool)"

definition open_calls :: "open_key \<Rightarrow> tool_state \<Rightarrow> (string \<times> time) list" where
  "open_calls k s = (case map_of (ts_open s) k of None \<Rightarrow> [] | Some xs \<Rightarrow> xs)"

definition register_tool_start :: "tool_env \<Rightarrow> string \<Rightarrow> (string \<times> time) tool" where
  "register_tool_start e tool =
     tthen (tlook (te_fresh e)) (\<lambda>i. tthen (tlook (te_now e)) (\<lambda>t.
       tthen (tchange (\<lambda>s. s\<lparr>ts_open := AList.update (call_key e tool) (open_calls (call_key e tool) s @ [(''tc_'' @ i, t)]) (ts_open s)\<rparr>))
         (\<lambda>_. tret (''tc_'' @ i, t))))"

definition pop_tool_start :: "tool_env \<Rightarrow> string \<Rightarrow> (string \<times> time) option tool" where
  "pop_tool_start e tool s =
     (case open_calls (call_key e tool) s of
        [] \<Rightarrow> (s, Inr None)
      | xs \<Rightarrow>
          (s\<lparr>ts_open := (if butlast xs = [] then filter (\<lambda>(k, _). k \<noteq> call_key e tool) (ts_open s)
                         else AList.update (call_key e tool) (butlast xs) (ts_open s))\<rparr>, Inr (Some (last xs))))"

definition tool_hook_context :: "tool_env \<Rightarrow> string \<Rightarrow> pydict \<Rightarrow> pydict \<Rightarrow> pydict" where
  "tool_hook_context e tool arguments result =
     [(''run_id'', PyStr (te_run_id e)), (''agent_id'', PyStr (te_agent_id e)), (''task_id'', PyStr (te_task_id e)),
      (''tool'', PyStr tool), (''arguments'', PyDict arguments), (''result'', PyDict result)]"

definition run_hook :: "tool_env \<Rightarrow> lifecycle_event \<Rightarrow> string \<Rightarrow> pydict \<Rightarrow> pydict \<Rightarrow> unit tool" where
  "run_hook e ev tool arguments result s =
     (case emit_async ev (tool_hook_context e tool arguments result) (te_engine e) of
        (r, entries) \<Rightarrow>
          let s' = s\<lparr>ts_hook_log := ts_hook_log s @ entries\<rparr>
          in if vetoed r
             then (s', Inl (Tool_raised (if hr_feedback r \<noteq> [] then hr_feedback r else event_value ev @ '' hook blocked '' @ tool)))
             else (s', Inr ()))"

definition tool_result_status :: "pydict \<Rightarrow> string" where
  "tool_result_status d =
     (case map_of d ''returncode'' of
        Some v \<Rightarrow> if v \<noteq> PyNone \<and> v \<noteq> PyInt 0 then ''error''
                  else if dict_truthy d ''error'' \<or> dict_truthy d ''timed_out'' \<or> dict_truthy d ''cancelled'' then ''error'' else ''ok''
      | None \<Rightarrow> if dict_truthy d ''error'' \<or> dict_truthy d ''timed_out'' \<or> dict_truthy d ''cancelled'' then ''error'' else ''ok'')"

definition before_tool :: "tool_env \<Rightarrow> string \<Rightarrow> pydict \<Rightarrow> unit tool" where
  "before_tool e tool arguments =
     (if te_run_id e = [] then tret ()
      else tthen (run_hook e Ev_BEFORE_TOOL_USE tool arguments []) (\<lambda>_.
           tthen (register_tool_start e tool) (\<lambda>(i, _).
             emit_event e (Tool_call_started (te_run_id e) (te_agent_id e) (te_task_id e) i tool arguments))))"

definition after_tool :: "tool_env \<Rightarrow> string \<Rightarrow> pydict \<Rightarrow> unit tool" where
  "after_tool e tool arguments =
     (if te_run_id e = [] then tret ()
      else tthen (treading ts_audit) (\<lambda>d.
           tthen (run_hook e Ev_AFTER_TOOL_USE tool arguments d) (\<lambda>_.
           tthen (pop_tool_start e tool) (\<lambda>popped. tthen (tlook (te_now e)) (\<lambda>t.
             emit_event e (Tool_call_result (te_run_id e) (te_agent_id e) (te_task_id e) (map_option fst popped) tool d
               (tool_result_status d) (map_option (\<lambda>(_, t0). (t - t0) div 1000) popped)))))))"

definition note_failure :: "tool_exn + 'a \<Rightarrow> tool_state \<Rightarrow> tool_state" where
  "note_failure r s =
     (case r of
        Inl x \<Rightarrow> if map_of (ts_audit s) ''error'' = None
                 then s\<lparr>ts_audit := AList.update ''error'' (PyStr (tool_exn_text x)) (ts_audit s)\<rparr> else s
      | Inr _ \<Rightarrow> s)"

definition tool_execution :: "tool_env \<Rightarrow> string \<Rightarrow> pydict \<Rightarrow> string tool \<Rightarrow> string tool" where
  "tool_execution e tool arguments body s =
     (case before_tool e tool arguments (s\<lparr>ts_audit := []\<rparr>) of
        (s1, Inl x) \<Rightarrow> (s1, Inl x)
      | (s1, Inr _) \<Rightarrow>
          (case body s1 of
             (s2, r) \<Rightarrow>
               (case after_tool e tool arguments (note_failure r s2) of
                  (s3, Inl x) \<Rightarrow> (s3, Inl x)
                | (s3, Inr _) \<Rightarrow> (s3, r))))"

section \<open>Files\<close>

definition is_file :: "fs_path \<Rightarrow> tool_state \<Rightarrow> bool" where
  "is_file p s \<longleftrightarrow> p \<in> set (map fst (ts_files s))"

definition is_dir :: "fs_path \<Rightarrow> tool_state \<Rightarrow> bool" where
  "is_dir p s \<longleftrightarrow> p \<in> set (ts_dirs s)"

definition parents_of :: "fs_path \<Rightarrow> fs_path list" where
  "parents_of p = map (\<lambda>n. take n p) [0..<length p]"

definition make_dirs :: "fs_path list \<Rightarrow> tool_state \<Rightarrow> tool_state" where
  "make_dirs ps s = s\<lparr>ts_dirs := ts_dirs s @ filter (\<lambda>p. \<not> is_dir p s) ps\<rparr>"

definition atomic_write :: "tool_env \<Rightarrow> fs_path \<Rightarrow> string \<Rightarrow> unit tool" where
  "atomic_write e p content =
     tthen (treading (\<lambda>s. list_ex (\<lambda>q. is_file q s) (parents_of p))) (\<lambda>bad.
       if bad then traise (Tool_raised (te_bad_target e p))
       else tthen (tchange (make_dirs (parents_of p))) (\<lambda>_.
            tthen (refuse_cancelled e ''cancelled_before_tool'') (\<lambda>_.
            tthen (tlook (te_write_error e)) (\<lambda>w.
              case w of
                Some msg \<Rightarrow> traise (Tool_raised msg)
              | None \<Rightarrow>
                  tthen (refuse_cancelled e ''cancelled_during_tool'') (\<lambda>_.
                  tthen (treading (is_dir p)) (\<lambda>dir.
                    if dir then traise (Tool_raised (te_bad_target e p))
                    else tchange (\<lambda>s. s\<lparr>ts_files := AList.update p content (ts_files s)\<rparr>)))))))"

text \<open>\<open>sorted(base.rglob("*"))\<close>, files only, at most fifty.\<close>

definition list_workspace_files :: "fs_path \<Rightarrow> nat \<Rightarrow> tool_state \<Rightarrow> string list" where
  "list_workspace_files base max_depth s =
     take 50 (map rel_text (filter (\<lambda>r. length r \<le> max_depth + 1)
       (map (drop (length base)) (sort (filter (\<lambda>p. below base p \<and> p \<noteq> base) (map fst (ts_files s)))))))"

definition child_names :: "fs_path \<Rightarrow> tool_state \<Rightarrow> string list" where
  "child_names p s =
     dedup (map (\<lambda>q. q ! length p) (filter (\<lambda>q. below p q \<and> length p < length q) (map fst (ts_files s) @ ts_dirs s)))"

fun universal_newlines :: "string \<Rightarrow> string" where
  "universal_newlines [] = []"
| "universal_newlines (c # cs) =
     (if c = CHR 0x0D then CHR 0x0A # (case cs of d # ds \<Rightarrow> if d = CHR 0x0A then universal_newlines ds else universal_newlines cs | [] \<Rightarrow> [])
      else c # universal_newlines cs)"

definition read_text :: "tool_env \<Rightarrow> fs_path \<Rightarrow> string tool" where
  "read_text e p s =
     (case map_of (ts_files s) p of
        None \<Rightarrow> (s, Inl (Tool_raised (te_bad_target e p)))
      | Some b \<Rightarrow> (case te_bad_text e b of Some msg \<Rightarrow> (s, Inl (Tool_raised msg)) | None \<Rightarrow> (s, Inr (universal_newlines b))))"

fun replace_first :: "string \<Rightarrow> string \<Rightarrow> string \<Rightarrow> string" where
  "replace_first old new [] = (if old = [] then new else [])"
| "replace_first old new (c # cs) =
     (if starts_with old (c # cs) then new @ drop (length old) (c # cs) else c # replace_first old new cs)"

definition lines_of :: "string list \<Rightarrow> string" where
  "lines_of ls = concat (map (\<lambda>(i, l). if i = (0 :: nat) then l else CHR 0x0A # l) (zip [0..<length ls] ls))"

definition item_line :: "string \<Rightarrow> string" where
  "item_line f = ''  - '' @ f"

section \<open>The tools\<close>

text \<open>A refused path is an answer, every other failure of resolving an exception.\<close>

definition with_path :: "tool_env \<Rightarrow> string \<Rightarrow> (fs_path \<Rightarrow> string tool) \<Rightarrow> string tool" where
  "with_path e requested k =
     (case safe_workspace_path e requested of
        Inl (Path_value_error msg) \<Rightarrow> tthen (note_audit ''error'' (PyStr msg)) (\<lambda>_. tret (([CHR 0xE9, CHR 0x94, CHR 0x99, CHR 0xE8, CHR 0xAF, CHR 0xAF] @ '': '') @ msg))
      | Inl (Path_raised msg) \<Rightarrow> traise (Tool_raised msg)
      | Inr p \<Rightarrow> k p)"

definition base_of :: "tool_env \<Rightarrow> fs_path" where
  "base_of e = (case te_resolve e (te_workspace e) of Inl _ \<Rightarrow> [] | Inr b \<Rightarrow> b)"

definition directory_answer :: "string \<Rightarrow> string list \<Rightarrow> string" where
  "directory_answer file_path files =
     (case files of
        [] \<Rightarrow> ([CHR 0xE9, CHR 0x94, CHR 0x99, CHR 0xE8, CHR 0xAF, CHR 0xAF] @ '': '' @ [CHR 0x27]) @
          file_path @ ([CHR 0x27] @ '' '' @ [CHR 0xE6, CHR 0x98, CHR 0xAF, CHR 0xE4, CHR 0xB8, CHR 0x80,
          CHR 0xE4, CHR 0xB8, CHR 0xAA, CHR 0xE7, CHR 0xA9, CHR 0xBA, CHR 0xE7, CHR 0x9B, CHR 0xAE, CHR 0xE5,
          CHR 0xBD, CHR 0x95, CHR 0xE3, CHR 0x80, CHR 0x82])
      | f # _ \<Rightarrow> ([CHR 0xE9, CHR 0x94, CHR 0x99, CHR 0xE8, CHR 0xAF, CHR 0xAF] @ '': '' @ [CHR 0x27]) @
        file_path @ ([CHR 0x27] @ '' '' @ [CHR 0xE6, CHR 0x98, CHR 0xAF, CHR 0xE4, CHR 0xB8, CHR 0x80, CHR 0xE4,
        CHR 0xB8, CHR 0xAA, CHR 0xE7, CHR 0x9B, CHR 0xAE, CHR 0xE5, CHR 0xBD, CHR 0x95, CHR 0xEF, CHR 0xBC,
        CHR 0x8C, CHR 0xE4, CHR 0xB8, CHR 0x8D, CHR 0xE6, CHR 0x98, CHR 0xAF, CHR 0xE6, CHR 0x96, CHR 0x87,
        CHR 0xE4, CHR 0xBB, CHR 0xB6, CHR 0xE3, CHR 0x80, CHR 0x82, CHR 0xE8, CHR 0xAF, CHR 0xB7, CHR 0xE7,
        CHR 0x94, CHR 0xA8] @ '' read_file '' @ [CHR 0xE8, CHR 0xAF, CHR 0xBB, CHR 0xE5, CHR 0x8F, CHR 0x96,
        CHR 0xE7, CHR 0x9B, CHR 0xAE, CHR 0xE5, CHR 0xBD, CHR 0x95, CHR 0xE4, CHR 0xB8, CHR 0x8B, CHR 0xE7,
        CHR 0x9A, CHR 0x84, CHR 0xE5, CHR 0x85, CHR 0xB7, CHR 0xE4, CHR 0xBD, CHR 0x93, CHR 0xE6, CHR 0x96,
        CHR 0x87, CHR 0xE4, CHR 0xBB, CHR 0xB6, CHR 0xE3, CHR 0x80, CHR 0x82, CHR 0xE8, CHR 0xAF, CHR 0xA5,
        CHR 0xE7, CHR 0x9B, CHR 0xAE, CHR 0xE5, CHR 0xBD, CHR 0x95, CHR 0xE5, CHR 0x8C, CHR 0x85, CHR 0xE5,
        CHR 0x90, CHR 0xAB, CHR 0xE4, CHR 0xBB, CHR 0xA5, CHR 0xE4, CHR 0xB8, CHR 0x8B, CHR 0xE6, CHR 0x96,
        CHR 0x87, CHR 0xE4, CHR 0xBB, CHR 0xB6, CHR 0xEF, CHR 0xBC, CHR 0x9A, CHR 0x0A]) @
          lines_of (map item_line files) @ ([CHR 0x0A, CHR 0xE4, CHR 0xBE, CHR 0x8B, CHR 0xE5, CHR 0xA6,
            CHR 0x82, CHR 0xEF, CHR 0xBC, CHR 0x9A] @ ''read_file('' @ [CHR 0x27]) @ rstrip_slash file_path @
            ''/'' @ f @ [CHR 0x27, CHR '')''])"

definition with_hints :: "string \<Rightarrow> string \<Rightarrow> string list \<Rightarrow> string" where
  "with_hints answer title hints = answer @ (if hints = [] then [] else title @ lines_of hints)"

definition file_hints :: "tool_env \<Rightarrow> fs_path \<Rightarrow> tool_state \<Rightarrow> string list" where
  "file_hints e p s =
     (let parent = butlast p; inputs = base_of e @ [''.inputs''];
          siblings = (if is_dir parent s then list_workspace_files parent 1 s else []);
          input_files = (if is_dir inputs s \<and> parent \<noteq> inputs then list_workspace_files inputs 2 s else [])
      in (if siblings = [] then [] else (([CHR 0xE7, CHR 0x9B, CHR 0xAE, CHR 0xE5, CHR 0xBD, CHR 0x95] @ '' '') @
        rel_text (drop (length (base_of e)) parent) @ ('' '' @ [CHR 0xE4, CHR 0xB8, CHR 0x8B, CHR 0xE7,
        CHR 0x9A, CHR 0x84, CHR 0xE6, CHR 0x96, CHR 0x87, CHR 0xE4, CHR 0xBB, CHR 0xB6, CHR 0xEF, CHR 0xBC,
        CHR 0x9A])) # map item_line (take 20 siblings)) @
         (if input_files = [] then [] else (''.inputs/ '' @ [CHR 0xE4, CHR 0xB8, CHR 0x8B, CHR 0xE7, CHR 0x9A,
           CHR 0x84, CHR 0xE5, CHR 0x8F, CHR 0xAF, CHR 0xE7, CHR 0x94, CHR 0xA8, CHR 0xE6, CHR 0x96, CHR 0x87,
           CHR 0xE4, CHR 0xBB, CHR 0xB6, CHR 0xEF, CHR 0xBC, CHR 0x9A]) # map item_line (take 15 input_files)))"

definition read_file_body :: "tool_env \<Rightarrow> string \<Rightarrow> string tool" where
  "read_file_body e file_path =
     with_path e file_path (\<lambda>p. tthen (treading id) (\<lambda>s.
       if is_dir p s
       then tthen (note_audit ''error'' (PyStr (([CHR 0xE8, CHR 0xB7, CHR 0xAF, CHR 0xE5, CHR 0xBE, CHR 0x84,
         CHR 0xE6, CHR 0x98, CHR 0xAF, CHR 0xE7, CHR 0x9B, CHR 0xAE, CHR 0xE5, CHR 0xBD, CHR 0x95, CHR 0xE4,
         CHR 0xB8, CHR 0x8D, CHR 0xE6, CHR 0x98, CHR 0xAF, CHR 0xE6, CHR 0x96, CHR 0x87, CHR 0xE4, CHR 0xBB,
         CHR 0xB6] @ '' '') @ file_path)))
              (\<lambda>_. tret (directory_answer file_path (list_workspace_files p 2 s)))
       else if \<not> is_file p s
       then tthen (note_audit ''error'' (PyStr (([CHR 0xE6, CHR 0x96, CHR 0x87, CHR 0xE4, CHR 0xBB, CHR 0xB6,
         CHR 0xE4, CHR 0xB8, CHR 0x8D, CHR 0xE5, CHR 0xAD, CHR 0x98, CHR 0xE5, CHR 0x9C, CHR 0xA8] @ '' '') @
         file_path)))
              (\<lambda>_. tret (with_hints (([CHR 0xE9, CHR 0x94, CHR 0x99, CHR 0xE8, CHR 0xAF, CHR 0xAF] @
                '': '' @ [CHR 0xE6, CHR 0x96, CHR 0x87, CHR 0xE4, CHR 0xBB, CHR 0xB6, CHR 0xE4, CHR 0xB8,
                CHR 0x8D, CHR 0xE5, CHR 0xAD, CHR 0x98, CHR 0xE5, CHR 0x9C, CHR 0xA8] @ '' '') @ file_path @
                [CHR 0xE3, CHR 0x80, CHR 0x82]) [CHR 0x0A, CHR 0xE5, CHR 0x8F, CHR 0xAF, CHR 0xE7, CHR 0x94,
                CHR 0xA8, CHR 0xE6, CHR 0x96, CHR 0x87, CHR 0xE4, CHR 0xBB, CHR 0xB6, CHR 0xE5, CHR 0x8F,
                CHR 0x82, CHR 0xE8, CHR 0x80, CHR 0x83, CHR 0xEF, CHR 0xBC, CHR 0x9A, CHR 0x0A] (file_hints e p s)))
       else tthen (read_text e p) (\<lambda>content.
            tthen (note_audit ''size'' (PyInt (int (code_points content)))) (\<lambda>_. tret content))))"

definition dir_hints :: "tool_env \<Rightarrow> fs_path \<Rightarrow> tool_state \<Rightarrow> string list" where
  "dir_hints e p s =
     (let parent = butlast p; inputs = base_of e @ [''.inputs''] in
      (if is_dir parent s \<and> parent \<noteq> p \<and> below (base_of e) parent
       then (([CHR 0xE7, CHR 0x9B, CHR 0xAE, CHR 0xE5, CHR 0xBD, CHR 0x95] @ '' '') @
         rel_text (drop (length (base_of e)) parent) @ (''/ '' @ [CHR 0xE4, CHR 0xB8, CHR 0x8B, CHR 0xE7,
         CHR 0x9A, CHR 0x84, CHR 0xE5, CHR 0x86, CHR 0x85, CHR 0xE5, CHR 0xAE, CHR 0xB9, CHR 0xEF, CHR 0xBC,
         CHR 0x9A])) # map item_line (take 20 (sort (child_names parent s))) else []) @
      (if is_dir inputs s then (''.inputs/ '' @ [CHR 0xE4, CHR 0xB8, CHR 0x8B, CHR 0xE7, CHR 0x9A, CHR 0x84,
        CHR 0xE5, CHR 0x86, CHR 0x85, CHR 0xE5, CHR 0xAE, CHR 0xB9, CHR 0xEF, CHR 0xBC,
        CHR 0x9A]) # map item_line (take 15 (sort (child_names inputs s))) else []))"

definition list_dir_body :: "tool_env \<Rightarrow> string \<Rightarrow> string tool" where
  "list_dir_body e path =
     with_path e path (\<lambda>p. tthen (treading id) (\<lambda>s.
       if \<not> is_dir p s
       then tthen (note_audit ''error'' (PyStr (([CHR 0xE7, CHR 0x9B, CHR 0xAE, CHR 0xE5, CHR 0xBD, CHR 0x95,
         CHR 0xE4, CHR 0xB8, CHR 0x8D, CHR 0xE5, CHR 0xAD, CHR 0x98, CHR 0xE5, CHR 0x9C, CHR 0xA8] @ '' '') @ path)))
              (\<lambda>_. tret (with_hints (([CHR 0xE9, CHR 0x94, CHR 0x99, CHR 0xE8, CHR 0xAF, CHR 0xAF] @
                '': '' @ [CHR 0xE7, CHR 0x9B, CHR 0xAE, CHR 0xE5, CHR 0xBD, CHR 0x95, CHR 0xE4, CHR 0xB8,
                CHR 0x8D, CHR 0xE5, CHR 0xAD, CHR 0x98, CHR 0xE5, CHR 0x9C, CHR 0xA8] @ '' '') @ path @
                [CHR 0xE3, CHR 0x80, CHR 0x82]) [CHR 0x0A, CHR 0xE5, CHR 0x8F, CHR 0xAF, CHR 0xE7, CHR 0x94,
                CHR 0xA8, CHR 0xE7, CHR 0x9B, CHR 0xAE, CHR 0xE5, CHR 0xBD, CHR 0x95, CHR 0xE5, CHR 0x8F,
                CHR 0x82, CHR 0xE8, CHR 0x80, CHR 0x83, CHR 0xEF, CHR 0xBC, CHR 0x9A, CHR 0x0A] (dir_hints e p s)))
       else tthen (note_audit ''count'' (PyInt (int (length (child_names p s)))))
              (\<lambda>_. tret (te_dumps e (PyList (map PyStr (te_order e (child_names p s))))))))"

text \<open>\<open>permission_broker.authorize(\<dots>)\<close>.\<close>

fun kind_text :: "permission_kind \<Rightarrow> string" where
  "kind_text FILE_READ = ''file_read''"
| "kind_text FILE_WRITE = ''file_write''"
| "kind_text SHELL = ''shell''"
| "kind_text NETWORK = ''network''"
| "kind_text GIT_BRANCH = ''git_branch''"
| "kind_text GIT_COMMIT = ''git_commit''"
| "kind_text GIT_PUSH = ''git_push''"
| "kind_text PACKAGE_INSTALL = ''package_install''"
| "kind_text ENVIRONMENT = ''environment_access''"
| "kind_text SECRET = ''secret_access''"
| "kind_text EXTERNAL_API = ''external_api''"
| "kind_text MCP_TOOL = ''mcp_tool''"
| "kind_text TEAMMATE_SPAWN = ''teammate_spawn''"
| "kind_text TASK_CREATE = ''task_creation''"
| "kind_text DESTRUCTIVE = ''destructive_operation''"

definition authorized :: "tool_env \<Rightarrow> permission_kind \<Rightarrow> string \<Rightarrow> pydict \<Rightarrow> string \<Rightarrow> unit tool" where
  "authorized e kind operation params reason =
     tthen (tlook (te_fresh e)) (\<lambda>i. tthen (tlook (te_now e)) (\<lambda>t1. tthen (tlook (te_now e)) (\<lambda>t2. \<lambda>s.
       case authorize (te_fingerprint e) (te_request_hook e) i t1 t2 (te_run_id e) (te_agent_id e) kind operation params reason (ts_broker s) of
         (br, out) \<Rightarrow>
           (s\<lparr>ts_broker := br\<rparr>,
            case out of
              Authorized \<Rightarrow> Inr ()
            | Denied_by_policy \<Rightarrow> Inl (Tool_raised (kind_text kind @ '':'' @ operation))
            | Denied_by_hook feedback \<Rightarrow> Inl (Tool_raised feedback)
            | Required q \<Rightarrow> Inl (Tool_permission q)))))"

definition write_allowed :: "tool_env \<Rightarrow> string \<Rightarrow> fs_path \<Rightarrow> unit tool" where
  "write_allowed e operation p =
     twhen (te_has_broker e) (authorized e FILE_WRITE operation [(''path'', PyStr (path_text p))] [])"

definition create_file_body :: "tool_env \<Rightarrow> string \<Rightarrow> string \<Rightarrow> string tool" where
  "create_file_body e file_path content =
     with_path e file_path (\<lambda>p.
       tthen (write_allowed e ''create_file'' p) (\<lambda>_. tthen (atomic_write e p content) (\<lambda>_.
       tthen (note_audit ''path'' (PyStr file_path)) (\<lambda>_. tret (([CHR 0xE6, CHR 0x96, CHR 0x87,
         CHR 0xE4, CHR 0xBB, CHR 0xB6, CHR 0xE5, CHR 0xB7, CHR 0xB2, CHR 0xE5, CHR 0x86, CHR 0x99, CHR 0xE5,
         CHR 0x85, CHR 0xA5] @ '': '') @ path_text p)))))"

definition edit_file_body :: "tool_env \<Rightarrow> string \<Rightarrow> string \<Rightarrow> string \<Rightarrow> string tool" where
  "edit_file_body e file_path old new =
     with_path e file_path (\<lambda>p. tthen (treading (is_file p)) (\<lambda>file.
       if \<not> file
       then tthen (note_audit ''error'' (PyStr (([CHR 0xE6, CHR 0x96, CHR 0x87, CHR 0xE4, CHR 0xBB, CHR 0xB6,
         CHR 0xE4, CHR 0xB8, CHR 0x8D, CHR 0xE5, CHR 0xAD, CHR 0x98, CHR 0xE5, CHR 0x9C, CHR 0xA8] @ '' '') @
         file_path))) (\<lambda>_. tret (([CHR 0xE9, CHR 0x94, CHR 0x99, CHR 0xE8, CHR 0xAF, CHR 0xAF] @ '': '' @
         [CHR 0xE6, CHR 0x96, CHR 0x87, CHR 0xE4, CHR 0xBB, CHR 0xB6, CHR 0xE4, CHR 0xB8, CHR 0x8D, CHR 0xE5,
         CHR 0xAD, CHR 0x98, CHR 0xE5, CHR 0x9C, CHR 0xA8] @ '' '') @ path_text p))
       else tthen (read_text e p) (\<lambda>content.
            if \<not> contains old content
            then tthen (note_audit ''error'' (PyStr [CHR 0xE6, CHR 0x9C, CHR 0xAA, CHR 0xE6, CHR 0x89, CHR 0xBE,
              CHR 0xE5, CHR 0x88, CHR 0xB0, CHR 0xE8, CHR 0xA6, CHR 0x81, CHR 0xE6, CHR 0x9B, CHR 0xBF,
              CHR 0xE6, CHR 0x8D, CHR 0xA2, CHR 0xE7, CHR 0x9A, CHR 0x84, CHR 0xE5, CHR 0xAD, CHR 0x97,
              CHR 0xE7, CHR 0xAC, CHR 0xA6, CHR 0xE4, CHR 0xB8, CHR 0xB2])) (\<lambda>_. tret [CHR 0xE6,
              CHR 0x9C, CHR 0xAA, CHR 0xE6, CHR 0x89, CHR 0xBE, CHR 0xE5, CHR 0x88, CHR 0xB0, CHR 0xE8,
              CHR 0xA6, CHR 0x81, CHR 0xE6, CHR 0x9B, CHR 0xBF, CHR 0xE6, CHR 0x8D, CHR 0xA2, CHR 0xE7,
              CHR 0x9A, CHR 0x84, CHR 0xE5, CHR 0xAD, CHR 0x97, CHR 0xE7, CHR 0xAC, CHR 0xA6, CHR 0xE4,
              CHR 0xB8, CHR 0xB2])
            else tthen (write_allowed e ''edit_file'' p) (\<lambda>_. tthen (atomic_write e p (replace_first old new content)) (\<lambda>_.
                 tthen (note_audit ''path'' (PyStr file_path)) (\<lambda>_. tret (([CHR 0xE5, CHR 0xB7,
                   CHR 0xB2, CHR 0xE7, CHR 0xBC, CHR 0x96, CHR 0xE8, CHR 0xBE, CHR 0x91] @ '' '') @
                   path_text p)))))))"

section \<open>Commands\<close>

fun category_text :: "command_category \<Rightarrow> string" where
  "category_text Cmd_READ_ONLY = ''read_only''"
| "category_text Cmd_BUILD_TEST = ''build_test''"
| "category_text Cmd_PACKAGE_MANAGEMENT = ''package_management''"
| "category_text Cmd_NETWORK = ''network''"
| "category_text Cmd_GIT_WRITE = ''git_write''"
| "category_text Cmd_FILESYSTEM_DESTRUCTIVE = ''filesystem_destructive''"
| "category_text Cmd_PRIVILEGE_ESCALATION = ''privilege_escalation''"
| "category_text Cmd_UNKNOWN = ''unknown''"

definition OUTPUT_LIMIT :: nat where
  "OUTPUT_LIMIT = 32000"

definition STDOUT_LIMIT :: nat where
  "STDOUT_LIMIT = 4000"

definition STDERR_LIMIT :: nat where
  "STDERR_LIMIT = 2000"

declare OUTPUT_LIMIT_def [code del] STDOUT_LIMIT_def [code del] STDERR_LIMIT_def [code del]

definition early_cancel :: shell_result where
  "early_cancel = \<lparr>sr_returncode = -1, sr_stdout = [], sr_stderr = [], sr_timed_out = False, sr_cancelled = True,
     sr_phase = Some ''cancelled_before_tool''\<rparr>"

definition limited :: "nat \<Rightarrow> nat \<Rightarrow> shell_result \<Rightarrow> shell_result" where
  "limited out err r = r\<lparr>sr_stdout := take_points out (sr_stdout r), sr_stderr := take_points err (sr_stderr r)\<rparr>"

text \<open>The process: it may change any file; \<open>Popen\<close> may raise.\<close>

definition run_process :: "tool_env \<Rightarrow> string \<Rightarrow> string list \<Rightarrow> shell_result tool" where
  "run_process e key argv s =
     (case te_process e (ts_tick s) argv (ts_files s) of
        (r, files) \<Rightarrow>
          (s\<lparr>ts_tick := Suc (ts_tick s), ts_files := files, ts_started := ts_started s @ [(key, argv)]\<rparr>,
           case r of Inl msg \<Rightarrow> Inl (Tool_raised msg) | Inr x \<Rightarrow> Inr (limited OUTPUT_LIMIT OUTPUT_LIMIT x)))"

definition start_process :: "tool_env \<Rightarrow> string \<Rightarrow> string list \<Rightarrow> shell_result tool" where
  "start_process e key argv = tthen (tlook (te_cancelled e)) (\<lambda>c. if c then tret early_cancel else run_process e key argv)"

definition resolved_parts :: "tool_env \<Rightarrow> string \<Rightarrow> string list option" where
  "resolved_parts e p = (case te_resolve e p of Inl _ \<Rightarrow> None | Inr q \<Rightarrow> Some q)"

definition run_command :: "tool_env \<Rightarrow> string \<Rightarrow> string list \<Rightarrow> shell_result tool" where
  "run_command e key argv s =
     (case te_resolve e (te_workspace e) of
        Inl (Path_value_error msg) \<Rightarrow> (s, Inl (Tool_raised (if argv = [] then ''empty command'' else msg)))
      | Inl (Path_raised msg) \<Rightarrow> (s, Inl (Tool_raised (if argv = [] then ''empty command'' else msg)))
      | Inr base \<Rightarrow>
          (case shell_gate (resolved_parts e) (path_text base) base (is_dir base s) (te_has_broker e) argv of
             Gate_empty \<Rightarrow> (s, Inl (Tool_raised ''empty command''))
           | Gate_no_cwd \<Rightarrow> (s, Inl (Tool_raised (''cwd does not exist: '' @ te_workspace e)))
           | Gate_escape a \<Rightarrow> (s, Inl (Tool_raised (''read-only command references path outside workspace: '' @ a)))
           | Gate_forbidden c \<Rightarrow> (s, Inl (Tool_raised (''command requires PermissionBroker: '' @ category_text c)))
           | Gate_authorize kind \<Rightarrow>
               tthen (authorized e kind ''shell_execute'' [(''argv'', PyList (map PyStr argv)), (''cwd'', PyStr (path_text base)),
                   (''category'', PyStr (category_text (classify_argv argv)))]
                   (''execute '' @ category_text (classify_argv argv) @ '' command''))
                 (\<lambda>_. start_process e key argv) s
           | Gate_run \<Rightarrow> start_process e key argv s))"

definition shell_payload :: "tool_env \<Rightarrow> shell_result \<Rightarrow> pydict" where
  "shell_payload e r =
     (let x = limited STDOUT_LIMIT STDERR_LIMIT r in
      [(''returncode'', PyInt (sr_returncode x)), (''stdout'', PyStr (sr_stdout x)), (''stderr'', PyStr (sr_stderr x)),
       (''timed_out'', PyBool (sr_timed_out x)), (''cancelled'', PyBool (sr_cancelled x)),
       (''cancellation_phase'', case sr_phase x of None \<Rightarrow> PyNone | Some p \<Rightarrow> PyStr p),
       (''environment'', if sr_phase x = Some ''cancelled_before_tool'' then PyDict []
          else PyDict [(''platform'', PyStr ''posix''), (''cwd'', PyStr (path_text (base_of e)))])])"

definition note_all :: "pydict \<Rightarrow> unit tool" where
  "note_all d = tchange (\<lambda>s. s\<lparr>ts_audit := fold (\<lambda>(k, v). AList.update k v) d (ts_audit s)\<rparr>)"

definition argv_dict :: "string list \<Rightarrow> pydict" where
  "argv_dict argv = [(''argv'', PyList (map PyStr argv))]"

definition execute_key :: "tool_env \<Rightarrow> string list \<Rightarrow> string" where
  "execute_key e argv = key_for (te_digest e) (te_run_id e) (te_agent_id e) (te_task_id e) ''execute'' (argv_dict argv)"

definition new_invocation :: "tool_env \<Rightarrow> string list \<Rightarrow> string \<Rightarrow> time \<Rightarrow> invocation" where
  "new_invocation e argv i now =
     \<lparr>iv_id = ''tool_'' @ i, iv_key = execute_key e argv, iv_run_id = te_run_id e, iv_agent_id = te_agent_id e,
      iv_task_id = te_task_id e, iv_tool_name = ''execute'', iv_arguments = argv_dict argv, iv_side_effecting = True,
      iv_status = Inv_STARTED, iv_result = [], iv_error = [], iv_created_at = now, iv_updated_at = now\<rparr>"

definition on_journal :: "(journal \<Rightarrow> journal option) \<Rightarrow> string \<Rightarrow> unit tool" where
  "on_journal f key s =
     (case f (ts_journal s) of None \<Rightarrow> (s, Inl (Tool_raised key)) | Some j \<Rightarrow> (s\<lparr>ts_journal := j\<rparr>, Inr ()))"

definition replayed :: "tool_env \<Rightarrow> invocation \<Rightarrow> string tool" where
  "replayed e v =
     tthen (note_audit ''idempotent_replay'' (PyBool True)) (\<lambda>_.
     tthen (note_audit ''status'' (PyStr (invocation_value (iv_status v)))) (\<lambda>_.
       if iv_status v = Inv_COMPLETED
       then tthen (note_all (iv_result v)) (\<lambda>_. tret (te_dumps e (PyDict (iv_result v))))
       else let msg = ([CHR 0xE6, CHR 0x89, CHR 0xA7, CHR 0xE8, CHR 0xA1, CHR 0x8C, CHR 0xE8, CHR 0xA2,
         CHR 0xAB, CHR 0xE5, CHR 0xB9, CHR 0x82, CHR 0xE7, CHR 0xAD, CHR 0x89, CHR 0xE6, CHR 0x97, CHR 0xA5,
         CHR 0xE5, CHR 0xBF, CHR 0x97, CHR 0xE9, CHR 0x98, CHR 0xBB, CHR 0xE6, CHR 0xAD, CHR 0xA2] @ '': '') @
         invocation_value (iv_status v)
            in tthen (note_audit ''error'' (PyStr msg)) (\<lambda>_. tret msg)))"

definition execute_failed :: "tool_env \<Rightarrow> string \<Rightarrow> tool_exn \<Rightarrow> string tool" where
  "execute_failed e key x =
     tthen (note_audit ''error'' (PyStr (tool_exn_text x))) (\<lambda>_.
     tthen (tlook (te_cancelled e)) (\<lambda>c. tthen (tlook (te_now e)) (\<lambda>t.
     tthen (on_journal (fail_invocation t key (tool_exn_text x) c) key) (\<lambda>_.
       case x of Tool_permission q \<Rightarrow> traise x | Tool_raised msg \<Rightarrow> tret (([CHR 0xE6,
         CHR 0x89, CHR 0xA7, CHR 0xE8, CHR 0xA1, CHR 0x8C, CHR 0xE5, CHR 0xA4, CHR 0xB1, CHR 0xE8, CHR 0xB4,
         CHR 0xA5] @ '': '') @ msg)))))"

definition executed :: "tool_env \<Rightarrow> string \<Rightarrow> string list \<Rightarrow> string tool" where
  "executed e key argv =
     tthen (run_command e key argv) (\<lambda>r. tthen (note_all (shell_payload e r)) (\<lambda>_.
     tthen (tlook (te_now e)) (\<lambda>t. tthen (on_journal (complete_invocation t key (shell_payload e r)) key) (\<lambda>_.
       tret (te_dumps e (PyDict (shell_payload e r)))))))"

definition tcatch :: "'a tool \<Rightarrow> (tool_exn \<Rightarrow> 'a tool) \<Rightarrow> 'a tool" where
  "tcatch m h s = (case m s of (s', Inl x) \<Rightarrow> h x s' | (s', Inr v) \<Rightarrow> (s', Inr v))"

definition execute_body :: "tool_env \<Rightarrow> string list \<Rightarrow> string tool" where
  "execute_body e argv =
     tthen (tlook (te_fresh e)) (\<lambda>i. tthen (tlook (te_now e)) (\<lambda>t. \<lambda>s.
       case begin_invocation (new_invocation e argv i t) (ts_journal s) of
         (j, v, created) \<Rightarrow>
           (if created then tcatch (executed e (execute_key e argv) argv) (execute_failed e (execute_key e argv))
            else replayed e v) (s\<lparr>ts_journal := j\<rparr>)))"

section \<open>Calls\<close>

datatype tool_call =
    Call_read_file string | Call_list_dir string | Call_create_file string string | Call_edit_file string string string
  | Call_execute "string list"

fun call_name :: "tool_call \<Rightarrow> string" where
  "call_name (Call_read_file p) = ''read_file''"
| "call_name (Call_list_dir p) = ''list_dir''"
| "call_name (Call_create_file p c) = ''create_file''"
| "call_name (Call_edit_file p a b) = ''edit_file''"
| "call_name (Call_execute argv) = ''execute''"

fun call_arguments :: "tool_call \<Rightarrow> pydict" where
  "call_arguments (Call_read_file p) = [(''file_path'', PyStr p)]"
| "call_arguments (Call_list_dir p) = [(''path'', PyStr p)]"
| "call_arguments (Call_create_file p c) = [(''file_path'', PyStr p), (''size'', PyInt (int (code_points c)))]"
| "call_arguments (Call_edit_file p a b) = [(''file_path'', PyStr p)]"
| "call_arguments (Call_execute argv) = argv_dict argv"

fun call_body :: "tool_env \<Rightarrow> tool_call \<Rightarrow> string tool" where
  "call_body e (Call_read_file p) = read_file_body e p"
| "call_body e (Call_list_dir p) = list_dir_body e p"
| "call_body e (Call_create_file p c) = create_file_body e p c"
| "call_body e (Call_edit_file p a b) = edit_file_body e p a b"
| "call_body e (Call_execute argv) = execute_body e argv"

definition run_call :: "tool_env \<Rightarrow> tool_call \<Rightarrow> string tool" where
  "run_call e c = tthen (tool_boundary e) (\<lambda>_. tool_execution e (call_name c) (call_arguments c) (call_body e c))"

text \<open>The calls of one invocation of an agent: the framework turns an exception into a message and goes on.\<close>

fun run_calls :: "tool_env \<Rightarrow> tool_call list \<Rightarrow> tool_state \<Rightarrow> tool_state \<times> (tool_exn + string) list" where
  "run_calls e [] s = (s, [])"
| "run_calls e (c # cs) s =
     (case run_call e c s of (s1, r) \<Rightarrow> (case run_calls e cs s1 of (s2, rs) \<Rightarrow> (s2, r # rs)))"

end
