(* ===== verification/Executor.thy ===== *)
theory Executor
  imports Tools Agent_Profiles Artifact_Store Task_Graph
begin

text \<open>
  The executor of one task (\<open>DeepAgentExecutor\<close> of \<open>app/multiagent/executor.py\<close>): the choice of a profile, the tools it gets,
  the inputs, both invocations of the agent, and the publication of the files it leaves. The agent is a language model
  behind a third-party framework: which tools it calls and how an invocation ends are arguments, as are the rows of
  \<open>git status\<close>, generated ids, clock readings and which writes go through, read in the order of the counter of the tools.
  Workspace and evidence store share one file system. Prompts, token streaming, the checkpointer, the summary of the answer
  and test seams are not modelled; a task id is one component of a path.
\<close>

section \<open>Messages and tools\<close>

text \<open>A tool call of a message: its id and its name. A generated id fills a missing one.\<close>

type_synonym call_request = "string option \<times> string"

definition lacks_id :: "call_request \<Rightarrow> bool" where
  "lacks_id c \<longleftrightarrow> fst c = None \<or> fst c = Some []"

definition ensure_tool_call_ids :: "(nat \<Rightarrow> string) \<Rightarrow> call_request list \<Rightarrow> call_request list" where
  "ensure_tool_call_ids fresh cs =
     (if list_all (\<lambda>c. \<not> lacks_id c) cs then cs
      else map (\<lambda>(i, c). if lacks_id c then (Some (''call_'' @ fresh i), snd c) else c) (List.enumerate 0 cs))"

definition EXCLUDED_TOOLS :: "string list" where
  "EXCLUDED_TOOLS = [''glob'', ''grep'', ''ls'', ''read_file'', ''write_file'', ''edit_file'', ''execute'', ''task'']"

text \<open>What \<open>_DeepAgentsToolExclusionMiddleware\<close> leaves of the names of a request's tools.\<close>

definition visible_tools :: "string list \<Rightarrow> string list" where
  "visible_tools names = filter (\<lambda>n. n \<notin> set EXCLUDED_TOOLS) names"

definition gate_tool :: "tool_policy \<Rightarrow> bool \<Rightarrow> string \<Rightarrow> string list" where
  "gate_tool tp allowed n = (if allowed \<and> (\<not> tp_deny_all tp \<or> n \<in> set (tp_allowed_tools tp)) then [n] else [])"

definition restricted_tools :: "tool_policy \<Rightarrow> string list \<Rightarrow> string list" where
  "restricted_tools tp team =
     gate_tool tp (tp_file_read tp) ''read_file'' @ gate_tool tp (tp_file_read tp) ''list_dir'' @
     gate_tool tp (tp_file_write tp) ''create_file'' @ gate_tool tp (tp_file_write tp) ''edit_file'' @ gate_tool tp (tp_shell tp) ''execute'' @
     (if team = [] \<or> \<not> tp_team_tools tp then []
      else let named = filter (starts_with ''team_'') (tp_allowed_tools tp)
           in if tp_deny_all tp \<and> named \<noteq> [] then filter (\<lambda>n. n \<in> set named) team else team)"

section \<open>State\<close>

record exec_state =
  es_tools :: tool_state
  es_store :: "artifact_store option"

datatype invoke_exn = Runtime_error string | Other_error string

record exec_env =
  xe_tools :: tool_env
  xe_root :: fs_path
  xe_scan :: "fs_path list \<Rightarrow> fs_path list"  \<comment> \<open>the order of \<open>rglob\<close>\<close>
  xe_git_status :: "nat \<Rightarrow> string list"
  xe_calls :: "nat \<Rightarrow> string list \<Rightarrow> tool_call list"  \<comment> \<open>the calls of an invocation, by the tools the model sees\<close>
  xe_outcome :: "nat \<Rightarrow> invoke_exn option"
  xe_team_tools :: "string list"
  xe_disk :: "nat \<Rightarrow> bool"
  xe_row :: "nat \<Rightarrow> bool"
  xe_sha :: "string \<Rightarrow> string"
  xe_store_path :: "string \<Rightarrow> fs_path"
  xe_store_text :: "artifact_error \<Rightarrow> string"

record task_assignment =
  ta_task_id :: string
  ta_input_refs :: "string list"  \<comment> \<open>the ids of \<open>artifact_refs\<close>\<close>
  ta_repair_sources :: "string list"
  ta_max_tool_calls :: "int option"
  ta_worktree :: bool

record exec_result =
  xr_success :: bool
  xr_artifact_ids :: "string list"
  xr_error :: "string option"

text \<open>An early \<open>return\<close> of the cancelled result, or an exception with its text.\<close>

datatype exec_exit = Exit_cancelled | Exit_raised string

type_synonym 'a exec = "exec_state \<Rightarrow> exec_state \<times> (exec_exit + 'a)"

definition eret :: "'a \<Rightarrow> 'a exec" where
  "eret x s = (s, Inr x)"

definition eexit :: "exec_exit \<Rightarrow> 'a exec" where
  "eexit x s = (s, Inl x)"

definition ethen :: "'a exec \<Rightarrow> ('a \<Rightarrow> 'b exec) \<Rightarrow> 'b exec" where
  "ethen m k s = (case m s of (s', Inl x) \<Rightarrow> (s', Inl x) | (s', Inr v) \<Rightarrow> k v s')"

definition on_tools :: "'a tool \<Rightarrow> 'a exec" where
  "on_tools m s =
     (case m (es_tools s) of
        (t, Inl x) \<Rightarrow> (s\<lparr>es_tools := t\<rparr>, Inl (Exit_raised (tool_exn_text x)))
      | (t, Inr v) \<Rightarrow> (s\<lparr>es_tools := t\<rparr>, Inr v))"

definition elook :: "(nat \<Rightarrow> 'a) \<Rightarrow> 'a exec" where
  "elook f = on_tools (tlook f)"

definition ereading :: "(exec_state \<Rightarrow> 'a) \<Rightarrow> 'a exec" where
  "ereading f s = (s, Inr (f s))"

definition cancelled_now :: "exec_env \<Rightarrow> bool exec" where
  "cancelled_now e = elook (te_cancelled (xe_tools e))"

definition exit_when_cancelled :: "exec_env \<Rightarrow> exec_exit \<Rightarrow> unit exec" where
  "exit_when_cancelled e x = ethen (cancelled_now e) (\<lambda>c. if c then eexit x else eret ())"

text \<open>An operation of the store, on the files as they are.\<close>

definition store_now :: "exec_state \<Rightarrow> artifact_store \<Rightarrow> artifact_store" where
  "store_now s st = st\<lparr>as_files := ts_files (es_tools s)\<rparr>"

definition on_store :: "exec_env \<Rightarrow> (artifact_store \<Rightarrow> 'a artifact_result) \<Rightarrow> 'a exec" where
  "on_store e f s =
     (case es_store s of
        None \<Rightarrow> (s, Inl (Exit_raised []))
      | Some st \<Rightarrow>
          (case f (store_now s st) of
             (st', r) \<Rightarrow>
               (s\<lparr>es_store := Some st', es_tools := (es_tools s)\<lparr>ts_files := as_files st'\<rparr>\<rparr>,
                case r of Inl x \<Rightarrow> Inl (Exit_raised (xe_store_text e x)) | Inr v \<Rightarrow> Inr v)))"

section \<open>Workspace and inputs\<close>

definition task_workspace :: "exec_env \<Rightarrow> task_assignment \<Rightarrow> fs_path" where
  "task_workspace e a = (if ta_worktree a then xe_root e else xe_root e @ [''tasks'', ta_task_id a])"

definition tools_of :: "exec_env \<Rightarrow> task_assignment \<Rightarrow> tool_env" where
  "tools_of e a = (xe_tools e)\<lparr>te_workspace := path_text (task_workspace e a), te_task_id := ta_task_id a\<rparr>"

text \<open>For ids in ASCII.\<close>

definition safe_id :: "string \<Rightarrow> string" where
  "safe_id i = map (\<lambda>c. let n = of_char c :: nat in
     if 48 \<le> n \<and> n \<le> 57 \<or> 65 \<le> n \<and> n \<le> 90 \<or> 97 \<le> n \<and> n \<le> 122 \<or> c = CHR ''-'' then c else CHR 0x5F) i"

definition base_name :: "string \<Rightarrow> string" where
  "base_name p = (if path_parts p = [] then [] else last (path_parts p))"

definition write_input :: "exec_env \<Rightarrow> fs_path \<Rightarrow> string \<Rightarrow> unit exec" where
  "write_input e p content =
     ethen (elook (te_write_error (xe_tools e))) (\<lambda>w.
       case w of
         Some msg \<Rightarrow> eexit (Exit_raised msg)
       | None \<Rightarrow> on_tools (tchange (\<lambda>s. (make_dirs (parents_of p) s)\<lparr>ts_files := AList.update p content (ts_files s)\<rparr>)))"

definition materialize_input :: "exec_env \<Rightarrow> fs_path \<Rightarrow> string \<Rightarrow> unit exec" where
  "materialize_input e ws i =
     ethen (on_store e (\<lambda>st. (st, read_bytes (xe_store_path e) st i))) (\<lambda>content.
     ethen (ereading (\<lambda>s. case es_store s of None \<Rightarrow> None | Some st \<Rightarrow> get_artifact st i)) (\<lambda>art.
       case (art, content) of
         (Some x, Some c) \<Rightarrow>
           write_input e (ws @ [''.inputs'', safe_id i, if base_name (at_path x) = [] then ''artifact'' else base_name (at_path x)]) c
       | _ \<Rightarrow> eexit (Exit_raised (''input_artifact_unavailable:'' @ i))))"

fun materialize_all :: "exec_env \<Rightarrow> fs_path \<Rightarrow> string list \<Rightarrow> unit exec" where
  "materialize_all e ws [] = eret ()"
| "materialize_all e ws (i # is) = ethen (materialize_input e ws i) (\<lambda>_. materialize_all e ws is)"

definition materialize_inputs :: "exec_env \<Rightarrow> task_assignment \<Rightarrow> unit exec" where
  "materialize_inputs e a s =
     (if ta_input_refs a = [] \<or> es_store s = None then (s, Inr ())
      else materialize_all e (task_workspace e a) (ta_input_refs a) s)"

section \<open>Invocations\<close>

definition max_calls :: "task_assignment \<Rightarrow> int" where
  "max_calls a = (case ta_max_tool_calls a of None \<Rightarrow> 40 | Some n \<Rightarrow> if n = 0 then 40 else n)"

definition install_guard :: "(tool_state \<Rightarrow> budget_guard) \<Rightarrow> unit exec" where
  "install_guard g = on_tools (tchange (\<lambda>s. s\<lparr>ts_guard := g s\<rparr>))"

text \<open>The tools that exist are those of the policy; the model may ask for any name.\<close>

definition invoke_agent :: "exec_env \<Rightarrow> task_assignment \<Rightarrow> agent_profile \<Rightarrow> nat \<Rightarrow> invoke_exn option exec" where
  "invoke_agent e a p k s =
     (let names = restricted_tools (pf_tools p) (xe_team_tools e);
          calls = filter (\<lambda>c. call_name c \<in> set names) (xe_calls e k (visible_tools names))
      in (s\<lparr>es_tools := fst (run_calls (tools_of e a) calls (es_tools s))\<rparr>, Inr (xe_outcome e k)))"

definition first_invocation :: "exec_env \<Rightarrow> task_assignment \<Rightarrow> agent_profile \<Rightarrow> unit exec" where
  "first_invocation e a p =
     ethen (install_guard (task_guard (tools_of e a) (max_calls a))) (\<lambda>_.
     ethen (invoke_agent e a p 0) (\<lambda>x.
       case x of
         None \<Rightarrow> eret ()
       | Some (Other_error msg) \<Rightarrow> eexit (Exit_raised msg)
       | Some (Runtime_error msg) \<Rightarrow>
           if contains ''tool_call_budget_exceeded'' msg \<or> contains ''cancelled'' msg then eret () else eexit (Exit_raised msg)))"

definition second_invocation :: "exec_env \<Rightarrow> task_assignment \<Rightarrow> agent_profile \<Rightarrow> unit exec" where
  "second_invocation e a p =
     ethen (install_guard (\<lambda>_. reprompt_guard 10)) (\<lambda>_.
     ethen (invoke_agent e a p 1) (\<lambda>x.
       case x of Some (Other_error msg) \<Rightarrow> eexit (Exit_raised msg) | _ \<Rightarrow> eret ()))"

section \<open>Produced files\<close>

definition IGNORED_PARTS :: "string list" where
  "IGNORED_PARTS = [''.git'', ''.inputs'', ''__pycache__'', ''.pytest_cache'', ''.mypy_cache'', ''.cache'']"

definition produced_file :: "fs_path \<Rightarrow> fs_path \<Rightarrow> bool" where
  "produced_file ws p \<longleftrightarrow> below ws p \<and> length ws < length p \<and> \<not> starts_with ''.'' (last p) \<and> \<not> list_ex (\<lambda>c. c \<in> set IGNORED_PARTS) p"

text \<open>The path of a row of \<open>git status --porcelain\<close>, the new one of a rename.\<close>

fun after_arrow :: "string \<Rightarrow> string" where
  "after_arrow [] = []"
| "after_arrow (c # cs) = (if starts_with '' -> '' (c # cs) then drop 4 (c # cs) else after_arrow cs)"

definition status_path :: "string \<Rightarrow> string" where
  "status_path line = (let raw = strip (drop 3 line) in if contains '' -> '' raw then after_arrow raw else raw)"

fun changed_files :: "tool_env \<Rightarrow> tool_state \<Rightarrow> string list \<Rightarrow> string + fs_path list" where
  "changed_files e s [] = Inr []"
| "changed_files e s (l # ls) =
     (case safe_workspace_path e (status_path l) of
        Inl (Path_value_error msg) \<Rightarrow> Inl msg
      | Inl (Path_raised msg) \<Rightarrow> Inl msg
      | Inr p \<Rightarrow> (case changed_files e s ls of
                    Inl x \<Rightarrow> Inl x
                  | Inr ps \<Rightarrow> Inr (if is_file p s then p # ps else ps)))"

definition scan_produced :: "exec_env \<Rightarrow> task_assignment \<Rightarrow> fs_path list exec" where
  "scan_produced e a =
     (if ta_worktree a
      then ethen (elook (xe_git_status e)) (\<lambda>ls. ethen (ereading es_tools) (\<lambda>t.
             case changed_files (tools_of e a) t ls of Inl msg \<Rightarrow> eexit (Exit_raised msg) | Inr ps \<Rightarrow> eret ps))
      else ereading (\<lambda>s. xe_scan e (filter (produced_file (task_workspace e a)) (map fst (ts_files (es_tools s))))))"

section \<open>Publication\<close>

definition has_ending :: "string \<Rightarrow> string \<Rightarrow> bool" where
  "has_ending e s \<longleftrightarrow> starts_with (rev e) (rev s)"

definition infer_artifact_type :: "string \<Rightarrow> artifact_type" where
  "infer_artifact_type name =
     (let l = lower name; ends = list_ex (\<lambda>x. has_ending x l) in
      if starts_with ''test_'' l \<or>
         ends [''_test.py'', ''_test.go'', ''.test.js'', ''.test.ts'', ''.spec.js'', ''.spec.ts''] then Art_TEST
      else if ends [''.py'', ''.js'', ''.ts''] then Art_CODE
      else if ends [''.md'', ''.txt''] then Art_DOCUMENT
      else if ends [''.json'', ''.yaml'', ''.yml''] then Art_CONFIG
      else if ends [''.patch'', ''.diff''] then Art_PATCH
      else Art_ANY)"

definition relative_parts :: "exec_env \<Rightarrow> task_assignment \<Rightarrow> fs_path \<Rightarrow> fs_path" where
  "relative_parts e a p =
     (if ta_worktree a then [''artifacts'', ta_task_id a] @ drop (length (task_workspace e a)) p else drop (length (xe_root e)) p)"

definition parent_choice :: "task_assignment \<Rightarrow> artifact_store \<Rightarrow> fs_path \<Rightarrow> string option" where
  "parent_choice a st p =
     (let same = filter (\<lambda>i. case get_artifact st i of None \<Rightarrow> False | Some x \<Rightarrow> base_name (at_path x) = last p) (ta_repair_sources a)
      in case same of
           i # _ \<Rightarrow> Some i
         | [] \<Rightarrow> (case ta_repair_sources a of [i] \<Rightarrow> Some i | _ \<Rightarrow> None))"

definition publish_args :: "exec_env \<Rightarrow> task_assignment \<Rightarrow> agent_profile \<Rightarrow> artifact_store \<Rightarrow> fs_path \<Rightarrow> string \<Rightarrow> artifact_args" where
  "publish_args e a p st file content =
     \<lparr>ca_run_id = te_run_id (xe_tools e), ca_task_id = ta_task_id a, ca_type = infer_artifact_type (last file),
      ca_relative_path = rel_text (relative_parts e a file), ca_content = content, ca_produced_by = pf_name p,
      ca_parent_artifact_id = parent_choice a st file,
      ca_metadata = [(''profile_id'', PyStr (pf_id p)), (''original_name'', PyStr (last file))]\<rparr>"

definition create_evidence :: "exec_env \<Rightarrow> task_assignment \<Rightarrow> agent_profile \<Rightarrow> fs_path \<Rightarrow> artifact exec" where
  "create_evidence e a p file =
     ethen (ereading (\<lambda>s. map_of (ts_files (es_tools s)) file)) (\<lambda>content.
       case content of
         None \<Rightarrow> eexit (Exit_raised (te_bad_target (xe_tools e) file))
       | Some c \<Rightarrow>
           ethen (elook (te_fresh (xe_tools e))) (\<lambda>i. ethen (elook (te_now (xe_tools e))) (\<lambda>t1. ethen (elook (te_now (xe_tools e))) (\<lambda>t2.
           ethen (elook (xe_disk e)) (\<lambda>wd. ethen (elook (xe_row e)) (\<lambda>wr.
             on_store e (\<lambda>st. create_artifact wd wr (xe_sha e) (xe_store_path e) (''art_'' @ i) t1 t2 (publish_args e a p st file c) st)))))))"

definition reject_artifact :: "exec_env \<Rightarrow> string \<Rightarrow> bool exec" where
  "reject_artifact e i = ethen (elook (xe_row e)) (\<lambda>wr. on_store e (mark_artifact_rejected wr i))"

definition publish_file :: "exec_env \<Rightarrow> task_assignment \<Rightarrow> agent_profile \<Rightarrow> fs_path \<Rightarrow> string exec" where
  "publish_file e a p file =
     ethen (exit_when_cancelled e (Exit_raised ''cancelled_before_artifact_publish'')) (\<lambda>_.
     ethen (create_evidence e a p file) (\<lambda>x.
     ethen (cancelled_now e) (\<lambda>c.
       if c then ethen (reject_artifact e (at_id x)) (\<lambda>_. eexit (Exit_raised ''cancelled_during_artifact_publish''))
       else eret (at_id x))))"

fun publish_all :: "exec_env \<Rightarrow> task_assignment \<Rightarrow> agent_profile \<Rightarrow> fs_path list \<Rightarrow> string list exec" where
  "publish_all e a p [] = eret []"
| "publish_all e a p (f # fs) = ethen (publish_file e a p f) (\<lambda>i. ethen (publish_all e a p fs) (\<lambda>is. eret (i # is)))"

fun reject_all :: "exec_env \<Rightarrow> string list \<Rightarrow> unit exec" where
  "reject_all e [] = eret ()"
| "reject_all e (i # is) = ethen (reject_artifact e i) (\<lambda>_. reject_all e is)"

definition publish :: "exec_env \<Rightarrow> task_assignment \<Rightarrow> agent_profile \<Rightarrow> fs_path list \<Rightarrow> string list exec" where
  "publish e a p files s =
     (if es_store s \<noteq> None \<and> te_run_id (xe_tools e) \<noteq> [] then publish_all e a p files s else (s, Inr []))"

section \<open>Execution\<close>

definition produce :: "exec_env \<Rightarrow> task_assignment \<Rightarrow> agent_profile \<Rightarrow> fs_path list exec" where
  "produce e a p =
     ethen (materialize_inputs e a) (\<lambda>_.
     ethen (first_invocation e a p) (\<lambda>_.
     ethen (exit_when_cancelled e Exit_cancelled) (\<lambda>_.
     ethen (scan_produced e a) (\<lambda>files.
       if files \<noteq> [] then eret files
       else ethen (cancelled_now e) (\<lambda>c.
         if c then eret files
         else ethen (second_invocation e a p) (\<lambda>_.
              ethen (exit_when_cancelled e Exit_cancelled) (\<lambda>_. scan_produced e a)))))))"

definition assigned_run :: "exec_env \<Rightarrow> task_assignment \<Rightarrow> agent_profile \<Rightarrow> string list exec" where
  "assigned_run e a p =
     ethen (exit_when_cancelled e Exit_cancelled) (\<lambda>_.
     ethen (produce e a p) (\<lambda>files.
     ethen (publish e a p files) (\<lambda>is.
     ethen (cancelled_now e) (\<lambda>c.
       if c then ethen (reject_all e is) (\<lambda>_. eexit (Exit_raised ''cancelled_after_artifact_publish'')) else eret is))))"

definition execute_assignment :: "exec_env \<Rightarrow> task_assignment \<Rightarrow> agent_profile \<Rightarrow> exec_state \<Rightarrow> exec_state \<times> exec_result" where
  "execute_assignment e a p s =
     (case assigned_run e a p s of
        (s', Inl Exit_cancelled) \<Rightarrow> (s', \<lparr>xr_success = False, xr_artifact_ids = [], xr_error = Some ''cancelled''\<rparr>)
      | (s', Inl (Exit_raised msg)) \<Rightarrow> (s', \<lparr>xr_success = False, xr_artifact_ids = [], xr_error = Some msg\<rparr>)
      | (s', Inr is) \<Rightarrow> (s', \<lparr>xr_success = True, xr_artifact_ids = is, xr_error = None\<rparr>))"

section \<open>Assignment of a task\<close>

definition EXECUTOR_PRIMARY_CAPS :: "string list" where
  "EXECUTOR_PRIMARY_CAPS = [''planning'', ''research'', ''coding'', ''testing'', ''reviewing'', ''summarization'']"

record task_request =
  tq_profile_id :: string
  tq_input_refs :: "string list"
  tq_repair_sources :: "string list"
  tq_worktree :: bool

definition select_worker ::
  "(string list \<Rightarrow> string list) \<Rightarrow> (nat \<Rightarrow> time) \<Rightarrow> (nat \<Rightarrow> time) \<Rightarrow> string \<Rightarrow> string list \<Rightarrow> capability_registry \<Rightarrow> agent_profile option" where
  "select_worker order clk clk' profile_id required reg =
     (case get_profile profile_id reg of
        Some p \<Rightarrow> Some p
      | None \<Rightarrow>
          (case find_best_worker order clk required reg of
             Some p \<Rightarrow> Some p
           | None \<Rightarrow>
               (let stripped = filter (\<lambda>c. c \<in> set EXECUTOR_PRIMARY_CAPS) required
                in if stripped \<noteq> [] \<and> set stripped \<noteq> set required then find_best_worker order clk' stripped reg else None)))"

definition assignment_of :: "string \<Rightarrow> task_request \<Rightarrow> task_node \<Rightarrow> task_assignment" where
  "assignment_of task q n =
     \<lparr>ta_task_id = task, ta_input_refs = tq_input_refs q, ta_repair_sources = tq_repair_sources q,
      ta_max_tool_calls = Some (bud_max_tool_calls (node_budget n)), ta_worktree = tq_worktree q\<rparr>"

definition refused :: "string \<Rightarrow> exec_result" where
  "refused msg = \<lparr>xr_success = False, xr_artifact_ids = [], xr_error = Some msg\<rparr>"

definition execute_task ::
  "(string list \<Rightarrow> string list) \<Rightarrow> (nat \<Rightarrow> time) \<Rightarrow> (nat \<Rightarrow> time) \<Rightarrow> exec_env \<Rightarrow> capability_registry \<Rightarrow> task_graph \<Rightarrow> string \<Rightarrow> task_request
    \<Rightarrow> exec_state \<Rightarrow> exec_state \<times> exec_result" where
  "execute_task order clk clk' e reg g task q s =
     (case get_node g task of
        None \<Rightarrow> (s, refused (''task '' @ task @ '' not in dag''))
      | Some n \<Rightarrow>
          (case select_worker order clk clk' (tq_profile_id q) (node_required_capabilities n) reg of
             None \<Rightarrow> (s, refused ''no_matching_worker'')
           | Some p \<Rightarrow>
               if set (node_required_capabilities n) \<subseteq> set (pf_capabilities p)
               then execute_assignment e (assignment_of task q n) p s
               else (s, refused ''no_matching_worker'')))"

text \<open>\<open>create_executor\<close>: whether a profile only decides.\<close>

definition is_decision_only :: "agent_profile \<Rightarrow> bool" where
  "is_decision_only p \<longleftrightarrow> \<not> tp_shell (pf_tools p) \<and> \<not> tp_file_write (pf_tools p) \<and> length (tp_allowed_tools (pf_tools p)) \<le> 1"

end
