(* ===== verification/Dynamic_Team.thy ===== *)
theory Dynamic_Team
  imports Team_Builder Executor Task_Service
begin

text \<open>
  \<open>app/multiagent/dynamic_team.py\<close>: a teammate of a run brings in another one. The manager checks the budget of the team and
  the depth of the delegation, restricts the tools of the child's profile to those of its parent's, registers that profile,
  creates the agent with its session and records the link. Clock readings, generated ids, which writes go through and whether
  the caller runs in an event loop are arguments. The limits on tokens, cost and calls and \<open>require_permission\<close> are fields that
  the code never reads.
\<close>

record team_budget =
  tb_max_team_size :: int
  tb_max_spawn_depth :: int
  tb_max_agents_per_run :: int
  tb_max_concurrency :: int

definition new_team_budget :: team_budget where
  "new_team_budget = \<lparr>tb_max_team_size = 8, tb_max_spawn_depth = 2, tb_max_agents_per_run = 12, tb_max_concurrency = 4\<rparr>"

record spawn_policy =
  sp_teammate :: bool
  sp_nested :: bool

definition new_spawn_policy :: spawn_policy where
  "new_spawn_policy = \<lparr>sp_teammate = True, sp_nested = True\<rparr>"

record agent_link =
  al_run_id :: string
  al_parent :: string
  al_child :: string
  al_depth :: int
  al_created_at :: time

record dyn_state =
  dy_registry :: agent_registry
  dy_profiles :: capability_registry
  dy_sessions :: supervisor
  dy_links :: "(string \<times> agent_link) list"  \<comment> \<open>\<open>parent_child_agent_links\<close>, by child\<close>
  dy_log :: event_log

datatype spawn_error =
    Team_budget_size | Team_budget_depth | Spawn_denied string | Parent_not_in_run | No_matching_profile "string list"
  | Parent_profile_missing | Spawn_agent registry_error | Spawn_session session_error | Spawn_event store_error
  | Spawn_in_loop

type_synonym 'a spawning = "dyn_state \<Rightarrow> dyn_state \<times> (spawn_error + 'a)"

record dyn_env =
  de_order :: "string list \<Rightarrow> string list"
  de_scored_at :: "nat \<Rightarrow> time"
  de_write :: "nat \<Rightarrow> bool"
  de_clock :: "nat \<Rightarrow> time"
  de_agent_id :: string
  de_session_id :: string
  de_thread_id :: string
  de_event_id :: "nat \<Rightarrow> string"
  de_redact :: "string \<Rightarrow> string"
  de_hooks :: hook_engine
  de_in_loop :: bool

definition dret :: "'a \<Rightarrow> 'a spawning" where
  "dret x s = (s, Inr x)"

definition dfail :: "spawn_error \<Rightarrow> 'a spawning" where
  "dfail err s = (s, Inl err)"

definition dthen :: "'a spawning \<Rightarrow> ('a \<Rightarrow> 'b spawning) \<Rightarrow> 'b spawning" where
  "dthen m k s = (case m s of (s', Inl err) \<Rightarrow> (s', Inl err) | (s', Inr v) \<Rightarrow> k v s')"

section \<open>Admission\<close>

definition link_for :: "string \<Rightarrow> dyn_state \<Rightarrow> agent_link option" where
  "link_for i s = map_of (dy_links s) i"

definition spawn_depth :: "string \<Rightarrow> dyn_state \<Rightarrow> int" where
  "spawn_depth parent s = (case link_for parent s of None \<Rightarrow> 0 | Some l \<Rightarrow> al_depth l) + 1"

text \<open>The parent and the depth of the child; an empty parent id stands for \<open>None\<close>, both are falsy.\<close>

definition admit :: "team_budget \<Rightarrow> spawn_policy \<Rightarrow> string \<Rightarrow> string \<Rightarrow> (agent_instance option \<times> int) spawning" where
  "admit b pol r parent s =
     (if int (length (agents_by_run r (dy_registry s))) \<ge> min (tb_max_team_size b) (tb_max_agents_per_run b) then dfail Team_budget_size s
      else if parent = [] then
        (if sp_teammate pol then dret (None, 0) s else dfail (Spawn_denied ''teammate spawn disabled'') s)
      else if \<not> sp_nested pol then dfail (Spawn_denied ''nested spawn disabled'') s
      else (case get_agent (dy_registry s) parent of
              None \<Rightarrow> dfail Parent_not_in_run s
            | Some a \<Rightarrow>
                if ag_run_id a \<noteq> r then dfail Parent_not_in_run s
                else if spawn_depth parent s > tb_max_spawn_depth b then dfail Team_budget_depth s
                else dret (Some a, spawn_depth parent s) s))"

section \<open>The profile of the child\<close>

definition child_policy :: "tool_policy \<Rightarrow> tool_policy \<Rightarrow> tool_policy" where
  "child_policy c p = c\<lparr>tp_allowed_tools := filter (\<lambda>t. t \<in> set (tp_allowed_tools p)) (tp_allowed_tools c),
     tp_file_read := tp_file_read c \<and> tp_file_read p, tp_file_write := tp_file_write c \<and> tp_file_write p,
     tp_shell := tp_shell c \<and> tp_shell p, tp_deny_all := True\<rparr>"

definition child_profile_id :: "string \<Rightarrow> string \<Rightarrow> string" where
  "child_profile_id i parent = i @ '':child:'' @ parent"

definition restricted_profile :: "agent_profile \<Rightarrow> agent_profile \<Rightarrow> string \<Rightarrow> agent_profile" where
  "restricted_profile c p parent = c\<lparr>pf_id := child_profile_id (pf_id c) parent, pf_tools := child_policy (pf_tools c) (pf_tools p)\<rparr>"

text \<open>The restricted profile goes into the registry that all runs share.\<close>

definition restrict_to_parent :: "agent_profile \<Rightarrow> agent_profile \<Rightarrow> string \<Rightarrow> agent_profile spawning" where
  "restrict_to_parent c p parent s =
     (let x = restricted_profile c p parent in dret x (s\<lparr>dy_profiles := register_profile x (dy_profiles s)\<rparr>))"

definition child_profile :: "dyn_env \<Rightarrow> string list \<Rightarrow> agent_instance option \<Rightarrow> agent_profile spawning" where
  "child_profile e required parent s =
     (case find_best_worker (de_order e) (de_scored_at e) required (dy_profiles s) of
        None \<Rightarrow> dfail (No_matching_profile (sort (remdups required))) s
      | Some c \<Rightarrow>
          (case parent of
             None \<Rightarrow> dret c s
           | Some a \<Rightarrow>
               (case get_profile (ag_profile_id a) (dy_profiles s) of
                  None \<Rightarrow> dfail Parent_profile_missing s
                | Some p \<Rightarrow> restrict_to_parent c p (ag_agent_id a) s)))"

section \<open>The agent\<close>

definition child_args :: "team_budget \<Rightarrow> string \<Rightarrow> string \<Rightarrow> agent_instance option \<Rightarrow> agent_instance list \<Rightarrow> agent_profile \<Rightarrow> agent_args" where
  "child_args b r team parent members p =
     \<lparr>aa_profile_id = pf_id p, aa_name = pf_name p, aa_role = pf_role p, aa_team_id = team, aa_run_id = r,
      aa_description = pf_description p, aa_capabilities = sort (remdups (pf_capabilities p)),
      aa_checkpoint_namespace = Some (''team:'' @ r @ '':'' @ pf_id p @ '':'' @ str_nat (length members + 1)),
      aa_workspace_root = (case parent of Some a \<Rightarrow> ag_workspace_root a | None \<Rightarrow> (case members of [] \<Rightarrow> [] | a # _ \<Rightarrow> ag_workspace_root a)),
      aa_agent_id_override = None, aa_session_id_override = None, aa_thread_id_override = None,
      aa_checkpoint_namespace_override = None, aa_created_at_override = None,
      aa_max_concurrency = min (pf_max_concurrency p) (tb_max_concurrency b), aa_metadata = [], aa_worktree_path = [],
      aa_mailbox_cursor = 0\<rparr>"

definition create_child :: "dyn_env \<Rightarrow> agent_args \<Rightarrow> agent_instance spawning" where
  "create_child e args s =
     (case create_agent (de_write e 0) (de_clock e) (de_agent_id e) (de_session_id e) (de_thread_id e) args (dy_registry s) of
        (reg, Inl err) \<Rightarrow> dfail (Spawn_agent err) (s\<lparr>dy_registry := reg\<rparr>)
      | (reg, Inr a) \<Rightarrow> dret a (s\<lparr>dy_registry := reg\<rparr>))"

definition open_child_session :: "dyn_env \<Rightarrow> agent_instance \<Rightarrow> unit spawning" where
  "open_child_session e a s =
     (case ensure_session (de_clock e 5) (identity_of a) (dy_sessions s) of
        (sv, Inl err) \<Rightarrow> dfail (Spawn_session err) (s\<lparr>dy_sessions := sv\<rparr>)
      | (sv, Inr _) \<Rightarrow> dret () (s\<lparr>dy_sessions := sv\<rparr>))"

definition save_link :: "agent_link \<Rightarrow> unit spawning" where
  "save_link l s = dret () (s\<lparr>dy_links := AList.update (al_child l) l (dy_links s)\<rparr>)"

section \<open>Hooks and events\<close>

definition log_event :: "dyn_env \<Rightarrow> nat \<Rightarrow> string \<Rightarrow> string \<Rightarrow> string option \<Rightarrow> string option \<Rightarrow> pydict \<Rightarrow> unit spawning" where
  "log_event e k r kind agent task payload s =
     (case record_event (de_redact e)
             \<lparr>te_event_id = de_event_id e k, te_run_id = r, te_event_type = kind, te_agent_id = agent, te_task_id = task,
              te_task_run_id = None, te_timestamp = PyTime (de_clock e (6 + k)), te_trace_id = None, te_payload = PyDict payload\<rparr>
             None (dy_log s) of
        (lg, Inl err) \<Rightarrow> dfail (Spawn_event err) (s\<lparr>dy_log := lg\<rparr>)
      | (lg, Inr _) \<Rightarrow> dret () (s\<lparr>dy_log := lg\<rparr>))"

fun log_audits :: "dyn_env \<Rightarrow> nat \<Rightarrow> string \<Rightarrow> audit_entry list \<Rightarrow> unit spawning" where
  "log_audits e k r [] = dret ()"
| "log_audits e k r (a # as) =
     dthen (log_event e k r (ae_event_type a) (py_text (ae_agent_id a)) (py_text (ae_task_id a)) (ae_payload a))
       (\<lambda>_. log_audits e (Suc k) r as)"

definition emit_spawned :: "dyn_env \<Rightarrow> string \<Rightarrow> pydict \<Rightarrow> hook_result spawning" where
  "emit_spawned e r context =
     (if de_in_loop e then dfail Spawn_in_loop
      else (case emit_async Ev_TEAMMATE_SPAWNED context (de_hooks e) of
              (res, audits) \<Rightarrow> dthen (log_audits e 1 r audits) (\<lambda>_. dret res)))"

definition stop_child :: "dyn_env \<Rightarrow> string \<Rightarrow> unit spawning" where
  "stop_child e i s =
     (case stop (de_write e 1) (\<lambda>k. de_clock e (100 + k)) i (dy_registry s) of
        (reg, Inl err) \<Rightarrow> dfail (Spawn_agent err) (s\<lparr>dy_registry := reg\<rparr>)
      | (reg, Inr _) \<Rightarrow> dret () (s\<lparr>dy_registry := reg\<rparr>))"

text \<open>After the agent exists: its session, its link, the hooks, the event.\<close>

definition settle_child ::
  "dyn_env \<Rightarrow> string \<Rightarrow> string \<Rightarrow> string \<Rightarrow> int \<Rightarrow> agent_profile \<Rightarrow> agent_instance \<Rightarrow> agent_instance spawning" where
  "settle_child e r requested_by parent depth p a =
     (let who = [(''requested_by'', PyStr requested_by), (''parent_agent_id'', if parent = [] then PyNone else PyStr parent)] in
      dthen (open_child_session e a) (\<lambda>_.
      dthen (if parent = [] then dret ()
             else save_link \<lparr>al_run_id = r, al_parent = parent, al_child = ag_agent_id a, al_depth = depth, al_created_at = de_clock e 6\<rparr>) (\<lambda>_.
      dthen (emit_spawned e r ([(''run_id'', PyStr r), (''agent_id'', PyStr (ag_agent_id a))] @ who)) (\<lambda>res.
      if hr_block res
      then dthen (stop_child e (ag_agent_id a)) (\<lambda>_. dfail (Spawn_denied (hr_feedback res)))
      else dthen (log_event e 0 r ''TeammateSpawned'' (Some (ag_agent_id a)) None
             (who @ [(''depth'', PyInt depth), (''profile_id'', PyStr (pf_id p))])) (\<lambda>_. dret a)))))"

definition dynamic_spawn ::
  "dyn_env \<Rightarrow> team_budget \<Rightarrow> spawn_policy \<Rightarrow> string \<Rightarrow> string \<Rightarrow> string list \<Rightarrow> string \<Rightarrow> string \<Rightarrow> agent_instance spawning" where
  "dynamic_spawn e b pol r team required requested_by parent s =
     (let members = agents_by_run r (dy_registry s) in
      dthen (admit b pol r parent) (\<lambda>(pa, depth).
      dthen (child_profile e required pa) (\<lambda>p.
      dthen (create_child e (child_args b r team pa members p)) (settle_child e r requested_by parent depth p))) s)"

end
