(* ===== verification/Tools_Props.thy ===== *)
theory Tools_Props
  imports Tools
begin

text \<open>
  What a call of a tool leaves alone. A view is a part of the state the boundary of a call does not touch; the locale proves
  once what every tool leaves of it, and its interpretations are the journal with the processes it admitted, the files
  outside the workspace, and the budget.
\<close>

section \<open>Views\<close>

fun budget_event :: "tool_event \<Rightarrow> bool" where
  "budget_event (Budget_consumed r t a u l) = True"
| "budget_event (Budget_exceeded r t a u l) = True"
| "budget_event _ = False"

definition leaves_view :: "(tool_state \<Rightarrow> 'b) \<Rightarrow> 'a tool \<Rightarrow> bool" where
  "leaves_view view m \<longleftrightarrow> (\<forall>s. view (fst (m s)) = view s)"

lemma leaves_viewD: "leaves_view view m \<Longrightarrow> m s = (s', r) \<Longrightarrow> view s' = view s"
  unfolding leaves_view_def by (metis fst_conv)

named_theorems view_intros \<open>steps that leave a view alone\<close>

lemma view_basic [view_intros]: "leaves_view view (tret x)" "leaves_view view (traise x')" "leaves_view view (treading f)"
  by (simp_all add: leaves_view_def tret_def traise_def treading_def)

lemma view_tthen [view_intros]: "leaves_view view m \<Longrightarrow> (\<And>x. leaves_view view (k x)) \<Longrightarrow> leaves_view view (tthen m k)"
  unfolding leaves_view_def tthen_def by (auto split: prod.splits sum.splits) (metis fst_conv)+

lemma tthen_run: "m s = (s1, Inr v) \<Longrightarrow> tthen m k s = k v s1" "m s = (s1, Inl x) \<Longrightarrow> tthen m k s = (s1, Inl x)"
  by (simp_all add: tthen_def)

lemma view_if [view_intros]: "leaves_view view m \<Longrightarrow> leaves_view view n \<Longrightarrow> leaves_view view (if b then m else n)"
  by simp

lemma view_twhen [view_intros]: "leaves_view view m \<Longrightarrow> leaves_view view (twhen b m)"
  by (simp add: twhen_def view_basic)

lemma view_option [view_intros]: "leaves_view view m \<Longrightarrow> (\<And>x. leaves_view view (k x)) \<Longrightarrow>
    leaves_view view (case o' of None \<Rightarrow> m | Some x \<Rightarrow> k x)"
  by (simp split: option.split)

lemma view_prod [view_intros]: "(\<And>x y. leaves_view view (k x y)) \<Longrightarrow> leaves_view view (case p of (x, y) \<Rightarrow> k x y)"
  by (simp split: prod.split)

lemma view_tcatch [view_intros]: "leaves_view view m \<Longrightarrow> (\<And>x. leaves_view view (h x)) \<Longrightarrow> leaves_view view (tcatch m h)"
  unfolding leaves_view_def tcatch_def by (auto split: prod.splits sum.splits) (metis fst_conv)+

lemma view_tchange: "(\<And>s. view (f s) = view s) \<Longrightarrow> leaves_view view (tchange f)"
  by (simp add: leaves_view_def tchange_def)

text \<open>What the bodies of the tools touch beside files, journal and processes.\<close>

locale body_view =
  fixes view :: "tool_state \<Rightarrow> 'b"
  assumes view_tick: "view (s\<lparr>ts_tick := n\<rparr>) = view s"
    and view_audit: "view (s\<lparr>ts_audit := d\<rparr>) = view s"
    and view_broker: "view (s\<lparr>ts_broker := br\<rparr>) = view s"
    and view_dirs: "view (s\<lparr>ts_dirs := ds\<rparr>) = view s"
begin

lemma look: "leaves_view view (tlook f)"
  by (simp add: leaves_view_def tlook_def view_tick)

lemma audit: "leaves_view view (note_audit k v)" "leaves_view view (note_all d)"
  by (simp_all add: note_audit_def note_all_def view_tchange view_audit)

lemma refuse: "leaves_view view (refuse_cancelled e msg)"
  unfolding refuse_cancelled_def by (intro view_intros look)

lemma path: "(\<And>p. below (base_of e) p \<Longrightarrow> leaves_view view (k p)) \<Longrightarrow> leaves_view view (with_path e requested k)"
  unfolding with_path_def base_of_def
  by (auto simp: safe_workspace_path_def Let_def intro!: view_intros audit split: sum.splits path_failure.splits if_splits)

lemma read: "leaves_view view (read_text e p)"
  by (simp add: leaves_view_def read_text_def split: option.split)

lemma authorization: "leaves_view view (authorized e kind operation params reason)"
  unfolding authorized_def by (intro view_intros look) (simp add: leaves_view_def view_broker split: prod.split)

lemma atomic_written:
  assumes "\<And>s. view (s\<lparr>ts_files := AList.update p c (ts_files s)\<rparr>) = view s"
  shows "leaves_view view (atomic_write e p c)"
  unfolding atomic_write_def make_dirs_def by (intro view_intros view_tchange look refuse view_dirs assms)

lemma read_tools: "leaves_view view (read_file_body e p)" "leaves_view view (list_dir_body e p)"
  unfolding read_file_body_def list_dir_body_def by (intro path view_intros audit read)+

lemma write_tools:
  assumes "\<And>p c s. below (base_of e) p \<Longrightarrow> view (s\<lparr>ts_files := AList.update p c (ts_files s)\<rparr>) = view s"
  shows "leaves_view view (create_file_body e f c)" "leaves_view view (edit_file_body e f a b)"
  unfolding create_file_body_def edit_file_body_def write_allowed_def
  by (intro path view_intros audit read authorization atomic_written assms; assumption)+

lemma file_bodies:
  assumes "\<And>p c s. below (base_of e) p \<Longrightarrow> view (s\<lparr>ts_files := AList.update p c (ts_files s)\<rparr>) = view s"
    and "\<And>argv. c \<noteq> Call_execute argv"
  shows "leaves_view view (call_body e c)"
proof -
  note writes = write_tools [OF assms(1)]
  show ?thesis using assms(2) read_tools writes by (cases c) auto
qed

end

text \<open>A view that does not look at files, journal and processes either is left by every tool.\<close>

locale idle_view = body_view +
  assumes view_files: "view (s\<lparr>ts_files := fs\<rparr>) = view s"
    and view_journal: "view (s\<lparr>ts_journal := j\<rparr>) = view s"
    and view_started: "view (s\<lparr>ts_started := st\<rparr>) = view s"
begin

lemma journal_step: "leaves_view view (on_journal f key)"
  by (simp add: leaves_view_def on_journal_def view_journal split: option.split)

lemma process: "leaves_view view (start_process e key argv)"
proof -
  have "view (s\<lparr>ts_tick := n, ts_files := fs, ts_started := st\<rparr>) = view s" for s n fs st
    by (simp add: view_tick view_files view_started)
  then have "leaves_view view (run_process e key argv)" by (simp add: leaves_view_def run_process_def split: prod.split)
  then show ?thesis unfolding start_process_def by (intro view_intros look)
qed

lemma command: "leaves_view view (run_command e key argv)"
proof -
  have "leaves_view view (tthen (authorized e kind operation params reason) (\<lambda>_. start_process e key argv))"
    for kind operation params reason by (intro view_intros authorization process)
  then show ?thesis using process
    by (auto simp: leaves_view_def run_command_def split: sum.split path_failure.split gate.split)
qed

lemma execute_tool: "leaves_view view (execute_body e argv)"
proof -
  have "leaves_view view (execute_failed e key x)" for key x
    unfolding execute_failed_def
    by (intro view_intros look audit journal_step) (cases x; simp add: view_basic)
  then have "leaves_view view (tcatch (executed e key argv) (execute_failed e key))" for key
    unfolding executed_def by (intro view_intros look audit journal_step command)
  moreover have "leaves_view view (replayed e v)" for v
    unfolding replayed_def Let_def by (intro view_intros audit)
  ultimately have "view (fst ((if b then tcatch (executed e key argv) (execute_failed e key) else replayed e v) (s\<lparr>ts_journal := j\<rparr>))) = view s"
    for b key v j s by (simp add: leaves_view_def view_journal)
  then show ?thesis unfolding execute_body_def by (intro view_intros look) (simp add: leaves_view_def split: prod.split)
qed

lemma bodies: "leaves_view view (call_body e c)"
  using execute_tool file_bodies [of e c] by (cases "\<exists>argv. c = Call_execute argv") (auto simp: view_files)

end

text \<open>What the boundary of a call touches.\<close>

locale tool_view = body_view +
  assumes view_hook_log: "view (s\<lparr>ts_hook_log := h\<rparr>) = view s"
    and view_open: "view (s\<lparr>ts_open := p\<rparr>) = view s"
    and view_event: "\<not> budget_event ev \<Longrightarrow> view (s\<lparr>ts_log := l @ [ev]\<rparr>) = view (s\<lparr>ts_log := l\<rparr>)"
begin

lemma event: "\<not> budget_event ev \<Longrightarrow> leaves_view view (emit_event e ev)"
proof -
  assume "\<not> budget_event ev"
  from view_event [OF this] have "view (s\<lparr>ts_log := ts_log s @ [ev]\<rparr>) = view s" for s by simp
  then show ?thesis unfolding emit_event_def by (intro view_intros view_tchange look)
qed

lemma hook: "leaves_view view (run_hook e ev tool arguments result)"
  by (simp add: leaves_view_def run_hook_def Let_def view_hook_log split: prod.split)

lemma register_start: "leaves_view view (register_tool_start e tool)"
  unfolding register_tool_start_def by (intro view_intros view_tchange look view_open)

lemma pop_start: "leaves_view view (pop_tool_start e tool)"
  by (simp add: leaves_view_def pop_tool_start_def view_open split: list.split)

lemma boundary: "leaves_view view (before_tool e tool arguments)" "leaves_view view (after_tool e tool arguments)"
  unfolding before_tool_def after_tool_def by (intro view_intros look hook register_start pop_start event; simp)+

lemma execution:
  assumes "leaves_view view body"
  shows "leaves_view view (tool_execution e tool arguments body)"
proof -
  have "view (fst (tool_execution e tool arguments body s)) = view s" for s
  proof -
    obtain s1 r1 where b: "before_tool e tool arguments (s\<lparr>ts_audit := []\<rparr>) = (s1, r1)" by force
    obtain s2 r2 where m: "body s1 = (s2, r2)" by force
    obtain s3 r3 where a: "after_tool e tool arguments (note_failure r2 s2) = (s3, r3)" by force
    have "view (note_failure r2 s2) = view s2" by (simp add: note_failure_def view_audit split: sum.split)
    with leaves_viewD [OF boundary(1) b] leaves_viewD [OF assms m] leaves_viewD [OF boundary(2) a] b m a
    show ?thesis by (simp add: tool_execution_def view_audit split: sum.split)
  qed
  then show ?thesis by (simp add: leaves_view_def)
qed

end

locale free_view = tool_view +
  assumes view_guard: "view (s\<lparr>ts_guard := g\<rparr>) = view s"
    and view_log: "view (s\<lparr>ts_log := l\<rparr>) = view s"
begin

lemma any_event: "leaves_view view (emit_event e ev)"
  unfolding emit_event_def by (intro view_intros view_tchange look view_log)

lemma checkpoints: "leaves_view view (tool_boundary e)"
  unfolding tool_boundary_def checkpoint_def task_checkpoint_def reprompt_checkpoint_def tool_safety_point_def use_call_def
  by (intro view_intros view_tchange look refuse any_event view_guard)

lemma call: "leaves_view view (call_body e c) \<Longrightarrow> leaves_view view (run_call e c)"
  unfolding run_call_def by (intro view_intros checkpoints execution)

end

section \<open>The journal and the processes\<close>

definition journal_view :: "tool_state \<Rightarrow> journal \<times> (string \<times> string list) list" where
  "journal_view s = (ts_journal s, ts_started s)"

interpretation jv: free_view journal_view
  by unfold_locales (simp_all add: journal_view_def)

definition started_ok :: "tool_state \<Rightarrow> bool" where
  "started_ok s \<longleftrightarrow> journal_ok (ts_journal s) \<and> distinct (map fst (ts_started s)) \<and>
     fst ` set (ts_started s) \<subseteq> journal_keys (ts_journal s)"

text \<open>What a step may do: keys stay in the journal, and a key that is there starts no process.\<close>

definition admits :: "tool_state \<Rightarrow> tool_state \<Rightarrow> bool" where
  "admits s s' \<longleftrightarrow> (started_ok s \<longrightarrow> started_ok s' \<and> journal_keys (ts_journal s) \<subseteq> journal_keys (ts_journal s') \<and>
     (\<forall>k \<in> journal_keys (ts_journal s). k \<in> fst ` set (ts_started s') \<longrightarrow> k \<in> fst ` set (ts_started s)))"

lemma admits_refl: "journal_view s' = journal_view s \<Longrightarrow> admits s s'"
  by (simp add: admits_def started_ok_def journal_view_def)

lemma admits_trans: "admits s s1 \<Longrightarrow> admits s1 s2 \<Longrightarrow> admits s s2"
  unfolding admits_def by blast

lemma admits_journal: "(journal_ok (ts_journal s) \<Longrightarrow> journal_ok j \<and> journal_keys (ts_journal s) \<subseteq> journal_keys j) \<Longrightarrow>
    admits s (s\<lparr>ts_journal := j\<rparr>)"
  unfolding admits_def started_ok_def by auto

lemma view_admits: "leaves_view journal_view m \<Longrightarrow> m s = (s', r) \<Longrightarrow> admits s s'"
  using leaves_viewD admits_refl by metis

section \<open>Who asks\<close>

definition never_asks :: "'a tool \<Rightarrow> bool" where
  "never_asks m \<longleftrightarrow> (\<forall>s q. snd (m s) \<noteq> Inl (Tool_permission q))"

lemma never_asksD: "never_asks m \<Longrightarrow> m s \<noteq> (s', Inl (Tool_permission q))"
  unfolding never_asks_def by (metis snd_conv)

named_theorems asks_intros \<open>steps that ask for no permission\<close>

lemma asks_basic [asks_intros]: "never_asks (tret x)" "never_asks (traise (Tool_raised msg))" "never_asks (treading f)"
  "never_asks (tchange g)" "never_asks (tlook h)"
  by (simp_all add: never_asks_def tret_def traise_def treading_def tchange_def tlook_def)

lemma asks_tthen [asks_intros]: "never_asks m \<Longrightarrow> (\<And>x. never_asks (k x)) \<Longrightarrow> never_asks (tthen m k)"
  unfolding never_asks_def tthen_def by (auto split: prod.splits sum.splits) (metis snd_conv)+

lemma asks_if [asks_intros]: "never_asks m \<Longrightarrow> never_asks n \<Longrightarrow> never_asks (if b then m else n)"
  by simp

lemma asks_twhen [asks_intros]: "never_asks m \<Longrightarrow> never_asks (twhen b m)"
  by (simp add: twhen_def asks_basic)

lemma asks_option [asks_intros]: "never_asks m \<Longrightarrow> (\<And>x. never_asks (k x)) \<Longrightarrow> never_asks (case o' of None \<Rightarrow> m | Some x \<Rightarrow> k x)"
  by (simp split: option.split)

lemma asks_prod [asks_intros]: "(\<And>x y. never_asks (k x y)) \<Longrightarrow> never_asks (case p of (x, y) \<Rightarrow> k x y)"
  by (simp split: prod.split)

lemma asks_parts [asks_intros]: "never_asks (note_audit k v)" "never_asks (note_all d)" "never_asks (run_hook e ev tool arguments result)"
  "never_asks (pop_tool_start e tool)" "never_asks (on_journal f key)" "never_asks (run_process e key argv)"
  by (simp_all add: never_asks_def note_audit_def note_all_def tchange_def run_hook_def Let_def pop_tool_start_def on_journal_def
      run_process_def split: prod.split list.split option.split sum.split)

lemma asks_record [asks_intros]: "never_asks (emit_event e ev)" "never_asks (refuse_cancelled e msg)"
  unfolding emit_event_def refuse_cancelled_def by (intro asks_intros)+

lemma asks_boundary: "never_asks (tool_boundary e)"
  unfolding tool_boundary_def checkpoint_def task_checkpoint_def reprompt_checkpoint_def tool_safety_point_def
  by (intro asks_intros)

lemma asks_hooks: "never_asks (before_tool e tool arguments)" "never_asks (after_tool e tool arguments)"
  unfolding before_tool_def after_tool_def register_tool_start_def by (intro asks_intros)+

lemma asks_process: "never_asks (start_process e key argv)"
  unfolding start_process_def by (intro asks_intros)

lemma asks_replayed: "never_asks (replayed e v)"
  unfolding replayed_def Let_def by (intro asks_intros)

lemma execution_asks:
  assumes "tool_execution e tool arguments body s = (s', Inl (Tool_permission q))"
  shows "\<exists>s1 s2. body s1 = (s2, Inl (Tool_permission q)) \<and> journal_view s1 = journal_view s \<and> journal_view s' = journal_view s2"
proof -
  obtain s1 r1 where b: "before_tool e tool arguments (s\<lparr>ts_audit := []\<rparr>) = (s1, r1)" by force
  obtain s2 r2 where m: "body s1 = (s2, r2)" by force
  obtain s3 r3 where a: "after_tool e tool arguments (note_failure r2 s2) = (s3, r3)" by force
  have n: "journal_view (note_failure r2 s2) = journal_view s2"
    by (simp add: note_failure_def journal_view_def split: sum.split)
  have r1: "r1 = Inr ()" using assms b never_asksD [OF asks_hooks(1)] by (cases r1) (auto simp: tool_execution_def)
  have r3: "r3 = Inr ()" using assms b m a r1 never_asksD [OF asks_hooks(2)] by (cases r3) (auto simp: tool_execution_def)
  from assms b m a r1 r3 have "r2 = Inl (Tool_permission q)" "s' = s3" by (simp_all add: tool_execution_def)
  moreover have "journal_view s1 = journal_view s" using leaves_viewD [OF jv.boundary(1) b] by (simp add: jv.view_audit)
  moreover have "journal_view s3 = journal_view s2" using leaves_viewD [OF jv.boundary(2) a] n by simp
  ultimately show ?thesis using b m r1 by blast
qed

section \<open>Commands\<close>

definition starts_at_most :: "string \<Rightarrow> tool_state \<Rightarrow> tool_state \<Rightarrow> bool" where
  "starts_at_most key s s' \<longleftrightarrow> ts_journal s' = ts_journal s \<and>
     (ts_started s' = ts_started s \<or> (\<exists>argv. ts_started s' = ts_started s @ [(key, argv)]))"

lemma starts_none: "journal_view s' = journal_view s \<Longrightarrow> starts_at_most key s s'"
  by (simp add: starts_at_most_def journal_view_def)

lemma start_process_starts: "start_process e key argv s = (s', r) \<Longrightarrow> starts_at_most key s s'"
  by (auto simp: start_process_def tthen_def tlook_def tret_def run_process_def starts_at_most_def split: if_splits prod.splits)

lemma run_command_starts: "run_command e key argv s = (s', r) \<Longrightarrow> starts_at_most key s s'"
proof -
  assume r: "run_command e key argv s = (s', r)"
  have auth: "starts_at_most key s s'" if "tthen (authorized e kind operation params reason) (\<lambda>_. start_process e key argv) s = (s', r)"
    for kind operation params reason
  proof -
    obtain s1 a where a: "authorized e kind operation params reason s = (s1, a)" by force
    from leaves_viewD [OF jv.authorization a] have same: "journal_view s1 = journal_view s" .
    show ?thesis
    proof (cases a)
      case (Inl x)
      with that a same show ?thesis by (simp add: tthen_def starts_none)
    next
      case (Inr u)
      with that a have "start_process e key argv s1 = (s', r)" by (simp add: tthen_def)
      from start_process_starts [OF this] same show ?thesis by (simp add: starts_at_most_def journal_view_def)
    qed
  qed
  from r show ?thesis unfolding run_command_def
    by (auto split: sum.splits path_failure.splits gate.splits intro: starts_none auth start_process_starts)
qed

lemma run_command_asks:
  assumes "run_command e key argv s = (s', Inl (Tool_permission q))"
  shows "journal_view s' = journal_view s"
proof -
  have auth: "journal_view s' = journal_view s"
    if "tthen (authorized e kind operation params reason) (\<lambda>_. start_process e key argv) s = (s', Inl (Tool_permission q))"
    for kind operation params reason
  proof -
    obtain s1 a where a: "authorized e kind operation params reason s = (s1, a)" by force
    from leaves_viewD [OF jv.authorization a] have same: "journal_view s1 = journal_view s" .
    from that a never_asksD [OF asks_process] have "s' = s1" by (cases a) (auto simp: tthen_def)
    with same show ?thesis by simp
  qed
  from assms show ?thesis unfolding run_command_def
    using auth never_asksD [OF asks_process] by (auto split: sum.splits path_failure.splits gate.splits)
qed

lemma on_journal_keeps:
  assumes "on_journal f key s = (s', r)" "\<And>j j'. f j = Some j' \<Longrightarrow> journal_ok j \<Longrightarrow> journal_ok j' \<and> journal_keys j' = journal_keys j"
    "journal_ok (ts_journal s)"
  shows "journal_ok (ts_journal s') \<and> journal_keys (ts_journal s') = journal_keys (ts_journal s) \<and> ts_started s' = ts_started s"
  using assms by (auto simp: on_journal_def split: option.splits)

text \<open>What follows a command keeps the keys and starts nothing.\<close>

definition settles :: "'a tool \<Rightarrow> bool" where
  "settles m \<longleftrightarrow> (\<forall>s. journal_ok (ts_journal s) \<longrightarrow> journal_ok (ts_journal (fst (m s))) \<and>
     journal_keys (ts_journal (fst (m s))) = journal_keys (ts_journal s) \<and> ts_started (fst (m s)) = ts_started s)"

lemma settlesD: "settles m \<Longrightarrow> m s = (s', r) \<Longrightarrow> journal_ok (ts_journal s) \<Longrightarrow>
    journal_ok (ts_journal s') \<and> journal_keys (ts_journal s') = journal_keys (ts_journal s) \<and> ts_started s' = ts_started s"
  unfolding settles_def by (metis fst_conv)

lemma settles_view: "leaves_view journal_view m \<Longrightarrow> settles m"
  by (simp add: settles_def leaves_view_def journal_view_def)

lemma settles_tthen: "settles m \<Longrightarrow> (\<And>x. settles (k x)) \<Longrightarrow> settles (tthen m k)"
  unfolding settles_def tthen_def by (auto split: prod.splits sum.splits)

lemma settles_exn: "settles (case x of Tool_raised msg \<Rightarrow> tret (f msg) | Tool_permission q \<Rightarrow> traise y)"
  by (rule settles_view) (simp add: leaves_view_def tret_def traise_def split: tool_exn.split)

lemma settles_complete: "settles (on_journal (complete_invocation t key d) key)"
  unfolding settles_def using on_journal_keeps [of "complete_invocation t key d"] complete_ok
  by (metis prod.collapse)

lemma settles_fail: "settles (on_journal (fail_invocation t key msg c) key)"
  unfolding settles_def using on_journal_keeps [of "fail_invocation t key msg c"] fail_ok
  by (metis prod.collapse)

lemma settles_failed: "settles (execute_failed e key x)"
  unfolding execute_failed_def
  by (intro settles_tthen settles_exn settles_fail settles_view [OF jv.audit(1)] settles_view [OF jv.look])

lemma settles_payload: "settles (tthen (note_all d) (\<lambda>_. tthen (tlook f) (\<lambda>t. tthen (on_journal (complete_invocation t key d) key) (\<lambda>_. tret x))))"
  by (intro settles_tthen settles_complete settles_view jv.audit jv.look view_basic)

lemma executed_starts:
  assumes "executed e key argv s = (s', r)" "journal_ok (ts_journal s)"
  shows "\<exists>s1. starts_at_most key s s1 \<and> journal_ok (ts_journal s') \<and>
    journal_keys (ts_journal s') = journal_keys (ts_journal s1) \<and> ts_started s' = ts_started s1 \<and>
    (\<forall>q. r = Inl (Tool_permission q) \<longrightarrow> ts_started s1 = ts_started s)"
proof -
  obtain s1 r1 where c: "run_command e key argv s = (s1, r1)" by force
  from run_command_starts [OF c] have st: "starts_at_most key s s1" .
  with assms(2) have ok: "journal_ok (ts_journal s1)" by (simp add: starts_at_most_def)
  show ?thesis
  proof (cases r1)
    case (Inl x)
    with assms(1) c have eq: "s' = s1" "r = Inl x" by (simp_all add: executed_def tthen_def)
    have "ts_started s1 = ts_started s" if "r = Inl (Tool_permission q)" for q
      using run_command_asks [of e key argv s s1 q] c Inl eq that by (simp add: journal_view_def)
    with st ok eq show ?thesis by blast
  next
    case (Inr x)
    let ?rest = "tthen (note_all (shell_payload e x)) (\<lambda>_. tthen (tlook (te_now e)) (\<lambda>t.
      tthen (on_journal (complete_invocation t key (shell_payload e x)) key) (\<lambda>_. tret (te_dumps e (PyDict (shell_payload e x))))))"
    from assms(1) c Inr have rest: "?rest s1 = (s', r)" by (simp add: executed_def tthen_run)
    have "never_asks ?rest" by (intro asks_intros)
    with rest have "r \<noteq> Inl (Tool_permission q)" for q using never_asksD by metis
    with settlesD [OF settles_payload rest ok] st show ?thesis by blast
  qed
qed

lemma created_execution:
  assumes "tcatch (executed e key argv) (execute_failed e key) s = (s', r)" "journal_ok (ts_journal s)"
  shows "\<exists>s1. starts_at_most key s s1 \<and> journal_ok (ts_journal s') \<and>
    journal_keys (ts_journal s') = journal_keys (ts_journal s1) \<and> ts_started s' = ts_started s1 \<and>
    (\<forall>q. r = Inl (Tool_permission q) \<longrightarrow> ts_started s1 = ts_started s)"
proof -
  obtain s2 r2 where x: "executed e key argv s = (s2, r2)" by force
  from executed_starts [OF x assms(2)] obtain s1 where s1: "starts_at_most key s s1" "journal_ok (ts_journal s2)"
    "journal_keys (ts_journal s2) = journal_keys (ts_journal s1)" "ts_started s2 = ts_started s1"
    "\<And>q. r2 = Inl (Tool_permission q) \<Longrightarrow> ts_started s1 = ts_started s" by blast
  show ?thesis
  proof (cases r2)
    case (Inr v)
    with assms(1) x s1 show ?thesis by (auto simp: tcatch_def)
  next
    case (Inl y)
    with assms(1) x have f: "execute_failed e key y s2 = (s', r)" by (simp add: tcatch_def)
    have "ts_started s1 = ts_started s" if "r = Inl (Tool_permission q)" for q
    proof (cases y)
      case (Tool_raised msg)
      have "never_asks (execute_failed e key y)" unfolding execute_failed_def Tool_raised by (simp, intro asks_intros)
      with f that show ?thesis using never_asksD by blast
    next
      case (Tool_permission q')
      with Inl s1(5) show ?thesis by simp
    qed
    with settlesD [OF settles_failed f s1(2)] s1 show ?thesis by metis
  qed
qed

lemma execute_body_admits:
  assumes "execute_body e argv s = (s', r)" "started_ok s"
  shows "started_ok s'" "journal_keys (ts_journal s') = insert (execute_key e argv) (journal_keys (ts_journal s))"
    "\<forall>k \<in> journal_keys (ts_journal s). k \<in> fst ` set (ts_started s') \<longrightarrow> k \<in> fst ` set (ts_started s)"
    "\<forall>q. r = Inl (Tool_permission q) \<longrightarrow> execute_key e argv \<notin> fst ` set (ts_started s')"
proof -
  let ?key = "execute_key e argv"
  define s0 where "s0 = s\<lparr>ts_tick := Suc (Suc (ts_tick s))\<rparr>"
  obtain j v created where b: "begin_invocation (new_invocation e argv (te_fresh e (ts_tick s)) (te_now e (Suc (ts_tick s)))) (ts_journal s0) = (j, v, created)"
    using prod_cases3 by blast
  have ok: "journal_ok (ts_journal s0)" and same: "ts_started s0 = ts_started s" "ts_journal s0 = ts_journal s"
    using assms(2) by (simp_all add: s0_def started_ok_def)
  note bk = begin_ok [OF b ok]
  have key: "iv_key (new_invocation e argv i t) = ?key" for i t by (simp add: new_invocation_def)
  have run: "(if created then tcatch (executed e ?key argv) (execute_failed e ?key) else replayed e v) (s0\<lparr>ts_journal := j\<rparr>) = (s', r)"
    using assms(1) b by (simp add: execute_body_def tthen_def tlook_def s0_def)
  have all: "started_ok s' \<and> journal_keys (ts_journal s') = insert ?key (journal_keys (ts_journal s)) \<and>
    (\<forall>k \<in> journal_keys (ts_journal s). k \<in> fst ` set (ts_started s') \<longrightarrow> k \<in> fst ` set (ts_started s)) \<and>
    (\<forall>q. r = Inl (Tool_permission q) \<longrightarrow> ?key \<notin> fst ` set (ts_started s'))"
  proof (cases created)
    case False
    with run have rep: "replayed e v (s0\<lparr>ts_journal := j\<rparr>) = (s', r)" by simp
    have "leaves_view journal_view (replayed e v)" unfolding replayed_def Let_def by (intro view_intros jv.audit)
    from leaves_viewD [OF this rep] have "ts_journal s' = j" "ts_started s' = ts_started s" by (simp_all add: journal_view_def same)
    moreover have "?key \<in> journal_keys (ts_journal s)" using bk(3) False same key by simp
    moreover have "r \<noteq> Inl (Tool_permission q)" for q using never_asksD [OF asks_replayed] rep by blast
    ultimately show ?thesis using bk(1,2) assms(2) key same by (auto simp: started_ok_def)
  next
    case True
    with run have "tcatch (executed e ?key argv) (execute_failed e ?key) (s0\<lparr>ts_journal := j\<rparr>) = (s', r)" by simp
    from created_execution [OF this] bk(1) obtain s1 where s1: "starts_at_most ?key (s0\<lparr>ts_journal := j\<rparr>) s1" "journal_ok (ts_journal s')"
      "journal_keys (ts_journal s') = journal_keys (ts_journal s1)" "ts_started s' = ts_started s1"
      "\<And>q. r = Inl (Tool_permission q) \<Longrightarrow> ts_started s1 = ts_started s"
      by (auto simp: same)
    have fresh: "?key \<notin> journal_keys (ts_journal s)" using bk(3) True same key by simp
    then have unstarted: "?key \<notin> fst ` set (ts_started s)" using assms(2) by (auto simp: started_ok_def)
    have keys: "journal_keys (ts_journal s') = insert ?key (journal_keys (ts_journal s))"
      using s1(1,3) bk(2) key same by (simp add: starts_at_most_def)
    have st: "ts_started s' = ts_started s \<or> (\<exists>a. ts_started s' = ts_started s @ [(?key, a)])"
      using s1(1,4) same by (simp add: starts_at_most_def)
    then have "distinct (map fst (ts_started s'))" "fst ` set (ts_started s') \<subseteq> insert ?key (fst ` set (ts_started s))"
      using assms(2) unstarted by (auto simp: started_ok_def)
    then have "started_ok s'" using s1(2) keys assms(2) unfolding started_ok_def by blast
    with keys st fresh unstarted s1(4,5) show ?thesis by auto
  qed
  then show "started_ok s'" "journal_keys (ts_journal s') = insert ?key (journal_keys (ts_journal s))"
    "\<forall>k \<in> journal_keys (ts_journal s). k \<in> fst ` set (ts_started s') \<longrightarrow> k \<in> fst ` set (ts_started s)"
    "\<forall>q. r = Inl (Tool_permission q) \<longrightarrow> ?key \<notin> fst ` set (ts_started s')" by blast+
qed

section \<open>Histories\<close>

text \<open>
  One step of the system that shares the journal: a call of a tool by any worker, a restart, a decision of the broker, a
  new guard, or anything else that happens to the files and the log.
\<close>

inductive tool_step :: "tool_state \<Rightarrow> tool_state \<Rightarrow> bool" where
  call_step: "tool_step s (fst (run_call e c s))"
| restart_step: "tool_step s (s\<lparr>ts_journal := recover_incomplete now run (ts_journal s)\<rparr>)"
| other_step: "ts_journal s' = ts_journal s \<Longrightarrow> ts_started s' = ts_started s \<Longrightarrow> tool_step s s'"

lemma execution_admits:
  assumes "tool_execution e tool arguments (execute_body e argv) s = (s', r)"
  shows "admits s s'"
proof -
  obtain s1 r1 where b: "before_tool e tool arguments (s\<lparr>ts_audit := []\<rparr>) = (s1, r1)" by force
  from leaves_viewD [OF jv.boundary(1) b] have s1: "journal_view s1 = journal_view s" by (simp add: jv.view_audit)
  show ?thesis
  proof (cases r1)
    case (Inl x)
    with assms b s1 show ?thesis by (simp add: tool_execution_def admits_refl)
  next
    case (Inr u)
    obtain s2 r2 where m: "execute_body e argv s1 = (s2, r2)" by force
    obtain s3 r3 where a: "after_tool e tool arguments (note_failure r2 s2) = (s3, r3)" by force
    have "journal_view (note_failure r2 s2) = journal_view s2"
      by (simp add: note_failure_def journal_view_def split: sum.split)
    with leaves_viewD [OF jv.boundary(2) a] have "journal_view s3 = journal_view s2" by simp
    moreover have "s' = s3" using assms b m a Inr by (cases r3) (simp_all add: tool_execution_def)
    moreover have "admits s1 s2" using execute_body_admits [OF m] unfolding admits_def by blast
    ultimately show ?thesis using s1 admits_trans admits_refl by metis
  qed
qed

lemma run_call_admits: "run_call e c s = (s', r) \<Longrightarrow> admits s s'"
proof -
  assume r: "run_call e c s = (s', r)"
  show ?thesis
  proof (cases "\<exists>argv. c = Call_execute argv")
    case True
    then obtain argv where c: "c = Call_execute argv" ..
    obtain s1 r1 where b: "tool_boundary e s = (s1, r1)" by force
    from leaves_viewD [OF jv.checkpoints b] have same: "journal_view s1 = journal_view s" .
    show ?thesis
    proof (cases r1)
      case (Inl x)
      with r b same show ?thesis by (simp add: run_call_def tthen_run admits_refl)
    next
      case (Inr u)
      with r b c have "tool_execution e ''execute'' (argv_dict argv) (execute_body e argv) s1 = (s', r)"
        by (simp add: run_call_def tthen_run)
      from admits_trans [OF admits_refl [OF same] execution_admits [OF this]] show ?thesis .
    qed
  next
    case False
    have "leaves_view journal_view (call_body e c)" by (rule jv.file_bodies) (use False in \<open>auto simp: journal_view_def\<close>)
    from view_admits [OF jv.call [OF this] r] show ?thesis .
  qed
qed

lemma step_admits: "tool_step s s' \<Longrightarrow> admits s s'"
proof (induction rule: tool_step.induct)
  case (call_step s e c)
  show ?case by (rule run_call_admits) (rule surjective_pairing)
next
  case (restart_step s now run)
  show ?case by (rule admits_journal) (simp add: recover_incomplete_ok recover_incomplete_keys)
qed (simp add: admits_refl journal_view_def)

lemma history_admits: "tool_step\<^sup>*\<^sup>* s s' \<Longrightarrow> admits s s'"
  by (induction rule: rtranclp_induct) (auto intro: admits_refl admits_trans step_admits)


lemma asked_key:
  assumes "run_call e (Call_execute argv) s = (s', Inl (Tool_permission q))" "started_ok s"
  shows "started_ok s'" "execute_key e argv \<in> journal_keys (ts_journal s')" "execute_key e argv \<notin> fst ` set (ts_started s')"
proof -
  obtain s1 r1 where b: "tool_boundary e s = (s1, r1)" by force
  from leaves_viewD [OF jv.checkpoints b] have same: "journal_view s1 = journal_view s" .
  have "r1 = Inr ()" using assms(1) b never_asksD [OF asks_boundary] by (cases r1) (auto simp: run_call_def tthen_def)
  with assms(1) b have x: "tool_execution e ''execute'' (argv_dict argv) (execute_body e argv) s1 = (s', Inl (Tool_permission q))"
    by (simp add: run_call_def tthen_run)
  from execution_asks [OF x] obtain s2 s3 where m: "execute_body e argv s2 = (s3, Inl (Tool_permission q))"
    and v: "journal_view s2 = journal_view s1" "journal_view s' = journal_view s3" by blast
  from v(1) same assms(2) have "started_ok s2" by (simp add: started_ok_def journal_view_def)
  note body = execute_body_admits [OF m this]
  from body(1,2,4) v(2) show "started_ok s'" "execute_key e argv \<in> journal_keys (ts_journal s')"
    "execute_key e argv \<notin> fst ` set (ts_started s')" by (simp_all add: started_ok_def journal_view_def)
qed

text \<open>C31: A command that had to ask never runs: once \<open>execute\<close> has raised \<open>PermissionRequired\<close>, no later history starts that
  command for the same agent and task, the approval of the request included.\<close>

theorem asked_command_never_runs:
  assumes "run_call e (Call_execute argv) s = (s', Inl (Tool_permission q))" "tool_step\<^sup>*\<^sup>* s' s''" "started_ok s"
  shows "execute_key e argv \<notin> fst ` set (ts_started s'')"
  using asked_key [OF assms(1,3)] history_admits [OF assms(2)] unfolding admits_def by blast

end
