(* ===== verification/Tools_Ends.thy ===== *)
theory Tools_Ends
  imports Tools_Props
begin

text \<open>
  The properties of the governed tools: the events of a call, the budget over restarts, and what a call can see and change
  of the file system; then the runs that witness them.
\<close>

section \<open>Events\<close>

definition call_events :: "tool_state \<Rightarrow> tool_event list" where
  "call_events s = filter (\<lambda>ev. \<not> budget_event ev) (ts_log s)"

definition event_view :: "tool_state \<Rightarrow> (open_key \<times> (string \<times> time) list) list \<times> tool_event list" where
  "event_view s = (ts_open s, call_events s)"

interpretation ev: idle_view event_view
  by unfold_locales (simp_all add: event_view_def call_events_def)

definition recording :: "tool_env \<Rightarrow> bool" where
  "recording e \<longleftrightarrow> (\<forall>n. te_recorded e n)"

lemma recorded_event: "recording e \<Longrightarrow> emit_event e ev s = (s\<lparr>ts_tick := Suc (ts_tick s), ts_log := ts_log s @ [ev]\<rparr>, Inr ())"
  by (simp add: recording_def emit_event_def tthen_def tlook_def twhen_def tchange_def)

lemma hook_events: "run_hook e ev' tool arguments d s = (s', r) \<Longrightarrow> event_view s' = event_view s \<and>
    (\<forall>x. r = Inl x \<longrightarrow> vetoed (fst (emit_async ev' (tool_hook_context e tool arguments d) (te_engine e))))"
  by (auto simp: run_hook_def Let_def event_view_def call_events_def split: prod.splits if_splits)

lemma open_calls_update: "open_calls k (s\<lparr>ts_open := AList.update k xs (ts_open s)\<rparr>) = xs"
  by (simp add: open_calls_def map_of_update)

lemma register_events:
  assumes "register_tool_start e tool s = (s', r)"
  shows "\<exists>i t. r = Inr (i, t) \<and> open_calls (call_key e tool) s' = open_calls (call_key e tool) s @ [(i, t)] \<and> call_events s' = call_events s"
  using assms
  by (auto simp: register_tool_start_def tthen_def tlook_def tchange_def tret_def call_events_def open_calls_def map_of_update)

lemma before_events:
  assumes "before_tool e tool arguments s = (s', r)" "te_run_id e \<noteq> []" "recording e"
  shows "(\<exists>x. r = Inl x \<and> call_events s' = call_events s) \<or>
    (\<exists>i t. r = Inr () \<and> open_calls (call_key e tool) s' = open_calls (call_key e tool) s @ [(i, t)] \<and>
      call_events s' = call_events s @ [Tool_call_started (te_run_id e) (te_agent_id e) (te_task_id e) i tool arguments])"
proof -
  obtain s1 r1 where h: "run_hook e Ev_BEFORE_TOOL_USE tool arguments [] s = (s1, r1)" by force
  from hook_events [OF h] have same: "ts_open s1 = ts_open s" "call_events s1 = call_events s" by (simp_all add: event_view_def)
  show ?thesis
  proof (cases r1)
    case (Inl x)
    with assms(1,2) h same show ?thesis by (auto simp: before_tool_def tthen_run)
  next
    case (Inr u)
    obtain s2 r2 where g: "register_tool_start e tool s1 = (s2, r2)" by force
    from register_events [OF g] obtain i t where i: "r2 = Inr (i, t)" "call_events s2 = call_events s1"
      "open_calls (call_key e tool) s2 = open_calls (call_key e tool) s1 @ [(i, t)]" by blast
    with assms h Inr g have "(s', r) = emit_event e (Tool_call_started (te_run_id e) (te_agent_id e) (te_task_id e) i tool arguments) s2"
      by (simp add: before_tool_def tthen_run)
    with i same assms(3) show ?thesis by (simp add: recorded_event call_events_def open_calls_def)
  qed
qed

lemma after_events:
  assumes "after_tool e tool arguments s = (s', r)" "te_run_id e \<noteq> []" "recording e"
    and "open_calls (call_key e tool) s = xs @ [(i, t)]"
  shows "(\<exists>x. r = Inl x \<and> call_events s' = call_events s \<and>
      vetoed (fst (emit_async Ev_AFTER_TOOL_USE (tool_hook_context e tool arguments (ts_audit s)) (te_engine e)))) \<or>
    (\<exists>ms. r = Inr () \<and> call_events s' = call_events s @
      [Tool_call_result (te_run_id e) (te_agent_id e) (te_task_id e) (Some i) tool (ts_audit s) (tool_result_status (ts_audit s)) ms])"
proof -
  obtain s1 r1 where h: "run_hook e Ev_AFTER_TOOL_USE tool arguments (ts_audit s) s = (s1, r1)" by force
  note hk = hook_events [OF h]
  from hk have same: "ts_open s1 = ts_open s" "call_events s1 = call_events s" by (simp_all add: event_view_def)
  show ?thesis
  proof (cases r1)
    case (Inl x)
    with assms(1,2) h hk same show ?thesis by (auto simp: after_tool_def tthen_def treading_def)
  next
    case (Inr u)
    have "open_calls (call_key e tool) s1 = xs @ [(i, t)]" using assms(4) same by (simp add: open_calls_def)
    then obtain s2 where p: "pop_tool_start e tool s1 = (s2, Inr (Some (i, t)))" "call_events s2 = call_events s1"
      by (cases xs) (auto simp: pop_tool_start_def call_events_def)
    let ?result = "\<lambda>ms. Tool_call_result (te_run_id e) (te_agent_id e) (te_task_id e) (Some i) tool (ts_audit s) (tool_result_status (ts_audit s)) ms"
    from assms(1-3) h Inr p obtain ms n where "s' = s2\<lparr>ts_tick := n, ts_log := ts_log s2 @ [?result ms]\<rparr>" "r = Inr ()"
      by (auto simp: after_tool_def tthen_def treading_def tlook_def recorded_event)
    then have "call_events s' = call_events s2 @ [?result ms]" by (simp add: call_events_def)
    with p(2) same \<open>r = Inr ()\<close> show ?thesis by auto
  qed
qed

lemma budget_events_hidden: "budget_event ev \<Longrightarrow> leaves_view call_events (emit_event e ev)"
  by (simp add: leaves_view_def emit_event_def tthen_def tlook_def twhen_def tchange_def tret_def call_events_def)

lemma look_events: "leaves_view call_events (tlook f)"
  by (simp add: leaves_view_def tlook_def call_events_def)

lemma boundary_events: "leaves_view call_events (tool_boundary e)"
  unfolding tool_boundary_def checkpoint_def task_checkpoint_def reprompt_checkpoint_def tool_safety_point_def use_call_def refuse_cancelled_def
  by (intro view_intros view_tchange look_events budget_events_hidden) (simp_all add: call_events_def)

lemma body_events: "call_body e c s = (s', r) \<Longrightarrow> event_view (note_failure r s') = event_view s"
  using leaves_viewD [OF ev.bodies] by (simp add: note_failure_def ev.view_audit split: sum.split)

lemma call_events_cases:
  assumes "run_call e c s = (s', r)" "te_run_id e \<noteq> []" "recording e"
  shows "call_events s' = call_events s \<or>
    (\<exists>i. let started = Tool_call_started (te_run_id e) (te_agent_id e) (te_task_id e) i (call_name c) (call_arguments c) in
       (\<exists>d ms. call_events s' = call_events s @ [started,
          Tool_call_result (te_run_id e) (te_agent_id e) (te_task_id e) (Some i) (call_name c) d (tool_result_status d) ms]) \<or>
       (\<exists>d. call_events s' = call_events s @ [started] \<and>
          vetoed (fst (emit_async Ev_AFTER_TOOL_USE (tool_hook_context e (call_name c) (call_arguments c) d) (te_engine e)))))"
proof -
  let ?tool = "call_name c" and ?arguments = "call_arguments c"
  obtain s0 r0 where b: "tool_boundary e s = (s0, r0)" by force
  note s0 = leaves_viewD [OF boundary_events b]
  show ?thesis
  proof (cases r0)
    case (Inl x)
    with assms(1) b s0 show ?thesis by (simp add: run_call_def tthen_run)
  next
    case (Inr u)
    obtain s1 r1 where f: "before_tool e ?tool ?arguments (s0\<lparr>ts_audit := []\<rparr>) = (s1, r1)" by force
    obtain s2 r2 where m: "call_body e c s1 = (s2, r2)" by force
    obtain s3 r3 where a: "after_tool e ?tool ?arguments (note_failure r2 s2) = (s3, r3)" by force
    from assms(1) b Inr have x: "tool_execution e ?tool ?arguments (call_body e c) s0 = (s', r)" by (simp add: run_call_def tthen_run)
    from before_events [OF f assms(2,3)] show ?thesis
    proof (elim disjE exE conjE)
      fix y assume "r1 = Inl y" "call_events s1 = call_events (s0\<lparr>ts_audit := []\<rparr>)"
      with x f s0 show ?thesis by (simp add: tool_execution_def call_events_def)
    next
      fix i t
      assume r1: "r1 = Inr ()" and o: "open_calls (call_key e ?tool) s1 = open_calls (call_key e ?tool) (s0\<lparr>ts_audit := []\<rparr>) @ [(i, t)]"
        and c1: "call_events s1 = call_events (s0\<lparr>ts_audit := []\<rparr>) @
          [Tool_call_started (te_run_id e) (te_agent_id e) (te_task_id e) i ?tool ?arguments]"
      from body_events [OF m] have n: "ts_open (note_failure r2 s2) = ts_open s1" "call_events (note_failure r2 s2) = call_events s1"
        by (simp_all add: event_view_def)
      with o have o2: "open_calls (call_key e ?tool) (note_failure r2 s2) = open_calls (call_key e ?tool) (s0\<lparr>ts_audit := []\<rparr>) @ [(i, t)]"
        by (simp add: open_calls_def)
      have "s' = s3" using x f r1 m a by (cases r3) (simp_all add: tool_execution_def)
      moreover have "call_events (s0\<lparr>ts_audit := []\<rparr>) = call_events s" using s0 by (simp add: call_events_def)
      ultimately show ?thesis using after_events [OF a assms(2,3) o2] n c1 unfolding Let_def by fastforce
    qed
  qed
qed


section \<open>The workspace is the world\<close>

definition outside_view :: "fs_path \<Rightarrow> tool_state \<Rightarrow> fs_path \<Rightarrow> string option" where
  "outside_view base s p = (if below base p then None else map_of (ts_files s) p)"

interpretation fv: free_view "outside_view base"
  by unfold_locales (simp_all add: outside_view_def fun_eq_iff)

text \<open>Two states alike but for what lies neither in the workspace nor on the way to it.\<close>

definition in_reach :: "fs_path \<Rightarrow> fs_path \<Rightarrow> bool" where
  "in_reach base p \<longleftrightarrow> below base p \<or> below p base"

definition alike :: "fs_path \<Rightarrow> tool_state \<Rightarrow> tool_state \<Rightarrow> bool" where
  "alike base s t \<longleftrightarrow> is_dir base s \<and> (\<exists>fs ds. t = s\<lparr>ts_files := fs, ts_dirs := ds\<rparr> \<and>
     filter (\<lambda>(p, _). in_reach base p) fs = filter (\<lambda>(p, _). in_reach base p) (ts_files s) \<and>
     filter (in_reach base) ds = filter (in_reach base) (ts_dirs s))"

definition confined :: "fs_path \<Rightarrow> 'a tool \<Rightarrow> bool" where
  "confined base m \<longleftrightarrow> (\<forall>s t. alike base s t \<longrightarrow> snd (m s) = snd (m t) \<and> alike base (fst (m s)) (fst (m t)))"

lemma confinedD: "confined base m \<Longrightarrow> alike base s t \<Longrightarrow> snd (m s) = snd (m t) \<and> alike base (fst (m s)) (fst (m t))"
  unfolding confined_def by blast

named_theorems confined_intros \<open>steps that see the workspace only\<close>

lemma confined_tthen [confined_intros]:
  assumes "confined base m" "\<And>x. confined base (k x)"
  shows "confined base (tthen m k)"
  unfolding confined_def
proof (intro allI impI)
  fix s t assume "alike base s t"
  from confinedD [OF assms(1) this] obtain s1 t1 r where m: "m s = (s1, r)" "m t = (t1, r)" "alike base s1 t1"
    by (metis prod.collapse)
  then show "snd (tthen m k s) = snd (tthen m k t) \<and> alike base (fst (tthen m k s)) (fst (tthen m k t))"
    using confinedD [OF assms(2) m(3)] by (cases r) (simp_all add: tthen_def)
qed

lemma confined_if [confined_intros]: "confined base m \<Longrightarrow> confined base n \<Longrightarrow> confined base (if b then m else n)"
  by simp

lemma confined_basic [confined_intros]: "confined base (tret x)" "confined base (traise x')"
  by (simp_all add: confined_def tret_def traise_def)

lemma confined_twhen [confined_intros]: "confined base m \<Longrightarrow> confined base (twhen b m)"
  by (simp add: twhen_def confined_basic)

lemma confined_option [confined_intros]: "confined base m \<Longrightarrow> (\<And>x. confined base (k x)) \<Longrightarrow>
    confined base (case o' of None \<Rightarrow> m | Some x \<Rightarrow> k x)"
  by (simp split: option.split)

lemma confined_prod [confined_intros]: "(\<And>x y. confined base (k x y)) \<Longrightarrow> confined base (case p of (x, y) \<Rightarrow> k x y)"
  by (simp split: prod.split)

lemma confined_treading: "(\<And>s t. alike base s t \<Longrightarrow> f s = f t) \<Longrightarrow> confined base (treading f)"
  by (simp add: confined_def treading_def)

lemma confined_tchange: "(\<And>s t. alike base s t \<Longrightarrow> alike base (f s) (f t)) \<Longrightarrow> confined base (tchange f)"
  by (simp add: confined_def tchange_def)

text \<open>What does not look at files changes other parts alike.\<close>

definition fileless :: "'a tool \<Rightarrow> bool" where
  "fileless m \<longleftrightarrow> (\<forall>s fs ds. m (s\<lparr>ts_files := fs, ts_dirs := ds\<rparr>) = (case m s of (s', r) \<Rightarrow> (s'\<lparr>ts_files := fs, ts_dirs := ds\<rparr>, r)) \<and>
     ts_files (fst (m s)) = ts_files s \<and> ts_dirs (fst (m s)) = ts_dirs s)"

lemma fileless_confined: "fileless m \<Longrightarrow> confined base m"
  unfolding confined_def
proof (intro allI impI)
  fix s t assume m: "fileless m" and "alike base s t"
  then obtain fs ds where t: "t = s\<lparr>ts_files := fs, ts_dirs := ds\<rparr>" "is_dir base s"
    "filter (\<lambda>(p, _). in_reach base p) fs = filter (\<lambda>(p, _). in_reach base p) (ts_files s)"
    "filter (in_reach base) ds = filter (in_reach base) (ts_dirs s)" by (auto simp: alike_def)
  obtain s' r where s': "m s = (s', r)" by force
  from m s' have "m t = (s'\<lparr>ts_files := fs, ts_dirs := ds\<rparr>, r)" "ts_files s' = ts_files s" "ts_dirs s' = ts_dirs s"
    unfolding fileless_def t by (metis case_prod_conv, metis fst_conv, metis fst_conv)
  with s' t show "snd (m s) = snd (m t) \<and> alike base (fst (m s)) (fst (m t))" by (auto simp: alike_def is_dir_def)
qed

lemma fileless_parts:
  "fileless (tlook f)" "fileless (note_audit k v)" "fileless (authorized e kind operation params reason)" "fileless (run_hook e ev tool arguments d)"
  "fileless (emit_event e event)" "fileless (register_tool_start e tool)" "fileless (pop_tool_start e tool)" "fileless (tchange use_call)"
  by (auto simp: fileless_def note_audit_def authorized_def run_hook_def emit_event_def register_tool_start_def pop_tool_start_def
      use_call_def tthen_def tlook_def tchange_def tret_def twhen_def Let_def open_calls_def split: prod.split list.split)

lemmas confined_parts [confined_intros] = fileless_parts [THEN fileless_confined]

lemma below_reach: "below base p \<Longrightarrow> in_reach base p"
  by (simp add: in_reach_def)

lemma below_trans: "below base q \<Longrightarrow> below q p \<Longrightarrow> below base p"
proof -
  assume b: "below base q" and q: "below q p"
  from b have len: "length base \<le> length q" unfolding below_def by (metis length_take min_def nat_le_linear)
  have "take (length base) p = take (length base) (take (length q) p)" using len by (simp add: min_def)
  with b q show ?thesis by (simp add: below_def)
qed

lemma below_append: "below base (base @ q)"
  by (simp add: below_def)

lemma below_butlast: "below base p \<Longrightarrow> p \<noteq> base \<Longrightarrow> below base (butlast p)"
proof -
  assume b: "below base p" and "p \<noteq> base"
  then have "length base < length p" unfolding below_def by (metis length_take linorder_not_less min.absorb2 nat_less_le take_all)
  then have "length base \<le> length p - 1" by simp
  with b show ?thesis unfolding below_def by (simp add: butlast_conv_take min_def)
qed

lemma parents_reach: "below base p \<Longrightarrow> q \<in> set (parents_of p) \<Longrightarrow> in_reach base q"
proof -
  assume b: "below base p" and "q \<in> set (parents_of p)"
  then obtain n where q: "q = take n p" by (auto simp: parents_of_def)
  show ?thesis
  proof (cases "length base \<le> n")
    case True
    then have "take (length base) q = take (length base) p" by (simp add: q min_def)
    with b show ?thesis by (simp add: in_reach_def below_def)
  next
    case False
    have base: "take (length base) p = base" using b by (simp add: below_def)
    have "take (length q) base = take (length q) (take (length base) p)" by (simp add: base)
    also have "\<dots> = q" using False by (simp add: q min_def)
    finally have "take (length q) base = q" .
    then show ?thesis by (simp add: in_reach_def below_def)
  qed
qed

lemma alike_filter:
  assumes "alike base s t" "\<And>p. Q p \<Longrightarrow> in_reach base p"
  shows "filter Q (map fst (ts_files s)) = filter Q (map fst (ts_files t))" "filter Q (ts_dirs s) = filter Q (ts_dirs t)"
proof -
  from assms(1) have f: "filter (\<lambda>(p, _). in_reach base p) (ts_files t) = filter (\<lambda>(p, _). in_reach base p) (ts_files s)"
    and d: "filter (in_reach base) (ts_dirs t) = filter (in_reach base) (ts_dirs s)" by (auto simp: alike_def)
  have keys: "filter Q (map fst fs) = filter Q (map fst (filter (\<lambda>(p, _). in_reach base p) fs))" for fs :: "(fs_path \<times> string) list"
    using assms(2) by (induction fs) auto
  show "filter Q (map fst (ts_files s)) = filter Q (map fst (ts_files t))"
    using keys [of "ts_files s"] keys [of "ts_files t"] f by simp
  have "filter Q ds = filter Q (filter (in_reach base) ds)" for ds using assms(2) by (induction ds) auto
  then show "filter Q (ts_dirs s) = filter Q (ts_dirs t)" using d by metis
qed

lemma member_filter: "p \<in> set xs \<longleftrightarrow> filter (\<lambda>q. q = p) xs \<noteq> []"
  by (simp add: filter_empty_conv)

lemma alike_is_file: "alike base s t \<Longrightarrow> in_reach base p \<Longrightarrow> is_file p s = is_file p t"
  unfolding is_file_def member_filter using alike_filter(1) [of base s t "\<lambda>q. q = p"] by simp

lemma alike_is_dir: "alike base s t \<Longrightarrow> in_reach base p \<Longrightarrow> is_dir p s = is_dir p t"
  unfolding is_dir_def member_filter using alike_filter(2) [of base s t "\<lambda>q. q = p"] by simp

lemma map_of_reach: "in_reach base p \<Longrightarrow> map_of (filter (\<lambda>(p, _). in_reach base p) fs) p = map_of fs p"
  by (induction fs) auto

lemma alike_lookup: "alike base s t \<Longrightarrow> in_reach base p \<Longrightarrow> map_of (ts_files s) p = map_of (ts_files t) p"
proof -
  assume a: "alike base s t" and p: "in_reach base p"
  then have "filter (\<lambda>(p, _). in_reach base p) (ts_files t) = filter (\<lambda>(p, _). in_reach base p) (ts_files s)" by (auto simp: alike_def)
  with map_of_reach [OF p, of "ts_files s"] map_of_reach [OF p, of "ts_files t"] show ?thesis by simp
qed

lemma alike_listing: "alike base s t \<Longrightarrow> below base p \<Longrightarrow> list_workspace_files p d s = list_workspace_files p d t"
  using alike_filter(1) [of base s t "\<lambda>q. below p q \<and> q \<noteq> p"] below_trans below_reach
  by (simp add: list_workspace_files_def)

lemma alike_children: "alike base s t \<Longrightarrow> below base p \<Longrightarrow> child_names p s = child_names p t"
  using alike_filter [of base s t "\<lambda>q. below p q \<and> length p < length q"] below_trans below_reach
  by (simp add: child_names_def)

lemma filter_update_reach: "in_reach base p \<Longrightarrow> filter (\<lambda>(q, _). in_reach base q) (AList.update p c fs) =
    AList.update p c (filter (\<lambda>(q, _). in_reach base q) fs)"
  by (induction fs) auto

lemma alike_update:
  assumes "alike base s t" "in_reach base p"
  shows "alike base (s\<lparr>ts_files := AList.update p c (ts_files s)\<rparr>) (t\<lparr>ts_files := AList.update p c (ts_files t)\<rparr>)"
proof -
  from assms(1) obtain fs ds where t: "t = s\<lparr>ts_files := fs, ts_dirs := ds\<rparr>" "is_dir base s"
    "filter (\<lambda>(p, _). in_reach base p) fs = filter (\<lambda>(p, _). in_reach base p) (ts_files s)"
    "filter (in_reach base) ds = filter (in_reach base) (ts_dirs s)" by (auto simp: alike_def)
  show ?thesis unfolding alike_def
    by (intro conjI exI [of _ "AList.update p c fs"] exI [of _ ds])
      (use t in \<open>simp_all add: is_dir_def filter_update_reach [OF assms(2)]\<close>)
qed

lemma alike_make_dirs:
  assumes "alike base s t" "\<And>p. p \<in> set ps \<Longrightarrow> in_reach base p"
  shows "alike base (make_dirs ps s) (make_dirs ps t)"
proof -
  from assms(1) obtain fs ds where t: "t = s\<lparr>ts_files := fs, ts_dirs := ds\<rparr>" "is_dir base s"
    "filter (\<lambda>(p, _). in_reach base p) fs = filter (\<lambda>(p, _). in_reach base p) (ts_files s)"
    "filter (in_reach base) ds = filter (in_reach base) (ts_dirs s)" by (auto simp: alike_def)
  have new: "filter (\<lambda>p. \<not> is_dir p s) ps = filter (\<lambda>p. \<not> is_dir p t) ps"
    using alike_is_dir [OF assms(1) assms(2)] by (intro filter_cong) auto
  show ?thesis unfolding alike_def make_dirs_def new [symmetric]
    by (intro conjI exI [of _ fs] exI [of _ "ds @ filter (\<lambda>p. \<not> is_dir p s) ps"]) (use t in \<open>simp_all add: is_dir_def\<close>)
qed

section \<open>What the tools see\<close>

lemma confined_state:
  assumes "\<And>s. is_dir base s \<Longrightarrow> confined base (k s)" "\<And>s t. alike base s t \<Longrightarrow> k s = k t"
  shows "confined base (tthen (treading id) k)"
  unfolding confined_def
proof (intro allI impI)
  fix s t assume a: "alike base s t"
  then have "is_dir base s" by (simp add: alike_def)
  from confinedD [OF assms(1) [OF this] a] assms(2) [OF a]
  show "snd (tthen (treading id) k s) = snd (tthen (treading id) k t) \<and> alike base (fst (tthen (treading id) k s)) (fst (tthen (treading id) k t))"
    by (simp add: tthen_def treading_def)
qed

lemma confined_refuse [confined_intros]: "confined base (refuse_cancelled e msg)"
  unfolding refuse_cancelled_def by (intro confined_intros)

lemma confined_write:
  assumes "below base p"
  shows "confined base (atomic_write e p c)"
  unfolding atomic_write_def
proof (intro confined_intros)
  show "confined base (treading (\<lambda>s. list_ex (\<lambda>q. is_file q s) (parents_of p)))"
    using alike_is_file parents_reach [OF assms] by (intro confined_treading list_ex_cong) blast+
  show "confined base (tchange (make_dirs (parents_of p)))"
    using alike_make_dirs parents_reach [OF assms] by (intro confined_tchange) blast
  show "confined base (treading (is_dir p))"
    using alike_is_dir below_reach [OF assms] by (intro confined_treading) blast
  show "confined base (tchange (\<lambda>s. s\<lparr>ts_files := AList.update p c (ts_files s)\<rparr>))"
    using alike_update below_reach [OF assms] by (intro confined_tchange) blast
qed

lemma confined_read: "below base p \<Longrightarrow> confined base (read_text e p)"
  using alike_lookup [OF _ below_reach] unfolding confined_def read_text_def
  by (auto split: option.splits)

lemma safe_path_below: "safe_workspace_path e requested = Inr p \<Longrightarrow> below (base_of e) p"
  by (auto simp: safe_workspace_path_def base_of_def Let_def split: sum.splits if_splits)

lemma confined_path:
  assumes "\<And>p. below (base_of e) p \<Longrightarrow> confined base (k p)"
  shows "confined base (with_path e requested k)"
proof (cases "safe_workspace_path e requested")
  case (Inl x)
  have "confined base (tthen (note_audit ''error'' (PyStr msg)) (\<lambda>_. tret answer))" for msg answer by (intro confined_intros)
  with Inl show ?thesis by (cases x) (simp_all add: with_path_def confined_basic)
next
  case (Inr p)
  with assms [OF safe_path_below [OF Inr]] show ?thesis by (simp add: with_path_def)
qed

lemma hints_alike:
  assumes "alike (base_of e) s t" "below (base_of e) p"
  shows "\<not> is_dir p s \<Longrightarrow> file_hints e p s = file_hints e p t" "dir_hints e p s = dir_hints e p t"
proof -
  note inputs = below_append [of "base_of e" "[''.inputs'']"]
  note same = alike_listing [OF assms(1)] alike_is_dir [OF assms(1) below_reach] alike_children [OF assms(1)]
  show "dir_hints e p s = dir_hints e p t"
    unfolding dir_hints_def Let_def using same inputs by (auto simp del: append_Cons append_Nil)
  assume "\<not> is_dir p s"
  with assms have "below (base_of e) (butlast p)" by (intro below_butlast) (auto simp: alike_def)
  then show "file_hints e p s = file_hints e p t"
    unfolding file_hints_def Let_def using same inputs by (simp del: append_Cons append_Nil)
qed

lemma confined_fields [confined_intros]:
  "confined base (treading ts_guard)" "confined base (treading (bg_durable \<circ> ts_guard))" "confined base (treading ts_audit)"
  by (rule confined_treading, auto simp: alike_def)+

lemma confined_emitted [confined_intros]: "confined base (tchange (\<lambda>s. s\<lparr>ts_guard := (ts_guard s)\<lparr>bg_emitted := True\<rparr>\<rparr>))"
  by (rule fileless_confined) (simp add: fileless_def tchange_def)

lemma confined_boundary: "confined base (tool_boundary e)"
  unfolding tool_boundary_def checkpoint_def task_checkpoint_def reprompt_checkpoint_def tool_safety_point_def
  by (intro confined_intros)

lemma confined_hooks: "confined base (before_tool e tool arguments)" "confined base (after_tool e tool arguments)"
  unfolding before_tool_def after_tool_def by (intro confined_intros)+

lemma confined_bodies:
  assumes "\<forall>argv. c \<noteq> Call_execute argv"
  shows "confined (base_of e) (call_body e c)"
proof -
  have "confined (base_of e) (read_file_body e p)" for p unfolding read_file_body_def
  proof (intro confined_path confined_state)
    fix p s assume p: "below (base_of e) p"
    show "confined (base_of e) (if is_dir p s then tthen (note_audit ''error'' x) (\<lambda>_. tret (directory_answer f (list_workspace_files p 2 s)))
        else if \<not> is_file p s then tthen (note_audit ''error'' y) (\<lambda>_. tret (with_hints a b (file_hints e p s)))
        else tthen (read_text e p) (\<lambda>content. tthen (note_audit ''size'' (PyInt (int (code_points content)))) (\<lambda>_. tret content)))"
      for x f y a b by (intro confined_intros confined_read p)
  next
    fix p s t assume p: "below (base_of e) p" and a: "alike (base_of e) s t"
    show "(if is_dir p s then tthen (note_audit ''error'' x) (\<lambda>_. tret (directory_answer f (list_workspace_files p 2 s)))
        else if \<not> is_file p s then tthen (note_audit ''error'' y) (\<lambda>_. tret (with_hints u v (file_hints e p s))) else m) =
        (if is_dir p t then tthen (note_audit ''error'' x) (\<lambda>_. tret (directory_answer f (list_workspace_files p 2 t)))
        else if \<not> is_file p t then tthen (note_audit ''error'' y) (\<lambda>_. tret (with_hints u v (file_hints e p t))) else m)"
      for x f y u v m
      using alike_is_dir [OF a below_reach [OF p]] alike_is_file [OF a below_reach [OF p]] alike_listing [OF a p] hints_alike(1) [OF a p] by simp
  qed
  moreover have "confined (base_of e) (list_dir_body e p)" for p unfolding list_dir_body_def
  proof (intro confined_path confined_state)
    fix p s assume "below (base_of e) p"
    show "confined (base_of e) (if \<not> is_dir p s then tthen (note_audit ''error'' x) (\<lambda>_. tret (with_hints a b (dir_hints e p s)))
        else tthen (note_audit ''count'' (PyInt (int (length (child_names p s))))) (\<lambda>_. tret (te_dumps e (PyList (map PyStr (te_order e (child_names p s)))))))"
      for x a b by (intro confined_intros)
  next
    fix p s t assume p: "below (base_of e) p" and a: "alike (base_of e) s t"
    show "(if \<not> is_dir p s then tthen (note_audit ''error'' x) (\<lambda>_. tret (with_hints u v (dir_hints e p s)))
        else tthen (note_audit ''count'' (PyInt (int (length (child_names p s))))) (\<lambda>_. tret (te_dumps e (PyList (map PyStr (te_order e (child_names p s))))))) =
      (if \<not> is_dir p t then tthen (note_audit ''error'' x) (\<lambda>_. tret (with_hints u v (dir_hints e p t)))
        else tthen (note_audit ''count'' (PyInt (int (length (child_names p t))))) (\<lambda>_. tret (te_dumps e (PyList (map PyStr (te_order e (child_names p t)))))))"
      for x u v
      using alike_is_dir [OF a below_reach [OF p]] alike_children [OF a p] hints_alike(2) [OF a p] by simp
  qed
  moreover have "confined (base_of e) (create_file_body e f x)" for f x
    unfolding create_file_body_def write_allowed_def by (intro confined_path confined_intros confined_write)
  moreover have "confined (base_of e) (edit_file_body e f x y)" for f x y
    unfolding edit_file_body_def write_allowed_def
    by (intro confined_path confined_intros confined_write confined_read confined_treading alike_is_file below_reach)
  ultimately show ?thesis using assms by (cases c) auto
qed

lemma alike_audit: "alike base s t \<Longrightarrow> alike base (s\<lparr>ts_audit := []\<rparr>) (t\<lparr>ts_audit := []\<rparr>)"
  using confinedD [OF fileless_confined, of "tchange (\<lambda>s. s\<lparr>ts_audit := []\<rparr>)" base s t] by (simp add: fileless_def tchange_def)

lemma alike_failure: "alike base s t \<Longrightarrow> alike base (note_failure r s) (note_failure r t)"
  using confinedD [OF fileless_confined, of "tchange (note_failure r)" base s t]
  by (auto simp: fileless_def tchange_def note_failure_def split: sum.splits)

lemma confined_execution:
  assumes "confined base body"
  shows "confined base (tool_execution e tool arguments body)"
  unfolding confined_def
proof (intro allI impI)
  fix s t assume "alike base s t"
  then have "alike base (s\<lparr>ts_audit := []\<rparr>) (t\<lparr>ts_audit := []\<rparr>)" by (rule alike_audit)
  from confinedD [OF confined_hooks(1) this, of e tool arguments] obtain s1 t1 r1 where
    f: "before_tool e tool arguments (s\<lparr>ts_audit := []\<rparr>) = (s1, r1)" "before_tool e tool arguments (t\<lparr>ts_audit := []\<rparr>) = (t1, r1)" "alike base s1 t1"
    by (metis prod.collapse)
  from confinedD [OF assms f(3)] obtain s2 t2 r2 where m: "body s1 = (s2, r2)" "body t1 = (t2, r2)" "alike base s2 t2"
    by (metis prod.collapse)
  from m(3) have "alike base (note_failure r2 s2) (note_failure r2 t2)" by (rule alike_failure)
  from confinedD [OF confined_hooks(2) this, of e tool arguments] obtain s3 t3 r3 where
    a: "after_tool e tool arguments (note_failure r2 s2) = (s3, r3)" "after_tool e tool arguments (note_failure r2 t2) = (t3, r3)" "alike base s3 t3"
    by (metis prod.collapse)
  show "snd (tool_execution e tool arguments body s) = snd (tool_execution e tool arguments body t) \<and>
      alike base (fst (tool_execution e tool arguments body s)) (fst (tool_execution e tool arguments body t))"
    using f m a by (cases r1; cases r3) (simp_all add: tool_execution_def)
qed

text \<open>C33: The file tools see and change nothing outside the workspace: in two file systems alike within the workspace and on the
  way to it, whatever path is asked for, a call gives the same answer and leaves the same workspace, and every file outside
  is as before.\<close>

theorem file_tools_are_confined:
  assumes "alike (base_of e) s t" "\<forall>argv. c \<noteq> Call_execute argv"
  shows "snd (run_call e c s) = snd (run_call e c t) \<and> alike (base_of e) (fst (run_call e c s)) (fst (run_call e c t)) \<and>
    outside_view (base_of e) (fst (run_call e c s)) = outside_view (base_of e) s"
proof -
  have "confined (base_of e) (run_call e c)"
    unfolding run_call_def using assms(2) by (intro confined_intros confined_boundary confined_execution confined_bodies)
  moreover have "leaves_view (outside_view (base_of e)) (run_call e c)"
    using assms(2) by (intro fv.call fv.file_bodies) (auto simp: outside_view_def fun_eq_iff)
  ultimately show ?thesis using confinedD [OF _ assms(1)] by (auto simp: leaves_view_def)
qed

end
