(* ===== verification/Tools_Budget.thy ===== *)
theory Tools_Budget
  imports Tools_Ends
begin

text \<open>
  The budget of tool calls over the attempts of a task, and concrete runs of the governed tools.
\<close>

section \<open>Counting\<close>

definition budget_view :: "tool_state \<Rightarrow> budget_guard \<times> tool_event list" where
  "budget_view s = (ts_guard s, filter budget_event (ts_log s))"

interpretation bi: idle_view budget_view
  by unfold_locales (simp_all add: budget_view_def)

interpretation bt: tool_view budget_view
  by unfold_locales (simp_all add: budget_view_def)

fun started_by :: "string \<Rightarrow> string \<Rightarrow> tool_event \<Rightarrow> bool" where
  "started_by run task (Tool_call_started r a t i tool arguments) = (r = run \<and> t = task)"
| "started_by run task _ = False"

definition consumed :: "string \<Rightarrow> string \<Rightarrow> tool_state \<Rightarrow> nat" where
  "consumed run task s = length (filter (consumed_by run task) (ts_log s))"

definition started :: "string \<Rightarrow> string \<Rightarrow> tool_state \<Rightarrow> nat" where
  "started run task s = length (filter (started_by run task) (ts_log s))"

lemma consumed_view: "consumed run task s = length (filter (consumed_by run task) (snd (budget_view s)))"
proof -
  have "filter (consumed_by run task) (filter budget_event l) = filter (consumed_by run task) l" for l
    by (induction l) (auto elim: consumed_by.elims)
  then show ?thesis by (simp add: consumed_def budget_view_def)
qed

lemma started_view: "started run task s = length (filter (started_by run task) (call_events s))"
proof -
  have "filter (started_by run task) (filter (\<lambda>ev. \<not> budget_event ev) l) = filter (started_by run task) l" for l
    by (induction l) (auto elim: started_by.elims)
  then show ?thesis by (simp add: started_def call_events_def)
qed

definition in_budget :: "tool_env \<Rightarrow> int \<Rightarrow> tool_state \<Rightarrow> bool" where
  "in_budget e n s \<longleftrightarrow> bg_durable (ts_guard s) \<and> bg_limit (ts_guard s) = n \<and>
     bg_used (ts_guard s) = int (consumed (te_run_id e) (te_task_id e) s)"

lemma boundary_budget:
  assumes "tool_boundary e s = (s', r)" "recording e" "in_budget e n s"
  shows "in_budget e n s' \<and> consumed (te_run_id e) (te_task_id e) s \<le> consumed (te_run_id e) (te_task_id e) s' \<and>
    (r = Inr () \<longrightarrow> consumed (te_run_id e) (te_task_id e) s' = Suc (consumed (te_run_id e) (te_task_id e) s)) \<and>
    (consumed (te_run_id e) (te_task_id e) s' = consumed (te_run_id e) (te_task_id e) s \<or>
     int (consumed (te_run_id e) (te_task_id e) s') \<le> n)"
  using assms
  by (auto simp: tool_boundary_def checkpoint_def task_checkpoint_def tool_safety_point_def refuse_cancelled_def use_call_def
      tthen_def tlook_def treading_def tchange_def tret_def traise_def twhen_def recorded_event in_budget_def consumed_def is_exceeded_def
      split: option.splits if_splits)

lemma call_budget:
  assumes "run_call e c s = (s', r)" "recording e" "in_budget e n s" "te_run_id e \<noteq> []"
  shows "in_budget e n s'" "consumed (te_run_id e) (te_task_id e) s \<le> consumed (te_run_id e) (te_task_id e) s'"
    "consumed (te_run_id e) (te_task_id e) s' = consumed (te_run_id e) (te_task_id e) s \<or>
      int (consumed (te_run_id e) (te_task_id e) s') \<le> n"
    "started (te_run_id e) (te_task_id e) s + consumed (te_run_id e) (te_task_id e) s' \<ge>
      started (te_run_id e) (te_task_id e) s' + consumed (te_run_id e) (te_task_id e) s"
proof -
  let ?c = "consumed (te_run_id e) (te_task_id e)" and ?st = "started (te_run_id e) (te_task_id e)"
  obtain s0 r0 where b: "tool_boundary e s = (s0, r0)" by force
  note bb = boundary_budget [OF b assms(2,3)]
  have st0: "?st s0 = ?st s" using leaves_viewD [OF boundary_events b] by (simp add: started_view)
  have "in_budget e n s' \<and> ?c s' = ?c s0 \<and> ?st s' \<le> ?st s + (if r0 = Inr () then 1 else 0)"
  proof (cases r0)
    case (Inl x)
    with assms(1) b bb st0 show ?thesis by (simp add: run_call_def tthen_run)
  next
    case (Inr u)
    with assms(1) b have x: "tool_execution e (call_name c) (call_arguments c) (call_body e c) s0 = (s', r)"
      by (simp add: run_call_def tthen_run)
    from leaves_viewD [OF bt.execution [OF bi.bodies] x] have same: "budget_view s' = budget_view s0" .
    then have "?c s' = ?c s0" by (simp add: consumed_view)
    moreover from same bb have "in_budget e n s'" by (simp add: in_budget_def consumed_view) (simp add: budget_view_def)
    moreover have "?st s' \<le> ?st s + 1"
      using call_events_cases [OF assms(1,4,2)] unfolding started_view Let_def by auto
    ultimately show ?thesis using Inr by simp
  qed
  with bb show "in_budget e n s'" "?c s \<le> ?c s'" "?c s' = ?c s \<or> int (?c s') \<le> n" "?st s + ?c s' \<ge> ?st s' + ?c s"
    by (auto split: if_splits)
qed

lemma calls_budget:
  assumes "recording e" "in_budget e n s" "te_run_id e \<noteq> []" "int (consumed (te_run_id e) (te_task_id e) s) \<le> m" "n \<le> m"
    "started (te_run_id e) (te_task_id e) s \<le> consumed (te_run_id e) (te_task_id e) s + extra"
  shows "int (consumed (te_run_id e) (te_task_id e) (fst (run_calls e cs s))) \<le> m \<and>
    started (te_run_id e) (te_task_id e) (fst (run_calls e cs s)) \<le> consumed (te_run_id e) (te_task_id e) (fst (run_calls e cs s)) + extra"
  using assms(2,4,6)
proof (induction cs arbitrary: s)
  case (Cons c cs)
  obtain s1 r where c: "run_call e c s = (s1, r)" by force
  note cb = call_budget [OF c assms(1) Cons.prems(1) assms(3)]
  have "int (consumed (te_run_id e) (te_task_id e) s1) \<le> m" using cb(3) Cons.prems(2) assms(5) by auto
  moreover have "started (te_run_id e) (te_task_id e) s1 \<le> consumed (te_run_id e) (te_task_id e) s1 + extra"
    using cb(4) Cons.prems(3) by simp
  ultimately show ?case using Cons.IH [OF cb(1)] c by (auto split: prod.split)
qed simp

text \<open>The guard of a re-prompt counts for itself.\<close>

definition reprompting :: "tool_state \<Rightarrow> bool" where
  "reprompting s \<longleftrightarrow> \<not> bg_durable (ts_guard s) \<and> bg_used (ts_guard s) \<le> bg_limit (ts_guard s)"

lemma boundary_reprompt:
  assumes "tool_boundary e s = (s', r)" "reprompting s"
  shows "reprompting s' \<and> bg_limit (ts_guard s') = bg_limit (ts_guard s) \<and> ts_log s' = ts_log s \<and>
    bg_used (ts_guard s) \<le> bg_used (ts_guard s') \<and> (r = Inr () \<longrightarrow> bg_used (ts_guard s') = bg_used (ts_guard s) + 1)"
  using assms
  by (auto simp: tool_boundary_def checkpoint_def reprompt_checkpoint_def refuse_cancelled_def use_call_def reprompting_def
      tthen_def tlook_def treading_def tchange_def tret_def traise_def is_exceeded_def split: if_splits)

lemma call_reprompt:
  assumes "run_call e c s = (s', r)" "recording e" "reprompting s" "te_run_id e \<noteq> []"
  shows "reprompting s'" "bg_limit (ts_guard s') = bg_limit (ts_guard s)"
    "consumed (te_run_id e) (te_task_id e) s' = consumed (te_run_id e) (te_task_id e) s"
    "int (started (te_run_id e) (te_task_id e) s') - bg_used (ts_guard s') \<le> int (started (te_run_id e) (te_task_id e) s) - bg_used (ts_guard s)"
proof -
  let ?c = "consumed (te_run_id e) (te_task_id e)" and ?st = "started (te_run_id e) (te_task_id e)"
  obtain s0 r0 where b: "tool_boundary e s = (s0, r0)" by force
  note bb = boundary_reprompt [OF b assms(3)]
  have same: "?c s0 = ?c s" "?st s0 = ?st s" using bb by (simp_all add: consumed_def started_def)
  have "reprompting s' \<and> bg_limit (ts_guard s') = bg_limit (ts_guard s) \<and> ?c s' = ?c s \<and>
    int (?st s') - bg_used (ts_guard s') \<le> int (?st s) - bg_used (ts_guard s)"
  proof (cases r0)
    case (Inl x)
    with assms(1) b bb same show ?thesis by (simp add: run_call_def tthen_run)
  next
    case (Inr u)
    with assms(1) b have x: "tool_execution e (call_name c) (call_arguments c) (call_body e c) s0 = (s', r)"
      by (simp add: run_call_def tthen_run)
    from leaves_viewD [OF bt.execution [OF bi.bodies] x] have view: "budget_view s' = budget_view s0" .
    then have "?c s' = ?c s0" "ts_guard s' = ts_guard s0" by (simp add: consumed_view) (use view in \<open>simp add: budget_view_def\<close>)
    moreover have "?st s' \<le> ?st s + 1"
      using call_events_cases [OF assms(1,4,2)] unfolding started_view Let_def by auto
    ultimately show ?thesis using bb same Inr by (simp add: reprompting_def)
  qed
  then show "reprompting s'" "bg_limit (ts_guard s') = bg_limit (ts_guard s)" "?c s' = ?c s"
    "int (?st s') - bg_used (ts_guard s') \<le> int (?st s) - bg_used (ts_guard s)" by blast+
qed

lemma calls_reprompt:
  assumes "recording e" "te_run_id e \<noteq> []" "reprompting s"
  shows "reprompting (fst (run_calls e cs s)) \<and> bg_limit (ts_guard (fst (run_calls e cs s))) = bg_limit (ts_guard s) \<and>
    consumed (te_run_id e) (te_task_id e) (fst (run_calls e cs s)) = consumed (te_run_id e) (te_task_id e) s \<and>
    int (started (te_run_id e) (te_task_id e) (fst (run_calls e cs s))) - bg_used (ts_guard (fst (run_calls e cs s)))
      \<le> int (started (te_run_id e) (te_task_id e) s) - bg_used (ts_guard s)"
  using assms(3)
proof (induction cs arbitrary: s)
  case (Cons c cs)
  obtain s1 r where c: "run_call e c s = (s1, r)" by force
  note cr = call_reprompt [OF c assms(1) Cons.prems assms(2)]
  from Cons.IH [OF cr(1)] cr c show ?case by (auto split: prod.split)
qed simp

section \<open>Attempts\<close>

text \<open>Each attempt builds a guard from the durable log; the attempts may have different workers.\<close>

fun attempts :: "int \<Rightarrow> (tool_env \<times> tool_call list) list \<Rightarrow> tool_state \<Rightarrow> tool_state" where
  "attempts n [] s = s"
| "attempts n ((e, cs) # as) s = attempts n as (fst (run_calls e cs (s\<lparr>ts_guard := task_guard e n s\<rparr>)))"

lemma attempts_bounded:
  assumes "\<forall>(e, cs) \<in> set as. te_run_id e = run \<and> te_task_id e = task \<and> recording e" "run \<noteq> []"
    "int (consumed run task s) \<le> max 1 n" "started run task s \<le> consumed run task s"
  shows "int (consumed run task (attempts n as s)) \<le> max 1 n \<and> started run task (attempts n as s) \<le> consumed run task (attempts n as s)"
  using assms(1,3,4)
proof (induction as arbitrary: s)
  case (Cons a as)
  obtain e cs where a: "a = (e, cs)" by force
  with Cons.prems(1) have e: "te_run_id e = run" "te_task_id e = task" "recording e" by auto
  let ?s = "s\<lparr>ts_guard := task_guard e n s\<rparr>"
  have same: "consumed run task ?s = consumed run task s" "started run task ?s = started run task s"
    by (simp_all add: consumed_def started_def)
  have "in_budget e (max 1 n) ?s" by (simp add: in_budget_def task_guard_def restore_used_def consumed_def)
  from calls_budget [OF e(3) this, of "max 1 n" 0 cs] e(1,2) same Cons.prems(2,3) assms(2)
  have "int (consumed run task (fst (run_calls e cs ?s))) \<le> max 1 n \<and>
    started run task (fst (run_calls e cs ?s)) \<le> consumed run task (fst (run_calls e cs ?s))" by simp
  with Cons.IH [of "fst (run_calls e cs ?s)"] Cons.prems(1) a show ?case by simp
qed simp

text \<open>Restarts do not refill the durable budget: however many attempts of a task, by whatever workers, call tools under it,
  no more calls of the task are started than one attempt may make, as long as the events of the budget are recorded.\<close>

theorem budget_survives_restarts:
  assumes "\<forall>(e, cs) \<in> set as. te_run_id e = run \<and> te_task_id e = task \<and> recording e" "run \<noteq> []"
    "consumed run task s = 0" "started run task s = 0"
  shows "int (started run task (attempts n as s)) \<le> max 1 n"
  using attempts_bounded [OF assms(1,2), of s n] assms(3,4) by (auto simp: max_def split: if_splits)

section \<open>Runs\<close>

definition demo_resolve :: "string \<Rightarrow> path_failure + fs_path" where
  "demo_resolve p =
     (if ''..'' \<in> set (split_on (CHR ''/'') p) then Inr [''etc''] else Inr (filter (\<lambda>w. w \<noteq> [] \<and> w \<noteq> ''.'') (split_on (CHR ''/'') p)))"

definition demo_tool_env :: "string \<Rightarrow> tool_env" where
  "demo_tool_env agent = \<lparr>te_run_id = ''r'', te_agent_id = agent, te_task_id = ''t'', te_workspace = ''/w'', te_has_broker = True,
     te_engine = [], te_resolve = demo_resolve, te_order = id, te_bad_text = (\<lambda>_. None), te_bad_target = path_text,
     te_write_error = (\<lambda>_. None),
     te_process = (\<lambda>_ argv fs. (Inr \<lparr>sr_returncode = 0, sr_stdout = [], sr_stderr = [], sr_timed_out = False, sr_cancelled = False,
       sr_phase = None\<rparr>, fs)),
     te_cancelled = (\<lambda>_. False), te_safety = (\<lambda>_. None), te_recorded = (\<lambda>_. True), te_now = (\<lambda>_. 0), te_fresh = str_nat,
     te_digest = (\<lambda>d. case map snd d of [PyStr r, PyStr a, PyStr t, PyStr tool, PyDict [(_, PyList argv)]] \<Rightarrow>
       a @ concat (map (\<lambda>v. case v of PyStr s \<Rightarrow> s | _ \<Rightarrow> []) argv) | _ \<Rightarrow> []),
     te_fingerprint = (\<lambda>k operation d. operation), te_request_hook = (\<lambda>_. None), te_dumps = (\<lambda>_. ''{}'')\<rparr>"

definition demo_tools :: tool_state where
  "demo_tools = \<lparr>ts_files = [([''w'', ''a''], ''x'')], ts_dirs = [[], [''w'']], ts_journal = [],
     ts_broker = \<lparr>br_policy = default_policy, br_requests = [], br_audit = []\<rparr>, ts_guard = reprompt_guard 9, ts_log = [], ts_open = [],
     ts_hook_log = [], ts_audit = [], ts_started = [], ts_tick = 0\<rparr>"

lemma demo_recording: "recording (demo_tool_env a)"
  by (simp add: recording_def demo_tool_env_def)

lemma demo_env_fields: "te_run_id (demo_tool_env a) = ''r''" "te_task_id (demo_tool_env a) = ''t''" "te_agent_id (demo_tool_env a) = a"
  by (simp_all add: demo_tool_env_def)

definition demo_calls :: "tool_call list" where
  "demo_calls = [Call_read_file ''a'', Call_create_file ''/b'' ''y'', Call_read_file ''../secret'']"

theorem budget_survives_restarts_witness:
  "started ''r'' ''t'' (attempts 2 [(demo_tool_env ''m1'', demo_calls), (demo_tool_env ''m2'', demo_calls)] demo_tools) = 2 \<and>
   int (started ''r'' ''t'' (attempts 2 [(demo_tool_env ''m1'', demo_calls), (demo_tool_env ''m2'', demo_calls)] demo_tools)) \<le> max 1 2"
proof
  show "started ''r'' ''t'' (attempts 2 [(demo_tool_env ''m1'', demo_calls), (demo_tool_env ''m2'', demo_calls)] demo_tools) = 2"
    by code_simp
  show "int (started ''r'' ''t'' (attempts 2 [(demo_tool_env ''m1'', demo_calls), (demo_tool_env ''m2'', demo_calls)] demo_tools)) \<le> max 1 2"
    by (rule budget_survives_restarts)
      (simp_all add: demo_recording demo_env_fields consumed_def started_def demo_tools_def)
qed

text \<open>The second run of a test command is the stored answer of the first, whatever was changed between them.\<close>

definition demo_tested :: tool_state where
  "demo_tested = fst (run_calls (demo_tool_env ''m1'')
     [Call_execute [''pytest''], Call_edit_file ''a'' ''x'' ''z'', Call_execute [''pytest'']] demo_tools)"

lemma call_history: "tool_step\<^sup>*\<^sup>* s (fst (run_calls e cs s))"
proof (induction cs arbitrary: s)
  case (Cons c cs)
  have "tool_step s (fst (run_call e c s))" by (rule call_step)
  from converse_rtranclp_into_rtranclp [OF this Cons.IH] show ?case by (cases "run_call e c s") (auto split: prod.split)
qed simp


definition demo_pip :: "string list" where
  "demo_pip = [''pip'', ''install'', ''x'']"

definition demo_asked :: "tool_state \<times> (tool_exn + string)" where
  "demo_asked = run_call (demo_tool_env ''m1'') (Call_execute demo_pip) demo_tools"

definition demo_request :: permission_request where
  "demo_request = (case snd demo_asked of Inl (Tool_permission q) \<Rightarrow> q | _ \<Rightarrow> undefined)"

text \<open>The user approves the request for the run, and the worker calls again.\<close>

definition demo_approved :: tool_state where
  "demo_approved = (fst demo_asked)\<lparr>ts_broker := fst (decide_request 1 (pr_request_id demo_request) APPROVE_FOR_RUN ''user'' [] (ts_broker (fst demo_asked)))\<rparr>"

theorem asked_command_never_runs_witness:
  "map_of (ts_audit (fst (run_call (demo_tool_env ''m1'') (Call_execute demo_pip) demo_approved))) ''status'' = Some (PyStr ''failed'') \<and>
   map (pr_status \<circ> snd) (br_requests (ts_broker demo_approved)) = [Request_approved] \<and>
   execute_key (demo_tool_env ''m1'') demo_pip \<notin> fst ` set (ts_started (fst (run_call (demo_tool_env ''m1'') (Call_execute demo_pip) demo_approved)))"
proof (intro conjI)
  show "map_of (ts_audit (fst (run_call (demo_tool_env ''m1'') (Call_execute demo_pip) demo_approved))) ''status'' = Some (PyStr ''failed'')"
    by code_simp
  show "map (pr_status \<circ> snd) (br_requests (ts_broker demo_approved)) = [Request_approved]" by code_simp
  have "snd demo_asked = Inl (Tool_permission demo_request)" by code_simp
  then have ask: "run_call (demo_tool_env ''m1'') (Call_execute demo_pip) demo_tools = (fst demo_asked, Inl (Tool_permission demo_request))"
    unfolding demo_asked_def by (metis prod.collapse)
  have "tool_step (fst demo_asked) demo_approved" by (rule other_step) (simp_all add: demo_approved_def)
  then have steps: "tool_step\<^sup>*\<^sup>* (fst demo_asked) (fst (run_call (demo_tool_env ''m1'') (Call_execute demo_pip) demo_approved))"
    using call_step by (metis rtranclp.rtrancl_refl rtranclp.rtrancl_into_rtrancl)
  have ok: "started_ok demo_tools" by (simp add: started_ok_def demo_tools_def journal_ok_def)
  show "execute_key (demo_tool_env ''m1'') demo_pip \<notin> fst ` set (ts_started (fst (run_call (demo_tool_env ''m1'') (Call_execute demo_pip) demo_approved)))"
    by (rule asked_command_never_runs [OF ask steps ok])
qed


definition demo_elsewhere :: tool_state where
  "demo_elsewhere = demo_tools\<lparr>ts_files := ts_files demo_tools @ [([''etc'', ''k''], ''secret'')], ts_dirs := ts_dirs demo_tools @ [[''etc'']]\<rparr>"

theorem file_tools_are_confined_witness:
  "alike [''w''] demo_tools demo_elsewhere \<and>
   snd (run_call (demo_tool_env ''m1'') (Call_read_file ''/etc/k'') demo_tools) = snd (run_call (demo_tool_env ''m1'') (Call_read_file ''/etc/k'') demo_elsewhere)"
proof
  show a: "alike [''w''] demo_tools demo_elsewhere"
    unfolding alike_def demo_elsewhere_def
    by (intro conjI exI [of _ "ts_files demo_tools @ [([''etc'', ''k''], ''secret'')]"] exI [of _ "ts_dirs demo_tools @ [[''etc'']]"])
      (simp_all add: demo_tools_def is_dir_def in_reach_def below_def)
  have base: "base_of (demo_tool_env ''m1'') = [''w'']" by code_simp
  show "snd (run_call (demo_tool_env ''m1'') (Call_read_file ''/etc/k'') demo_tools) = snd (run_call (demo_tool_env ''m1'') (Call_read_file ''/etc/k'') demo_elsewhere)"
    using file_tools_are_confined [of "demo_tool_env ''m1''" demo_tools demo_elsewhere "Call_read_file ''/etc/k''"] a unfolding base by simp
qed

end
