(* ===== verification/Executor_Props.thy ===== *)
theory Executor_Props
  imports Executor Artifact_Store_Props Tools_Budget
begin

text \<open>
  What an execution leaves: evidence for every file it found in the workspace, and a bound on the calls of tools it starts.
\<close>

section \<open>Steps\<close>

lemma ethen_run: "m s = (s1, Inr v) \<Longrightarrow> ethen m k s = k v s1" "m s = (s1, Inl x) \<Longrightarrow> ethen m k s = (s1, Inl x)"
  by (simp_all add: ethen_def)

lemma ethen_Inr: "ethen m k s = (s', Inr v) \<longleftrightarrow> (\<exists>s1 u. m s = (s1, Inr u) \<and> k u s1 = (s', Inr v))"
  by (auto simp: ethen_def split: prod.splits sum.splits)

lemma elook_run: "elook f s = (s\<lparr>es_tools := (es_tools s)\<lparr>ts_tick := Suc (ts_tick (es_tools s))\<rparr>\<rparr>, Inr (f (ts_tick (es_tools s))))"
  by (simp add: elook_def on_tools_def tlook_def)

lemma exit_when_Inr: "exit_when_cancelled e x s = (s', Inr u) \<Longrightarrow>
    s' = s\<lparr>es_tools := (es_tools s)\<lparr>ts_tick := Suc (ts_tick (es_tools s))\<rparr>\<rparr>"
  by (auto simp: exit_when_cancelled_def cancelled_now_def ethen_Inr elook_run eret_def eexit_def split: if_splits)

lemma update_same: "map_of xs k = Some v \<Longrightarrow> AList.update k v xs = xs"
  by (induction xs) auto

section \<open>Publication\<close>

text \<open>A path as the file system lists it.\<close>

definition proper_path :: "fs_path \<Rightarrow> bool" where
  "proper_path q \<longleftrightarrow> q \<noteq> [] \<and> (\<forall>c \<in> set q. c \<noteq> [] \<and> c \<noteq> ''.'' \<and> c \<noteq> ''..'' \<and> CHR ''/'' \<notin> set c)"

text \<open>The store is rooted at the run and resolves the paths of evidence below it; generated ids are new.\<close>

definition publishing :: "exec_env \<Rightarrow> task_assignment \<Rightarrow> exec_state \<Rightarrow> bool" where
  "publishing e a s \<longleftrightarrow> (\<exists>st. es_store s = Some st \<and> as_root st = Some (xe_root e) \<and> wf_store st \<and>
     (\<forall>k \<ge> ts_tick (es_tools s). map_of (as_registry st) (''art_'' @ te_fresh (xe_tools e) k) = None)) \<and>
     inj (te_fresh (xe_tools e)) \<and> (\<forall>k. ''art_'' @ te_fresh (xe_tools e) k \<notin> set (ta_repair_sources a)) \<and>
     (\<forall>q. proper_path q \<longrightarrow> xe_store_path e (rel_text q) = xe_root e @ q)"

text \<open>An artifact of the store that vouches for a file as it is.\<close>

definition vouches :: "exec_env \<Rightarrow> task_assignment \<Rightarrow> agent_profile \<Rightarrow> exec_state \<Rightarrow> string \<Rightarrow> fs_path \<Rightarrow> bool" where
  "vouches e a p s i f \<longleftrightarrow> (\<exists>st x c. es_store s = Some st \<and> map_of (as_registry st) i = Some x \<and> at_id x = i \<and>
     at_status x = Art_PUBLISHED \<and> at_run_id x = te_run_id (xe_tools e) \<and> at_task_id x = ta_task_id a \<and> at_produced_by x = pf_name p \<and>
     at_path x = rel_text (relative_parts e a f) \<and> map_of (ts_files (es_tools s)) f = Some c \<and>
     at_content_hash x = compute_content_hash (xe_sha e) c)"

definition in_workspace :: "exec_env \<Rightarrow> task_assignment \<Rightarrow> fs_path \<Rightarrow> bool" where
  "in_workspace e a f \<longleftrightarrow> \<not> ta_worktree a \<and> below (task_workspace e a) f \<and> proper_path f"

lemma workspace_path:
  assumes "in_workspace e a f"
  shows "xe_root e @ relative_parts e a f = f" "proper_path (relative_parts e a f)"
proof -
  have nw: "\<not> ta_worktree a" "below (task_workspace e a) f" "proper_path f" using assms by (simp_all add: in_workspace_def)
  then have t: "take (length (xe_root e @ [''tasks'', ta_task_id a])) f = xe_root e @ [''tasks'', ta_task_id a]"
    by (simp add: below_def task_workspace_def)
  from arg_cong [OF t, of "take (length (xe_root e))"] have "take (length (xe_root e)) f = xe_root e" by simp
  then have "f = xe_root e @ drop (length (xe_root e)) f" by (metis append_take_drop_id)
  with nw show "xe_root e @ relative_parts e a f = f" by (simp add: relative_parts_def)
  from arg_cong [OF t, of length] have "length (xe_root e) < length f" by (simp split: if_splits)
  then show "proper_path (relative_parts e a f)" using nw(1,3) by (auto simp: relative_parts_def proper_path_def dest: in_set_dropD)
qed

lemma parent_in_sources: "parent_choice a st f = Some i \<Longrightarrow> i \<in> set (ta_repair_sources a)"
  by (auto simp: parent_choice_def Let_def filter_eq_Cons_iff split: list.splits)

text \<open>Creating the evidence of a file of the workspace changes no file and no other artifact but a source of the repair.\<close>

lemma create_evidence_ok:
  assumes "create_evidence e a p f s = (s', Inr x)" "publishing e a s" "in_workspace e a f"
  shows "publishing e a s'" "ts_files (es_tools s') = ts_files (es_tools s)" "vouches e a p s' (at_id x) f"
    "ts_tick (es_tools s) < ts_tick (es_tools s')"
    "\<And>i g. vouches e a p s i g \<Longrightarrow> i \<notin> set (ta_repair_sources a) \<Longrightarrow> vouches e a p s' i g"
    "\<exists>k. ts_tick (es_tools s) \<le> k \<and> k < ts_tick (es_tools s') \<and> at_id x = ''art_'' @ te_fresh (xe_tools e) k"
proof -
  let ?k = "ts_tick (es_tools s)" and ?fs = "ts_files (es_tools s)"
  from assms(2) obtain st where st: "es_store s = Some st" "as_root st = Some (xe_root e)" "wf_store st"
    "\<And>k. ?k \<le> k \<Longrightarrow> map_of (as_registry st) (''art_'' @ te_fresh (xe_tools e) k) = None"
    and inj: "inj (te_fresh (xe_tools e))" and src: "\<And>k. ''art_'' @ te_fresh (xe_tools e) k \<notin> set (ta_repair_sources a)"
    and res: "\<And>q. proper_path q \<Longrightarrow> xe_store_path e (rel_text q) = xe_root e @ q" unfolding publishing_def by blast
  let ?i = "''art_'' @ te_fresh (xe_tools e) ?k" and ?st = "st\<lparr>as_files := ?fs\<rparr>"
  obtain c where c: "map_of ?fs f = Some c" using assms(1)
    by (cases "map_of ?fs f") (auto simp: create_evidence_def ethen_def ereading_def eexit_def)
  let ?args = "publish_args e a p ?st f c"
  let ?s1 = "s\<lparr>es_tools := (es_tools s)\<lparr>ts_tick := Suc (Suc (Suc (Suc (Suc ?k))))\<rparr>\<rparr>"
  obtain wd wr t1 t2 where run: "on_store e (\<lambda>st. create_artifact wd wr (xe_sha e) (xe_store_path e) ?i t1 t2 (publish_args e a p st f c) st) ?s1 = (s', Inr x)"
    using assms(1) c by (auto simp: create_evidence_def ethen_def ereading_def elook_run)
  obtain st' where cr: "create_artifact wd wr (xe_sha e) (xe_store_path e) ?i t1 t2 ?args ?st = (st', Inr x)"
    and s': "s' = s\<lparr>es_store := Some st', es_tools := (es_tools s)\<lparr>ts_tick := Suc (Suc (Suc (Suc (Suc ?k)))), ts_files := as_files st'\<rparr>\<rparr>"
    using run st(1) by (auto simp: on_store_def store_now_def split: prod.splits sum.splits)
  have path: "xe_store_path e (ca_relative_path ?args) = f" using workspace_path [OF assms(3)] by (simp add: publish_args_def res)
  have files: "as_files st' = ?fs" "as_root st' = Some (xe_root e)"
    using create_files [of ?st "xe_root e" wd wr "xe_sha e" "xe_store_path e" ?i t1 t2 ?args] cr st(2) path update_same [OF c]
    by (auto simp: safe_path_def publish_args_def split: if_splits)
  have x: "x = new_artifact (xe_sha e) ?i t1 ?args (parent_of ?args ?st)"
    and reg: "\<exists>reg. as_registry st' = AList.update ?i x reg \<and> (reg = as_registry st \<or>
      (\<exists>q. parent_of ?args ?st = Some q \<and> reg = AList.update (at_id q) (q\<lparr>at_status := Art_SUPERSEDED\<rparr>) (as_registry st)))"
    by (cases rule: create_registry [of wd wr "xe_sha e" "xe_store_path e" ?i t1 t2 ?args ?st]; use cr in auto)+
  have id: "at_id x = ?i" by (simp add: x new_artifact_def)
  have parent: "at_id q \<in> set (ta_repair_sources a)" if "parent_of ?args ?st = Some q" for q
  proof -
    from that obtain j where j: "parent_choice a ?st f = Some j" "map_of (as_registry st) j = Some q"
      by (auto simp: parent_of_def publish_args_def split: option.splits if_splits)
    with st(3) parent_in_sources [OF j(1)] show ?thesis by (auto simp: wf_store_def)
  qed
  have other: "map_of (as_registry st') j = map_of (as_registry st) j" if "j \<noteq> ?i" "j \<notin> set (ta_repair_sources a)" for j
    using reg parent that by auto
  show "publishing e a s'" unfolding publishing_def
  proof (intro conjI exI [of _ st'] inj allI impI src res)
    have "wf_store ?st" using st(3) by (simp add: wf_store_def)
    from create_wf [OF this, of wd wr "xe_sha e" "xe_store_path e" ?i t1 t2 ?args] show "wf_store st'" unfolding cr by simp
    fix k assume "ts_tick (es_tools s') \<le> k"
    then have k: "Suc ?k \<le> k" by (simp add: s')
    then have "te_fresh (xe_tools e) k \<noteq> te_fresh (xe_tools e) ?k" using inj by (auto dest: injD)
    with other [OF _ src] st(4) [of k] k show "map_of (as_registry st') (''art_'' @ te_fresh (xe_tools e) k) = None" by auto
  qed (simp_all add: s' files(2))
  show "ts_files (es_tools s') = ?fs" "?k < ts_tick (es_tools s')" by (simp_all add: s' files(1))
  show "vouches e a p s' (at_id x) f" unfolding vouches_def
    using reg c by (intro exI [of _ st'] exI [of _ x] exI [of _ c]) (auto simp: s' files(1) id x new_artifact_def publish_args_def)
  show "\<exists>k. ?k \<le> k \<and> k < ts_tick (es_tools s') \<and> at_id x = ''art_'' @ te_fresh (xe_tools e) k"
    using id by (intro exI [of _ ?k]) (simp add: s')
  fix i g assume v: "vouches e a p s i g" "i \<notin> set (ta_repair_sources a)"
  then have "map_of (as_registry st) i \<noteq> None" using st(1) by (auto simp: vouches_def)
  with st(4) [of ?k] have "i \<noteq> ?i" by auto
  with v other [OF _ v(2)] show "vouches e a p s' i g" by (auto simp: vouches_def s' files(1) st(1))
qed

lemma publishing_ticks:
  assumes "publishing e a s" "es_store s' = es_store s" "ts_tick (es_tools s) \<le> ts_tick (es_tools s')"
  shows "publishing e a s'"
  using assms unfolding publishing_def by (metis order.trans)

lemma vouches_same: "es_store s' = es_store s \<Longrightarrow> ts_files (es_tools s') = ts_files (es_tools s) \<Longrightarrow> vouches e a p s' i f = vouches e a p s i f"
  by (simp add: vouches_def)

lemma publish_file_ok:
  assumes "publish_file e a p f s = (s', Inr i)" "publishing e a s" "in_workspace e a f"
  shows "publishing e a s'" "ts_files (es_tools s') = ts_files (es_tools s)" "vouches e a p s' i f" "i \<notin> set (ta_repair_sources a)"
    "\<And>j g. vouches e a p s j g \<Longrightarrow> j \<notin> set (ta_repair_sources a) \<Longrightarrow> vouches e a p s' j g"
proof -
  obtain s1 s2 x where 1: "exit_when_cancelled e (Exit_raised ''cancelled_before_artifact_publish'') s = (s1, Inr ())"
    and 2: "create_evidence e a p f s1 = (s2, Inr x)" and 3: "s' = s2\<lparr>es_tools := (es_tools s2)\<lparr>ts_tick := Suc (ts_tick (es_tools s2))\<rparr>\<rparr>" "i = at_id x"
    using assms(1) by (auto simp: publish_file_def ethen_Inr cancelled_now_def elook_run eret_def eexit_def split: if_splits)
  note s1 = exit_when_Inr [OF 1]
  have "publishing e a s1" by (rule publishing_ticks [OF assms(2)]) (simp_all add: s1)
  note ok = create_evidence_ok [OF 2 this assms(3)]
  show "publishing e a s'" by (rule publishing_ticks [OF ok(1)]) (simp_all add: 3)
  show "ts_files (es_tools s') = ts_files (es_tools s)" using ok(2) by (simp add: 3 s1)
  show "vouches e a p s' i f" using ok(3) vouches_same [of s' s2] by (simp add: 3)
  show "i \<notin> set (ta_repair_sources a)" using ok(6) assms(2) unfolding publishing_def 3 by metis
  fix j g assume "vouches e a p s j g" "j \<notin> set (ta_repair_sources a)"
  then show "vouches e a p s' j g" using ok(5) [of j g] vouches_same [of s' s2] vouches_same [of s1 s] by (simp add: 3 s1)
qed

lemma publish_all_ok:
  assumes "publish_all e a p fs s = (s', Inr is)" "publishing e a s" "\<forall>f \<in> set fs. in_workspace e a f"
  shows "publishing e a s' \<and> ts_files (es_tools s') = ts_files (es_tools s) \<and> list_all2 (vouches e a p s') is fs \<and>
    (\<forall>j g. vouches e a p s j g \<longrightarrow> j \<notin> set (ta_repair_sources a) \<longrightarrow> vouches e a p s' j g)"
  using assms
proof (induction fs arbitrary: s "is")
  case (Cons f fs)
  obtain s1 i js where 1: "publish_file e a p f s = (s1, Inr i)" and 2: "publish_all e a p fs s1 = (s', Inr js)" "is = i # js"
    using Cons.prems(1) by (auto simp: ethen_Inr eret_def)
  have f: "in_workspace e a f" "\<forall>f \<in> set fs. in_workspace e a f" using Cons.prems(3) by simp_all
  note one = publish_file_ok [OF 1 Cons.prems(2) f(1)]
  note rest = Cons.IH [OF 2(1) one(1) f(2)]
  from rest one(3,4) have "vouches e a p s' i f" by blast
  with rest one(2,5) show ?case by (simp add: 2(2))
qed (simp add: eret_def)

section \<open>The whole execution\<close>

text \<open>Publication removes no file.\<close>

definition grows :: "exec_state \<Rightarrow> exec_state \<Rightarrow> bool" where
  "grows s s' \<longleftrightarrow> (\<forall>st. es_store s = Some st \<longrightarrow> as_root st \<noteq> None \<longrightarrow>
     (\<exists>st'. es_store s' = Some st' \<and> as_root st' \<noteq> None) \<and> fst ` set (ts_files (es_tools s)) \<subseteq> fst ` set (ts_files (es_tools s')))"

lemma grows_trans: "grows s s1 \<Longrightarrow> grows s1 s2 \<Longrightarrow> grows s s2"
  unfolding grows_def by blast

lemma create_grows: "create_evidence e a p f s = (s', Inr x) \<Longrightarrow> grows s s'"
proof -
  assume "create_evidence e a p f s = (s', Inr x)"
  then obtain wd wr i t1 t2 c s1 where run: "on_store e (\<lambda>st. create_artifact wd wr (xe_sha e) (xe_store_path e) i t1 t2 (publish_args e a p st f c) st) s1 = (s', Inr x)"
    and s1: "es_store s1 = es_store s" "ts_files (es_tools s1) = ts_files (es_tools s)"
    by (auto simp: create_evidence_def ethen_Inr ereading_def elook_run eexit_def split: option.splits)
  show "grows s s'" unfolding grows_def
  proof (intro allI impI)
    fix st assume st: "es_store s = Some st" "as_root st \<noteq> None"
    then obtain base where base: "as_root (store_now s1 st) = Some base" by (auto simp: store_now_def)
    from run s1 st obtain st' where cr: "create_artifact wd wr (xe_sha e) (xe_store_path e) i t1 t2 (publish_args e a p (store_now s1 st) f c) (store_now s1 st) = (st', Inr x)"
      and s': "es_store s' = Some st'" "ts_files (es_tools s') = as_files st'"
      by (auto simp: on_store_def split: prod.splits sum.splits)
    from create_files [OF base, of wd wr "xe_sha e" "xe_store_path e" i t1 t2 "publish_args e a p (store_now s1 st) f c"] cr
    have root: "as_root st' = Some base" and fs: "as_files st' = ts_files (es_tools s) \<or> (\<exists>q v. as_files st' = AList.update q v (ts_files (es_tools s)))"
      by (auto simp: store_now_def s1(2) split: sum.splits if_splits)
    have "set (map fst (ts_files (es_tools s))) \<subseteq> set (map fst (AList.update q v (ts_files (es_tools s))))" for q v
      unfolding set_keys_update by blast
    then have "set (map fst (ts_files (es_tools s))) \<subseteq> set (map fst (as_files st'))" using fs by (elim disjE exE) (simp_all only: order_refl)
    then have "fst ` set (ts_files (es_tools s)) \<subseteq> fst ` set (as_files st')" by simp
    with root s' show "(\<exists>st'. es_store s' = Some st' \<and> as_root st' \<noteq> None) \<and> fst ` set (ts_files (es_tools s)) \<subseteq> fst ` set (ts_files (es_tools s'))" by simp
  qed
qed

lemma publish_grows: "publish_all e a p fs s = (s', Inr is) \<Longrightarrow> grows s s'"
proof (induction fs arbitrary: s "is")
  case (Cons f fs)
  obtain s1 i js where 1: "publish_file e a p f s = (s1, Inr i)" and 2: "publish_all e a p fs s1 = (s', Inr js)"
    using Cons.prems by (auto simp: ethen_Inr eret_def)
  from 1 obtain s0 s2 x where 0: "exit_when_cancelled e (Exit_raised ''cancelled_before_artifact_publish'') s = (s0, Inr ())"
    and c: "create_evidence e a p f s0 = (s2, Inr x)" and s1: "s1 = s2\<lparr>es_tools := (es_tools s2)\<lparr>ts_tick := Suc (ts_tick (es_tools s2))\<rparr>\<rparr>"
    by (auto simp: publish_file_def ethen_Inr cancelled_now_def elook_run eret_def eexit_def split: if_splits)
  have "grows s s0" "grows s2 s1" by (simp_all add: exit_when_Inr [OF 0] s1 grows_def)
  with create_grows [OF c] Cons.IH [OF 2] show ?case using grows_trans by blast
qed (simp add: eret_def grows_def)

text \<open>Steps that leave a part of the state alone.\<close>

definition leaves_exec :: "(exec_state \<Rightarrow> 'b) \<Rightarrow> 'a exec \<Rightarrow> bool" where
  "leaves_exec view m \<longleftrightarrow> (\<forall>s. view (fst (m s)) = view s)"

lemma leaves_execD: "leaves_exec view m \<Longrightarrow> m s = (s', r) \<Longrightarrow> view s' = view s"
  unfolding leaves_exec_def by (metis fst_conv)

named_theorems exec_intros \<open>steps that leave a part of the state of an execution alone\<close>

lemma leaves_basic [exec_intros]: "leaves_exec view (eret x)" "leaves_exec view (eexit x')" "leaves_exec view (ereading f)"
  by (simp_all add: leaves_exec_def eret_def eexit_def ereading_def)

lemma leaves_ethen [exec_intros]:
  assumes "leaves_exec view m" "\<And>x. leaves_exec view (k x)"
  shows "leaves_exec view (ethen m k)"
  unfolding leaves_exec_def
proof
  fix s
  obtain s1 r where m: "m s = (s1, r)" by force
  from assms(1) [unfolded leaves_exec_def, rule_format, of s] m assms(2) [unfolded leaves_exec_def, rule_format, of _ s1]
  show "view (fst (ethen m k s)) = view s" by (cases r) (simp_all add: ethen_def)
qed

lemma leaves_cases [exec_intros]:
  "leaves_exec view m \<Longrightarrow> leaves_exec view n \<Longrightarrow> leaves_exec view (if b then m else n)"
  "leaves_exec view m' \<Longrightarrow> (\<And>x. leaves_exec view (k x)) \<Longrightarrow> leaves_exec view (case o' of None \<Rightarrow> m' | Some x \<Rightarrow> k x)"
  "(\<And>x. leaves_exec view (g x)) \<Longrightarrow> (\<And>x. leaves_exec view (h x)) \<Longrightarrow> leaves_exec view (case v of Inl x \<Rightarrow> g x | Inr x \<Rightarrow> h x)"
  "(\<And>x. leaves_exec view (g' x)) \<Longrightarrow> (\<And>x. leaves_exec view (h' x)) \<Longrightarrow>
    leaves_exec view (case w of Runtime_error x \<Rightarrow> g' x | Other_error x \<Rightarrow> h' x)"
  "(\<And>x y. leaves_exec view (f x y)) \<Longrightarrow> leaves_exec view (case p of (x, y) \<Rightarrow> f x y)"
  by (simp_all split: option.split sum.split invoke_exn.split prod.split)

text \<open>
  A part that neither the counter nor the files belong to is left by everything but an invocation of the agent, a new guard
  and, if the store belongs to it, the publication.
\<close>

locale exec_view =
  fixes view :: "exec_state \<Rightarrow> 'b"
  assumes view_tick: "view (s\<lparr>es_tools := (es_tools s)\<lparr>ts_tick := n\<rparr>\<rparr>) = view s"
    and view_files: "view (s\<lparr>es_tools := (es_tools s)\<lparr>ts_files := fs, ts_dirs := ds\<rparr>\<rparr>) = view s"
    and view_reading: "leaves_exec view (on_store e (\<lambda>st. (st, (g :: artifact_store \<Rightarrow> artifact_error + string option) st)))"
begin

lemma look: "leaves_exec view (elook f)"
  by (simp add: leaves_exec_def elook_run view_tick)

lemma checks: "leaves_exec view (cancelled_now e)" "leaves_exec view (exit_when_cancelled e x)"
  unfolding cancelled_now_def exit_when_cancelled_def by (intro exec_intros look)+

lemma inputs: "leaves_exec view (materialize_inputs e a)"
proof -
  have new_file: "leaves_exec view (on_tools (tchange (\<lambda>s. (make_dirs ps s)\<lparr>ts_files := AList.update p c (ts_files s)\<rparr>)))" for ps p c
  proof -
    have "(make_dirs ps t)\<lparr>ts_files := fs\<rparr> = t\<lparr>ts_files := fs, ts_dirs := ts_dirs (make_dirs ps t)\<rparr>" for t fs
      by (simp add: make_dirs_def)
    then show ?thesis by (simp add: leaves_exec_def on_tools_def tchange_def view_files)
  qed
  have one: "leaves_exec view (materialize_input e ws i)" for ws i
    unfolding materialize_input_def write_input_def by (intro exec_intros look new_file view_reading)
  have "leaves_exec view (materialize_all e ws is)" for ws "is"
    by (induction "is") (simp_all, intro exec_intros one, intro exec_intros one)
  then show ?thesis by (simp add: leaves_exec_def materialize_inputs_def)
qed

lemma scanning: "leaves_exec view (scan_produced e a)"
  unfolding scan_produced_def by (intro exec_intros look)

end

definition evidence_view :: "exec_state \<Rightarrow> (fs_path option \<times> (string \<times> artifact) list) option" where
  "evidence_view s = map_option (\<lambda>st. (as_root st, as_registry st)) (es_store s)"

interpretation ev: exec_view evidence_view
  by unfold_locales
    (auto simp: evidence_view_def leaves_exec_def on_store_def store_now_def split: option.split)

lemma evidence_tools: "leaves_exec evidence_view (on_tools m)"
  by (auto simp: leaves_exec_def evidence_view_def on_tools_def split: prod.split sum.split)

lemma evidence_invocations: "leaves_exec evidence_view (first_invocation e a p)" "leaves_exec evidence_view (second_invocation e a p)"
proof -
  have one: "leaves_exec evidence_view (invoke_agent e a p k)" for k
    by (simp add: leaves_exec_def evidence_view_def invoke_agent_def Let_def)
  show "leaves_exec evidence_view (first_invocation e a p)" "leaves_exec evidence_view (second_invocation e a p)"
    unfolding first_invocation_def second_invocation_def install_guard_def by (intro exec_intros one evidence_tools)+
qed

lemma evidence_produce: "leaves_exec evidence_view (produce e a p)"
  unfolding produce_def by (intro exec_intros ev.inputs ev.checks ev.scanning evidence_invocations)

definition evidence_ready :: "exec_env \<Rightarrow> task_assignment \<Rightarrow> exec_state \<Rightarrow> bool" where
  "evidence_ready e a s \<longleftrightarrow> (\<exists>st. es_store s = Some st \<and> as_root st = Some (xe_root e) \<and> wf_store st \<and>
     (\<forall>k. map_of (as_registry st) (''art_'' @ te_fresh (xe_tools e) k) = None)) \<and>
     inj (te_fresh (xe_tools e)) \<and> (\<forall>k. ''art_'' @ te_fresh (xe_tools e) k \<notin> set (ta_repair_sources a)) \<and>
     (\<forall>q. proper_path q \<longrightarrow> xe_store_path e (rel_text q) = xe_root e @ q)"

lemma ready_publishing:
  assumes "evidence_ready e a s" "leaves_exec evidence_view m" "m s = (s', r)"
  shows "publishing e a s'"
proof -
  from assms(1) obtain st where st: "es_store s = Some st" "as_root st = Some (xe_root e)" "wf_store st"
    "\<forall>k. map_of (as_registry st) (''art_'' @ te_fresh (xe_tools e) k) = None" unfolding evidence_ready_def by blast
  from leaves_execD [OF assms(2,3)] st(1) obtain st' where st': "es_store s' = Some st'"
    "as_root st' = as_root st" "as_registry st' = as_registry st" by (auto simp: evidence_view_def)
  then have "wf_store st'" using st(3) by (simp add: wf_store_def)
  with st' st assms(1) show ?thesis unfolding publishing_def evidence_ready_def by auto
qed

text \<open>The files found at the end are those of the workspace then.\<close>

lemma produced_scan:
  assumes "produce e a p s = (s', Inr files)" "\<not> ta_worktree a"
  shows "files = xe_scan e (filter (produced_file (task_workspace e a)) (map fst (ts_files (es_tools s'))))"
  using assms
  by (auto simp: produce_def ethen_Inr scan_produced_def ereading_def cancelled_now_def elook_run eret_def
      dest!: exit_when_Inr split: if_splits)

text \<open>What vouches passes the check of integrity.\<close>

lemma vouches_integrity:
  assumes "vouches e a p s i f" "publishing e a s" "in_workspace e a f" "es_store s = Some st"
  shows "verify_integrity (xe_sha e) (xe_store_path e) (store_now s st) i = Inr True"
proof -
  from assms(1,4) obtain x c where x: "map_of (as_registry st) i = Some x" "at_path x = rel_text (relative_parts e a f)"
    "map_of (ts_files (es_tools s)) f = Some c" "at_content_hash x = compute_content_hash (xe_sha e) c" by (auto simp: vouches_def)
  have "as_root st = Some (xe_root e)" "xe_store_path e (at_path x) = f"
    using assms(2,4) x(2) workspace_path [OF assms(3)] by (auto simp: publishing_def)
  with x workspace_path [OF assms(3)] show ?thesis
    by (auto simp: verify_integrity_def read_bytes_def safe_path_def store_now_def) (metis append_eq_conv_conj)
qed


section \<open>Calls\<close>

definition calls_view :: "exec_state \<Rightarrow> tool_event list" where
  "calls_view s = ts_log (es_tools s)"

interpretation cv: exec_view calls_view
  by unfold_locales (auto simp: calls_view_def leaves_exec_def on_store_def split: option.split)

lemma calls_store: "leaves_exec calls_view (on_store e f)"
  by (auto simp: leaves_exec_def calls_view_def on_store_def split: option.split prod.split)

lemma calls_publish: "leaves_exec calls_view (publish e a p fs)"
proof -
  have one: "leaves_exec calls_view (publish_file e a p f)" for f
    unfolding publish_file_def create_evidence_def reject_artifact_def by (intro exec_intros cv.look cv.checks calls_store)
  have "leaves_exec calls_view (publish_all e a p fs)" for fs
    by (induction fs) (simp_all, intro exec_intros, intro exec_intros one)
  then show ?thesis by (simp add: leaves_exec_def publish_def)
qed

lemma calls_reject: "leaves_exec calls_view (reject_all e is)"
proof -
  have one: "leaves_exec calls_view (reject_artifact e i)" for i
    unfolding reject_artifact_def by (intro exec_intros cv.look calls_store)
  show ?thesis by (induction "is") (simp_all, intro exec_intros, intro exec_intros one)
qed

text \<open>The calls a task has started beyond what its budget has consumed.\<close>

definition calls_within :: "string \<Rightarrow> string \<Rightarrow> int \<Rightarrow> nat \<Rightarrow> exec_state \<Rightarrow> bool" where
  "calls_within run task n extra s \<longleftrightarrow> int (consumed run task (es_tools s)) \<le> max 1 n \<and>
     started run task (es_tools s) \<le> consumed run task (es_tools s) + extra"

lemma calls_within_view: "calls_view s' = calls_view s \<Longrightarrow> calls_within run task n extra s' = calls_within run task n extra s"
  by (simp add: calls_within_def calls_view_def consumed_def started_def)

lemma calls_within_more: "calls_within run task n extra s \<Longrightarrow> extra \<le> extra' \<Longrightarrow> calls_within run task n extra' s"
  by (simp add: calls_within_def)

lemma first_within:
  assumes "first_invocation e a p s = (s', r)" "te_run_id (xe_tools e) = run" "ta_task_id a = task" "recording (xe_tools e)" "run \<noteq> []"
    "max_calls a = n" "calls_within run task n extra s"
  shows "calls_within run task n extra s'"
proof -
  let ?e = "tools_of e a" and ?t = "(es_tools s)\<lparr>ts_guard := task_guard (tools_of e a) n (es_tools s)\<rparr>"
  obtain cs where s': "es_tools s' = fst (run_calls ?e cs ?t)"
    using assms(1,6) by (auto simp: first_invocation_def install_guard_def on_tools_def tchange_def ethen_def invoke_agent_def Let_def
        eret_def eexit_def split: option.splits invoke_exn.splits if_splits)
  have e: "te_run_id ?e = run" "te_task_id ?e = task" "recording ?e" using assms(2-4) by (simp_all add: tools_of_def recording_def)
  have same: "consumed run task ?t = consumed run task (es_tools s)" "started run task ?t = started run task (es_tools s)"
    by (simp_all add: consumed_def started_def)
  have "in_budget ?e (max 1 n) ?t" by (simp add: in_budget_def task_guard_def restore_used_def consumed_def)
  from calls_budget [OF e(3) this, of "max 1 n" extra cs] e assms(5,7) same show ?thesis by (simp add: calls_within_def s')
qed

lemma second_within:
  assumes "second_invocation e a p s = (s', r)" "te_run_id (xe_tools e) = run" "ta_task_id a = task" "recording (xe_tools e)" "run \<noteq> []"
    "calls_within run task n extra s"
  shows "calls_within run task n (extra + 10) s'"
proof -
  let ?e = "tools_of e a" and ?t = "(es_tools s)\<lparr>ts_guard := reprompt_guard 10\<rparr>"
  obtain cs where s': "es_tools s' = fst (run_calls ?e cs ?t)"
    using assms(1) by (auto simp: second_invocation_def install_guard_def on_tools_def tchange_def ethen_def invoke_agent_def Let_def
        eret_def eexit_def split: option.splits invoke_exn.splits)
  have e: "te_run_id ?e = run" "te_task_id ?e = task" "recording ?e" using assms(2-4) by (simp_all add: tools_of_def recording_def)
  have same: "consumed run task ?t = consumed run task (es_tools s)" "started run task ?t = started run task (es_tools s)"
    by (simp_all add: consumed_def started_def)
  have "reprompting ?t" by (simp add: reprompting_def reprompt_guard_def)
  from calls_reprompt [OF e(3) _ this, of cs] e assms(5,6) same show ?thesis
    by (auto simp: calls_within_def s' reprompting_def reprompt_guard_def)
qed

text \<open>A step after which at most so many more calls have been started.\<close>

definition adds :: "string \<Rightarrow> string \<Rightarrow> int \<Rightarrow> nat \<Rightarrow> 'a exec \<Rightarrow> bool" where
  "adds run task n d m \<longleftrightarrow> (\<forall>s extra. calls_within run task n extra s \<longrightarrow> calls_within run task n (extra + d) (fst (m s)))"

lemma adds_leaves: "leaves_exec calls_view m \<Longrightarrow> adds run task n d m"
  unfolding adds_def leaves_exec_def using calls_within_view calls_within_more by (metis le_add1)

lemma adds_ethen:
  assumes "adds run task n d m" "\<And>x. adds run task n d' (k x)"
  shows "adds run task n (d + d') (ethen m k)"
  unfolding adds_def
proof (intro allI impI)
  fix s extra assume c: "calls_within run task n extra s"
  obtain s1 r where m: "m s = (s1, r)" by force
  from assms(1) c m have c1: "calls_within run task n (extra + d) s1" unfolding adds_def by (metis fst_conv)
  show "calls_within run task n (extra + (d + d')) (fst (ethen m k s))"
  proof (cases r)
    case (Inl x)
    with m calls_within_more [OF c1, of "extra + (d + d')"] show ?thesis by (simp add: ethen_def)
  next
    case (Inr v)
    with m assms(2) [of v, unfolded adds_def, rule_format, OF c1] show ?thesis by (simp add: ethen_def add.assoc)
  qed
qed

lemma adds_free: "leaves_exec calls_view m \<Longrightarrow> (\<And>x. adds run task n d (k x)) \<Longrightarrow> adds run task n d (ethen m k)"
  using adds_ethen [OF adds_leaves, of m run task n d k 0] by simp

lemma adds_last: "adds run task n d m \<Longrightarrow> (\<And>x. leaves_exec calls_view (k x)) \<Longrightarrow> adds run task n d (ethen m k)"
  using adds_ethen [of run task n d m 0 k, OF _ adds_leaves] by simp

lemma adds_if: "adds run task n d m \<Longrightarrow> adds run task n d m' \<Longrightarrow> adds run task n d (if b then m else m')"
  by simp

lemma run_adds:
  assumes "te_run_id (xe_tools e) = run" "ta_task_id a = task" "recording (xe_tools e)" "run \<noteq> []" "max_calls a = n"
  shows "adds run task n 10 (assigned_run e a p)"
proof -
  have first: "adds run task n 0 (first_invocation e a p)"
    unfolding adds_def using first_within [OF _ assms] by (metis add.right_neutral prod.collapse)
  have second: "adds run task n 10 (second_invocation e a p)"
    unfolding adds_def using second_within [OF _ assms(1-4)] by (metis prod.collapse)
  have again: "adds run task n 10 (ethen (second_invocation e a p) (\<lambda>_. ethen (exit_when_cancelled e Exit_cancelled) (\<lambda>_. scan_produced e a)))"
    by (intro adds_last [OF second] exec_intros cv.checks cv.scanning)
  have rest: "adds run task n 10 (ethen (exit_when_cancelled e Exit_cancelled) (\<lambda>_. ethen (scan_produced e a) (\<lambda>files.
      if files \<noteq> [] then eret files else ethen (cancelled_now e) (\<lambda>c. if c then eret files else
        ethen (second_invocation e a p) (\<lambda>_. ethen (exit_when_cancelled e Exit_cancelled) (\<lambda>_. scan_produced e a))))))"
    by (intro adds_free adds_if adds_leaves exec_intros cv.checks cv.scanning again)
  have "adds run task n 10 (produce e a p)"
    unfolding produce_def by (rule adds_free [OF cv.inputs]) (use adds_ethen [OF first rest] in simp)
  then show ?thesis unfolding assigned_run_def
    by (intro adds_free [OF cv.checks(2)] adds_last exec_intros calls_publish cv.checks calls_reject)
qed

text \<open>A task is executed again and again, by any profile, on whatever state the last execution left.\<close>

fun executions :: "(exec_env \<times> task_assignment \<times> agent_profile) list \<Rightarrow> exec_state \<Rightarrow> exec_state" where
  "executions [] s = s"
| "executions ((e, a, p) # xs) s = executions xs (fst (execute_assignment e a p s))"

lemma executions_within:
  "\<forall>(e, a, p) \<in> set xs. te_run_id (xe_tools e) = run \<and> ta_task_id a = task \<and> recording (xe_tools e) \<and> max_calls a = n \<Longrightarrow> run \<noteq> [] \<Longrightarrow>
     calls_within run task n extra s \<Longrightarrow> calls_within run task n (extra + 10 * length xs) (executions xs s)"
proof (induction xs arbitrary: extra s)
  case (Cons x xs)
  obtain e a p where x: "x = (e, a, p)" using prod_cases3 by blast
  with Cons.prems(1) have "adds run task n 10 (assigned_run e a p)" by (intro run_adds Cons.prems(2)) auto
  with Cons.prems(3) have "calls_within run task n (extra + 10) (fst (assigned_run e a p s))" unfolding adds_def by blast
  moreover have "fst (execute_assignment e a p s) = fst (assigned_run e a p s)"
    by (simp add: execute_assignment_def split: prod.split sum.split exec_exit.split)
  ultimately show ?case using Cons.IH [of "extra + 10" "fst (execute_assignment e a p s)"] Cons.prems(1,2) x
    by (simp add: add.assoc)
qed simp


section \<open>Runs\<close>

lemma split_plain: "CHR ''/'' \<notin> set c \<Longrightarrow> split_parts acc (c @ r) = split_parts (acc @ c) r"
  by (induction c arbitrary: acc) auto

lemma parts_text: "\<forall>c \<in> set q. CHR ''/'' \<notin> set c \<Longrightarrow> CHR ''/'' \<notin> set d \<Longrightarrow>
    split_parts [] (d @ concat (map (\<lambda>c. CHR ''/'' # c) q)) = d # q"
proof (induction q arbitrary: d)
  case Nil
  then show ?case using split_plain [of d "[]" "[]"] by simp
next
  case (Cons c q)
  then show ?case using split_plain [of d "[]" "CHR ''/'' # c @ concat (map (\<lambda>c. CHR ''/'' # c) q)"] by simp
qed

lemma path_parts_rel: "proper_path q \<Longrightarrow> path_parts (rel_text q) = q"
proof -
  assume q: "proper_path q"
  then obtain d r where dr: "q = d # r" by (cases q) (auto simp: proper_path_def)
  with q have "split_parts [] (rel_text q) = q" using parts_text [of r d] by (simp add: rel_text_def path_text_def proper_path_def)
  with q show ?thesis by (auto simp: path_parts_def proper_path_def intro: filter_True)
qed

text \<open>A model that first only talks and creates two files when asked again.\<close>

definition shop_calls :: "nat \<Rightarrow> string list \<Rightarrow> tool_call list" where
  "shop_calls k names = (if k = 0 then [] else [Call_create_file ''cart.py'' ''x'', Call_create_file ''notes.md'' ''y''])"

definition shop_env :: "(nat \<Rightarrow> bool) \<Rightarrow> exec_env" where
  "shop_env cancelled = \<lparr>xe_tools = (demo_tool_env ''m1'')\<lparr>te_cancelled := cancelled\<rparr>, xe_root = [''w''], xe_scan = id, xe_git_status = (\<lambda>_. []),
     xe_calls = shop_calls, xe_outcome = (\<lambda>_. None), xe_team_tools = [], xe_disk = (\<lambda>_. True), xe_row = (\<lambda>_. True), xe_sha = (\<lambda>c. c),
     xe_store_path = (\<lambda>t. ''w'' # path_parts t), xe_store_text = (\<lambda>_. ''store'')\<rparr>"

definition shop_task :: task_assignment where
  "shop_task = \<lparr>ta_task_id = ''t'', ta_input_refs = [], ta_repair_sources = [], ta_max_tool_calls = Some 5, ta_worktree = False\<rparr>"

definition shop_coder :: agent_profile where
  "shop_coder = DEFAULT_PROFILES ! 1"

definition shop_state :: exec_state where
  "shop_state = \<lparr>es_tools = demo_tools, es_store = Some \<lparr>as_root = Some [''w''], as_registry = [], as_by_task = [], as_by_run = [],
     as_files = [], as_rows = []\<rparr>\<rparr>"

definition shop_run :: "(nat \<Rightarrow> bool) \<Rightarrow> exec_state \<times> exec_result" where
  "shop_run cancelled = execute_assignment (shop_env cancelled) shop_task shop_coder shop_state"

definition shop_evidence :: "exec_state \<Rightarrow> (string \<times> artifact_status \<times> artifact_type) list" where
  "shop_evidence s = (case es_store s of None \<Rightarrow> [] | Some st \<Rightarrow> map (\<lambda>(i, x). (at_path x, at_status x, at_type x)) (as_registry st))"

lemma shop_done: "xr_success (snd (shop_run (\<lambda>_. False)))" "length (xr_artifact_ids (snd (shop_run (\<lambda>_. False)))) = 2"
  "shop_evidence (fst (shop_run (\<lambda>_. False))) = [(''tasks/t/cart.py'', Art_PUBLISHED, Art_CODE), (''tasks/t/notes.md'', Art_PUBLISHED, Art_DOCUMENT)]"
  "map fst (ts_files (es_tools (fst (shop_run (\<lambda>_. False))))) = [[''w'', ''a''], [''w'', ''tasks'', ''t'', ''cart.py''], [''w'', ''tasks'', ''t'', ''notes.md'']]"
  by code_simp+

lemma shop_ready: "evidence_ready (shop_env c) shop_task shop_state"
  using path_parts_rel by (simp add: evidence_ready_def shop_env_def shop_task_def shop_state_def wf_store_def demo_tool_env_def inj_str_nat)



text \<open>Cancelled between two files, the execution fails and names no artifact, and the first stays published.\<close>

lemma cancelled_publication_stays:
  "snd (shop_run (\<lambda>k. k = 35)) = \<lparr>xr_success = False, xr_artifact_ids = [], xr_error = Some ''cancelled_before_artifact_publish''\<rparr>"
  "shop_evidence (fst (shop_run (\<lambda>k. k = 35))) = [(''tasks/t/cart.py'', Art_PUBLISHED, Art_CODE)]"
  by code_simp+

text \<open>None of the sandboxed tools that share a name with an excluded one is ever shown to the model.\<close>

lemma sandboxed_tools_hidden:
  "visible_tools (restricted_tools (pf_tools shop_coder) []) = [''list_dir'', ''create_file'']"
  by code_simp

end
