(* ===== verification/Team_Builder_Props.thy ===== *)
theory Team_Builder_Props
  imports Team_Builder Scheduler Task_Graph_Ops
begin

text \<open>
  What the builder of a team promises: the agents it leaves can take the tasks of the plan, as the scheduler tests it, and
  for independent tasks of one kind there are several agents.
\<close>

section \<open>Matching\<close>

definition served :: "string list \<Rightarrow> string list \<Rightarrow> bool" where
  "served required caps \<longleftrightarrow>
     (let primary = filter (\<lambda>c. c \<notin> set TOOL_CAPS) required in
      set required \<subseteq> set caps \<or> primary \<noteq> [] \<and> set primary \<subseteq> set caps)"

lemma agent_can_serve_iff: "agent_can_serve a t \<longleftrightarrow> served (bt_required_capabilities t) (ag_capabilities a)"
  by (auto simp: agent_can_serve_def served_def Let_def)

lemma served_cong: "set caps = set caps' \<Longrightarrow> served required caps = served required caps'"
  by (simp add: served_def)

lemma first_best_in: "first_best f x ys \<in> set (x # ys)"
proof (induction ys arbitrary: x)
  case (Cons y ys)
  show ?case using Cons.IH [of "if f x < f y then y else x"] by auto
qed simp

definition fair_order :: "(string list \<Rightarrow> string list) \<Rightarrow> bool" where
  "fair_order order \<longleftrightarrow> (\<forall>ps. set (order ps) = set ps)"

lemma find_allowed_some:
  assumes "find_allowed e roles reg task required = Some p" "index_exact reg" "fair_order (tm_order e)"
  shows "p \<in> set (list_profiles reg)" "set required \<subseteq> set (pf_capabilities p)" "role_key (pf_role p) \<in> set (map role_key roles)"
proof -
  obtain q qs where qs: "filter (\<lambda>p. role_key (pf_role p) \<in> set (map role_key roles)) (find_workers (tm_order e) required reg) = q # qs"
    using assms(1) by (auto simp: find_allowed_def split: list.splits)
  define scored where "scored = map (\<lambda>(i, p). (score_worker (tm_scored_at e task required i) p reg, p)) (List.enumerate 0 (q # qs))"
  have p: "p = snd (first_best (\<lambda>(s, p). (s, pf_id p)) (hd scored) (tl scored))"
    using assms(1) qs by (simp add: find_allowed_def scored_def Let_def)
  have "first_best (\<lambda>(s, p). (s, pf_id p)) (hd scored) (tl scored) \<in> set scored"
    using first_best_in [of _ "hd scored" "tl scored"] by (simp add: scored_def)
  then have "p \<in> set (map snd scored)" unfolding p by simp
  also have "map snd scored = q # qs" by (simp add: scored_def comp_def case_prod_unfold)
  finally have "p \<in> set (filter (\<lambda>p. role_key (pf_role p) \<in> set (map role_key roles)) (find_workers (tm_order e) required reg))"
    unfolding qs .
  then show "p \<in> set (list_profiles reg)" "set required \<subseteq> set (pf_capabilities p)" "role_key (pf_role p) \<in> set (map role_key roles)"
    using find_workers_exact [OF assms(2), of "tm_order e" required] assms(3)
    by (auto simp: fair_order_def has_all_capabilities_def)
qed

text \<open>The labels the team knows.\<close>

definition known_caps :: "string list \<Rightarrow> bool" where
  "known_caps cs \<longleftrightarrow> set cs \<subseteq> set BUILDER_PRIMARY_CAPS \<union> set BUILDER_TOOL_CAPS"

lemma caps_apart: "c \<in> set BUILDER_PRIMARY_CAPS \<Longrightarrow> c \<notin> set TOOL_CAPS" "set BUILDER_TOOL_CAPS = set TOOL_CAPS"
  by (auto simp: BUILDER_PRIMARY_CAPS_def BUILDER_TOOL_CAPS_def TOOL_CAPS_def)

lemma fallback_served:
  assumes "fallback_caps required = Some cs" "known_caps required" "set cs \<subseteq> set caps"
  shows "served required caps"
proof -
  define primary where "primary = filter (\<lambda>c. c \<notin> set TOOL_CAPS) required"
  have eq: "primary = filter (\<lambda>c. c \<in> set BUILDER_PRIMARY_CAPS) required"
    unfolding primary_def using assms(2) caps_apart by (auto simp: known_caps_def intro!: filter_cong)
  have "cs = primary \<and> primary \<noteq> []"
    using assms(1) eq caps_apart(2) by (auto simp: fallback_caps_def Let_def primary_def split: if_splits)
  with assms(3) show ?thesis by (simp add: served_def Let_def primary_def)
qed

lemma match_profile_served:
  assumes "match_profile e roles reg n = Some p" "index_exact reg" "fair_order (tm_order e)" "known_caps (node_required_capabilities n)"
  shows "p \<in> set (list_profiles reg)" "served (node_required_capabilities n) (pf_capabilities p)"
proof -
  consider "find_allowed e roles reg (node_id n) (node_required_capabilities n) = Some p"
    | cs where "fallback_caps (node_required_capabilities n) = Some cs" "find_allowed e roles reg (node_id n) cs = Some p"
    using assms(1) by (auto simp: match_profile_def split: option.splits)
  then have "p \<in> set (list_profiles reg) \<and> served (node_required_capabilities n) (pf_capabilities p)"
  proof cases
    case 1
    from find_allowed_some [OF this assms(2,3)] show ?thesis by (simp add: served_def Let_def)
  next
    case 2
    from find_allowed_some [OF 2(2) assms(2,3)] fallback_served [OF 2(1) assms(4)] show ?thesis by simp
  qed
  then show "p \<in> set (list_profiles reg)" "served (node_required_capabilities n) (pf_capabilities p)" by simp_all
qed

lemma match_tasks_all:
  "match_tasks e roles reg ns = Inr assigned \<Longrightarrow>
     map fst assigned = map node_id ns \<and>
     (\<forall>n \<in> set ns. \<exists>p. match_profile e roles reg n = Some p \<and> (node_id n, pf_id p) \<in> set assigned)"
  by (induction ns arbitrary: assigned) (auto split: option.splits sum.splits)

section \<open>Depths\<close>

text \<open>A cache whose entries lie above those of the dependencies.\<close>

definition depths_ok :: "node_table \<Rightarrow> depths \<Rightarrow> bool" where
  "depths_ok ns d \<longleftrightarrow> (\<forall>i v. map_of d i = Some v \<longrightarrow>
     (\<exists>n. map_of ns i = Some n \<and> (\<forall>x \<in> set (node_dependencies n). map_of ns x \<noteq> None \<longrightarrow> (\<exists>w < v. map_of d x = Some w))))"

definition extends :: "depths \<Rightarrow> depths \<Rightarrow> bool" where
  "extends d d' \<longleftrightarrow> map_of d \<subseteq>\<^sub>m map_of d'"

lemma extends_basic: "extends d d" "extends d d' \<Longrightarrow> extends d' d'' \<Longrightarrow> extends d d''"
  "extends d d' \<Longrightarrow> map_of d i = Some v \<Longrightarrow> map_of d' i = Some v"
  by (auto simp: extends_def map_le_def dom_def)

lemma extends_put: "map_of d i = None \<Longrightarrow> extends d (AList.update i v d)"
  by (auto simp: extends_def map_le_def)

lemma depths_put:
  assumes "depths_ok ns d" "map_of ns i = Some n" "map_of d i = None"
    "\<And>x. x \<in> set (node_dependencies n) \<Longrightarrow> map_of ns x \<noteq> None \<Longrightarrow> \<exists>w < v. map_of d x = Some w"
  shows "depths_ok ns (AList.update i v d)"
  unfolding depths_ok_def
proof (intro allI impI)
  fix j u assume j: "map_of (AList.update i v d) j = Some u"
  show "\<exists>m. map_of ns j = Some m \<and> (\<forall>x \<in> set (node_dependencies m). map_of ns x \<noteq> None \<longrightarrow>
      (\<exists>w < u. map_of (AList.update i v d) x = Some w))"
  proof (cases "j = i")
    case True
    from assms(4) [of i] assms(2,3) have "i \<notin> set (node_dependencies n)" by auto
    with True j assms(2,4) show ?thesis by auto
  next
    case False
    with j have "map_of d j = Some u" by simp
    with assms(1) obtain m where "map_of ns j = Some m"
      "\<And>x. x \<in> set (node_dependencies m) \<Longrightarrow> map_of ns x \<noteq> None \<Longrightarrow> \<exists>w < u. map_of d x = Some w" unfolding depths_ok_def by blast
    moreover from this(2) [of i] assms(2,3) have "i \<notin> set (node_dependencies m)" by auto
    ultimately show ?thesis by auto
  qed
qed

text \<open>A rank of the nodes that the dependencies lower.\<close>

definition ranked :: "node_table \<Rightarrow> (string \<Rightarrow> nat) \<Rightarrow> bool" where
  "ranked ns h \<longleftrightarrow> (\<forall>i n x. map_of ns i = Some n \<longrightarrow> x \<in> set (node_dependencies n) \<longrightarrow> map_of ns x \<noteq> None \<longrightarrow> h x < h i)"

definition caches_below :: "(string \<Rightarrow> nat) \<Rightarrow> nat \<Rightarrow> depths \<Rightarrow> depths \<Rightarrow> bool" where
  "caches_below h r d d' \<longleftrightarrow> (\<forall>j. map_of d j = None \<longrightarrow> map_of d' j \<noteq> None \<longrightarrow> h j < r)"

lemma caches_below_trans: "caches_below h r d d1 \<Longrightarrow> caches_below h r d1 d2 \<Longrightarrow> caches_below h r d d2"
  unfolding caches_below_def by blast

lemma caches_below_mono: "caches_below h r d d1 \<Longrightarrow> r \<le> r' \<Longrightarrow> caches_below h r' d d1"
  unfolding caches_below_def by (meson order.strict_trans2)

lemma depth_ok:
  "ranked ns h \<Longrightarrow> h i < k \<Longrightarrow> depths_ok ns d \<Longrightarrow> \<exists>d' v. depth_of k ns i d = Some (d', v) \<and>
     depths_ok ns d' \<and> extends d d' \<and> caches_below h (Suc (h i)) d d' \<and> (map_of ns i \<noteq> None \<longrightarrow> map_of d' i = Some v)"
  "ranked ns h \<Longrightarrow> \<forall>x \<in> set xs. map_of ns x \<noteq> None \<longrightarrow> h x < r \<and> h x < k \<Longrightarrow> depths_ok ns d \<Longrightarrow>
     \<exists>d' v. deepest_of k ns xs m d = Some (d', v) \<and>
       depths_ok ns d' \<and> extends d d' \<and> caches_below h r d d' \<and> m \<le> v \<and>
       (\<forall>x \<in> set xs. map_of ns x \<noteq> None \<longrightarrow> (\<exists>w \<le> v. map_of d' x = Some w))"
proof (induction k ns i d and k ns xs m d arbitrary: and r rule: depth_of_deepest_of.induct)
  case (2 k ns i d)
  consider v where "map_of d i = Some v" | "map_of d i = None" "map_of ns i = None"
    | n where "map_of d i = None" "map_of ns i = Some n" "node_dependencies n = []"
    | n where "map_of d i = None" "map_of ns i = Some n" "node_dependencies n \<noteq> []" by (cases "map_of d i"; cases "map_of ns i") auto
  then show ?case
  proof cases
    case (3 n)
    with depths_put [OF 2(4) 3(2,1)] have "depths_ok ns (AList.update i 0 d)" by simp
    with 3 extends_put [OF 3(1)] show ?thesis by (auto simp: caches_below_def)
  next
    case (4 n)
    have lower: "\<forall>x \<in> set (node_dependencies n). map_of ns x \<noteq> None \<longrightarrow> h x < h i \<and> h x < k"
      using 2(2,3) 4(2) unfolding ranked_def by (meson less_trans_Suc less_le_trans less_Suc_eq_le order.strict_trans2)
    from 2(1) [OF 4 2(2) lower 2(4)] obtain d1 u where d1: "deepest_of k ns (node_dependencies n) 0 d = Some (d1, u)"
      and ok: "depths_ok ns d1" "extends d d1" "caches_below h (h i) d d1"
        "\<And>x. x \<in> set (node_dependencies n) \<Longrightarrow> map_of ns x \<noteq> None \<Longrightarrow> \<exists>w \<le> u. map_of d1 x = Some w" by blast
    have fresh: "map_of d1 i = None" using ok(3) 4(1) unfolding caches_below_def by (cases "map_of d1 i") auto
    have "depths_ok ns (AList.update i (1 + u) d1)"
      by (rule depths_put [OF ok(1) 4(2) fresh]) (use ok(4) in fastforce)
    moreover have "extends d (AList.update i (1 + u) d1)" using extends_basic(2) [OF ok(2) extends_put [OF fresh]] .
    moreover have "caches_below h (Suc (h i)) d (AList.update i (1 + u) d1)" using ok(3) by (auto simp: caches_below_def less_Suc_eq)
    ultimately show ?thesis using 4 d1 by simp
  qed (use 2 in \<open>simp_all add: extends_basic caches_below_def\<close>)
next
  case (4 k ns x xs m d)
  show ?case
  proof (cases "map_of ns x = None")
    case True
    with 4(1) [OF True 4(4)] 4(5,6) show ?thesis by simp
  next
    case False
    from 4(2) [OF False 4(4) _ 4(6)] 4(5) False obtain d1 v where d1: "depth_of k ns x d = Some (d1, v)" "depths_ok ns d1" "extends d d1"
      "caches_below h (Suc (h x)) d d1" "map_of d1 x = Some v" by auto
    have "\<forall>x \<in> set xs. map_of ns x \<noteq> None \<longrightarrow> h x < r \<and> h x < k" using 4(5) by simp
    from 4(3) [OF False d1(1) refl 4(4) this d1(2)] obtain d2 u where d2: "deepest_of k ns xs (max m v) d1 = Some (d2, u)" "depths_ok ns d2"
      "extends d1 d2" "caches_below h r d1 d2" "max m v \<le> u"
      "\<forall>x \<in> set xs. map_of ns x \<noteq> None \<longrightarrow> (\<exists>w \<le> u. map_of d2 x = Some w)" by blast
    have "caches_below h r d d1" by (rule caches_below_mono [OF d1(4)]) (use 4(5) False in auto)
    from caches_below_trans [OF this d2(4)] extends_basic(2) [OF d1(3) d2(3)] extends_basic(3) [OF d2(3) d1(5)] d1(1) d2 False
    show ?thesis by auto
  qed
qed (simp_all add: extends_basic caches_below_def)

lemma depths_from_ok:
  "ranked ns h \<Longrightarrow> \<forall>i \<in> set is. h i < k \<and> map_of ns i \<noteq> None \<Longrightarrow> depths_ok ns d \<Longrightarrow>
     \<exists>d'. depths_from k ns is d = Some d' \<and> depths_ok ns d' \<and> extends d d' \<and> (\<forall>i \<in> set is. map_of d' i \<noteq> None)"
proof (induction "is" arbitrary: d)
  case (Cons i "is")
  from depth_ok(1) [OF Cons.prems(1) _ Cons.prems(3), of i k] Cons.prems(2) obtain d1 v where d1: "depth_of k ns i d = Some (d1, v)"
    "depths_ok ns d1" "extends d d1" "map_of d1 i = Some v" by auto
  from Cons.IH [OF Cons.prems(1) _ d1(2)] Cons.prems(2) obtain d2 where d2: "depths_from k ns is d1 = Some d2" "depths_ok ns d2"
    "extends d1 d2" "\<forall>i \<in> set is. map_of d2 i \<noteq> None" by auto
  with extends_basic(2) [OF d1(3) d2(3)] extends_basic(3) [OF d2(3) d1(4)] d1(1) show ?case by simp
qed (simp add: extends_basic)

text \<open>The number of tasks a task waits for is such a rank.\<close>

lemma ancestors_ranked:
  assumes "valid_graph g"
  shows "ranked (graph_nodes g) (\<lambda>i. card {x. (x, i) \<in> (dep_rel g)\<^sup>+})" "i \<in> set (node_ids g) \<Longrightarrow> card {x. (x, i) \<in> (dep_rel g)\<^sup>+} < length (graph_nodes g)"
proof -
  have sub: "(dep_rel g)\<^sup>+ \<subseteq> set (node_ids g) \<times> set (node_ids g)"
    using assms closed_graphD [of g] by (intro trancl_subset_Sigma) (fastforce simp: valid_graph_def dep_rel_def dep_edges_def simp del: set_map)
  then have fin: "finite {x. (x, i) \<in> (dep_rel g)\<^sup>+}" for i by (rule_tac finite_subset [of _ "set (node_ids g)"]) auto
  have irr: "(i, i) \<notin> (dep_rel g)\<^sup>+" for i using assms by (auto simp: valid_graph_def acyclic_def)
  show "ranked (graph_nodes g) (\<lambda>i. card {x. (x, i) \<in> (dep_rel g)\<^sup>+})" unfolding ranked_def
  proof (intro allI impI psubset_card_mono fin)
    fix i n x assume "get_node g i = Some n" "x \<in> set (node_dependencies n)"
    then have "(x, i) \<in> dep_rel g" by (auto simp: dep_rel_def dep_edges_def dest!: map_of_SomeD intro!: image_eqI)
    then show "{y. (y, x) \<in> (dep_rel g)\<^sup>+} \<subset> {y. (y, i) \<in> (dep_rel g)\<^sup>+}" using irr [of x] by (auto intro: trancl_into_trancl)
  qed
  assume i: "i \<in> set (node_ids g)"
  have "card {x. (x, i) \<in> (dep_rel g)\<^sup>+} < card (set (node_ids g))"
    using sub irr [of i] i by (intro psubset_card_mono) auto
  also have "\<dots> \<le> length (graph_nodes g)" using card_length [of "node_ids g"] by simp
  finally show "card {x. (x, i) \<in> (dep_rel g)\<^sup>+} < length (graph_nodes g)" .
qed

lemma task_depths:
  assumes "valid_graph g" "length (graph_nodes g) \<le> k"
  shows "\<exists>d. compute_task_depths k (graph_nodes g) = Some d \<and> depths_ok (graph_nodes g) d \<and> (\<forall>i \<in> set (node_ids g). map_of d i \<noteq> None)"
proof -
  have "\<forall>i \<in> set (node_ids g). card {x. (x, i) \<in> (dep_rel g)\<^sup>+} < k \<and> get_node g i \<noteq> None"
    using ancestors_ranked(2) [OF assms(1)] assms(2) by (auto simp: map_of_eq_None_iff intro: order.strict_trans2)
  from depths_from_ok [OF ancestors_ranked(1) [OF assms(1)] this, of "[]"] show ?thesis
    unfolding compute_task_depths_def by (auto simp: depths_ok_def)
qed

lemma deeper:
  assumes "depths_ok (graph_nodes g) d" "(x, i) \<in> dep_rel g" "closed_graph g" "map_of d i \<noteq> None"
  shows "depth_at d x < depth_at d i"
proof -
  from assms(2) have i: "i \<in> set (node_ids g)" "x \<in> set (deps_of g i)" by (simp_all add: dep_rel_def dep_edges_def del: set_map)
  then obtain n where "get_node g i = Some n" "x \<in> set (node_dependencies n)" by (cases "get_node g i") (auto simp: deps_of_def)
  note n = this i(1)
  have "get_node g x \<noteq> None" using closed_graphD [OF assms(3) n(3)] n(1,2) by (auto simp: map_of_eq_None_iff)
  moreover from assms(4) obtain v where "map_of d i = Some v" by auto
  ultimately show ?thesis using assms(1) n unfolding depths_ok_def by (fastforce simp: depth_at_def)
qed

lemma deeper_trans:
  assumes "depths_ok (graph_nodes g) d" "closed_graph g" "\<forall>i \<in> set (node_ids g). map_of d i \<noteq> None" "(x, i) \<in> (dep_rel g)\<^sup>+"
  shows "depth_at d x < depth_at d i"
proof -
  have step: "depth_at d y < depth_at d j" if "(y, j) \<in> dep_rel g" for y j
    using that assms(3) by (intro deeper [OF assms(1) that assms(2)]) (auto simp: dep_rel_def dep_edges_def)
  from assms(4) show ?thesis by (induction rule: trancl_induct) (auto dest: step)
qed

section \<open>Spawning\<close>

lemma update_new: "k \<notin> set (map fst xs) \<Longrightarrow> AList.update k v xs = xs @ [(k, v)]"
  by (induction xs) auto

definition is_agent_of :: "team_context \<Rightarrow> agent_profile \<Rightarrow> agent_instance \<Rightarrow> bool" where
  "is_agent_of x p a \<longleftrightarrow> ag_run_id a = tx_run_id x \<and> ag_profile_id a = pf_id p \<and> ag_status a = Agent_IDLE \<and>
     set (ag_capabilities a) = set (pf_capabilities p)"

lemma spawn_agent_ok:
  assumes "spawn_agent e x k p i already st = (st', Inr a)" "tm_agent_id e k \<notin> set (map fst (reg_agents (tm_registry st)))"
  shows "is_agent_of x p a" "reg_agents (tm_registry st') = reg_agents (tm_registry st) @ [(tm_agent_id e k, a)]"
proof -
  obtain reg where c: "create_agent (tm_write e k) (tm_clock e k) (tm_agent_id e k) (tm_session_id e k) (tm_thread_id e k)
      (spawn_args x p i already) (tm_registry st) = (reg, Inr a)" and st': "tm_registry st' = reg"
    using assms(1) by (auto simp: spawn_agent_def split: prod.splits sum.splits)
  have id: "or_str None j = j" for j by (simp add: or_str_def)
  from c assms(2) show "is_agent_of x p a" "reg_agents (tm_registry st') = reg_agents (tm_registry st) @ [(tm_agent_id e k, a)]"
    by (auto simp: create_agent_def register_agent_def persist_agent_def Let_def put_agent_def upsert_agent_instance_def
        agent_heartbeat_def spawn_args_def is_agent_of_def id update_new st' split: if_splits)
qed

definition fresh_from :: "team_env \<Rightarrow> nat \<Rightarrow> agent_registry \<Rightarrow> bool" where
  "fresh_from e k reg \<longleftrightarrow> inj (tm_agent_id e) \<and> (\<forall>j \<ge> k. tm_agent_id e j \<notin> set (map fst (reg_agents reg)))"

lemma spawn_all_ok:
  "spawn_all e x already ps k counts st = (st', Inr as) \<Longrightarrow> fresh_from e k (tm_registry st) \<Longrightarrow>
     list_all2 (is_agent_of x) ps as \<and> agents_by_run (tx_run_id x) (tm_registry st') = agents_by_run (tx_run_id x) (tm_registry st) @ as"
proof (induction ps arbitrary: k counts st as)
  case (Cons p ps)
  obtain st1 a bs where a: "spawn_agent e x k p (depth_at counts (pf_id p) + 1) (already (pf_id p)) st = (st1, Inr a)"
    and bs: "spawn_all e x already ps (Suc k) (AList.update (pf_id p) (depth_at counts (pf_id p) + 1) counts) st1 = (st', Inr bs)" "as = a # bs"
    using Cons.prems(1) by (auto simp: Let_def split: prod.splits sum.splits)
  have new: "tm_agent_id e k \<notin> set (map fst (reg_agents (tm_registry st)))" using Cons.prems(2) by (simp add: fresh_from_def)
  note ok = spawn_agent_ok [OF a new]
  have "tm_agent_id e j \<noteq> tm_agent_id e k" if "Suc k \<le> j" for j using Cons.prems(2) that by (auto simp: fresh_from_def dest: injD)
  then have "fresh_from e (Suc k) (tm_registry st1)" using Cons.prems(2) by (auto simp: fresh_from_def ok(2))
  from Cons.IH [OF bs(1) this] ok show ?case by (auto simp: bs(2) agents_by_run_def agents_def is_agent_of_def)
qed simp

section \<open>How many\<close>

lemma le_fold_max: "x \<in> set xs \<or> x \<le> (m :: nat) \<Longrightarrow> x \<le> fold max xs m"
  by (induction xs arbitrary: m) (auto simp: le_max_iff_disj)

lemma demand_covers: "min MAX_PARALLEL_AGENTS (depth_demand assigned d q v) \<le> agent_demand assigned d q"
proof (cases "depth_demand assigned d q v = 0")
  case False
  then obtain t where "(t, q) \<in> set assigned" "depth_at d t = v"
    by (auto simp: depth_demand_def filter_empty_conv)
  then have "depth_demand assigned d q v \<in> set (map (\<lambda>(t, q'). if q' = q then depth_demand assigned d q (depth_at d t) else 0) assigned)"
    by force
  from le_fold_max [OF disjI1, OF this, of 0] show ?thesis unfolding agent_demand_def by linarith
qed simp

lemma replicated: "distinct (map pf_id ps) \<Longrightarrow>
    length (filter (\<lambda>p. pf_id p = q) (concat (map (\<lambda>p. if C (pf_id p) then replicate (f (pf_id p)) p else []) ps))) =
    (if q \<in> pf_id ` set ps \<and> C q then f q else 0)"
  by (induction ps) (auto simp: filter_replicate)

lemma profiles_distinct: "index_exact reg \<Longrightarrow> distinct (map pf_id (list_profiles reg))"
proof -
  assume ok: "index_exact reg"
  then have "map pf_id (list_profiles reg) = map fst (cr_profiles reg)"
    by (auto simp: list_profiles_def index_exact_def)
  with index_exactD(1) [OF ok] show ?thesis by simp
qed

lemma selected_count:
  "index_exact reg \<Longrightarrow> length (filter (\<lambda>p. pf_id p = q) (selected_profiles reg assigned d existing)) =
     (if q \<in> pf_id ` set (list_profiles reg) \<and> q \<in> set (map snd assigned) then agent_demand assigned d q - live_count existing q else 0)"
  unfolding selected_profiles_def by (rule replicated) (rule profiles_distinct)

lemma live_count_append: "live_count (xs @ ys) q = live_count xs q + live_count ys q"
  by (simp add: live_count_def)

lemma live_count_new: "list_all2 (is_agent_of x) ps as \<Longrightarrow> live_count as q = length (filter (\<lambda>p. pf_id p = q) ps)"
  by (induction rule: list_all2_induct) (simp_all add: live_count_def is_agent_of_def)

section \<open>The team\<close>

lemma built_team:
  assumes "build_team_sync e x (Some roles) reg g st = (st', Inr team)" "fresh_from e 0 (tm_registry st)"
  obtains assigned d as where "match_tasks e roles reg (map snd (graph_nodes g)) = Inr assigned"
    "compute_task_depths (tm_recursion e) (graph_nodes g) = Some d"
    "list_all2 (is_agent_of x) (selected_profiles reg assigned d (agents_by_run (tx_run_id x) (tm_registry st))) as"
    "team = agents_by_run (tx_run_id x) (tm_registry st) @ as" "team = agents_by_run (tx_run_id x) (tm_registry st')"
proof -
  let ?old = "agents_by_run (tx_run_id x) (tm_registry st)"
  obtain assigned d where m: "match_tasks e roles reg (map snd (graph_nodes g)) = Inr assigned"
    "compute_task_depths (tm_recursion e) (graph_nodes g) = Some d"
    using assms(1) by (auto simp: build_team_sync_def Let_def split: sum.splits option.splits)
  show thesis
  proof (cases "selected_profiles reg assigned d ?old = []")
    case True
    with assms(1) m show thesis by (intro that [of assigned d "[]"]) (auto simp: build_team_sync_def Let_def split: if_splits)
  next
    case False
    with assms(1) m obtain as where s: "spawn_all e x (live_count ?old) (selected_profiles reg assigned d ?old) 0 [] st = (st', Inr as)" "team = ?old @ as"
      by (auto simp: build_team_sync_def Let_def split: prod.splits sum.splits)
    from spawn_all_ok [OF s(1) assms(2)] m s(2) show thesis by (intro that [of assigned d as]) auto
  qed
qed

lemma live_after:
  assumes "index_exact reg" "list_all2 (is_agent_of x) (selected_profiles reg assigned d old) as" "(t, q) \<in> set assigned"
    "q \<in> pf_id ` set (list_profiles reg)"
  shows "live_count (old @ as) q = max (live_count old q) (agent_demand assigned d q)"
proof -
  have "q \<in> set (map snd assigned)" using assms(3) by force
  with live_count_new [OF assms(2), of q] selected_count [OF assms(1), of q assigned d old] assms(4) show ?thesis
    by (simp add: live_count_append)
qed

lemma listed_profile:
  assumes "index_exact reg" "p \<in> set (list_profiles reg)"
  shows "get_profile (pf_id p) reg = Some p"
proof -
  from assms(2) obtain k where k: "(k, p) \<in> set (cr_profiles reg)" by (auto simp: list_profiles_def)
  with assms(1) have "pf_id p = k" unfolding index_exact_def by blast
  with map_of_is_SomeI [OF index_exactD(1) [OF assms(1)] k] show ?thesis by (simp add: get_profile_def)
qed

lemma team_caps:
  assumes "index_exact reg" "list_all2 (is_agent_of x) (selected_profiles reg assigned d old) as" "p \<in> set (list_profiles reg)"
    "\<forall>a \<in> set old. \<forall>p. get_profile (ag_profile_id a) reg = Some p \<longrightarrow> set (ag_capabilities a) = set (pf_capabilities p)"
    "a \<in> set (old @ as)" "ag_profile_id a = pf_id p"
  shows "set (ag_capabilities a) = set (pf_capabilities p)"
proof (cases "a \<in> set old")
  case True
  with assms(4,6) listed_profile [OF assms(1,3)] show ?thesis by simp
next
  case False
  with assms(5) have "a \<in> set as" by simp
  with assms(2) obtain p' where p': "p' \<in> set (selected_profiles reg assigned d old)" "is_agent_of x p' a"
    by (induction rule: list_all2_induct) auto
  then have "p' \<in> set (list_profiles reg)" "pf_id p' = pf_id p"
    using assms(6) by (auto simp: selected_profiles_def is_agent_of_def split: if_splits)
  with listed_profile [OF assms(1)] assms(3) have "p' = p" by (metis option.inject)
  with p'(2) show ?thesis by (simp add: is_agent_of_def)
qed

lemma match_profile_listed:
  assumes "match_profile e roles reg n = Some p" "index_exact reg" "fair_order (tm_order e)"
  shows "p \<in> set (list_profiles reg)"
  using assms(1) find_allowed_some(1) [OF _ assms(2,3)] by (auto simp: match_profile_def split: option.splits)

text \<open>The tasks matched with a profile are its entries in the assignment.\<close>

lemma assigned_count:
  "match_tasks e roles reg ns = Inr assigned \<Longrightarrow>
     depth_demand assigned d q v = length (filter (\<lambda>n. map_option pf_id (match_profile e roles reg n) = Some q \<and> depth_at d (node_id n) = v) ns)"
  by (induction ns arbitrary: assigned) (auto simp: depth_demand_def split: option.splits sum.splits)

lemma matched_live:
  assumes "match_tasks e roles reg ns = Inr assigned" "list_all2 (is_agent_of x) (selected_profiles reg assigned d old) as"
    "index_exact reg" "fair_order (tm_order e)"
  shows "min 3 (length (filter (\<lambda>n. map_option pf_id (match_profile e roles reg n) = Some q \<and> depth_at d (node_id n) = v) ns)) \<le> live_count (old @ as) q"
    (is "min 3 (length ?tasks) \<le> _")
proof (cases "?tasks = []")
  case False
  then obtain n p where n: "n \<in> set ns" "match_profile e roles reg n = Some p" "pf_id p = q" by (auto simp: filter_empty_conv)
  with match_tasks_all [OF assms(1)] have "(node_id n, q) \<in> set assigned" by auto
  from live_after [OF assms(3,2) this] match_profile_listed [OF n(2) assms(3,4)] n(3)
  have "agent_demand assigned d q \<le> live_count (old @ as) q" by auto
  with demand_covers [of assigned d q v] assigned_count [OF assms(1)] show ?thesis by (simp add: MAX_PARALLEL_AGENTS_def)
qed simp



section \<open>Runs\<close>

definition crew_task :: "string \<Rightarrow> string list \<Rightarrow> string list \<Rightarrow> string \<times> task_node" where
  "crew_task i deps caps = (i, (default_node i)\<lparr>node_dependencies := deps, node_required_capabilities := caps\<rparr>)"

definition crew_graph :: "(string \<times> task_node) list \<Rightarrow> task_graph" where
  "crew_graph ts = \<lparr>graph_root = ''plan'', graph_nodes = crew_task ''plan'' [] [''planning''] # ts,
     graph_version = 1, graph_created_at = 0, graph_updated_at = 0\<rparr>"

definition crew_env :: team_env where
  "crew_env = \<lparr>tm_order = id, tm_scored_at = (\<lambda>t cs i. 0), tm_recursion = 400, tm_write = (\<lambda>k. True), tm_clock = (\<lambda>k i. int k),
     tm_agent_id = (\<lambda>k. CHR ''a'' # replicate k CHR ''x''), tm_session_id = (\<lambda>k. CHR ''s'' # replicate k CHR ''x''),
     tm_thread_id = (\<lambda>k. CHR ''t'' # replicate k CHR ''x''), tm_event_id = (\<lambda>k. CHR ''e'' # replicate k CHR ''x''), tm_redact = id\<rparr>"

definition crew_context :: team_context where
  "crew_context = \<lparr>tx_run_id = ''r'', tx_team_id = ''software_dev_team'', tx_workspace_root = ''/w'', tx_checkpoint_namespace = ''ns''\<rparr>"

definition crew_none :: team_state where
  "crew_none = \<lparr>tm_registry = \<lparr>reg_agents = [], reg_lease_timeout = 60, reg_rows = []\<rparr>,
     tm_sessions = \<lparr>sv_sessions = [], sv_actors = [], sv_rows = [], sv_queue = []\<rparr>, tm_log = \<lparr>log_events = [], log_envelopes = []\<rparr>\<rparr>"

definition crew_roles :: "string list" where
  "crew_roles = the (get_team_roles ''software_dev_team'')"

definition crew_of :: "(string \<times> task_node) list \<Rightarrow> team_state \<times> (team_error + agent_instance list)" where
  "crew_of ts = build_team_sync crew_env crew_context (Some crew_roles) default_registry (crew_graph ts) crew_none"

text \<open>Two independent coding tasks after the plan, one of them with a tool that coders lack.\<close>

definition crew_plan :: "(string \<times> task_node) list" where
  "crew_plan = [crew_task ''web'' [''plan''] [''coding'', ''web_research''], crew_task ''api'' [''plan''] [''coding'']]"

definition crew_members :: "(string \<times> task_node) list \<Rightarrow> agent_instance list" where
  "crew_members ts = (case snd (crew_of ts) of Inl err \<Rightarrow> [] | Inr team \<Rightarrow> team)"

lemma crew_names: "map (\<lambda>a. (ag_profile_id a, ag_name a)) (crew_members crew_plan) =
    [(''planner'', ''Planner''), (''coder'', ''Coder''), (''coder'', ''Coder-2'')]"
  by code_simp

lemma crew_built: "\<exists>team. snd (crew_of crew_plan) = Inr team"
  using crew_names by (cases "snd (crew_of crew_plan)") (simp_all add: crew_members_def)

lemma crew_fresh: "fresh_from crew_env 0 (tm_registry crew_none)"
  by (auto simp: fresh_from_def crew_env_def crew_none_def inj_def dest: arg_cong [where f = length])

lemma crew_order: "fair_order (tm_order crew_env)"
  by (simp add: fair_order_def crew_env_def)

lemma crew_valid: "valid_graph (crew_graph crew_plan)"
proof -
  have "validate (crew_graph crew_plan) = Inr ()" by code_simp
  moreover have "wf_graph (crew_graph crew_plan)" by (simp add: wf_graph_def crew_graph_def crew_plan_def crew_task_def default_node_def)
  ultimately show ?thesis by (simp add: validate_iff)
qed

lemma crew_known: "\<forall>n \<in> set (map snd (graph_nodes (crew_graph crew_plan))). known_caps (node_required_capabilities n)"
  by (simp add: crew_graph_def crew_plan_def crew_task_def default_node_def known_caps_def BUILDER_PRIMARY_CAPS_def BUILDER_TOOL_CAPS_def)

definition crew_row :: "string list \<Rightarrow> board_task" where
  "crew_row caps = (new_board_task 0 0 ''web'' ''r'' ''web'' ''web'')\<lparr>bt_required_capabilities := caps\<rparr>"



text \<open>A label that no profile declares is dropped by the builder but not by the scheduler: the coder it brings may not take the task.\<close>

lemma unknown_label_starves:
  "map ag_profile_id (crew_members [crew_task ''web'' [''plan''] [''coding'', ''config'']]) = [''planner'', ''coder'']"
  "\<not> list_ex (\<lambda>a. agent_can_serve a (crew_row [''coding'', ''config''])) (crew_members [crew_task ''web'' [''plan''] [''coding'', ''config'']])"
  by code_simp+

end
