(* ===== verification/Executor_Ends.thy ===== *)
theory Executor_Ends
  imports Executor_Props Team_Builder_Props
begin

text \<open>
  The executor beside the builder of the team and the scheduler: who may execute a task.
\<close>

lemma find_best_listed:
  assumes "find_best_worker order clk required reg = Some p" "index_exact reg" "fair_order order"
  shows "p \<in> set (list_profiles reg)" "has_all_capabilities p required"
proof -
  define scored where "scored = map (\<lambda>(i, p). (score_worker (clk i) p reg, p)) (List.enumerate 0 (find_workers order required reg))"
  obtain s rest where "sort_key (\<lambda>(s, p). (- s, pf_id p)) scored = (s, p) # rest"
    using assms(1) by (auto simp: find_best_worker_def scored_def split: list.splits)
  then have "(s, p) \<in> set (sort_key (\<lambda>(s, p). (- s, pf_id p)) scored)" by simp
  then have "(s, p) \<in> set scored" by (simp only: set_sort)
  then have "p \<in> set (map snd scored)" by force
  also have "map snd scored = find_workers order required reg" by (simp add: scored_def comp_def case_prod_unfold)
  finally show "p \<in> set (list_profiles reg)" "has_all_capabilities p required"
    using find_workers_exact [OF assms(2), of order required] assms(3) by (auto simp: fair_order_def)
qed

lemma find_best_none:
  assumes "find_best_worker order clk required reg = None" "index_exact reg" "fair_order order"
  shows "\<forall>p \<in> set (list_profiles reg). \<not> has_all_capabilities p required"
proof -
  have "find_workers order required reg = []"
    using assms(1) by (auto simp: find_best_worker_def split: list.splits prod.splits dest: arg_cong [where f = length])
  with find_workers_exact [OF assms(2), of order required] assms(3) show ?thesis by (auto simp: fair_order_def)
qed

text \<open>The executor without its search for stripped capabilities.\<close>

definition execute_strict ::
  "(string list \<Rightarrow> string list) \<Rightarrow> (nat \<Rightarrow> time) \<Rightarrow> exec_env \<Rightarrow> capability_registry \<Rightarrow> task_graph \<Rightarrow> string \<Rightarrow> task_request
    \<Rightarrow> exec_state \<Rightarrow> exec_state \<times> exec_result" where
  "execute_strict order clk e reg g task q s =
     (case get_node g task of
        None \<Rightarrow> (s, refused (''task '' @ task @ '' not in dag''))
      | Some n \<Rightarrow>
          (case (case get_profile (tq_profile_id q) reg of Some p \<Rightarrow> Some p | None \<Rightarrow> find_best_worker order clk (node_required_capabilities n) reg) of
             None \<Rightarrow> (s, refused ''no_matching_worker'')
           | Some p \<Rightarrow>
               if has_all_capabilities p (node_required_capabilities n) then execute_assignment e (assignment_of task q n) p s
               else (s, refused ''no_matching_worker'')))"

text \<open>The search for stripped capabilities is dead: whatever profile it finds is refused afterwards, so the executor behaves
  as one without it.\<close>

theorem stripped_fallback_is_dead:
  assumes "index_exact reg" "fair_order order"
  shows "execute_task order clk clk' e reg g task q s = execute_strict order clk e reg g task q s"
proof (cases "get_node g task")
  case None
  then show ?thesis by (simp add: execute_task_def execute_strict_def)
next
  case (Some n)
  let ?req = "node_required_capabilities n"
  show ?thesis
  proof (cases "get_profile (tq_profile_id q) reg = None \<and> find_best_worker order clk ?req reg = None")
    case True
    then have none: "\<forall>p \<in> set (list_profiles reg). \<not> set ?req \<subseteq> set (pf_capabilities p)"
      using find_best_none [OF _ assms] unfolding has_all_capabilities_def by blast
    have "\<not> set ?req \<subseteq> set (pf_capabilities p)" if "find_best_worker order clk' cs reg = Some p" for cs p
      using find_best_listed(1) [OF that assms] none by blast
    with True Some show ?thesis
      by (auto simp: execute_task_def execute_strict_def select_worker_def Let_def split: option.split)
  next
    case False
    with Some show ?thesis
      by (auto simp: execute_task_def execute_strict_def select_worker_def has_all_capabilities_def split: option.split)
  qed
qed

text \<open>C38: A task staffed by stripping is never executed: when no profile has all the capabilities a task asks for, the builder may
  still give it an agent, and the scheduler lets that agent take it, but every execution is refused and changes nothing.\<close>

theorem stripped_task_is_refused:
  assumes "match_profile te roles reg n = Some p" "index_exact reg" "fair_order (tm_order te)" "known_caps (node_required_capabilities n)"
    "get_node g task = Some n" "\<forall>p \<in> set (list_profiles reg). \<not> has_all_capabilities p (node_required_capabilities n)" "fair_order order"
    "ag_capabilities a = sort (remdups (pf_capabilities p))" "bt_required_capabilities t = node_required_capabilities n"
  shows "agent_can_serve a t \<and> execute_task order clk clk' e reg g task q s = (s, refused ''no_matching_worker'')"
proof
  have "served (node_required_capabilities n) (ag_capabilities a)"
    using match_profile_served(2) [OF assms(1-4)] served_cong [of "ag_capabilities a" "pf_capabilities p"] assms(8) by simp
  then show "agent_can_serve a t" by (simp add: agent_can_serve_iff assms(9))
  have "\<not> has_all_capabilities p' (node_required_capabilities n)" if "get_profile i reg = Some p'" for i p'
    using that assms(6) by (auto simp: get_profile_def list_profiles_def dest!: map_of_SomeD)
  moreover have "find_best_worker order clk (node_required_capabilities n) reg = None"
    using find_best_listed [OF _ assms(2,7)] assms(6) by (cases "find_best_worker order clk (node_required_capabilities n) reg") blast+
  moreover have "\<not> has_all_capabilities p' (node_required_capabilities n)" if "find_best_worker order clk' cs reg = Some p'" for cs p'
    using find_best_listed(1) [OF that assms(2,7)] assms(6) by blast
  ultimately show "execute_task order clk clk' e reg g task q s = (s, refused ''no_matching_worker'')"
    using assms(5) by (auto simp: execute_task_def select_worker_def has_all_capabilities_def Let_def split: option.split)
qed

section \<open>Runs\<close>

lemma crew_web: "get_node (crew_graph crew_plan) ''web'' = Some (snd (crew_task ''web'' [''plan''] [''coding'', ''web_research'']))"
  by (simp add: crew_graph_def crew_plan_def crew_task_def)

definition crew_request :: task_request where
  "crew_request = \<lparr>tq_profile_id = ''coder'', tq_input_refs = [], tq_repair_sources = [], tq_worktree = False\<rparr>"

theorem stripped_fallback_is_dead_witness:
  "execute_task id (\<lambda>_. 0) (\<lambda>_. 0) (shop_env (\<lambda>_. False)) default_registry (crew_graph crew_plan) ''api'' crew_request shop_state =
     execute_strict id (\<lambda>_. 0) (shop_env (\<lambda>_. False)) default_registry (crew_graph crew_plan) ''api'' crew_request shop_state \<and>
   xr_success (snd (execute_task id (\<lambda>_. 0) (\<lambda>_. 0) (shop_env (\<lambda>_. False)) default_registry (crew_graph crew_plan) ''api'' crew_request shop_state))"
proof
  show "execute_task id (\<lambda>_. 0) (\<lambda>_. 0) (shop_env (\<lambda>_. False)) default_registry (crew_graph crew_plan) ''api'' crew_request shop_state =
     execute_strict id (\<lambda>_. 0) (shop_env (\<lambda>_. False)) default_registry (crew_graph crew_plan) ''api'' crew_request shop_state"
    by (rule stripped_fallback_is_dead [OF default_exact]) (simp add: fair_order_def)
  show "xr_success (snd (execute_task id (\<lambda>_. 0) (\<lambda>_. 0) (shop_env (\<lambda>_. False)) default_registry (crew_graph crew_plan) ''api'' crew_request shop_state))"
    by code_simp
qed

lemma crew_coder: "match_profile crew_env crew_roles default_registry (snd (crew_task ''web'' [''plan''] [''coding'', ''web_research''])) = Some shop_coder"
  by code_simp

lemma no_profile_has_both: "list_all (\<lambda>p. \<not> has_all_capabilities p [''coding'', ''web_research'']) (list_profiles default_registry)"
  by code_simp

definition crew_agent :: agent_instance where
  "crew_agent = crew_members crew_plan ! 1"

lemma crew_agent_caps: "ag_capabilities crew_agent = sort (remdups (pf_capabilities shop_coder))"
  by code_simp

theorem stripped_task_is_refused_witness:
  "agent_can_serve crew_agent (crew_row [''coding'', ''web_research'']) \<and>
   execute_task id (\<lambda>_. 0) (\<lambda>_. 0) (shop_env (\<lambda>_. False)) default_registry (crew_graph crew_plan) ''web'' crew_request shop_state =
     (shop_state, refused ''no_matching_worker'')"
  by (rule stripped_task_is_refused [OF crew_coder default_exact crew_order _ crew_web _ _ crew_agent_caps])
    (use no_profile_has_both in \<open>simp_all add: crew_task_def crew_row_def default_node_def known_caps_def BUILDER_PRIMARY_CAPS_def
      BUILDER_TOOL_CAPS_def fair_order_def list_all_iff\<close>)

end
