(* ===== verification/Dynamic_Team_Props.thy ===== *)
theory Dynamic_Team_Props
  imports Dynamic_Team Executor_Ends Agent_Registry_Props
begin

text \<open>
  Delegation: over any history of spawns, by whomever and for whichever run, a child never has a sandboxed tool its parent
  lacks, no chain of delegation is longer than the budget allows, and no run grows beyond the size of a team.
\<close>

section \<open>Rights\<close>

text \<open>The sandboxed tools an agent of a profile is given.\<close>

abbreviation sandbox_rights :: "agent_profile \<Rightarrow> string set" where
  "sandbox_rights p \<equiv> set (restricted_tools (pf_tools p) [])"

lemma child_rights: "sandbox_rights (restricted_profile c p a) \<subseteq> sandbox_rights c \<inter> sandbox_rights p"
  by (auto simp: restricted_profile_def child_policy_def restricted_tools_def gate_tool_def split: if_splits)

section \<open>Steps of a spawn\<close>

text \<open>A step that leaves profiles, links and the listed agents alone.\<close>

definition still :: "'a spawning \<Rightarrow> bool" where
  "still m \<longleftrightarrow> (\<forall>s. dy_profiles (fst (m s)) = dy_profiles s \<and> dy_links (fst (m s)) = dy_links s \<and>
     reg_agents (dy_registry (fst (m s))) = reg_agents (dy_registry s))"

lemma still_D:
  assumes "still m" "m s = (s', x)"
  shows "dy_profiles s' = dy_profiles s" "dy_links s' = dy_links s" "reg_agents (dy_registry s') = reg_agents (dy_registry s)"
  using assms unfolding still_def by (metis fst_conv)+

lemma still_basic [intro]: "still (dret x)" "still (dfail err)"
  by (simp_all add: still_def dret_def dfail_def)

lemma still_dthen [intro]: "still m \<Longrightarrow> (\<And>x. still (k x)) \<Longrightarrow> still (dthen m k)"
  by (simp add: still_def dthen_def split: prod.split sum.split) (metis fst_conv)

lemma still_child_session: "still (open_child_session e a)"
  by (auto simp: still_def open_child_session_def dret_def dfail_def split: prod.split sum.split)

lemma still_log: "still (log_event e k r kind agent task payload)"
  by (auto simp: still_def log_event_def dret_def dfail_def split: prod.split sum.split)

lemma still_audits: "still (log_audits e k r as)"
  by (induction as arbitrary: k) (auto intro: still_log)

lemma still_emit: "still (emit_spawned e r context)"
  by (auto simp: emit_spawned_def case_prod_unfold intro: still_audits)

lemma dthen_cases:
  assumes "dthen m k s = (t, y)"
  obtains err where "m s = (t, Inl err)" "y = Inl err" | s' v where "m s = (s', Inr v)" "k v s' = (t, y)"
  using assms by (auto simp: dthen_def split: prod.splits sum.splits)

text \<open>The fields no operation on agents changes.\<close>

definition agent_origin :: "agent_instance \<Rightarrow> string \<times> string \<times> string" where
  "agent_origin a = (ag_agent_id a, ag_run_id a, ag_profile_id a)"

lemma update_status_origin: "agent_origin (fst (agent_update_status t1 t2 st a)) = agent_origin a"
  by (simp add: agent_origin_def agent_update_status_def Let_def)

lemma stop_effect:
  assumes "get_agent reg i = Some a"
  shows "\<exists>a'. reg_agents (fst (stop wr clk i reg)) = AList.update i a' (reg_agents reg) \<and> agent_origin a' = agent_origin a"
proof -
  have same: "AList.update i a (reg_agents reg) = reg_agents reg" using assms by (simp add: get_agent_def update_triv)
  let ?a1 = "fst (agent_update_status (clk 0) (clk 1) Agent_STOPPING a)"
  let ?a2 = "fst (agent_update_status (clk 2) (clk 3) Agent_STOPPED ?a1)"
  have "reg_agents (fst (stop wr clk i reg)) \<in> {reg_agents reg, AList.update i ?a1 (reg_agents reg), AList.update i ?a2 (reg_agents reg)}"
    by (auto simp: stop_def assms case_prod_unfold)
  then consider "reg_agents (fst (stop wr clk i reg)) = reg_agents reg" | "reg_agents (fst (stop wr clk i reg)) = AList.update i ?a1 (reg_agents reg)"
    | "reg_agents (fst (stop wr clk i reg)) = AList.update i ?a2 (reg_agents reg)" by blast
  then show ?thesis by cases (auto simp: update_status_origin same intro: exI [of _ a] exI [of _ ?a1] exI [of _ ?a2])
qed

lemma child_created:
  assumes "create_child e args s = (s', y)" "aa_agent_id_override args = None"
  obtains a where "reg_agents (dy_registry s') = AList.update (de_agent_id e) a (reg_agents (dy_registry s))"
    "agent_origin a = (de_agent_id e, aa_run_id args, aa_profile_id args)" "dy_profiles s' = dy_profiles s" "dy_links s' = dy_links s"
    "\<And>v. y = Inr v \<Longrightarrow> v = a"
  using assms
  by (auto simp: create_child_def create_agent_def register_agent_def persist_agent_def Let_def dret_def dfail_def or_str_def
      agent_heartbeat_def agent_origin_def split: if_splits)

text \<open>What settling a child may change: the child itself, and its link.\<close>

definition links_with :: "string \<Rightarrow> string \<Rightarrow> int \<Rightarrow> (string \<times> agent_link) list \<Rightarrow> (string \<times> agent_link) list \<Rightarrow> bool" where
  "links_with i parent depth ls ls' \<longleftrightarrow>
     ls' = ls \<or> (\<exists>l. parent \<noteq> [] \<and> ls' = AList.update i l ls \<and> al_parent l = parent \<and> al_depth l = depth)"

definition settled :: "string \<Rightarrow> string \<Rightarrow> int \<Rightarrow> dyn_state \<Rightarrow> dyn_state \<Rightarrow> bool" where
  "settled i parent depth s t \<longleftrightarrow> dy_profiles t = dy_profiles s \<and> links_with i parent depth (dy_links s) (dy_links t) \<and>
     (\<exists>a a'. get_agent (dy_registry s) i = Some a \<and> agent_origin a' = agent_origin a \<and>
       reg_agents (dy_registry t) = AList.update i a' (reg_agents (dy_registry s)))"

definition settles :: "string \<Rightarrow> string \<Rightarrow> int \<Rightarrow> 'a spawning \<Rightarrow> bool" where
  "settles i parent depth m \<longleftrightarrow> (\<forall>s. get_agent (dy_registry s) i \<noteq> None \<longrightarrow> settled i parent depth s (fst (m s)))"

lemma links_with_trans: "links_with i p d l1 l2 \<Longrightarrow> links_with i p d l2 l3 \<Longrightarrow> links_with i p d l1 l3"
  unfolding links_with_def by (metis update_last)

lemma settled_trans: "settled i p d s t \<Longrightarrow> settled i p d t u \<Longrightarrow> settled i p d s u"
  unfolding settled_def by (auto simp: get_agent_def update_last intro: links_with_trans)

lemma settled_present: "settled i p d s t \<Longrightarrow> get_agent (dy_registry t) i \<noteq> None"
  by (auto simp: settled_def get_agent_def)

lemma kept: "get_agent reg i = Some a \<Longrightarrow> reg_agents reg = AList.update i a (reg_agents reg)"
  by (simp add: get_agent_def update_triv)

lemma settles_quiet: "still m \<Longrightarrow> settles i p d m"
  unfolding settles_def settled_def still_def links_with_def by (auto intro: kept)

lemma settles_dthen:
  assumes "settles i p d m" "\<And>v. settles i p d (k v)"
  shows "settles i p d (dthen m k)"
  unfolding settles_def
proof (intro allI impI)
  fix s :: dyn_state
  assume present: "get_agent (dy_registry s) i \<noteq> None"
  obtain s' x where m: "m s = (s', x)" by force
  then have first: "settled i p d s s'" using assms(1) present unfolding settles_def by (metis fst_conv)
  show "settled i p d s (fst (dthen m k s))"
  proof (cases x)
    case (Inl err)
    with first m show ?thesis by (simp add: dthen_def)
  next
    case (Inr v)
    have "settled i p d s' (fst (k v s'))" using assms(2) settled_present [OF first] unfolding settles_def by blast
    with settled_trans [OF first] m Inr show ?thesis by (simp add: dthen_def)
  qed
qed

lemma settles_link: "al_child l = i \<Longrightarrow> al_parent l = p \<Longrightarrow> al_depth l = d \<Longrightarrow> p \<noteq> [] \<Longrightarrow> settles i p d (save_link l)"
  unfolding settles_def settled_def save_link_def dret_def links_with_def by (auto intro: kept)

lemma settles_stop: "settles i p d (stop_child e i)"
  unfolding settles_def
proof (intro allI impI)
  fix s :: dyn_state
  assume "get_agent (dy_registry s) i \<noteq> None"
  then obtain a where a: "get_agent (dy_registry s) i = Some a" by blast
  have "dy_registry (fst (stop_child e i s)) = fst (stop (de_write e 1) (\<lambda>k. de_clock e (100 + k)) i (dy_registry s))"
      "dy_profiles (fst (stop_child e i s)) = dy_profiles s" "dy_links (fst (stop_child e i s)) = dy_links s"
    by (simp_all add: stop_child_def dret_def dfail_def split: prod.split sum.split)
  with stop_effect [OF a] a show "settled i p d s (fst (stop_child e i s))" by (auto simp: settled_def links_with_def)
qed

lemma child_settles: "settles (ag_agent_id a) parent depth (settle_child e r by_whom parent depth p a)"
  unfolding settle_child_def Let_def
  by (auto intro!: settles_dthen settles_link settles_stop settles_quiet [OF still_child_session] settles_quiet [OF still_emit]
      settles_quiet [OF still_log] settles_quiet [OF still_basic(1)] settles_quiet [OF still_basic(2)])

section \<open>What a spawn does\<close>

lemma profile_chosen:
  assumes "child_profile e required pa s = (s1, x)" "index_exact (dy_profiles s)" "fair_order (de_order e)"
  shows "dy_registry s1 = dy_registry s" "dy_links s1 = dy_links s" "x = Inl err \<Longrightarrow> s1 = s"
    "x = Inr p \<Longrightarrow> pa = None \<Longrightarrow> s1 = s"
    "x = Inr p \<Longrightarrow> pa = Some a \<Longrightarrow> \<exists>c q. get_profile (pf_id c) (dy_profiles s) = Some c \<and>
       get_profile (ag_profile_id a) (dy_profiles s) = Some q \<and> p = restricted_profile c q (ag_agent_id a) \<and>
       dy_profiles s1 = register_profile p (dy_profiles s)"
proof -
  have listed: "get_profile (pf_id c) (dy_profiles s) = Some c" if "find_best_worker (de_order e) (de_scored_at e) required (dy_profiles s) = Some c" for c
    using find_best_listed(1) [OF that assms(2,3)] index_exactD(1) [OF assms(2)] index_exactD(5) [OF assms(2)]
    by (fastforce simp: list_profiles_def get_profile_def)
  show "dy_registry s1 = dy_registry s" "dy_links s1 = dy_links s" "x = Inl err \<Longrightarrow> s1 = s" "x = Inr p \<Longrightarrow> pa = None \<Longrightarrow> s1 = s"
    using assms(1) by (auto simp: child_profile_def dret_def dfail_def restrict_to_parent_def Let_def split: option.splits)
  assume "x = Inr p" "pa = Some a"
  then show "\<exists>c q. get_profile (pf_id c) (dy_profiles s) = Some c \<and>
       get_profile (ag_profile_id a) (dy_profiles s) = Some q \<and> p = restricted_profile c q (ag_agent_id a) \<and>
       dy_profiles s1 = register_profile p (dy_profiles s)"
    using assms(1) listed by (auto simp: child_profile_def dret_def dfail_def restrict_to_parent_def Let_def split: option.splits)
qed

lemma admit_state: "admit b pol r parent s = (s1, x) \<Longrightarrow> s1 = s"
  by (auto simp: admit_def dret_def dfail_def split: if_splits option.splits)

lemma admitted:
  assumes "admit b pol r parent s = (s1, Inr (pa, depth))"
  shows "int (length (agents_by_run r (dy_registry s))) < min (tb_max_team_size b) (tb_max_agents_per_run b)"
    and "parent \<noteq> [] \<Longrightarrow> \<exists>a. pa = Some a \<and> get_agent (dy_registry s) parent = Some a \<and> depth = spawn_depth parent s \<and>
      depth \<le> tb_max_spawn_depth b"
    and "parent = [] \<Longrightarrow> pa = None"
  using assms by (auto simp: admit_def dret_def dfail_def split: if_splits option.splits)

text \<open>Nothing; or one new agent, with the profile that was chosen, and perhaps its link.\<close>

lemma spawn_effect:
  assumes "dynamic_spawn e b pol r team required by_whom parent s = (t, y)" "index_exact (dy_profiles s)" "fair_order (de_order e)"
  obtains (unchanged) "t = s"
  | (child) pa depth s1 p a where "admit b pol r parent s = (s, Inr (pa, depth))" "child_profile e required pa s = (s1, Inr p)"
      "reg_agents (dy_registry t) = AList.update (de_agent_id e) a (reg_agents (dy_registry s))" "agent_origin a = (de_agent_id e, r, pf_id p)"
      "dy_profiles t = dy_profiles s1" "links_with (de_agent_id e) parent depth (dy_links s) (dy_links t)"
proof -
  from assms(1) have run: "dthen (admit b pol r parent) (\<lambda>(pa, depth). dthen (child_profile e required pa) (\<lambda>p.
      dthen (create_child e (child_args b r team pa (agents_by_run r (dy_registry s)) p)) (settle_child e r by_whom parent depth p))) s = (t, y)"
    (is "dthen _ ?k s = _") by (simp add: dynamic_spawn_def Let_def)
  from run show thesis
  proof (rule dthen_cases)
    fix err assume "admit b pol r parent s = (t, Inl err)"
    with admit_state unchanged show thesis by blast
  next
    fix s0 v assume a0: "admit b pol r parent s = (s0, Inr v)" and k: "?k v s0 = (t, y)"
    obtain pa depth where v: "v = (pa, depth)" by force
    have s0: "s0 = s" using admit_state [OF a0] .
    from k [unfolded v s0 prod.case] show thesis
    proof (rule dthen_cases)
      fix err assume "child_profile e required pa s = (t, Inl err)"
      with profile_chosen(3) [OF this assms(2,3)] unchanged show thesis by blast
    next
      fix s1 p assume c: "child_profile e required pa s = (s1, Inr p)"
        and rest: "dthen (create_child e (child_args b r team pa (agents_by_run r (dy_registry s)) p)) (settle_child e r by_whom parent depth p) s1 = (t, y)"
      note same = profile_chosen(1,2) [OF c assms(2,3)]
      note out = child [OF a0 [unfolded v s0] c]
      obtain s2 z where made: "create_child e (child_args b r team pa (agents_by_run r (dy_registry s)) p) s1 = (s2, z)" by force
      obtain a where a: "reg_agents (dy_registry s2) = AList.update (de_agent_id e) a (reg_agents (dy_registry s))"
        "agent_origin a = (de_agent_id e, r, pf_id p)" "dy_profiles s2 = dy_profiles s1" "dy_links s2 = dy_links s" "\<And>v. z = Inr v \<Longrightarrow> v = a"
        using child_created [OF made] same by (metis (no_types, lifting) agent_args.select_convs(1,5,10) child_args_def)
      show thesis
      proof (cases z)
        case (Inl err)
        with rest made have "t = s2" by (simp add: dthen_def)
        with a show thesis by (intro out) (auto simp: links_with_def)
      next
        case (Inr a')
        with a(5) rest made have "settle_child e r by_whom parent depth p a s2 = (t, y)" by (simp add: dthen_def)
        moreover have "ag_agent_id a = de_agent_id e" "get_agent (dy_registry s2) (ag_agent_id a) = Some a"
          using a(1,2) by (simp_all add: agent_origin_def get_agent_def)
        ultimately have "settled (de_agent_id e) parent depth s2 t" using child_settles [of a parent depth e r by_whom p]
          unfolding settles_def by (metis fst_conv option.discI)
        with a show thesis by (auto simp: settled_def get_agent_def update_last intro!: out)
      qed
    qed
  qed
qed

section \<open>Histories\<close>

text \<open>Ids of agents are generated: new, and without a colon.\<close>

definition plain_id :: "string \<Rightarrow> bool" where
  "plain_id i \<longleftrightarrow> CHR '':'' \<notin> set i"

definition fresh_child :: "dyn_env \<Rightarrow> dyn_state \<Rightarrow> bool" where
  "fresh_child e s \<longleftrightarrow> get_agent (dy_registry s) (de_agent_id e) = None \<and> plain_id (de_agent_id e)"

text \<open>What happens between two spawns: agents are reserved, stopped and so on, metrics and logs change.\<close>

definition undisturbed :: "dyn_state \<Rightarrow> dyn_state \<Rightarrow> bool" where
  "undisturbed s t \<longleftrightarrow> dy_links t = dy_links s \<and> cr_profiles (dy_profiles t) = cr_profiles (dy_profiles s) \<and>
     cr_index (dy_profiles t) = cr_index (dy_profiles s) \<and>
     map (\<lambda>(i, a). (i, agent_origin a)) (reg_agents (dy_registry t)) = map (\<lambda>(i, a). (i, agent_origin a)) (reg_agents (dy_registry s))"

inductive spawns :: "team_budget \<Rightarrow> spawn_policy \<Rightarrow> dyn_state \<Rightarrow> dyn_state \<Rightarrow> bool" for b pol s where
  start: "spawns b pol s s"
| elsewhere: "spawns b pol s t \<Longrightarrow> undisturbed t u \<Longrightarrow> spawns b pol s u"
| spawn: "spawns b pol s t \<Longrightarrow> fresh_child e t \<Longrightarrow> fair_order (de_order e) \<Longrightarrow>
    dynamic_spawn e b pol r team required by_whom parent t = (u, y) \<Longrightarrow> spawns b pol s u"

text \<open>A state before any delegation.\<close>

definition founded :: "dyn_state \<Rightarrow> bool" where
  "founded s \<longleftrightarrow> wf_registry (dy_registry s) \<and> index_exact (dy_profiles s) \<and> (\<forall>i a. get_agent (dy_registry s) i = Some a \<longrightarrow> plain_id i) \<and>
     dy_links s = [] \<and> (\<forall>i a. plain_id a \<longrightarrow> get_profile (child_profile_id i a) (dy_profiles s) = None)"

text \<open>\<open>c\<close> was brought in by \<open>a\<close>, over \<open>n\<close> links.\<close>

inductive descends :: "dyn_state \<Rightarrow> string \<Rightarrow> string \<Rightarrow> nat \<Rightarrow> bool" for s a where
  itself: "descends s a a 0"
| linked: "map_of (dy_links s) c = Some l \<Longrightarrow> descends s a (al_parent l) n \<Longrightarrow> descends s a c (Suc n)"

definition profile_of :: "dyn_state \<Rightarrow> string \<Rightarrow> agent_profile option" where
  "profile_of s i = (case get_agent (dy_registry s) i of None \<Rightarrow> None | Some a \<Rightarrow> get_profile (ag_profile_id a) (dy_profiles s))"

lemma child_id_inj:
  assumes "child_profile_id i a = child_profile_id j c" "plain_id a" "plain_id c"
  shows "i = j" "a = c"
proof -
  have tail: "rev (takeWhile (\<lambda>x. x \<noteq> CHR '':'') (rev (child_profile_id i a))) = a" if "plain_id a" for i a
    using that by (simp add: child_profile_id_def plain_id_def, subst takeWhile_append2) auto
  show "a = c" using tail [OF assms(2), of i] tail [OF assms(3), of j] assms(1) by simp
  with assms(1) show "i = j" by (simp add: child_profile_id_def)
qed

text \<open>The invariant: who may do what, by profile and by link, and how deep the links go.\<close>

definition link_ok :: "team_budget \<Rightarrow> dyn_state \<Rightarrow> string \<Rightarrow> agent_link \<Rightarrow> bool" where
  "link_ok b s i l \<longleftrightarrow>
     (\<exists>x p. profile_of s i = Some x \<and> profile_of s (al_parent l) = Some p \<and> sandbox_rights x \<subseteq> sandbox_rights p) \<and>
     al_depth l = spawn_depth (al_parent l) s \<and> 1 \<le> al_depth l \<and> al_depth l \<le> tb_max_spawn_depth b"

definition lawful :: "team_budget \<Rightarrow> dyn_state \<Rightarrow> bool" where
  "lawful b s \<longleftrightarrow> wf_registry (dy_registry s) \<and> index_exact (dy_profiles s) \<and> (\<forall>i a. get_agent (dy_registry s) i = Some a \<longrightarrow> plain_id i) \<and>
     (\<forall>i l. map_of (dy_links s) i = Some l \<longrightarrow> link_ok b s i l) \<and>
     (\<forall>i a x. plain_id a \<longrightarrow> get_profile (child_profile_id i a) (dy_profiles s) = Some x \<longrightarrow>
        (\<exists>c p. get_profile i (dy_profiles s) = Some c \<and> profile_of s a = Some p \<and> x = restricted_profile c p a))"

lemma lawfulD:
  assumes "lawful b s"
  shows "wf_registry (dy_registry s)" "index_exact (dy_profiles s)" "get_agent (dy_registry s) i = Some a \<Longrightarrow> plain_id i"
    "map_of (dy_links s) i = Some l \<Longrightarrow> link_ok b s i l"
    "plain_id j \<Longrightarrow> get_profile (child_profile_id i j) (dy_profiles s) = Some x \<Longrightarrow>
        \<exists>c p. get_profile i (dy_profiles s) = Some c \<and> profile_of s j = Some p \<and> x = restricted_profile c p j"
  using assms unfolding lawful_def by blast+

lemma founded_lawful: "founded s \<Longrightarrow> lawful b s"
  by (auto simp: founded_def lawful_def)

lemma undisturbed_agents:
  assumes "undisturbed s t"
  shows "map_option agent_origin (get_agent (dy_registry t) i) = map_option agent_origin (get_agent (dy_registry s) i)"
    "map fst (reg_agents (dy_registry t)) = map fst (reg_agents (dy_registry s))"
proof -
  have "map_of (map (\<lambda>(i, a). (i, agent_origin a)) xs) i = map_option agent_origin (map_of xs i)" for xs :: "(string \<times> agent_instance) list"
    by (induction xs) auto
  then show "map_option agent_origin (get_agent (dy_registry t) i) = map_option agent_origin (get_agent (dy_registry s) i)"
    using assms unfolding undisturbed_def get_agent_def by metis
  have "map fst xs = map fst (map (\<lambda>(i, a). (i, agent_origin a)) xs)" for xs :: "(string \<times> agent_instance) list"
    by (simp add: comp_def case_prod_unfold)
  then show "map fst (reg_agents (dy_registry t)) = map fst (reg_agents (dy_registry s))"
    using assms unfolding undisturbed_def by metis
qed

lemma lawful_undisturbed:
  assumes "lawful b s" "undisturbed s t"
  shows "lawful b t"
proof -
  have prof: "get_profile i (dy_profiles t) = get_profile i (dy_profiles s)" for i
    using assms(2) by (simp add: undisturbed_def get_profile_def)
  have of: "profile_of t = profile_of s"
  proof
    show "profile_of t i = profile_of s i" for i
      using undisturbed_agents(1) [OF assms(2), of i] prof
      by (auto simp: profile_of_def agent_origin_def split: option.splits)
  qed
  have depth: "spawn_depth i t = spawn_depth i s" "dy_links t = dy_links s" for i
    using assms(2) by (simp_all add: undisturbed_def spawn_depth_def link_for_def)
  have ids: "plain_id i" if "get_agent (dy_registry t) i = Some a" for i a
    using undisturbed_agents(1) [OF assms(2), of i] lawfulD(3) [OF assms(1)] that by (cases "get_agent (dy_registry s) i") auto
  have wf: "wf_registry (dy_registry t)"
    unfolding wf_registry_def
  proof (intro conjI ballI, goal_cases)
    case 1
    show ?case using undisturbed_agents(2) [OF assms(2)] lawfulD(1) [OF assms(1)] by (simp add: wf_registry_def)
  next
    case (2 x)
    obtain i a where x: "x = (i, a)" by force
    from 2 have "(i, agent_origin a) \<in> set (map (\<lambda>(i, a). (i, agent_origin a)) (reg_agents (dy_registry t)))" by (force simp: x)
    also have "\<dots> = set (map (\<lambda>(i, a). (i, agent_origin a)) (reg_agents (dy_registry s)))" using assms(2) by (simp add: undisturbed_def)
    finally show ?case using lawfulD(1) [OF assms(1)] by (auto simp: x wf_registry_def agent_origin_def)
  qed
  have "index_exact (dy_profiles t)"
    using lawfulD(2) [OF assms(1)] assms(2) by (simp add: undisturbed_def index_exact_def)
  with wf ids assms(1) show ?thesis unfolding lawful_def link_ok_def of prof depth by blast
qed

lemma get_registered: "get_profile i (register_profile p reg) = (if i = pf_id p then Some p else get_profile i reg)"
  by (simp add: register_profile_def Let_def get_profile_def map_of_update)

text \<open>The chosen profile: what was registered stays as it was, and a child has no more rights than its parent.\<close>

definition well_chosen :: "dyn_state \<Rightarrow> dyn_state \<Rightarrow> agent_instance option \<Rightarrow> agent_profile \<Rightarrow> bool" where
  "well_chosen s s1 pa p \<longleftrightarrow> index_exact (dy_profiles s1) \<and>
     (\<forall>i x. get_profile i (dy_profiles s) = Some x \<longrightarrow> get_profile i (dy_profiles s1) = Some x) \<and>
     (\<forall>i j x. plain_id j \<longrightarrow> get_profile (child_profile_id i j) (dy_profiles s1) = Some x \<longrightarrow>
        (\<exists>c q. get_profile i (dy_profiles s1) = Some c \<and> profile_of s j = Some q \<and> x = restricted_profile c q j)) \<and>
     (\<forall>a. pa = Some a \<longrightarrow> get_profile (pf_id p) (dy_profiles s1) = Some p \<and>
        (\<exists>q. profile_of s (ag_agent_id a) = Some q \<and> sandbox_rights p \<subseteq> sandbox_rights q))"

lemma restricted_choice:
  assumes "lawful b s" "get_profile (pf_id c) (dy_profiles s) = Some c" "profile_of s j = Some q" "plain_id j"
    "p = restricted_profile c q j" "dy_profiles s1 = register_profile p (dy_profiles s)" "\<And>a. pa = Some a \<Longrightarrow> ag_agent_id a = j"
  shows "well_chosen s s1 pa p"
proof -
  have id: "pf_id p = child_profile_id (pf_id c) j" by (simp add: assms(5) restricted_profile_def)
  have same: "x = p" if "get_profile (pf_id p) (dy_profiles s) = Some x" for x
    using lawfulD(5) [OF assms(1,4) that [unfolded id]] assms(2,3,5) by auto
  have mono: "get_profile i (dy_profiles s1) = Some x" if "get_profile i (dy_profiles s) = Some x" for i x
    using that same by (auto simp: assms(6) get_registered)
  have "\<exists>c q. get_profile i (dy_profiles s1) = Some c \<and> profile_of s k = Some q \<and> x = restricted_profile c q k"
    if "plain_id k" "get_profile (child_profile_id i k) (dy_profiles s1) = Some x" for i k x
  proof (cases "child_profile_id i k = pf_id p")
    case True
    with child_id_inj [of i k "pf_id c" j] that(1) assms(4) id have "i = pf_id c" "k = j" by auto
    moreover have "x = p" using that(2) True by (simp add: assms(6) get_registered)
    ultimately show ?thesis using mono [OF assms(2)] assms(3,5) by blast
  next
    case False
    with that(2) have "get_profile (child_profile_id i k) (dy_profiles s) = Some x" by (simp add: assms(6) get_registered)
    from lawfulD(5) [OF assms(1) that(1) this] mono show ?thesis by blast
  qed
  moreover have "sandbox_rights p \<subseteq> sandbox_rights q" using child_rights [of c q j] by (simp add: assms(5))
  moreover have "index_exact (dy_profiles s1)" unfolding assms(6) by (rule register_exact [OF lawfulD(2) [OF assms(1)]])
  ultimately show ?thesis using mono assms(3,7) unfolding well_chosen_def by (auto simp: assms(6) get_registered)
qed

lemma chosen_well:
  assumes "lawful b s" "child_profile e required pa s = (s1, Inr p)" "fair_order (de_order e)"
    and parent: "\<And>a. pa = Some a \<Longrightarrow> get_agent (dy_registry s) (ag_agent_id a) = Some a"
  shows "well_chosen s s1 pa p"
proof (cases pa)
  case None
  with profile_chosen(4) [OF assms(2) lawfulD(2) [OF assms(1)] assms(3) refl] lawfulD(2,5) [OF assms(1)]
  show ?thesis by (simp add: well_chosen_def)
next
  case (Some a)
  obtain c q where c: "get_profile (pf_id c) (dy_profiles s) = Some c" and q: "get_profile (ag_profile_id a) (dy_profiles s) = Some q"
    and p: "p = restricted_profile c q (ag_agent_id a)" and reg: "dy_profiles s1 = register_profile p (dy_profiles s)"
    using profile_chosen(5) [OF assms(2) lawfulD(2) [OF assms(1)] assms(3) refl Some] by blast
  have "profile_of s (ag_agent_id a) = Some q" using parent [OF Some] q by (simp add: profile_of_def)
  from restricted_choice [OF assms(1) c this lawfulD(3) [OF assms(1) parent [OF Some]] p reg] Some show ?thesis by blast
qed

text \<open>The links after a spawn are in order, if the child's profile is and its id is new.\<close>

lemma links_after_spawn:
  assumes "lawful b s" "get_agent (dy_registry s) i = None" "links_with i parent depth (dy_links s) (dy_links t)"
    and of: "\<And>j x. profile_of s j = Some x \<Longrightarrow> profile_of t j = Some x"
    and child: "parent \<noteq> [] \<Longrightarrow> \<exists>p q. profile_of t i = Some p \<and> profile_of s parent = Some q \<and> sandbox_rights p \<subseteq> sandbox_rights q \<and>
      depth = spawn_depth parent s \<and> depth \<le> tb_max_spawn_depth b"
    and l: "map_of (dy_links t) j = Some l"
  shows "link_ok b t j l"
proof -
  have gone: "profile_of s i = None" using assms(2) by (simp add: profile_of_def)
  have depth: "spawn_depth k t = spawn_depth k s" if "k \<noteq> i" for k
    using assms(3) that by (auto simp: links_with_def spawn_depth_def link_for_def map_of_update)
  have old: "link_ok b t j l" if "map_of (dy_links s) j = Some l"
  proof -
    have "link_ok b s j l" by (rule lawfulD(4) [OF assms(1) that])
    moreover from this gone have "al_parent l \<noteq> i" by (auto simp: link_ok_def)
    ultimately show ?thesis using depth of unfolding link_ok_def by metis
  qed
  have new: "link_ok b t i l" if n: "parent \<noteq> []" "al_parent l = parent" "al_depth l = depth"
  proof -
    obtain p q where c: "profile_of t i = Some p" "profile_of s parent = Some q" "sandbox_rights p \<subseteq> sandbox_rights q"
      "depth = spawn_depth parent s" "depth \<le> tb_max_spawn_depth b" using child [OF n(1)] by blast
    have "1 \<le> spawn_depth parent s"
      using lawfulD(4) [OF assms(1), of parent] by (auto simp: spawn_depth_def link_for_def link_ok_def split: option.split)
    moreover have "parent \<noteq> i" using c(2) gone by auto
    ultimately show ?thesis using c n(2,3) of depth unfolding link_ok_def by metis
  qed
  show ?thesis using assms(3) l old new by (auto simp: links_with_def map_of_update split: if_splits)
qed

lemma lawful_spawn:
  assumes "lawful b s" "dynamic_spawn e b pol r team required by_whom parent s = (t, y)" "fresh_child e s" "fair_order (de_order e)"
  shows "lawful b t"
  using assms(2) lawfulD(2) [OF assms(1)] assms(4)
proof (cases rule: spawn_effect)
  case unchanged
  with assms(1) show ?thesis by simp
next
  case (child pa depth s1 p a)
  let ?i = "de_agent_id e"
  have fresh: "get_agent (dy_registry s) ?i = None" "plain_id ?i" using assms(3) by (simp_all add: fresh_child_def)
  have get: "get_agent (dy_registry t) j = (if j = ?i then Some a else get_agent (dy_registry s) j)" for j
    by (simp add: get_agent_def child(3))
  have origin: "ag_agent_id a = ?i" "ag_profile_id a = pf_id p" using child(4) by (simp_all add: agent_origin_def)
  have pa: "get_agent (dy_registry s) (ag_agent_id x) = Some x \<and> ag_agent_id x = parent" if "pa = Some x" for x
    using admitted(2,3) [OF child(1)] that wf_registry_get [OF lawfulD(1) [OF assms(1)], of parent] by (cases "parent = []") auto
  have "well_chosen s s1 pa p" using pa by (intro chosen_well [OF assms(1) child(2) assms(4)]) blast
  note prof = this [unfolded well_chosen_def child(5) [symmetric]]
  have of: "profile_of t j = Some x" if "profile_of s j = Some x" for j x
    using that fresh(1) prof get by (auto simp: profile_of_def split: option.splits)
  have "\<exists>x q. profile_of t ?i = Some x \<and> profile_of s parent = Some q \<and> sandbox_rights x \<subseteq> sandbox_rights q \<and>
      depth = spawn_depth parent s \<and> depth \<le> tb_max_spawn_depth b" if nested: "parent \<noteq> []"
  proof -
    obtain x where x: "pa = Some x" "depth = spawn_depth parent s \<and> depth \<le> tb_max_spawn_depth b"
      using admitted(2) [OF child(1) nested] by blast
    have "profile_of t ?i = Some p" using get origin prof x(1) by (simp add: profile_of_def)
    then show ?thesis using prof pa x by blast
  qed
  from links_after_spawn [OF assms(1) fresh(1) child(6) of this]
  have "link_ok b t j l" if "map_of (dy_links t) j = Some l" for j l using that by blast
  moreover have "wf_registry (dy_registry t)"
    using wf_registry_put [OF lawfulD(1) [OF assms(1)] origin(1)] child(3) by (simp add: wf_registry_def)
  moreover have "plain_id j" if "get_agent (dy_registry t) j = Some x" for j x
    using that get fresh(2) lawfulD(3) [OF assms(1)] by (auto split: if_splits)
  moreover have "\<exists>c q. get_profile k (dy_profiles t) = Some c \<and> profile_of t j = Some q \<and> x = restricted_profile c q j"
    if "plain_id j" "get_profile (child_profile_id k j) (dy_profiles t) = Some x" for k j x
    using prof that of by metis
  ultimately show ?thesis using prof unfolding lawful_def by blast
qed

lemma spawns_lawful: "spawns b pol s t \<Longrightarrow> founded s \<Longrightarrow> lawful b t"
  by (induction rule: spawns.induct) (auto intro: founded_lawful lawful_undisturbed lawful_spawn)

section \<open>Properties\<close>

lemma descends_rights:
  assumes "lawful b t"
  shows "descends t a c n \<Longrightarrow> profile_of t a = Some p \<Longrightarrow> \<exists>x. profile_of t c = Some x \<and> sandbox_rights x \<subseteq> sandbox_rights p"
proof (induction rule: descends.induct)
  case (linked c l n)
  with lawfulD(4) [OF assms linked(1)] show ?case by (fastforce simp: link_ok_def)
qed auto

text \<open>C39: Delegation never adds a sandboxed tool. Whatever spawns happened, by whom and for which run, and whatever happened
  between them: an agent that another one brought in, over any number of links, is given by its profile no tool for files or
  processes that the profile of the other one does not give.\<close>

theorem delegation_never_adds_tools:
  assumes "spawns b pol s t" "founded s" "descends t a c n" "profile_of t a = Some p"
  shows "\<exists>x. profile_of t c = Some x \<and> set (restricted_tools (pf_tools x) []) \<subseteq> set (restricted_tools (pf_tools p) [])"
  by (rule descends_rights [OF spawns_lawful [OF assms(1,2)] assms(3,4)])

lemma descends_depth:
  assumes "lawful b t"
  shows "descends t a c n \<Longrightarrow> 0 < n \<Longrightarrow> \<exists>l. map_of (dy_links t) c = Some l \<and> int n \<le> al_depth l"
proof (induction rule: descends.induct)
  case (linked c l n)
  note ok = lawfulD(4) [OF assms linked(1), unfolded link_ok_def]
  show ?case
  proof (cases "n = 0")
    case True
    with ok linked(1) show ?thesis by auto
  next
    case False
    with linked.IH ok linked(1) show ?thesis by (auto simp: spawn_depth_def link_for_def)
  qed
qed simp

lemma members_bounded:
  assumes "spawns b pol s t" "founded s"
  shows "int (length (agents_by_run r (dy_registry t))) \<le>
    max (int (length (agents_by_run r (dy_registry s)))) (min (tb_max_team_size b) (tb_max_agents_per_run b))"
  using assms
proof (induction rule: spawns.induct)
  case (elsewhere t u)
  have "length (filter (\<lambda>x. ag_run_id x = r) (map snd xs)) = length (filter (\<lambda>(i, x, q, p). q = r) (map (\<lambda>(i, x). (i, agent_origin x)) xs))"
    for xs :: "(string \<times> agent_instance) list" by (induction xs) (auto simp: agent_origin_def)
  then have "length (agents_by_run r (dy_registry u)) = length (agents_by_run r (dy_registry t))"
    using elsewhere(2) unfolding agents_by_run_def agents_def undisturbed_def by metis
  with elsewhere show ?case by simp
next
  case (spawn t e q team required by_whom parent u y)
  note law = spawns_lawful [OF spawn(1) spawn.prems]
  from spawn(4) lawfulD(2) [OF law] spawn(3) show ?case
  proof (cases rule: spawn_effect)
    case (child pa depth s1 p a)
    have new: "de_agent_id e \<notin> set (map fst (reg_agents (dy_registry t)))"
      using spawn(2) by (simp add: fresh_child_def get_agent_def map_of_eq_None_iff)
    have "agents_by_run r (dy_registry u) = agents_by_run r (dy_registry t) @ (if ag_run_id a = r then [a] else [])"
      by (simp add: agents_by_run_def agents_def child(3) update_new [OF new])
    moreover have "ag_run_id a = q" using child(4) by (simp add: agent_origin_def)
    ultimately show ?thesis using admitted(1) [OF child(1)] spawn.IH [OF spawn.prems] by (auto split: if_splits)
  qed (use spawn in simp)
qed simp


section \<open>Examples\<close>

definition squad_agent :: agent_instance where
  "squad_agent = \<lparr>ag_agent_id = ''p1'', ag_team_id = ''t'', ag_run_id = ''r'', ag_profile_id = ''planner'', ag_name = ''Planner'',
     ag_role = ''Planner'', ag_description = [], ag_session_id = ''s1'', ag_thread_id = ''th1'', ag_checkpoint_namespace = ''n'',
     ag_status = Agent_RUNNING, ag_current_task_id = None, ag_workspace_root = ''/w'', ag_worktree_path = [], ag_mailbox_cursor = 0,
     ag_last_heartbeat_at = None, ag_capabilities = [''planning''], ag_metadata = [], ag_created_at = 0, ag_updated_at = 0,
     ag_stopped_at = None, ag_max_concurrency = 1\<rparr>"

definition squad :: dyn_state where
  "squad = \<lparr>dy_registry = \<lparr>reg_agents = [(''p1'', squad_agent)], reg_lease_timeout = 60, reg_rows = []\<rparr>,
     dy_profiles = default_registry, dy_sessions = \<lparr>sv_sessions = [], sv_actors = [], sv_rows = [], sv_queue = []\<rparr>,
     dy_links = [], dy_log = \<lparr>log_events = [], log_envelopes = []\<rparr>\<rparr>"

definition squad_env :: "hook_engine \<Rightarrow> dyn_env" where
  "squad_env hooks = \<lparr>de_order = id, de_scored_at = (\<lambda>k. 0), de_write = (\<lambda>k. True), de_clock = int, de_agent_id = ''c1'',
     de_session_id = ''s2'', de_thread_id = ''th2'', de_event_id = (\<lambda>k. str_nat k), de_redact = id, de_hooks = hooks, de_in_loop = False\<rparr>"

definition squad_after :: "hook_engine \<Rightarrow> dyn_state \<times> (spawn_error + agent_instance)" where
  "squad_after hooks =
     dynamic_spawn (squad_env hooks) new_team_budget new_spawn_policy ''r'' ''t'' [''coding''] ''p1'' ''p1'' squad"

lemma squad_founded: "founded squad"
proof -
  have "map fst (cr_profiles default_registry) = [''planner'', ''coder'', ''tester'', ''reviewer'', ''researcher'', ''finalizer'']" by code_simp
  then have "get_profile (child_profile_id i a) default_registry = None" for i a
    unfolding get_profile_def map_of_eq_None_iff list.set_map [symmetric]
    by (auto simp: child_profile_id_def dest: arg_cong [where f = "\<lambda>x. CHR '':'' \<in> set x"])
  then show ?thesis
    by (auto simp: founded_def squad_def squad_agent_def wf_registry_def default_exact get_agent_def plain_id_def split: if_splits)
qed

lemma squad_links: "map_of (dy_links (fst (squad_after []))) ''c1'' = Some \<lparr>al_run_id = ''r'', al_parent = ''p1'', al_child = ''c1'',
    al_depth = 1, al_created_at = 6\<rparr>"
  by code_simp

lemma squad_spawns: "spawns new_team_budget new_spawn_policy squad (fst (squad_after []))"
  by (rule spawns.spawn [OF spawns.start, of "squad_env []"])
    (auto simp: squad_after_def fresh_child_def squad_env_def fair_order_def plain_id_def squad_def get_agent_def intro: prod.collapse [symmetric])

lemma squad_descends: "descends (fst (squad_after [])) ''p1'' ''c1'' (Suc 0)"
  using descends.linked [OF squad_links descends.itself] by simp

theorem delegation_never_adds_tools_witness:
  "\<exists>x. profile_of (fst (squad_after [])) ''c1'' = Some x \<and> ''execute'' \<notin> set (restricted_tools (pf_tools x) [])"
proof -
  have "map_option (\<lambda>p. restricted_tools (pf_tools p) []) (profile_of (fst (squad_after [])) ''p1'') =
      Some [''read_file'', ''list_dir'', ''create_file'', ''edit_file'']" by code_simp
  then obtain p where p: "profile_of (fst (squad_after [])) ''p1'' = Some p"
    "restricted_tools (pf_tools p) [] = [''read_file'', ''list_dir'', ''create_file'', ''edit_file'']" by auto
  from delegation_never_adds_tools [OF squad_spawns squad_founded squad_descends p(1)] p(2) show ?thesis by auto
qed


text \<open>Capabilities are not restricted with the tools: the planner's child counts as able to run processes and has no tool for it.\<close>

lemma capability_without_tool:
  "map_option (\<lambda>a. ''shell_execute'' \<in> set (ag_capabilities a)) (get_agent (dy_registry (fst (squad_after []))) ''c1'') = Some True"
  by code_simp

text \<open>The child's profile is registered for all runs. After one failure of the coder it is the best one for any task of coding.\<close>

lemma child_profile_takes_over:
  "map_option (\<lambda>p. (pf_id p, restricted_tools (pf_tools p) []))
     (find_best_worker id (\<lambda>k. 0) [''coding''] (record_failure 0 ''coder'' (dy_profiles (fst (squad_after []))))) =
   Some (''coder:child:p1'', [''read_file'', ''list_dir'', ''create_file'', ''edit_file''])"
  by code_simp

text \<open>The team tools are not restricted: when the named ones have nothing in common, the child is given all of them.\<close>

lemma team_tools_escape:
  assumes "tp_team_tools c" "\<forall>t \<in> set (tp_allowed_tools c) \<inter> set (tp_allowed_tools p). \<not> starts_with ''team_'' t"
  shows "set team \<subseteq> set (restricted_tools (child_policy c p) team)"
proof -
  have "filter (starts_with ''team_'') (tp_allowed_tools (child_policy c p)) = []"
    using assms(2) by (auto simp: child_policy_def filter_empty_conv)
  then show ?thesis using assms(1) by (auto simp: restricted_tools_def child_policy_def Let_def)
qed

text \<open>A hook that disallows without blocking does not stop a spawn; one that blocks leaves a stopped agent that counts as a member.\<close>

definition squad_hook :: "hook_result \<Rightarrow> hook" where
  "squad_hook res = (demo_hook ''h'' ''project'' (Inr res))\<lparr>hk_event := Ev_TEAMMATE_SPAWNED\<rparr>"

lemma disallowing_hook_spawns:
  "map_sum id ag_agent_id (snd (squad_after [squad_hook (default_result\<lparr>hr_allow := False\<rparr>)])) = Inr ''c1''"
  by code_simp

lemma blocked_spawn_counts:
  "map_sum id ag_agent_id (snd (squad_after [squad_hook (default_result\<lparr>hr_block := True, hr_feedback := ''no''\<rparr>)])) =
     Inl (Spawn_denied ''no'') \<and>
   map (\<lambda>a. (ag_agent_id a, ag_status a)) (agents_by_run ''r''
     (dy_registry (fst (squad_after [squad_hook (default_result\<lparr>hr_block := True, hr_feedback := ''no''\<rparr>)])))) =
     [(''p1'', Agent_RUNNING), (''c1'', Agent_STOPPED)]"
  by code_simp

end
