(* ===== verification/Spec2Isabelle.thy ===== *)
theory Spec2Isabelle
  imports Task_Graph_Props Task_Board_Props Reliability Agent_Registry_Props Run_Store_Props
    Governance_Props Scheduler_Ends Mailbox_Recovery Teammate_Session_Props Lifecycle_Hooks
    Artifact_Recovery Worker_Ends Plan_Replacement Root_Run_Ends Verifier_Ends Planner_Props Dynamic_Team_Props
begin

text \<open>
  A verification development for MegaDeepagents, a runtime in which a planner breaks a request into a graph of
  tasks and a team of language-model agents works on them. Modelled is the deterministic core under
  \<open>src/app\<close> that decides what is run, by whom, when, with which permission, and what counts as done. The
  language models, processes, Git, SQLite's SQL and the network are parameters.

  \<^bold>\<open>The program and its theories.\<close> A request becomes a \<open>TaskGraph\<close> (\<open>multiagent/task_graph.py\<close>), which is
  materialised on the \<open>TaskBoard\<close> (\<open>multiagent/task_board.py\<close>). The \<open>ParallelTeamScheduler\<close>
  (\<open>multiagent/parallel_scheduler.py\<close>) matches claimable tasks with idle agents of the \<open>AgentRegistry\<close>
  (\<open>multiagent/agent_registry.py\<close>), and runs one worker coroutine for each. A worker claims its task, has its plan
  approved, executes, stores artifacts, is verified, and settles the task; on the way it asks the permission broker,
  the shell policy, the lifecycle hooks and the mailbox. Leases, events, runs and task runs are rows of
  \<open>infrastructure/database/run_store.py\<close>.

  \<^item> \<open>Py_Prelude\<close>: Python values, instants, dictionaries as association lists, string helpers; the facts about them
    that all proofs share.
  \<^item> \<open>Lifecycle\<close>, \<open>Channel\<close>: the interfaces. \<open>Lifecycle\<close> is the contract of a guarded status field, interpreted
    for plan nodes and agents; \<open>Channel\<close> holds the contracts of a lossy and of a reliable channel, interpreted for an
    inbox (\<open>Mailbox_Props\<close>) and for a command queue (\<open>Teammate_Session_Props\<close>).
  \<^item> \<open>Task_Graph\<close>: nodes, budgets, contracts and every method of \<open>TaskGraph\<close>. \<open>Task_Graph_Order\<close> relates Kahn's
    algorithm and the depth-first search to acyclicity and reachability, \<open>Task_Graph_Ops\<close> shows what the mutations
    keep, \<open>Task_Graph_Props\<close> holds the properties.
  \<^item> \<open>Task_Board\<close>: the fourteen transitions of a board task, its durable rows, resume and purge. \<open>Task_Board_Inv\<close>
    is the abstract task machine and the simulation of it, \<open>Task_Board_Runs\<close> the operations on a whole run,
    \<open>Task_Board_Races\<close> claims by several processes and repeated failures, \<open>Task_Board_Props\<close> the properties.
  \<^item> \<open>Reliability\<close> (\<open>runtime/reliability.py\<close>): failure categories and bounded backoff.
  \<^item> \<open>Agent_Registry\<close>, \<open>Agent_Registry_Props\<close>: reservation, release, heartbeats and the reaper.
  \<^item> \<open>Run_Store\<close>, \<open>Run_Store_Props\<close>: leases, event envelopes with redaction and replay, runs and task runs.
  \<^item> \<open>Permission\<close>, \<open>Shell_Policy\<close>, \<open>Plan_Approval\<close> with \<open>Permission_Props\<close> and \<open>Governance_Props\<close>: the broker
    (\<open>permission.py\<close>), the command policy (\<open>shell_policy.py\<close>) and the plan gate (\<open>plan_approval.py\<close>).
  \<^item> \<open>Scheduler\<close>: discovery of a wave, the idle pass, the retry wait, finalisation and the passes of the loop.
    \<open>Scheduler_Wave\<close> is about the matching, \<open>Scheduler_Props\<close> and \<open>Scheduler_Ends\<close> hold the properties.
  \<^item> \<open>Mailbox\<close>, \<open>Mailbox_Props\<close>, \<open>Mailbox_Recovery\<close> (\<open>mailbox.py\<close>): inboxes, policy hooks, rate limit, capacity,
    waiting, snapshots and the durable rows.
  \<^item> \<open>Teammate_Session\<close>, \<open>Teammate_Session_Props\<close> (\<open>teammate_session.py\<close>): sessions, the durable command queues,
    the safety point and the loop of an actor.
  \<^item> \<open>Lifecycle_Hooks\<close> (\<open>lifecycle_hooks.py\<close>): registration, order, outcome and combination of hooks.
  \<^item> \<open>Artifact_Store\<close>, \<open>Artifact_Store_Props\<close>, \<open>Artifact_Recovery\<close> (\<open>artifact.py\<close>): evidence files, their rows,
    integrity and reload.
  \<^item> \<open>Worker\<close>: the coroutine \<open>_run_one\<close> over the states of all of these. \<open>Worker_Logic\<close> is a small program logic
    for it (triples with a postcondition for results and one for exceptions), \<open>Worker_Props\<close> and \<open>Worker_Ends\<close> apply it.
  \<^item> \<open>Task_Service\<close>, \<open>Plan_Registration\<close> (\<open>transactional_task_service.py\<close>): the transactional writer of plans.
    \<open>Task_Service_Props\<close> states the interface of a structural change and what a transaction commits,
    \<open>Task_Service_Races\<close> the histories of interleaved calls, \<open>Task_Service_Ends\<close> and \<open>Plan_Replacement\<close> the properties.
  \<^item> \<open>Supervisor\<close> (\<open>runtime/supervisor/agent.py\<close>): the mode and the capabilities of a request. \<open>Root_Graph\<close> and
    \<open>Root_Run\<close> (\<open>runtime/root_graph/graph.py\<close>): the state machine of a run, one function per node, its edges and the
    loop over them. \<open>Root_Run_Props\<close> has what each node leaves of the state, the gate before \<open>finalize\<close> and the
    bound on the nodes of a run, \<open>Root_Run_Ends\<close> the properties and their runs.
  \<^item> \<open>Verifier\<close> (\<open>verifier.py\<close>): compilation of a contract, programmatic checks, the model's rubric and their merging.
    \<open>Verifier_Props\<close> and \<open>Verifier_Ends\<close> say what a PASS means and when a model's answer does not count.
  \<^item> \<open>Planner\<close> (\<open>planner.py\<close>): the model's JSON made a graph, with the correction of capabilities, the default criteria, the
    choice of a root and the attempts. \<open>Planner_Props\<close> shows that what is accepted can be scheduled.
  \<^item> \<open>Tool_Journal\<close> (\<open>tool_runtime.py\<close>), \<open>Tools\<close> (\<open>executor.py\<close>, the runner of \<open>shell_policy.py\<close>): the five governed tools of a
    worker over files, broker, shell policy and journal, with the budget of calls and the boundary of hooks and events.
    \<open>Tools_Props\<close> has the interface of a part of the state that tools leave alone and the histories of the journal,
    \<open>Tools_Ends\<close> the closing of calls and the confinement to the workspace, \<open>Tools_Budget\<close> the bound over attempts.
  \<^item> \<open>Agent_Profiles\<close> (\<open>agent_profile.py\<close>): the registry of worker profiles, its index, scores and default profiles.
    \<open>Team_Builder\<close> (\<open>team_builder.py\<close>): which profiles a plan needs, how many agents of each, and their creation.
    \<open>Team_Builder_Props\<close> shows that a built team serves every task of the plan, and each depth of it in parallel.
  \<^item> \<open>Executor\<close> (\<open>executor.py\<close>): one execution of a task: profile, tools, inputs, the two invocations of the agent, the
    files it left, their publication and the outcome. \<open>Executor_Props\<close> has the evidence of a success and the calls a
    task may start, \<open>Executor_Ends\<close> the tasks that are staffed and dispatched and then refused.
  \<^item> \<open>Dynamic_Team\<close> (\<open>dynamic_team.py\<close>): a teammate brings in another one. \<open>Dynamic_Team_Props\<close> shows over all histories
    of delegation that rights only shrink and that the budget holds.

  \<^bold>\<open>Conventions.\<close> A class is a record, an enum a datatype, a dictionary an association list in insertion order, a
  database table an association list by primary key in row order. An operation returns the new state with its result,
  and an exception is the left of a sum: what had been changed before it was raised stays changed. A durable write is
  a parameter \<open>wr\<close> that says whether it goes through. Clock readings, generated identifiers and texts of foreign
  exceptions are arguments. An instant is an integer of microseconds, a duration a rational of seconds.

  \<^bold>\<open>What the lemmas show.\<close> Well-formedness of each state and its preservation by every operation; for the loops the
  reference notions they compute (acyclicity, reachability, maximal matching, the sorted list of what qualifies); the
  board and the agents as refinements of their status tables; exclusivity of leases, claims, reservations and one-time
  grants over arbitrary interleavings, given as lists of operations; channels and logs as gapless or lossy sequences;
  round trips of every store with its rows; and for the worker that a task succeeds only on verified evidence and that
  no exit keeps the agent. Where the code departs from its documentation, the theorem states what it does, and a lemma
  evaluates the departure on an example.

  \<^bold>\<open>Bounds and termination.\<close> Kahn's loops and the depth-first search terminate by the remaining degrees and the
  unseen keys. The loop of the scheduler is a function of one pass, iterated over the list of what happens between the
  passes, so no fuel is needed; the same holds for the loop of an actor. The floating-point backoff is modelled by
  rationals for up to 1024 attempts, beyond which the power of two overflows.

  \<^bold>\<open>Not modelled.\<close> What a language model answers and which tools it calls (arguments), prompts, token streams and
  checkpoints, collaboration tools, Git subprocesses, the wiring of a run (\<open>team_runtime.py\<close>), the older chat rooms, the
  layered memory, HTTP routes, SQL text and schema, configuration, logging and metrics: they compute nothing these
  properties speak of, or they are effects outside the process. SQLite is taken to serialise \<open>BEGIN IMMEDIATE\<close>
  transactions. Threads are modelled only where the code awaits: between two awaits a coroutine runs alone. JSON is the
  identity on the values that are stored.
\<close>

end
